(* ===== verification/Price_Registry.thy ===== *)
theory Price_Registry
  imports Ordered_Map
begin

text \<open>
  The feed registry of the price-feed crate (\<open>registry.rs\<close>), its constants (\<open>constants.rs\<close>)
  and its clock (\<open>clock.rs\<close>). A registry is the list of feed definitions in ascending order of
  their ids, so every node that is given the same feeds enumerates them alike.
\<close>

subsection \<open>Constants\<close>

definition VALIDITY_WINDOW :: u64 where "VALIDITY_WINDOW = 300"
definition SOURCE_DATA_VALIDITY_DURATION :: u64 where "SOURCE_DATA_VALIDITY_DURATION = 300"
definition MAX_CLOCK_SKEW :: u64 where "MAX_CLOCK_SKEW = 5"
definition MAX_POLLING_ERROR_NUM :: u32 where "MAX_POLLING_ERROR_NUM = 5"
definition POLLING_RETRY_TIME :: u64 where "POLLING_RETRY_TIME = 60"
definition MAX_ACCEPT_DEVIATION_FEED_BPS :: u64 where "MAX_ACCEPT_DEVIATION_FEED_BPS = 100"

lemmas price_constants =
  VALIDITY_WINDOW_def SOURCE_DATA_VALIDITY_DURATION_def MAX_CLOCK_SKEW_def
  MAX_POLLING_ERROR_NUM_def POLLING_RETRY_TIME_def MAX_ACCEPT_DEVIATION_FEED_BPS_def

subsection \<open>Clock\<close>

text \<open>\<open>System\<close> reads the operating system's clock, which is an argument; \<open>Fixed\<close> does not.\<close>

datatype clock = System | Fixed u64

fun clock_now :: "u64 \<Rightarrow> clock \<Rightarrow> u64" where
  "clock_now unix_now System = unix_now"
| "clock_now unix_now (Fixed seconds) = seconds"

subsection \<open>Assets and feed definitions\<close>

datatype asset = Lbtc | Usd | Usdt | Eurx | DePix | Usdc

fun symbol :: "asset \<Rightarrow> string" where
  "symbol Lbtc = ''LBTC''"
| "symbol Usd = ''USD''"
| "symbol Usdt = ''USDT''"
| "symbol Eurx = ''EURX''"
| "symbol DePix = ''DEPIX''"
| "symbol Usdc = ''USDC''"

datatype feed_kind = Direct | Cross

type_synonym feed_id = u32

record feed_definition =
  fd_id :: feed_id
  fd_base :: asset
  fd_quote :: asset
  fd_kind :: feed_kind
  fd_decimals :: u32

definition FEED_DECIMALS :: u32 where "FEED_DECIMALS = 8"

definition feed_definition_new :: "feed_id \<Rightarrow> asset \<Rightarrow> asset \<Rightarrow> feed_kind \<Rightarrow> feed_definition" where
  "feed_definition_new i b q k =
     \<lparr>fd_id = i, fd_base = b, fd_quote = q, fd_kind = k, fd_decimals = FEED_DECIMALS\<rparr>"

definition SUPPORTED_FEEDS :: "feed_definition list" where
  "SUPPORTED_FEEDS =
     [feed_definition_new 0 Lbtc Usd Direct,
      feed_definition_new 1 Usdt Usd Direct,
      feed_definition_new 2 Eurx Usd Direct,
      feed_definition_new 3 DePix Usd Direct,
      feed_definition_new 4 Lbtc Usdt Cross,
      feed_definition_new 5 Eurx Usdt Cross,
      feed_definition_new 6 DePix Usdt Cross,
      feed_definition_new 7 Usdc Usd Direct]"

subsection \<open>Registry\<close>

type_synonym feed_registry = "feed_definition list"

definition registry_new :: "feed_definition list \<Rightarrow> feed_registry" where
  "registry_new feeds = sort_key fd_id feeds"

definition registry_get :: "feed_registry \<Rightarrow> feed_id \<Rightarrow> feed_definition option" where
  "registry_get r feed = find (\<lambda>definition. fd_id definition = feed) r"

definition default_registry :: feed_registry where
  "default_registry = registry_new SUPPORTED_FEEDS"

lemma registry_get_SomeD:
  "registry_get r feed = Some d \<Longrightarrow> d \<in> set r \<and> fd_id d = feed"
  unfolding registry_get_def by (rule find_SomeD)

lemma registry_get_None_iff:
  "registry_get r feed = None \<longleftrightarrow> feed \<notin> fd_id ` set r"
  by (auto simp: registry_get_def find_None_iff)

lemma set_registry_new [simp]: "set (registry_new fs) = set fs"
  by (simp add: registry_new_def)

lemma registry_get_distinct:
  "distinct (map fd_id r) \<Longrightarrow> d \<in> set r \<Longrightarrow> registry_get r (fd_id d) = Some d"
proof (induction r)
  case (Cons e r)
  then show ?case by (auto simp: registry_get_def)
qed simp

text \<open>
  The order in which feeds are registered does not matter as long as their ids are distinct:
  the sorted registry is the same list.
\<close>

lemma registry_new_permuted:
  assumes "mset fs = mset gs" and "distinct (map fd_id fs)"
  shows "registry_new fs = registry_new gs"
proof -
  have sets: "set fs = set gs" using assms(1) by (metis set_mset_mset)
  have inj: "inj_on fd_id (set fs)" using assms(2) by (simp add: distinct_map)
  have "mset (map fd_id fs) = mset (map fd_id gs)" using assms(1) by simp
  then have "distinct (map fd_id gs)" using assms(2) by (metis mset_eq_imp_distinct_iff)
  then have dist: "distinct (map fd_id (registry_new fs))" "distinct (map fd_id (registry_new gs))"
    using assms(2) by (simp_all add: registry_new_def distinct_map)
  have "map fd_id (registry_new fs) = map fd_id (registry_new gs)"
    using dist sets by (intro sorted_distinct_set_unique) (simp_all add: registry_new_def)
  then show ?thesis
    using inj sets by (intro map_inj_on [where f = fd_id]) simp_all
qed

lemma sorted_registry_new: "sorted (map fd_id (registry_new fs))"
  by (simp add: registry_new_def)

lemma default_registry_eq: "default_registry = SUPPORTED_FEEDS"
  unfolding default_registry_def registry_new_def SUPPORTED_FEEDS_def feed_definition_new_def
  by simp

lemma default_registry_distinct: "distinct (map fd_id default_registry)"
  by (simp add: default_registry_eq SUPPORTED_FEEDS_def feed_definition_new_def)

end
