(* ===== verification/Price_Data.thy ===== *)
theory Price_Data
  imports Price_Registry
begin

text \<open>
  The value a node signs for a feed (\<open>price_data.rs\<close>): its canonical 32-byte encoding, which
  is what the price signature commits to, and the two plausibility checks both the attestation
  check and the instruction check read.
\<close>

record price_feed_data =
  feed_id :: feed_id
  price :: u64
  decimals :: u32
  received_at :: u64
  valid_until :: u64

definition PRICE_FEED_DATA_LEN :: nat where "PRICE_FEED_DATA_LEN = 32"

datatype decode_error = InvalidLength nat

subsection \<open>The canonical encoding\<close>

definition to_bytes :: "price_feed_data \<Rightarrow> bytes" where
  "to_bytes d =
     be_bytes 4 (unat (feed_id d)) @ be_bytes 4 (unat (decimals d)) @
     be_bytes 8 (unat (price d)) @ be_bytes 8 (unat (received_at d)) @
     be_bytes 8 (unat (valid_until d))"

definition byte_range :: "nat \<Rightarrow> nat \<Rightarrow> bytes \<Rightarrow> bytes" where
  "byte_range i j bs = take (j - i) (drop i bs)"

definition from_bytes :: "bytes \<Rightarrow> decode_error + price_feed_data" where
  "from_bytes bs =
     (if length bs \<noteq> PRICE_FEED_DATA_LEN then Inl (InvalidLength (length bs))
      else Inr \<lparr>feed_id = word_of_nat (be_value (byte_range 0 4 bs)),
                price = word_of_nat (be_value (byte_range 8 16 bs)),
                decimals = word_of_nat (be_value (byte_range 4 8 bs)),
                received_at = word_of_nat (be_value (byte_range 16 24 bs)),
                valid_until = word_of_nat (be_value (byte_range 24 32 bs))\<rparr>)"

subsection \<open>Plausibility of the time stamps\<close>

definition stamped_ahead :: "price_feed_data \<Rightarrow> u64 \<Rightarrow> bool" where
  "stamped_ahead d now \<longleftrightarrow> sat_add now MAX_CLOCK_SKEW < received_at d"

definition validity_stretched :: "price_feed_data \<Rightarrow> bool" where
  "validity_stretched d \<longleftrightarrow> sat_add (received_at d) VALIDITY_WINDOW < valid_until d"

lemma not_stretched_iff:
  "\<not> validity_stretched d \<longleftrightarrow>
   unat (valid_until d) \<le> unat (received_at d) + 300"
  using unat_u64_bound [of "valid_until d"]
  by (auto simp: validity_stretched_def word_facts price_constants)

lemma not_stamped_ahead_iff:
  "\<not> stamped_ahead d now \<longleftrightarrow> unat (received_at d) \<le> unat now + 5"
  using unat_u64_bound [of "received_at d"]
  by (auto simp: stamped_ahead_def word_facts price_constants)

lemma length_to_bytes: "length (to_bytes d) = PRICE_FEED_DATA_LEN"
  by (simp add: to_bytes_def PRICE_FEED_DATA_LEN_def)

lemma byte_range_to_bytes:
  "byte_range 0 4 (to_bytes d) = be_bytes 4 (unat (feed_id d))"
  "byte_range 4 8 (to_bytes d) = be_bytes 4 (unat (decimals d))"
  "byte_range 8 16 (to_bytes d) = be_bytes 8 (unat (price d))"
  "byte_range 16 24 (to_bytes d) = be_bytes 8 (unat (received_at d))"
  "byte_range 24 32 (to_bytes d) = be_bytes 8 (unat (valid_until d))"
  by (simp_all add: byte_range_def to_bytes_def)

lemma word_of_be_bytes_32: "word_of_nat (be_value (be_bytes 4 (unat x))) = (x :: u32)"
  using unat_u32_bound [of x] by (simp add: be_value_be_bytes)

lemma word_of_be_bytes_64: "word_of_nat (be_value (be_bytes 8 (unat x))) = (x :: u64)"
  using unat_u64_bound [of x] by (simp add: be_value_be_bytes)

lemma from_bytes_to_bytes: "from_bytes (to_bytes d) = Inr d"
  by (simp add: from_bytes_def length_to_bytes byte_range_to_bytes word_of_be_bytes_32
      word_of_be_bytes_64)

lemma be_bytes_word_32:
  "length bs = 4 \<Longrightarrow> be_bytes 4 (unat (word_of_nat (be_value bs) :: u32)) = bs"
  using be_value_bound [of bs] be_bytes_be_value [of bs 4] by (simp add: unat_of_nat)

lemma be_bytes_word_64:
  "length bs = 8 \<Longrightarrow> be_bytes 8 (unat (word_of_nat (be_value bs) :: u64)) = bs"
  using be_value_bound [of bs] be_bytes_be_value [of bs 8] by (simp add: unat_of_nat)

lemma to_bytes_from_bytes:
  assumes "from_bytes bs = Inr d"
  shows "to_bytes d = bs"
proof -
  have len: "length bs = 32" and d: "Inr d = from_bytes bs"
    using assms by (auto simp: from_bytes_def PRICE_FEED_DATA_LEN_def split: if_splits)
  have parts: "bs = byte_range 0 4 bs @ byte_range 4 8 bs @ byte_range 8 16 bs @
      byte_range 16 24 bs @ byte_range 24 32 bs"
  proof -
    have cut: "drop i bs = byte_range i (i + n) bs @ drop (i + n) bs" for i n
      by (simp add: byte_range_def flip: drop_drop) (metis add.commute append_take_drop_id drop_drop)
    show ?thesis
      using cut [of 0 4] cut [of 4 4] cut [of 8 8] cut [of 16 8] cut [of 24 8] len by simp
  qed
  have "to_bytes d = byte_range 0 4 bs @ byte_range 4 8 bs @ byte_range 8 16 bs @
      byte_range 16 24 bs @ byte_range 24 32 bs"
    using d len
    by (simp add: from_bytes_def PRICE_FEED_DATA_LEN_def to_bytes_def byte_range_def
        be_bytes_word_32 be_bytes_word_64)
  with parts show ?thesis by simp
qed

text \<open>
  The canonical encoding of a price is a bijection onto the 32-byte strings. Decoding a byte
  string gives a value exactly when that string is the value's encoding, so two different prices
  never share the bytes a signature commits to, and any other length is refused with its length.
\<close>

lemma price_encoding_canonical:
  "(from_bytes bs = Inr d \<longleftrightarrow> to_bytes d = bs) \<and>
   (from_bytes bs = Inl e \<longleftrightarrow> length bs \<noteq> PRICE_FEED_DATA_LEN \<and> e = InvalidLength (length bs))"
proof
  show "from_bytes bs = Inr d \<longleftrightarrow> to_bytes d = bs"
    using to_bytes_from_bytes from_bytes_to_bytes by blast
  show "from_bytes bs = Inl e \<longleftrightarrow> length bs \<noteq> PRICE_FEED_DATA_LEN \<and> e = InvalidLength (length bs)"
    by (auto simp: from_bytes_def)
qed

end
