(* ===== verification/Price_Source.thy ===== *)
theory Price_Source
  imports Price_Data
begin

text \<open>
  What a polled source answers and when the answer is accepted (\<open>source.rs\<close>). The poll itself
  is a request to a third-party price API and is an argument of the definitions that use it.
\<close>

record source_observation =
  ob_price :: u64
  ob_decimals :: u32
  ob_observed_at :: u64
  ob_received_at :: u64
  ob_valid_until :: u64

definition source_observation_new :: "u64 \<Rightarrow> u32 \<Rightarrow> u64 \<Rightarrow> u64 \<Rightarrow> source_observation" where
  "source_observation_new p d observed received =
     \<lparr>ob_price = p, ob_decimals = d, ob_observed_at = observed, ob_received_at = received,
      ob_valid_until = sat_add received VALIDITY_WINDOW\<rparr>"

datatype connection_error = RequestFailure | MalformedResponse

datatype rejection_reason = InvalidPrice | Expired | ClockSkewExceeded | StaleObservation

datatype source_state = Active | Dropped | Frozen

definition validate_observation :: "source_observation \<Rightarrow> u64 option \<Rightarrow> rejection_reason + unit" where
  "validate_observation obs last_observed_at =
     (let behind = sat_sub (ob_received_at obs) (ob_observed_at obs);
          ahead = sat_sub (ob_observed_at obs) (ob_received_at obs)
      in if ob_price obs = 0 then Inl InvalidPrice
         else if SOURCE_DATA_VALIDITY_DURATION < behind then Inl Expired
         else if MAX_CLOCK_SKEW < ahead then Inl ClockSkewExceeded
         else if (case last_observed_at of None \<Rightarrow> False | Some l \<Rightarrow> ob_observed_at obs \<le> l)
              then Inl StaleObservation
         else Inr ())"

text \<open>The window an observation is valid for closes one window after it was received.\<close>

definition well_stamped :: "source_observation \<Rightarrow> bool" where
  "well_stamped obs \<longleftrightarrow> ob_valid_until obs = sat_add (ob_received_at obs) VALIDITY_WINDOW"

lemma source_observation_new_well_stamped: "well_stamped (source_observation_new p d obs rec)"
  by (simp add: well_stamped_def source_observation_new_def)

text \<open>
  An observation passes validation exactly when its price is not zero, its observation time
  lies within 300 seconds behind and 5 seconds ahead of its receipt (read as unbounded numbers, so
  the saturating subtractions lose nothing), and it is strictly newer than the last one recorded
  for its source.
\<close>

lemma validate_observation_accepts_iff:
  "validate_observation obs previous = Inr () \<longleftrightarrow>
     ob_price obs \<noteq> 0 \<and>
     unat (ob_received_at obs) \<le> unat (ob_observed_at obs) + 300 \<and>
     unat (ob_observed_at obs) \<le> unat (ob_received_at obs) + 5 \<and>
     (previous = None \<or> unat (the previous) < unat (ob_observed_at obs))"
  by (cases previous) (auto simp: validate_observation_def Let_def word_facts price_constants)

end
