(* ===== verification/Price_Reduce.thy ===== *)
theory Price_Reduce
  imports Price_Source
begin

text \<open>
  Reducing a feed's valid observations to one price (\<open>reduce.rs\<close>). The locale \<open>price_reducer\<close>
  is the contract of the trait \<open>Reducer\<close> that the feed state relies on; the median reducer is
  interpreted as one.
\<close>

definition median :: "source_observation list \<Rightarrow> u64 option" where
  "median observations =
     (let prices = sort (map ob_price observations);
          middle = length prices div 2
      in if length prices mod 2 = 1 then Some (prices ! middle)
         else
           let total = (ucast (prices ! (middle - 1)) :: u128) + ucast (prices ! middle);
               half = total div 2;
               rounded = (if total mod 2 = 1 \<and> half mod 2 = 1 then half + 1 else half)
           in if unat rounded < 2 ^ 64 then Some (ucast rounded) else None)"

definition median_reduce ::
  "feed_registry \<Rightarrow> feed_id \<Rightarrow> source_observation list \<Rightarrow> price_feed_data option" where
  "median_reduce registry feed valid_obs =
     (case registry_get registry feed of None \<Rightarrow> None
      | Some definition \<Rightarrow>
          if valid_obs = [] \<or> (\<exists>observation \<in> set valid_obs. ob_decimals observation \<noteq> fd_decimals definition)
          then None
          else (case median valid_obs of None \<Rightarrow> None
                | Some p \<Rightarrow>
                    Some \<lparr>feed_id = feed, price = p, decimals = fd_decimals definition,
                          received_at = Min (set (map ob_received_at valid_obs)),
                          valid_until = Min (set (map ob_valid_until valid_obs))\<rparr>))"

text \<open>The code reads the two middle prices only of a non-empty list, where both are in range.\<close>

lemma median_indices_in_range:
  "obs \<noteq> [] \<Longrightarrow> length obs div 2 < length obs \<and>
   (even (length obs) \<longrightarrow> 1 \<le> length obs div 2)"
  by (cases obs) auto

subsection \<open>The value of the median\<close>

lemma unat_sum_u128:
  "unat ((ucast (a :: u64) :: u128) + ucast (b :: u64)) = unat a + unat b"
proof -
  have "unat a + unat b < 2 ^ 128"
    using unat_u64_bound [of a] unat_u64_bound [of b] by simp
  then show ?thesis by (simp add: unat_word_ariths unat_ucast_widen)
qed

lemma unat_div_2: "unat (x div 2 :: u128) = unat x div 2"
  by (simp add: unat_div)

lemma unat_mod_2: "unat (x mod 2 :: u128) = unat x mod 2"
  by (simp add: unat_mod)

definition half_even :: "u64 \<Rightarrow> u64 \<Rightarrow> nat" where
  "half_even a b = round_half_even (unat a + unat b) 2"

lemma half_even_eq:
  "half_even a b =
     (let s = unat a + unat b in if s mod 2 = 1 \<and> s div 2 mod 2 = 1 then s div 2 + 1 else s div 2)"
  by (auto simp: half_even_def round_half_even_def Let_def not_mod_2_eq_1_eq_0)

lemma half_even_between:
  assumes "lo \<le> unat a" "lo \<le> unat b" "unat a \<le> hi" "unat b \<le> hi"
  shows "lo \<le> half_even a b" and "half_even a b \<le> hi"
proof -
  let ?s = "unat a + unat b"
  have "?s mod 2 = 1 \<longrightarrow> unat a \<noteq> unat b" by presburger
  then have "?s mod 2 = 1 \<longrightarrow> ?s + 1 \<le> 2 * hi" using assms by linarith
  then show "lo \<le> half_even a b" and "half_even a b \<le> hi"
    using assms unfolding half_even_eq Let_def by (auto; presburger)+
qed

lemma median_total:
  assumes "obs \<noteq> []"
  shows "median obs =
    (let prices = sort (map ob_price obs); middle = length prices div 2
     in Some (if length prices mod 2 = 1 then prices ! middle
              else word_of_nat (half_even (prices ! (middle - 1)) (prices ! middle))))"
proof (cases "length obs mod 2 = 1")
  case True
  then show ?thesis by (simp add: median_def Let_def)
next
  case False
  define a where "a = sort (map ob_price obs) ! (length obs div 2 - 1)"
  define b where "b = sort (map ob_price obs) ! (length obs div 2)"
  define t where "t = (ucast a :: u128) + ucast b"
  define r where "r = (if t mod 2 = 1 \<and> t div 2 mod 2 = 1 then t div 2 + 1 else t div 2)"
  have t: "unat t = unat a + unat b" unfolding t_def by (rule unat_sum_u128)
  have tests: "t mod 2 = 1 \<longleftrightarrow> unat t mod 2 = 1" "t div 2 mod 2 = 1 \<longleftrightarrow> unat t div 2 mod 2 = 1"
    by (simp_all add: word_unat_eq_iff unat_mod unat_div)
  have bound: "half_even a b \<le> 18446744073709551615"
    by (rule half_even_between(2) [where lo = 0])
      (use unat_u64_bound [of a] unat_u64_bound [of b] in auto)
  have "unat (t div 2 + 1) = unat t div 2 + 1"
    using unat_u64_bound [of a] unat_u64_bound [of b]
    by (simp add: unat_word_ariths unat_div t)
  then have r: "unat r = half_even a b"
    unfolding r_def half_even_eq Let_def tests t by (simp add: unat_div t)
  have "(ucast r :: u64) = word_of_nat (half_even a b)"
    by (simp add: r [symmetric] unsigned_ucast_eq word_unat_eq_iff unat_of_nat take_bit_eq_mod)
  moreover have "median obs = (if unat r < 2 ^ 64 then Some (ucast r) else None)"
    using False unfolding median_def Let_def r_def t_def a_def b_def by simp
  ultimately show ?thesis
    using False bound r by (simp add: Let_def a_def b_def)
qed

subsection \<open>Agreement and robustness\<close>

text \<open>Counting the entries of a sorted list on either side of an index.\<close>

lemma sorted_nth_below:
  assumes "sorted xs" "i < length xs" "xs ! i < lo"
  shows "Suc i \<le> length (filter (\<lambda>x. x < lo) xs)"
proof -
  have "\<forall>j\<le>i. xs ! j < lo"
    using sorted_nth_mono [OF assms(1) _ assms(2)] assms(3) le_less_trans by blast
  then have "filter (\<lambda>x. x < lo) (take (Suc i) xs) = take (Suc i) xs"
    by (auto simp: filter_id_conv in_set_conv_nth)
  then have "length (filter (\<lambda>x. x < lo) (take (Suc i) xs)) = Suc i"
    using assms(2) by simp
  moreover have "length (filter (\<lambda>x. x < lo) xs) =
      length (filter (\<lambda>x. x < lo) (take (Suc i) xs)) + length (filter (\<lambda>x. x < lo) (drop (Suc i) xs))"
    by (metis append_take_drop_id filter_append length_append)
  ultimately show ?thesis by simp
qed

lemma sorted_nth_above:
  assumes "sorted xs" "i < length xs" "hi < xs ! i"
  shows "length xs - i \<le> length (filter (\<lambda>x. hi < x) xs)"
proof -
  have "\<forall>j<length xs - i. hi < xs ! (i + j)"
  proof (intro allI impI)
    fix j assume "j < length xs - i"
    then have "xs ! i \<le> xs ! (i + j)" by (intro sorted_nth_mono [OF assms(1)]) auto
    with assms(3) show "hi < xs ! (i + j)" by (rule less_le_trans)
  qed
  then have "filter (\<lambda>x. hi < x) (drop i xs) = drop i xs"
    by (auto simp: filter_id_conv in_set_conv_nth)
  then have "length (filter (\<lambda>x. hi < x) (drop i xs)) = length xs - i" by simp
  moreover have "length (filter (\<lambda>x. hi < x) xs) =
      length (filter (\<lambda>x. hi < x) (take i xs)) + length (filter (\<lambda>x. hi < x) (drop i xs))"
    by (metis append_take_drop_id filter_append length_append)
  ultimately show ?thesis by simp
qed

lemma middle_within:
  fixes prices :: "'a::linorder list"
  assumes few: "2 * length (filter (\<lambda>p. \<not> (lo \<le> p \<and> p \<le> hi)) prices) < length prices"
    and i: "i < length prices" "length prices \<le> 2 * Suc i" "length prices \<le> 2 * (length prices - i)"
  shows "lo \<le> sort prices ! i" and "sort prices ! i \<le> hi"
proof -
  have cnt: "length (filter P (sort prices)) = length (filter P prices)" for P
    by (metis mset_filter mset_sort size_mset)
  have sub: "length (filter P prices) \<le> length (filter (\<lambda>p. \<not> (lo \<le> p \<and> p \<le> hi)) prices)"
    if "\<And>p. P p \<Longrightarrow> \<not> (lo \<le> p \<and> p \<le> hi)" for P
    using that by (induction prices) auto
  show "lo \<le> sort prices ! i"
  proof (rule ccontr)
    assume "\<not> lo \<le> sort prices ! i"
    then have "Suc i \<le> length (filter (\<lambda>x. x < lo) prices)"
      using sorted_nth_below [of "sort prices" i lo] i(1) by (simp add: cnt not_le)
    also have "\<dots> \<le> length (filter (\<lambda>p. \<not> (lo \<le> p \<and> p \<le> hi)) prices)" by (rule sub) auto
    finally show False using few i(2) by simp
  qed
  show "sort prices ! i \<le> hi"
  proof (rule ccontr)
    assume "\<not> sort prices ! i \<le> hi"
    then have "length prices - i \<le> length (filter (\<lambda>x. hi < x) prices)"
      using sorted_nth_above [of "sort prices" i hi] i(1) by (simp add: cnt not_le)
    also have "\<dots> \<le> length (filter (\<lambda>p. \<not> (lo \<le> p \<and> p \<le> hi)) prices)" by (rule sub) auto
    finally show False using few i(3) by simp
  qed
qed

lemma median_within:
  assumes few: "2 * length (filter (\<lambda>ob. \<not> (lo \<le> ob_price ob \<and> ob_price ob \<le> hi)) obs) < length obs"
    and m: "median obs = Some m"
  shows "lo \<le> m \<and> m \<le> hi"
proof -
  let ?ps = "map ob_price obs" and ?n = "length obs"
  have ne: "obs \<noteq> []" using few by auto
  have few': "2 * length (filter (\<lambda>p. \<not> (lo \<le> p \<and> p \<le> hi)) ?ps) < length ?ps"
    using few by (simp add: filter_map o_def)
  note within = middle_within [OF few']
  show ?thesis
  proof (cases "?n mod 2 = 1")
    case True
    then have "?n \<le> 2 * Suc (?n div 2)" "?n \<le> 2 * (?n - ?n div 2)" "?n div 2 < ?n" by presburger+
    then show ?thesis
      using within [of "?n div 2"] m True by (simp add: median_total [OF ne] Let_def)
  next
    case False
    let ?a = "sort ?ps ! (?n div 2 - 1)" and ?b = "sort ?ps ! (?n div 2)"
    have n: "?n \<le> 2 * Suc (?n div 2)" "?n \<le> 2 * (?n - ?n div 2)" "?n div 2 < ?n"
      "?n \<le> 2 * Suc (?n div 2 - 1)" "?n \<le> 2 * (?n - (?n div 2 - 1))" "?n div 2 - 1 < ?n"
      using False ne by (cases obs; auto; presburger)+
    have ab: "lo \<le> ?a" "?a \<le> hi" "lo \<le> ?b" "?b \<le> hi"
      using within [of "?n div 2"] within [of "?n div 2 - 1"] n by simp_all
    then have "unat lo \<le> half_even ?a ?b" "half_even ?a ?b \<le> unat hi"
      by (intro half_even_between; simp add: word_le_nat_alt)+
    moreover have "m = word_of_nat (half_even ?a ?b)"
      using m False by (simp add: median_total [OF ne] Let_def)
    moreover have "half_even ?a ?b < 2 ^ 64"
      using \<open>half_even ?a ?b \<le> unat hi\<close> unat_u64_bound [of hi] by simp
    ultimately show ?thesis by (simp add: word_le_nat_alt unat_of_nat)
  qed
qed

lemma median_permuted: "mset obs = mset obs' \<Longrightarrow> median obs = median obs'"
proof -
  assume "mset obs = mset obs'"
  then have "sort (map ob_price obs) = sort (map ob_price obs')"
    by (intro properties_for_sort) simp_all
  then show ?thesis by (simp add: median_def Let_def)
qed

subsection \<open>The contract of a reducer\<close>

locale price_reducer =
  fixes reduce :: "feed_id \<Rightarrow> source_observation list \<Rightarrow> price_feed_data option"
    and scale :: "feed_id \<Rightarrow> u32 option"
  assumes reduce_Nil: "reduce f [] = None"
    and reduce_feed: "reduce f obs = Some v \<Longrightarrow> feed_id v = f"
    and reduce_scale: "reduce f obs = Some v \<Longrightarrow> scale f = Some (decimals v)"
    and reduce_received: "reduce f obs = Some v \<Longrightarrow> \<exists>ob\<in>set obs. received_at v = ob_received_at ob"
    and reduce_until: "reduce f obs = Some v \<Longrightarrow> ob \<in> set obs \<Longrightarrow> valid_until v \<le> ob_valid_until ob"
    and reduce_until_in: "reduce f obs = Some v \<Longrightarrow> \<exists>ob\<in>set obs. valid_until v = ob_valid_until ob"
begin

lemma reduce_not_stretched:
  assumes v: "reduce f obs = Some v" and ws: "\<forall>ob\<in>set obs. well_stamped ob"
  shows "\<not> validity_stretched v"
proof -
  obtain ob where ob: "ob \<in> set obs" "received_at v = ob_received_at ob"
    using reduce_received [OF v] by blast
  have "valid_until v \<le> sat_add (received_at v) VALIDITY_WINDOW"
    using reduce_until [OF v ob(1)] ws ob by (simp add: well_stamped_def)
  then show ?thesis by (simp add: validity_stretched_def not_less)
qed

lemma reduce_not_expired:
  "reduce f obs = Some v \<Longrightarrow> \<forall>ob\<in>set obs. now \<le> ob_valid_until ob \<Longrightarrow> now \<le> valid_until v"
  using reduce_until_in by fastforce

lemma reduce_not_ahead:
  "reduce f obs = Some v \<Longrightarrow> \<forall>ob\<in>set obs. ob_received_at ob \<le> now \<Longrightarrow> \<not> stamped_ahead v now"
  by (auto dest!: reduce_received simp: not_stamped_ahead_iff word_le_nat_alt trans_le_add1)

end

lemma median_reduce_eq_Some_iff:
  "median_reduce r f obs = Some v \<longleftrightarrow>
   (\<exists>d p. registry_get r f = Some d \<and> obs \<noteq> [] \<and> (\<forall>ob\<in>set obs. ob_decimals ob = fd_decimals d) \<and>
      median obs = Some p \<and>
      v = \<lparr>feed_id = f, price = p, decimals = fd_decimals d,
           received_at = Min (set (map ob_received_at obs)),
           valid_until = Min (set (map ob_valid_until obs))\<rparr>)"
  by (auto simp: median_reduce_def split: option.splits)

lemma median_reduce_Nil: "median_reduce r f [] = None"
  by (simp add: median_reduce_def split: option.split)

lemma Min_image_in: "obs \<noteq> [] \<Longrightarrow> \<exists>ob\<in>set obs. Min (f ` set obs) = f ob"
  by (metis (no_types, lifting) Min_in finite_imageI finite_set image_iff image_is_empty set_empty)

interpretation med: price_reducer "median_reduce r" "\<lambda>f. map_option fd_decimals (registry_get r f)"
  for r
  by unfold_locales (auto simp: median_reduce_Nil median_reduce_eq_Some_iff Min_image_in)

subsection \<open>Properties\<close>

lemma median_not_None: "obs \<noteq> [] \<Longrightarrow> \<exists>p. median obs = Some p"
  by (simp add: median_total Let_def)

text \<open>
  The reduced price depends only on which observations there are, not on their order, so two
  nodes that hold the same observations agree; and it exists exactly when the feed is registered
  and there is at least one observation, every one quoted at the feed's decimals. In particular the
  conversion of the rounded 128-bit mean back to 64 bits never fails.
\<close>

lemma median_reduce_agrees_and_total:
  assumes "mset obs = mset obs'"
  shows "median_reduce r f obs = median_reduce r f obs' \<and>
   (median_reduce r f obs \<noteq> None \<longleftrightarrow>
      (\<exists>d. registry_get r f = Some d \<and> obs \<noteq> [] \<and>
           filter (\<lambda>ob. ob_decimals ob \<noteq> fd_decimals d) obs = []))"
proof
  have "set obs = set obs'" using assms by (metis set_mset_mset)
  then show "median_reduce r f obs = median_reduce r f obs'"
    using median_permuted [OF assms] by (auto simp: median_reduce_def split: option.split)
  show "median_reduce r f obs \<noteq> None \<longleftrightarrow>
      (\<exists>d. registry_get r f = Some d \<and> obs \<noteq> [] \<and>
           filter (\<lambda>ob. ob_decimals ob \<noteq> fd_decimals d) obs = [])"
    using median_not_None [of obs]
    by (auto simp: median_reduce_eq_Some_iff filter_empty_conv simp flip: not_None_eq)
qed

lemma median_reduce_agrees_and_total_witness:
  "median_reduce default_registry 0
      [source_observation_new 100 8 7 8, source_observation_new 101 8 6 9] =
   median_reduce default_registry 0
      [source_observation_new 101 8 6 9, source_observation_new 100 8 7 8]"
  by (rule conjunct1 [OF median_reduce_agrees_and_total]) (simp add: add_mset_commute)

text \<open>
  C16: the median is robust. If fewer than half of the observations quote a price outside a range,
  the reduced price lies inside it, whatever the outliers say: a minority of faulty sources cannot
  move a feed past what the others report.
\<close>

theorem median_reduce_robust:
  assumes "2 * length (filter (\<lambda>ob. \<not> (lo \<le> ob_price ob \<and> ob_price ob \<le> hi)) obs) < length obs"
    and "median_reduce r f obs = Some v"
  shows "lo \<le> price v \<and> price v \<le> hi"
  using median_within [OF assms(1)] assms(2) by (auto simp: median_reduce_eq_Some_iff)

theorem median_reduce_robust_witness:
  "\<exists>v. median_reduce default_registry 0
      [source_observation_new 101 8 1000 1000, source_observation_new 0 8 1000 1000,
       source_observation_new 102 8 1000 1000] = Some v \<and> 101 \<le> price v \<and> price v \<le> 102"
proof -
  let ?obs = "[source_observation_new 101 8 1000 1000, source_observation_new 0 8 1000 1000,
       source_observation_new 102 8 1000 1000]"
  have few: "2 * length (filter (\<lambda>ob. \<not> (101 \<le> ob_price ob \<and> ob_price ob \<le> 102)) ?obs) < length ?obs"
    by (simp add: source_observation_new_def)
  have "median_reduce default_registry 0 ?obs \<noteq> None"
    by (simp add: median_reduce_def median_def registry_get_def default_registry_eq
        SUPPORTED_FEEDS_def feed_definition_new_def source_observation_new_def FEED_DECIMALS_def)
  then obtain v where v: "median_reduce default_registry 0 ?obs = Some v" by blast
  show ?thesis using median_reduce_robust [OF few v] v by blast
qed

end
