(* ===== verification/Price_Cross.thy ===== *)
theory Price_Cross
  imports Price_Reduce "HOL-Library.Signed_Division" "HOL-Library.Product_Lexorder"
begin

text \<open>
  Cross pairs (\<open>cross.rs\<close>): the routes of direct feeds that join a pair's assets, and the price
  of a pair from the values of a route's legs. The 128-bit signed integers of the code are
  integers with the range check of each checked operation written out; the code's division and
  remainder truncate, which is \<open>sdiv\<close> and \<open>smod\<close>.
\<close>

record computation_path =
  leg_feed :: feed_id
  leg_invert :: bool

datatype cross_pair_error = SameAsset feed_id | NoRoute feed_id

subsection \<open>Routes\<close>

text \<open>
  One step of the walk: a feed whose base is the current asset leads to its quote, one whose quote
  is the current asset leads to its base, inverted.
\<close>

definition traverse :: "feed_definition \<Rightarrow> asset \<Rightarrow> (asset \<times> bool) option" where
  "traverse feed at =
     (if fd_base feed = at then Some (fd_quote feed, False)
      else if fd_quote feed = at then Some (fd_base feed, True)
      else None)"

lemma UNIV_asset: "UNIV = {Lbtc, Usd, Usdt, Eurx, DePix, Usdc}"
  using asset.exhaust by auto

lemma finite_asset_set [simp]: "finite (A :: asset set)"
proof -
  have "finite (UNIV :: asset set)" by (simp add: UNIV_asset)
  then show ?thesis by (rule rev_finite_subset) simp
qed

function extend_route ::
  "feed_definition list \<Rightarrow> asset \<Rightarrow> asset \<Rightarrow> asset list \<Rightarrow> computation_path list
     \<Rightarrow> computation_path list list" where
  "extend_route direct at quote visited route =
     (if at = quote then [route]
      else concat (map (\<lambda>feed.
             case traverse feed at of None \<Rightarrow> []
             | Some (nxt, invert) \<Rightarrow>
                 if nxt \<in> set visited then []
                 else extend_route direct nxt quote (visited @ [nxt])
                        (route @ [\<lparr>leg_feed = fd_id feed, leg_invert = invert\<rparr>])) direct))"
  by pat_completeness auto
termination
proof (relation "measure (\<lambda>(direct, at, quote, visited, route). card (UNIV - set visited))", goal_cases)
  case (2 direct at quote visited route feed nxt_inv nxt invert)
  then have "UNIV - set (visited @ [nxt]) \<subset> UNIV - set visited" by auto
  then show ?case by (auto intro: psubset_card_mono)
qed simp

declare extend_route.simps [simp del]

definition route_order :: "computation_path list \<Rightarrow> nat \<times> feed_id list" where
  "route_order route = (length route, map leg_feed route)"

definition candidates ::
  "feed_registry \<Rightarrow> feed_definition \<Rightarrow> cross_pair_error + computation_path list list" where
  "candidates registry pair =
     (if fd_base pair = fd_quote pair then Inl (SameAsset (fd_id pair))
      else
        let direct = filter (\<lambda>feed. fd_kind feed = Direct) registry;
            routes = extend_route direct (fd_base pair) (fd_quote pair) [fd_base pair] []
        in if routes = [] then Inl (NoRoute (fd_id pair))
           else Inr (sort_key route_order routes))"

text \<open>
  The abstract notion of a route: a sequence of pairwise different assets from the base to the
  quote in which each leg is a direct feed between its two neighbours, in the direction its flag
  says.
\<close>

definition joins :: "feed_definition list \<Rightarrow> asset \<Rightarrow> computation_path \<Rightarrow> asset \<Rightarrow> bool" where
  "joins direct a leg b \<longleftrightarrow>
     (\<exists>feed\<in>set direct. fd_id feed = leg_feed leg \<and>
        (if leg_invert leg then fd_quote feed = a \<and> fd_base feed = b
         else fd_base feed = a \<and> fd_quote feed = b))"

fun joined :: "feed_definition list \<Rightarrow> asset list \<Rightarrow> computation_path list \<Rightarrow> bool" where
  "joined direct [a] [] = True"
| "joined direct (a # b # as) (leg # legs) = (joins direct a leg b \<and> joined direct (b # as) legs)"
| "joined direct _ _ = False"

definition simple_route ::
  "feed_definition list \<Rightarrow> asset \<Rightarrow> asset \<Rightarrow> asset set \<Rightarrow> computation_path list \<Rightarrow> bool" where
  "simple_route direct base quote avoid legs \<longleftrightarrow>
     (\<exists>as. joined direct (base # as) legs \<and> last (base # as) = quote \<and>
        distinct (base # as) \<and> set as \<inter> avoid = {})"

lemma simple_route_Nil: "simple_route direct a b avoid [] \<longleftrightarrow> a = b"
proof -
  have "joined direct (a # as) [] \<longleftrightarrow> as = []" for as by (cases as) auto
  then show ?thesis by (auto simp: simple_route_def)
qed

lemma simple_route_same: "simple_route direct a a avoid legs \<Longrightarrow> legs = []"
proof -
  assume "simple_route direct a a avoid legs"
  then obtain as where as: "joined direct (a # as) legs" "last (a # as) = a" "distinct (a # as)"
    by (auto simp: simple_route_def)
  then have "as = []" by (cases as) (auto split: if_splits)
  with as(1) show ?thesis by (cases legs) auto
qed

lemma simple_route_Cons:
  assumes "a \<noteq> quote" "a \<in> avoid"
  shows "simple_route direct a quote avoid (leg # legs) \<longleftrightarrow>
    (\<exists>b. joins direct a leg b \<and> b \<notin> avoid \<and> simple_route direct b quote (insert b avoid) legs)"
    (is "?L \<longleftrightarrow> ?R")
proof
  assume ?L
  then obtain as where as: "joined direct (a # as) (leg # legs)" "last (a # as) = quote"
      "distinct (a # as)" "set as \<inter> avoid = {}"
    by (auto simp: simple_route_def)
  then obtain b bs where b: "as = b # bs" by (cases as) auto
  show ?R
    unfolding simple_route_def using as b by (intro exI [of _ b] conjI exI [of _ bs]) auto
next
  assume ?R
  then obtain b bs where b: "joins direct a leg b" "b \<notin> avoid" "joined direct (b # bs) legs"
      "last (b # bs) = quote" "distinct (b # bs)" "set bs \<inter> insert b avoid = {}"
    unfolding simple_route_def by blast
  then show ?L
    unfolding simple_route_def using assms(2) by (intro exI [of _ "b # bs"]) auto
qed

lemma traverse_joins:
  assumes "a \<noteq> b"
  shows "joins direct a leg b \<longleftrightarrow>
    (\<exists>feed\<in>set direct. traverse feed a = Some (b, leg_invert leg) \<and> fd_id feed = leg_feed leg)"
proof -
  have "traverse feed a = Some (b, i) \<longleftrightarrow>
      (if i then fd_quote feed = a \<and> fd_base feed = b else fd_base feed = a \<and> fd_quote feed = b)"
    for feed i
    using assms by (cases i) (auto simp: traverse_def)
  then show ?thesis unfolding joins_def by (intro bex_cong refl) auto
qed

lemma in_step_iff:
  "r \<in> set (case x of None \<Rightarrow> [] | Some (nxt, invert) \<Rightarrow> if nxt \<in> V then [] else F nxt invert) \<longleftrightarrow>
   (\<exists>nxt invert. x = Some (nxt, invert) \<and> nxt \<notin> V \<and> r \<in> set (F nxt invert))"
  by (auto split: option.split prod.split)

lemma extend_route_iff:
  "at \<in> set visited \<Longrightarrow>
   (r \<in> set (extend_route direct at quote visited route) \<longleftrightarrow>
    (\<exists>legs. r = route @ legs \<and> simple_route direct at quote (set visited) legs))"
proof (induction direct at quote visited route arbitrary: r rule: extend_route.induct)
  case (1 direct at quote visited route)
  show ?case
  proof (cases "at = quote")
    case True
    then show ?thesis
      by (auto simp: extend_route.simps simple_route_Nil dest: simple_route_same)
  next
    case False
    let ?leg = "\<lambda>feed invert. \<lparr>leg_feed = fd_id feed, leg_invert = invert\<rparr>"
    have "r \<in> set (extend_route direct at quote visited route) \<longleftrightarrow>
      (\<exists>feed\<in>set direct. \<exists>nxt invert. traverse feed at = Some (nxt, invert) \<and> nxt \<notin> set visited \<and>
        r \<in> set (extend_route direct nxt quote (visited @ [nxt]) (route @ [?leg feed invert])))"
      by (subst extend_route.simps) (simp add: in_step_iff False, metis)
    also have "\<dots> \<longleftrightarrow>
      (\<exists>feed\<in>set direct. \<exists>nxt invert. traverse feed at = Some (nxt, invert) \<and> nxt \<notin> set visited \<and>
        (\<exists>legs. r = route @ ?leg feed invert # legs \<and>
           simple_route direct nxt quote (insert nxt (set visited)) legs))"
      using "1.IH" [OF False] by (intro bex_cong refl iff_exI conj_cong) simp_all
    also have "\<dots> \<longleftrightarrow>
      (\<exists>leg legs. r = route @ leg # legs \<and>
        (\<exists>nxt. joins direct at leg nxt \<and> nxt \<notin> set visited \<and>
           simple_route direct nxt quote (insert nxt (set visited)) legs))"
    proof -
      have neq: "nxt \<notin> set visited \<Longrightarrow> at \<noteq> nxt" for nxt using "1.prems" by auto
      show ?thesis (is "?A \<longleftrightarrow> ?B")
      proof
        assume ?A
        then obtain feed nxt invert legs where "feed \<in> set direct" "traverse feed at = Some (nxt, invert)"
          "nxt \<notin> set visited" "r = route @ ?leg feed invert # legs"
          "simple_route direct nxt quote (insert nxt (set visited)) legs" by blast
        then show ?B
          by (intro exI [of _ "?leg feed invert"] exI [of _ legs] exI [of _ nxt] conjI)
            (auto simp: traverse_joins [OF neq])
      next
        assume ?B
        then obtain leg legs nxt feed where "feed \<in> set direct"
          "traverse feed at = Some (nxt, leg_invert leg)" "fd_id feed = leg_feed leg"
          "nxt \<notin> set visited" "r = route @ leg # legs"
          "simple_route direct nxt quote (insert nxt (set visited)) legs"
          by (auto simp: traverse_joins [OF neq])
        moreover from this have "leg = ?leg feed (leg_invert leg)" by (cases leg) simp
        ultimately show ?A by metis
      qed
    qed
    also have "\<dots> \<longleftrightarrow> (\<exists>legs. r = route @ legs \<and> simple_route direct at quote (set visited) legs)"
    proof -
      have "simple_route direct at quote (set visited) legs \<longleftrightarrow>
        (\<exists>leg rest. legs = leg # rest \<and> simple_route direct at quote (set visited) (leg # rest))" for legs
        using False by (cases legs) (simp_all add: simple_route_Nil)
      then show ?thesis using simple_route_Cons [OF False "1.prems"] by metis
    qed
    finally show ?thesis .
  qed
qed

subsection \<open>128-bit checked arithmetic\<close>

definition i128_check :: "int \<Rightarrow> int option" where
  "i128_check x = (if - (2 ^ 127) \<le> x \<and> x < 2 ^ 127 then Some x else None)"

definition i128_checked_mul :: "int \<Rightarrow> int \<Rightarrow> int option" where
  "i128_checked_mul a b = i128_check (a * b)"

definition i128_checked_add :: "int \<Rightarrow> int \<Rightarrow> int option" where
  "i128_checked_add a b = i128_check (a + b)"

definition i128_checked_div :: "int \<Rightarrow> int \<Rightarrow> int option" where
  "i128_checked_div a b = (if b = 0 then None else i128_check (a sdiv b))"

definition i128_checked_pow :: "int \<Rightarrow> nat \<Rightarrow> int option" where
  "i128_checked_pow a n = i128_check (a ^ n)"

definition u64_try_from :: "int \<Rightarrow> u64 option" where
  "u64_try_from x = (if 0 \<le> x \<and> x < 2 ^ 64 then Some (word_of_int x) else None)"

lemmas i128_defs = i128_checked_mul_def i128_checked_add_def i128_checked_div_def
  i128_checked_pow_def i128_check_def

lemma sdiv_nonneg: "0 \<le> a \<Longrightarrow> 0 < b \<Longrightarrow> a sdiv b = a div (b :: int)"
  by (simp add: signed_divide_int_def sgn_if)

lemma smod_nonneg: "0 \<le> a \<Longrightarrow> 0 < b \<Longrightarrow> a smod b = a mod (b :: int)"
  by (cases "a = 0") (auto simp: signed_modulo_int_def sgn_if)

subsection \<open>Pricing a route\<close>

text \<open>The digits a positive exponent adds, one at a time, carrying quotient and remainder.\<close>

fun carry_digits :: "nat \<Rightarrow> int \<Rightarrow> int \<times> int \<Rightarrow> (int \<times> int) option" where
  "carry_digits 0 denominator (quot, remainder) = Some (quot, remainder)"
| "carry_digits (Suc n) denominator (quot, remainder) =
     (case i128_checked_mul remainder 10 of None \<Rightarrow> None
      | Some carried \<Rightarrow>
          (case i128_checked_mul quot 10 of None \<Rightarrow> None
           | Some tenfold \<Rightarrow>
               (case i128_checked_add tenfold (carried sdiv denominator) of None \<Rightarrow> None
                | Some quot' \<Rightarrow>
                    if quot' > 2 ^ 64 - 1 then None
                    else carry_digits n denominator (quot', carried smod denominator))))"

definition round_quotient :: "int \<Rightarrow> int \<Rightarrow> int \<Rightarrow> int option" where
  "round_quotient denominator quot remainder =
     (let rest = denominator - remainder
      in if remainder < rest then Some quot
         else if rest < remainder then i128_checked_add quot 1
         else i128_checked_add quot (quot smod 2))"

definition scaled_denominator :: "int \<Rightarrow> int \<Rightarrow> int option" where
  "scaled_denominator denominator exponent =
     (if exponent < 0
      then (if nat (- exponent) < 2 ^ 32
            then (case i128_checked_pow 10 (nat (- exponent)) of None \<Rightarrow> None
                  | Some scale \<Rightarrow> i128_checked_mul denominator scale)
            else None)
      else Some denominator)"

definition scaled_price :: "int \<Rightarrow> int \<Rightarrow> int \<Rightarrow> u64 option" where
  "scaled_price numerator denominator exponent =
     (case scaled_denominator denominator exponent of None \<Rightarrow> None
      | Some denominator' \<Rightarrow>
          (case i128_checked_div numerator denominator' of None \<Rightarrow> None
           | Some quot \<Rightarrow>
               (case carry_digits (nat exponent) denominator' (quot, numerator smod denominator') of
                  None \<Rightarrow> None
                | Some (quot', remainder') \<Rightarrow>
                    (case round_quotient denominator' quot' remainder' of None \<Rightarrow> None
                     | Some rounded \<Rightarrow> u64_try_from rounded))))"

fun add_leg :: "computation_path \<times> price_feed_data \<Rightarrow> int \<times> int \<times> int \<Rightarrow> (int \<times> int \<times> int) option" where
  "add_leg (leg, v) (numerator, denominator, exponent) =
     (if leg_invert leg
      then (case i128_checked_mul denominator (uint (price v)) of None \<Rightarrow> None
            | Some d \<Rightarrow> Some (numerator, d, exponent + uint (decimals v)))
      else (case i128_checked_mul numerator (uint (price v)) of None \<Rightarrow> None
            | Some n \<Rightarrow> Some (n, denominator, exponent - uint (decimals v))))"

definition compute ::
  "feed_definition \<Rightarrow> (computation_path \<times> price_feed_data) list \<Rightarrow> price_feed_data option" where
  "compute pair legs =
     (case fold_opt add_leg legs (1, 1, uint (fd_decimals pair)) of None \<Rightarrow> None
      | Some (numerator, denominator, exponent) \<Rightarrow>
          (case scaled_price numerator denominator exponent of None \<Rightarrow> None
           | Some p \<Rightarrow>
               if p = 0 then None
               else if legs = [] then None
               else Some \<lparr>feed_id = fd_id pair, price = p, decimals = fd_decimals pair,
                          received_at = Max (set (map (\<lambda>(leg, v). received_at v) legs)),
                          valid_until = Min (set (map (\<lambda>(leg, v). valid_until v) legs))\<rparr>))"

subsection \<open>The rounding is the nearest whole number, halves to even\<close>

lemma carry_digits_Some:
  assumes "carry_digits n d (q, r) = Some (q', r')" "0 \<le> r" "r < d" "0 \<le> q"
  shows "q' * d + r' = (q * d + r) * 10 ^ n \<and> 0 \<le> r' \<and> r' < d \<and> 0 \<le> q'"
  using assms
proof (induction n arbitrary: q r)
  case (Suc n)
  define c where "c = r * 10"
  have c0: "0 \<le> c" and d0: "0 < d" using Suc.prems by (auto simp: c_def)
  have step: "carry_digits n d (q * 10 + c div d, c mod d) = Some (q', r')"
    using Suc.prems(1) c0 d0
    by (auto simp: i128_defs c_def sdiv_nonneg smod_nonneg split: if_splits option.splits)
  have "q' * d + r' = ((q * 10 + c div d) * d + c mod d) * 10 ^ n \<and> 0 \<le> r' \<and> r' < d \<and> 0 \<le> q'"
    by (rule Suc.IH [OF step]) (use c0 d0 Suc.prems in \<open>simp_all add: pos_imp_zdiv_nonneg_iff\<close>)
  moreover have "(q * 10 + c div d) * d + c mod d = (q * d + r) * 10"
    using div_mult_mod_eq [of c d] by (simp add: c_def algebra_simps)
  ultimately show ?case by simp
qed simp

text \<open>The loop stops early only when the quotient leaves the 64-bit range or a product overflows.\<close>

lemma carry_digits_complete:
  assumes "0 \<le> r" "r < d" "0 \<le> q" "d * 10 \<le> 2 ^ 127"
    and "(q * d + r) * 10 ^ n div d < 2 ^ 64"
  shows "carry_digits n d (q, r) \<noteq> None"
  using assms
proof (induction n arbitrary: q r)
  case (Suc n)
  define c where "c = r * 10"
  have c0: "0 \<le> c" and d0: "0 < d" and cd: "c < d * 10" using Suc.prems by (auto simp: c_def)
  have val: "(q * 10 + c div d) * d + c mod d = (q * d + r) * 10"
    using div_mult_mod_eq [of c d] by (simp add: c_def algebra_simps)
  have ge: "q * 10 + c div d < 2 ^ 64"
  proof -
    have "((q * 10 + c div d) * d + c mod d) div d = q * 10 + c div d" using d0 by simp
    then have "q * 10 + c div d \<le> (q * d + r) * 10 div d" unfolding val by simp
    also have "(q * d + r) * 10 div d \<le> (q * d + r) * 10 ^ Suc n div d"
      using d0 Suc.prems by (intro zdiv_mono1 mult_left_mono) simp_all
    finally show ?thesis using Suc.prems(5) by simp
  qed
  have q': "0 \<le> q * 10" "0 \<le> c div d" using Suc.prems c0 d0 by (simp_all add: pos_imp_zdiv_nonneg_iff)
  have "carry_digits n d (q * 10 + c div d, c mod d) \<noteq> None"
    by (rule Suc.IH) (use Suc.prems d0 q' val in \<open>simp_all add: algebra_simps\<close>)
  moreover have "i128_checked_mul r 10 = Some c" "i128_checked_mul q 10 = Some (q * 10)"
    "i128_checked_add (q * 10) (c sdiv d) = Some (q * 10 + c div d)"
    using cd c0 q' ge Suc.prems by (simp_all add: i128_defs c_def sdiv_nonneg)
  ultimately show ?case
    using ge c0 d0 by (simp add: smod_nonneg)
qed simp

lemma round_quotient_eq:
  assumes "0 \<le> q" "0 \<le> r" "r < d"
  shows "round_quotient d q r = i128_check (int (round_half_even (nat (q * d + r)) (nat d))) \<or>
         round_quotient d q r = Some (int (round_half_even (nat (q * d + r)) (nat d)))"
proof -
  have n: "nat (q * d + r) = nat q * nat d + nat r" and d: "nat r < nat d"
    using assms by (simp_all add: nat_add_distrib nat_mult_distrib)
  have "round_half_even (nat (q * d + r)) (nat d) =
      (if 2 * nat r < nat d then nat q else if nat d < 2 * nat r then nat q + 1 else nat q + nat q mod 2)"
    unfolding round_half_even_def n using d by (simp add: Let_def)
  then show ?thesis
    using assms by (auto simp: round_quotient_def Let_def i128_checked_add_def smod_nonneg zmod_int add.commute)
qed

lemma scaled_denominator_Some:
  "scaled_denominator d e = Some d' \<Longrightarrow> d' = d * 10 ^ nat (- e)"
  by (auto simp: scaled_denominator_def i128_defs split: if_splits)

lemma u64_try_from_Some:
  assumes "u64_try_from x = Some p"
  shows "unat p = nat x"
proof -
  have "0 \<le> x" "x < 2 ^ 64" "p = word_of_int x"
    using assms by (auto simp: u64_try_from_def split: if_splits)
  then have "uint p = x" by (simp add: uint_word_of_int)
  then show ?thesis by (simp add: unat_eq_nat_uint)
qed

lemma scaled_price_Some:
  assumes "scaled_price n d e = Some p" "0 \<le> n" "0 \<le> d"
  shows "0 < d \<and> unat p = round_half_even (nat n * 10 ^ nat e) (nat d * 10 ^ nat (- e))"
proof -
  obtain d' q q' r' x where
      d': "d' = d * 10 ^ nat (- e)"
      and q: "i128_checked_div n d' = Some q"
      and c: "carry_digits (nat e) d' (q, n smod d') = Some (q', r')"
      and x: "round_quotient d' q' r' = Some x" and p: "u64_try_from x = Some p"
    using assms(1) unfolding scaled_price_def
    by (auto split: option.splits dest: scaled_denominator_Some)
  have d0: "0 < d'" using q d' assms(3) by (auto simp: i128_checked_div_def zero_less_mult_iff order_le_less split: if_splits)
  have qr: "q = n div d'" "n smod d' = n mod d'"
    using q d0 assms(2) by (auto simp: i128_defs sdiv_nonneg smod_nonneg split: if_splits)
  have v: "q' * d' + r' = n * 10 ^ nat e" "0 \<le> r'" "r' < d'" "0 \<le> q'"
    using carry_digits_Some [OF c] d0 assms(2) by (simp_all add: qr pos_imp_zdiv_nonneg_iff)
  have "x = int (round_half_even (nat (n * 10 ^ nat e)) (nat d'))"
    using round_quotient_eq [OF v(4,2,3)] x by (auto simp: v(1) i128_check_def split: if_splits)
  moreover have "unat p = nat x" using p by (rule u64_try_from_Some)
  moreover have "0 < d" using d0 d' by (simp add: zero_less_mult_iff)
  moreover have "nat (n * 10 ^ nat e) = nat n * 10 ^ nat e" "nat d' = nat d * 10 ^ nat (- e)"
    using assms(2,3) by (simp_all add: d' nat_mult_distrib nat_power_eq)
  ultimately show ?thesis by simp
qed

lemma scaled_price_complete:
  assumes "0 \<le> n" "n < 2 ^ 127" "0 < d" "d * 10 \<le> 2 ^ 127" "0 \<le> e"
    and fits: "round_half_even (nat n * 10 ^ nat e) (nat d) < 2 ^ 64"
  shows "scaled_price n d e \<noteq> None"
proof -
  let ?N = "n * 10 ^ nat e"
  have N0: "0 \<le> ?N" using assms(1) by simp
  have nat_N: "nat ?N = nat n * 10 ^ nat e" using assms(1) by (simp add: nat_mult_distrib nat_power_eq)
  have small: "?N div d < 2 ^ 64"
  proof -
    have "nat ?N div nat d < 2 ^ 64"
      using round_half_even_mono_div [of "nat ?N" "nat d"] fits by (simp add: nat_N)
    then show ?thesis using N0 assms(3) by (simp add: nat_div_distrib [symmetric] nat_less_iff pos_imp_zdiv_nonneg_iff)
  qed
  have q: "i128_checked_div n d = Some (n div d)" "n smod d = n mod d" "0 \<le> n div d"
  proof -
    have "n div d \<le> n" "0 \<le> n div d"
      using assms(1,3) zdiv_mono2 [of n 1 d] by (simp_all add: pos_imp_zdiv_nonneg_iff)
    then have "- (2 ^ 127) \<le> n div d \<and> n div d < 2 ^ 127" using assms(2) by linarith
    then show "i128_checked_div n d = Some (n div d)" "n smod d = n mod d" "0 \<le> n div d"
      using assms(1,3) by (simp_all add: i128_defs sdiv_nonneg smod_nonneg pos_imp_zdiv_nonneg_iff)
  qed
  have "carry_digits (nat e) d (n div d, n mod d) \<noteq> None"
    by (rule carry_digits_complete) (use assms q small in auto)
  then obtain q' r' where c: "carry_digits (nat e) d (n div d, n mod d) = Some (q', r')" by auto
  have v: "q' * d + r' = ?N" "0 \<le> r'" "r' < d" "0 \<le> q'"
    using carry_digits_Some [OF c] q assms by simp_all
  have "round_quotient d q' r' = Some (int (round_half_even (nat ?N) (nat d)))"
    using round_quotient_eq [OF v(4,2,3)] fits by (auto simp: v(1) i128_check_def nat_N)
  then show ?thesis
    using assms(5) q c fits by (simp add: scaled_price_def scaled_denominator_def u64_try_from_def nat_N)
qed

subsection \<open>What a route is worth\<close>

definition leg_numerator :: "computation_path \<times> price_feed_data \<Rightarrow> nat" where
  "leg_numerator l = (if leg_invert (fst l) then 1 else unat (price (snd l)))"

definition leg_denominator :: "computation_path \<times> price_feed_data \<Rightarrow> nat" where
  "leg_denominator l = (if leg_invert (fst l) then unat (price (snd l)) else 1)"

definition leg_exponent :: "computation_path \<times> price_feed_data \<Rightarrow> int" where
  "leg_exponent l = (if leg_invert (fst l) then 1 else - 1) * uint (decimals (snd l))"

definition route_price :: "feed_definition \<Rightarrow> (computation_path \<times> price_feed_data) list \<Rightarrow> nat" where
  "route_price pair legs =
     (let e = uint (fd_decimals pair) + sum_list (map leg_exponent legs)
      in round_half_even (prod_list (map leg_numerator legs) * 10 ^ nat e)
           (prod_list (map leg_denominator legs) * 10 ^ nat (- e)))"

lemmas leg_defs = leg_numerator_def leg_denominator_def leg_exponent_def

lemma add_leg_Some:
  "add_leg l (n, d, e) = Some s \<Longrightarrow>
   s = (n * int (leg_numerator l), d * int (leg_denominator l), e + leg_exponent l)"
  by (cases l) (auto simp: leg_defs i128_checked_mul_def i128_check_def split: if_splits)

lemma fold_add_leg:
  "fold_opt add_leg legs (n, d, e) = Some (n', d', e') \<Longrightarrow>
   n' = n * int (prod_list (map leg_numerator legs)) \<and>
   d' = d * int (prod_list (map leg_denominator legs)) \<and>
   e' = e + sum_list (map leg_exponent legs)"
proof (induction legs arbitrary: n d e)
  case (Cons l legs)
  then obtain s where s: "add_leg l (n, d, e) = Some s" "fold_opt add_leg legs s = Some (n', d', e')"
    by (auto split: option.splits)
  from Cons.IH [OF s(2) [unfolded add_leg_Some [OF s(1)]]] show ?case by simp
qed simp

lemma compute_eq_SomeD:
  assumes "compute pair legs = Some v"
  shows "legs \<noteq> [] \<and> price v \<noteq> 0 \<and> 0 < prod_list (map leg_denominator legs) \<and>
    unat (price v) = route_price pair legs \<and>
    feed_id v = fd_id pair \<and> decimals v = fd_decimals pair \<and>
    received_at v = Max ((received_at \<circ> snd) ` set legs) \<and>
    valid_until v = Min ((valid_until \<circ> snd) ` set legs)"
proof -
  obtain n d e p where f: "fold_opt add_leg legs (1, 1, uint (fd_decimals pair)) = Some (n, d, e)"
    and p: "scaled_price n d e = Some p" "p \<noteq> 0" "legs \<noteq> []"
    and v: "v = \<lparr>feed_id = fd_id pair, price = p, decimals = fd_decimals pair,
                received_at = Max (set (map (\<lambda>(leg, v). received_at v) legs)),
                valid_until = Min (set (map (\<lambda>(leg, v). valid_until v) legs))\<rparr>"
    using assms unfolding compute_def by (auto split: option.splits if_splits)
  note nde = fold_add_leg [OF f]
  have "0 < d \<and> unat p = round_half_even (nat n * 10 ^ nat e) (nat d * 10 ^ nat (- e))"
    by (rule scaled_price_Some [OF p(1)]) (simp_all add: nde)
  moreover have "0 < prod_list (map leg_denominator legs)"
    using calculation nde by (metis int_nat_eq mult_1 nat_int of_nat_0_less_iff)
  moreover have "unat p = route_price pair legs"
    using calculation(1) nde by (simp add: route_price_def Let_def)
  ultimately show ?thesis using p v by (simp add: case_prod_unfold)
qed

lemma compute_not_stretched:
  assumes "compute pair legs = Some v" and "\<forall>l\<in>set legs. \<not> validity_stretched (snd l)"
  shows "\<not> validity_stretched v"
proof -
  note D = compute_eq_SomeD [OF assms(1)]
  then obtain l where l: "l \<in> set legs" by (cases legs) auto
  have "valid_until v \<le> valid_until (snd l)" "received_at (snd l) \<le> received_at v"
    using D l by auto
  moreover have "\<not> validity_stretched (snd l)" using assms(2) l by blast
  ultimately show ?thesis by (simp add: not_stretched_iff word_le_nat_alt)
qed

subsection \<open>Properties\<close>

lemma candidates_are_simple:
  assumes "candidates registry pair = Inr routes"
  shows "set routes = {legs. simple_route (filter (\<lambda>feed. fd_kind feed = Direct) registry)
           (fd_base pair) (fd_quote pair) {fd_base pair} legs} \<and>
         sorted (map length routes)"
proof -
  let ?direct = "filter (\<lambda>feed. fd_kind feed = Direct) registry"
  have r: "routes = sort_key route_order (extend_route ?direct (fd_base pair) (fd_quote pair) [fd_base pair] [])"
    using assms by (auto simp: candidates_def Let_def split: if_splits)
  have "sorted (map route_order routes)" unfolding r by simp
  then have "sorted_wrt (\<lambda>a b. route_order a \<le> route_order b) routes"
    by (simp add: sorted_map)
  then have "sorted_wrt (\<lambda>a b. length a \<le> length b) routes"
    by (rule sorted_wrt_mono_rel [rotated]) (auto simp: route_order_def less_eq_prod_def)
  then show ?thesis
    by (auto simp: r extend_route_iff sorted_map)
qed

text \<open>
  The routes of a cross pair are exactly the simple routes of direct feeds from its base to its
  quote (a sequence of distinct assets, each leg a direct feed between neighbours, inverted exactly
  when walked from quote to base), every one of them and nothing else, with the shortest first.
\<close>

lemma candidates_are_all_simple_routes:
  assumes "candidates registry pair = Inr routes"
  shows "set routes = {legs. simple_route (filter (\<lambda>feed. fd_kind feed = Direct) registry)
           (fd_base pair) (fd_quote pair) {fd_base pair} legs} \<and>
         sorted (map length routes)"
  using candidates_are_simple [OF assms] .

lemma candidates_are_all_simple_routes_witness:
  "set [[\<lparr>leg_feed = 0, leg_invert = False\<rparr>, \<lparr>leg_feed = 1, leg_invert = True\<rparr>]] =
     {legs. simple_route (filter (\<lambda>feed. fd_kind feed = Direct) default_registry)
        Lbtc Usdt {Lbtc} legs}"
proof -
  have "candidates default_registry (feed_definition_new 4 Lbtc Usdt Cross) =
      Inr [[\<lparr>leg_feed = 0, leg_invert = False\<rparr>, \<lparr>leg_feed = 1, leg_invert = True\<rparr>]]"
    by (simp add: candidates_def default_registry_eq SUPPORTED_FEEDS_def feed_definition_new_def
        extend_route.simps traverse_def route_order_def)
  from candidates_are_all_simple_routes [OF this] show ?thesis
    by (simp add: feed_definition_new_def)
qed

text \<open>
  C2: the price of a cross pair is the exact quotient of the products of its legs' prices, brought
  to the pair's decimals and rounded to the nearest whole number with halves to even, whatever mix
  of direct and inverted legs and of scales the route has; it is never zero, it carries the pair's
  own id and decimals, is as new as its freshest leg and expires with its first leg.
\<close>

theorem compute_correct:
  assumes "compute pair legs = Some v"
  shows "unat (price v) = route_price pair legs \<and> price v \<noteq> 0 \<and>
    0 < prod_list (map leg_denominator legs) \<and>
    feed_id v = fd_id pair \<and> decimals v = fd_decimals pair \<and>
    received_at v = Max ((received_at \<circ> snd) ` set legs) \<and>
    valid_until v = Min ((valid_until \<circ> snd) ` set legs)"
  using compute_eq_SomeD [OF assms] by blast

theorem compute_correct_witness:
  "unat (66666667 :: u64) = route_price (feed_definition_new 9 Lbtc Usdt Cross)
     [(\<lparr>leg_feed = 0, leg_invert = False\<rparr>,
       \<lparr>feed_id = 0, price = 200000000, decimals = 8, received_at = 7, valid_until = 9\<rparr>),
      (\<lparr>leg_feed = 1, leg_invert = True\<rparr>,
       \<lparr>feed_id = 1, price = 300000000, decimals = 8, received_at = 8, valid_until = 10\<rparr>)]"
  (is "_ = route_price ?pair ?legs")
proof -
  have "compute ?pair ?legs = Some \<lparr>feed_id = 9, price = 66666667, decimals = 8, received_at = 8, valid_until = 9\<rparr>"
    by code_simp
  from compute_correct [OF this] show ?thesis by simp
qed

text \<open>
  The shape every registered cross pair has, one leg and one inverted leg of equal scale, never
  loses a price to an intermediate overflow: such a pair has a price exactly when the inverted leg
  is not zero and the rounded quotient is at least one and fits in 64 bits.
\<close>

lemma compute_two_legs_total:
  "compute pair [(\<lparr>leg_feed = a, leg_invert = False\<rparr>, v),
                 (\<lparr>leg_feed = b, leg_invert = True\<rparr>, w\<lparr>decimals := decimals v\<rparr>)] \<noteq> None \<longleftrightarrow>
   price w \<noteq> 0 \<and>
   0 < round_half_even (unat (price v) * 10 ^ unat (fd_decimals pair)) (unat (price w)) \<and>
   round_half_even (unat (price v) * 10 ^ unat (fd_decimals pair)) (unat (price w)) < 2 ^ 64"
  (is "compute pair ?legs \<noteq> None \<longleftrightarrow> ?R")
proof -
  have b: "uint (price v) < 2 ^ 64" "uint (price w) < 2 ^ 64"
    using unsigned_less [of "price v", where ?'a = int] unsigned_less [of "price w", where ?'a = int]
    by simp_all
  have l: "- (2 ^ 127) \<le> uint x" for x :: u64 by (rule order_trans [of _ 0]) simp_all
  have e: "nat (uint (fd_decimals pair)) = unat (fd_decimals pair)" by simp
  have f: "fold_opt add_leg ?legs (1, 1, uint (fd_decimals pair)) =
      Some (uint (price v), uint (price w), uint (fd_decimals pair))"
    using b l [of "price v"] l [of "price w"] by (simp add: i128_checked_mul_def i128_check_def)
  have rp: "route_price pair ?legs =
      round_half_even (unat (price v) * 10 ^ unat (fd_decimals pair)) (unat (price w))"
    by (simp add: route_price_def leg_defs)
  show ?thesis
  proof
    assume "compute pair ?legs \<noteq> None"
    then obtain r where r: "compute pair ?legs = Some r" by blast
    note D = compute_eq_SomeD [OF r, unfolded rp]
    then have "0 < unat (price r)" using unat_gt_0 by blast
    with D show ?R
      using unat_u64_bound [of "price r"] by (auto simp: leg_denominator_def)
  next
    assume R: ?R
    have "scaled_price (uint (price v)) (uint (price w)) (uint (fd_decimals pair)) \<noteq> None"
    proof (rule scaled_price_complete)
      have "price w \<noteq> 0" using R by blast
      then show "0 < uint (price w)" by (metis of_nat_0_less_iff of_nat_unat unat_gt_0)
      show "round_half_even (nat (uint (price v)) * 10 ^ nat (uint (fd_decimals pair)))
          (nat (uint (price w))) < 2 ^ 64"
        using R by simp
    qed (use b in simp_all)
    then obtain p where p: "scaled_price (uint (price v)) (uint (price w)) (uint (fd_decimals pair)) = Some p"
      by blast
    have "unat p = round_half_even (unat (price v) * 10 ^ unat (fd_decimals pair)) (unat (price w))"
      using scaled_price_Some [OF p] by simp
    then have "p \<noteq> 0" using R by auto
    then show "compute pair ?legs \<noteq> None" unfolding compute_def f by (simp add: p)
  qed
qed

end
