(* ===== verification/Feed_State.thy ===== *)
theory Feed_State
  imports Price_Cross
begin

text \<open>
  The state of one direct feed (\<open>feed_state.rs\<close>, \<open>FeedState\<close>): its sources, which of them are
  polled, dropped after repeated failures or frozen by the operator, and the feed's value. The
  clock is read once per operation; \<open>now\<close> below is that reading.
\<close>

record source_record =
  sr_state :: source_state
  sr_failures :: u32
  sr_observation :: "source_observation option"
  sr_retry_at :: "u64 option"

definition default_record :: source_record where
  "default_record = \<lparr>sr_state = Active, sr_failures = 0, sr_observation = None, sr_retry_at = None\<rparr>"

record feed_state =
  fs_definition :: feed_definition
  fs_registry :: feed_registry
  fs_sources :: "(usize, source_record) btree"

definition feed_state_new :: "feed_definition \<Rightarrow> feed_registry \<Rightarrow> feed_state" where
  "feed_state_new d registry = \<lparr>fs_definition = d, fs_registry = registry, fs_sources = []\<rparr>"

definition source_state_of :: "feed_state \<Rightarrow> usize \<Rightarrow> source_state" where
  "source_state_of s source =
     (case bt_get (fs_sources s) source of None \<Rightarrow> Active | Some record \<Rightarrow> sr_state record)"

definition last_observed_at :: "feed_state \<Rightarrow> usize \<Rightarrow> u64 option" where
  "last_observed_at s source =
     (case bt_get (fs_sources s) source of None \<Rightarrow> None
      | Some record \<Rightarrow> map_option ob_observed_at (sr_observation record))"

definition is_pollable :: "u64 \<Rightarrow> feed_state \<Rightarrow> usize \<Rightarrow> bool" where
  "is_pollable now s source =
     (case bt_get (fs_sources s) source of None \<Rightarrow> True
      | Some record \<Rightarrow>
          (case sr_state record of
             Active \<Rightarrow> True
           | Dropped \<Rightarrow> (case sr_retry_at record of None \<Rightarrow> False | Some at \<Rightarrow> at \<le> now)
           | Frozen \<Rightarrow> False))"

text \<open>\<open>entry(source).or_default()\<close> followed by a change of the record it returns.\<close>

definition modify_source ::
  "usize \<Rightarrow> (source_record \<Rightarrow> source_record) \<Rightarrow> feed_state \<Rightarrow> feed_state" where
  "modify_source source f s =
     s\<lparr>fs_sources := bt_insert source
         (f (case bt_get (fs_sources s) source of None \<Rightarrow> default_record | Some r \<Rightarrow> r))
         (fs_sources s)\<rparr>"

definition freeze :: "usize \<Rightarrow> feed_state \<Rightarrow> feed_state" where
  "freeze source = modify_source source (\<lambda>r. r\<lparr>sr_state := Frozen, sr_retry_at := None\<rparr>)"

definition unfreeze :: "usize \<Rightarrow> feed_state \<Rightarrow> feed_state" where
  "unfreeze source =
     modify_source source (\<lambda>r. r\<lparr>sr_state := Active, sr_failures := 0, sr_retry_at := None\<rparr>)"

definition valid_observations :: "u64 \<Rightarrow> feed_state \<Rightarrow> source_observation list" where
  "valid_observations now s =
     filter (\<lambda>ob. now \<le> ob_valid_until ob)
       (List.map_filter sr_observation (bt_values (fs_sources s)))"

definition is_available :: "u64 \<Rightarrow> feed_state \<Rightarrow> bool" where
  "is_available now s \<longleftrightarrow>
     (\<exists>record\<in>set (bt_values (fs_sources s)). sr_state record = Active) \<and>
     valid_observations now s \<noteq> []"

definition fail_record :: "u64 \<Rightarrow> source_record \<Rightarrow> source_record" where
  "fail_record now r =
     (if sr_state r = Frozen then r
      else
        let r' = r\<lparr>sr_failures := sat_add (sr_failures r) 1\<rparr>
        in if MAX_POLLING_ERROR_NUM \<le> sr_failures r'
           then r'\<lparr>sr_state := Dropped, sr_observation := None,
                   sr_retry_at := Some (sat_add now POLLING_RETRY_TIME)\<rparr>
           else r')"

definition record_poll_failure :: "u64 \<Rightarrow> usize \<Rightarrow> feed_state \<Rightarrow> feed_state" where
  "record_poll_failure now source = modify_source source (fail_record now)"

definition success_record :: "source_observation \<Rightarrow> source_record \<Rightarrow> source_record" where
  "success_record ob r =
     (if sr_state r = Frozen then r
      else r\<lparr>sr_state := Active, sr_failures := 0, sr_retry_at := None, sr_observation := Some ob\<rparr>)"

definition record_poll_success :: "usize \<Rightarrow> source_observation \<Rightarrow> feed_state \<Rightarrow> feed_state" where
  "record_poll_success source ob = modify_source source (success_record ob)"

definition feed_value :: "u64 \<Rightarrow> feed_state \<Rightarrow> price_feed_data option" where
  "feed_value now s =
     (if \<not> is_available now s then None
      else median_reduce (fs_registry s) (fd_id (fs_definition s)) (valid_observations now s))"

lemmas source_ops =
  freeze_def unfreeze_def record_poll_failure_def record_poll_success_def

subsection \<open>What one operation changes\<close>

definition record_of :: "feed_state \<Rightarrow> usize \<Rightarrow> source_record" where
  "record_of s source =
     (case bt_get (fs_sources s) source of None \<Rightarrow> default_record | Some r \<Rightarrow> r)"

lemma record_of_modify [simp]:
  "record_of (modify_source source f s) src =
   (if src = source then f (record_of s source) else record_of s src)"
  by (simp add: record_of_def modify_source_def bt_get_insert)

lemma fs_fields_modify [simp]:
  "fs_definition (modify_source source f s) = fs_definition s"
  "fs_registry (modify_source source f s) = fs_registry s"
  by (simp_all add: modify_source_def)

lemma source_state_of_record: "source_state_of s source = sr_state (record_of s source)"
  by (simp add: source_state_of_def record_of_def default_record_def split: option.split)

lemma last_observed_at_record:
  "last_observed_at s source = map_option ob_observed_at (sr_observation (record_of s source))"
  by (simp add: last_observed_at_def record_of_def default_record_def split: option.split)

lemma is_pollable_record:
  "is_pollable now s source \<longleftrightarrow>
   sr_state (record_of s source) = Active \<or>
   sr_state (record_of s source) = Dropped \<and>
     (\<exists>at. sr_retry_at (record_of s source) = Some at \<and> at \<le> now)"
  by (auto simp: is_pollable_def record_of_def default_record_def
      split: option.splits source_state.splits)

subsection \<open>The invariant of a feed\<close>

text \<open>
  A source is dropped exactly while it has a retry time, a dropped source has no observation and
  has failed at least the maximum number of times, an active one fewer times, and every
  observation held closes its window one window after its receipt.
\<close>

definition record_ok :: "source_record \<Rightarrow> bool" where
  "record_ok r \<longleftrightarrow>
     (sr_state r = Dropped \<longleftrightarrow> sr_retry_at r \<noteq> None) \<and>
     (sr_state r = Dropped \<longrightarrow> sr_observation r = None \<and> MAX_POLLING_ERROR_NUM \<le> sr_failures r) \<and>
     (sr_state r = Active \<longrightarrow> sr_failures r < MAX_POLLING_ERROR_NUM) \<and>
     (\<forall>ob. sr_observation r = Some ob \<longrightarrow> well_stamped ob)"

definition feed_ok :: "feed_state \<Rightarrow> bool" where
  "feed_ok s \<longleftrightarrow> bt_wf (fs_sources s) \<and> (\<forall>source. record_ok (record_of s source))"

lemma default_record_ok: "record_ok default_record"
  by (simp add: record_ok_def default_record_def price_constants)

lemma feed_state_new_ok: "feed_ok (feed_state_new d r)"
  by (simp add: feed_ok_def feed_state_new_def record_of_def default_record_ok)

lemma modify_source_ok:
  assumes "feed_ok s" and "\<And>r. record_ok r \<Longrightarrow> record_ok (f r)"
  shows "feed_ok (modify_source source f s)"
proof -
  have "bt_wf (fs_sources (modify_source source f s))"
    using assms(1) by (simp add: feed_ok_def modify_source_def bt_insert_wf)
  with assms show ?thesis by (auto simp: feed_ok_def)
qed

lemma sat_add_one_bound:
  "\<not> MAX_POLLING_ERROR_NUM \<le> sat_add (n :: u32) 1 \<Longrightarrow> sat_add n 1 < MAX_POLLING_ERROR_NUM"
  by simp

lemma sat_add_one_mono:
  "MAX_POLLING_ERROR_NUM \<le> (n :: u32) \<Longrightarrow> MAX_POLLING_ERROR_NUM \<le> sat_add n 1"
  using unat_u32_bound [of n] by (auto simp: word_facts price_constants)

lemma fail_record_ok: "record_ok r \<Longrightarrow> record_ok (fail_record now r)"
  using sat_add_one_mono [of "sr_failures r"]
  by (cases "sr_state r") (auto simp: record_ok_def fail_record_def Let_def not_le)

lemma success_record_ok: "record_ok r \<Longrightarrow> well_stamped ob \<Longrightarrow> record_ok (success_record ob r)"
  by (auto simp: record_ok_def success_record_def price_constants)

subsection \<open>The sources as a state machine\<close>

datatype feed_event =
    PollFailed u64 usize
  | PollSucceeded usize source_observation
  | Freeze usize
  | Unfreeze usize

inductive feed_step :: "feed_state \<Rightarrow> feed_event \<Rightarrow> feed_state \<Rightarrow> bool" where
  poll_failed: "feed_step s (PollFailed now source) (record_poll_failure now source s)"
| poll_succeeded: "well_stamped ob \<Longrightarrow>
     feed_step s (PollSucceeded source ob) (record_poll_success source ob s)"
| frozen: "feed_step s (Freeze source) (freeze source s)"
| unfrozen: "feed_step s (Unfreeze source) (unfreeze source s)"

inductive_cases poll_failedE: "feed_step s (PollFailed now source) t"
inductive_cases poll_succeededE: "feed_step s (PollSucceeded source ob) t"

inductive feed_reachable :: "feed_definition \<Rightarrow> feed_registry \<Rightarrow> feed_state \<Rightarrow> bool"
  for d :: feed_definition and r :: feed_registry where
  initial: "feed_reachable d r (feed_state_new d r)"
| later: "feed_reachable d r s \<Longrightarrow> feed_step s e t \<Longrightarrow> feed_reachable d r t"

lemma feed_step_ok: "feed_step s e t \<Longrightarrow> feed_ok s \<Longrightarrow> feed_ok t"
proof (induction rule: feed_step.induct)
  case (poll_failed s now source)
  then show ?case by (simp add: source_ops modify_source_ok fail_record_ok)
next
  case (poll_succeeded ob s source)
  then show ?case by (simp add: source_ops modify_source_ok success_record_ok)
next
  case (frozen s source)
  then show ?case
    unfolding source_ops by (rule modify_source_ok) (simp add: record_ok_def)
next
  case (unfrozen s source)
  then show ?case
    unfolding source_ops by (rule modify_source_ok) (simp add: record_ok_def price_constants)
qed

lemma feed_step_fields:
  "feed_step s e t \<Longrightarrow> fs_definition t = fs_definition s \<and> fs_registry t = fs_registry s"
  by (induction rule: feed_step.induct) (simp_all add: source_ops)

lemma feed_reachable_ok:
  "feed_reachable d r s \<Longrightarrow> feed_ok s \<and> fs_definition s = d \<and> fs_registry s = r"
proof (induction rule: feed_reachable.induct)
  case initial
  then show ?case by (simp add: feed_state_new_ok) (simp add: feed_state_new_def)
next
  case (later s e t)
  then show ?case using feed_step_ok feed_step_fields by metis
qed

lemma valid_observations_iff:
  "feed_ok s \<Longrightarrow> ob \<in> set (valid_observations now s) \<longleftrightarrow>
     now \<le> ob_valid_until ob \<and> (\<exists>source. sr_observation (record_of s source) = Some ob)"
proof -
  assume "feed_ok s"
  then have wf: "bt_wf (fs_sources s)" by (simp add: feed_ok_def)
  have "(\<exists>r\<in>set (bt_values (fs_sources s)). sr_observation r = Some ob) \<longleftrightarrow>
      (\<exists>source. sr_observation (record_of s source) = Some ob)"
    by (force simp: set_bt_values [OF wf] record_of_def default_record_def split: option.splits)
  then show ?thesis
    by (auto simp: valid_observations_def List.map_filter_def image_iff)
qed

subsection \<open>The contract of an available feed\<close>

text \<open>What the trait \<open>FeedAvailability\<close> promises its clients.\<close>

locale feed_availability =
  fixes avail :: "u64 \<Rightarrow> 's \<Rightarrow> bool"
    and failure :: "u64 \<Rightarrow> usize \<Rightarrow> 's \<Rightarrow> 's"
    and success :: "usize \<Rightarrow> source_observation \<Rightarrow> 's \<Rightarrow> 's"
    and val :: "u64 \<Rightarrow> 's \<Rightarrow> price_feed_data option"
    and inv :: "'s \<Rightarrow> bool"
    and key :: "'s \<Rightarrow> feed_id"
  assumes val_unavailable: "\<not> avail now s \<Longrightarrow> val now s = None"
    and val_key: "val now s = Some v \<Longrightarrow> feed_id v = key s"
    and val_fresh: "inv s \<Longrightarrow> val now s = Some v \<Longrightarrow> now \<le> valid_until v"
    and val_not_stretched: "inv s \<Longrightarrow> val now s = Some v \<Longrightarrow> \<not> validity_stretched v"
    and inv_failure: "inv s \<Longrightarrow> inv (failure now source s)"
    and inv_success: "inv s \<Longrightarrow> well_stamped ob \<Longrightarrow> inv (success source ob s)"
begin

text \<open>The values of several feeds, all read at one time, as a route's legs are.\<close>

lemma legs_sound:
  assumes "map_opt (\<lambda>leg. case lookup (leg_feed leg) of None \<Rightarrow> None
             | Some s \<Rightarrow> map_option (Pair leg) (val now s)) route = Some legs"
    and "\<And>f s. lookup f = Some s \<Longrightarrow> inv s"
  shows "\<forall>l\<in>set legs. now \<le> valid_until (snd l) \<and> \<not> validity_stretched (snd l)"
proof -
  have "now \<le> valid_until (snd y) \<and> \<not> validity_stretched (snd y)"
    if "(case lookup (leg_feed x) of None \<Rightarrow> None
         | Some s \<Rightarrow> map_option (Pair x) (val now s)) = Some y" for x y
  proof -
    note y = that
    obtain s w where "lookup (leg_feed x) = Some s" "val now s = Some w" "y = (x, w)"
      using y by (auto split: option.splits)
    then show ?thesis using assms(2) val_fresh val_not_stretched by fastforce
  qed
  moreover have "\<exists>x. (case lookup (leg_feed x) of None \<Rightarrow> None
      | Some s \<Rightarrow> map_option (Pair x) (val now s)) = Some l" if "l \<in> set legs" for l
    using assms(1) that by (auto simp: map_opt_eq_Some in_set_conv_nth list_all2_conv_all_nth)
  ultimately show ?thesis by blast
qed

end

lemma feed_value_SomeD:
  "feed_value now s = Some v \<Longrightarrow>
   median_reduce (fs_registry s) (fd_id (fs_definition s)) (valid_observations now s) = Some v"
  by (simp add: feed_value_def split: if_splits)

lemma feed_value_fresh: "feed_ok s \<Longrightarrow> feed_value now s = Some v \<Longrightarrow> now \<le> valid_until v"
  by (drule feed_value_SomeD, erule med.reduce_not_expired) (simp add: valid_observations_iff)

lemma feed_value_not_stretched:
  "feed_ok s \<Longrightarrow> feed_value now s = Some v \<Longrightarrow> \<not> validity_stretched v"
  by (drule feed_value_SomeD, erule med.reduce_not_stretched)
    (auto simp: valid_observations_iff, auto simp: feed_ok_def record_ok_def)

lemma feed_value_key: "feed_value now s = Some v \<Longrightarrow> feed_id v = fd_id (fs_definition s)"
  by (drule feed_value_SomeD, erule med.reduce_feed)

lemma feed_value_decimals:
  "feed_value now s = Some v \<Longrightarrow>
   map_option fd_decimals (registry_get (fs_registry s) (fd_id (fs_definition s))) = Some (decimals v)"
  by (drule feed_value_SomeD, erule med.reduce_scale)

interpretation fav: feed_availability is_available record_poll_failure record_poll_success
  feed_value feed_ok "\<lambda>s. fd_id (fs_definition s)"
proof unfold_locales
  fix now s assume "\<not> is_available now s"
  then show "feed_value now s = None" by (simp add: feed_value_def)
next
  fix s now source assume "feed_ok s"
  then show "feed_ok (record_poll_failure now source s)"
    using feed_step_ok [OF feed_step.poll_failed] by blast
next
  fix s source ob assume "feed_ok s" "well_stamped ob"
  then show "feed_ok (record_poll_success source ob s)"
    using feed_step_ok [OF feed_step.poll_succeeded] by blast
qed (simp_all add: feed_value_key feed_value_fresh feed_value_not_stretched)

subsection \<open>Properties\<close>

lemma fail_records:
  assumes "sr_state r \<noteq> Frozen" and "r' = (fail_record now ^^ n) (success_record ob r)"
  shows "unat (sr_failures r') = min n 4294967295 \<and>
    sr_state r' = (if n < 5 then Active else Dropped) \<and>
    (5 \<le> n \<longrightarrow> sr_retry_at r' = Some (sat_add now POLLING_RETRY_TIME))"
  using assms
proof (induction n arbitrary: r')
  case 0
  then show ?case by (simp add: success_record_def)
next
  case (Suc n)
  let ?q = "(fail_record now ^^ n) (success_record ob r)"
  have q: "unat (sr_failures ?q) = min n 4294967295"
    "sr_state ?q = (if n < 5 then Active else Dropped)"
    using Suc.IH [OF Suc.prems(1) refl] by simp_all
  have f: "unat (sat_add (sr_failures ?q) 1) = min (Suc n) 4294967295"
    by (simp add: unat_sat_add q)
  then have five: "MAX_POLLING_ERROR_NUM \<le> sat_add (sr_failures ?q) 1 \<longleftrightarrow> 5 \<le> Suc n"
    by (auto simp: word_le_nat_alt price_constants)
  show ?case
    unfolding Suc.prems(2) funpow.simps comp_def fail_record_def [of now ?q] Let_def
    using q f by (auto simp: five)
qed

lemma record_of_failures:
  "record_of ((record_poll_failure now source ^^ n) s) source =
   (fail_record now ^^ n) (record_of s source)"
  by (induction n) (simp_all add: record_poll_failure_def)

text \<open>
  In every reachable state of a feed a source is dropped exactly while it waits for its retry,
  a dropped source has no observation left and an active one has failed fewer than five times in a
  row, whatever sequence of polls, freezes and unfreezes led there.
\<close>

lemma source_states_consistent:
  assumes "feed_reachable d r s"
  shows "(source_state_of s source = Dropped \<longleftrightarrow> sr_retry_at (record_of s source) \<noteq> None) \<and>
    (source_state_of s source = Dropped \<longrightarrow> last_observed_at s source = None) \<and>
    (source_state_of s source = Active \<longrightarrow> sr_failures (record_of s source) < 5)"
  using feed_reachable_ok [OF assms]
  by (auto simp: feed_ok_def record_ok_def source_state_of_record last_observed_at_record price_constants)

lemma source_states_consistent_witness:
  "source_state_of (freeze 7 (feed_state_new (feed_definition_new 0 Lbtc Usd Direct) default_registry)) 7 = Frozen \<and>
   sr_retry_at (record_of (freeze 7 (feed_state_new (feed_definition_new 0 Lbtc Usd Direct) default_registry)) 7) = None"
proof -
  let ?s = "freeze 7 (feed_state_new (feed_definition_new 0 Lbtc Usd Direct) default_registry)"
  have "feed_reachable (feed_definition_new 0 Lbtc Usd Direct) default_registry ?s"
    by (rule feed_reachable.later [OF feed_reachable.initial feed_step.frozen])
  from source_states_consistent [OF this, of 7] show ?thesis
    by (simp add: source_state_of_record freeze_def)
qed

text \<open>
  A source that has just answered is dropped by exactly the fifth failed poll in a row and
  not before, however many follow; once dropped it is polled again exactly when the retry time has
  passed since the last failure. A frozen source is never dropped.
\<close>

lemma dropped_by_the_fifth_failure:
  "source_state_of ((record_poll_failure now source ^^ n) (record_poll_success source ob s)) source =
     (if source_state_of s source = Frozen then Frozen else if n < 5 then Active else Dropped) \<and>
   (source_state_of ((record_poll_failure now source ^^ n) (record_poll_success source ob s)) source = Dropped \<longrightarrow>
      is_pollable later ((record_poll_failure now source ^^ n) (record_poll_success source ob s)) source =
        (sat_add now POLLING_RETRY_TIME \<le> later))"
proof (cases "source_state_of s source = Frozen")
  case True
  have "(fail_record now ^^ n) (record_of s source) = record_of s source"
    using True by (induction n) (simp_all add: source_state_of_record fail_record_def)
  then show ?thesis
    using True by (simp add: source_state_of_record record_of_failures record_poll_success_def success_record_def)
next
  case False
  then show ?thesis
    using fail_records [where r = "record_of s source" and now = now and n = n and ob = ob, OF _ refl]
    by (auto simp: source_state_of_record is_pollable_record record_of_failures record_poll_success_def)
qed

lemma dropped_by_the_fifth_failure_witness:
  "is_pollable 60 ((record_poll_failure 0 1 ^^ 5) (record_poll_success 1 (source_observation_new 7 8 0 0)
      (feed_state_new (feed_definition_new 0 Lbtc Usd Direct) default_registry))) 1"
proof -
  let ?s = "feed_state_new (feed_definition_new 0 Lbtc Usd Direct) default_registry"
  note D = dropped_by_the_fifth_failure [where now = 0 and source = 1 and n = 5
    and ob = "source_observation_new 7 8 0 0" and s = ?s and later = 60]
  have "source_state_of ?s 1 = Active" by (simp add: source_state_of_def feed_state_new_def)
  then show ?thesis using D by (simp add: word_facts price_constants)
qed

text \<open>
  A feed's availability asks for one active source and for one unexpired observation, but not
  that they are the same source: there is a reachable state in which the only active source has
  never reported and the feed's value is the price of a frozen source.
\<close>

lemma frozen_source_can_price_feed:
  "\<exists>s. feed_reachable (feed_definition_new 0 Lbtc Usd Direct) default_registry s \<and>
     source_state_of s 0 = Frozen \<and>
     source_state_of s 1 = Active \<and> last_observed_at s 1 = None \<and>
     feed_value 1000 s = Some \<lparr>feed_id = 0, price = 500, decimals = 8, received_at = 1000, valid_until = 1300\<rparr>"
proof -
  let ?s0 = "feed_state_new (feed_definition_new 0 Lbtc Usd Direct) default_registry"
  let ?ob = "source_observation_new 500 8 1000 1000"
  let ?s = "record_poll_failure 1000 1 (freeze 0 (record_poll_success 0 ?ob ?s0))"
  have "feed_reachable (feed_definition_new 0 Lbtc Usd Direct) default_registry ?s"
    by (intro feed_reachable.later [OF _ feed_step.poll_failed] feed_reachable.later [OF _ feed_step.frozen]
        feed_reachable.later [OF _ feed_step.poll_succeeded] feed_reachable.initial
        source_observation_new_well_stamped)
  moreover have "source_state_of ?s 0 = Frozen" "source_state_of ?s 1 = Active" "last_observed_at ?s 1 = None"
    by (simp_all add: source_state_of_record last_observed_at_record source_ops fail_record_def
        success_record_def record_of_def feed_state_new_def default_record_def Let_def
        modify_source_def bt_get_def price_constants sat_add_def word_le_nat_alt)
  moreover have "feed_value 1000 ?s = Some \<lparr>feed_id = 0, price = 500, decimals = 8, received_at = 1000, valid_until = 1300\<rparr>"
    by (simp add: feed_value_def is_available_def valid_observations_def source_ops fail_record_def
        success_record_def record_of_def feed_state_new_def default_record_def Let_def
        modify_source_def bt_get_def bt_values_def price_constants sat_add_def List.map_filter_def
        median_reduce_def median_def registry_get_def default_registry_eq SUPPORTED_FEEDS_def
        feed_definition_new_def source_observation_new_def FEED_DECIMALS_def word_le_nat_alt)
  ultimately show ?thesis by blast
qed

end
