(* ===== verification/Feed_States.thy ===== *)
theory Feed_States
  imports Feed_State
begin

text \<open>
  All feeds of a node (\<open>feed_state.rs\<close>, \<open>FeedStates\<close>): one state per direct feed and the routes
  of every cross pair. As in \<open>Feed_State\<close>, \<open>now\<close> is the reading of the clock.
\<close>

record cross_pair =
  cp_definition :: feed_definition
  cp_routes :: "computation_path list list"

record feed_states =
  fss_states :: "(feed_id, feed_state) btree"
  fss_cross_pairs :: "(feed_id, cross_pair) btree"

definition feed_states_new :: "feed_registry \<Rightarrow> cross_pair_error + feed_states" where
  "feed_states_new registry =
     bind_res
       (map_res (\<lambda>d. bind_res (candidates registry d)
                       (\<lambda>routes. Inr (fd_id d, \<lparr>cp_definition = d, cp_routes = routes\<rparr>)))
          (filter (\<lambda>d. fd_kind d = Cross) registry))
       (\<lambda>pairs. Inr \<lparr>fss_states = bt_of_list (map (\<lambda>d. (fd_id d, feed_state_new d registry))
                                      (filter (\<lambda>d. fd_kind d = Direct) registry)),
                     fss_cross_pairs = bt_of_list pairs\<rparr>)"

definition fss_get :: "feed_states \<Rightarrow> feed_id \<Rightarrow> feed_state option" where
  "fss_get s feed = bt_get (fss_states s) feed"

text \<open>A change of the state \<open>get_mut\<close> lends, or nothing where it lends none.\<close>

definition fss_modify :: "feed_id \<Rightarrow> (feed_state \<Rightarrow> feed_state) \<Rightarrow> feed_states \<Rightarrow> feed_states" where
  "fss_modify feed f s =
     (case bt_get (fss_states s) feed of None \<Rightarrow> s
      | Some st \<Rightarrow> s\<lparr>fss_states := bt_insert feed (f st) (fss_states s)\<rparr>)"

definition leg_value ::
  "u64 \<Rightarrow> feed_states \<Rightarrow> computation_path \<Rightarrow> (computation_path \<times> price_feed_data) option" where
  "leg_value now s leg =
     (case bt_get (fss_states s) (leg_feed leg) of None \<Rightarrow> None
      | Some st \<Rightarrow> map_option (Pair leg) (feed_value now st))"

definition fss_value :: "u64 \<Rightarrow> feed_states \<Rightarrow> feed_id \<Rightarrow> price_feed_data option" where
  "fss_value now s feed =
     (case bt_get (fss_cross_pairs s) feed of
        None \<Rightarrow> (case bt_get (fss_states s) feed of None \<Rightarrow> None | Some st \<Rightarrow> feed_value now st)
      | Some pair \<Rightarrow>
          (case find_map (map_opt (leg_value now s)) (cp_routes pair) of None \<Rightarrow> None
           | Some legs \<Rightarrow> compute (cp_definition pair) legs))"

subsection \<open>The invariant of the feeds\<close>

inductive fss_step :: "feed_states \<Rightarrow> feed_states \<Rightarrow> bool" where
  "(\<And>st. feed_step st e (f st)) \<Longrightarrow> fss_step s (fss_modify feed f s)"

inductive fss_reachable :: "feed_registry \<Rightarrow> feed_states \<Rightarrow> bool" for r :: feed_registry where
  initial: "feed_states_new r = Inr s \<Longrightarrow> fss_reachable r s"
| later: "fss_reachable r s \<Longrightarrow> fss_step s t \<Longrightarrow> fss_reachable r t"

definition fss_ok :: "feed_registry \<Rightarrow> feed_states \<Rightarrow> bool" where
  "fss_ok r s \<longleftrightarrow>
     (\<forall>feed st. bt_get (fss_states s) feed = Some st \<longrightarrow>
        (\<exists>d\<in>set r. fd_id d = feed \<and> fd_kind d = Direct \<and> feed_reachable d r st)) \<and>
     (\<forall>feed pair. bt_get (fss_cross_pairs s) feed = Some pair \<longrightarrow>
        cp_definition pair \<in> set r \<and> fd_id (cp_definition pair) = feed \<and>
        fd_kind (cp_definition pair) = Cross \<and>
        candidates r (cp_definition pair) = Inr (cp_routes pair))"

lemma map_res_Inr_in_set:
  "map_res f xs = Inr ys \<Longrightarrow> y \<in> set ys \<Longrightarrow> \<exists>x\<in>set xs. f x = Inr y"
  by (auto simp: map_res_eq_Inr in_set_conv_nth list_all2_conv_all_nth) (metis nth_mem)

lemma feed_states_new_ok:
  assumes "feed_states_new r = Inr s"
  shows "fss_ok r s"
proof -
  obtain pairs where pairs:
      "map_res (\<lambda>d. bind_res (candidates r d)
          (\<lambda>routes. Inr (fd_id d, \<lparr>cp_definition = d, cp_routes = routes\<rparr>))) (filter (\<lambda>d. fd_kind d = Cross) r) = Inr pairs"
    and s: "s = \<lparr>fss_states = bt_of_list (map (\<lambda>d. (fd_id d, feed_state_new d r))
                                (filter (\<lambda>d. fd_kind d = Direct) r)),
                 fss_cross_pairs = bt_of_list pairs\<rparr>"
    using assms by (auto simp: feed_states_new_def bind_res_eq_Inr)
  have "bt_get (fss_states s) feed = Some st \<Longrightarrow>
      \<exists>d\<in>set r. fd_id d = feed \<and> fd_kind d = Direct \<and> feed_reachable d r st" for feed st
    by (auto simp: s bt_get_of_list dest!: map_of_SomeD) (blast intro: feed_reachable.initial)
  moreover have "bt_get (fss_cross_pairs s) feed = Some pair \<Longrightarrow>
      cp_definition pair \<in> set r \<and> fd_id (cp_definition pair) = feed \<and>
      fd_kind (cp_definition pair) = Cross \<and>
      candidates r (cp_definition pair) = Inr (cp_routes pair)" for feed pair
    by (auto simp: s bt_get_of_list bind_res_eq_Inr dest!: map_of_SomeD map_res_Inr_in_set [OF pairs])
  ultimately show ?thesis unfolding fss_ok_def by blast
qed

lemma fss_step_ok: "fss_step s t \<Longrightarrow> fss_ok r s \<Longrightarrow> fss_ok r t"
proof (induction rule: fss_step.induct)
  case (1 e f s feed)
  show ?case
  proof (cases "bt_get (fss_states s) feed")
    case None
    with 1 show ?thesis by (simp add: fss_modify_def)
  next
    case (Some st)
    then obtain d where "d \<in> set r" "fd_id d = feed" "fd_kind d = Direct" "feed_reachable d r st"
      using 1(2) unfolding fss_ok_def by blast
    then have "\<exists>d\<in>set r. fd_id d = feed \<and> fd_kind d = Direct \<and> feed_reachable d r (f st)"
      using feed_reachable.later 1(1) by metis
    then show ?thesis
      using 1(2) Some unfolding fss_ok_def by (simp add: fss_modify_def bt_get_insert)
  qed
qed

lemma fss_reachable_ok: "fss_reachable r s \<Longrightarrow> fss_ok r s"
  by (induction rule: fss_reachable.induct) (blast intro: feed_states_new_ok fss_step_ok)+

lemma fss_ok_state:
  "fss_ok r s \<Longrightarrow> bt_get (fss_states s) feed = Some st \<Longrightarrow>
   feed_ok st \<and> fs_definition st \<in> set r \<and> fd_id (fs_definition st) = feed \<and> fs_registry st = r"
  unfolding fss_ok_def using feed_reachable_ok by metis

lemma leg_value_alt:
  "leg_value now s = (\<lambda>leg. case bt_get (fss_states s) (leg_feed leg) of None \<Rightarrow> None
     | Some st \<Rightarrow> map_option (Pair leg) (feed_value now st))"
  by (simp add: fun_eq_iff leg_value_def)

lemma route_legs_sound:
  assumes "fss_ok r s" and "map_opt (leg_value now s) route = Some legs"
  shows "\<forall>l\<in>set legs. now \<le> valid_until (snd l) \<and> \<not> validity_stretched (snd l)"
proof (rule fav.legs_sound)
  show "map_opt (\<lambda>leg. case bt_get (fss_states s) (leg_feed leg) of None \<Rightarrow> None
      | Some st \<Rightarrow> map_option (Pair leg) (feed_value now st)) route = Some legs"
    using assms(2) by (simp add: leg_value_alt)
  show "\<And>f st. bt_get (fss_states s) f = Some st \<Longrightarrow> feed_ok st"
    using fss_ok_state [OF assms(1)] by blast
qed

lemma compute_fresh:
  assumes "compute pair legs = Some v" and "\<forall>l\<in>set legs. now \<le> valid_until (snd l)"
  shows "now \<le> valid_until v"
proof -
  note D = compute_eq_SomeD [OF assms(1)]
  then have "valid_until v \<in> (valid_until \<circ> snd) ` set legs"
    using Min_in [of "(valid_until \<circ> snd) ` set legs"] by simp
  then show ?thesis using assms(2) by auto
qed

lemma fss_value_cases:
  assumes "fss_value now s feed = Some v"
  obtains (direct) st where "bt_get (fss_states s) feed = Some st" "feed_value now st = Some v"
  | (cross) pair legs route where "bt_get (fss_cross_pairs s) feed = Some pair"
      "route \<in> set (cp_routes pair)" "map_opt (leg_value now s) route = Some legs"
      "find_map (map_opt (leg_value now s)) (cp_routes pair) = Some legs"
      "compute (cp_definition pair) legs = Some v"
proof (cases "bt_get (fss_cross_pairs s) feed")
  case None
  then show thesis using assms direct by (auto simp: fss_value_def split: option.splits)
next
  case (Some pair)
  then obtain legs where l: "find_map (map_opt (leg_value now s)) (cp_routes pair) = Some legs"
      "compute (cp_definition pair) legs = Some v"
    using assms by (auto simp: fss_value_def split: option.splits)
  then show thesis using cross [OF Some] find_map_SomeD [OF l(1)] by blast
qed

lemma fss_value_sound:
  assumes "fss_ok r s" and "fss_value now s feed = Some v"
  shows "feed_id v = feed \<and> now \<le> valid_until v \<and> \<not> validity_stretched v"
  using assms(2)
proof (cases rule: fss_value_cases)
  case (direct st)
  then show ?thesis
    using fss_ok_state [OF assms(1) direct(1)] feed_value_key [OF direct(2)]
      feed_value_fresh [OF _ direct(2)] feed_value_not_stretched [OF _ direct(2)] by auto
next
  case (cross pair legs route)
  have "fd_id (cp_definition pair) = feed" using assms(1) cross(1) by (simp add: fss_ok_def)
  then show ?thesis
    using route_legs_sound [OF assms(1) cross(3)] cross(5) compute_eq_SomeD [OF cross(5)]
    by (simp add: compute_fresh compute_not_stretched)
qed

lemma fss_value_decimals:
  assumes "fss_ok r s" and "distinct (map fd_id r)" and "fss_value now s feed = Some v"
  shows "map_option fd_decimals (registry_get r feed) = Some (decimals v)"
  using assms(3)
proof (cases rule: fss_value_cases)
  case (direct st)
  then show ?thesis
    using fss_ok_state [OF assms(1) direct(1)] feed_value_decimals [OF direct(2)] by simp
next
  case (cross pair legs route)
  have "cp_definition pair \<in> set r" "fd_id (cp_definition pair) = feed"
    using assms(1) cross(1) by (auto simp: fss_ok_def)
  then have "registry_get r feed = Some (cp_definition pair)"
    using registry_get_distinct [OF assms(2)] by auto
  then show ?thesis using compute_eq_SomeD [OF cross(5)] by simp
qed

lemma leg_value_fst: "leg_value now s leg = Some l \<Longrightarrow> fst l = leg \<and> leg_value now s (fst l) = Some l"
  by (auto simp: leg_value_def split: option.splits)

lemma map_opt_legs:
  "map_opt (leg_value now s) route = Some legs \<Longrightarrow>
   map fst legs = route \<and> (\<forall>l\<in>set legs. leg_value now s (fst l) = Some l)"
proof (induction route arbitrary: legs)
  case (Cons leg route)
  then obtain l ls where l: "leg_value now s leg = Some l" "map_opt (leg_value now s) route = Some ls"
      "legs = l # ls"
    by (auto split: option.splits)
  with Cons.IH [OF l(2)] leg_value_fst [OF l(1)] show ?case by simp
qed simp

text \<open>The feeds of a node that has just started with the default registry.\<close>

definition through_usd :: "feed_id \<Rightarrow> feed_id \<Rightarrow> computation_path list" where
  "through_usd base quote =
     [\<lparr>leg_feed = base, leg_invert = False\<rparr>, \<lparr>leg_feed = quote, leg_invert = True\<rparr>]"

definition default_states :: feed_states where
  "default_states =
     \<lparr>fss_states = map (\<lambda>(i, base). (i, feed_state_new (feed_definition_new i base Usd Direct) default_registry))
        [(0, Lbtc), (1, Usdt), (2, Eurx), (3, DePix), (7, Usdc)],
      fss_cross_pairs = map (\<lambda>(i, base, leg).
           (i, \<lparr>cp_definition = feed_definition_new i base Usdt Cross, cp_routes = [through_usd leg 1]\<rparr>))
        [(4, Lbtc, 0), (5, Eurx, 2), (6, DePix, 3)]\<rparr>"

lemma default_candidates:
  "candidates default_registry (feed_definition_new 4 Lbtc Usdt Cross) = Inr [through_usd 0 1]"
  "candidates default_registry (feed_definition_new 5 Eurx Usdt Cross) = Inr [through_usd 2 1]"
  "candidates default_registry (feed_definition_new 6 DePix Usdt Cross) = Inr [through_usd 3 1]"
  by (simp_all add: candidates_def default_registry_eq SUPPORTED_FEEDS_def feed_definition_new_def
      extend_route.simps traverse_def route_order_def through_usd_def)

lemma default_feeds:
  "filter (\<lambda>d. fd_kind d = Cross) default_registry =
     map (\<lambda>(i, base). feed_definition_new i base Usdt Cross) [(4, Lbtc), (5, Eurx), (6, DePix)]"
  "filter (\<lambda>d. fd_kind d = Direct) default_registry =
     map (\<lambda>(i, base). feed_definition_new i base Usd Direct)
       [(0, Lbtc), (1, Usdt), (2, Eurx), (3, DePix), (7, Usdc)]"
  by (simp_all add: default_registry_eq SUPPORTED_FEEDS_def feed_definition_new_def)

lemma fd_id_new [simp]: "fd_id (feed_definition_new i b q k) = i"
  by (simp add: feed_definition_new_def)

lemma feed_states_new_default: "feed_states_new default_registry = Inr default_states"
  by (simp add: feed_states_new_def default_feeds default_candidates default_states_def bt_of_list_def)

definition priced_states :: feed_states where
  "priced_states =
     fss_modify 1 (record_poll_success 0 (source_observation_new 100000000 8 990 990))
       (fss_modify 0 (record_poll_success 0 (source_observation_new 6000000000000 8 1000 1000))
         default_states)"

lemma polled_reachable:
  "fss_reachable r s \<Longrightarrow> well_stamped ob \<Longrightarrow> fss_reachable r (fss_modify feed (record_poll_success source ob) s)"
  by (rule fss_reachable.later [OF _ fss_step.intros [where e = "PollSucceeded source ob"]])
    (simp_all add: feed_step.poll_succeeded)

lemma priced_reachable: "fss_reachable default_registry priced_states"
  unfolding priced_states_def
  by (intro polled_reachable fss_reachable.initial feed_states_new_default
      source_observation_new_well_stamped)

lemmas feed_evaluation = feed_value_def is_available_def valid_observations_def source_ops
  success_record_def feed_state_new_def default_record_def Let_def modify_source_def bt_get_def
  bt_values_def price_constants sat_add_def List.map_filter_def median_reduce_def median_def
  registry_get_def default_registry_eq SUPPORTED_FEEDS_def feed_definition_new_def
  source_observation_new_def FEED_DECIMALS_def word_le_nat_alt

lemma priced_legs:
  "leg_value 1000 priced_states \<lparr>leg_feed = 0, leg_invert = False\<rparr> =
     Some (\<lparr>leg_feed = 0, leg_invert = False\<rparr>,
       \<lparr>feed_id = 0, price = 6000000000000, decimals = 8, received_at = 1000, valid_until = 1300\<rparr>)"
  "leg_value 1000 priced_states \<lparr>leg_feed = 1, leg_invert = True\<rparr> =
     Some (\<lparr>leg_feed = 1, leg_invert = True\<rparr>,
       \<lparr>feed_id = 1, price = 100000000, decimals = 8, received_at = 990, valid_until = 1290\<rparr>)"
  by (simp_all add: leg_value_def priced_states_def default_states_def fss_modify_def feed_evaluation)

lemma priced_pair:
  "bt_get (fss_cross_pairs priced_states) 4 =
   Some \<lparr>cp_definition = feed_definition_new 4 Lbtc Usdt Cross, cp_routes = [through_usd 0 1]\<rparr>"
  by (simp add: priced_states_def default_states_def fss_modify_def bt_get_def)

lemma priced_cross_value:
  "fss_value 1000 priced_states 4 =
   Some \<lparr>feed_id = 4, price = 6000000000000, decimals = 8, received_at = 1000, valid_until = 1290\<rparr>"
proof -
  have "compute (feed_definition_new 4 Lbtc Usdt Cross)
      [(\<lparr>leg_feed = 0, leg_invert = False\<rparr>,
        \<lparr>feed_id = 0, price = 6000000000000, decimals = 8, received_at = 1000, valid_until = 1300\<rparr>),
       (\<lparr>leg_feed = 1, leg_invert = True\<rparr>,
        \<lparr>feed_id = 1, price = 100000000, decimals = 8, received_at = 990, valid_until = 1290\<rparr>)] =
     Some \<lparr>feed_id = 4, price = 6000000000000, decimals = 8, received_at = 1000, valid_until = 1290\<rparr>"
    by code_simp
  then show ?thesis
    by (simp add: fss_value_def priced_pair through_usd_def priced_legs)
qed

lemma priced_values:
  "List.map_filter (\<lambda>d. fss_value 1000 priced_states (fd_id d)) default_registry =
   [\<lparr>feed_id = 0, price = 6000000000000, decimals = 8, received_at = 1000, valid_until = 1300\<rparr>,
    \<lparr>feed_id = 1, price = 100000000, decimals = 8, received_at = 990, valid_until = 1290\<rparr>,
    \<lparr>feed_id = 4, price = 6000000000000, decimals = 8, received_at = 1000, valid_until = 1290\<rparr>]"
proof -
  have d: "default_registry = map (\<lambda>(i, b, q, k). feed_definition_new i b q k)
      [(0, Lbtc, Usd, Direct), (1, Usdt, Usd, Direct), (2, Eurx, Usd, Direct), (3, DePix, Usd, Direct),
       (4, Lbtc, Usdt, Cross), (5, Eurx, Usdt, Cross), (6, DePix, Usdt, Cross), (7, Usdc, Usd, Direct)]"
    by (simp add: default_registry_eq SUPPORTED_FEEDS_def)
  have v: "fss_value 1000 priced_states 0 =
        Some \<lparr>feed_id = 0, price = 6000000000000, decimals = 8, received_at = 1000, valid_until = 1300\<rparr>"
      "fss_value 1000 priced_states 1 =
        Some \<lparr>feed_id = 1, price = 100000000, decimals = 8, received_at = 990, valid_until = 1290\<rparr>"
      "fss_value 1000 priced_states 2 = None" "fss_value 1000 priced_states 3 = None"
      "fss_value 1000 priced_states 5 = None" "fss_value 1000 priced_states 6 = None"
      "fss_value 1000 priced_states 7 = None"
    by (simp_all add: fss_value_def leg_value_def through_usd_def priced_states_def default_states_def
        fss_modify_def feed_evaluation)
  show ?thesis unfolding d by (simp add: List.map_filter_def v priced_cross_value)
qed

subsection \<open>Properties\<close>

text \<open>
  C9: whatever polls, freezes and unfreezes a node has gone through, a value it serves for a feed,
  direct or cross, is the value of that feed at that feed's registered decimals, is not past its
  validity at the time of the read, and is valid for at most 300 seconds after the receipt time it
  carries.
\<close>

theorem served_value_sound:
  assumes "fss_reachable r s" and "distinct (map fd_id r)" and "fss_value now s feed = Some v"
  shows "feed_id v = feed \<and> map_option fd_decimals (registry_get r feed) = Some (decimals v) \<and>
    unat now \<le> unat (valid_until v) \<and> unat (valid_until v) \<le> unat (received_at v) + 300"
  using fss_value_sound [OF fss_reachable_ok [OF assms(1)] assms(3)]
    fss_value_decimals [OF fss_reachable_ok [OF assms(1)] assms(2,3)]
  by (simp add: not_stretched_iff word_facts)

theorem served_value_sound_witness: "unat (1000 :: u64) \<le> unat (1290 :: u64)"
  using served_value_sound [OF priced_reachable default_registry_distinct priced_cross_value] by simp

text \<open>
  A cross pair is priced from one of its simple routes, over the values its direct legs have
  at that moment, and no simple route with fewer legs had all its legs available.
\<close>

lemma cross_value_from_shortest_available_route:
  assumes "fss_reachable r s" and "bt_get (fss_cross_pairs s) feed = Some pair"
    and "fss_value now s feed = Some v"
  shows "\<exists>route legs.
    simple_route (filter (\<lambda>d. fd_kind d = Direct) r) (fd_base (cp_definition pair))
      (fd_quote (cp_definition pair)) {fd_base (cp_definition pair)} route \<and>
    map fst legs = route \<and> (\<forall>l\<in>set legs. leg_value now s (fst l) = Some l) \<and>
    compute (cp_definition pair) legs = Some v \<and>
    (\<forall>shorter. simple_route (filter (\<lambda>d. fd_kind d = Direct) r) (fd_base (cp_definition pair))
        (fd_quote (cp_definition pair)) {fd_base (cp_definition pair)} shorter \<and>
      length shorter < length route \<longrightarrow> (\<exists>leg\<in>set shorter. leg_value now s leg = None))"
proof -
  let ?simple = "simple_route (filter (\<lambda>d. fd_kind d = Direct) r) (fd_base (cp_definition pair))
      (fd_quote (cp_definition pair)) {fd_base (cp_definition pair)}"
  obtain legs where legs: "find_map (map_opt (leg_value now s)) (cp_routes pair) = Some legs"
      "compute (cp_definition pair) legs = Some v"
    using assms(2,3) by (auto simp: fss_value_def split: option.splits)
  obtain us route vs where route: "cp_routes pair = us @ route # vs"
      "map_opt (leg_value now s) route = Some legs" "\<forall>u\<in>set us. map_opt (leg_value now s) u = None"
    using find_map_first [OF legs(1)] by blast
  have "candidates r (cp_definition pair) = Inr (cp_routes pair)"
    using fss_reachable_ok [OF assms(1)] assms(2) by (simp add: fss_ok_def)
  note C = candidates_are_simple [OF this]
  have "?simple route" using C route(1) by auto
  moreover have "map fst legs = route \<and> (\<forall>l\<in>set legs. leg_value now s (fst l) = Some l)"
    using map_opt_legs [OF route(2)] .
  moreover have "\<exists>leg\<in>set shorter. leg_value now s leg = None"
    if "?simple shorter \<and> length shorter < length route" for shorter
  proof -
    have "shorter \<in> set us \<union> set (route # vs)" using C that route(1) by auto
    moreover have "shorter \<notin> set (route # vs)"
      using C that route(1) by (auto simp: sorted_append)
    ultimately have "map_opt (leg_value now s) shorter = None" using route(3) by blast
    then show ?thesis by (simp add: map_opt_None_iff)
  qed
  ultimately show ?thesis using legs(2) by blast
qed

lemma cross_value_from_shortest_available_route_witness:
  "\<exists>route legs. map fst legs = route \<and> (\<forall>l\<in>set legs. leg_value 1000 priced_states (fst l) = Some l) \<and>
     compute (feed_definition_new 4 Lbtc Usdt Cross) legs =
       Some \<lparr>feed_id = 4, price = 6000000000000, decimals = 8, received_at = 1000, valid_until = 1290\<rparr>"
  using cross_value_from_shortest_available_route [OF priced_reachable priced_pair priced_cross_value]
  unfolding cross_pair.simps by blast

text \<open>
  The supported feeds, listed in any order, give a node that starts: a state for each of the
  five direct feeds, and for each cross pair the one route through USD.
\<close>

lemma supported_feeds_start:
  assumes "mset fs = mset SUPPORTED_FEEDS"
  shows "feed_states_new (registry_new fs) = Inr default_states"
proof -
  have "registry_new SUPPORTED_FEEDS = registry_new fs"
    by (rule registry_new_permuted) (use assms default_registry_distinct default_registry_eq in simp_all)
  then have "registry_new fs = default_registry" by (simp add: default_registry_def)
  then show ?thesis using feed_states_new_default by simp
qed

lemma supported_feeds_start_witness:
  "feed_states_new (registry_new (rev SUPPORTED_FEEDS)) = Inr default_states"
  by (rule supported_feeds_start) simp

end
