(* ===== verification/Price_Instruction.thy ===== *)
theory Price_Instruction
  imports Feed_States
begin

text \<open>
  Whether a signer accepts an instructed rate (\<open>instruction.rs\<close>). The deviation is compared in
  128-bit words, whose products wrap in the model as they would in the code.
\<close>

datatype validation_error =
    UnknownFeed
  | NoLocalPrice
  | Stale
  | ImplausibleTimestamp
  | StretchedValidity
  | WrongDecimals
  | DeviationExceeded

definition BASIS_POINTS :: u128 where "BASIS_POINTS = 10000"

definition within_deviation :: "u64 \<Rightarrow> u64 \<Rightarrow> bool" where
  "within_deviation instructed own \<longleftrightarrow>
     (let i = ucast instructed :: u128; o' = ucast own :: u128
      in abs_diff i o' * BASIS_POINTS < i * ucast MAX_ACCEPT_DEVIATION_FEED_BPS)"

definition validate_rate ::
  "price_feed_data \<Rightarrow> feed_registry \<Rightarrow> price_feed_data option \<Rightarrow> u64 \<Rightarrow> validation_error + unit" where
  "validate_rate instructed registry own now =
     bind_res (ok_or UnknownFeed (registry_get registry (feed_id instructed))) (\<lambda>definition.
     bind_res (ok_or NoLocalPrice own) (\<lambda>own.
     bind_res (require (\<not> valid_until instructed \<le> now) Stale) (\<lambda>_.
     bind_res (require (\<not> stamped_ahead instructed now) ImplausibleTimestamp) (\<lambda>_.
     bind_res (require (\<not> validity_stretched instructed) StretchedValidity) (\<lambda>_.
     bind_res (require (decimals instructed = fd_decimals definition) WrongDecimals) (\<lambda>_.
     require (within_deviation (price instructed) (price own)) DeviationExceeded))))))"

lemma within_deviation_iff:
  "within_deviation i o' \<longleftrightarrow> \<bar>int (unat i) - int (unat o')\<bar> * 100 < int (unat i)"
proof -
  have c: "unat (ucast i :: u128) = unat i" "unat (ucast o' :: u128) = unat o'"
    by (simp_all add: unat_ucast_widen)
  have d: "unat (abs_diff (ucast i :: u128) (ucast o')) = nat \<bar>int (unat i) - int (unat o')\<bar>"
    unfolding unat_abs_diff c by linarith
  have b: "nat \<bar>int (unat i) - int (unat o')\<bar> < 18446744073709551616"
    using unat_u64_bound [of i] unat_u64_bound [of o'] by linarith
  have "unat (abs_diff (ucast i :: u128) (ucast o') * BASIS_POINTS) =
      nat \<bar>int (unat i) - int (unat o')\<bar> * 10000"
    using b by (simp add: unat_word_ariths BASIS_POINTS_def d)
  moreover have "unat ((ucast i :: u128) * ucast MAX_ACCEPT_DEVIATION_FEED_BPS) = unat i * 100"
    using unat_u64_bound [of i] by (simp add: unat_word_ariths c price_constants)
  moreover have "nat \<bar>x\<bar> * 10000 < n * 100 \<longleftrightarrow> \<bar>x\<bar> * 100 < int n" for x n by linarith
  ultimately show ?thesis
    unfolding within_deviation_def Let_def word_less_nat_alt by (simp only:)
qed

lemma within_deviation_refl: "within_deviation p p \<longleftrightarrow> p \<noteq> 0"
  unfolding within_deviation_iff unat_gt_0 [of p, symmetric]
  by (simp only: diff_self abs_zero mult_zero_left of_nat_0_less_iff)

lemma validate_rate_Inr:
  "validate_rate i r own now = Inr () \<longleftrightarrow>
   (\<exists>d o'. registry_get r (feed_id i) = Some d \<and> own = Some o' \<and>
      now < valid_until i \<and> \<not> stamped_ahead i now \<and> \<not> validity_stretched i \<and>
      decimals i = fd_decimals d \<and> within_deviation (price i) (price o'))"
  by (auto simp: validate_rate_def bind_res_eq_Inr not_le)

subsection \<open>Properties\<close>

text \<open>
  A signer accepts an instructed rate exactly when the feed is registered and the rate carries
  its decimals, the signer holds a price of its own, the rate is strictly before its expiry,
  received no more than 5 seconds ahead of the signer's clock, valid for at most 300 seconds after
  its receipt, and differs from the signer's price by strictly less than one hundredth of the rate,
  in exact arithmetic: no product of the 128-bit comparison wraps.
\<close>

lemma validate_rate_accepts_iff:
  "validate_rate i r own now = Inr () \<longleftrightarrow>
   map_option fd_decimals (registry_get r (feed_id i)) = Some (decimals i) \<and> own \<noteq> None \<and>
   unat now < unat (valid_until i) \<and>
   unat (received_at i) \<le> unat now + 5 \<and>
   unat (valid_until i) \<le> unat (received_at i) + 300 \<and>
   \<bar>int (unat (price i)) - int (unat (price (the own)))\<bar> * 100 < int (unat (price i))"
proof -
  have ahead: "\<not> stamped_ahead i now \<longleftrightarrow> unat (received_at i) \<le> unat now + 5"
    by (simp add: not_stamped_ahead_iff price_constants)
  have str: "\<not> validity_stretched i \<longleftrightarrow> unat (valid_until i) \<le> unat (received_at i) + 300"
    by (simp add: not_stretched_iff price_constants)
  show ?thesis
    unfolding validate_rate_Inr ahead str within_deviation_iff word_less_nat_alt
    by (cases own; cases "registry_get r (feed_id i)") auto
qed

end
