(* ===== verification/Attestation_Store.thy ===== *)
theory Attestation_Store
  imports Price_Instruction
begin

text \<open>
  The stored price attestations (\<open>db/price_attestation.rs\<close>): one row per public key and feed, the
  table's primary key, in the order of the public key's bytes. The database integers are signed
  64-bit numbers, so a value of 2^63 or more is refused. A failure of the database itself is not
  modelled: its statements do what they say.
\<close>

record price_attestation =
  at_feed :: price_feed_data
  at_signature :: bytes
  at_public_key :: bytes

datatype store_error = OutOfRange u64 | MalformedPublicKey

record attestation_row =
  row_price :: int
  row_decimals :: int
  row_received_at :: int
  row_valid_until :: int
  row_signature :: bytes

type_synonym attestation_store = "(bytes \<times> feed_id, attestation_row) btree"

definition to_i64 :: "u64 \<Rightarrow> store_error + int" where
  "to_i64 v = (if uint v < 2 ^ 63 then Inr (uint v) else Inl (OutOfRange v))"

definition feed_data :: "feed_id \<Rightarrow> attestation_row \<Rightarrow> price_feed_data" where
  "feed_data feed row =
     \<lparr>feed_id = feed, price = word_of_int (row_price row), decimals = word_of_int (row_decimals row),
      received_at = word_of_int (row_received_at row), valid_until = word_of_int (row_valid_until row)\<rparr>"

definition last_attested :: "attestation_store \<Rightarrow> bytes \<Rightarrow> feed_id \<Rightarrow> price_feed_data option" where
  "last_attested st attester feed = map_option (feed_data feed) (bt_get st (attester, feed))"

text \<open>The upsert: a conflicting row is replaced only by a strictly greater \<open>received_at\<close>.\<close>

definition store_latest ::
  "price_attestation \<Rightarrow> attestation_store \<Rightarrow> store_error + attestation_store \<times> bool" where
  "store_latest a st =
     bind_res (to_i64 (price (at_feed a))) (\<lambda>p.
     bind_res (to_i64 (received_at (at_feed a))) (\<lambda>received.
     bind_res (to_i64 (valid_until (at_feed a))) (\<lambda>until.
       let k = (at_public_key a, feed_id (at_feed a));
           row = \<lparr>row_price = p, row_decimals = uint (decimals (at_feed a)),
                  row_received_at = received, row_valid_until = until,
                  row_signature = at_signature a\<rparr>
       in case bt_get st k of
            None \<Rightarrow> Inr (bt_insert k row st, True)
          | Some held \<Rightarrow>
              if row_received_at held < received then Inr (bt_insert k row st, True)
              else Inr (st, False))))"

definition attestations_for :: "attestation_store \<Rightarrow> feed_id \<Rightarrow> store_error + price_attestation list" where
  "attestations_for st feed =
     map_res (\<lambda>((public_key, _), row).
         if length public_key = 32
         then Inr \<lparr>at_feed = feed_data feed row, at_signature = row_signature row,
                   at_public_key = public_key\<rparr>
         else Inl MalformedPublicKey)
       (filter (\<lambda>((_, row_feed), _). row_feed = feed) st)"

text \<open>
  The loop both writers run over a list of attestations: each statement commits on its own, so an
  error keeps the rows written before it.
\<close>

fun store_all ::
  "price_attestation list \<Rightarrow> attestation_store \<Rightarrow> attestation_store \<times> (store_error + unit)" where
  "store_all [] st = (st, Inr ())"
| "store_all (a # as) st =
     (case store_latest a st of Inl e \<Rightarrow> (st, Inl e) | Inr (st', _) \<Rightarrow> store_all as st')"

subsection \<open>The contract of a store that keeps the newest\<close>

locale newest_store =
  fixes held :: "'s \<Rightarrow> 'k \<Rightarrow> 'v option"
    and offer :: "'k \<Rightarrow> 'v \<Rightarrow> 's \<Rightarrow> 's option"
    and stamp :: "'v \<Rightarrow> nat"
    and inv :: "'s \<Rightarrow> bool"
  assumes offer_newer: "inv s \<Longrightarrow> offer k v s = Some t \<Longrightarrow>
      (\<And>w. held s k = Some w \<Longrightarrow> stamp w < stamp v) \<Longrightarrow> held t k = Some v"
    and offer_older: "inv s \<Longrightarrow> offer k v s = Some t \<Longrightarrow> held s k = Some w \<Longrightarrow>
      stamp v \<le> stamp w \<Longrightarrow> held t k = Some w"
    and offer_other: "inv s \<Longrightarrow> offer k v s = Some t \<Longrightarrow> j \<noteq> k \<Longrightarrow> held t j = held s j"
    and offer_inv: "inv s \<Longrightarrow> offer k v s = Some t \<Longrightarrow> inv t"
begin

lemma offered_held:
  assumes "inv s" "offer k v s = Some t"
  shows "\<exists>w. held t k = Some w \<and> stamp v \<le> stamp w"
proof (cases "\<exists>w. held s k = Some w \<and> stamp v \<le> stamp w")
  case True
  then show ?thesis using offer_older [OF assms] by blast
next
  case False
  then have "held t k = Some v" using offer_newer [OF assms] by (auto simp: not_le)
  then show ?thesis by simp
qed

lemma held_monotone:
  assumes "inv s" "offer k v s = Some t" "held s j = Some w"
  shows "\<exists>w'. held t j = Some w' \<and> stamp w \<le> stamp w'"
proof (cases "j = k")
  case True
  show ?thesis
  proof (cases "stamp v \<le> stamp w")
    case True
    then show ?thesis using offer_older assms \<open>j = k\<close> by blast
  next
    case False
    then have "held t k = Some v" using offer_newer [OF assms(1,2)] assms(3) \<open>j = k\<close> by auto
    then show ?thesis using False \<open>j = k\<close> by auto
  qed
next
  case False
  then show ?thesis using offer_other assms by fastforce
qed

lemma held_from:
  assumes "inv s" "offer k v s = Some t" "held t j = Some w"
  shows "held s j = Some w \<or> j = k \<and> w = v"
  using assms offer_newer [OF assms(1,2)] offer_older [OF assms(1,2)] offer_other [OF assms(1,2)]
  by (metis linorder_not_le option.inject)

end

definition row_of :: "price_attestation \<Rightarrow> attestation_row" where
  "row_of a = \<lparr>row_price = uint (price (at_feed a)), row_decimals = uint (decimals (at_feed a)),
     row_received_at = uint (received_at (at_feed a)), row_valid_until = uint (valid_until (at_feed a)),
     row_signature = at_signature a\<rparr>"

definition storable :: "price_feed_data \<Rightarrow> bool" where
  "storable d \<longleftrightarrow> uint (price d) < 2 ^ 63 \<and> uint (received_at d) < 2 ^ 63 \<and> uint (valid_until d) < 2 ^ 63"

abbreviation row_key :: "price_attestation \<Rightarrow> bytes \<times> feed_id" where
  "row_key a \<equiv> (at_public_key a, feed_id (at_feed a))"

definition store_ok :: "attestation_store \<Rightarrow> bool" where
  "store_ok st \<longleftrightarrow> bt_wf st \<and>
     (\<forall>k row. bt_get st k = Some row \<longrightarrow>
        (\<exists>a. storable (at_feed a) \<and> row = row_of a \<and> k = row_key a))"

lemma store_ok_Nil: "store_ok []"
  by (simp add: store_ok_def)

lemma feed_data_row_of: "feed_data (feed_id (at_feed a)) (row_of a) = at_feed a"
  by (cases "at_feed a") (simp add: feed_data_def row_of_def)

lemma store_latest_OutOfRange: "(\<exists>r. store_latest a st = Inr r) \<longleftrightarrow> storable (at_feed a)"
  by (auto simp: store_latest_def to_i64_def storable_def Let_def split: option.splits)

lemma store_latest_storable:
  assumes "storable (at_feed a)"
  shows "store_latest a st =
    (case bt_get st (row_key a) of
       None \<Rightarrow> Inr (bt_insert (row_key a) (row_of a) st, True)
     | Some held \<Rightarrow>
         if row_received_at held < uint (received_at (at_feed a))
         then Inr (bt_insert (row_key a) (row_of a) st, True) else Inr (st, False))"
  using assms unfolding storable_def store_latest_def to_i64_def row_of_def by (simp add: Let_def)

lemma store_latest_cases:
  assumes "store_latest a st = Inr (st', b)"
  shows "storable (at_feed a) \<and>
    (st' = bt_insert (row_key a) (row_of a) st \<or> st' = st)"
proof -
  have s: "storable (at_feed a)" using assms store_latest_OutOfRange by blast
  show ?thesis using assms s unfolding store_latest_storable [OF s]
    by (auto split: option.splits if_splits)
qed

lemma store_latest_ok:
  assumes "store_ok st" "store_latest a st = Inr (st', b)"
  shows "store_ok st'"
  using store_latest_cases [OF assms(2)]
proof (elim conjE disjE)
  assume s: "storable (at_feed a)" and st': "st' = bt_insert (row_key a) (row_of a) st"
  have "\<exists>a. storable (at_feed a) \<and> row = row_of a \<and> k = row_key a"
    if "bt_get st' k = Some row" for k row
  proof (cases "k = row_key a")
    case True
    then show ?thesis using that s by (auto simp: st' bt_get_insert)
  next
    case False
    then have "bt_get st k = Some row" using that by (simp add: st' bt_get_insert)
    then show ?thesis using assms(1) unfolding store_ok_def by blast
  qed
  then show ?thesis using assms(1) by (simp add: store_ok_def st' bt_insert_wf)
qed (use assms(1) in simp)

text \<open>What the store holds under a key, with the stamp it compares.\<close>

definition held_attestation :: "attestation_store \<Rightarrow> bytes \<times> feed_id \<Rightarrow> price_attestation option" where
  "held_attestation st k =
     map_option (\<lambda>row. \<lparr>at_feed = feed_data (snd k) row, at_signature = row_signature row,
                       at_public_key = fst k\<rparr>) (bt_get st k)"

definition offer_attestation ::
  "bytes \<times> feed_id \<Rightarrow> price_attestation \<Rightarrow> attestation_store \<Rightarrow> attestation_store option" where
  "offer_attestation k a st =
     (if row_key a = k then (case store_latest a st of Inl _ \<Rightarrow> None | Inr (st', _) \<Rightarrow> Some st') else None)"

lemma held_row_of: "bt_get st (row_key a) = Some (row_of a) \<Longrightarrow> held_attestation st (row_key a) = Some a"
  by (cases a) (simp add: held_attestation_def feed_data_row_of [of a, simplified] row_of_def
    feed_data_def)

lemma offer_attestation_iff:
  "offer_attestation k a st = Some st' \<longleftrightarrow> row_key a = k \<and> (\<exists>b. store_latest a st = Inr (st', b))"
  by (auto simp: offer_attestation_def split: sum.splits)

lemma held_stamp:
  assumes "store_ok st" "held_attestation st k = Some w"
  shows "\<exists>row. bt_get st k = Some row \<and> row_received_at row = uint (received_at (at_feed w))"
proof -
  obtain row where row: "bt_get st k = Some row"
      "w = \<lparr>at_feed = feed_data (snd k) row, at_signature = row_signature row, at_public_key = fst k\<rparr>"
    using assms(2) by (auto simp: held_attestation_def)
  then obtain a where "row = row_of a" using assms(1) unfolding store_ok_def by blast
  then show ?thesis using row by (simp add: feed_data_def row_of_def)
qed

interpretation att: newest_store held_attestation offer_attestation
  "\<lambda>a. unat (received_at (at_feed a))" store_ok
proof unfold_locales
  fix s k v t
  assume s: "store_ok s" and o: "offer_attestation k v s = Some t"
  then obtain b where b: "row_key v = k" "store_latest v s = Inr (t, b)"
    by (auto simp: offer_attestation_iff)
  note sv = store_latest_cases [OF b(2), THEN conjunct1]
  show "store_ok t" using store_latest_ok s b(2) by blast
  show "held_attestation t k = Some v"
    if newer: "\<And>w. held_attestation s k = Some w \<Longrightarrow>
      unat (received_at (at_feed w)) < unat (received_at (at_feed v))"
  proof -
    have "bt_get t k = Some (row_of v)"
    proof (cases "bt_get s k")
      case None
      then show ?thesis using b by (auto simp: store_latest_storable [OF sv] bt_get_insert)
    next
      case (Some row)
      then obtain w where w: "held_attestation s k = Some w" by (simp add: held_attestation_def)
      have "row_received_at row < uint (received_at (at_feed v))"
        using held_stamp [OF s w] newer [OF w] Some
        by (simp add: word_less_nat_alt [symmetric] word_less_def)
      then show ?thesis using b Some by (auto simp: store_latest_storable [OF sv] bt_get_insert)
    qed
    then show ?thesis using held_row_of b(1) by metis
  qed
  show "held_attestation t k = Some w"
    if w: "held_attestation s k = Some w"
      and older: "unat (received_at (at_feed v)) \<le> unat (received_at (at_feed w))" for w
  proof -
    obtain row where row: "bt_get s k = Some row"
        "row_received_at row = uint (received_at (at_feed w))"
      using held_stamp [OF s w] by blast
    then have "\<not> row_received_at row < uint (received_at (at_feed v))"
      using older by (simp add: word_le_nat_alt [symmetric] word_le_def not_less)
    then have "t = s" using b row by (auto simp: store_latest_storable [OF sv])
    then show ?thesis using w by simp
  qed
  show "held_attestation t j = held_attestation s j" if "j \<noteq> k" for j
    using store_latest_cases [OF b(2)] b(1) that by (auto simp: held_attestation_def bt_get_insert)
qed

lemma last_attested_held: "last_attested st pk f = map_option at_feed (held_attestation st (pk, f))"
  by (simp add: last_attested_def held_attestation_def option.map_comp comp_def)

lemma store_all_induct:
  assumes "store_all as st = (st', r)" "P st"
    and "\<And>a s t b. a \<in> set as \<Longrightarrow> P s \<Longrightarrow> store_latest a s = Inr (t, b) \<Longrightarrow> P t"
  shows "P st'"
  using assms
proof (induction as arbitrary: st)
  case (Cons a as)
  show ?case
  proof (cases "store_latest a st")
    case (Inl e)
    then show ?thesis using Cons.prems by simp
  next
    case (Inr q)
    then obtain t b where q: "store_latest a st = Inr (t, b)" by (cases q) simp
    show ?thesis
      by (rule Cons.IH [of t]) (use Cons.prems q in auto)
  qed
qed simp

lemma store_all_ok: "store_all as st = (st', r) \<Longrightarrow> store_ok st \<Longrightarrow> store_ok st'"
  by (erule store_all_induct) (blast intro: store_latest_ok)+

lemma store_all_monotone:
  assumes "store_all as st = (st', r)" "store_ok st" "held_attestation st k = Some w"
  shows "\<exists>w'. held_attestation st' k = Some w' \<and>
    unat (received_at (at_feed w)) \<le> unat (received_at (at_feed w'))"
proof -
  have "store_ok st' \<and> (\<exists>w'. held_attestation st' k = Some w' \<and>
      unat (received_at (at_feed w)) \<le> unat (received_at (at_feed w')))"
  proof (rule store_all_induct [OF assms(1)])
    fix a s t b
    assume s: "store_ok s \<and> (\<exists>w'. held_attestation s k = Some w' \<and>
        unat (received_at (at_feed w)) \<le> unat (received_at (at_feed w')))"
      and a: "store_latest a s = Inr (t, b)"
    then have "offer_attestation (row_key a) a s = Some t" by (simp add: offer_attestation_iff)
    then show "store_ok t \<and> (\<exists>w'. held_attestation t k = Some w' \<and>
        unat (received_at (at_feed w)) \<le> unat (received_at (at_feed w')))"
      using s a store_latest_ok att.held_monotone by (meson order_trans)
  qed (use assms in auto)
  then show ?thesis by blast
qed

lemma store_all_from:
  assumes "store_all as st = (st', r)" "store_ok st" "held_attestation st' k = Some w"
  shows "held_attestation st k = Some w \<or> w \<in> set as \<and> k = row_key w"
proof -
  have "store_ok st' \<and> (\<forall>w. held_attestation st' k = Some w \<longrightarrow>
      held_attestation st k = Some w \<or> w \<in> set as \<and> k = row_key w)"
  proof (rule store_all_induct [OF assms(1)])
    fix a s t b
    assume a: "a \<in> set as" "store_latest a s = Inr (t, b)"
      and s: "store_ok s \<and> (\<forall>w. held_attestation s k = Some w \<longrightarrow>
        held_attestation st k = Some w \<or> w \<in> set as \<and> k = row_key w)"
    then have "offer_attestation (row_key a) a s = Some t" by (simp add: offer_attestation_iff)
    then show "store_ok t \<and> (\<forall>w. held_attestation t k = Some w \<longrightarrow>
        held_attestation st k = Some w \<or> w \<in> set as \<and> k = row_key w)"
      using s a store_latest_ok att.held_from by metis
  qed (use assms in auto)
  then show ?thesis using assms(3) by blast
qed

lemma store_all_held:
  assumes "store_all as st = (st', Inr ())" "store_ok st" "a \<in> set as"
  shows "\<exists>w. held_attestation st' (row_key a) = Some w \<and>
    unat (received_at (at_feed a)) \<le> unat (received_at (at_feed w))"
  using assms
proof (induction as arbitrary: st)
  case (Cons x as)
  then obtain t b where t: "store_latest x st = Inr (t, b)" "store_all as t = (st', Inr ())"
    by (auto split: sum.splits)
  then have ok: "store_ok t" and offer: "offer_attestation (row_key x) x st = Some t"
    using Cons.prems store_latest_ok by (auto simp: offer_attestation_iff)
  show ?case
  proof (cases "a \<in> set as")
    case True
    then show ?thesis using Cons.IH t ok by blast
  next
    case False
    then have "x = a" using Cons.prems(3) by simp
    then show ?thesis
      using att.offered_held [OF Cons.prems(2) offer] store_all_monotone [OF t(2) ok]
      by (meson order_trans)
  qed
qed simp

lemma store_all_total:
  "(\<forall>a\<in>set as. storable (at_feed a)) \<Longrightarrow> \<exists>st'. store_all as st = (st', Inr ())"
proof (induction as arbitrary: st)
  case (Cons a as)
  then obtain t b where "store_latest a st = Inr (t, b)"
    using store_latest_OutOfRange [of a st] by auto
  then show ?case using Cons by simp
qed simp

end
