(* ===== verification/Prices_Node.thy ===== *)
theory Prices_Node
  imports Attestation_Store
begin

text \<open>
  The price service of a node (\<open>high_storm/prices.rs\<close>) and the tagged hash it signs
  (\<open>crypto.rs\<close>): polling, attesting and checking what peers attest, the rates served to clients.
  SHA-256 and the Schnorr signatures of the secp256k1 library are the fields of \<open>crypto_env\<close>;
  the members, the transport and the readings of the clock are arguments.
\<close>

record crypto_env =
  sha256 :: "bytes \<Rightarrow> bytes"
  schnorr_sign :: "bytes \<Rightarrow> bytes"
  own_public_key :: bytes
  valid_public_key :: "bytes \<Rightarrow> bool"
  schnorr_verify :: "bytes \<Rightarrow> bytes \<Rightarrow> bytes \<Rightarrow> bool"

definition tagged_hash :: "(bytes \<Rightarrow> bytes) \<Rightarrow> string \<Rightarrow> bytes \<Rightarrow> bytes" where
  "tagged_hash sha tag message =
     (let tag_hash = sha (map of_char tag) in sha (tag_hash @ tag_hash @ message))"

definition PRICE_TAG :: string where "PRICE_TAG = ''OracleNetworkV1/Price''"

definition price_hash :: "crypto_env \<Rightarrow> price_feed_data \<Rightarrow> bytes" where
  "price_hash env feed = tagged_hash (sha256 env) PRICE_TAG (to_bytes feed)"

datatype price_error =
    Database store_error
  | Transport
  | InvalidSignature feed_id
  | InvalidPublicKey
  | UnregisteredFeed feed_id
  | RepeatedFeed feed_id
  | FeedImplausibleTimestamp feed_id
  | FeedStretchedValidity feed_id
  | FeedWrongDecimals feed_id
  | InvalidPeerKey
  | NotAMember bytes

record exchange_rate_info =
  er_main :: price_attestation
  er_auxiliary :: "price_attestation list"

datatype feed_rate = Current exchange_rate_info | ExpiredRate | Unattested

datatype poll_outcome = Skipped | Observed | Unchanged | Failed

record source_health =
  sh_feed :: feed_id
  sh_source :: usize
  sh_state :: source_state
  sh_observed_at :: "u64 option"

record price_health =
  ph_sources :: "source_health list"
  ph_values :: "(feed_id \<times> price_feed_data option) list"

record prices =
  pr_store :: attestation_store
  pr_registry :: feed_registry
  pr_feeds :: feed_states

text \<open>\<open>expect\<close> on a registry without a route for some pair would panic: \<open>None\<close>.\<close>

definition prices_new :: "attestation_store \<Rightarrow> prices option" where
  "prices_new store =
     (case feed_states_new default_registry of Inl _ \<Rightarrow> None
      | Inr feeds \<Rightarrow> Some \<lparr>pr_store = store, pr_registry = default_registry, pr_feeds = feeds\<rparr>)"

subsection \<open>Polling\<close>

definition record_observation :: "feed_id \<Rightarrow> usize \<Rightarrow> source_observation \<Rightarrow> prices \<Rightarrow> prices" where
  "record_observation feed source observation p =
     p\<lparr>pr_feeds := fss_modify feed (record_poll_success source observation) (pr_feeds p)\<rparr>"

definition record_failure :: "u64 \<Rightarrow> feed_id \<Rightarrow> usize \<Rightarrow> prices \<Rightarrow> prices" where
  "record_failure now feed source p =
     p\<lparr>pr_feeds := fss_modify feed (record_poll_failure now source) (pr_feeds p)\<rparr>"

definition health :: "u64 \<Rightarrow> (feed_id \<times> usize) list \<Rightarrow> feed_id list \<Rightarrow> prices \<Rightarrow> price_health" where
  "health now sources feeds p =
     \<lparr>ph_sources = List.map_filter (\<lambda>(feed, source).
          case fss_get (pr_feeds p) feed of None \<Rightarrow> None
          | Some state \<Rightarrow>
              Some \<lparr>sh_feed = feed, sh_source = source, sh_state = source_state_of state source,
                    sh_observed_at = last_observed_at state source\<rparr>) sources,
      ph_values = map (\<lambda>feed. (feed, fss_value now (pr_feeds p) feed)) feeds\<rparr>"

text \<open>
  A poll reads whether the source may be polled, lets go of the lock while the source answers, and
  takes it again to record the answer, on whatever state the feeds have by then.
\<close>

definition poll_allowed :: "u64 \<Rightarrow> feed_id \<Rightarrow> usize \<Rightarrow> prices \<Rightarrow> bool" where
  "poll_allowed now feed index p =
     (case fss_get (pr_feeds p) feed of None \<Rightarrow> False | Some state \<Rightarrow> is_pollable now state index)"

definition poll_answered ::
  "u64 \<Rightarrow> feed_id \<Rightarrow> usize \<Rightarrow> connection_error + source_observation \<Rightarrow> prices \<Rightarrow> prices \<times> poll_outcome" where
  "poll_answered now feed index answer p =
     (case fss_get (pr_feeds p) feed of
        None \<Rightarrow> (p, Skipped)
      | Some state \<Rightarrow>
          (case answer of
             Inr observation \<Rightarrow>
               (case validate_observation observation (last_observed_at state index) of
                  Inr _ \<Rightarrow>
                    (p\<lparr>pr_feeds := fss_modify feed (record_poll_success index observation) (pr_feeds p)\<rparr>, Observed)
                | Inl reason \<Rightarrow>
                    if reason = StaleObservation then (p, Unchanged)
                    else (p\<lparr>pr_feeds := fss_modify feed (record_poll_failure now index) (pr_feeds p)\<rparr>, Failed))
           | Inl _ \<Rightarrow>
               (p\<lparr>pr_feeds := fss_modify feed (record_poll_failure now index) (pr_feeds p)\<rparr>, Failed)))"

subsection \<open>Attesting\<close>

definition sign_feed :: "crypto_env \<Rightarrow> price_feed_data \<Rightarrow> price_attestation" where
  "sign_feed env feed =
     \<lparr>at_feed = feed, at_signature = schnorr_sign env (price_hash env feed),
      at_public_key = own_public_key env\<rparr>"

text \<open>
  The value as it is attested next: unchanged if it is newer than the last one attested, skipped if
  it differs from it by nothing but the time, and stamped a second after it otherwise.
\<close>

definition restamp :: "bytes \<Rightarrow> attestation_store \<Rightarrow> price_feed_data \<Rightarrow> price_feed_data option" where
  "restamp attester store feed =
     (case last_attested store attester (feed_id feed) of
        None \<Rightarrow> Some feed
      | Some held \<Rightarrow>
          if received_at feed \<le> received_at held
          then (if feed\<lparr>received_at := received_at held\<rparr> = held then None
                else Some (feed\<lparr>received_at := received_at held + 1\<rparr>))
          else Some feed)"

definition current_values :: "u64 \<Rightarrow> prices \<Rightarrow> price_feed_data list" where
  "current_values now p =
     List.map_filter (\<lambda>definition. fss_value now (pr_feeds p) (fd_id definition)) (pr_registry p)"

definition attestations_due :: "crypto_env \<Rightarrow> u64 \<Rightarrow> prices \<Rightarrow> price_attestation list" where
  "attestations_due env now p =
     map (sign_feed env) (List.map_filter (restamp (own_public_key env) (pr_store p)) (current_values now p))"

definition attest ::
  "crypto_env \<Rightarrow> (price_attestation list \<Rightarrow> price_error + unit) \<Rightarrow> u64 \<Rightarrow> prices
     \<Rightarrow> prices \<times> (price_error + nat)" where
  "attest env send now p =
     (let attestations = attestations_due env now p
      in if attestations = [] then (p, Inr 0)
         else (case send attestations of
                 Inl e \<Rightarrow> (p, Inl e)
               | Inr _ \<Rightarrow>
                   (case store_all attestations (pr_store p) of
                      (store, Inl e) \<Rightarrow> (p\<lparr>pr_store := store\<rparr>, Inl (Database e))
                    | (store, Inr _) \<Rightarrow> (p\<lparr>pr_store := store\<rparr>, Inr (length attestations)))))"

subsection \<open>What peers attest\<close>

definition verify_attestation :: "crypto_env \<Rightarrow> price_attestation \<Rightarrow> price_error + unit" where
  "verify_attestation env a =
     bind_res (require (valid_public_key env (at_public_key a)) InvalidPublicKey) (\<lambda>_.
     bind_res (require (length (at_signature a) = 64) (InvalidSignature (feed_id (at_feed a)))) (\<lambda>_.
     require (schnorr_verify env (at_signature a) (price_hash env (at_feed a)) (at_public_key a))
       (InvalidSignature (feed_id (at_feed a)))))"

fun check_from ::
  "crypto_env \<Rightarrow> bytes set \<Rightarrow> feed_registry \<Rightarrow> u64 \<Rightarrow> feed_id set \<Rightarrow> price_attestation list
     \<Rightarrow> price_error + unit" where
  "check_from env members registry now seen [] = Inr ()"
| "check_from env members registry now seen (a # as) =
     (let feed = at_feed a in
      bind_res (require (at_public_key a \<in> members) (NotAMember (at_public_key a))) (\<lambda>_.
      bind_res (ok_or (UnregisteredFeed (feed_id feed)) (registry_get registry (feed_id feed))) (\<lambda>definition.
      bind_res (require (\<not> stamped_ahead feed now) (FeedImplausibleTimestamp (feed_id feed))) (\<lambda>_.
      bind_res (require (\<not> validity_stretched feed) (FeedStretchedValidity (feed_id feed))) (\<lambda>_.
      bind_res (require (decimals feed = fd_decimals definition) (FeedWrongDecimals (feed_id feed))) (\<lambda>_.
      bind_res (require (feed_id feed \<notin> seen) (RepeatedFeed (feed_id feed))) (\<lambda>_.
      bind_res (verify_attestation env a) (\<lambda>_.
      check_from env members registry now (insert (feed_id feed) seen) as))))))))"

definition check_attestations ::
  "crypto_env \<Rightarrow> price_attestation list \<Rightarrow> bytes set \<Rightarrow> feed_registry \<Rightarrow> u64 \<Rightarrow> price_error + unit" where
  "check_attestations env attestations members registry now = check_from env members registry now {} attestations"

definition handle_attestation ::
  "crypto_env \<Rightarrow> price_error + bytes set \<Rightarrow> u64 \<Rightarrow> price_attestation list \<Rightarrow> prices
     \<Rightarrow> prices \<times> (price_error + unit)" where
  "handle_attestation env members now attestations p =
     (case bind_res members (\<lambda>members. check_attestations env attestations members (pr_registry p) now) of
        Inl e \<Rightarrow> (p, Inl e)
      | Inr _ \<Rightarrow>
          (case store_all attestations (pr_store p) of
             (store, Inl e) \<Rightarrow> (p\<lparr>pr_store := store\<rparr>, Inl (Database e))
           | (store, Inr _) \<Rightarrow> (p\<lparr>pr_store := store\<rparr>, Inr ())))"

subsection \<open>Reading rates\<close>

definition validate_instruction :: "u64 \<Rightarrow> price_feed_data \<Rightarrow> prices \<Rightarrow> validation_error + unit" where
  "validate_instruction now instructed p =
     validate_rate instructed (pr_registry p) (fss_value now (pr_feeds p) (feed_id instructed)) now"

fun rate_step ::
  "bytes \<Rightarrow> u64 \<Rightarrow> bytes set \<Rightarrow> price_attestation
     \<Rightarrow> price_attestation option \<times> price_attestation list \<times> bool
     \<Rightarrow> price_attestation option \<times> price_attestation list \<times> bool" where
  "rate_step attester now members a (m, aux, attested_before) =
     (let own = (at_public_key a = attester) in
      if valid_until (at_feed a) < now \<or> stamped_ahead (at_feed a) now \<or> validity_stretched (at_feed a)
      then (m, aux, attested_before \<or> own)
      else if at_public_key a \<notin> members then (m, aux, attested_before)
      else if own then (Some a, aux, attested_before)
      else (m, aux @ [a], attested_before))"

definition rate_for ::
  "crypto_env \<Rightarrow> u64 \<Rightarrow> feed_id \<Rightarrow> bytes set \<Rightarrow> prices \<Rightarrow> price_error + feed_rate" where
  "rate_for env now feed members p =
     (case attestations_for (pr_store p) feed of
        Inl e \<Rightarrow> Inl (Database e)
      | Inr attestations \<Rightarrow>
          (case fold (rate_step (own_public_key env) now members) attestations (None, [], False) of
             (Some m, aux, _) \<Rightarrow> Inr (Current \<lparr>er_main = m, er_auxiliary = aux\<rparr>)
           | (None, _, True) \<Rightarrow> Inr ExpiredRate
           | (None, _, False) \<Rightarrow> Inr Unattested))"

subsection \<open>What a message must satisfy\<close>

definition attestation_ok ::
  "crypto_env \<Rightarrow> bytes set \<Rightarrow> feed_registry \<Rightarrow> u64 \<Rightarrow> price_attestation \<Rightarrow> bool" where
  "attestation_ok env members registry now a \<longleftrightarrow>
     at_public_key a \<in> members \<and>
     map_option fd_decimals (registry_get registry (feed_id (at_feed a))) = Some (decimals (at_feed a)) \<and>
     unat (received_at (at_feed a)) \<le> unat now + 5 \<and>
     unat (valid_until (at_feed a)) \<le> unat (received_at (at_feed a)) + 300 \<and>
     valid_public_key env (at_public_key a) \<and> length (at_signature a) = 64 \<and>
     schnorr_verify env (at_signature a) (price_hash env (at_feed a)) (at_public_key a)"

lemma check_from_iff:
  "check_from env members registry now seen as = Inr u \<longleftrightarrow>
   (\<forall>a\<in>set as. attestation_ok env members registry now a \<and> feed_id (at_feed a) \<notin> seen) \<and>
   distinct (map (\<lambda>a. feed_id (at_feed a)) as)"
proof (induction as arbitrary: seen)
  case (Cons a as)
  have "check_from env members registry now seen (a # as) = Inr u \<longleftrightarrow>
    attestation_ok env members registry now a \<and> feed_id (at_feed a) \<notin> seen \<and>
    check_from env members registry now (insert (feed_id (at_feed a)) seen) as = Inr u"
    by (auto simp: attestation_ok_def Let_def bind_res_eq_Inr verify_attestation_def
        not_stretched_iff not_stamped_ahead_iff)
  then show ?case unfolding Cons.IH by (auto simp del: check_from.simps simp: image_iff)
qed simp

lemma unat_add_one_small:
  assumes "uint (x :: u64) < 2 ^ 63"
  shows "unat (x + 1) = unat x + 1"
proof -
  have "unat x < 2 ^ 63" 
    unfolding unat_eq_nat_uint nat_less_iff [OF uint_ge_0] using assms by simp
  then show ?thesis by (simp add: unat_word_ariths)
qed

lemma restamp_SomeD:
  assumes "restamp key st feed = Some f" and "store_ok st"
  shows "f = feed \<and> (\<forall>held. last_attested st key (feed_id feed) = Some held \<longrightarrow> received_at held < received_at feed) \<or>
    (\<exists>held. last_attested st key (feed_id feed) = Some held \<and>
       f = feed\<lparr>received_at := received_at held + 1\<rparr> \<and> received_at feed \<le> received_at held \<and>
       unat (received_at f) = unat (received_at held) + 1)"
proof (cases "last_attested st key (feed_id feed)")
  case None
  then show ?thesis using assms(1) by (simp add: restamp_def)
next
  case (Some held)
  then obtain w where w: "held_attestation st (key, feed_id feed) = Some w" "held = at_feed w"
    by (auto simp: last_attested_held)
  then obtain row where "bt_get st (key, feed_id feed) = Some row"
      "row_received_at row = uint (received_at held)"
    using held_stamp [OF assms(2)] by blast
  then have small: "uint (received_at held) < 2 ^ 63"
    using assms(2) unfolding store_ok_def storable_def by (fastforce simp: row_of_def)
  have "unat (received_at held + 1) = unat (received_at held) + 1"
    using unat_add_one_small [OF small] .
  moreover have "received_at held < received_at feed \<and> f = feed \<or>
      received_at feed \<le> received_at held \<and> f = feed\<lparr>received_at := received_at held + 1\<rparr>"
    using assms(1) Some by (simp add: restamp_def not_le split: if_splits)
  ultimately show ?thesis using Some by auto
qed

lemma restamp_fields:
  assumes "restamp key st feed = Some f" and "store_ok st"
  shows "feed_id f = feed_id feed \<and> decimals f = decimals feed \<and> price f = price feed \<and>
    valid_until f = valid_until feed \<and> received_at feed \<le> received_at f \<and>
    (\<forall>held. last_attested st key (feed_id feed) = Some held \<longrightarrow> received_at held < received_at f)"
  using restamp_SomeD [OF assms] by (auto simp: word_le_nat_alt word_less_nat_alt)

subsection \<open>What a node attests\<close>

lemma current_values_feeds:
  assumes "fss_ok (pr_registry p) (pr_feeds p)" "distinct (map fd_id (pr_registry p))"
  shows "distinct (map feed_id (current_values now p))"
proof -
  have "map feed_id (List.map_filter (\<lambda>d. fss_value now (pr_feeds p) (fd_id d)) ds) =
      map fd_id (filter (\<lambda>d. fss_value now (pr_feeds p) (fd_id d) \<noteq> None) ds)" for ds
    by (induction ds) (auto simp: List.map_filter_def fss_value_sound [OF assms(1)] split: option.splits)
  then show ?thesis
    using distinct_map_filter [OF assms(2)] unfolding current_values_def by metis
qed

lemma current_values_sound:
  assumes "fss_ok (pr_registry p) (pr_feeds p)" "distinct (map fd_id (pr_registry p))"
    and "v \<in> set (current_values now p)"
  shows "map_option fd_decimals (registry_get (pr_registry p) (feed_id v)) = Some (decimals v) \<and>
    unat (valid_until v) \<le> unat (received_at v) + 300"
proof -
  obtain f where f: "fss_value now (pr_feeds p) f = Some v"
    using assms(3) by (auto simp: current_values_def List.map_filter_def split: option.splits)
  then show ?thesis
    using fss_value_sound [OF assms(1) f] fss_value_decimals [OF assms(1,2) f]
    by (simp add: not_stretched_iff)
qed

definition prices_ok :: "prices \<Rightarrow> bool" where
  "prices_ok p \<longleftrightarrow> store_ok (pr_store p) \<and> fss_ok (pr_registry p) (pr_feeds p) \<and>
     distinct (map fd_id (pr_registry p))"

lemma in_map_filter: "y \<in> set (List.map_filter f xs) \<longleftrightarrow> (\<exists>x\<in>set xs. f x = Some y)"
  by (force simp: List.map_filter_def)

lemma attestations_due_iff:
  "a \<in> set (attestations_due env now p) \<longleftrightarrow>
   (\<exists>v\<in>set (current_values now p). \<exists>f. restamp (own_public_key env) (pr_store p) v = Some f \<and> a = sign_feed env f)"
  unfolding attestations_due_def by (simp add: image_iff Bex_def in_map_filter) blast

lemma at_feed_sign [simp]: "at_feed (sign_feed env f) = f" "at_public_key (sign_feed env f) = own_public_key env"
  by (simp_all add: sign_feed_def)

lemma restamp_map_feeds:
  "store_ok st \<Longrightarrow> map feed_id (List.map_filter (restamp key st) vs) =
     map feed_id (filter (\<lambda>v. restamp key st v \<noteq> None) vs)"
  by (induction vs) (auto simp: List.map_filter_def dest: restamp_fields split: option.splits)

lemma attestations_due_distinct:
  assumes "prices_ok p"
  shows "distinct (map (\<lambda>a. feed_id (at_feed a)) (attestations_due env now p))"
proof -
  have "map (\<lambda>a. feed_id (at_feed a)) (attestations_due env now p) =
      map feed_id (filter (\<lambda>v. restamp (own_public_key env) (pr_store p) v \<noteq> None) (current_values now p))"
    using restamp_map_feeds [of "pr_store p" "own_public_key env" "current_values now p"] assms
    by (simp add: attestations_due_def prices_ok_def comp_def)
  then show ?thesis
    using assms distinct_map_filter current_values_feeds unfolding prices_ok_def by metis
qed

definition signs_verify :: "crypto_env \<Rightarrow> bool" where
  "signs_verify env \<longleftrightarrow> valid_public_key env (own_public_key env) \<and>
     (\<forall>hash. length (schnorr_sign env hash) = 64 \<and>
        schnorr_verify env (schnorr_sign env hash) hash (own_public_key env))"

lemma attestation_due_ok:
  assumes "prices_ok p" "signs_verify env" "own_public_key env \<in> members"
    and "a \<in> set (attestations_due env now p)"
    and "unat (received_at (at_feed a)) \<le> unat now' + 5"
  shows "attestation_ok env members (pr_registry p) now' a"
proof -
  have ok: "store_ok (pr_store p)" "fss_ok (pr_registry p) (pr_feeds p)"
      "distinct (map fd_id (pr_registry p))"
    using assms(1) by (simp_all add: prices_ok_def)
  obtain v f where v: "v \<in> set (current_values now p)"
      "restamp (own_public_key env) (pr_store p) v = Some f" "a = sign_feed env f"
    using assms(4) by (auto simp: attestations_due_iff)
  note R = restamp_fields [OF v(2) ok(1)] and S = current_values_sound [OF ok(2,3) v(1)]
  have "unat (valid_until f) \<le> unat (received_at f) + 300"
    using R S by (auto simp: word_le_nat_alt)
  then show ?thesis
    using R S assms(2,3,5) unfolding attestation_ok_def v(3) signs_verify_def
    by (simp add: sign_feed_def)
qed

lemma distinct_map_inj: "distinct (map f xs) \<Longrightarrow> x \<in> set xs \<Longrightarrow> y \<in> set xs \<Longrightarrow> f x = f y \<Longrightarrow> x = y"
  by (metis distinct_map inj_onD)

lemma restamp_again:
  assumes "prices_ok p" "v \<in> set (current_values now p)"
    and stored: "store_all (attestations_due env now p) (pr_store p) = (st', Inr ())"
  shows "restamp (own_public_key env) st' v = None"
proof -
  let ?key = "own_public_key env" and ?due = "attestations_due env now p"
  have ok: "store_ok (pr_store p)" using assms(1) by (simp add: prices_ok_def)
  note dist = distinct_map_inj [OF attestations_due_distinct [OF assms(1)]]
  have distv: "u = v" if "u \<in> set (current_values now p)" "feed_id u = feed_id v" for u
    using distinct_map_inj [OF current_values_feeds] assms(1,2) that unfolding prices_ok_def by metis
  show ?thesis
  proof (cases "restamp ?key (pr_store p) v")
    case None
    then obtain held where held: "last_attested (pr_store p) ?key (feed_id v) = Some held"
        "received_at v \<le> received_at held" "v\<lparr>received_at := received_at held\<rparr> = held"
      by (auto simp: restamp_def split: option.splits if_splits)
    then obtain w where w: "held_attestation (pr_store p) (?key, feed_id v) = Some w" "held = at_feed w"
      by (auto simp: last_attested_held)
    obtain w' where w': "held_attestation st' (?key, feed_id v) = Some w'"
      using store_all_monotone [OF stored ok w(1)] by blast
    have "\<not> (w' \<in> set ?due \<and> (?key, feed_id v) = row_key w')"
    proof
      assume due: "w' \<in> set ?due \<and> (?key, feed_id v) = row_key w'"
      then obtain u f where u: "u \<in> set (current_values now p)" "restamp ?key (pr_store p) u = Some f"
          "w' = sign_feed env f"
        using attestations_due_iff [of w' env now p] by blast
      then have "feed_id u = feed_id v" using due restamp_fields [OF u(2) ok] by simp
      then have "u = v" using distv u(1) by blast
      then show False using u(2) None by simp
    qed
    then have "held_attestation st' (?key, feed_id v) = Some w"
      using store_all_from [OF stored ok w'] w w' by auto
    then show ?thesis using held w by (simp add: restamp_def last_attested_held)
  next
    case (Some f)
    note R = restamp_fields [OF Some ok]
    have due: "sign_feed env f \<in> set ?due" using Some assms(2) by (auto simp: attestations_due_iff)
    obtain w where w: "held_attestation st' (?key, feed_id v) = Some w"
        "unat (received_at f) \<le> unat (received_at (at_feed w))"
      using store_all_held [OF stored ok due] R by auto
    have "held_attestation (pr_store p) (?key, feed_id v) \<noteq> Some w"
      using R w(2) by (auto simp: last_attested_held word_less_nat_alt)
    then have "w \<in> set ?due" "feed_id (at_feed w) = feed_id v"
      using store_all_from [OF stored ok w(1)] by auto
    then have "w = sign_feed env f" using dist [OF _ due] R by simp
    then have "last_attested st' ?key (feed_id v) = Some f"
      using w(1) by (simp add: last_attested_held)
    moreover have "v\<lparr>received_at := received_at f\<rparr> = f" using R by simp
    ultimately show ?thesis using R by (simp add: restamp_def)
  qed
qed

subsection \<open>Rates\<close>

definition servable :: "u64 \<Rightarrow> price_feed_data \<Rightarrow> bool" where
  "servable now d \<longleftrightarrow> unat now \<le> unat (valid_until d) \<and> unat (received_at d) \<le> unat now + 5 \<and>
     unat (valid_until d) \<le> unat (received_at d) + 300"

lemma servable_iff:
  "(valid_until d < now \<or> stamped_ahead d now \<or> validity_stretched d) \<longleftrightarrow> \<not> servable now d"
  using not_stamped_ahead_iff [of d now] not_stretched_iff [of d]
  by (auto simp: servable_def word_less_nat_alt)

lemma fold_rate_step:
  "fold (rate_step key now members) as (m, aux, before) =
   (case filter (\<lambda>a. servable now (at_feed a) \<and> at_public_key a \<in> members \<and> at_public_key a = key) as of
      [] \<Rightarrow> m | own \<Rightarrow> Some (last own),
    aux @ filter (\<lambda>a. servable now (at_feed a) \<and> at_public_key a \<in> members \<and> at_public_key a \<noteq> key) as,
    before \<or> (\<exists>a\<in>set as. \<not> servable now (at_feed a) \<and> at_public_key a = key))"
proof (induction as arbitrary: m aux before)
  case (Cons a as)
  then show ?case
    by (auto simp: Let_def servable_iff split: list.split)
qed simp

lemma attestations_for_iff:
  assumes "attestations_for st feed = Inr as" "bt_wf st"
  shows "a \<in> set as \<longleftrightarrow> held_attestation st (at_public_key a, feed) = Some a"
proof -
  let ?f = "\<lambda>((public_key, _), row). \<lparr>at_feed = feed_data feed row, at_signature = row_signature row,
      at_public_key = public_key\<rparr>"
  have "as = map ?f (filter (\<lambda>((_, row_feed), _). row_feed = feed) st)"
    by (rule map_res_Inr_map [OF assms(1) [unfolded attestations_for_def]])
      (auto split: if_splits)
  then have "a \<in> set as \<longleftrightarrow> (\<exists>pk row. ((pk, feed), row) \<in> set st \<and> a = ?f ((pk, feed), row))"
    by (auto simp: image_iff)
  then show ?thesis
    using bt_get_eq_Some_iff [OF assms(2)]
    by (auto simp: held_attestation_def) (metis price_attestation.select_convs(3))
qed

text \<open>A node with two observations and a signature scheme of its own, for the instances below.\<close>

definition toy_env :: crypto_env where
  "toy_env = \<lparr>sha256 = (\<lambda>m. take 32 (m @ replicate 32 0)),
     schnorr_sign = (\<lambda>hash. take 64 (hash @ replicate 64 0)), own_public_key = replicate 32 1,
     valid_public_key = (\<lambda>key. length key = 32),
     schnorr_verify = (\<lambda>signature hash key. signature = take 64 (hash @ replicate 64 0))\<rparr>"

definition toy_prices :: prices where
  "toy_prices = \<lparr>pr_store = [], pr_registry = default_registry, pr_feeds = priced_states\<rparr>"

lemma toy_signs_verify: "signs_verify toy_env"
  by (auto simp: signs_verify_def toy_env_def min_def)

lemma toy_key: "own_public_key toy_env = replicate 32 1"
  by (simp add: toy_env_def)

lemma toy_values:
  "current_values 1000 toy_prices =
   [\<lparr>feed_id = 0, price = 6000000000000, decimals = 8, received_at = 1000, valid_until = 1300\<rparr>,
    \<lparr>feed_id = 1, price = 100000000, decimals = 8, received_at = 990, valid_until = 1290\<rparr>,
    \<lparr>feed_id = 4, price = 6000000000000, decimals = 8, received_at = 1000, valid_until = 1290\<rparr>]"
  by (simp add: current_values_def toy_prices_def priced_values)

lemma toy_due:
  "attestations_due toy_env 1000 toy_prices = map (sign_feed toy_env)
    [\<lparr>feed_id = 0, price = 6000000000000, decimals = 8, received_at = 1000, valid_until = 1300\<rparr>,
     \<lparr>feed_id = 1, price = 100000000, decimals = 8, received_at = 990, valid_until = 1290\<rparr>,
     \<lparr>feed_id = 4, price = 6000000000000, decimals = 8, received_at = 1000, valid_until = 1290\<rparr>]"
  unfolding attestations_due_def toy_values
  by (simp add: List.map_filter_def restamp_def toy_prices_def last_attested_def)

lemma toy_stored:
  "\<exists>st. store_all (attestations_due toy_env 1000 toy_prices) [] = (st, Inr ())"
  by (rule store_all_total) (simp add: toy_due storable_def)

lemma toy_ok: "fss_reachable (pr_registry toy_prices) (pr_feeds toy_prices)"
    "distinct (map fd_id (pr_registry toy_prices))" "store_ok (pr_store toy_prices)"
  by (simp_all add: toy_prices_def priced_reachable default_registry_distinct store_ok_Nil)

lemma toy_attestations_ok:
  "\<forall>a\<in>set (attestations_due toy_env 1000 toy_prices).
     attestation_ok toy_env {replicate 32 1} default_registry 1000 a"
proof
  fix a assume a: "a \<in> set (attestations_due toy_env 1000 toy_prices)"
  have "attestation_ok toy_env {replicate 32 1} (pr_registry toy_prices) 1000 a"
    by (rule attestation_due_ok [OF _ toy_signs_verify _ a])
      (use toy_ok a fss_reachable_ok in \<open>auto simp: prices_ok_def toy_key toy_due\<close>)
  then show "attestation_ok toy_env {replicate 32 1} default_registry 1000 a"
    by (simp add: toy_prices_def)
qed

subsection \<open>Properties\<close>

text \<open>
  C6: a message of attestations is accepted exactly when every one of them comes from a member, is
  for a registered feed at its decimals, is received no more than 5 seconds ahead of this node's
  clock, is valid for at most 300 seconds after its receipt and carries a valid 64-byte signature
  of its 32 canonical bytes under its own public key, and no feed occurs twice.
\<close>

theorem check_accepts_iff:
  "check_attestations env attestations members registry now = Inr () \<longleftrightarrow>
   list_all (attestation_ok env members registry now) attestations \<and>
   distinct (map (\<lambda>a. feed_id (at_feed a)) attestations)"
  by (simp add: check_attestations_def check_from_iff list_all_iff)

text \<open>
  C7: what an honest member attests is accepted by every peer that counts it among its members
  and whose clock is no more than 5 seconds behind the attested times: for any polls that led to
  its prices and any attestations it holds, the extra second of a restamped value included.
\<close>

theorem honest_attestations_accepted:
  assumes "fss_reachable (pr_registry p) (pr_feeds p)" and "distinct (map fd_id (pr_registry p))"
    and "store_ok (pr_store p)" and "signs_verify env" and "own_public_key env \<in> members"
    and "\<forall>a\<in>set (attestations_due env now p). unat (received_at (at_feed a)) \<le> unat now' + 5"
  shows "check_attestations env (attestations_due env now p) members (pr_registry p) now' = Inr ()"
proof -
  have "prices_ok p" using assms(1-3) fss_reachable_ok by (simp add: prices_ok_def)
  then show ?thesis
    using attestation_due_ok assms(4-6) attestations_due_distinct
    by (simp add: check_attestations_def check_from_iff)
qed

theorem honest_attestations_accepted_witness:
  "check_attestations toy_env (attestations_due toy_env 1000 toy_prices) {replicate 32 1}
     (pr_registry toy_prices) 1000 = Inr () \<and> length (attestations_due toy_env 1000 toy_prices) = 3"
proof
  show "check_attestations toy_env (attestations_due toy_env 1000 toy_prices) {replicate 32 1}
     (pr_registry toy_prices) 1000 = Inr ()"
    by (rule honest_attestations_accepted [OF toy_ok toy_signs_verify])
      (simp_all add: toy_key toy_due)
qed (simp add: toy_due)

text \<open>
  An unchanged price is not attested again: after a successful attestation, as long as the
  feeds have the same values, the next one sends nothing and changes nothing.
\<close>

lemma attest_quiet_when_unchanged:
  assumes "fss_reachable (pr_registry p) (pr_feeds p)" and "distinct (map fd_id (pr_registry p))"
    and "store_ok (pr_store p)"
    and "attest env send now p = (p', Inr n)"
    and "current_values now' (p'\<lparr>pr_feeds := feeds'\<rparr>) = current_values now p"
  shows "attest env send' now' (p'\<lparr>pr_feeds := feeds'\<rparr>) = (p'\<lparr>pr_feeds := feeds'\<rparr>, Inr 0)"
proof -
  have ok: "prices_ok p" using assms(1-3) fss_reachable_ok by (simp add: prices_ok_def)
  have "store_all (attestations_due env now p) (pr_store p) = (pr_store p', Inr ())"
    using assms(4) by (auto simp: attest_def Let_def split: if_splits sum.splits prod.splits)
  from restamp_again [OF ok _ this]
  have "restamp (own_public_key env) (pr_store p') v = None" if "v \<in> set (current_values now p)" for v
    using that by blast
  then have "attestations_due env now' (p'\<lparr>pr_feeds := feeds'\<rparr>) = []"
    unfolding attestations_due_def assms(5) by (auto simp: List.map_filter_def filter_empty_conv)
  then show ?thesis by (simp add: attest_def)
qed

lemma attest_quiet_when_unchanged_witness:
  "\<exists>p'. attest toy_env (\<lambda>_. Inr ()) 1000 toy_prices = (p', Inr 3) \<and>
     attest toy_env (\<lambda>_. Inr ()) 1000 p' = (p', Inr 0)"
proof -
  obtain st where st: "store_all (attestations_due toy_env 1000 toy_prices) [] = (st, Inr ())"
    using toy_stored by blast
  let ?p = "toy_prices\<lparr>pr_store := st\<rparr>"
  have "attest toy_env (\<lambda>_. Inr ()) 1000 toy_prices = (?p, Inr 3)"
  proof -
    have "attestations_due toy_env 1000 toy_prices \<noteq> []"
      "length (attestations_due toy_env 1000 toy_prices) = 3" "pr_store toy_prices = []"
      by (simp_all add: toy_due) (simp add: toy_prices_def)
    then show ?thesis using st by (simp add: attest_def)
  qed
  moreover from attest_quiet_when_unchanged [OF toy_ok this, of 1000 priced_states "\<lambda>_. Inr ()"]
  have "attest toy_env (\<lambda>_. Inr ()) 1000 ?p = (?p, Inr 0)"
    by (simp add: toy_prices_def current_values_def)
  ultimately show ?thesis by blast
qed

text \<open>
  Handling a message never replaces a held attestation by one that is not strictly newer and
  never makes one up, whatever the outcome; a message that fails the check changes nothing, and
  after a message that succeeds every feed it attests is held at least as new as attested.
\<close>

lemma handle_attestation_keeps_newest:
  assumes "store_ok (pr_store p)" and "handle_attestation env members now attestations p = (p', r)"
  shows "(\<forall>k w. held_attestation (pr_store p) k = Some w \<longrightarrow>
        (\<exists>w'. held_attestation (pr_store p') k = Some w' \<and>
           unat (received_at (at_feed w)) \<le> unat (received_at (at_feed w')))) \<and>
      (\<forall>k w. held_attestation (pr_store p') k = Some w \<longrightarrow>
        held_attestation (pr_store p) k = Some w \<or> w \<in> set attestations \<and> k = row_key w) \<and>
      (pr_store p' = pr_store p \<or>
       (\<exists>ms. members = Inr ms \<and> list_all (attestation_ok env ms (pr_registry p) now) attestations)) \<and>
      (r = Inr () \<longrightarrow> (\<forall>a\<in>set attestations. \<exists>w. held_attestation (pr_store p') (row_key a) = Some w \<and>
           unat (received_at (at_feed a)) \<le> unat (received_at (at_feed w))))"
proof (cases "bind_res members (\<lambda>ms. check_attestations env attestations ms (pr_registry p) now)")
  case (Inl e)
  then show ?thesis using assms(2) by (auto simp: handle_attestation_def)
next
  case (Inr u)
  then obtain ms where ms: "members = Inr ms"
      "check_attestations env attestations ms (pr_registry p) now = Inr ()"
    by (cases members) auto
  obtain st res where st: "store_all attestations (pr_store p) = (st, res)" by fastforce
  then have p': "pr_store p' = st" "r = Inr () \<Longrightarrow> res = Inr ()"
    using assms(2) Inr by (auto simp: handle_attestation_def split: sum.splits)
  have "list_all (attestation_ok env ms (pr_registry p) now) attestations"
    using ms(2) by (simp add: check_attestations_def check_from_iff list_all_iff)
  moreover have "\<exists>w. held_attestation st (row_key a) = Some w \<and>
      unat (received_at (at_feed a)) \<le> unat (received_at (at_feed w))"
    if "r = Inr ()" "a \<in> set attestations" for a
    using store_all_held [OF _ assms(1) that(2)] st p'(2) [OF that(1)] by blast
  ultimately show ?thesis
    unfolding p'(1) ms(1)
    using store_all_monotone [OF st assms(1)] store_all_from [OF st assms(1)] by blast
qed

lemma handle_attestation_keeps_newest_witness:
  "\<exists>p' w. handle_attestation toy_env (Inr {replicate 32 1}) 1000
       (attestations_due toy_env 1000 toy_prices) toy_prices = (p', Inr ()) \<and>
     held_attestation (pr_store p') (replicate 32 1, 4) = Some w \<and> 1000 \<le> unat (received_at (at_feed w))"
proof -
  obtain st where st: "store_all (attestations_due toy_env 1000 toy_prices) [] = (st, Inr ())"
    using toy_stored by blast
  let ?p = "toy_prices\<lparr>pr_store := st\<rparr>"
  have "check_attestations toy_env (attestations_due toy_env 1000 toy_prices) {replicate 32 1}
      default_registry 1000 = Inr ()"
    using toy_attestations_ok attestations_due_distinct toy_ok fss_reachable_ok
    by (simp add: check_attestations_def check_from_iff prices_ok_def)
  then have handled: "handle_attestation toy_env (Inr {replicate 32 1}) 1000
       (attestations_due toy_env 1000 toy_prices) toy_prices = (?p, Inr ())"
    using st by (simp add: handle_attestation_def toy_prices_def)
  have a: "sign_feed toy_env \<lparr>feed_id = 4, price = 6000000000000, decimals = 8, received_at = 1000,
      valid_until = 1290\<rparr> \<in> set (attestations_due toy_env 1000 toy_prices)"
    by (simp add: toy_due)
  show ?thesis
    using handle_attestation_keeps_newest [OF toy_ok(3) handled, THEN conjunct2, THEN conjunct2,
        THEN conjunct2, rule_format, OF refl a] handled
    by (simp add: toy_env_def)
qed

text \<open>
  C8: a rate a client reads is the node's own held attestation beside those of other members, every
  one of them signed for this feed, of a current member, not past its validity, not stamped more
  than 5 seconds ahead and not stretched; the auxiliary ones are all the attestations held that
  qualify, and the node answers with a rate exactly when its own attestation qualifies.
\<close>

theorem rate_for_serves_current:
  assumes "store_ok (pr_store p)" and "rate_for env now feed members p = Inr rate"
  shows "(\<forall>info. rate = Current info \<longrightarrow>
       held_attestation (pr_store p) (own_public_key env, feed) = Some (er_main info) \<and>
       set (er_auxiliary info) = {a. held_attestation (pr_store p) (at_public_key a, feed) = Some a \<and>
         at_public_key a \<noteq> own_public_key env \<and> at_public_key a \<in> members \<and> servable now (at_feed a)}) \<and>
     ((\<exists>info. rate = Current info) \<longleftrightarrow>
       own_public_key env \<in> members \<and>
       (\<exists>a. held_attestation (pr_store p) (own_public_key env, feed) = Some a \<and> servable now (at_feed a)))"
proof -
  let ?key = "own_public_key env"
  have wf: "bt_wf (pr_store p)" using assms(1) by (simp add: store_ok_def)
  obtain as where as: "attestations_for (pr_store p) feed = Inr as"
    using assms(2) by (auto simp: rate_for_def split: sum.splits)
  define own where
    "own = filter (\<lambda>a. servable now (at_feed a) \<and> at_public_key a \<in> members \<and> at_public_key a = ?key) as"
  note mem = attestations_for_iff [OF as wf]
  have own: "a \<in> set own \<longleftrightarrow> held_attestation (pr_store p) (?key, feed) = Some a \<and>
      servable now (at_feed a) \<and> ?key \<in> members" for a
    unfolding own_def using mem by (auto simp: held_attestation_def)
  have cur: "(\<exists>info. rate = Current info) \<longleftrightarrow> own \<noteq> []"
    using assms(2) as by (auto simp: rate_for_def fold_rate_step own_def [symmetric]
        split: list.splits bool.splits)
  have info: "er_main info = last own \<and> own \<noteq> [] \<and> er_auxiliary info =
      filter (\<lambda>a. servable now (at_feed a) \<and> at_public_key a \<in> members \<and> at_public_key a \<noteq> ?key) as"
    if "rate = Current info" for info
    using that assms(2) as by (auto simp: rate_for_def fold_rate_step own_def [symmetric]
        split: list.splits bool.splits)
  have "held_attestation (pr_store p) (?key, feed) = Some (er_main info) \<and>
      set (er_auxiliary info) = {a. held_attestation (pr_store p) (at_public_key a, feed) = Some a \<and>
         at_public_key a \<noteq> ?key \<and> at_public_key a \<in> members \<and> servable now (at_feed a)}"
    if "rate = Current info" for info
    using info [OF that] own [of "last own"] mem by auto
  moreover have "own \<noteq> [] \<longleftrightarrow> ?key \<in> members \<and>
      (\<exists>a. held_attestation (pr_store p) (?key, feed) = Some a \<and> servable now (at_feed a))"
  proof -
    have "own \<noteq> [] \<longleftrightarrow> (\<exists>a. a \<in> set own)" by (cases own) auto
    then show ?thesis unfolding own by blast
  qed
  ultimately show ?thesis using cur by blast
qed

theorem rate_for_serves_current_witness:
  "\<exists>st info. store_all [sign_feed toy_env \<lparr>feed_id = 0, price = 5, decimals = 8, received_at = 1000,
       valid_until = 1300\<rparr>] [] = (st, Inr ()) \<and>
     rate_for toy_env 1300 0 {replicate 32 1} (toy_prices\<lparr>pr_store := st\<rparr>) = Inr (Current info) \<and>
     price (at_feed (er_main info)) = 5 \<and> er_auxiliary info = []"
proof -
  let ?a = "sign_feed toy_env \<lparr>feed_id = 0, price = 5, decimals = 8, received_at = 1000, valid_until = 1300\<rparr>"
  obtain st where st: "store_all [?a] [] = (st, Inr ())"
    using store_all_total [of "[?a]" "[]"] by (auto simp: storable_def)
  let ?p = "toy_prices\<lparr>pr_store := st\<rparr>"
  have st_eq: "st = [((replicate 32 1, 0), row_of ?a)]"
    using st by (simp add: store_latest_storable storable_def toy_env_def)
  have ok: "store_ok (pr_store ?p)" using store_all_ok [OF st store_ok_Nil] by simp
  have held: "held_attestation st (replicate 32 1, 0) = Some ?a"
    using held_row_of [of st ?a] by (simp add: st_eq bt_get_def toy_env_def)
  have "attestations_for st 0 = Inr [?a]"
    using feed_data_row_of [of ?a] by (simp add: attestations_for_def st_eq)
      (simp add: row_of_def sign_feed_def toy_env_def)
  then have rate: "\<exists>r. rate_for toy_env 1300 0 {replicate 32 1} ?p = Inr r"
    by (auto simp: rate_for_def fold_rate_step split: list.split bool.split)
  then obtain r where r: "rate_for toy_env 1300 0 {replicate 32 1} ?p = Inr r" by blast
  note S = rate_for_serves_current [OF ok r]
  have "servable 1300 (at_feed ?a)" by (simp add: servable_def)
  then obtain info where info: "r = Current info"
    using S held by (auto simp: toy_key)
  have "er_main info = ?a" using S info held by (simp add: toy_env_def)
  moreover have "set (er_auxiliary info) = {}"
  proof -
    have "held_attestation st (k, 0) = None" if "k \<noteq> replicate 32 1" for k
      using that by (simp add: held_attestation_def st_eq bt_get_def)
    then show ?thesis using S info by (auto simp: toy_env_def)
  qed
  ultimately show ?thesis using st r info by simp
qed

end
