(* ===== verification/Leader.thy ===== *)
theory Leader
  imports Prelude
begin

text \<open>
  The peers a node knows (\<open>storm/src/peer.rs\<close>) and the rotation of the network's leader over the
  block heights (\<open>high_storm/leader.rs\<close>). A remainder by zero, which panics, is a value of its own.
\<close>

datatype peer_status = Controlled | PeerActive | PeerInactive | Banned

record peer =
  pe_public_key :: bytes
  pe_socket_address :: "string option"
  pe_last_seen :: "u64 option"
  pe_status :: peer_status
  pe_discovery :: bool

datatype leader_panic = RemainderByZero

text \<open>\<open>sort_unstable\<close> and \<open>dedup\<close>, which removes equal neighbours.\<close>

fun dedup :: "'a list \<Rightarrow> 'a list" where
  "dedup (x # y # ys) = (if x = y then dedup (y # ys) else x # dedup (y # ys))"
| "dedup xs = xs"

definition members_of :: "peer list \<Rightarrow> bytes list" where
  "members_of peers = dedup (sort (map pe_public_key peers))"

definition leader_for_height :: "peer list \<Rightarrow> u64 \<Rightarrow> leader_panic + bytes option" where
  "leader_for_height peers block_height =
     (let members = members_of peers; member_count = word_of_nat (length members) :: u64 in
      if member_count = 0 then Inl RemainderByZero
      else let index = unat (block_height mod member_count) in
           Inr (if index < length members then Some (members ! index) else None))"

definition local_public_key :: "peer list \<Rightarrow> bytes option" where
  "local_public_key peers = map_option pe_public_key (find (\<lambda>peer. pe_status peer = Controlled) peers)"

definition is_local_leader :: "peer list \<Rightarrow> u64 \<Rightarrow> leader_panic + bool" where
  "is_local_leader peers block_height =
     bind_res (leader_for_height peers block_height) (\<lambda>leader. Inr (local_public_key peers = leader))"

fun position :: "'a \<Rightarrow> 'a list \<Rightarrow> nat option" where
  "position x [] = None"
| "position x (y # ys) = (if y = x then Some 0 else map_option Suc (position x ys))"

definition next_local_leader_height :: "peer list \<Rightarrow> u64 \<Rightarrow> u64 option" where
  "next_local_leader_height peers block_height =
     (case local_public_key peers of None \<Rightarrow> None
      | Some local \<Rightarrow>
          let members = members_of peers in
          (case position local members of None \<Rightarrow> None
           | Some index \<Rightarrow>
               let local_index = word_of_nat index :: u64;
                   member_count = word_of_nat (length members) :: u64;
                   offset = (local_index + member_count - block_height mod member_count) mod member_count
               in checked_add block_height offset))"

lemma set_dedup [simp]: "set (dedup xs) = set xs"
  by (induction xs rule: dedup.induct) auto

lemma dedup_sorted: "sorted (xs :: 'a::linorder list) \<Longrightarrow> sorted_wrt (<) (dedup xs)"
proof (induction xs rule: dedup.induct)
  case (1 x y ys)
  then show ?case by (cases "x = y") (auto simp: order.order_iff_strict intro: less_le_trans)
qed auto

lemma members_strict: "sorted_wrt (<) (members_of peers)"
  unfolding members_of_def by (rule dedup_sorted) simp

lemma set_members: "set (members_of peers) = pe_public_key ` set peers"
  by (simp add: members_of_def)

lemma length_dedup: "length (dedup xs) \<le> length xs"
  by (induction xs rule: dedup.induct) auto

lemma length_members: "length (members_of peers) \<le> length peers"
  using length_dedup [of "sort (map pe_public_key peers)"] by (simp add: members_of_def)

lemma position_Some: "position x xs = Some i \<Longrightarrow> i < length xs \<and> xs ! i = x"
  by (induction xs arbitrary: i) (auto split: if_splits simp: less_Suc_eq_0_disj)

lemma position_None: "position x xs = None \<longleftrightarrow> x \<notin> set xs"
  by (induction xs) auto

lemma close_mod_eq:
  assumes "a mod n = b mod n" "a < b + n" "b < a + n"
  shows "a = (b :: nat)"
proof -
  have aux: "a = b" if "a mod n = b mod n" "a < b + n" "b \<le> a" for a b :: nat
  proof -
    have "n dvd a - b" using that(1,3) by (metis mod_eq_dvd_iff_nat)
    moreover have "a - b < n" using that by linarith
    ultimately show ?thesis using that(3) by (auto dest: nat_dvd_not_less)
  qed
  show ?thesis using aux [of a b] aux [of b a] assms by (cases "b \<le> a") auto
qed

lemma mod_less_above: "i < n \<Longrightarrow> m mod n < (n :: nat)"
  by (rule mod_less_divisor) linarith

lemma offset_leads:
  fixes n i h :: nat
  assumes "i < n"
  shows "(h + (i + n - h mod n) mod n) mod n = i"
    and "y < (i + n - h mod n) mod n \<Longrightarrow> (h + y) mod n \<noteq> i"
proof -
  have r: "h mod n < n" using assms by simp
  have "(h + (i + n - h mod n) mod n) mod n = (h mod n + (i + n - h mod n)) mod n"
    by (simp add: mod_simps)
  also have "h mod n + (i + n - h mod n) = i + n" using r by linarith
  also have "(i + n) mod n = i" using assms by simp
  finally show "(h + (i + n - h mod n) mod n) mod n = i" .
  assume y: "y < (i + n - h mod n) mod n"
  moreover have "(i + n - h mod n) mod n < n" using assms by simp
  moreover note lead = \<open>(h + (i + n - h mod n) mod n) mod n = i\<close>
  ultimately show "(h + y) mod n \<noteq> i"
    using close_mod_eq [of "h + y" n "h + (i + n - h mod n) mod n"] by auto
qed

text \<open>Every list of peers a node can hold is far shorter than this.\<close>

abbreviation peers_fit :: "peer list \<Rightarrow> bool" where
  "peers_fit peers \<equiv> length peers < 2 ^ 63"

lemma unat_members: "peers_fit peers \<Longrightarrow> unat (word_of_nat (length (members_of peers)) :: u64) = length (members_of peers)"
  using length_members [of peers] by (simp add: unat_of_nat)

lemma leader_for_height_eq:
  assumes "peers_fit peers" "peers \<noteq> []"
  shows "leader_for_height peers h = Inr (Some (members_of peers ! (unat h mod length (members_of peers))))"
proof -
  have "members_of peers \<noteq> []" using assms(2) set_members [of peers] by auto
  moreover have "unat (h mod word_of_nat (length (members_of peers))) = unat h mod length (members_of peers)"
    by (simp add: unat_mod unat_members [OF assms(1)])
  moreover have "(word_of_nat (length (members_of peers)) :: u64) \<noteq> 0"
    using unat_members [OF assms(1)] calculation(1) by (metis length_0_conv unat_0)
  ultimately show ?thesis by (simp add: leader_for_height_def Let_def)
qed

lemma next_height_eq:
  assumes "peers_fit peers" "local_public_key peers = Some local"
  shows "\<exists>i<length (members_of peers). members_of peers ! i = local \<and>
    next_local_leader_height peers h = checked_add h (word_of_nat
      ((i + length (members_of peers) - unat h mod length (members_of peers)) mod length (members_of peers)))"
proof -
  let ?n = "length (members_of peers)"
  obtain p where "p \<in> set peers" "local = pe_public_key p"
    using assms(2) by (auto simp: local_public_key_def dest!: find_SomeD)
  then have "local \<in> set (members_of peers)" by (simp add: set_members)
  then obtain i where pos: "position local (members_of peers) = Some i"
    using position_None by fastforce
  note i = position_Some [OF pos]
  have n: "?n < 2 ^ 63" using assms(1) length_members [of peers] by linarith
  have small: "i < 2 ^ 64" "i + ?n < 2 ^ 64" using i n by simp_all
  let ?off = "(word_of_nat i + word_of_nat ?n - h mod word_of_nat ?n) mod word_of_nat ?n :: u64"
  have m: "unat (h mod word_of_nat ?n) = unat h mod ?n" by (simp add: unat_mod unat_members [OF assms(1)])
  have le: "unat h mod ?n \<le> i + ?n" 
    using mod_less_divisor [of ?n "unat h"] i by linarith
  have s: "unat (word_of_nat i + word_of_nat ?n :: u64) = i + ?n"
    using small by (simp add: unat_word_ariths unat_of_nat)
  have "unat (word_of_nat i + word_of_nat ?n - h mod word_of_nat ?n) = i + ?n - unat h mod ?n"
    using le by (simp add: unat_sub word_le_nat_alt s m)
  then have "unat ?off = (i + ?n - unat h mod ?n) mod ?n"
    by (simp add: unat_mod unat_members [OF assms(1)])
  moreover have "unat (word_of_nat ((i + ?n - unat h mod ?n) mod ?n) :: u64) = (i + ?n - unat h mod ?n) mod ?n"
    using n mod_less_above [of i ?n "i + ?n - unat h mod ?n"] i by (simp add: unat_of_nat)
  ultimately have "?off = word_of_nat ((i + ?n - unat h mod ?n) mod ?n)"
    by (simp add: word_unat_eq_iff)
  then show ?thesis
    using i by (intro exI [of _ i]) (simp add: next_local_leader_height_def assms(2) pos Let_def)
qed

subsection \<open>Properties\<close>

text \<open>
  The height a node waits for is the first one, from the given height on, that it leads, and it
  is fewer heights away than there are members; the node waits for none only when it leads no
  further height at all. Every height has a leader, so no height panics.
\<close>

lemma next_leader_height_is_first:
  assumes "length peers < 2 ^ 63" and "local_public_key peers = Some local"
  shows "case next_local_leader_height peers h of
      Some h' \<Rightarrow> h \<le> h' \<and> is_local_leader peers h' = Inr True \<and>
        unat h' < unat h + length (members_of peers) \<and>
        (\<forall>x. h \<le> x \<and> x < h' \<longrightarrow> is_local_leader peers x = Inr False)
    | None \<Rightarrow> \<forall>x\<ge>h. is_local_leader peers x = Inr False"
proof -
  let ?n = "length (members_of peers)"
  obtain i where i: "i < ?n" "members_of peers ! i = local"
    "next_local_leader_height peers h = checked_add h (word_of_nat ((i + ?n - unat h mod ?n) mod ?n))"
    using next_height_eq [OF assms] by blast
  define off where "off = (i + ?n - unat h mod ?n) mod ?n"
  have peers: "peers \<noteq> []" using assms(2) by (auto simp: local_public_key_def)
  have dist: "distinct (members_of peers)" using members_strict strict_sorted_iff by blast
  have inside: "unat x mod ?n < ?n" for x :: u64 by (rule mod_less_above [OF i(1)])
  have leads: "is_local_leader peers x = Inr (unat x mod ?n = i)" for x
    using i nth_eq_iff_index_eq [OF dist i(1) inside [of x]]
    by (auto simp: is_local_leader_def leader_for_height_eq [OF assms(1) peers] assms(2))
  have off: "off < ?n" "?n < 2 ^ 63"
    using mod_less_above [OF i(1)] assms(1) length_members [of peers] by (simp_all add: off_def)
  then have woff: "unat (word_of_nat off :: u64) = off" by (simp add: unat_of_nat)
  have first: "unat x mod ?n \<noteq> i" if "h \<le> x" "unat x < unat h + off" for x
    using offset_leads(2) [OF i(1), of "unat x - unat h" "unat h"] that
    by (simp add: off_def word_le_nat_alt)
  show ?thesis
  proof (cases "unat h + off < 2 ^ 64")
    case True
    then obtain h' where h': "checked_add h (word_of_nat off) = Some h'" "unat h' = unat h + off"
      by (cases "checked_add h (word_of_nat off :: u64)") (simp_all add: word_facts woff)
    moreover have "unat h' mod ?n = i" using offset_leads(1) [OF i(1)] by (simp add: h'(2) off_def)
    ultimately show ?thesis
      using i(3) off first leads by (simp add: off_def [symmetric] word_le_nat_alt word_less_nat_alt)
  next
    case False
    then have "checked_add h (word_of_nat off) = None" by (simp add: word_facts woff)
    moreover have "unat x mod ?n \<noteq> i" if "h \<le> x" for x
      using first [OF that] False unat_u64_bound [of x] by simp
    ultimately show ?thesis using i(3) leads by (simp add: off_def [symmetric])
  qed
qed

abbreviation toy_peers :: "peer list" where
  "toy_peers \<equiv>
     [\<lparr>pe_public_key = [2], pe_socket_address = None, pe_last_seen = None, pe_status = PeerActive, pe_discovery = False\<rparr>,
      \<lparr>pe_public_key = [1], pe_socket_address = None, pe_last_seen = None, pe_status = Controlled, pe_discovery = False\<rparr>]"

lemma toy_members: "members_of toy_peers = [[1], [2]]"
  by (simp add: members_of_def)

lemma next_leader_height_is_first_witness:
  "\<exists>h'. next_local_leader_height toy_peers 7 = Some h' \<and> unat h' < 9"
proof -
  have "length toy_peers < 2 ^ 63" "local_public_key toy_peers = Some [1]"
    by (simp_all add: local_public_key_def)
  note N = next_leader_height_is_first [OF this, of 7]
  have "next_local_leader_height toy_peers 7 = Some 8"
    by (simp add: next_local_leader_height_def local_public_key_def toy_members Let_def checked_add_def)
  then show ?thesis using N by (simp add: toy_members)
qed

text \<open>
  The leadership rotates: each member, however many nodes report which status, leads exactly
  one of any as many consecutive heights as there are members.
\<close>

lemma leader_rotation:
  assumes "length peers < 2 ^ 63" and "p \<in> set peers"
    and "unat h + length (members_of peers) \<le> 2 ^ 64"
  shows "\<exists>!x. h \<le> x \<and> unat x < unat h + length (members_of peers) \<and>
    leader_for_height peers x = Inr (Some (pe_public_key p))"
proof -
  let ?n = "length (members_of peers)"
  have peers: "peers \<noteq> []" using assms(2) by auto
  have dist: "distinct (members_of peers)" using members_strict strict_sorted_iff by blast
  obtain i where i: "i < ?n" "members_of peers ! i = pe_public_key p"
    using assms(2) set_members [of peers] by (metis imageI in_set_conv_nth)
  have inside: "unat x mod ?n < ?n" for x :: u64 by (rule mod_less_above [OF i(1)])
  have leads: "leader_for_height peers x = Inr (Some (pe_public_key p)) \<longleftrightarrow> unat x mod ?n = i" for x
    using i nth_eq_iff_index_eq [OF dist i(1) inside [of x]]
    by (auto simp: leader_for_height_eq [OF assms(1) peers])
  define off where "off = (i + ?n - unat h mod ?n) mod ?n"
  have off: "off < ?n" using mod_less_above [OF i(1)] by (simp add: off_def)
  define x where "x = (word_of_nat (unat h + off) :: u64)"
  have "unat (word_of_nat m :: u64) = m" if "m < 2 ^ 64" for m using that by (simp add: unat_of_nat)
  from this [of "unat h + off"] have ux: "unat x = unat h + off"
    unfolding x_def using off assms(3) by linarith
  show ?thesis
  proof (rule ex1I [of _ x])
    show "h \<le> x \<and> unat x < unat h + ?n \<and> leader_for_height peers x = Inr (Some (pe_public_key p))"
      using off offset_leads(1) [OF i(1), of "unat h"] by (simp add: leads ux off_def word_le_nat_alt)
  next
    fix y assume y: "h \<le> y \<and> unat y < unat h + ?n \<and> leader_for_height peers y = Inr (Some (pe_public_key p))"
    have "unat x mod ?n = unat y mod ?n"
      using y offset_leads(1) [OF i(1), of "unat h"] by (simp add: leads ux off_def)
    moreover have "unat x < unat y + ?n" "unat y < unat x + ?n"
      using y off by (simp_all add: ux word_le_nat_alt)
    ultimately have "unat x = unat y" by (rule close_mod_eq)
    then show "y = x" by (simp add: word_unat_eq_iff)
  qed
qed

lemma leader_rotation_witness:
  "\<exists>!x :: u64. 7 \<le> x \<and> unat x < 9 \<and> leader_for_height toy_peers x = Inr (Some [2])"
  using leader_rotation [of toy_peers "hd toy_peers" 7] by (simp add: toy_members)

end
