(* ===== verification/Node_Message.thy ===== *)
theory Node_Message
  imports Leader
begin

text \<open>
  The messages of the oracle network (\<open>high_storm/message.rs\<close>): their kinds with their numeric
  identifiers, the payloads, and the settings the members must share. A message carries its payload
  encoded by the postcard library, as bytes.
\<close>

subsection \<open>Kinds\<close>

datatype node_message_kind =
    ExecuteUserRequests
  | ExchangeRewards
  | SigningNonces
  | PartialSignatures
  | BurnExpiredUtxos
  | ExpiredUtxosBurned
  | NetworkVote
  | ApproveVoting
  | AskAboutVotings
  | ExecuteVoting
  | AttestPrice
  | NetworkAssets
  | RenewStormUtxos
  | ProtocolSettings

fun kind_id :: "node_message_kind \<Rightarrow> u16" where
  "kind_id ExecuteUserRequests = 0"
| "kind_id ExchangeRewards = 1"
| "kind_id SigningNonces = 2"
| "kind_id PartialSignatures = 3"
| "kind_id BurnExpiredUtxos = 4"
| "kind_id ExpiredUtxosBurned = 5"
| "kind_id NetworkVote = 6"
| "kind_id ApproveVoting = 7"
| "kind_id AskAboutVotings = 8"
| "kind_id ExecuteVoting = 9"
| "kind_id AttestPrice = 10"
| "kind_id NetworkAssets = 11"
| "kind_id RenewStormUtxos = 12"
| "kind_id ProtocolSettings = 13"

definition kind_from_id :: "u16 \<Rightarrow> node_message_kind option" where
  "kind_from_id id' =
     (if id' = 0 then Some ExecuteUserRequests
      else if id' = 1 then Some ExchangeRewards
      else if id' = 2 then Some SigningNonces
      else if id' = 3 then Some PartialSignatures
      else if id' = 4 then Some BurnExpiredUtxos
      else if id' = 5 then Some ExpiredUtxosBurned
      else if id' = 6 then Some NetworkVote
      else if id' = 7 then Some ApproveVoting
      else if id' = 8 then Some AskAboutVotings
      else if id' = 9 then Some ExecuteVoting
      else if id' = 10 then Some AttestPrice
      else if id' = 11 then Some NetworkAssets
      else if id' = 12 then Some RenewStormUtxos
      else if id' = 13 then Some ProtocolSettings
      else None)"

definition requires_coordinator :: "node_message_kind \<Rightarrow> bool" where
  "requires_coordinator kind \<longleftrightarrow> kind \<in> {ExecuteUserRequests, NetworkAssets, RenewStormUtxos}"

fun kind_as_str :: "node_message_kind \<Rightarrow> string" where
  "kind_as_str ExecuteUserRequests = ''execute_user_requests''"
| "kind_as_str ExchangeRewards = ''exchange_rewards''"
| "kind_as_str SigningNonces = ''signing_nonces''"
| "kind_as_str PartialSignatures = ''partial_signatures''"
| "kind_as_str BurnExpiredUtxos = ''burn_expired_utxos''"
| "kind_as_str ExpiredUtxosBurned = ''expired_utxos_burned''"
| "kind_as_str NetworkVote = ''network_vote_request''"
| "kind_as_str ApproveVoting = ''approve_voting_request''"
| "kind_as_str AskAboutVotings = ''ask_about_votings''"
| "kind_as_str ExecuteVoting = ''execute_voting_request''"
| "kind_as_str AttestPrice = ''attest_price''"
| "kind_as_str NetworkAssets = ''network_assets''"
| "kind_as_str RenewStormUtxos = ''renew_storm_utxos''"
| "kind_as_str ProtocolSettings = ''protocol_settings''"

datatype network_vote_kind = UpdateMembersVote | MergeStormEyesVote | SplitStormEyeVote

fun vote_kind_id :: "network_vote_kind \<Rightarrow> u16" where
  "vote_kind_id UpdateMembersVote = 0"
| "vote_kind_id MergeStormEyesVote = 1"
| "vote_kind_id SplitStormEyeVote = 2"

definition vote_kind_from_id :: "u16 \<Rightarrow> network_vote_kind option" where
  "vote_kind_from_id id' =
     (if id' = 0 then Some UpdateMembersVote
      else if id' = 1 then Some MergeStormEyesVote
      else if id' = 2 then Some SplitStormEyeVote
      else None)"

fun vote_kind_as_str :: "network_vote_kind \<Rightarrow> string" where
  "vote_kind_as_str UpdateMembersVote = ''update_network_members''"
| "vote_kind_as_str MergeStormEyesVote = ''merge_storm_eyes''"
| "vote_kind_as_str SplitStormEyeVote = ''split_storm_eye''"

lemma kind_from_id_of: "kind_from_id (kind_id kind) = Some kind"
  by (cases kind) (simp_all add: kind_from_id_def)

lemma kind_from_id_Some: "kind_from_id id' = Some kind \<longleftrightarrow> id' = kind_id kind"
  by (auto simp: kind_from_id_of) (auto simp: kind_from_id_def split: if_splits)

lemma vote_kind_from_id_Some: "vote_kind_from_id id' = Some kind \<longleftrightarrow> id' = vote_kind_id kind"
  by (cases kind) (auto simp: vote_kind_from_id_def split: if_splits)

subsection \<open>Messages and payloads\<close>

record node_message =
  nm_kind :: u16
  nm_linked_to :: "bytes option"
  nm_payload :: bytes

record storm_eye_utxo =
  se_txid :: bytes
  se_output_index :: u32

record chain_tip =
  ct_height :: u64
  ct_hash :: bytes

record network_vote_request =
  nv_kind :: u16
  nv_payload :: bytes

record voting_proposal =
  vp_request :: network_vote_request
  vp_created_at :: u64

record signed_voting_proposal =
  sp_request :: network_vote_request
  sp_created_at :: u64
  sp_proposer :: bytes
  sp_signature :: bytes

record update_network_members =
  um_to_accept :: "bytes list"
  um_to_remove :: "bytes list"

record merge_storm_eyes =
  ms_utxos_to_merge :: "storm_eye_utxo list"

record split_storm_eye =
  ss_utxo_to_split :: storm_eye_utxo
  ss_number_of_splits :: u64

record approve_voting_request =
  av_public_key :: bytes
  av_signature :: bytes

record external_request =
  er_request_hash :: bytes
  er_network_user_requests :: bytes
  er_additional_payload :: "bytes option"

record execute_user_requests =
  eu_tx :: bytes
  eu_signing_hash :: bytes
  eu_branch :: bytes
  eu_external_requests :: "external_request list"
  eu_chain_tip :: "chain_tip option"

record burn_expired_utxos =
  be_tx :: bytes
  be_signing_hash :: bytes
  be_branch :: bytes
  be_block_height :: u64
  be_chain_tip :: "chain_tip option"

record exchange_rewards =
  ex_tx :: bytes
  ex_final_tx :: "bytes option"
  ex_signing_hash :: bytes
  ex_branch :: bytes
  ex_block_height :: u64
  ex_chain_tip :: "chain_tip option"

record execute_voting_request =
  ev_tx :: bytes
  ev_final_tx :: "bytes option"
  ev_signing_hashes :: "bytes list"
  ev_branch :: bytes
  ev_proposer :: bytes
  ev_chain_tip :: "chain_tip option"

record renew_storm_utxos =
  rn_tx :: bytes
  rn_final_tx :: "bytes option"
  rn_signing_hashes :: "bytes list"
  rn_branch :: bytes
  rn_block_height :: u64
  rn_chain_tip :: "chain_tip option"
  rn_new_rescue_height :: u32

record signing_nonces_message =
  sn_signer :: bytes
  sn_nonces :: "bytes list"

record partial_signatures_message =
  pm_signer :: bytes
  pm_partial_signatures :: "bytes list"

subsection \<open>Settings\<close>

record protocol_settings =
  tick_lifetime_blocks :: u64
  burn_transaction_fee_sats :: u64
  tick_burn_reserve_sats :: u64
  operational_fee_sats :: u64
  issuance_transaction_fee_sats :: u64
  exchange_transaction_fee_sats :: u64

text \<open>Each differing setting, as its name and the two values.\<close>

definition mismatches :: "protocol_settings \<Rightarrow> protocol_settings \<Rightarrow> (string \<times> u64 \<times> u64) list" where
  "mismatches own other =
     filter (\<lambda>(name, l, p). l \<noteq> p)
       [(''tick_lifetime_blocks'', tick_lifetime_blocks own, tick_lifetime_blocks other),
        (''burn_transaction_fee_sats'', burn_transaction_fee_sats own, burn_transaction_fee_sats other),
        (''tick_burn_reserve_sats'', tick_burn_reserve_sats own, tick_burn_reserve_sats other),
        (''operational_fee_sats'', operational_fee_sats own, operational_fee_sats other),
        (''issuance_transaction_fee_sats'', issuance_transaction_fee_sats own, issuance_transaction_fee_sats other),
        (''exchange_transaction_fee_sats'', exchange_transaction_fee_sats own, exchange_transaction_fee_sats other)]"

lemma mismatches_Nil: "mismatches own other = [] \<longleftrightarrow> own = (other :: protocol_settings)"
  by (cases own; cases other) (auto simp: mismatches_def)

end
