(* ===== verification/Merkle_Tree.thy ===== *)
theory Merkle_Tree
  imports Prelude Ordered_Map
begin

text \<open>
  The Merkle tree over sorted leaves (\<open>storm-tree/src/smt.rs\<close>): a heap array of hashes, the position
  of every leaf, the proofs and their check. SHA-256 is an argument \<open>sha\<close> of every operation;
  indices and counts stay below \<open>2 ^ 21\<close>, so they are natural numbers.
\<close>

definition MAX_DEPTH :: nat where "MAX_DEPTH = 20"

definition ZERO_HASH :: bytes where "ZERO_HASH = replicate 32 0"

definition LEAF_MARKER :: u8 where "LEAF_MARKER = 1"

definition hash_leaf :: "(bytes \<Rightarrow> bytes) \<Rightarrow> bytes \<Rightarrow> bytes" where
  "hash_leaf sha leaf = sha (leaf @ [LEAF_MARKER])"

definition hash_node :: "(bytes \<Rightarrow> bytes) \<Rightarrow> bytes \<Rightarrow> bytes \<Rightarrow> bytes" where
  "hash_node sha left right = sha (left @ right)"

record merkle_proof =
  mp_leaf :: bytes
  mp_root :: bytes
  mp_siblings :: "(bool \<times> bytes) list"

datatype merkle_error =
    DepthIsZero
  | DepthExceedsMaximum nat
  | TreeIsFull nat
  | LeafOutOfOrder bytes bytes
  | UnknownLeaf bytes

record merkle_tree =
  mt_depth :: nat
  mt_nodes :: "bytes list"
  mt_positions :: "(bytes, nat) btree"

definition merkle_new :: "nat \<Rightarrow> merkle_error + merkle_tree" where
  "merkle_new depth =
     (if depth = 0 then Inl DepthIsZero
      else if MAX_DEPTH < depth then Inl (DepthExceedsMaximum depth)
      else Inr \<lparr>mt_depth = depth, mt_nodes = replicate (2 ^ (depth + 1)) ZERO_HASH, mt_positions = []\<rparr>)"

text \<open>
  The trailing zeros of the next power of two: the least exponent whose power is not below the
  number. The largest power of two of a 64-bit word is \<open>2 ^ 63\<close>.
\<close>

definition depth_for :: "nat \<Rightarrow> nat option" where
  "depth_for leaves =
     (case find (\<lambda>depth. max leaves 2 \<le> 2 ^ depth) [0..<64] of
        None \<Rightarrow> None
      | Some depth \<Rightarrow> if depth \<le> MAX_DEPTH then Some depth else None)"

definition capacity :: "merkle_tree \<Rightarrow> nat" where
  "capacity t = 2 ^ mt_depth t"

definition first_leaf_index :: "merkle_tree \<Rightarrow> nat" where
  "first_leaf_index t = 2 ^ mt_depth t"

fun rehash_path :: "(bytes \<Rightarrow> bytes) \<Rightarrow> nat \<Rightarrow> bytes list \<Rightarrow> bytes list" where
  "rehash_path sha index nodes =
     (if index div 2 \<ge> 1
      then rehash_path sha (index div 2)
             (nodes[index div 2 := hash_node sha (nodes ! (index div 2 * 2)) (nodes ! (index div 2 * 2 + 1))])
      else nodes)"

declare rehash_path.simps [simp del]

definition merkle_add :: "(bytes \<Rightarrow> bytes) \<Rightarrow> bytes \<Rightarrow> merkle_tree \<Rightarrow> merkle_error + merkle_tree" where
  "merkle_add sha leaf t =
     bind_res (case bt_last (mt_positions t) of None \<Rightarrow> Inr ()
               | Some (l, _) \<Rightarrow> require (\<not> leaf \<le> l) (LeafOutOfOrder leaf l)) (\<lambda>_.
     bind_res (require (length (mt_positions t) \<noteq> capacity t) (TreeIsFull (capacity t))) (\<lambda>_.
       let index = first_leaf_index t + length (mt_positions t) in
       Inr (t\<lparr>mt_nodes := rehash_path sha index ((mt_nodes t)[index := hash_leaf sha leaf]),
              mt_positions := bt_insert leaf index (mt_positions t)\<rparr>)))"

definition from_leaves :: "(bytes \<Rightarrow> bytes) \<Rightarrow> bytes list \<Rightarrow> merkle_error + merkle_tree" where
  "from_leaves sha leaves =
     (let sorted_leaves = sort leaves in
      bind_res (ok_or (TreeIsFull (2 ^ MAX_DEPTH)) (depth_for (length sorted_leaves))) (\<lambda>depth.
      bind_res (merkle_new depth) (fold_res (merkle_add sha) sorted_leaves)))"

definition merkle_root :: "merkle_tree \<Rightarrow> bytes" where
  "merkle_root t = mt_nodes t ! 1"

fun proof_siblings :: "bytes list \<Rightarrow> nat \<Rightarrow> (bool \<times> bytes) list" where
  "proof_siblings nodes index =
     (if index > 1
      then (odd index, nodes ! (if odd index then index - 1 else index + 1))
             # proof_siblings nodes (index div 2)
      else [])"

declare proof_siblings.simps [simp del]

definition merkle_proof_of :: "bytes \<Rightarrow> merkle_tree \<Rightarrow> merkle_error + merkle_proof" where
  "merkle_proof_of leaf t =
     bind_res (ok_or (UnknownLeaf leaf) (bt_get (mt_positions t) leaf)) (\<lambda>index.
       Inr \<lparr>mp_leaf = leaf, mp_root = merkle_root t, mp_siblings = proof_siblings (mt_nodes t) index\<rparr>)"

definition proof_step :: "(bytes \<Rightarrow> bytes) \<Rightarrow> bool \<times> bytes \<Rightarrow> bytes \<Rightarrow> bytes" where
  "proof_step sha s hash = (if fst s then hash_node sha (snd s) hash else hash_node sha hash (snd s))"

definition process_proof :: "(bytes \<Rightarrow> bytes) \<Rightarrow> bytes \<Rightarrow> (bool \<times> bytes) list \<Rightarrow> bytes" where
  "process_proof sha leaf siblings = fold (proof_step sha) siblings (hash_leaf sha leaf)"

definition verify_proof :: "(bytes \<Rightarrow> bytes) \<Rightarrow> merkle_proof \<Rightarrow> bool" where
  "verify_proof sha p \<longleftrightarrow> process_proof sha (mp_leaf p) (mp_siblings p) = mp_root p"

subsection \<open>The heap invariant\<close>

text \<open>A slot is occupied when one of the first \<open>n\<close> leaf slots lies at or below it.\<close>

definition occupied :: "nat \<Rightarrow> nat \<Rightarrow> nat \<Rightarrow> bool" where
  "occupied depth n i \<longleftrightarrow> (\<exists>k<n. \<exists>j. i = (2 ^ depth + k) div 2 ^ j)"

definition heap_ok :: "(bytes \<Rightarrow> bytes) \<Rightarrow> nat \<Rightarrow> bytes list \<Rightarrow> bytes list \<Rightarrow> bool" where
  "heap_ok sha depth leaves nodes \<longleftrightarrow>
     length nodes = 2 ^ (depth + 1) \<and>
     (\<forall>k<2 ^ depth. nodes ! (2 ^ depth + k) = (if k < length leaves then hash_leaf sha (leaves ! k) else ZERO_HASH)) \<and>
     (\<forall>i. 1 \<le> i \<and> i < 2 ^ depth \<longrightarrow>
        nodes ! i = (if occupied depth (length leaves) i
                     then hash_node sha (nodes ! (2 * i)) (nodes ! (2 * i + 1)) else ZERO_HASH))"

definition tree_leaves :: "merkle_tree \<Rightarrow> bytes list" where
  "tree_leaves t = bt_keys (mt_positions t)"

definition tree_ok :: "(bytes \<Rightarrow> bytes) \<Rightarrow> merkle_tree \<Rightarrow> bool" where
  "tree_ok sha t \<longleftrightarrow>
     0 < mt_depth t \<and> length (mt_positions t) \<le> 2 ^ mt_depth t \<and> bt_wf (mt_positions t) \<and>
     bt_values (mt_positions t) = [2 ^ mt_depth t ..< 2 ^ mt_depth t + length (mt_positions t)] \<and>
     heap_ok sha (mt_depth t) (tree_leaves t) (mt_nodes t)"

definition ancestor :: "nat \<Rightarrow> nat \<Rightarrow> bool" where
  "ancestor i index \<longleftrightarrow> (\<exists>j>0. i = index div 2 ^ j) \<and> 1 \<le> i"

lemma ancestor_step: "ancestor i index \<longleftrightarrow> 1 \<le> index div 2 \<and> (i = index div 2 \<or> ancestor i (index div 2))"
proof -
  have s: "index div 2 ^ Suc j = index div 2 div 2 ^ j" for j
    by (simp add: div_mult2_eq)
  show ?thesis (is "?L \<longleftrightarrow> ?R")
  proof
    assume ?L
    then obtain j where j: "i = index div 2 ^ Suc j" "1 \<le> i" by (auto simp: ancestor_def gr0_conv_Suc)
    then have "i = index div 2 div 2 ^ j" by (simp only: s)
    moreover from this have "1 \<le> index div 2" using j(2) by (cases "index div 2 = 0") auto
    ultimately show ?R using j(2) by (cases j) (auto simp: ancestor_def)
  next
    assume ?R
    then show ?L
    proof (elim conjE disjE)
      assume "1 \<le> index div 2" "i = index div 2"
      then show ?L by (auto simp: ancestor_def intro: exI [of _ 1])
    next
      assume "ancestor i (index div 2)"
      then obtain j where "i = index div 2 div 2 ^ j" "1 \<le> i" by (auto simp: ancestor_def)
      then have "i = index div 2 ^ Suc j" by (simp only: s)
      then show ?L using \<open>1 \<le> i\<close> unfolding ancestor_def by blast
    qed
  qed
qed

lemma ancestor_less: "ancestor i index \<Longrightarrow> i < index"
proof (induction index rule: less_induct)
  case (less index)
  then have "1 \<le> index div 2" "i = index div 2 \<or> ancestor i (index div 2)"
    using ancestor_step [of i index] by auto
  then have "i = index div 2 \<or> i < index div 2" "0 < index" "index div 2 < index"
    using less.IH [of "index div 2"] by auto
  then show ?case by linarith
qed

lemma rehash_path_length [simp]: "length (rehash_path sha index nodes) = length nodes"
  by (induction sha index nodes rule: rehash_path.induct) (subst rehash_path.simps, simp)

lemma rehash_path_up:
  "1 \<le> index div 2 \<Longrightarrow> rehash_path sha index nodes = rehash_path sha (index div 2)
     (nodes[index div 2 := hash_node sha (nodes ! (index div 2 * 2)) (nodes ! (index div 2 * 2 + 1))])"
  by (rule trans [OF rehash_path.simps if_P])

lemma rehash_path_top: "\<not> 1 \<le> index div 2 \<Longrightarrow> rehash_path sha index nodes = nodes"
  by (rule trans [OF rehash_path.simps if_not_P])

lemma rehash_path_other:
  "\<not> ancestor i index \<Longrightarrow> rehash_path sha index nodes ! i = nodes ! i"
proof (induction sha index nodes rule: rehash_path.induct)
  case (1 sha index nodes)
  show ?case
  proof (cases "1 \<le> index div 2")
    case True
    then have n: "i \<noteq> index div 2" "\<not> ancestor i (index div 2)" using 1(2) ancestor_step [of i index] True by blast+
    show ?thesis unfolding rehash_path_up [OF True] 1(1) [OF True n(2)] using n(1) by simp
  next
    case False
    show ?thesis unfolding rehash_path_top [OF False] ..
  qed
qed

lemma rehash_path_ancestor:
  "ancestor i index \<Longrightarrow> index < length nodes \<Longrightarrow>
   rehash_path sha index nodes ! i =
     hash_node sha (rehash_path sha index nodes ! (2 * i)) (rehash_path sha index nodes ! (2 * i + 1))"
proof (induction sha index nodes rule: rehash_path.induct)
  case (1 sha index nodes)
  let ?p = "index div 2"
  let ?nodes = "nodes[?p := hash_node sha (nodes ! (?p * 2)) (nodes ! (?p * 2 + 1))]"
  have p: "1 \<le> ?p" "i = ?p \<or> ancestor i ?p" using 1(2) ancestor_step [of i index] by blast+
  note eq = rehash_path_up [OF p(1), of sha nodes]
  have lt: "?p < length ?nodes" using 1(3) by simp
  show ?case
  proof (cases "ancestor i ?p")
    case True
    then show ?thesis unfolding eq by (rule 1(1) [OF p(1) _ lt])
  next
    case False
    with p have i: "i = ?p" by simp
    have n: "\<not> ancestor (2 * i) ?p" "\<not> ancestor (2 * i + 1) ?p" "\<not> ancestor i ?p"
      using ancestor_less [of "2 * i" ?p] ancestor_less [of "2 * i + 1" ?p] ancestor_less [of i ?p] i
      by linarith+
    have "2 * i \<noteq> ?p" "2 * i + 1 \<noteq> ?p" using i p(1) by linarith+
    then show ?thesis
      unfolding eq n [THEN rehash_path_other] using i lt by (simp add: mult.commute)
  qed
qed

lemma ancestor_half: "1 \<le> index div 2 \<Longrightarrow> ancestor (index div 2) index"
  using ancestor_step [of "index div 2" index] by blast

lemma ancestor_parent: "ancestor (2 * i) index \<or> ancestor (2 * i + 1) index \<Longrightarrow> 1 \<le> i \<Longrightarrow> ancestor i index"
proof -
  assume "ancestor (2 * i) index \<or> ancestor (2 * i + 1) index" "1 \<le> i"
  then obtain j where "2 * i = index div 2 ^ j \<or> 2 * i + 1 = index div 2 ^ j"
    unfolding ancestor_def by blast
  then have "i = index div 2 ^ j div 2" by linarith
  then have "i = index div 2 ^ Suc j" by (simp add: div_mult2_eq [symmetric] mult.commute)
  then show ?thesis using \<open>1 \<le> i\<close> unfolding ancestor_def by blast
qed

lemma ancestor_inner:
  assumes "ancestor i (2 ^ depth + k)" "k < 2 ^ depth"
  shows "i < 2 ^ depth"
proof -
  obtain j where j: "0 < j" "i = (2 ^ depth + k) div 2 ^ j" using assms(1) by (auto simp: ancestor_def)
  then have "i = (2 ^ depth + k) div 2 div 2 ^ (j - 1)"
    by (simp add: div_mult2_eq [symmetric] power_Suc [symmetric] del: power_Suc)
  then have "i \<le> (2 ^ depth + k) div 2" by simp
  then show ?thesis using assms(2) by linarith
qed

lemma occupied_Suc:
  assumes "1 \<le> i" "i < 2 ^ depth"
  shows "occupied depth (Suc n) i \<longleftrightarrow> occupied depth n i \<or> ancestor i (2 ^ depth + n)"
proof -
  have "(\<exists>j. i = (2 ^ depth + n) div 2 ^ j) \<longleftrightarrow> ancestor i (2 ^ depth + n)"
  proof
    assume "\<exists>j. i = (2 ^ depth + n) div 2 ^ j"
    then obtain j where j: "i = (2 ^ depth + n) div 2 ^ j" by blast
    moreover have "0 < j" using j assms(2) by (cases j) auto
    ultimately show "ancestor i (2 ^ depth + n)" using assms(1) by (auto simp: ancestor_def)
  qed (auto simp: ancestor_def)
  then show ?thesis unfolding occupied_def less_Suc_eq by blast
qed

lemma heap_ok_add:
  assumes "heap_ok sha depth ls nodes" "length ls < 2 ^ depth"
  shows "heap_ok sha depth (ls @ [leaf])
    (rehash_path sha (2 ^ depth + length ls) (nodes[2 ^ depth + length ls := hash_leaf sha leaf]))"
proof -
  let ?idx = "2 ^ depth + length ls"
  let ?nodes = "nodes[?idx := hash_leaf sha leaf]" and ?new = "rehash_path sha ?idx (nodes[?idx := hash_leaf sha leaf])"
  have len: "length nodes = 2 ^ (depth + 1)" using assms(1) by (simp add: heap_ok_def)
  have idx: "?idx < length ?nodes" using len assms(2) by simp
  have slot: "?new ! (2 ^ depth + k) = (if k < length (ls @ [leaf]) then hash_leaf sha ((ls @ [leaf]) ! k) else ZERO_HASH)"
    if "k < 2 ^ depth" for k
  proof -
    have "\<not> ancestor (2 ^ depth + k) ?idx" using ancestor_inner [OF _ assms(2)] by fastforce
    then have "?new ! (2 ^ depth + k) = ?nodes ! (2 ^ depth + k)" by (rule rehash_path_other)
    then show ?thesis using assms that len by (auto simp: heap_ok_def nth_append less_Suc_eq)
  qed
  have inner: "?new ! i = (if occupied depth (length (ls @ [leaf])) i
      then hash_node sha (?new ! (2 * i)) (?new ! (2 * i + 1)) else ZERO_HASH)"
    if i: "1 \<le> i" "i < 2 ^ depth" for i
  proof (cases "ancestor i ?idx")
    case True
    then show ?thesis using rehash_path_ancestor [OF True idx] occupied_Suc [OF i] by simp
  next
    case False
    then have n: "\<not> ancestor (2 * i) ?idx" "\<not> ancestor (2 * i + 1) ?idx"
      using ancestor_parent i(1) by blast+
    have ne: "2 * i \<noteq> ?idx" "2 * i + 1 \<noteq> ?idx" "i \<noteq> ?idx"
    proof -
      have "i \<noteq> ?idx div 2" using False ancestor_half [of ?idx] i by metis
      then show "2 * i \<noteq> ?idx" "2 * i + 1 \<noteq> ?idx" "i \<noteq> ?idx" using i by linarith+
    qed
    have eq: "?new ! i = nodes ! i" "?new ! (2 * i) = nodes ! (2 * i)" "?new ! (2 * i + 1) = nodes ! (2 * i + 1)"
      using rehash_path_other [OF False] rehash_path_other [OF n(1)] rehash_path_other [OF n(2)] ne by simp_all
    have "nodes ! i = (if occupied depth (length ls) i
        then hash_node sha (nodes ! (2 * i)) (nodes ! (2 * i + 1)) else ZERO_HASH)"
      using assms(1) i by (simp add: heap_ok_def)
    then show ?thesis unfolding eq using occupied_Suc [OF i] False by simp
  qed
  show ?thesis unfolding heap_ok_def using len slot inner by (intro conjI allI impI) simp_all
qed

lemma merkle_new_Inr:
  "merkle_new depth = Inr t \<Longrightarrow> tree_ok sha t \<and> tree_leaves t = [] \<and> mt_depth t = depth"
  by (auto simp: merkle_new_def tree_ok_def heap_ok_def tree_leaves_def bt_keys_def bt_values_def
      occupied_def nth_append split: if_splits)

lemma length_tree_leaves [simp]: "length (tree_leaves t) = length (mt_positions t)"
  by (simp add: tree_leaves_def bt_keys_def)

lemma merkle_add_after:
  assumes "bt_wf (mt_positions t)"
  shows "(case bt_last (mt_positions t) of None \<Rightarrow> Inr ()
      | Some (l, _) \<Rightarrow> require (\<not> leaf \<le> l) (LeafOutOfOrder leaf l)) = Inr () \<longleftrightarrow>
    (\<forall>l\<in>set (tree_leaves t). l < leaf)"
proof (cases "mt_positions t" rule: rev_cases)
  case (snoc m e)
  then have "\<forall>l\<in>set (map fst m). l < fst e"
    using assms by (simp add: bt_wf_def sorted_wrt_append)
  then have "(\<forall>l\<in>set (tree_leaves t). l < leaf) \<longleftrightarrow> fst e < leaf"
    using snoc by (fastforce simp: tree_leaves_def bt_keys_def intro: less_trans)
  then show ?thesis using snoc by (cases e) (auto simp: bt_last_def)
qed (simp add: bt_last_def tree_leaves_def bt_keys_def)

lemma merkle_add_Inr:
  assumes "tree_ok sha t"
  shows "merkle_add sha leaf t = Inr t' \<longleftrightarrow>
    (\<forall>l\<in>set (tree_leaves t). l < leaf) \<and> length (mt_positions t) \<noteq> 2 ^ mt_depth t \<and>
    t' = t\<lparr>mt_nodes := rehash_path sha (2 ^ mt_depth t + length (mt_positions t))
             ((mt_nodes t)[2 ^ mt_depth t + length (mt_positions t) := hash_leaf sha leaf]),
           mt_positions := mt_positions t @ [(leaf, 2 ^ mt_depth t + length (mt_positions t))]\<rparr>"
proof -
  have wf: "bt_wf (mt_positions t)" using assms by (simp add: tree_ok_def)
  have ins: "bt_insert leaf v (mt_positions t) = mt_positions t @ [(leaf, v)]"
    if "\<forall>l\<in>set (tree_leaves t). l < leaf" for v
    using bt_insert_snoc that by (simp add: tree_leaves_def)
  show ?thesis
    unfolding merkle_add_def bind_res_eq_Inr
    using merkle_add_after [OF wf, of leaf] ins
    by (auto simp: capacity_def first_leaf_index_def Let_def)
qed

lemma merkle_add_ok:
  assumes "tree_ok sha t" "merkle_add sha leaf t = Inr t'"
  shows "tree_ok sha t' \<and> tree_leaves t' = tree_leaves t @ [leaf] \<and> mt_depth t' = mt_depth t"
proof -
  let ?idx = "2 ^ mt_depth t + length (mt_positions t)"
  have a: "\<forall>l\<in>set (tree_leaves t). l < leaf" "length (mt_positions t) \<noteq> 2 ^ mt_depth t"
    and t': "t' = t\<lparr>mt_nodes := rehash_path sha ?idx ((mt_nodes t)[?idx := hash_leaf sha leaf]),
           mt_positions := mt_positions t @ [(leaf, ?idx)]\<rparr>"
    using assms(2) unfolding merkle_add_Inr [OF assms(1)] by blast+
  have ok: "0 < mt_depth t" "length (mt_positions t) \<le> 2 ^ mt_depth t" "bt_wf (mt_positions t)"
      "bt_values (mt_positions t) = [2 ^ mt_depth t ..< ?idx]"
      "heap_ok sha (mt_depth t) (tree_leaves t) (mt_nodes t)"
    using assms(1) by (simp_all add: tree_ok_def)
  have leaves: "tree_leaves t' = tree_leaves t @ [leaf]"
    by (simp add: t' tree_leaves_def bt_keys_def)
  have "heap_ok sha (mt_depth t) (tree_leaves t @ [leaf]) (mt_nodes t')"
    using heap_ok_add [OF ok(5), of leaf] a(2) ok(2) by (simp add: t')
  moreover have "bt_wf (mt_positions t')"
    using ok(3) a(1) by (simp add: t' bt_wf_def sorted_wrt_append tree_leaves_def bt_keys_def)
  ultimately show ?thesis
    using ok a(2) leaves by (simp add: tree_ok_def t' bt_values_def)
qed

lemma add_all_ok:
  "fold_res (merkle_add sha) xs t = Inr t' \<Longrightarrow> tree_ok sha t \<Longrightarrow>
   tree_ok sha t' \<and> tree_leaves t' = tree_leaves t @ xs \<and> mt_depth t' = mt_depth t"
proof (induction xs arbitrary: t)
  case (Cons x xs)
  then obtain u where u: "merkle_add sha x t = Inr u" "fold_res (merkle_add sha) xs u = Inr t'"
    by (auto simp: bind_res_eq_Inr)
  then show ?case using Cons.IH [OF u(2)] merkle_add_ok [OF Cons.prems(2) u(1)] by simp
qed simp

lemma add_all_total:
  "tree_ok sha t \<Longrightarrow> sorted_wrt (<) (tree_leaves t @ xs) \<Longrightarrow>
   length (tree_leaves t) + length xs \<le> 2 ^ mt_depth t \<Longrightarrow> \<exists>t'. fold_res (merkle_add sha) xs t = Inr t'"
proof (induction xs arbitrary: t)
  case (Cons x xs)
  then obtain u where u: "merkle_add sha x t = Inr u"
    by (auto simp: merkle_add_Inr sorted_wrt_append)
  note U = merkle_add_ok [OF Cons.prems(1) u]
  have "\<exists>t'. fold_res (merkle_add sha) xs u = Inr t'"
    by (rule Cons.IH) (use U Cons.prems(2,3) in simp_all)
  then show ?case by (simp add: u)
qed simp

lemma depth_for_Some:
  "depth_for n = Some d \<longleftrightarrow> 0 < d \<and> d \<le> 20 \<and> n \<le> 2 ^ d \<and> (d = 1 \<or> 2 ^ (d - 1) < n)"
proof -
  have least: "find P [0..<64] = Some d \<longleftrightarrow> d < 64 \<and> P d \<and> (\<forall>e<d. \<not> P e)" for P d
    by (auto simp: find_Some_iff)
  have mono: "n \<le> 2 ^ d \<Longrightarrow> d \<le> e \<Longrightarrow> n \<le> 2 ^ e" for n d e :: nat
    by (meson one_le_numeral order_trans power_increasing)
  have pos: "2 \<le> (2 :: nat) ^ d \<longleftrightarrow> 0 < d" for d :: nat
    by (cases d) auto
  have "(\<forall>e<d. \<not> max n 2 \<le> 2 ^ e) \<longleftrightarrow> d = 1 \<or> 2 ^ (d - 1) < n" if "0 < d"
  proof
    assume a: "\<forall>e<d. \<not> max n 2 \<le> 2 ^ e"
    show "d = 1 \<or> 2 ^ (d - 1) < n"
    proof (cases "d = 1")
      case False
      then have "2 \<le> (2 :: nat) ^ (d - 1)" using that by (simp add: pos)
      then show ?thesis using a [rule_format, of "d - 1"] that by auto
    qed simp
  next
    assume b: "d = 1 \<or> 2 ^ (d - 1) < n"
    show "\<forall>e<d. \<not> max n 2 \<le> 2 ^ e"
    proof (intro allI impI)
      fix e assume "e < d"
      then have "e \<le> d - 1" by simp
      show "\<not> max n 2 \<le> 2 ^ e"
      proof
        assume m: "max n 2 \<le> 2 ^ e"
        then have "0 < e" using pos [of e] by simp
        then have "2 ^ (d - 1) < n" using b \<open>e < d\<close> by auto
        then show False using mono [of n e "d - 1"] m \<open>e \<le> d - 1\<close> by simp
      qed
    qed
  qed
  moreover have "depth_for n = Some d \<longleftrightarrow> find (\<lambda>depth. max n 2 \<le> 2 ^ depth) [0..<64] = Some d \<and> d \<le> 20"
    by (auto simp: depth_for_def MAX_DEPTH_def split: option.splits if_splits)
  ultimately show ?thesis
    unfolding least using pos [of d] by (cases "0 < d") auto
qed

lemma depth_for_None: "depth_for n = None \<longleftrightarrow> 2 ^ 20 < n"
proof -
  have "\<exists>d. depth_for n = Some d" if "n \<le> 2 ^ 20"
  proof -
    define d where "d = (LEAST d. max n 2 \<le> 2 ^ d)"
    have ex: "max n 2 \<le> 2 ^ 20" using that by simp
    have d: "max n 2 \<le> 2 ^ d" "d \<le> 20" 
      unfolding d_def using LeastI [of "\<lambda>d. max n 2 \<le> 2 ^ d" 20] Least_le [of "\<lambda>d. max n 2 \<le> 2 ^ d" 20] ex
      by blast+
    have m: "\<not> max n 2 \<le> 2 ^ e" if "e < d" for e using not_less_Least that unfolding d_def by blast
    have "0 < d" using d(1) by (cases d) auto
    moreover have "d = 1 \<or> 2 ^ (d - 1) < n"
    proof (cases "d = 1")
      case False
      then have "2 \<le> (2 :: nat) ^ (d - 1)" using calculation by (cases "d - 1") auto
      then show ?thesis using m [of "d - 1"] calculation by auto
    qed simp
    ultimately show ?thesis using depth_for_Some d by auto
  qed
  moreover have "depth_for n = None" if "2 ^ 20 < n"
  proof (rule ccontr)
    assume "depth_for n \<noteq> None"
    then obtain d where "d \<le> 20" "n \<le> 2 ^ d" using depth_for_Some by blast
    then have "n \<le> 2 ^ 20" by (meson one_le_numeral order_trans power_increasing)
    then show False using that by simp
  qed
  ultimately show ?thesis by fastforce
qed

lemma from_leaves_Inr:
  assumes "from_leaves sha leaves = Inr t"
  shows "tree_ok sha t \<and> tree_leaves t = sort leaves \<and> depth_for (length leaves) = Some (mt_depth t)"
proof -
  obtain d t0 where d: "depth_for (length leaves) = Some d" "merkle_new d = Inr t0"
      "fold_res (merkle_add sha) (sort leaves) t0 = Inr t"
    using assms by (auto simp: from_leaves_def Let_def bind_res_eq_Inr)
  note N = merkle_new_Inr [OF d(2), of sha]
  show ?thesis using add_all_ok [OF d(3)] N d(1) by simp
qed

lemma strict_sort_iff: "sorted_wrt (<) (sort xs) \<longleftrightarrow> distinct (xs :: 'a::linorder list)"
  by (metis distinct_sort sorted_sort strict_sorted_iff)

lemma from_leaves_total:
  "(\<exists>t. from_leaves sha leaves = Inr t) \<longleftrightarrow> distinct leaves \<and> length leaves \<le> 2 ^ 20"
proof
  assume "\<exists>t. from_leaves sha leaves = Inr t"
  then obtain t where "from_leaves sha leaves = Inr t" by blast
  note T = from_leaves_Inr [OF this]
  then have "sorted_wrt (<) (sort leaves)"
    by (metis bt_keys_def bt_wf_def tree_leaves_def tree_ok_def)
  moreover have "\<not> 2 ^ 20 < length leaves" using T depth_for_None by (metis option.distinct(1))
  ultimately show "distinct leaves \<and> length leaves \<le> 2 ^ 20" by (simp add: strict_sort_iff)
next
  assume a: "distinct leaves \<and> length leaves \<le> 2 ^ 20"
  then obtain d where d: "depth_for (length leaves) = Some d"
    using depth_for_None [of "length leaves"] by fastforce
  then have dd: "0 < d" "d \<le> 20" "length leaves \<le> 2 ^ d" by (simp_all add: depth_for_Some)
  then obtain t0 where t0: "merkle_new d = Inr t0" by (simp add: merkle_new_def MAX_DEPTH_def)
  note N = merkle_new_Inr [OF t0, of sha]
  have "\<exists>t. fold_res (merkle_add sha) (sort leaves) t0 = Inr t"
    by (rule add_all_total) (use N a dd in \<open>simp_all add: strict_sort_iff\<close>)
  then show "\<exists>t. from_leaves sha leaves = Inr t"
    by (simp add: from_leaves_def Let_def d t0)
qed

subsection \<open>Proofs\<close>

lemma siblings_up:
  "1 < index \<Longrightarrow> proof_siblings nodes index =
   (odd index, nodes ! (if odd index then index - 1 else index + 1)) # proof_siblings nodes (index div 2)"
  by (rule trans [OF proof_siblings.simps if_P])

lemma siblings_top: "\<not> 1 < index \<Longrightarrow> proof_siblings nodes index = []"
  by (rule trans [OF proof_siblings.simps if_not_P])

lemma siblings_reach_root:
  assumes "1 \<le> index"
    and "\<And>i. ancestor i index \<Longrightarrow> nodes ! i = hash_node sha (nodes ! (2 * i)) (nodes ! (2 * i + 1))"
  shows "fold (proof_step sha) (proof_siblings nodes index) (nodes ! index) = nodes ! 1"
  using assms
proof (induction index rule: less_induct)
  case (less index)
  show ?case
  proof (cases "1 < index")
    case True
    let ?p = "index div 2"
    have p: "1 \<le> ?p" "?p < index" using True by linarith+
    have anc: "ancestor i ?p \<Longrightarrow> ancestor i index" for i using ancestor_step [of i index] p by blast
    have "nodes ! ?p = hash_node sha (nodes ! (2 * ?p)) (nodes ! (2 * ?p + 1))"
      using less.prems(2) [OF ancestor_half [OF p(1)]] .
    moreover have "odd index \<Longrightarrow> 2 * ?p = index - 1 \<and> 2 * ?p + 1 = index"
      "even index \<Longrightarrow> 2 * ?p = index \<and> 2 * ?p + 1 = index + 1"
      by presburger+
    ultimately have "proof_step sha (odd index, nodes ! (if odd index then index - 1 else index + 1))
        (nodes ! index) = nodes ! ?p"
      by (simp add: proof_step_def)
    then show ?thesis
      using less.IH [OF p(2) p(1)] less.prems(2) anc by (simp add: siblings_up [OF True])
  next
    case False
    then have "index = 1" using less.prems(1) by simp
    then show ?thesis by (simp add: siblings_top)
  qed
qed

lemma length_proof_siblings:
  "2 ^ d \<le> index \<Longrightarrow> index < 2 ^ (d + 1) \<Longrightarrow> length (proof_siblings nodes index) = d"
proof (induction d arbitrary: index)
  case 0
  then show ?case by (simp add: siblings_top)
next
  case (Suc d)
  have "2 ^ d \<le> index div 2" "index div 2 < 2 ^ (d + 1)" "1 < index"
  proof -
    have "(1 :: nat) \<le> 2 ^ d" "2 * 2 ^ d \<le> index" "index < 4 * 2 ^ d" using Suc.prems by simp_all
    then show "2 ^ d \<le> index div 2" "index div 2 < 2 ^ (d + 1)" "1 < index"
      unfolding power_add power_one_right by linarith+
  qed
  then show ?case using Suc.IH [of "index div 2"] by (simp add: siblings_up)
qed

lemma position_of_leaf:
  assumes "tree_ok sha t" "bt_get (mt_positions t) leaf = Some index"
  shows "\<exists>k<length (mt_positions t). index = 2 ^ mt_depth t + k \<and> tree_leaves t ! k = leaf"
proof -
  have wf: "bt_wf (mt_positions t)"
    and vals: "bt_values (mt_positions t) = [2 ^ mt_depth t ..< 2 ^ mt_depth t + length (mt_positions t)]"
    using assms(1) by (simp_all add: tree_ok_def)
  have "(leaf, index) \<in> set (mt_positions t)" using assms(2) bt_get_eq_Some_iff [OF wf] by blast
  then obtain k where k: "k < length (mt_positions t)" "mt_positions t ! k = (leaf, index)"
    by (auto simp: in_set_conv_nth)
  then have "bt_values (mt_positions t) ! k = index" by (simp add: bt_values_def)
  then show ?thesis using k vals by (auto simp: tree_leaves_def bt_keys_def)
qed

lemma leaf_ancestors:
  assumes "tree_ok sha t" "k < length (mt_positions t)" "ancestor i (2 ^ mt_depth t + k)"
  shows "mt_nodes t ! i = hash_node sha (mt_nodes t ! (2 * i)) (mt_nodes t ! (2 * i + 1))"
proof -
  have k: "k < 2 ^ mt_depth t" using assms(1,2) by (simp add: tree_ok_def)
  have "1 \<le> i" "i < 2 ^ mt_depth t"
    using assms(3) ancestor_inner [OF assms(3) k] by (simp_all add: ancestor_def)
  moreover have "occupied (mt_depth t) (length (tree_leaves t)) i"
    using assms(2,3) by (auto simp: occupied_def ancestor_def)
  ultimately show ?thesis using assms(1) by (simp add: tree_ok_def heap_ok_def)
qed

lemma merkle_proof_complete:
  assumes "tree_ok sha t" "leaf \<in> set (tree_leaves t)"
  shows "\<exists>p. merkle_proof_of leaf t = Inr p \<and> verify_proof sha p \<and> mp_leaf p = leaf \<and>
    mp_root p = merkle_root t \<and> length (mp_siblings p) = mt_depth t"
proof -
  obtain index where g: "bt_get (mt_positions t) leaf = Some index"
    using assms(2) bt_get_None_iff [of "mt_positions t" leaf] by (auto simp: tree_leaves_def)
  obtain k where k: "k < length (mt_positions t)" "index = 2 ^ mt_depth t + k" "tree_leaves t ! k = leaf"
    using position_of_leaf [OF assms(1) g] by blast
  have lt: "k < 2 ^ mt_depth t" using assms(1) k(1) by (simp add: tree_ok_def)
  have "mt_nodes t ! index = hash_leaf sha leaf"
    using assms(1) k lt by (simp add: tree_ok_def heap_ok_def)
  moreover have "fold (proof_step sha) (proof_siblings (mt_nodes t) index) (mt_nodes t ! index) = mt_nodes t ! 1"
  proof (rule siblings_reach_root)
    have "(1 :: nat) \<le> 2 ^ mt_depth t" by simp
    then show "1 \<le> index" unfolding k(2) by linarith
  qed (use leaf_ancestors [OF assms(1) k(1)] k(2) in simp)
  ultimately show ?thesis
    using length_proof_siblings [of "mt_depth t" index "mt_nodes t"] k(2) lt
    by (simp add: merkle_proof_of_def g verify_proof_def process_proof_def merkle_root_def)
qed

text \<open>What is hashed while a tree is built, and while a proof is checked.\<close>

definition tree_inputs :: "merkle_tree \<Rightarrow> bytes list" where
  "tree_inputs t =
     map (\<lambda>leaf. leaf @ [LEAF_MARKER]) (tree_leaves t) @
     map (\<lambda>i. mt_nodes t ! (2 * i) @ mt_nodes t ! (2 * i + 1))
       (filter (\<lambda>i. mt_nodes t ! i \<noteq> ZERO_HASH) [1..<2 ^ mt_depth t])"

definition step_input :: "bool \<times> bytes \<Rightarrow> bytes \<Rightarrow> bytes" where
  "step_input s hash = (if fst s then snd s @ hash else hash @ snd s)"

fun step_inputs :: "(bytes \<Rightarrow> bytes) \<Rightarrow> (bool \<times> bytes) list \<Rightarrow> bytes \<Rightarrow> bytes list" where
  "step_inputs sha [] hash = []"
| "step_inputs sha (s # ss) hash = step_input s hash # step_inputs sha ss (proof_step sha s hash)"

definition proof_inputs :: "(bytes \<Rightarrow> bytes) \<Rightarrow> bytes \<Rightarrow> (bool \<times> bytes) list \<Rightarrow> bytes list" where
  "proof_inputs sha leaf ss = (leaf @ [LEAF_MARKER]) # step_inputs sha ss (hash_leaf sha leaf)"

definition clash :: "(bytes \<Rightarrow> bytes) \<Rightarrow> bytes list \<Rightarrow> bytes list \<Rightarrow> bool" where
  "clash sha xs ys \<longleftrightarrow> (\<exists>x\<in>set xs. sha x = ZERO_HASH \<or> (\<exists>y\<in>set ys. x \<noteq> y \<and> sha x = sha y))"

lemma proof_step_sha: "proof_step sha s hash = sha (step_input s hash)"
  by (simp add: proof_step_def step_input_def hash_node_def)

lemma step_inputs_snoc:
  "step_inputs sha (ss @ [s]) hash = step_inputs sha ss hash @ [step_input s (fold (proof_step sha) ss hash)]"
  by (induction ss arbitrary: hash) simp_all

lemma node_lengths:
  assumes "tree_ok sha t" "\<forall>x. length (sha x) = 32" "1 \<le> i" "i < 2 ^ (mt_depth t + 1)"
  shows "length (mt_nodes t ! i) = 32"
proof (cases "i < 2 ^ mt_depth t")
  case True
  then show ?thesis using assms by (simp add: tree_ok_def heap_ok_def hash_node_def ZERO_HASH_def)
next
  case False
  then obtain k where "i = 2 ^ mt_depth t + k" "k < 2 ^ mt_depth t"
    using assms(4) le_Suc_ex [of "2 ^ mt_depth t" i] by auto
  then show ?thesis using assms by (simp add: tree_ok_def heap_ok_def hash_leaf_def ZERO_HASH_def)
qed

text \<open>Where the hash of a node comes from.\<close>

lemma node_cases:
  assumes "tree_ok sha t" "1 \<le> i" "i < 2 ^ (mt_depth t + 1)"
  obtains (empty) "mt_nodes t ! i = ZERO_HASH"
  | (leaf) l where "l \<in> set (tree_leaves t)" "mt_nodes t ! i = sha (l @ [LEAF_MARKER])"
      "l @ [LEAF_MARKER] \<in> set (tree_inputs t)"
  | (inner) "i < 2 ^ mt_depth t" "mt_nodes t ! i = sha (mt_nodes t ! (2 * i) @ mt_nodes t ! (2 * i + 1))"
      "mt_nodes t ! (2 * i) @ mt_nodes t ! (2 * i + 1) \<in> set (tree_inputs t)"
proof (cases "mt_nodes t ! i = ZERO_HASH")
  case True
  then show thesis by (rule empty)
next
  case nonzero: False
  show thesis
  proof (cases "i < 2 ^ mt_depth t")
    case True
    then have "i \<in> set (filter (\<lambda>i. mt_nodes t ! i \<noteq> ZERO_HASH) [1..<2 ^ mt_depth t])"
      using nonzero assms(2) by simp
    then have "mt_nodes t ! (2 * i) @ mt_nodes t ! (2 * i + 1) \<in> set (tree_inputs t)"
      unfolding tree_inputs_def set_append set_map by blast
    moreover have "mt_nodes t ! i = (if occupied (mt_depth t) (length (tree_leaves t)) i
        then hash_node sha (mt_nodes t ! (2 * i)) (mt_nodes t ! (2 * i + 1)) else ZERO_HASH)"
      using assms(1,2) True unfolding tree_ok_def heap_ok_def by blast
    ultimately show thesis
      using inner [OF True] nonzero by (simp add: hash_node_def split: if_splits)
  next
    case False
    then obtain k where k: "i = 2 ^ mt_depth t + k" "k < 2 ^ mt_depth t"
      using assms(3) le_Suc_ex [of "2 ^ mt_depth t" i] by auto
    have "mt_nodes t ! (2 ^ mt_depth t + k) =
        (if k < length (tree_leaves t) then hash_leaf sha (tree_leaves t ! k) else ZERO_HASH)"
      using assms(1) k(2) unfolding tree_ok_def heap_ok_def by blast
    then have "k < length (tree_leaves t)" "mt_nodes t ! i = sha (tree_leaves t ! k @ [LEAF_MARKER])"
      using nonzero by (simp_all add: k(1) hash_leaf_def split: if_splits)
    then show thesis using leaf [of "tree_leaves t ! k"] by (simp add: tree_inputs_def)
  qed
qed

lemma lengths_differ: "length xs = m \<Longrightarrow> length ys = n \<Longrightarrow> m \<noteq> n \<Longrightarrow> xs \<noteq> ys"
  by auto

lemma clashI: "x \<in> set xs \<Longrightarrow> y \<in> set ys \<Longrightarrow> x \<noteq> y \<Longrightarrow> sha x = sha y \<Longrightarrow> clash sha xs ys"
  unfolding clash_def by blast

lemma clash_zero: "x \<in> set xs \<Longrightarrow> sha x = ZERO_HASH \<Longrightarrow> clash sha xs ys"
  unfolding clash_def by blast

lemma clash_mono: "clash sha xs ys \<Longrightarrow> set xs \<subseteq> set xs' \<Longrightarrow> clash sha xs' ys"
  unfolding clash_def by blast

lemma proof_sound_at:
  assumes t: "tree_ok sha t" and sha: "\<forall>x. length (sha x) = 32"
    and leaves: "\<forall>l\<in>set (tree_leaves t). length l = 32" and leaf: "length leaf = 32"
  shows "\<forall>s\<in>set ss. length (snd s) = 32 \<Longrightarrow> 1 \<le> i \<Longrightarrow> i < 2 ^ (mt_depth t + 1) \<Longrightarrow>
    process_proof sha leaf ss = mt_nodes t ! i \<Longrightarrow>
    leaf \<in> set (tree_leaves t) \<or> clash sha (proof_inputs sha leaf ss) (tree_inputs t)"
proof (induction ss arbitrary: i rule: rev_induct)
  case Nil
  have x: "leaf @ [LEAF_MARKER] \<in> set (proof_inputs sha leaf [])" by (simp add: proof_inputs_def)
  have sx: "sha (leaf @ [LEAF_MARKER]) = mt_nodes t ! i"
    using Nil.prems(4) by (simp add: process_proof_def hash_leaf_def)
  from t Nil.prems(2,3) show ?case
  proof (cases rule: node_cases)
    case empty
    then show ?thesis using clash_zero [OF x] sx by simp
  next
    case (leaf l)
    then show ?thesis using clashI [OF x leaf(3)] sx by (cases "l = leaf") auto
  next
    case inner
    have "length (mt_nodes t ! (2 * i) @ mt_nodes t ! (2 * i + 1)) = 64"
      using node_lengths [OF t sha, of "2 * i"] node_lengths [OF t sha, of "2 * i + 1"] inner(1) Nil.prems(2)
      by simp
    moreover have "length (leaf @ [LEAF_MARKER]) = 33" using leaf by simp
    ultimately have "leaf @ [LEAF_MARKER] \<noteq> mt_nodes t ! (2 * i) @ mt_nodes t ! (2 * i + 1)"
      using lengths_differ [of "leaf @ [LEAF_MARKER]" 33 _ 64] by simp
    then show ?thesis using clashI [OF x inner(3)] sx inner(2) by simp
  qed
next
  case (snoc s ss)
  let ?h = "process_proof sha leaf ss"
  have x: "step_input s ?h \<in> set (proof_inputs sha leaf (ss @ [s]))"
    by (simp add: proof_inputs_def step_inputs_snoc process_proof_def)
  have sx: "sha (step_input s ?h) = mt_nodes t ! i"
    using snoc.prems(4) by (simp add: process_proof_def proof_step_sha)
  have lh: "length ?h = 32" "length (snd s) = 32"
  proof -
    show "length ?h = 32"
      using sha by (cases ss rule: rev_cases) (simp_all add: process_proof_def hash_leaf_def proof_step_sha)
    show "length (snd s) = 32" using snoc.prems(1) by simp
  qed
  from t snoc.prems(2,3) show ?case
  proof (cases rule: node_cases)
    case empty
    then show ?thesis using clash_zero [OF x] sx by simp
  next
    case (leaf l)
    then have "length (l @ [LEAF_MARKER]) = 33" "length (step_input s ?h) = 64"
      using leaves lh by (simp_all add: step_input_def)
    then have "step_input s ?h \<noteq> l @ [LEAF_MARKER]" using lengths_differ [of "step_input s ?h" 64 _ 33] by simp
    then show ?thesis using clashI [OF x leaf(3)] sx leaf(2) by simp
  next
    case inner
    have len: "length (mt_nodes t ! (2 * i)) = 32" "length (mt_nodes t ! (2 * i + 1)) = 32"
      using node_lengths [OF t sha, of "2 * i"] node_lengths [OF t sha, of "2 * i + 1"] inner(1) snoc.prems(2)
      by simp_all
    show ?thesis
    proof (cases "step_input s ?h = mt_nodes t ! (2 * i) @ mt_nodes t ! (2 * i + 1)")
      case False
      then show ?thesis using clashI [OF x inner(3)] sx inner(2) by simp
    next
      case True
      then have "?h = mt_nodes t ! (2 * i) \<or> ?h = mt_nodes t ! (2 * i + 1)"
        using len lh by (auto simp: step_input_def split: if_splits)
      then obtain j where j: "?h = mt_nodes t ! j" "1 \<le> j" "j < 2 ^ (mt_depth t + 1)"
        using inner(1) snoc.prems(2) by (elim disjE) auto
      have "leaf \<in> set (tree_leaves t) \<or> clash sha (proof_inputs sha leaf ss) (tree_inputs t)"
        using snoc.IH [OF _ j(2,3,1)] snoc.prems(1) by simp
      then show ?thesis
        by (rule disj_mono [rule_format, rotated -1])
          (auto elim!: clash_mono simp: proof_inputs_def step_inputs_snoc)
    qed
  qed
qed

subsection \<open>The contract of membership proofs\<close>

locale membership_proofs =
  fixes prove :: "'leaf \<Rightarrow> 'tree \<Rightarrow> 'e + 'proof"
    and check :: "'proof \<Rightarrow> bool"
    and proven :: "'proof \<Rightarrow> 'leaf"
    and against :: "'proof \<Rightarrow> 'root"
    and root :: "'tree \<Rightarrow> 'root"
    and elems :: "'tree \<Rightarrow> 'leaf set"
    and inv :: "'tree \<Rightarrow> bool"
  assumes prove_complete: "inv t \<Longrightarrow> x \<in> elems t \<Longrightarrow>
      \<exists>p. prove x t = Inr p \<and> check p \<and> proven p = x \<and> against p = root t"
    and prove_member: "inv t \<Longrightarrow> prove x t = Inr p \<Longrightarrow> x \<in> elems t"
begin

lemma prove_iff:
  "inv t \<Longrightarrow> (\<exists>p. prove x t = Inr p) \<longleftrightarrow> x \<in> elems t"
  using prove_complete prove_member by blast

lemma prove_checks:
  assumes "inv t" "prove x t = Inr p"
  shows "check p \<and> proven p = x \<and> against p = root t"
proof -
  obtain q where "prove x t = Inr q" "check q" "proven q = x" "against q = root t"
    using prove_complete prove_member assms by blast
  then show ?thesis using assms(2) by simp
qed

end

lemma merkle_proof_member:
  "merkle_proof_of x t = Inr p \<Longrightarrow> x \<in> set (tree_leaves t)"
  using bt_get_None_iff [of "mt_positions t" x]
  by (auto simp: merkle_proof_of_def bind_res_eq_Inr tree_leaves_def)

interpretation merkle: membership_proofs merkle_proof_of "verify_proof sha" mp_leaf mp_root merkle_root
  "\<lambda>t. set (tree_leaves t)" "tree_ok sha"
  for sha :: "bytes \<Rightarrow> bytes"
  by unfold_locales (use merkle_proof_complete in blast, erule merkle_proof_member)

subsection \<open>Properties\<close>

text \<open>
  A tree is built from any list of at most \<open>2 ^ 20\<close> different leaves and from no other list; it
  has the smallest depth that holds them, but at least one; and every leaf of the list, and no
  other value, has a proof, which has one sibling per level and passes the check against the root.
\<close>

lemma merkle_tree_complete:
  "(\<exists>t. from_leaves sha leaves = Inr t \<and>
      length leaves \<le> 2 ^ mt_depth t \<and> (mt_depth t = 1 \<or> 2 ^ (mt_depth t - 1) < length leaves) \<and>
      (\<lambda>leaf. \<exists>p. merkle_proof_of leaf t = Inr p \<and> verify_proof sha p \<and> mp_leaf p = leaf \<and>
         mp_root p = merkle_root t \<and> length (mp_siblings p) = mt_depth t) = (\<lambda>leaf. leaf \<in> set leaves)) \<longleftrightarrow>
   distinct leaves \<and> length leaves \<le> 2 ^ 20"
proof -
  have "length leaves \<le> 2 ^ mt_depth t \<and> (mt_depth t = 1 \<or> 2 ^ (mt_depth t - 1) < length leaves) \<and>
      (\<lambda>leaf. \<exists>p. merkle_proof_of leaf t = Inr p \<and> verify_proof sha p \<and> mp_leaf p = leaf \<and>
         mp_root p = merkle_root t \<and> length (mp_siblings p) = mt_depth t) = (\<lambda>leaf. leaf \<in> set leaves)"
    if "from_leaves sha leaves = Inr t" for t
  proof -
    note T = from_leaves_Inr [OF that]
    then have set: "set (tree_leaves t) = set leaves" and ok: "tree_ok sha t" by simp_all
    have "(\<exists>p. merkle_proof_of leaf t = Inr p \<and> verify_proof sha p \<and> mp_leaf p = leaf \<and>
         mp_root p = merkle_root t \<and> length (mp_siblings p) = mt_depth t) \<longleftrightarrow> leaf \<in> set leaves" for leaf
      using merkle_proof_complete [OF ok, of leaf] merkle_proof_member [of leaf t] unfolding set by blast
    then show ?thesis using T by (simp add: depth_for_Some fun_eq_iff)
  qed
  then show ?thesis using from_leaves_total [of sha leaves] by blast
qed

text \<open>
  C1: no proof, of whatever length, passes the check against a tree's root for a value that is not
  among its leaves, unless one of the inputs hashed for the check collides under SHA-256 with a
  different input hashed for the tree, or hashes to the zero hash. Leaf and node inputs differ in
  length, so a short proof cannot pass an inner node off as a leaf.
\<close>

theorem merkle_proof_sound:
  assumes "from_leaves sha leaves = Inr t" and "\<forall>x. length (sha x) = 32"
    and "\<forall>leaf\<in>set leaves. length leaf = 32"
    and "length (mp_leaf p) = 32" and "\<forall>s\<in>set (mp_siblings p). length (snd s) = 32"
    and "verify_proof sha p" and "mp_root p = merkle_root t"
  shows "mp_leaf p \<in> set leaves \<or> clash sha (proof_inputs sha (mp_leaf p) (mp_siblings p)) (tree_inputs t)"
proof -
  note T = from_leaves_Inr [OF assms(1)]
  then have set: "set (tree_leaves t) = set leaves" and ok: "tree_ok sha t" by simp_all
  have d: "(1 :: nat) < 2 ^ (mt_depth t + 1)" by (rule one_less_power) simp_all
  show ?thesis
    using proof_sound_at [OF ok assms(2) _ assms(4,5), of 1] assms(3,6,7) d
    by (simp add: set verify_proof_def merkle_root_def)
qed

definition toy_sha :: "bytes \<Rightarrow> bytes" where
  "toy_sha m = take 32 (rev m @ replicate 32 0)"

lemma siblings_lengths:
  assumes "\<forall>i. 1 \<le> i \<and> i < 2 ^ (d + 1) \<longrightarrow> length (nodes ! i) = 32" "index < 2 ^ (d + 1)"
  shows "\<forall>s\<in>set (proof_siblings nodes index). length (snd s) = 32"
  using assms(2)
proof (induction index rule: less_induct)
  case (less index)
  show ?case
  proof (cases "1 < index")
    case True
    have "even index \<Longrightarrow> index + 1 < 2 ^ (d + 1)"
      using less.prems by (cases "index + 1 = 2 ^ (d + 1)") (auto dest: arg_cong [of _ _ even])
    then have "1 \<le> (if odd index then index - 1 else index + 1) \<and>
        (if odd index then index - 1 else index + 1) < 2 ^ (d + 1)"
      using True less.prems by (simp, linarith)
    then have "length (nodes ! (if odd index then index - 1 else index + 1)) = 32"
      using assms(1) by blast
    then show ?thesis using less.IH [of "index div 2"] less.prems True by (simp add: siblings_up)
  next
    case False
    then show ?thesis by (simp add: siblings_top)
  qed
qed

lemma merkle_proof_lengths:
  assumes "tree_ok sha t" "\<forall>x. length (sha x) = 32" "merkle_proof_of leaf t = Inr p"
  shows "\<forall>s\<in>set (mp_siblings p). length (snd s) = 32"
proof -
  obtain index where g: "bt_get (mt_positions t) leaf = Some index"
      and p: "mp_siblings p = proof_siblings (mt_nodes t) index"
    using assms(3) by (auto simp: merkle_proof_of_def bind_res_eq_Inr)
  obtain k where "k < length (mt_positions t)" "index = 2 ^ mt_depth t + k"
    using position_of_leaf [OF assms(1) g] by blast
  then have "index < 2 ^ (mt_depth t + 1)" using assms(1) by (simp add: tree_ok_def)
  then show ?thesis unfolding p using siblings_lengths node_lengths [OF assms(1,2)] by blast
qed

lemma toy_sha_length: "\<forall>x. length (toy_sha x) = 32"
  by (auto simp: toy_sha_def min_def)

theorem merkle_proof_sound_witness:
  "\<exists>t p. from_leaves toy_sha [replicate 32 1, replicate 32 2] = Inr t \<and> verify_proof toy_sha p \<and>
     mp_leaf p = replicate 32 1 \<and>
     (mp_leaf p \<in> {replicate 32 1, replicate 32 2} \<or>
      clash toy_sha (proof_inputs toy_sha (mp_leaf p) (mp_siblings p)) (tree_inputs t))"
proof -
  obtain t p where t: "from_leaves toy_sha [replicate 32 1, replicate 32 2] = Inr t"
    and p: "verify_proof toy_sha p" "mp_root p = merkle_root t" "mp_leaf p = replicate 32 1"
      "\<forall>s\<in>set (mp_siblings p). length (snd s) = 32"
  proof -
    obtain t where t: "from_leaves toy_sha [replicate 32 1, replicate 32 2] = Inr t"
      using from_leaves_total [of toy_sha "[replicate 32 1, replicate 32 2]"] by auto
    note T = from_leaves_Inr [OF t]
    then have "replicate 32 1 \<in> set (tree_leaves t)" by simp
    then obtain p where "merkle_proof_of (replicate 32 1) t = Inr p" "verify_proof toy_sha p"
        "mp_leaf p = replicate 32 1" "mp_root p = merkle_root t"
      using merkle_proof_complete T by blast
    then show thesis using that [OF t] merkle_proof_lengths toy_sha_length T by blast
  qed
  have "mp_leaf p \<in> set [replicate 32 1, replicate 32 2] \<or>
      clash toy_sha (proof_inputs toy_sha (mp_leaf p) (mp_siblings p)) (tree_inputs t)"
    by (rule merkle_proof_sound [OF t _ _ _ p(4,1,2)]) (simp_all add: toy_sha_length p(3))
  then show ?thesis using t p by (intro exI [of _ t] exI [of _ p]) simp
qed

text \<open>
  The root does not depend on the order in which the leaves are given.
\<close>

lemma merkle_root_order_irrelevant:
  assumes "mset leaves = mset leaves'"
  shows "map_sum id merkle_root (from_leaves sha leaves) = map_sum id merkle_root (from_leaves sha leaves')"
proof -
  have "sort leaves = sort leaves'" using assms by (intro properties_for_sort) simp_all
  then show ?thesis by (simp add: from_leaves_def)
qed

lemma merkle_root_order_irrelevant_witness:
  "map_sum id merkle_root (from_leaves (take 32) [replicate 32 1, replicate 32 2]) =
   map_sum id merkle_root (from_leaves (take 32) [replicate 32 2, replicate 32 1])"
  by (rule merkle_root_order_irrelevant) simp

end
