(* ===== verification/Storm_Tree.thy ===== *)
theory Storm_Tree
  imports Merkle_Tree
begin

text \<open>
  The tree of signer combinations (\<open>storm-tree/src/lib.rs\<close>): every subset of the nodes of the
  threshold's size has one MuSig2 key, a branch, and the branches are the leaves of a Merkle tree.
  Whether 32 bytes are an x-only key and the aggregation of keys belong to the secp256k1 library:
  they are the arguments \<open>valid_key\<close> and \<open>agg\<close>.
\<close>

definition TREE_DEPTH :: nat where "TREE_DEPTH = 17"
definition MIN_NODES :: nat where "MIN_NODES = 3"
definition MAX_BRANCHES :: nat where "MAX_BRANCHES = 100000"

datatype storm_tree_error =
    TooFewNodes nat nat
  | InvalidNodePublicKey nat
  | DuplicateNodePublicKey bytes
  | TooManyBranches nat
  | DuplicateBranch bytes
  | UnknownBranch bytes
  | MerkleTreeError merkle_error

record storm_tree =
  st_nodes :: "bytes list"
  st_threshold :: nat
  st_branches :: "(bytes, bytes list) btree"
  st_tree :: merkle_tree

definition minimum_threshold :: "nat \<Rightarrow> nat" where
  "minimum_threshold node_count = node_count - node_count div 3"

text \<open>The product is checked at 64 bits; the divisor is never zero.\<close>

definition combination_count :: "nat \<Rightarrow> nat \<Rightarrow> nat \<Rightarrow> nat option" where
  "combination_count node_count threshold limit =
     (let selected = min threshold (node_count - threshold) in
      fold_opt (\<lambda>divisor counted.
        let product = counted * (node_count - selected + divisor) in
        if 2 ^ 64 \<le> product then None
        else if limit < product div divisor then None
        else Some (product div divisor)) [1..<Suc selected] 1)"

text \<open>\<open>Itertools::combinations\<close>, in its order.\<close>

fun combinations :: "nat \<Rightarrow> 'a list \<Rightarrow> 'a list list" where
  "combinations 0 xs = [[]]"
| "combinations (Suc k) [] = []"
| "combinations (Suc k) (x # xs) = map ((#) x) (combinations k xs) @ combinations (Suc k) xs"

fun first_duplicate :: "'a list \<Rightarrow> 'a option" where
  "first_duplicate (x # y # ys) = (if x = y then Some x else first_duplicate (y # ys))"
| "first_duplicate _ = None"

fun first_invalid :: "(bytes \<Rightarrow> bool) \<Rightarrow> nat \<Rightarrow> bytes list \<Rightarrow> nat option" where
  "first_invalid valid_key index [] = None"
| "first_invalid valid_key index (node # nodes) =
     (if valid_key node then first_invalid valid_key (Suc index) nodes else Some index)"

definition insert_branch ::
  "(bytes list \<Rightarrow> bytes) \<Rightarrow> bytes list \<Rightarrow> (bytes, bytes list) btree
     \<Rightarrow> storm_tree_error + (bytes, bytes list) btree" where
  "insert_branch agg participants branches =
     (let branch = agg participants in
      if bt_get branches branch \<noteq> None then Inl (DuplicateBranch branch)
      else Inr (bt_insert branch participants branches))"

definition storm_tree_new ::
  "(bytes \<Rightarrow> bytes) \<Rightarrow> (bytes \<Rightarrow> bool) \<Rightarrow> (bytes list \<Rightarrow> bytes) \<Rightarrow> bytes list
     \<Rightarrow> storm_tree_error + storm_tree" where
  "storm_tree_new sha valid_key agg unsorted =
     (if length unsorted < MIN_NODES then Inl (TooFewNodes MIN_NODES (length unsorted))
      else case first_invalid valid_key 0 unsorted of
        Some index \<Rightarrow> Inl (InvalidNodePublicKey index)
      | None \<Rightarrow>
          let nodes = sort unsorted; threshold = minimum_threshold (length nodes) in
          (case first_duplicate nodes of
             Some duplicate \<Rightarrow> Inl (DuplicateNodePublicKey duplicate)
           | None \<Rightarrow>
               bind_res (ok_or (TooManyBranches MAX_BRANCHES)
                   (combination_count (length nodes) threshold MAX_BRANCHES)) (\<lambda>_.
               bind_res (fold_res (insert_branch agg) (combinations threshold nodes) []) (\<lambda>branches.
               case from_leaves sha (bt_keys branches) of
                 Inl e \<Rightarrow> Inl (MerkleTreeError e)
               | Inr tree \<Rightarrow> Inr \<lparr>st_nodes = nodes, st_threshold = threshold,
                                 st_branches = branches, st_tree = tree\<rparr>))))"

definition storm_root :: "storm_tree \<Rightarrow> bytes" where
  "storm_root t = merkle_root (st_tree t)"

definition nodes_for_branch :: "storm_tree \<Rightarrow> bytes \<Rightarrow> storm_tree_error + bytes list" where
  "nodes_for_branch t branch = ok_or (UnknownBranch branch) (bt_get (st_branches t) branch)"

definition storm_proof :: "bytes \<Rightarrow> storm_tree \<Rightarrow> storm_tree_error + merkle_proof" where
  "storm_proof branch t =
     (if bt_get (st_branches t) branch = None then Inl (UnknownBranch branch)
      else case merkle_proof_of branch (st_tree t) of
             Inl e \<Rightarrow> Inl (MerkleTreeError e) | Inr p \<Rightarrow> Inr p)"

definition verify_branch :: "(bytes \<Rightarrow> bytes) \<Rightarrow> bytes \<Rightarrow> bytes \<Rightarrow> merkle_proof \<Rightarrow> bool" where
  "verify_branch sha root branch p \<longleftrightarrow> mp_leaf p = branch \<and> mp_root p = root \<and> verify_proof sha p"

subsection \<open>Counting\<close>

definition count_upto :: "nat \<Rightarrow> nat \<Rightarrow> nat \<Rightarrow> nat option" where
  "count_upto limit m i = fold_opt (\<lambda>divisor counted.
     let product = counted * (m + divisor) in
     if 2 ^ 64 \<le> product then None else if limit < product div divisor then None
     else Some (product div divisor)) [1..<Suc i] 1"

lemma fold_opt_snoc:
  "fold_opt f (xs @ [x]) s = (case fold_opt f xs s of None \<Rightarrow> None | Some t \<Rightarrow> f x t)"
  by (induction xs arbitrary: s) (auto split: option.split)

lemma choose_step: "(m + i choose i) * (m + Suc i) div Suc i = m + Suc i choose Suc i"
proof -
  have "Suc i * (m + Suc i choose Suc i) = (m + Suc i) * (m + i choose i)"
    using Suc_times_binomial [of i "m + i"] by simp
  then show ?thesis by (metis mult.commute nonzero_mult_div_cancel_left nat.distinct(1))
qed

lemma count_upto_Suc:
  "count_upto limit m (Suc i) =
   (case count_upto limit m i of None \<Rightarrow> None
    | Some counted \<Rightarrow>
        let product = counted * (m + Suc i) in
        if 2 ^ 64 \<le> product then None else if limit < product div Suc i then None
        else Some (product div Suc i))"
  unfolding count_upto_def by (simp only: upt_Suc_append le_add1 plus_1_eq_Suc fold_opt_snoc
      le_numeral_extra(4) Suc_le_mono zero_le One_nat_def)

lemma count_upto_Some:
  "count_upto limit m i = Some c \<Longrightarrow> c = (m + i choose i) \<and> (0 < i \<longrightarrow> c \<le> limit)"
proof (induction i arbitrary: c)
  case 0
  then show ?case by (simp add: count_upto_def)
next
  case (Suc i)
  then obtain b where b: "count_upto limit m i = Some b" by (auto simp: count_upto_Suc split: option.splits)
  have "b = (m + i choose i)" using Suc.IH [OF b] by simp
  then show ?case
    using Suc.prems b by (auto simp: count_upto_Suc Let_def choose_step [simplified] split: if_splits)
qed

lemma choose_mono_step: "(m + i choose i) \<le> (m + Suc i choose Suc i)"
  by simp

lemma count_upto_total:
  "(m + i choose i) \<le> limit \<Longrightarrow> limit * (m + i) < 2 ^ 64 \<Longrightarrow> count_upto limit m i = Some (m + i choose i)"
proof (induction i)
  case 0
  then show ?case by (simp add: count_upto_def)
next
  case (Suc i)
  have le: "(m + i choose i) \<le> limit" using Suc.prems(1) choose_mono_step [of m i] by linarith
  have "limit * (m + i) < 2 ^ 64" using Suc.prems(2) by (simp add: algebra_simps)
  from Suc.IH [OF le this] have "count_upto limit m i = Some (m + i choose i)" .
  moreover have "(m + i choose i) * (m + Suc i) < 2 ^ 64"
    using le Suc.prems(2) by (meson le_less_trans mult_le_mono1)
  ultimately show ?case
    using Suc.prems(1) choose_step [of m i] by (simp add: count_upto_Suc Let_def not_le)
qed

lemma combination_count_upto:
  assumes "k \<le> n"
  shows "combination_count n k limit = count_upto limit (n - min k (n - k)) (min k (n - k)) \<and>
    (n - min k (n - k) + min k (n - k) choose min k (n - k)) = n choose k"
proof -
  have "(n choose min k (n - k)) = n choose k"
    using binomial_symmetric [OF assms] by (simp add: min_def)
  moreover have "n - min k (n - k) + min k (n - k) = n" using assms by linarith
  ultimately show ?thesis unfolding combination_count_def count_upto_def Let_def by simp
qed

subsection \<open>Combinations\<close>

lemma length_combinations: "length (combinations k xs) = length xs choose k"
  by (induction k xs rule: combinations.induct) simp_all

lemma set_combinations:
  "sorted_wrt (<) (xs :: 'a::linorder list) \<Longrightarrow>
   ps \<in> set (combinations k xs) \<longleftrightarrow> sorted_wrt (<) ps \<and> set ps \<subseteq> set xs \<and> length ps = k"
proof (induction k xs arbitrary: ps rule: combinations.induct)
  case (3 k x xs)
  have x: "\<forall>y\<in>set xs. x < y" using "3.prems" by simp
  have "ps \<in> set (combinations (Suc k) (x # xs)) \<longleftrightarrow>
      (\<exists>qs. ps = x # qs \<and> sorted_wrt (<) qs \<and> set qs \<subseteq> set xs \<and> length qs = k) \<or>
      (sorted_wrt (<) ps \<and> set ps \<subseteq> set xs \<and> length ps = Suc k)"
    using "3.IH" "3.prems" by auto
  also have "\<dots> \<longleftrightarrow> sorted_wrt (<) ps \<and> set ps \<subseteq> set (x # xs) \<and> length ps = Suc k"
  proof (cases ps)
    case (Cons p qs)
    show ?thesis
    proof (cases "p = x")
      case True
      have "set qs \<subseteq> set (x # xs) \<and> (\<forall>q\<in>set qs. x < q) \<longleftrightarrow> set qs \<subseteq> set xs"
        using x by auto
      moreover have "x \<notin> set xs" using x by auto
      ultimately show ?thesis using Cons True by auto
    next
      case False
      have "set ps \<subseteq> set (x # xs) \<and> sorted_wrt (<) ps \<longleftrightarrow> set ps \<subseteq> set xs \<and> sorted_wrt (<) ps"
        using x False Cons by (auto simp: subset_iff) (metis order.asym)
      then show ?thesis using Cons False by auto
    qed
  qed simp
  finally show ?case .
qed auto

lemma distinct_combinations: "distinct xs \<Longrightarrow> distinct (combinations k xs)"
proof (induction k xs rule: combinations.induct)
  case (3 k x xs)
  have "ps \<in> set (combinations j ys) \<Longrightarrow> set ps \<subseteq> set ys" for ps j and ys :: "'a list"
    by (induction j ys arbitrary: ps rule: combinations.induct) fastforce+
  then have "map ((#) x) (combinations k xs) = map ((#) x) (combinations k xs) \<and>
      set (map ((#) x) (combinations k xs)) \<inter> set (combinations (Suc k) xs) = {}"
    using 3 by fastforce
  then show ?case using 3 by (simp add: distinct_map inj_on_def)
qed simp_all

subsection \<open>Construction\<close>

lemma first_invalid_None: "first_invalid valid_key i xs = None \<longleftrightarrow> (\<forall>x\<in>set xs. valid_key x)"
  by (induction valid_key i xs rule: first_invalid.induct) auto

lemma first_duplicate_None:
  "sorted (xs :: 'a::linorder list) \<Longrightarrow> first_duplicate xs = None \<longleftrightarrow> distinct xs"
  by (induction xs rule: first_duplicate.induct) (auto simp: antisym)

lemma insert_branch_Inr:
  "insert_branch agg ps m = Inr m' \<longleftrightarrow> bt_get m (agg ps) = None \<and> m' = bt_insert (agg ps) ps m"
  by (auto simp: insert_branch_def Let_def)

lemma insert_branches_Inr:
  "fold_res (insert_branch agg) pss m = Inr m' \<Longrightarrow> bt_wf m \<Longrightarrow> distinct pss \<Longrightarrow>
   bt_wf m' \<and> (\<forall>b ps. bt_get m' b = Some ps \<longleftrightarrow> bt_get m b = Some ps \<or> ps \<in> set pss \<and> agg ps = b) \<and>
   inj_on agg (set pss) \<and> (\<forall>ps\<in>set pss. bt_get m (agg ps) = None) \<and> length m' = length m + length pss"
proof (induction pss arbitrary: m)
  case (Cons q pss)
  then have q: "bt_get m (agg q) = None"
      "fold_res (insert_branch agg) pss (bt_insert (agg q) q m) = Inr m'"
    by (auto simp: bind_res_eq_Inr insert_branch_Inr)
  have IH: "bt_wf m' \<and> (\<forall>b ps. bt_get m' b = Some ps \<longleftrightarrow>
       bt_get (bt_insert (agg q) q m) b = Some ps \<or> ps \<in> set pss \<and> agg ps = b) \<and>
     inj_on agg (set pss) \<and> (\<forall>ps\<in>set pss. bt_get (bt_insert (agg q) q m) (agg ps) = None) \<and>
     length m' = length (bt_insert (agg q) q m) + length pss"
    by (rule Cons.IH [OF q(2)]) (use Cons.prems bt_insert_wf in auto)
  have "\<forall>ps\<in>set pss. agg ps \<noteq> agg q \<and> bt_get m (agg ps) = None"
    using IH by (auto simp: bt_get_insert split: if_splits)
  then show ?case
    using IH q(1) Cons.prems(3) length_bt_insert_new [OF q(1)]
    by (auto simp: bt_get_insert inj_on_def split: if_splits)
qed simp

lemma insert_branches_total:
  "inj_on agg (set pss) \<Longrightarrow> distinct pss \<Longrightarrow> \<forall>ps\<in>set pss. bt_get m (agg ps) = None \<Longrightarrow>
   \<exists>m'. fold_res (insert_branch agg) pss m = Inr m'"
proof (induction pss arbitrary: m)
  case (Cons q pss)
  have "\<forall>ps\<in>set pss. bt_get (bt_insert (agg q) q m) (agg ps) = None"
  proof
    fix ps assume ps: "ps \<in> set pss"
    then have "agg ps \<noteq> agg q" using Cons.prems(1,2) by (metis distinct.simps(2) inj_on_contraD list.set_intros)
    then show "bt_get (bt_insert (agg q) q m) (agg ps) = None"
      using ps Cons.prems(3) by (simp add: bt_get_insert)
  qed
  then have "\<exists>m'. fold_res (insert_branch agg) pss (bt_insert (agg q) q m) = Inr m'"
    using Cons by simp
  moreover have "insert_branch agg q m = Inr (bt_insert (agg q) q m)"
    using Cons.prems by (simp add: insert_branch_Inr)
  ultimately show ?case by simp
qed simp

subsection \<open>Twenty nodes\<close>

lemma threshold_choose: "n choose minimum_threshold n = n choose (n div 3)"
  by (simp add: minimum_threshold_def binomial_symmetric [symmetric])

lemma choose_third_mono: "n choose (n div 3) \<le> Suc n choose (Suc n div 3)"
proof (cases "Suc n div 3 = n div 3")
  case True
  then show ?thesis by (simp add: binomial_right_mono)
next
  case False
  then have "Suc n div 3 = Suc (n div 3)" by linarith
  then show ?thesis by simp
qed

lemma choose_third_le: "m \<le> n \<Longrightarrow> m choose (m div 3) \<le> n choose (n div 3)"
  by (rule lift_Suc_mono_le [where f = "\<lambda>n. n choose (n div 3)"]) (rule choose_third_mono)

lemma choose_20: "(20 :: nat) choose 6 = 38760" by (simp add: binomial_fact' fact_numeral)
lemma choose_21: "(21 :: nat) choose 7 = 116280" by (simp add: binomial_fact' fact_numeral)

lemma branch_limit: "n choose minimum_threshold n \<le> MAX_BRANCHES \<longleftrightarrow> n \<le> 20"
proof
  assume a: "n choose minimum_threshold n \<le> MAX_BRANCHES"
  show "n \<le> 20"
  proof (rule ccontr)
    assume "\<not> n \<le> 20"
    then have "21 choose (21 div 3) \<le> n choose (n div 3)" by (intro choose_third_le) simp
    then show False using a choose_21 by (simp add: threshold_choose MAX_BRANCHES_def)
  qed
next
  assume "n \<le> 20"
  then have "n choose (n div 3) \<le> 20 choose (20 div 3)" by (rule choose_third_le)
  then show "n choose minimum_threshold n \<le> MAX_BRANCHES"
    using choose_20 by (simp add: threshold_choose MAX_BRANCHES_def)
qed

lemma threshold_bounds: "minimum_threshold n \<le> n" "3 \<le> n \<Longrightarrow> 0 < n - minimum_threshold n"
    "3 \<le> n \<Longrightarrow> 2 \<le> minimum_threshold n"
  by (simp_all add: minimum_threshold_def)

lemma combination_count_branches:
  assumes "3 \<le> n"
  shows "(\<exists>c. combination_count n (minimum_threshold n) MAX_BRANCHES = Some c) \<longleftrightarrow> n \<le> 20"
proof -
  let ?k = "minimum_threshold n"
  let ?s = "min ?k (n - ?k)"
  note U = combination_count_upto [OF threshold_bounds(1), of n MAX_BRANCHES]
  have s: "0 < ?s" "?s \<le> n" using threshold_bounds [of n] assms by auto
  show ?thesis
  proof
    assume "\<exists>c. combination_count n ?k MAX_BRANCHES = Some c"
    then obtain c where c: "count_upto MAX_BRANCHES (n - ?s) ?s = Some c" using U by auto
    then have "n choose ?k \<le> MAX_BRANCHES" using count_upto_Some [OF c] U s(1) by simp
    then show "n \<le> 20" by (simp add: branch_limit)
  next
    assume n: "n \<le> 20"
    then have "n choose ?k \<le> MAX_BRANCHES" by (simp add: branch_limit)
    moreover have "MAX_BRANCHES * (n - ?s + ?s) < 2 ^ 64" using n s(2) by (simp add: MAX_BRANCHES_def)
    ultimately show "\<exists>c. combination_count n ?k MAX_BRANCHES = Some c"
      using U count_upto_total [of "n - ?s" ?s MAX_BRANCHES] by simp
  qed
qed

lemma depth_mono: "a \<le> b \<Longrightarrow> (2 :: nat) ^ a \<le> 2 ^ b"
  by (rule power_increasing) simp_all

definition storm_ok ::
  "(bytes \<Rightarrow> bytes) \<Rightarrow> (bytes list \<Rightarrow> bytes) \<Rightarrow> bytes list \<Rightarrow> storm_tree \<Rightarrow> bool" where
  "storm_ok sha agg nodes t \<longleftrightarrow>
     st_nodes t = sort nodes \<and> distinct nodes \<and> st_threshold t = minimum_threshold (length nodes) \<and>
     bt_wf (st_branches t) \<and>
     (\<forall>b ps. bt_get (st_branches t) b = Some ps \<longleftrightarrow>
        sorted_wrt (<) ps \<and> set ps \<subseteq> set nodes \<and> length ps = st_threshold t \<and> agg ps = b) \<and>
     length (st_branches t) = length nodes choose st_threshold t \<and>
     from_leaves sha (bt_keys (st_branches t)) = Inr (st_tree t)"

definition signer_sets :: "bytes list \<Rightarrow> bytes list set" where
  "signer_sets nodes = {ps. sorted_wrt (<) ps \<and> set ps \<subseteq> set nodes \<and> length ps = minimum_threshold (length nodes)}"

lemma set_combinations_sort:
  assumes "distinct nodes"
  shows "set (combinations (minimum_threshold (length nodes)) (sort nodes)) = signer_sets nodes"
proof -
  have "sorted_wrt (<) (sort nodes)" using assms by (simp add: strict_sort_iff)
  from set_combinations [OF this] show ?thesis by (auto simp: signer_sets_def)
qed

lemma storm_tree_new_Inr:
  assumes "storm_tree_new sha valid_key agg nodes = Inr t"
  shows "storm_ok sha agg nodes t \<and> 3 \<le> length nodes \<and> length nodes \<le> 20 \<and>
    (\<forall>x\<in>set nodes. valid_key x) \<and> inj_on agg (signer_sets nodes)"
proof -
  let ?k = "minimum_threshold (length nodes)"
  have n: "3 \<le> length nodes" "first_invalid valid_key 0 nodes = None" "first_duplicate (sort nodes) = None"
    using assms by (auto simp: storm_tree_new_def MIN_NODES_def Let_def split: if_splits option.splits)
  then have d: "distinct nodes" by (simp add: first_duplicate_None)
  obtain c branches where c: "combination_count (length nodes) ?k MAX_BRANCHES = Some c"
    and b: "fold_res (insert_branch agg) (combinations ?k (sort nodes)) [] = Inr branches"
    and rest: "(case from_leaves sha (bt_keys branches) of Inl e \<Rightarrow> Inl (MerkleTreeError e)
      | Inr tree \<Rightarrow> Inr \<lparr>st_nodes = sort nodes, st_threshold = minimum_threshold (length (sort nodes)),
                        st_branches = branches, st_tree = tree\<rparr>) = Inr t"
  proof -
    have "\<not> length nodes < MIN_NODES" using n(1) by (simp add: MIN_NODES_def)
    with assms n(2,3) that show thesis by (simp add: storm_tree_new_def Let_def bind_res_eq_Inr) blast
  qed
  obtain tree where tr: "from_leaves sha (bt_keys branches) = Inr tree"
    and t: "t = \<lparr>st_nodes = sort nodes, st_threshold = ?k, st_branches = branches, st_tree = tree\<rparr>"
    using rest by (cases "from_leaves sha (bt_keys branches)") simp_all
  have "distinct (combinations ?k (sort nodes))" using d by (simp add: distinct_combinations)
  note B = insert_branches_Inr [OF b bt_wf_Nil this]
  show ?thesis
    using B n c d tr combination_count_branches [OF n(1)]
    unfolding set_combinations_sort [OF d] storm_ok_def t first_invalid_None length_combinations
    by (auto simp: signer_sets_def)
qed

lemma storm_tree_new_total:
  assumes "3 \<le> length nodes" "length nodes \<le> 20" "\<forall>x\<in>set nodes. valid_key x" "distinct nodes"
    and "inj_on agg (signer_sets nodes)"
  shows "\<exists>t. storm_tree_new sha valid_key agg nodes = Inr t"
proof -
  let ?k = "minimum_threshold (length nodes)"
  obtain c where c: "combination_count (length nodes) ?k MAX_BRANCHES = Some c"
    using combination_count_branches assms(1,2) by blast
  have dc: "distinct (combinations ?k (sort nodes))" using assms(4) by (simp add: distinct_combinations)
  obtain branches where b: "fold_res (insert_branch agg) (combinations ?k (sort nodes)) [] = Inr branches"
    using insert_branches_total [of agg "combinations ?k (sort nodes)" "[]"] assms(4,5) dc
    by (auto simp: set_combinations_sort)
  note B = insert_branches_Inr [OF b bt_wf_Nil dc]
  have "length branches \<le> 2 ^ 20"
    using B branch_limit [of "length nodes"] assms(2) by (simp add: length_combinations MAX_BRANCHES_def)
  moreover have "distinct (bt_keys branches)" using B bt_wf_distinct unfolding bt_keys_def by blast
  ultimately obtain tree where tr: "from_leaves sha (bt_keys branches) = Inr tree"
    using from_leaves_total [of sha "bt_keys branches"] by (auto simp: bt_keys_def)
  have "first_invalid valid_key 0 nodes = None" "first_duplicate (sort nodes) = None"
    using assms(3,4) by (simp_all add: first_invalid_None first_duplicate_None)
  then show ?thesis
    using assms(1) b tr c by (simp add: storm_tree_new_def MIN_NODES_def Let_def)
qed

lemma threshold_thirds: "3 * minimum_threshold n = 2 * n + n mod 3"
  unfolding minimum_threshold_def by presburger

lemma threshold_overlap: "2 * minimum_threshold n \<le> n + c \<Longrightarrow> n \<le> 3 * c"
proof -
  assume "2 * minimum_threshold n \<le> n + c"
  moreover have "3 * (n div 3) \<le> n" by simp
  moreover have "minimum_threshold n + n div 3 = n" by (simp add: minimum_threshold_def)
  ultimately show ?thesis by linarith
qed

subsection \<open>Properties\<close>

text \<open>
  A storm tree is built from 3 to 20 different valid node keys, whenever no two signer sets
  aggregate to one key, and from nothing else; the limit of 100,000 branches admits exactly 20 nodes.
\<close>

lemma storm_tree_new_iff:
  "(\<exists>t. storm_tree_new sha valid_key agg nodes = Inr t) \<longleftrightarrow>
   3 \<le> length nodes \<and> length nodes \<le> 20 \<and> list_all valid_key nodes \<and> distinct nodes \<and>
   inj_on agg (signer_sets nodes)"
proof
  assume "\<exists>t. storm_tree_new sha valid_key agg nodes = Inr t"
  then obtain t where "storm_tree_new sha valid_key agg nodes = Inr t" by blast
  from storm_tree_new_Inr [OF this] show "3 \<le> length nodes \<and> length nodes \<le> 20 \<and>
      list_all valid_key nodes \<and> distinct nodes \<and> inj_on agg (signer_sets nodes)"
    by (simp add: storm_ok_def list_all_iff)
qed (simp add: storm_tree_new_total list_all_iff)

text \<open>
  The branches of a tree are exactly the aggregate keys of the sorted subsets of its nodes of
  threshold size, each under its own key, as many as there are such subsets; every branch has a
  proof of one sibling per level of at most 17 levels, which passes the check under the tree's root.
\<close>

lemma storm_tree_branches:
  assumes "storm_tree_new sha valid_key agg nodes = Inr t"
  shows "(\<forall>b ps. nodes_for_branch t b = Inr ps \<longleftrightarrow> ps \<in> signer_sets nodes \<and> agg ps = b) \<and>
    length (st_branches t) = (length nodes choose minimum_threshold (length nodes)) \<and>
    (\<forall>ps\<in>signer_sets nodes. \<exists>p. storm_proof (agg ps) t = Inr p \<and>
       verify_branch sha (storm_root t) (agg ps) p \<and>
       length (mp_siblings p) = mt_depth (st_tree t) \<and> mt_depth (st_tree t) \<le> TREE_DEPTH)"
proof -
  note N = storm_tree_new_Inr [OF assms]
  then have ok: "storm_ok sha agg nodes t" and n: "length nodes \<le> 20" by simp_all
  have get: "bt_get (st_branches t) b = Some ps \<longleftrightarrow> ps \<in> signer_sets nodes \<and> agg ps = b" for b ps
    using ok unfolding storm_ok_def signer_sets_def by auto
  have tree: "from_leaves sha (bt_keys (st_branches t)) = Inr (st_tree t)"
    and len: "length (st_branches t) = (length nodes choose minimum_threshold (length nodes))"
    using ok by (simp_all add: storm_ok_def)
  note T = from_leaves_Inr [OF tree]
  have tok: "tree_ok sha (st_tree t)" and leaves: "set (tree_leaves (st_tree t)) = set (bt_keys (st_branches t))"
    and depth: "depth_for (length (bt_keys (st_branches t))) = Some (mt_depth (st_tree t))"
    using T by simp_all
  have "\<not> 2 ^ 17 \<le> (length nodes choose minimum_threshold (length nodes))"
    using branch_limit [of "length nodes"] n by (simp add: MAX_BRANCHES_def)
  then have small: "mt_depth (st_tree t) \<le> TREE_DEPTH"
  proof -
    have "mt_depth (st_tree t) = 1 \<or> 2 ^ (mt_depth (st_tree t) - 1) < length (st_branches t)"
      using depth by (simp add: depth_for_Some bt_keys_def)
    then have "mt_depth (st_tree t) = 1 \<or> \<not> 17 \<le> mt_depth (st_tree t) - 1"
      using \<open>\<not> 2 ^ 17 \<le> _\<close> len depth_mono [of 17 "mt_depth (st_tree t) - 1"] by linarith
    then show ?thesis unfolding TREE_DEPTH_def by linarith
  qed
  have "\<exists>p. storm_proof (agg ps) t = Inr p \<and> verify_branch sha (storm_root t) (agg ps) p \<and>
      length (mp_siblings p) = mt_depth (st_tree t)" if "ps \<in> signer_sets nodes" for ps
  proof -
    have b: "bt_get (st_branches t) (agg ps) = Some ps" using get that by simp
    then have "agg ps \<in> set (tree_leaves (st_tree t))"
      unfolding leaves using bt_get_None_iff [of "st_branches t" "agg ps"] by simp
    from merkle_proof_complete [OF tok this] b show ?thesis
      by (auto simp: storm_proof_def verify_branch_def storm_root_def)
  qed
  then show ?thesis using get len small by (simp add: nodes_for_branch_def)
qed

lemma storm_tree_branches_witness:
  "\<exists>t. storm_tree_new toy_sha (\<lambda>_. True) concat [[3], [1], [2]] = Inr t \<and>
     nodes_for_branch t [1, 3] = Inr [[1], [3]] \<and> length (st_branches t) = 3"
proof -
  let ?nodes = "[[3], [1], [2]] :: bytes list"
  have sets: "signer_sets ?nodes = {[[1], [2]], [[1], [3]], [[2], [3]]}"
    unfolding set_combinations_sort [of ?nodes, simplified, symmetric]
    by (simp add: minimum_threshold_def numeral_2_eq_2)
  obtain t where t: "storm_tree_new toy_sha (\<lambda>_. True) concat ?nodes = Inr t"
    using storm_tree_new_total [of ?nodes "\<lambda>_. True" concat toy_sha] by (auto simp: sets)
  note B = storm_tree_branches [OF t]
  have three: "(3 :: nat) choose minimum_threshold 3 = 3" by (simp add: minimum_threshold_def choose_two)
  have "length ?nodes = 3" by simp
  then have "length (st_branches t) = 3" using B [THEN conjunct2, THEN conjunct1] three by (simp only:)
  moreover have "nodes_for_branch t [1, 3] = Inr [[1], [3]]"
    using B [THEN conjunct1, rule_format, of "[1, 3]" "[[1], [3]]"] by (simp add: sets)
  ultimately show ?thesis using t by blast
qed

text \<open>
  Neither the branches nor the root depend on the order in which the node keys are given.
\<close>

lemma storm_tree_order_irrelevant:
  assumes "mset nodes = mset nodes'" and "list_all valid_key nodes"
  shows "storm_tree_new sha valid_key agg nodes = storm_tree_new sha valid_key agg nodes'"
proof -
  have sort: "sort nodes = sort nodes'" using assms(1) by (intro properties_for_sort) simp_all
  have len: "length nodes = length nodes'" using assms(1) by (rule mset_eq_length)
  have set: "set nodes' = set nodes" using mset_eq_setD [OF assms(1)] by simp
  have inv: "first_invalid valid_key 0 nodes = None" "first_invalid valid_key 0 nodes' = None"
    using assms(2) by (simp_all add: first_invalid_None set list_all_iff)
  show ?thesis unfolding storm_tree_new_def inv sort len ..
qed

lemma storm_tree_order_irrelevant_witness:
  "storm_tree_new (take 32) (\<lambda>_. True) concat [[1], [2], [3], [4]] =
   storm_tree_new (take 32) (\<lambda>_. True) concat [[3], [1], [4], [2]]"
  by (rule storm_tree_order_irrelevant) simp_all

text \<open>
  The threshold is two thirds of the nodes, rounded up. So a third of the nodes, rounded down,
  may be absent and the rest still holds a whole signer set, and any two signer sets share at least
  a third of the nodes, rounded up.
\<close>

lemma signer_set_quorum:
  assumes "distinct nodes" and "ps \<in> signer_sets nodes" and "qs \<in> signer_sets nodes"
    and "absent \<subseteq> set nodes" and "card absent \<le> length nodes div 3"
  shows "3 * minimum_threshold (length nodes) = 2 * length nodes + length nodes mod 3 \<and>
    length nodes \<le> 3 * card (set ps \<inter> set qs) \<and>
    (\<exists>rs\<in>signer_sets nodes. set rs \<inter> absent = {})"
proof (intro conjI)
  show "3 * minimum_threshold (length nodes) = 2 * length nodes + length nodes mod 3"
    by (rule threshold_thirds)
  have cards: "card (set rs) = minimum_threshold (length nodes)" if "rs \<in> signer_sets nodes" for rs
    using that strict_sorted_iff [of rs] by (auto simp: signer_sets_def distinct_card)
  have "card (set ps \<union> set qs) \<le> card (set nodes)"
    using assms(2,3) by (intro card_mono) (auto simp: signer_sets_def)
  then have "2 * minimum_threshold (length nodes) \<le> length nodes + card (set ps \<inter> set qs)"
    using card_Un_Int [of "set ps" "set qs"] cards assms(1-3) by (simp add: distinct_card)
  then show "length nodes \<le> 3 * card (set ps \<inter> set qs)" using threshold_overlap by blast
  define present where "present = sorted_list_of_set (set nodes - absent)"
  define rs where "rs = take (minimum_threshold (length nodes)) present"
  have set: "set present = set nodes - absent" by (simp add: present_def)
  have "length present = length nodes - card absent"
    using assms(1,4) by (simp add: present_def card_Diff_subset finite_subset distinct_card)
  then have "length rs = minimum_threshold (length nodes)"
    using assms(5) by (simp add: rs_def minimum_threshold_def)
  moreover have "sorted_wrt (<) rs" by (simp add: rs_def present_def sorted_wrt_take)
  moreover have "set rs \<subseteq> set nodes - absent" unfolding rs_def set [symmetric] by (rule set_take_subset)
  ultimately have "rs \<in> signer_sets nodes \<and> set rs \<inter> absent = {}" by (auto simp: signer_sets_def)
  then show "\<exists>rs\<in>signer_sets nodes. set rs \<inter> absent = {}" by blast
qed

lemma signer_set_quorum_witness:
  "(4 :: nat) \<le> 3 * card (set [[1 :: u8], [2], [3]] \<inter> set [[2], [3], [4]])"
  using signer_set_quorum [of "[[1], [2], [3], [4]]" "[[1], [2], [3]]" "[[2], [3], [4]]" "{}"]
  by (simp add: signer_sets_def minimum_threshold_def)

end
