(* ===== verification/Signing.thy ===== *)
theory Signing
  imports Node_Message Storm_Tree
begin

text \<open>
  Distributed signing (\<open>high_storm/signing.rs\<close>): a node's signing sessions, each over one branch of
  its storm tree, from the exchange of public nonces over the partial signatures to the aggregate.
  The MuSig2 operations of the secp256k1 library are the fields of \<open>musig_env\<close>; random session
  secrets and the readings of the clock are arguments. A panic of the code is the error \<open>Panic\<close>.
\<close>

record musig_env =
  mu_sha :: "bytes \<Rightarrow> bytes"
  mu_valid_key :: "bytes \<Rightarrow> bool"
  mu_node_key :: "bytes \<Rightarrow> bytes option"
  mu_aggregate_key :: "bytes list \<Rightarrow> bytes"
  mu_new_nonce_pair :: "bytes \<Rightarrow> bytes list \<Rightarrow> bytes \<Rightarrow> bytes \<times> bytes"
  mu_valid_nonce :: "bytes \<Rightarrow> bool"
  mu_valid_partial :: "bytes \<Rightarrow> bool"
  mu_partial_sign :: "bytes list \<times> bytes list \<times> bytes \<Rightarrow> bytes \<Rightarrow> bytes"
  mu_partial_verify :: "bytes list \<times> bytes list \<times> bytes \<Rightarrow> bytes \<Rightarrow> bytes \<Rightarrow> bytes \<Rightarrow> bool"
  mu_aggregate_partials :: "bytes list \<times> bytes list \<times> bytes \<Rightarrow> bytes list \<Rightarrow> bytes"
  mu_verify :: "bytes \<Rightarrow> bytes \<Rightarrow> bytes \<Rightarrow> bool"

datatype signing_error =
    TooFewMembers
  | NoAvailableBranch
  | SigningFailed
  | InvalidMessage string
  | InvalidPartialSignature bytes nat
  | UnauthorizedMessage string
  | ChainAnchorMismatch
  | StormTreeFailure storm_tree_error
  | Panic

text \<open>One minute in nanoseconds.\<close>

definition SIGNING_SESSION_TIMEOUT :: nat where "SIGNING_SESSION_TIMEOUT = 60 * 10 ^ 9"

record signer_contribution =
  sc_nonces :: "bytes list option"
  sc_partials :: "bytes list option"
  sc_verified :: bool

record signing_request =
  rq_kind :: node_message_kind
  rq_branch :: bytes
  rq_message_hashes :: "bytes list"

record signing_session =
  sx_requestor :: bytes
  sx_request :: signing_request
  sx_signers :: "bytes list"
  sx_contributions :: "(bytes, signer_contribution) btree"
  sx_secret_nonces :: "bytes list option"
  sx_completion :: bool
  sx_created_at :: nat

text \<open>
  The last two fields record what leaves the state: every secret nonce a partial signature was made
  with, and what was sent to the waiter of each session, the signatures or the session's expiry.
\<close>

record signing_state =
  sg_local_node :: bytes
  sg_member_keys :: "(bytes, bytes) btree"
  sg_tree :: "storm_tree option"
  sg_sessions :: "(bytes, signing_session) btree"
  sg_used_nonces :: "bytes list"
  sg_delivered :: "(bytes \<times> signing_request \<times> bytes list option) list"

datatype signing_message =
    NoncesMessage bytes signing_nonces_message
  | PartialsMessage bytes partial_signatures_message

subsection \<open>Keys\<close>

definition node_key :: "musig_env \<Rightarrow> bytes \<Rightarrow> signing_error + bytes" where
  "node_key env compressed = ok_or (InvalidMessage ''invalid member public key'') (mu_node_key env compressed)"

definition peer_keys :: "musig_env \<Rightarrow> peer list \<Rightarrow> signing_error + (bytes, bytes) btree" where
  "peer_keys env peers =
     bind_res (map_res (\<lambda>peer. bind_res (node_key env (pe_public_key peer))
         (\<lambda>key. Inr (key, pe_public_key peer))) peers)
       (\<lambda>entries. Inr (bt_of_list entries))"

definition transport_key :: "signing_state \<Rightarrow> bytes \<Rightarrow> signing_error + bytes" where
  "transport_key st node =
     ok_or (InvalidMessage ''signer is not a configured member'') (bt_get (sg_member_keys st) node)"

definition recipient_transport_keys ::
  "signing_state \<Rightarrow> bytes list \<Rightarrow> bytes \<Rightarrow> signing_error + bytes list" where
  "recipient_transport_keys st signers requestor =
     map_res (transport_key st)
       (filter (\<lambda>node. node \<noteq> sg_local_node st) (dedup (sort (requestor # signers))))"

definition key_agg_cache :: "musig_env \<Rightarrow> bytes list \<Rightarrow> signing_error + bytes list" where
  "key_agg_cache env signers =
     map_res (\<lambda>key. if mu_valid_key env key then Inr key
                    else Inl (InvalidMessage ''invalid signer public key'')) signers"

definition refresh_members ::
  "musig_env \<Rightarrow> peer list \<Rightarrow> signing_state \<Rightarrow> signing_state \<times> (signing_error + unit)" where
  "refresh_members env peers st =
     (case peer_keys env peers of
        Inl e \<Rightarrow> (st, Inl e)
      | Inr keys \<Rightarrow>
          if keys = sg_member_keys st then (st, Inr ())
          else if 3 \<le> length keys
          then (case storm_tree_new (mu_sha env) (mu_valid_key env) (mu_aggregate_key env) (bt_keys keys) of
                  Inl e \<Rightarrow> (st, Inl (StormTreeFailure e))
                | Inr tree \<Rightarrow> (st\<lparr>sg_tree := Some tree, sg_member_keys := keys\<rparr>, Inr ()))
          else (st\<lparr>sg_tree := None, sg_member_keys := keys\<rparr>, Inr ()))"

definition signing_state_new :: "musig_env \<Rightarrow> bytes \<Rightarrow> peer list \<Rightarrow> signing_state" where
  "signing_state_new env local_node peers =
     fst (refresh_members env peers
       \<lparr>sg_local_node = local_node, sg_member_keys = [], sg_tree = None, sg_sessions = [],
        sg_used_nonces = [], sg_delivered = []\<rparr>)"

definition select_branch ::
  "musig_env \<Rightarrow> peer list \<Rightarrow> bytes set \<Rightarrow> bytes set \<Rightarrow> signing_state \<Rightarrow> bytes option" where
  "select_branch env peers connected attempted st =
     (case sg_tree st of None \<Rightarrow> None
      | Some tree \<Rightarrow>
          let active = set (List.map_filter (\<lambda>peer. mu_node_key env (pe_public_key peer))
                (filter (\<lambda>peer. pe_status peer = Controlled \<or>
                   pe_status peer = PeerActive \<and> pe_public_key peer \<in> connected) peers))
          in find (\<lambda>branch. branch \<notin> attempted \<and>
               (case nodes_for_branch tree branch of Inl _ \<Rightarrow> False
                | Inr nodes \<Rightarrow> sg_local_node st \<in> set nodes \<and> set nodes \<subseteq> active))
             (bt_keys (st_branches tree)))"

subsection \<open>Sessions\<close>

definition put_session :: "bytes \<Rightarrow> signing_session \<Rightarrow> signing_state \<Rightarrow> signing_state" where
  "put_session request_hash session st = st\<lparr>sg_sessions := bt_insert request_hash session (sg_sessions st)\<rparr>"

definition modify_contribution ::
  "bytes \<Rightarrow> (signer_contribution \<Rightarrow> signer_contribution) \<Rightarrow> signing_session \<Rightarrow> signing_session" where
  "modify_contribution signer f session =
     (case bt_get (sx_contributions session) signer of None \<Rightarrow> session
      | Some c \<Rightarrow> session\<lparr>sx_contributions := bt_insert signer (f c) (sx_contributions session)\<rparr>)"

definition start_session ::
  "musig_env \<Rightarrow> (nat \<Rightarrow> bytes) \<Rightarrow> nat \<Rightarrow> bytes \<Rightarrow> bytes \<Rightarrow> signing_request \<Rightarrow> bool \<Rightarrow> signing_state
     \<Rightarrow> signing_state \<times> (signing_error + signing_message option)" where
  "start_session env rand now request_hash requestor request completion st =
     (if bt_get (sg_sessions st) request_hash \<noteq> None then (st, Inr None)
      else case bind_res (ok_or TooFewMembers (sg_tree st)) (\<lambda>tree.
             case nodes_for_branch tree (rq_branch request) of
               Inl e \<Rightarrow> Inl (StormTreeFailure e) | Inr nodes \<Rightarrow> Inr nodes) of
        Inl e \<Rightarrow> (st, Inl e)
      | Inr signers \<Rightarrow>
          let contributions = bt_of_list (map (\<lambda>signer.
                (signer, \<lparr>sc_nonces = None, sc_partials = None, sc_verified = False\<rparr>)) signers);
              session = \<lparr>sx_requestor = requestor, sx_request = request, sx_signers = signers,
                sx_contributions = contributions, sx_secret_nonces = None,
                sx_completion = completion, sx_created_at = now\<rparr>
          in if sg_local_node st \<in> set signers
             then (case key_agg_cache env signers of
                     Inl e \<Rightarrow> (st, Inl e)
                   | Inr cache \<Rightarrow>
                       let pairs = map (\<lambda>(index, message_hash).
                             mu_new_nonce_pair env (rand index) cache message_hash)
                             (enumerate 0 (rq_message_hashes request));
                           public_nonces = map snd pairs
                       in (put_session request_hash
                             (modify_contribution (sg_local_node st) (\<lambda>c. c\<lparr>sc_nonces := Some public_nonces\<rparr>)
                               (session\<lparr>sx_secret_nonces := Some (map fst pairs)\<rparr>)) st,
                           Inr (Some (NoncesMessage request_hash
                             \<lparr>sn_signer = sg_local_node st, sn_nonces = public_nonces\<rparr>))))
             else (put_session request_hash session st, Inr None))"

definition contribution_of :: "signing_session \<Rightarrow> bytes \<Rightarrow> signing_error + signer_contribution" where
  "contribution_of session signer = ok_or Panic (bt_get (sx_contributions session) signer)"

definition musig_session ::
  "signing_session \<Rightarrow> bytes list \<Rightarrow> nat \<Rightarrow> bytes \<Rightarrow> signing_error + bytes list \<times> bytes list \<times> bytes" where
  "musig_session session cache index message_hash =
     bind_res (map_res (\<lambda>signer. bind_res (contribution_of session signer) (\<lambda>c.
         case sc_nonces c of None \<Rightarrow> Inl (InvalidMessage ''missing signer nonce'')
         | Some nonces \<Rightarrow>
             if index < length nonces then Inr (nonces ! index)
             else Inl (InvalidMessage ''missing signer nonce'')))
       (sx_signers session))
     (\<lambda>nonces. Inr (cache, nonces, message_hash))"

fun verify_partials_from ::
  "musig_env \<Rightarrow> signing_session \<Rightarrow> bytes list \<Rightarrow> bytes \<Rightarrow> bytes list \<Rightarrow> nat \<Rightarrow> (bytes \<times> bytes) list
     \<Rightarrow> signing_error + unit" where
  "verify_partials_from env session cache signer nonces index [] = Inr ()"
| "verify_partials_from env session cache signer nonces index ((partial, message_hash) # rest) =
     bind_res (musig_session session cache index message_hash) (\<lambda>musig.
       if length nonces \<le> index then Inl Panic
       else if mu_partial_verify env musig partial (nonces ! index) signer
       then verify_partials_from env session cache signer nonces (Suc index) rest
       else Inl (InvalidPartialSignature signer index))"

definition verify_signer_partials ::
  "musig_env \<Rightarrow> signing_session \<Rightarrow> bytes list \<Rightarrow> bytes \<Rightarrow> bytes list \<Rightarrow> signing_error + unit" where
  "verify_signer_partials env session cache signer partials =
     (if \<not> mu_valid_key env signer then Inl (InvalidMessage ''invalid signer public key'')
      else bind_res (contribution_of session signer) (\<lambda>c.
        bind_res (ok_or (InvalidMessage ''missing signer nonce'') (sc_nonces c)) (\<lambda>nonces.
          verify_partials_from env session cache signer nonces 0
            (zip partials (rq_message_hashes (sx_request session))))))"

definition all_nonces :: "signing_session \<Rightarrow> bool" where
  "all_nonces session \<longleftrightarrow> (\<forall>c\<in>set (bt_values (sx_contributions session)). sc_nonces c \<noteq> None)"

definition all_partials :: "signing_session \<Rightarrow> bool" where
  "all_partials session \<longleftrightarrow> (\<forall>c\<in>set (bt_values (sx_contributions session)). sc_partials c \<noteq> None)"

text \<open>The verification of what arrived before all nonces did; a bad contribution is dropped.\<close>

fun verify_pending ::
  "musig_env \<Rightarrow> bytes list \<Rightarrow> bytes list \<Rightarrow> signing_session \<Rightarrow> signing_session \<times> (signing_error + unit)" where
  "verify_pending env cache [] session = (session, Inr ())"
| "verify_pending env cache (signer # signers) session =
     (case contribution_of session signer of
        Inl e \<Rightarrow> (session, Inl e)
      | Inr c \<Rightarrow>
          if sc_verified c then verify_pending env cache signers session
          else case sc_partials c of
            None \<Rightarrow> verify_pending env cache signers session
          | Some partials \<Rightarrow>
              (case verify_signer_partials env session cache signer partials of
                 Inl e \<Rightarrow> (modify_contribution signer (\<lambda>c. c\<lparr>sc_partials := None\<rparr>) session, Inl e)
               | Inr _ \<Rightarrow> verify_pending env cache signers
                   (modify_contribution signer (\<lambda>c. c\<lparr>sc_verified := True\<rparr>) session)))"

definition aggregate_signature ::
  "musig_env \<Rightarrow> signing_session \<Rightarrow> bytes list \<Rightarrow> nat \<times> bytes \<Rightarrow> signing_error + bytes" where
  "aggregate_signature env session cache = (\<lambda>(index, message_hash).
     bind_res (musig_session session cache index message_hash) (\<lambda>musig.
     bind_res (map_res (\<lambda>signer. bind_res (contribution_of session signer) (\<lambda>c.
         case sc_partials c of None \<Rightarrow> Inl Panic
         | Some partials \<Rightarrow> if index < length partials then Inr (partials ! index) else Inl Panic))
       (sx_signers session)) (\<lambda>partials.
       let signature = mu_aggregate_partials env musig partials in
       if mu_verify env (mu_aggregate_key env cache) message_hash signature then Inr signature
       else Inl (InvalidMessage ''aggregate signature failed verification''))))"

definition deliver :: "bytes \<Rightarrow> signing_session \<Rightarrow> bytes list option \<Rightarrow> signing_state \<Rightarrow> signing_state" where
  "deliver request_hash session result st =
     (if sx_completion session
      then st\<lparr>sg_delivered := sg_delivered st @ [(request_hash, sx_request session, result)]\<rparr> else st)"

definition complete_session ::
  "musig_env \<Rightarrow> bytes \<Rightarrow> signing_state \<Rightarrow> signing_state \<times> (signing_error + unit)" where
  "complete_session env request_hash st =
     (case bt_get (sg_sessions st) request_hash of
        None \<Rightarrow> (st, Inr ())
      | Some session \<Rightarrow>
          if sx_requestor session \<noteq> sg_local_node st \<or> \<not> all_nonces session then (st, Inr ())
          else (case key_agg_cache env (sx_signers session) of
            Inl e \<Rightarrow> (st, Inl e)
          | Inr cache \<Rightarrow>
              (case verify_pending env cache (sx_signers session) session of
                 (session', Inl e) \<Rightarrow> (put_session request_hash session' st, Inl e)
               | (session', Inr _) \<Rightarrow>
                   let st' = put_session request_hash session' st in
                   if \<not> all_partials session' then (st', Inr ())
                   else (case map_res (aggregate_signature env session' cache)
                             (enumerate 0 (rq_message_hashes (sx_request session'))) of
                           Inl e \<Rightarrow> (st', Inl e)
                         | Inr signatures \<Rightarrow>
                             (deliver request_hash session' (Some signatures)
                                (st'\<lparr>sg_sessions := bt_remove request_hash (sg_sessions st')\<rparr>), Inr ())))))"

text \<open>The partial signatures over every message, in order, each with its own secret nonce.\<close>

definition sign_partials ::
  "musig_env \<Rightarrow> signing_session \<Rightarrow> bytes list \<Rightarrow> bytes list \<Rightarrow> signing_error + bytes list" where
  "sign_partials env session cache secret_nonces =
     map_res (\<lambda>(index, message_hash, secret_nonce).
         bind_res (musig_session session cache index message_hash)
           (\<lambda>musig. Inr (mu_partial_sign env musig secret_nonce)))
       (enumerate 0 (zip (rq_message_hashes (sx_request session)) secret_nonces))"

text \<open>
  What a node does once it has every nonce: its secret nonces are taken out of the session before
  anything else, so that whatever fails later they are gone.
\<close>

definition sign_with_taken_nonces ::
  "musig_env \<Rightarrow> bytes \<Rightarrow> signing_session \<Rightarrow> bytes list \<Rightarrow> bytes list \<Rightarrow> signing_state
     \<Rightarrow> signing_state \<times> (signing_error + (signing_message \<times> bytes list) option)" where
  "sign_with_taken_nonces env request_hash session cache secret_nonces st =
     (let taken = session\<lparr>sx_secret_nonces := None\<rparr>;
          st1 = put_session request_hash taken
                  (st\<lparr>sg_used_nonces := sg_used_nonces st @ secret_nonces\<rparr>)
      in case sign_partials env taken cache secret_nonces of
           Inl e \<Rightarrow> (st1, Inl e)
         | Inr partials \<Rightarrow>
             if bt_get (sx_contributions taken) (sg_local_node st) = None then (st1, Inl Panic)
             else
               let signed = modify_contribution (sg_local_node st) (\<lambda>c. c\<lparr>sc_partials := Some partials\<rparr>) taken;
                   st2 = put_session request_hash signed st1
               in case recipient_transport_keys st2 (sx_signers signed) (sx_requestor signed) of
                    Inl e \<Rightarrow> (st2, Inl e)
                  | Inr recipients \<Rightarrow>
                      (case complete_session env request_hash st2 of
                         (st3, Inl e) \<Rightarrow> (st3, Inl e)
                       | (st3, Inr _) \<Rightarrow>
                           (st3, Inr (Some (PartialsMessage request_hash
                              \<lparr>pm_signer = sg_local_node st, pm_partial_signatures = partials\<rparr>, recipients)))))"

definition accept_nonces ::
  "musig_env \<Rightarrow> bytes \<Rightarrow> bytes \<Rightarrow> signing_nonces_message \<Rightarrow> signing_state
     \<Rightarrow> signing_state \<times> (signing_error + (signing_message \<times> bytes list) option)" where
  "accept_nonces env request_hash sender message st =
     (if sender \<noteq> sn_signer message
      then (st, Inl (InvalidMessage ''nonce contributor does not match authenticated sender''))
      else case bt_get (sg_sessions st) request_hash of
        None \<Rightarrow> (st, Inr None)
      | Some session \<Rightarrow>
          if length (sn_nonces message) \<noteq> length (rq_message_hashes (sx_request session))
          then (st, Inl (InvalidMessage ''wrong nonce count''))
          else case bt_get (sx_contributions session) sender of
            None \<Rightarrow> (st, Inl (InvalidMessage ''nonce from a non-signer''))
          | Some c \<Rightarrow>
              if sc_nonces c \<noteq> None then (st, Inr None)
              else case map_res (\<lambda>nonce.
                     if length nonce \<noteq> 66 then Inl (InvalidMessage ''invalid public nonce size'')
                     else if mu_valid_nonce env nonce then Inr nonce
                     else Inl (InvalidMessage ''invalid public nonce'')) (sn_nonces message) of
                Inl e \<Rightarrow> (st, Inl e)
              | Inr nonces \<Rightarrow>
                  let session1 = modify_contribution sender (\<lambda>c. c\<lparr>sc_nonces := Some nonces\<rparr>) session;
                      st1 = put_session request_hash session1 st
                  in case (if sg_local_node st \<in> set (sx_signers session1) \<and> all_nonces session1
                           then sx_secret_nonces session1 else None) of
                       None \<Rightarrow>
                         (case complete_session env request_hash st1 of
                            (st2, Inl e) \<Rightarrow> (st2, Inl e)
                          | (st2, Inr _) \<Rightarrow> (st2, Inr None))
                     | Some secret_nonces \<Rightarrow>
                         (case key_agg_cache env (sx_signers session1) of
                            Inl e \<Rightarrow> (st1, Inl e)
                          | Inr cache \<Rightarrow>
                              sign_with_taken_nonces env request_hash session1 cache secret_nonces st1))"

definition accept_partial_signatures ::
  "musig_env \<Rightarrow> bytes \<Rightarrow> bytes \<Rightarrow> partial_signatures_message \<Rightarrow> signing_state
     \<Rightarrow> signing_state \<times> (signing_error + unit)" where
  "accept_partial_signatures env request_hash sender message st =
     (if sender \<noteq> pm_signer message
      then (st, Inl (InvalidMessage ''partial-signature contributor does not match authenticated sender''))
      else case bt_get (sg_sessions st) request_hash of
        None \<Rightarrow> (st, Inr ())
      | Some session \<Rightarrow>
          if length (pm_partial_signatures message) \<noteq> length (rq_message_hashes (sx_request session))
          then (st, Inl (InvalidMessage ''wrong partial signature count''))
          else case bt_get (sx_contributions session) sender of
            None \<Rightarrow> (st, Inl (InvalidMessage ''signature from a non-signer''))
          | Some c \<Rightarrow>
              if sc_partials c \<noteq> None then (st, Inr ())
              else case bind_res (map_res (\<lambda>(index, signature).
                       if mu_valid_partial env signature then Inr signature
                       else Inl (InvalidPartialSignature sender index))
                       (enumerate 0 (pm_partial_signatures message)))
                     (\<lambda>partials.
                       if all_nonces session
                       then bind_res (key_agg_cache env (sx_signers session)) (\<lambda>cache.
                            bind_res (verify_signer_partials env session cache sender partials)
                              (\<lambda>_. Inr partials))
                       else Inr partials) of
                Inl e \<Rightarrow> (st, Inl e)
              | Inr partials \<Rightarrow>
                  complete_session env request_hash
                    (put_session request_hash
                       (modify_contribution sender
                          (\<lambda>c. c\<lparr>sc_partials := Some partials, sc_verified := all_nonces session\<rparr>) session) st))"

definition session_expired :: "nat \<Rightarrow> signing_session \<Rightarrow> bool" where
  "session_expired now session \<longleftrightarrow> SIGNING_SESSION_TIMEOUT \<le> now - sx_created_at session"

definition expire_session :: "bytes \<Rightarrow> signing_state \<Rightarrow> signing_state" where
  "expire_session request_hash st =
     (case bt_get (sg_sessions st) request_hash of None \<Rightarrow> st
      | Some session \<Rightarrow>
          deliver request_hash session None
            (st\<lparr>sg_sessions := bt_remove request_hash (sg_sessions st)\<rparr>))"

definition remove_expired_sessions :: "nat \<Rightarrow> signing_state \<Rightarrow> signing_state" where
  "remove_expired_sessions now st =
     fold expire_session
       (map fst (filter (\<lambda>(request_hash, session). session_expired now session) (sg_sessions st))) st"

text \<open>The signers counted as missing, with the stage they are missing at.\<close>

definition missing_contributions :: "signing_state \<Rightarrow> signing_session \<Rightarrow> (string \<times> bytes list) option" where
  "missing_contributions st session =
     (if sx_requestor session \<noteq> sg_local_node st then None
      else
        let missing = (\<lambda>stage. filter (\<lambda>signer. case bt_get (sx_contributions session) signer of
              None \<Rightarrow> True | Some c \<Rightarrow> stage c)
              (filter (\<lambda>signer. signer \<noteq> sg_local_node st) (sx_signers session)));
            nonces = missing (\<lambda>c. sc_nonces c = None)
        in if nonces \<noteq> [] then Some (''nonce'', nonces)
           else Some (''partial'', missing (\<lambda>c. sc_partials c = None)))"

definition remove_attempt :: "bytes \<Rightarrow> signing_state \<Rightarrow> signing_state" where
  "remove_attempt request_hash st = st\<lparr>sg_sessions := bt_remove request_hash (sg_sessions st)\<rparr>"

subsection \<open>Requests and handlers\<close>

definition execute_message_hashes :: "bytes \<Rightarrow> bytes option \<Rightarrow> bytes list" where
  "execute_message_hashes signing_hash price_hash =
     signing_hash # (case price_hash of None \<Rightarrow> [] | Some h \<Rightarrow> [h])"

definition require_sender :: "bytes \<Rightarrow> bytes \<Rightarrow> string \<Rightarrow> signing_error + unit" where
  "require_sender expected sender role =
     require (sender = expected) (UnauthorizedMessage (''only '' @ role @ '' may initiate signing''))"

definition session_recipients :: "bytes \<Rightarrow> signing_state \<Rightarrow> signing_error + bytes list" where
  "session_recipients request_hash st =
     bind_res (ok_or (InvalidMessage ''signing session disappeared'') (bt_get (sg_sessions st) request_hash))
       (\<lambda>session. recipient_transport_keys st (sx_signers session) (sx_requestor session))"

text \<open>
  One attempt of \<open>sign_per_branch\<close> up to its first messages: the branch is chosen under one lock and
  the session started under the next, on the tree of that moment.
\<close>

definition choose_branch ::
  "musig_env \<Rightarrow> nat \<Rightarrow> peer list \<Rightarrow> bytes set \<Rightarrow> bytes set \<Rightarrow> signing_state
     \<Rightarrow> signing_state \<times> (signing_error + bytes option)" where
  "choose_branch env now peers connected attempted st =
     (case refresh_members env peers st of
        (st1, Inl e) \<Rightarrow> (st1, Inl e)
      | (st1, Inr _) \<Rightarrow>
          let st2 = remove_expired_sessions now st1
          in (st2, Inr (select_branch env peers connected attempted st2)))"

definition start_attempt ::
  "musig_env \<Rightarrow> (nat \<Rightarrow> bytes) \<Rightarrow> nat \<Rightarrow> bytes \<Rightarrow> signing_request \<Rightarrow> signing_state
     \<Rightarrow> signing_state \<times> (signing_error + signing_message option)" where
  "start_attempt env rand now request_hash request st =
     start_session env rand now request_hash (sg_local_node st) request True st"

text \<open>The common part of the handlers of remote requests.\<close>

definition start_remote ::
  "musig_env \<Rightarrow> (nat \<Rightarrow> bytes) \<Rightarrow> nat \<Rightarrow> peer list \<Rightarrow> bytes \<Rightarrow> bytes \<Rightarrow> signing_request \<Rightarrow> signing_state
     \<Rightarrow> signing_state \<times> (signing_error + (signing_message \<times> bytes list) option)" where
  "start_remote env rand now peers sender request_hash request st =
     (case node_key env sender of
        Inl e \<Rightarrow> (st, Inl e)
      | Inr requestor \<Rightarrow>
          (case refresh_members env peers st of
             (st1, Inl e) \<Rightarrow> (st1, Inl e)
           | (st1, Inr _) \<Rightarrow>
               (case start_session env rand now request_hash requestor request False
                       (remove_expired_sessions now st1) of
                  (st2, Inl e) \<Rightarrow> (st2, Inl e)
                | (st2, Inr None) \<Rightarrow> (st2, Inr None)
                | (st2, Inr (Some outbound)) \<Rightarrow>
                    (case session_recipients request_hash st2 of
                       Inl e \<Rightarrow> (st2, Inl e)
                     | Inr recipients \<Rightarrow> (st2, Inr (Some (outbound, recipients)))))))"

definition handle_execute_user_requests where
  "handle_execute_user_requests env rand now peers coordinator sender request_hash price_hash request st =
     (case require_sender coordinator sender ''coordinator'' of
        Inl e \<Rightarrow> (st, Inl e)
      | Inr _ \<Rightarrow>
          if eu_tx request = [] \<or> eu_external_requests request = []
          then (st, Inl (InvalidMessage ''invalid user request issuance transaction''))
          else start_remote env rand now peers sender request_hash
                 \<lparr>rq_kind = ExecuteUserRequests, rq_branch = eu_branch request,
                  rq_message_hashes = execute_message_hashes (eu_signing_hash request) price_hash\<rparr> st)"

definition handle_burn_expired_utxos where
  "handle_burn_expired_utxos env rand now peers expected_leader sender request_hash request st =
     (case require_sender expected_leader sender ''network leader'' of
        Inl e \<Rightarrow> (st, Inl e)
      | Inr _ \<Rightarrow>
          if be_tx request = [] then (st, Inl (InvalidMessage ''invalid Tick burn transaction''))
          else start_remote env rand now peers sender request_hash
                 \<lparr>rq_kind = BurnExpiredUtxos, rq_branch = be_branch request,
                  rq_message_hashes = [be_signing_hash request]\<rparr> st)"

definition handle_exchange_rewards where
  "handle_exchange_rewards env rand now peers expected_leader sender request_hash request st =
     (case require_sender expected_leader sender ''network leader'' of
        Inl e \<Rightarrow> (st, Inl e)
      | Inr _ \<Rightarrow>
          if ex_tx request = [] then (st, Inl (InvalidMessage ''invalid Droplets exchange transaction''))
          else start_remote env rand now peers sender request_hash
                 \<lparr>rq_kind = ExchangeRewards, rq_branch = ex_branch request,
                  rq_message_hashes = [ex_signing_hash request]\<rparr> st)"

definition handle_execute_voting_request where
  "handle_execute_voting_request env rand now peers sender request_hash request st =
     (if ev_tx request = [] \<or> ev_final_tx request \<noteq> None
      then (st, Inl (InvalidMessage ''invalid voting execution transaction''))
      else start_remote env rand now peers sender request_hash
             \<lparr>rq_kind = ExecuteVoting, rq_branch = ev_branch request,
              rq_message_hashes = ev_signing_hashes request\<rparr> st)"

definition handle_renew_storm_utxos where
  "handle_renew_storm_utxos env rand now peers sender request_hash request st =
     (if rn_tx request = [] \<or> rn_signing_hashes request = [] \<or> rn_final_tx request \<noteq> None
      then (st, Inl (InvalidMessage ''invalid Storm Eye renewal transaction''))
      else start_remote env rand now peers sender request_hash
             \<lparr>rq_kind = RenewStormUtxos, rq_branch = rn_branch request,
              rq_message_hashes = rn_signing_hashes request\<rparr> st)"

definition handle_signing_nonces where
  "handle_signing_nonces env linked_to sender payload st =
     (case ok_or (InvalidMessage ''signing contribution is not linked'') linked_to of
        Inl e \<Rightarrow> (st, Inl e)
      | Inr request_hash \<Rightarrow>
          (case node_key env sender of
             Inl e \<Rightarrow> (st, Inl e)
           | Inr node \<Rightarrow>
               if bt_get (sg_sessions st) request_hash = None then (st, Inr None)
               else accept_nonces env request_hash node payload st))"

definition handle_partial_signatures where
  "handle_partial_signatures env linked_to sender payload st =
     (case ok_or (InvalidMessage ''signing contribution is not linked'') linked_to of
        Inl e \<Rightarrow> (st, Inl e)
      | Inr request_hash \<Rightarrow>
          (case node_key env sender of
             Inl e \<Rightarrow> (st, Inl e)
           | Inr node \<Rightarrow>
               if bt_get (sg_sessions st) request_hash = None then (st, Inr ())
               else accept_partial_signatures env request_hash node payload st))"

subsection \<open>The requesting side\<close>

definition storm_tree_root :: "signing_state \<Rightarrow> signing_error + bytes" where
  "storm_tree_root st = ok_or TooFewMembers (map_option storm_root (sg_tree st))"

definition storm_tree_proof :: "bytes \<Rightarrow> signing_state \<Rightarrow> signing_error + merkle_proof" where
  "storm_tree_proof branch st =
     bind_res (ok_or TooFewMembers (sg_tree st)) (\<lambda>tree.
       case storm_proof branch tree of Inl e \<Rightarrow> Inl (StormTreeFailure e) | Inr p \<Rightarrow> Inr p)"

text \<open>
  What one attempt over a branch sends to its signers, and the hashes the attempt has signed. The
  round of user requests builds its transaction for the branch.
\<close>

definition sign_execute_user_requests ::
  "(bytes \<Rightarrow> signing_error + bytes \<times> bytes) \<Rightarrow> bytes option \<Rightarrow> external_request list \<Rightarrow> chain_tip \<Rightarrow> bytes
     \<Rightarrow> signing_error + execute_user_requests \<times> bytes list" where
  "sign_execute_user_requests round price_hash external_requests tip branch =
     (if external_requests = []
      then Inl (InvalidMessage ''issuance transaction has no external requests'')
      else bind_res (round branch) (\<lambda>(tx, signing_hash).
        if tx = [] then Inl (InvalidMessage ''issuance transaction cannot be empty'')
        else Inr (\<lparr>eu_tx = tx, eu_signing_hash = signing_hash, eu_branch = branch,
                   eu_external_requests = external_requests, eu_chain_tip = Some tip\<rparr>,
                  execute_message_hashes signing_hash price_hash)))"

definition sign_burn_expired_utxos ::
  "bytes \<Rightarrow> bytes \<Rightarrow> u64 \<Rightarrow> chain_tip \<Rightarrow> bytes \<Rightarrow> signing_error + burn_expired_utxos \<times> bytes list" where
  "sign_burn_expired_utxos tx signing_hash height tip branch =
     (if tx = [] then Inl (InvalidMessage ''burn transaction cannot be empty'')
      else Inr (\<lparr>be_tx = tx, be_signing_hash = signing_hash, be_branch = branch,
                 be_block_height = height, be_chain_tip = Some tip\<rparr>, [signing_hash]))"

definition sign_exchange_rewards ::
  "bytes \<Rightarrow> bytes \<Rightarrow> u64 \<Rightarrow> chain_tip \<Rightarrow> bytes \<Rightarrow> signing_error + exchange_rewards \<times> bytes list" where
  "sign_exchange_rewards tx signing_hash height tip branch =
     (if tx = [] then Inl (InvalidMessage ''Droplets exchange transaction cannot be empty'')
      else Inr (\<lparr>ex_tx = tx, ex_final_tx = None, ex_signing_hash = signing_hash, ex_branch = branch,
                 ex_block_height = height, ex_chain_tip = Some tip\<rparr>, [signing_hash]))"

definition sign_execute_voting_request ::
  "bytes \<Rightarrow> bytes list \<Rightarrow> bytes \<Rightarrow> chain_tip \<Rightarrow> bytes \<Rightarrow> execute_voting_request \<times> bytes list" where
  "sign_execute_voting_request tx signing_hashes proposer tip branch =
     (\<lparr>ev_tx = tx, ev_final_tx = None, ev_signing_hashes = signing_hashes, ev_branch = branch,
       ev_proposer = proposer, ev_chain_tip = Some tip\<rparr>, signing_hashes)"

definition sign_renew_storm_utxos :: "renew_storm_utxos \<Rightarrow> bytes \<Rightarrow> renew_storm_utxos \<times> bytes list" where
  "sign_renew_storm_utxos request branch = (request\<lparr>rn_branch := branch\<rparr>, rn_signing_hashes request)"

end
