(* ===== verification/Signing_Sessions.thy ===== *)
theory Signing_Sessions
  imports Signing
begin

text \<open>
  What holds of signing sessions in every state a node can reach: the shape of a session, the single
  use of its secret nonces, the signatures handed to the waiting request, and that a session that has
  all it needs is completed.
\<close>

named_theorems session_frame \<open>fields of a session or state an operation leaves alone\<close>

subsection \<open>The shape of a session\<close>

definition message_count :: "signing_session \<Rightarrow> nat" where
  "message_count s = length (rq_message_hashes (sx_request s))"

definition contribution_ok :: "musig_env \<Rightarrow> signing_session \<Rightarrow> bytes \<Rightarrow> signer_contribution \<Rightarrow> bool" where
  "contribution_ok env s signer c \<longleftrightarrow>
     (\<forall>ns. sc_nonces c = Some ns \<longrightarrow> length ns = message_count s) \<and>
     (\<forall>ps. sc_partials c = Some ps \<longrightarrow> length ps = message_count s) \<and>
     (sc_verified c \<longrightarrow> all_nonces s \<and>
        (\<exists>ps. sc_partials c = Some ps \<and> verify_signer_partials env s (sx_signers s) signer ps = Inr ()))"

definition session_ok :: "musig_env \<Rightarrow> bytes \<Rightarrow> signing_session \<Rightarrow> bool" where
  "session_ok env local s \<longleftrightarrow>
     sorted_wrt (<) (sx_signers s) \<and> (\<forall>x\<in>set (sx_signers s). mu_valid_key env x) \<and>
     mu_aggregate_key env (sx_signers s) = rq_branch (sx_request s) \<and>
     bt_wf (sx_contributions s) \<and> set (bt_keys (sx_contributions s)) = set (sx_signers s) \<and>
     (\<forall>signer c. bt_get (sx_contributions s) signer = Some c \<longrightarrow> contribution_ok env s signer c) \<and>
     (\<forall>ns. sx_secret_nonces s = Some ns \<longrightarrow> local \<in> set (sx_signers s) \<and> length ns = message_count s) \<and>
     (sx_completion s \<longrightarrow> sx_requestor s = local)"

definition tree_built :: "musig_env \<Rightarrow> storm_tree option \<Rightarrow> bool" where
  "tree_built env t = (case t of None \<Rightarrow> True
     | Some tree \<Rightarrow> \<exists>nodes. storm_tree_new (mu_sha env) (mu_valid_key env) (mu_aggregate_key env) nodes = Inr tree)"

definition signing_ok :: "musig_env \<Rightarrow> signing_state \<Rightarrow> bool" where
  "signing_ok env st \<longleftrightarrow> tree_built env (sg_tree st) \<and> bt_wf (sg_sessions st) \<and>
     (\<forall>h s. bt_get (sg_sessions st) h = Some s \<longrightarrow> session_ok env (sg_local_node st) s)"

subsection \<open>Frames\<close>

lemma modify_contribution_frame [session_frame]:
  "sx_requestor (modify_contribution k f s) = sx_requestor s"
  "sx_request (modify_contribution k f s) = sx_request s"
  "sx_signers (modify_contribution k f s) = sx_signers s"
  "sx_secret_nonces (modify_contribution k f s) = sx_secret_nonces s"
  "sx_completion (modify_contribution k f s) = sx_completion s"
  "message_count (modify_contribution k f s) = message_count s"
  by (simp_all add: modify_contribution_def message_count_def split: option.split)

lemma contributions_modify:
  "bt_get (sx_contributions (modify_contribution k f s)) j =
   (if j = k then map_option f (bt_get (sx_contributions s) k) else bt_get (sx_contributions s) j)"
  by (cases "bt_get (sx_contributions s) k") (auto simp: modify_contribution_def bt_get_insert)

lemma contributions_modify_wf:
  "bt_wf (sx_contributions s) \<Longrightarrow> bt_wf (sx_contributions (modify_contribution k f s))"
  by (simp add: modify_contribution_def bt_insert_wf split: option.split)

lemma contributions_modify_keys:
  "set (bt_keys (sx_contributions (modify_contribution k f s))) = set (bt_keys (sx_contributions s))"
proof (cases "bt_get (sx_contributions s) k")
  case (Some c)
  then have "k \<in> set (bt_keys (sx_contributions s))" by (metis bt_get_None_iff option.distinct(1))
  with Some show ?thesis by (auto simp: modify_contribution_def set_bt_keys_insert)
qed (simp add: modify_contribution_def)

text \<open>Two sessions with the same signers, request and nonces check partial signatures alike.\<close>

definition same_round :: "signing_session \<Rightarrow> signing_session \<Rightarrow> bool" where
  "same_round s s' \<longleftrightarrow> sx_signers s' = sx_signers s \<and> sx_request s' = sx_request s \<and>
     (\<forall>k. map_option sc_nonces (bt_get (sx_contributions s') k) = map_option sc_nonces (bt_get (sx_contributions s) k))"

lemma same_round_refl [simp]: "same_round s s" by (simp add: same_round_def)

lemma same_round_trans: "same_round s t \<Longrightarrow> same_round t u \<Longrightarrow> same_round s u"
  by (simp add: same_round_def)

lemma same_round_modify:
  "(\<And>c. sc_nonces (f c) = sc_nonces c) \<Longrightarrow> same_round s (modify_contribution k f s)"
  by (simp add: same_round_def session_frame contributions_modify option.map_comp comp_def)

lemma same_round_fields [session_frame]:
  "same_round s (s\<lparr>sx_secret_nonces := x\<rparr>)"
  by (simp add: same_round_def)

lemma contribution_cong:
  assumes "same_round s s'" and "\<And>a b. sc_nonces a = sc_nonces b \<Longrightarrow> g a = g b"
  shows "bind_res (contribution_of s' k) g = bind_res (contribution_of s k) g"
proof -
  have "map_option sc_nonces (bt_get (sx_contributions s') k) = map_option sc_nonces (bt_get (sx_contributions s) k)"
    using assms(1) by (simp add: same_round_def)
  then show ?thesis
    unfolding contribution_of_def
    by (cases "bt_get (sx_contributions s') k"; cases "bt_get (sx_contributions s) k")
       (auto intro: assms(2))
qed

lemma musig_session_cong:
  "same_round s s' \<Longrightarrow> musig_session s' cache i mh = musig_session s cache i mh"
proof -
  assume a: "same_round s s'"
  have "(\<lambda>k. bind_res (contribution_of s' k) g) = (\<lambda>k. bind_res (contribution_of s k) g)"
    if "\<And>a b. sc_nonces a = sc_nonces b \<Longrightarrow> g a = g b" for g :: "signer_contribution \<Rightarrow> signing_error + bytes"
    using contribution_cong [of s s' g, OF a that] by blast
  from this [of "\<lambda>c. case sc_nonces c of None \<Rightarrow> Inl (InvalidMessage ''missing signer nonce'')
         | Some nonces \<Rightarrow> if i < length nonces then Inr (nonces ! i)
             else Inl (InvalidMessage ''missing signer nonce'')"]
  show ?thesis using a by (simp add: musig_session_def same_round_def)
qed

lemma verify_from_cong:
  "same_round s s' \<Longrightarrow> verify_partials_from env s' cache k ns i l = verify_partials_from env s cache k ns i l"
  by (induction env s cache k ns i l rule: verify_partials_from.induct)
     (auto simp: musig_session_cong intro!: arg_cong2 [of _ _ _ _ bind_res] ext)

lemma verify_signer_cong:
  "same_round s s' \<Longrightarrow> verify_signer_partials env s' cache k ps = verify_signer_partials env s cache k ps"
  unfolding verify_signer_partials_def
  by (subst contribution_cong [of s s']) (simp_all add: verify_from_cong [of s s'], simp add: same_round_def)

lemma all_nonces_get:
  "bt_wf (sx_contributions s) \<Longrightarrow>
   all_nonces s \<longleftrightarrow> (\<forall>k c. bt_get (sx_contributions s) k = Some c \<longrightarrow> sc_nonces c \<noteq> None)"
  by (auto simp: all_nonces_def set_bt_values)

lemma all_partials_get:
  "bt_wf (sx_contributions s) \<Longrightarrow>
   all_partials s \<longleftrightarrow> (\<forall>k c. bt_get (sx_contributions s) k = Some c \<longrightarrow> sc_partials c \<noteq> None)"
  by (auto simp: all_partials_def set_bt_values)

lemma all_nonces_cong:
  assumes "same_round s s'" "bt_wf (sx_contributions s)" "bt_wf (sx_contributions s')"
  shows "all_nonces s' = all_nonces s"
proof -
  have "all_nonces s \<longleftrightarrow> (\<forall>k. map_option sc_nonces (bt_get (sx_contributions s) k) \<noteq> Some None)"
    if "bt_wf (sx_contributions s)" for s
    using that by (auto simp: all_nonces_get)
  note E = this [OF assms(2)] this [OF assms(3)]
  show ?thesis unfolding E using assms(1) by (simp only: same_round_def)
qed

subsection \<open>Rounds of one message\<close>

lemma session_okD:
  assumes "session_ok env local s"
  shows "\<forall>x\<in>set (sx_signers s). mu_valid_key env x"
    and "mu_aggregate_key env (sx_signers s) = rq_branch (sx_request s)"
    and "bt_wf (sx_contributions s)"
    and "set (bt_keys (sx_contributions s)) = set (sx_signers s)"
    and "sx_completion s \<Longrightarrow> sx_requestor s = local"
  using assms by (simp_all add: session_ok_def)

lemma signer_contribution:
  assumes "session_ok env local s" "signer \<in> set (sx_signers s)"
  obtains c where "bt_get (sx_contributions s) signer = Some c" "contribution_of s signer = Inr c"
    "contribution_ok env s signer c"
proof -
  have "bt_get (sx_contributions s) signer \<noteq> None"
    using assms session_okD(4) [OF assms(1)] by (simp add: bt_get_None_iff)
  then show thesis using that assms(1) by (auto simp: contribution_of_def session_ok_def)
qed

lemma contribution_signer:
  "session_ok env local s \<Longrightarrow> bt_get (sx_contributions s) signer = Some c \<Longrightarrow>
   signer \<in> set (sx_signers s) \<and> contribution_ok env s signer c"
  using session_okD(4) [of env local s] bt_get_None_iff [of "sx_contributions s" signer]
  by (auto simp: session_ok_def)

definition nonces_at :: "signing_session \<Rightarrow> nat \<Rightarrow> bytes list" where
  "nonces_at s i = map (\<lambda>signer. the (sc_nonces (the (bt_get (sx_contributions s) signer))) ! i) (sx_signers s)"

lemma map_res_all: "(\<And>x. x \<in> set xs \<Longrightarrow> f x = Inr (g x)) \<Longrightarrow> map_res f xs = Inr (map g xs)"
  by (induction xs) simp_all

lemma musig_session_total:
  assumes "session_ok env local s" "all_nonces s" "i < message_count s"
  shows "musig_session s cache i mh = Inr (cache, nonces_at s i, mh)"
proof -
  have "bind_res (contribution_of s signer) (\<lambda>c. case sc_nonces c of None \<Rightarrow> Inl (InvalidMessage ''missing signer nonce'')
         | Some nonces \<Rightarrow> if i < length nonces then Inr (nonces ! i) else Inl (InvalidMessage ''missing signer nonce''))
      = Inr (the (sc_nonces (the (bt_get (sx_contributions s) signer))) ! i)"
    if "signer \<in> set (sx_signers s)" for signer
  proof -
    from signer_contribution [OF assms(1) that]
    obtain c where c: "bt_get (sx_contributions s) signer = Some c" "contribution_of s signer = Inr c"
      "contribution_ok env s signer c" .
    then obtain ns where "sc_nonces c = Some ns"
      using assms(2) all_nonces_get [OF session_okD(3) [OF assms(1)]] by blast
    then show ?thesis using c assms(3) by (simp add: contribution_ok_def)
  qed
  from map_res_all [of "sx_signers s", OF this] show ?thesis by (simp add: musig_session_def nonces_at_def)
qed

lemma map_res_no_error:
  "(\<And>x. x \<in> set xs \<Longrightarrow> f x \<noteq> Inl e) \<Longrightarrow> map_res f xs \<noteq> Inl e"
  by (induction xs) (auto simp: bind_res_eq_Inl)

lemma musig_session_no_panic:
  assumes "session_ok env local s"
  shows "musig_session s cache i mh \<noteq> Inl Panic"
proof -
  have "bind_res (contribution_of s signer) (\<lambda>c. case sc_nonces c of None \<Rightarrow> Inl (InvalidMessage ''missing signer nonce'')
         | Some nonces \<Rightarrow> if i < length nonces then Inr (nonces ! i) else Inl (InvalidMessage ''missing signer nonce''))
      \<noteq> Inl Panic" if "signer \<in> set (sx_signers s)" for signer
    by (rule signer_contribution [OF assms that]) (simp split: option.split)
  from map_res_no_error [of "sx_signers s", OF this] show ?thesis
    by (simp add: musig_session_def bind_res_eq_Inl)
qed

lemma verify_from_no_panic:
  assumes "session_ok env local s"
  shows "i + length l \<le> length ns \<Longrightarrow> verify_partials_from env s cache signer ns i l \<noteq> Inl Panic"
  using assms
proof (induction env s cache signer ns i l rule: verify_partials_from.induct)
  case (2 env s cache signer ns i partial mh rest)
  then show ?case using musig_session_no_panic [OF 2(3)] by (auto simp: bind_res_eq_Inl)
qed simp

lemma verify_from_Inr:
  assumes "session_ok env local s" "all_nonces s"
  shows "i + length l \<le> length ns \<Longrightarrow> length ns = message_count s \<Longrightarrow>
    verify_partials_from env s cache signer ns i l = Inr () \<longleftrightarrow>
    (\<forall>j<length l. mu_partial_verify env (cache, nonces_at s (i + j), snd (l ! j)) (fst (l ! j)) (ns ! (i + j)) signer)"
  using assms
proof (induction env s cache signer ns i l rule: verify_partials_from.induct)
  case (2 env s cache signer ns i partial mh rest)
  have i: "i < length ns" using 2(2) by simp
  have m: "musig_session s cache i mh = Inr (cache, nonces_at s i, mh)"
    using musig_session_total [OF 2(4) 2(5)] i 2(3) by simp
  have IH: "mu_partial_verify env (cache, nonces_at s i, mh) partial (ns ! i) signer \<Longrightarrow>
      verify_partials_from env s cache signer ns (Suc i) rest = Inr () \<longleftrightarrow>
      (\<forall>j<length rest. mu_partial_verify env (cache, nonces_at s (Suc i + j), snd (rest ! j)) (fst (rest ! j)) (ns ! (Suc i + j)) signer)"
    using 2(1) [OF _ _ _ 2(3) 2(4) 2(5)] i 2(2) by simp
  show ?case using i by (cases "mu_partial_verify env (cache, nonces_at s i, mh) partial (ns ! i) signer")
    (auto simp: m IH All_less_Suc2)
qed simp

lemma verify_signer_no_panic:
  assumes "session_ok env local s" "signer \<in> set (sx_signers s)" "length ps = message_count s"
  shows "verify_signer_partials env s cache signer ps \<noteq> Inl Panic"
proof -
  obtain c where c: "contribution_of s signer = Inr c" "contribution_ok env s signer c"
    using signer_contribution [OF assms(1,2)] .
  have "verify_partials_from env s cache signer ns 0 (zip ps (rq_message_hashes (sx_request s))) \<noteq> Inl Panic"
    if "sc_nonces c = Some ns" for ns
    using c(2) that assms(3) by (intro verify_from_no_panic [OF assms(1)]) (simp add: contribution_ok_def message_count_def)
  then show ?thesis using c(1) by (auto simp: verify_signer_partials_def bind_res_eq_Inl)
qed

lemma message_count_cong: "same_round s s' \<Longrightarrow> message_count s' = message_count s"
  by (simp add: same_round_def message_count_def)

lemma contribution_ok_cong:
  assumes "same_round s s'" "bt_wf (sx_contributions s)" "bt_wf (sx_contributions s')"
  shows "contribution_ok env s' signer c = contribution_ok env s signer c"
proof -
  have "sx_signers s' = sx_signers s" using assms(1) by (simp add: same_round_def)
  then show ?thesis unfolding contribution_ok_def message_count_cong [OF assms(1)]
    all_nonces_cong [OF assms] verify_signer_cong [OF assms(1)] by simp
qed

text \<open>An update of one contribution that leaves the nonces alone.\<close>

lemma session_ok_modify:
  assumes s: "session_ok env local s" and f: "\<And>c. sc_nonces (f c) = sc_nonces c"
    and k: "\<And>c. bt_get (sx_contributions s) k = Some c \<Longrightarrow> contribution_ok env s k c \<Longrightarrow> contribution_ok env s k (f c)"
  shows "session_ok env local (modify_contribution k f s)"
proof -
  let ?t = "modify_contribution k f s"
  have wf: "bt_wf (sx_contributions s)" "bt_wf (sx_contributions ?t)"
    using session_okD(3) [OF s] by (simp_all add: contributions_modify_wf)
  note C = contribution_ok_cong [OF same_round_modify [of f s k, OF f] wf]
  have "contribution_ok env ?t signer c" if "bt_get (sx_contributions ?t) signer = Some c" for signer c
    using that contribution_signer [OF s] k unfolding C by (auto simp: contributions_modify split: if_splits)
  then show ?thesis using s wf
    by (simp add: session_ok_def session_frame contributions_modify_keys)
qed

definition same_session :: "signing_session \<Rightarrow> signing_session \<Rightarrow> bool" where
  "same_session s s' \<longleftrightarrow> same_round s s' \<and> sx_requestor s' = sx_requestor s \<and>
     sx_secret_nonces s' = sx_secret_nonces s \<and> sx_completion s' = sx_completion s"

lemma same_session_refl [simp]: "same_session s s" by (simp add: same_session_def)

lemma same_session_modify:
  "(\<And>c. sc_nonces (f c) = sc_nonces c) \<Longrightarrow> same_session s (modify_contribution k f s)"
  by (simp add: same_session_def session_frame same_round_modify)

lemma same_session_trans: "same_session s t \<Longrightarrow> same_session t u \<Longrightarrow> same_session s u"
  unfolding same_session_def by (auto intro: same_round_trans)

definition same_partials :: "signing_session \<Rightarrow> signing_session \<Rightarrow> bool" where
  "same_partials s s' \<longleftrightarrow>
     (\<forall>k. map_option sc_partials (bt_get (sx_contributions s') k) = map_option sc_partials (bt_get (sx_contributions s) k))"

definition verified_of :: "signing_session \<Rightarrow> bytes set" where
  "verified_of s = {k. \<exists>c. bt_get (sx_contributions s) k = Some c \<and> (sc_partials c \<noteq> None \<longrightarrow> sc_verified c)}"

lemma mark_verified:
  assumes "session_ok env local s" "all_nonces s" "bt_get (sx_contributions s) k = Some c"
    "sc_partials c = Some ps" "verify_signer_partials env s (sx_signers s) k ps = Inr ()"
  shows "session_ok env local (modify_contribution k (\<lambda>c. c\<lparr>sc_verified := True\<rparr>) s)"
    and "same_session s (modify_contribution k (\<lambda>c. c\<lparr>sc_verified := True\<rparr>) s)"
    and "same_partials s (modify_contribution k (\<lambda>c. c\<lparr>sc_verified := True\<rparr>) s)"
    and "verified_of (modify_contribution k (\<lambda>c. c\<lparr>sc_verified := True\<rparr>) s) = insert k (verified_of s)"
proof -
  show "session_ok env local (modify_contribution k (\<lambda>c. c\<lparr>sc_verified := True\<rparr>) s)"
    using assms by (intro session_ok_modify) (auto simp: contribution_ok_def)
  show "same_session s (modify_contribution k (\<lambda>c. c\<lparr>sc_verified := True\<rparr>) s)"
    by (rule same_session_modify) simp
  show "same_partials s (modify_contribution k (\<lambda>c. c\<lparr>sc_verified := True\<rparr>) s)"
    by (simp add: same_partials_def contributions_modify option.map_comp comp_def)
  show "verified_of (modify_contribution k (\<lambda>c. c\<lparr>sc_verified := True\<rparr>) s) = insert k (verified_of s)"
    using assms(3) by (auto simp: verified_of_def contributions_modify)
qed

lemma same_partials_trans: "same_partials s t \<Longrightarrow> same_partials t u \<Longrightarrow> same_partials s u"
  by (simp add: same_partials_def)

lemma all_nonces_session:
  "session_ok env local s \<Longrightarrow> session_ok env local t \<Longrightarrow> same_session s t \<Longrightarrow> all_nonces t = all_nonces s"
  by (rule all_nonces_cong) (auto simp: same_session_def session_okD(3))

lemma verify_pending_spec:
  assumes "verify_pending env (sx_signers s) l s = (s', r)" "session_ok env local s" "all_nonces s"
    "set l \<subseteq> set (sx_signers s)"
  shows "session_ok env local s' \<and> same_session s s' \<and> r \<noteq> Inl Panic \<and>
    (r = Inr () \<longrightarrow> same_partials s s' \<and> verified_of s \<union> set l \<subseteq> verified_of s')"
  using assms
proof (induction l arbitrary: s)
  case Nil
  then show ?case by (auto simp: same_partials_def)
next
  case (Cons signer l)
  have "signer \<in> set (sx_signers s)" using Cons.prems(4) by simp
  from signer_contribution [OF Cons.prems(2) this]
  obtain c where c: "bt_get (sx_contributions s) signer = Some c" "contribution_of s signer = Inr c"
    "contribution_ok env s signer c" .
  have l: "set l \<subseteq> set (sx_signers s)" using Cons.prems(4) by simp
  show ?case
  proof (cases "sc_verified c \<or> sc_partials c = None")
    case True
    then have "verify_pending env (sx_signers s) l s = (s', r)"
      using Cons.prems(1) c(2) by (auto split: if_splits)
    moreover have "signer \<in> verified_of s" using True c(1) by (auto simp: verified_of_def)
    ultimately show ?thesis using Cons.IH [of s] Cons.prems(2,3) l by auto
  next
    case False
    then obtain ps where ps: "sc_partials c = Some ps" "\<not> sc_verified c" by auto
    then have len: "length ps = message_count s" using c(3) by (simp add: contribution_ok_def)
    let ?v = "verify_signer_partials env s (sx_signers s) signer ps"
    have np: "?v \<noteq> Inl Panic"
      by (rule verify_signer_no_panic [OF Cons.prems(2) _ len]) (use Cons.prems(4) in simp)
    show ?thesis
    proof (cases ?v)
      case (Inl e)
      let ?t = "modify_contribution signer (\<lambda>c. c\<lparr>sc_partials := None\<rparr>) s"
      have "session_ok env local ?t"
        using Cons.prems(2) ps c by (intro session_ok_modify) (auto simp: contribution_ok_def)
      moreover have "same_session s ?t" by (rule same_session_modify) simp
      moreover have "s' = ?t" "r = Inl e" using Cons.prems(1) c(2) ps Inl by simp_all
      ultimately show ?thesis using np Inl by auto
    next
      case (Inr u)
      let ?t = "modify_contribution signer (\<lambda>c. c\<lparr>sc_verified := True\<rparr>) s"
      have v: "?v = Inr ()" using Inr by simp
      note M = mark_verified [OF Cons.prems(2,3) c(1) ps(1) v]
      have "verify_pending env (sx_signers ?t) l ?t = (s', r)"
        using Cons.prems(1) c(2) ps Inr by (simp add: session_frame)
      moreover have "all_nonces ?t" using all_nonces_session [OF Cons.prems(2) M(1,2)] Cons.prems(3) by simp
      moreover have "set l \<subseteq> set (sx_signers ?t)" using l by (simp add: session_frame)
      ultimately have "session_ok env local s' \<and> same_session ?t s' \<and> r \<noteq> Inl Panic \<and>
          (r = Inr () \<longrightarrow> same_partials ?t s' \<and> verified_of ?t \<union> set l \<subseteq> verified_of s')"
        using Cons.IH [of ?t] M(1) by blast
      then show ?thesis using M by (auto intro: same_session_trans same_partials_trans)
    qed
  qed
qed

subsection \<open>Aggregation and completion\<close>

definition partials_at :: "signing_session \<Rightarrow> nat \<Rightarrow> bytes list" where
  "partials_at s i = map (\<lambda>signer. the (sc_partials (the (bt_get (sx_contributions s) signer))) ! i) (sx_signers s)"

lemma aggregate_signature_total:
  assumes "session_ok env local s" "all_nonces s" "all_partials s" "i < message_count s"
  shows "aggregate_signature env s (sx_signers s) (i, mh) =
    (let signature = mu_aggregate_partials env (sx_signers s, nonces_at s i, mh) (partials_at s i) in
     if mu_verify env (rq_branch (sx_request s)) mh signature then Inr signature
     else Inl (InvalidMessage ''aggregate signature failed verification''))"
proof -
  have "bind_res (contribution_of s signer) (\<lambda>c. case sc_partials c of None \<Rightarrow> Inl Panic
         | Some partials \<Rightarrow> if i < length partials then Inr (partials ! i) else Inl Panic)
      = Inr (the (sc_partials (the (bt_get (sx_contributions s) signer))) ! i)"
    if "signer \<in> set (sx_signers s)" for signer
  proof -
    from signer_contribution [OF assms(1) that]
    obtain c where c: "bt_get (sx_contributions s) signer = Some c" "contribution_of s signer = Inr c"
      "contribution_ok env s signer c" .
    then obtain ps where "sc_partials c = Some ps"
      using assms(3) all_partials_get [OF session_okD(3) [OF assms(1)]] by blast
    then show ?thesis using c assms(4) by (simp add: contribution_ok_def)
  qed
  from map_res_all [of "sx_signers s", OF this] show ?thesis
    by (simp add: aggregate_signature_def musig_session_total [OF assms(1,2,4)] partials_at_def
        session_okD(2) [OF assms(1)])
qed

lemma key_agg_cache_ok: "session_ok env local s \<Longrightarrow> key_agg_cache env (sx_signers s) = Inr (sx_signers s)"
  using map_res_all [of "sx_signers s" "\<lambda>key. if mu_valid_key env key then Inr key
                    else Inl (InvalidMessage ''invalid signer public key'')" id] session_okD(1) [of env local s]
  by (simp add: key_agg_cache_def)

lemma list_all2_enumerate:
  "list_all2 P (enumerate 0 xs) ys \<longleftrightarrow> length xs = length ys \<and> (\<forall>i<length xs. P (i, xs ! i) (ys ! i))"
  by (auto simp: list_all2_conv_all_nth nth_enumerate_eq)

lemma aggregate_all:
  assumes "session_ok env local s" "all_nonces s" "all_partials s"
  shows "map_res (aggregate_signature env s (sx_signers s)) (enumerate 0 (rq_message_hashes (sx_request s))) \<noteq> Inl Panic"
    and "map_res (aggregate_signature env s (sx_signers s)) (enumerate 0 (rq_message_hashes (sx_request s))) = Inr sigs
      \<Longrightarrow> list_all2 (mu_verify env (rq_branch (sx_request s))) (rq_message_hashes (sx_request s)) sigs"
proof -
  have A: "aggregate_signature env s (sx_signers s) (i, rq_message_hashes (sx_request s) ! i) =
    (let signature = mu_aggregate_partials env (sx_signers s, nonces_at s i, rq_message_hashes (sx_request s) ! i) (partials_at s i) in
     if mu_verify env (rq_branch (sx_request s)) (rq_message_hashes (sx_request s) ! i) signature then Inr signature
     else Inl (InvalidMessage ''aggregate signature failed verification''))"
    if "i < length (rq_message_hashes (sx_request s))" for i
    using aggregate_signature_total [OF assms] that by (simp add: message_count_def)
  show "map_res (aggregate_signature env s (sx_signers s)) (enumerate 0 (rq_message_hashes (sx_request s))) \<noteq> Inl Panic"
    by (rule map_res_no_error) (auto simp: in_set_enumerate_eq A Let_def split: if_splits)
  have good: "mu_verify env (rq_branch (sx_request s)) (rq_message_hashes (sx_request s) ! i) x"
    if "i < length (rq_message_hashes (sx_request s))"
      "aggregate_signature env s (sx_signers s) (i, rq_message_hashes (sx_request s) ! i) = Inr x" for i x
    using that(2) unfolding A [OF that(1)] by (auto simp: Let_def split: if_splits)
  assume "map_res (aggregate_signature env s (sx_signers s)) (enumerate 0 (rq_message_hashes (sx_request s))) = Inr sigs"
  then have "length (rq_message_hashes (sx_request s)) = length sigs"
    "\<And>i. i < length sigs \<Longrightarrow>
       aggregate_signature env s (sx_signers s) (i, rq_message_hashes (sx_request s) ! i) = Inr (sigs ! i)"
    by (simp_all add: map_res_eq_Inr list_all2_enumerate)
  then show "list_all2 (mu_verify env (rq_branch (sx_request s))) (rq_message_hashes (sx_request s)) sigs"
    by (auto simp: list_all2_conv_all_nth intro!: good)
qed

text \<open>What an operation may do to the sessions and to what has left the state.\<close>

definition secrets_of :: "signing_session \<Rightarrow> bytes list" where
  "secrets_of s = (case sx_secret_nonces s of None \<Rightarrow> [] | Some ns \<Rightarrow> ns)"

definition pending_secrets :: "signing_state \<Rightarrow> bytes list" where
  "pending_secrets st = concat (map (\<lambda>(h, s). secrets_of s) (sg_sessions st))"

definition secret_count :: "signing_state \<Rightarrow> bytes multiset" where
  "secret_count st = mset (sg_used_nonces st) + mset (pending_secrets st)"

definition pending_mset :: "(bytes, signing_session) btree \<Rightarrow> bytes multiset" where
  "pending_mset m = mset (concat (map (\<lambda>(h, s). secrets_of s) m))"

lemma pending_mset_simps [simp]:
  "pending_mset [] = {#}" "pending_mset ((h, s) # m) = mset (secrets_of s) + pending_mset m"
  by (simp_all add: pending_mset_def)

lemma secret_count_alt: "secret_count st = mset (sg_used_nonces st) + pending_mset (sg_sessions st)"
  by (simp add: secret_count_def pending_secrets_def pending_mset_def)

lemma pending_insert_new:
  "bt_get m h = None \<Longrightarrow> pending_mset (bt_insert h s m) = pending_mset m + mset (secrets_of s)"
  by (induction h s m rule: bt_insert.induct) (auto simp: bt_get_def split: if_splits)

lemma pending_insert:
  "bt_wf m \<Longrightarrow> bt_get m h = Some s0 \<Longrightarrow>
   pending_mset (bt_insert h s m) + mset (secrets_of s0) = pending_mset m + mset (secrets_of s)"
proof (induction h s m rule: bt_insert.induct)
  case (2 k v k' v' m)
  have wf: "bt_wf m" and above: "\<forall>j\<in>set (bt_keys m). k' < j"
    using 2(2) by (auto simp: bt_wf_def bt_keys_def)
  have "k < k' \<Longrightarrow> bt_get m k = None" using above by (auto simp: bt_get_None_iff)
  then have "\<not> k < k'" using 2(3) by (auto simp: bt_get_def split: if_splits)
  then show ?case using 2(1) [OF _ _ wf] 2(3) by (auto simp: bt_get_def split: if_splits)
qed simp

lemma pending_remove_none: "bt_get m h = None \<Longrightarrow> bt_remove h m = m"
  by (auto simp: bt_get_None_iff bt_remove_def bt_keys_def intro!: filter_True)

lemma pending_remove:
  "bt_wf m \<Longrightarrow> bt_get m h = Some s0 \<Longrightarrow>
   pending_mset (bt_remove h m) + mset (secrets_of s0) = pending_mset m"
proof (induction m)
  case (Cons e m)
  obtain k v where e: "e = (k, v)" by (cases e)
  have wf: "bt_wf m" and above: "k \<notin> set (bt_keys m)"
    using Cons.prems(1) by (auto simp: bt_wf_def bt_keys_def e)
  show ?case
  proof (cases "k = h")
    case True
    then have "bt_remove h m = m" using above by (intro pending_remove_none) (simp add: bt_get_None_iff)
    with True Cons.prems(2) show ?thesis by (simp add: e bt_get_def bt_remove_def)
  next
    case False
    then show ?thesis using Cons.IH [OF wf] Cons.prems(2) by (simp add: e bt_get_def bt_remove_def)
  qed
qed simp

lemma pending_remove_le: "pending_mset (bt_remove h m) \<subseteq># pending_mset m"
  by (induction m) (auto simp: bt_remove_def subset_mset.add_increasing)

definition delivery_ok :: "musig_env \<Rightarrow> bytes \<times> signing_request \<times> bytes list option \<Rightarrow> bool" where
  "delivery_ok env = (\<lambda>(h, request, result). case result of None \<Rightarrow> True
     | Some sigs \<Rightarrow> list_all2 (mu_verify env (rq_branch request)) (rq_message_hashes request) sigs)"

definition advances :: "musig_env \<Rightarrow> signing_state \<Rightarrow> signing_state \<Rightarrow> bool" where
  "advances env st st' \<longleftrightarrow> signing_ok env st' \<and> sg_local_node st' = sg_local_node st \<and>
     secret_count st' \<subseteq># secret_count st \<and>
     (\<exists>new. sg_delivered st' = sg_delivered st @ new \<and> list_all (delivery_ok env) new)"

lemma advances_refl: "signing_ok env st \<Longrightarrow> advances env st st"
  by (simp add: advances_def)

lemma advances_trans: "advances env st st' \<Longrightarrow> advances env st' st'' \<Longrightarrow> advances env st st''"
  unfolding advances_def by (fastforce intro: subset_mset.order_trans)

lemma put_session_fields [session_frame]:
  "sg_local_node (put_session h s st) = sg_local_node st"
  "sg_tree (put_session h s st) = sg_tree st"
  "sg_member_keys (put_session h s st) = sg_member_keys st"
  "sg_used_nonces (put_session h s st) = sg_used_nonces st"
  "sg_delivered (put_session h s st) = sg_delivered st"
  "bt_get (sg_sessions (put_session h s st)) = (bt_get (sg_sessions st))(h := Some s)"
  "bt_wf (sg_sessions st) \<Longrightarrow> bt_wf (sg_sessions (put_session h s st))"
  by (simp_all add: put_session_def bt_get_insert bt_insert_wf)

lemma put_session_ok:
  "signing_ok env st \<Longrightarrow> session_ok env (sg_local_node st) s \<Longrightarrow> signing_ok env (put_session h s st)"
  by (auto simp: signing_ok_def session_frame)

lemma put_session_secrets:
  assumes "signing_ok env st" "bt_get (sg_sessions st) h = Some s0"
  shows "secret_count (put_session h s st) + mset (secrets_of s0) = secret_count st + mset (secrets_of s)"
  using pending_insert [of "sg_sessions st" h s0 s] assms
  by (simp add: secret_count_alt put_session_def signing_ok_def)

lemma put_session_advances:
  assumes "signing_ok env st" "bt_get (sg_sessions st) h = Some s0" "session_ok env (sg_local_node st) s"
    "sx_secret_nonces s = sx_secret_nonces s0"
  shows "advances env st (put_session h s st)"
proof -
  have "secrets_of s = secrets_of s0" using assms(4) by (simp add: secrets_of_def)
  then have "secret_count (put_session h s st) = secret_count st"
    using put_session_secrets [OF assms(1,2), of s] by simp
  then show ?thesis using put_session_ok [OF assms(1,3)] by (simp add: advances_def session_frame)
qed

lemma remove_session_advances:
  assumes "signing_ok env st" "list_all (delivery_ok env) new"
  shows "advances env st (st\<lparr>sg_sessions := bt_remove h (sg_sessions st), sg_delivered := sg_delivered st @ new\<rparr>)"
  using assms by (auto simp: advances_def signing_ok_def bt_remove_wf bt_get_remove secret_count_alt pending_remove_le)

lemma deliver_removed:
  "deliver h s r (st\<lparr>sg_sessions := m\<rparr>) = st\<lparr>sg_sessions := m,
     sg_delivered := sg_delivered st @ (if sx_completion s then [(h, sx_request s, r)] else [])\<rparr>"
  by (simp add: deliver_def)

lemma complete_session_advances:
  assumes ok: "signing_ok env st" and run: "complete_session env h st = (st', r)"
  shows "advances env st st' \<and> r \<noteq> Inl Panic"
proof (cases "bt_get (sg_sessions st) h")
  case None
  then show ?thesis using run ok by (auto simp: complete_session_def advances_refl)
next
  case (Some s)
  have s: "session_ok env (sg_local_node st) s" using ok Some by (simp add: signing_ok_def)
  show ?thesis
  proof (cases "sx_requestor s \<noteq> sg_local_node st \<or> \<not> all_nonces s")
    case True
    then show ?thesis using run ok Some by (auto simp: complete_session_def advances_refl)
  next
    case False
    then have an: "all_nonces s" and rq: "sx_requestor s = sg_local_node st" by simp_all
    obtain s' v where v: "verify_pending env (sx_signers s) (sx_signers s) s = (s', v)" by fastforce
    note V = verify_pending_spec [OF v s an subset_refl]
    then have s': "session_ok env (sg_local_node st) s'" and same: "same_session s s'" by simp_all
    have sig: "sx_signers s' = sx_signers s" "sx_request s' = sx_request s" "sx_secret_nonces s' = sx_secret_nonces s"
      using same by (simp_all add: same_session_def same_round_def)
    have put: "advances env st (put_session h s' st)"
      by (rule put_session_advances [OF ok Some s' sig(3)])
    then have ok': "signing_ok env (put_session h s' st)" by (simp add: advances_def)
    show ?thesis
    proof (cases v)
      case (Inl e)
      then show ?thesis using run put V v
        by (auto simp: complete_session_def Some an rq key_agg_cache_ok [OF s])
    next
      case (Inr u)
      show ?thesis
      proof (cases "all_partials s'")
        case False
        then show ?thesis using run put v Inr
          by (auto simp: complete_session_def Some an rq key_agg_cache_ok [OF s] Let_def)
      next
        case True
        have an': "all_nonces s'" using all_nonces_session [OF s s' same] an by simp
        note A = aggregate_all [OF s' an' True]
        let ?m = "map_res (aggregate_signature env s' (sx_signers s')) (enumerate 0 (rq_message_hashes (sx_request s')))"
        show ?thesis
        proof (cases ?m)
          case (Inl e)
          then show ?thesis using run put v Inr A(1) True sig
            by (auto simp: complete_session_def Some an rq key_agg_cache_ok [OF s] Let_def)
        next
          case m: (Inr sigs)
          let ?new = "if sx_completion s' then [(h, sx_request s', Some sigs)] else []"
          have "list_all (delivery_ok env) ?new" using A(2) [OF m] by (simp add: delivery_ok_def)
          note R = remove_session_advances [OF ok' this, of h]
          have "st' = (put_session h s' st)\<lparr>sg_sessions := bt_remove h (sg_sessions (put_session h s' st)),
              sg_delivered := sg_delivered (put_session h s' st) @ ?new\<rparr>" "r = Inr ()"
            using run v Inr m True sig
            by (simp_all add: complete_session_def Some an rq key_agg_cache_ok [OF s] Let_def deliver_removed)
          then show ?thesis using advances_trans [OF put R] by simp
        qed
      qed
    qed
  qed
qed

subsection \<open>Incoming nonces and partial signatures\<close>

lemma session_ok_add_nonces:
  assumes s: "session_ok env local s" and c: "bt_get (sx_contributions s) k = Some c" "sc_nonces c = None"
    and n: "length ns = message_count s"
  defines "t \<equiv> modify_contribution k (\<lambda>c. c\<lparr>sc_nonces := Some ns\<rparr>) s"
  shows "session_ok env local t" and "bt_get (sx_contributions t) j = Some d \<Longrightarrow> \<not> sc_verified d"
proof -
  have "\<not> all_nonces s" using c all_nonces_get [OF session_okD(3) [OF s]] by blast
  then have old: "\<not> sc_verified d" if "bt_get (sx_contributions s) j = Some d" for j d
    using contribution_signer [OF s that] by (auto simp: contribution_ok_def)
  show new: "\<not> sc_verified d" if "bt_get (sx_contributions t) j = Some d" for j d
    using that old by (auto simp: t_def contributions_modify split: if_splits)
  have wf: "bt_wf (sx_contributions s)" using session_okD(3) [OF s] .
  have mc: "message_count t = message_count s" by (simp add: t_def session_frame)
  have "contribution_ok env t j d" if "bt_get (sx_contributions t) j = Some d" for j d
  proof -
    have "\<exists>d0. bt_get (sx_contributions s) j = Some d0 \<and> sc_partials d = sc_partials d0 \<and>
        (sc_nonces d = sc_nonces d0 \<or> sc_nonces d = Some ns)"
      using that by (cases "j = k") (auto simp: t_def contributions_modify)
    then obtain d0 where d0: "bt_get (sx_contributions s) j = Some d0" "sc_partials d = sc_partials d0"
      "sc_nonces d = sc_nonces d0 \<or> sc_nonces d = Some ns" by blast
    have "contribution_ok env s j d0" using contribution_signer [OF s d0(1)] by simp
    then show ?thesis using new [OF that] d0 n by (auto simp: contribution_ok_def mc)
  qed
  then show "session_ok env local t" using s wf
    by (simp add: session_ok_def t_def session_frame contributions_modify_wf contributions_modify_keys)
qed

lemma session_ok_secrets:
  "session_ok env local s \<Longrightarrow> session_ok env local (s\<lparr>sx_secret_nonces := None\<rparr>)"
proof -
  assume s: "session_ok env local s"
  let ?t = "s\<lparr>sx_secret_nonces := None\<rparr>"
  have wf: "bt_wf (sx_contributions s)" "bt_wf (sx_contributions ?t)" using session_okD(3) [OF s] by simp_all
  note C = contribution_ok_cong [OF same_round_fields [of s None] wf]
  show ?thesis using s by (simp add: session_ok_def C)
qed

lemma sign_partials_length:
  "sign_partials env s cache secrets = Inr ps \<Longrightarrow> length secrets = message_count s \<Longrightarrow> length ps = message_count s"
  unfolding sign_partials_def by (drule map_res_length) (simp add: message_count_def)

lemma sign_partials_no_panic:
  assumes "session_ok env local s"
  shows "sign_partials env s cache secrets \<noteq> Inl Panic"
  unfolding sign_partials_def
  by (rule map_res_no_error) (auto simp: bind_res_eq_Inl musig_session_no_panic [OF assms])

lemma recipients_no_panic: "recipient_transport_keys st signers requestor \<noteq> Inl Panic"
  unfolding recipient_transport_keys_def transport_key_def by (rule map_res_no_error) simp

lemma key_agg_cache_no_panic: "key_agg_cache env signers \<noteq> Inl Panic"
  unfolding key_agg_cache_def by (rule map_res_no_error) simp

lemma used_advances:
  assumes ok: "signing_ok env st" and h: "bt_get (sg_sessions st) h = Some s" "sx_secret_nonces s = Some ns"
  shows "advances env st (put_session h (s\<lparr>sx_secret_nonces := None\<rparr>) (st\<lparr>sg_used_nonces := sg_used_nonces st @ ns\<rparr>))"
proof -
  let ?t = "st\<lparr>sg_used_nonces := sg_used_nonces st @ ns\<rparr>"
  have s: "session_ok env (sg_local_node st) s" using ok h(1) by (simp add: signing_ok_def)
  have t: "signing_ok env ?t" using ok by (simp add: signing_ok_def)
  have "secret_count (put_session h (s\<lparr>sx_secret_nonces := None\<rparr>) ?t) = secret_count st"
    using put_session_secrets [OF t, of h s "s\<lparr>sx_secret_nonces := None\<rparr>"] h
    by (simp add: secrets_of_def secret_count_alt)
  then show ?thesis using put_session_ok [OF t, of "s\<lparr>sx_secret_nonces := None\<rparr>" h] session_ok_secrets [OF s]
    by (simp add: advances_def session_frame)
qed

lemma sign_with_taken_advances:
  assumes ok: "signing_ok env st" and h: "bt_get (sg_sessions st) h = Some s" "sx_secret_nonces s = Some ns"
    and fresh: "\<And>k c. bt_get (sx_contributions s) k = Some c \<Longrightarrow> \<not> sc_verified c"
    and run: "sign_with_taken_nonces env h s cache ns st = (st', r)"
  shows "advances env st st' \<and> r \<noteq> Inl Panic"
proof -
  let ?taken = "s\<lparr>sx_secret_nonces := None\<rparr>"
  let ?st1 = "put_session h ?taken (st\<lparr>sg_used_nonces := sg_used_nonces st @ ns\<rparr>)"
  have s: "session_ok env (sg_local_node st) s" using ok h(1) by (simp add: signing_ok_def)
  have taken: "session_ok env (sg_local_node st) ?taken" by (rule session_ok_secrets [OF s])
  have local: "sg_local_node st \<in> set (sx_signers ?taken)" and len: "length ns = message_count ?taken"
    using s h(2) by (simp_all add: session_ok_def message_count_def)
  obtain c where c: "bt_get (sx_contributions ?taken) (sg_local_node st) = Some c"
    using signer_contribution [OF taken local] by blast
  have adv1: "advances env st ?st1" by (rule used_advances [OF ok h])
  then have ok1: "signing_ok env ?st1" by (simp add: advances_def)
  show ?thesis
  proof (cases "sign_partials env ?taken cache ns")
    case (Inl e)
    then show ?thesis using run adv1 sign_partials_no_panic [OF taken, of cache ns]
      by (auto simp: sign_with_taken_nonces_def Let_def)
  next
    case (Inr ps)
    let ?signed = "modify_contribution (sg_local_node st) (\<lambda>c. c\<lparr>sc_partials := Some ps\<rparr>) ?taken"
    let ?st2 = "put_session h ?signed ?st1"
    have "length ps = message_count ?taken" by (rule sign_partials_length [OF Inr len])
    moreover have "\<not> sc_verified c" if "bt_get (sx_contributions ?taken) k = Some c" for k c
      using fresh that by simp
    ultimately have "session_ok env (sg_local_node st) ?signed"
      using taken by (intro session_ok_modify) (auto simp: contribution_ok_def)
    moreover have "bt_get (sg_sessions ?st1) h = Some ?taken" by (simp add: session_frame)
    ultimately have adv2: "advances env ?st1 ?st2"
      by (intro put_session_advances [OF ok1]) (auto simp: session_frame)
    then have ok2: "signing_ok env ?st2" by (simp add: advances_def)
    obtain st3 r3 where C: "complete_session env h ?st2 = (st3, r3)" by fastforce
    note A = complete_session_advances [OF ok2 C]
    show ?thesis
      using run adv1 adv2 A C Inr c recipients_no_panic [of ?st2 "sx_signers ?signed" "sx_requestor ?signed"]
      by (auto simp: sign_with_taken_nonces_def Let_def split: sum.splits intro: advances_trans)
  qed
qed

lemma accept_nonces_advances:
  assumes ok: "signing_ok env st" and run: "accept_nonces env h sender message st = (st', r)"
  shows "advances env st st' \<and> r \<noteq> Inl Panic"
proof (cases "bt_get (sg_sessions st) h")
  case None
  then show ?thesis using run ok by (auto simp: accept_nonces_def advances_refl split: if_splits)
next
  case (Some s)
  have s: "session_ok env (sg_local_node st) s" using ok Some by (simp add: signing_ok_def)
  let ?read = "map_res (\<lambda>nonce.
      if length nonce \<noteq> 66 then Inl (InvalidMessage ''invalid public nonce size'')
      else if mu_valid_nonce env nonce then Inr nonce
      else Inl (InvalidMessage ''invalid public nonce'')) (sn_nonces message)"
  have read: "?read \<noteq> Inl Panic" by (rule map_res_no_error) simp
  show ?thesis
  proof (cases "sender = sn_signer message \<and> length (sn_nonces message) = message_count s \<and>
      (\<exists>c ns. bt_get (sx_contributions s) sender = Some c \<and> sc_nonces c = None \<and> ?read = Inr ns)")
    case False
    then show ?thesis using run ok Some read
      by (auto simp: accept_nonces_def advances_refl message_count_def split: if_splits option.splits sum.splits)
  next
    case True
    then obtain c ns where c: "bt_get (sx_contributions s) sender = Some c" "sc_nonces c = None"
      and ns: "?read = Inr ns" by auto
    have len: "length ns = message_count s" using map_res_length [OF ns] True by simp
    let ?s1 = "modify_contribution sender (\<lambda>c. c\<lparr>sc_nonces := Some ns\<rparr>) s"
    let ?st1 = "put_session h ?s1 st"
    note N = session_ok_add_nonces [OF s c len]
    have adv1: "advances env st ?st1"
      by (rule put_session_advances [OF ok Some N(1)]) (simp add: session_frame)
    then have ok1: "signing_ok env ?st1" by (simp add: advances_def)
    obtain st2 r2 where C: "complete_session env h ?st1 = (st2, r2)" by fastforce
    note A = complete_session_advances [OF ok1 C]
    have get1: "bt_get (sg_sessions ?st1) h = Some ?s1" by (simp add: session_frame)
    let ?pick = "if sg_local_node st \<in> set (sx_signers ?s1) \<and> all_nonces ?s1 then sx_secret_nonces ?s1 else None"
    have run': "(case ?pick of
        None \<Rightarrow> (case complete_session env h ?st1 of (st2, Inl e) \<Rightarrow> (st2, Inl e) | (st2, Inr _) \<Rightarrow> (st2, Inr None))
      | Some secret_nonces \<Rightarrow> (case key_agg_cache env (sx_signers ?s1) of
            Inl e \<Rightarrow> (?st1, Inl e)
          | Inr cache \<Rightarrow> sign_with_taken_nonces env h ?s1 cache secret_nonces ?st1)) = (st', r)"
      using run Some True [THEN conjunct1, symmetric] True [THEN conjunct2, THEN conjunct1] c ns
      by (simp add: accept_nonces_def Let_def message_count_def)
    show ?thesis
    proof (cases ?pick)
      case None
      then show ?thesis using run' adv1 A C by (auto split: sum.splits intro: advances_trans)
    next
      case secrets: (Some secrets)
      then have sec: "sx_secret_nonces ?s1 = Some secrets" by (auto split: if_splits)
      show ?thesis
      proof (cases "key_agg_cache env (sx_signers ?s1)")
        case (Inl e)
        then show ?thesis using key_agg_cache_ok [OF N(1)] by simp
      next
        case (Inr cache)
        obtain st2 r2 where G: "sign_with_taken_nonces env h ?s1 cache secrets ?st1 = (st2, r2)" by fastforce
        have "advances env ?st1 st2 \<and> r2 \<noteq> Inl Panic"
          by (rule sign_with_taken_advances [OF ok1 get1 sec _ G]) (rule N(2))
        moreover have "(st', r) = (st2, r2)"
          using run' unfolding secrets by (simp add: Inr G)
        ultimately show ?thesis using adv1 by (auto intro: advances_trans)
      qed
    qed
  qed
qed

lemma accept_partials_advances:
  assumes ok: "signing_ok env st" and run: "accept_partial_signatures env h sender message st = (st', r)"
  shows "advances env st st' \<and> r \<noteq> Inl Panic"
proof (cases "bt_get (sg_sessions st) h")
  case None
  then show ?thesis using run ok by (auto simp: accept_partial_signatures_def advances_refl split: if_splits)
next
  case (Some s)
  have s: "session_ok env (sg_local_node st) s" using ok Some by (simp add: signing_ok_def)
  define read where "read = map_res (\<lambda>(index, signature).
       if mu_valid_partial env signature then Inr signature
       else Inl (InvalidPartialSignature sender index)) (enumerate 0 (pm_partial_signatures message))"
  define check where "check = bind_res read (\<lambda>partials. if all_nonces s
       then bind_res (key_agg_cache env (sx_signers s)) (\<lambda>cache.
              bind_res (verify_signer_partials env s cache sender partials) (\<lambda>_. Inr partials))
       else Inr partials)"
  have read_np: "read \<noteq> Inl Panic" unfolding read_def by (rule map_res_no_error) (auto split: if_splits)
  have read_len: "length ps = message_count s"
    if "read = Inr ps" "length (pm_partial_signatures message) = message_count s" for ps
    using map_res_length [OF that(1) [unfolded read_def]] that(2) by simp
  show ?thesis
  proof (cases "sender = pm_signer message \<and> length (pm_partial_signatures message) = message_count s \<and>
      (\<exists>c. bt_get (sx_contributions s) sender = Some c \<and> sc_partials c = None)")
    case False
    then show ?thesis using run ok Some
      by (auto simp: accept_partial_signatures_def advances_refl message_count_def
          split: if_splits option.splits)
  next
    case True
    then obtain c where c: "bt_get (sx_contributions s) sender = Some c" "sc_partials c = None" by blast
    have sender: "sender \<in> set (sx_signers s)" using contribution_signer [OF s c(1)] by simp
    have np: "check \<noteq> Inl Panic"
      using read_np verify_signer_no_panic [OF s sender] read_len True key_agg_cache_ok [OF s]
      by (auto simp: check_def bind_res_eq_Inl split: if_splits)
    have run': "(case check of Inl e \<Rightarrow> (st, Inl e) | Inr ps \<Rightarrow>
        complete_session env h (put_session h (modify_contribution sender
          (\<lambda>c. c\<lparr>sc_partials := Some ps, sc_verified := all_nonces s\<rparr>) s) st)) = (st', r)"
      using run Some True [THEN conjunct1, symmetric] True [THEN conjunct2, THEN conjunct1] c
      by (simp add: accept_partial_signatures_def message_count_def check_def read_def)
    show ?thesis
    proof (cases check)
      case (Inl e)
      then show ?thesis using run' np ok by (auto simp: advances_refl)
    next
      case (Inr ps)
      have len: "length ps = message_count s"
        using Inr read_len True by (auto simp: check_def bind_res_eq_Inr split: if_splits)
      have ver: "all_nonces s \<Longrightarrow> verify_signer_partials env s (sx_signers s) sender ps = Inr ()"
        using Inr by (auto simp: check_def bind_res_eq_Inr key_agg_cache_ok [OF s])
      let ?s1 = "modify_contribution sender (\<lambda>c. c\<lparr>sc_partials := Some ps, sc_verified := all_nonces s\<rparr>) s"
      have "session_ok env (sg_local_node st) ?s1"
        using s len ver by (intro session_ok_modify) (auto simp: contribution_ok_def)
      from put_session_advances [OF ok Some this]
      have adv: "advances env st (put_session h ?s1 st)" by (simp add: session_frame)
      then have ok1: "signing_ok env (put_session h ?s1 st)" by (simp add: advances_def)
      have "complete_session env h (put_session h ?s1 st) = (st', r)" using run' Inr by simp
      from complete_session_advances [OF ok1 this] adv show ?thesis by (auto intro: advances_trans)
    qed
  qed
qed

subsection \<open>Members, new sessions and cleanup\<close>

lemma refresh_advances:
  assumes ok: "signing_ok env st" and run: "refresh_members env peers st = (st', r)"
  shows "advances env st st' \<and> r \<noteq> Inl Panic"
proof -
  have np: "peer_keys env peers \<noteq> Inl Panic"
    unfolding peer_keys_def bind_res_eq_Inl
    using map_res_no_error [of peers "\<lambda>peer. bind_res (node_key env (pe_public_key peer))
         (\<lambda>key. Inr (key, pe_public_key peer))" Panic]
    by (simp add: bind_res_eq_Inl node_key_def)
  have keep: "advances env st (st\<lparr>sg_tree := t, sg_member_keys := keys\<rparr>)" if "tree_built env t" for t keys
    using ok that by (simp add: advances_def signing_ok_def secret_count_alt)
  have "tree_built env None" by (simp add: tree_built_def)
  moreover have "tree_built env (Some tree)"
    if "storm_tree_new (mu_sha env) (mu_valid_key env) (mu_aggregate_key env) nodes = Inr tree" for nodes tree
    using that by (auto simp: tree_built_def)
  ultimately show ?thesis using run ok np keep
    by (auto simp: refresh_members_def advances_refl split: sum.splits if_splits)
qed

definition new_secrets :: "musig_env \<Rightarrow> (nat \<Rightarrow> bytes) \<Rightarrow> bytes list \<Rightarrow> bytes list \<Rightarrow> bytes list" where
  "new_secrets env rand signers hashes =
     map (\<lambda>(i, mh). fst (mu_new_nonce_pair env (rand i) signers mh)) (enumerate 0 hashes)"

lemma length_new_secrets [simp]: "length (new_secrets env rand signers hashes) = length hashes"
  by (simp add: new_secrets_def)

lemma branch_signers:
  assumes "tree_built env (Some tree)" "nodes_for_branch tree branch = Inr signers"
  shows "sorted_wrt (<) signers" "\<forall>x\<in>set signers. mu_valid_key env x" "mu_aggregate_key env signers = branch"
    and "2 \<le> length signers"
proof -
  from assms(1) obtain nodes where
    "storm_tree_new (mu_sha env) (mu_valid_key env) (mu_aggregate_key env) nodes = Inr tree"
    by (auto simp: tree_built_def)
  from storm_tree_new_Inr [OF this]
  have ok: "storm_ok (mu_sha env) (mu_aggregate_key env) nodes tree"
    and valid: "\<forall>x\<in>set nodes. mu_valid_key env x" and n: "3 \<le> length nodes" by simp_all
  have get: "bt_get (st_branches tree) branch = Some signers" using assms(2) by (simp add: nodes_for_branch_def)
  have "sorted_wrt (<) signers \<and> set signers \<subseteq> set nodes \<and> length signers = st_threshold tree \<and>
      mu_aggregate_key env signers = branch"
    using ok get unfolding storm_ok_def by blast
  moreover have "2 \<le> minimum_threshold (length nodes)" using n threshold_thirds [of "length nodes"] by linarith
  ultimately show "sorted_wrt (<) signers" "\<forall>x\<in>set signers. mu_valid_key env x"
    "mu_aggregate_key env signers = branch" "2 \<le> length signers"
    using valid ok by (auto simp: storm_ok_def)
qed

definition empty_contribution :: signer_contribution where
  "empty_contribution = \<lparr>sc_nonces = None, sc_partials = None, sc_verified = False\<rparr>"

definition blank_session ::
  "bytes \<Rightarrow> signing_request \<Rightarrow> bytes list \<Rightarrow> bool \<Rightarrow> nat \<Rightarrow> signing_session" where
  "blank_session requestor request signers completion now =
     \<lparr>sx_requestor = requestor, sx_request = request, sx_signers = signers,
      sx_contributions = bt_of_list (map (\<lambda>signer. (signer, empty_contribution)) signers),
      sx_secret_nonces = None, sx_completion = completion, sx_created_at = now\<rparr>"

lemma map_of_const: "map_of (map (\<lambda>x. (x, v)) xs) k = (if k \<in> set xs then Some v else None)"
  by (induction xs) auto

lemma blank_contributions:
  "bt_get (sx_contributions (blank_session q rq signers own now)) k =
   (if k \<in> set signers then Some empty_contribution else None)"
  by (simp add: blank_session_def bt_get_of_list rev_map map_of_const)

lemma blank_session_ok:
  assumes "sorted_wrt (<) signers" "\<forall>x\<in>set signers. mu_valid_key env x"
    "mu_aggregate_key env signers = rq_branch rq" "own \<Longrightarrow> q = local"
  shows "session_ok env local (blank_session q rq signers own now)"
proof -
  have "bt_wf (sx_contributions (blank_session q rq signers own now))"
    "set (bt_keys (sx_contributions (blank_session q rq signers own now))) = set signers"
    by (simp_all add: blank_session_def bt_of_list_wf set_bt_keys_of_list image_image)
  then show ?thesis using assms
    by (auto simp: session_ok_def blank_contributions contribution_ok_def empty_contribution_def
        split: if_splits) (auto simp: blank_session_def)
qed

lemma start_session_cases:
  assumes ok: "signing_ok env st"
    and run: "start_session env rand now h requestor request completion st = (st', r)"
  obtains (known) "bt_get (sg_sessions st) h \<noteq> None" "st' = st" "r = Inr None"
  | (failed) e where "bt_get (sg_sessions st) h = None" "st' = st" "r = Inl e" "e \<noteq> Panic"
  | (remote) tree signers where "bt_get (sg_sessions st) h = None" "sg_tree st = Some tree"
      "nodes_for_branch tree (rq_branch request) = Inr signers" "sg_local_node st \<notin> set signers"
      "st' = put_session h (blank_session requestor request signers completion now) st" "r = Inr None"
  | (signer) tree signers pairs where "bt_get (sg_sessions st) h = None" "sg_tree st = Some tree"
      "nodes_for_branch tree (rq_branch request) = Inr signers" "sg_local_node st \<in> set signers"
      "pairs = map (\<lambda>(i, mh). mu_new_nonce_pair env (rand i) signers mh) (enumerate 0 (rq_message_hashes request))"
      "st' = put_session h (modify_contribution (sg_local_node st) (\<lambda>c. c\<lparr>sc_nonces := Some (map snd pairs)\<rparr>)
         ((blank_session requestor request signers completion now)\<lparr>sx_secret_nonces := Some (map fst pairs)\<rparr>)) st"
      "r = Inr (Some (NoncesMessage h \<lparr>sn_signer = sg_local_node st, sn_nonces = map snd pairs\<rparr>))"
proof (cases "bt_get (sg_sessions st) h")
  case (Some s)
  then show thesis using known run by (simp add: start_session_def)
next
  case None
  show thesis
  proof (cases "sg_tree st")
    case no: None
    then show thesis using failed [of TooFewMembers] None run by (simp add: start_session_def)
  next
    case tree: (Some tree)
    show thesis
    proof (cases "nodes_for_branch tree (rq_branch request)")
      case (Inl e)
      then show thesis using failed [of "StormTreeFailure e"] None tree run by (simp add: start_session_def)
    next
      case (Inr signers)
      have built: "tree_built env (Some tree)" using ok tree by (simp add: signing_ok_def)
      have cache: "key_agg_cache env signers = Inr signers"
        using map_res_all [of signers "\<lambda>key. if mu_valid_key env key then Inr key
             else Inl (InvalidMessage ''invalid signer public key'')" id] branch_signers(2) [OF built Inr]
        by (simp add: key_agg_cache_def)
      show thesis
      proof (cases "sg_local_node st \<in> set signers")
        case True
        show thesis by (rule signer [OF None tree Inr True refl])
          (use run None tree Inr True cache in \<open>simp_all add: start_session_def blank_session_def
             empty_contribution_def Let_def\<close>)
      next
        case False
        show thesis by (rule remote [OF None tree Inr False])
          (use run None tree Inr False cache in \<open>simp_all add: start_session_def blank_session_def
             empty_contribution_def Let_def\<close>)
      qed
    qed
  qed
qed

lemma secrets_blank [simp]:
  "secrets_of (blank_session q rq signers own now) = []"
  "secrets_of (modify_contribution k f s) = secrets_of s"
  "secrets_of (s\<lparr>sx_secret_nonces := Some ns\<rparr>) = ns"
  by (simp_all add: secrets_of_def blank_session_def session_frame)

lemma put_new_session:
  assumes "signing_ok env st" "bt_get (sg_sessions st) h = None" "session_ok env (sg_local_node st) s"
  shows "signing_ok env (put_session h s st)"
    and "secret_count (put_session h s st) = secret_count st + mset (secrets_of s)"
  using put_session_ok [OF assms(1,3)] pending_insert_new [OF assms(2)]
  by (simp_all add: secret_count_alt put_session_def)

lemma signer_session_ok:
  assumes b: "session_ok env local (blank_session q rq signers own now)" and l: "local \<in> set signers"
    and n: "length ns = length (rq_message_hashes rq)" "length secrets = length (rq_message_hashes rq)"
  shows "session_ok env local (modify_contribution local (\<lambda>c. c\<lparr>sc_nonces := Some ns\<rparr>)
     ((blank_session q rq signers own now)\<lparr>sx_secret_nonces := Some secrets\<rparr>))"
proof -
  let ?b = "blank_session q rq signers own now"
  let ?b' = "?b\<lparr>sx_secret_nonces := Some secrets\<rparr>"
  have wf: "bt_wf (sx_contributions ?b)" "bt_wf (sx_contributions ?b')" using session_okD(3) [OF b] by simp_all
  have count: "message_count ?b' = length (rq_message_hashes rq)"
    by (simp add: message_count_def blank_session_def)
  have "sx_signers ?b' = signers" by (simp add: blank_session_def)
  then have "session_ok env local ?b'" using b l n(2) count contribution_ok_cong [OF same_round_fields wf]
    by (simp add: session_ok_def)
  moreover have "bt_get (sx_contributions ?b') local = Some empty_contribution"
    using l blank_contributions [of q rq signers own now local] by simp
  ultimately show ?thesis
    using n(1) count by (intro session_ok_add_nonces(1) [where c = empty_contribution])
      (simp_all add: empty_contribution_def)
qed

lemma start_session_spec:
  assumes ok: "signing_ok env st" and own: "completion \<Longrightarrow> requestor = sg_local_node st"
    and run: "start_session env rand now h requestor request completion st = (st', r)"
  shows "signing_ok env st' \<and> sg_local_node st' = sg_local_node st \<and> sg_delivered st' = sg_delivered st \<and>
    r \<noteq> Inl Panic \<and> (secret_count st' = secret_count st \<or>
      (\<exists>signers. secret_count st' = secret_count st + mset (new_secrets env rand signers (rq_message_hashes request))))"
  using ok run
proof (cases rule: start_session_cases)
  case (remote tree signers)
  have "session_ok env (sg_local_node st) (blank_session requestor request signers completion now)"
    using branch_signers [of env tree] ok remote own by (intro blank_session_ok) (simp_all add: signing_ok_def)
  from put_new_session [OF ok remote(1) this] show ?thesis using remote by (simp add: session_frame)
next
  case (signer tree signers pairs)
  have b: "session_ok env (sg_local_node st) (blank_session requestor request signers completion now)"
    using branch_signers [of env tree] ok signer own by (intro blank_session_ok) (simp_all add: signing_ok_def)
  have "map fst pairs = new_secrets env rand signers (rq_message_hashes request)"
    using signer(5) by (auto simp: new_secrets_def)
  moreover have "length pairs = length (rq_message_hashes request)" using signer(5) by simp
  moreover note put_new_session [OF ok signer(1) signer_session_ok [OF b signer(4), of "map snd pairs" "map fst pairs"]]
  ultimately show ?thesis using signer(6,7) by (simp add: session_frame) metis
qed (use ok in auto)

lemma expire_advances: "signing_ok env st \<Longrightarrow> advances env st (expire_session h st)"
proof (cases "bt_get (sg_sessions st) h")
  case (Some s)
  assume ok: "signing_ok env st"
  have "list_all (delivery_ok env) (if sx_completion s then [(h, sx_request s, None)] else [])"
    by (simp add: delivery_ok_def)
  from remove_session_advances [OF ok this, of h] Some show ?thesis
    by (simp add: expire_session_def deliver_removed)
qed (simp add: expire_session_def advances_refl)

lemma fold_advances:
  "signing_ok env st \<Longrightarrow> (\<And>x st. signing_ok env st \<Longrightarrow> advances env st (f x st)) \<Longrightarrow> advances env st (fold f xs st)"
proof (induction xs arbitrary: st)
  case (Cons x xs)
  have "advances env st (f x st)" using Cons.prems by blast
  moreover from this have "advances env (f x st) (fold f xs (f x st))"
    by (intro Cons.IH Cons.prems(2)) (simp_all add: advances_def)
  ultimately show ?case by (simp add: advances_trans)
qed (simp add: advances_refl)

lemma cleanup_advances: "signing_ok env st \<Longrightarrow> advances env st (remove_expired_sessions now st)"
  unfolding remove_expired_sessions_def by (intro fold_advances expire_advances)

lemma remove_attempt_advances: "signing_ok env st \<Longrightarrow> advances env st (remove_attempt h st)"
  using remove_session_advances [of env st "[]" h] by (simp add: remove_attempt_def)

subsection \<open>Reachable states\<close>

text \<open>
  A step is one of the operations a node runs under the lock of its signing state. The random bytes
  a session starts with have not been drawn before, so its secret nonces are new: this is what the
  code asks of the random number generator.
\<close>

definition fresh_nonces :: "musig_env \<Rightarrow> (nat \<Rightarrow> bytes) \<Rightarrow> signing_state \<Rightarrow> bool" where
  "fresh_nonces env rand st \<longleftrightarrow> (\<forall>signers hashes. distinct (new_secrets env rand signers hashes) \<and>
     set (new_secrets env rand signers hashes) \<inter> set (sg_used_nonces st @ pending_secrets st) = {})"

inductive signing_step :: "musig_env \<Rightarrow> signing_state \<Rightarrow> signing_state \<Rightarrow> bool" for env where
  members: "refresh_members env peers st = (st', r) \<Longrightarrow> signing_step env st st'"
| own: "fresh_nonces env rand st \<Longrightarrow> start_attempt env rand now h request st = (st', r) \<Longrightarrow> signing_step env st st'"
| joined: "fresh_nonces env rand st \<Longrightarrow> start_session env rand now h requestor request False st = (st', r)
     \<Longrightarrow> signing_step env st st'"
| nonces: "accept_nonces env h sender nmsg st = (st', r) \<Longrightarrow> signing_step env st st'"
| partials: "accept_partial_signatures env h sender pmsg st = (st', q) \<Longrightarrow> signing_step env st st'"
| cleanup: "signing_step env st (remove_expired_sessions now st)"
| abandoned: "signing_step env st (remove_attempt h st)"

inductive signing_reachable :: "musig_env \<Rightarrow> signing_state \<Rightarrow> bool" for env where
  initial: "signing_reachable env (signing_state_new env local peers)"
| later: "signing_reachable env st \<Longrightarrow> signing_step env st st' \<Longrightarrow> signing_reachable env st'"

definition signing_safe :: "musig_env \<Rightarrow> signing_state \<Rightarrow> bool" where
  "signing_safe env st \<longleftrightarrow> signing_ok env st \<and> distinct (sg_used_nonces st @ pending_secrets st) \<and>
     list_all (delivery_ok env) (sg_delivered st)"

lemma signing_safeD: "signing_safe env st \<Longrightarrow> signing_ok env st"
  by (simp add: signing_safe_def)

lemma secret_count_mset: "secret_count st = mset (sg_used_nonces st @ pending_secrets st)"
  by (simp add: secret_count_def)

lemma distinct_subset_mset:
  assumes "mset xs \<subseteq># mset ys" "distinct ys"
  shows "distinct xs"
proof -
  obtain zs where "mset zs = mset ys - mset xs" using ex_mset by blast
  then have "mset (xs @ zs) = mset ys" using assms(1) by simp
  then show ?thesis using assms(2) mset_eq_imp_distinct_iff distinct_append by metis
qed

lemma advances_safe:
  assumes "advances env st st'" "signing_safe env st"
  shows "signing_safe env st'"
proof -
  have "distinct (sg_used_nonces st' @ pending_secrets st')"
    using assms unfolding advances_def signing_safe_def secret_count_mset by (blast intro: distinct_subset_mset)
  then show ?thesis using assms by (auto simp: advances_def signing_safe_def)
qed

lemma start_safe:
  assumes "signing_safe env st" "fresh_nonces env rand st" "completion \<Longrightarrow> requestor = sg_local_node st"
    "start_session env rand now h requestor request completion st = (st', r)"
  shows "signing_safe env st'"
proof -
  have ok: "signing_ok env st" using assms(1) by (simp add: signing_safe_def)
  note S = start_session_spec [OF ok assms(3,4)]
  have "mset (sg_used_nonces st' @ pending_secrets st') = mset (sg_used_nonces st @ pending_secrets st) \<or>
    (\<exists>signers. mset (sg_used_nonces st' @ pending_secrets st') =
       mset ((sg_used_nonces st @ pending_secrets st) @ new_secrets env rand signers (rq_message_hashes request)))"
    using S by (simp add: secret_count_mset add.assoc)
  moreover have "distinct ((sg_used_nonces st @ pending_secrets st) @ new_secrets env rand signers hashes)" for signers hashes
    using assms(1,2) by (auto simp: signing_safe_def fresh_nonces_def)
  ultimately have "distinct (sg_used_nonces st' @ pending_secrets st')"
    using assms(1) unfolding signing_safe_def by (metis mset_eq_imp_distinct_iff)
  then show ?thesis using S assms(1) by (simp add: signing_safe_def)
qed

lemma step_safe: "signing_step env st st' \<Longrightarrow> signing_safe env st \<Longrightarrow> signing_safe env st'"
proof (induction rule: signing_step.induct)
  case (own rand st now h request st' r)
  show ?case by (rule start_safe [OF own(3,1) refl own(2) [unfolded start_attempt_def]])
next
  case (joined rand st now h requestor request st' r)
  show ?case by (rule start_safe [OF joined(3,1) _ joined(2)]) simp
qed (metis advances_safe signing_safeD refresh_advances accept_nonces_advances
    accept_partials_advances cleanup_advances remove_attempt_advances)+

lemma reachable_safe: "signing_reachable env st \<Longrightarrow> signing_safe env st"
proof (induction rule: signing_reachable.induct)
  case (initial local peers)
  let ?empty = "\<lparr>sg_local_node = local, sg_member_keys = [], sg_tree = None, sg_sessions = [],
        sg_used_nonces = [], sg_delivered = []\<rparr>"
  have "signing_safe env ?empty"
    by (simp add: signing_safe_def signing_ok_def tree_built_def pending_secrets_def)
  moreover have "advances env ?empty (signing_state_new env local peers)"
    using refresh_advances [of env ?empty peers] calculation
    by (cases "refresh_members env peers ?empty") (simp add: signing_state_new_def signing_safe_def)
  ultimately show ?case by (rule advances_safe [rotated])
qed (rule step_safe)

end
