(* ===== verification/Signing_Claims.thy ===== *)
theory Signing_Claims
  imports Signing_Sessions
begin

text \<open>
  The properties of distributed signing over every reachable state, and the small node the
  witnesses run: three members, of which the local one and one other sign one message.
\<close>

subsection \<open>A concrete run\<close>

definition toy_musig :: musig_env where
  "toy_musig = \<lparr>mu_sha = toy_sha, mu_valid_key = (\<lambda>_. True), mu_node_key = Some,
     mu_aggregate_key = concat, mu_new_nonce_pair = (\<lambda>rand cache mh. (rand, rand @ mh)),
     mu_valid_nonce = (\<lambda>_. True), mu_valid_partial = (\<lambda>_. True),
     mu_partial_sign = (\<lambda>(cache, nonces, mh) secret. mh),
     mu_partial_verify = (\<lambda>(cache, nonces, mh) partial nonce signer. partial = mh),
     mu_aggregate_partials = (\<lambda>(cache, nonces, mh) ps. concat ps),
     mu_verify = (\<lambda>key mh signature. key = [] \<or> set signature = set mh)\<rparr>"

definition toy_peer :: "bytes \<Rightarrow> peer" where
  "toy_peer key = \<lparr>pe_public_key = key, pe_socket_address = None, pe_last_seen = None,
     pe_status = (if key = [1] then Controlled else PeerActive), pe_discovery = False\<rparr>"

definition toy_rand :: "nat \<Rightarrow> bytes" where "toy_rand i = replicate i 0"

definition toy_request :: signing_request where
  "toy_request = \<lparr>rq_kind = ExchangeRewards, rq_branch = [1, 3], rq_message_hashes = [[5]]\<rparr>"

definition toy_members :: "storm_tree \<Rightarrow> signing_state" where
  "toy_members t = \<lparr>sg_local_node = [1], sg_member_keys = [([1], [1]), ([2], [2]), ([3], [3])],
     sg_tree = Some t, sg_sessions = [], sg_used_nonces = [], sg_delivered = []\<rparr>"

definition toy_empty :: signing_state where
  "toy_empty = \<lparr>sg_local_node = [1], sg_member_keys = [], sg_tree = None, sg_sessions = [],
     sg_used_nonces = [], sg_delivered = []\<rparr>"

definition toy_session :: "(bytes, signer_contribution) btree \<Rightarrow> bytes list option \<Rightarrow> signing_session" where
  "toy_session contributions secrets =
     \<lparr>sx_requestor = [1], sx_request = toy_request, sx_signers = [[1], [3]],
      sx_contributions = contributions, sx_secret_nonces = secrets, sx_completion = True, sx_created_at = 0\<rparr>"

definition toy_contribution :: "bytes list option \<Rightarrow> bytes list option \<Rightarrow> signer_contribution" where
  "toy_contribution nonces partials = \<lparr>sc_nonces = nonces, sc_partials = partials, sc_verified = False\<rparr>"

definition toy_started :: "storm_tree \<Rightarrow> signing_state" where
  "toy_started t = (toy_members t)\<lparr>sg_sessions := [([7], toy_session
     [([1], toy_contribution (Some [[5]]) None), ([3], toy_contribution None None)] (Some [[]]))]\<rparr>"

definition toy_signed :: "storm_tree \<Rightarrow> signing_state" where
  "toy_signed t = (toy_members t)\<lparr>sg_sessions := [([7], toy_session
       [([1], (toy_contribution (Some [[5]]) (Some [[5]]))\<lparr>sc_verified := True\<rparr>),
        ([3], toy_contribution (Some [replicate 66 4]) None)] None)],
     sg_used_nonces := [[]]\<rparr>"

definition toy_finished :: "storm_tree \<Rightarrow> signing_state" where
  "toy_finished t = (toy_members t)\<lparr>sg_used_nonces := [[]],
     sg_delivered := [([7], toy_request, Some [[5, 5]])]\<rparr>"

lemma toy_musig_simps [simp]:
  "mu_sha toy_musig = toy_sha" "mu_valid_key toy_musig = (\<lambda>_. True)" "mu_node_key toy_musig = Some"
  "mu_aggregate_key toy_musig = concat" "mu_new_nonce_pair toy_musig rand cache mh = (rand, rand @ mh)"
  "mu_valid_nonce toy_musig n = True" "mu_valid_partial toy_musig p = True"
  "mu_partial_sign toy_musig (cache, nonces, mh) secret = mh"
  "mu_partial_verify toy_musig (cache, nonces, mh) partial nonce signer = (partial = mh)"
  "mu_aggregate_partials toy_musig (cache, nonces, mh) ps = concat ps"
  "mu_verify toy_musig key mh signature = (key = [] \<or> set signature = set mh)"
  by (simp_all add: toy_musig_def)

lemma toy_signer_sets: "signer_sets [[1], [2], [3]] = {[[1], [2]], [[1], [3]], [[2], [3]] :: bytes list}"
  unfolding set_combinations_sort [of "[[1], [2], [3]] :: bytes list", simplified, symmetric]
  by (simp add: minimum_threshold_def numeral_2_eq_2)

lemma toy_tree:
  obtains t where "storm_tree_new toy_sha (\<lambda>_. True) concat [[1], [2], [3]] = Inr t"
    "nodes_for_branch t [1, 3] = Inr [[1], [3]]"
proof -
  obtain t where t: "storm_tree_new toy_sha (\<lambda>_. True) concat [[1], [2], [3]] = Inr t"
    using storm_tree_new_total [of "[[1], [2], [3]] :: bytes list" "\<lambda>_. True" concat toy_sha]
    by (auto simp: toy_signer_sets)
  from storm_tree_new_Inr [OF this]
  have "storm_ok toy_sha concat [[1], [2], [3]] t" by simp
  then have "bt_get (st_branches t) [1, 3] = Some [[1], [3]]"
    by (auto simp: storm_ok_def minimum_threshold_def)
  then have "nodes_for_branch t [1, 3] = Inr [[1], [3]]" by (simp add: nodes_for_branch_def)
  with t show thesis by (rule that)
qed

lemma toy_fresh: "set (sg_used_nonces st @ pending_secrets st) = {} \<Longrightarrow> fresh_nonces toy_musig toy_rand st"
proof -
  have *: "new_secrets toy_musig toy_rand signers hashes = map toy_rand [0..<length hashes]" for signers hashes
    unfolding new_secrets_def toy_musig_simps
    by (rule nth_equalityI) (simp_all add: nth_enumerate_eq)
  show "set (sg_used_nonces st @ pending_secrets st) = {} \<Longrightarrow> ?thesis"
    by (simp add: fresh_nonces_def * distinct_map inj_on_def toy_rand_def)
qed

lemma toy_run:
  assumes t: "storm_tree_new toy_sha (\<lambda>_. True) concat [[1], [2], [3]] = Inr t"
    and n: "nodes_for_branch t [1, 3] = Inr [[1], [3]]"
  shows "signing_state_new toy_musig [1] (map toy_peer [[3], [1], [2]]) = toy_members t"
    and "start_attempt toy_musig toy_rand 0 [7] toy_request (toy_members t) =
      (toy_started t, Inr (Some (NoncesMessage [7] \<lparr>sn_signer = [1], sn_nonces = [[5]]\<rparr>)))"
    and "accept_nonces toy_musig [7] [3] \<lparr>sn_signer = [3], sn_nonces = [replicate 66 4]\<rparr> (toy_started t) =
      (toy_signed t, Inr (Some (PartialsMessage [7] \<lparr>pm_signer = [1], pm_partial_signatures = [[5]]\<rparr>, [[3]])))"
    and "accept_partial_signatures toy_musig [7] [3] \<lparr>pm_signer = [3], pm_partial_signatures = [[5]]\<rparr> (toy_signed t) =
      (toy_finished t, Inr ())"
proof -
  show "signing_state_new toy_musig [1] (map toy_peer [[3], [1], [2]]) = toy_members t"
    by (simp add: signing_state_new_def refresh_members_def peer_keys_def node_key_def toy_peer_def
        bt_of_list_def bt_keys_def t toy_members_def)
  show "start_attempt toy_musig toy_rand 0 [7] toy_request (toy_members t) =
      (toy_started t, Inr (Some (NoncesMessage [7] \<lparr>sn_signer = [1], sn_nonces = [[5]]\<rparr>)))"
    by (simp add: start_attempt_def start_session_def toy_members_def toy_request_def n key_agg_cache_def
        Let_def toy_rand_def bt_of_list_def modify_contribution_def bt_get_def put_session_def
        toy_started_def toy_session_def toy_contribution_def)
  show "accept_nonces toy_musig [7] [3] \<lparr>sn_signer = [3], sn_nonces = [replicate 66 4]\<rparr> (toy_started t) =
      (toy_signed t, Inr (Some (PartialsMessage [7] \<lparr>pm_signer = [1], pm_partial_signatures = [[5]]\<rparr>, [[3]])))"
    by (simp add: accept_nonces_def toy_started_def toy_members_def toy_session_def toy_request_def
        toy_contribution_def bt_get_def modify_contribution_def put_session_def Let_def all_nonces_def
        bt_values_def key_agg_cache_def sign_with_taken_nonces_def sign_partials_def musig_session_def
        contribution_of_def recipient_transport_keys_def transport_key_def complete_session_def
        verify_signer_partials_def all_partials_def toy_signed_def)
  show "accept_partial_signatures toy_musig [7] [3] \<lparr>pm_signer = [3], pm_partial_signatures = [[5]]\<rparr> (toy_signed t) =
      (toy_finished t, Inr ())"
    by (simp add: accept_partial_signatures_def toy_signed_def toy_members_def toy_session_def toy_request_def
        toy_contribution_def bt_get_def modify_contribution_def put_session_def Let_def all_nonces_def
        bt_values_def key_agg_cache_def musig_session_def verify_signer_partials_def
        contribution_of_def complete_session_def all_partials_def aggregate_signature_def deliver_def
        bt_remove_def toy_finished_def)
qed

lemma toy_reachable:
  assumes t: "storm_tree_new toy_sha (\<lambda>_. True) concat [[1], [2], [3]] = Inr t"
    and n: "nodes_for_branch t [1, 3] = Inr [[1], [3]]"
  shows "signing_reachable toy_musig (toy_members t)" "signing_reachable toy_musig (toy_started t)"
    "signing_reachable toy_musig (toy_signed t)" "signing_reachable toy_musig (toy_finished t)"
proof -
  note R = toy_run [OF t n]
  show m: "signing_reachable toy_musig (toy_members t)"
    using signing_reachable.initial [of toy_musig "[1]" "map toy_peer [[3], [1], [2]]"] R(1) by simp
  have "fresh_nonces toy_musig toy_rand (toy_members t)"
    by (rule toy_fresh) (simp add: toy_members_def pending_secrets_def)
  from signing_step.own [OF this R(2)] show s: "signing_reachable toy_musig (toy_started t)"
    using m signing_reachable.later by blast
  from signing_step.nonces [OF R(3)] show n: "signing_reachable toy_musig (toy_signed t)"
    using s signing_reachable.later by blast
  from signing_step.partials [OF R(4)] show "signing_reachable toy_musig (toy_finished t)"
    using n signing_reachable.later by blast
qed

subsection \<open>Properties\<close>





lemma signing_never_panics_laws:
  assumes "signing_reachable env st"
  shows "snd (refresh_members env peers st) \<noteq> Inl Panic"
    and "snd (start_attempt env rand now h request st) \<noteq> Inl Panic"
    and "snd (start_session env rand now h requestor request False st) \<noteq> Inl Panic"
    and "snd (accept_nonces env h sender nonces st) \<noteq> Inl Panic"
    and "snd (accept_partial_signatures env h sender partials st) \<noteq> Inl Panic"
    and "snd (complete_session env h st) \<noteq> Inl Panic"
proof -
  have ok: "signing_ok env st" using reachable_safe [OF assms] by (simp add: signing_safe_def)
  show "snd (refresh_members env peers st) \<noteq> Inl Panic"
    using refresh_advances [OF ok] by (metis prod.collapse)
  show "snd (start_attempt env rand now h request st) \<noteq> Inl Panic"
    unfolding start_attempt_def using start_session_spec [OF ok] by (metis prod.collapse)
  show "snd (start_session env rand now h requestor request False st) \<noteq> Inl Panic"
    using start_session_spec [OF ok] by (metis prod.collapse)
  show "snd (accept_nonces env h sender nonces st) \<noteq> Inl Panic"
    using accept_nonces_advances [OF ok] by (metis prod.collapse)
  show "snd (accept_partial_signatures env h sender partials st) \<noteq> Inl Panic"
    using accept_partials_advances [OF ok] by (metis prod.collapse)
  show "snd (complete_session env h st) \<noteq> Inl Panic"
    using complete_session_advances [OF ok] by (metis prod.collapse)
qed



text \<open>
  The law of MuSig2: partial signatures that verify one by one aggregate to a signature that
  verifies under the aggregate key.
\<close>

definition musig_law :: "musig_env \<Rightarrow> bool" where
  "musig_law env \<longleftrightarrow> (\<forall>cache nonces mh partials.
     length nonces = length cache \<and> length partials = length cache \<and>
     (\<forall>j<length cache. mu_partial_verify env (cache, nonces, mh) (partials ! j) (nonces ! j) (cache ! j)) \<longrightarrow>
     mu_verify env (mu_aggregate_key env cache) mh (mu_aggregate_partials env (cache, nonces, mh) partials))"

lemma aggregate_succeeds:
  assumes law: "musig_law env" and s: "session_ok env local s" "all_nonces s" "all_partials s"
    and ver: "\<forall>k c. bt_get (sx_contributions s) k = Some c \<longrightarrow> sc_verified c"
  shows "\<exists>sigs. map_res (aggregate_signature env s (sx_signers s)) (enumerate 0 (rq_message_hashes (sx_request s))) = Inr sigs"
proof -
  let ?hs = "rq_message_hashes (sx_request s)"
  have "\<exists>sig. aggregate_signature env s (sx_signers s) (i, ?hs ! i) = Inr sig" if i: "i < length ?hs" for i
  proof -
    have im: "i < message_count s" using i by (simp add: message_count_def)
    have part: "mu_partial_verify env (sx_signers s, nonces_at s i, ?hs ! i) (partials_at s i ! j) (nonces_at s i ! j) (sx_signers s ! j)"
      if j: "j < length (sx_signers s)" for j
    proof -
      let ?k = "sx_signers s ! j"
      have "?k \<in> set (sx_signers s)" using j by simp
      from signer_contribution [OF s(1) this] obtain c where c: "bt_get (sx_contributions s) ?k = Some c"
        "contribution_of s ?k = Inr c" "contribution_ok env s ?k c" .
      then obtain ps ns where ps: "sc_partials c = Some ps" "verify_signer_partials env s (sx_signers s) ?k ps = Inr ()"
          and ns: "sc_nonces c = Some ns"
        using ver s(2) all_nonces_get [OF session_okD(3) [OF s(1)]] unfolding contribution_ok_def by blast
      have len: "length ps = message_count s" "length ns = message_count s"
        using c(3) ps ns by (simp_all add: contribution_ok_def)
      have "verify_partials_from env s (sx_signers s) ?k ns 0 (zip ps ?hs) = Inr ()"
        using ps(2) c(2) ns by (simp add: verify_signer_partials_def split: if_splits)
      then have "mu_partial_verify env (sx_signers s, nonces_at s i, ?hs ! i) (ps ! i) (ns ! i) ?k"
        using verify_from_Inr [OF s(1,2), of 0 "zip ps ?hs" ns] len im by (auto simp: message_count_def)
      then show ?thesis using j c(1) ps ns by (simp add: partials_at_def nonces_at_def)
    qed
    have law': "mu_verify env (mu_aggregate_key env (sx_signers s)) (?hs ! i)
        (mu_aggregate_partials env (sx_signers s, nonces_at s i, ?hs ! i) (partials_at s i))"
      using law part unfolding musig_law_def by (simp add: partials_at_def nonces_at_def)
    then show ?thesis unfolding aggregate_signature_total [OF s im] session_okD(2) [OF s(1)]
      by (simp add: Let_def)
  qed
  then have "\<forall>x\<in>set (enumerate 0 ?hs). \<exists>sig. aggregate_signature env s (sx_signers s) x = Inr sig"
    by (auto simp: in_set_enumerate_eq)
  then show ?thesis using map_res_all [of "enumerate 0 ?hs" "aggregate_signature env s (sx_signers s)"]
    by (metis (no_types, lifting))
qed

lemma verify_pending_total:
  assumes "session_ok env local s" "all_nonces s" "set l \<subseteq> set (sx_signers s)"
    "\<forall>k c ps. bt_get (sx_contributions s) k = Some c \<longrightarrow> sc_partials c = Some ps \<longrightarrow>
       verify_signer_partials env s (sx_signers s) k ps = Inr ()"
  shows "snd (verify_pending env (sx_signers s) l s) = Inr ()"
  using assms
proof (induction l arbitrary: s)
  case (Cons signer l)
  have "signer \<in> set (sx_signers s)" using Cons.prems(3) by simp
  from signer_contribution [OF Cons.prems(1) this]
  obtain c where c: "bt_get (sx_contributions s) signer = Some c" "contribution_of s signer = Inr c" .
  have l: "set l \<subseteq> set (sx_signers s)" using Cons.prems(3) by simp
  show ?case
  proof (cases "sc_verified c \<or> sc_partials c = None")
    case True
    then show ?thesis using Cons.IH [OF Cons.prems(1,2) l Cons.prems(4)] c by auto
  next
    case False
    then obtain ps where ps: "sc_partials c = Some ps" "\<not> sc_verified c" by auto
    have v: "verify_signer_partials env s (sx_signers s) signer ps = Inr ()"
      using Cons.prems(4) c(1) ps(1) by blast
    let ?t = "modify_contribution signer (\<lambda>c. c\<lparr>sc_verified := True\<rparr>) s"
    note M = mark_verified [OF Cons.prems(1,2) c(1) ps(1) v]
    have same: "same_round s ?t" by (rule same_round_modify) simp
    have "verify_signer_partials env ?t (sx_signers ?t) k qs = Inr ()"
      if "bt_get (sx_contributions ?t) k = Some d" "sc_partials d = Some qs" for k d qs
      using that Cons.prems(4) c(1) unfolding verify_signer_cong [OF same]
      by (auto simp: session_frame contributions_modify split: if_splits)
    moreover have "all_nonces ?t" using all_nonces_session [OF Cons.prems(1) M(1,2)] Cons.prems(2) by simp
    ultimately have "snd (verify_pending env (sx_signers ?t) l ?t) = Inr ()"
      using l M(1) by (intro Cons.IH) (auto simp: session_frame)
    then show ?thesis using c(2) ps v by (simp add: session_frame)
  qed
qed simp

lemma complete_session_delivers:
  assumes ok: "signing_ok env st" and law: "musig_law env"
    and h: "bt_get (sg_sessions st) h = Some s" "sx_requestor s = sg_local_node st" "all_nonces s" "all_partials s"
    and ver: "\<forall>k c ps. bt_get (sx_contributions s) k = Some c \<longrightarrow> sc_partials c = Some ps \<longrightarrow>
       verify_signer_partials env s (sx_signers s) k ps = Inr ()"
  shows "\<exists>st' sigs. complete_session env h st = (st', Inr ()) \<and> bt_get (sg_sessions st') h = None \<and>
    sg_delivered st' = sg_delivered st @ (if sx_completion s then [(h, sx_request s, Some sigs)] else [])"
proof -
  have s: "session_ok env (sg_local_node st) s" using ok h(1) by (simp add: signing_ok_def)
  obtain s' where v: "verify_pending env (sx_signers s) (sx_signers s) s = (s', Inr ())"
    using verify_pending_total [OF s h(3) subset_refl ver] by (metis prod.collapse)
  note V = verify_pending_spec [OF v s h(3) subset_refl]
  then have s': "session_ok env (sg_local_node st) s'" and same: "same_session s s'"
    and parts: "same_partials s s'" and marked: "set (sx_signers s) \<subseteq> verified_of s'" by simp_all
  have sig: "sx_signers s' = sx_signers s" "sx_request s' = sx_request s" "sx_completion s' = sx_completion s"
    using same by (simp_all add: same_session_def same_round_def)
  have an: "all_nonces s'" using all_nonces_session [OF s s' same] h(3) by simp
  have ap: "sc_partials c \<noteq> None" if "bt_get (sx_contributions s') k = Some c" for k c
  proof -
    have "map_option sc_partials (bt_get (sx_contributions s) k) = Some (sc_partials c)"
      using parts that unfolding same_partials_def by (metis option.simps(9))
    then obtain d where "bt_get (sx_contributions s) k = Some d" "sc_partials d = sc_partials c" by auto
    then show ?thesis using h(4) all_partials_get [OF session_okD(3) [OF s]] by metis
  qed
  then have all: "all_partials s'" unfolding all_partials_get [OF session_okD(3) [OF s']] by blast
  have "sc_verified c" if "bt_get (sx_contributions s') k = Some c" for k c
    using contribution_signer [OF s' that] marked sig(1) ap [OF that] that by (auto simp: verified_of_def)
  then obtain sigs where "map_res (aggregate_signature env s' (sx_signers s')) (enumerate 0 (rq_message_hashes (sx_request s'))) = Inr sigs"
    using aggregate_succeeds [OF law s' an all] by blast
  then have "complete_session env h st =
      (deliver h s' (Some sigs) ((put_session h s' st)\<lparr>sg_sessions := bt_remove h (sg_sessions (put_session h s' st))\<rparr>), Inr ())"
    using h v all sig by (simp add: complete_session_def key_agg_cache_ok [OF s] Let_def)
  then show ?thesis using sig by (simp add: deliver_removed bt_get_remove session_frame)
qed



subsection \<open>The choice of a branch\<close>

definition active_nodes :: "musig_env \<Rightarrow> peer list \<Rightarrow> bytes set \<Rightarrow> bytes set" where
  "active_nodes env peers connected =
     {key. \<exists>peer\<in>set peers. mu_node_key env (pe_public_key peer) = Some key \<and>
        (pe_status peer = Controlled \<or> pe_status peer = PeerActive \<and> pe_public_key peer \<in> connected)}"

lemma set_map_filter: "set (List.map_filter f xs) = {y. \<exists>x\<in>set xs. f x = Some y}"
  by (induction xs) (auto simp: List.map_filter_simps split: option.splits)

lemma select_branch_alt:
  "select_branch env peers connected attempted st = (case sg_tree st of None \<Rightarrow> None
     | Some tree \<Rightarrow> find (\<lambda>branch. branch \<notin> attempted \<and> (\<exists>nodes. nodes_for_branch tree branch = Inr nodes \<and>
         sg_local_node st \<in> set nodes \<and> set nodes \<subseteq> active_nodes env peers connected)) (bt_keys (st_branches tree)))"
proof -
  have "set (List.map_filter (\<lambda>peer. mu_node_key env (pe_public_key peer))
      (filter (\<lambda>peer. pe_status peer = Controlled \<or> pe_status peer = PeerActive \<and> pe_public_key peer \<in> connected) peers))
      = active_nodes env peers connected"
    by (auto simp: set_map_filter active_nodes_def)
  moreover have "(case r of Inl _ \<Rightarrow> False | Inr nodes \<Rightarrow> P nodes) \<longleftrightarrow> (\<exists>nodes. r = Inr nodes \<and> P nodes)"
    for r :: "storm_tree_error + bytes list" and P by (cases r) auto
  ultimately show ?thesis unfolding select_branch_def by (simp add: Let_def cong: option.case_cong)
qed

text \<open>
  A node that is itself active finds a branch to sign with exactly when the active nodes reach
  the threshold of its storm tree; the branch it finds belongs to the tree, the node is one of its
  signers and all of them are active.
\<close>

lemma branch_found_iff_quorum:
  assumes "storm_tree_new (mu_sha env) (mu_valid_key env) (mu_aggregate_key env) nodes = Inr tree"
    and "sg_tree st = Some tree" and "sg_local_node st \<in> set nodes"
    and "sg_local_node st \<in> active_nodes env peers connected"
  shows "(select_branch env peers connected {} st \<noteq> None \<longleftrightarrow>
      minimum_threshold (length nodes) \<le> card (set nodes \<inter> active_nodes env peers connected)) \<and>
    (\<forall>branch. select_branch env peers connected {} st = Some branch \<longrightarrow>
      (\<exists>signers\<in>signer_sets nodes. nodes_for_branch tree branch = Inr signers \<and>
         sg_local_node st \<in> set signers \<and> set signers \<subseteq> active_nodes env peers connected))"
proof -
  let ?A = "active_nodes env peers connected" and ?k = "minimum_threshold (length nodes)"
  note N = storm_tree_new_Inr [OF assms(1)]
  then have ok: "storm_ok (mu_sha env) (mu_aggregate_key env) nodes tree" and n: "3 \<le> length nodes"
    and dist: "distinct nodes" by (simp_all add: storm_ok_def)
  have get: "nodes_for_branch tree b = Inr ps \<longleftrightarrow> ps \<in> signer_sets nodes \<and> mu_aggregate_key env ps = b" for b ps
    using ok unfolding storm_ok_def signer_sets_def nodes_for_branch_def by auto
  have key: "b \<in> set (bt_keys (st_branches tree))" if "nodes_for_branch tree b = Inr ps" for b ps
    using that bt_get_None_iff [of "st_branches tree" b] by (simp add: nodes_for_branch_def)
  let ?usable = "\<lambda>ps. ps \<in> signer_sets nodes \<and> sg_local_node st \<in> set ps \<and> set ps \<subseteq> ?A"
  have sel: "select_branch env peers connected {} st = find (\<lambda>b. \<exists>ps. nodes_for_branch tree b = Inr ps \<and>
      sg_local_node st \<in> set ps \<and> set ps \<subseteq> ?A) (bt_keys (st_branches tree))"
    unfolding select_branch_alt assms(2) by simp
  have some: "select_branch env peers connected {} st \<noteq> None \<longleftrightarrow> (\<exists>ps. ?usable ps)"
    unfolding sel using get key by (auto simp: find_None_iff)
  have card: "card (set ps) = ?k" if "ps \<in> signer_sets nodes" for ps
    using that strict_sorted_iff [of ps] by (auto simp: signer_sets_def distinct_card)
  have "(\<exists>ps. ?usable ps) \<longleftrightarrow> ?k \<le> card (set nodes \<inter> ?A)"
  proof
    assume "\<exists>ps. ?usable ps"
    then obtain ps where ps: "?usable ps" by blast
    then have "card (set ps) \<le> card (set nodes \<inter> ?A)" by (intro card_mono) (auto simp: signer_sets_def)
    then show "?k \<le> card (set nodes \<inter> ?A)" using card ps by simp
  next
    assume big: "?k \<le> card (set nodes \<inter> ?A)"
    let ?l = "sg_local_node st"
    have lin: "?l \<in> set nodes \<inter> ?A" using assms(3,4) by simp
    have "1 \<le> ?k" using n threshold_thirds [of "length nodes"] by linarith
    moreover have "card (set nodes \<inter> ?A - {?l}) = card (set nodes \<inter> ?A) - 1" using lin by simp
    ultimately have "?k - 1 \<le> card (set nodes \<inter> ?A - {?l})" using big by simp
    then obtain R where R: "R \<subseteq> set nodes \<inter> ?A - {?l}" "card R = ?k - 1" "finite R"
      by (metis obtain_subset_with_card_n)
    define S where "S = insert ?l R"
    have S: "finite S" "card S = ?k" "?l \<in> S" "S \<subseteq> set nodes \<inter> ?A"
      using R lin \<open>1 \<le> ?k\<close> by (auto simp: S_def card_insert_if)
    then have "?usable (sorted_list_of_set S)" by (auto simp: signer_sets_def)
    then show "\<exists>ps. ?usable ps" by blast
  qed
  moreover have "\<exists>signers\<in>signer_sets nodes. nodes_for_branch tree b = Inr signers \<and>
      sg_local_node st \<in> set signers \<and> set signers \<subseteq> ?A"
    if "select_branch env peers connected {} st = Some b" for b
    using that find_SomeD [OF that [unfolded sel]] get by blast
  ultimately show ?thesis using some by blast
qed

lemma branch_found_iff_quorum_witness:
  "\<exists>t. storm_tree_new toy_sha (\<lambda>_. True) concat [[1], [2], [3]] = Inr t \<and>
    select_branch toy_musig (map toy_peer [[1], [3]]) {[3]} {} (toy_members t) \<noteq> None"
proof -
  obtain t where t: "storm_tree_new toy_sha (\<lambda>_. True) concat [[1], [2], [3]] = Inr t" using toy_tree by blast
  have a: "active_nodes toy_musig (map toy_peer [[1], [3]]) {[3]} = {[1], [3]}"
    by (auto simp: active_nodes_def toy_peer_def)
  have i: "set [[1], [2], [3 :: u8]] \<inter> {[1], [3]} = {[1], [3]}" by auto
  have "minimum_threshold (length [[1], [2], [3 :: u8]]) \<le> card (set [[1], [2], [3 :: u8]] \<inter> {[1], [3]})"
    unfolding i by (simp add: minimum_threshold_def)
  then show ?thesis
    using branch_found_iff_quorum [of toy_musig "[[1], [2], [3]]" t "toy_members t"
        "map toy_peer [[1], [3]]" "{[3]}"] t
    unfolding a by (simp add: toy_members_def)
qed

subsection \<open>The handlers\<close>

lemma fresh_advances:
  assumes "advances env st st'" "fresh_nonces env rand st"
  shows "fresh_nonces env rand st'"
proof -
  have "mset (sg_used_nonces st' @ pending_secrets st') \<subseteq># mset (sg_used_nonces st @ pending_secrets st)"
    using assms(1) unfolding advances_def secret_count_mset by blast
  then have "set (sg_used_nonces st' @ pending_secrets st') \<subseteq> set (sg_used_nonces st @ pending_secrets st)"
    by (metis set_mset_mono set_mset_mset)
  then show ?thesis using assms(2) unfolding fresh_nonces_def by blast
qed

lemma start_remote_reachable:
  assumes r: "signing_reachable env st" and f: "fresh_nonces env rand st"
    and run: "start_remote env rand now peers sender h request st = (st', res)"
  shows "signing_reachable env st'"
proof (cases "node_key env sender")
  case (Inl e)
  then show ?thesis using run r by (simp add: start_remote_def)
next
  case (Inr requestor)
  obtain st1 r1 where R: "refresh_members env peers st = (st1, r1)" by fastforce
  have ok: "signing_ok env st" using reachable_safe [OF r] by (simp add: signing_safe_def)
  have adv1: "advances env st st1" using refresh_advances [OF ok R] by simp
  then have ok1: "signing_ok env st1" by (simp add: advances_def)
  have r1: "signing_reachable env st1" using r signing_step.members [OF R] by (rule signing_reachable.later)
  show ?thesis
  proof (cases r1)
    case Inl': (Inl e)
    then show ?thesis using run R r1 Inr by (simp add: start_remote_def)
  next
    case Inr': (Inr u)
    let ?st2 = "remove_expired_sessions now st1"
    obtain st3 r3 where S: "start_session env rand now h requestor request False ?st2 = (st3, r3)" by fastforce
    have f2: "fresh_nonces env rand ?st2"
      using fresh_advances [OF advances_trans [OF adv1 cleanup_advances [OF ok1]] f] .
    have r2: "signing_reachable env ?st2" using r1 signing_step.cleanup by (rule signing_reachable.later)
    have r3: "signing_reachable env st3" using r2 signing_step.joined [OF f2 S] by (rule signing_reachable.later)
    have "st' = st3" using run R S Inr Inr' by (auto simp: start_remote_def split: sum.splits option.splits)
    with r3 show ?thesis by simp
  qed
qed

lemmas signing_handlers = handle_execute_user_requests_def handle_burn_expired_utxos_def
  handle_exchange_rewards_def handle_execute_voting_request_def handle_renew_storm_utxos_def
  handle_signing_nonces_def handle_partial_signatures_def

lemma handlers_reachable_laws:
  assumes "signing_reachable env st" and "fresh_nonces env rand st"
  shows "signing_reachable env (fst (handle_execute_user_requests env rand now peers coordinator sender h price_hash eu st))"
    and "signing_reachable env (fst (handle_burn_expired_utxos env rand now peers leader sender h be st))"
    and "signing_reachable env (fst (handle_exchange_rewards env rand now peers leader sender h ex st))"
    and "signing_reachable env (fst (handle_execute_voting_request env rand now peers sender h ev st))"
    and "signing_reachable env (fst (handle_renew_storm_utxos env rand now peers sender h rn st))"
    and "signing_reachable env (fst (handle_signing_nonces env link sender nonces st))"
    and "signing_reachable env (fst (handle_partial_signatures env link sender partials st))"
    and "sender \<noteq> coordinator \<Longrightarrow>
      fst (handle_execute_user_requests env rand now peers coordinator sender h price_hash eu st) = st"
    and "sender \<noteq> leader \<Longrightarrow> fst (handle_burn_expired_utxos env rand now peers leader sender h be st) = st \<and>
      fst (handle_exchange_rewards env rand now peers leader sender h ex st) = st"
proof -
  note S = start_remote_reachable [OF assms prod.collapse [symmetric]]
  have N: "signing_reachable env (fst (accept_nonces env h s m st))" for h s m
    using signing_reachable.later [OF assms(1) signing_step.nonces] by (metis prod.collapse)
  have P: "signing_reachable env (fst (accept_partial_signatures env h s m st))" for h s m
    using signing_reachable.later [OF assms(1) signing_step.partials] by (metis prod.collapse)
  show "signing_reachable env (fst (handle_execute_user_requests env rand now peers coordinator sender h price_hash eu st))"
    "signing_reachable env (fst (handle_burn_expired_utxos env rand now peers leader sender h be st))"
    "signing_reachable env (fst (handle_exchange_rewards env rand now peers leader sender h ex st))"
    "signing_reachable env (fst (handle_execute_voting_request env rand now peers sender h ev st))"
    "signing_reachable env (fst (handle_renew_storm_utxos env rand now peers sender h rn st))"
    "signing_reachable env (fst (handle_signing_nonces env link sender nonces st))"
    "signing_reachable env (fst (handle_partial_signatures env link sender partials st))"
    using assms(1) by (auto simp: signing_handlers intro: S N P split: sum.split)
  show "sender \<noteq> coordinator \<Longrightarrow>
      fst (handle_execute_user_requests env rand now peers coordinator sender h price_hash eu st) = st"
    by (simp add: signing_handlers require_sender_def require_def)
  show "sender \<noteq> leader \<Longrightarrow> fst (handle_burn_expired_utxos env rand now peers leader sender h be st) = st \<and>
      fst (handle_exchange_rewards env rand now peers leader sender h ex st) = st"
    by (simp add: signing_handlers require_sender_def require_def)
qed



text \<open>
  Both sides of a signing sign the same things. What a requester sends for an attempt passes
  the checks of every authorized receiver, which starts a session of the same kind over the same
  branch and the same list of message hashes as the requester's own session.
\<close>

lemma requester_and_signers_agree:
  shows "(sign_execute_user_requests round price_hash externals tip branch = Inr (eu, hashes) \<longrightarrow>
      handle_execute_user_requests env rand now peers sender sender h price_hash eu st =
      start_remote env rand now peers sender h
        \<lparr>rq_kind = ExecuteUserRequests, rq_branch = branch, rq_message_hashes = hashes\<rparr> st) \<and>
    (sign_burn_expired_utxos tx mh height tip branch = Inr (be, hashes) \<longrightarrow>
      handle_burn_expired_utxos env rand now peers sender sender h be st =
      start_remote env rand now peers sender h
        \<lparr>rq_kind = BurnExpiredUtxos, rq_branch = branch, rq_message_hashes = hashes\<rparr> st) \<and>
    (sign_exchange_rewards tx mh height tip branch = Inr (ex, hashes) \<longrightarrow>
      handle_exchange_rewards env rand now peers sender sender h ex st =
      start_remote env rand now peers sender h
        \<lparr>rq_kind = ExchangeRewards, rq_branch = branch, rq_message_hashes = hashes\<rparr> st) \<and>
    (sign_execute_voting_request tx mhs proposer tip branch = (ev, hashes) \<longrightarrow> tx \<noteq> [] \<longrightarrow>
      handle_execute_voting_request env rand now peers sender h ev st =
      start_remote env rand now peers sender h
        \<lparr>rq_kind = ExecuteVoting, rq_branch = branch, rq_message_hashes = hashes\<rparr> st) \<and>
    (sign_renew_storm_utxos renewal branch = (rn, hashes) \<longrightarrow> rn_tx renewal \<noteq> [] \<longrightarrow>
      hashes \<noteq> [] \<longrightarrow> rn_final_tx renewal = None \<longrightarrow>
      handle_renew_storm_utxos env rand now peers sender h rn st =
      start_remote env rand now peers sender h
        \<lparr>rq_kind = RenewStormUtxos, rq_branch = branch, rq_message_hashes = hashes\<rparr> st)"
  by (intro conjI impI; auto simp: signing_handlers require_sender_def require_def sign_execute_user_requests_def
      sign_burn_expired_utxos_def sign_exchange_rewards_def sign_execute_voting_request_def
      sign_renew_storm_utxos_def bind_res_eq_Inr split: if_splits)

lemma requester_and_signers_agree_witness:
  "\<exists>be. sign_burn_expired_utxos [1] [5] 9 \<lparr>ct_height = 9, ct_hash = [2]\<rparr> [1, 3] = Inr (be, [[5]]) \<and>
    handle_burn_expired_utxos toy_musig toy_rand 0 [] [3] [3] [8] be toy_empty =
    start_remote toy_musig toy_rand 0 [] [3] [8]
      \<lparr>rq_kind = BurnExpiredUtxos, rq_branch = [1, 3], rq_message_hashes = [[5]]\<rparr> toy_empty"
proof -
  obtain be where be: "sign_burn_expired_utxos [1] [5] 9 \<lparr>ct_height = 9, ct_hash = [2]\<rparr> [1, 3] = Inr (be, [[5]])"
    by (simp add: sign_burn_expired_utxos_def)
  from requester_and_signers_agree [THEN conjunct2, THEN conjunct1, rule_format, OF be] be show ?thesis by blast
qed

end
