(* ===== verification/Voting_Store.thy ===== *)
theory Voting_Store
  imports Node_Message Ordered_Map "HOL-Library.Product_Lexorder"
begin

text \<open>
  The stored votings (\<open>db/voting.rs\<close>): one row per request, under the hash of its message, and one
  row per approval, under the hash of the request and the key of the approver. The tables' primary
  keys and the foreign key of the approvals are those of the migrations. A failure of the database
  itself is not modelled: its statements do what they say.
\<close>

datatype voting_store_error = HeightOutOfRange u64 | NoSuchRequest | ExecutionStateNotUpdated

record voting_row =
  vr_message :: bytes
  vr_proposer :: "bytes option"
  vr_block_height :: u64
  vr_approved_at :: "u64 option"
  vr_started :: bool
  vr_transaction :: "bytes option"
  vr_request :: "bytes option"
  vr_txid :: "bytes option"
  vr_confirmed :: bool
  vr_included_at :: "u64 option"
  vr_included_hash :: "bytes option"

record approval_row =
  ar_message :: bytes
  ar_block_height :: u64

record voting_db =
  vd_requests :: "(bytes, voting_row) btree"
  vd_approvals :: "(bytes \<times> bytes, approval_row) btree"

record stored_approval =
  sa_public_key :: bytes
  sa_message :: bytes
  sa_block_height :: u64

record stored_request =
  sv_message_hash :: bytes
  sv_message :: bytes
  sv_proposer :: "bytes option"
  sv_block_height :: u64
  sv_approved_at :: "u64 option"
  sv_started :: bool
  sv_transaction :: "bytes option"
  sv_request :: "bytes option"
  sv_txid :: "bytes option"
  sv_confirmed :: bool
  sv_approvals :: "stored_approval list"

text \<open>The database's integers are signed.\<close>

definition height_to_i64 :: "u64 \<Rightarrow> voting_store_error + u64" where
  "height_to_i64 height = (if unat height < 2 ^ 63 then Inr height else Inl (HeightOutOfRange height))"

subsection \<open>Requests and approvals\<close>

definition insert_synchronized_request ::
  "bytes \<Rightarrow> bytes \<Rightarrow> bytes option \<Rightarrow> u64 \<Rightarrow> voting_db \<Rightarrow> voting_db \<times> (voting_store_error + bool)" where
  "insert_synchronized_request hash message proposer height db =
     (case height_to_i64 height of
        Inl e \<Rightarrow> (db, Inl e)
      | Inr h \<Rightarrow>
          if bt_get (vd_requests db) hash \<noteq> None then (db, Inr False)
          else (db\<lparr>vd_requests := bt_insert hash
                 \<lparr>vr_message = message, vr_proposer = proposer, vr_block_height = h,
                  vr_approved_at = None, vr_started = False, vr_transaction = None, vr_request = None,
                  vr_txid = None, vr_confirmed = False, vr_included_at = None, vr_included_hash = None\<rparr>
                 (vd_requests db)\<rparr>, Inr True))"

definition insert_request ::
  "bytes \<Rightarrow> bytes \<Rightarrow> bytes \<Rightarrow> u64 \<Rightarrow> voting_db \<Rightarrow> voting_db \<times> (voting_store_error + bool)" where
  "insert_request hash message proposer height db =
     insert_synchronized_request hash message (Some proposer) height db"

definition approvals_of :: "voting_db \<Rightarrow> bytes \<Rightarrow> ((bytes \<times> bytes) \<times> approval_row) list" where
  "approvals_of db hash = filter (\<lambda>((h, key), row). h = hash) (vd_approvals db)"

definition approval_count :: "voting_db \<Rightarrow> bytes \<Rightarrow> nat" where
  "approval_count db hash = length (approvals_of db hash)"

text \<open>
  An \<open>UPDATE\<close> of the row of one request, when it is there and meets the condition; the number of
  updated rows is 1 or 0.
\<close>

definition update_row ::
  "bytes \<Rightarrow> (voting_row \<Rightarrow> bool) \<Rightarrow> (voting_row \<Rightarrow> voting_row) \<Rightarrow> voting_db \<Rightarrow> voting_db \<times> nat" where
  "update_row hash P f db =
     (case bt_get (vd_requests db) hash of
        None \<Rightarrow> (db, 0)
      | Some row \<Rightarrow>
          if P row then (db\<lparr>vd_requests := bt_insert hash (f row) (vd_requests db)\<rparr>, 1) else (db, 0))"

definition insert_approval ::
  "bytes \<Rightarrow> bytes \<Rightarrow> bytes \<Rightarrow> u64 \<Rightarrow> nat \<Rightarrow> voting_db \<Rightarrow> voting_db \<times> (voting_store_error + bool)" where
  "insert_approval hash key message height required db =
     (case height_to_i64 height of
        Inl e \<Rightarrow> (db, Inl e)
      | Inr h \<Rightarrow>
          if bt_get (vd_requests db) hash = None then (db, Inl NoSuchRequest)
          else if bt_get (vd_approvals db) (hash, key) \<noteq> None then (db, Inr False)
          else
            let db1 = db\<lparr>vd_approvals := bt_insert (hash, key)
                        \<lparr>ar_message = message, ar_block_height = h\<rparr> (vd_approvals db)\<rparr>
            in if required \<le> approval_count db1 hash
               then (fst (update_row hash (\<lambda>row. vr_approved_at row = None)
                            (\<lambda>row. row\<lparr>vr_approved_at := Some h\<rparr>) db1), Inr True)
               else (db1, Inr True))"

definition request_from_row :: "voting_db \<Rightarrow> bytes \<Rightarrow> voting_row \<Rightarrow> stored_request" where
  "request_from_row db hash row =
     \<lparr>sv_message_hash = hash, sv_message = vr_message row, sv_proposer = vr_proposer row,
      sv_block_height = vr_block_height row, sv_approved_at = vr_approved_at row,
      sv_started = vr_started row, sv_transaction = vr_transaction row, sv_request = vr_request row,
      sv_txid = vr_txid row, sv_confirmed = vr_confirmed row,
      sv_approvals = sort_key (\<lambda>a. (sa_block_height a, sa_public_key a))
        (map (\<lambda>((h, key), a). \<lparr>sa_public_key = key, sa_message = ar_message a,
                               sa_block_height = ar_block_height a\<rparr>) (approvals_of db hash))\<rparr>"

definition get_request :: "voting_db \<Rightarrow> bytes \<Rightarrow> stored_request option" where
  "get_request db hash = map_option (request_from_row db hash) (bt_get (vd_requests db) hash)"

definition list_requests :: "voting_db \<Rightarrow> stored_request list" where
  "list_requests db =
     map (\<lambda>(hash, row). request_from_row db hash row)
       (sort_key (\<lambda>(hash, row). (vr_block_height row, hash)) (vd_requests db))"

definition unconfirmed_request_messages :: "voting_db \<Rightarrow> (bytes \<times> u64 \<times> u64 option) list" where
  "unconfirmed_request_messages db =
     map (\<lambda>(hash, row). (vr_message row, vr_block_height row, vr_approved_at row))
       (filter (\<lambda>(hash, row). \<not> vr_confirmed row) (vd_requests db))"

definition active_request_count :: "voting_db \<Rightarrow> nat" where
  "active_request_count db = length (filter (\<lambda>(hash, row). \<not> vr_confirmed row) (vd_requests db))"

definition active_request_count_for_proposer :: "bytes option \<Rightarrow> voting_db \<Rightarrow> nat" where
  "active_request_count_for_proposer proposer db =
     length (filter (\<lambda>(hash, row). \<not> vr_confirmed row \<and> vr_proposer row = proposer) (vd_requests db))"

subsection \<open>Execution\<close>

definition start_execution :: "bytes \<Rightarrow> bytes \<Rightarrow> voting_db \<Rightarrow> voting_db \<times> bool" where
  "start_execution hash transaction db =
     (case update_row hash
             (\<lambda>row. vr_approved_at row \<noteq> None \<and> \<not> vr_started row \<and> vr_txid row = None)
             (\<lambda>row. row\<lparr>vr_started := True, vr_transaction := Some transaction\<rparr>) db of
        (db', updated) \<Rightarrow> (db', updated = 1))"

definition expect_updated :: "voting_db \<times> nat \<Rightarrow> voting_db \<times> (voting_store_error + unit)" where
  "expect_updated = (\<lambda>(db, updated). (db, if updated \<noteq> 1 then Inl ExecutionStateNotUpdated else Inr ()))"

definition cancel_execution :: "bytes \<Rightarrow> voting_db \<Rightarrow> voting_db \<times> (voting_store_error + unit)" where
  "cancel_execution hash db =
     expect_updated (update_row hash (\<lambda>row. vr_txid row = None)
       (\<lambda>row. row\<lparr>vr_started := False, vr_transaction := None\<rparr>) db)"

definition coalesce :: "'a option \<Rightarrow> 'a \<Rightarrow> 'a" where
  "coalesce x y = (case x of None \<Rightarrow> y | Some a \<Rightarrow> a)"

definition record_broadcast ::
  "bytes \<Rightarrow> bytes \<Rightarrow> bytes \<Rightarrow> bytes \<Rightarrow> bytes \<Rightarrow> voting_db \<Rightarrow> voting_db \<times> (voting_store_error + unit)" where
  "record_broadcast hash proposer transaction request txid db =
     expect_updated (update_row hash
       (\<lambda>row. vr_approved_at row \<noteq> None \<and> \<not> vr_confirmed row \<and>
          (vr_transaction row = None \<or> vr_transaction row = Some transaction) \<and>
          (vr_proposer row = None \<or> vr_proposer row = Some proposer) \<and>
          (vr_txid row = None \<or> vr_txid row = Some txid))
       (\<lambda>row. row\<lparr>vr_started := True, vr_transaction := Some (coalesce (vr_transaction row) transaction),
          vr_request := Some request, vr_proposer := Some (coalesce (vr_proposer row) proposer),
          vr_txid := Some txid\<rparr>) db)"

definition confirm_execution :: "bytes \<Rightarrow> bytes \<Rightarrow> voting_db \<Rightarrow> voting_db \<times> (voting_store_error + unit)" where
  "confirm_execution hash txid db =
     expect_updated (update_row hash
       (\<lambda>row. vr_approved_at row \<noteq> None \<and> vr_request row \<noteq> None \<and> vr_txid row = Some txid \<and>
          vr_included_hash row \<noteq> None \<and> \<not> vr_confirmed row)
       (\<lambda>row. row\<lparr>vr_started := False, vr_confirmed := True\<rparr>) db)"

definition mark_execution_included ::
  "bytes \<Rightarrow> bytes \<Rightarrow> u64 \<Rightarrow> bytes \<Rightarrow> voting_db \<Rightarrow> voting_db \<times> (voting_store_error + unit)" where
  "mark_execution_included hash txid height block_hash db =
     (case height_to_i64 height of
        Inl e \<Rightarrow> (db, Inl e)
      | Inr h \<Rightarrow>
          expect_updated (update_row hash (\<lambda>row. vr_txid row = Some txid \<and> \<not> vr_confirmed row)
            (\<lambda>row. row\<lparr>vr_included_at := Some h, vr_included_hash := Some block_hash\<rparr>) db))"

definition mark_execution_orphaned :: "bytes \<Rightarrow> bytes \<Rightarrow> voting_db \<Rightarrow> voting_db" where
  "mark_execution_orphaned hash txid db =
     fst (update_row hash (\<lambda>row. vr_txid row = Some txid \<and> \<not> vr_confirmed row)
       (\<lambda>row. row\<lparr>vr_included_at := None, vr_included_hash := None\<rparr>) db)"

text \<open>
  A row is expired a timeout after its approval, or after its arrival when it is not approved; the
  rows of executions under way stay. The sum is the exact one: heights near 2^63 do not occur.
\<close>

definition row_expired :: "u64 \<Rightarrow> u64 \<Rightarrow> voting_row \<Rightarrow> bool" where
  "row_expired current timeout row \<longleftrightarrow>
     (vr_confirmed row \<or> \<not> vr_started row \<and> vr_txid row = None) \<and>
     (case vr_approved_at row of
        None \<Rightarrow> unat (vr_block_height row) + unat timeout \<le> unat current
      | Some approved \<Rightarrow> unat approved + unat timeout \<le> unat current)"

definition delete_expired :: "u64 \<Rightarrow> u64 \<Rightarrow> voting_db \<Rightarrow> voting_db \<times> (voting_store_error + nat)" where
  "delete_expired current timeout db =
     (case bind_res (height_to_i64 current) (\<lambda>c. bind_res (height_to_i64 timeout) (\<lambda>t. Inr (c, t))) of
        Inl e \<Rightarrow> (db, Inl e)
      | Inr (c, t) \<Rightarrow>
          let kept = filter (\<lambda>(hash, row). \<not> row_expired c t row) (vd_requests db) in
          (db\<lparr>vd_requests := kept,
              vd_approvals := filter (\<lambda>((hash, key), a). bt_get kept hash \<noteq> None) (vd_approvals db)\<rparr>,
           Inr (length (vd_requests db) - length kept)))"

end
