(* ===== verification/Voting.thy ===== *)
theory Voting
  imports Voting_Store Storm_Tree
begin

text \<open>
  Votings (\<open>high_storm/voting.rs\<close>): the checks of a proposal, the acceptance of requests, approvals
  and synchronised records, and the status of a voting. The postcard encoding, SHA-256 and the
  Schnorr signatures are the fields of \<open>voting_env\<close>; peers and block heights are arguments, and what
  an operation sends is part of its result.
\<close>

record voting_env =
  ve_sha :: "bytes \<Rightarrow> bytes"
  ve_encode :: "node_message \<Rightarrow> bytes"
  ve_decode :: "bytes \<Rightarrow> node_message option"
  ve_encode_vote :: "network_vote_request \<Rightarrow> bytes"
  ve_decode_vote :: "bytes \<Rightarrow> network_vote_request option"
  ve_encode_proposal :: "voting_proposal \<Rightarrow> bytes"
  ve_decode_proposal :: "bytes \<Rightarrow> voting_proposal option"
  ve_encode_signed :: "signed_voting_proposal \<Rightarrow> bytes"
  ve_decode_signed :: "bytes \<Rightarrow> signed_voting_proposal option"
  ve_encode_approval :: "approve_voting_request \<Rightarrow> bytes"
  ve_decode_approval :: "bytes \<Rightarrow> approve_voting_request option"
  ve_decode_members :: "bytes \<Rightarrow> update_network_members option"
  ve_decode_merge :: "bytes \<Rightarrow> merge_storm_eyes option"
  ve_decode_split :: "bytes \<Rightarrow> split_storm_eye option"
  ve_encode_execute :: "execute_voting_request \<Rightarrow> bytes"
  ve_decode_execute :: "bytes \<Rightarrow> execute_voting_request option"
  ve_valid_key :: "bytes \<Rightarrow> bool"
  ve_node_key :: "bytes \<Rightarrow> bytes option"
  ve_verify :: "bytes \<Rightarrow> bytes \<Rightarrow> bytes \<Rightarrow> bool"
  ve_local_key :: bytes
  ve_sign :: "bytes \<Rightarrow> bytes"
  ve_coordinator :: bytes

definition VOTING_TIMEOUT_BLOCKS :: u64 where "VOTING_TIMEOUT_BLOCKS = 10080"
definition MAX_ACTIVE_VOTINGS_PER_PROPOSER :: nat where "MAX_ACTIVE_VOTINGS_PER_PROPOSER = 50"
definition MAX_PROPOSAL_FUTURE_BLOCKS :: u64 where "MAX_PROPOSAL_FUTURE_BLOCKS = 1"
definition MAX_MISSING_EXECUTIONS_PER_SYNC :: nat where "MAX_MISSING_EXECUTIONS_PER_SYNC = 64"

datatype voting_status = Pending | Approved | Executing | Executed

record voting_approval =
  va_public_key :: bytes
  va_block_height :: u64

record voting_request =
  vq_message_hash :: bytes
  vq_request :: network_vote_request
  vq_proposer :: "bytes option"
  vq_block_height :: u64
  vq_status :: voting_status
  vq_txid :: "bytes option"
  vq_approvals :: "voting_approval list"

datatype voting_error =
    InvalidRequest string
  | InvalidApproval string
  | UnknownRequest bytes
  | DuplicateRequest bytes
  | DuplicateApproval bytes
  | StoreFailure voting_store_error
  | EncodingFailure
  | MigrationFailure

datatype migration_outcome = MigrationBegun | MigrationAlreadyStaged | MigrationRefused

definition decoded :: "'a option \<Rightarrow> voting_error + 'a" where
  "decoded x = ok_or EncodingFailure x"

definition stored_result :: "voting_store_error + 'a \<Rightarrow> voting_error + 'a" where
  "stored_result r = (case r of Inl e \<Rightarrow> Inl (StoreFailure e) | Inr a \<Rightarrow> Inr a)"

subsection \<open>Messages\<close>

definition message_hash :: "voting_env \<Rightarrow> node_message \<Rightarrow> bytes" where
  "message_hash env message = ve_sha env (ve_encode env message)"

definition canonical_hash :: "voting_env \<Rightarrow> network_vote_request \<Rightarrow> bytes" where
  "canonical_hash env request = ve_sha env (ve_encode_vote env request)"

definition new_voting_request :: "voting_env \<Rightarrow> network_vote_request \<Rightarrow> u64 \<Rightarrow> node_message" where
  "new_voting_request env request height =
     \<lparr>nm_kind = kind_id NetworkVote, nm_linked_to = None,
      nm_payload = ve_encode_proposal env \<lparr>vp_request = request, vp_created_at = height\<rparr>\<rparr>"

definition decode_voting_proposal ::
  "voting_env \<Rightarrow> node_message \<Rightarrow> voting_error + network_vote_request \<times> u64 option" where
  "decode_voting_proposal env message =
     (case ve_decode_signed env (nm_payload message) of
        Some proposal \<Rightarrow> Inr (sp_request proposal, Some (sp_created_at proposal))
      | None \<Rightarrow>
          (case ve_decode_proposal env (nm_payload message) of
             Some proposal \<Rightarrow> Inr (vp_request proposal, Some (vp_created_at proposal))
           | None \<Rightarrow> bind_res (decoded (ve_decode_vote env (nm_payload message)))
                       (\<lambda>request. Inr (request, None))))"

definition decode_voting_request :: "voting_env \<Rightarrow> node_message \<Rightarrow> voting_error + network_vote_request" where
  "decode_voting_request env message =
     bind_res (decode_voting_proposal env message) (\<lambda>(request, _). Inr request)"

subsection \<open>Members\<close>

definition vote_node_key :: "voting_env \<Rightarrow> bytes \<Rightarrow> voting_error + bytes" where
  "vote_node_key env encoded = ok_or (InvalidRequest ''invalid public key'') (ve_node_key env encoded)"

definition member_keys :: "voting_env \<Rightarrow> peer list \<Rightarrow> voting_error + bytes set" where
  "member_keys env peers =
     bind_res (map_res (\<lambda>peer. vote_node_key env (pe_public_key peer)) peers) (\<lambda>keys. Inr (set keys))"

definition ensure_current_member :: "voting_env \<Rightarrow> peer list \<Rightarrow> bytes \<Rightarrow> string \<Rightarrow> voting_error + unit" where
  "ensure_current_member env peers key role =
     bind_res (member_keys env peers) (\<lambda>members.
       require (key \<in> members) (InvalidRequest (role @ '' is not a network member'')))"

definition controlled_member_key :: "voting_env \<Rightarrow> peer list \<Rightarrow> voting_error + bytes" where
  "controlled_member_key env peers =
     bind_res (ok_or (InvalidRequest ''local network member is missing'')
         (find (\<lambda>peer. pe_status peer = Controlled) peers))
       (\<lambda>peer. vote_node_key env (pe_public_key peer))"

definition active_remote_peers :: "peer list \<Rightarrow> bytes list" where
  "active_remote_peers peers = map pe_public_key (filter (\<lambda>peer. pe_status peer = PeerActive) peers)"

definition required_approvals :: "nat \<Rightarrow> nat" where
  "required_approvals member_count = (let n = member_count * 2 in n div 3 + (if n mod 3 = 0 then 0 else 1))"

subsection \<open>Checks of a proposal\<close>

definition validate_proposal_height :: "u64 option \<Rightarrow> u64 \<Rightarrow> voting_error + unit" where
  "validate_proposal_height created_at observed =
     (case created_at of None \<Rightarrow> Inr ()
      | Some created \<Rightarrow>
          if sat_add observed MAX_PROPOSAL_FUTURE_BLOCKS < created
          then Inl (InvalidRequest ''voting proposal was created too far in the future'')
          else if sat_add created VOTING_TIMEOUT_BLOCKS \<le> observed
          then Inl (InvalidRequest ''voting proposal has expired'')
          else Inr ())"

definition checked_unique_keys :: "voting_env \<Rightarrow> bytes list \<Rightarrow> voting_error + bytes set" where
  "checked_unique_keys env keys =
     (if \<not> list_all (ve_valid_key env) keys then Inl (InvalidRequest ''malformed public key'')
      else if card (set keys) \<noteq> length keys then Inl (InvalidRequest ''member keys must be unique'')
      else Inr (set keys))"

definition validate_request_structure :: "voting_env \<Rightarrow> network_vote_request \<Rightarrow> voting_error + unit" where
  "validate_request_structure env request =
     (case vote_kind_from_id (nv_kind request) of
        Some UpdateMembersVote \<Rightarrow>
          bind_res (decoded (ve_decode_members env (nv_payload request))) (\<lambda>update.
          bind_res (checked_unique_keys env (um_to_accept update)) (\<lambda>accepted.
          bind_res (checked_unique_keys env (um_to_remove update)) (\<lambda>removed.
            if accepted = {} \<and> removed = {}
            then Inl (InvalidRequest ''member update does not change the network'')
            else if accepted \<inter> removed \<noteq> {}
            then Inl (InvalidRequest ''member key cannot be both accepted and removed'')
            else Inr ())))
      | Some MergeStormEyesVote \<Rightarrow>
          bind_res (decoded (ve_decode_merge env (nv_payload request))) (\<lambda>merge.
            let utxos = ms_utxos_to_merge merge in
            if length utxos < 2 then Inl (InvalidRequest ''at least two Storm Eye UTXOs are required for a merge'')
            else if 3 < length utxos then Inl (InvalidRequest ''at most three Storm Eye UTXOs can be merged'')
            else if card (set utxos) \<noteq> length utxos
            then Inl (InvalidRequest ''a Storm Eye UTXO cannot appear twice in a merge'')
            else Inr ())
      | Some SplitStormEyeVote \<Rightarrow>
          bind_res (decoded (ve_decode_split env (nv_payload request))) (\<lambda>split.
            if ss_number_of_splits split < 2
            then Inl (InvalidRequest ''a Storm Eye must be split into at least two outputs'')
            else if 3 < ss_number_of_splits split
            then Inl (InvalidRequest ''a Storm Eye can be split into at most three outputs'')
            else Inr ())
      | None \<Rightarrow> Inl (InvalidRequest ''unknown voting kind''))"

definition validate_request :: "voting_env \<Rightarrow> network_vote_request \<Rightarrow> peer list \<Rightarrow> voting_error + unit" where
  "validate_request env request peers =
     bind_res (validate_request_structure env request) (\<lambda>_.
       if vote_kind_from_id (nv_kind request) \<noteq> Some UpdateMembersVote then Inr ()
       else
         bind_res (decoded (ve_decode_members env (nv_payload request))) (\<lambda>update.
         bind_res (member_keys env peers) (\<lambda>current.
           let accepted = set (um_to_accept update); removed = set (um_to_remove update) in
           if accepted \<inter> current \<noteq> {} then Inl (InvalidRequest ''accepted key is already a member'')
           else if removed - current \<noteq> {} then Inl (InvalidRequest ''removed key is not a member'')
           else if ve_coordinator env \<in> removed
           then Inl (InvalidRequest ''member update cannot remove the coordinator without a replacement protocol'')
           else if card current + card accepted - card removed < 3
           then Inl (InvalidRequest ''member update must leave at least three members'')
           else Inr ())))"

definition validate_synchronized_request ::
  "voting_env \<Rightarrow> network_vote_request \<Rightarrow> peer list \<Rightarrow> voting_error + unit" where
  "validate_synchronized_request env request peers =
     bind_res (validate_request_structure env request) (\<lambda>_.
       if vote_kind_from_id (nv_kind request) = Some UpdateMembersVote
       then
         bind_res (decoded (ve_decode_members env (nv_payload request))) (\<lambda>update.
         bind_res (member_keys env peers) (\<lambda>current.
           let accepted = set (um_to_accept update); removed = set (um_to_remove update) in
           if (accepted \<subseteq> current \<and> removed \<inter> current = {}) \<and> ve_coordinator env \<notin> removed
           then Inr () else validate_request env request peers))
       else validate_request env request peers)"

definition verified_proposer :: "voting_env \<Rightarrow> node_message \<Rightarrow> voting_error + bytes option" where
  "verified_proposer env message =
     (case ve_decode_signed env (nm_payload message) of
        None \<Rightarrow> Inr None
      | Some proposal \<Rightarrow>
          if \<not> ve_valid_key env (sp_proposer proposal) then Inl (InvalidRequest ''malformed public key'')
          else if length (sp_signature proposal) \<noteq> 64
          then Inl (InvalidRequest ''proposer signature has wrong length'')
          else if ve_verify env (sp_signature proposal)
                    (message_hash env (new_voting_request env (sp_request proposal) (sp_created_at proposal)))
                    (sp_proposer proposal)
          then Inr (Some (sp_proposer proposal))
          else Inl (InvalidRequest ''incorrect signature''))"

subsection \<open>Requests\<close>

fun no_duplicate :: "voting_env \<Rightarrow> bytes \<Rightarrow> u64 \<Rightarrow> (bytes \<times> u64 \<times> u64 option) list \<Rightarrow> voting_error + unit" where
  "no_duplicate env canonical height [] = Inr ()"
| "no_duplicate env canonical height ((message, created_at, approved_at) # rows) =
     (let timeout_start = (case approved_at of None \<Rightarrow> created_at | Some approved \<Rightarrow> approved) in
      if sat_add timeout_start VOTING_TIMEOUT_BLOCKS \<le> height then no_duplicate env canonical height rows
      else
        bind_res (decoded (ve_decode env message)) (\<lambda>m.
        bind_res (decode_voting_request env m) (\<lambda>request.
          if canonical_hash env request = canonical then Inl (DuplicateRequest canonical)
          else no_duplicate env canonical height rows)))"

definition ensure_unique_active_request ::
  "voting_env \<Rightarrow> network_vote_request \<Rightarrow> bytes option \<Rightarrow> u64 \<Rightarrow> voting_db \<Rightarrow> voting_db \<times> (voting_error + unit)" where
  "ensure_unique_active_request env request proposer height db =
     (case delete_expired height VOTING_TIMEOUT_BLOCKS db of
        (db1, Inl e) \<Rightarrow> (db1, Inl (StoreFailure e))
      | (db1, Inr _) \<Rightarrow>
          (db1, bind_res (no_duplicate env (canonical_hash env request) height (unconfirmed_request_messages db1))
             (\<lambda>_. if MAX_ACTIVE_VOTINGS_PER_PROPOSER \<le> active_request_count_for_proposer proposer db1
                  then Inl (InvalidRequest ''requester already has 50 active voting requests'')
                  else Inr ())))"

definition create_voting ::
  "voting_env \<Rightarrow> peer list \<Rightarrow> network_vote_request \<Rightarrow> u64 \<Rightarrow> voting_db
     \<Rightarrow> voting_db \<times> (voting_error + bytes \<times> node_message \<times> bytes list)" where
  "create_voting env peers request height db =
     (case bind_res (validate_request env request peers) (\<lambda>_. controlled_member_key env peers) of
        Inl e \<Rightarrow> (db, Inl e)
      | Inr proposer \<Rightarrow>
          (case ensure_unique_active_request env request (Some proposer) height db of
             (db1, Inl e) \<Rightarrow> (db1, Inl e)
           | (db1, Inr _) \<Rightarrow>
               let proposal = \<lparr>sp_request = request, sp_created_at = height, sp_proposer = proposer,
                     sp_signature = ve_sign env (message_hash env (new_voting_request env request height))\<rparr>;
                   message = \<lparr>nm_kind = kind_id NetworkVote, nm_linked_to = None,
                     nm_payload = ve_encode_signed env proposal\<rparr>;
                   hash = message_hash env message
               in (case insert_request hash (ve_encode env message) proposer height db1 of
                     (db2, Inl e) \<Rightarrow> (db2, Inl (StoreFailure e))
                   | (db2, Inr inserted) \<Rightarrow>
                       if inserted then (db2, Inr (hash, message, active_remote_peers peers))
                       else (db2, Inl (DuplicateRequest hash)))))"

definition handle_request ::
  "voting_env \<Rightarrow> peer list \<Rightarrow> bytes \<Rightarrow> node_message \<Rightarrow> u64 \<Rightarrow> voting_db \<Rightarrow> voting_db \<times> (voting_error + unit)" where
  "handle_request env peers sender message height db =
     (if nm_linked_to message \<noteq> None
      then (db, Inl (InvalidRequest ''a voting request cannot link to another message''))
      else case bind_res (decode_voting_proposal env message) (\<lambda>(request, created_at).
             bind_res (validate_proposal_height created_at height) (\<lambda>_.
             bind_res (validate_request env request peers) (\<lambda>_.
             bind_res (vote_node_key env sender) (\<lambda>proposer.
             bind_res (ensure_current_member env peers proposer ''voting request proposer'') (\<lambda>_.
             bind_res (verified_proposer env message) (\<lambda>origin.
               if origin \<noteq> None \<and> origin \<noteq> Some proposer
               then Inl (InvalidRequest ''voting request proposer does not match its sender'')
               else Inr (request, proposer))))))) of
        Inl e \<Rightarrow> (db, Inl e)
      | Inr (request, proposer) \<Rightarrow>
          (case ensure_unique_active_request env request (Some proposer) height db of
             (db1, Inl e) \<Rightarrow> (db1, Inl e)
           | (db1, Inr _) \<Rightarrow>
               (case insert_request (message_hash env message) (ve_encode env message) proposer height db1 of
                  (db2, r) \<Rightarrow> (db2, bind_res (stored_result r) (\<lambda>_. Inr ())))))"

subsection \<open>Approvals\<close>

definition accept_approval ::
  "voting_env \<Rightarrow> peer list \<Rightarrow> node_message \<Rightarrow> approve_voting_request \<Rightarrow> bytes \<Rightarrow> u64 \<Rightarrow> voting_db
     \<Rightarrow> voting_db \<times> (voting_error + unit)" where
  "accept_approval env peers message approval request_hash height db =
     (case bind_res (require (ve_valid_key env (av_public_key approval)) (InvalidApproval ''malformed public key'')) (\<lambda>_.
           bind_res (member_keys env peers) (\<lambda>members.
           bind_res (require (av_public_key approval \<in> members) (InvalidApproval ''not a network member'')) (\<lambda>_.
           bind_res (require (length (av_signature approval) = 64) (InvalidApproval ''signature has wrong length'')) (\<lambda>_.
           bind_res (require (ve_verify env (av_signature approval) request_hash (av_public_key approval))
                       (InvalidApproval ''incorrect signature'')) (\<lambda>_.
           bind_res (ok_or (UnknownRequest request_hash) (get_request db request_hash)) (\<lambda>stored.
             Inr (required_approvals (length peers)))))))) of
        Inl e \<Rightarrow> (db, Inl e)
      | Inr required \<Rightarrow>
          (case insert_approval request_hash (av_public_key approval) (ve_encode env message) height required db of
             (db1, Inl e) \<Rightarrow> (db1, Inl (StoreFailure e))
           | (db1, Inr inserted) \<Rightarrow>
               (db1, if inserted then Inr () else Inl (DuplicateApproval (av_public_key approval)))))"

definition decode_stored :: "voting_env \<Rightarrow> stored_request \<Rightarrow> voting_error + voting_request" where
  "decode_stored env stored =
     bind_res (decoded (ve_decode env (sv_message stored))) (\<lambda>message.
     bind_res (decode_voting_request env message) (\<lambda>request.
       Inr \<lparr>vq_message_hash = sv_message_hash stored, vq_request = request, vq_proposer = sv_proposer stored,
            vq_block_height = sv_block_height stored,
            vq_status = (if sv_confirmed stored then Executed
               else if sv_started stored \<or> sv_txid stored \<noteq> None then Executing
               else if sv_approved_at stored \<noteq> None then Approved else Pending),
            vq_txid = sv_txid stored,
            vq_approvals = map (\<lambda>a. \<lparr>va_public_key = sa_public_key a, va_block_height = sa_block_height a\<rparr>)
              (sv_approvals stored)\<rparr>))"

definition get_voting :: "voting_env \<Rightarrow> bytes \<Rightarrow> voting_db \<Rightarrow> voting_error + voting_request option" where
  "get_voting env hash db =
     (case get_request db hash of None \<Rightarrow> Inr None
      | Some stored \<Rightarrow> bind_res (decode_stored env stored) (\<lambda>request. Inr (Some request)))"

definition list_votings :: "voting_env \<Rightarrow> voting_db \<Rightarrow> voting_error + voting_request list" where
  "list_votings env db = map_res (decode_stored env) (list_requests db)"

definition kind_label :: "network_vote_request \<Rightarrow> string" where
  "kind_label request =
     (case vote_kind_from_id (nv_kind request) of None \<Rightarrow> ''unknown'' | Some kind \<Rightarrow> vote_kind_as_str kind)"

definition stored_kind_label :: "voting_env \<Rightarrow> bytes \<Rightarrow> string" where
  "stored_kind_label env encoded =
     (case bind_res (decoded (ve_decode env encoded)) (decode_voting_request env) of
        Inl _ \<Rightarrow> ''unknown'' | Inr request \<Rightarrow> kind_label request)"

definition unconfirmed_kinds :: "voting_env \<Rightarrow> voting_db \<Rightarrow> string list" where
  "unconfirmed_kinds env db = map (\<lambda>(message, _, _). stored_kind_label env message) (unconfirmed_request_messages db)"

definition remove_expired :: "u64 \<Rightarrow> voting_db \<Rightarrow> voting_db \<times> (voting_error + nat)" where
  "remove_expired height db =
     (case delete_expired height VOTING_TIMEOUT_BLOCKS db of (db1, r) \<Rightarrow> (db1, stored_result r))"

subsection \<open>Changes of the members\<close>

text \<open>The transport's answer to a set of members it is asked to stage is the argument \<open>stage\<close>.\<close>

definition stage_member_migration ::
  "voting_env \<Rightarrow> (bytes set \<Rightarrow> migration_outcome) \<Rightarrow> peer list \<Rightarrow> voting_request \<Rightarrow> voting_error + bool" where
  "stage_member_migration env stage peers request =
     bind_res (decoded (ve_decode_members env (nv_payload (vq_request request)))) (\<lambda>update.
     bind_res (member_keys env peers) (\<lambda>current.
       let members = (current - set (um_to_remove update)) \<union> set (um_to_accept update) in
       if members = current then Inr False
       else case stage members of
              MigrationBegun \<Rightarrow> Inr True
            | MigrationAlreadyStaged \<Rightarrow> Inr False
            | MigrationRefused \<Rightarrow> Inl MigrationFailure))"

definition stage_member_migration_if_approved ::
  "voting_env \<Rightarrow> (bytes set \<Rightarrow> migration_outcome) \<Rightarrow> peer list \<Rightarrow> bytes \<Rightarrow> voting_db \<Rightarrow> voting_error + unit" where
  "stage_member_migration_if_approved env stage peers hash db =
     bind_res (get_voting env hash db) (\<lambda>found.
       case found of None \<Rightarrow> Inr ()
       | Some request \<Rightarrow>
           if vq_status request \<noteq> Approved \<or>
              vote_kind_from_id (nv_kind (vq_request request)) \<noteq> Some UpdateMembersVote
           then Inr ()
           else bind_res (stage_member_migration env stage peers request) (\<lambda>_. Inr ()))"

fun stage_first :: "voting_env \<Rightarrow> (bytes set \<Rightarrow> migration_outcome) \<Rightarrow> peer list \<Rightarrow> voting_request list \<Rightarrow> voting_error + unit" where
  "stage_first env stage peers [] = Inr ()"
| "stage_first env stage peers (request # requests) =
     bind_res (stage_member_migration env stage peers request)
       (\<lambda>staged. if staged then Inr () else stage_first env stage peers requests)"

definition restore_member_migration ::
  "voting_env \<Rightarrow> (bytes set \<Rightarrow> migration_outcome) \<Rightarrow> peer list \<Rightarrow> voting_db \<Rightarrow> voting_error + unit" where
  "restore_member_migration env stage peers db =
     bind_res (list_votings env db) (\<lambda>requests.
       stage_first env stage peers
         (filter (\<lambda>request. vq_status request \<in> {Approved, Executing} \<and>
            vote_kind_from_id (nv_kind (vq_request request)) = Some UpdateMembersVote) requests))"

definition approve_voting ::
  "voting_env \<Rightarrow> (bytes set \<Rightarrow> migration_outcome) \<Rightarrow> peer list \<Rightarrow> bytes \<Rightarrow> u64 \<Rightarrow> voting_db
     \<Rightarrow> voting_db \<times> (voting_error + unit) \<times> (node_message \<times> bytes list) option" where
  "approve_voting env stage peers request_hash height db =
     (let local_key = ve_local_key env;
          approval = \<lparr>av_public_key = local_key, av_signature = ve_sign env request_hash\<rparr>;
          message = \<lparr>nm_kind = kind_id ApproveVoting, nm_linked_to = Some request_hash,
                     nm_payload = ve_encode_approval env approval\<rparr>;
          (db1, accepted) = accept_approval env peers message approval request_hash height db;
          duplicate = (accepted = Inl (DuplicateApproval local_key))
      in if accepted \<noteq> Inr () \<and> \<not> duplicate then (db1, accepted, None)
         else (db1,
           bind_res (stage_member_migration_if_approved env stage peers request_hash db1) (\<lambda>_.
             if duplicate then Inl (DuplicateApproval local_key) else Inr ()),
           Some (message, active_remote_peers peers)))"

definition handle_approval ::
  "voting_env \<Rightarrow> (bytes set \<Rightarrow> migration_outcome) \<Rightarrow> peer list \<Rightarrow> node_message \<Rightarrow> u64 \<Rightarrow> voting_db
     \<Rightarrow> voting_db \<times> (voting_error + unit)" where
  "handle_approval env stage peers message height db =
     (case bind_res (ok_or (InvalidApproval ''approval does not link to a voting request'') (nm_linked_to message))
             (\<lambda>request_hash. bind_res (decoded (ve_decode_approval env (nm_payload message)))
               (\<lambda>approval. Inr (request_hash, approval))) of
        Inl e \<Rightarrow> (db, Inl e)
      | Inr (request_hash, approval) \<Rightarrow>
          (case accept_approval env peers message approval request_hash height db of
             (db1, Inl e) \<Rightarrow> (db1, Inl e)
           | (db1, Inr _) \<Rightarrow> (db1, stage_member_migration_if_approved env stage peers request_hash db1)))"

subsection \<open>Synchronisation\<close>

record voting_sync_request =
  vs_message_hash :: bytes
  vs_message :: bytes
  vs_approvals :: "bytes list"

record voting_sync_message =
  vm_is_response :: bool
  vm_requests :: "voting_sync_request list"
  vm_missing_executions :: "bytes list"

definition missing_executions :: "voting_db \<Rightarrow> bytes list" where
  "missing_executions db =
     take MAX_MISSING_EXECUTIONS_PER_SYNC (map sv_message_hash
       (filter (\<lambda>r. sv_approved_at r \<noteq> None \<and> sv_txid r = None \<and> \<not> sv_confirmed r) (list_requests db)))"

definition synchronize :: "peer list \<Rightarrow> voting_db \<Rightarrow> voting_sync_message \<times> bytes list" where
  "synchronize peers db =
     (\<lparr>vm_is_response = False, vm_requests = [], vm_missing_executions = missing_executions db\<rparr>,
      active_remote_peers peers)"

text \<open>A record the node does not have yet; \<open>None\<close> is a record silently skipped.\<close>

definition check_new_record ::
  "voting_env \<Rightarrow> peer list \<Rightarrow> bytes \<Rightarrow> node_message \<Rightarrow> u64
     \<Rightarrow> voting_error + (network_vote_request \<times> bytes option) option" where
  "check_new_record env peers sender message height =
     bind_res (vote_node_key env sender) (\<lambda>sender_key.
     bind_res (ensure_current_member env peers sender_key ''voting synchronization sender'') (\<lambda>_.
     bind_res (decode_voting_proposal env message) (\<lambda>(request, created_at).
       if (case created_at of None \<Rightarrow> False | Some c \<Rightarrow> sat_add c VOTING_TIMEOUT_BLOCKS \<le> height) then Inr None
       else
         bind_res (validate_proposal_height created_at height) (\<lambda>_.
         bind_res (validate_synchronized_request env request peers) (\<lambda>_.
         bind_res (verified_proposer env message) (\<lambda>proposer.
         bind_res (case proposer of None \<Rightarrow> Inr ()
             | Some key \<Rightarrow> ensure_current_member env peers key ''voting request proposer'') (\<lambda>_.
           Inr (Some (request, proposer)))))))))"

text \<open>\<open>Inr False\<close> when the rest of the record is skipped.\<close>

definition accept_new_record ::
  "voting_env \<Rightarrow> peer list \<Rightarrow> bytes \<Rightarrow> voting_sync_request \<Rightarrow> node_message \<Rightarrow> u64 \<Rightarrow> voting_db
     \<Rightarrow> voting_db \<times> (voting_error + bool)" where
  "accept_new_record env peers sender record message height db =
     (case check_new_record env peers sender message height of
        Inl e \<Rightarrow> (db, Inl e)
      | Inr None \<Rightarrow> (db, Inr False)
      | Inr (Some (request, proposer)) \<Rightarrow>
          (case delete_expired height VOTING_TIMEOUT_BLOCKS db of
             (db1, Inl e) \<Rightarrow> (db1, Inl (StoreFailure e))
           | (db1, Inr _) \<Rightarrow>
               if MAX_ACTIVE_VOTINGS_PER_PROPOSER \<le> active_request_count_for_proposer proposer db1
               then (db1, Inr False)
               else (case ensure_unique_active_request env request proposer height db1 of
                  (db2, Inl e) \<Rightarrow> (db2, Inl e)
                | (db2, Inr _) \<Rightarrow>
                    (case insert_synchronized_request (vs_message_hash record) (vs_message record) proposer height db2 of
                       (db3, r) \<Rightarrow> (db3, bind_res (stored_result r) (\<lambda>_. Inr True))))))"

fun accept_record_approvals ::
  "voting_env \<Rightarrow> peer list \<Rightarrow> bytes \<Rightarrow> u64 \<Rightarrow> bytes list \<Rightarrow> voting_db \<Rightarrow> voting_db \<times> (voting_error + unit)" where
  "accept_record_approvals env peers hash height [] db = (db, Inr ())"
| "accept_record_approvals env peers hash height (encoded # rest) db =
     (case bind_res (decoded (ve_decode env encoded)) (\<lambda>message.
           if nm_kind message \<noteq> kind_id ApproveVoting \<or> nm_linked_to message \<noteq> Some hash
           then Inl (InvalidApproval ''synchronized approval does not match its voting request'')
           else bind_res (decoded (ve_decode_approval env (nm_payload message)))
                  (\<lambda>approval. Inr (message, approval))) of
        Inl e \<Rightarrow> (db, Inl e)
      | Inr (message, approval) \<Rightarrow>
          (case accept_approval env peers message approval hash height db of
             (db1, Inr _) \<Rightarrow> accept_record_approvals env peers hash height rest db1
           | (db1, Inl e) \<Rightarrow>
               if (case e of DuplicateApproval _ \<Rightarrow> True | _ \<Rightarrow> False)
               then accept_record_approvals env peers hash height rest db1 else (db1, Inl e)))"

definition accept_synchronized_request ::
  "voting_env \<Rightarrow> (bytes set \<Rightarrow> migration_outcome) \<Rightarrow> peer list \<Rightarrow> bytes \<Rightarrow> u64 \<Rightarrow> voting_sync_request \<Rightarrow> voting_db
     \<Rightarrow> voting_db \<times> (voting_error + unit)" where
  "accept_synchronized_request env stage peers sender height record db =
     (case bind_res (decoded (ve_decode env (vs_message record))) (\<lambda>message.
           if kind_from_id (nm_kind message) \<noteq> Some NetworkVote \<or> nm_linked_to message \<noteq> None \<or>
              message_hash env message \<noteq> vs_message_hash record
           then Inl (InvalidRequest ''synchronized voting request metadata does not match its message'')
           else Inr message) of
        Inl e \<Rightarrow> (db, Inl e)
      | Inr message \<Rightarrow>
          let known = get_request db (vs_message_hash record) in
          if (case known of None \<Rightarrow> False | Some k \<Rightarrow> sv_confirmed k) then (db, Inr ())
          else
            (case (if known = None then accept_new_record env peers sender record message height db
                   else (db, Inr True)) of
               (db1, Inl e) \<Rightarrow> (db1, Inl e)
             | (db1, Inr False) \<Rightarrow> (db1, Inr ())
             | (db1, Inr True) \<Rightarrow>
                 (case accept_record_approvals env peers (vs_message_hash record) height (vs_approvals record) db1 of
                    (db2, Inl e) \<Rightarrow> (db2, Inl e)
                  | (db2, Inr _) \<Rightarrow>
                      (db2, stage_member_migration_if_approved env stage peers (vs_message_hash record) db2))))"

text \<open>Every record is tried; the first error is reported at the end.\<close>

definition accept_synchronized ::
  "voting_env \<Rightarrow> (bytes set \<Rightarrow> migration_outcome) \<Rightarrow> peer list \<Rightarrow> bytes \<Rightarrow> u64 \<Rightarrow> voting_sync_request list \<Rightarrow> voting_db
     \<Rightarrow> voting_db \<times> (voting_error + unit)" where
  "accept_synchronized env stage peers sender height records db =
     fold (\<lambda>record (db, first). case accept_synchronized_request env stage peers sender height record db of
         (db1, Inr _) \<Rightarrow> (db1, first)
       | (db1, Inl e) \<Rightarrow> (db1, if first = Inr () then Inl e else first)) records (db, Inr ())"

text \<open>The executions a peer misses, of those this node has the final transaction of.\<close>

definition execution_notices ::
  "voting_env \<Rightarrow> stored_request list \<Rightarrow> bytes list \<Rightarrow> voting_error + node_message list" where
  "execution_notices env stored missing =
     bind_res (map_res (\<lambda>request.
         case (sv_request request, sv_txid request) of
           (Some encoded, Some _) \<Rightarrow>
             bind_res (decoded (ve_decode_execute env encoded)) (\<lambda>notice.
               if ev_final_tx notice = None then Inr []
               else Inr [\<lparr>nm_kind = kind_id ExecuteVoting, nm_linked_to = Some (sv_message_hash request),
                          nm_payload = ve_encode_execute env notice\<rparr>])
         | _ \<Rightarrow> Inr [])
       (filter (\<lambda>request. sv_message_hash request \<in> set missing) stored))
     (\<lambda>notices. Inr (concat notices))"

definition sync_response :: "stored_request list \<Rightarrow> voting_sync_message" where
  "sync_response stored =
     \<lparr>vm_is_response = True,
      vm_requests = map (\<lambda>r. \<lparr>vs_message_hash = sv_message_hash r, vs_message = sv_message r,
          vs_approvals = map sa_message (sv_approvals r)\<rparr>) (filter (\<lambda>r. \<not> sv_confirmed r) stored),
      vm_missing_executions = []\<rparr>"

definition handle_synchronization ::
  "voting_env \<Rightarrow> (bytes set \<Rightarrow> migration_outcome) \<Rightarrow> peer list \<Rightarrow> bytes \<Rightarrow> bytes option \<Rightarrow> voting_sync_message \<Rightarrow> u64
     \<Rightarrow> voting_db \<Rightarrow> voting_db \<times> (voting_error + (voting_sync_message \<times> node_message list) option)" where
  "handle_synchronization env stage peers sender linked_to sync height db =
     (if linked_to \<noteq> None
      then (db, Inl (InvalidRequest ''ask-about-votings cannot link to another message''))
      else case remove_expired height db of
        (db1, Inl e) \<Rightarrow> (db1, Inl e)
      | (db1, Inr _) \<Rightarrow>
          if vm_is_response sync
          then (case accept_synchronized env stage peers sender height (vm_requests sync) db1 of
                  (db2, Inl e) \<Rightarrow> (db2, Inl e) | (db2, Inr _) \<Rightarrow> (db2, Inr None))
          else if vm_requests sync \<noteq> [] \<or> MAX_MISSING_EXECUTIONS_PER_SYNC < length (vm_missing_executions sync)
          then (db1, Inl (InvalidRequest ''an ask-about-votings request cannot contain voting records''))
          else
            let stored = list_requests db1 in
            (db1, bind_res (execution_notices env stored (vm_missing_executions sync))
                    (\<lambda>notices. Inr (Some (sync_response stored, notices)))))"

end
