(* ===== verification/Voting_Execution.thy ===== *)
theory Voting_Execution
  imports Voting
begin

text \<open>
  What the stored votings promise: the shape of every row, the order in which a voting is approved,
  executed and confirmed, and the approvals behind it. The promise the voting service relies on is
  the locale \<open>approval_ledger\<close>, interpreted on the store.
\<close>

named_theorems update_facts \<open>reading a row after an update\<close>

subsection \<open>Rows\<close>

definition row_ok :: "voting_row \<Rightarrow> bool" where
  "row_ok row \<longleftrightarrow>
     (vr_started row \<longrightarrow> vr_approved_at row \<noteq> None \<and> vr_transaction row \<noteq> None \<and> \<not> vr_confirmed row) \<and>
     (vr_txid row \<noteq> None \<longrightarrow> vr_approved_at row \<noteq> None \<and> vr_transaction row \<noteq> None \<and>
        vr_request row \<noteq> None \<and> vr_proposer row \<noteq> None \<and> (vr_started row \<or> vr_confirmed row)) \<and>
     (vr_confirmed row \<longrightarrow> vr_txid row \<noteq> None \<and> vr_included_hash row \<noteq> None) \<and>
     (vr_included_hash row \<noteq> None \<longrightarrow> vr_included_at row \<noteq> None \<and> vr_txid row \<noteq> None)"

definition voting_db_ok :: "voting_db \<Rightarrow> bool" where
  "voting_db_ok db \<longleftrightarrow> bt_wf (vd_requests db) \<and> bt_wf (vd_approvals db) \<and>
     (\<forall>h row. bt_get (vd_requests db) h = Some row \<longrightarrow> row_ok row) \<and>
     (\<forall>x\<in>set (bt_keys (vd_approvals db)). fst x \<in> set (bt_keys (vd_requests db)))"

definition status_of :: "voting_row \<Rightarrow> voting_status" where
  "status_of row = (if vr_confirmed row then Executed
     else if vr_started row \<or> vr_txid row \<noteq> None then Executing
     else if vr_approved_at row \<noteq> None then Approved else Pending)"

text \<open>What may happen to a row: only an execution without a broadcast transaction is taken back.\<close>

definition row_advances :: "voting_row \<Rightarrow> voting_row \<Rightarrow> bool" where
  "row_advances row row' \<longleftrightarrow>
     vr_message row' = vr_message row \<and> vr_block_height row' = vr_block_height row \<and>
     (vr_approved_at row \<noteq> None \<longrightarrow> vr_approved_at row' = vr_approved_at row) \<and>
     (vr_proposer row \<noteq> None \<longrightarrow> vr_proposer row' = vr_proposer row) \<and>
     (vr_txid row \<noteq> None \<longrightarrow> vr_txid row' = vr_txid row \<and> vr_transaction row' = vr_transaction row) \<and>
     (vr_confirmed row \<longrightarrow> row' = row) \<and>
     (status_of row, status_of row') \<in>
       {(s, s) | s. True} \<union> {(Pending, Approved), (Approved, Executing), (Executing, Executed)} \<union>
       (if vr_txid row = None then {(Executing, Approved)} else {})"

lemma row_advances_refl: "row_advances row row"
  by (simp add: row_advances_def)

definition deletable :: "voting_row \<Rightarrow> bool" where
  "deletable row \<longleftrightarrow> vr_confirmed row \<or> \<not> vr_started row \<and> vr_txid row = None"

definition db_advances :: "voting_db \<Rightarrow> voting_db \<Rightarrow> bool" where
  "db_advances db db' \<longleftrightarrow> (\<forall>h row. bt_get (vd_requests db) h = Some row \<longrightarrow>
     (case bt_get (vd_requests db') h of None \<Rightarrow> deletable row | Some row' \<Rightarrow> row_advances row row'))"

lemma db_advances_refl: "db_advances db db"
  by (auto simp: db_advances_def row_advances_refl split: option.split)

subsection \<open>Updates\<close>

lemma bt_get_filter:
  "bt_wf m \<Longrightarrow> bt_get (filter (\<lambda>(k, v). Q k v) m) k =
     (case bt_get m k of None \<Rightarrow> None | Some v \<Rightarrow> if Q k v then Some v else None)"
proof (induction m)
  case (Cons e m)
  obtain j w where e: "e = (j, w)" by (cases e)
  have wf: "bt_wf m" and "bt_get m j = None"
    using Cons.prems by (auto simp: bt_wf_def bt_get_None_iff bt_keys_def e)
  then show ?case using Cons.IH by (auto simp: e bt_get_def split: option.splits)
qed simp

lemma update_row_cases:
  assumes "update_row h P f db = (db', n)"
  obtains (kept) "db' = db" "n = 0" "\<And>row. bt_get (vd_requests db) h = Some row \<Longrightarrow> \<not> P row"
  | (updated) row where "bt_get (vd_requests db) h = Some row" "P row" "n = 1"
      "db' = db\<lparr>vd_requests := bt_insert h (f row) (vd_requests db)\<rparr>"
  using assms by (auto simp: update_row_def split: option.splits if_splits)

lemma update_row_ok:
  assumes "voting_db_ok db" "update_row h P f db = (db', n)"
    and step: "\<And>row. row_ok row \<Longrightarrow> P row \<Longrightarrow> row_ok (f row) \<and> row_advances row (f row)"
  shows "voting_db_ok db' \<and> db_advances db db' \<and> vd_approvals db' = vd_approvals db"
  using assms(2)
proof (cases rule: update_row_cases)
  case kept
  then show ?thesis using assms(1) by (simp add: db_advances_refl)
next
  case (updated row)
  then have "row_ok (f row) \<and> row_advances row (f row)"
    using assms(1) step by (simp add: voting_db_ok_def)
  then show ?thesis using updated assms(1)
    by (auto simp: voting_db_ok_def bt_insert_wf bt_get_insert set_bt_keys_insert db_advances_def
        row_advances_refl split: option.split if_splits)
qed

lemma expect_updated_eq: "expect_updated u = (db', r) \<Longrightarrow> \<exists>n. u = (db', n)"
  by (cases u) (simp add: expect_updated_def)

text \<open>The operations on the stored votings other than the insertion of an approval.\<close>

inductive quiet_step :: "voting_db \<Rightarrow> voting_db \<Rightarrow> bool" where
  request: "insert_synchronized_request h m p ht db = (db', r) \<Longrightarrow> quiet_step db db'"
| start: "start_execution h tx db = (db', b) \<Longrightarrow> quiet_step db db'"
| cancel: "cancel_execution h db = (db', u) \<Longrightarrow> quiet_step db db'"
| broadcast: "record_broadcast h p tx rq txid db = (db', u) \<Longrightarrow> quiet_step db db'"
| confirm: "confirm_execution h txid db = (db', u) \<Longrightarrow> quiet_step db db'"
| included: "mark_execution_included h txid ht bh db = (db', u) \<Longrightarrow> quiet_step db db'"
| orphaned: "quiet_step db (mark_execution_orphaned h txid db)"
| expired: "delete_expired c t db = (db', n) \<Longrightarrow> quiet_step db db'"

inductive store_step :: "voting_db \<Rightarrow> voting_db \<Rightarrow> bool" where
  approval: "insert_approval h k m ht req db = (db', r) \<Longrightarrow> store_step db db'"
| quiet: "quiet_step db db' \<Longrightarrow> store_step db db'"

inductive store_reachable :: "voting_db \<Rightarrow> bool" where
  empty: "store_reachable \<lparr>vd_requests = [], vd_approvals = []\<rparr>"
| step: "store_reachable db \<Longrightarrow> store_step db db' \<Longrightarrow> store_reachable db'"

lemma insert_request_ok:
  assumes ok: "voting_db_ok db" and run: "insert_synchronized_request h m p ht db = (db', r)"
  shows "voting_db_ok db' \<and> db_advances db db' \<and> vd_approvals db' = vd_approvals db"
proof -
  have "row_ok \<lparr>vr_message = m, vr_proposer = p, vr_block_height = ht, vr_approved_at = None,
      vr_started = False, vr_transaction = None, vr_request = None, vr_txid = None,
      vr_confirmed = False, vr_included_at = None, vr_included_hash = None\<rparr>" by (simp add: row_ok_def)
  then show ?thesis using ok run
    by (auto simp: insert_synchronized_request_def height_to_i64_def voting_db_ok_def bt_insert_wf
        bt_get_insert set_bt_keys_insert db_advances_def row_advances_refl split: option.split if_splits)       (metis fst_conv)+
qed

lemma insert_approval_ok:
  assumes ok: "voting_db_ok db" and run: "insert_approval h k m ht req db = (db', r)"
  shows "voting_db_ok db' \<and> db_advances db db'"
proof -
  let ?db1 = "db\<lparr>vd_approvals := bt_insert (h, k) \<lparr>ar_message = m, ar_block_height = ht\<rparr> (vd_approvals db)\<rparr>"
  have ok1: "voting_db_ok ?db1" if "bt_get (vd_requests db) h \<noteq> None"
    using ok that by (auto simp: voting_db_ok_def bt_insert_wf set_bt_keys_insert bt_get_None_iff)
  have adv1: "db_advances db ?db1 \<and> db_advances ?db1 x = db_advances db x" for x
    by (auto simp: db_advances_def row_advances_refl split: option.split)
  have step: "row_ok (row\<lparr>vr_approved_at := Some ht\<rparr>) \<and> row_advances row (row\<lparr>vr_approved_at := Some ht\<rparr>)"
    if "row_ok row" "vr_approved_at row = None" for row
    using that by (auto simp: row_ok_def row_advances_def status_of_def)
  obtain db2 n where u: "update_row h (\<lambda>row. vr_approved_at row = None)
      (\<lambda>row. row\<lparr>vr_approved_at := Some ht\<rparr>) ?db1 = (db2, n)" by fastforce
  show ?thesis
    using run ok ok1 adv1 update_row_ok [OF ok1 u step]
    by (auto simp: insert_approval_def height_to_i64_def Let_def u db_advances_refl split: if_splits)
qed

lemma delete_expired_ok:
  assumes ok: "voting_db_ok db" and run: "delete_expired c t db = (db', n)"
  shows "voting_db_ok db' \<and> db_advances db db'"
proof (cases "height_to_i64 c = Inr c \<and> height_to_i64 t = Inr t")
  case False
  then have "db' = db" using run by (auto simp: delete_expired_def height_to_i64_def split: if_splits)
  then show ?thesis using ok by (simp add: db_advances_refl)
next
  case True
  let ?kept = "filter (\<lambda>(hash, row). \<not> row_expired c t row) (vd_requests db)"
  let ?left = "filter (\<lambda>((hash, key), a). bt_get ?kept hash \<noteq> None) (vd_approvals db)"
  have db': "db' = db\<lparr>vd_requests := ?kept, vd_approvals := ?left\<rparr>"
    using run True by (simp add: delete_expired_def Let_def)
  have wf: "bt_wf (vd_requests db)" "bt_wf (vd_approvals db)" using ok by (simp_all add: voting_db_ok_def)
  have wf': "bt_wf ?kept" "bt_wf ?left" using wf by (simp_all add: bt_wf_def sorted_wrt_map sorted_wrt_filter)
  note get = bt_get_filter [OF wf(1), of "\<lambda>hash row. \<not> row_expired c t row"]
  have "\<forall>x\<in>set (bt_keys ?left). fst x \<in> set (bt_keys ?kept)"
    by (auto simp: bt_keys_def bt_get_None_iff image_iff split: prod.splits)
  moreover have "row_expired c t row \<Longrightarrow> deletable row" for row by (simp add: row_expired_def deletable_def)
  ultimately show ?thesis using ok wf'
    by (auto simp: voting_db_ok_def db_advances_def db' get row_advances_refl split: option.splits if_splits)
qed

lemma start_execution_ok:
  "voting_db_ok db \<Longrightarrow> start_execution h tx db = (db', b) \<Longrightarrow> voting_db_ok db' \<and> db_advances db db' \<and> vd_approvals db' = vd_approvals db"
  unfolding start_execution_def
  by (auto split: prod.splits dest!: update_row_ok [rotated] simp: row_ok_def row_advances_def status_of_def)

lemma cancel_execution_ok:
  "voting_db_ok db \<Longrightarrow> cancel_execution h db = (db', u) \<Longrightarrow> voting_db_ok db' \<and> db_advances db db' \<and> vd_approvals db' = vd_approvals db"
  unfolding cancel_execution_def
  by (auto dest!: expect_updated_eq update_row_ok [rotated] simp: row_ok_def row_advances_def status_of_def)

lemma record_broadcast_ok:
  "voting_db_ok db \<Longrightarrow> record_broadcast h p tx rq txid db = (db', u) \<Longrightarrow>
   voting_db_ok db' \<and> db_advances db db' \<and> vd_approvals db' = vd_approvals db"
  unfolding record_broadcast_def
  by (auto dest!: expect_updated_eq update_row_ok [rotated]
      simp: row_ok_def row_advances_def status_of_def coalesce_def split: option.splits)

lemma confirm_execution_ok:
  "voting_db_ok db \<Longrightarrow> confirm_execution h txid db = (db', u) \<Longrightarrow>
   voting_db_ok db' \<and> db_advances db db' \<and> vd_approvals db' = vd_approvals db"
  unfolding confirm_execution_def
  by (auto dest!: expect_updated_eq update_row_ok [rotated] simp: row_ok_def row_advances_def status_of_def)

lemma mark_included_ok:
  "voting_db_ok db \<Longrightarrow> mark_execution_included h txid ht bh db = (db', u) \<Longrightarrow>
   voting_db_ok db' \<and> db_advances db db' \<and> vd_approvals db' = vd_approvals db"
  unfolding mark_execution_included_def height_to_i64_def
  by (auto dest!: expect_updated_eq update_row_ok [rotated] split: if_splits
      simp: row_ok_def row_advances_def status_of_def db_advances_refl)

lemma mark_orphaned_ok:
  "voting_db_ok db \<Longrightarrow> voting_db_ok (mark_execution_orphaned h txid db) \<and>
   db_advances db (mark_execution_orphaned h txid db) \<and> vd_approvals (mark_execution_orphaned h txid db) = vd_approvals db"
  unfolding mark_execution_orphaned_def
  by (cases "update_row h (\<lambda>row. vr_txid row = Some txid \<and> \<not> vr_confirmed row)
       (\<lambda>row. row\<lparr>vr_included_at := None, vr_included_hash := None\<rparr>) db")
     (auto dest!: update_row_ok [rotated] simp: row_ok_def row_advances_def status_of_def)

lemma quiet_step_ok: "quiet_step db db' \<Longrightarrow> voting_db_ok db \<Longrightarrow> voting_db_ok db' \<and> db_advances db db'"
  by (induction rule: quiet_step.induct)
     (blast dest: insert_request_ok start_execution_ok cancel_execution_ok
        record_broadcast_ok confirm_execution_ok mark_included_ok mark_orphaned_ok delete_expired_ok)+

lemma store_step_ok: "store_step db db' \<Longrightarrow> voting_db_ok db \<Longrightarrow> voting_db_ok db' \<and> db_advances db db'"
  by (induction rule: store_step.induct) (blast dest: insert_approval_ok quiet_step_ok)+

lemma store_reachable_ok: "store_reachable db \<Longrightarrow> voting_db_ok db"
proof (induction rule: store_reachable.induct)
  case empty
  show ?case by (simp add: voting_db_ok_def bt_keys_def)
next
  case (step db db')
  then show ?case by (blast dest: store_step_ok)
qed


definition toy_votes :: voting_db where
  "toy_votes = fst (insert_approval [1] [7] [] 5 1
     (fst (insert_request [1] [2] [7] 5 \<lparr>vd_requests = [], vd_approvals = []\<rparr>)))"

lemma toy_votes_reachable: "store_reachable toy_votes"
proof -
  have "store_step db (fst (insert_request h m p ht db))" for h m p ht db
    unfolding insert_request_def by (rule store_step.quiet [OF quiet_step.request [OF prod.collapse [symmetric]]])
  moreover have "store_step db (fst (insert_approval h k m ht req db))" for h k m ht req db
    by (rule store_step.approval [OF prod.collapse [symmetric]])
  ultimately show ?thesis unfolding toy_votes_def by (meson store_reachable.intros)
qed


subsection \<open>Approval by a quorum\<close>

text \<open>
  What the voting service asks of its store: an approval is recorded once for its approver, and
  makes the request approved only when the approvers are as many as required.
\<close>

locale approval_ledger =
  fixes valid :: "'s \<Rightarrow> bool"
    and approvers :: "'s \<Rightarrow> 'h \<Rightarrow> 'k set"
    and approved :: "'s \<Rightarrow> 'h \<Rightarrow> bool"
    and approve :: "'h \<Rightarrow> 'k \<Rightarrow> nat \<Rightarrow> 's \<Rightarrow> 's \<times> bool"
  assumes approvers_finite: "valid s \<Longrightarrow> finite (approvers s h)"
    and approve_valid: "valid s \<Longrightarrow> approve h k n s = (s', b) \<Longrightarrow> valid s'"
    and approve_new: "valid s \<Longrightarrow> approve h k n s = (s', True) \<Longrightarrow>
      approvers s' = (approvers s)(h := insert k (approvers s h))"
    and approve_old: "approve h k n s = (s', False) \<Longrightarrow> s' = s"
    and approve_approves: "valid s \<Longrightarrow> approve h k n s = (s', True) \<Longrightarrow>
      approved s' g \<Longrightarrow> approved s g \<or> g = h \<and> n \<le> card (approvers s' h)"
begin

definition by_quorum :: "'k set \<Rightarrow> nat \<Rightarrow> 's \<Rightarrow> bool" where
  "by_quorum M n s \<longleftrightarrow> (\<forall>h. approvers s h \<subseteq> M \<and> (approved s h \<longrightarrow> n \<le> card (approvers s h)))"

lemma by_quorum_approve:
  assumes "valid s" "by_quorum M n s" "k \<in> M" "approve h k n s = (s', b)"
  shows "by_quorum M n s'"
proof (cases b)
  case True
  then have run: "approve h k n s = (s', True)" using assms(4) by simp
  note new = approve_new [OF assms(1) run]
  have "n \<le> card (approvers s' g)" if "approved s' g" for g
  proof -
    have "approved s g \<or> g = h \<and> n \<le> card (approvers s' h)"
      using approve_approves [OF assms(1) run that] .
    moreover have "card (approvers s g) \<le> card (approvers s' g)"
      using approvers_finite [OF assms(1), of g] unfolding new by (auto intro: card_insert_le)
    ultimately show ?thesis using assms(2) by (auto simp: by_quorum_def intro: order_trans)
  qed
  then show ?thesis using assms(2,3) unfolding by_quorum_def new by auto
next
  case False
  then show ?thesis using approve_old [of h k n s s'] assms(2,4) by simp
qed

lemma quorums_meet:
  assumes "valid s" "by_quorum M n s" "finite M" "approved s g" "approved s h"
  shows "2 * n \<le> card M + card (approvers s g \<inter> approvers s h)"
proof -
  have "n \<le> card (approvers s g)" "n \<le> card (approvers s h)"
    and sub: "approvers s g \<union> approvers s h \<subseteq> M" using assms by (auto simp: by_quorum_def)
  moreover have "card (approvers s g \<union> approvers s h) \<le> card M" by (rule card_mono [OF assms(3) sub])
  ultimately show ?thesis
    using card_Un_Int [of "approvers s g" "approvers s h"] approvers_finite [OF assms(1)] by simp
qed

end

definition approver_keys :: "voting_db \<Rightarrow> bytes \<Rightarrow> bytes set" where
  "approver_keys db h = {k. bt_get (vd_approvals db) (h, k) \<noteq> None}"

definition is_approved :: "voting_db \<Rightarrow> bytes \<Rightarrow> bool" where
  "is_approved db h \<longleftrightarrow> (\<exists>row. bt_get (vd_requests db) h = Some row \<and> vr_approved_at row \<noteq> None)"

text \<open>An approval at a given height and message; an error of the store records nothing.\<close>

definition store_approve :: "bytes \<Rightarrow> u64 \<Rightarrow> bytes \<Rightarrow> bytes \<Rightarrow> nat \<Rightarrow> voting_db \<Rightarrow> voting_db \<times> bool" where
  "store_approve message height h k n db =
     (case insert_approval h k message height n db of (db', r) \<Rightarrow> (db', r = Inr True))"

lemma approver_keys_image:
  "approver_keys db h = (\<lambda>e. snd (fst e)) ` set (approvals_of db h)"
proof -
  have "bt_get (vd_approvals db) (h, k) \<noteq> None \<longleftrightarrow> k \<in> (\<lambda>e. snd (fst e)) ` set (approvals_of db h)" for k
    by (force simp: bt_get_None_iff bt_keys_def approvals_of_def)
  then show ?thesis by (simp add: approver_keys_def set_eq_iff)
qed

lemma approver_keys_card:
  assumes "voting_db_ok db"
  shows "finite (approver_keys db h)" "card (approver_keys db h) = approval_count db h"
proof -
  have "distinct (map fst (vd_approvals db))" using assms by (simp add: voting_db_ok_def bt_wf_distinct)
  then have d: "distinct (approvals_of db h)" "inj_on fst (set (approvals_of db h))"
    by (auto simp: approvals_of_def distinct_map intro: inj_on_subset)
  have "inj_on (\<lambda>e. snd (fst e)) (set (approvals_of db h))"
    using d(2) by (auto simp: inj_on_def approvals_of_def)
  then show "card (approver_keys db h) = approval_count db h"
    using d(1) by (simp add: approver_keys_image card_image distinct_card approval_count_def)
  show "finite (approver_keys db h)" by (simp add: approver_keys_image)
qed

lemma update_row_approvals: "vd_approvals (fst (update_row h P f db)) = vd_approvals db"
  by (simp add: update_row_def split: option.split)

lemma approvals_keys_cong: "vd_approvals db' = vd_approvals db \<Longrightarrow> approver_keys db' = approver_keys db"
  by (simp add: approver_keys_def fun_eq_iff)

lemma insert_approval_True:
  assumes "insert_approval h k m ht n db = (db', Inr True)"
  defines "db1 \<equiv> db\<lparr>vd_approvals := bt_insert (h, k) \<lparr>ar_message = m, ar_block_height = ht\<rparr> (vd_approvals db)\<rparr>"
  shows "db' = (if n \<le> approval_count db1 h
      then fst (update_row h (\<lambda>row. vr_approved_at row = None) (\<lambda>row. row\<lparr>vr_approved_at := Some ht\<rparr>) db1) else db1)"
    and "bt_get (vd_approvals db) (h, k) = None" and "bt_get (vd_requests db) h \<noteq> None"
  using assms(1) unfolding db1_def
  by (auto simp: insert_approval_def height_to_i64_def Let_def split: if_splits)

interpretation ledger: approval_ledger voting_db_ok approver_keys is_approved "store_approve message height"
  for message height
proof unfold_locales
  fix s s' :: voting_db and h k g n b
  show "finite (approver_keys s h)" if "voting_db_ok s" using approver_keys_card(1) [OF that] .
  show "voting_db_ok s'" if "voting_db_ok s" "store_approve message height h k n s = (s', b)"
    using that insert_approval_ok by (auto simp: store_approve_def split: prod.splits)
  show "s' = s" if "store_approve message height h k n s = (s', False)"
    using that by (auto simp: store_approve_def insert_approval_def height_to_i64_def Let_def split: prod.splits if_splits)
  let ?s1 = "s\<lparr>vd_approvals := bt_insert (h, k) \<lparr>ar_message = message, ar_block_height = height\<rparr> (vd_approvals s)\<rparr>"
  assume ok: "voting_db_ok s" and "store_approve message height h k n s = (s', True)"
  then have run: "insert_approval h k message height n s = (s', Inr True)"
    by (auto simp: store_approve_def split: prod.splits)
  note I = insert_approval_True [OF run]
  have vs': "vd_approvals s' = vd_approvals ?s1" unfolding I(1) by (simp add: update_row_approvals)
  then have keys: "approver_keys s' = approver_keys ?s1" by (rule approvals_keys_cong)
  also have "approver_keys ?s1 = (approver_keys s)(h := insert k (approver_keys s h))"
    by (auto simp: approver_keys_def bt_get_insert fun_eq_iff)
  finally show "approver_keys s' = (approver_keys s)(h := insert k (approver_keys s h))" .
  show "is_approved s g \<or> g = h \<and> n \<le> card (approver_keys s' h)" if "is_approved s' g"
  proof (cases "is_approved s g")
    case False
    have "voting_db_ok s'" using insert_approval_ok [OF ok run] by simp
    from approver_keys_card(2) [OF this, of h]
    have "card (approver_keys s' h) = approval_count ?s1 h"
      by (simp add: approval_count_def approvals_of_def vs')
    then show ?thesis using that False I(1)
      by (auto simp: is_approved_def update_row_def bt_get_insert split: if_splits option.splits)
  qed simp
qed

text \<open>The other operations approve nothing, and a row that stays keeps its approvals.\<close>

definition approvals_kept :: "voting_db \<Rightarrow> voting_db \<Rightarrow> bool" where
  "approvals_kept db db' \<longleftrightarrow> (\<forall>h. approver_keys db' h \<subseteq> approver_keys db h \<and>
     (is_approved db' h \<longrightarrow> is_approved db h \<and> approver_keys db' h = approver_keys db h))"

lemma approvals_keptI:
  assumes "vd_approvals db' = vd_approvals db" "\<And>h. is_approved db' h \<Longrightarrow> is_approved db h"
  shows "approvals_kept db db'"
  using assms by (simp add: approvals_kept_def approver_keys_def)

lemma update_row_kept:
  assumes "update_row h P f db = (db', n)" "\<And>row. P row \<Longrightarrow> vr_approved_at (f row) = vr_approved_at row"
  shows "approvals_kept db db'"
  using assms by (intro approvals_keptI)
    (auto simp: update_row_def is_approved_def bt_get_insert split: option.splits if_splits)

lemma approvals_kept_refl: "approvals_kept db db"
  by (simp add: approvals_kept_def)

lemma delete_expired_kept:
  assumes ok: "voting_db_ok db" and run: "delete_expired c t db = (db', n)"
  shows "approvals_kept db db'"
proof (cases "height_to_i64 c = Inr c \<and> height_to_i64 t = Inr t")
  case False
  then have "db' = db" using run by (auto simp: delete_expired_def height_to_i64_def split: if_splits)
  then show ?thesis by (simp add: approvals_kept_refl)
next
  case True
  let ?kept = "filter (\<lambda>(hash, row). \<not> row_expired c t row) (vd_requests db)"
  have db': "db' = db\<lparr>vd_requests := ?kept,
      vd_approvals := filter (\<lambda>((hash, key), a). bt_get ?kept hash \<noteq> None) (vd_approvals db)\<rparr>"
    using run True by (simp add: delete_expired_def Let_def)
  have wf: "bt_wf (vd_requests db)" "bt_wf (vd_approvals db)" using ok by (simp_all add: voting_db_ok_def)
  note requests = bt_get_filter [OF wf(1), of "\<lambda>hash row. \<not> row_expired c t row"]
  have "(\<lambda>((hash, key), a). bt_get ?kept hash \<noteq> None) = (\<lambda>(x, a). bt_get ?kept (fst x) \<noteq> None)"
    by (auto simp: fun_eq_iff)
  note approvals = bt_get_filter [OF wf(2), of "\<lambda>x a. bt_get ?kept (fst x) \<noteq> None", folded this]
  have get: "bt_get (vd_approvals db') (h, k) =
      (if bt_get ?kept h = None then None else bt_get (vd_approvals db) (h, k))" for h k
    unfolding db' using approvals [of "(h, k)"] by (simp split: option.split)
  show ?thesis
    unfolding approvals_kept_def approver_keys_def is_approved_def get
    by (auto simp: db' requests split: option.splits if_splits)
qed

lemma quiet_step_kept: "quiet_step db db' \<Longrightarrow> voting_db_ok db \<Longrightarrow> approvals_kept db db'"
proof (induction rule: quiet_step.induct)
  case (request h m p ht db db' r)
  then show ?case by (intro approvals_keptI)
    (auto simp: insert_synchronized_request_def height_to_i64_def is_approved_def bt_get_insert split: if_splits)
next
  case (orphaned db h txid)
  show ?case unfolding mark_execution_orphaned_def
    by (rule update_row_kept [OF prod.collapse [symmetric]]) simp
next
  case (included h txid ht bh db db' u)
  then show ?case unfolding mark_execution_included_def height_to_i64_def
    by (auto split: if_splits dest!: expect_updated_eq intro: approvals_kept_refl elim!: update_row_kept)
qed (auto simp: start_execution_def cancel_execution_def record_broadcast_def confirm_execution_def
    split: prod.splits dest!: expect_updated_eq elim!: update_row_kept intro: delete_expired_kept)

end
