(* ===== verification/Voting_Claims.thy ===== *)
theory Voting_Claims
  imports Voting_Execution
begin

text \<open>
  The properties of votings: approval by a quorum that matches the threshold of the storm tree, what
  the acceptance of a request establishes, and that what one member creates every other accepts.
\<close>

subsection \<open>Quorums\<close>

lemma required_approvals_threshold: "required_approvals n = minimum_threshold n"
proof -
  obtain q r where n: "n = 3 * q + r" and r: "r < 3" using mod_less_divisor [of 3 n] div_mult_mod_eq [of n 3]
    by (metis mult.commute zero_less_numeral)
  have "r = 0 \<or> r = 1 \<or> r = 2" using r by arith
  then show ?thesis unfolding n by (auto simp: required_approvals_def minimum_threshold_def Let_def)
qed

text \<open>
  The steps of a node's votings while its members are \<open>peers\<close>: approvals arrive in any order from
  anyone, and anything else happens to the stored votings.
\<close>

inductive voting_step :: "voting_env \<Rightarrow> peer list \<Rightarrow> voting_db \<Rightarrow> voting_db \<Rightarrow> bool" for env peers where
  vote: "accept_approval env peers message approval h height db = (db', r) \<Longrightarrow> voting_step env peers db db'"
| other: "quiet_step db db' \<Longrightarrow> voting_step env peers db db'"

inductive voting_reachable :: "voting_env \<Rightarrow> peer list \<Rightarrow> voting_db \<Rightarrow> bool" for env peers where
  empty: "voting_reachable env peers \<lparr>vd_requests = [], vd_approvals = []\<rparr>"
| step: "voting_reachable env peers db \<Longrightarrow> voting_step env peers db db' \<Longrightarrow> voting_reachable env peers db'"

lemma accept_approval_cases:
  assumes "accept_approval env peers message approval h height db = (db', r)"
  obtains (refused) "db' = db" "r \<noteq> Inr ()"
  | (stored) members inserted where "member_keys env peers = Inr members" "av_public_key approval \<in> members"
      "ve_verify env (av_signature approval) h (av_public_key approval)"
      "bt_get (vd_requests db) h \<noteq> None"
      "store_approve (ve_encode env message) height h (av_public_key approval) (required_approvals (length peers)) db = (db', inserted)"
      "r = (if inserted then Inr () else if 2 ^ 63 \<le> unat height then Inl (StoreFailure (HeightOutOfRange height))
            else Inl (DuplicateApproval (av_public_key approval)))"
proof -
  let ?k = "av_public_key approval"
  define checks where "checks = bind_res (require (ve_valid_key env ?k) (InvalidApproval ''malformed public key'')) (\<lambda>_.
           bind_res (member_keys env peers) (\<lambda>members.
           bind_res (require (?k \<in> members) (InvalidApproval ''not a network member'')) (\<lambda>_.
           bind_res (require (length (av_signature approval) = 64) (InvalidApproval ''signature has wrong length'')) (\<lambda>_.
           bind_res (require (ve_verify env (av_signature approval) h ?k) (InvalidApproval ''incorrect signature'')) (\<lambda>_.
           bind_res (ok_or (UnknownRequest h) (get_request db h)) (\<lambda>stored.
             Inr (required_approvals (length peers))))))))"
  have run: "(case checks of Inl e \<Rightarrow> (db, Inl e)
      | Inr required \<Rightarrow> (case insert_approval h ?k (ve_encode env message) height required db of
             (db1, Inl e) \<Rightarrow> (db1, Inl (StoreFailure e))
           | (db1, Inr inserted) \<Rightarrow> (db1, if inserted then Inr () else Inl (DuplicateApproval ?k)))) = (db', r)"
    using assms unfolding accept_approval_def checks_def .
  show thesis
  proof (cases checks)
    case (Inl e)
    then show thesis using run by (intro refused) auto
  next
    case (Inr required)
    then obtain members where m: "member_keys env peers = Inr members" "?k \<in> members"
      "ve_verify env (av_signature approval) h ?k" "required = required_approvals (length peers)"
      and g: "get_request db h \<noteq> None"
      unfolding checks_def by (auto simp: bind_res_eq_Inr)
    have g': "bt_get (vd_requests db) h \<noteq> None" using g by (simp add: get_request_def)
    obtain db1 q where i: "insert_approval h ?k (ve_encode env message) height required db = (db1, q)" by fastforce
    show thesis
      by (rule stored [OF m(1,2,3) g', of "q = Inr True"])
        (use run Inr i m(4) g' in \<open>auto simp: store_approve_def insert_approval_def height_to_i64_def Let_def split: if_splits\<close>)
  qed
qed

definition votes_signed :: "voting_env \<Rightarrow> voting_db \<Rightarrow> bool" where
  "votes_signed env db \<longleftrightarrow> (\<forall>h. \<forall>k\<in>approver_keys db h. \<exists>signature. ve_verify env signature h k)"

lemma voting_step_keeps:
  assumes step: "voting_step env peers db db'" and ok: "voting_db_ok db"
    and members: "member_keys env peers = Inr members"
    and q: "ledger.by_quorum members (required_approvals (length peers)) db" and s: "votes_signed env db"
  shows "voting_db_ok db' \<and> ledger.by_quorum members (required_approvals (length peers)) db' \<and> votes_signed env db'"
  using step
proof cases
  case (vote message approval h height r)
  from vote(1) show ?thesis
  proof (cases rule: accept_approval_cases)
    case refused
    then show ?thesis using ok q s by simp
  next
    case (stored members' inserted)
    have mem: "av_public_key approval \<in> members" using stored(1,2) members by simp
    note Q = ledger.by_quorum_approve [OF ok q mem stored(5)]
    have ok': "voting_db_ok db'" using ledger.approve_valid [OF ok stored(5)] .
    have "approver_keys db' = (approver_keys db)(h := insert (av_public_key approval) (approver_keys db h)) \<or> db' = db"
      using stored(5) by (cases inserted) (auto dest: ledger.approve_new [OF ok] ledger.approve_old)
    then have "votes_signed env db'" using s stored(3) by (auto simp: votes_signed_def split: if_splits)
    then show ?thesis using Q ok' by blast
  qed
next
  case other
  have ok': "voting_db_ok db'" using quiet_step_ok [OF other ok] by simp
  have "approvals_kept db db'" by (rule quiet_step_kept [OF other ok])
  then show ?thesis using ok' q s unfolding approvals_kept_def ledger.by_quorum_def votes_signed_def
    by (metis subset_iff)
qed

lemma voting_reachable_keeps:
  assumes "voting_reachable env peers db" "member_keys env peers = Inr members"
  shows "voting_db_ok db \<and> ledger.by_quorum members (required_approvals (length peers)) db \<and> votes_signed env db"
  using assms(1)
proof (induction rule: voting_reachable.induct)
  case empty
  let ?db = "\<lparr>vd_requests = [], vd_approvals = []\<rparr>"
  have "approver_keys ?db h = {}" "\<not> is_approved ?db h" for h
    by (simp_all add: approver_keys_def is_approved_def)
  then show ?case by (simp add: voting_db_ok_def ledger.by_quorum_def votes_signed_def bt_keys_def)
next
  case (step db db')
  then show ?case using voting_step_keeps assms(2) by blast
qed

text \<open>
  C10: a voting is approved by a quorum. While the members do not change, an approved voting has
  approvals of at least as many different members as a signer set of the storm tree, each by a
  signature of that member over the hash of the voting, and any two approved votings share the
  approvals of a third of the members.
\<close>

theorem approved_by_quorum:
  assumes "voting_reachable env peers db" and "member_keys env peers = Inr members"
    and "is_approved db h"
  shows "minimum_threshold (length peers) \<le> card (approver_keys db h) \<and> approver_keys db h \<subseteq> members \<and>
    (\<forall>k\<in>approver_keys db h. \<exists>signature. ve_verify env signature h k) \<and>
    (is_approved db g \<longrightarrow> length peers \<le> 3 * card (approver_keys db g \<inter> approver_keys db h))"
proof -
  note K = voting_reachable_keeps [OF assms(1,2)]
  then have ok: "voting_db_ok db" and q: "ledger.by_quorum members (minimum_threshold (length peers)) db"
    by (simp_all add: required_approvals_threshold)
  obtain keys where "members = set keys" "length keys = length peers"
    using assms(2) map_res_length by (fastforce simp: member_keys_def bind_res_eq_Inr)
  then have fin: "finite members" and card: "card members \<le> length peers"
    using card_length [of keys] by simp_all
  have "length peers \<le> 3 * card (approver_keys db g \<inter> approver_keys db h)" if "is_approved db g"
    using ledger.quorums_meet [OF ok q fin that assms(3)] card by (intro threshold_overlap) linarith
  then show ?thesis using K assms(3) q by (auto simp: ledger.by_quorum_def votes_signed_def)
qed

subsection \<open>A concrete network\<close>

definition toy_proposal :: signed_voting_proposal where
  "toy_proposal = \<lparr>sp_request = \<lparr>nv_kind = 2, nv_payload = []\<rparr>, sp_created_at = 5, sp_proposer = [1],
     sp_signature = replicate 64 0\<rparr>"

fun enc_bytes :: "bytes \<Rightarrow> bytes" where
  "enc_bytes [] = [0]"
| "enc_bytes (b # bs) = 1 # b # enc_bytes bs"

fun dec_bytes :: "bytes \<Rightarrow> (bytes \<times> bytes) option" where
  "dec_bytes (tag # b # rest) =
     (if tag = 0 then Some ([], b # rest)
      else case dec_bytes rest of None \<Rightarrow> None | Some (bs, rest') \<Rightarrow> Some (b # bs, rest'))"
| "dec_bytes [tag] = (if tag = 0 then Some ([], []) else None)"
| "dec_bytes [] = None"

lemma dec_enc_bytes [simp]: "dec_bytes (enc_bytes bs @ rest) = Some (bs, rest)"
proof (induction bs)
  case Nil
  show ?case by (cases rest) simp_all
qed simp

definition enc_signed :: "signed_voting_proposal \<Rightarrow> bytes" where
  "enc_signed p = enc_bytes (replicate (unat (nv_kind (sp_request p))) 0) @ enc_bytes (nv_payload (sp_request p)) @
     enc_bytes (replicate (unat (sp_created_at p)) 0) @ enc_bytes (sp_proposer p) @ enc_bytes (sp_signature p) @ []"

definition dec_signed :: "bytes \<Rightarrow> signed_voting_proposal option" where
  "dec_signed bytes =
     (case dec_bytes bytes of None \<Rightarrow> None | Some (kind, r1) \<Rightarrow>
      (case dec_bytes r1 of None \<Rightarrow> None | Some (payload, r2) \<Rightarrow>
      (case dec_bytes r2 of None \<Rightarrow> None | Some (created, r3) \<Rightarrow>
      (case dec_bytes r3 of None \<Rightarrow> None | Some (proposer, r4) \<Rightarrow>
      (case dec_bytes r4 of None \<Rightarrow> None | Some (signature, _) \<Rightarrow>
         Some \<lparr>sp_request = \<lparr>nv_kind = word_of_nat (length kind), nv_payload = payload\<rparr>,
               sp_created_at = word_of_nat (length created), sp_proposer = proposer, sp_signature = signature\<rparr>)))))"

lemma dec_enc_signed: "dec_signed (enc_signed p) = Some p"
  unfolding dec_signed_def enc_signed_def by (simp del: append_Nil2)

definition toy_voting :: voting_env where
  "toy_voting = \<lparr>ve_sha = id, ve_encode = nm_payload,
     ve_decode = (\<lambda>bytes. Some \<lparr>nm_kind = 6, nm_linked_to = None, nm_payload = bytes\<rparr>),
     ve_encode_vote = nv_payload, ve_decode_vote = (\<lambda>_. None),
     ve_encode_proposal = (\<lambda>_. []), ve_decode_proposal = (\<lambda>_. None),
     ve_encode_signed = enc_signed, ve_decode_signed = dec_signed,
     ve_encode_approval = av_public_key, ve_decode_approval = (\<lambda>_. None),
     ve_decode_members = (\<lambda>_. Some \<lparr>um_to_accept = [[4]], um_to_remove = []\<rparr>),
     ve_decode_merge = (\<lambda>_. None),
     ve_decode_split = (\<lambda>_. Some \<lparr>ss_utxo_to_split = \<lparr>se_txid = [], se_output_index = 0\<rparr>, ss_number_of_splits = 2\<rparr>),
     ve_encode_execute = (\<lambda>_. []), ve_decode_execute = (\<lambda>_. None),
     ve_valid_key = (\<lambda>_. True), ve_node_key = Some,
     ve_verify = (\<lambda>signature mh key. length signature = 64), ve_local_key = [1],
     ve_sign = (\<lambda>_. replicate 64 0), ve_coordinator = [1]\<rparr>"

definition toy_voters :: "peer list" where
  "toy_voters = map (\<lambda>key. \<lparr>pe_public_key = key, pe_socket_address = None, pe_last_seen = None,
     pe_status = (if key = [1] then Controlled else PeerActive), pe_discovery = False\<rparr>) [[1], [2], [3]]"

lemma toy_voting_members: "member_keys toy_voting toy_voters = Inr {[1], [2], [3]}"
  by (simp add: member_keys_def vote_node_key_def toy_voting_def toy_voters_def)

definition toy_vote :: "bytes \<Rightarrow> voting_db \<Rightarrow> voting_db" where
  "toy_vote key db = fst (accept_approval toy_voting toy_voters
     \<lparr>nm_kind = 7, nm_linked_to = Some [9], nm_payload = []\<rparr>
     \<lparr>av_public_key = key, av_signature = replicate 64 0\<rparr> [9] 6 db)"

definition toy_approved :: voting_db where
  "toy_approved = toy_vote [2] (toy_vote [1]
     (fst (insert_synchronized_request [9] [5] None 5 \<lparr>vd_requests = [], vd_approvals = []\<rparr>)))"

lemma toy_approved_reachable: "voting_reachable toy_voting toy_voters toy_approved"
proof -
  have "voting_step toy_voting toy_voters db (toy_vote key db)" for key db
    unfolding toy_vote_def by (rule voting_step.vote [OF prod.collapse [symmetric]])
  moreover have "voting_step toy_voting toy_voters db (fst (insert_synchronized_request h m p ht db))" for h m p ht db
    by (rule voting_step.other [OF quiet_step.request [OF prod.collapse [symmetric]]])
  ultimately show ?thesis unfolding toy_approved_def by (meson voting_reachable.intros)
qed

lemma toy_accept:
  "bt_get (vd_requests db) [9] \<noteq> None \<Longrightarrow> key \<in> {[1], [2], [3]} \<Longrightarrow>
   toy_vote key db = fst (insert_approval [9] key [] 6 2 db)"
  unfolding toy_vote_def accept_approval_def toy_voting_members
  by (auto simp: toy_voting_def get_request_def toy_voters_def required_approvals_def require_def
      split: prod.splits sum.splits)

lemma toy_approved_row: "is_approved toy_approved [9]"
  by (simp add: toy_approved_def insert_synchronized_request_def height_to_i64_def toy_accept bt_get_def
      insert_approval_def Let_def approval_count_def approvals_of_def update_row_def is_approved_def less_list_code)

theorem approved_by_quorum_witness:
  "voting_reachable toy_voting toy_voters toy_approved \<and> is_approved toy_approved [9] \<and>
   2 \<le> card (approver_keys toy_approved [9])"
  using approved_by_quorum [OF toy_approved_reachable toy_voting_members toy_approved_row, of "[9]"]
    toy_approved_reachable toy_approved_row
  by (simp add: toy_voters_def minimum_threshold_def)

subsection \<open>Changes of the members\<close>

text \<open>
  C13: a change of the members that passes the checks leaves at least three members and the
  coordinator among them, really changes the set, and brings in only well-formed keys; once approved,
  exactly that set is staged.
\<close>

theorem member_update_safe:
  assumes "validate_request env request peers = Inr ()"
    and "vote_kind_from_id (nv_kind request) = Some UpdateMembersVote"
    and "ve_decode_members env (nv_payload request) = Some update"
    and "member_keys env peers = Inr current"
    and "next = (current - set (um_to_remove update)) \<union> set (um_to_accept update)"
  shows "3 \<le> card next \<and> (ve_coordinator env \<in> current \<longrightarrow> ve_coordinator env \<in> next) \<and> next \<noteq> current \<and>
    (\<forall>k\<in>next - current. ve_valid_key env k) \<and>
    (vq_request v = request \<longrightarrow> stage_member_migration env stage peers v =
       (case stage next of MigrationBegun \<Rightarrow> Inr True | MigrationAlreadyStaged \<Rightarrow> Inr False
        | MigrationRefused \<Rightarrow> Inl MigrationFailure))"
proof -
  let ?A = "set (um_to_accept update)" and ?R = "set (um_to_remove update)"
  have checks: "list_all (ve_valid_key env) (um_to_accept update)" "?A \<noteq> {} \<or> ?R \<noteq> {}" "?A \<inter> ?R = {}"
    "?A \<inter> current = {}" "?R \<subseteq> current" "ve_coordinator env \<notin> ?R" "3 \<le> card current + card ?A - card ?R"
    using assms(1-4)
    by (auto simp: validate_request_def validate_request_structure_def checked_unique_keys_def decoded_def
        bind_res_eq_Inr Let_def split: if_splits)
  have fin: "finite current" using assms(4) by (auto simp: member_keys_def bind_res_eq_Inr)
  have "card next = card (current - ?R) + card ?A"
    unfolding assms(5) using fin checks(4) by (intro card_Un_disjoint) auto
  also have "card (current - ?R) = card current - card ?R"
    using checks(5) fin by (simp add: card_Diff_subset finite_subset)
  finally have "card next = card current - card ?R + card ?A" .
  moreover have "card ?R \<le> card current" by (rule card_mono [OF fin checks(5)])
  ultimately have card: "3 \<le> card next" using checks(7) by linarith
  have changed: "next \<noteq> current"
  proof (cases "?A = {}")
    case True
    then obtain x where "x \<in> ?R" using checks(2) by (metis ex_in_conv)
    then show ?thesis using checks(5) True unfolding assms(5) by auto
  next
    case False
    then obtain x where "x \<in> ?A" by (metis ex_in_conv)
    then show ?thesis using checks(4) unfolding assms(5) by auto
  qed
  have "stage_member_migration env stage peers v =
       (case stage next of MigrationBegun \<Rightarrow> Inr True | MigrationAlreadyStaged \<Rightarrow> Inr False
        | MigrationRefused \<Rightarrow> Inl MigrationFailure)" if "vq_request v = request"
    using changed unfolding stage_member_migration_def that assms(3,4) decoded_def assms(5) [symmetric]
    by (simp add: assms(5) [symmetric])
  moreover have "ve_coordinator env \<in> current \<longrightarrow> ve_coordinator env \<in> next"
    using checks(6) by (simp add: assms(5))
  moreover have "\<forall>k\<in>next - current. ve_valid_key env k"
    using checks(1) by (auto simp: assms(5) list_all_iff)
  ultimately show ?thesis using card changed by blast
qed

theorem member_update_safe_witness:
  "validate_request toy_voting \<lparr>nv_kind = 0, nv_payload = []\<rparr> toy_voters = Inr () \<and>
   3 \<le> card {[1], [2], [3], [4 :: u8]}"
proof -
  have v: "validate_request toy_voting \<lparr>nv_kind = 0, nv_payload = []\<rparr> toy_voters = Inr ()"
    unfolding validate_request_def toy_voting_members
    by (simp add: validate_request_structure_def checked_unique_keys_def decoded_def
        toy_voting_def vote_kind_from_id_def)
  have "{[1], [2], [3], [4 :: u8]} = ({[1], [2], [3]} - set []) \<union> set [[4]]" by auto
  from member_update_safe [OF v _ _ toy_voting_members, of "\<lparr>um_to_accept = [[4]], um_to_remove = []\<rparr>"] this v
  show ?thesis by (simp add: vote_kind_from_id_def toy_voting_def)
qed

subsection \<open>Requests\<close>

lemma validate_height_iff:
  assumes "unat observed < 2 ^ 63"
  shows "validate_proposal_height (Some created) observed = Inr () \<longleftrightarrow>
    unat created \<le> unat observed + 1 \<and> unat observed < unat created + 10080"
proof -
  have "unat (sat_add observed MAX_PROPOSAL_FUTURE_BLOCKS) = unat observed + 1"
    using assms by (simp add: unat_sat_add MAX_PROPOSAL_FUTURE_BLOCKS_def)
  moreover have "unat (sat_add created VOTING_TIMEOUT_BLOCKS) \<le> unat observed \<longleftrightarrow> unat created + 10080 \<le> unat observed"
    using assms unat_u64_bound [of created] by (simp add: unat_sat_add VOTING_TIMEOUT_BLOCKS_def min_def)
  ultimately show ?thesis
    by (auto simp: validate_proposal_height_def word_le_nat_alt word_less_nat_alt)
qed

lemma no_duplicate_Inr:
  "no_duplicate env canonical height rows = Inr () \<Longrightarrow> (m, created, approved) \<in> set rows \<Longrightarrow>
   unat height < unat (sat_add (case approved of None \<Rightarrow> created | Some a \<Rightarrow> a) VOTING_TIMEOUT_BLOCKS) \<Longrightarrow>
   \<exists>message request. ve_decode env m = Some message \<and> decode_voting_request env message = Inr request \<and>
     canonical_hash env request \<noteq> canonical"
  by (induction env canonical height rows rule: no_duplicate.induct)
     (auto simp: Let_def bind_res_eq_Inr decoded_def word_le_nat_alt split: if_splits)

lemma length_filter_insert:
  "bt_get m k = None \<Longrightarrow> length (filter P (bt_insert k v m)) = length (filter P m) + (if P (k, v) then 1 else 0)"
  by (induction k v m rule: bt_insert.induct) (auto simp: bt_get_def split: if_splits)

lemma insert_request_result:
  assumes "insert_request h m p ht db = (db', Inr b)"
  shows "bt_get (vd_requests db') h \<noteq> None \<and>
    active_request_count_for_proposer (Some p) db' \<le> active_request_count_for_proposer (Some p) db + 1 \<and>
    (\<forall>g. g \<noteq> h \<longrightarrow> bt_get (vd_requests db') g = bt_get (vd_requests db) g)"
  using assms
  by (auto simp: insert_request_def insert_synchronized_request_def height_to_i64_def bt_get_insert
      active_request_count_for_proposer_def length_filter_insert split: if_splits)

lemma insert_request_total:
  assumes "unat ht < 2 ^ 63"
  obtains db' b where "insert_request h m p ht db = (db', Inr b)" "bt_get (vd_requests db) h = None \<longrightarrow> b"
  using assms by (cases "bt_get (vd_requests db) h")
    (auto simp: insert_request_def insert_synchronized_request_def height_to_i64_def)

lemma ensure_unique_result:
  assumes "ensure_unique_active_request env request proposer height db = (db', Inr ())"
  shows "active_request_count_for_proposer proposer db' < 50 \<and>
    no_duplicate env (canonical_hash env request) height (unconfirmed_request_messages db') = Inr () \<and>
    unat height < 2 ^ 63 \<and> (voting_db_ok db \<longrightarrow> voting_db_ok db')"
proof -
  obtain db1 r where d: "delete_expired height VOTING_TIMEOUT_BLOCKS db = (db1, r)" by fastforce
  then have "r = Inr x \<Longrightarrow> unat height < 2 ^ 63" for x
    by (auto simp: delete_expired_def height_to_i64_def split: if_splits)
  then show ?thesis
    using assms d delete_expired_ok [OF _ d]
    by (auto simp: ensure_unique_active_request_def bind_res_eq_Inr MAX_ACTIVE_VOTINGS_PER_PROPOSER_def
        not_le split: sum.splits if_splits)
qed

text \<open>
  A request a node accepts from a peer was proposed by a member under its own key: the sender is
  a member and, where the proposal is signed, the signature is the sender's. It was made within the
  voting timeout and at most one block ahead, no other open voting asks for the same, and the
  proposer has at most 50 open votings, this one included.
\<close>

lemma accepted_request_checked:
  assumes "voting_db_ok db" and "handle_request env peers sender message height db = (db', Inr ())"
  shows "\<exists>request created proposer members.
    decode_voting_proposal env message = Inr (request, created) \<and> validate_request env request peers = Inr () \<and>
    (\<forall>c. created = Some c \<longrightarrow> unat c \<le> unat height + 1 \<and> unat height < unat c + 10080) \<and>
    ve_node_key env sender = Some proposer \<and> member_keys env peers = Inr members \<and> proposer \<in> members \<and>
    (\<forall>proposal. ve_decode_signed env (nm_payload message) = Some proposal \<longrightarrow> sp_proposer proposal = proposer \<and>
       ve_verify env (sp_signature proposal)
         (message_hash env (new_voting_request env (sp_request proposal) (sp_created_at proposal))) proposer) \<and>
    bt_get (vd_requests db') (message_hash env message) \<noteq> None \<and>
    active_request_count_for_proposer (Some proposer) db' \<le> 50 \<and>
    (\<forall>h row m q. h \<noteq> message_hash env message \<longrightarrow> bt_get (vd_requests db') h = Some row \<longrightarrow> \<not> vr_confirmed row \<longrightarrow>
       unat height < unat (sat_add (case vr_approved_at row of None \<Rightarrow> vr_block_height row | Some a \<Rightarrow> a) VOTING_TIMEOUT_BLOCKS) \<longrightarrow>
       ve_decode env (vr_message row) = Some m \<longrightarrow> decode_voting_request env m = Inr q \<longrightarrow>
       canonical_hash env q \<noteq> canonical_hash env request)"
proof -
  let ?hash = "message_hash env message"
  obtain request created proposer where
    dec: "decode_voting_proposal env message = Inr (request, created)"
    and window: "validate_proposal_height created height = Inr ()"
    and valid: "validate_request env request peers = Inr ()"
    and key: "vote_node_key env sender = Inr proposer"
    and member: "ensure_current_member env peers proposer ''voting request proposer'' = Inr ()"
    and origin: "\<exists>origin. verified_proposer env message = Inr origin \<and> (origin = None \<or> origin = Some proposer)"
    and run: "(case ensure_unique_active_request env request (Some proposer) height db of
             (db1, Inl e) \<Rightarrow> (db1, Inl e)
           | (db1, Inr _) \<Rightarrow>
               (case insert_request ?hash (ve_encode env message) proposer height db1 of
                  (db2, r) \<Rightarrow> (db2, bind_res (stored_result r) (\<lambda>_. Inr ())))) = (db', Inr ())"
    using assms(2) unfolding handle_request_def
    by (auto simp: bind_res_eq_Inr split: if_splits sum.splits)
  obtain db1 where U: "ensure_unique_active_request env request (Some proposer) height db = (db1, Inr ())"
    using run by (auto split: prod.splits sum.splits)
  obtain r where I: "insert_request ?hash (ve_encode env message) proposer height db1 = (db', r)"
    and r: "bind_res (stored_result r) (\<lambda>_. Inr ()) = Inr ()"
    using run U by (auto split: prod.splits)
  obtain b where b: "r = Inr b" using r by (auto simp: stored_result_def split: sum.splits)
  note R = insert_request_result [OF I [unfolded b]]
  note E = ensure_unique_result [OF U]
  have ok1: "bt_wf (vd_requests db1)" using E assms(1) by (simp add: voting_db_ok_def)
  have "canonical_hash env q \<noteq> canonical_hash env request"
    if "h \<noteq> ?hash" "bt_get (vd_requests db') h = Some row" "\<not> vr_confirmed row"
      "unat height < unat (sat_add (case vr_approved_at row of None \<Rightarrow> vr_block_height row | Some a \<Rightarrow> a) VOTING_TIMEOUT_BLOCKS)"
      "ve_decode env (vr_message row) = Some m" "decode_voting_request env m = Inr q" for h row m q
  proof -
    have "(h, row) \<in> set (vd_requests db1)" using that(1,2) R bt_get_eq_Some_iff [OF ok1, of h row] by simp
    then have "(vr_message row, vr_block_height row, vr_approved_at row) \<in> set (unconfirmed_request_messages db1)"
      using that(3) by (force simp: unconfirmed_request_messages_def)
    from no_duplicate_Inr [OF _ this that(4)] E that(5,6) show ?thesis by force
  qed
  moreover have "unat c \<le> unat height + 1 \<and> unat height < unat c + 10080" if "created = Some c" for c
    using window validate_height_iff [of height c] E that by simp
  moreover have "sp_proposer proposal = proposer \<and> ve_verify env (sp_signature proposal)
         (message_hash env (new_voting_request env (sp_request proposal) (sp_created_at proposal))) proposer"
    if "ve_decode_signed env (nm_payload message) = Some proposal" for proposal
    using origin that by (auto simp: verified_proposer_def split: if_splits)
  moreover obtain members where "member_keys env peers = Inr members" "proposer \<in> members"
    using member by (auto simp: ensure_current_member_def bind_res_eq_Inr)
  moreover have "ve_node_key env sender = Some proposer" using key by (simp add: vote_node_key_def)
  moreover have "active_request_count_for_proposer (Some proposer) db' \<le> 50" using R E by linarith
  ultimately show ?thesis using dec valid R by blast
qed

definition toy_message :: node_message where
  "toy_message = \<lparr>nm_kind = 6, nm_linked_to = None, nm_payload = enc_signed toy_proposal\<rparr>"

definition no_votes :: voting_db where
  "no_votes = \<lparr>vd_requests = [], vd_approvals = []\<rparr>"

lemma no_votes_ok: "voting_db_ok no_votes"
  by (simp add: no_votes_def voting_db_ok_def bt_keys_def)

lemma toy_validate: "validate_request toy_voting \<lparr>nv_kind = 2, nv_payload = []\<rparr> peers = Inr ()"
  by (simp add: validate_request_def validate_request_structure_def decoded_def toy_voting_def
      vote_kind_from_id_def)

lemma toy_unique: "ensure_unique_active_request toy_voting request proposer 5 no_votes = (no_votes, Inr ())"
  by (simp add: ensure_unique_active_request_def delete_expired_def height_to_i64_def no_votes_def
      VOTING_TIMEOUT_BLOCKS_def unconfirmed_request_messages_def active_request_count_for_proposer_def
      MAX_ACTIVE_VOTINGS_PER_PROPOSER_def)

lemma toy_decoded: "decode_voting_proposal toy_voting toy_message = Inr (\<lparr>nv_kind = 2, nv_payload = []\<rparr>, Some 5)"
  by (simp add: decode_voting_proposal_def toy_message_def toy_voting_def dec_enc_signed)
     (simp add: toy_proposal_def)

lemma toy_verified: "verified_proposer toy_voting toy_message = Inr (Some [1])"
  by (simp add: verified_proposer_def toy_message_def toy_voting_def dec_enc_signed) (simp add: toy_proposal_def)

lemma toy_insert:
  obtains db where "insert_request h m p 5 no_votes = (db, Inr True)"
  using insert_request_total [of 5 h m p no_votes] by (force simp: no_votes_def)

lemma toy_sender: "vote_node_key toy_voting key = Inr key"
  by (simp add: vote_node_key_def toy_voting_def)

lemma toy_current: "ensure_current_member toy_voting toy_voters [1] role = Inr ()"
  by (simp add: ensure_current_member_def toy_voting_members require_def)

lemma toy_handled: "\<exists>db. handle_request toy_voting toy_voters [1] toy_message 5 no_votes = (db, Inr ())"
proof -
  have "validate_proposal_height (Some 5) 5 = Inr ()" using validate_height_iff [of 5 5] by simp
  moreover have "nm_linked_to toy_message = None" by (simp add: toy_message_def)
  moreover obtain db where "insert_request (message_hash toy_voting toy_message) (ve_encode toy_voting toy_message) [1] 5 no_votes = (db, Inr True)"
    using toy_insert by blast
  ultimately show ?thesis
    by (simp add: handle_request_def toy_decoded toy_validate toy_verified toy_unique toy_sender toy_current
        stored_result_def)
qed

lemma accepted_request_checked_witness:
  "\<exists>db'. handle_request toy_voting toy_voters [1] toy_message 5 no_votes = (db', Inr ()) \<and>
    bt_get (vd_requests db') (message_hash toy_voting toy_message) \<noteq> None"
proof -
  obtain db' where run: "handle_request toy_voting toy_voters [1] toy_message 5 no_votes = (db', Inr ())"
    using toy_handled by blast
  from accepted_request_checked [OF no_votes_ok run] run show ?thesis by blast
qed



end
