(* ===== verification/Storm_Message.thy ===== *)
theory Storm_Message
  imports Prelude
begin

text \<open>
  The messages of the Storm transport (\<open>storm/src/message.rs\<close>): their header, their size limit, the
  length prefix that frames them, and the decoder that puts them together again from the plaintext
  of the Noise records, whose boundaries have nothing to do with those of the messages. The postcard
  codec is a parameter.
\<close>

record storm_message_header =
  sh_payload_id :: u32
  sh_timestamp :: u64
  sh_protocol_version :: u32

record storm_message =
  sm_header :: storm_message_header
  sm_payload :: bytes

definition MAX_MESSAGE_SIZE :: nat where "MAX_MESSAGE_SIZE = 10 * 1024 * 1024"

definition MESSAGE_LENGTH_SIZE :: nat where "MESSAGE_LENGTH_SIZE = 4"

text \<open>
  \<open>DecoderPanic\<close> is no error of the code: it stands for the subtractions of the decoder that would
  panic on an underflow.
\<close>

datatype message_error = TooLarge nat nat | Postcard | DecoderPanic

record postcard_codec =
  pc_to_vec :: "storm_message \<Rightarrow> bytes option"
  pc_from_bytes :: "bytes \<Rightarrow> storm_message option"

definition validate_message_size :: "nat \<Rightarrow> message_error + unit" where
  "validate_message_size size' =
     (if MAX_MESSAGE_SIZE < size' then Inl (TooLarge size' MAX_MESSAGE_SIZE) else Inr ())"

definition storm_to_bytes :: "postcard_codec \<Rightarrow> storm_message \<Rightarrow> message_error + bytes" where
  "storm_to_bytes pc m =
     bind_res (ok_or Postcard (pc_to_vec pc m)) (\<lambda>bs.
     bind_res (validate_message_size (length bs)) (\<lambda>_. Inr bs))"

definition storm_from_bytes :: "postcard_codec \<Rightarrow> bytes \<Rightarrow> message_error + storm_message" where
  "storm_from_bytes pc bs =
     bind_res (validate_message_size (length bs)) (\<lambda>_. ok_or Postcard (pc_from_bytes pc bs))"

definition to_framed_bytes :: "postcard_codec \<Rightarrow> storm_message \<Rightarrow> message_error + bytes" where
  "to_framed_bytes pc m =
     bind_res (storm_to_bytes pc m) (\<lambda>bs.
     bind_res (if length bs < 2 ^ 32 then Inr (length bs) else Inl (TooLarge (length bs) MAX_MESSAGE_SIZE)) (\<lambda>len.
     Inr (be_bytes 4 len @ bs)))"

subsection \<open>The decoder\<close>

record message_decoder =
  md_length_bytes :: bytes
  md_length_bytes_read :: nat
  md_expected_length :: "nat option"
  md_message_bytes :: bytes

definition decoder_new :: message_decoder where
  "decoder_new = \<lparr>md_length_bytes = [0, 0, 0, 0], md_length_bytes_read = 0,
     md_expected_length = None, md_message_bytes = []\<rparr>"

definition decoder_reset :: "message_decoder \<Rightarrow> message_decoder" where
  "decoder_reset d = d\<lparr>md_length_bytes := [0, 0, 0, 0], md_length_bytes_read := 0,
     md_expected_length := None, md_message_bytes := []\<rparr>"

text \<open>The first half of an iteration of the loop: the bytes of the length, while it is not known.\<close>

definition read_length :: "message_decoder \<Rightarrow> bytes \<Rightarrow> message_decoder \<times> bytes \<times> (message_error + unit)" where
  "read_length d bs =
     (if md_expected_length d \<noteq> None then (d, bs, Inr ())
      else if MESSAGE_LENGTH_SIZE < md_length_bytes_read d then (d, bs, Inl DecoderPanic)
      else
        let start = md_length_bytes_read d;
            copied = min (MESSAGE_LENGTH_SIZE - start) (length bs);
            d1 = d\<lparr>md_length_bytes := take start (md_length_bytes d) @ take copied bs @
                     drop (start + copied) (md_length_bytes d),
                   md_length_bytes_read := start + copied\<rparr>;
            rest = drop copied bs
        in if md_length_bytes_read d1 < MESSAGE_LENGTH_SIZE then (d1, rest, Inr ())
           else
             let expected = be_value (md_length_bytes d1)
             in (case validate_message_size expected of Inl e \<Rightarrow> (d1, rest, Inl e)
                 | Inr _ \<Rightarrow> (d1\<lparr>md_expected_length := Some expected, md_message_bytes := []\<rparr>, rest, Inr ())))"

text \<open>The second half: the bytes of the message, and the message once it is complete.\<close>

definition read_message ::
    "postcard_codec \<Rightarrow> nat \<Rightarrow> message_decoder \<Rightarrow> bytes \<Rightarrow>
     message_decoder \<times> bytes \<times> (message_error + storm_message option)" where
  "read_message pc expected d bs =
     (if expected < length (md_message_bytes d) then (d, bs, Inl DecoderPanic)
      else
        let copied = min (expected - length (md_message_bytes d)) (length bs);
            d1 = d\<lparr>md_message_bytes := md_message_bytes d @ take copied bs\<rparr>;
            rest = drop copied bs
        in if length (md_message_bytes d1) = expected
           then (case storm_from_bytes pc (md_message_bytes d1) of Inl e \<Rightarrow> (d1, rest, Inl e)
                 | Inr m \<Rightarrow> (decoder_reset d1, rest, Inr (Some m)))
           else (d1, rest, Inr None))"

definition push_step ::
    "postcard_codec \<Rightarrow> message_decoder \<Rightarrow> bytes \<Rightarrow>
     message_decoder \<times> bytes \<times> (message_error + storm_message option)" where
  "push_step pc d bs =
     (case read_length d bs of
        (d1, rest, Inl e) \<Rightarrow> (d1, rest, Inl e)
      | (d1, rest, Inr _) \<Rightarrow>
          (case md_expected_length d1 of None \<Rightarrow> (d1, rest, Inr None)
           | Some expected \<Rightarrow> read_message pc expected d1 rest))"

text \<open>
  Whether an iteration may leave its input as it is: only at the end of a length or of a message,
  which no iteration leaves behind. The loop of the code ends because of it.
\<close>

definition decoder_full :: "message_decoder \<Rightarrow> bool" where
  "decoder_full d \<longleftrightarrow>
     (case md_expected_length d of None \<Rightarrow> MESSAGE_LENGTH_SIZE \<le> md_length_bytes_read d
      | Some n \<Rightarrow> n \<le> length (md_message_bytes d))"

lemma read_length_progress:
  assumes "read_length d bs = (d1, rest, Inr u)" and "bs \<noteq> []"
  shows "length rest < length bs \<and> \<not> decoder_full d \<or> d1 = d \<and> rest = bs \<and> md_expected_length d \<noteq> None \<or>
    rest = bs \<and> decoder_full d \<and> md_expected_length d1 \<noteq> None"
proof (cases "md_expected_length d")
  case None
  show ?thesis
  proof (cases "md_length_bytes_read d < 4")
    case True
    then have "length rest < length bs" using assms None
      by (auto simp: read_length_def Let_def MESSAGE_LENGTH_SIZE_def split: if_splits sum.splits)
    then show ?thesis using None True by (simp add: decoder_full_def MESSAGE_LENGTH_SIZE_def)
  next
    case False
    then show ?thesis using assms None
      by (auto simp: read_length_def Let_def decoder_full_def MESSAGE_LENGTH_SIZE_def
          split: if_splits sum.splits)
  qed
qed (use assms in \<open>auto simp: read_length_def\<close>)

lemma read_message_progress:
  assumes "read_message pc n d bs = (d', rest, Inr om)"
  shows "length rest \<le> length bs \<and> (length rest = length bs \<longrightarrow> bs = [] \<or> n \<le> length (md_message_bytes d) \<and> \<not> decoder_full d')"
proof -
  have "\<not> decoder_full (decoder_reset x)" for x
    by (simp add: decoder_full_def decoder_reset_def MESSAGE_LENGTH_SIZE_def)
  then show ?thesis using assms
    by (auto simp: read_message_def Let_def min_def split: if_splits sum.splits)
qed

lemma push_step_progress:
  assumes step: "push_step pc d bs = (d', rest, Inr om)" and "bs \<noteq> []"
  shows "length rest < length bs \<or> length rest = length bs \<and> decoder_full d \<and> \<not> decoder_full d'"
proof -
  obtain d1 r1 u where read: "read_length d bs = (d1, r1, Inr u)"
    using step by (auto simp: push_step_def split: prod.splits sum.splits)
  show ?thesis
  proof (cases "md_expected_length d1")
    case None
    then show ?thesis using read_length_progress [OF read assms(2)] step read
      by (auto simp: push_step_def)
  next
    case (Some n)
    then have "read_message pc n d1 r1 = (d', rest, Inr om)" using step read by (simp add: push_step_def)
    from read_message_progress [OF this] read_length_progress [OF read assms(2)] Some assms(2)
    show ?thesis by (auto simp: decoder_full_def)
  qed
qed

function push_loop ::
    "postcard_codec \<Rightarrow> message_decoder \<Rightarrow> storm_message list \<Rightarrow> bytes \<Rightarrow>
     message_decoder \<times> (message_error + storm_message list)" where
  "push_loop pc d messages bs =
     (if bs = [] then (d, Inr messages)
      else (case push_step pc d bs of
              (d', rest, Inl e) \<Rightarrow> (d', Inl e)
            | (d', rest, Inr om) \<Rightarrow>
                push_loop pc d' (messages @ (case om of None \<Rightarrow> [] | Some m \<Rightarrow> [m])) rest))"
  by pat_completeness auto

termination
proof (relation "measures [\<lambda>(pc, d, ms, bs). length bs, \<lambda>(pc, d, ms, bs). if decoder_full d then 1 else 0]",
    goal_cases)
  case (2 pc d ms bs)
  then show ?case by (auto dest!: push_step_progress [OF sym])
qed simp

declare push_loop.simps [simp del]

definition push :: "postcard_codec \<Rightarrow> message_decoder \<Rightarrow> bytes \<Rightarrow> message_decoder \<times> (message_error + storm_message list)" where
  "push pc d bs = push_loop pc d [] bs"

subsection \<open>Byte by byte\<close>

text \<open>The states between two pushes.\<close>

definition decoder_ok :: "message_decoder \<Rightarrow> bool" where
  "decoder_ok d \<longleftrightarrow> length (md_length_bytes d) = MESSAGE_LENGTH_SIZE \<and>
     (case md_expected_length d of None \<Rightarrow> md_length_bytes_read d < MESSAGE_LENGTH_SIZE
      | Some n \<Rightarrow> length (md_message_bytes d) < n \<and> n \<le> MAX_MESSAGE_SIZE)"

lemma decoder_new_ok [simp]: "decoder_ok decoder_new"
  by (simp add: decoder_ok_def decoder_new_def MESSAGE_LENGTH_SIZE_def)

lemma decoder_new_empty [simp]: "md_message_bytes decoder_new = []"
  by (simp add: decoder_new_def)

lemma decoder_reset_ok [simp]: "decoder_ok (decoder_reset d)"
  by (simp add: decoder_ok_def decoder_reset_def MESSAGE_LENGTH_SIZE_def)

lemma push_loop_Nil [simp]: "push_loop pc d ms [] = (d, Inr ms)"
  by (simp add: push_loop.simps)

lemma push_step_known:
  "md_expected_length d = Some n \<Longrightarrow> push_step pc d bs = read_message pc n d bs"
  by (simp add: push_step_def read_length_def)

lemma read_message_byte:
  assumes "length (md_message_bytes d) < n" and "read_message pc n d [x] = (d1, r1, r)"
  shows "read_message pc n d (x # xs) = (d1, xs, r) \<or>
    r = Inr None \<and> xs \<noteq> [] \<and> d1 = d\<lparr>md_message_bytes := md_message_bytes d @ [x]\<rparr> \<and>
    read_message pc n d (x # xs) = read_message pc n d1 xs"
proof (cases "Suc (length (md_message_bytes d)) = n \<or> xs = []")
  case True
  have one: "read_message pc n d (x # ys) =
      (let d1 = d\<lparr>md_message_bytes := md_message_bytes d @ [x]\<rparr>
       in if Suc (length (md_message_bytes d)) = n
          then (case storm_from_bytes pc (md_message_bytes d1) of Inl e \<Rightarrow> (d1, ys, Inl e)
                | Inr m \<Rightarrow> (decoder_reset d1, ys, Inr (Some m)))
          else (d1, ys, Inr None))" if "ys = xs \<or> ys = []" for ys
  proof -
    have m: "min (n - length (md_message_bytes d)) (Suc (length ys)) = 1"
      using assms(1) that True by (auto simp: min_def)
    show ?thesis unfolding read_message_def Let_def list.size add_0_right add_Suc_right m
      using assms(1) by (simp split: sum.split)
  qed
  show ?thesis using assms(2) one [of xs] one [of "[]"] by (auto simp: Let_def split: sum.splits if_splits)
next
  case False
  define c where "c = min (n - Suc (length (md_message_bytes d))) (length xs)"
  have m: "min (n - length (md_message_bytes d)) (Suc (length xs)) = Suc c"
    and m1: "min (n - length (md_message_bytes d)) (Suc 0) = 1"
    using False assms(1) by (simp_all add: c_def)
  have c: "c \<le> length xs" by (simp add: c_def)
  have d1: "d1 = d\<lparr>md_message_bytes := md_message_bytes d @ [x]\<rparr>" "r = Inr None"
    using assms False by (auto simp: read_message_def Let_def m1)
  then have m2: "min (n - length (md_message_bytes d1)) (length xs) = c" by (simp add: c_def)
  have "read_message pc n d (x # xs) = read_message pc n d1 xs"
    unfolding read_message_def Let_def list.size add_0_right add_Suc_right m m2
    using assms(1) False c d1 by (simp split: sum.split)
  with d1 False show ?thesis by simp
qed

lemma splice_append:
  "s < length l \<Longrightarrow>
   take s l @ take (Suc c) (x # xs) @ drop (s + Suc c) l =
   (let l1 = take s l @ [x] @ drop (Suc s) l in take (Suc s) l1 @ take c xs @ drop (Suc s + c) l1)"
  by (simp add: Let_def min_def add.commute)

lemma push_step_byte:
  assumes ok: "decoder_ok d" and one: "push_step pc d [x] = (d1, r1, r)"
  shows "push_step pc d (x # xs) = (d1, xs, r) \<or>
    r = Inr None \<and> xs \<noteq> [] \<and> push_step pc d (x # xs) = push_step pc d1 xs"
proof (cases "md_expected_length d")
  case (Some n)
  then have "read_message pc n d [x] = (d1, r1, r)" "length (md_message_bytes d) < n"
    using one ok by (simp_all add: push_step_def read_length_def decoder_ok_def)
  from read_message_byte [OF this(2,1), of xs] Some show ?thesis
    by (cases "xs = []") (auto simp: push_step_def read_length_def one [unfolded push_step_def read_length_def])
next
  case None
  define l1 where "l1 = take (md_length_bytes_read d) (md_length_bytes d) @ [x] @
    drop (Suc (md_length_bytes_read d)) (md_length_bytes d)"
  have read: "md_length_bytes_read d < 4" and len: "length (md_length_bytes d) = 4"
    using ok None by (simp_all add: decoder_ok_def MESSAGE_LENGTH_SIZE_def)
  show ?thesis
  proof (cases "Suc (md_length_bytes_read d) = 4")
    case True
    then have m: "min (MESSAGE_LENGTH_SIZE - md_length_bytes_read d) (length (x # ys)) = 1" for ys :: bytes
      by (simp add: MESSAGE_LENGTH_SIZE_def)
    define d2 where "d2 = d\<lparr>md_length_bytes := l1, md_length_bytes_read := 4\<rparr>"
    define n where "n = be_value l1"
    have step: "push_step pc d (x # ys) = (case validate_message_size n of Inl e \<Rightarrow> (d2, ys, Inl e)
        | Inr _ \<Rightarrow> read_message pc n (d2\<lparr>md_expected_length := Some n, md_message_bytes := []\<rparr>) ys)" for ys
      using None read True m [of ys]
      by (simp add: push_step_def read_length_def Let_def MESSAGE_LENGTH_SIZE_def d2_def n_def l1_def
          split: sum.split)
    show ?thesis
    proof (cases "n = 0 \<or> (\<exists>e. validate_message_size n = Inl e)")
      case True
      then show ?thesis using one step [of "[]"] step [of xs]
        by (auto simp: read_message_def validate_message_size_def Let_def split: sum.splits if_splits)
    next
      case False
      then obtain u where v: "validate_message_size n = Inr u" by (cases "validate_message_size n") auto
      let ?d3 = "d2\<lparr>md_expected_length := Some n, md_message_bytes := []\<rparr>"
      have "read_message pc n ?d3 [] = (?d3, [], Inr None)" using False by (simp add: read_message_def)
      then have "push_step pc d [x] = (?d3, [], Inr None)" using step [of "[]"] v by simp
      then have "r = Inr None" "r1 = []" "d1 = ?d3" using one by simp_all
      moreover have "push_step pc d (x # xs) = push_step pc ?d3 xs"
        using step [of xs] v by (simp add: push_step_known)
      ultimately show ?thesis using one by (cases "xs = []") simp_all
    qed
  next
    case False
    let ?s = "md_length_bytes_read d"
    define c where "c = min (MESSAGE_LENGTH_SIZE - Suc ?s) (length xs)"
    have m: "min (MESSAGE_LENGTH_SIZE - ?s) (Suc (length xs)) = Suc c"
      and m1: "min (MESSAGE_LENGTH_SIZE - ?s) (Suc 0) = 1"
      using False read by (simp_all add: c_def MESSAGE_LENGTH_SIZE_def)
    have "read_length d [x] = (d\<lparr>md_length_bytes := l1, md_length_bytes_read := Suc ?s\<rparr>, [], Inr ())"
      unfolding read_length_def Let_def list.size add_0_right add_Suc_right m1
      using None read False by (simp add: l1_def MESSAGE_LENGTH_SIZE_def)
    then have "r1 = []" and d1: "r = Inr None" "d1 = d\<lparr>md_length_bytes := l1, md_length_bytes_read := Suc ?s\<rparr>"
      using one None by (simp_all add: push_step_def)
    have m2: "min (MESSAGE_LENGTH_SIZE - md_length_bytes_read d1) (length xs) = c"
      using d1 by (simp add: c_def)
    have l: "take ?s (md_length_bytes d) @ take (Suc c) (x # xs) @ drop (Suc (?s + c)) (md_length_bytes d) =
        take (md_length_bytes_read d1) (md_length_bytes d1) @ take c xs @
          drop (md_length_bytes_read d1 + c) (md_length_bytes d1)"
      using splice_append [of ?s "md_length_bytes d" c x xs] read len d1 by (simp add: l1_def Let_def)
    have s: "Suc (?s + c) = md_length_bytes_read d1 + c" "md_length_bytes_read d1 < 4" "md_expected_length d1 = None"
      and u: "d1\<lparr>md_length_bytes := A, md_length_bytes_read := B\<rparr> = d\<lparr>md_length_bytes := A, md_length_bytes_read := B\<rparr>" for A B
      using d1 read None False by simp_all
    have "read_length d (x # xs) = read_length d1 xs"
      unfolding read_length_def Let_def list.size add_0_right add_Suc_right m m2
      unfolding add_Suc_right unfolding l u unfolding s(1) using None s(2,3) read
      by (simp add: MESSAGE_LENGTH_SIZE_def split: sum.split)
    then have "push_step pc d (x # xs) = push_step pc d1 xs" by (simp add: push_step_def)
    then show ?thesis using one d1(1) \<open>r1 = []\<close> by (cases "xs = []") simp_all
  qed
qed

lemma push_loop_byte:
  assumes "decoder_ok d"
  shows "push_loop pc d ms (x # xs) =
    (case push_step pc d [x] of (d', _, Inl e) \<Rightarrow> (d', Inl e)
     | (d', _, Inr om) \<Rightarrow> push_loop pc d' (ms @ (case om of None \<Rightarrow> [] | Some m \<Rightarrow> [m])) xs)"
proof -
  obtain d1 r1 r where one: "push_step pc d [x] = (d1, r1, r)" by (cases "push_step pc d [x]")
  from push_step_byte [OF assms this, of xs] show ?thesis
  proof
    assume "push_step pc d (x # xs) = (d1, xs, r)"
    then show ?thesis by (simp add: push_loop.simps [of pc d] one split: sum.split)
  next
    assume "r = Inr None \<and> xs \<noteq> [] \<and> push_step pc d (x # xs) = push_step pc d1 xs"
    then show ?thesis by (simp add: push_loop.simps [of pc d] push_loop.simps [of pc d1] one)
  qed
qed

lemma push_step_byte_ok:
  assumes ok: "decoder_ok d" and held: "length (md_message_bytes d) \<le> MAX_MESSAGE_SIZE"
    and one: "push_step pc d [x] = (d1, r1, r)"
  shows "length (md_message_bytes d1) \<le> MAX_MESSAGE_SIZE \<and> r \<noteq> Inl DecoderPanic \<and>
    ((\<exists>om. r = Inr om) \<longrightarrow> decoder_ok d1)"
proof (cases "md_expected_length d")
  case (Some n)
  then have "length (md_message_bytes d) < n" "n \<le> MAX_MESSAGE_SIZE" "length (md_length_bytes d) = MESSAGE_LENGTH_SIZE"
    using ok by (simp_all add: decoder_ok_def)
  moreover have "storm_from_bytes pc bs \<noteq> Inl DecoderPanic" for bs
    by (auto simp: storm_from_bytes_def validate_message_size_def bind_res_eq_Inl)
  moreover note decoder_reset_ok
  ultimately show ?thesis using one Some
    by (auto simp: push_step_known read_message_def Let_def decoder_ok_def decoder_reset_def
        MESSAGE_LENGTH_SIZE_def split: sum.splits if_splits)
next
  case None
  have read: "md_length_bytes_read d < 4" "length (md_length_bytes d) = 4"
    using ok None by (simp_all add: decoder_ok_def MESSAGE_LENGTH_SIZE_def)
  have panic: "storm_from_bytes pc bs \<noteq> Inl DecoderPanic" for bs
    by (auto simp: storm_from_bytes_def validate_message_size_def bind_res_eq_Inl)
  obtain d2 r2 v where len: "read_length d [x] = (d2, r2, v)" by (cases "read_length d [x]")
  then have d2: "length (md_length_bytes d2) = 4 \<and> r2 = [] \<and> v \<noteq> Inl DecoderPanic \<and>
    length (md_message_bytes d2) \<le> MAX_MESSAGE_SIZE \<and>
    (case md_expected_length d2 of None \<Rightarrow> v = Inr () \<longrightarrow> md_length_bytes_read d2 < 4
     | Some n \<Rightarrow> md_message_bytes d2 = [] \<and> n \<le> MAX_MESSAGE_SIZE)"
    using None read held by (auto simp: read_length_def Let_def MESSAGE_LENGTH_SIZE_def validate_message_size_def
        split: if_splits)
  show ?thesis
  proof (cases v)
    case (Inl e)
    then show ?thesis using one len d2 by (auto simp: push_step_def)
  next
    case (Inr u)
    show ?thesis
    proof (cases "md_expected_length d2")
      case None
      then show ?thesis using one len d2 Inr
        by (auto simp: push_step_def decoder_ok_def MESSAGE_LENGTH_SIZE_def)
    next
      case (Some n)
      then show ?thesis using one len d2 Inr panic
        by (auto simp: push_step_def read_message_def Let_def decoder_ok_def MESSAGE_LENGTH_SIZE_def
            decoder_reset_def split: sum.splits if_splits)
    qed
  qed
qed

text \<open>Pushing is a fold over the bytes, so the boundaries of the chunks leave no trace.\<close>

lemma push_loop_append:
  assumes "decoder_ok d" and "length (md_message_bytes d) \<le> MAX_MESSAGE_SIZE"
  shows "push_loop pc d ms (xs @ ys) =
    (case push_loop pc d ms xs of (d', Inl e) \<Rightarrow> (d', Inl e) | (d', Inr ms') \<Rightarrow> push_loop pc d' ms' ys)"
  using assms
proof (induction xs arbitrary: d ms)
  case (Cons x xs)
  obtain d1 r1 r where one: "push_step pc d [x] = (d1, r1, r)" by (cases "push_step pc d [x]")
  show ?case
  proof (cases r)
    case (Inr om)
    then have "decoder_ok d1" "length (md_message_bytes d1) \<le> MAX_MESSAGE_SIZE"
      using push_step_byte_ok [OF Cons.prems one] by auto
    from Cons.IH [OF this] show ?thesis using Inr by (simp add: push_loop_byte [OF Cons.prems(1)] one)
  qed (simp add: push_loop_byte [OF Cons.prems(1)] one)
qed simp

lemma push_loop_messages:
  "push_loop pc d (ms0 @ ms) bs = map_prod id (map_sum id ((@) ms0)) (push_loop pc d ms bs)"
proof (induction pc d ms bs rule: push_loop.induct)
  case (1 pc d ms bs)
  show ?case
  proof (cases "bs = []")
    case False
    obtain d1 r1 r where step: "push_step pc d bs = (d1, r1, r)" by (cases "push_step pc d bs")
    show ?thesis
    proof (cases r)
      case (Inr om)
      then show ?thesis using 1 [OF False step [symmetric] refl Inr] step False
        by (simp add: push_loop.simps [of pc d])
    qed (use step False in \<open>simp add: push_loop.simps [of pc d]\<close>)
  qed simp
qed

lemma push_loop_held:
  assumes "decoder_ok d" and "length (md_message_bytes d) \<le> MAX_MESSAGE_SIZE"
    and "push_loop pc d ms xs = (d', r)"
  shows "length (md_message_bytes d') \<le> MAX_MESSAGE_SIZE \<and> r \<noteq> Inl DecoderPanic \<and>
    ((\<exists>ms'. r = Inr ms') \<longrightarrow> decoder_ok d')"
  using assms
proof (induction xs arbitrary: d ms)
  case (Cons x xs)
  obtain d1 r1 v where one: "push_step pc d [x] = (d1, r1, v)" by (cases "push_step pc d [x]")
  note held = push_step_byte_ok [OF Cons.prems(1,2) one]
  show ?case
  proof (cases v)
    case (Inl e)
    then show ?thesis using held Cons.prems(3) by (auto simp: push_loop_byte [OF Cons.prems(1)] one)
  next
    case (Inr om)
    then have "push_loop pc d1 (ms @ (case om of None \<Rightarrow> [] | Some m \<Rightarrow> [m])) xs = (d', r)"
      using Cons.prems(3) by (simp add: push_loop_byte [OF Cons.prems(1)] one)
    from Cons.IH [OF _ _ this] show ?thesis using held Inr by blast
  qed
qed auto

text \<open>What the reading half of a connection does with the plaintext of one record after another.\<close>

fun push_all :: "postcard_codec \<Rightarrow> message_decoder \<Rightarrow> bytes list \<Rightarrow> message_decoder \<times> (message_error + storm_message list)" where
  "push_all pc d [] = (d, Inr [])"
| "push_all pc d (chunk # chunks) =
     (case push pc d chunk of
        (d', Inl e) \<Rightarrow> (d', Inl e)
      | (d', Inr ms) \<Rightarrow> (case push_all pc d' chunks of
            (d2, Inl e) \<Rightarrow> (d2, Inl e)
          | (d2, Inr ms') \<Rightarrow> (d2, Inr (ms @ ms'))))"

lemma push_all_concat:
  assumes "decoder_ok d" and "length (md_message_bytes d) \<le> MAX_MESSAGE_SIZE"
  shows "push_all pc d chunks = push pc d (concat chunks)"
  using assms
proof (induction chunks arbitrary: d)
  case (Cons chunk chunks)
  obtain d1 r where one: "push_loop pc d [] chunk = (d1, r)" by (cases "push_loop pc d [] chunk")
  show ?case
  proof (cases r)
    case (Inr ms)
    then have "decoder_ok d1" "length (md_message_bytes d1) \<le> MAX_MESSAGE_SIZE"
      using push_loop_held [OF Cons.prems one] by auto
    from Cons.IH [OF this] show ?thesis
      using push_loop_messages [of pc d1 ms "[]" "concat chunks"] one Inr
        push_loop_append [OF Cons.prems, of pc "[]" chunk "concat chunks"]
      by (cases "push_loop pc d1 [] (concat chunks)") (auto simp: push_def split: sum.split)
  qed (use one push_loop_append [OF Cons.prems, of pc "[]" chunk "concat chunks"] in \<open>simp add: push_def\<close>)
qed (simp add: push_def)

subsection \<open>Properties of the decoder\<close>

lemma framed_push:
  assumes "to_framed_bytes pc m = Inr frame" and "\<And>bs. pc_to_vec pc m = Some bs \<Longrightarrow> pc_from_bytes pc bs = Some m"
  shows "push_loop pc decoder_new ms (frame @ rest) = push_loop pc decoder_new (ms @ [m]) rest"
proof -
  obtain bs where bs: "pc_to_vec pc m = Some bs" "length bs \<le> MAX_MESSAGE_SIZE"
    and frame: "frame = be_bytes 4 (length bs) @ bs"
    using assms(1) by (auto simp: to_framed_bytes_def storm_to_bytes_def validate_message_size_def
        bind_res_eq_Inr split: if_splits)
  have vlen: "be_value (be_bytes 4 (length bs)) = length bs"
    using bs(2) by (intro be_value_be_bytes) (simp add: MAX_MESSAGE_SIZE_def)
  have four: "min (MESSAGE_LENGTH_SIZE - 0) (length (frame @ rest)) = 4"
    "take 4 (frame @ rest) = be_bytes 4 (length bs)" "drop 4 (frame @ rest) = bs @ rest"
    using length_be_bytes [of 4 "length bs"] by (auto simp: frame MESSAGE_LENGTH_SIZE_def)
  have ne: "frame @ rest \<noteq> []" by (simp add: frame be_bytes_4)
  define d1 where "d1 = decoder_new\<lparr>md_length_bytes := be_bytes 4 (length bs), md_length_bytes_read := 4,
    md_expected_length := Some (length bs), md_message_bytes := []\<rparr>"
  have sel: "md_expected_length decoder_new = None" "md_length_bytes_read decoder_new = 0"
    "md_length_bytes decoder_new = [0, 0, 0, 0]" "MESSAGE_LENGTH_SIZE = 4"
    by (simp_all add: decoder_new_def MESSAGE_LENGTH_SIZE_def)
  have "read_length decoder_new (frame @ rest) = (d1, bs @ rest, Inr ())"
    unfolding read_length_def sel(1-3) Let_def four(1) using four(2,3) bs(2)
    by (simp add: sel(4) vlen validate_message_size_def d1_def)
  moreover have "read_message pc (length bs) d1 (bs @ rest) = (decoder_new, rest, Inr (Some m))"
    using assms(2) [OF bs(1)] bs(2)
    by (simp add: read_message_def Let_def d1_def storm_from_bytes_def validate_message_size_def
        decoder_reset_def decoder_new_def)
  ultimately have "push_step pc decoder_new (frame @ rest) = (decoder_new, rest, Inr (Some m))"
    by (simp add: push_step_def d1_def)
  then show ?thesis using ne by (subst push_loop.simps) simp
qed

text \<open>
  C19: the messages sent over a connection arrive as they were sent. Whatever messages a peer frames
  and however the stream of their bytes is cut into records, the decoder returns exactly those
  messages in their order, and is then ready for the next one.
\<close>

theorem frames_reassembled:
  assumes "map_res (to_framed_bytes pc) ms = Inr frames" and "concat chunks = concat frames"
    and "\<And>m bs. pc_to_vec pc m = Some bs \<Longrightarrow> pc_from_bytes pc bs = Some m"
  shows "push_all pc decoder_new chunks = (decoder_new, Inr ms)"
proof -
  have "push_loop pc decoder_new acc (concat frames) = (decoder_new, Inr (acc @ ms))" for acc
    using assms(1)
  proof (induction ms arbitrary: acc frames)
    case (Cons m ms)
    then obtain f fs where f: "frames = f # fs" "to_framed_bytes pc m = Inr f"
      "map_res (to_framed_bytes pc) ms = Inr fs" by (auto simp: bind_res_eq_Inr)
    have "push_loop pc decoder_new acc (concat frames) = push_loop pc decoder_new (acc @ [m]) (concat fs)"
      using framed_push [OF f(2), of acc "concat fs"] assms(3) f(1) by simp
    also have "\<dots> = (decoder_new, Inr (acc @ m # ms))" using Cons.IH [OF f(3), of "acc @ [m]"] by simp
    finally show ?case .
  qed simp
  from this [of "[]"] show ?thesis using push_all_concat [OF decoder_new_ok, of pc chunks] assms(2)
    by (simp add: push_def decoder_new_def)
qed

definition toy_codec :: postcard_codec where
  "toy_codec = \<lparr>pc_to_vec = \<lambda>m. Some (be_bytes 4 (unat (sh_payload_id (sm_header m))) @
       be_bytes 8 (unat (sh_timestamp (sm_header m))) @ be_bytes 4 (unat (sh_protocol_version (sm_header m))) @
       sm_payload m),
     pc_from_bytes = \<lambda>bs. if length bs < 16 then None
       else Some \<lparr>sm_header = \<lparr>sh_payload_id = word_of_nat (be_value (take 4 bs)),
           sh_timestamp = word_of_nat (be_value (take 8 (drop 4 bs))),
           sh_protocol_version = word_of_nat (be_value (take 4 (drop 12 bs)))\<rparr>, sm_payload = drop 16 bs\<rparr>\<rparr>"

definition toy_storm_message :: "u32 \<Rightarrow> u64 \<Rightarrow> bytes \<Rightarrow> storm_message" where
  "toy_storm_message i t p = \<lparr>sm_header = \<lparr>sh_payload_id = i, sh_timestamp = t, sh_protocol_version = 1\<rparr>, sm_payload = p\<rparr>"

lemma toy_codec_decodes: "pc_to_vec toy_codec m = Some bs \<Longrightarrow> pc_from_bytes toy_codec bs = Some m"
proof -
  assume "pc_to_vec toy_codec m = Some bs"
  then have bs: "bs = be_bytes 4 (unat (sh_payload_id (sm_header m))) @
       be_bytes 8 (unat (sh_timestamp (sm_header m))) @ be_bytes 4 (unat (sh_protocol_version (sm_header m))) @
       sm_payload m" by (simp add: toy_codec_def)
  have "be_value (be_bytes 4 (unat (w :: u32))) = unat w" for w
    using unat_u32_bound [of w] by (intro be_value_be_bytes) simp
  moreover have "be_value (be_bytes 8 (unat (w :: u64))) = unat w" for w
    using unat_u64_bound [of w] by (intro be_value_be_bytes) simp
  ultimately show "pc_from_bytes toy_codec bs = Some m" by (simp add: toy_codec_def bs)
qed

theorem frames_reassembled_witness:
  "push_all toy_codec decoder_new
     [[0, 0], [0, 17, 0, 0, 0, 7], [0, 0, 0, 0, 0, 0, 0, 9, 0, 0], [0, 1, 5, 0], [0, 0, 16, 0, 0, 0, 8, 0, 0, 0, 0, 0, 0, 0, 9, 0, 0, 0, 1]] =
   (decoder_new, Inr [toy_storm_message 7 9 [5], toy_storm_message 8 9 []])"
proof (rule frames_reassembled [OF _ _ toy_codec_decodes])
  show "map_res (to_framed_bytes toy_codec) [toy_storm_message 7 9 [5], toy_storm_message 8 9 []] =
    Inr [[0, 0, 0, 17, 0, 0, 0, 7, 0, 0, 0, 0, 0, 0, 0, 9, 0, 0, 0, 1, 5],
         [0, 0, 0, 16, 0, 0, 0, 8, 0, 0, 0, 0, 0, 0, 0, 9, 0, 0, 0, 1]]"
    by (simp add: to_framed_bytes_def storm_to_bytes_def toy_codec_def toy_storm_message_def
        validate_message_size_def MAX_MESSAGE_SIZE_def be_bytes_4 be_bytes_8)
qed simp

text \<open>
  C20: no input makes the decoder fail or grow. Whatever bytes a peer sends, in whatever chunks, the
  decoder never panics, and it never holds more of a message than the size limit, since a length
  above the limit is refused before any byte of its message is taken.
\<close>

theorem decoder_bounded:
  assumes "push_all pc decoder_new chunks = (d, r)"
  shows "length (md_message_bytes d) \<le> MAX_MESSAGE_SIZE \<and> r \<noteq> Inl DecoderPanic"
proof -
  have "push_loop pc decoder_new [] (concat chunks) = (d, r)"
    using push_all_concat [of decoder_new pc chunks] assms by (simp add: push_def)
  from push_loop_held [OF _ _ this] show ?thesis by simp
qed

theorem decoder_bounded_witness:
  "md_message_bytes (fst (push_all toy_codec decoder_new [[0, 160], [0, 1, 1]])) = [] \<and>
   snd (push_all toy_codec decoder_new [[0, 160], [0, 1, 1]]) \<noteq> Inl DecoderPanic"
proof -
  let ?d1 = "decoder_new\<lparr>md_length_bytes := [0, 160, 0, 0], md_length_bytes_read := 2\<rparr>"
  let ?d2 = "decoder_new\<lparr>md_length_bytes := [0, 160, 0, 1], md_length_bytes_read := 4\<rparr>"
  have "push_step toy_codec decoder_new [0, 160] = (?d1, [], Inr None)"
    by (simp add: push_step_def read_length_def decoder_new_def Let_def MESSAGE_LENGTH_SIZE_def)
  moreover have "push_step toy_codec ?d1 [0, 1, 1] = (?d2, [1], Inl (TooLarge (MAX_MESSAGE_SIZE + 1) MAX_MESSAGE_SIZE))"
    by (simp add: push_step_def read_length_def decoder_new_def Let_def MESSAGE_LENGTH_SIZE_def
        validate_message_size_def MAX_MESSAGE_SIZE_def)
  ultimately have run: "push_all toy_codec decoder_new [[0, 160], [0, 1, 1]] =
    (?d2, Inl (TooLarge (MAX_MESSAGE_SIZE + 1) MAX_MESSAGE_SIZE))"
    by (simp add: push_def push_loop.simps [of toy_codec decoder_new] push_loop.simps [of toy_codec ?d1])
  show ?thesis unfolding run using decoder_bounded [OF run] by simp
qed

end
