(* ===== verification/Storm_State.thy ===== *)
theory Storm_State
  imports Storm_Message Leader Ordered_Map
begin

text \<open>
  The state of a node of the Storm transport (\<open>storm/src/state.rs\<close>, with the peers of \<open>peer.rs\<close>, the
  errors of \<open>error.rs\<close>, the limits of \<open>constants.rs\<close> and the constructors of \<open>storm.rs\<close>): its peer
  table, its connections, a member migration being staged, and the bounded memory of the messages
  received from each peer. The curve library's parser of public keys, the hash and the standard
  library's parser of IP endpoints are parameters.
\<close>

datatype storm_error =
    IoError
  | MessageTooLarge
  | NoiseError
  | ConnectionTimeout
  | MessageError message_error
  | MessageTimestampOutsideWindow
  | ReplayedMessage
  | MessageRateLimit
  | AbsentRemotePublicKey
  | UnauthorizedConnection
  | PeerAlreadyConnected
  | ProvisionalConnectionLimit
  | PeerNotConnected bytes
  | PeerConnectionClosed bytes
  | PeerQueueFull bytes
  | PeerNotFound bytes
  | DiscoveryPeerIsLocal
  | DiscoveryPeerAddressMissing
  | InvalidPeerAddress string
  | MigrationAlreadyStaged
  | MigrationNotStaged
  | MigrationNotReady
  | InvalidMigrationPeerTable
  | StormPanic

text \<open>
  \<open>StormPanic\<close> is no error of the code: it stands for an \<open>expect\<close> that fails. The limits are those
  of \<open>constants.rs\<close>.
\<close>

definition MAX_PROVISIONAL_CONNECTIONS :: nat where "MAX_PROVISIONAL_CONNECTIONS = 16"
definition OUTBOUND_QUEUE_CAPACITY :: nat where "OUTBOUND_QUEUE_CAPACITY = 64"
definition MESSAGE_CLOCK_SKEW :: u64 where "MESSAGE_CLOCK_SKEW = 5 * 60"
definition REPLAY_CACHE_CAPACITY :: nat where "REPLAY_CACHE_CAPACITY = 256"
definition CONTROL_MESSAGE_RATE_WINDOW :: u64 where "CONTROL_MESSAGE_RATE_WINDOW = 10"
definition CONTROL_MESSAGE_RATE_CAPACITY :: nat where "CONTROL_MESSAGE_RATE_CAPACITY = 64"
definition PROTOCOL_VERSION :: u32 where "PROTOCOL_VERSION = 1"

text \<open>
  What the transport takes from other libraries: the parsing of a public key into its compressed
  form, SHA-256, and the parsing of an IP endpoint, of which only the port is read.
\<close>

record storm_env =
  se_parse_key :: "bytes \<Rightarrow> bytes option"
  se_sha256 :: "bytes \<Rightarrow> bytes"
  se_socket_addr :: "string \<Rightarrow> u16 option"

subsection \<open>Peers\<close>

definition peer_new :: "bytes \<Rightarrow> peer" where
  "peer_new k = \<lparr>pe_public_key = k, pe_socket_address = None, pe_last_seen = None,
     pe_status = PeerInactive, pe_discovery = False\<rparr>"

definition update_observed_address :: "storm_env \<Rightarrow> string \<Rightarrow> peer \<Rightarrow> peer" where
  "update_observed_address env address p =
     (if (case pe_socket_address p of None \<Rightarrow> True | Some known \<Rightarrow> se_socket_addr env known \<noteq> None)
      then p\<lparr>pe_socket_address := Some address\<rparr> else p)"

definition is_ascii_digit :: "char \<Rightarrow> bool" where
  "is_ascii_digit c \<longleftrightarrow> (48 :: nat) \<le> of_char c \<and> of_char c \<le> (57 :: nat)"

definition is_ascii_alphanumeric :: "char \<Rightarrow> bool" where
  "is_ascii_alphanumeric c \<longleftrightarrow> is_ascii_digit c \<or>
     (65 :: nat) \<le> of_char c \<and> of_char c \<le> (90 :: nat) \<or> (97 :: nat) \<le> of_char c \<and> of_char c \<le> (122 :: nat)"

text \<open>\<open>str::rsplit_once\<close>, \<open>str::split\<close> and \<open>strip_suffix\<close> at a character, and \<open>u16::from_str\<close> on digits.\<close>

fun split_at :: "char \<Rightarrow> string \<Rightarrow> string list" where
  "split_at c [] = [[]]"
| "split_at c (x # xs) =
     (if x = c then [] # split_at c xs
      else case split_at c xs of [] \<Rightarrow> [[x]] | w # ws \<Rightarrow> (x # w) # ws)"

definition rsplit_once :: "char \<Rightarrow> string \<Rightarrow> (string \<times> string) option" where
  "rsplit_once c s =
     (if c \<notin> set s then None
      else let after = rev (takeWhile (\<lambda>x. x \<noteq> c) (rev s))
           in Some (take (length s - length after - 1) s, after))"

definition strip_suffix_char :: "char \<Rightarrow> string \<Rightarrow> string" where
  "strip_suffix_char c s = (if s \<noteq> [] \<and> List.last s = c then butlast s else s)"

definition parse_u16_digits :: "string \<Rightarrow> u16 option" where
  "parse_u16_digits s =
     (let v = foldl (\<lambda>acc c. acc * 10 + (of_char c - 48)) (0 :: nat) s
      in if v < 2 ^ 16 then Some (word_of_nat v) else None)"

definition label_ok :: "string \<Rightarrow> bool" where
  "label_ok label \<longleftrightarrow> label \<noteq> [] \<and> length label \<le> 63 \<and>
     is_ascii_alphanumeric (hd label) \<and> is_ascii_alphanumeric (List.last label) \<and>
     list_all (\<lambda>c. is_ascii_alphanumeric c \<or> c = CHR ''-'') label"

definition socket_address_port :: "storm_env \<Rightarrow> string \<Rightarrow> u16 option" where
  "socket_address_port env address =
     (case se_socket_addr env address of Some port \<Rightarrow> Some port
      | None \<Rightarrow>
          (case rsplit_once (CHR '':'') address of None \<Rightarrow> None
           | Some (host, port) \<Rightarrow>
               let hostname = strip_suffix_char (CHR ''.'') host
               in if hostname = [] \<or> 253 < length hostname \<or>
                     list_all (\<lambda>c. is_ascii_digit c \<or> c = CHR ''.'') hostname \<or>
                     \<not> list_all label_ok (split_at (CHR ''.'') hostname) \<or>
                     port = [] \<or> \<not> list_all is_ascii_digit port
                  then None else parse_u16_digits port))"

definition validate_socket_address :: "storm_env \<Rightarrow> string \<Rightarrow> storm_error + unit" where
  "validate_socket_address env address =
     (case socket_address_port env address of None \<Rightarrow> Inl (InvalidPeerAddress address) | Some _ \<Rightarrow> Inr ())"

subsection \<open>The state\<close>

text \<open>
  A connection is the sending end of a bounded queue of framed messages, which is closed when the
  task of the connection has ended. The queue of recent messages of a peer that has none is the same
  as no queue. The custom handler is a program of the application.
\<close>

record outbound =
  ob_queue :: "bytes list"
  ob_open :: bool

record recent_message =
  rm_fingerprint :: bytes
  rm_received_at :: u64

record storm_state =
  ss_public_key :: bytes
  ss_peers :: "peer list"
  ss_address_overrides :: "bytes \<Rightarrow> string option"
  ss_listener_port :: "u16 option"
  ss_connections :: "(bytes, outbound) btree"
  ss_discovery_table_received :: bool
  ss_peer_table_authority :: "bytes option"
  ss_migration_members :: "bytes set option"
  ss_migration_peers :: "peer list"
  ss_recent_messages :: "bytes \<Rightarrow> recent_message list"
  ss_recent_control_messages :: "bytes \<Rightarrow> u64 list"

definition state_new :: "bytes \<Rightarrow> peer list \<Rightarrow> storm_state" where
  "state_new public_key peers = \<lparr>ss_public_key = public_key, ss_peers = peers,
     ss_address_overrides = (\<lambda>_. None), ss_listener_port = None, ss_connections = [],
     ss_discovery_table_received = False, ss_peer_table_authority = None,
     ss_migration_members = None, ss_migration_peers = [],
     ss_recent_messages = (\<lambda>_. []), ss_recent_control_messages = (\<lambda>_. [])\<rparr>"

text \<open>
  A compressed key is the parity byte followed by the x coordinate; the canonical key of an identity
  is the one with even parity, whose parity byte is 2. The code panics here on bytes that are no key,
  which the keys of a state never are.
\<close>

definition canonical_identity_key :: "bytes \<Rightarrow> bytes" where
  "canonical_identity_key k = 2 # tl k"

definition x_only_public_key :: "bytes \<Rightarrow> bytes" where
  "x_only_public_key k = tl (canonical_identity_key k)"

lemma x_only_public_key_eq [simp]: "x_only_public_key k = tl k"
  by (simp add: x_only_public_key_def canonical_identity_key_def)

definition migration_contains :: "storm_state \<Rightarrow> bytes \<Rightarrow> bool" where
  "migration_contains st k \<longleftrightarrow>
     (case ss_migration_members st of None \<Rightarrow> False | Some members \<Rightarrow> x_only_public_key k \<in> members)"

definition identities :: "peer list \<Rightarrow> bytes set" where
  "identities peers = set (map (\<lambda>p. x_only_public_key (pe_public_key p)) peers)"

definition peer_identities_unique :: "peer list \<Rightarrow> bool" where
  "peer_identities_unique peers \<longleftrightarrow> card (identities peers) = length peers"

definition migration_peer_identities_valid :: "storm_state \<Rightarrow> bool" where
  "migration_peer_identities_valid st \<longleftrightarrow>
     (case ss_migration_members st of None \<Rightarrow> False
      | Some members \<Rightarrow> card (identities (ss_migration_peers st)) = length (ss_migration_peers st) \<and>
          identities (ss_migration_peers st) \<subseteq> members)"

definition migration_peer_table_matches_members :: "storm_state \<Rightarrow> bool" where
  "migration_peer_table_matches_members st \<longleftrightarrow>
     (case ss_migration_members st of None \<Rightarrow> False
      | Some members \<Rightarrow> card (identities (ss_migration_peers st)) = length (ss_migration_peers st) \<and>
          identities (ss_migration_peers st) = members)"

definition migration_ready :: "storm_state \<Rightarrow> bool" where
  "migration_ready st \<longleftrightarrow> migration_peer_table_matches_members st \<and>
     Some (identities (filter (\<lambda>p. pe_public_key p = ss_public_key st \<or> pe_status p = PeerActive)
       (ss_migration_peers st))) = ss_migration_members st"

definition migration_table_complete :: "storm_state \<Rightarrow> bool" where
  "migration_table_complete st \<longleftrightarrow> migration_peer_table_matches_members st \<and>
     Some (identities (filter (\<lambda>p. pe_socket_address p \<noteq> None) (ss_migration_peers st))) =
       ss_migration_members st"

text \<open>Who dials whom.\<close>

record connection_target =
  tg_public_key :: bytes
  tg_socket_address :: string
  tg_status :: peer_status
  tg_discovery :: bool

record connection_plan =
  pl_public_key :: bytes
  pl_listener_port :: "u16 option"
  pl_targets :: "connection_target list"

definition should_connect :: "connection_plan \<Rightarrow> connection_target \<Rightarrow> bool \<Rightarrow> bool" where
  "should_connect plan target reverse \<longleftrightarrow>
     \<not> (tg_public_key target = pl_public_key plan \<or> tg_status target \<noteq> PeerInactive) \<and>
     (tg_discovery target \<or>
      (if reverse then tg_public_key target < pl_public_key plan
       else pl_public_key plan < tg_public_key target))"

definition connection_plan_for :: "storm_state \<Rightarrow> peer list \<Rightarrow> connection_plan" where
  "connection_plan_for st peers = \<lparr>pl_public_key = ss_public_key st, pl_listener_port = ss_listener_port st,
     pl_targets = List.map_filter (\<lambda>p. map_option (\<lambda>address.
         \<lparr>tg_public_key = pe_public_key p, tg_socket_address = address, tg_status = pe_status p,
          tg_discovery = pe_discovery p\<rparr>) (pe_socket_address p)) peers\<rparr>"

definition connection_plan_now :: "storm_state \<Rightarrow> connection_plan" where
  "connection_plan_now st = connection_plan_for st (ss_peers st)"

definition migration_connection_plan :: "storm_state \<Rightarrow> connection_plan option" where
  "migration_connection_plan st =
     map_option (\<lambda>_. connection_plan_for st (ss_migration_peers st)) (ss_migration_members st)"

definition override_address :: "storm_state \<Rightarrow> peer \<Rightarrow> peer" where
  "override_address st p =
     (case ss_address_overrides st (pe_public_key p) of None \<Rightarrow> p
      | Some address \<Rightarrow> p\<lparr>pe_socket_address := Some address\<rparr>)"

definition apply_address_overrides :: "storm_state \<Rightarrow> storm_state" where
  "apply_address_overrides st = st\<lparr>ss_peers := map (override_address st) (ss_peers st),
     ss_migration_peers := map (override_address st) (ss_migration_peers st)\<rparr>"

definition accepts_unregistered_connection :: "storm_state \<Rightarrow> bytes \<Rightarrow> bool" where
  "accepts_unregistered_connection st k \<longleftrightarrow> migration_contains st k \<or>
     \<not> ss_discovery_table_received st \<and>
     list_ex (\<lambda>p. pe_public_key p \<noteq> ss_public_key st \<and> pe_discovery p) (ss_peers st)"

subsection \<open>Freshness, replays and rates\<close>

text \<open>The fingerprint of a message commits to its header and its payload.\<close>

definition storm_message_v1 :: bytes where
  "storm_message_v1 = [115, 116, 111, 114, 109, 45, 109, 101, 115, 115, 97, 103, 101, 45, 118, 49]"

definition fingerprint :: "storm_env \<Rightarrow> storm_message \<Rightarrow> bytes" where
  "fingerprint env m = se_sha256 env (storm_message_v1 @
     be_bytes 4 (unat (sh_payload_id (sm_header m))) @ be_bytes 8 (unat (sh_timestamp (sm_header m))) @
     be_bytes 4 (unat (sh_protocol_version (sm_header m))) @ sm_payload m)"

definition register_message ::
    "storm_env \<Rightarrow> bytes \<Rightarrow> storm_message \<Rightarrow> u64 \<Rightarrow> storm_state \<Rightarrow> storm_state \<times> (storm_error + unit)" where
  "register_message env k m received st =
     (if MESSAGE_CLOCK_SKEW < abs_diff (sh_timestamp (sm_header m)) received
      then (st, Inl MessageTimestampOutsideWindow)
      else if sh_payload_id (sm_header m) \<le> 3
      then
        let recent = filter (\<lambda>t. sat_sub received t < CONTROL_MESSAGE_RATE_WINDOW) (ss_recent_control_messages st k)
        in if CONTROL_MESSAGE_RATE_CAPACITY \<le> length recent
           then (st\<lparr>ss_recent_control_messages := (ss_recent_control_messages st)(k := recent)\<rparr>,
                 Inl MessageRateLimit)
           else (st\<lparr>ss_recent_control_messages := (ss_recent_control_messages st)(k := recent @ [received])\<rparr>,
                 Inr ())
      else
        let recent = filter (\<lambda>e. sat_sub received (rm_received_at e) \<le> MESSAGE_CLOCK_SKEW) (ss_recent_messages st k);
            kept = st\<lparr>ss_recent_messages := (ss_recent_messages st)(k := recent)\<rparr>
        in if list_ex (\<lambda>e. rm_fingerprint e = fingerprint env m) recent then (kept, Inl ReplayedMessage)
           else if REPLAY_CACHE_CAPACITY \<le> length recent then (kept, Inl MessageRateLimit)
           else (st\<lparr>ss_recent_messages := (ss_recent_messages st)(k := recent @
                   [\<lparr>rm_fingerprint = fingerprint env m, rm_received_at = received\<rparr>])\<rparr>, Inr ()))"

subsection \<open>Construction\<close>

definition state_with_local_peer :: "bytes \<Rightarrow> peer list \<Rightarrow> storm_state" where
  "state_with_local_peer public_key peers =
     (let st = state_new public_key peers
      in if list_ex (\<lambda>p. pe_public_key p = public_key) peers then st
         else st\<lparr>ss_peers := peer_new public_key # ss_peers st\<rparr>)"

definition initial_status :: "bytes \<Rightarrow> peer \<Rightarrow> peer" where
  "initial_status public_key p =
     (if pe_public_key p = public_key then p\<lparr>pe_status := Controlled\<rparr>
      else if pe_status p \<noteq> Banned then p\<lparr>pe_status := PeerInactive\<rparr> else p)"

definition storm_discovery :: "bytes \<Rightarrow> peer list \<Rightarrow> storm_state" where
  "storm_discovery public_key registered =
     (let st = state_with_local_peer public_key registered
      in st\<lparr>ss_peers := map (\<lambda>p. (initial_status public_key p)
              \<lparr>pe_discovery := pe_public_key p = public_key\<rparr>) (ss_peers st)\<rparr>)"

fun update_first :: "('a \<Rightarrow> bool) \<Rightarrow> ('a \<Rightarrow> 'a) \<Rightarrow> 'a list \<Rightarrow> 'a list" where
  "update_first P f [] = []"
| "update_first P f (x # xs) = (if P x then f x # xs else x # update_first P f xs)"

definition storm_discoverable :: "bytes \<Rightarrow> peer \<Rightarrow> storm_error + storm_state" where
  "storm_discoverable public_key discovery_peer =
     (if pe_public_key discovery_peer = public_key then Inl DiscoveryPeerIsLocal
      else if pe_socket_address discovery_peer = None then Inl DiscoveryPeerAddressMissing
      else
        let st = state_with_local_peer public_key
              [discovery_peer\<lparr>pe_status := PeerInactive, pe_discovery := True\<rparr>]
        in Inr (st\<lparr>ss_peers := update_first (\<lambda>p. pe_public_key p = public_key)
              (\<lambda>p. p\<lparr>pe_status := Controlled, pe_discovery := False\<rparr>) (ss_peers st)\<rparr>))"

definition storm_from_peers :: "bytes \<Rightarrow> peer list \<Rightarrow> storm_state" where
  "storm_from_peers public_key peers =
     (let st = state_with_local_peer public_key peers
      in st\<lparr>ss_peers := map (\<lambda>p. initial_status public_key (p\<lparr>pe_discovery := False\<rparr>)) (ss_peers st)\<rparr>)"

end
