(* ===== verification/Storm_Network.thy ===== *)
theory Storm_Network
  imports Storm_State
begin

text \<open>
  The operations of the Storm transport on its state: the connections (\<open>storm/src/network.rs\<close>), the
  handle an application uses (\<open>handle.rs\<close>) and the handlers of the messages
  (\<open>message_handlers/\<close>). Each section of code under one write lock is one definition here, and a
  handler that takes the lock more than once is their composition. A send puts a framed message into
  the queue of a connection; a dial and the delivery of a message to the application are effects
  that a handler returns.
\<close>

subsection \<open>Connections\<close>

definition has_key :: "bytes \<Rightarrow> peer \<Rightarrow> bool" where
  "has_key k p \<longleftrightarrow> pe_public_key p = k"

definition activate_peer :: "storm_env \<Rightarrow> string option \<Rightarrow> peer \<Rightarrow> peer" where
  "activate_peer env address p =
     (let p1 = p\<lparr>pe_status := PeerActive\<rparr>
      in case address of None \<Rightarrow> p1 | Some a \<Rightarrow> update_observed_address env a p1)"

definition deactivate_peer :: "peer \<Rightarrow> peer" where
  "deactivate_peer p = (if pe_status p = PeerActive then p\<lparr>pe_status := PeerInactive\<rparr> else p)"

definition open_connection :: outbound where
  "open_connection = \<lparr>ob_queue = [], ob_open = True\<rparr>"

definition provisional_keys :: "storm_state \<Rightarrow> bytes list" where
  "provisional_keys st = filter (\<lambda>k. \<not> list_ex (has_key k) (ss_peers st)) (bt_keys (ss_connections st))"

definition insert_connection :: "bytes \<Rightarrow> storm_state \<Rightarrow> storm_state" where
  "insert_connection k st =
     (let st1 = apply_address_overrides st
      in st1\<lparr>ss_connections := bt_insert k open_connection (ss_connections st1)\<rparr>)"

definition claim_connection ::
    "storm_env \<Rightarrow> bytes \<Rightarrow> string option \<Rightarrow> storm_state \<Rightarrow> storm_state \<times> (storm_error + unit)" where
  "claim_connection env k address st =
     (let connect = (\<lambda>st1. (insert_connection k st1, Inr ()))
      in if bt_get (ss_connections st) k \<noteq> None then (st, Inl PeerAlreadyConnected)
         else (case find (has_key k) (ss_peers st) of
             Some p \<Rightarrow>
               if pe_status p = Banned then (st, Inl UnauthorizedConnection)
               else if pe_status p = PeerActive then (st, Inl PeerAlreadyConnected)
               else connect (st\<lparr>
                 ss_peers := update_first (has_key k) (activate_peer env address) (ss_peers st),
                 ss_migration_peers := update_first (has_key k) (activate_peer env address) (ss_migration_peers st)\<rparr>)
           | None \<Rightarrow>
               if \<not> accepts_unregistered_connection st k then (st, Inl UnauthorizedConnection)
               else if MAX_PROVISIONAL_CONNECTIONS \<le> length (provisional_keys st)
               then (st, Inl ProvisionalConnectionLimit)
               else if migration_contains st k
               then connect (st\<lparr>ss_migration_peers :=
                 (if list_ex (has_key k) (ss_migration_peers st)
                  then update_first (has_key k) (activate_peer env address) (ss_migration_peers st)
                  else ss_migration_peers st @
                    [(peer_new k)\<lparr>pe_status := PeerActive, pe_socket_address := address\<rparr>])\<rparr>)
               else connect st))"

definition release_connection :: "bytes \<Rightarrow> storm_state \<Rightarrow> storm_state" where
  "release_connection k st = st\<lparr>
     ss_connections := bt_remove k (ss_connections st),
     ss_peers := update_first (has_key k) deactivate_peer (ss_peers st),
     ss_migration_peers := update_first (has_key k) deactivate_peer (ss_migration_peers st)\<rparr>"

text \<open>The tasks of a connection: its writer takes a message from the queue, and its end closes the queue.\<close>

definition take_queued :: "bytes \<Rightarrow> storm_state \<Rightarrow> storm_state" where
  "take_queued k st =
     (case bt_get (ss_connections st) k of None \<Rightarrow> st
      | Some c \<Rightarrow> st\<lparr>ss_connections := bt_insert k (c\<lparr>ob_queue := tl (ob_queue c)\<rparr>) (ss_connections st)\<rparr>)"

definition close_connection :: "bytes \<Rightarrow> storm_state \<Rightarrow> storm_state" where
  "close_connection k st =
     (case bt_get (ss_connections st) k of None \<Rightarrow> st
      | Some c \<Rightarrow> st\<lparr>ss_connections := bt_insert k (c\<lparr>ob_open := False\<rparr>) (ss_connections st)\<rparr>)"

definition record_listener :: "storm_env \<Rightarrow> u16 \<Rightarrow> string \<Rightarrow> storm_state \<Rightarrow> storm_state" where
  "record_listener env port address st =
     apply_address_overrides (st\<lparr>ss_listener_port := Some port,
       ss_peers := update_first (has_key (ss_public_key st)) (update_observed_address env address) (ss_peers st)\<rparr>)"

definition shutdown :: "storm_state \<Rightarrow> storm_state" where
  "shutdown st = st\<lparr>ss_listener_port := None, ss_connections := [],
     ss_peers := map deactivate_peer (ss_peers st)\<rparr>"

text \<open>The peers that \<open>connect_targets\<close> dials in one pass.\<close>

definition dial_targets :: "connection_plan \<Rightarrow> bool \<Rightarrow> (bytes \<times> string) list" where
  "dial_targets plan reverse =
     map (\<lambda>t. (tg_public_key t, tg_socket_address t)) (filter (\<lambda>t. should_connect plan t reverse) (pl_targets plan))"

subsection \<open>Sending\<close>

datatype storm_error_code = InvalidPayload | UnsupportedVersion | Busy | Unauthorized | InternalError

text \<open>
  Why a handler refuses a message. The code sends the error code of the refusal and an English text,
  which is made from what the constructor holds.
\<close>

datatype refusal =
    UnsupportedProtocolVersion u32
  | UnsupportedPayloadId
  | MigrationWaiting
  | AddressUnknown bytes
  | TableEncodingFailed
  | OperationFailed storm_error
  | TableUndecodable
  | NotTheAuthority
  | SenderMissing
  | KeysDoNotMatch
  | TableEmpty
  | TableKeyInvalid
  | TableAddressInvalid string
  | DuplicateIdentities
  | DiscoveryPeersMissing
  | CustomUndecodable
  | ErrorUndecodable
  | HandlerPanic

fun refusal_code :: "refusal \<Rightarrow> storm_error_code" where
  "refusal_code (UnsupportedProtocolVersion v) = UnsupportedVersion"
| "refusal_code MigrationWaiting = Busy"
| "refusal_code (AddressUnknown k) = Busy"
| "refusal_code TableEncodingFailed = InternalError"
| "refusal_code (OperationFailed e) = Busy"
| "refusal_code NotTheAuthority = Unauthorized"
| "refusal_code _ = InvalidPayload"

record custom_msg =
  cm_domain :: string
  cm_payload :: bytes

text \<open>The codecs of the messages and of their payloads, all of them postcard.\<close>

record wire_env =
  we_env :: storm_env
  we_codec :: postcard_codec
  we_encode_table :: "(bytes \<times> string) list \<Rightarrow> bytes option"
  we_decode_table :: "bytes \<Rightarrow> (bytes \<times> string) list option"
  we_encode_error :: "storm_error_code \<Rightarrow> refusal \<Rightarrow> u32 \<Rightarrow> bytes option"
  we_error_decodes :: "bytes \<Rightarrow> bool"
  we_decode_custom :: "bytes \<Rightarrow> custom_msg option"

definition HEARTBEAT :: u32 where "HEARTBEAT = 0"
definition ASK_PEERS_SOCKET_INFO :: u32 where "ASK_PEERS_SOCKET_INFO = 1"
definition PEERS_SOCKET_INFO :: u32 where "PEERS_SOCKET_INFO = 2"
definition ERROR_MESSAGE :: u32 where "ERROR_MESSAGE = 3"
definition CUSTOM :: u32 where "CUSTOM = 4"

lemmas payload_ids = HEARTBEAT_def ASK_PEERS_SOCKET_INFO_def PEERS_SOCKET_INFO_def ERROR_MESSAGE_def CUSTOM_def

definition storm_message_now :: "u32 \<Rightarrow> u64 \<Rightarrow> bytes \<Rightarrow> storm_message" where
  "storm_message_now payload_id now payload =
     \<lparr>sm_header = \<lparr>sh_payload_id = payload_id, sh_timestamp = now, sh_protocol_version = PROTOCOL_VERSION\<rparr>,
      sm_payload = payload\<rparr>"

text \<open>
  \<open>try_send\<close> on the queue of a connection. The error that is reported is the first one: of the peers
  that are not connected, then of the queues.
\<close>

definition try_send :: "bytes \<Rightarrow> bytes \<Rightarrow> storm_state \<Rightarrow> storm_state \<times> storm_error option" where
  "try_send k frame st =
     (case bt_get (ss_connections st) k of
        None \<Rightarrow> (st, Some (PeerConnectionClosed k))
      | Some c \<Rightarrow>
          if \<not> ob_open c then (st, Some (PeerConnectionClosed k))
          else if OUTBOUND_QUEUE_CAPACITY \<le> length (ob_queue c) then (st, Some (PeerQueueFull k))
          else (st\<lparr>ss_connections := bt_insert k (c\<lparr>ob_queue := ob_queue c @ [frame]\<rparr>) (ss_connections st)\<rparr>, None))"

fun try_send_all :: "bytes \<Rightarrow> bytes list \<Rightarrow> storm_error option \<Rightarrow> storm_state \<Rightarrow> storm_state \<times> storm_error option" where
  "try_send_all frame [] first st = (st, first)"
| "try_send_all frame (k # ks) first st =
     (case try_send k frame st of (st1, e) \<Rightarrow>
        try_send_all frame ks (case first of None \<Rightarrow> e | Some _ \<Rightarrow> first) st1)"

definition connected_open :: "storm_state \<Rightarrow> bytes \<Rightarrow> bool" where
  "connected_open st k \<longleftrightarrow> (case bt_get (ss_connections st) k of None \<Rightarrow> False | Some c \<Rightarrow> ob_open c)"

definition send_message_by_public_keys ::
    "wire_env \<Rightarrow> storm_message \<Rightarrow> bytes list \<Rightarrow> storm_state \<Rightarrow> storm_state \<times> (storm_error + unit)" where
  "send_message_by_public_keys we m ks st =
     (case to_framed_bytes (we_codec we) m of Inl e \<Rightarrow> (st, Inl (MessageError e))
      | Inr frame \<Rightarrow>
          let first = map_option PeerNotConnected (find (\<lambda>k. \<not> connected_open st k) ks)
          in (case try_send_all frame (filter (connected_open st) ks) first st of
                (st1, None) \<Rightarrow> (st1, Inr ())
              | (st1, Some e) \<Rightarrow> (st1, Inl e)))"

subsection \<open>The peer table as a message\<close>

definition table_message :: "wire_env \<Rightarrow> u64 \<Rightarrow> peer list \<Rightarrow> refusal + storm_message" where
  "table_message we now peers =
     bind_res (map_res (\<lambda>p. case pe_socket_address p of None \<Rightarrow> Inl (AddressUnknown (pe_public_key p))
         | Some address \<Rightarrow> Inr (pe_public_key p, address)) peers) (\<lambda>table.
     bind_res (ok_or TableEncodingFailed (we_encode_table we table)) (\<lambda>payload.
     Inr (storm_message_now PEERS_SOCKET_INFO now payload)))"

definition send_table ::
    "wire_env \<Rightarrow> u64 \<Rightarrow> peer list \<Rightarrow> bytes list \<Rightarrow> storm_state \<Rightarrow> storm_state \<times> (storm_error + unit)" where
  "send_table we now peers recipients st =
     (case table_message we now peers of Inl _ \<Rightarrow> (st, Inl IoError)
      | Inr m \<Rightarrow> send_message_by_public_keys we m recipients st)"

definition request_migration_peer_table ::
    "wire_env \<Rightarrow> u64 \<Rightarrow> storm_state \<Rightarrow> storm_state \<times> (storm_error + unit)" where
  "request_migration_peer_table we now st =
     (if migration_ready st then (st, Inr ())
      else
        let recipients = map pe_public_key (filter (\<lambda>p. pe_public_key p \<noteq> ss_public_key st \<and>
              pe_status p = PeerActive \<and> migration_contains st (pe_public_key p)) (ss_peers st))
        in if recipients = [] then (st, Inr ())
           else send_message_by_public_keys we (storm_message_now ASK_PEERS_SOCKET_INFO now []) recipients st)"

definition broadcast_migration_table ::
    "wire_env \<Rightarrow> u64 \<Rightarrow> storm_state \<Rightarrow> storm_state \<times> (storm_error + unit)" where
  "broadcast_migration_table we now st =
     (if \<not> migration_ready st then (st, Inr ())
      else send_table we now (ss_migration_peers st)
        (sorted_list_of_set (set (map pe_public_key (filter (\<lambda>p. pe_public_key p \<noteq> ss_public_key st \<and>
           pe_status p = PeerActive) (ss_migration_peers st @ ss_peers st))))) st)"

definition broadcast_active_table ::
    "wire_env \<Rightarrow> u64 \<Rightarrow> storm_state \<Rightarrow> storm_state \<times> (storm_error + unit)" where
  "broadcast_active_table we now st =
     (let local_key = ss_public_key st
      in case find (has_key local_key) (ss_peers st) of None \<Rightarrow> (st, Inr ())
         | Some local_peer \<Rightarrow>
             if pe_status local_peer \<noteq> Controlled \<or> \<not> pe_discovery local_peer then (st, Inr ())
             else if \<not> list_all (\<lambda>p. pe_socket_address p \<noteq> None \<and>
                 (pe_public_key p = local_key \<or> pe_status p = PeerActive \<or> pe_status p = Banned)) (ss_peers st)
             then (st, Inr ())
             else (case send_table we now (ss_peers st)
                 (map pe_public_key (filter (\<lambda>p. pe_public_key p \<noteq> local_key \<and> pe_status p = PeerActive)
                    (ss_peers st))) st of
                 (st1, Inl e) \<Rightarrow> (st1, Inl e)
               | (st1, Inr _) \<Rightarrow>
                   (st1\<lparr>ss_peers := update_first (has_key local_key) (\<lambda>p. p\<lparr>pe_discovery := False\<rparr>)
                      (ss_peers st1)\<rparr>, Inr ())))"

definition broadcast_discovery_table_if_ready ::
    "wire_env \<Rightarrow> u64 \<Rightarrow> storm_state \<Rightarrow> storm_state \<times> (storm_error + unit)" where
  "broadcast_discovery_table_if_ready we now st =
     (case broadcast_migration_table we now st of
        (st1, Inl e) \<Rightarrow> (st1, Inl e)
      | (st1, Inr _) \<Rightarrow> broadcast_active_table we now st1)"

definition finish_client_discovery_if_connected :: "storm_state \<Rightarrow> storm_state" where
  "finish_client_discovery_if_connected st =
     (let local_key = ss_public_key st
      in if list_ex (\<lambda>p. pe_public_key p = local_key \<and> pe_status p = Controlled \<and> pe_discovery p) (ss_peers st)
         then st
         else if \<not> ss_discovery_table_received st then st
         else if list_all (\<lambda>p. pe_public_key p = local_key \<or> pe_status p = PeerActive \<or> pe_status p = Banned)
             (ss_peers st)
         then st\<lparr>ss_peers := map (\<lambda>p. p\<lparr>pe_discovery := False\<rparr>) (ss_peers st)\<rparr>
         else st)"

text \<open>
  What \<open>handle_connection\<close> does with an inbound connection once the handshake has authenticated its
  key: up to the reading of its messages, whose end releases it.
\<close>

definition admit_connection ::
    "wire_env \<Rightarrow> u64 \<Rightarrow> bytes \<Rightarrow> string \<Rightarrow> storm_state \<Rightarrow> storm_state \<times> (storm_error + unit)" where
  "admit_connection we now k address st =
     (case claim_connection (we_env we) k (Some address) st of
        (st1, Inl e) \<Rightarrow> (st1, Inl e)
      | (st1, Inr _) \<Rightarrow>
          (case broadcast_discovery_table_if_ready we now st1 of
             (st2, Inl e) \<Rightarrow> (close_connection k st2, Inl e)
           | (st2, Inr _) \<Rightarrow> (finish_client_discovery_if_connected st2, Inr ())))"

end
