(* ===== verification/Storm_Handlers.thy ===== *)
theory Storm_Handlers
  imports Storm_Network
begin

text \<open>
  The member migration of the handle (\<open>storm/src/handle.rs\<close>) and the handlers of the Storm messages
  (\<open>network.rs\<close> and \<open>message_handlers/\<close>): how a peer table is validated and what a received one may
  change, and the checks every message passes before its handler sees it.
\<close>

subsection \<open>Configuration and member migration\<close>

definition set_peer_address ::
    "storm_env \<Rightarrow> bytes \<Rightarrow> string \<Rightarrow> storm_state \<Rightarrow> storm_state \<times> (storm_error + unit)" where
  "set_peer_address env k address st =
     (if se_parse_key env k = None then (st, Inl UnauthorizedConnection)
      else (case validate_socket_address env address of Inl e \<Rightarrow> (st, Inl e)
        | Inr _ \<Rightarrow> (apply_address_overrides
            (st\<lparr>ss_address_overrides := (ss_address_overrides st)(k := Some address)\<rparr>), Inr ())))"

definition set_peer_table_authority ::
    "storm_env \<Rightarrow> bytes \<Rightarrow> storm_state \<Rightarrow> storm_state \<times> (storm_error + unit)" where
  "set_peer_table_authority env k st =
     (if se_parse_key env k = None then (st, Inl UnauthorizedConnection)
      else (st\<lparr>ss_peer_table_authority := Some k\<rparr>, Inr ()))"

text \<open>\<open>dedup_by_key\<close> keeps the first of equal neighbours.\<close>

fun dedup_by_key :: "('a \<Rightarrow> 'k) \<Rightarrow> 'a list \<Rightarrow> 'a list" where
  "dedup_by_key f (x # y # ys) =
     (if f x = f y then dedup_by_key f (x # ys) else x # dedup_by_key f (y # ys))"
| "dedup_by_key f xs = xs"

definition migration_candidates :: "bytes set \<Rightarrow> storm_state \<Rightarrow> peer list" where
  "migration_candidates members st = dedup_by_key pe_public_key (sort_key pe_public_key
     (filter (\<lambda>p. x_only_public_key (pe_public_key p) \<in> members) (ss_peers st @ ss_migration_peers st)))"

definition stage_members :: "bytes set \<Rightarrow> storm_state \<Rightarrow> storm_state \<times> (storm_error + unit)" where
  "stage_members members st =
     (case ss_migration_members st of
        Some staged \<Rightarrow>
          if staged \<noteq> members then (st, Inl MigrationAlreadyStaged)
          else if \<not> migration_peer_identities_valid st then (st, Inl InvalidMigrationPeerTable)
          else (st, Inr ())
      | None \<Rightarrow>
          let candidates = migration_candidates members st
          in if \<not> peer_identities_unique candidates then (st, Inl InvalidMigrationPeerTable)
             else (st\<lparr>ss_migration_peers := candidates, ss_migration_members := Some members\<rparr>, Inr ()))"

text \<open>
  After the staging, the migration peers are dialled; the table is asked for and, once every member
  is connected, sent.
\<close>

definition begin_member_migration ::
    "wire_env \<Rightarrow> u64 \<Rightarrow> bytes set \<Rightarrow> storm_state \<Rightarrow> storm_state \<times> (storm_error + unit)" where
  "begin_member_migration we now members st =
     (case stage_members members st of
        (st1, Inl e) \<Rightarrow> (st1, Inl e)
      | (st1, Inr _) \<Rightarrow>
          (case request_migration_peer_table we now st1 of
             (st2, Inl e) \<Rightarrow> (st2, Inl e)
           | (st2, Inr _) \<Rightarrow> broadcast_discovery_table_if_ready we now st2))"

definition local_member_migration_ready :: "storm_state \<Rightarrow> bool" where
  "local_member_migration_ready st \<longleftrightarrow>
     (if migration_contains st (ss_public_key st) then migration_ready st else migration_table_complete st)"

definition member_migration_peers :: "storm_state \<Rightarrow> storm_error + peer list" where
  "member_migration_peers st =
     (if ss_migration_members st = None then Inl MigrationNotStaged
      else if \<not> migration_peer_identities_valid st then Inl InvalidMigrationPeerTable
      else if \<not> migration_ready st \<and>
          (migration_contains st (ss_public_key st) \<or> \<not> migration_table_complete st)
      then Inl MigrationNotReady
      else if \<not> migration_peer_table_matches_members st then Inl InvalidMigrationPeerTable
      else Inr (ss_migration_peers st))"

definition retain_connections :: "(bytes \<Rightarrow> bool) \<Rightarrow> storm_state \<Rightarrow> storm_state" where
  "retain_connections keep st = st\<lparr>ss_connections := filter (\<lambda>(k, c). keep k) (ss_connections st)\<rparr>"

definition activate_member_migration :: "storm_state \<Rightarrow> storm_state \<times> (storm_error + peer list)" where
  "activate_member_migration st =
     (case member_migration_peers st of Inl e \<Rightarrow> (st, Inl e)
      | Inr peers \<Rightarrow>
          (retain_connections (\<lambda>k. k \<in> set (map pe_public_key peers))
             (st\<lparr>ss_peers := peers, ss_migration_peers := [], ss_migration_members := None\<rparr>), Inr peers))"

definition cancel_member_migration :: "storm_state \<Rightarrow> storm_state" where
  "cancel_member_migration st = st\<lparr>ss_migration_members := None\<rparr>"

definition connected_peer_keys :: "storm_state \<Rightarrow> bytes set" where
  "connected_peer_keys st = set (filter (connected_open st) (bt_keys (ss_connections st)))"

definition is_local_member :: "storm_state \<Rightarrow> bool" where
  "is_local_member st \<longleftrightarrow> list_ex (has_key (ss_public_key st)) (ss_peers st)"

subsection \<open>A received peer table\<close>

text \<open>An entry that passed the checks: the key in its compressed form, and the address.\<close>

type_synonym table_entry = "bytes \<times> string"

fun validate_entries :: "storm_env \<Rightarrow> bytes set \<Rightarrow> (bytes \<times> string) list \<Rightarrow> refusal + table_entry list" where
  "validate_entries env seen [] = Inr []"
| "validate_entries env seen ((raw, address) # entries) =
     (case se_parse_key env raw of None \<Rightarrow> Inl TableKeyInvalid
      | Some k \<Rightarrow>
          if socket_address_port env address = None then Inl (TableAddressInvalid address)
          else if canonical_identity_key k \<in> seen then Inl DuplicateIdentities
          else bind_res (validate_entries env (insert (canonical_identity_key k) seen) entries)
                 (\<lambda>valid. Inr ((k, address) # valid)))"

definition validate_table :: "storm_env \<Rightarrow> (bytes \<times> string) list \<Rightarrow> refusal + table_entry list" where
  "validate_table env table = (if table = [] then Inl TableEmpty else validate_entries env {} table)"

definition table_keys :: "table_entry list \<Rightarrow> bytes set" where
  "table_keys table = set (map fst table)"

text \<open>
  The peer an entry stands for: the known one of its key, or a new one. The keys of a table are
  distinct, so that removing it from the map of the known ones changes nothing. A map that is
  collected from a list keeps the last of equal keys.
\<close>

definition known_or_new :: "peer list \<Rightarrow> bytes \<Rightarrow> peer" where
  "known_or_new peers k = (case find (has_key k) (rev peers) of None \<Rightarrow> peer_new k | Some p \<Rightarrow> p)"

definition migration_entry_peer :: "storm_state \<Rightarrow> table_entry \<Rightarrow> peer" where
  "migration_entry_peer st entry =
     (case entry of (k, address) \<Rightarrow>
        let p = (known_or_new (ss_migration_peers st) k)\<lparr>pe_socket_address := Some address\<rparr>;
            status = (if pe_public_key p = ss_public_key st then Controlled
                      else if bt_get (ss_connections st) (pe_public_key p) \<noteq> None then PeerActive
                      else if pe_status p \<noteq> Banned then PeerInactive else pe_status p)
        in p\<lparr>pe_status := status, pe_discovery := False\<rparr>)"

definition replace_migration_peers :: "table_entry list \<Rightarrow> storm_state \<Rightarrow> storm_state" where
  "replace_migration_peers table st =
     apply_address_overrides (st\<lparr>ss_migration_peers := map (migration_entry_peer st) table\<rparr>)"

definition cache_migration_peer_hints ::
    "table_entry list \<Rightarrow> bytes \<Rightarrow> storm_state \<Rightarrow> storm_state \<times> (refusal + bool)" where
  "cache_migration_peer_hints table sender st =
     (if table_keys table = set (map pe_public_key (ss_peers st)) then (st, Inr False)
      else if sender \<notin> table_keys table then (st, Inl SenderMissing)
      else (replace_migration_peers table st, Inr True))"

definition validate_known_peer_keys :: "storm_state \<Rightarrow> table_entry list \<Rightarrow> refusal + unit" where
  "validate_known_peer_keys st table =
     require (table_keys table = set (map pe_public_key (ss_peers st))) KeysDoNotMatch"

definition discovered_entry_peer :: "storm_state \<Rightarrow> peer list \<Rightarrow> bytes \<Rightarrow> table_entry \<Rightarrow> peer" where
  "discovered_entry_peer st old discovery_key entry =
     (case entry of (k, address) \<Rightarrow>
        let p = known_or_new old k;
            p1 = (if pe_public_key p \<noteq> discovery_key \<or> pe_socket_address p = None
                  then p\<lparr>pe_socket_address := Some address\<rparr> else p)
        in if bt_get (ss_connections st) (pe_public_key p1) \<noteq> None \<and>
              pe_public_key p1 \<noteq> ss_public_key st \<and> pe_status p1 \<noteq> Banned
           then p1\<lparr>pe_status := PeerActive\<rparr> else p1)"

definition replace_discovered_peers ::
    "table_entry list \<Rightarrow> bytes \<Rightarrow> storm_state \<Rightarrow> storm_state \<times> (refusal + unit)" where
  "replace_discovered_peers table discovery_key st =
     (if ss_public_key st \<notin> table_keys table \<or> discovery_key \<notin> table_keys table
      then (st, Inl DiscoveryPeersMissing)
      else
        let banned = set (map pe_public_key (filter (\<lambda>p. pe_status p = Banned) (ss_peers st)));
            st1 = retain_connections (\<lambda>k. k \<in> table_keys table \<and> k \<notin> banned) st;
            st2 = st1\<lparr>ss_peers := map (discovered_entry_peer st1 (ss_peers st) discovery_key) table\<rparr>
        in ((apply_address_overrides st2)\<lparr>ss_discovery_table_received := True\<rparr>, Inr ()))"

text \<open>What follows a message: connections to dial, or a message for the application.\<close>

datatype storm_effect = DialKnownPeers | DialMigrationPeers | Deliver bytes custom_msg

definition handle_peers_socket_info ::
    "wire_env \<Rightarrow> bytes \<Rightarrow> storm_message \<Rightarrow> storm_state \<Rightarrow> storm_state \<times> storm_effect list \<times> (refusal + unit)" where
  "handle_peers_socket_info we sender m st =
     (case we_decode_table we (sm_payload m) of None \<Rightarrow> (st, [], Inl TableUndecodable)
      | Some raw \<Rightarrow>
     (case validate_table (we_env we) raw of Inl e \<Rightarrow> (st, [], Inl e)
      | Inr table \<Rightarrow>
        if ss_migration_members st = Some (x_only_public_key ` table_keys table)
        then if ss_peer_table_authority st \<noteq> Some sender then (st, [], Inl NotTheAuthority)
             else (replace_migration_peers table st, [DialMigrationPeers], Inr ())
        else (case find (has_key sender) (ss_peers st) of None \<Rightarrow> (st, [], Inl HandlerPanic)
          | Some p \<Rightarrow>
              if pe_discovery p
              then (case replace_discovered_peers table sender st of
                  (st1, Inl e) \<Rightarrow> (st1, [], Inl e)
                | (st1, Inr _) \<Rightarrow> (st1, [DialKnownPeers], Inr ()))
              else
                let (st1, cached) = (if ss_migration_members st = None \<and> ss_peer_table_authority st = Some sender
                      then cache_migration_peer_hints table sender st else (st, Inr False))
                in (case cached of Inl e \<Rightarrow> (st1, [], Inl e)
                    | Inr True \<Rightarrow> (st1, [], Inr ())
                    | Inr False \<Rightarrow> (st1, [], validate_known_peer_keys st1 table)))))"

subsection \<open>Any received message\<close>

definition handle_ask_peers ::
    "wire_env \<Rightarrow> u64 \<Rightarrow> bytes \<Rightarrow> storm_state \<Rightarrow> storm_state \<times> storm_effect list \<times> (refusal + unit)" where
  "handle_ask_peers we now sender st =
     (if migration_contains st sender \<and> \<not> migration_ready st then (st, [], Inl MigrationWaiting)
      else (case table_message we now
               (if migration_contains st sender then ss_migration_peers st else ss_peers st) of
          Inl e \<Rightarrow> (st, [], Inl e)
        | Inr m \<Rightarrow>
            (case send_message_by_public_keys we m [sender] st of
               (st1, Inl e) \<Rightarrow> (st1, [], Inl (OperationFailed e))
             | (st1, Inr _) \<Rightarrow> (st1, [], Inr ()))))"

definition storm_message_handler ::
    "wire_env \<Rightarrow> u64 \<Rightarrow> bytes \<Rightarrow> storm_message \<Rightarrow> storm_state \<Rightarrow> storm_state \<times> storm_effect list \<times> (refusal + unit)" where
  "storm_message_handler we now sender m st =
     (let payload_id = sh_payload_id (sm_header m)
      in if sh_protocol_version (sm_header m) \<noteq> PROTOCOL_VERSION
         then (st, [], Inl (UnsupportedProtocolVersion (sh_protocol_version (sm_header m))))
         else if payload_id = HEARTBEAT then (st, [], Inr ())
         else if payload_id = ASK_PEERS_SOCKET_INFO then handle_ask_peers we now sender st
         else if payload_id = PEERS_SOCKET_INFO then handle_peers_socket_info we sender m st
         else if payload_id = ERROR_MESSAGE
         then (st, [], require (we_error_decodes we (sm_payload m)) ErrorUndecodable)
         else if payload_id = CUSTOM
         then (case we_decode_custom we (sm_payload m) of None \<Rightarrow> (st, [], Inl CustomUndecodable)
               | Some c \<Rightarrow> (st, [Deliver sender c], Inr ()))
         else (st, [], Inl UnsupportedPayloadId))"

definition touch_peer :: "u64 \<Rightarrow> peer \<Rightarrow> peer" where
  "touch_peer now p = p\<lparr>pe_last_seen := Some now\<rparr>"

text \<open>The first section of \<open>handle_message\<close>: who the peer is, and whether the message is fresh.\<close>

definition admit_message ::
    "wire_env \<Rightarrow> u64 \<Rightarrow> bytes \<Rightarrow> storm_message \<Rightarrow> storm_state \<Rightarrow> storm_state \<times> (storm_error + unit)" where
  "admit_message we now sender m st =
     (let status = (case find (has_key sender) (ss_peers st) of Some p \<Rightarrow> Some (pe_status p)
          | None \<Rightarrow> map_option pe_status (find (has_key sender) (ss_migration_peers st)))
      in if status = None \<or> status = Some Banned then (st, Inl UnauthorizedConnection)
         else (case register_message (we_env we) sender m now st of
             (st1, Inl e) \<Rightarrow> (st1, Inl e)
           | (st1, Inr _) \<Rightarrow>
               (st1\<lparr>ss_peers := update_first (has_key sender) (touch_peer now) (ss_peers st1),
                    ss_migration_peers := update_first (has_key sender) (touch_peer now) (ss_migration_peers st1)\<rparr>,
                Inr ())))"

definition handle_message ::
    "wire_env \<Rightarrow> u64 \<Rightarrow> bytes \<Rightarrow> storm_message \<Rightarrow> storm_state \<Rightarrow> storm_state \<times> storm_effect list \<times> (storm_error + unit)" where
  "handle_message we now sender m st =
     (case admit_message we now sender m st of (st1, Inl e) \<Rightarrow> (st1, [], Inl e)
      | (st1, Inr _) \<Rightarrow>
        let payload_id = sh_payload_id (sm_header m)
        in if \<not> list_ex (has_key sender) (ss_peers st1) \<and> payload_id \<noteq> HEARTBEAT \<and>
              payload_id \<noteq> ASK_PEERS_SOCKET_INFO \<and> payload_id \<noteq> ERROR_MESSAGE
           then (st1, [], Inl UnauthorizedConnection)
           else (case storm_message_handler we now sender m st1 of
               (st2, effects, Inr _) \<Rightarrow> (st2, effects, Inr ())
             | (st2, effects, Inl HandlerPanic) \<Rightarrow> (st2, effects, Inl StormPanic)
             | (st2, effects, Inl e) \<Rightarrow>
                 if payload_id = ERROR_MESSAGE then (st2, effects, Inr ())
                 else (case we_encode_error we (refusal_code e) e payload_id of
                     None \<Rightarrow> (st2, effects, Inl (MessageError Postcard))
                   | Some payload \<Rightarrow>
                       (case send_message_by_public_keys we (storm_message_now ERROR_MESSAGE now payload) [sender] st2 of
                          (st3, r) \<Rightarrow> (st3, effects, r)))))"

end
