(* ===== verification/Storm_Steps.thy ===== *)
theory Storm_Steps
  imports Storm_Handlers
begin

text \<open>
  The Storm node as a transition system whose steps are the sections of its code, one write lock
  each, in any order, and the invariant of its reachable states.
\<close>

subsection \<open>Tables\<close>

definition table_peer_keys :: "peer list \<Rightarrow> bytes list" where
  "table_peer_keys peers = map pe_public_key peers"

text \<open>
  A peer table under the connections: one entry for a key, and every key a valid one. A strict table
  moreover has no remote discovery peer, and in it whoever is connected is active; this is how the
  tables of a node are that was not built to discover its peers.
\<close>

definition peer_ok :: "storm_env \<Rightarrow> bool \<Rightarrow> bytes \<Rightarrow> bytes set \<Rightarrow> peer \<Rightarrow> bool" where
  "peer_ok env strict local_key conns p \<longleftrightarrow>
     se_parse_key env (pe_public_key p) = Some (pe_public_key p) \<and>
     (strict \<and> pe_public_key p \<noteq> local_key \<longrightarrow>
        \<not> pe_discovery p \<and> (pe_public_key p \<in> conns \<longrightarrow> pe_status p = PeerActive))"

definition table_ok :: "storm_env \<Rightarrow> bool \<Rightarrow> bytes \<Rightarrow> bytes set \<Rightarrow> peer list \<Rightarrow> bool" where
  "table_ok env strict local_key conns peers \<longleftrightarrow> distinct (table_peer_keys peers) \<and>
     (\<forall>p\<in>set peers. peer_ok env strict local_key conns p)"

lemma update_first_eq_map:
  "distinct (table_peer_keys peers) \<Longrightarrow>
   update_first (has_key k) f peers = map (\<lambda>p. if pe_public_key p = k then f p else p) peers"
proof (induction peers)
  case (Cons p peers)
  show ?case
  proof (cases "pe_public_key p = k")
    case True
    then have "\<forall>q\<in>set peers. pe_public_key q \<noteq> k" using Cons.prems
      by (simp add: table_peer_keys_def image_iff) (metis)
    then show ?thesis using True by (simp add: has_key_def map_idI)
  qed (use Cons in \<open>simp add: has_key_def table_peer_keys_def\<close>)
qed simp

lemma find_has_key:
  "distinct (table_peer_keys peers) \<Longrightarrow> find (has_key k) peers = Some p \<longleftrightarrow> p \<in> set peers \<and> pe_public_key p = k"
  by (induction peers) (auto simp: has_key_def table_peer_keys_def)

lemma find_has_key_None: "find (has_key k) peers = None \<longleftrightarrow> k \<notin> set (table_peer_keys peers)"
  by (auto simp: find_None_iff has_key_def table_peer_keys_def)

lemma list_ex_has_key: "list_ex (has_key k) peers \<longleftrightarrow> k \<in> set (table_peer_keys peers)"
  by (auto simp: list_ex_iff has_key_def table_peer_keys_def)

text \<open>Changing the entries of a table in place.\<close>

lemma table_ok_map:
  assumes "table_ok env s local_key conns peers"
    and "\<And>p. p \<in> set peers \<Longrightarrow> pe_public_key (f p) = pe_public_key p"
    and "\<And>p. p \<in> set peers \<Longrightarrow> peer_ok env s local_key conns p \<Longrightarrow> peer_ok env s local_key conns' (f p)"
  shows "table_ok env s local_key conns' (map f peers)"
proof -
  have "table_peer_keys (map f peers) = table_peer_keys peers" using assms(2) by (simp add: table_peer_keys_def)
  with assms(1,3) show ?thesis by (auto simp: table_ok_def)
qed

lemma table_peer_keys_map: "(\<And>p. pe_public_key (f p) = pe_public_key p) \<Longrightarrow> table_peer_keys (map f peers) = table_peer_keys peers"
  by (simp add: table_peer_keys_def)

lemma table_ok_mono:
  "table_ok env s local_key conns peers \<Longrightarrow> conns' \<subseteq> conns \<Longrightarrow> table_ok env s local_key conns' peers"
  by (auto simp: table_ok_def peer_ok_def)

lemma peer_maps [simp]:
  "pe_public_key (update_observed_address env a p) = pe_public_key p"
  "pe_status (update_observed_address env a p) = pe_status p"
  "pe_public_key (override_address st p) = pe_public_key p"
  "pe_status (override_address st p) = pe_status p"
  "pe_public_key (activate_peer env address p) = pe_public_key p"
  "pe_status (activate_peer env address p) = PeerActive"
  "pe_public_key (deactivate_peer p) = pe_public_key p"
  "pe_public_key (touch_peer now p) = pe_public_key p"
  "pe_status (touch_peer now p) = pe_status p"
  "pe_public_key (peer_new k) = k"
  "pe_discovery (update_observed_address env a p) = pe_discovery p"
  "pe_discovery (override_address st p) = pe_discovery p"
  "pe_discovery (activate_peer env address p) = pe_discovery p"
  "pe_discovery (deactivate_peer p) = pe_discovery p"
  "pe_discovery (touch_peer now p) = pe_discovery p"
  "\<not> pe_discovery (peer_new k)"
  by (simp_all add: update_observed_address_def override_address_def activate_peer_def
      deactivate_peer_def touch_peer_def peer_new_def Let_def split: option.split)

lemma apply_overrides_fields [simp]:
  "ss_public_key (apply_address_overrides st) = ss_public_key st"
  "ss_connections (apply_address_overrides st) = ss_connections st"
  "ss_migration_members (apply_address_overrides st) = ss_migration_members st"
  "ss_recent_messages (apply_address_overrides st) = ss_recent_messages st"
  "ss_recent_control_messages (apply_address_overrides st) = ss_recent_control_messages st"
  "ss_discovery_table_received (apply_address_overrides st) = ss_discovery_table_received st"
  "ss_peer_table_authority (apply_address_overrides st) = ss_peer_table_authority st"
  "table_peer_keys (ss_peers (apply_address_overrides st)) = table_peer_keys (ss_peers st)"
  "table_peer_keys (ss_migration_peers (apply_address_overrides st)) = table_peer_keys (ss_migration_peers st)"
  by (simp_all add: apply_address_overrides_def table_peer_keys_map)

lemma table_ok_same:
  assumes "table_ok env s l c peers" and "\<And>p. pe_public_key (f p) = pe_public_key p"
    and "\<And>p. pe_status (f p) = pe_status p" and "\<And>p. pe_discovery (f p) \<longrightarrow> pe_discovery p"
  shows "table_ok env s l c (map f peers)"
  by (rule table_ok_map [OF assms(1)]) (use assms(2-) in \<open>auto simp: peer_ok_def\<close>)

lemma apply_overrides_table:
  "table_ok env s l c (ss_peers st) \<Longrightarrow> table_ok env s l c (ss_peers (apply_address_overrides st))"
  "table_ok env s l c (ss_migration_peers st) \<Longrightarrow> table_ok env s l c (ss_migration_peers (apply_address_overrides st))"
  by (simp_all add: apply_address_overrides_def table_ok_same)

subsection \<open>The invariant\<close>

definition conn_keys :: "storm_state \<Rightarrow> bytes set" where
  "conn_keys st = set (bt_keys (ss_connections st))"

definition queues_ok :: "(bytes, outbound) btree \<Rightarrow> bool" where
  "queues_ok conns \<longleftrightarrow> bt_wf conns \<and> (\<forall>(k, c)\<in>set conns. length (ob_queue c) \<le> OUTBOUND_QUEUE_CAPACITY)"

definition recent_ok :: "storm_state \<Rightarrow> bool" where
  "recent_ok st \<longleftrightarrow> (\<forall>k. length (ss_recent_messages st k) \<le> REPLAY_CACHE_CAPACITY \<and>
     distinct (map rm_fingerprint (ss_recent_messages st k)) \<and>
     length (ss_recent_control_messages st k) \<le> CONTROL_MESSAGE_RATE_CAPACITY)"

text \<open>
  Besides the two tables: at most the allowed number of connections belongs to strangers, every
  queue is within its capacity, and the memory kept for any peer is bounded.
\<close>

definition transport_ok :: "storm_env \<Rightarrow> bool \<Rightarrow> storm_state \<Rightarrow> bool" where
  "transport_ok env strict st \<longleftrightarrow>
     table_ok env strict (ss_public_key st) (conn_keys st) (ss_peers st) \<and>
     table_ok env strict (ss_public_key st) (conn_keys st) (ss_migration_peers st) \<and>
     card (conn_keys st - set (table_peer_keys (ss_peers st))) \<le> MAX_PROVISIONAL_CONNECTIONS \<and>
     queues_ok (ss_connections st) \<and> recent_ok st"

lemma provisional_card:
  assumes "bt_wf (ss_connections st)"
  shows "length (provisional_keys st) = card (conn_keys st - set (table_peer_keys (ss_peers st)))"
proof -
  have "distinct (provisional_keys st)"
    using bt_wf_distinct [OF assms] by (simp add: provisional_keys_def bt_keys_def)
  moreover have "set (provisional_keys st) = conn_keys st - set (table_peer_keys (ss_peers st))"
    by (auto simp: provisional_keys_def list_ex_has_key conn_keys_def)
  ultimately show ?thesis by (metis distinct_card)
qed

lemma bt_get_conn: "bt_get (ss_connections st) k = None \<longleftrightarrow> k \<notin> conn_keys st"
  by (simp add: bt_get_None_iff conn_keys_def)

lemma queues_ok_insert:
  assumes "queues_ok conns" and "length (ob_queue c) \<le> OUTBOUND_QUEUE_CAPACITY"
  shows "queues_ok (bt_insert k c conns)"
proof -
  have wf: "bt_wf (bt_insert k c conns)" using assms(1) by (simp add: queues_ok_def bt_insert_wf)
  moreover have "length (ob_queue c') \<le> OUTBOUND_QUEUE_CAPACITY" if "(j, c') \<in> set (bt_insert k c conns)" for j c'
    using that assms bt_get_eq_Some_iff [OF wf, of j c'] bt_get_eq_Some_iff [of conns j c']
    by (auto simp: bt_get_insert queues_ok_def split: if_splits)
  ultimately show ?thesis by (auto simp: queues_ok_def)
qed

lemma queues_ok_get:
  "queues_ok conns \<Longrightarrow> bt_get conns k = Some c \<Longrightarrow> length (ob_queue c) \<le> OUTBOUND_QUEUE_CAPACITY"
  by (auto simp: queues_ok_def bt_get_eq_Some_iff)

lemma queues_ok_filter: "queues_ok conns \<Longrightarrow> queues_ok (filter P conns)"
  by (auto simp: queues_ok_def bt_wf_def sorted_wrt_map intro: sorted_wrt_filter)

subsection \<open>Sending leaves everything but the queues\<close>

definition sent :: "storm_state \<Rightarrow> storm_state \<Rightarrow> bool" where
  "sent st st' \<longleftrightarrow> (\<exists>conns. st' = st\<lparr>ss_connections := conns\<rparr>) \<and> conn_keys st' = conn_keys st \<and>
     (queues_ok (ss_connections st) \<longrightarrow> queues_ok (ss_connections st'))"

lemma sent_refl [simp]: "sent st st"
  by (auto simp: sent_def intro: exI [of _ "ss_connections st"])

lemma sent_trans:
  assumes "sent st st1" and "sent st1 st2"
  shows "sent st st2"
proof -
  obtain c1 c2 where "st1 = st\<lparr>ss_connections := c1\<rparr>" "st2 = st1\<lparr>ss_connections := c2\<rparr>"
    using assms unfolding sent_def by blast
  then have "st2 = st\<lparr>ss_connections := c2\<rparr>" by simp
  moreover have "conn_keys st2 = conn_keys st" using assms by (simp only: sent_def)
  moreover have "queues_ok (ss_connections st) \<longrightarrow> queues_ok (ss_connections st2)"
    using assms by (simp only: sent_def) blast
  ultimately show ?thesis unfolding sent_def by blast
qed

lemma sent_fields:
  assumes "sent st st'"
  shows "ss_public_key st' = ss_public_key st" "ss_peers st' = ss_peers st"
    "ss_migration_peers st' = ss_migration_peers st" "ss_migration_members st' = ss_migration_members st"
    "ss_recent_messages st' = ss_recent_messages st"
    "ss_recent_control_messages st' = ss_recent_control_messages st"
    "ss_peer_table_authority st' = ss_peer_table_authority st" "conn_keys st' = conn_keys st"
    "ss_discovery_table_received st' = ss_discovery_table_received st"
  using assms by (auto simp: sent_def)

lemma transport_ok_sent:
  assumes "transport_ok env s st" and "sent st st'"
  shows "transport_ok env s st'"
proof -
  have "queues_ok (ss_connections st')" using assms unfolding sent_def transport_ok_def by blast
  then show ?thesis using assms(1) unfolding transport_ok_def recent_ok_def sent_fields [OF assms(2)] by blast
qed

lemma sent_update:
  assumes "bt_get (ss_connections st) k = Some c"
    and "length (ob_queue c) \<le> OUTBOUND_QUEUE_CAPACITY \<Longrightarrow> length (ob_queue c') \<le> OUTBOUND_QUEUE_CAPACITY"
  shows "sent st (st\<lparr>ss_connections := bt_insert k c' (ss_connections st)\<rparr>)"
  using assms bt_get_conn [of st k] queues_ok_insert [of "ss_connections st" c' k] queues_ok_get [of "ss_connections st" k c]
  by (auto simp: sent_def conn_keys_def set_bt_keys_insert)

lemma try_send_sent: "sent st (fst (try_send k frame st))"
proof (cases "bt_get (ss_connections st) k")
  case (Some c)
  then show ?thesis using sent_update [OF Some, of "c\<lparr>ob_queue := ob_queue c @ [frame]\<rparr>"]
    by (simp add: try_send_def)
qed (simp add: try_send_def)

lemma try_send_all_sent: "sent st (fst (try_send_all frame ks first st))"
proof (induction ks arbitrary: first st)
  case (Cons k ks)
  show ?case using sent_trans [OF try_send_sent Cons.IH] by (simp split: prod.split) (metis fst_conv)
qed simp

lemma send_message_sent: "sent st (fst (send_message_by_public_keys we m ks st))"
  using try_send_all_sent by (auto simp: send_message_by_public_keys_def Let_def split: sum.split prod.split option.split)
    (metis fst_conv)+

lemma send_table_sent: "sent st (fst (send_table we now peers ks st))"
  using send_message_sent by (auto simp: send_table_def split: sum.split)

lemma request_table_sent: "sent st (fst (request_migration_peer_table we now st))"
  using send_message_sent by (auto simp: request_migration_peer_table_def Let_def)

lemma broadcast_migration_sent: "sent st (fst (broadcast_migration_table we now st))"
  using send_table_sent by (auto simp: broadcast_migration_table_def)

lemma handle_ask_sent: "sent st (fst (handle_ask_peers we now sender st))"
  using send_message_sent by (auto simp: handle_ask_peers_def split: sum.split prod.split) (metis fst_conv)+

subsection \<open>Each section preserves the invariant\<close>

lemma transport_okI:
  assumes "table_ok env s (ss_public_key st) (conn_keys st) (ss_peers st)"
    and "table_ok env s (ss_public_key st) (conn_keys st) (ss_migration_peers st)"
    and "card (conn_keys st - set (table_peer_keys (ss_peers st))) \<le> MAX_PROVISIONAL_CONNECTIONS"
    and "queues_ok (ss_connections st)" and "recent_ok st"
  shows "transport_ok env s st"
  using assms by (simp add: transport_ok_def)

lemma insert_connection_fields [simp]:
  "ss_public_key (insert_connection k st) = ss_public_key st"
  "conn_keys (insert_connection k st) = insert k (conn_keys st)"
  "ss_peers (insert_connection k st) = ss_peers (apply_address_overrides st)"
  "ss_migration_peers (insert_connection k st) = ss_migration_peers (apply_address_overrides st)"
  "ss_migration_members (insert_connection k st) = ss_migration_members st"
  "ss_recent_messages (insert_connection k st) = ss_recent_messages st"
  "ss_recent_control_messages (insert_connection k st) = ss_recent_control_messages st"
  "ss_connections (insert_connection k st) = bt_insert k open_connection (ss_connections st)"
  by (simp_all add: insert_connection_def Let_def conn_keys_def set_bt_keys_insert)

text \<open>A key enters the connections after every entry of it has become active.\<close>

lemma transport_ok_connect:
  assumes peers: "table_ok env s (ss_public_key st) (insert k (conn_keys st)) (ss_peers st)"
    "table_ok env s (ss_public_key st) (insert k (conn_keys st)) (ss_migration_peers st)"
    and strangers: "card (insert k (conn_keys st) - set (table_peer_keys (ss_peers st))) \<le> MAX_PROVISIONAL_CONNECTIONS"
    and rest: "queues_ok (ss_connections st)" "recent_ok st"
  shows "transport_ok env s (insert_connection k st)"
proof (rule transport_okI)
  show "recent_ok (insert_connection k st)" using rest(2) by (simp add: recent_ok_def)
  show "queues_ok (ss_connections (insert_connection k st))"
    using rest(1) by (simp add: queues_ok_insert open_connection_def)
qed (use assms in \<open>simp_all add: apply_overrides_table\<close>)

lemma table_ok_activate:
  assumes "table_ok env s l conns peers"
  shows "table_ok env s l (insert k conns) (update_first (has_key k) (activate_peer e a) peers)"
proof -
  have dist: "distinct (table_peer_keys peers)" using assms by (simp add: table_ok_def)
  show ?thesis unfolding update_first_eq_map [OF dist]
    by (rule table_ok_map [OF assms]) (auto simp: peer_ok_def)
qed

lemma table_peer_keys_update_first:
  "(\<And>p. pe_public_key (f p) = pe_public_key p) \<Longrightarrow> table_peer_keys (update_first P f peers) = table_peer_keys peers"
  by (induction peers) (simp_all add: table_peer_keys_def)

lemma table_ok_insert_absent:
  "table_ok env s l conns peers \<Longrightarrow> k \<notin> set (table_peer_keys peers) \<Longrightarrow> table_ok env s l (insert k conns) peers"
  by (auto simp: table_ok_def table_peer_keys_def peer_ok_def)

text \<open>The four outcomes of a claim.\<close>

lemma claim_cases [consumes 1, case_names refused known staged provisional]:
  assumes "claim_connection env k address st = (st', r)"
  obtains e where "st' = st" "r = Inl e"
  | p where "r = Inr ()" "k \<notin> conn_keys st" "find (has_key k) (ss_peers st) = Some p"
      "pe_status p \<noteq> Banned" "pe_status p \<noteq> PeerActive"
      "st' = insert_connection k (st\<lparr>
         ss_peers := update_first (has_key k) (activate_peer env address) (ss_peers st),
         ss_migration_peers := update_first (has_key k) (activate_peer env address) (ss_migration_peers st)\<rparr>)"
  | "r = Inr ()" "k \<notin> conn_keys st" "find (has_key k) (ss_peers st) = None" "migration_contains st k"
      "length (provisional_keys st) < MAX_PROVISIONAL_CONNECTIONS"
      "st' = insert_connection k (st\<lparr>ss_migration_peers :=
         (if list_ex (has_key k) (ss_migration_peers st)
          then update_first (has_key k) (activate_peer env address) (ss_migration_peers st)
          else ss_migration_peers st @ [(peer_new k)\<lparr>pe_status := PeerActive, pe_socket_address := address\<rparr>])\<rparr>)"
  | "r = Inr ()" "k \<notin> conn_keys st" "find (has_key k) (ss_peers st) = None" "\<not> migration_contains st k"
      "accepts_unregistered_connection st k"
      "length (provisional_keys st) < MAX_PROVISIONAL_CONNECTIONS" "st' = insert_connection k st"
proof (cases "k \<in> conn_keys st")
  case True
  then have "st' = st" "r = Inl PeerAlreadyConnected"
    using assms by (simp_all add: claim_connection_def bt_get_conn)
  then show thesis by (rule that(1))
next
  case new: False
  show thesis
  proof (cases "find (has_key k) (ss_peers st)")
    case (Some p)
    show thesis
    proof (cases "pe_status p = Banned \<or> pe_status p = PeerActive")
      case True
      then have "st' = st \<and> (\<exists>e. r = Inl e)"
        using assms Some new by (auto simp: claim_connection_def bt_get_conn)
      then show thesis using that(1) by blast
    next
      case False
      show thesis
        by (rule that(2) [OF _ new Some]) (use assms Some new False in \<open>simp_all add: claim_connection_def bt_get_conn\<close>)
    qed
  next
    case None
    show thesis
    proof (cases "accepts_unregistered_connection st k \<and> length (provisional_keys st) < MAX_PROVISIONAL_CONNECTIONS")
      case False
      then have "st' = st \<and> (\<exists>e. r = Inl e)"
        using assms None new by (auto simp: claim_connection_def bt_get_conn not_le split: if_splits)
      then show thesis using that(1) by blast
    next
      case True
      show thesis
      proof (cases "migration_contains st k")
        case staged: True
        show thesis
          by (rule that(3) [OF _ new None staged])
            (use assms None new True staged in \<open>simp_all add: claim_connection_def bt_get_conn\<close>)
      next
        case False
        show thesis
          by (rule that(4) [OF _ new None False])
            (use assms None new True False in \<open>simp_all add: claim_connection_def bt_get_conn\<close>)
      qed
    qed
  qed
qed

lemma transport_ok_fields:
  assumes "transport_ok env s st"
  shows "table_ok env s (ss_public_key st) (conn_keys st) (ss_peers st)"
    "table_ok env s (ss_public_key st) (conn_keys st) (ss_migration_peers st)"
    "card (conn_keys st - set (table_peer_keys (ss_peers st))) \<le> MAX_PROVISIONAL_CONNECTIONS"
    "queues_ok (ss_connections st)" "recent_ok st" "bt_wf (ss_connections st)"
    "distinct (table_peer_keys (ss_peers st))" "distinct (table_peer_keys (ss_migration_peers st))"
  using assms by (simp_all add: transport_ok_def queues_ok_def table_ok_def)

lemma conn_keys_cong: "ss_connections st' = ss_connections st \<Longrightarrow> conn_keys st' = conn_keys st"
  by (simp add: conn_keys_def)

lemma transport_ok_stranger:
  assumes "transport_ok env s st" and "k \<notin> set (table_peer_keys (ss_peers st))"
    and "length (provisional_keys st) < MAX_PROVISIONAL_CONNECTIONS"
  shows "card (insert k (conn_keys st) - set (table_peer_keys (ss_peers st))) \<le> MAX_PROVISIONAL_CONNECTIONS"
proof -
  have "finite (conn_keys st - set (table_peer_keys (ss_peers st)))" by (simp add: conn_keys_def)
  then have "card (insert k (conn_keys st - set (table_peer_keys (ss_peers st)))) \<le>
      Suc (card (conn_keys st - set (table_peer_keys (ss_peers st))))" by (simp add: card_insert_if)
  then show ?thesis
    using assms(2,3) provisional_card [OF transport_ok_fields(6) [OF assms(1)]] by (simp add: insert_Diff_if)
qed

lemma claim_connection_ok:
  assumes ok: "transport_ok env s st" and key: "se_parse_key env k = Some k"
    and run: "claim_connection e k address st = (st', r)"
  shows "transport_ok env s st'"
  using run
proof (cases rule: claim_cases)
  case (known p)
  have "k \<in> set (table_peer_keys (ss_peers st))"
    using known(3) find_has_key [OF transport_ok_fields(7) [OF ok]] by (auto simp: table_peer_keys_def)
  then have "insert k (conn_keys st) - set (table_peer_keys (ss_peers st)) = conn_keys st - set (table_peer_keys (ss_peers st))"
    by blast
  then show ?thesis unfolding known(6)
    by (intro transport_ok_connect) (use transport_ok_fields [OF ok] in
      \<open>simp_all add: table_ok_activate table_peer_keys_update_first recent_ok_def conn_keys_def\<close>)
next
  case staged
  have new: "k \<notin> set (table_peer_keys (ss_peers st))" using staged(3) by (simp add: find_has_key_None)
  let ?fresh = "(peer_new k)\<lparr>pe_status := PeerActive, pe_socket_address := address\<rparr>"
  have "table_ok env s (ss_public_key st) (insert k (conn_keys st)) (ss_migration_peers st @ [?fresh])"
    if "\<not> list_ex (has_key k) (ss_migration_peers st)"
    using transport_ok_fields(2) [OF ok] that key
    by (auto simp: table_ok_def list_ex_has_key table_peer_keys_def peer_new_def peer_ok_def)
  then show ?thesis unfolding staged(6)
    by (intro transport_ok_connect) (use transport_ok_fields [OF ok] transport_ok_stranger [OF ok new staged(5)] new in
      \<open>simp_all add: table_ok_activate table_ok_insert_absent recent_ok_def conn_keys_def\<close>)
next
  case provisional
  have new: "k \<notin> set (table_peer_keys (ss_peers st))" using provisional(3) by (simp add: find_has_key_None)
  have lax: "\<not> s"
  proof
    assume s
    then have "\<not> list_ex (\<lambda>p. pe_public_key p \<noteq> ss_public_key st \<and> pe_discovery p) (ss_peers st)"
      using transport_ok_fields(1) [OF ok] by (auto simp: table_ok_def peer_ok_def list_ex_iff)
    then show False using provisional(4,5) by (simp add: accepts_unregistered_connection_def)
  qed
  show ?thesis unfolding provisional(7)
    by (intro transport_ok_connect) (use transport_ok_fields [OF ok] transport_ok_stranger [OF ok new provisional(6)] lax in
      \<open>simp_all add: table_ok_def peer_ok_def\<close>)
qed (use ok in simp)

lemma table_ok_update_first:
  assumes "table_ok env s l conns peers"
    and "\<And>p. pe_public_key (f p) = pe_public_key p"
    and "\<And>p. pe_public_key p = k \<Longrightarrow> peer_ok env s l conns p \<Longrightarrow> peer_ok env s l conns' (f p)"
    and "conns' - {k} \<subseteq> conns"
  shows "table_ok env s l conns' (update_first (has_key k) f peers)"
proof -
  have dist: "distinct (table_peer_keys peers)" using assms(1) by (simp add: table_ok_def)
  have other: "peer_ok env s l conns' p" if "peer_ok env s l conns p" "pe_public_key p \<noteq> k" for p
    using that assms(4) by (auto simp: peer_ok_def)
  show ?thesis unfolding update_first_eq_map [OF dist]
    by (rule table_ok_map [OF assms(1)]) (use assms(2,3) other in auto)
qed

text \<open>A change of the tables that keeps the keys and the connections.\<close>

lemma transport_ok_tables:
  assumes ok: "transport_ok env s st"
    and same: "ss_public_key st' = ss_public_key st" "ss_connections st' = ss_connections st"
      "table_peer_keys (ss_peers st') = table_peer_keys (ss_peers st)" "recent_ok st'"
    and tables: "table_ok env s (ss_public_key st) (conn_keys st) (ss_peers st')"
      "table_ok env s (ss_public_key st) (conn_keys st) (ss_migration_peers st')"
  shows "transport_ok env s st'"
  using transport_ok_fields [OF ok] tables
  by (intro transport_okI) (simp_all add: same conn_keys_cong [OF same(2)])

lemma release_connection_ok:
  assumes "transport_ok env s st"
  shows "transport_ok env s (release_connection k st)"
proof (rule transport_okI)
  let ?st' = "release_connection k st"
  note F = transport_ok_fields [OF assms]
  have conns: "conn_keys ?st' = conn_keys st - {k}"
    by (auto simp: conn_keys_def release_connection_def bt_remove_def bt_keys_def)
  have off: "peer_ok env s l (conn_keys st - {k}) (deactivate_peer p)"
    if "pe_public_key p = k" "peer_ok env s l (conn_keys st) p" for l p
    using that by (auto simp: peer_ok_def)
  show "table_ok env s (ss_public_key ?st') (conn_keys ?st') (ss_peers ?st')"
    unfolding conns by (simp add: release_connection_def)
      (rule table_ok_update_first [OF F(1)], simp, rule off, assumption+, blast)
  show "table_ok env s (ss_public_key ?st') (conn_keys ?st') (ss_migration_peers ?st')"
    unfolding conns by (simp add: release_connection_def)
      (rule table_ok_update_first [OF F(2)], simp, rule off, assumption+, blast)
  have "conn_keys st - {k} - X \<subseteq> conn_keys st - X" for X by blast
  then have fewer: "card (conn_keys st - {k} - X) \<le> card (conn_keys st - X)" for X
    by (intro card_mono) (simp_all add: conn_keys_def)
  have keys: "table_peer_keys (ss_peers ?st') = table_peer_keys (ss_peers st)"
    by (simp add: release_connection_def table_peer_keys_update_first)
  show "card (conn_keys ?st' - set (table_peer_keys (ss_peers ?st'))) \<le> MAX_PROVISIONAL_CONNECTIONS"
    unfolding conns keys by (rule le_trans [OF fewer F(3)])
  show "queues_ok (ss_connections ?st')"
    using F(4) by (simp add: release_connection_def bt_remove_def queues_ok_filter)
  show "recent_ok ?st'" using F(5) by (simp add: release_connection_def recent_ok_def)
qed

lemma take_queued_sent: "sent st (take_queued k st)"
  by (auto simp: take_queued_def split: option.split intro!: sent_update)

lemma close_connection_sent: "sent st (close_connection k st)"
  by (auto simp: close_connection_def split: option.split intro!: sent_update)

lemma recent_ok_cong:
  "ss_recent_messages st' = ss_recent_messages st \<Longrightarrow>
   ss_recent_control_messages st' = ss_recent_control_messages st \<Longrightarrow> recent_ok st' = recent_ok st"
  by (simp add: recent_ok_def)

lemma record_listener_ok:
  assumes ok: "transport_ok env s st"
  shows "transport_ok env s (record_listener e port address st)"
proof -
  let ?peers = "update_first (has_key (ss_public_key st)) (update_observed_address e address) (ss_peers st)"
  let ?st1 = "st\<lparr>ss_listener_port := Some port, ss_peers := ?peers\<rparr>"
  have "table_ok env s (ss_public_key st) (conn_keys st) ?peers"
    by (rule table_ok_update_first [OF transport_ok_fields(1) [OF ok]]) (auto simp: peer_ok_def)
  then have "table_ok env s (ss_public_key st) (conn_keys st) (ss_peers ?st1)"
    "table_ok env s (ss_public_key st) (conn_keys st) (ss_migration_peers ?st1)"
    using transport_ok_fields(2) [OF ok] by simp_all
  from apply_overrides_table(1) [OF this(1)] apply_overrides_table(2) [OF this(2)] show ?thesis
    unfolding record_listener_def
    by (intro transport_ok_tables [OF ok]) (use transport_ok_fields(5) [OF ok] in
      \<open>simp_all add: table_peer_keys_update_first recent_ok_def\<close>)
qed

lemma shutdown_ok:
  assumes ok: "transport_ok env s st"
  shows "transport_ok env s (shutdown st)"
proof (rule transport_okI)
  note F = transport_ok_fields [OF ok]
  have none: "conn_keys (shutdown st) = {}" by (simp add: shutdown_def conn_keys_def bt_keys_def)
  show "table_ok env s (ss_public_key (shutdown st)) (conn_keys (shutdown st)) (ss_peers (shutdown st))"
    unfolding none by (simp add: shutdown_def) (rule table_ok_map [OF F(1)]; simp add: peer_ok_def)
  show "table_ok env s (ss_public_key (shutdown st)) (conn_keys (shutdown st)) (ss_migration_peers (shutdown st))"
    unfolding none using table_ok_mono [OF F(2)] by (simp add: shutdown_def)
qed (use transport_ok_fields(5) [OF ok] in
  \<open>simp_all add: shutdown_def conn_keys_def bt_keys_def queues_ok_def recent_ok_def\<close>)

lemma set_peer_address_ok:
  assumes ok: "transport_ok env s st" and run: "set_peer_address e k address st = (st', r)"
  shows "transport_ok env s st'"
proof -
  let ?st1 = "st\<lparr>ss_address_overrides := (ss_address_overrides st)(k := Some address)\<rparr>"
  have t: "table_ok env s (ss_public_key st) (conn_keys st) (ss_peers ?st1)"
    "table_ok env s (ss_public_key st) (conn_keys st) (ss_migration_peers ?st1)"
    using transport_ok_fields(1,2) [OF ok] by simp_all
  have "transport_ok env s (apply_address_overrides ?st1)"
    by (rule transport_ok_tables [OF ok]) (use transport_ok_fields(5) [OF ok] apply_overrides_table(1) [OF t(1)]
      apply_overrides_table(2) [OF t(2)] in \<open>simp_all add: recent_ok_def\<close>)
  then show ?thesis using run ok by (auto simp: set_peer_address_def split: if_splits sum.splits)
qed

lemma dedup_by_key_sorted:
  fixes f :: "'a \<Rightarrow> 'k::linorder"
  shows "sorted (map f xs) \<Longrightarrow> sorted_wrt (<) (map f (dedup_by_key f xs)) \<and> set (dedup_by_key f xs) \<subseteq> set xs"
proof (induction f xs rule: dedup_by_key.induct)
  case (1 f x y ys)
  show ?case
  proof (cases "f x = f y")
    case True
    then show ?thesis using 1(1) 1(3) by auto
  next
    case False
    with 1(3) have "f x < f y" by auto
    moreover have "sorted_wrt (<) (map f (dedup_by_key f (y # ys)))" "set (dedup_by_key f (y # ys)) \<subseteq> set (y # ys)"
      using 1(2) [OF False] 1(3) by auto
    moreover have "f y \<le> f z" if "z \<in> set (y # ys)" for z using that 1(3) by auto
    ultimately show ?thesis using False by (auto intro: less_le_trans)
  qed
qed auto

lemma migration_candidates_ok:
  assumes "table_ok env s l c (ss_peers st)" and "table_ok env s l c (ss_migration_peers st)"
  shows "table_ok env s l c (migration_candidates members st)"
proof -
  let ?all = "filter (\<lambda>p. x_only_public_key (pe_public_key p) \<in> members) (ss_peers st @ ss_migration_peers st)"
  have "sorted (map pe_public_key (sort_key pe_public_key ?all))" by simp
  from dedup_by_key_sorted [OF this] assms show ?thesis
    by (auto simp: table_ok_def table_peer_keys_def migration_candidates_def strict_sorted_iff)
qed

lemma stage_members_ok:
  assumes ok: "transport_ok env s st" and run: "stage_members members st = (st', r)"
  shows "transport_ok env s st'"
  using run ok transport_ok_fields [OF ok] migration_candidates_ok [OF transport_ok_fields(1,2) [OF ok], of members]
  by (auto simp: stage_members_def Let_def recent_ok_def conn_keys_def split: option.splits if_splits
      intro!: transport_okI)

lemma finish_client_discovery_ok:
  assumes ok: "transport_ok env s st"
  shows "transport_ok env s (finish_client_discovery_if_connected st)"
proof -
  have "table_ok env s (ss_public_key st) (conn_keys st) (map (\<lambda>p. p\<lparr>pe_discovery := False\<rparr>) (ss_peers st))"
    by (rule table_ok_same [OF transport_ok_fields(1) [OF ok]]) simp_all
  then have "transport_ok env s (st\<lparr>ss_peers := map (\<lambda>p. p\<lparr>pe_discovery := False\<rparr>) (ss_peers st)\<rparr>)"
    by (intro transport_ok_tables [OF ok]) (use transport_ok_fields [OF ok] in \<open>simp_all add: table_peer_keys_map recent_ok_def\<close>)
  with ok show ?thesis by (simp add: finish_client_discovery_if_connected_def Let_def)
qed

lemma broadcast_active_cases:
  assumes run: "broadcast_active_table we now st = (st', r)"
  shows "\<exists>st1. sent st st1 \<and> (st' = st1 \<or>
    st' = st1\<lparr>ss_peers := update_first (has_key (ss_public_key st)) (\<lambda>p. p\<lparr>pe_discovery := False\<rparr>) (ss_peers st1)\<rparr>)"
proof -
  let ?ks = "map pe_public_key (filter (\<lambda>p. pe_public_key p \<noteq> ss_public_key st \<and> pe_status p = PeerActive) (ss_peers st))"
  obtain st1 v where s: "send_table we now (ss_peers st) ?ks st = (st1, v)" by (rule prod.exhaust)
  have sent: "sent st st1" using send_table_sent [of st we now "ss_peers st" ?ks] by (simp only: s fst_conv)
  show ?thesis
  proof (cases "find (has_key (ss_public_key st)) (ss_peers st)")
    case None
    then have "st' = st" using run by (simp add: broadcast_active_table_def)
    then show ?thesis using sent_refl by blast
  next
    case (Some p)
    let ?idle = "pe_status p \<noteq> Controlled \<or> \<not> pe_discovery p \<or>
      \<not> list_all (\<lambda>p. pe_socket_address p \<noteq> None \<and>
         (pe_public_key p = ss_public_key st \<or> pe_status p = PeerActive \<or> pe_status p = Banned)) (ss_peers st)"
    have eq: "broadcast_active_table we now st = (if ?idle then (st, Inr ()) else
        (case v of Inl e \<Rightarrow> (st1, Inl e)
         | Inr _ \<Rightarrow> (st1\<lparr>ss_peers := update_first (has_key (ss_public_key st))
             (\<lambda>p. p\<lparr>pe_discovery := False\<rparr>) (ss_peers st1)\<rparr>, Inr ())))"
      unfolding broadcast_active_table_def Let_def s Some option.case prod.case by presburger
    show ?thesis
    proof (cases ?idle)
      case True
      then have "st' = st" using run unfolding eq by simp
      then show ?thesis using sent_refl by blast
    next
      case False
      then have "(case v of Inl e \<Rightarrow> (st1, Inl e)
         | Inr _ \<Rightarrow> (st1\<lparr>ss_peers := update_first (has_key (ss_public_key st))
             (\<lambda>p. p\<lparr>pe_discovery := False\<rparr>) (ss_peers st1)\<rparr>, Inr ())) = (st', r)"
        using run unfolding eq by presburger
      then show ?thesis using sent by (cases v) auto
    qed
  qed
qed

lemma broadcast_active_ok:
  assumes ok: "transport_ok env s st" and run: "broadcast_active_table we now st = (st', r)"
  shows "transport_ok env s st'"
proof -
  have off: "transport_ok env s (st1\<lparr>ss_peers := update_first (has_key k) (\<lambda>p. p\<lparr>pe_discovery := False\<rparr>) (ss_peers st1)\<rparr>)"
    if "transport_ok env s st1" for k st1
  proof -
    have "table_ok env s (ss_public_key st1) (conn_keys st1)
        (update_first (has_key k) (\<lambda>p. p\<lparr>pe_discovery := False\<rparr>) (ss_peers st1))"
      by (rule table_ok_update_first [OF transport_ok_fields(1) [OF that]]) (auto simp: peer_ok_def)
    then show ?thesis by (intro transport_ok_tables [OF that]) (use transport_ok_fields [OF that] in
      \<open>simp_all add: table_peer_keys_update_first recent_ok_def\<close>)
  qed
  from broadcast_active_cases [OF run] off transport_ok_sent [OF ok] show ?thesis by blast
qed

subsection \<open>Received tables\<close>

text \<open>What the serialization of a parsed key gives parses to the same key again.\<close>

definition key_law :: "storm_env \<Rightarrow> bool" where
  "key_law env \<longleftrightarrow> (\<forall>raw k. se_parse_key env raw = Some k \<longrightarrow> se_parse_key env k = Some k)"

lemma validate_entries_ok:
  "validate_entries env seen raw = Inr table \<Longrightarrow>
   distinct (map (\<lambda>e. canonical_identity_key (fst e)) table) \<and>
   (\<forall>(k, a)\<in>set table. canonical_identity_key k \<notin> seen \<and> (\<exists>r. se_parse_key env r = Some k) \<and>
      socket_address_port env a \<noteq> None)"
proof (induction env seen raw arbitrary: table rule: validate_entries.induct)
  case (2 env seen raw address entries)
  from 2(2) obtain k where k: "se_parse_key env raw = Some k"
    by (auto split: option.splits)
  have c: "socket_address_port env address \<noteq> None" "canonical_identity_key k \<notin> seen"
    using 2(2) by (auto simp: k split: if_splits)
  then obtain valid where v: "validate_entries env (insert (canonical_identity_key k) seen) entries = Inr valid"
    "table = (k, address) # valid" using 2(2) by (auto simp: k bind_res_eq_Inr)
  have ih: "distinct (map (\<lambda>e. canonical_identity_key (fst e)) valid) \<and>
    (\<forall>(j, a)\<in>set valid. canonical_identity_key j \<notin> insert (canonical_identity_key k) seen \<and>
      (\<exists>r. se_parse_key env r = Some j) \<and> socket_address_port env a \<noteq> None)"
    using 2(1) [OF k c(1,2) v(1)] by blast
  have "canonical_identity_key k \<noteq> canonical_identity_key (fst e)" if "e \<in> set valid" for e
    using ih that by (cases e) force
  then have "canonical_identity_key k \<notin> (\<lambda>e. canonical_identity_key (fst e)) ` set valid" by blast
  then show ?case using ih c k by (auto simp: v(2))
qed simp

lemma validate_table_ok:
  assumes "validate_table env raw = Inr table" and "key_law env"
  shows "distinct (map fst table)" and "inj_on x_only_public_key (table_keys table)"
    and "k \<in> table_keys table \<Longrightarrow> se_parse_key env k = Some k"
proof -
  from assms(1) have "validate_entries env {} raw = Inr table" by (simp add: validate_table_def split: if_splits)
  note v = validate_entries_ok [OF this]
  then have d: "distinct (map canonical_identity_key (map fst table))" by (simp add: comp_def)
  then show "distinct (map fst table)" using distinct_map by blast
  have "inj_on canonical_identity_key (table_keys table)"
    using d unfolding distinct_map [of canonical_identity_key "map fst table"] table_keys_def by blast
  then show "inj_on x_only_public_key (table_keys table)" by (simp add: inj_on_def canonical_identity_key_def)
  show "se_parse_key env k = Some k" if "k \<in> table_keys table"
    using that v assms(2) by (auto simp: table_keys_def key_law_def)
qed

lemma known_or_new_key [simp]: "pe_public_key (known_or_new peers k) = k"
  by (auto simp: known_or_new_def has_key_def split: option.split dest: find_SomeD)

lemma known_or_new_cases: "known_or_new peers k = peer_new k \<or> known_or_new peers k \<in> set peers"
  by (auto simp: known_or_new_def split: option.split dest: find_SomeD)

text \<open>A table that is made entry by entry from a validated one.\<close>

lemma table_ok_entries:
  assumes "distinct (map fst table)" and "\<And>k a. (k, a) \<in> set table \<Longrightarrow> pe_public_key (f (k, a)) = k"
    and "\<And>k a. (k, a) \<in> set table \<Longrightarrow> peer_ok env s l conns (f (k, a))"
  shows "table_ok env s l conns (map f table) \<and> table_peer_keys (map f table) = map fst table"
proof -
  have "pe_public_key (f e) = fst e" if "e \<in> set table" for e using assms(2) that by (cases e) simp
  then have "table_peer_keys (map f table) = map fst table" by (simp add: table_peer_keys_def)
  then show ?thesis using assms(1,3) by (auto simp: table_ok_def)
qed

lemma migration_entry_peer_ok:
  assumes "se_parse_key env k = Some k"
  shows "pe_public_key (migration_entry_peer st (k, a)) = k \<and>
    peer_ok env s (ss_public_key st) (conn_keys st) (migration_entry_peer st (k, a))"
  using assms by (simp add: migration_entry_peer_def Let_def peer_ok_def bt_get_conn)

lemma replace_migration_peers_ok:
  assumes ok: "transport_ok env s st" and law: "key_law env" and table: "validate_table env raw = Inr table"
  shows "transport_ok env s (replace_migration_peers table st)"
proof -
  have entries: "table_ok env s (ss_public_key st) (conn_keys st) (map (migration_entry_peer st) table)"
    using table_ok_entries [of table "migration_entry_peer st" env s "ss_public_key st" "conn_keys st"]
      migration_entry_peer_ok validate_table_ok [OF table law] by (force simp: table_keys_def)
  let ?st1 = "st\<lparr>ss_migration_peers := map (migration_entry_peer st) table\<rparr>"
  have "table_ok env s (ss_public_key st) (conn_keys st) (ss_peers ?st1)"
    "table_ok env s (ss_public_key st) (conn_keys st) (ss_migration_peers ?st1)"
    using transport_ok_fields(1) [OF ok] entries by simp_all
  from apply_overrides_table(1) [OF this(1)] apply_overrides_table(2) [OF this(2)] show ?thesis
    unfolding replace_migration_peers_def
    by (intro transport_ok_tables [OF ok]) (use transport_ok_fields(5) [OF ok] in \<open>simp_all add: recent_ok_def\<close>)
qed

lemma discovered_entry_peer_ok:
  assumes key: "se_parse_key env k = Some k" and old: "table_ok env s (ss_public_key st) conns old"
    and banned: "\<And>p. p \<in> set old \<Longrightarrow> pe_status p = Banned \<Longrightarrow> pe_public_key p \<notin> conn_keys st"
  shows "pe_public_key (discovered_entry_peer st old d (k, a)) = k \<and>
    peer_ok env s (ss_public_key st) (conn_keys st) (discovered_entry_peer st old d (k, a))"
proof -
  let ?p = "known_or_new old k"
  have disc: "\<not> pe_discovery ?p" if s "k \<noteq> ss_public_key st"
    using known_or_new_cases [of old k] old that known_or_new_key [of old k]
    by (auto simp: table_ok_def peer_ok_def)
  have "pe_status ?p \<noteq> Banned" if "k \<in> conn_keys st"
    using known_or_new_cases [of old k] banned [of ?p] that known_or_new_key [of old k]
    by (auto simp: peer_new_def)
  with disc key show ?thesis
    by (auto simp: discovered_entry_peer_def Let_def peer_ok_def bt_get_conn)
qed

lemma conn_keys_filter: "set (bt_keys (filter (\<lambda>(k, c). P k) m)) = {k \<in> set (bt_keys m). P k}"
  by (auto simp: bt_keys_def)

lemma retain_fields [simp]:
  "ss_public_key (retain_connections keep st) = ss_public_key st"
  "ss_peers (retain_connections keep st) = ss_peers st"
  "ss_migration_peers (retain_connections keep st) = ss_migration_peers st"
  "ss_recent_messages (retain_connections keep st) = ss_recent_messages st"
  "ss_recent_control_messages (retain_connections keep st) = ss_recent_control_messages st"
  by (simp_all add: retain_connections_def)

lemma transport_ok_new_table:
  assumes ok: "transport_ok env s st" and conns: "conn_keys st1 \<subseteq> conn_keys st"
    and st1: "st1 = retain_connections keep st"
    and new: "table_ok env s (ss_public_key st) (conn_keys st1) new" "conn_keys st1 \<subseteq> set (table_peer_keys new)"
  shows "transport_ok env s ((apply_address_overrides (st1\<lparr>ss_peers := new\<rparr>))\<lparr>ss_discovery_table_received := True\<rparr>)"
proof -
  note F = transport_ok_fields [OF ok]
  define st2 where "st2 = st1\<lparr>ss_peers := new\<rparr>"
  have same: "ss_public_key st2 = ss_public_key st" "conn_keys st2 = conn_keys st1" "ss_peers st2 = new"
    "ss_migration_peers st2 = ss_migration_peers st" "queues_ok (ss_connections st2)" "recent_ok st2"
    using F(4,5) by (simp_all add: st2_def st1 conn_keys_def recent_ok_def)
      (simp add: retain_connections_def queues_ok_filter)
  have "table_ok env s (ss_public_key st2) (conn_keys st2) (ss_peers st2)"
    "table_ok env s (ss_public_key st2) (conn_keys st2) (ss_migration_peers st2)"
    using new(1) table_ok_mono [OF F(2) conns] by (simp_all add: same)
  note t = apply_overrides_table(1) [OF this(1)] apply_overrides_table(2) [OF this(2)]
  have "conn_keys st1 - set (table_peer_keys new) = {}" using new(2) by blast
  then have "card (conn_keys st1 - set (table_peer_keys new)) \<le> MAX_PROVISIONAL_CONNECTIONS"
    by (simp only: card.empty le0)
  then have "transport_ok env s ((apply_address_overrides st2)\<lparr>ss_discovery_table_received := True\<rparr>)"
    using t same by (intro transport_okI) (simp_all add: conn_keys_def recent_ok_def)
  then show ?thesis by (simp only: st2_def)
qed

lemma replace_discovered_peers_ok:
  assumes ok: "transport_ok env s st" and law: "key_law env" and table: "validate_table env raw = Inr table"
    and run: "replace_discovered_peers table d st = (st', r)"
  shows "transport_ok env s st'"
proof (cases "ss_public_key st \<notin> table_keys table \<or> d \<notin> table_keys table")
  case False
  define keep where "keep k \<longleftrightarrow> k \<in> table_keys table \<and>
    k \<notin> set (map pe_public_key (filter (\<lambda>p. pe_status p = Banned) (ss_peers st)))" for k
  define st1 where "st1 = retain_connections keep st"
  let ?new = "map (discovered_entry_peer st1 (ss_peers st) d) table"
  have conns: "conn_keys st1 = {k \<in> conn_keys st. keep k}"
    by (auto simp: st1_def retain_connections_def conn_keys_def bt_keys_def)
  have new: "table_ok env s (ss_public_key st) (conn_keys st1) ?new \<and> table_peer_keys ?new = map fst table"
  proof (rule table_ok_entries [OF validate_table_ok(1) [OF table law]])
    fix k a assume "(k, a) \<in> set table"
    then have "k \<in> table_keys table" by (force simp: table_keys_def)
    then have key: "se_parse_key env k = Some k" by (rule validate_table_ok(3) [OF table law])
    have old: "table_ok env s (ss_public_key st1) (conn_keys st) (ss_peers st)"
      using transport_ok_fields(1) [OF ok] by (simp add: st1_def)
    have banned: "pe_public_key p \<notin> conn_keys st1" if "p \<in> set (ss_peers st)" "pe_status p = Banned" for p
      unfolding conns keep_def using that by force
    from discovered_entry_peer_ok [OF key old banned, of d a]
    show "pe_public_key (discovered_entry_peer st1 (ss_peers st) d (k, a)) = k"
      and "peer_ok env s (ss_public_key st) (conn_keys st1) (discovered_entry_peer st1 (ss_peers st) d (k, a))"
      by (simp_all add: st1_def)
  qed
  have "transport_ok env s ((apply_address_overrides (st1\<lparr>ss_peers := ?new\<rparr>))\<lparr>ss_discovery_table_received := True\<rparr>)"
  proof (rule transport_ok_new_table [OF ok _ st1_def])
    show "conn_keys st1 \<subseteq> set (table_peer_keys ?new)"
      using new by (auto simp: conns keep_def table_keys_def)
  qed (use new in \<open>auto simp: conns\<close>)
  moreover have "st' = (apply_address_overrides (st1\<lparr>ss_peers := ?new\<rparr>))\<lparr>ss_discovery_table_received := True\<rparr>"
    using run False by (simp add: replace_discovered_peers_def Let_def st1_def keep_def [abs_def])
  ultimately show ?thesis by simp
qed (use run ok in \<open>auto simp: replace_discovered_peers_def\<close>)

lemma handle_peers_socket_info_ok:
  assumes ok: "transport_ok (we_env we) s st" and law: "key_law (we_env we)"
    and run: "handle_peers_socket_info we sender m st = (st', effects, r)"
  shows "transport_ok (we_env we) s st'"
proof (cases "st' = st")
  case False
  obtain raw table where raw: "we_decode_table we (sm_payload m) = Some raw"
    and table: "validate_table (we_env we) raw = Inr table"
    using run False by (auto simp: handle_peers_socket_info_def split: option.splits sum.splits)
  note M = replace_migration_peers_ok [OF ok law table]
  note D = replace_discovered_peers_ok [OF ok law table]
  have C: "transport_ok (we_env we) s (fst (cache_migration_peer_hints table sender st))"
    using M ok by (simp add: cache_migration_peer_hints_def)
  show ?thesis
  proof (cases "ss_migration_members st = Some (x_only_public_key ` table_keys table)")
    case True
    then show ?thesis using run M ok raw table by (auto simp: handle_peers_socket_info_def split: if_splits)
  next
    case other: False
    then obtain p where p: "find (has_key sender) (ss_peers st) = Some p"
      using run raw table False by (auto simp: handle_peers_socket_info_def split: option.splits)
    show ?thesis
    proof (cases "pe_discovery p")
      case True
      obtain st1 v where "replace_discovered_peers table sender st = (st1, v)" by (rule prod.exhaust)
      with True other p raw table run D show ?thesis
        by (cases v) (auto simp: handle_peers_socket_info_def)
    next
      case cached: False
      obtain st1 v where c: "cache_migration_peer_hints table sender st = (st1, v)" by (rule prod.exhaust)
      with C have ok1: "transport_ok (we_env we) s st1" by simp
      have "st' = st1 \<or> st' = st"
        using cached other p raw table run c
        by (auto simp: handle_peers_socket_info_def split: sum.splits bool.splits if_splits)
      with ok ok1 show ?thesis by blast
    qed
  qed
qed (use ok in simp)

lemma storm_message_handler_ok:
  assumes ok: "transport_ok (we_env we) s st" and law: "key_law (we_env we)"
    and run: "storm_message_handler we now sender m st = (st', effects, r)"
  shows "transport_ok (we_env we) s st'"
proof -
  have "transport_ok (we_env we) s (fst (handle_ask_peers we now sender st))"
    by (rule transport_ok_sent [OF ok handle_ask_sent])
  moreover have "transport_ok (we_env we) s (fst (handle_peers_socket_info we sender m st))"
    using handle_peers_socket_info_ok [OF ok law] by (metis prod.collapse)
  ultimately show ?thesis using run ok
    by (auto simp: storm_message_handler_def Let_def split: if_splits option.splits)
qed

lemma register_message_recent:
  assumes "recent_ok st" and "register_message env k m now st = (st', r)"
  shows "recent_ok st'"
proof -
  have base: "length (ss_recent_messages st j) \<le> REPLAY_CACHE_CAPACITY"
    "length (ss_recent_control_messages st j) \<le> CONTROL_MESSAGE_RATE_CAPACITY"
    "distinct (map rm_fingerprint (ss_recent_messages st j))" for j
    using assms(1) by (simp_all add: recent_ok_def)
  note kept = le_trans [OF length_filter_le base(1)] le_trans [OF length_filter_le base(2)]
    distinct_map_filter [OF base(3)]
  show ?thesis
  proof (cases "st' = st")
    case False
    then show ?thesis using assms(2)
      by (auto simp: register_message_def Let_def recent_ok_def list_ex_iff kept base
          not_le [where 'a = nat] Suc_le_eq split: if_splits) blast
  qed (use assms(1) in simp)
qed

lemma register_message_fields:
  assumes "register_message env k m now st = (st', r)"
  shows "ss_peers st' = ss_peers st" "ss_migration_peers st' = ss_migration_peers st"
    "ss_connections st' = ss_connections st" "ss_public_key st' = ss_public_key st"
    "ss_migration_members st' = ss_migration_members st" "ss_peer_table_authority st' = ss_peer_table_authority st"
  using assms by (auto simp: register_message_def Let_def split: if_splits)

lemma admit_message_ok:
  assumes ok: "transport_ok env s st" and run: "admit_message we now sender m st = (st', r)"
  shows "transport_ok env s st'"
proof (cases "st' = st")
  case False
  obtain st1 v where reg: "register_message (we_env we) sender m now st = (st1, v)" by (rule prod.exhaust)
  note R = register_message_fields [OF reg]
  have ok1: "transport_ok env s st1"
    by (rule transport_ok_tables [OF ok]) (use transport_ok_fields [OF ok] register_message_recent [OF _ reg] in \<open>simp_all add: R\<close>)
  have touched: "table_ok env s l c (update_first (has_key sender) (touch_peer now) peers)"
    if "table_ok env s l c peers" for l c peers
    by (rule table_ok_update_first [OF that]) (auto simp: peer_ok_def)
  have "transport_ok env s (st1\<lparr>ss_peers := update_first (has_key sender) (touch_peer now) (ss_peers st1),
      ss_migration_peers := update_first (has_key sender) (touch_peer now) (ss_migration_peers st1)\<rparr>)"
    by (rule transport_ok_tables [OF ok1]) (use transport_ok_fields [OF ok1] touched in
      \<open>simp_all add: table_peer_keys_update_first recent_ok_def\<close>)
  with ok1 reg run False show ?thesis
    by (auto simp: admit_message_def Let_def split: if_splits sum.splits)
qed (use ok in simp)

lemma activate_member_migration_ok:
  assumes ok: "transport_ok env s st" and run: "activate_member_migration st = (st', r)"
  shows "transport_ok env s st'"
proof (cases "member_migration_peers st")
  case (Inr peers)
  note F = transport_ok_fields [OF ok]
  define st1 where "st1 = st\<lparr>ss_peers := peers, ss_migration_peers := [], ss_migration_members := None\<rparr>"
  have peers: "peers = ss_migration_peers st"
    using Inr by (auto simp: member_migration_peers_def split: if_splits)
  have st': "st' = retain_connections (\<lambda>k. k \<in> set (map pe_public_key peers)) st1"
    using run Inr by (simp add: activate_member_migration_def st1_def)
  have conns: "conn_keys st' = conn_keys st \<inter> set (table_peer_keys peers)"
    by (auto simp: st' st1_def retain_connections_def conn_keys_def bt_keys_def table_peer_keys_def)
  have sel: "ss_public_key st' = ss_public_key st" "ss_peers st' = peers" "ss_migration_peers st' = []"
    by (simp_all add: st' st1_def)
  show ?thesis
  proof (rule transport_okI)
    show "table_ok env s (ss_public_key st') (conn_keys st') (ss_peers st')"
      unfolding sel conns peers by (rule table_ok_mono [OF F(2)]) blast
    show "table_ok env s (ss_public_key st') (conn_keys st') (ss_migration_peers st')"
      unfolding sel by (simp add: table_ok_def table_peer_keys_def)
    have "conn_keys st' - set (table_peer_keys (ss_peers st')) = {}" unfolding conns sel by blast
    then show "card (conn_keys st' - set (table_peer_keys (ss_peers st'))) \<le> MAX_PROVISIONAL_CONNECTIONS"
      by (simp only: card.empty le0)
    show "queues_ok (ss_connections st')"
      using F(4) by (simp add: st' st1_def retain_connections_def queues_ok_filter)
    show "recent_ok st'" using F(5) by (simp add: st' st1_def recent_ok_def)
  qed
qed (use run ok in \<open>simp add: activate_member_migration_def\<close>)

subsection \<open>Reachable states\<close>

text \<open>
  The sections of the node's code, at the time its clock shows. A handshake that claims a connection
  has authenticated a key, in its compressed form.
\<close>

inductive storm_step :: "wire_env \<Rightarrow> u64 \<Rightarrow> storm_state \<Rightarrow> storm_state \<Rightarrow> bool" for we where
  claim: "se_parse_key (we_env we) k = Some k \<Longrightarrow> claim_connection (we_env we) k address st = (st', r) \<Longrightarrow>
    storm_step we now st st'"
| release: "storm_step we now st (release_connection k st)"
| take_message: "storm_step we now st (take_queued k st)"
| close: "storm_step we now st (close_connection k st)"
| listener: "storm_step we now st (record_listener (we_env we) port address st)"
| shutdown: "storm_step we now st (shutdown st)"
| address: "set_peer_address (we_env we) k address st = (st', r) \<Longrightarrow> storm_step we now st st'"
| authority: "set_peer_table_authority (we_env we) k st = (st', r) \<Longrightarrow> storm_step we now st st'"
| stage: "stage_members members st = (st', r) \<Longrightarrow> storm_step we now st st'"
| request: "request_migration_peer_table we now st = (st', r) \<Longrightarrow> storm_step we now st st'"
| broadcast_staged: "broadcast_migration_table we now st = (st', r) \<Longrightarrow> storm_step we now st st'"
| broadcast_active: "broadcast_active_table we now st = (st', r) \<Longrightarrow> storm_step we now st st'"
| finish: "storm_step we now st (finish_client_discovery_if_connected st)"
| activate: "activate_member_migration st = (st', r) \<Longrightarrow> storm_step we now st st'"
| cancel: "storm_step we now st (cancel_member_migration st)"
| admit: "admit_message we now k m st = (st', r) \<Longrightarrow> storm_step we now st st'"
| handle: "storm_message_handler we now k m st = (st', effects, r) \<Longrightarrow> storm_step we now st st'"
| send: "send_message_by_public_keys we m ks st = (st', r) \<Longrightarrow> storm_step we now st st'"

text \<open>A run whose steps all happen by the time \<open>t\<close>.\<close>

inductive storm_run :: "wire_env \<Rightarrow> u64 \<Rightarrow> storm_state \<Rightarrow> storm_state \<Rightarrow> bool" for we t where
  refl: "storm_run we t st st"
| step: "storm_run we t st st1 \<Longrightarrow> storm_step we now st1 st2 \<Longrightarrow> now \<le> t \<Longrightarrow> storm_run we t st st2"

lemma storm_step_ok:
  assumes "storm_step we now st st'" and ok: "transport_ok (we_env we) s st" and law: "key_law (we_env we)"
  shows "transport_ok (we_env we) s st'"
  using assms(1)
proof cases
  case (claim k address r)
  then show ?thesis using claim_connection_ok [OF ok] by blast
next
  case (handle k m effects r)
  then show ?thesis by (rule storm_message_handler_ok [OF ok law])
next
  case (authority k r)
  then have "st' = st \<or> st' = st\<lparr>ss_peer_table_authority := Some k\<rparr>"
    by (auto simp: set_peer_table_authority_def split: if_splits)
  moreover have "transport_ok (we_env we) s (st\<lparr>ss_peer_table_authority := Some k\<rparr>)"
    by (rule transport_ok_tables [OF ok]) (use transport_ok_fields [OF ok] in \<open>simp_all add: recent_ok_def\<close>)
  ultimately show ?thesis using ok by auto
next
  case cancel
  then show ?thesis
    by (intro transport_ok_tables [OF ok]) (use transport_ok_fields [OF ok] in
      \<open>simp_all add: recent_ok_def cancel_member_migration_def\<close>)
next
  case (request r)
  then show ?thesis using transport_ok_sent [OF ok request_table_sent] by (metis fst_conv)
next
  case (broadcast_staged r)
  then show ?thesis using transport_ok_sent [OF ok broadcast_migration_sent] by (metis fst_conv)
next
  case (send m ks r)
  then show ?thesis using transport_ok_sent [OF ok send_message_sent] by (metis fst_conv)
qed (use ok in \<open>auto intro: release_connection_ok transport_ok_sent [OF ok] take_queued_sent close_connection_sent
  record_listener_ok shutdown_ok set_peer_address_ok stage_members_ok broadcast_active_ok
  finish_client_discovery_ok activate_member_migration_ok admit_message_ok\<close>)

lemma storm_run_ok:
  assumes "storm_run we t st st'" and "transport_ok (we_env we) s st" and "key_law (we_env we)"
  shows "transport_ok (we_env we) s st'"
  using assms by (induction rule: storm_run.induct) (auto intro: storm_step_ok)

end
