(* ===== verification/Storm_Claims.thy ===== *)
theory Storm_Claims
  imports Storm_Steps
begin

text \<open>
  The properties of the Storm transport: what holds in every state a node reaches, what a replayed
  message meets, who may deliver messages to the application or change the staged peer table, which
  side of a connection dials, and what the activation of a member migration guarantees.
\<close>

subsection \<open>Messages are not accepted twice\<close>

lemma sent_recent: "sent st st' \<Longrightarrow> ss_recent_messages st' = ss_recent_messages st"
  by (rule sent_fields(5))

lemma handler_recent:
  assumes "storm_message_handler we now k m st = (st', effects, r)"
  shows "ss_recent_messages st' = ss_recent_messages st"
proof -
  have table: "ss_recent_messages (fst (handle_peers_socket_info we k m st)) = ss_recent_messages st"
    by (auto simp: handle_peers_socket_info_def cache_migration_peer_hints_def replace_migration_peers_def
        replace_discovered_peers_def Let_def split: option.split sum.split prod.split bool.split)
  have "ss_recent_messages (fst (handle_ask_peers we now k st)) = ss_recent_messages st"
    by (rule sent_recent [OF handle_ask_sent])
  with table assms show ?thesis
    by (auto simp: storm_message_handler_def Let_def split: if_splits option.splits)
qed

lemma step_recent:
  assumes "storm_step we now st st'" and "\<nexists>k m r. admit_message we now k m st = (st', r)"
  shows "ss_recent_messages st' = ss_recent_messages st"
  using assms(1)
proof cases
  case (claim k address r)
  from claim(2) show ?thesis by (cases rule: claim_cases) simp_all
next
  case (handle k m effects r)
  then show ?thesis by (rule handler_recent)
next
  case (request r)
  then show ?thesis using sent_recent [OF request_table_sent] by (metis fst_conv)
next
  case (broadcast_staged r)
  then show ?thesis using sent_recent [OF broadcast_migration_sent] by (metis fst_conv)
next
  case (broadcast_active r)
  from broadcast_active_cases [OF this] obtain st1 where
    "ss_recent_messages st1 = ss_recent_messages st" "st' = st1 \<or> st' = st1\<lparr>ss_peers :=
       update_first (has_key (ss_public_key st)) (\<lambda>p. p\<lparr>pe_discovery := False\<rparr>) (ss_peers st1)\<rparr>"
    using sent_recent by blast
  then show ?thesis by (elim disjE) simp_all
next
  case (send m ks r)
  then show ?thesis using sent_recent [OF send_message_sent] by (metis fst_conv)
next
  case (admit k m r)
  then show ?thesis using assms(2) by blast
qed (auto simp: release_connection_def record_listener_def shutdown_def set_peer_address_def
    set_peer_table_authority_def stage_members_def Let_def finish_client_discovery_if_connected_def
    activate_member_migration_def cancel_member_migration_def
    sent_recent [OF take_queued_sent] sent_recent [OF close_connection_sent]
    split: if_splits sum.splits option.splits)

lemma register_keeps:
  assumes "register_message env j m now st = (st', r)" and "e \<in> set (ss_recent_messages st k)"
    and "sat_sub now (rm_received_at e) \<le> MESSAGE_CLOCK_SKEW"
  shows "e \<in> set (ss_recent_messages st' k)"
  using assms by (auto simp: register_message_def Let_def split: if_splits)

lemma run_keeps:
  assumes "storm_run we t st st'" and "e \<in> set (ss_recent_messages st k)"
    and "sat_sub t (rm_received_at e) \<le> MESSAGE_CLOCK_SKEW"
  shows "e \<in> set (ss_recent_messages st' k)"
  using assms(1,2)
proof (induction rule: storm_run.induct)
  case (step st st1 now st2)
  then have e: "e \<in> set (ss_recent_messages st1 k)" by simp
  have now: "sat_sub now (rm_received_at e) \<le> MESSAGE_CLOCK_SKEW"
    using step(3) assms(3) by (simp add: word_order_unat unat_sat_sub)
  show ?case
  proof (cases "\<exists>j m r. admit_message we now j m st1 = (st2, r)")
    case True
    then obtain j m r where a: "admit_message we now j m st1 = (st2, r)" by blast
    obtain st3 v where reg: "register_message (we_env we) j m now st1 = (st3, v)" by (rule prod.exhaust)
    have "ss_recent_messages st2 = ss_recent_messages st1 \<or> ss_recent_messages st2 = ss_recent_messages st3"
      using a reg by (auto simp: admit_message_def Let_def split: if_splits sum.splits)
    then show ?thesis using register_keeps [OF reg e now] e by auto
  next
    case False
    then show ?thesis using step_recent [OF step(2)] e by simp
  qed
qed simp


subsection \<open>A small network\<close>

text \<open>Concrete parameters, at which the hypotheses of the properties hold: a key is two bytes.\<close>

definition toy_curve :: storm_env where
  "toy_curve = \<lparr>se_parse_key = \<lambda>k. if length k = 2 then Some k else None, se_sha256 = \<lambda>bs. bs,
     se_socket_addr = \<lambda>s. if s = ''a'' then Some 1 else None\<rparr>"

definition toy_table :: "(bytes \<times> string) list" where
  "toy_table = [([2, 1], ''a''), ([2, 2], ''a'')]"

definition toy_wire :: wire_env where
  "toy_wire = \<lparr>we_env = toy_curve, we_codec = toy_codec,
     we_encode_table = \<lambda>t. if t = toy_table then Some [1] else None,
     we_decode_table = \<lambda>bs. if bs = [1] then Some toy_table else None,
     we_encode_error = \<lambda>c e i. Some [], we_error_decodes = \<lambda>bs. True,
     we_decode_custom = \<lambda>bs. Some \<lparr>cm_domain = ''d'', cm_payload = bs\<rparr>\<rparr>"

definition toy_node :: storm_state where
  "toy_node = storm_from_peers [2, 1] [peer_new [2, 2], (peer_new [2, 3])\<lparr>pe_status := Banned\<rparr>]"

lemma toy_node_eq: "toy_node = state_new [2, 1]
    [(peer_new [2, 1])\<lparr>pe_status := Controlled\<rparr>, peer_new [2, 2], (peer_new [2, 3])\<lparr>pe_status := Banned\<rparr>]"
  by (simp add: toy_node_def storm_from_peers_def state_with_local_peer_def state_new_def initial_status_def
      peer_new_def)

lemma toy_law: "key_law toy_curve"
  by (auto simp: key_law_def toy_curve_def split: if_splits)

lemma toy_wire_env [simp]: "we_env toy_wire = toy_curve"
  by (simp add: toy_wire_def)


text \<open>
  A message whose timestamp is ahead of the receiver's clock is remembered for less time than it stays
  acceptable: it is accepted on arrival, and once more when its first arrival is forgotten.
\<close>

lemma future_message_accepted_twice:
  "\<exists>st1 st2. register_message toy_curve [2, 2] (toy_storm_message 4 1000 [7]) 700 toy_node = (st1, Inr ()) \<and>
     register_message toy_curve [2, 2] (toy_storm_message 4 1000 [7]) 1001 st1 = (st2, Inr ())"
  by (simp add: register_message_def Let_def toy_storm_message_def toy_node_eq state_new_def MESSAGE_CLOCK_SKEW_def
      abs_diff_def sat_sub_def REPLAY_CACHE_CAPACITY_def)

subsection \<open>The invariant of a node\<close>

lemma initial_ok:
  assumes "distinct (table_peer_keys peers)" and "\<forall>k\<in>insert key (set (table_peer_keys peers)). se_parse_key env k = Some k"
    and "st = storm_discovery key peers \<or> st = storm_from_peers key peers"
  shows "transport_ok env True st"
proof -
  let ?all = "ss_peers (state_with_local_peer key peers)"
  have all: "distinct (table_peer_keys ?all)" "\<forall>p\<in>set ?all. se_parse_key env (pe_public_key p) = Some (pe_public_key p)"
    using assms(1,2) by (auto simp: state_with_local_peer_def state_new_def table_peer_keys_def list_ex_iff Let_def)
  have maps: "pe_public_key (initial_status key p) = pe_public_key p"
    "pe_discovery (initial_status key p) = pe_discovery p" for p
    by (simp_all add: initial_status_def)
  have st: "ss_public_key st = key" "ss_connections st = []" "ss_migration_peers st = []"
    "ss_recent_messages st = (\<lambda>_. [])" "ss_recent_control_messages st = (\<lambda>_. [])"
    using assms(3) by (auto simp: storm_discovery_def storm_from_peers_def Let_def state_with_local_peer_def state_new_def)
  have "\<exists>f. ss_peers st = map f ?all \<and> (\<forall>p. pe_public_key (f p) = pe_public_key p \<and>
      (pe_discovery (f p) \<longrightarrow> pe_public_key p = key))"
    using assms(3)
  proof
    assume "st = storm_discovery key peers"
    then show ?thesis
      by (intro exI [of _ "\<lambda>p. (initial_status key p)\<lparr>pe_discovery := pe_public_key p = key\<rparr>"])
        (simp add: storm_discovery_def Let_def maps)
  next
    assume "st = storm_from_peers key peers"
    then show ?thesis
      by (intro exI [of _ "\<lambda>p. initial_status key (p\<lparr>pe_discovery := False\<rparr>)"])
        (simp add: storm_from_peers_def Let_def maps)
  qed
  then obtain f where f: "ss_peers st = map f ?all" "\<And>p. pe_public_key (f p) = pe_public_key p"
    "\<And>p. pe_discovery (f p) \<Longrightarrow> pe_public_key p = key" by blast
  have conns: "conn_keys st = {}" by (simp add: conn_keys_def st bt_keys_def)
  have "table_ok env True key {} (map f ?all)"
    using all f by (auto simp: table_ok_def table_peer_keys_map peer_ok_def)
  then show ?thesis
    by (intro transport_okI) (simp_all add: st conns f(1) table_ok_def recent_ok_def queues_ok_def table_peer_keys_def)
qed



subsection \<open>Who may do what\<close>

text \<open>
  Only members of the network deliver messages to the application. When the handling of a message
  delivers anything, its sender is a known peer that is not banned, the message is fresh by the
  receiver's clock and was not seen before, it speaks the node's protocol version, and what is
  delivered is its own decoded payload. A message of an unknown or banned key changes nothing.
\<close>

lemma only_members_deliver:
  assumes "handle_message we now sender m st = (st', effects, r)"
  shows "(Deliver k c \<in> set effects \<longrightarrow> k = sender \<and>
      (\<exists>p\<in>set (ss_peers st). pe_public_key p = sender \<and> pe_status p \<noteq> Banned) \<and>
      snd (register_message (we_env we) sender m now st) = Inr () \<and>
      sh_payload_id (sm_header m) = CUSTOM \<and> sh_protocol_version (sm_header m) = PROTOCOL_VERSION \<and>
      we_decode_custom we (sm_payload m) = Some c) \<and>
    (sender \<notin> set (table_peer_keys (ss_peers st @ ss_migration_peers st)) \<or>
       (\<exists>p. find (has_key sender) (ss_peers st) = Some p \<and> pe_status p = Banned) \<longrightarrow>
     st' = st \<and> effects = [] \<and> r = Inl UnauthorizedConnection)"
proof (intro conjI impI)
  assume "sender \<notin> set (table_peer_keys (ss_peers st @ ss_migration_peers st)) \<or>
       (\<exists>p. find (has_key sender) (ss_peers st) = Some p \<and> pe_status p = Banned)"
  moreover have "find (has_key sender) peers = None" if "sender \<notin> set (table_peer_keys peers)" for peers
    using that by (simp add: find_has_key_None)
  ultimately have "admit_message we now sender m st = (st, Inl UnauthorizedConnection)"
    by (auto simp: admit_message_def table_peer_keys_def)
  then show "st' = st" "effects = []" "r = Inl UnauthorizedConnection"
    using assms by (simp_all add: handle_message_def)
next
  assume del: "Deliver k c \<in> set effects"
  obtain st1 v where a: "admit_message we now sender m st = (st1, v)" by (rule prod.exhaust)
  obtain u where v: "v = Inr u" using assms del a by (cases v) (auto simp: handle_message_def)
  obtain st2 v2 where reg: "register_message (we_env we) sender m now st = (st2, v2)" by (rule prod.exhaust)
  have v2: "v2 = Inr ()" using a v reg by (auto simp: admit_message_def Let_def split: if_splits sum.splits)
  then show "snd (register_message (we_env we) sender m now st) = Inr ()" by (simp add: reg)
  have st1: "table_peer_keys (ss_peers st1) = table_peer_keys (ss_peers st)"
    using a v reg register_message_fields(1) [OF reg]
    by (auto simp: admit_message_def Let_def table_peer_keys_update_first split: if_splits sum.splits)
  obtain st3 e3 r3 where h: "storm_message_handler we now sender m st1 = (st3, e3, r3)" by (metis prod_cases3)
  have "effects = e3 \<or> effects = []"
    using assms a v h by (auto simp: handle_message_def Let_def split: if_splits sum.splits refusal.splits option.splits prod.splits)
  then have e3: "Deliver k c \<in> set e3" using del by auto
  have ask: "fst (snd (handle_ask_peers we now sender st1)) = []"
    by (auto simp: handle_ask_peers_def split: sum.split prod.split)
  have table: "Deliver k c \<notin> set (fst (snd (handle_peers_socket_info we sender m st1)))"
    by (auto simp: handle_peers_socket_info_def Let_def split: option.split sum.split prod.split bool.split)
  have custom: "sh_payload_id (sm_header m) = CUSTOM \<and> sh_protocol_version (sm_header m) = PROTOCOL_VERSION \<and>
      k = sender \<and> we_decode_custom we (sm_payload m) = Some c"
    using h e3 ask table
    by (auto simp: storm_message_handler_def Let_def split: if_splits option.splits)
  then show "k = sender" "sh_payload_id (sm_header m) = CUSTOM"
    "sh_protocol_version (sm_header m) = PROTOCOL_VERSION" "we_decode_custom we (sm_payload m) = Some c" by simp_all
  have "list_ex (has_key sender) (ss_peers st1)"
    using assms del a v custom by (auto simp: handle_message_def Let_def payload_ids split: if_splits)
  then have "sender \<in> set (table_peer_keys (ss_peers st))" by (simp add: list_ex_has_key st1)
  then obtain p where p: "find (has_key sender) (ss_peers st) = Some p"
    using find_has_key_None by (metis option.exhaust)
  moreover have "pe_status p \<noteq> Banned" using a v p by (auto simp: admit_message_def)
  ultimately show "\<exists>p\<in>set (ss_peers st). pe_public_key p = sender \<and> pe_status p \<noteq> Banned"
    by (auto dest!: find_SomeD simp: has_key_def)
qed

lemma only_members_deliver_witness:
  "\<exists>st' r. handle_message toy_wire 100 [2, 2] (toy_storm_message 4 100 [7]) toy_node =
     (st', [Deliver [2, 2] \<lparr>cm_domain = ''d'', cm_payload = [7]\<rparr>], r) \<and>
     (\<exists>p\<in>set (ss_peers toy_node). pe_public_key p = [2, 2] \<and> pe_status p \<noteq> Banned)"
proof -
  obtain st' r where h: "handle_message toy_wire 100 [2, 2] (toy_storm_message 4 100 [7]) toy_node =
      (st', [Deliver [2, 2] \<lparr>cm_domain = ''d'', cm_payload = [7]\<rparr>], r)"
    by (simp add: handle_message_def admit_message_def register_message_def Let_def toy_storm_message_def toy_node_eq
        state_new_def MESSAGE_CLOCK_SKEW_def abs_diff_def REPLAY_CACHE_CAPACITY_def has_key_def peer_new_def
        payload_ids storm_message_handler_def PROTOCOL_VERSION_def touch_peer_def) (simp add: toy_wire_def)
  from only_members_deliver [OF h, of "[2, 2]" "\<lparr>cm_domain = ''d'', cm_payload = [7]\<rparr>"] h
  show ?thesis by (intro exI conjI) simp_all
qed

text \<open>
  Nobody but the configured authority and the peer a node discovers its network through can
  change the peer tables of a node. A table from anyone else leaves the state as it is, and is
  accepted only when it names exactly the keys the node knows already.
\<close>

lemma foreign_table_ignored:
  assumes "handle_peers_socket_info we sender m st = (st', effects, r)"
    and "ss_peer_table_authority st \<noteq> Some sender"
    and "\<forall>p\<in>set (ss_peers st). pe_public_key p = sender \<longrightarrow> \<not> pe_discovery p"
  shows "st' = st \<and> effects = [] \<and> (r = Inr () \<longrightarrow>
    (\<exists>raw table. we_decode_table we (sm_payload m) = Some raw \<and> validate_table (we_env we) raw = Inr table \<and>
       table_keys table = set (table_peer_keys (ss_peers st))))"
proof -
  have "\<not> pe_discovery p" if "find (has_key sender) (ss_peers st) = Some p" for p
    using find_SomeD [OF that] assms(3) by (simp add: has_key_def)
  with assms(1,2) show ?thesis
    by (auto simp: handle_peers_socket_info_def validate_known_peer_keys_def require_def table_peer_keys_def
        split: option.splits sum.splits if_splits)
qed

lemma foreign_table_ignored_witness:
  "handle_peers_socket_info toy_wire [2, 2] (toy_storm_message 2 100 [1]) toy_node = (toy_node, [], Inl KeysDoNotMatch)"
proof -
  have "snd (snd (handle_peers_socket_info toy_wire [2, 2] (toy_storm_message 2 100 [1]) toy_node)) = Inl KeysDoNotMatch"
    by (simp add: handle_peers_socket_info_def toy_wire_def toy_storm_message_def toy_table_def validate_table_def
        toy_curve_def socket_address_port_def canonical_identity_key_def toy_node_eq state_new_def has_key_def
        peer_new_def validate_known_peer_keys_def require_def table_keys_def set_eq_subset)
  moreover obtain st' e r where h: "handle_peers_socket_info toy_wire [2, 2] (toy_storm_message 2 100 [1]) toy_node = (st', e, r)"
    by (metis prod_cases3)
  moreover have "st' = toy_node \<and> e = []"
    using foreign_table_ignored [OF h] by (simp add: toy_node_eq state_new_def peer_new_def)
  ultimately show ?thesis by simp
qed

lemma in_plan_targets:
  "t \<in> set (pl_targets (connection_plan_for st peers)) \<longleftrightarrow>
   (\<exists>q\<in>set peers. \<exists>a. pe_socket_address q = Some a \<and> t = \<lparr>tg_public_key = pe_public_key q,
      tg_socket_address = a, tg_status = pe_status q, tg_discovery = pe_discovery q\<rparr>)"
  by (force simp: connection_plan_for_def map_filter_def)

lemma bex_plan_targets:
  "(\<exists>t\<in>set (pl_targets (connection_plan_now st)). P t) \<longleftrightarrow>
   (\<exists>q\<in>set (ss_peers st). \<exists>a. pe_socket_address q = Some a \<and> P \<lparr>tg_public_key = pe_public_key q,
      tg_socket_address = a, tg_status = pe_status q, tg_discovery = pe_discovery q\<rparr>)"
  unfolding connection_plan_now_def Bex_def in_plan_targets by blast

lemma dial_targets_iff:
  assumes "distinct (table_peer_keys (ss_peers st))" and "p \<in> set (ss_peers st)" and "pe_public_key p = k"
  shows "k \<in> fst ` set (dial_targets (connection_plan_now st) reverse) \<longleftrightarrow>
    k \<noteq> ss_public_key st \<and> pe_socket_address p \<noteq> None \<and> pe_status p = PeerInactive \<and>
    (pe_discovery p \<or> (if reverse then k < ss_public_key st else ss_public_key st < k))"
proof -
  have same: "q = p" if "q \<in> set (ss_peers st)" "pe_public_key q = k" for q
    using that assms by (auto simp: table_peer_keys_def distinct_map inj_on_def)
  have key: "pl_public_key (connection_plan_now st) = ss_public_key st"
    by (simp add: connection_plan_now_def connection_plan_for_def)
  have "k \<in> fst ` set (dial_targets (connection_plan_now st) reverse) \<longleftrightarrow>
      (\<exists>t\<in>set (pl_targets (connection_plan_now st)). should_connect (connection_plan_now st) t reverse \<and> tg_public_key t = k)"
    by (force simp: dial_targets_def)
  also have "\<dots> \<longleftrightarrow> (\<exists>q\<in>set (ss_peers st). pe_public_key q = k \<and> (\<exists>a. pe_socket_address q = Some a \<and>
      k \<noteq> ss_public_key st \<and> pe_status q = PeerInactive \<and>
      (pe_discovery q \<or> (if reverse then k < ss_public_key st else ss_public_key st < k))))"
    unfolding bex_plan_targets should_connect_def key by auto
  also have "\<dots> \<longleftrightarrow> (\<exists>a. pe_socket_address p = Some a \<and> k \<noteq> ss_public_key st \<and> pe_status p = PeerInactive \<and>
      (pe_discovery p \<or> (if reverse then k < ss_public_key st else ss_public_key st < k)))"
    using assms(2,3) same by blast
  finally show ?thesis by auto
qed

text \<open>
  Of two nodes that know each other with an address and are not connected, exactly one dials the
  other on every pass: the one with the smaller key on a forward pass, the other one on a reverse
  pass, so that within two passes each of them has tried. No node ever dials itself, or a banned or
  connected peer.
\<close>

lemma one_side_dials:
  assumes "distinct (table_peer_keys (ss_peers sa))" and "distinct (table_peer_keys (ss_peers sb))"
    and "pb \<in> set (ss_peers sa)" and "pa \<in> set (ss_peers sb)"
    and "pe_public_key pb = ss_public_key sb" and "pe_public_key pa = ss_public_key sa"
    and "ss_public_key sa \<noteq> ss_public_key sb"
    and "\<forall>p\<in>{pa, pb}. pe_socket_address p \<noteq> None \<and> pe_status p = PeerInactive \<and> \<not> pe_discovery p"
  shows "(ss_public_key sb \<in> fst ` set (dial_targets (connection_plan_now sa) reverse)) \<noteq>
      (ss_public_key sa \<in> fst ` set (dial_targets (connection_plan_now sb) reverse)) \<and>
    (ss_public_key sb \<in> fst ` set (dial_targets (connection_plan_now sa) reverse)) \<noteq>
      (ss_public_key sb \<in> fst ` set (dial_targets (connection_plan_now sa) (\<not> reverse)))"
  using dial_targets_iff [OF assms(1,3,5)] dial_targets_iff [OF assms(2,4,6)] assms(7,8)
  by (auto simp: not_less_iff_gr_or_eq)

lemma one_side_dials_witness:
  "[2, 2] \<in> fst ` set (dial_targets (connection_plan_now
      (storm_from_peers [2, 1] [(peer_new [2, 2])\<lparr>pe_socket_address := Some ''a''\<rparr>])) False) \<longleftrightarrow>
   [2, 1] \<notin> fst ` set (dial_targets (connection_plan_now
      (storm_from_peers [2, 2] [(peer_new [2, 1])\<lparr>pe_socket_address := Some ''a''\<rparr>])) False)"
proof -
  define sa where "sa = storm_from_peers [2, 1] [(peer_new [2, 2])\<lparr>pe_socket_address := Some ''a''\<rparr>]"
  define sb where "sb = storm_from_peers [2, 2] [(peer_new [2, 1])\<lparr>pe_socket_address := Some ''a''\<rparr>]"
  have a: "ss_peers sa = [(peer_new [2, 1])\<lparr>pe_status := Controlled\<rparr>, (peer_new [2, 2])\<lparr>pe_socket_address := Some ''a''\<rparr>]"
    "ss_public_key sa = [2, 1]"
    and b: "ss_peers sb = [(peer_new [2, 2])\<lparr>pe_status := Controlled\<rparr>, (peer_new [2, 1])\<lparr>pe_socket_address := Some ''a''\<rparr>]"
    "ss_public_key sb = [2, 2]"
    by (simp_all add: sa_def sb_def storm_from_peers_def state_with_local_peer_def state_new_def initial_status_def
        peer_new_def)
  have "([2, 2] \<in> fst ` set (dial_targets (connection_plan_now sa) False)) \<noteq>
      ([2, 1] \<in> fst ` set (dial_targets (connection_plan_now sb) False))"
    using one_side_dials [of sa sb "(peer_new [2, 2])\<lparr>pe_socket_address := Some ''a''\<rparr>"
        "(peer_new [2, 1])\<lparr>pe_socket_address := Some ''a''\<rparr>" False]
    by (simp add: a b table_peer_keys_def) (simp add: peer_new_def)
  then show ?thesis by (simp add: sa_def sb_def)
qed

subsection \<open>Member migration\<close>

text \<open>
  A member migration is activated only when it is complete. The active table becomes the staged
  one exactly when that has one entry for each identity of the staged members and no other, and
  either every member other than this node is connected, or this node is leaving and every member's
  address is known; then only connections to members remain and nothing is staged any more. In every
  other case the activation fails and the state is as before.
\<close>

lemma migration_activation:
  assumes "activate_member_migration st = (st', r)"
  shows "case r of
      Inl e \<Rightarrow> st' = st \<and> e \<in> {MigrationNotStaged, InvalidMigrationPeerTable, MigrationNotReady}
    | Inr peers \<Rightarrow> \<exists>members. ss_migration_members st = Some members \<and> ss_migration_members st' = None \<and>
        ss_peers st' = ss_migration_peers st \<and> peers = ss_peers st' \<and> ss_migration_peers st' = [] \<and>
        (\<lambda>p. x_only_public_key (pe_public_key p)) ` set peers = members \<and> card members = length peers \<and>
        (if x_only_public_key (ss_public_key st) \<in> members
         then \<forall>p\<in>set peers. pe_public_key p = ss_public_key st \<or> pe_status p = PeerActive
         else (\<forall>p\<in>set peers. pe_status p = PeerActive) \<or> (\<forall>p\<in>set peers. pe_socket_address p \<noteq> None)) \<and>
        bt_keys (ss_connections st') = filter (\<lambda>k. k \<in> set (table_peer_keys peers)) (bt_keys (ss_connections st))"
proof (cases "member_migration_peers st")
  case (Inl e)
  then have "e \<in> {MigrationNotStaged, InvalidMigrationPeerTable, MigrationNotReady}"
    by (auto simp: member_migration_peers_def split: if_splits)
  moreover have "st' = st" "r = Inl e" using Inl assms by (simp_all add: activate_member_migration_def)
  ultimately show ?thesis by simp
next
  case (Inr peers)
  then obtain members where m: "ss_migration_members st = Some members" and peers: "peers = ss_migration_peers st"
    and ready: "migration_ready st \<or> \<not> migration_contains st (ss_public_key st) \<and> migration_table_complete st"
    and match: "migration_peer_table_matches_members st"
    by (auto simp: member_migration_peers_def split: if_splits)
  have ids: "identities peers = members" "card members = length peers"
    using match by (auto simp: migration_peer_table_matches_members_def m peers)
  have inj: "inj_on (\<lambda>p. x_only_public_key (pe_public_key p)) (set peers)"
    using ids card_image_le [of "set peers" "\<lambda>p. x_only_public_key (pe_public_key p)"] card_length [of peers]
    by (intro eq_card_imp_inj_on) (auto simp: identities_def)
  have all: "\<forall>p\<in>set peers. P p" if "identities (filter P peers) = members" for P
  proof
    fix p assume p: "p \<in> set peers"
    then have "x_only_public_key (pe_public_key p) \<in> identities (filter P peers)"
      using ids(1) that by (auto simp: identities_def)
    then obtain q where "q \<in> set peers" "P q" "x_only_public_key (pe_public_key q) = x_only_public_key (pe_public_key p)"
      by (auto simp: identities_def)
    with inj p show "P p" by (metis inj_onD)
  qed
  have local: "migration_contains st (ss_public_key st) \<longleftrightarrow> x_only_public_key (ss_public_key st) \<in> members"
    by (simp add: migration_contains_def m)
  have active: "\<forall>p\<in>set peers. pe_public_key p = ss_public_key st \<or> pe_status p = PeerActive" if "migration_ready st"
    using that by (intro all) (simp add: migration_ready_def m peers)
  have known: "\<forall>p\<in>set peers. pe_socket_address p \<noteq> None" if "migration_table_complete st"
    using that by (intro all) (simp add: migration_table_complete_def m peers)
  have absent: "pe_public_key p \<noteq> ss_public_key st" if "x_only_public_key (ss_public_key st) \<notin> members" "p \<in> set peers" for p
  proof
    assume "pe_public_key p = ss_public_key st"
    then have "x_only_public_key (ss_public_key st) \<in> members"
      using that(2) by (force simp: identities_def simp flip: ids(1))
    with that(1) show False ..
  qed
  have "if x_only_public_key (ss_public_key st) \<in> members
         then \<forall>p\<in>set peers. pe_public_key p = ss_public_key st \<or> pe_status p = PeerActive
         else (\<forall>p\<in>set peers. pe_status p = PeerActive) \<or> (\<forall>p\<in>set peers. pe_socket_address p \<noteq> None)"
    using ready active known absent local by auto
  moreover have "bt_keys (filter (\<lambda>(k, c). P k) m) = filter P (bt_keys m)" for P and m :: "(bytes, outbound) btree"
    by (simp add: bt_keys_def filter_map comp_def case_prod_unfold)
  moreover have r: "r = Inr peers" "st' = retain_connections (\<lambda>k. k \<in> set (map pe_public_key peers))
      (st\<lparr>ss_peers := peers, ss_migration_peers := [], ss_migration_members := None\<rparr>)"
    using assms Inr by (simp_all add: activate_member_migration_def)
  ultimately show ?thesis unfolding r(1) sum.case
    by (intro exI [of _ members] conjI) (use m ids peers in \<open>simp_all add: r(2) retain_connections_def
        identities_def table_peer_keys_def\<close>)
qed

definition toy_migrating :: storm_state where
  "toy_migrating = fst (stage_members {[1], [2]}
     (fst (claim_connection toy_curve [2, 2] None toy_node)))"

lemma migration_activation_witness:
  "\<exists>st' peers. activate_member_migration toy_migrating = (st', Inr peers) \<and> table_peer_keys (ss_peers st') = [[2, 1], [2, 2]] \<and>
     (\<forall>p\<in>set peers. pe_public_key p = ss_public_key toy_migrating \<or> pe_status p = PeerActive)"
proof -
  have eq: "toy_migrating = (state_new [2, 1]
      [(peer_new [2, 1])\<lparr>pe_status := Controlled\<rparr>, (peer_new [2, 2])\<lparr>pe_status := PeerActive\<rparr>,
       (peer_new [2, 3])\<lparr>pe_status := Banned\<rparr>])\<lparr>ss_connections := [([2, 2], open_connection)],
      ss_migration_members := Some {[1], [2]},
      ss_migration_peers := [(peer_new [2, 1])\<lparr>pe_status := Controlled\<rparr>, (peer_new [2, 2])\<lparr>pe_status := PeerActive\<rparr>]\<rparr>"
    by (simp add: toy_migrating_def toy_node_eq claim_connection_def state_new_def has_key_def peer_new_def
        insert_connection_def apply_address_overrides_def override_address_def Let_def activate_peer_def
        stage_members_def migration_candidates_def peer_identities_unique_def identities_def)
  have ready: "migration_peer_table_matches_members toy_migrating" "migration_ready toy_migrating"
    by (auto simp: eq state_new_def migration_peer_table_matches_members_def migration_ready_def identities_def peer_new_def)
  have "migration_peer_identities_valid toy_migrating" "ss_migration_members toy_migrating \<noteq> None"
    by (simp_all add: eq state_new_def migration_peer_identities_valid_def identities_def peer_new_def)
  with ready have m: "member_migration_peers toy_migrating = Inr (ss_migration_peers toy_migrating)"
    by (simp add: member_migration_peers_def)
  obtain st' where a: "activate_member_migration toy_migrating = (st', Inr (ss_migration_peers toy_migrating))"
    by (simp add: activate_member_migration_def m)
  have sel: "ss_migration_members toy_migrating = Some {[1], [2]}" "ss_public_key toy_migrating = [2, 1]"
    "table_peer_keys (ss_migration_peers toy_migrating) = [[2, 1], [2, 2]]"
    by (simp_all add: eq state_new_def peer_new_def table_peer_keys_def)
  obtain members where "ss_migration_members toy_migrating = Some members"
    "ss_peers st' = ss_migration_peers toy_migrating"
    "if x_only_public_key (ss_public_key toy_migrating) \<in> members
     then \<forall>p\<in>set (ss_migration_peers toy_migrating). pe_public_key p = ss_public_key toy_migrating \<or> pe_status p = PeerActive
     else (\<forall>p\<in>set (ss_migration_peers toy_migrating). pe_status p = PeerActive) \<or>
       (\<forall>p\<in>set (ss_migration_peers toy_migrating). pe_socket_address p \<noteq> None)"
    using migration_activation [OF a] unfolding sum.case by blast
  then have "ss_peers st' = ss_migration_peers toy_migrating"
    and "\<forall>p\<in>set (ss_migration_peers toy_migrating). pe_public_key p = ss_public_key toy_migrating \<or> pe_status p = PeerActive"
    by (auto simp: sel(1,2))
  with a sel(3) show ?thesis by auto
qed

subsection \<open>Peer tables on the wire\<close>

lemma validate_entries_all:
  assumes "\<forall>(k, a)\<in>set table. se_parse_key env k = Some k \<and> socket_address_port env a \<noteq> None \<and>
      canonical_identity_key k \<notin> seen"
    and "distinct (map (\<lambda>e. canonical_identity_key (fst e)) table)"
  shows "validate_entries env seen table = Inr table"
  using assms
proof (induction table arbitrary: seen)
  case (Cons e table)
  obtain k a where e: "e = (k, a)" by (cases e)
  have "validate_entries env (insert (canonical_identity_key k) seen) table = Inr table"
  proof (rule Cons.IH)
    show "\<forall>(j, b)\<in>set table. se_parse_key env j = Some j \<and> socket_address_port env b \<noteq> None \<and>
        canonical_identity_key j \<notin> insert (canonical_identity_key k) seen"
      using Cons.prems by (force simp: e)
  qed (use Cons.prems(2) in simp)
  with Cons.prems(1) show ?case by (auto simp: e)
qed simp

text \<open>
  A peer table survives its way to another node. The table a node sends, decoded and validated by
  its receiver, is the list of the keys and addresses of its peers, provided that every address is
  valid, every key parses and no two keys are of one identity; and no node can send a table with an
  address missing.
\<close>

lemma peer_table_roundtrip:
  assumes "\<And>t bs. we_encode_table we t = Some bs \<Longrightarrow> we_decode_table we bs = Some t"
    and "table_message we now peers = Inr m" and "peers \<noteq> []"
    and "\<forall>p\<in>set peers. se_parse_key (we_env we) (pe_public_key p) = Some (pe_public_key p) \<and>
      (\<forall>a. pe_socket_address p = Some a \<longrightarrow> socket_address_port (we_env we) a \<noteq> None)"
    and "distinct (map (\<lambda>p. x_only_public_key (pe_public_key p)) peers)"
  shows "\<exists>raw. we_decode_table we (sm_payload m) = Some raw \<and> sh_payload_id (sm_header m) = PEERS_SOCKET_INFO \<and>
    validate_table (we_env we) raw = Inr (map (\<lambda>p. (pe_public_key p, the (pe_socket_address p))) peers)"
proof -
  let ?f = "\<lambda>p. case pe_socket_address p of None \<Rightarrow> Inl (AddressUnknown (pe_public_key p))
    | Some address \<Rightarrow> Inr (pe_public_key p, address)"
  obtain table payload where t: "map_res ?f peers = Inr table" "we_encode_table we table = Some payload"
    and m: "m = storm_message_now PEERS_SOCKET_INFO now payload"
    using assms(2) by (auto simp: table_message_def bind_res_eq_Inr)
  have table: "table = map (\<lambda>p. (pe_public_key p, the (pe_socket_address p))) peers"
    by (rule map_res_Inr_map [OF t(1)]) (auto split: option.splits)
  have known: "pe_socket_address p \<noteq> None" if "p \<in> set peers" for p
    using t(1) that unfolding map_res_eq_Inr by (auto simp: list_all2_conv_all_nth in_set_conv_nth split: option.splits) 
  have "distinct (map (\<lambda>e. canonical_identity_key (fst e)) table)"
    using assms(5) by (simp add: table canonical_identity_key_def comp_def distinct_map inj_on_def)
  moreover have "\<forall>(k, a)\<in>set table. se_parse_key (we_env we) k = Some k \<and> socket_address_port (we_env we) a \<noteq> None \<and>
      canonical_identity_key k \<notin> {}"
    using assms(4) known by (force simp: table)
  ultimately have "validate_entries (we_env we) {} table = Inr table" by (intro validate_entries_all)
  moreover have "table \<noteq> []" using assms(3) by (simp add: table)
  ultimately have "validate_table (we_env we) table = Inr table" by (simp add: validate_table_def)
  then show ?thesis using assms(1) [OF t(2)] table by (simp add: m storm_message_now_def)
qed

lemma peer_table_roundtrip_witness:
  "\<exists>m raw. table_message toy_wire 5 (map (\<lambda>(k, a). (peer_new k)\<lparr>pe_socket_address := Some a\<rparr>) toy_table) = Inr m \<and>
     we_decode_table toy_wire (sm_payload m) = Some raw \<and> validate_table toy_curve raw = Inr toy_table"
proof -
  let ?peers = "map (\<lambda>(k, a). (peer_new k)\<lparr>pe_socket_address := Some a\<rparr>) toy_table"
  have law: "we_encode_table toy_wire t = Some bs \<Longrightarrow> we_decode_table toy_wire bs = Some t" for t bs
    by (auto simp: toy_wire_def split: if_splits)
  obtain m where m: "table_message toy_wire 5 ?peers = Inr m"
    by (simp add: table_message_def toy_table_def peer_new_def) (simp add: toy_wire_def toy_table_def)
  have "\<exists>raw. we_decode_table toy_wire (sm_payload m) = Some raw \<and> sh_payload_id (sm_header m) = PEERS_SOCKET_INFO \<and>
    validate_table (we_env toy_wire) raw = Inr (map (\<lambda>p. (pe_public_key p, the (pe_socket_address p))) ?peers)"
    by (rule peer_table_roundtrip [OF law m]) (auto simp: toy_table_def toy_curve_def peer_new_def socket_address_port_def)
  with m show ?thesis by (auto simp: toy_table_def peer_new_def)
qed

subsection \<open>A connection that is not given back\<close>

text \<open>
  An inbound connection is claimed before the discovery table is sent, and a failure of that sending
  ends the connection without giving it back. From then on its key is connected to nothing, and every
  further connection of that peer is refused.
\<close>

lemma failed_admission_keeps_claim:
  assumes "admit_connection we now k address st = (st', Inl e)"
    and "snd (claim_connection (we_env we) k (Some address) st) = Inr ()"
  shows "(\<exists>c. bt_get (ss_connections st') k = Some c \<and> \<not> ob_open c) \<and>
    claim_connection (we_env we) k address' st' = (st', Inl PeerAlreadyConnected)"
proof -
  obtain st1 u where c: "claim_connection (we_env we) k (Some address) st = (st1, Inr u)"
    using assms(2) by (metis prod.collapse)
  then have k1: "k \<in> conn_keys st1" by (cases rule: claim_cases) simp_all
  obtain st2 v where b: "broadcast_discovery_table_if_ready we now st1 = (st2, v)" by (rule prod.exhaust)
  have st': "st' = close_connection k st2" using assms(1) c b by (auto simp: admit_connection_def split: sum.splits)
  have "conn_keys (fst (broadcast_migration_table we now st1)) = conn_keys st1"
    by (rule sent_fields(8) [OF broadcast_migration_sent])
  moreover have "conn_keys (fst (broadcast_active_table we now s)) = conn_keys s" for s
  proof -
    obtain s1 where "sent s s1" "fst (broadcast_active_table we now s) = s1 \<or> fst (broadcast_active_table we now s) =
        s1\<lparr>ss_peers := update_first (has_key (ss_public_key s)) (\<lambda>p. p\<lparr>pe_discovery := False\<rparr>) (ss_peers s1)\<rparr>"
      using broadcast_active_cases [OF prod.collapse [symmetric]] by metis
    moreover have "conn_keys (s1\<lparr>ss_peers := q\<rparr>) = conn_keys s1" for q by (simp add: conn_keys_def)
    ultimately show ?thesis using sent_fields(8) [of s s1] by auto
  qed
  ultimately have "conn_keys st2 = conn_keys st1"
    using b by (auto simp: broadcast_discovery_table_if_ready_def split: prod.splits sum.splits) (metis fst_conv)+
  then obtain c where "bt_get (ss_connections st2) k = Some c" using k1 bt_get_conn [of st2 k] by auto
  then have closed: "bt_get (ss_connections st') k = Some (c\<lparr>ob_open := False\<rparr>)"
    by (simp add: st' close_connection_def bt_get_insert)
  then show ?thesis by (simp add: claim_connection_def)
qed

end
