(* ===== verification/Db_Tables.thy ===== *)
theory Db_Tables
  imports Ordered_Map "HOL-Library.Product_Lexorder" "HOL-Library.Char_ord"
begin

text \<open>
  What the stores of the node's database share: a table is an ordered map from its primary key to
  its row, an integer column holds a signed 64-bit number, and a statement that breaks a constraint
  or leaves the range of its column fails. The overflow of a sum in a statement is the error
  PostgreSQL raises. The tables of the cursors, which two stores use, are here as well. A database
  that fails by itself is not modelled.
\<close>

datatype db_error = EncodeOutOfRange | DecodeOutOfRange | ConstraintViolation | NumericOverflow | RowNotFound

definition encode_u64 :: "u64 \<Rightarrow> db_error + int" where
  "encode_u64 v = (if uint v < 2 ^ 63 then Inr (uint v) else Inl EncodeOutOfRange)"

definition decode_u64 :: "int \<Rightarrow> db_error + u64" where
  "decode_u64 v = (if 0 \<le> v then Inr (word_of_int v) else Inl DecodeOutOfRange)"

text \<open>A number computed by a statement must fit its column.\<close>

definition fit_i64 :: "int \<Rightarrow> db_error + int" where
  "fit_i64 v = (if v < 2 ^ 63 then Inr v else Inl NumericOverflow)"

definition map_err :: "('e \<Rightarrow> 'f) \<Rightarrow> 'e + 'a \<Rightarrow> 'f + 'a" where
  "map_err f r = (case r of Inl e \<Rightarrow> Inl (f e) | Inr a \<Rightarrow> Inr a)"

lemma map_err_simps [simp]: "map_err f (Inl e) = Inl (f e)" "map_err f (Inr a) = Inr a"
  by (simp_all add: map_err_def)

lemma map_err_eq_Inr [simp]: "map_err f r = Inr a \<longleftrightarrow> r = Inr a"
  by (cases r) simp_all

lemma map_err_eq_Inl: "map_err f r = Inl e' \<longleftrightarrow> (\<exists>e. r = Inl e \<and> e' = f e)"
  by (cases r) auto

lemma encode_u64_eq_Inr: "encode_u64 v = Inr i \<longleftrightarrow> uint v < 2 ^ 63 \<and> i = uint v"
  by (auto simp: encode_u64_def)

lemma decode_u64_eq_Inr: "decode_u64 i = Inr v \<longleftrightarrow> 0 \<le> i \<and> v = word_of_int i"
  by (auto simp: decode_u64_def)

lemma fit_i64_eq_Inr [simp]: "fit_i64 i = Inr j \<longleftrightarrow> j = i \<and> i < 2 ^ 63"
  by (auto simp: fit_i64_def)

lemma uint_nonneg_word: "0 \<le> uint (v :: u64)"
  by simp

lemma uint_column: "0 \<le> i \<Longrightarrow> i < 2 ^ 63 \<Longrightarrow> uint (word_of_int i :: u64) = i"
  by (simp add: uint_word_of_int)

lemma decode_encode: "encode_u64 v = Inr i \<Longrightarrow> decode_u64 i = Inr v"
  by (auto simp: encode_u64_eq_Inr decode_u64_eq_Inr)

subsection \<open>Sums over a table\<close>

definition bt_sum :: "('v \<Rightarrow> int) \<Rightarrow> ('k, 'v) btree \<Rightarrow> int" where
  "bt_sum f m = sum_list (map (\<lambda>e. f (snd e)) m)"

lemma bt_sum_Nil [simp]: "bt_sum f [] = 0"
  by (simp add: bt_sum_def)

lemma bt_sum_Cons: "bt_sum f (e # m) = f (snd e) + bt_sum f m"
  by (simp add: bt_sum_def)

lemma bt_wf_ConsD: "bt_wf (e # m) \<Longrightarrow> bt_wf m"
  by (simp add: bt_wf_def)

lemma bt_get_above: "bt_wf ((k', v') # m) \<Longrightarrow> k < k' \<Longrightarrow> bt_get m k = None"
  by (fastforce simp: bt_wf_def bt_get_def map_of_eq_None_iff)

lemma bt_get_head: "bt_wf ((k', v') # m) \<Longrightarrow> bt_get m k' = None"
  by (fastforce simp: bt_wf_def bt_get_def map_of_eq_None_iff)

definition opt_sum :: "('v \<Rightarrow> int) \<Rightarrow> 'v option \<Rightarrow> int" where
  "opt_sum f x = (case x of None \<Rightarrow> 0 | Some v \<Rightarrow> f v)"

lemma opt_sum_simps [simp]: "opt_sum f None = 0" "opt_sum f (Some v) = f v"
  by (simp_all add: opt_sum_def)

lemma bt_sum_insert:
  "bt_wf m \<Longrightarrow> bt_sum f (bt_insert k v m) = bt_sum f m + f v - opt_sum f (bt_get m k)"
proof (induction k v m rule: bt_insert.induct)
  case (2 k v k' v' m)
  note head = bt_get_above [OF 2(2), of k] bt_wf_ConsD [OF 2(2)]
  show ?case
    using 2(1) head by (cases "k < k'"; cases "k = k'") (auto simp: bt_sum_Cons bt_get_def)
qed (simp add: bt_sum_Cons)

lemma bt_remove_absent: "bt_get m k = None \<Longrightarrow> bt_remove k m = m"
  by (induction m) (auto simp: bt_get_def bt_remove_def split: if_splits)

lemma bt_sum_remove: "bt_wf m \<Longrightarrow> bt_sum f (bt_remove k m) = bt_sum f m - opt_sum f (bt_get m k)"
proof (induction m)
  case (Cons e m)
  obtain k' v' where e: "e = (k', v')" by (cases e)
  show ?case
  proof (cases "k' = k")
    case True
    then have "bt_remove k m = m" using bt_get_head [of k' v' m] Cons.prems e by (simp add: bt_remove_absent)
    then have "bt_remove k (e # m) = m" using True e by (simp add: bt_remove_def)
    then show ?thesis using True e by (simp add: bt_sum_Cons bt_get_def)
  next
    case False
    then have "bt_remove k (e # m) = e # bt_remove k m" using e by (simp add: bt_remove_def)
    then show ?thesis
      using Cons.IH bt_wf_ConsD [OF Cons.prems] False e by (simp add: bt_sum_Cons bt_get_def)
  qed
qed (simp add: bt_remove_def)

lemma bt_sum_nonneg: "(\<And>k v. (k, v) \<in> set m \<Longrightarrow> 0 \<le> f v) \<Longrightarrow> 0 \<le> bt_sum f m"
  unfolding bt_sum_def by (rule sum_list_nonneg) auto

text \<open>A property of all rows, by key.\<close>

definition bt_all :: "('k \<Rightarrow> 'v \<Rightarrow> bool) \<Rightarrow> ('k, 'v) btree \<Rightarrow> bool" where
  "bt_all P m = (\<forall>(k, v)\<in>set m. P k v)"

lemma bt_all_Nil [simp]: "bt_all P []"
  by (simp add: bt_all_def)

lemma set_bt_insert: "set (bt_insert k v m) \<subseteq> insert (k, v) (set m)"
  by (induction k v m rule: bt_insert.induct) auto

lemma bt_all_insert: "bt_all P m \<Longrightarrow> P k v \<Longrightarrow> bt_all P (bt_insert k v m)"
  using set_bt_insert [of k v m] by (auto simp: bt_all_def)

lemma bt_all_remove: "bt_all P m \<Longrightarrow> bt_all P (bt_remove k m)"
  by (auto simp: bt_all_def bt_remove_def)

lemma bt_all_get: "bt_all P m \<Longrightarrow> bt_get m k = Some v \<Longrightarrow> P k v"
  by (auto simp: bt_all_def bt_get_def dest: map_of_SomeD)

lemma bt_all_filter: "bt_all P m \<Longrightarrow> bt_all P (filter Q m)"
  by (auto simp: bt_all_def)

lemma bt_all_mono: "bt_all P m \<Longrightarrow> (\<And>k v. P k v \<Longrightarrow> Q k v) \<Longrightarrow> bt_all Q m"
  by (auto simp: bt_all_def)

lemma bt_wf_filter: "bt_wf m \<Longrightarrow> bt_wf (filter Q m)"
  by (induction m) (auto simp: bt_wf_def)

text \<open>An \<open>UPDATE\<close> of every row that meets a condition keeps the keys.\<close>

definition bt_update :: "('k \<Rightarrow> 'v \<Rightarrow> bool) \<Rightarrow> ('v \<Rightarrow> 'v) \<Rightarrow> ('k, 'v) btree \<Rightarrow> ('k, 'v) btree" where
  "bt_update P f m = map (\<lambda>(k, v). (k, if P k v then f v else v)) m"

definition bt_affected :: "('k \<Rightarrow> 'v \<Rightarrow> bool) \<Rightarrow> ('k, 'v) btree \<Rightarrow> nat" where
  "bt_affected P m = length (filter (\<lambda>(k, v). P k v) m)"

lemma bt_keys_update [simp]: "map fst (bt_update P f m) = map fst m"
  by (auto simp: bt_update_def)

lemma bt_update_wf: "bt_wf m \<Longrightarrow> bt_wf (bt_update P f m)"
  by (simp add: bt_wf_def)

lemma bt_get_update:
  "bt_get (bt_update P f m) k = map_option (\<lambda>v. if P k v then f v else v) (bt_get m k)"
  by (induction m) (auto simp: bt_get_def bt_update_def)

lemma bt_all_update:
  "bt_all P m \<Longrightarrow> (\<And>k v. P k v \<Longrightarrow> C k v \<Longrightarrow> P k (f v)) \<Longrightarrow> bt_all P (bt_update C f m)"
  by (auto simp: bt_all_def bt_update_def)

text \<open>The same \<open>UPDATE\<close> when its condition fixes the key.\<close>

definition bt_update_key ::
  "'k::linorder \<Rightarrow> ('v \<Rightarrow> bool) \<Rightarrow> ('v \<Rightarrow> 'v) \<Rightarrow> ('k, 'v) btree \<Rightarrow> ('k, 'v) btree \<times> nat" where
  "bt_update_key k C f m =
     (case bt_get m k of
        None \<Rightarrow> (m, 0)
      | Some v \<Rightarrow> if C v then (bt_insert k (f v) m, 1) else (m, 0))"

lemma bt_update_key_cases:
  obtains (updated) v where "bt_get m k = Some v" "C v" "bt_update_key k C f m = (bt_insert k (f v) m, 1)"
  | (unchanged) "bt_update_key k C f m = (m, 0)"
  by (cases "bt_get m k"; cases "C (the (bt_get m k))") (auto simp: bt_update_key_def)

lemma bt_all_update_key:
  assumes "bt_all P m" "\<And>v. bt_get m k = Some v \<Longrightarrow> P k v \<Longrightarrow> C v \<Longrightarrow> P k (f v)"
  shows "bt_all P (fst (bt_update_key k C f m))"
  by (rule bt_update_key_cases [of m k C f])
    (use assms bt_all_get [OF assms(1)] in \<open>auto intro!: bt_all_insert\<close>)

lemma bt_wf_update_key: "bt_wf m \<Longrightarrow> bt_wf (fst (bt_update_key k C f m))"
  by (rule bt_update_key_cases [of m k C f]) (auto simp: bt_insert_wf)

subsection \<open>Indexer cursors\<close>

record indexed_block =
  ib_height :: u64
  ib_hash :: bytes

type_synonym cursor_table = "(string, indexed_block) btree"

definition record_cursor :: "string \<Rightarrow> indexed_block \<Rightarrow> cursor_table \<Rightarrow> db_error + cursor_table" where
  "record_cursor rule_set block cursors =
     bind_res (encode_u64 (ib_height block)) (\<lambda>_. Inr (bt_insert rule_set block cursors))"

definition cursor :: "string \<Rightarrow> cursor_table \<Rightarrow> indexed_block option" where
  "cursor rule_set cursors = bt_get cursors rule_set"

lemma cursor_record:
  "record_cursor rule block cursors = Inr cursors' \<Longrightarrow>
   cursor r cursors' = (if r = rule then Some block else cursor r cursors)"
  by (auto simp: record_cursor_def bind_res_eq_Inr cursor_def bt_get_insert)

subsection \<open>Sorting and removing duplicates\<close>

lemma strict_sorted_remdups_adj:
  fixes xs :: "'a::linorder list"
  shows "sorted xs \<Longrightarrow> sorted_wrt (<) (remdups_adj xs)"
proof (induction xs rule: remdups_adj.induct)
  case (3 x y xs)
  show ?case
  proof (cases "x = y")
    case False
    with 3 have "sorted_wrt (<) (remdups_adj (y # xs))" by simp
    moreover have "\<forall>z\<in>set (y # xs). x < z" using 3(3) False by fastforce
    ultimately show ?thesis using False by simp
  qed (use 3 in simp)
qed simp_all

end
