(* ===== verification/Droplet_Store.thy ===== *)
theory Droplet_Store
  imports Db_Tables
begin

text \<open>
  The Droplets ledger (\<open>db/droplet.rs\<close>): the members' balances with their deficits and exchange
  locks, the Treasury outputs of the chain that back them, and the queue of exchange requests with
  its history. An operation that runs in a database transaction returns the new tables or an error,
  and an error leaves the tables as they were.
\<close>

record droplet_row =
  dr_amount :: int
  dr_block_height :: int
  dr_locked :: bool
  dr_last_tx :: "bytes option"
  dr_exchange_amount :: int
  dr_deficit :: int

record treasury_row =
  tr_amount :: int
  tr_block_height :: int

datatype exchange_status = ExchangePending | ExchangeCompleted | ExchangeFailed

record exchange_request =
  er_member :: bytes
  er_transaction :: bytes
  er_signing_hash :: bytes
  er_requested_at :: u64
  er_status :: exchange_status
  er_completed_txid :: "bytes option"
  er_last_error :: "string option"

type_synonym outpoint = "bytes \<times> u32"
type_synonym droplet_table = "(bytes, droplet_row) btree"
type_synonym treasury_table = "(outpoint, treasury_row) btree"

record droplet_db =
  dp_droplets :: droplet_table
  dp_treasury :: treasury_table
  dp_requests :: "(bytes, exchange_request) btree"
  dp_history :: "(bytes \<times> u64 \<times> bytes, exchange_request) btree"

record treasury_transaction =
  tt_txid :: bytes
  tt_inputs :: "outpoint list"
  tt_outputs :: "(u32 \<times> u64) list"
  tt_deposit_member :: "bytes option"
  tt_exchange_member :: "bytes option"

datatype droplet_error = DropletDatabase db_error | DropletInvalid string

record droplet_balance =
  db_xonly_pubkey :: bytes
  db_amount :: u64
  db_block_height :: u64
  db_exchange_locked :: bool
  db_last_tx :: "bytes option"

record treasury_utxo =
  tu_txid :: bytes
  tu_output_index :: u32
  tu_amount :: u64

definition droplet_db_empty :: droplet_db where
  "droplet_db_empty = \<lparr>dp_droplets = [], dp_treasury = [], dp_requests = [], dp_history = []\<rparr>"

subsection \<open>Credits\<close>

text \<open>The row an insertion makes with the columns' defaults.\<close>

definition droplet_row_new :: "int \<Rightarrow> int \<Rightarrow> int \<Rightarrow> droplet_row" where
  "droplet_row_new amount height deficit =
     \<lparr>dr_amount = amount, dr_block_height = height, dr_locked = False, dr_last_tx = None,
      dr_exchange_amount = 0, dr_deficit = deficit\<rparr>"

definition credited_row :: "int \<Rightarrow> int \<Rightarrow> droplet_row \<Rightarrow> db_error + droplet_row" where
  "credited_row x height row =
     bind_res (fit_i64 (dr_amount row + (if x > dr_deficit row then x - dr_deficit row else 0))) (\<lambda>amount.
       Inr (row\<lparr>dr_amount := amount,
                dr_deficit := (if x > dr_deficit row then 0 else dr_deficit row - x),
                dr_block_height := height\<rparr>))"

definition credit :: "bytes \<Rightarrow> u64 \<Rightarrow> u64 \<Rightarrow> droplet_table \<Rightarrow> db_error + droplet_table" where
  "credit member amount height table =
     bind_res (encode_u64 amount) (\<lambda>x.
     bind_res (encode_u64 height) (\<lambda>h.
       case bt_get table member of
         None \<Rightarrow> Inr (bt_insert member (droplet_row_new x h 0) table)
       | Some row \<Rightarrow> bind_res (credited_row x h row) (\<lambda>row'. Inr (bt_insert member row' table))))"

text \<open>
  A deposit goes to the member it is tagged with, or in equal shares to all members, the first of
  them taking what the division leaves.
\<close>

fun deposit_shares :: "nat \<Rightarrow> u64 \<Rightarrow> u64 \<Rightarrow> bytes list \<Rightarrow> (bytes \<times> u64) list" where
  "deposit_shares i share remainder [] = []"
| "deposit_shares i share remainder (m # ms) =
     (m, share + (if i < unat remainder then 1 else 0)) # deposit_shares (Suc i) share remainder ms"

definition allocations :: "bytes list \<Rightarrow> bytes option \<Rightarrow> u64 \<Rightarrow> (bytes \<times> u64) list" where
  "allocations members tagged amount =
     (case (case tagged of Some m \<Rightarrow> if m \<in> set members then Some m else None | None \<Rightarrow> None) of
        Some m \<Rightarrow> [(m, amount)]
      | None \<Rightarrow>
          let n = word_of_nat (length members)
          in deposit_shares 0 (amount div n) (amount mod n) members)"

definition credit_deposit ::
  "bytes list \<Rightarrow> bytes option \<Rightarrow> u64 \<Rightarrow> u64 \<Rightarrow> droplet_table \<Rightarrow> droplet_error + droplet_table" where
  "credit_deposit members tagged amount height table =
     (if amount = 0 then Inr table
      else fold_res (\<lambda>(m, x) t. map_err DropletDatabase (credit m x height t))
             (allocations members tagged amount) table)"

subsection \<open>Blocks\<close>

fun spend_inputs :: "outpoint list \<Rightarrow> u64 \<Rightarrow> treasury_table \<Rightarrow> droplet_error + u64 \<times> treasury_table" where
  "spend_inputs [] spent treasury = Inr (spent, treasury)"
| "spend_inputs (input # inputs) spent treasury =
     (case bt_get treasury input of
        None \<Rightarrow> spend_inputs inputs spent treasury
      | Some row \<Rightarrow>
          bind_res (map_err DropletDatabase (decode_u64 (tr_amount row))) (\<lambda>amount.
          bind_res (ok_or (DropletInvalid ''Treasury input overflow'') (checked_add spent amount)) (\<lambda>spent'.
            spend_inputs inputs spent' (bt_remove input treasury))))"

definition sum_outputs :: "(u32 \<times> u64) list \<Rightarrow> u64 option" where
  "sum_outputs outputs = fold_opt (\<lambda>(_, amount) total. checked_add total amount) outputs 0"

definition insert_output ::
  "bytes \<Rightarrow> u64 \<Rightarrow> u32 \<times> u64 \<Rightarrow> treasury_table \<Rightarrow> droplet_error + treasury_table" where
  "insert_output txid height = (\<lambda>(index, amount) treasury.
     map_err DropletDatabase (bind_res (encode_u64 amount) (\<lambda>a.
     bind_res (encode_u64 height) (\<lambda>h.
       if bt_get treasury (txid, index) \<noteq> None then Inl ConstraintViolation
       else Inr (bt_insert (txid, index) \<lparr>tr_amount = a, tr_block_height = h\<rparr> treasury)))))"

definition spend_row :: "int \<Rightarrow> int \<Rightarrow> int \<Rightarrow> droplet_row option \<Rightarrow> droplet_row" where
  "spend_row amount height deficit held =
     (case held of
        None \<Rightarrow> droplet_row_new amount height deficit
      | Some row \<Rightarrow> row\<lparr>dr_amount := amount, dr_block_height := height, dr_deficit := deficit,
                       dr_locked := False, dr_last_tx := None, dr_exchange_amount := 0\<rparr>)"

definition debit ::
  "bytes \<Rightarrow> u64 \<Rightarrow> u64 \<Rightarrow> droplet_table \<Rightarrow> droplet_error + droplet_table" where
  "debit member exchanged height table =
     bind_res (map_err DropletDatabase (case bt_get table member of
         None \<Rightarrow> Inr (0, 0)
       | Some row \<Rightarrow> bind_res (decode_u64 (dr_amount row)) (\<lambda>a.
                    bind_res (decode_u64 (dr_deficit row)) (\<lambda>d. Inr (a, d))))) (\<lambda>(amount, held_deficit).
     let shortfall = sat_sub exchanged amount in
     bind_res (ok_or (DropletInvalid ''Droplets deficit overflow'') (checked_add held_deficit shortfall)) (\<lambda>deficit.
     map_err DropletDatabase (bind_res (encode_u64 (sat_sub amount exchanged)) (\<lambda>a.
     bind_res (encode_u64 height) (\<lambda>h.
     bind_res (encode_u64 deficit) (\<lambda>d.
       Inr (bt_insert member (spend_row a h d (bt_get table member)) table)))))))"

definition apply_transaction ::
  "bytes list \<Rightarrow> u64 \<Rightarrow> treasury_transaction \<Rightarrow> droplet_db \<Rightarrow> droplet_error + droplet_db" where
  "apply_transaction members height t db =
     bind_res (spend_inputs (tt_inputs t) 0 (dp_treasury db)) (\<lambda>(spent, treasury1).
     bind_res (ok_or (DropletInvalid ''Treasury output overflow'') (sum_outputs (tt_outputs t))) (\<lambda>output_amount.
     bind_res (fold_res (insert_output (tt_txid t) height) (tt_outputs t) treasury1) (\<lambda>treasury2.
       if spent = 0 then
         bind_res (credit_deposit members (tt_deposit_member t) output_amount height (dp_droplets db)) (\<lambda>droplets.
           Inr (db\<lparr>dp_treasury := treasury2, dp_droplets := droplets\<rparr>))
       else
         bind_res (ok_or (DropletInvalid ''Treasury spend has no member marker'') (tt_exchange_member t)) (\<lambda>member.
         if member \<notin> set members then Inl (DropletInvalid ''Treasury spend identifies a non-member'')
         else
           bind_res (ok_or (DropletInvalid ''Treasury spend increases Treasury value'')
                       (checked_sub spent output_amount)) (\<lambda>exchanged.
           bind_res (debit member exchanged height (dp_droplets db)) (\<lambda>droplets.
             Inr (db\<lparr>dp_treasury := treasury2, dp_droplets := droplets\<rparr>)))))))"

definition apply_ledger_block ::
  "indexed_block \<Rightarrow> treasury_transaction list \<Rightarrow> bytes list \<Rightarrow> droplet_db \<Rightarrow> droplet_error + droplet_db" where
  "apply_ledger_block block transactions members db =
     (if members = [] then Inl (DropletInvalid ''network has no members'')
      else fold_res (apply_transaction (remdups_adj (sort members)) (ib_height block)) transactions db)"

definition apply_ledger_block_at ::
  "string \<Rightarrow> indexed_block \<Rightarrow> treasury_transaction list \<Rightarrow> bytes list \<Rightarrow> droplet_db \<times> cursor_table \<Rightarrow>
   droplet_error + droplet_db \<times> cursor_table" where
  "apply_ledger_block_at rule_set block transactions members = (\<lambda>(db, cursors).
     bind_res (apply_ledger_block block transactions members db) (\<lambda>db'.
     bind_res (map_err DropletDatabase (record_cursor rule_set block cursors)) (\<lambda>cursors'.
       Inr (db', cursors'))))"

subsection \<open>Exchanges\<close>

definition lock_exchange ::
  "bytes \<Rightarrow> u64 \<Rightarrow> u64 \<Rightarrow> bytes \<Rightarrow> droplet_db \<Rightarrow> db_error + droplet_db \<times> bool" where
  "lock_exchange member amount height transaction db =
     bind_res (encode_u64 height) (\<lambda>h.
     bind_res (encode_u64 amount) (\<lambda>x.
       let (table, updated) = bt_update_key member
             (\<lambda>row. x \<le> dr_amount row \<and>
                (\<not> dr_locked row \<or> dr_last_tx row = Some transaction \<and> dr_exchange_amount row = x))
             (\<lambda>row. row\<lparr>dr_block_height := h, dr_locked := True, dr_last_tx := Some transaction,
                       dr_exchange_amount := x\<rparr>) (dp_droplets db)
       in Inr (db\<lparr>dp_droplets := table\<rparr>, updated = 1)))"

definition unlock_exchange :: "bytes \<Rightarrow> u64 \<Rightarrow> droplet_db \<Rightarrow> db_error + droplet_db" where
  "unlock_exchange member height db =
     bind_res (encode_u64 height) (\<lambda>h.
       Inr (db\<lparr>dp_droplets := fst (bt_update_key member (\<lambda>row. True)
             (\<lambda>row. row\<lparr>dr_block_height := h, dr_locked := False, dr_last_tx := None,
                       dr_exchange_amount := 0\<rparr>) (dp_droplets db))\<rparr>))"

definition update_locked_transaction :: "bytes \<Rightarrow> bytes \<Rightarrow> bytes \<Rightarrow> droplet_db \<Rightarrow> droplet_db \<times> bool" where
  "update_locked_transaction member expected transaction db =
     (let (table, updated) = bt_update_key member
            (\<lambda>row. dr_locked row \<and> dr_last_tx row = Some expected)
            (\<lambda>row. row\<lparr>dr_last_tx := Some transaction\<rparr>) (dp_droplets db)
      in (db\<lparr>dp_droplets := table\<rparr>, updated = 1))"

definition queue_exchange ::
  "bytes \<Rightarrow> bytes \<Rightarrow> bytes \<Rightarrow> u64 \<Rightarrow> droplet_db \<Rightarrow> db_error + droplet_db" where
  "queue_exchange member transaction signing_hash height db =
     bind_res (encode_u64 height) (\<lambda>_.
       let history =
         (case bt_get (dp_requests db) member of
            None \<Rightarrow> dp_history db
          | Some r \<Rightarrow>
              let k = (member, er_requested_at r, er_signing_hash r)
              in if bt_get (dp_history db) k = None then bt_insert k r (dp_history db) else dp_history db)
       in Inr (db\<lparr>dp_history := history,
            dp_requests := bt_insert member
              \<lparr>er_member = member, er_transaction = transaction, er_signing_hash = signing_hash,
               er_requested_at = height, er_status = ExchangePending, er_completed_txid = None,
               er_last_error = None\<rparr> (dp_requests db)\<rparr>))"

definition finish_exchange_request ::
  "exchange_request \<Rightarrow> exchange_status \<Rightarrow> bytes option \<Rightarrow> string option \<Rightarrow> droplet_db \<Rightarrow> droplet_db \<times> bool" where
  "finish_exchange_request request status txid error db =
     (let (table, updated) = bt_update_key (er_member request)
            (\<lambda>r. er_status r = ExchangePending \<and> er_transaction r = er_transaction request \<and>
                 er_signing_hash r = er_signing_hash request)
            (\<lambda>r. r\<lparr>er_status := status, er_completed_txid := txid, er_last_error := error\<rparr>)
            (dp_requests db)
      in (db\<lparr>dp_requests := table\<rparr>, updated = 1))"

definition complete_exchange_request :: "exchange_request \<Rightarrow> bytes \<Rightarrow> droplet_db \<Rightarrow> droplet_db \<times> bool" where
  "complete_exchange_request request txid db =
     finish_exchange_request request ExchangeCompleted (Some txid) None db"

definition fail_exchange_request :: "exchange_request \<Rightarrow> string \<Rightarrow> droplet_db \<Rightarrow> droplet_db \<times> bool" where
  "fail_exchange_request request error db =
     finish_exchange_request request ExchangeFailed None (Some error) db"

subsection \<open>Queries\<close>

definition decode_balance :: "bytes \<times> droplet_row \<Rightarrow> db_error + droplet_balance" where
  "decode_balance = (\<lambda>(key, row).
     if length key \<noteq> 32 then Inl DecodeOutOfRange
     else bind_res (decode_u64 (dr_amount row)) (\<lambda>amount.
       bind_res (decode_u64 (dr_block_height row)) (\<lambda>height.
         Inr \<lparr>db_xonly_pubkey = key, db_amount = amount, db_block_height = height,
              db_exchange_locked = dr_locked row, db_last_tx = dr_last_tx row\<rparr>)))"

definition balance :: "bytes \<Rightarrow> droplet_db \<Rightarrow> db_error + droplet_balance option" where
  "balance member db =
     (case bt_get (dp_droplets db) member of
        None \<Rightarrow> Inr None
      | Some row \<Rightarrow> bind_res (decode_balance (member, row)) (\<lambda>b. Inr (Some b)))"

definition locked :: "droplet_db \<Rightarrow> db_error + droplet_balance list" where
  "locked db = map_res decode_balance (filter (\<lambda>(_, row). dr_locked row) (dp_droplets db))"

definition treasury_utxos :: "droplet_db \<Rightarrow> db_error + treasury_utxo list" where
  "treasury_utxos db =
     map_res (\<lambda>((txid, index), row).
         if length txid \<noteq> 32 then Inl DecodeOutOfRange
         else bind_res (decode_u64 (tr_amount row)) (\<lambda>amount.
           Inr \<lparr>tu_txid = txid, tu_output_index = index, tu_amount = amount\<rparr>))
       (sort_key (\<lambda>(k, row). (tr_block_height row, k)) (dp_treasury db))"

definition exchange_request_of :: "bytes \<Rightarrow> droplet_db \<Rightarrow> exchange_request option" where
  "exchange_request_of member db = bt_get (dp_requests db) member"

definition exchange_history :: "bytes \<Rightarrow> droplet_db \<Rightarrow> exchange_request list" where
  "exchange_history member db =
     take 100 (rev (map snd (filter (\<lambda>((m, _), _). m = member) (dp_history db))))"

end
