(* ===== verification/Droplet_Claims.thy ===== *)
theory Droplet_Claims
  imports Droplet_Store
begin

text \<open>
  What the Droplets ledger keeps: every operation preserves \<open>ledger_ok\<close>, in particular a block
  applied to it keeps the balances less the deficits equal to the Treasury of the chain, and a
  deposit is shared out completely and evenly.
\<close>

subsection \<open>The invariant of the ledger\<close>

definition row_ok :: "bytes \<Rightarrow> droplet_row \<Rightarrow> bool" where
  "row_ok k row \<longleftrightarrow> 0 \<le> dr_amount row \<and> dr_amount row < 2 ^ 63 \<and> 0 \<le> dr_deficit row \<and> dr_deficit row < 2 ^ 63 \<and>
     (dr_amount row = 0 \<or> dr_deficit row = 0) \<and>
     (if dr_locked row then dr_last_tx row \<noteq> None \<and> 0 \<le> dr_exchange_amount row \<and> dr_exchange_amount row \<le> dr_amount row
      else dr_last_tx row = None \<and> dr_exchange_amount row = 0)"

definition utxo_ok :: "outpoint \<Rightarrow> treasury_row \<Rightarrow> bool" where
  "utxo_ok k row \<longleftrightarrow> 0 \<le> tr_amount row \<and> tr_amount row < 2 ^ 63"

definition table_ok :: "droplet_table \<Rightarrow> bool" where
  "table_ok t \<longleftrightarrow> bt_wf t \<and> bt_all row_ok t"

definition treasury_ok :: "treasury_table \<Rightarrow> bool" where
  "treasury_ok t \<longleftrightarrow> bt_wf t \<and> bt_all utxo_ok t"

definition ledger_net :: "droplet_table \<Rightarrow> int" where
  "ledger_net t = bt_sum (\<lambda>row. dr_amount row - dr_deficit row) t"

definition treasury_total :: "treasury_table \<Rightarrow> int" where
  "treasury_total t = bt_sum tr_amount t"

definition ledger_ok :: "droplet_db \<Rightarrow> bool" where
  "ledger_ok db \<longleftrightarrow> table_ok (dp_droplets db) \<and> treasury_ok (dp_treasury db)"

lemma table_ok_get: "table_ok t \<Longrightarrow> bt_get t m = Some row \<Longrightarrow> row_ok m row"
  unfolding table_ok_def by (blast intro: bt_all_get)

lemma table_ok_insert: "table_ok t \<Longrightarrow> row_ok m row \<Longrightarrow> table_ok (bt_insert m row t)"
  by (simp add: table_ok_def bt_insert_wf bt_all_insert)

lemma table_ok_update_key:
  "table_ok t \<Longrightarrow> (\<And>row. row_ok m row \<Longrightarrow> C row \<Longrightarrow> row_ok m (f row)) \<Longrightarrow>
   table_ok (fst (bt_update_key m C f t))"
  by (simp add: table_ok_def bt_wf_update_key bt_all_update_key)

lemma ledger_net_insert:
  "table_ok t \<Longrightarrow> ledger_net (bt_insert m row t) =
     ledger_net t + (dr_amount row - dr_deficit row) - opt_sum (\<lambda>row. dr_amount row - dr_deficit row) (bt_get t m)"
  by (simp add: ledger_net_def table_ok_def bt_sum_insert)

lemma ledger_net_update_key:
  assumes "table_ok t" "\<And>row. dr_amount (f row) = dr_amount row \<and> dr_deficit (f row) = dr_deficit row"
  shows "ledger_net (fst (bt_update_key m C f t)) = ledger_net t"
  by (rule bt_update_key_cases [of t m C f]) (simp_all add: ledger_net_insert assms)

lemma ledger_ok_empty: "ledger_ok droplet_db_empty"
  by (simp add: ledger_ok_def table_ok_def treasury_ok_def droplet_db_empty_def)

subsection \<open>Credits\<close>

lemma credit_ok:
  assumes "credit m x h t = Inr t'" "table_ok t"
  shows "table_ok t'" and "ledger_net t' = ledger_net t + uint x"
proof -
  from assms(1) have x: "uint x < 2 ^ 63"
    by (auto simp: credit_def bind_res_eq_Inr encode_u64_eq_Inr)
  have "table_ok t' \<and> ledger_net t' = ledger_net t + uint x"
  proof (cases "bt_get t m")
    case None
    with assms(1) have "t' = bt_insert m (droplet_row_new (uint x) (uint h) 0) t"
      by (auto simp: credit_def bind_res_eq_Inr encode_u64_eq_Inr)
    with None assms(2) x show ?thesis
      by (simp add: table_ok_insert ledger_net_insert row_ok_def droplet_row_new_def)
  next
    case (Some row)
    with assms(1) obtain row' where row': "credited_row (uint x) (uint h) row = Inr row'"
      and t': "t' = bt_insert m row' t"
      by (auto simp: credit_def bind_res_eq_Inr encode_u64_eq_Inr)
    have ok: "row_ok m row" using table_ok_get [OF assms(2) Some] .
    obtain y where y: "uint x = y" "0 \<le> y" "y < 2 ^ 63" using x by simp
    from row' [unfolded y(1)] have "row_ok m row'" and "dr_amount row' - dr_deficit row' = dr_amount row - dr_deficit row + y"
      using ok y(2,3) by (auto simp: credited_row_def bind_res_eq_Inr row_ok_def split: if_splits)
    with t' assms(2) Some y(1) show ?thesis by (simp add: table_ok_insert ledger_net_insert)
  qed
  then show "table_ok t'" and "ledger_net t' = ledger_net t + uint x" by simp_all
qed

lemma credits_ok:
  assumes "fold_res (\<lambda>(m, x) t. map_err DropletDatabase (credit m x h t)) as t = Inr t'" "table_ok t"
  shows "table_ok t' \<and> ledger_net t' = ledger_net t + sum_list (map (\<lambda>a. uint (snd a)) as)"
  using assms
proof (induction as arbitrary: t)
  case (Cons a as)
  obtain m x where a: "a = (m, x)" by (cases a)
  with Cons.prems(1) obtain u where u: "credit m x h t = Inr u"
    and rest: "fold_res (\<lambda>(m, x) t. map_err DropletDatabase (credit m x h t)) as u = Inr t'"
    by (auto simp: bind_res_eq_Inr)
  from Cons.IH [OF rest credit_ok(1) [OF u Cons.prems(2)]] credit_ok(2) [OF u Cons.prems(2)] a
  show ?case by simp
qed simp

text \<open>The shares of a deposit differ by at most one and add up to it.\<close>

lemma length_deposit_shares [simp]: "length (deposit_shares i s r ms) = length ms"
  by (induction ms arbitrary: i) simp_all

lemma map_fst_deposit_shares [simp]: "map fst (deposit_shares i s r ms) = ms"
  by (induction ms arbitrary: i) simp_all

lemma unat_add_one_less: "unat (s :: u64) + 1 < 2 ^ 64 \<Longrightarrow> unat (s + 1) = unat s + 1"
  by (simp add: unat_word_ariths)

lemma deposit_shares_sum:
  assumes "unat s + 1 < 2 ^ 64"
  shows "sum_list (map (\<lambda>a. unat (snd a)) (deposit_shares i s r ms)) =
    length ms * unat s + (min (i + length ms) (unat r) - min i (unat r))"
proof (induction ms arbitrary: i)
  case (Cons m ms)
  have "min (Suc i + k) r - min (Suc i) r + (if i < r then 1 else 0) = min (i + Suc k) r - min i r" for k r :: nat
    by (auto simp: min_def)
  then show ?case
    using unat_add_one_less [OF assms] Cons.IH [of "Suc i"] by (auto simp flip: add.assoc split: if_splits) 
qed simp

lemma deposit_shares_even:
  assumes "unat s + 1 < 2 ^ 64" "a \<in> set (deposit_shares i s r ms)"
  shows "unat (snd a) = unat s \<or> unat (snd a) = unat s + 1"
  using assms(2) unat_add_one_less [OF assms(1)]
  by (induction ms arbitrary: i) (auto split: if_splits)

lemma deposit_shares_zero: "(m, x) \<in> set (deposit_shares i s 0 ms) \<Longrightarrow> x = s"
  by (induction ms arbitrary: i) auto

lemma share_not_maximal:
  assumes "2 \<le> unat n"
  shows "unat (amount div n :: u64) + 1 < 2 ^ 64"
proof -
  have "unat (amount div n) = unat amount div unat n" by (simp add: unat_div)
  also have "\<dots> \<le> unat amount div 2" using assms by (rule div_le_mono2 [rotated]) simp
  finally show ?thesis using unat_u64_bound [of amount] by simp
qed

lemma allocations_total:
  assumes "members \<noteq> []" "length members < 2 ^ 63"
  shows "sum_list (map (\<lambda>a. uint (snd a)) (allocations members tagged amount)) = uint amount"
proof -
  define n :: u64 where "n = word_of_nat (length members)"
  have n: "unat n = length members" "0 < unat n"
    using assms unfolding n_def by (simp_all add: unat_of_nat)
  let ?shares = "deposit_shares 0 (amount div n) (amount mod n) members"
  have "sum_list (map (\<lambda>a. unat (snd a)) ?shares) = unat amount"
  proof (cases "length members = 1")
    case True
    then obtain m where m: "members = [m]" by (cases members) auto
    then have "n = 1" using n(1) by (simp add: word_unat_eq_iff)
    with m show ?thesis by simp
  next
    case False
    with assms(1) have two: "2 \<le> unat n" using n(1) by (cases members) (auto simp: Suc_le_eq)
    have "unat (amount mod n) < length members" using n by (simp add: unat_mod)
    then have "min (length members) (unat (amount mod n)) = unat (amount mod n)" by simp
    then show ?thesis
      using deposit_shares_sum [OF share_not_maximal [OF two], where i = 0 and ms = members]
      by (simp add: unat_div unat_mod n(1))
  qed
  moreover have "sum_list (map (\<lambda>a. uint (snd a)) as) = int (sum_list (map (\<lambda>a. unat (snd a)) as))"
    for as :: "(bytes \<times> u64) list" by (induction as) simp_all
  ultimately have "sum_list (map (\<lambda>a. uint (snd a)) ?shares) = uint amount" by simp
  then show ?thesis
    by (auto simp: allocations_def n_def Let_def split: option.splits)
qed

lemma credit_deposit_ok:
  assumes "credit_deposit members tagged amount h t = Inr t'" "table_ok t"
    and "members \<noteq> []" "length members < 2 ^ 63"
  shows "table_ok t' \<and> ledger_net t' = ledger_net t + uint amount"
proof (cases "amount = 0")
  case False
  with assms(1) have "fold_res (\<lambda>(m, x) t. map_err DropletDatabase (credit m x h t))
      (allocations members tagged amount) t = Inr t'"
    by (simp add: credit_deposit_def)
  from credits_ok [OF this assms(2)] show ?thesis using allocations_total [OF assms(3,4)] by simp
qed (use assms in \<open>simp add: credit_deposit_def\<close>)

subsection \<open>Blocks\<close>

lemma treasury_ok_get: "treasury_ok t \<Longrightarrow> bt_get t k = Some row \<Longrightarrow> utxo_ok k row"
  unfolding treasury_ok_def by (blast intro: bt_all_get)

lemma spend_inputs_ok:
  assumes "spend_inputs inputs spent t = Inr (spent', t')" "treasury_ok t"
  shows "treasury_ok t' \<and> treasury_total t' + uint spent' = treasury_total t + uint spent"
  using assms
proof (induction inputs arbitrary: spent t)
  case (Cons input inputs)
  show ?case
  proof (cases "bt_get t input")
    case None
    with Cons show ?thesis by simp
  next
    case (Some row)
    have row: "0 \<le> tr_amount row" "tr_amount row < 2 ^ 63"
      using treasury_ok_get [OF Cons.prems(2) Some] by (simp_all add: utxo_ok_def)
    from Cons.prems(1) Some obtain s where s: "checked_add spent (word_of_int (tr_amount row)) = Some s"
      and rest: "spend_inputs inputs s (bt_remove input t) = Inr (spent', t')"
      by (auto simp: bind_res_eq_Inr decode_u64_eq_Inr)
    have "uint s = uint spent + tr_amount row"
    proof -
      have "unat s = unat spent + unat (word_of_int (tr_amount row) :: u64)"
        using s by (simp add: checked_add_Some_iff)
      then have "int (unat s) = int (unat spent) + int (unat (word_of_int (tr_amount row) :: u64))" by simp
      then show ?thesis using uint_column [OF row] by simp
    qed
    moreover have "treasury_ok (bt_remove input t)"
      using Cons.prems(2) by (simp add: treasury_ok_def bt_remove_wf bt_all_remove)
    moreover have "treasury_total (bt_remove input t) = treasury_total t - tr_amount row"
      using Cons.prems(2) Some by (simp add: treasury_total_def treasury_ok_def bt_sum_remove)
    ultimately show ?thesis using Cons.IH [OF rest] by simp
  qed
qed simp

lemma insert_output_ok:
  assumes "insert_output txid h out t = Inr t'" "treasury_ok t"
  shows "treasury_ok t' \<and> treasury_total t' = treasury_total t + uint (snd out)"
proof -
  obtain index amount where out: "out = (index, amount)" by (cases out)
  from assms(1) out have a: "uint amount < 2 ^ 63" "bt_get t (txid, index) = None"
    and t': "t' = bt_insert (txid, index) \<lparr>tr_amount = uint amount, tr_block_height = uint h\<rparr> t"
    by (auto simp: insert_output_def bind_res_eq_Inr encode_u64_eq_Inr split: if_splits)
  have "utxo_ok (txid, index) \<lparr>tr_amount = uint amount, tr_block_height = uint h\<rparr>"
    using a(1) by (simp add: utxo_ok_def)
  then have "treasury_ok t'"
    using assms(2) t' by (simp add: treasury_ok_def bt_insert_wf bt_all_insert)
  moreover have "treasury_total t' = treasury_total t + uint amount"
    using assms(2) t' a(2) by (simp add: treasury_total_def treasury_ok_def bt_sum_insert)
  ultimately show ?thesis using out by simp
qed

lemma insert_outputs_ok:
  assumes "fold_res (insert_output txid h) outs t = Inr t'" "treasury_ok t"
  shows "treasury_ok t' \<and> treasury_total t' = treasury_total t + sum_list (map (\<lambda>o'. uint (snd o')) outs)"
  using assms
proof (induction outs arbitrary: t)
  case (Cons out outs)
  from Cons.prems(1) obtain u where u: "insert_output txid h out t = Inr u"
    "fold_res (insert_output txid h) outs u = Inr t'"
    by (auto simp: bind_res_eq_Inr)
  from insert_output_ok [OF u(1) Cons.prems(2)] Cons.IH [OF u(2)] show ?case by simp
qed simp

lemma sum_outputs_total:
  assumes "sum_outputs outs = Some out_total"
  shows "uint out_total = sum_list (map (\<lambda>o'. uint (snd o')) outs)"
proof -
  have "fold_opt (\<lambda>(_, amount) total. checked_add total amount) outs acc = Some out_total \<Longrightarrow>
      uint out_total = uint acc + sum_list (map (\<lambda>o'. uint (snd o')) outs)" for acc
  proof (induction outs arbitrary: acc)
    case (Cons out outs)
    obtain i x where out: "out = (i, x)" by (cases out)
    with Cons.prems obtain s where s: "checked_add acc x = Some s"
      "fold_opt (\<lambda>(_, amount) total. checked_add total amount) outs s = Some out_total"
      by (auto split: option.splits)
    have "int (unat s) = int (unat acc) + int (unat x)"
      using s(1) by (simp add: checked_add_Some_iff)
    with Cons.IH [OF s(2)] out show ?case by simp
  qed simp
  from this [of 0] assms show ?thesis by (simp add: sum_outputs_def)
qed

lemma int_diff_max: "int (x - y) = max 0 (int x - int y)"
  by arith

lemma debit_ok:
  assumes "debit m exchanged h t = Inr t'" "table_ok t"
  shows "table_ok t'" and "ledger_net t' = ledger_net t - uint exchanged"
    and "\<exists>row. t' = bt_insert m row t \<and> \<not> dr_locked row"
proof -
  define a d :: u64 where "a = (case bt_get t m of None \<Rightarrow> 0 | Some row \<Rightarrow> word_of_int (dr_amount row))"
    and "d = (case bt_get t m of None \<Rightarrow> 0 | Some row \<Rightarrow> word_of_int (dr_deficit row))"
  from assms(1) obtain deficit where deficit: "checked_add d (sat_sub exchanged a) = Some deficit"
    and bounds: "uint (sat_sub a exchanged) < 2 ^ 63" "uint deficit < 2 ^ 63"
    and t': "t' = bt_insert m (spend_row (uint (sat_sub a exchanged)) (uint h) (uint deficit) (bt_get t m)) t"
    unfolding a_def d_def
    by (cases "bt_get t m") (auto simp: debit_def Let_def bind_res_eq_Inr decode_u64_eq_Inr encode_u64_eq_Inr)
  obtain row where row: "row = spend_row (uint (sat_sub a exchanged)) (uint h) (uint deficit) (bt_get t m)"
    by blast
  have ad: "uint a - uint d = opt_sum (\<lambda>row. dr_amount row - dr_deficit row) (bt_get t m)"
    and one: "uint a = 0 \<or> uint d = 0"
    using table_ok_get [OF assms(2), of m]
    by (auto simp: a_def d_def row_ok_def uint_column split: option.splits)
  have "int (unat deficit) = int (unat d) + int (unat exchanged - unat a)"
    using deficit by (simp add: checked_add_Some_iff unat_sat_sub)
  then have def': "uint deficit = uint d + max 0 (uint exchanged - uint a)"
    by (simp add: int_diff_max)
  have "int (unat (sat_sub a exchanged)) = max 0 (uint a - uint exchanged)"
    by (simp add: unat_sat_sub int_diff_max)
  then have am': "uint (sat_sub a exchanged) = max 0 (uint a - uint exchanged)" by simp
  have fields: "dr_amount row = uint (sat_sub a exchanged)" "dr_deficit row = uint deficit"
    "\<not> dr_locked row" "dr_last_tx row = None" "dr_exchange_amount row = 0"
    by (simp_all add: row spend_row_def droplet_row_new_def split: option.splits)
  have "uint (sat_sub a exchanged) = 0 \<or> uint deficit = 0"
    using one am' def' by (auto simp: max_def)
  then have "row_ok m row"
    using bounds by (simp add: row_ok_def fields)
  then show "table_ok t'" using assms(2) t' by (simp add: table_ok_insert row)
  have "dr_amount row - dr_deficit row = uint a - uint d - uint exchanged"
    using am' def' by (simp add: fields max_def)
  then show "ledger_net t' = ledger_net t - uint exchanged"
    using ledger_net_insert [OF assms(2)] t' ad by (simp add: row)
  show "\<exists>row. t' = bt_insert m row t \<and> \<not> dr_locked row" using t' fields(3) row by blast
qed

lemma apply_transaction_ok:
  assumes "apply_transaction members h tx db = Inr db'" "ledger_ok db"
    and "members \<noteq> []" "length members < 2 ^ 63"
  shows "ledger_ok db'" and "ledger_net (dp_droplets db') - treasury_total (dp_treasury db') =
    ledger_net (dp_droplets db) - treasury_total (dp_treasury db)"
proof -
  from assms(1) obtain spent treasury1 out_total treasury2 where
    s: "spend_inputs (tt_inputs tx) 0 (dp_treasury db) = Inr (spent, treasury1)"
    and o: "sum_outputs (tt_outputs tx) = Some out_total"
    and i: "fold_res (insert_output (tt_txid tx) h) (tt_outputs tx) treasury1 = Inr treasury2"
    by (auto simp: apply_transaction_def bind_res_eq_Inr split: prod.splits)
  have treasury: "treasury_ok (dp_treasury db)" and table: "table_ok (dp_droplets db)"
    using assms(2) by (simp_all add: ledger_ok_def)
  note S = spend_inputs_ok [OF s treasury]
  note I = insert_outputs_ok [OF i conjunct1 [OF S]]
  have total2: "treasury_total treasury2 = treasury_total (dp_treasury db) - uint spent + uint out_total"
    using S I sum_outputs_total [OF o] by simp
  have "ledger_ok db' \<and> ledger_net (dp_droplets db') - treasury_total (dp_treasury db') =
    ledger_net (dp_droplets db) - treasury_total (dp_treasury db)"
  proof (cases "spent = 0")
    case True
    with assms(1) s o i obtain droplets where
      c: "credit_deposit members (tt_deposit_member tx) out_total h (dp_droplets db) = Inr droplets"
      and db': "db' = db\<lparr>dp_treasury := treasury2, dp_droplets := droplets\<rparr>"
      by (auto simp: apply_transaction_def bind_res_eq_Inr)
    from credit_deposit_ok [OF c table assms(3,4)] total2 I db' True show ?thesis
      by (simp add: ledger_ok_def)
  next
    case False
    with assms(1) s o i obtain member exchanged droplets where
      e: "checked_sub spent out_total = Some exchanged"
      and d: "debit member exchanged h (dp_droplets db) = Inr droplets"
      and db': "db' = db\<lparr>dp_treasury := treasury2, dp_droplets := droplets\<rparr>"
      by (auto simp: apply_transaction_def bind_res_eq_Inr split: if_splits)
    have "uint exchanged = uint spent - uint out_total"
    proof -
      from e have "unat out_total \<le> unat spent" "unat exchanged = unat spent - unat out_total"
        by (simp_all add: checked_sub_Some_iff)
      then have "int (unat exchanged) = int (unat spent) - int (unat out_total)" by linarith
      then show ?thesis by simp
    qed
    with debit_ok(1,2) [OF d table] total2 I db' show ?thesis by (simp add: ledger_ok_def)
  qed
  then show "ledger_ok db'" and "ledger_net (dp_droplets db') - treasury_total (dp_treasury db') =
    ledger_net (dp_droplets db) - treasury_total (dp_treasury db)" by blast+
qed

lemma sorted_members:
  assumes "members \<noteq> []"
  shows "remdups_adj (sort members) \<noteq> []" and "length (remdups_adj (sort members)) \<le> length members"
    and "set (remdups_adj (sort members)) = set members" and "distinct (remdups_adj (sort members))"
proof -
  have "set (remdups_adj (sort members)) \<noteq> {}" using assms by simp
  then show "remdups_adj (sort members) \<noteq> []" by force
  show "length (remdups_adj (sort members)) \<le> length members"
    using remdups_adj_length [of "sort members"] by simp
  show "distinct (remdups_adj (sort members))" using strict_sorted_remdups_adj [of "sort members"] by (simp add: strict_sorted_iff)
qed simp

definition ledger_balanced :: "droplet_db \<Rightarrow> bool" where
  "ledger_balanced db \<longleftrightarrow> ledger_ok db \<and> ledger_net (dp_droplets db) = treasury_total (dp_treasury db)"

lemma apply_ledger_block_balanced:
  assumes "apply_ledger_block block txs members db = Inr db'" "ledger_balanced db" "length members < 2 ^ 63"
  shows "ledger_balanced db'"
proof (cases "members = []")
  case False
  note M = sorted_members [OF False]
  have "fold_res (apply_transaction (remdups_adj (sort members)) (ib_height block)) txs db = Inr db'"
    using assms(1) False by (simp add: apply_ledger_block_def)
  then show ?thesis
  proof (rule fold_res_invariant [where I = ledger_balanced])
    show "ledger_balanced db" by (rule assms(2))
  next
    fix tx s s'
    assume "ledger_balanced s" and "apply_transaction (remdups_adj (sort members)) (ib_height block) tx s = Inr s'"
    moreover have "length (remdups_adj (sort members)) < 2 ^ 63" using M(2) assms(3) by simp
    ultimately show "ledger_balanced s'"
      using apply_transaction_ok [of _ _ tx s s'] M(1) by (simp add: ledger_balanced_def)
  qed
qed (use assms in \<open>simp add: apply_ledger_block_def\<close>)

subsection \<open>Exchanges\<close>

lemma ledger_balanced_update:
  assumes "ledger_balanced db" "dp_treasury db' = dp_treasury db"
    and "dp_droplets db' = fst (bt_update_key m C f (dp_droplets db))"
    and "\<And>row. dr_amount (f row) = dr_amount row \<and> dr_deficit (f row) = dr_deficit row"
    and "\<And>row. row_ok m row \<Longrightarrow> C row \<Longrightarrow> row_ok m (f row)"
  shows "ledger_balanced db'"
  using assms(1) table_ok_update_key [OF _ assms(5)] ledger_net_update_key [OF _ assms(4)]
  by (simp add: ledger_balanced_def ledger_ok_def assms(2,3))

lemma lock_exchange_balanced:
  assumes "lock_exchange m x h tx db = Inr (db', r)" "ledger_balanced db"
  shows "ledger_balanced db'"
proof -
  obtain xi hi where enc: "encode_u64 x = Inr xi" "encode_u64 h = Inr hi"
    using assms(1) by (auto simp: lock_exchange_def bind_res_eq_Inr)
  have "0 \<le> xi" using enc(1) by (auto simp: encode_u64_eq_Inr)
  let ?C = "\<lambda>row. xi \<le> dr_amount row \<and> (\<not> dr_locked row \<or> dr_last_tx row = Some tx \<and> dr_exchange_amount row = xi)"
  let ?f = "\<lambda>row. row\<lparr>dr_block_height := hi, dr_locked := True, dr_last_tx := Some tx, dr_exchange_amount := xi\<rparr>"
  have "dp_treasury db' = dp_treasury db" "dp_droplets db' = fst (bt_update_key m ?C ?f (dp_droplets db))"
    using assms(1) enc by (auto simp: lock_exchange_def split: prod.splits)
  from ledger_balanced_update [OF assms(2) this] show ?thesis
    using \<open>0 \<le> xi\<close> by (simp add: row_ok_def)
qed

lemma unlock_exchange_balanced:
  assumes "unlock_exchange m h db = Inr db'" "ledger_balanced db"
  shows "ledger_balanced db'"
proof -
  obtain hi where enc: "encode_u64 h = Inr hi"
    using assms(1) by (auto simp: unlock_exchange_def bind_res_eq_Inr)
  let ?f = "\<lambda>row. row\<lparr>dr_block_height := hi, dr_locked := False, dr_last_tx := None, dr_exchange_amount := 0\<rparr>"
  have "dp_treasury db' = dp_treasury db" "dp_droplets db' = fst (bt_update_key m (\<lambda>row. True) ?f (dp_droplets db))"
    using assms(1) enc by (auto simp: unlock_exchange_def)
  from ledger_balanced_update [OF assms(2) this] show ?thesis by (simp add: row_ok_def split: if_splits)
qed

lemma update_locked_transaction_balanced:
  assumes "ledger_balanced db"
  shows "ledger_balanced (fst (update_locked_transaction m expected tx db))"
proof -
  let ?C = "\<lambda>row. dr_locked row \<and> dr_last_tx row = Some expected"
  let ?f = "\<lambda>row. row\<lparr>dr_last_tx := Some tx\<rparr>"
  have "dp_treasury (fst (update_locked_transaction m expected tx db)) = dp_treasury db"
    "dp_droplets (fst (update_locked_transaction m expected tx db)) = fst (bt_update_key m ?C ?f (dp_droplets db))"
    by (auto simp: update_locked_transaction_def split: prod.splits)
  from ledger_balanced_update [OF assms this] show ?thesis by (simp add: row_ok_def)
qed

lemma ledger_balanced_requests:
  "dp_droplets db' = dp_droplets db \<Longrightarrow> dp_treasury db' = dp_treasury db \<Longrightarrow>
   ledger_balanced db' \<longleftrightarrow> ledger_balanced db"
  by (simp add: ledger_balanced_def ledger_ok_def)

text \<open>The steps of the stored ledger; a refused or failed statement leaves it unchanged.\<close>

inductive ledger_step :: "droplet_db \<Rightarrow> droplet_db \<Rightarrow> bool" where
  block: "apply_ledger_block block txs members db = Inr db' \<Longrightarrow> length members < 2 ^ 63 \<Longrightarrow> ledger_step db db'"
| lock: "lock_exchange m x h tx db = Inr (db', r) \<Longrightarrow> ledger_step db db'"
| unlock: "unlock_exchange m h db = Inr db' \<Longrightarrow> ledger_step db db'"
| update: "update_locked_transaction m expected tx db = (db', r) \<Longrightarrow> ledger_step db db'"
| queue: "queue_exchange m tx hash h db = Inr db' \<Longrightarrow> ledger_step db db'"
| finish: "finish_exchange_request req status txid err db = (db', r) \<Longrightarrow> ledger_step db db'"

inductive_cases ledger_stepE: "ledger_step db db'"

inductive ledger_run :: "droplet_db \<Rightarrow> droplet_db \<Rightarrow> bool" where
  refl: "ledger_run db db"
| step: "ledger_run db db1 \<Longrightarrow> ledger_step db1 db2 \<Longrightarrow> ledger_run db db2"

lemma ledger_step_balanced: "ledger_step db db' \<Longrightarrow> ledger_balanced db \<Longrightarrow> ledger_balanced db'"
proof (induction rule: ledger_step.induct)
  case (update m expected tx db db' r)
  then show ?case using update_locked_transaction_balanced [of db m expected tx] by simp
next
  case (queue m tx hash h db db')
  then show ?case
    using ledger_balanced_requests [of db' db] by (auto simp: queue_exchange_def bind_res_eq_Inr Let_def)
next
  case (finish req status txid err db db' r)
  then show ?case
    using ledger_balanced_requests [of db' db] by (auto simp: finish_exchange_request_def split: prod.splits)
qed (blast intro: apply_ledger_block_balanced lock_exchange_balanced unlock_exchange_balanced)+

lemma ledger_run_balanced: "ledger_run db db' \<Longrightarrow> ledger_balanced db \<Longrightarrow> ledger_balanced db'"
  by (induction rule: ledger_run.induct) (blast intro: ledger_step_balanced)+

subsection \<open>What a member owns\<close>

definition member_net :: "droplet_table \<Rightarrow> bytes \<Rightarrow> int" where
  "member_net t m = opt_sum (\<lambda>row. dr_amount row - dr_deficit row) (bt_get t m)"

lemma credit_member_net:
  assumes "credit m x h t = Inr t'"
  shows "member_net t' k = member_net t k + (if k = m then uint x else 0)"
proof (cases "bt_get t m")
  case None
  with assms show ?thesis
    by (auto simp: credit_def bind_res_eq_Inr encode_u64_eq_Inr member_net_def bt_get_insert droplet_row_new_def)
next
  case (Some row)
  with assms obtain row' where "credited_row (uint x) (uint h) row = Inr row'" "t' = bt_insert m row' t"
    by (auto simp: credit_def bind_res_eq_Inr encode_u64_eq_Inr)
  with Some show ?thesis
    by (auto simp: credited_row_def bind_res_eq_Inr member_net_def bt_get_insert)
qed

lemma credits_member_net:
  "fold_res (\<lambda>(m, x) t. map_err DropletDatabase (credit m x h t)) as t = Inr t' \<Longrightarrow>
   member_net t' k = member_net t k + sum_list (map (\<lambda>(m, x). if k = m then uint x else 0) as)"
proof (induction as arbitrary: t)
  case (Cons a as)
  obtain m x where a: "a = (m, x)" by (cases a)
  with Cons.prems obtain u where "credit m x h t = Inr u"
    "fold_res (\<lambda>(m, x) t. map_err DropletDatabase (credit m x h t)) as u = Inr t'"
    by (auto simp: bind_res_eq_Inr)
  with Cons.IH [of u] credit_member_net [of m x h t u k] a show ?case by simp
qed simp

lemma sum_list_at_key:
  "distinct (map fst as) \<Longrightarrow> (k, x) \<in> set as \<Longrightarrow>
   sum_list (map (\<lambda>(m, x). if k = m then uint x else 0) as) = uint (x :: u64)"
proof (induction as)
  case (Cons a as)
  have none: "sum_list (map (\<lambda>(m, x). if k = m then uint x else 0) as) = 0" if "k \<notin> fst ` set as"
    using that by (induction as) auto
  show ?case using Cons none by (cases a) (force split: if_splits)
qed simp

lemma sum_list_no_key:
  "k \<notin> fst ` set as \<Longrightarrow> sum_list (map (\<lambda>(m, x :: u64). if k = m then uint x else 0) as) = 0"
  by (induction as) auto

lemma sum_list_zero_amounts:
  "\<forall>(m, x)\<in>set as. x = 0 \<Longrightarrow> sum_list (map (\<lambda>(m, x :: u64). if k = m then uint x else 0) as) = 0"
  by (induction as) auto

lemma deposit_share_of:
  assumes "length members < 2 ^ 63" "k \<in> set members"
  shows "\<exists>x. (k, x) \<in> set (deposit_shares 0 (amount div word_of_nat (length members))
      (amount mod word_of_nat (length members)) members) \<and>
    (unat x = unat amount div length members \<or>
     unat x = unat amount div length members + 1 \<and> unat amount mod length members \<noteq> 0)"
proof -
  define n :: u64 where "n = word_of_nat (length members)"
  have n1: "unat n = length members" using assms(1) unfolding n_def by (simp add: unat_of_nat)
  moreover have "0 < length members" using assms(2) by (rule length_pos_if_in_set)
  ultimately have n: "unat n = length members" "0 < unat n" by simp_all
  let ?as = "deposit_shares 0 (amount div n) (amount mod n) members"
  have "k \<in> set (map fst ?as)" using assms(2) by simp
  then have "k \<in> fst ` set ?as" by (simp only: set_map)
  then obtain a where a: "a \<in> set ?as" "k = fst a" by blast
  define x where "x = snd a"
  have x: "(k, x) \<in> set ?as" using a by (simp add: x_def)
  show ?thesis
  proof (cases "amount mod n = 0")
    case True
    with x have "x = amount div n" by (simp add: deposit_shares_zero)
    with x n(1) show ?thesis unfolding n_def by (auto simp: unat_div)
  next
    case False
    have "2 \<le> unat n"
    proof (rule ccontr)
      assume "\<not> 2 \<le> unat n"
      then have "n = 1" using n(2) by (simp add: word_unat_eq_iff)
      with False show False by simp
    qed
    moreover have "unat (amount mod n) \<noteq> 0" using False by (simp add: unat_eq_zero)
    ultimately show ?thesis
      using deposit_shares_even [OF share_not_maximal x] x n(1)
      unfolding n_def by (auto simp: unat_div unat_mod)
  qed
qed

subsection \<open>The properties\<close>

text \<open>
  C21: the Droplets of the members are backed by the Treasury. In every state the ledger reaches from
  the empty one, by blocks, locks, releases and requests in any order, the balances less the deficits
  add up to the Treasury outputs that are unspent on the chain, nobody has both a balance and a
  deficit, and an amount locked for an exchange is within its owner's balance.
\<close>

theorem ledger_backed:
  assumes "ledger_run droplet_db_empty db"
  shows "bt_sum (\<lambda>row. dr_amount row - dr_deficit row) (dp_droplets db) = bt_sum tr_amount (dp_treasury db) \<and>
    (\<forall>member row. bt_get (dp_droplets db) member = Some row \<longrightarrow>
       0 \<le> dr_amount row \<and> 0 \<le> dr_deficit row \<and> (dr_amount row = 0 \<or> dr_deficit row = 0) \<and>
       dr_exchange_amount row \<le> dr_amount row \<and> (dr_locked row \<longleftrightarrow> dr_last_tx row \<noteq> None))"
proof -
  have "ledger_balanced droplet_db_empty"
    unfolding ledger_balanced_def
    by (intro conjI ledger_ok_empty) (simp add: droplet_db_empty_def ledger_net_def treasury_total_def)
  from ledger_run_balanced [OF assms this] have b: "ledger_balanced db" .
  have "\<forall>member row. bt_get (dp_droplets db) member = Some row \<longrightarrow> row_ok member row"
    using b table_ok_get by (auto simp: ledger_balanced_def ledger_ok_def)
  moreover have "row_ok member row \<Longrightarrow> 0 \<le> dr_amount row \<and> 0 \<le> dr_deficit row \<and>
      (dr_amount row = 0 \<or> dr_deficit row = 0) \<and> dr_exchange_amount row \<le> dr_amount row \<and>
      (dr_locked row \<longleftrightarrow> dr_last_tx row \<noteq> None)" for member row
    by (auto simp: row_ok_def split: if_splits)
  ultimately have "\<forall>member row. bt_get (dp_droplets db) member = Some row \<longrightarrow>
      0 \<le> dr_amount row \<and> 0 \<le> dr_deficit row \<and> (dr_amount row = 0 \<or> dr_deficit row = 0) \<and>
      dr_exchange_amount row \<le> dr_amount row \<and> (dr_locked row \<longleftrightarrow> dr_last_tx row \<noteq> None)" by blast
  moreover have "bt_sum (\<lambda>row. dr_amount row - dr_deficit row) (dp_droplets db) = bt_sum tr_amount (dp_treasury db)"
    using b by (simp add: ledger_balanced_def ledger_net_def treasury_total_def)
  ultimately show ?thesis by blast
qed

definition toy_deposit :: treasury_transaction where
  "toy_deposit = \<lparr>tt_txid = [7], tt_inputs = [], tt_outputs = [(0, 5)], tt_deposit_member = None,
     tt_exchange_member = None\<rparr>"

definition toy_spend :: treasury_transaction where
  "toy_spend = \<lparr>tt_txid = [8], tt_inputs = [([7], 0)], tt_outputs = [(1, 1)], tt_deposit_member = None,
     tt_exchange_member = Some [2]\<rparr>"

definition toy_ledger :: droplet_db where
  "toy_ledger = \<lparr>dp_droplets = [([2], droplet_row_new 0 9 1), ([3], droplet_row_new 2 9 0)],
     dp_treasury = [(([8], 1), \<lparr>tr_amount = 1, tr_block_height = 9\<rparr>)], dp_requests = [], dp_history = []\<rparr>"

definition toy_funded :: droplet_db where
  "toy_funded = \<lparr>dp_droplets = [([2], droplet_row_new 3 9 0), ([3], droplet_row_new 2 9 0)],
     dp_treasury = [(([7], 0), \<lparr>tr_amount = 5, tr_block_height = 9\<rparr>)], dp_requests = [], dp_history = []\<rparr>"

lemma toy_ledger_members: "remdups_adj (sort [[3], [2], [3]]) = [[2], [3 :: u8]]"
  by simp

lemma toy_deposit_applied: "apply_transaction [[2], [3]] 9 toy_deposit droplet_db_empty = Inr toy_funded"
proof -
  have "allocations [[2], [3]] None 5 = [([2], 3), ([3], 2)]"
    by (simp add: allocations_def Let_def)
  then show ?thesis
    by (simp add: apply_transaction_def toy_deposit_def droplet_db_empty_def toy_funded_def sum_outputs_def
      checked_add_def insert_output_def encode_u64_def credit_deposit_def credit_def bt_get_def)
qed

lemma toy_spend_applied: "apply_transaction [[2], [3]] 9 toy_spend toy_funded = Inr toy_ledger"
proof -
  have "debit [2] 4 9 (dp_droplets toy_funded) = Inr (dp_droplets toy_ledger)"
    by (simp add: debit_def toy_funded_def toy_ledger_def bt_get_def droplet_row_new_def decode_u64_def
      sat_sub_def checked_add_def encode_u64_def spend_row_def Let_def)
  moreover have "dp_treasury toy_funded = [(([7], 0), \<lparr>tr_amount = 5, tr_block_height = 9\<rparr>)]"
    by (simp add: toy_funded_def)
  ultimately show ?thesis
    by (simp add: apply_transaction_def toy_spend_def bt_get_def bt_remove_def decode_u64_def checked_add_def
      sum_outputs_def insert_output_def encode_u64_def checked_sub_def)
      (simp add: toy_funded_def toy_ledger_def)
qed

lemma toy_block:
  "apply_ledger_block \<lparr>ib_height = 9, ib_hash = []\<rparr> [toy_deposit, toy_spend] [[3], [2], [3]] droplet_db_empty =
   Inr toy_ledger"
  by (simp only: apply_ledger_block_def toy_ledger_members fold_res.simps indexed_block.simps toy_deposit_applied
    toy_spend_applied bind_res_simps list.distinct if_False)

theorem ledger_backed_witness:
  "bt_sum (\<lambda>row. dr_amount row - dr_deficit row) (dp_droplets toy_ledger) = bt_sum tr_amount (dp_treasury toy_ledger) \<and>
   bt_sum tr_amount (dp_treasury toy_ledger) = 1"
proof -
  have "ledger_step droplet_db_empty toy_ledger" by (rule ledger_step.block [OF toy_block]) simp
  from ledger_backed [OF ledger_run.step [OF ledger_run.refl this]]
  show ?thesis by (simp add: toy_ledger_def bt_sum_def)
qed

text \<open>
  A deposit is credited completely. One that is tagged with a member is the member's; any other is
  shared by all members, each of whom gets the same share or, as long as the division leaves a
  remainder, one more, and nobody else gets anything.
\<close>

lemma deposit_shared_out:
  assumes "credit_deposit members tagged amount h t = Inr t'" "table_ok t"
    and "distinct members" "members \<noteq> []" "length members < 2 ^ 63"
  shows "ledger_net t' = ledger_net t + uint amount \<and>
    (\<forall>k. k \<notin> set members \<longrightarrow> member_net t' k = member_net t k) \<and>
    (\<forall>k. k \<in> set members \<longrightarrow>
       (if tagged \<in> Some ` set members
        then member_net t' k = member_net t k + (if tagged = Some k then uint amount else 0)
        else member_net t' k - member_net t k \<in>
          (if unat amount mod length members = 0 then {uint amount div int (length members)}
           else {uint amount div int (length members), uint amount div int (length members) + 1})))"
proof -
  let ?as = "allocations members tagged amount"
  have net: "member_net t' k = member_net t k + sum_list (map (\<lambda>(m, x). if k = m then uint x else 0) ?as)" for k
  proof (cases "amount = 0")
    case True
    have "x = 0" if "(m, x) \<in> set ?as" for m x
      using that True by (cases "\<exists>m\<in>set members. tagged = Some m") (auto simp: allocations_def Let_def deposit_shares_zero split: option.splits if_splits)
    then have "sum_list (map (\<lambda>(m, x). if k = m then uint x else 0) ?as) = 0"
      by (intro sum_list_zero_amounts) auto
    then show ?thesis using True assms(1) by (simp add: credit_deposit_def)
  next
    case False
    then show ?thesis using assms(1) credits_member_net by (simp add: credit_deposit_def)
  qed
  have total': "ledger_net t' = ledger_net t + uint amount"
    using credit_deposit_ok [OF assms(1,2,4,5)] by simp
  show ?thesis
  proof (cases "tagged \<in> Some ` set members")
    case True
    then obtain m where m: "tagged = Some m" "m \<in> set members" by auto
    then have "?as = [(m, amount)]" by (simp add: allocations_def)
    with net m total' True show ?thesis by auto
  next
    case False
    define n :: u64 where "n = word_of_nat (length members)"
    have as: "?as = deposit_shares 0 (amount div n) (amount mod n) members"
      using False by (auto simp: allocations_def n_def Let_def split: option.splits)
    then have keys: "fst ` set ?as = set members"
      by (metis map_fst_deposit_shares set_map)
    have dist: "distinct (map fst ?as)" using as assms(3) by simp
    have "member_net t' k - member_net t k \<in>
          (if unat amount mod length members = 0 then {uint amount div int (length members)}
           else {uint amount div int (length members), uint amount div int (length members) + 1})"
      if member: "k \<in> set members" for k
    proof -
      obtain x where x: "(k, x) \<in> set ?as"
        and val: "unat x = unat amount div length members \<or>
          unat x = unat amount div length members + 1 \<and> unat amount mod length members \<noteq> 0"
        using deposit_share_of [OF assms(5) member, of amount] as n_def by auto
      have "member_net t' k - member_net t k = int (unat x)"
        using net sum_list_at_key [OF dist x] by simp
      moreover have "uint amount div int (length members) = int (unat amount div length members)"
        by (simp add: zdiv_int)
      moreover from val have "int (unat x) = int (unat amount div length members) \<or>
          int (unat x) = int (unat amount div length members) + 1 \<and> unat amount mod length members \<noteq> 0"
        by (elim disjE conjE) (simp_all del: of_nat_unat)
      ultimately show ?thesis by (auto simp del: of_nat_unat)
    qed
    moreover have "member_net t' k = member_net t k" if stranger: "k \<notin> set members" for k
      using net [of k] sum_list_no_key [of k ?as] keys stranger by (simp only: add_0_right simp_thms)
    ultimately show ?thesis using total' False by simp
  qed
qed

lemma deposit_shared_out_witness:
  "ledger_net [([2], droplet_row_new 3 9 0), ([3], droplet_row_new 2 9 0)] = ledger_net [] + uint (5 :: u64) \<and>
   member_net [([2], droplet_row_new 3 9 0), ([3], droplet_row_new 2 9 0)] [2] - member_net [] [2] \<in> {2, 3}"
proof -
  have "allocations [[2], [3]] None 5 = [([2], 3), ([3], 2)]"
    by (simp add: allocations_def Let_def)
  then have c: "credit_deposit [[2], [3]] None 5 9 [] = Inr [([2], droplet_row_new 3 9 0), ([3], droplet_row_new 2 9 0)]"
    by (simp add: encode_u64_def credit_deposit_def credit_def bt_get_def)
  have "table_ok []" by (simp add: table_ok_def)
  note D = deposit_shared_out [OF c this]
  have "ledger_net [([2], droplet_row_new 3 9 0), ([3], droplet_row_new 2 9 0)] = ledger_net [] + uint (5 :: u64)"
    using D by simp
  then show ?thesis by (simp add: member_net_def bt_get_def droplet_row_new_def)
qed

lemma spend_charged:
  assumes "spend_inputs (tt_inputs tx) 0 (dp_treasury db) = Inr (spent, left)" "spent \<noteq> 0"
    and "apply_transaction members h tx db = Inr db'" "ledger_ok db"
  shows "\<exists>member returned. tt_exchange_member tx = Some member \<and> member \<in> set members \<and>
    sum_outputs (tt_outputs tx) = Some returned \<and> returned \<le> spent \<and>
    member_net (dp_droplets db') member = member_net (dp_droplets db) member - (uint spent - uint returned) \<and>
    (\<exists>row. bt_get (dp_droplets db') member = Some row \<and> \<not> dr_locked row \<and> dr_last_tx row = None) \<and>
    (\<forall>k. k \<noteq> member \<longrightarrow> bt_get (dp_droplets db') k = bt_get (dp_droplets db) k)"
proof -
  from assms(1-3) obtain returned treasury2 member exchanged droplets where
    o: "sum_outputs (tt_outputs tx) = Some returned"
    and m: "tt_exchange_member tx = Some member" "member \<in> set members"
    and e: "checked_sub spent returned = Some exchanged"
    and d: "debit member exchanged h (dp_droplets db) = Inr droplets"
    and db': "db' = db\<lparr>dp_treasury := treasury2, dp_droplets := droplets\<rparr>"
    by (auto simp: apply_transaction_def bind_res_eq_Inr split: if_splits)
  have table: "table_ok (dp_droplets db)" using assms(4) by (simp add: ledger_ok_def)
  from debit_ok(3) [OF d table] obtain row where row: "droplets = bt_insert member row (dp_droplets db)" "\<not> dr_locked row"
    by blast
  have le: "unat returned \<le> unat spent" and "unat exchanged = unat spent - unat returned"
    using e by (simp_all add: checked_sub_Some_iff)
  then have "int (unat exchanged) = int (unat spent) - int (unat returned)" by linarith
  then have ex: "uint exchanged = uint spent - uint returned" by simp
  have "ledger_net droplets = ledger_net (dp_droplets db) + (dr_amount row - dr_deficit row) - member_net (dp_droplets db) member"
    using ledger_net_insert [OF table, of member row] row(1) by (simp add: member_net_def)
  then have "member_net droplets member = member_net (dp_droplets db) member - (uint spent - uint returned)"
    using debit_ok(2) [OF d table] row(1) ex by (simp add: member_net_def bt_get_insert)
  moreover have "dr_last_tx row = None"
    using table_ok_get [OF debit_ok(1) [OF d table], of member row] row by (simp add: bt_get_insert row_ok_def)
  moreover have "returned \<le> spent" using le by (simp add: word_le_nat_alt)
  ultimately show ?thesis using o m db' row by (auto simp: bt_get_insert)
qed

text \<open>
  A transaction that spends the Treasury is charged to one member. If the ledger accepts a
  transaction that spends a positive Treasury amount, it names one of the members, whose balance less
  deficit falls by exactly the value that left the Treasury and whose exchange lock is released;
  nobody else's Droplets change. A spend that names nobody or a stranger, or that returns more than
  it takes, is refused.
\<close>

lemma treasury_spend_charged:
  assumes "spend_inputs (tt_inputs tx) 0 (dp_treasury db) = Inr (spent, left)" "spent \<noteq> 0"
    and "apply_transaction members h tx db = Inr db'" "ledger_ok db"
  shows "\<exists>member returned. tt_exchange_member tx = Some member \<and> member \<in> set members \<and>
    sum_outputs (tt_outputs tx) = Some returned \<and> returned \<le> spent \<and>
    member_net (dp_droplets db') member = member_net (dp_droplets db) member - (uint spent - uint returned) \<and>
    (\<exists>row. bt_get (dp_droplets db') member = Some row \<and> \<not> dr_locked row \<and> dr_last_tx row = None) \<and>
    (\<forall>k. k \<noteq> member \<longrightarrow> bt_get (dp_droplets db') k = bt_get (dp_droplets db) k)"
  by (rule spend_charged [OF assms])

lemma treasury_spend_charged_witness:
  "member_net (dp_droplets toy_ledger) [2] = member_net (dp_droplets toy_funded) [2] - 4 \<and>
   bt_get (dp_droplets toy_ledger) [3] = bt_get (dp_droplets toy_funded) [3]"
proof -
  have s: "spend_inputs (tt_inputs toy_spend) 0 (dp_treasury toy_funded) = Inr (5, [])"
    by (simp add: toy_spend_def toy_funded_def bt_get_def bt_remove_def decode_u64_def checked_add_def)
  have "ledger_ok toy_funded"
    by (simp add: ledger_ok_def toy_funded_def table_ok_def treasury_ok_def bt_wf_def bt_all_def row_ok_def
      utxo_ok_def droplet_row_new_def)
  from treasury_spend_charged [OF s _ toy_spend_applied this] show ?thesis
    by (auto simp: toy_spend_def sum_outputs_def checked_add_def)
qed

end
