(* ===== verification/Utxo_Store.thy ===== *)
theory Utxo_Store
  imports Db_Tables
begin

text \<open>
  The issued Ticks and Verifiers a node watches until they are burned (\<open>db/monitored_utxo.rs\<close>), one
  row per outpoint: active while it lives, expired when its time is over, burning while a burn
  transaction is under way, unburnable when burning it was given up. Sums of heights in a statement
  are exact: heights near 2^63 do not occur.
\<close>

definition BURNING_BLOCKS :: u64 where
  "BURNING_BLOCKS = 5"

datatype utxo_status = UtxoActive | UtxoExpired | UtxoBurning | UtxoUnburnable

record monitored_utxo =
  mu_txid :: bytes
  mu_output_index :: u32
  mu_asset_kind :: string
  mu_amount :: u64
  mu_script_pubkey :: bytes
  mu_auth_method :: string
  mu_auth_data :: bytes
  mu_account_owner_pubkey :: bytes
  mu_internal_key :: "bytes option"
  mu_burning_fee_txid :: bytes
  mu_burning_fee_output_index :: u32
  mu_block_height :: u64
  mu_status :: utxo_status
  mu_status_block_height :: u64
  mu_burn_txid :: "bytes option"

type_synonym utxo_table = "(bytes \<times> u32, monitored_utxo) btree"

definition utxo_key :: "monitored_utxo \<Rightarrow> bytes \<times> u32" where
  "utxo_key u = (mu_txid u, mu_output_index u)"

subsection \<open>Blocks\<close>

text \<open>An issued output enters as active at its block, unless its outpoint is known already.\<close>

definition insert_issued :: "monitored_utxo \<Rightarrow> utxo_table \<Rightarrow> db_error + utxo_table" where
  "insert_issued u table =
     bind_res (encode_u64 (mu_amount u)) (\<lambda>_.
     bind_res (encode_u64 (mu_block_height u)) (\<lambda>_.
       if bt_get table (utxo_key u) \<noteq> None then Inr table
       else Inr (bt_insert (utxo_key u)
         (u\<lparr>mu_status := UtxoActive, mu_status_block_height := mu_block_height u, mu_burn_txid := None\<rparr>) table)))"

definition delete_spent :: "(bytes \<times> u32 \<times> bytes) list \<Rightarrow> utxo_table \<Rightarrow> utxo_table" where
  "delete_spent spent table = fold (\<lambda>(txid, index, _). bt_remove (txid, index)) spent table"

definition lapsed :: "u64 \<Rightarrow> u64 \<Rightarrow> monitored_utxo \<Rightarrow> bool" where
  "lapsed height active_blocks u \<longleftrightarrow>
     mu_status u = UtxoActive \<and> unat (mu_block_height u) + unat active_blocks \<le> unat height"

definition expire :: "u64 \<Rightarrow> u64 \<Rightarrow> utxo_table \<Rightarrow> utxo_table" where
  "expire height active_blocks table =
     bt_update (\<lambda>_. lapsed height active_blocks)
       (\<lambda>u. u\<lparr>mu_status := UtxoExpired, mu_status_block_height := height\<rparr>) table"

definition stuck :: "u64 \<Rightarrow> monitored_utxo \<Rightarrow> bool" where
  "stuck height u \<longleftrightarrow>
     mu_status u = UtxoBurning \<and> unat (mu_status_block_height u) + unat BURNING_BLOCKS \<le> unat height"

definition revert_burns :: "u64 \<Rightarrow> utxo_table \<Rightarrow> utxo_table \<times> nat" where
  "revert_burns height table =
     (bt_update (\<lambda>_. stuck height)
        (\<lambda>u. u\<lparr>mu_status := UtxoExpired, mu_status_block_height := height, mu_burn_txid := None\<rparr>) table,
      bt_affected (\<lambda>_. stuck height) table)"

definition apply_utxo_block ::
  "indexed_block \<Rightarrow> monitored_utxo list \<Rightarrow> (bytes \<times> u32 \<times> bytes) list \<Rightarrow> u64 \<Rightarrow> utxo_table \<Rightarrow>
   db_error + utxo_table \<times> nat" where
  "apply_utxo_block block issued spent active_blocks table =
     bind_res (fold_res insert_issued issued table) (\<lambda>table1.
     bind_res (encode_u64 (ib_height block)) (\<lambda>_.
     bind_res (encode_u64 active_blocks) (\<lambda>_.
       Inr (revert_burns (ib_height block) (expire (ib_height block) active_blocks (delete_spent spent table1))))))"

definition apply_utxo_block_at ::
  "string \<Rightarrow> indexed_block \<Rightarrow> monitored_utxo list \<Rightarrow> (bytes \<times> u32 \<times> bytes) list \<Rightarrow> u64 \<Rightarrow>
   utxo_table \<times> cursor_table \<Rightarrow> db_error + utxo_table \<times> cursor_table" where
  "apply_utxo_block_at rule_set block issued spent active_blocks = (\<lambda>(table, cursors).
     bind_res (apply_utxo_block block issued spent active_blocks table) (\<lambda>(table', _).
     bind_res (record_cursor rule_set block cursors) (\<lambda>cursors'. Inr (table', cursors'))))"

subsection \<open>Burning\<close>

text \<open>
  Marking a set of outputs is one transaction: as soon as one of them is not as expected nothing
  changes and the number of marked outputs is 0.
\<close>

fun mark_all ::
  "(monitored_utxo \<Rightarrow> bool) \<Rightarrow> (monitored_utxo \<Rightarrow> monitored_utxo) \<Rightarrow> (bytes \<times> u32) list \<Rightarrow> utxo_table \<Rightarrow>
   utxo_table option" where
  "mark_all C f [] table = Some table"
| "mark_all C f (k # ks) table =
     (case bt_update_key k C f table of
        (table', updated) \<Rightarrow> if updated \<noteq> 1 then None else mark_all C f ks table')"

definition mark_in_transaction ::
  "(monitored_utxo \<Rightarrow> bool) \<Rightarrow> (monitored_utxo \<Rightarrow> monitored_utxo) \<Rightarrow> (bytes \<times> u32) list \<Rightarrow> utxo_table \<Rightarrow>
   utxo_table \<times> nat" where
  "mark_in_transaction C f ks table =
     (case mark_all C f ks table of None \<Rightarrow> (table, 0) | Some table' \<Rightarrow> (table', length ks))"

definition mark_burning ::
  "(bytes \<times> u32) list \<Rightarrow> bytes \<Rightarrow> u64 \<Rightarrow> utxo_table \<Rightarrow> db_error + utxo_table \<times> nat" where
  "mark_burning outpoints burn_txid height table =
     (if outpoints = [] then Inr (table, 0)
      else bind_res (encode_u64 height) (\<lambda>_.
        Inr (mark_in_transaction
          (\<lambda>u. mu_status u = UtxoExpired \<or> mu_status u = UtxoBurning \<and> mu_burn_txid u = Some burn_txid)
          (\<lambda>u. u\<lparr>mu_status := UtxoBurning, mu_status_block_height := height, mu_burn_txid := Some burn_txid\<rparr>)
          outpoints table)))"

definition quarantine_unburnable ::
  "(bytes \<times> u32) list \<Rightarrow> u64 \<Rightarrow> utxo_table \<Rightarrow> db_error + utxo_table \<times> nat" where
  "quarantine_unburnable outpoints height table =
     (if outpoints = [] then Inr (table, 0)
      else bind_res (encode_u64 height) (\<lambda>_.
        Inr (mark_in_transaction (\<lambda>u. mu_status u = UtxoExpired)
          (\<lambda>u. u\<lparr>mu_status := UtxoUnburnable, mu_status_block_height := height, mu_burn_txid := None\<rparr>)
          outpoints table)))"

definition release_burning :: "bytes \<Rightarrow> u64 \<Rightarrow> utxo_table \<Rightarrow> db_error + utxo_table \<times> nat" where
  "release_burning burn_txid height table =
     bind_res (encode_u64 height) (\<lambda>_.
       let C = (\<lambda>_ u. mu_status u = UtxoBurning \<and> mu_burn_txid u = Some burn_txid)
       in Inr (bt_update C
            (\<lambda>u. u\<lparr>mu_status := UtxoExpired, mu_status_block_height := height, mu_burn_txid := None\<rparr>) table,
          bt_affected C table))"

subsection \<open>Queries\<close>

definition utxo_statuses :: "utxo_status list" where
  "utxo_statuses = [UtxoActive, UtxoExpired, UtxoBurning, UtxoUnburnable]"

definition utxo_count_by_status :: "utxo_table \<Rightarrow> (utxo_status \<times> nat) list" where
  "utxo_count_by_status table =
     filter (\<lambda>(_, n). n \<noteq> 0) (map (\<lambda>s. (s, length (filter (\<lambda>(_, u). mu_status u = s) table))) utxo_statuses)"

definition unburned :: "monitored_utxo \<Rightarrow> bool" where
  "unburned u \<longleftrightarrow> mu_status u = UtxoExpired \<or> mu_status u = UtxoBurning"

definition oldest_unburned_block_height :: "utxo_table \<Rightarrow> u64 option" where
  "oldest_unburned_block_height table =
     (case filter unburned (bt_values table) of
        [] \<Rightarrow> None
      | us \<Rightarrow> Some (Min (mu_block_height ` set us)))"

definition list_expired :: "u32 \<Rightarrow> utxo_table \<Rightarrow> monitored_utxo list" where
  "list_expired limit table =
     take (unat limit) (map snd (sort_key (\<lambda>(k, u). (mu_block_height u, k))
       (filter (\<lambda>(_, u). mu_status u = UtxoExpired) table)))"

definition reserves :: "bytes \<times> u32 \<Rightarrow> monitored_utxo \<Rightarrow> bool" where
  "reserves outpoint u \<longleftrightarrow>
     (mu_burning_fee_txid u, mu_burning_fee_output_index u) = outpoint \<and> mu_status u \<noteq> UtxoUnburnable"

definition is_reserved_for_burning :: "bytes \<times> u32 \<Rightarrow> utxo_table \<Rightarrow> bool" where
  "is_reserved_for_burning outpoint table \<longleftrightarrow> list_ex (reserves outpoint) (bt_values table)"

text \<open>The batched form collects the requested outpoints that are reserved and looks each one up.\<close>

definition burning_reservations :: "(bytes \<times> u32) list \<Rightarrow> utxo_table \<Rightarrow> bool list" where
  "burning_reservations outpoints table =
     (let reserved = filter (\<lambda>o'. list_ex (reserves o') (bt_values table)) outpoints
      in map (\<lambda>o'. o' \<in> set reserved) outpoints)"

definition burning_txids :: "utxo_table \<Rightarrow> bytes list" where
  "burning_txids table =
     remdups_adj (sort (List.map_filter (\<lambda>u. if mu_status u = UtxoBurning then mu_burn_txid u else None) (bt_values table)))"

end
