(* ===== verification/Utxo_Claims.thy ===== *)
theory Utxo_Claims
  imports Utxo_Store
begin

text \<open>
  The life of a monitored output: which statuses it takes in which order, that it expires when its
  time is over and not before, and that a burn is recorded for all of its outputs or none.
\<close>

subsection \<open>Steps\<close>

definition spent_key :: "bytes \<times> u32 \<times> bytes \<Rightarrow> bytes \<times> u32" where
  "spent_key = (\<lambda>(txid, index, _). (txid, index))"

text \<open>
  \<open>utxo_step L e t t'\<close>: an operation of the store takes the table \<open>t\<close> to \<open>t'\<close>, where \<open>L\<close> is the
  lifetime the node is configured with and \<open>e\<close> the block's height and spent outpoints when the
  operation applies a block.
\<close>

inductive utxo_step ::
  "u64 \<Rightarrow> (u64 \<times> (bytes \<times> u32) set) option \<Rightarrow> utxo_table \<Rightarrow> utxo_table \<Rightarrow> bool" for L where
  block: "apply_utxo_block b issued spent L t = Inr (t', n) \<Longrightarrow>
    utxo_step L (Some (ib_height b, spent_key ` set spent)) t t'"
| burn: "mark_burning ks txid h t = Inr (t', n) \<Longrightarrow> utxo_step L None t t'"
| release: "release_burning txid h t = Inr (t', n) \<Longrightarrow> utxo_step L None t t'"
| quarantine: "quarantine_unburnable ks h t = Inr (t', n) \<Longrightarrow> utxo_step L None t t'"

inductive_cases utxo_stepE: "utxo_step L e t t'"

text \<open>The runs of the store with the heights of the blocks applied, the latest first.\<close>

inductive utxo_run :: "u64 \<Rightarrow> u64 list \<Rightarrow> utxo_table \<Rightarrow> bool" for L where
  start: "utxo_run L [] []"
| block: "utxo_run L hs t \<Longrightarrow> utxo_step L (Some (h, spent)) t t' \<Longrightarrow> utxo_run L (h # hs) t'"
| other: "utxo_run L hs t \<Longrightarrow> utxo_step L None t t' \<Longrightarrow> utxo_run L hs t'"

subsection \<open>What one row may do\<close>

definition same_output :: "monitored_utxo \<Rightarrow> monitored_utxo \<Rightarrow> bool" where
  "same_output u v \<longleftrightarrow>
     (\<exists>s h b. v = u\<lparr>mu_status := s, mu_status_block_height := h, mu_burn_txid := b\<rparr>)"

lemma same_output_refl [simp]: "same_output u u"
  unfolding same_output_def by (intro exI [of _ "mu_status u"] exI [of _ "mu_status_block_height u"] exI [of _ "mu_burn_txid u"]) simp

lemma same_output_trans: "same_output u v \<Longrightarrow> same_output v w \<Longrightarrow> same_output u w"
  by (auto simp: same_output_def) blast

lemma same_output_fields:
  "same_output u v \<Longrightarrow> utxo_key v = utxo_key u \<and> mu_amount v = mu_amount u \<and> mu_block_height v = mu_block_height u \<and>
     (mu_burning_fee_txid v, mu_burning_fee_output_index v) = (mu_burning_fee_txid u, mu_burning_fee_output_index u)"
  by (auto simp: same_output_def utxo_key_def)

lemma same_output_update [simp]:
  "same_output u (u\<lparr>mu_status := s, mu_status_block_height := h\<rparr>)"
  "same_output u (u\<lparr>mu_status := s, mu_status_block_height := h, mu_burn_txid := b\<rparr>)"
  unfolding same_output_def
  by (intro exI [of _ s] exI [of _ h] exI [of _ "mu_burn_txid u"], simp) blast

text \<open>The statuses that may follow one another.\<close>

fun may_follow :: "utxo_status \<Rightarrow> utxo_status \<Rightarrow> bool" where
  "may_follow UtxoActive s = (s = UtxoActive \<or> s = UtxoExpired)"
| "may_follow UtxoExpired s = (s \<noteq> UtxoActive)"
| "may_follow UtxoBurning s = (s = UtxoBurning \<or> s = UtxoExpired)"
| "may_follow UtxoUnburnable s = (s = UtxoUnburnable)"

lemma may_follow_refl [simp]: "may_follow s s"
  by (cases s) simp_all

definition utxo_wf :: "bytes \<times> u32 \<Rightarrow> monitored_utxo \<Rightarrow> bool" where
  "utxo_wf k u \<longleftrightarrow> utxo_key u = k \<and> (mu_burn_txid u \<noteq> None \<longleftrightarrow> mu_status u = UtxoBurning)"

definition utxos_ok :: "utxo_table \<Rightarrow> bool" where
  "utxos_ok t \<longleftrightarrow> bt_wf t \<and> bt_all utxo_wf t"

lemma utxos_okD: "utxos_ok t \<Longrightarrow> bt_get t k = Some u \<Longrightarrow> utxo_wf k u"
  unfolding utxos_ok_def by (blast intro: bt_all_get)

subsection \<open>Blocks\<close>

lemma insert_issued_get:
  assumes "insert_issued u t = Inr t'"
  shows "bt_get t' k = (case bt_get t k of Some v \<Rightarrow> Some v | None \<Rightarrow>
    if k = utxo_key u then Some (u\<lparr>mu_status := UtxoActive, mu_status_block_height := mu_block_height u, mu_burn_txid := None\<rparr>) else None)"
  using assms by (auto simp: insert_issued_def bind_res_eq_Inr bt_get_insert split: if_splits option.splits)

lemma insert_issued_ok: "insert_issued u t = Inr t' \<Longrightarrow> utxos_ok t \<Longrightarrow> utxos_ok t'"
  by (auto simp: insert_issued_def bind_res_eq_Inr utxos_ok_def bt_insert_wf utxo_wf_def utxo_key_def
      intro!: bt_all_insert split: if_splits)

lemma insert_all_issued:
  "fold_res insert_issued us t = Inr t' \<Longrightarrow> utxos_ok t \<Longrightarrow>
   utxos_ok t' \<and> (\<forall>k u. bt_get t k = Some u \<longrightarrow> bt_get t' k = Some u) \<and>
   (\<forall>k u. bt_get t k = None \<and> bt_get t' k = Some u \<longrightarrow> mu_status u = UtxoActive)"
proof (induction us arbitrary: t)
  case (Cons u us)
  from Cons.prems(1) obtain t1 where t1: "insert_issued u t = Inr t1" "fold_res insert_issued us t1 = Inr t'"
    by (auto simp: bind_res_eq_Inr)
  note IH = Cons.IH [OF t1(2) insert_issued_ok [OF t1(1) Cons.prems(2)]]
  have fresh: "mu_status v = UtxoActive" if "bt_get t k = None" "bt_get t' k = Some v" for k v
  proof (cases "bt_get t1 k")
    case None
    with IH that show ?thesis by blast
  next
    case (Some w)
    with IH have "bt_get t' k = Some w" by blast
    with that have "v = w" by simp
    with Some that insert_issued_get [OF t1(1), of k] show ?thesis by (auto split: if_splits)
  qed
  moreover have "bt_get t' k = Some v" if "bt_get t k = Some v" for k v
  proof -
    have "bt_get t1 k = Some v" using that insert_issued_get [OF t1(1), of k] by simp
    with IH show ?thesis by blast
  qed
  moreover have "utxos_ok t'" using IH by blast
  ultimately show ?case using fresh by (intro conjI allI impI) (assumption | blast)+
qed auto

lemma fold_remove_get: "bt_get (fold bt_remove ks t) k = (if k \<in> set ks then None else bt_get t k)"
  by (induction ks arbitrary: t) (auto simp: bt_get_remove)

lemma fold_remove_ok: "utxos_ok t \<Longrightarrow> utxos_ok (fold bt_remove ks t)"
  by (induction ks arbitrary: t) (auto simp: utxos_ok_def bt_remove_wf bt_all_remove)

lemma delete_spent_fold: "delete_spent spent t = fold bt_remove (map spent_key spent) t"
  unfolding delete_spent_def spent_key_def fold_map comp_def by (simp add: case_prod_unfold)

lemma delete_spent_get:
  "bt_get (delete_spent spent t) k = (if k \<in> spent_key ` set spent then None else bt_get t k)"
  by (simp add: delete_spent_fold fold_remove_get)

lemma delete_spent_ok: "utxos_ok t \<Longrightarrow> utxos_ok (delete_spent spent t)"
  by (simp add: delete_spent_fold fold_remove_ok)

lemma update_ok:
  "utxos_ok t \<Longrightarrow> (\<And>k u. utxo_wf k u \<Longrightarrow> C u \<Longrightarrow> utxo_wf k (f u)) \<Longrightarrow> utxos_ok (bt_update (\<lambda>_. C) f t)"
  by (simp add: utxos_ok_def bt_update_wf bt_all_update)

lemma expire_ok: "utxos_ok t \<Longrightarrow> utxos_ok (expire h L t)"
  unfolding expire_def by (rule update_ok) (auto simp: utxo_wf_def lapsed_def utxo_key_def)

lemma revert_burns_ok: "utxos_ok t \<Longrightarrow> utxos_ok (fst (revert_burns h t))"
  unfolding revert_burns_def fst_conv by (rule update_ok) (auto simp: utxo_wf_def utxo_key_def)

definition settled_row :: "u64 \<Rightarrow> u64 \<Rightarrow> monitored_utxo \<Rightarrow> monitored_utxo" where
  "settled_row h L u =
     (if lapsed h L u then u\<lparr>mu_status := UtxoExpired, mu_status_block_height := h\<rparr>
      else if stuck h u then u\<lparr>mu_status := UtxoExpired, mu_status_block_height := h, mu_burn_txid := None\<rparr>
      else u)"

lemma settled_get:
  "bt_get (fst (revert_burns h (expire h L t))) k = map_option (settled_row h L) (bt_get t k)"
  by (cases "bt_get t k") (auto simp: revert_burns_def expire_def bt_get_update settled_row_def stuck_def)

lemma settled_row_facts:
  "same_output u (settled_row h L u)" "may_follow (mu_status u) (mu_status (settled_row h L u))"
  "\<not> lapsed h L (settled_row h L u)" "\<not> stuck h (settled_row h L u)"
  "mu_status (settled_row h L u) \<noteq> mu_status u \<Longrightarrow> mu_status u = UtxoActive \<Longrightarrow>
     unat (mu_block_height u) + unat L \<le> unat h"
  by (auto simp: settled_row_def lapsed_def stuck_def split: if_splits)

lemma apply_utxo_block_get:
  assumes "apply_utxo_block b issued spent L t = Inr (t', n)" "utxos_ok t"
  obtains t1 where "utxos_ok t1" "utxos_ok t'"
    and "\<And>k u. bt_get t k = Some u \<Longrightarrow> bt_get t1 k = Some u"
    and "\<And>k u. bt_get t k = None \<Longrightarrow> bt_get t1 k = Some u \<Longrightarrow> mu_status u = UtxoActive"
    and "\<And>k. bt_get t' k = (if k \<in> spent_key ` set spent then None
           else map_option (settled_row (ib_height b) L) (bt_get t1 k))"
proof -
  from assms(1) obtain t1 where t1: "fold_res insert_issued issued t = Inr t1"
    and t': "(t', n) = revert_burns (ib_height b) (expire (ib_height b) L (delete_spent spent t1))"
    by (auto simp: apply_utxo_block_def bind_res_eq_Inr)
  note I = insert_all_issued [OF t1 assms(2)]
  have t'f: "t' = fst (revert_burns (ib_height b) (expire (ib_height b) L (delete_spent spent t1)))"
    by (simp flip: t')
  show thesis
  proof (rule that [of t1])
    show "utxos_ok t1" using I by blast
    then show "utxos_ok t'" unfolding t'f by (intro revert_burns_ok expire_ok delete_spent_ok)
    show "bt_get t' k = (if k \<in> spent_key ` set spent then None
           else map_option (settled_row (ib_height b) L) (bt_get t1 k))" for k
      unfolding t'f settled_get delete_spent_get by simp
  qed (use I in auto)
qed

subsection \<open>Marking\<close>

lemma mark_all_get:
  assumes "mark_all C f ks t = Some t'" "\<And>u. same_output u (f u)"
  shows "\<forall>k. (k \<notin> set ks \<longrightarrow> bt_get t' k = bt_get t k) \<and>
    (k \<in> set ks \<longrightarrow> (\<exists>u v. bt_get t k = Some u \<and> C u \<and> bt_get t' k = Some v \<and> (\<exists>w. v = f w \<and> C w) \<and> same_output u v))"
  using assms(1)
proof (induction ks arbitrary: t)
  case (Cons j ks)
  show ?case
  proof (rule bt_update_key_cases [of t j C f])
    fix u assume u: "bt_get t j = Some u" "C u" "bt_update_key j C f t = (bt_insert j (f u) t, 1)"
    with Cons.prems have rest: "mark_all C f ks (bt_insert j (f u) t) = Some t'" by simp
    note IH = Cons.IH [OF rest]
    show ?thesis
    proof (intro allI)
      fix k
      show "(k \<notin> set (j # ks) \<longrightarrow> bt_get t' k = bt_get t k) \<and>
        (k \<in> set (j # ks) \<longrightarrow> (\<exists>u v. bt_get t k = Some u \<and> C u \<and> bt_get t' k = Some v \<and> (\<exists>w. v = f w \<and> C w) \<and> same_output u v))"
        using IH [rule_format, of k] u assms(2) [of u] same_output_trans
        by (cases "k = j"; cases "k \<in> set ks") (auto simp: bt_get_insert)
    qed
  next
    assume "bt_update_key j C f t = (t, 0)"
    with Cons.prems show ?thesis by simp
  qed
qed simp

lemma mark_all_ok:
  assumes "mark_all C f ks t = Some t'" "utxos_ok t" "\<And>k u. utxo_wf k u \<Longrightarrow> C u \<Longrightarrow> utxo_wf k (f u)"
  shows "utxos_ok t'"
  using assms(1,2)
proof (induction ks arbitrary: t)
  case (Cons j ks)
  have "utxos_ok (fst (bt_update_key j C f t))"
    using Cons.prems(2) assms(3) by (simp add: utxos_ok_def bt_wf_update_key bt_all_update_key)
  with Cons show ?case by (auto split: prod.splits if_splits)
qed simp

lemma mark_in_transaction_cases:
  obtains (marked) t' where "mark_all C f ks t = Some t'" "mark_in_transaction C f ks t = (t', length ks)"
  | (refused) "mark_all C f ks t = None" "mark_in_transaction C f ks t = (t, 0)"
  by (cases "mark_all C f ks t") (auto simp: mark_in_transaction_def)

subsection \<open>Every step\<close>

text \<open>What a step may do to one row: drop it, leave it, or move it along.\<close>

definition row_step ::
  "u64 \<Rightarrow> (u64 \<times> (bytes \<times> u32) set) option \<Rightarrow> bytes \<times> u32 \<Rightarrow> monitored_utxo \<Rightarrow> monitored_utxo option \<Rightarrow> bool" where
  "row_step L e k u x =
     (case x of
        None \<Rightarrow> (\<exists>h spent. e = Some (h, spent) \<and> k \<in> spent)
      | Some v \<Rightarrow> same_output u v \<and> may_follow (mu_status u) (mu_status v) \<and>
          (mu_status u = UtxoActive \<and> mu_status v \<noteq> UtxoActive \<longrightarrow>
             (\<exists>h spent. e = Some (h, spent) \<and> unat (mu_block_height u) + unat L \<le> unat h)))"

lemma row_step_same [simp]: "row_step L e k u (Some u)"
  by (simp add: row_step_def)

definition step_ok ::
  "u64 \<Rightarrow> (u64 \<times> (bytes \<times> u32) set) option \<Rightarrow> utxo_table \<Rightarrow> utxo_table \<Rightarrow> bool" where
  "step_ok L e t t' \<longleftrightarrow> utxos_ok t' \<and> (\<forall>k u. bt_get t k = Some u \<longrightarrow> row_step L e k u (bt_get t' k)) \<and>
     (e = None \<longrightarrow> (\<forall>k. bt_get t k = None \<longrightarrow> bt_get t' k = None))"

lemma step_ok_row: "step_ok L e t t' \<Longrightarrow> bt_get t k = Some u \<Longrightarrow> row_step L e k u (bt_get t' k)"
  unfolding step_ok_def by blast

lemma step_ok_absent: "step_ok L None t t' \<Longrightarrow> bt_get t k = None \<Longrightarrow> bt_get t' k = None"
  unfolding step_ok_def by blast

lemma step_ok_refl: "utxos_ok t \<Longrightarrow> step_ok L e t t"
  by (simp add: step_ok_def)

lemma mark_step:
  assumes "mark_in_transaction C f ks t = (t', n)" "utxos_ok t"
    and f: "\<And>u. same_output u (f u)"
    and wf: "\<And>k u. utxo_wf k u \<Longrightarrow> C u \<Longrightarrow> utxo_wf k (f u)"
    and follow: "\<And>u v. C u \<Longrightarrow> may_follow (mu_status u) (mu_status (f v)) \<and> mu_status u \<noteq> UtxoActive"
  shows "step_ok L None t t'"
proof (rule mark_in_transaction_cases [of C f ks t])
  fix t1 assume t1: "mark_all C f ks t = Some t1" "mark_in_transaction C f ks t = (t1, length ks)"
  then have t': "t' = t1" using assms(1) by simp
  note G = mark_all_get [OF t1(1) f]
  have "row_step L None k u (bt_get t' k)" if u: "bt_get t k = Some u" for k u
  proof (cases "k \<in> set ks")
    case True
    with G obtain u' v w where "bt_get t k = Some u'" "C u'" "bt_get t' k = Some v" "v = f w" "same_output u' v"
      unfolding t' by metis
    with u follow [of u w] show ?thesis by (auto simp: row_step_def)
  next
    case False
    with G have "bt_get t' k = bt_get t k" unfolding t' by blast
    with u show ?thesis by simp
  qed
  moreover have "bt_get t' k = None" if none: "bt_get t k = None" for k
    using G [rule_format, of k] none unfolding t' by (cases "k \<in> set ks") auto
  moreover have "utxos_ok t'" unfolding t' by (rule mark_all_ok [OF t1(1) assms(2) wf])
  ultimately show ?thesis unfolding step_ok_def by blast
next
  assume "mark_in_transaction C f ks t = (t, 0)"
  with assms(1,2) show ?thesis by (simp add: step_ok_refl)
qed

lemma update_step:
  assumes "t' = bt_update (\<lambda>_. C) f t" "utxos_ok t"
    and f: "\<And>u. same_output u (f u)"
    and wf: "\<And>k u. utxo_wf k u \<Longrightarrow> C u \<Longrightarrow> utxo_wf k (f u)"
    and follow: "\<And>u. C u \<Longrightarrow> may_follow (mu_status u) (mu_status (f u)) \<and> mu_status u \<noteq> UtxoActive"
  shows "step_ok L None t t'"
  using update_ok [OF assms(2) wf] f follow
  by (auto simp: assms(1) bt_get_update row_step_def step_ok_def)

lemma utxo_step_rows:
  assumes "utxo_step L e t t'" "utxos_ok t"
  shows "step_ok L e t t'"
  using assms
proof (induction rule: utxo_step.induct)
  case (block b issued spent t t' n)
  from apply_utxo_block_get [OF block(1,2)] obtain t1 where t1: "utxos_ok t'"
    "\<And>k u. bt_get t k = Some u \<Longrightarrow> bt_get t1 k = Some u"
    "\<And>k. bt_get t' k = (if k \<in> spent_key ` set spent then None
           else map_option (settled_row (ib_height b) L) (bt_get t1 k))"
    by metis
  have "row_step L (Some (ib_height b, spent_key ` set spent)) k u (bt_get t' k)" if u: "bt_get t k = Some u" for k u
    using t1(2) [OF u] t1(3) [of k] settled_row_facts [where u = u and h = "ib_height b" and L = L]
    by (auto simp: row_step_def)
  with t1(1) show ?case unfolding step_ok_def by blast
next
  case (burn ks txid h t t' n)
  show ?case
  proof (cases "ks = []")
    case False
    with burn have "mark_in_transaction
          (\<lambda>u. mu_status u = UtxoExpired \<or> mu_status u = UtxoBurning \<and> mu_burn_txid u = Some txid)
          (\<lambda>u. u\<lparr>mu_status := UtxoBurning, mu_status_block_height := h, mu_burn_txid := Some txid\<rparr>) ks t = (t', n)"
      by (auto simp: mark_burning_def bind_res_eq_Inr)
    then show ?thesis by (rule mark_step [OF _ burn(2)]) (auto simp: utxo_wf_def utxo_key_def)
  qed (use burn in \<open>simp add: mark_burning_def step_ok_refl\<close>)
next
  case (release txid h t t' n)
  then have "t' = bt_update (\<lambda>_ u. mu_status u = UtxoBurning \<and> mu_burn_txid u = Some txid)
      (\<lambda>u. u\<lparr>mu_status := UtxoExpired, mu_status_block_height := h, mu_burn_txid := None\<rparr>) t"
    by (auto simp: release_burning_def bind_res_eq_Inr Let_def)
  then show ?case by (rule update_step [OF _ release(2)]) (auto simp: utxo_wf_def utxo_key_def)
next
  case (quarantine ks h t t' n)
  show ?case
  proof (cases "ks = []")
    case False
    with quarantine have "mark_in_transaction (\<lambda>u. mu_status u = UtxoExpired)
          (\<lambda>u. u\<lparr>mu_status := UtxoUnburnable, mu_status_block_height := h, mu_burn_txid := None\<rparr>) ks t = (t', n)"
      by (auto simp: quarantine_unburnable_def bind_res_eq_Inr)
    then show ?thesis by (rule mark_step [OF _ quarantine(2)]) (auto simp: utxo_wf_def utxo_key_def)
  qed (use quarantine in \<open>simp add: quarantine_unburnable_def step_ok_refl\<close>)
qed

subsection \<open>Runs\<close>

definition row_history :: "u64 \<Rightarrow> u64 list \<Rightarrow> monitored_utxo \<Rightarrow> bool" where
  "row_history L hs u \<longleftrightarrow>
     (if mu_status u = UtxoActive then hs \<noteq> [] \<and> unat (hd hs) < unat (mu_block_height u) + unat L
      else \<exists>h\<in>set hs. unat (mu_block_height u) + unat L \<le> unat h)"

lemma row_history_later:
  assumes "row_history L hs u" "row_step L e k u (Some v)"
    and "e = None \<and> hs' = hs \<or> (\<exists>h spent. e = Some (h, spent) \<and> hs' = h # hs)"
    and "mu_status v = UtxoActive \<Longrightarrow> e \<noteq> None \<Longrightarrow> unat (hd hs') < unat (mu_block_height v) + unat L"
  shows "row_history L hs' v"
proof (cases "mu_status v = UtxoActive")
  case True
  with assms(2) have "mu_status u = UtxoActive" "mu_block_height v = mu_block_height u"
    using same_output_fields by (cases "mu_status u"; force simp: row_step_def)+
  with assms True show ?thesis by (auto simp: row_history_def)
next
  case False
  have bh: "mu_block_height v = mu_block_height u"
    using assms(2) same_output_fields by (auto simp: row_step_def)
  have "\<exists>h\<in>set hs'. unat (mu_block_height v) + unat L \<le> unat h"
  proof (cases "mu_status u = UtxoActive")
    case True
    with assms(2) False obtain h spent where "e = Some (h, spent)" "unat (mu_block_height u) + unat L \<le> unat h"
      by (auto simp: row_step_def)
    with assms(3) bh show ?thesis by auto
  next
    case active: False
    with assms(1,3) bh show ?thesis by (auto simp: row_history_def)
  qed
  with False show ?thesis by (simp add: row_history_def)
qed

lemma utxo_run_ok:
  "utxo_run L hs t \<Longrightarrow> utxos_ok t \<and> (\<forall>k u. bt_get t k = Some u \<longrightarrow> row_history L hs u)"
proof (induction rule: utxo_run.induct)
  case start
  show ?case by (simp add: utxos_ok_def)
next
  case (block hs t h spent t')
  then have ok: "utxos_ok t" and hist: "\<And>k u. bt_get t k = Some u \<Longrightarrow> row_history L hs u" by blast+
  from block(2) obtain b issued sp n where b: "apply_utxo_block b issued sp L t = Inr (t', n)" "h = ib_height b"
    "spent = spent_key ` set sp"
    by (rule utxo_stepE) blast+
  obtain t1 where "utxos_ok t1" and t1: "utxos_ok t'"
    "\<And>k u. bt_get t k = Some u \<Longrightarrow> bt_get t1 k = Some u"
    "\<And>k u. bt_get t k = None \<Longrightarrow> bt_get t1 k = Some u \<Longrightarrow> mu_status u = UtxoActive"
    "\<And>k. bt_get t' k = (if k \<in> spent_key ` set sp then None
           else map_option (settled_row (ib_height b) L) (bt_get t1 k))"
    by (rule apply_utxo_block_get [OF b(1) ok]) (rule that)
  have "row_history L (h # hs) v" if v: "bt_get t' k = Some v" for k v
  proof -
    from v t1(4) [of k] obtain w where w: "bt_get t1 k = Some w" "v = settled_row h L w"
      by (auto simp: b(2) split: if_splits)
    have active: "mu_status v = UtxoActive \<Longrightarrow> unat h < unat (mu_block_height v) + unat L"
      using settled_row_facts(3) [where h = h and L = L and u = w] by (auto simp: w(2) lapsed_def)
    show ?thesis
    proof (cases "bt_get t k")
      case (Some u)
      with t1(2) w(1) have "w = u" by fastforce
      have "row_step L (Some (h, spent)) k u (bt_get t' k)"
        using step_ok_row [OF utxo_step_rows [OF block(2) ok] Some] .
      from row_history_later [OF hist [OF Some] this [unfolded v]] active show ?thesis by simp
    next
      case None
      from t1(3) [OF None w(1)] have "mu_status w = UtxoActive" .
      then show ?thesis using active same_output_fields [OF settled_row_facts(1) [where h = h and L = L and u = w]]
        by (cases "mu_status v = UtxoActive") (auto simp: row_history_def w(2) settled_row_def lapsed_def stuck_def split: if_splits)
    qed
  qed
  with t1(1) show ?case by blast
next
  case (other hs t t')
  then have ok: "utxos_ok t" and hist: "\<And>k u. bt_get t k = Some u \<Longrightarrow> row_history L hs u" by blast+
  note S = utxo_step_rows [OF other(2) ok]
  have "row_history L hs v" if v: "bt_get t' k = Some v" for k v
  proof (cases "bt_get t k")
    case (Some u)
    with step_ok_row [OF S Some] v have "row_step L None k u (Some v)" by simp
    from row_history_later [OF hist [OF Some] this] show ?thesis by simp
  next
    case None
    with step_ok_absent [OF S] v show ?thesis by simp
  qed
  with S show ?case unfolding step_ok_def by blast
qed

subsection \<open>The properties\<close>

text \<open>
  C22: an issued output expires when its time is over and not before. In every table the store reaches,
  a row is stored under its own outpoint, it names a burn transaction exactly while it is burning, it
  is active only as long as the last block applied is below its issue height plus the configured
  lifetime, and it left the active status only after a block at or above that height.
\<close>

theorem issued_output_lifetime:
  assumes "utxo_run L hs t" "bt_get t k = Some u"
  shows "utxo_key u = k \<and> (mu_burn_txid u \<noteq> None \<longleftrightarrow> mu_status u = UtxoBurning) \<and>
    (if mu_status u = UtxoActive then hs \<noteq> [] \<and> unat (hd hs) < unat (mu_block_height u) + unat L
     else \<exists>h\<in>set hs. unat (mu_block_height u) + unat L \<le> unat h)"
proof -
  have "utxo_wf k u" "row_history L hs u"
    using utxo_run_ok [OF assms(1)] assms(2) utxos_okD by blast+
  then show ?thesis unfolding utxo_wf_def row_history_def by blast
qed

definition toy_utxo :: monitored_utxo where
  "toy_utxo = \<lparr>mu_txid = [1], mu_output_index = 2, mu_asset_kind = ''tick-asset'', mu_amount = 17,
     mu_script_pubkey = [], mu_auth_method = ''signature-auth'', mu_auth_data = [], mu_account_owner_pubkey = [],
     mu_internal_key = None, mu_burning_fee_txid = [1], mu_burning_fee_output_index = 3, mu_block_height = 10,
     mu_status = UtxoActive, mu_status_block_height = 10, mu_burn_txid = None\<rparr>"

definition toy_expired :: monitored_utxo where
  "toy_expired = toy_utxo\<lparr>mu_status := UtxoExpired, mu_status_block_height := 70\<rparr>"

lemma toy_issue_block: "apply_utxo_block \<lparr>ib_height = 10, ib_hash = []\<rparr> [toy_utxo] [] 60 [] = Inr ([(([1], 2), toy_utxo)], 0)"
  by (simp add: apply_utxo_block_def insert_issued_def toy_utxo_def encode_u64_def utxo_key_def delete_spent_def
    expire_def bt_update_def lapsed_def revert_burns_def stuck_def bt_affected_def)

lemma toy_expiry_block:
  "apply_utxo_block \<lparr>ib_height = 70, ib_hash = []\<rparr> [] [] 60 [(([1], 2), toy_utxo)] = Inr ([(([1], 2), toy_expired)], 0)"
  by (simp add: apply_utxo_block_def toy_utxo_def toy_expired_def encode_u64_def delete_spent_def
    expire_def bt_update_def lapsed_def revert_burns_def stuck_def bt_affected_def)

lemma toy_utxo_run: "utxo_run 60 [70, 10] [(([1], 2), toy_expired)]"
proof -
  have "utxo_step 60 (Some (10, {})) [] [(([1], 2), toy_utxo)]"
    using utxo_step.block [OF toy_issue_block] by simp
  from utxo_run.block [OF utxo_run.start this] have "utxo_run 60 [10] [(([1], 2), toy_utxo)]" .
  moreover have "utxo_step 60 (Some (70, {})) [(([1], 2), toy_utxo)] [(([1], 2), toy_expired)]"
    using utxo_step.block [OF toy_expiry_block] by simp
  ultimately show ?thesis by (rule utxo_run.block)
qed

theorem issued_output_lifetime_witness:
  "mu_status toy_expired = UtxoExpired \<and> mu_burn_txid toy_expired = None \<and>
   (\<exists>h\<in>set [70, 10 :: u64]. unat (mu_block_height toy_expired) + 60 \<le> unat h)"
proof -
  have "bt_get [(([1], 2), toy_expired)] ([1], 2) = Some toy_expired" by (simp add: bt_get_def)
  from issued_output_lifetime [OF toy_utxo_run this] show ?thesis
    by (simp add: toy_expired_def toy_utxo_def)
qed

text \<open>
  What may happen to a monitored output. In one step of the store a row goes away only when a
  block spends its outpoint; otherwise its output stays the same and its status moves along the cycle
  active, expired, burning and back to expired, or from expired to unburnable for good. As long as
  the row is not spent or given up, the output that pays for its burn stays reserved.
\<close>

lemma monitored_output_steps:
  assumes "utxo_run L hs t" "utxo_step L e t t'" "bt_get t k = Some u"
  shows "(bt_get t' k = None \<longrightarrow> (\<exists>h spent. e = Some (h, spent) \<and> k \<in> spent)) \<and>
    (\<forall>v. bt_get t' k = Some v \<longrightarrow>
       same_output u v \<and>
       (mu_status u, mu_status v) \<in>
         {(UtxoActive, UtxoActive), (UtxoActive, UtxoExpired), (UtxoExpired, UtxoExpired), (UtxoExpired, UtxoBurning),
          (UtxoBurning, UtxoBurning), (UtxoBurning, UtxoExpired), (UtxoExpired, UtxoUnburnable),
          (UtxoUnburnable, UtxoUnburnable)} \<and>
       (mu_status v \<noteq> UtxoUnburnable \<longrightarrow>
          is_reserved_for_burning (mu_burning_fee_txid u, mu_burning_fee_output_index u) t'))"
proof -
  have ok: "utxos_ok t" using utxo_run_ok [OF assms(1)] by simp
  note S = utxo_step_rows [OF assms(2) ok]
  note row = step_ok_row [OF S assms(3)]
  have "is_reserved_for_burning (mu_burning_fee_txid u, mu_burning_fee_output_index u) t'"
    if v: "bt_get t' k = Some v" "mu_status v \<noteq> UtxoUnburnable" for v
  proof -
    have wf: "bt_wf t'" using S by (simp add: step_ok_def utxos_ok_def)
    have "same_output u v" using row v(1) by (simp add: row_step_def)
    then have "reserves (mu_burning_fee_txid u, mu_burning_fee_output_index u) v"
      using v(2) same_output_fields by (auto simp: reserves_def)
    moreover have "v \<in> set (bt_values t')" using v(1) set_bt_values [OF wf] by blast
    ultimately show ?thesis by (auto simp: is_reserved_for_burning_def list_ex_iff)
  qed
  moreover have "(mu_status u, mu_status v) \<in>
         {(UtxoActive, UtxoActive), (UtxoActive, UtxoExpired), (UtxoExpired, UtxoExpired), (UtxoExpired, UtxoBurning),
          (UtxoBurning, UtxoBurning), (UtxoBurning, UtxoExpired), (UtxoExpired, UtxoUnburnable),
          (UtxoUnburnable, UtxoUnburnable)}" if "may_follow (mu_status u) (mu_status v)" for v
    using that by (cases "mu_status u"; cases "mu_status v") simp_all
  ultimately show ?thesis using row by (auto simp: row_step_def split: option.splits)
qed

lemma monitored_output_steps_witness:
  "same_output toy_expired (toy_expired\<lparr>mu_status := UtxoBurning, mu_status_block_height := 71, mu_burn_txid := Some [8]\<rparr>) \<and>
   is_reserved_for_burning ([1], 3)
     [(([1], 2), toy_expired\<lparr>mu_status := UtxoBurning, mu_status_block_height := 71, mu_burn_txid := Some [8]\<rparr>)]"
proof -
  let ?t' = "[(([1], 2 :: u32), toy_expired\<lparr>mu_status := UtxoBurning, mu_status_block_height := 71, mu_burn_txid := Some [8]\<rparr>)]"
  have "mark_burning [([1], 2)] [8] 71 [(([1], 2), toy_expired)] = Inr (?t', 1)"
    by (simp add: mark_burning_def encode_u64_def mark_in_transaction_def bt_update_key_def bt_get_def toy_expired_def)
  then have "utxo_step 60 None [(([1], 2), toy_expired)] ?t'" by (rule utxo_step.burn)
  from monitored_output_steps [OF toy_utxo_run this, of "([1], 2)" toy_expired] show ?thesis
    by (simp add: bt_get_def) (simp add: toy_expired_def toy_utxo_def)
qed

end
