(* ===== verification/Asset_Store.thy ===== *)
theory Asset_Store
  imports Db_Tables
begin

text \<open>
  The network's assets, their announcements to the peers and the renewal of the Storm Eye under way
  (\<open>db/network_asset.rs\<close>). The unique columns are those of the migrations.
\<close>

definition STORM_EYE_KIND :: string where "STORM_EYE_KIND = ''storm-eye''"
definition TICK_ASSET_KIND :: string where "TICK_ASSET_KIND = ''tick-asset''"
definition ORACLE_VERIFIER_KIND :: string where "ORACLE_VERIFIER_KIND = ''oracle-verifier''"

record network_asset =
  na_kind :: string
  na_name :: string
  na_asset_id :: bytes
  na_reissuance_token_id :: "bytes option"
  na_entropy :: "bytes option"
  na_issuance_txid :: bytes
  na_contract_script :: bytes
  na_contract_data :: "bytes option"
  na_supply :: u64
  na_created_at_block :: u64

record asset_row =
  as_asset :: network_asset
  as_issuance_tx :: "bytes option"
  as_active :: bool

record storm_eye_renewal =
  sr_txid :: bytes
  sr_request :: bytes
  sr_contract_script :: bytes
  sr_contract_data :: bytes
  sr_block_height :: u64
  sr_included_at :: "u64 option"
  sr_included_hash :: "bytes option"

record asset_db =
  ad_assets :: "(string, asset_row) btree"
  ad_announcements :: "(string \<times> bytes, unit) btree"
  ad_renewal :: "storm_eye_renewal option"

subsection \<open>Assets\<close>

text \<open>The unique columns: an asset id, a reissuance token or an issuance of two kinds is refused.\<close>

definition asset_conflict :: "network_asset \<Rightarrow> asset_row \<Rightarrow> bool" where
  "asset_conflict asset row \<longleftrightarrow>
     na_asset_id (as_asset row) = na_asset_id asset \<or>
     na_reissuance_token_id asset \<noteq> None \<and> na_reissuance_token_id (as_asset row) = na_reissuance_token_id asset \<or>
     na_issuance_txid (as_asset row) = na_issuance_txid asset"

definition insert_asset :: "asset_row \<Rightarrow> asset_db \<Rightarrow> db_error + asset_db \<times> bool" where
  "insert_asset row db =
     bind_res (encode_u64 (na_supply (as_asset row))) (\<lambda>_.
     bind_res (encode_u64 (na_created_at_block (as_asset row))) (\<lambda>_.
       if bt_get (ad_assets db) (na_kind (as_asset row)) \<noteq> None then Inr (db, False)
       else if list_ex (asset_conflict (as_asset row)) (bt_values (ad_assets db)) then Inl ConstraintViolation
       else Inr (db\<lparr>ad_assets := bt_insert (na_kind (as_asset row)) row (ad_assets db)\<rparr>, True)))"

definition insert_pending_asset :: "network_asset \<Rightarrow> bytes \<Rightarrow> asset_db \<Rightarrow> db_error + asset_db \<times> bool" where
  "insert_pending_asset asset issuance_tx db =
     insert_asset \<lparr>as_asset = asset, as_issuance_tx = Some issuance_tx, as_active = False\<rparr> db"

definition insert_active_asset :: "network_asset \<Rightarrow> asset_db \<Rightarrow> db_error + asset_db \<times> bool" where
  "insert_active_asset asset db =
     insert_asset \<lparr>as_asset = asset, as_issuance_tx = None, as_active = True\<rparr> db"

definition activate_asset :: "string \<Rightarrow> asset_db \<Rightarrow> asset_db \<times> bool" where
  "activate_asset kind db =
     (let (assets, updated) = bt_update_key kind (\<lambda>row. \<not> as_active row)
            (\<lambda>row. row\<lparr>as_active := True, as_issuance_tx := None\<rparr>) (ad_assets db)
      in (db\<lparr>ad_assets := assets\<rparr>, updated = 1))"

definition get_asset :: "string \<Rightarrow> asset_db \<Rightarrow> network_asset option" where
  "get_asset kind db =
     (case bt_get (ad_assets db) kind of
        None \<Rightarrow> None
      | Some row \<Rightarrow> if as_active row then Some (as_asset row) else None)"

definition get_pending_asset :: "string \<Rightarrow> asset_db \<Rightarrow> (network_asset \<times> bytes) option" where
  "get_pending_asset kind db =
     (case bt_get (ad_assets db) kind of
        None \<Rightarrow> None
      | Some row \<Rightarrow>
          if as_active row then None
          else map_option (Pair (as_asset row)) (as_issuance_tx row))"

definition list_assets :: "asset_db \<Rightarrow> network_asset list" where
  "list_assets db = map as_asset (filter as_active (bt_values (ad_assets db)))"

subsection \<open>Announcements\<close>

definition pending_for_peer :: "bytes \<Rightarrow> asset_db \<Rightarrow> network_asset list" where
  "pending_for_peer peer db =
     map (\<lambda>(_, row). as_asset row)
       (filter (\<lambda>(kind, row). as_active row \<and> bt_get (ad_announcements db) (kind, peer) = None) (ad_assets db))"

text \<open>The announcement of an unknown kind breaks the foreign key.\<close>

definition mark_announced_to :: "string list \<Rightarrow> bytes \<Rightarrow> asset_db \<Rightarrow> db_error + asset_db" where
  "mark_announced_to kinds peer db =
     bind_res (fold_res (\<lambda>kind announcements.
         if bt_get announcements (kind, peer) \<noteq> None then Inr announcements
         else if bt_get (ad_assets db) kind = None then Inl ConstraintViolation
         else Inr (bt_insert (kind, peer) () announcements)) kinds (ad_announcements db))
       (\<lambda>announcements. Inr (db\<lparr>ad_announcements := announcements\<rparr>))"

subsection \<open>Renewals of the Storm Eye\<close>

definition record_storm_eye_renewal ::
  "bytes \<Rightarrow> bytes \<Rightarrow> bytes \<Rightarrow> bytes \<Rightarrow> u64 \<Rightarrow> asset_db \<Rightarrow> db_error + asset_db \<times> bool" where
  "record_storm_eye_renewal txid request script data height db =
     bind_res (encode_u64 height) (\<lambda>_.
       if ad_renewal db \<noteq> None then Inr (db, False)
       else Inr (db\<lparr>ad_renewal := Some \<lparr>sr_txid = txid, sr_request = request, sr_contract_script = script,
                   sr_contract_data = data, sr_block_height = height, sr_included_at = None,
                   sr_included_hash = None\<rparr>\<rparr>, True))"

definition pending_storm_eye_renewal :: "asset_db \<Rightarrow> storm_eye_renewal option" where
  "pending_storm_eye_renewal db = ad_renewal db"

definition update_renewal ::
  "bytes \<Rightarrow> (storm_eye_renewal \<Rightarrow> storm_eye_renewal) \<Rightarrow> asset_db \<Rightarrow> asset_db \<times> bool" where
  "update_renewal txid f db =
     (case ad_renewal db of
        None \<Rightarrow> (db, False)
      | Some renewal \<Rightarrow>
          if sr_txid renewal = txid then (db\<lparr>ad_renewal := Some (f renewal)\<rparr>, True) else (db, False))"

definition mark_storm_eye_renewal_included ::
  "bytes \<Rightarrow> u64 \<Rightarrow> bytes \<Rightarrow> asset_db \<Rightarrow> db_error + asset_db \<times> bool" where
  "mark_storm_eye_renewal_included txid height block_hash db =
     bind_res (encode_u64 height) (\<lambda>_.
       Inr (update_renewal txid (\<lambda>r. r\<lparr>sr_included_at := Some height, sr_included_hash := Some block_hash\<rparr>) db))"

definition mark_storm_eye_renewal_orphaned :: "bytes \<Rightarrow> asset_db \<Rightarrow> asset_db \<times> bool" where
  "mark_storm_eye_renewal_orphaned txid db =
     update_renewal txid (\<lambda>r. r\<lparr>sr_included_at := None, sr_included_hash := None\<rparr>) db"

definition set_contract :: "bytes \<Rightarrow> bytes option \<Rightarrow> asset_row \<Rightarrow> asset_row" where
  "set_contract script data row =
     row\<lparr>as_asset := (as_asset row)\<lparr>na_contract_script := script, na_contract_data := data\<rparr>\<rparr>"

definition confirm_storm_eye_renewal :: "bytes \<Rightarrow> asset_db \<Rightarrow> asset_db \<times> bool" where
  "confirm_storm_eye_renewal txid db =
     (case ad_renewal db of
        None \<Rightarrow> (db, False)
      | Some renewal \<Rightarrow>
          if sr_txid renewal = txid \<and> sr_included_hash renewal \<noteq> None then
            case bt_update_key STORM_EYE_KIND as_active
                   (set_contract (sr_contract_script renewal) (Some (sr_contract_data renewal))) (ad_assets db) of
              (assets, updated) \<Rightarrow>
                if updated \<noteq> 1 then (db, False)
                else (db\<lparr>ad_assets := assets, ad_renewal := None\<rparr>, True)
          else (db, False))"

definition index_storm_eye_renewal ::
  "network_asset \<Rightarrow> network_asset \<Rightarrow> asset_db \<Rightarrow> asset_db \<times> bool" where
  "index_storm_eye_renewal current renewed db =
     (let (assets, updated) = bt_update_key STORM_EYE_KIND
            (\<lambda>row. as_active row \<and> na_contract_script (as_asset row) = na_contract_script current \<and>
               na_contract_data (as_asset row) = na_contract_data current)
            (set_contract (na_contract_script renewed) (na_contract_data renewed)) (ad_assets db)
      in (db\<lparr>ad_assets := assets\<rparr>, updated = 1))"

subsection \<open>Facts the clients use\<close>

lemma set_contract_simps [simp]:
  "as_active (set_contract s d row) = as_active row"
  "as_asset (set_contract s d row) = (as_asset row)\<lparr>na_contract_script := s, na_contract_data := d\<rparr>"
  by (simp_all add: set_contract_def)

lemma get_asset_update_key:
  assumes "bt_update_key kind C (set_contract s d) (ad_assets db) = (assets, 1)"
    and "\<And>row. C row \<Longrightarrow> as_active row"
  shows "\<exists>asset. get_asset kind db = Some asset \<and>
    (\<forall>j. get_asset j (db\<lparr>ad_assets := assets\<rparr>) =
       (if j = kind then Some (asset\<lparr>na_contract_script := s, na_contract_data := d\<rparr>) else get_asset j db))"
proof (rule bt_update_key_cases [of "ad_assets db" kind C "set_contract s d"])
  fix row assume row: "bt_get (ad_assets db) kind = Some row" "C row"
    "bt_update_key kind C (set_contract s d) (ad_assets db) = (bt_insert kind (set_contract s d row) (ad_assets db), 1)"
  with assms(1) have "assets = bt_insert kind (set_contract s d row) (ad_assets db)" by simp
  moreover have "as_active row" using assms(2) row(2) by blast
  ultimately show ?thesis
    using row(1) by (intro exI [of _ "as_asset row"]) (auto simp: get_asset_def bt_get_insert)
next
  assume "bt_update_key kind C (set_contract s d) (ad_assets db) = (ad_assets db, 0)"
  with assms(1) show ?thesis by simp
qed

lemma index_storm_eye_renewal_True:
  assumes "index_storm_eye_renewal current renewed db = (db', True)"
  shows "\<exists>asset. get_asset STORM_EYE_KIND db = Some asset \<and> na_contract_script asset = na_contract_script current \<and>
    na_contract_data asset = na_contract_data current \<and>
    get_asset STORM_EYE_KIND db' =
      Some (asset\<lparr>na_contract_script := na_contract_script renewed, na_contract_data := na_contract_data renewed\<rparr>) \<and>
    (\<forall>j. j \<noteq> STORM_EYE_KIND \<longrightarrow> get_asset j db' = get_asset j db)"
proof -
  let ?C = "\<lambda>row. as_active row \<and> na_contract_script (as_asset row) = na_contract_script current \<and>
               na_contract_data (as_asset row) = na_contract_data current"
  let ?f = "set_contract (na_contract_script renewed) (na_contract_data renewed)"
  from assms obtain assets where a: "bt_update_key STORM_EYE_KIND ?C ?f (ad_assets db) = (assets, 1)"
    and db': "db' = db\<lparr>ad_assets := assets\<rparr>"
    by (auto simp: index_storm_eye_renewal_def Let_def split: prod.splits)
  from get_asset_update_key [OF a] obtain asset where asset: "get_asset STORM_EYE_KIND db = Some asset"
    "\<And>j. get_asset j db' = (if j = STORM_EYE_KIND then Some (asset\<lparr>na_contract_script := na_contract_script renewed,
        na_contract_data := na_contract_data renewed\<rparr>) else get_asset j db)"
    unfolding db' by blast
  moreover have "na_contract_script asset = na_contract_script current \<and> na_contract_data asset = na_contract_data current"
    using a asset(1) by (auto simp: bt_update_key_def get_asset_def split: option.splits if_splits)
  ultimately show ?thesis by simp
qed

end
