(* ===== verification/Request_Store.thy ===== *)
theory Request_Store
  imports Db_Tables
begin

text \<open>
  The users' requests of a node and the fee outputs they reserve (\<open>db/user_request.rs\<close>). An
  operation that runs in a database transaction changes nothing when one of its statements has no
  effect.
\<close>

datatype request_status = RequestPending | RequestProcessing | RequestIncluded | RequestExecuted | RequestFailed

record user_request_row =
  ur_request :: bytes
  ur_block_height :: u64
  ur_status :: request_status
  ur_payload :: "bytes option"
  ur_execution_tx :: "bytes option"
  ur_included_at_block :: "u64 option"
  ur_included_block_hash :: "bytes option"

record request_db =
  rd_requests :: "(bytes, user_request_row) btree"
  rd_fee_utxos :: "(bytes \<times> u32, bytes) btree"

datatype insert_pending_result = Inserted | RequestExists | FeeUtxoReserved "bytes \<times> u32"

definition request_db_empty :: request_db where
  "request_db_empty = \<lparr>rd_requests = [], rd_fee_utxos = []\<rparr>"

definition request_row_new :: "bytes \<Rightarrow> u64 \<Rightarrow> request_status \<Rightarrow> bytes option \<Rightarrow> user_request_row" where
  "request_row_new request height status payload =
     \<lparr>ur_request = request, ur_block_height = height, ur_status = status, ur_payload = payload,
      ur_execution_tx = None, ur_included_at_block = None, ur_included_block_hash = None\<rparr>"

text \<open>The fee outputs are reserved one after the other; the first one taken already ends the loop.\<close>

fun reserve_fee_utxos ::
  "bytes \<Rightarrow> (bytes \<times> u32) list \<Rightarrow> (bytes \<times> u32, bytes) btree \<Rightarrow> (bytes \<times> u32) + (bytes \<times> u32, bytes) btree" where
  "reserve_fee_utxos hash [] fees = Inr fees"
| "reserve_fee_utxos hash (k # ks) fees =
     (if bt_get fees k \<noteq> None then Inl k else reserve_fee_utxos hash ks (bt_insert k hash fees))"

definition insert_pending ::
  "bytes \<Rightarrow> bytes \<Rightarrow> u64 \<Rightarrow> (bytes \<times> u32) list \<Rightarrow> request_db \<Rightarrow> db_error + request_db \<times> insert_pending_result" where
  "insert_pending hash request height fee_utxos db =
     bind_res (encode_u64 height) (\<lambda>_.
       if bt_get (rd_requests db) hash \<noteq> None then Inr (db, RequestExists)
       else case reserve_fee_utxos hash fee_utxos (rd_fee_utxos db) of
         Inl k \<Rightarrow> Inr (db, FeeUtxoReserved k)
       | Inr fees \<Rightarrow>
           Inr (\<lparr>rd_requests = bt_insert hash (request_row_new request height RequestPending None) (rd_requests db),
                 rd_fee_utxos = fees\<rparr>, Inserted))"

definition pending_rows :: "request_db \<Rightarrow> (bytes \<times> user_request_row) list" where
  "pending_rows db =
     sort_key (\<lambda>(hash, row). (ur_block_height row, hash))
       (filter (\<lambda>(_, row). ur_status row = RequestPending) (rd_requests db))"

definition list_pending :: "u32 \<Rightarrow> request_db \<Rightarrow> (bytes \<times> user_request_row) list" where
  "list_pending limit db = take (unat limit) (pending_rows db)"

definition list_pending_after ::
  "u32 \<Rightarrow> (u64 \<times> bytes) option \<Rightarrow> request_db \<Rightarrow> db_error + (bytes \<times> user_request_row) list" where
  "list_pending_after limit after db =
     bind_res (case after of None \<Rightarrow> Inr (- 1) | Some (height, _) \<Rightarrow> encode_u64 height) (\<lambda>height.
       let hash = (case after of None \<Rightarrow> [] | Some (_, h) \<Rightarrow> h)
       in Inr (take (unat limit) (filter (\<lambda>(h, row).
            uint (ur_block_height row) > height \<or> uint (ur_block_height row) = height \<and> h > hash) (pending_rows db))))"

definition list_processing :: "request_db \<Rightarrow> (bytes \<times> user_request_row) list" where
  "list_processing db =
     sort_key (\<lambda>(hash, row). (ur_block_height row, hash))
       (filter (\<lambda>(_, row). ur_status row = RequestProcessing \<or> ur_status row = RequestIncluded) (rd_requests db))"

definition observe_processing :: "bytes \<Rightarrow> bytes \<Rightarrow> u64 \<Rightarrow> bytes \<Rightarrow> request_db \<Rightarrow> db_error + request_db" where
  "observe_processing hash request height payload db =
     bind_res (encode_u64 height) (\<lambda>_.
       if bt_get (rd_requests db) hash \<noteq> None then Inr db
       else Inr (db\<lparr>rd_requests := bt_insert hash
              (request_row_new request height RequestProcessing (Some payload)) (rd_requests db)\<rparr>))"

definition update_request ::
  "bytes \<Rightarrow> (user_request_row \<Rightarrow> bool) \<Rightarrow> (user_request_row \<Rightarrow> user_request_row) \<Rightarrow> request_db \<Rightarrow> request_db \<times> bool" where
  "update_request hash C f db =
     (let (requests, updated) = bt_update_key hash C f (rd_requests db)
      in (db\<lparr>rd_requests := requests\<rparr>, updated = 1))"

definition mark_processing :: "bytes \<Rightarrow> bytes \<Rightarrow> bytes \<Rightarrow> request_db \<Rightarrow> request_db \<times> bool" where
  "mark_processing hash payload execution_tx db =
     update_request hash (\<lambda>row. ur_status row = RequestPending)
       (\<lambda>row. row\<lparr>ur_status := RequestProcessing, ur_payload := Some payload,
                 ur_execution_tx := Some execution_tx\<rparr>) db"

definition mark_included :: "bytes \<Rightarrow> u64 \<Rightarrow> bytes \<Rightarrow> request_db \<Rightarrow> db_error + request_db \<times> bool" where
  "mark_included hash height block_hash db =
     bind_res (encode_u64 height) (\<lambda>_. Inr (
       update_request hash (\<lambda>row. ur_status row = RequestProcessing \<or> ur_status row = RequestIncluded)
         (\<lambda>row. row\<lparr>ur_status := RequestIncluded, ur_included_at_block := Some height,
                   ur_included_block_hash := Some block_hash\<rparr>) db))"

definition mark_orphaned :: "bytes \<Rightarrow> request_db \<Rightarrow> request_db \<times> bool" where
  "mark_orphaned hash db =
     update_request hash (\<lambda>row. ur_status row = RequestIncluded)
       (\<lambda>row. row\<lparr>ur_status := RequestProcessing, ur_included_at_block := None,
                 ur_included_block_hash := None\<rparr>) db"

definition release_fees :: "bytes \<Rightarrow> request_db \<Rightarrow> request_db" where
  "release_fees hash db = db\<lparr>rd_fee_utxos := filter (\<lambda>(_, h). h \<noteq> hash) (rd_fee_utxos db)\<rparr>"

definition mark_executed :: "bytes \<Rightarrow> request_db \<Rightarrow> request_db \<times> bool" where
  "mark_executed hash db =
     (case update_request hash (\<lambda>row. ur_status row = RequestIncluded)
             (\<lambda>row. row\<lparr>ur_status := RequestExecuted\<rparr>) db of
        (db', updated) \<Rightarrow> if updated then (release_fees hash db', True) else (db, False))"

definition mark_failed :: "bytes \<Rightarrow> bytes \<Rightarrow> request_db \<Rightarrow> request_db \<times> bool" where
  "mark_failed hash reason db =
     (case update_request hash (\<lambda>row. ur_status row = RequestPending)
             (\<lambda>row. row\<lparr>ur_status := RequestFailed, ur_payload := Some reason\<rparr>) db of
        (db', updated) \<Rightarrow> if updated then (release_fees hash db', True) else (db, False))"

definition request_statuses :: "request_status list" where
  "request_statuses = [RequestPending, RequestProcessing, RequestIncluded, RequestExecuted, RequestFailed]"

definition request_count_by_status :: "request_db \<Rightarrow> (request_status \<times> nat) list" where
  "request_count_by_status db =
     filter (\<lambda>(_, n). n \<noteq> 0)
       (map (\<lambda>s. (s, length (filter (\<lambda>(_, row). ur_status row = s) (rd_requests db)))) request_statuses)"

definition oldest_open_block_height :: "request_db \<Rightarrow> u64 option" where
  "oldest_open_block_height db =
     (case filter (\<lambda>row. ur_status row = RequestPending \<or> ur_status row = RequestProcessing) (bt_values (rd_requests db)) of
        [] \<Rightarrow> None
      | rows \<Rightarrow> Some (Min (ur_block_height ` set rows)))"

definition get_user_request :: "bytes \<Rightarrow> request_db \<Rightarrow> user_request_row option" where
  "get_user_request hash db = bt_get (rd_requests db) hash"

subsection \<open>Steps\<close>

inductive request_step :: "request_db \<Rightarrow> request_db \<Rightarrow> bool" where
  insert: "insert_pending hash request h fees db = Inr (db', r) \<Longrightarrow> request_step db db'"
| observe: "observe_processing hash request h payload db = Inr db' \<Longrightarrow> request_step db db'"
| processing: "mark_processing hash payload tx db = (db', r) \<Longrightarrow> request_step db db'"
| included: "mark_included hash h block db = Inr (db', r) \<Longrightarrow> request_step db db'"
| orphaned: "mark_orphaned hash db = (db', r) \<Longrightarrow> request_step db db'"
| executed: "mark_executed hash db = (db', r) \<Longrightarrow> request_step db db'"
| failed: "mark_failed hash reason db = (db', r) \<Longrightarrow> request_step db db'"

inductive request_run :: "request_db \<Rightarrow> bool" where
  start: "request_run request_db_empty"
| step: "request_run db \<Longrightarrow> request_step db db' \<Longrightarrow> request_run db'"

definition request_open :: "user_request_row \<Rightarrow> bool" where
  "request_open row \<longleftrightarrow> ur_status row \<in> {RequestPending, RequestProcessing, RequestIncluded}"

fun request_may_follow :: "request_status \<Rightarrow> request_status \<Rightarrow> bool" where
  "request_may_follow RequestPending s = (s = RequestPending \<or> s = RequestProcessing \<or> s = RequestFailed)"
| "request_may_follow RequestProcessing s = (s = RequestProcessing \<or> s = RequestIncluded)"
| "request_may_follow RequestIncluded s = (s = RequestIncluded \<or> s = RequestProcessing \<or> s = RequestExecuted)"
| "request_may_follow RequestExecuted s = (s = RequestExecuted)"
| "request_may_follow RequestFailed s = (s = RequestFailed)"

lemma request_may_follow_refl [simp]: "request_may_follow s s"
  by (cases s) simp_all

definition request_row_ok :: "user_request_row \<Rightarrow> bool" where
  "request_row_ok row \<longleftrightarrow>
     (ur_status row \<in> {RequestIncluded, RequestExecuted} \<longleftrightarrow> ur_included_block_hash row \<noteq> None) \<and>
     (ur_included_at_block row \<noteq> None \<longleftrightarrow> ur_included_block_hash row \<noteq> None)"

definition requests_ok :: "request_db \<Rightarrow> bool" where
  "requests_ok db \<longleftrightarrow> bt_wf (rd_requests db) \<and> bt_wf (rd_fee_utxos db) \<and>
     bt_all (\<lambda>_. request_row_ok) (rd_requests db) \<and>
     (\<forall>k hash. bt_get (rd_fee_utxos db) k = Some hash \<longrightarrow>
        (\<exists>row. bt_get (rd_requests db) hash = Some row \<and> request_open row))"

text \<open>What a step keeps: the request itself, the order of the statuses, the reservations of open requests.\<close>

definition request_moves :: "request_db \<Rightarrow> request_db \<Rightarrow> bool" where
  "request_moves db db' \<longleftrightarrow>
     (\<forall>hash row. bt_get (rd_requests db) hash = Some row \<longrightarrow>
        (\<exists>row'. bt_get (rd_requests db') hash = Some row' \<and> ur_request row' = ur_request row \<and>
           ur_block_height row' = ur_block_height row \<and>
           request_may_follow (ur_status row) (ur_status row') \<and>
           (request_open row' \<longrightarrow>
              (\<forall>k. bt_get (rd_fee_utxos db) k = Some hash \<longrightarrow> bt_get (rd_fee_utxos db') k = Some hash))))"

lemma reserve_fee_utxos_get:
  "reserve_fee_utxos hash ks fees = Inr fees' \<Longrightarrow> bt_wf fees \<Longrightarrow>
   bt_wf fees' \<and> (\<forall>k. bt_get fees' k = (if k \<in> set ks then Some hash else bt_get fees k)) \<and>
   (\<forall>k\<in>set ks. bt_get fees k = None)"
proof (induction ks arbitrary: fees)
  case (Cons k ks)
  then have k: "bt_get fees k = None" and rest: "reserve_fee_utxos hash ks (bt_insert k hash fees) = Inr fees'"
    by (auto split: if_splits)
  note IH = Cons.IH [OF rest bt_insert_wf [OF Cons.prems(2)]]
  have "bt_get fees' j = (if j \<in> set (k # ks) then Some hash else bt_get fees j)" for j
    using conjunct1 [OF conjunct2 [OF IH], rule_format, of j] by (simp add: bt_get_insert)
  moreover have "\<forall>j\<in>set ks. bt_get fees j = None"
    using IH k by (simp add: bt_get_insert) (metis option.distinct(1))
  ultimately show ?case using IH k by simp
qed simp

lemma bt_get_filter_value:
  "bt_wf m \<Longrightarrow> bt_get (filter (\<lambda>(_, v). P v) m) k = (case bt_get m k of Some v \<Rightarrow> if P v then Some v else None | None \<Rightarrow> None)"
  by (induction m) (auto simp: bt_get_def bt_wf_def map_of_eq_None_iff split: option.splits)

lemma requests_ok_row: "requests_ok db \<Longrightarrow> bt_get (rd_requests db) h = Some row \<Longrightarrow> request_row_ok row"
proof -
  assume ok: "requests_ok db" and row: "bt_get (rd_requests db) h = Some row"
  from ok have "bt_all (\<lambda>_. request_row_ok) (rd_requests db)" by (simp add: requests_ok_def)
  from bt_all_get [OF this row] show ?thesis .
qed

lemma requests_ok_fee:
  "requests_ok db \<Longrightarrow> bt_get (rd_fee_utxos db) k = Some h \<Longrightarrow>
   \<exists>row. bt_get (rd_requests db) h = Some row \<and> request_open row"
  by (cases k) (simp add: requests_ok_def)

lemma update_request_cases:
  obtains (updated) row where "bt_get (rd_requests db) hash = Some row" "C row"
    "update_request hash C f db = (db\<lparr>rd_requests := bt_insert hash (f row) (rd_requests db)\<rparr>, True)"
  | (unchanged) "update_request hash C f db = (db, False)"
proof (cases rule: bt_update_key_cases [of "rd_requests db" hash C f])
  case (updated row)
  then show ?thesis using that(1) [of row] by (simp add: update_request_def)
next
  case unchanged
  then show ?thesis using that(2) by (simp add: update_request_def)
qed

text \<open>An update that keeps the request open, and one that closes it and releases its fee outputs.\<close>

lemma replaced_row:
  assumes "requests_ok db" "bt_get (rd_requests db) hash = Some row"
    and "ur_request row' = ur_request row" "ur_block_height row' = ur_block_height row"
    and "request_may_follow (ur_status row) (ur_status row')" "request_row_ok row'"
    and "fees = (if request_open row' then rd_fee_utxos db else filter (\<lambda>(_, h). h \<noteq> hash) (rd_fee_utxos db))"
    and "db' = \<lparr>rd_requests = bt_insert hash row' (rd_requests db), rd_fee_utxos = fees\<rparr>"
  shows "requests_ok db' \<and> request_moves db db'"
proof
  have wf: "bt_wf (rd_requests db)" "bt_wf (rd_fee_utxos db)" "bt_all (\<lambda>_. request_row_ok) (rd_requests db)"
    using assms(1) by (simp_all add: requests_ok_def)
  have fees_get: "bt_get fees k = (if request_open row' then bt_get (rd_fee_utxos db) k
      else case bt_get (rd_fee_utxos db) k of Some h \<Rightarrow> if h \<noteq> hash then Some h else None | None \<Rightarrow> None)" for k
    by (simp add: assms(7) bt_get_filter_value wf(2))
  have "\<exists>r. bt_get (rd_requests db') h = Some r \<and> request_open r" if "bt_get fees k = Some h" for k h
    using that fees_get [of k] requests_ok_fee [OF assms(1), of k h]
    by (auto simp: assms(8) bt_get_insert split: if_splits option.splits)
  moreover have "bt_wf fees" using wf(2) by (simp add: assms(7) bt_wf_filter)
  ultimately show "requests_ok db'"
    using wf assms(6,8) by (simp add: requests_ok_def bt_insert_wf bt_all_insert)
  show "request_moves db db'"
    unfolding request_moves_def
  proof (intro allI impI)
    fix h r assume r: "bt_get (rd_requests db) h = Some r"
    show "\<exists>r'. bt_get (rd_requests db') h = Some r' \<and> ur_request r' = ur_request r \<and>
        ur_block_height r' = ur_block_height r \<and> request_may_follow (ur_status r) (ur_status r') \<and>
        (request_open r' \<longrightarrow> (\<forall>k. bt_get (rd_fee_utxos db) k = Some h \<longrightarrow> bt_get (rd_fee_utxos db') k = Some h))"
    proof (cases "h = hash")
      case True
      with r assms(2-5,8) fees_get show ?thesis by (intro exI [of _ row']) (simp add: bt_get_insert)
    next
      case False
      with r assms(8) fees_get show ?thesis by (intro exI [of _ r]) (simp add: bt_get_insert)
    qed
  qed
qed

lemma request_moves_refl [simp]: "request_moves db db"
  by (auto simp: request_moves_def)

lemma update_request_open:
  assumes "update_request hash C f db = (db', r)" "requests_ok db"
    and "\<And>row. request_row_ok row \<Longrightarrow> C row \<Longrightarrow>
      ur_request (f row) = ur_request row \<and> ur_block_height (f row) = ur_block_height row \<and>
      request_may_follow (ur_status row) (ur_status (f row)) \<and> request_row_ok (f row) \<and> request_open (f row)"
  shows "requests_ok db' \<and> request_moves db db'"
proof (rule update_request_cases [of db hash C f])
  fix row assume row: "bt_get (rd_requests db) hash = Some row" "C row"
    "update_request hash C f db = (db\<lparr>rd_requests := bt_insert hash (f row) (rd_requests db)\<rparr>, True)"
  have f: "ur_request (f row) = ur_request row \<and> ur_block_height (f row) = ur_block_height row \<and>
      request_may_follow (ur_status row) (ur_status (f row)) \<and> request_row_ok (f row) \<and> request_open (f row)"
    by (rule assms(3) [OF requests_ok_row [OF assms(2) row(1)] row(2)])
  have "db' = \<lparr>rd_requests = bt_insert hash (f row) (rd_requests db), rd_fee_utxos = rd_fee_utxos db\<rparr>"
    using assms(1) row(3) by (cases db) auto
  with f show ?thesis
    by (intro replaced_row [OF assms(2) row(1), where row' = "f row" and fees = "rd_fee_utxos db"]) simp_all
next
  assume "update_request hash C f db = (db, False)"
  with assms(1,2) show ?thesis by simp
qed

lemma update_request_close:
  assumes "(case update_request hash C f db of (db', u) \<Rightarrow> if u then (release_fees hash db', True) else (db, False)) = (db', r)"
    and "requests_ok db"
    and "\<And>row. request_row_ok row \<Longrightarrow> C row \<Longrightarrow>
      ur_request (f row) = ur_request row \<and> ur_block_height (f row) = ur_block_height row \<and>
      request_may_follow (ur_status row) (ur_status (f row)) \<and> request_row_ok (f row) \<and> \<not> request_open (f row)"
  shows "requests_ok db' \<and> request_moves db db'"
proof (rule update_request_cases [of db hash C f])
  fix row assume row: "bt_get (rd_requests db) hash = Some row" "C row"
    "update_request hash C f db = (db\<lparr>rd_requests := bt_insert hash (f row) (rd_requests db)\<rparr>, True)"
  have f: "ur_request (f row) = ur_request row \<and> ur_block_height (f row) = ur_block_height row \<and>
      request_may_follow (ur_status row) (ur_status (f row)) \<and> request_row_ok (f row) \<and> \<not> request_open (f row)"
    by (rule assms(3) [OF requests_ok_row [OF assms(2) row(1)] row(2)])
  have "db' = \<lparr>rd_requests = bt_insert hash (f row) (rd_requests db),
      rd_fee_utxos = filter (\<lambda>(_, h). h \<noteq> hash) (rd_fee_utxos db)\<rparr>"
    using assms(1) row(3) by (cases db) (auto simp: release_fees_def)
  with f show ?thesis
    by (intro replaced_row [OF assms(2) row(1), where row' = "f row" and
        fees = "filter (\<lambda>(_, h). h \<noteq> hash) (rd_fee_utxos db)"]) simp_all
next
  assume "update_request hash C f db = (db, False)"
  with assms(1,2) show ?thesis by simp
qed

lemma new_row:
  assumes "requests_ok db" "bt_get (rd_requests db) hash = None" "request_row_ok row"
    and "bt_wf fees" "\<And>k. bt_get fees k = (if k \<in> K then Some hash else bt_get (rd_fee_utxos db) k)"
    and "K \<noteq> {} \<Longrightarrow> request_open row" "\<forall>k\<in>K. bt_get (rd_fee_utxos db) k = None"
  shows "requests_ok \<lparr>rd_requests = bt_insert hash row (rd_requests db), rd_fee_utxos = fees\<rparr> \<and>
    request_moves db \<lparr>rd_requests = bt_insert hash row (rd_requests db), rd_fee_utxos = fees\<rparr>"
proof -
  have wf: "bt_wf (rd_requests db)" "bt_all (\<lambda>_. request_row_ok) (rd_requests db)"
    using assms(1) by (simp_all add: requests_ok_def)
  have fee: "\<exists>r. bt_get (bt_insert hash row (rd_requests db)) h = Some r \<and> request_open r" if k: "bt_get fees k = Some h" for k h
  proof (cases "k \<in> K")
    case True
    with k assms(5) [of k] assms(6) show ?thesis by (auto simp: bt_get_insert)
  next
    case False
    with k assms(5) [of k] have "bt_get (rd_fee_utxos db) k = Some h" by simp
    from requests_ok_fee [OF assms(1) this] assms(2) show ?thesis by (auto simp: bt_get_insert)
  qed
  have keep: "bt_get fees k = Some h" if "bt_get (rd_fee_utxos db) k = Some h" for k h
    using that assms(5) [of k] assms(7) by auto
  have "request_moves db \<lparr>rd_requests = bt_insert hash row (rd_requests db), rd_fee_utxos = fees\<rparr>"
    unfolding request_moves_def
  proof (intro allI impI)
    fix h r assume r: "bt_get (rd_requests db) h = Some r"
    then have "h \<noteq> hash" using assms(2) by auto
    with r keep show "\<exists>r'. bt_get (rd_requests \<lparr>rd_requests = bt_insert hash row (rd_requests db), rd_fee_utxos = fees\<rparr>) h = Some r' \<and>
        ur_request r' = ur_request r \<and> ur_block_height r' = ur_block_height r \<and> request_may_follow (ur_status r) (ur_status r') \<and>
        (request_open r' \<longrightarrow> (\<forall>k. bt_get (rd_fee_utxos db) k = Some h \<longrightarrow>
           bt_get (rd_fee_utxos \<lparr>rd_requests = bt_insert hash row (rd_requests db), rd_fee_utxos = fees\<rparr>) k = Some h))"
      by (intro exI [of _ r]) (simp add: bt_get_insert)
  qed
  then show ?thesis using wf assms(3,4) fee by (simp add: requests_ok_def bt_insert_wf bt_all_insert)
qed

lemma request_step_ok:
  "request_step db db' \<Longrightarrow> requests_ok db \<Longrightarrow> requests_ok db' \<and> request_moves db db'"
proof (induction rule: request_step.induct)
  case (insert hash request h ks db db' r)
  show ?case
  proof (cases "bt_get (rd_requests db) hash = None \<and> (\<exists>fees. reserve_fee_utxos hash ks (rd_fee_utxos db) = Inr fees)")
    case True
    then obtain fees where fees: "reserve_fee_utxos hash ks (rd_fee_utxos db) = Inr fees" by blast
    with True insert(1) have db': "db' = \<lparr>rd_requests = bt_insert hash (request_row_new request h RequestPending None) (rd_requests db),
        rd_fee_utxos = fees\<rparr>"
      by (auto simp: insert_pending_def bind_res_eq_Inr)
    have "bt_wf (rd_fee_utxos db)" using insert(2) by (simp add: requests_ok_def)
    note G = reserve_fee_utxos_get [OF fees this]
    show ?thesis unfolding db'
      by (rule new_row [OF insert(2), where K = "set ks"])
        (use True G in \<open>auto simp: request_row_ok_def request_row_new_def request_open_def\<close>)
  next
    case False
    with insert show ?thesis by (auto simp: insert_pending_def bind_res_eq_Inr split: sum.splits if_splits)
  qed
next
  case (observe hash request h payload db db')
  show ?case
  proof (cases "bt_get (rd_requests db) hash")
    case None
    with observe(1) have db': "db' = \<lparr>rd_requests = bt_insert hash (request_row_new request h RequestProcessing (Some payload)) (rd_requests db),
        rd_fee_utxos = rd_fee_utxos db\<rparr>"
      by (auto simp: observe_processing_def bind_res_eq_Inr)
    show ?thesis unfolding db'
      by (rule new_row [OF observe(2) None, where K = "{}"])
        (use observe(2) in \<open>auto simp: request_row_ok_def request_row_new_def requests_ok_def\<close>)
  next
    case (Some row)
    with observe show ?thesis by (auto simp: observe_processing_def bind_res_eq_Inr)
  qed
next
  case (processing hash payload tx db db' r)
  show ?case
    by (rule update_request_open [OF processing(1) [unfolded mark_processing_def] processing(2)])
      (auto simp: request_row_ok_def request_open_def)
next
  case (included hash h block db db' r)
  then have "update_request hash (\<lambda>row. ur_status row = RequestProcessing \<or> ur_status row = RequestIncluded)
         (\<lambda>row. row\<lparr>ur_status := RequestIncluded, ur_included_at_block := Some h,
                   ur_included_block_hash := Some block\<rparr>) db = (db', r)"
    by (auto simp: mark_included_def bind_res_eq_Inr)
  then show ?case by (rule update_request_open [OF _ included(2)]) (auto simp: request_row_ok_def request_open_def)
next
  case (orphaned hash db db' r)
  show ?case
    by (rule update_request_open [OF orphaned(1) [unfolded mark_orphaned_def] orphaned(2)])
      (auto simp: request_row_ok_def request_open_def)
next
  case (executed hash db db' r)
  show ?case
    by (rule update_request_close [OF executed(1) [unfolded mark_executed_def] executed(2)])
      (auto simp: request_row_ok_def request_open_def)
next
  case (failed hash reason db db' r)
  show ?case
    by (rule update_request_close [OF failed(1) [unfolded mark_failed_def] failed(2)])
      (auto simp: request_row_ok_def request_open_def)
qed

lemma request_run_ok: "request_run db \<Longrightarrow> requests_ok db"
proof (induction rule: request_run.induct)
  case start
  show ?case by (simp add: requests_ok_def request_db_empty_def)
qed (use request_step_ok in blast)

subsection \<open>Pages of the queue\<close>

definition request_key :: "bytes \<times> user_request_row \<Rightarrow> u64 \<times> bytes" where
  "request_key = (\<lambda>(hash, row). (ur_block_height row, hash))"

lemma pending_rows_sorted:
  assumes "bt_wf (rd_requests db)"
  shows "sorted_wrt (<) (map request_key (pending_rows db))"
proof -
  have "distinct (map fst (rd_requests db))" using assms by (rule bt_wf_distinct)
  then have d: "distinct (map fst (filter (\<lambda>(_, row). ur_status row = RequestPending) (rd_requests db)))"
    by (induction "rd_requests db") (auto intro: distinct_map_filter)
  have "distinct (map fst (pending_rows db))"
  proof -
    have "mset (map fst (pending_rows db)) = mset (map fst (filter (\<lambda>(_, row). ur_status row = RequestPending) (rd_requests db)))"
      by (simp add: pending_rows_def)
    with d show ?thesis using mset_eq_imp_distinct_iff by blast
  qed
  then have d: "distinct (pending_rows db)" and inj: "inj_on fst (set (pending_rows db))"
    by (simp_all only: distinct_map)
  have "inj_on request_key (set (pending_rows db))"
  proof (rule inj_onI)
    fix x y assume "x \<in> set (pending_rows db)" "y \<in> set (pending_rows db)" "request_key x = request_key y"
    moreover have "request_key x = request_key y \<Longrightarrow> fst x = fst y"
      by (cases x; cases y) (simp add: request_key_def)
    ultimately show "x = y" by (intro inj_onD [OF inj]) simp_all
  qed
  with d have "distinct (map request_key (pending_rows db))" by (simp only: distinct_map)
  moreover have "sorted (map request_key (pending_rows db))"
    unfolding pending_rows_def request_key_def by (rule sorted_sort_key)
  ultimately show ?thesis by (simp add: strict_sorted_iff)
qed

text \<open>Reading on behind the last entry of a page skips exactly the page.\<close>

lemma filter_behind:
  fixes f :: "'a \<Rightarrow> 'b::linorder"
  assumes "sorted_wrt (<) (map f xs)" "n < length xs"
  shows "filter (\<lambda>x. f (xs ! n) < f x) xs = drop (Suc n) xs"
  using assms
proof (induction xs arbitrary: n)
  case (Cons x xs)
  show ?case
  proof (cases n)
    case 0
    then have "filter (\<lambda>y. f x < f y) xs = xs" using Cons.prems(1) by (simp add: filter_id_conv)
    with 0 show ?thesis by simp
  next
    case (Suc m)
    then have m: "m < length xs" using Cons.prems(2) by simp
    then have "f x < f (xs ! m)" using Cons.prems(1) by simp
    then have "\<not> f (xs ! m) < f x" by simp
    with Suc m Cons show ?thesis by simp
  qed
qed simp

lemma list_pending_after_Some:
  assumes "unat height < 2 ^ 63"
  shows "list_pending_after limit (Some (height, hash)) db =
    Inr (take (unat limit) (filter (\<lambda>e. (height, hash) < request_key e) (pending_rows db)))"
proof -
  have "uint height < 2 ^ 63"
  proof -
    have "int (unat height) < int (2 ^ 63)" using assms by (simp only: of_nat_less_iff)
    then show ?thesis by simp
  qed
  then have e: "encode_u64 height = Inr (uint height)" by (simp add: encode_u64_def)
  have "(\<lambda>(h, row). uint (ur_block_height row) > uint height \<or> uint (ur_block_height row) = uint height \<and> h > hash) =
      (\<lambda>e. (height, hash) < request_key e)"
    by (auto simp: fun_eq_iff request_key_def word_less_def word_le_def less_prod_def)
  then show ?thesis by (simp add: list_pending_after_def e)
qed

lemma list_pending_after_None: "list_pending_after limit None db = Inr (take (unat limit) (pending_rows db))"
proof -
  have "(\<lambda>(h :: bytes, row :: user_request_row). uint (ur_block_height row) > - 1 \<or> uint (ur_block_height row) = - 1 \<and> h > []) = (\<lambda>_. True)"
  proof
    fix e :: "bytes \<times> user_request_row"
    have "- 1 < uint (ur_block_height (snd e))" by (rule less_le_trans [of _ 0]) simp_all
    then show "(case e of (h, row) \<Rightarrow> uint (ur_block_height row) > - 1 \<or> uint (ur_block_height row) = - 1 \<and> h > []) = True"
      by (simp add: case_prod_unfold)
  qed
  then show ?thesis by (simp add: list_pending_after_def)
qed

subsection \<open>The properties\<close>

text \<open>
  C23: a fee output is reserved for one open request. In every store the node reaches, an output is
  reserved only for a request that is stored and neither executed nor failed; and from one state to
  the next a request stays stored with its contents, its status moves from pending to processing or
  failed, between processing and included, and from included to executed, and as long as it is open
  every output reserved for it stays reserved for it.
\<close>

theorem fee_outputs_reserved_while_open:
  assumes "request_run db" "request_step db db'"
  shows "(\<forall>k hash. bt_get (rd_fee_utxos db) k = Some hash \<longrightarrow>
       (\<exists>row. bt_get (rd_requests db) hash = Some row \<and> ur_status row \<notin> {RequestExecuted, RequestFailed})) \<and>
    (\<forall>hash row. bt_get (rd_requests db) hash = Some row \<longrightarrow>
       (\<exists>row'. bt_get (rd_requests db') hash = Some row' \<and> ur_request row' = ur_request row \<and>
          (ur_status row' = ur_status row \<or> (ur_status row, ur_status row') \<in>
             {(RequestPending, RequestProcessing), (RequestPending, RequestFailed), (RequestProcessing, RequestIncluded),
              (RequestIncluded, RequestProcessing), (RequestIncluded, RequestExecuted)}) \<and>
          (ur_status row' \<notin> {RequestExecuted, RequestFailed} \<longrightarrow>
             (\<forall>k. bt_get (rd_fee_utxos db) k = Some hash \<longrightarrow> bt_get (rd_fee_utxos db') k = Some hash))))"
proof -
  have ok: "requests_ok db" by (rule request_run_ok [OF assms(1)])
  have closed: "request_open row \<longleftrightarrow> ur_status row \<notin> {RequestExecuted, RequestFailed}" for row
    by (cases "ur_status row") (simp_all add: request_open_def)
  have moves: "request_may_follow s s' \<Longrightarrow> s' = s \<or> (s, s') \<in>
       {(RequestPending, RequestProcessing), (RequestPending, RequestFailed), (RequestProcessing, RequestIncluded),
        (RequestIncluded, RequestProcessing), (RequestIncluded, RequestExecuted)}" for s s'
    by (cases s) auto
  have "\<forall>k hash. bt_get (rd_fee_utxos db) k = Some hash \<longrightarrow>
       (\<exists>row. bt_get (rd_requests db) hash = Some row \<and> ur_status row \<notin> {RequestExecuted, RequestFailed})"
    using requests_ok_fee [OF ok] unfolding closed by blast
  moreover have "\<exists>row'. bt_get (rd_requests db') hash = Some row' \<and> ur_request row' = ur_request row \<and>
          (ur_status row' = ur_status row \<or> (ur_status row, ur_status row') \<in>
             {(RequestPending, RequestProcessing), (RequestPending, RequestFailed), (RequestProcessing, RequestIncluded),
              (RequestIncluded, RequestProcessing), (RequestIncluded, RequestExecuted)}) \<and>
          (ur_status row' \<notin> {RequestExecuted, RequestFailed} \<longrightarrow>
             (\<forall>k. bt_get (rd_fee_utxos db) k = Some hash \<longrightarrow> bt_get (rd_fee_utxos db') k = Some hash))"
    if row: "bt_get (rd_requests db) hash = Some row" for hash row
  proof -
    have "request_moves db db'" using request_step_ok [OF assms(2) ok] by simp
    then obtain row' where row': "bt_get (rd_requests db') hash = Some row'" "ur_request row' = ur_request row"
      "request_may_follow (ur_status row) (ur_status row')"
      and fees: "request_open row' \<longrightarrow>
        (\<forall>k. bt_get (rd_fee_utxos db) k = Some hash \<longrightarrow> bt_get (rd_fee_utxos db') k = Some hash)"
      using row unfolding request_moves_def by blast
    show ?thesis
      by (intro exI [of _ row'] conjI row'(1,2) moves [OF row'(3)] fees [unfolded closed])
  qed
  ultimately show ?thesis by blast
qed

definition toy_requests :: request_db where
  "toy_requests = \<lparr>rd_requests = [([5], request_row_new [9] 3 RequestPending None)], rd_fee_utxos = [(([1], 0), [5])]\<rparr>"

lemma toy_requests_run: "request_run toy_requests"
proof -
  have "insert_pending [5] [9] 3 [([1], 0)] request_db_empty = Inr (toy_requests, Inserted)"
    by (simp add: insert_pending_def encode_u64_def request_db_empty_def bt_get_def toy_requests_def)
  from request_run.step [OF request_run.start request_step.insert [OF this]] show ?thesis .
qed

theorem fee_outputs_reserved_while_open_witness:
  "\<exists>row'. bt_get (rd_requests (fst (mark_processing [5] [6] [7] toy_requests))) [5] = Some row' \<and>
     ur_request row' = [9] \<and> bt_get (rd_fee_utxos (fst (mark_processing [5] [6] [7] toy_requests))) ([1], 0) = Some [5]"
proof -
  let ?db' = "fst (mark_processing [5] [6] [7] toy_requests)"
  have "request_step toy_requests ?db'" by (rule request_step.processing [OF surjective_pairing])
  from conjunct2 [OF fee_outputs_reserved_while_open [OF toy_requests_run this], rule_format,
      of "[5]" "request_row_new [9] 3 RequestPending None"]
  obtain row' where row': "bt_get (rd_requests ?db') [5] = Some row'" "ur_request row' = [9]"
    and fees: "ur_status row' \<notin> {RequestExecuted, RequestFailed} \<longrightarrow>
      (\<forall>k. bt_get (rd_fee_utxos toy_requests) k = Some [5] \<longrightarrow> bt_get (rd_fee_utxos ?db') k = Some [5])"
    by (auto simp: toy_requests_def bt_get_def request_row_new_def)
  have "ur_status row' = RequestProcessing"
    using row'(1) by (simp add: mark_processing_def update_request_def bt_update_key_def toy_requests_def bt_get_def
      request_row_new_def) auto
  with row' fees show ?thesis by (simp add: toy_requests_def bt_get_def)
qed

text \<open>
  A round that walks the queue in pages sees every pending request once, in the order of arrival.
  The page after the last entry of the requests read so far continues exactly where they end, whatever
  the limits are.
\<close>

lemma pending_pages_continue:
  assumes "request_run db" "0 < n" "n \<le> length (pending_rows db)"
    and "pending_rows db ! (n - 1) = (hash, row)" "unat (ur_block_height row) < 2 ^ 63"
  shows "list_pending_after limit (Some (ur_block_height row, hash)) db =
      Inr (take (unat limit) (drop n (pending_rows db))) \<and>
    list_pending_after limit None db = Inr (list_pending limit db) \<and>
    sorted_wrt (\<lambda>(h, r) (h', r'). (ur_block_height r, h) < (ur_block_height r', h')) (pending_rows db) \<and>
    set (pending_rows db) = {(h, r). bt_get (rd_requests db) h = Some r \<and> ur_status r = RequestPending}"
proof -
  have wf: "bt_wf (rd_requests db)" using request_run_ok [OF assms(1)] by (simp add: requests_ok_def)
  note sorted = pending_rows_sorted [OF wf]
  have key: "(ur_block_height row, hash) = request_key (pending_rows db ! (n - 1))"
    unfolding assms(4) by (simp add: request_key_def)
  have "filter (\<lambda>e. (ur_block_height row, hash) < request_key e) (pending_rows db) = drop n (pending_rows db)"
    unfolding key using filter_behind [OF sorted, of "n - 1"] assms(2,3) by simp
  moreover have "sorted_wrt (\<lambda>(h, r) (h', r'). (ur_block_height r, h) < (ur_block_height r', h')) (pending_rows db)"
    using sorted unfolding sorted_wrt_map by (rule sorted_wrt_mono_rel [rotated]) (auto simp: request_key_def)
  moreover have "set (pending_rows db) = {(h, r). bt_get (rd_requests db) h = Some r \<and> ur_status r = RequestPending}"
    using bt_get_eq_Some_iff [OF wf] by (auto simp: pending_rows_def)
  ultimately show ?thesis
    using list_pending_after_Some [OF assms(5), of limit hash db] list_pending_after_None [of limit db]
    by (simp add: list_pending_def)
qed

lemma pending_pages_continue_witness:
  "list_pending_after 10 (Some (3, [5])) toy_requests = Inr [] \<and>
   pending_rows toy_requests = [([5], request_row_new [9] 3 RequestPending None)]"
proof -
  have p: "pending_rows toy_requests = [([5], request_row_new [9] 3 RequestPending None)]"
    by (simp add: pending_rows_def toy_requests_def request_row_new_def)
  have "pending_rows toy_requests ! (1 - 1) = ([5], request_row_new [9] 3 RequestPending None)" by (simp add: p)
  from conjunct1 [OF pending_pages_continue [OF toy_requests_run _ _ this, of 10]] p
  show ?thesis by (simp add: request_row_new_def)
qed

end
