(* ===== verification/Chain_Store.thy ===== *)
theory Chain_Store
  imports Asset_Store Droplet_Store Utxo_Store Request_Store Voting_Store
begin

text \<open>
  The journal of the canonical chain and the recovery from a reorganisation (\<open>db/chain.rs\<close>), over the
  whole database \<open>node_db\<close>: \<open>reset_projections\<close> clears everything that is derived from the chain and
  saves the locks of exchanges under way.
\<close>

definition CANONICAL_JOURNAL_RETENTION_BLOCKS :: u64 where
  "CANONICAL_JOURNAL_RETENTION_BLOCKS = 144"

record canonical_block =
  cb_height :: u64
  cb_hash :: bytes
  cb_parent_hash :: bytes

record recovery_state =
  rs_recovering :: bool
  rs_fork_height :: "u64 option"
  rs_safe_halted :: bool
  rs_halt_reason :: "string option"
  rs_migration_paused :: bool
  rs_droplets_halt :: "(u64 \<times> string) option"

record pending_chain_lock =
  pl_member :: bytes
  pl_amount :: int
  pl_block_height :: int
  pl_transaction :: bytes

record asset_transition =
  tn_block_hash :: bytes
  tn_previous_script :: bytes
  tn_previous_data :: "bytes option"
  tn_next_script :: bytes
  tn_next_data :: "bytes option"

text \<open>
  A finalised member migration: the row of the migration with its two peer snapshots. A peer's key is
  stored in hexadecimal, which is left out here.
\<close>

record migration_row =
  mg_execution_txid :: bytes
  mg_block_height :: u64
  mg_block_hash :: bytes
  mg_asset_kind :: string
  mg_previous_script :: bytes
  mg_previous_data :: "bytes option"
  mg_next_script :: bytes
  mg_next_data :: "bytes option"
  mg_previous_coordinator :: bytes
  mg_next_coordinator :: bytes
  mg_previous_peers :: "peer list"
  mg_next_peers :: "peer list"

record finalized_migration =
  fm_request_hash :: bytes
  fm_block_height :: u64
  fm_block_hash :: bytes
  fm_asset_kind :: string
  fm_previous_script :: bytes
  fm_previous_data :: "bytes option"
  fm_next_script :: bytes
  fm_next_data :: "bytes option"
  fm_previous_members :: "bytes list"
  fm_next_members :: "bytes list"

record node_db =
  nd_blocks :: "(u64, canonical_block) btree"
  nd_recovery :: recovery_state
  nd_locks :: "(bytes, pending_chain_lock) btree"
  nd_history :: "(u64 \<times> string, asset_transition) btree"
  nd_migrations :: "(bytes, migration_row) btree"
  nd_assets :: asset_db
  nd_droplets :: droplet_db
  nd_utxos :: utxo_table
  nd_cursors :: cursor_table
  nd_requests :: request_db
  nd_votings :: voting_db
  nd_peers :: "peer list"
  nd_coordinator :: "bytes option"

subsection \<open>The journal\<close>

definition blocks_descending :: "node_db \<Rightarrow> canonical_block list" where
  "blocks_descending db = rev (bt_values (nd_blocks db))"

definition chain_tip_of :: "node_db \<Rightarrow> canonical_block option" where
  "chain_tip_of db = (case blocks_descending db of [] \<Rightarrow> None | b # _ \<Rightarrow> Some b)"

definition first_retained :: "u64 \<Rightarrow> u64" where
  "first_retained height = sat_sub (sat_add height 1) CANONICAL_JOURNAL_RETENTION_BLOCKS"

definition record_block :: "canonical_block \<Rightarrow> node_db \<Rightarrow> db_error + node_db" where
  "record_block block db =
     bind_res (encode_u64 (cb_height block)) (\<lambda>_.
       if bt_get (nd_blocks db) (cb_height block) \<noteq> None \<or>
          list_ex (\<lambda>b. cb_hash b = cb_hash block) (bt_values (nd_blocks db))
       then Inl ConstraintViolation
       else bind_res (encode_u64 (first_retained (cb_height block))) (\<lambda>_.
         Inr (db\<lparr>nd_blocks := filter (\<lambda>(h, _). first_retained (cb_height block) \<le> h)
                (bt_insert (cb_height block) block (nd_blocks db))\<rparr>)))"

definition record_asset_transition ::
  "canonical_block \<Rightarrow> network_asset \<Rightarrow> network_asset \<Rightarrow> node_db \<Rightarrow> db_error + node_db" where
  "record_asset_transition block current renewed db =
     bind_res (encode_u64 (cb_height block)) (\<lambda>_.
       if bt_get (nd_history db) (cb_height block, na_kind current) \<noteq> None then Inl ConstraintViolation
       else Inr (db\<lparr>nd_history := bt_insert (cb_height block, na_kind current)
              \<lparr>tn_block_hash = cb_hash block, tn_previous_script = na_contract_script current,
               tn_previous_data = na_contract_data current, tn_next_script = na_contract_script renewed,
               tn_next_data = na_contract_data renewed\<rparr> (nd_history db)\<rparr>))"

subsection \<open>The recovery state\<close>

definition set_migration_paused :: "bool \<Rightarrow> node_db \<Rightarrow> node_db" where
  "set_migration_paused paused db = db\<lparr>nd_recovery := (nd_recovery db)\<lparr>rs_migration_paused := paused\<rparr>\<rparr>"

definition set_recovering :: "u64 \<Rightarrow> node_db \<Rightarrow> db_error + node_db" where
  "set_recovering fork_height db =
     bind_res (encode_u64 fork_height) (\<lambda>_.
       Inr (db\<lparr>nd_recovery := (nd_recovery db)\<lparr>rs_recovering := True, rs_fork_height := Some fork_height\<rparr>\<rparr>))"

definition safe_halt :: "string \<Rightarrow> node_db \<Rightarrow> node_db" where
  "safe_halt reason db =
     db\<lparr>nd_recovery := (nd_recovery db)\<lparr>rs_recovering := True, rs_safe_halted := True,
        rs_halt_reason := Some reason\<rparr>\<rparr>"

definition finish_recovery :: "node_db \<Rightarrow> node_db" where
  "finish_recovery db =
     db\<lparr>nd_locks := [], nd_recovery := (nd_recovery db)\<lparr>rs_recovering := False, rs_fork_height := None\<rparr>\<rparr>"

definition ledger_halt :: "node_db \<Rightarrow> (u64 \<times> string) option" where
  "ledger_halt db = rs_droplets_halt (nd_recovery db)"

definition halt_ledger :: "u64 \<Rightarrow> string \<Rightarrow> node_db \<Rightarrow> db_error + node_db" where
  "halt_ledger height reason db =
     bind_res (encode_u64 height) (\<lambda>_.
       Inr (db\<lparr>nd_recovery := (nd_recovery db)\<lparr>rs_droplets_halt := Some (height, reason)\<rparr>\<rparr>))"

subsection \<open>Migrations of the members\<close>

definition finalized_member_migrations ::
  "(bytes \<Rightarrow> bytes option) \<Rightarrow> node_db \<Rightarrow> db_error + finalized_migration list" where
  "finalized_member_migrations xonly db =
     map_res (\<lambda>(hash, row).
         bind_res (map_res (\<lambda>p. ok_or DecodeOutOfRange (xonly (pe_public_key p))) (mg_previous_peers row)) (\<lambda>previous.
         bind_res (map_res (\<lambda>p. ok_or DecodeOutOfRange (xonly (pe_public_key p))) (mg_next_peers row)) (\<lambda>next.
           Inr \<lparr>fm_request_hash = hash, fm_block_height = mg_block_height row, fm_block_hash = mg_block_hash row,
                fm_asset_kind = mg_asset_kind row, fm_previous_script = mg_previous_script row,
                fm_previous_data = mg_previous_data row, fm_next_script = mg_next_script row,
                fm_next_data = mg_next_data row, fm_previous_members = previous, fm_next_members = next\<rparr>)))
       (sort_key (\<lambda>(hash, row). (mg_block_height row, hash)) (nd_migrations db))"

subsection \<open>The reset\<close>

text \<open>The locks saved by an earlier reset win over those of the ledger.\<close>

definition saved_locks :: "node_db \<Rightarrow> (bytes, pending_chain_lock) btree" where
  "saved_locks db =
     fold (\<lambda>(member, row) locks.
         case dr_last_tx row of
           None \<Rightarrow> locks
         | Some transaction \<Rightarrow>
             if dr_locked row \<and> bt_get locks member = None
             then bt_insert member \<lparr>pl_member = member, pl_amount = dr_exchange_amount row,
                    pl_block_height = dr_block_height row, pl_transaction = transaction\<rparr> locks
             else locks)
       (dp_droplets (nd_droplets db)) (nd_locks db)"

text \<open>
  The contracts the transitions replaced, from the last to the first; renewals and migrations of the
  same block in either order, as the union of the two tables leaves open: renewals come first here.
\<close>

definition transitions_descending :: "node_db \<Rightarrow> (u64 \<times> string \<times> bytes \<times> bytes option) list" where
  "transitions_descending db =
     sort_key (\<lambda>(height, _). 2 ^ 64 - unat height)
       (map (\<lambda>((height, kind), t). (height, kind, tn_previous_script t, tn_previous_data t)) (nd_history db) @
        map (\<lambda>(_, m). (mg_block_height m, mg_asset_kind m, mg_previous_script m, mg_previous_data m)) (nd_migrations db))"

definition restore_contract :: "u64 \<times> string \<times> bytes \<times> bytes option \<Rightarrow> asset_db \<Rightarrow> asset_db" where
  "restore_contract = (\<lambda>(_, kind, script, data) db.
     db\<lparr>ad_assets := fst (bt_update_key kind as_active (set_contract script data) (ad_assets db))\<rparr>)"

definition reset_user_requests :: "request_db \<Rightarrow> request_db" where
  "reset_user_requests db =
     db\<lparr>rd_requests := bt_update (\<lambda>_ row. ur_status row = RequestIncluded)
       (\<lambda>row. row\<lparr>ur_status := RequestProcessing, ur_included_at_block := None,
                 ur_included_block_hash := None\<rparr>) (rd_requests db)\<rparr>"

definition reset_votings :: "voting_db \<Rightarrow> voting_db" where
  "reset_votings db =
     db\<lparr>vd_requests := bt_update (\<lambda>_ row. \<not> vr_confirmed row)
       (\<lambda>row. row\<lparr>vr_included_at := None, vr_included_hash := None\<rparr>) (vd_requests db)\<rparr>"

definition reset_projections :: "node_db \<Rightarrow> node_db \<times> pending_chain_lock list" where
  "reset_projections db =
     (let locks = saved_locks db;
          assets = fold restore_contract (transitions_descending db) (nd_assets db)
      in (db\<lparr>nd_locks := locks, nd_history := [], nd_utxos := [], nd_cursors := [], nd_blocks := [],
             nd_recovery := (nd_recovery db)\<lparr>rs_droplets_halt := None\<rparr>,
             nd_droplets := (nd_droplets db)\<lparr>dp_droplets := [], dp_treasury := []\<rparr>,
             nd_assets := assets\<lparr>ad_renewal := map_option
               (\<lambda>r. r\<lparr>sr_included_at := None, sr_included_hash := None\<rparr>) (ad_renewal assets)\<rparr>,
             nd_requests := reset_user_requests (nd_requests db),
             nd_votings := reset_votings (nd_votings db)\<rparr>,
          bt_values locks))"

end
