(* ===== verification/Network_Store.thy ===== *)
theory Network_Store
  imports Chain_Store
begin

text \<open>
  The stored network (\<open>db/network.rs\<close>): the peers in their order, the coordinator, and the member
  migration that replaces both together with the contract of the Storm Eye and the votings. The time
  at which the network was initialised is written and never read; it is left out. \<open>xonly\<close> parses a
  compressed public key and gives its x-only form.
\<close>

datatype network_error =
    NetworkDatabase db_error
  | NotInitialized
  | InvalidPublicKey bytes
  | TimestampOutOfRange
  | MigrationAssetNotUpdated
  | MigrationExecutionNotUpdated
  | DuplicateMemberIdentity bytes

definition timestamp_ok :: "u64 option \<Rightarrow> bool" where
  "timestamp_ok t = (case t of None \<Rightarrow> True | Some s \<Rightarrow> uint s < 2 ^ 63)"

text \<open>The peers are inserted one by one; a key that is there already breaks the primary key.\<close>

fun insert_peers :: "peer list \<Rightarrow> peer list \<Rightarrow> network_error + peer list" where
  "insert_peers [] stored = Inr stored"
| "insert_peers (p # ps) stored =
     (if \<not> timestamp_ok (pe_last_seen p) then Inl TimestampOutOfRange
      else if pe_public_key p \<in> pe_public_key ` set stored then Inl (NetworkDatabase ConstraintViolation)
      else insert_peers ps (stored @ [p]))"

definition save_network :: "peer list \<Rightarrow> bytes \<Rightarrow> node_db \<Rightarrow> network_error + node_db" where
  "save_network peers coordinator db =
     bind_res (insert_peers peers []) (\<lambda>stored.
       Inr (db\<lparr>nd_peers := stored, nd_coordinator := Some coordinator\<rparr>))"

fun update_runtime :: "peer list \<Rightarrow> peer list \<Rightarrow> network_error + peer list" where
  "update_runtime [] stored = Inr stored"
| "update_runtime (p # ps) stored =
     (if \<not> timestamp_ok (pe_last_seen p) then Inl TimestampOutOfRange
      else update_runtime ps (map (\<lambda>q. if pe_public_key q = pe_public_key p then p else q) stored))"

definition load_network :: "node_db \<Rightarrow> network_error + peer list" where
  "load_network db = (if nd_coordinator db = None then Inl NotInitialized else Inr (nd_peers db))"

definition load_coordinator_public_key :: "node_db \<Rightarrow> network_error + bytes" where
  "load_coordinator_public_key db = ok_or NotInitialized (nd_coordinator db)"

fun unique_identities :: "(bytes \<Rightarrow> bytes option) \<Rightarrow> peer list \<Rightarrow> bytes set \<Rightarrow> network_error + unit" where
  "unique_identities xonly [] seen = Inr ()"
| "unique_identities xonly (p # ps) seen =
     (case xonly (pe_public_key p) of
        None \<Rightarrow> Inl (InvalidPublicKey (pe_public_key p))
      | Some identity \<Rightarrow>
          if identity \<in> seen then Inl (DuplicateMemberIdentity identity)
          else unique_identities xonly ps (insert identity seen))"

definition validate_unique_member_identities :: "(bytes \<Rightarrow> bytes option) \<Rightarrow> peer list \<Rightarrow> network_error + unit" where
  "validate_unique_member_identities xonly peers = unique_identities xonly peers {}"

record confirmed_execution =
  cx_request_hash :: bytes
  cx_txid :: bytes
  cx_block_height :: u64
  cx_block_hash :: bytes

definition insert_migration :: "confirmed_execution \<Rightarrow> migration_row \<Rightarrow> node_db \<Rightarrow> network_error + node_db" where
  "insert_migration execution row db =
     (if \<not> uint (cx_block_height execution) < 2 ^ 63 then Inl TimestampOutOfRange
      else if bt_get (nd_migrations db) (cx_request_hash execution) \<noteq> None \<or>
              list_ex (\<lambda>m. mg_execution_txid m = cx_txid execution) (bt_values (nd_migrations db))
      then Inl (NetworkDatabase ConstraintViolation)
      else Inr (db\<lparr>nd_migrations := bt_insert (cx_request_hash execution) row (nd_migrations db)\<rparr>))"

text \<open>The voting is confirmed, and every other one that is not goes away with its approvals.\<close>

definition confirm_migration_voting :: "confirmed_execution \<Rightarrow> voting_db \<Rightarrow> network_error + voting_db" where
  "confirm_migration_voting execution votings =
     (case update_row (cx_request_hash execution)
             (\<lambda>row. vr_txid row = Some (cx_txid execution) \<and> vr_request row \<noteq> None \<and> \<not> vr_confirmed row)
             (\<lambda>row. row\<lparr>vr_started := False, vr_confirmed := True\<rparr>) votings of
        (votings1, updated) \<Rightarrow>
          if updated \<noteq> 1 then Inl MigrationExecutionNotUpdated
          else Inr (votings1\<lparr>
            vd_approvals := filter (\<lambda>((hash, _), _).
                case bt_get (vd_requests votings1) hash of Some row \<Rightarrow> vr_confirmed row | None \<Rightarrow> True)
              (vd_approvals votings1),
            vd_requests := filter (\<lambda>(_, row). vr_confirmed row) (vd_requests votings1)\<rparr>))"

definition apply_member_migration ::
  "(bytes \<Rightarrow> bytes option) \<Rightarrow> peer list \<Rightarrow> bytes \<Rightarrow> string \<Rightarrow> bytes \<Rightarrow> bytes \<Rightarrow> confirmed_execution \<Rightarrow> node_db \<Rightarrow>
   network_error + node_db" where
  "apply_member_migration xonly peers coordinator asset_kind script data execution db =
     bind_res (validate_unique_member_identities xonly peers) (\<lambda>_.
     bind_res (ok_or (NetworkDatabase RowNotFound) (nd_coordinator db)) (\<lambda>previous_coordinator.
     bind_res (ok_or MigrationAssetNotUpdated (get_asset asset_kind (nd_assets db))) (\<lambda>previous.
     bind_res (insert_migration execution
         \<lparr>mg_execution_txid = cx_txid execution, mg_block_height = cx_block_height execution,
          mg_block_hash = cx_block_hash execution, mg_asset_kind = asset_kind,
          mg_previous_script = na_contract_script previous, mg_previous_data = na_contract_data previous,
          mg_next_script = script, mg_next_data = Some data,
          mg_previous_coordinator = previous_coordinator, mg_next_coordinator = coordinator,
          mg_previous_peers = nd_peers db, mg_next_peers = peers\<rparr> db) (\<lambda>db1.
     bind_res (insert_peers peers []) (\<lambda>stored.
       case bt_update_key asset_kind as_active (set_contract script (Some data)) (ad_assets (nd_assets db1)) of
         (assets, updated) \<Rightarrow>
           if updated \<noteq> 1 then Inl MigrationAssetNotUpdated
           else bind_res (confirm_migration_voting execution (nd_votings db1)) (\<lambda>votings.
             Inr (db1\<lparr>nd_peers := stored, nd_coordinator := Some coordinator,
                     nd_assets := (nd_assets db1)\<lparr>ad_assets := assets\<rparr>, nd_votings := votings,
                     nd_recovery := (nd_recovery db1)\<lparr>rs_migration_paused := False\<rparr>\<rparr>)))))))"

subsection \<open>Facts\<close>

lemma insert_peers_Inr: "insert_peers ps stored = Inr res \<Longrightarrow> res = stored @ ps"
  by (induction ps arbitrary: stored) (fastforce split: if_splits)+

lemma unique_identities_Inr:
  "unique_identities xonly ps seen = Inr () \<Longrightarrow>
   \<exists>ids. map_opt (\<lambda>p. xonly (pe_public_key p)) ps = Some ids \<and> distinct ids \<and> set ids \<inter> seen = {}"
proof (induction ps arbitrary: seen)
  case (Cons p ps)
  then obtain i where i: "xonly (pe_public_key p) = Some i" "i \<notin> seen"
    "unique_identities xonly ps (insert i seen) = Inr ()"
    by (auto split: option.splits if_splits)
  from Cons.IH [OF i(3)] obtain ids where "map_opt (\<lambda>p. xonly (pe_public_key p)) ps = Some ids"
    "distinct ids" "set ids \<inter> insert i seen = {}" by blast
  with i(1,2) show ?case by auto
qed simp

text \<open>
  A member migration is applied as a whole. When it succeeds the peers and the coordinator are
  exactly the new ones, with pairwise different identities, the contract is the new one and every other
  asset is as before, the executed voting is confirmed and no unconfirmed voting is left, and the
  journal of migrations has the old and the new state.
\<close>

lemma member_migration_applied:
  assumes "apply_member_migration xonly peers coordinator kind script data execution db = Inr db'"
    and "bt_wf (vd_requests (nd_votings db))"
  shows "nd_peers db' = peers \<and> nd_coordinator db' = Some coordinator \<and>
    (\<exists>ids. map_opt (\<lambda>p. xonly (pe_public_key p)) peers = Some ids \<and> distinct ids) \<and>
    (\<exists>previous. get_asset kind (nd_assets db) = Some previous \<and>
       (\<forall>j. get_asset j (nd_assets db') =
          (if j = kind then Some (previous\<lparr>na_contract_script := script, na_contract_data := Some data\<rparr>)
           else get_asset j (nd_assets db))) \<and>
       (\<exists>row. bt_get (nd_migrations db') (cx_request_hash execution) = Some row \<and>
          mg_previous_script row = na_contract_script previous \<and> mg_previous_data row = na_contract_data previous \<and>
          mg_next_script row = script \<and> mg_previous_peers row = nd_peers db \<and> mg_next_peers row = peers)) \<and>
    (\<forall>hash row. bt_get (vd_requests (nd_votings db')) hash = Some row \<longrightarrow> vr_confirmed row) \<and>
    bt_get (vd_requests (nd_votings db')) (cx_request_hash execution) \<noteq> None \<and>
    \<not> rs_migration_paused (nd_recovery db')"
proof -
  let ?update = "bt_update_key kind as_active (set_contract script (Some data))"
  from assms(1) obtain previous_coordinator previous db1 stored where
    v: "validate_unique_member_identities xonly peers = Inr ()"
    and p: "get_asset kind (nd_assets db) = Some previous"
    and m: "insert_migration execution
         \<lparr>mg_execution_txid = cx_txid execution, mg_block_height = cx_block_height execution,
          mg_block_hash = cx_block_hash execution, mg_asset_kind = kind,
          mg_previous_script = na_contract_script previous, mg_previous_data = na_contract_data previous,
          mg_next_script = script, mg_next_data = Some data,
          mg_previous_coordinator = previous_coordinator, mg_next_coordinator = coordinator,
          mg_previous_peers = nd_peers db, mg_next_peers = peers\<rparr> db = Inr db1"
    and s: "insert_peers peers [] = Inr stored"
    and rest: "(case ?update (ad_assets (nd_assets db1)) of
         (assets, updated) \<Rightarrow>
           if updated \<noteq> 1 then Inl MigrationAssetNotUpdated
           else bind_res (confirm_migration_voting execution (nd_votings db1)) (\<lambda>votings.
             Inr (db1\<lparr>nd_peers := stored, nd_coordinator := Some coordinator,
                     nd_assets := (nd_assets db1)\<lparr>ad_assets := assets\<rparr>, nd_votings := votings,
                     nd_recovery := (nd_recovery db1)\<lparr>rs_migration_paused := False\<rparr>\<rparr>))) = Inr db'"
    unfolding apply_member_migration_def bind_res_eq_Inr ok_or_eq_Inr by auto
  obtain assets n where n: "?update (ad_assets (nd_assets db1)) = (assets, n)" by (rule prod.exhaust)
  from rest [unfolded n prod.case] obtain votings where
    c: "confirm_migration_voting execution (nd_votings db1) = Inr votings" and n1: "n = 1"
    and db': "db' = db1\<lparr>nd_peers := stored, nd_coordinator := Some coordinator,
                     nd_assets := (nd_assets db1)\<lparr>ad_assets := assets\<rparr>, nd_votings := votings,
                     nd_recovery := (nd_recovery db1)\<lparr>rs_migration_paused := False\<rparr>\<rparr>"
    by (auto simp: bind_res_eq_Inr split: if_splits)
  note a = n [unfolded n1]
  obtain row where db1: "db1 = db\<lparr>nd_migrations := bt_insert (cx_request_hash execution) row (nd_migrations db)\<rparr>"
    and row: "mg_previous_script row = na_contract_script previous" "mg_previous_data row = na_contract_data previous"
      "mg_next_script row = script" "mg_previous_peers row = nd_peers db" "mg_next_peers row = peers"
    using m by (auto simp: insert_migration_def split: if_splits)
  have ids: "\<exists>ids. map_opt (\<lambda>p. xonly (pe_public_key p)) peers = Some ids \<and> distinct ids"
    using unique_identities_Inr [OF v [unfolded validate_unique_member_identities_def]] by auto
  have "stored = peers" using insert_peers_Inr [OF s] by simp
  have asset: "\<forall>j. get_asset j (nd_assets db') = (if j = kind then Some (previous\<lparr>na_contract_script := script,
      na_contract_data := Some data\<rparr>) else get_asset j (nd_assets db))"
    using get_asset_update_key [OF a] p by (auto simp: db' db1)
  have wf: "bt_wf (vd_requests (nd_votings db1))" using assms(2) by (simp add: db1)
  from c obtain vrow where vrow: "bt_get (vd_requests (nd_votings db1)) (cx_request_hash execution) = Some vrow"
    and req: "vd_requests votings = filter (\<lambda>(_, row). vr_confirmed row)
      (bt_insert (cx_request_hash execution) (vrow\<lparr>vr_started := False, vr_confirmed := True\<rparr>) (vd_requests (nd_votings db1)))"
    by (auto simp: confirm_migration_voting_def update_row_def split: option.splits if_splits)
  have get: "bt_get (vd_requests votings) hash =
      (case bt_get (bt_insert (cx_request_hash execution) (vrow\<lparr>vr_started := False, vr_confirmed := True\<rparr>)
          (vd_requests (nd_votings db1))) hash of
         Some r \<Rightarrow> if vr_confirmed r then Some r else None | None \<Rightarrow> None)" for hash
    unfolding req by (rule bt_get_filter_value [OF bt_insert_wf [OF wf]])
  have confirmed: "\<forall>hash r. bt_get (vd_requests (nd_votings db')) hash = Some r \<longrightarrow> vr_confirmed r"
    by (auto simp: db' get split: option.splits if_splits)
  have "bt_get (vd_requests (nd_votings db')) (cx_request_hash execution) \<noteq> None"
    by (simp add: db' get bt_get_insert)
  moreover have "bt_get (nd_migrations db') (cx_request_hash execution) = Some row"
    by (simp add: db' db1 bt_get_insert)
  ultimately show ?thesis
    using ids asset confirmed p row \<open>stored = peers\<close> by (intro conjI) (auto simp: db')
qed

definition toy_peer :: "bytes \<Rightarrow> peer" where
  "toy_peer key = \<lparr>pe_public_key = key, pe_socket_address = None, pe_last_seen = None, pe_status = PeerActive,
     pe_discovery = False\<rparr>"

definition toy_storm_eye :: network_asset where
  "toy_storm_eye = \<lparr>na_kind = STORM_EYE_KIND, na_name = ''Storm Eye'', na_asset_id = [1], na_reissuance_token_id = None,
     na_entropy = None, na_issuance_txid = [2], na_contract_script = [3], na_contract_data = Some [4],
     na_supply = 100, na_created_at_block = 5\<rparr>"

definition toy_voting :: voting_row where
  "toy_voting = \<lparr>vr_message = [1], vr_proposer = None, vr_block_height = 3, vr_approved_at = Some 4, vr_started = True,
     vr_transaction = Some [5], vr_request = Some [6], vr_txid = Some [7], vr_confirmed = False,
     vr_included_at = Some 8, vr_included_hash = Some [9]\<rparr>"

definition node_db_empty :: node_db where
  "node_db_empty = \<lparr>nd_blocks = [],
     nd_recovery = \<lparr>rs_recovering = False, rs_fork_height = None, rs_safe_halted = False, rs_halt_reason = None,
       rs_migration_paused = False, rs_droplets_halt = None\<rparr>,
     nd_locks = [], nd_history = [], nd_migrations = [],
     nd_assets = \<lparr>ad_assets = [], ad_announcements = [], ad_renewal = None\<rparr>,
     nd_droplets = droplet_db_empty, nd_utxos = [], nd_cursors = [], nd_requests = request_db_empty,
     nd_votings = \<lparr>vd_requests = [], vd_approvals = []\<rparr>, nd_peers = [], nd_coordinator = None\<rparr>"

definition toy_node_db :: node_db where
  "toy_node_db = node_db_empty\<lparr>
     nd_assets := \<lparr>ad_assets = [(STORM_EYE_KIND, \<lparr>as_asset = toy_storm_eye, as_issuance_tx = None, as_active = True\<rparr>)],
       ad_announcements = [], ad_renewal = None\<rparr>,
     nd_votings := \<lparr>vd_requests = [([1], toy_voting), ([2], toy_voting\<lparr>vr_txid := None\<rparr>)], vd_approvals = []\<rparr>,
     nd_peers := [toy_peer [2]], nd_coordinator := Some [2]\<rparr>"

lemma member_migration_applied_witness:
  "\<exists>db'. apply_member_migration Some [toy_peer [3], toy_peer [2]] [3] STORM_EYE_KIND [10] [11]
       \<lparr>cx_request_hash = [1], cx_txid = [7], cx_block_height = 8, cx_block_hash = [9]\<rparr> toy_node_db = Inr db' \<and>
     nd_peers db' = [toy_peer [3], toy_peer [2]] \<and> nd_coordinator db' = Some [3] \<and>
     map_option na_contract_script (get_asset STORM_EYE_KIND (nd_assets db')) = Some [10]"
proof -
  let ?x = "\<lparr>cx_request_hash = [1], cx_txid = [7], cx_block_height = 8, cx_block_hash = [9]\<rparr>"
  have g: "get_asset STORM_EYE_KIND (nd_assets toy_node_db) = Some toy_storm_eye"
    by (simp add: toy_node_db_def get_asset_def bt_get_def)
  have i: "insert_peers [toy_peer [3], toy_peer [2]] [] = Inr [toy_peer [3], toy_peer [2]]"
    by (simp add: toy_peer_def timestamp_ok_def)
  have m: "insert_migration ?x row toy_node_db = Inr (toy_node_db\<lparr>nd_migrations := [([1], row)]\<rparr>)" for row
    by (simp add: insert_migration_def toy_node_db_def node_db_empty_def bt_get_def bt_values_def)
  have c: "confirm_migration_voting ?x (nd_votings toy_node_db) =
      Inr \<lparr>vd_requests = [([1], toy_voting\<lparr>vr_started := False, vr_confirmed := True\<rparr>)], vd_approvals = []\<rparr>"
    by (simp add: confirm_migration_voting_def toy_node_db_def update_row_def bt_get_def) (simp add: toy_voting_def)
  have u: "bt_update_key STORM_EYE_KIND as_active (set_contract [10] (Some [11])) (ad_assets (nd_assets toy_node_db)) =
      ([(STORM_EYE_KIND, set_contract [10] (Some [11]) \<lparr>as_asset = toy_storm_eye, as_issuance_tx = None, as_active = True\<rparr>)], 1)"
    by (simp add: bt_update_key_def toy_node_db_def bt_get_def)
  have v: "validate_unique_member_identities Some [toy_peer [3], toy_peer [2]] = Inr ()"
    by (simp add: validate_unique_member_identities_def toy_peer_def)
  have n: "nd_coordinator toy_node_db = Some [2]" by (simp add: toy_node_db_def)
  obtain db' where db': "apply_member_migration Some [toy_peer [3], toy_peer [2]] [3] STORM_EYE_KIND [10] [11] ?x toy_node_db = Inr db'"
    using c u by (simp add: apply_member_migration_def v n g i m del: insert_peers.simps)
  have wf: "bt_wf (vd_requests (nd_votings toy_node_db))" by (simp add: toy_node_db_def bt_wf_def)
  note T = member_migration_applied [OF db' wf]
  then have "map_option na_contract_script (get_asset STORM_EYE_KIND (nd_assets db')) = Some [10]" by auto
  with T db' show ?thesis by blast
qed

end
