(* ===== verification/Elements_Tx.thy ===== *)
theory Elements_Tx
  imports Asset_Store Droplet_Store Storm_Tree
begin

text \<open>
  The transactions of the Elements chain as the node reads and builds them: outputs with their
  explicit or confidential fields, inputs with their issuances, and partially signed transactions.
  The Elements library, the contracts' programs and the encodings are not part of the repository's
  sources: they are the functions of the record \<open>elements_env\<close>, an argument of the definitions that
  call them. The small checks that every builder and validator of a transaction shares
  (\<open>witness_utxo\<close>, \<open>require_explicit_utxo\<close>, \<open>require_preserved_output\<close>, \<open>is_fully_explicit_output\<close>) are
  those at the end of \<open>high_storm/user_requests.rs\<close>.
\<close>

subsection \<open>Data\<close>

datatype 'a confidential = NullField | ExplicitField 'a | ConfidentialField bytes

fun explicit_value :: "'a confidential \<Rightarrow> 'a option" where
  "explicit_value (ExplicitField v) = Some v"
| "explicit_value _ = None"

fun commitment :: "'a confidential \<Rightarrow> bytes option" where
  "commitment (ConfidentialField c) = Some c"
| "commitment _ = None"

definition is_null_field :: "'a confidential \<Rightarrow> bool" where
  "is_null_field c = (case c of NullField \<Rightarrow> True | _ \<Rightarrow> False)"

definition is_confidential :: "'a confidential \<Rightarrow> bool" where
  "is_confidential c = (commitment c \<noteq> None)"

record tx_out =
  to_asset :: "bytes confidential"
  to_value :: "u64 confidential"
  to_nonce :: "bytes confidential"
  to_script :: bytes
  to_witness :: bytes

record asset_issuance =
  ai_blinding_nonce :: bytes
  ai_entropy :: bytes
  ai_amount :: "u64 confidential"
  ai_inflation_keys :: "u64 confidential"

record tx_in =
  ti_previous :: outpoint
  ti_is_pegin :: bool
  ti_issuance :: asset_issuance
  ti_witness :: bytes

record transaction =
  tx_input :: "tx_in list"
  tx_output :: "tx_out list"
  tx_lock_time :: u32

definition issuance_is_null :: "asset_issuance \<Rightarrow> bool" where
  "issuance_is_null i = (is_null_field (ai_amount i) \<and> is_null_field (ai_inflation_keys i))"

definition null_nonce :: "bytes \<Rightarrow> bool" where
  "null_nonce nonce = (\<forall>b \<in> set nonce. b = 0)"

record pset_input =
  pi_previous_txid :: bytes
  pi_previous_index :: u32
  pi_witness_utxo :: "tx_out option"
  pi_amount :: "u64 option"
  pi_asset :: "bytes option"
  pi_blind_value_proof :: "bytes option"
  pi_blind_asset_proof :: "bytes option"
  pi_issuance_amount :: "u64 option"
  pi_issuance_amount_comm :: "bytes option"
  pi_issuance_rangeproof :: "bytes option"
  pi_issuance_blind_value_proof :: "bytes option"
  pi_issuance_entropy :: "bytes option"
  pi_final_witness :: "bytes list option"

record pset_output =
  po_script :: bytes
  po_amount :: "u64 option"
  po_asset :: "bytes option"
  po_amount_comm :: "bytes option"
  po_asset_comm :: "bytes option"
  po_value_rangeproof :: "bytes option"
  po_asset_surjection_proof :: "bytes option"
  po_blinding_key :: "bytes option"
  po_ecdh_pubkey :: "bytes option"
  po_blinder_index :: "u32 option"
  po_blind_value_proof :: "bytes option"
  po_blind_asset_proof :: "bytes option"

record pset =
  ps_inputs :: "pset_input list"
  ps_outputs :: "pset_output list"
  ps_lock_time :: u32

datatype simplicity_network =
  Liquid
| LiquidTestnet
| ElementsCustom (custom_policy_asset: bytes) (custom_genesis: bytes)
| DefaultRegtest

record storm_eye_contract_data =
  sd_storm_tree_root :: bytes
  sd_rescue_height :: u32
  sd_rescue_script_hash :: bytes

text \<open>The program of a Storm Eye with its two storage slots.\<close>

record auth_program =
  ap_rescue_script_hash :: bytes
  ap_storage :: "bytes list"

record tx_out_secrets =
  os_asset :: bytes
  os_asset_blinder :: bytes
  os_value :: u64
  os_value_blinder :: bytes

datatype script_item = OpReturn | PushBytes bytes | OtherOp u8 | MalformedItem

record voucher_arguments =
  va_storm_eye_asset_id :: bytes
  va_auth_method :: u32
  va_auth_asset_id :: bytes
  va_auth_script_hash :: bytes
  va_auth_pubkey :: bytes

text \<open>
  What a Storm Eye is spent for, the cases of \<open>contracts/simf/auth.simf\<close>, and the witness of the spend: the
  program's storage, the network's signature with the branch that made it, and the packed proof of the branch.
\<close>

datatype auth_kind = Inclusion u32 | RootUpdate bytes u32 | RescueBlockUpdate u32 u32 | SplitEye u8 | MergeEyes u8

record auth_witness =
  aw_root :: bytes
  aw_rescue_height :: u32
  aw_signature :: bytes
  aw_branch :: bytes
  aw_proof :: "(bool \<times> bytes) option list"
  aw_kind :: auth_kind

datatype address_params = ParamsLiquid | ParamsLiquidTestnet | ParamsElements

record address =
  ad_script :: bytes
  ad_params :: address_params
  ad_blinded :: bool

record elements_env =
  ee_instructions :: "bytes \<Rightarrow> script_item list"
  ee_op_return :: "bytes \<Rightarrow> bytes"
  ee_unspendable :: "bytes \<Rightarrow> bool"
  ee_to_txout :: "pset_output \<Rightarrow> tx_out"
  ee_decode_pset :: "bytes \<Rightarrow> pset option"
  ee_encode_pset :: "pset \<Rightarrow> bytes"
  ee_extract_tx :: "pset \<Rightarrow> string + transaction"
  ee_decode_tx :: "bytes \<Rightarrow> transaction option"
  ee_encode_tx :: "transaction \<Rightarrow> bytes"
  ee_txid :: "transaction \<Rightarrow> bytes"
  ee_policy_asset :: "simplicity_network \<Rightarrow> bytes"
  ee_treasury_script :: "bytes \<Rightarrow> simplicity_network \<Rightarrow> bytes"
  ee_account_script :: "bytes \<Rightarrow> bytes \<Rightarrow> simplicity_network \<Rightarrow> bytes"
  ee_auth_script :: "auth_program \<Rightarrow> simplicity_network \<Rightarrow> bytes"
  ee_decode_contract :: "bytes \<Rightarrow> storm_eye_contract_data option"
  ee_encode_contract :: "storm_eye_contract_data \<Rightarrow> bytes"
  ee_sighash_all :: "auth_program \<Rightarrow> pset \<Rightarrow> nat \<Rightarrow> simplicity_network \<Rightarrow> string + bytes"
  ee_tagged_digest :: "string \<Rightarrow> bytes \<Rightarrow> bytes"
  ee_x_only :: "bytes \<Rightarrow> bytes option"
  ee_valid_x_only :: "bytes \<Rightarrow> bool"
  ee_hex_decode :: "string \<Rightarrow> bytes option"
  ee_hash_script :: "bytes \<Rightarrow> bytes"
  ee_voucher_script :: "voucher_arguments \<Rightarrow> bytes option \<Rightarrow> simplicity_network \<Rightarrow> bytes"
  ee_unblind :: "tx_out \<Rightarrow> tx_out_secrets option"
  ee_sha256 :: "bytes \<Rightarrow> bytes"
  ee_aggregate_key :: "bytes list \<Rightarrow> bytes"
  ee_verify_schnorr :: "bytes \<Rightarrow> bytes \<Rightarrow> bytes \<Rightarrow> bool"
  ee_verify_amounts :: "transaction \<Rightarrow> tx_out list \<Rightarrow> bool"
  ee_valid_signature :: "bytes \<Rightarrow> bool"
  ee_parse_address :: "string \<Rightarrow> address option"
  ee_build_pset :: "(outpoint \<times> tx_out \<times> (u64 \<times> bytes) option) list \<Rightarrow> (bytes \<times> u64 \<times> bytes) list \<Rightarrow> pset"
  ee_finalize_auth :: "auth_program \<Rightarrow> auth_witness \<Rightarrow> pset \<Rightarrow> nat \<Rightarrow> simplicity_network \<Rightarrow> string + bytes list"
  ee_finalize_treasury :: "bytes \<Rightarrow> pset \<Rightarrow> nat \<Rightarrow> simplicity_network \<Rightarrow> string + bytes list"
  ee_finalize_account :: "bytes \<Rightarrow> bytes \<Rightarrow> pset \<Rightarrow> nat \<Rightarrow> simplicity_network \<Rightarrow> string + bytes list"
  ee_finalize_voucher :: "voucher_arguments \<times> bytes option \<Rightarrow> pset \<Rightarrow> nat \<Rightarrow> simplicity_network \<Rightarrow> string + bytes list"
  ee_weight :: "transaction \<Rightarrow> nat"

text \<open>
  What the code relies on of a data output: reading the script back gives the return operation and
  the one push that was written.
\<close>

definition op_return_law :: "elements_env \<Rightarrow> bytes \<Rightarrow> bool" where
  "op_return_law env data \<longleftrightarrow> ee_instructions env (ee_op_return env data) = [OpReturn, PushBytes data]"

text \<open>An explicit output of a partially signed transaction is the same output of the transaction.\<close>

definition to_txout_law :: "elements_env \<Rightarrow> bool" where
  "to_txout_law env \<longleftrightarrow>
     (\<forall>out. to_script (ee_to_txout env out) = po_script out \<and>
        (po_asset_comm out = None \<longrightarrow> to_asset (ee_to_txout env out) =
           (case po_asset out of None \<Rightarrow> NullField | Some a \<Rightarrow> ExplicitField a)) \<and>
        (po_amount_comm out = None \<longrightarrow> to_value (ee_to_txout env out) =
           (case po_amount out of None \<Rightarrow> NullField | Some v \<Rightarrow> ExplicitField v)))"

text \<open>The transaction of a partially signed one has its outputs, and its inputs in order.\<close>

definition extract_law :: "elements_env \<Rightarrow> bool" where
  "extract_law env \<longleftrightarrow>
     (\<forall>p t. ee_extract_tx env p = Inr t \<longrightarrow>
        tx_output t = map (ee_to_txout env) (ps_outputs p) \<and>
        map ti_previous (tx_input t) = map (\<lambda>i. (pi_previous_txid i, pi_previous_index i)) (ps_inputs p))"

text \<open>
  A transaction that is put together from unspent outputs and new outputs, given as script, amount and asset,
  has them in this order, the new ones explicit.
\<close>

definition build_law :: "elements_env \<Rightarrow> bool" where
  "build_law env \<longleftrightarrow>
     (\<forall>ins outs. list_all2 (\<lambda>i (outpoint, out, _). (pi_previous_txid i, pi_previous_index i) = outpoint \<and>
           pi_witness_utxo i = Some out) (ps_inputs (ee_build_pset env ins outs)) ins \<and>
        ps_outputs (ee_build_pset env ins outs) = map (\<lambda>(script, amount, asset).
           \<lparr>po_script = script, po_amount = Some amount, po_asset = Some asset, po_amount_comm = None,
            po_asset_comm = None, po_value_rangeproof = None, po_asset_surjection_proof = None,
            po_blinding_key = None, po_ecdh_pubkey = None, po_blinder_index = None,
            po_blind_value_proof = None, po_blind_asset_proof = None\<rparr>) outs)"

subsection \<open>Shared checks\<close>

datatype user_request_error =
  RequestMissingAsset string
| RequestInvalid string
| RequestTransaction
| RequestStormEye string
| RequestRpc
| RequestUnsupportedChain string
| RequestSigning string
| RequestProgram string
| RequestEncoding
| RequestPset string
| InstructedPriceRefused
| RequestDatabase db_error

definition witness_utxo :: "pset \<Rightarrow> nat \<Rightarrow> user_request_error + tx_out" where
  "witness_utxo p index =
     ok_or (RequestInvalid ''input has no witness UTXO'')
       (if index < length (ps_inputs p) then pi_witness_utxo (ps_inputs p ! index) else None)"

definition require_explicit_utxo ::
  "tx_out \<Rightarrow> bytes \<Rightarrow> bytes \<Rightarrow> string \<Rightarrow> user_request_error + unit" where
  "require_explicit_utxo utxo asset script name =
     (if explicit_value (to_asset utxo) \<noteq> Some asset \<or> to_script utxo \<noteq> script
      then Inl (RequestInvalid (''invalid '' @ name @ '' input''))
      else if explicit_value (to_value utxo) = None
      then Inl (RequestInvalid (name @ '' input must be explicit''))
      else Inr ())"

definition require_preserved_output ::
  "elements_env \<Rightarrow> pset \<Rightarrow> nat \<Rightarrow> tx_out \<Rightarrow> string \<Rightarrow> user_request_error + unit" where
  "require_preserved_output env p index input name =
     (if index < length (ps_outputs p) then
        (let out = ee_to_txout env (ps_outputs p ! index)
         in if to_asset out \<noteq> to_asset input \<or> to_value out \<noteq> to_value input \<or> to_script out \<noteq> to_script input
            then Inl (RequestInvalid (name @ '' is not preserved''))
            else Inr ())
      else Inl (RequestInvalid (''missing '' @ name @ '' output'')))"

definition is_fully_explicit_output :: "pset_output \<Rightarrow> bool" where
  "is_fully_explicit_output out \<longleftrightarrow>
     po_amount out \<noteq> None \<and> po_asset out \<noteq> None \<and> po_amount_comm out = None \<and>
     po_asset_comm out = None \<and> po_value_rangeproof out = None \<and>
     po_asset_surjection_proof out = None \<and> po_blinding_key out = None \<and>
     po_ecdh_pubkey out = None \<and> po_blinder_index out = None \<and>
     po_blind_value_proof out = None \<and> po_blind_asset_proof out = None"

definition ZERO_BLINDER :: bytes where
  "ZERO_BLINDER = replicate 32 0"

definition explicit_txout_secrets :: "tx_out \<Rightarrow> user_request_error + tx_out_secrets" where
  "explicit_txout_secrets out =
     bind_res (ok_or (RequestInvalid ''expected explicit transaction asset'') (explicit_value (to_asset out))) (\<lambda>asset.
     bind_res (ok_or (RequestInvalid ''expected explicit transaction value'') (explicit_value (to_value out))) (\<lambda>v.
       Inr \<lparr>os_asset = asset, os_asset_blinder = ZERO_BLINDER, os_value = v, os_value_blinder = ZERO_BLINDER\<rparr>))"

subsection \<open>The program of the Storm Eye\<close>

datatype asset_error =
  AssetDatabase db_error
| AssetEncoding
| AssetConflict string
| AssetRpc
| InvalidRpcResponse string
| AssetUnsupportedChain string
| RescueHeight
| InvalidAnnouncement string string
| MissingFundingUtxo
| ConfidentialOutput u32

definition rescue_block_slot :: "u32 \<Rightarrow> bytes" where
  "rescue_block_slot height = replicate 28 0 @ be_bytes 4 (unat height)"

definition storm_eye_contract_data :: "elements_env \<Rightarrow> network_asset \<Rightarrow> asset_error + storm_eye_contract_data" where
  "storm_eye_contract_data env asset =
     bind_res (ok_or (InvalidRpcResponse ''Storm Eye contract data'') (na_contract_data asset)) (\<lambda>encoded.
       ok_or AssetEncoding (ee_decode_contract env encoded))"

definition storm_eye_program :: "elements_env \<Rightarrow> network_asset \<Rightarrow> asset_error + auth_program" where
  "storm_eye_program env asset =
     bind_res (storm_eye_contract_data env asset) (\<lambda>data.
       Inr \<lparr>ap_rescue_script_hash = sd_rescue_script_hash data,
            ap_storage = [sd_storm_tree_root data, rescue_block_slot (sd_rescue_height data)]\<rparr>)"

definition RESCUE_BLOCKS :: u64 where
  "RESCUE_BLOCKS = 1576800"

definition next_storm_eye_rescue_height :: "u32 \<Rightarrow> asset_error + u32" where
  "next_storm_eye_rescue_height current =
     (let height = sat_add (ucast current :: u64) RESCUE_BLOCKS
      in if unat height < 2 ^ 32 then Inr (ucast height) else Inl RescueHeight)"

definition renewed_storm_eye ::
  "elements_env \<Rightarrow> network_asset \<Rightarrow> simplicity_network \<Rightarrow> asset_error + network_asset" where
  "renewed_storm_eye env storm_eye network =
     bind_res (storm_eye_contract_data env storm_eye) (\<lambda>data.
     bind_res (next_storm_eye_rescue_height (sd_rescue_height data)) (\<lambda>height.
       let renewed = storm_eye\<lparr>na_contract_data :=
             Some (ee_encode_contract env (data\<lparr>sd_rescue_height := height\<rparr>))\<rparr>
       in bind_res (storm_eye_program env renewed) (\<lambda>program.
            Inr (renewed\<lparr>na_contract_script := ee_auth_script env program network\<rparr>))))"

definition STORM_EYE_TAG :: string where
  "STORM_EYE_TAG = ''OracleNetworkV1/StormEye''"

text \<open>\<open>issuance_signing_hash\<close>, and \<open>signing_hash\<close> of every module with its own errors.\<close>

definition signing_hash ::
  "elements_env \<Rightarrow> (asset_error \<Rightarrow> 'e) \<Rightarrow> (string \<Rightarrow> 'e) \<Rightarrow> pset \<Rightarrow> network_asset \<Rightarrow> simplicity_network \<Rightarrow>
   'e + bytes" where
  "signing_hash env asset_err program_err p storm_eye network =
     bind_res (map_err asset_err (storm_eye_program env storm_eye)) (\<lambda>program.
     bind_res (map_err program_err (ee_sighash_all env program p 0 network)) (\<lambda>sighash.
       Inr (ee_tagged_digest env STORM_EYE_TAG sighash)))"

subsection \<open>Lemmas\<close>

lemma explicit_value_Some [simp]: "explicit_value c = Some v \<longleftrightarrow> c = ExplicitField v"
  by (cases c) auto

lemma explicit_value_None: "explicit_value c = None \<longleftrightarrow> (\<forall>v. c \<noteq> ExplicitField v)"
  by (cases c) auto

lemma commitment_Some [simp]: "commitment c = Some b \<longleftrightarrow> c = ConfidentialField b"
  by (cases c) auto

lemma witness_utxo_eq_Inr:
  "witness_utxo p i = Inr u \<longleftrightarrow> i < length (ps_inputs p) \<and> pi_witness_utxo (ps_inputs p ! i) = Some u"
  by (simp add: witness_utxo_def ok_or_eq_Inr)

lemma require_explicit_utxo_Inr:
  "require_explicit_utxo u asset script name = Inr x \<longleftrightarrow>
   to_asset u = ExplicitField asset \<and> to_script u = script \<and> (\<exists>v. to_value u = ExplicitField v)"
  by (cases "explicit_value (to_value u)") (auto simp: require_explicit_utxo_def)

lemma require_preserved_output_Inr:
  "require_preserved_output env p i input name = Inr x \<longleftrightarrow>
   i < length (ps_outputs p) \<and> to_asset (ee_to_txout env (ps_outputs p ! i)) = to_asset input \<and>
   to_value (ee_to_txout env (ps_outputs p ! i)) = to_value input \<and>
   to_script (ee_to_txout env (ps_outputs p ! i)) = to_script input"
  by (auto simp: require_preserved_output_def Let_def)

lemma to_txout_explicit:
  assumes "to_txout_law env" "is_fully_explicit_output out"
  shows "to_script (ee_to_txout env out) = po_script out"
    and "to_asset (ee_to_txout env out) = ExplicitField (the (po_asset out))"
    and "to_value (ee_to_txout env out) = ExplicitField (the (po_amount out))"
  using assms by (auto simp: to_txout_law_def is_fully_explicit_output_def)

subsection \<open>A concrete environment for the witnesses\<close>

text \<open>Simple functions that obey the laws above; the scripts of the programs differ in their first byte.\<close>

definition toy_field :: "bytes option \<Rightarrow> 'a option \<Rightarrow> 'a confidential" where
  "toy_field comm v =
     (case comm of Some c \<Rightarrow> ConfidentialField c
      | None \<Rightarrow> (case v of None \<Rightarrow> NullField | Some x \<Rightarrow> ExplicitField x))"

definition toy_to_txout :: "pset_output \<Rightarrow> tx_out" where
  "toy_to_txout out =
     \<lparr>to_asset = toy_field (po_asset_comm out) (po_asset out),
      to_value = toy_field (po_amount_comm out) (po_amount out),
      to_nonce = NullField, to_script = po_script out, to_witness = []\<rparr>"

definition toy_issuance :: asset_issuance where
  "toy_issuance = \<lparr>ai_blinding_nonce = replicate 32 0, ai_entropy = replicate 32 0, ai_amount = NullField,
                  ai_inflation_keys = NullField\<rparr>"

definition toy_extract :: "pset \<Rightarrow> transaction" where
  "toy_extract p =
     \<lparr>tx_input = map (\<lambda>i. \<lparr>ti_previous = (pi_previous_txid i, pi_previous_index i), ti_is_pegin = False,
                           ti_issuance = toy_issuance, ti_witness = []\<rparr>) (ps_inputs p),
      tx_output = map toy_to_txout (ps_outputs p), tx_lock_time = ps_lock_time p\<rparr>"

definition toy_instructions :: "bytes \<Rightarrow> script_item list" where
  "toy_instructions script =
     (case script of [] \<Rightarrow> [] | b # data \<Rightarrow> if b = 0x6A then [OpReturn, PushBytes data] else [OtherOp b])"

definition toy_input :: "outpoint \<times> tx_out \<times> (u64 \<times> bytes) option \<Rightarrow> pset_input" where
  "toy_input = (\<lambda>((txid, vout), out, issuance).
     \<lparr>pi_previous_txid = txid, pi_previous_index = vout, pi_witness_utxo = Some out, pi_amount = None,
      pi_asset = None, pi_blind_value_proof = None, pi_blind_asset_proof = None,
      pi_issuance_amount = map_option fst issuance, pi_issuance_amount_comm = None,
      pi_issuance_rangeproof = None, pi_issuance_blind_value_proof = None,
      pi_issuance_entropy = map_option snd issuance, pi_final_witness = None\<rparr>)"

definition toy_output :: "bytes \<times> u64 \<times> bytes \<Rightarrow> pset_output" where
  "toy_output = (\<lambda>(script, amount, asset).
     \<lparr>po_script = script, po_amount = Some amount, po_asset = Some asset, po_amount_comm = None,
      po_asset_comm = None, po_value_rangeproof = None, po_asset_surjection_proof = None,
      po_blinding_key = None, po_ecdh_pubkey = None, po_blinder_index = None,
      po_blind_value_proof = None, po_blind_asset_proof = None\<rparr>)"

definition toy_build ::
  "(outpoint \<times> tx_out \<times> (u64 \<times> bytes) option) list \<Rightarrow> (bytes \<times> u64 \<times> bytes) list \<Rightarrow> pset" where
  "toy_build ins outs = \<lparr>ps_inputs = map toy_input ins, ps_outputs = map toy_output outs, ps_lock_time = 0\<rparr>"

definition toy_elements :: elements_env where
  "toy_elements =
     \<lparr>ee_instructions = toy_instructions,
      ee_op_return = (\<lambda>data. 0x6A # data),
      ee_unspendable = (\<lambda>script. take 1 script = [0x6A]),
      ee_to_txout = toy_to_txout,
      ee_decode_pset = (\<lambda>_. None), ee_encode_pset = (\<lambda>_. []),
      ee_extract_tx = (\<lambda>p. Inr (toy_extract p)),
      ee_decode_tx = (\<lambda>_. None), ee_encode_tx = (\<lambda>_. []),
      ee_txid = (\<lambda>t. replicate 32 (of_nat (length (tx_output t)))),
      ee_policy_asset = (\<lambda>_. replicate 32 8),
      ee_treasury_script = (\<lambda>asset _. 1 # asset),
      ee_account_script = (\<lambda>asset owner _. 2 # asset @ owner),
      ee_auth_script = (\<lambda>program _. 3 # concat (ap_storage program)),
      ee_decode_contract = (\<lambda>b. if length b = 68 then
          Some \<lparr>sd_storm_tree_root = take 32 b, sd_rescue_height = of_nat (be_value (take 4 (drop 32 b))),
               sd_rescue_script_hash = drop 36 b\<rparr> else None),
      ee_encode_contract = (\<lambda>d. sd_storm_tree_root d @ be_bytes 4 (unat (sd_rescue_height d)) @
          sd_rescue_script_hash d),
      ee_sighash_all = (\<lambda>_ p _ _. Inr [of_nat (length (ps_inputs p)), of_nat (length (ps_outputs p))]),
      ee_tagged_digest = (\<lambda>_ b. b),
      ee_x_only = (\<lambda>k. if length k = 33 then Some (tl k) else None),
      ee_valid_x_only = (\<lambda>k. length k = 32),
      ee_hex_decode = (\<lambda>s. Some (map of_char s)),
      ee_hash_script = (\<lambda>s. s),
      ee_voucher_script = (\<lambda>args signer _. 4 # va_auth_pubkey args @ (case signer of None \<Rightarrow> [] | Some s \<Rightarrow> s)),
      ee_unblind = (\<lambda>_. None),
      ee_sha256 = (\<lambda>b. b), ee_aggregate_key = (\<lambda>ks. hd ks),
      ee_verify_schnorr = (\<lambda>_ _ _. True),
      ee_verify_amounts = (\<lambda>_ _. True),
      ee_valid_signature = (\<lambda>s. length s = 64),
      ee_parse_address = (\<lambda>s. Some \<lparr>ad_script = 5 # map of_char s, ad_params = ParamsLiquid, ad_blinded = False\<rparr>),
      ee_build_pset = toy_build,
      ee_finalize_auth = (\<lambda>_ w _ _ _. Inr [aw_signature w]),
      ee_finalize_treasury = (\<lambda>_ _ _ _. Inr []), ee_finalize_account = (\<lambda>_ _ _ _ _. Inr []),
      ee_finalize_voucher = (\<lambda>_ _ _ _. Inr []),
      ee_weight = (\<lambda>t. length (tx_input t) + length (tx_output t))\<rparr>"

lemma toy_elements_laws:
  "op_return_law toy_elements data" "to_txout_law toy_elements" "extract_law toy_elements" "build_law toy_elements"
  by (auto simp: op_return_law_def to_txout_law_def extract_law_def toy_elements_def toy_instructions_def
      toy_to_txout_def toy_field_def toy_extract_def build_law_def toy_build_def toy_input_def toy_output_def
      list.rel_map intro!: list.rel_refl split: option.splits prod.splits)

end
