(* ===== verification/Elements_Rpc.thy ===== *)
theory Elements_Rpc
  imports Elements_Tx Utxo_Store
begin

text \<open>
  What the node asks of its Elements server, as a record of answers. A call fails with the code of the
  server's error or answers; an answer that does not decode counts as a failed call. One record is
  what the server says during one step of an operation; where the code asks twice and relies on the
  order of the calls, the operation takes two records. On top of it the lookups of
  \<open>high_storm/user_requests.rs\<close> that other modules share: unspent outputs, the outputs of a contract
  and their division between the rounds of a block.
\<close>

record txout_answer =
  ga_confirmations :: u64
  ga_asset :: "bytes option"
  ga_value :: "string option"
  ga_script :: bytes

record scanned_utxo =
  su_outpoint :: outpoint
  su_asset :: "bytes option"
  su_height :: "u64 option"

record block_header =
  bh_hash :: bytes
  bh_prev :: bytes

record chain_block =
  bk_prev :: bytes
  bk_transactions :: "transaction list"

record elements_rpc =
  rc_network :: "string + simplicity_network"
  rc_block_count :: "int + u64"
  rc_block_hash :: "u64 \<Rightarrow> int + bytes"
  rc_block :: "bytes \<Rightarrow> int + chain_block"
  rc_transaction :: "bytes \<Rightarrow> int + transaction"
  rc_transaction_in :: "bytes \<Rightarrow> bytes \<Rightarrow> int + transaction"
  rc_confirmations :: "bytes \<Rightarrow> int + u64 \<times> bytes option"
  rc_txout :: "outpoint \<Rightarrow> bool \<Rightarrow> int + txout_answer option"
  rc_mempool :: "int + bytes list"
  rc_spender :: "outpoint \<Rightarrow> int + bytes option"
  rc_scan :: "bytes \<Rightarrow> int + scanned_utxo list"
  rc_send :: "bytes \<Rightarrow> int + bytes"

record utxo =
  ut_outpoint :: outpoint
  ut_txout :: tx_out
  ut_secrets :: "tx_out_secrets option"

definition utxo_asset :: "utxo \<Rightarrow> bytes" where
  "utxo_asset u =
     (case ut_secrets u of Some s \<Rightarrow> os_asset s
      | None \<Rightarrow> (case to_asset (ut_txout u) of ExplicitField a \<Rightarrow> a | _ \<Rightarrow> []))"

definition utxo_amount :: "utxo \<Rightarrow> u64" where
  "utxo_amount u =
     (case ut_secrets u of Some s \<Rightarrow> os_value s
      | None \<Rightarrow> (case to_value (ut_txout u) of ExplicitField v \<Rightarrow> v | _ \<Rightarrow> 0))"

text \<open>The network: the chain's name, and on a private chain its own policy asset and genesis.\<close>

definition network_of ::
  "string \<Rightarrow> bytes option \<Rightarrow> bytes option \<Rightarrow> string + simplicity_network" where
  "network_of chain pegged_asset genesis =
     (if chain = ''liquidv1'' then Inr Liquid
      else if chain = ''liquidtestnet'' then Inr LiquidTestnet
      else if chain = ''elementsregtest'' then
        bind_res (ok_or ''invalid regtest policy asset'' pegged_asset) (\<lambda>asset.
        bind_res (ok_or ''invalid regtest genesis block hash'' genesis) (\<lambda>hash.
          Inr (ElementsCustom asset hash)))
      else Inl (''unsupported Elements chain '' @ chain))"

subsection \<open>Amounts\<close>

text \<open>
  \<open>parse_coin_value\<close>: an amount in coins, as the number's text, in satoshis. Numbers are parsed as the
  standard library does: an optional sign, at least one digit, and the range of the type.
\<close>

definition digit_value :: "char \<Rightarrow> nat option" where
  "digit_value c = (let v = of_char c :: nat in if 48 \<le> v \<and> v \<le> 57 then Some (v - 48) else None)"

definition digits_value :: "string \<Rightarrow> nat option" where
  "digits_value s =
     fold_opt (\<lambda>c n. map_option (\<lambda>d. 10 * n + d) (digit_value c)) s 0"

definition parse_nat :: "string \<Rightarrow> nat option" where
  "parse_nat s = (if s = [] then None else digits_value s)"

definition parse_u64 :: "string \<Rightarrow> u64 option" where
  "parse_u64 s =
     (case parse_nat (if take 1 s = ''+'' then drop 1 s else s) of
        None \<Rightarrow> None
      | Some n \<Rightarrow> if n < 2 ^ 64 then Some (of_nat n) else None)"

definition parse_i32 :: "string \<Rightarrow> int option" where
  "parse_i32 s =
     (if take 1 s = ''-'' then
        (case parse_nat (drop 1 s) of None \<Rightarrow> None | Some n \<Rightarrow> if n \<le> 2 ^ 31 then Some (- int n) else None)
      else
        (case parse_nat (if take 1 s = ''+'' then drop 1 s else s) of
           None \<Rightarrow> None | Some n \<Rightarrow> if n < 2 ^ 31 then Some (int n) else None))"

definition split_once :: "(char \<Rightarrow> bool) \<Rightarrow> string \<Rightarrow> (string \<times> string) option" where
  "split_once P s = (case dropWhile (\<lambda>c. \<not> P c) s of [] \<Rightarrow> None | _ # rest \<Rightarrow> Some (takeWhile (\<lambda>c. \<not> P c) s, rest))"

definition checked_i32 :: "int \<Rightarrow> int option" where
  "checked_i32 i = (if - (2 ^ 31) \<le> i \<and> i < 2 ^ 31 then Some i else None)"

definition checked_pow_10 :: "nat \<Rightarrow> u64 option" where
  "checked_pow_10 n = (if n \<le> 19 then Some (10 ^ n) else None)"

definition parse_mantissa :: "string \<Rightarrow> int \<Rightarrow> u64 option" where
  "parse_mantissa mantissa exponent =
     (if take 1 mantissa = ''-'' then None
      else
        (let (whole, fraction) =
               (case split_once (\<lambda>c. c = CHR ''.'') mantissa of Some p \<Rightarrow> p | None \<Rightarrow> (mantissa, ''''))
         in case parse_u64 (whole @ fraction) of
              None \<Rightarrow> None
            | Some digits \<Rightarrow>
                (case Option.bind (checked_i32 (8 + exponent))
                        (\<lambda>i. checked_i32 (i - sint (of_nat (length fraction) :: 32 word))) of
                   None \<Rightarrow> None
                 | Some scale \<Rightarrow>
                     if 0 \<le> scale then Option.bind (checked_pow_10 (nat scale)) (checked_mul digits)
                     else Option.bind (checked_pow_10 (nat (- scale))) (\<lambda>divisor.
                       if digits mod divisor = 0 then Some (digits div divisor) else None))))"

definition parse_coin_value :: "string \<Rightarrow> u64 option" where
  "parse_coin_value encoded =
     (case split_once (\<lambda>c. c = CHR ''e'' \<or> c = CHR ''E'') encoded of
        None \<Rightarrow> parse_mantissa encoded 0
      | Some (mantissa, exponent) \<Rightarrow>
          (case parse_i32 exponent of None \<Rightarrow> None | Some e \<Rightarrow> parse_mantissa mantissa e))"

subsection \<open>Unspent outputs\<close>

definition rpc_call :: "int + 'a \<Rightarrow> user_request_error + 'a" where
  "rpc_call answer = map_err (\<lambda>_. RequestRpc) answer"

definition explicit_outpoint :: "outpoint \<Rightarrow> txout_answer \<Rightarrow> user_request_error + utxo" where
  "explicit_outpoint outpoint out =
     bind_res (ok_or (RequestInvalid ''UTXO asset must be explicit'') (ga_asset out)) (\<lambda>asset.
     bind_res (ok_or (RequestInvalid ''UTXO value must be explicit'') (ga_value out)) (\<lambda>encoded.
     bind_res (ok_or (RequestInvalid ''invalid UTXO value'') (parse_coin_value encoded)) (\<lambda>v.
       Inr \<lparr>ut_outpoint = outpoint,
            ut_txout = \<lparr>to_asset = ExplicitField asset, to_value = ExplicitField v, to_nonce = NullField,
                        to_script = ga_script out, to_witness = []\<rparr>,
            ut_secrets = None\<rparr>)))"

definition get_optional_explicit_outpoint ::
  "elements_rpc \<Rightarrow> outpoint \<Rightarrow> bool \<Rightarrow> user_request_error + utxo option" where
  "get_optional_explicit_outpoint rpc outpoint include_mempool =
     bind_res (rpc_call (rc_txout rpc outpoint include_mempool)) (\<lambda>answer.
       case answer of
         None \<Rightarrow> Inr None
       | Some out \<Rightarrow> bind_res (explicit_outpoint outpoint out) (\<lambda>u. Inr (Some u)))"

definition get_explicit_outpoint :: "elements_rpc \<Rightarrow> outpoint \<Rightarrow> user_request_error + utxo" where
  "get_explicit_outpoint rpc outpoint =
     bind_res (get_optional_explicit_outpoint rpc outpoint True) (\<lambda>found.
       ok_or (RequestInvalid ''required UTXO is unavailable'') found)"

definition MIN_FEE_UTXO_CONFIRMATIONS :: u64 where "MIN_FEE_UTXO_CONFIRMATIONS = 1"

definition get_confirmed_fee_outpoint :: "elements_rpc \<Rightarrow> outpoint \<Rightarrow> user_request_error + utxo option" where
  "get_confirmed_fee_outpoint rpc outpoint =
     bind_res (rpc_call (rc_txout rpc outpoint True)) (\<lambda>answer.
       case answer of
         None \<Rightarrow> Inr None
       | Some out \<Rightarrow>
           if ga_confirmations out < MIN_FEE_UTXO_CONFIRMATIONS then Inr None
           else bind_res (explicit_outpoint outpoint out) (\<lambda>u. Inr (Some u)))"

subsection \<open>The outputs of a contract\<close>

datatype storm_eye_pool = UserRequests usize | NetworkLeader usize | AnyNetworkLeader

definition matches_expected_asset :: "bytes \<Rightarrow> bytes option \<Rightarrow> bool" where
  "matches_expected_asset actual expected = (case expected of None \<Rightarrow> True | Some e \<Rightarrow> actual = e)"

definition matches_scanned_asset :: "bytes option \<Rightarrow> bytes option \<Rightarrow> bool" where
  "matches_scanned_asset actual expected = (case expected of None \<Rightarrow> True | Some e \<Rightarrow> actual = Some e)"

fun scan_candidates ::
  "elements_rpc \<Rightarrow> bytes option \<Rightarrow> scanned_utxo list \<Rightarrow> user_request_error + (utxo \<times> bool) list" where
  "scan_candidates rpc expected [] = Inr []"
| "scan_candidates rpc expected (u # us) =
     (if \<not> matches_scanned_asset (su_asset u) expected then scan_candidates rpc expected us
      else bind_res (get_optional_explicit_outpoint rpc (su_outpoint u) False) (\<lambda>found.
        case found of
          None \<Rightarrow> scan_candidates rpc expected us
        | Some utxo \<Rightarrow>
            if \<not> matches_expected_asset (utxo_asset utxo) expected then scan_candidates rpc expected us
            else bind_res (get_optional_explicit_outpoint rpc (su_outpoint u) True) (\<lambda>unspent.
              bind_res (scan_candidates rpc expected us) (\<lambda>rest.
                Inr ((utxo, unspent = None) # rest)))))"

definition scan_contract_utxos ::
  "elements_rpc \<Rightarrow> bytes \<Rightarrow> bytes option \<Rightarrow> user_request_error + (utxo \<times> bool) list" where
  "scan_contract_utxos rpc script expected =
     bind_res (rpc_call (rc_scan rpc script)) (\<lambda>unspents.
     bind_res (scan_candidates rpc expected unspents) (\<lambda>candidates.
       Inr (sort_key (\<lambda>(u, _). ut_outpoint u) candidates)))"

definition storm_eye_pool_index :: "nat \<Rightarrow> storm_eye_pool \<Rightarrow> nat option" where
  "storm_eye_pool_index candidate_count pool =
     (let coordinator_count = candidate_count div 2
      in case pool of
           UserRequests lane \<Rightarrow> if unat lane < coordinator_count then Some (unat lane) else None
         | NetworkLeader lane \<Rightarrow>
             if unat lane < candidate_count - coordinator_count then Some (coordinator_count + unat lane) else None
         | AnyNetworkLeader \<Rightarrow> None)"

definition select_contract_utxo ::
  "(utxo \<times> bool) list \<Rightarrow> storm_eye_pool \<Rightarrow> user_request_error + utxo" where
  "select_contract_utxo candidates pool =
     (if pool = AnyNetworkLeader then
        ok_or (RequestInvalid ''required Storm Eye pool is unavailable'')
          (map_option fst (find (\<lambda>(_, spent). \<not> spent) (rev (drop (length candidates div 2) candidates))))
      else
        bind_res (ok_or (RequestInvalid ''required Storm Eye pool is unavailable'')
          (Option.bind (storm_eye_pool_index (length candidates) pool)
             (\<lambda>index. if index < length candidates then Some (candidates ! index) else None))) (\<lambda>(selected, spent).
          if spent then Inl (RequestInvalid ''Storm Eye lane was already used in this block'')
          else Inr selected))"

definition find_contract_utxo ::
  "elements_rpc \<Rightarrow> bytes \<Rightarrow> bytes option \<Rightarrow> storm_eye_pool \<Rightarrow> user_request_error + utxo" where
  "find_contract_utxo rpc script expected pool =
     bind_res (scan_contract_utxos rpc script expected) (\<lambda>candidates. select_contract_utxo candidates pool)"

subsection \<open>Lanes\<close>

definition leader_pool :: "storm_eye_pool \<Rightarrow> bool" where
  "leader_pool pool = (case pool of UserRequests _ \<Rightarrow> False | _ \<Rightarrow> True)"

definition lane_index :: "nat \<Rightarrow> storm_eye_pool \<Rightarrow> nat \<Rightarrow> bool" where
  "lane_index n pool i =
     (case pool of
        UserRequests lane \<Rightarrow> i = unat lane \<and> i < n div 2
      | NetworkLeader lane \<Rightarrow> i = n div 2 + unat lane
      | AnyNetworkLeader \<Rightarrow> n div 2 \<le> i)"

lemma select_contract_utxo_Inr:
  assumes "select_contract_utxo c pool = Inr u"
  shows "\<exists>i<length c. c ! i = (u, False) \<and> lane_index (length c) pool i"
proof (cases "pool = AnyNetworkLeader")
  case True
  let ?half = "drop (length c div 2) c"
  have "find (\<lambda>(_, spent). \<not> spent) (rev ?half) \<noteq> None"
    using assms True by (auto simp: select_contract_utxo_def ok_or_eq_Inr)
  then obtain e where e: "find (\<lambda>(_, spent). \<not> spent) (rev ?half) = Some e" by blast
  then have "e = (u, False)" using assms True by (auto simp: select_contract_utxo_def dest!: find_SomeD)
  moreover have "e \<in> set ?half" using find_SomeD [OF e] by simp
  ultimately obtain j where "j < length ?half" "?half ! j = (u, False)" by (metis in_set_conv_nth)
  then show ?thesis
    using True by (intro exI [of _ "length c div 2 + j"]) (simp add: lane_index_def)
next
  case False
  then show ?thesis
    using assms
    by (auto simp: select_contract_utxo_def bind_res_eq_Inr ok_or_eq_Inr bind_eq_Some_conv storm_eye_pool_index_def
        Let_def lane_index_def split: storm_eye_pool.splits if_splits)
qed

text \<open>
  C30: two operations of one block that use the Storm Eyes of different lanes never choose the same one,
  whatever was broadcast between their two looks at the chain. The rounds of user requests use the first half
  of the confirmed Storm Eyes and the leader's operations the second; each numbered lane has an output of its
  own, and the one that is chosen was not spent in the mempool that the operation saw.
\<close>
theorem lanes_disjoint:
  assumes "scan_contract_utxos rpc script asset = Inr c" "scan_contract_utxos rpc' script asset = Inr c'"
    and "map fst c' = map fst c" "distinct (map fst c)"
    and "find_contract_utxo rpc script asset pool = Inr u" "find_contract_utxo rpc' script asset pool' = Inr u'"
    and "pool \<noteq> pool'" "AnyNetworkLeader \<in> {pool, pool'} \<Longrightarrow> leader_pool pool \<noteq> leader_pool pool'"
  shows "u \<noteq> u' \<and> (u, False) \<in> set c \<and> (u', False) \<in> set c'"
proof -
  obtain i where i: "i < length c" "c ! i = (u, False)" "lane_index (length c) pool i"
    using assms(1,5) select_contract_utxo_Inr [of c pool u] by (auto simp: find_contract_utxo_def)
  obtain i' where i': "i' < length c'" "c' ! i' = (u', False)" "lane_index (length c') pool' i'"
    using assms(2,6) select_contract_utxo_Inr [of c' pool' u'] by (auto simp: find_contract_utxo_def)
  have len: "length c' = length c" using assms(3) by (metis length_map)
  have "i \<noteq> i'"
    using i(1,3) i'(1,3) assms(7,8) len
    by (auto simp: lane_index_def leader_pool_def word_unat_eq_iff split: storm_eye_pool.splits)
  moreover have "map fst c ! i = u" "map fst c ! i' = u'"
    using i i' len assms(3) by (metis fst_conv nth_map)+
  ultimately have "u \<noteq> u'" using assms(4) i(1) i'(1) len by (metis distinct_conv_nth length_map)
  then show ?thesis using i i' by (metis nth_mem)
qed

definition toy_scanned :: "nat \<Rightarrow> outpoint" where
  "toy_scanned i = ([of_nat i], 0)"

definition toy_rpc :: "outpoint set \<Rightarrow> elements_rpc" where
  "toy_rpc spent =
     \<lparr>rc_network = Inr Liquid, rc_block_count = Inr 0, rc_block_hash = (\<lambda>_. Inl 0), rc_block = (\<lambda>_. Inl 0),
      rc_transaction = (\<lambda>_. Inl 0), rc_transaction_in = (\<lambda>_ _. Inl 0), rc_confirmations = (\<lambda>_. Inl 0),
      rc_txout = (\<lambda>out mempool. Inr (if mempool \<and> out \<in> spent then None
          else Some \<lparr>ga_confirmations = 1, ga_asset = Some [7], ga_value = Some ''5'', ga_script = [3]\<rparr>)),
      rc_mempool = Inr [], rc_spender = (\<lambda>_. Inr None),
      rc_scan = (\<lambda>_. Inr (map (\<lambda>i. \<lparr>su_outpoint = toy_scanned i, su_asset = Some [7], su_height = None\<rparr>) [1, 0])),
      rc_send = (\<lambda>_. Inl 0)\<rparr>"

definition toy_eye :: "nat \<Rightarrow> utxo" where
  "toy_eye i =
     \<lparr>ut_outpoint = toy_scanned i,
      ut_txout = \<lparr>to_asset = ExplicitField [7], to_value = ExplicitField 500000000, to_nonce = NullField,
                 to_script = [3], to_witness = []\<rparr>,
      ut_secrets = None\<rparr>"

lemma toy_scan:
  "scan_contract_utxos (toy_rpc spent) [3] (Some [7]) =
     Inr [(toy_eye 0, toy_scanned 0 \<in> spent), (toy_eye 1, toy_scanned 1 \<in> spent)]"
proof -
  have v: "parse_coin_value ''5'' = Some 500000000"
    by (simp add: parse_coin_value_def split_once_def parse_mantissa_def parse_u64_def parse_nat_def digits_value_def
        digit_value_def checked_i32_def checked_pow_10_def checked_mul_def)
  have found: "get_optional_explicit_outpoint (toy_rpc spent) (toy_scanned i) mempool =
      Inr (if mempool \<and> toy_scanned i \<in> spent then None else Some (toy_eye i))" for i mempool
    by (simp add: get_optional_explicit_outpoint_def toy_rpc_def rpc_call_def explicit_outpoint_def v toy_eye_def)
  have asset: "utxo_asset (toy_eye i) = [7]" for i by (simp add: utxo_asset_def toy_eye_def)
  have scan: "rc_scan (toy_rpc spent) [3] =
      Inr (map (\<lambda>i. \<lparr>su_outpoint = toy_scanned i, su_asset = Some [7], su_height = None\<rparr>) [1, 0])"
    by (simp add: toy_rpc_def)
  have "\<not> ut_outpoint (toy_eye (Suc 0)) \<le> ut_outpoint (toy_eye 0)"
    by (simp add: toy_eye_def toy_scanned_def)
  then show ?thesis
    by (simp add: scan_contract_utxos_def scan rpc_call_def found matches_scanned_asset_def matches_expected_asset_def
        asset)
qed

theorem lanes_disjoint_witness: "toy_eye 0 \<noteq> toy_eye 1"
proof -
  let ?a = "toy_rpc {}" and ?b = "toy_rpc {toy_scanned 0}"
  have d: "toy_eye 0 \<noteq> toy_eye (Suc 0)" "toy_scanned (Suc 0) \<noteq> toy_scanned 0" by (simp_all add: toy_eye_def toy_scanned_def)
  have "find_contract_utxo ?a [3] (Some [7]) (UserRequests 0) = Inr (toy_eye 0)"
    "find_contract_utxo ?b [3] (Some [7]) (NetworkLeader 0) = Inr (toy_eye 1)"
    by (simp_all add: find_contract_utxo_def toy_scan select_contract_utxo_def storm_eye_pool_index_def d)
  then have "toy_eye 0 \<noteq> toy_eye 1 \<and> (toy_eye 0, False) \<in> set [(toy_eye 0, False), (toy_eye 1, False)]
      \<and> (toy_eye 1, False) \<in> set [(toy_eye 0, True), (toy_eye 1, False)]"
    using lanes_disjoint [OF toy_scan [of "{}"] toy_scan [of "{toy_scanned 0}"], of "UserRequests 0" "toy_eye 0"
        "NetworkLeader 0" "toy_eye 1"] d by simp
  then show ?thesis by simp
qed

end
