(* ===== verification/Script_Markers.thy ===== *)
theory Script_Markers
  imports Elements_Tx
begin

text \<open>
  The data outputs the network writes on the chain and reads back: the marker that names the member
  of a Treasury transaction (\<open>high_storm/droplets.rs\<close>), the marker with the members of an issuance
  or a migration (\<open>high_storm/assets.rs\<close>), and the descriptor of issued outputs
  (\<open>high_storm/issuance.rs\<close>). Each reader gives back exactly what its writer was given, and none
  takes the data of another.
\<close>

definition op_return_data :: "elements_env \<Rightarrow> bytes \<Rightarrow> bytes option" where
  "op_return_data env script =
     (case ee_instructions env script of [OpReturn, PushBytes data] \<Rightarrow> Some data | _ \<Rightarrow> None)"

lemma op_return_data_written [simp]:
  "op_return_law env data \<Longrightarrow> op_return_data env (ee_op_return env data) = Some data"
  by (simp add: op_return_law_def op_return_data_def)

subsection \<open>The member of a Treasury transaction\<close>

definition MEMBER_MAGIC :: bytes where "MEMBER_MAGIC = [0x4F, 0x44]"
definition MEMBER_VERSION :: u8 where "MEMBER_VERSION = 1"
definition MEMBER_DATA_LEN :: nat where "MEMBER_DATA_LEN = 35"

definition member_script :: "elements_env \<Rightarrow> bytes \<Rightarrow> bytes" where
  "member_script env member = ee_op_return env (MEMBER_MAGIC @ [MEMBER_VERSION] @ member)"

definition member_from_script :: "elements_env \<Rightarrow> bytes \<Rightarrow> bytes option" where
  "member_from_script env script =
     (case op_return_data env script of
        None \<Rightarrow> None
      | Some data \<Rightarrow>
          if length data \<noteq> MEMBER_DATA_LEN \<or> take 2 data \<noteq> MEMBER_MAGIC \<or> data ! 2 \<noteq> MEMBER_VERSION then None
          else Some (drop 3 data))"

subsection \<open>The members of an issuance or a migration\<close>

definition INITIAL_MEMBERS_MAGIC :: bytes where "INITIAL_MEMBERS_MAGIC = [0x4F, 0x4D]"
definition INITIAL_MEMBERS_VERSION :: u8 where "INITIAL_MEMBERS_VERSION = 1"
definition MIGRATED_MEMBERS_VERSION :: u8 where "MIGRATED_MEMBERS_VERSION = 2"
definition INITIAL_MEMBERS_HEADER_LEN :: nat where "INITIAL_MEMBERS_HEADER_LEN = 5"

definition members_script ::
  "elements_env \<Rightarrow> bytes list \<Rightarrow> u8 \<Rightarrow> bytes option \<Rightarrow> asset_error + bytes" where
  "members_script env members version proposer =
     (let members = remdups_adj (sort members)
      in if 65535 < length members then Inl (InvalidRpcResponse ''initial member count'')
         else if members = [] then Inl (InvalidRpcResponse ''initial members'')
         else Inr (ee_op_return env (INITIAL_MEMBERS_MAGIC @ [version] @ be_bytes 2 (length members) @
                concat members @ (case proposer of None \<Rightarrow> [] | Some p \<Rightarrow> p))))"

definition initial_members_script :: "elements_env \<Rightarrow> bytes list \<Rightarrow> asset_error + bytes" where
  "initial_members_script env members = members_script env members INITIAL_MEMBERS_VERSION None"

definition migrated_members_script :: "elements_env \<Rightarrow> bytes list \<Rightarrow> bytes \<Rightarrow> asset_error + bytes" where
  "migrated_members_script env members proposer =
     members_script env members MIGRATED_MEMBERS_VERSION (Some proposer)"

function chunks_exact :: "nat \<Rightarrow> 'a list \<Rightarrow> 'a list list" where
  "chunks_exact n bs = (if n = 0 \<or> length bs < n then [] else take n bs # chunks_exact n (drop n bs))"
  by pat_completeness auto
termination by (relation "measure (\<lambda>(n, bs). length bs)") auto

declare chunks_exact.simps [simp del]

definition initial_members_from_script :: "elements_env \<Rightarrow> bytes \<Rightarrow> asset_error + bytes list option" where
  "initial_members_from_script env script =
     (case op_return_data env script of
        None \<Rightarrow> Inr None
      | Some data \<Rightarrow>
          if length data < 2 \<or> take 2 data \<noteq> INITIAL_MEMBERS_MAGIC then Inr None
          else if length data < INITIAL_MEMBERS_HEADER_LEN \<or> data ! 2 \<noteq> INITIAL_MEMBERS_VERSION
          then Inl (InvalidRpcResponse ''initial members marker'')
          else
            (let count' = be_value (take 2 (drop 3 data))
             in if count' = 0 \<or> length data \<noteq> INITIAL_MEMBERS_HEADER_LEN + count' * 32
                then Inl (InvalidRpcResponse ''initial members marker'')
                else
                  (let members = chunks_exact 32 (drop INITIAL_MEMBERS_HEADER_LEN data)
                   in if \<not> successively (<) members then Inl (InvalidRpcResponse ''initial member order'')
                      else Inr (Some members))))"

definition migrated_members_proposer_from_script :: "elements_env \<Rightarrow> bytes \<Rightarrow> bytes option" where
  "migrated_members_proposer_from_script env script =
     (case op_return_data env script of
        None \<Rightarrow> None
      | Some data \<Rightarrow>
          if length data < 2 \<or> take 2 data \<noteq> INITIAL_MEMBERS_MAGIC \<or>
             length data < INITIAL_MEMBERS_HEADER_LEN \<or> data ! 2 \<noteq> MIGRATED_MEMBERS_VERSION then None
          else
            (let count' = be_value (take 2 (drop 3 data));
                 members_end = INITIAL_MEMBERS_HEADER_LEN + count' * 32
             in if count' = 0 \<or> length data \<noteq> members_end + 32 then None
                else if \<not> successively (<)
                     (chunks_exact 32 (take (members_end - INITIAL_MEMBERS_HEADER_LEN)
                        (drop INITIAL_MEMBERS_HEADER_LEN data))) then None
                else Some (drop members_end data)))"

subsection \<open>Issued outputs\<close>

definition DESCRIPTOR_MAGIC :: bytes where "DESCRIPTOR_MAGIC = [0x4F, 0x54]"
definition DESCRIPTOR_VERSION_TICKS :: u8 where "DESCRIPTOR_VERSION_TICKS = 1"
definition DESCRIPTOR_VERSION :: u8 where "DESCRIPTOR_VERSION = 2"
definition DESCRIPTOR_PREFIX_LEN :: nat where "DESCRIPTOR_PREFIX_LEN = 5"
definition DESCRIPTOR_HEADER_LEN :: nat where "DESCRIPTOR_HEADER_LEN = DESCRIPTOR_PREFIX_LEN + 32"
definition DESCRIPTOR_TICK_RECORD_LEN :: nat where "DESCRIPTOR_TICK_RECORD_LEN = 73"
definition DESCRIPTOR_RECORD_LEN :: nat where "DESCRIPTOR_RECORD_LEN = DESCRIPTOR_TICK_RECORD_LEN + 1"
definition TICK_RECORD :: u8 where "TICK_RECORD = 0"
definition VERIFIER_RECORD :: u8 where "VERIFIER_RECORD = 1"
definition MAX_ISSUED_DESCRIPTORS :: nat where "MAX_ISSUED_DESCRIPTORS = 100"

record issued_descriptor =
  id_output_index :: u32
  id_reserve_output_index :: u32
  id_owner :: bytes
  id_auth_kind :: u8
  id_auth_data :: bytes
  id_signer :: "bytes option"

record utxo_auth_method =
  am_kind :: string
  am_auth_data :: string

definition decode_32 :: "elements_env \<Rightarrow> string \<Rightarrow> string \<Rightarrow> string + bytes" where
  "decode_32 env encoded name =
     bind_res (ok_or (''invalid '' @ name) (ee_hex_decode env encoded)) (\<lambda>data.
       if length data = 32 then Inr data else Inl (''invalid '' @ name @ '' length''))"

definition from_request ::
  "elements_env \<Rightarrow> u32 \<Rightarrow> u32 \<Rightarrow> bytes \<Rightarrow> utxo_auth_method \<Rightarrow> bytes option \<Rightarrow> string + issued_descriptor" where
  "from_request env output_index reserve_output_index owner auth signer =
     bind_res
       (if am_kind auth = ''asset-id-auth'' then
          bind_res (decode_32 env (am_auth_data auth) ''authentication asset id'') (\<lambda>data. Inr (0, data))
        else if am_kind auth = ''scriptPubKey-auth'' then
          bind_res (ok_or ''invalid authentication scriptPubKey'' (ee_hex_decode env (am_auth_data auth)))
            (\<lambda>script. Inr (1, ee_hash_script env script))
        else if am_kind auth = ''signature-auth'' then
          bind_res (decode_32 env (am_auth_data auth) ''authentication public key'') (\<lambda>data. Inr (2, data))
        else Inl ''unsupported issued UTXO authentication method'')
       (\<lambda>(auth_kind, auth_data).
          Inr \<lparr>id_output_index = output_index, id_reserve_output_index = reserve_output_index, id_owner = owner,
               id_auth_kind = auth_kind, id_auth_data = auth_data, id_signer = signer\<rparr>)"

definition is_verifier :: "issued_descriptor \<Rightarrow> bool" where
  "is_verifier d = (id_signer d \<noteq> None)"

definition shared_signer :: "issued_descriptor list \<Rightarrow> string + bytes option" where
  "shared_signer descriptors =
     (case List.map_filter id_signer descriptors of
        [] \<Rightarrow> Inr None
      | signer # signers \<Rightarrow>
          if \<exists>other\<in>set signers. other \<noteq> signer then
            Inl ''Oracle Verifiers of one issuance name different signers''
          else if signer = replicate 32 0 then Inl ''invalid Oracle Verifier signer key''
          else Inr (Some signer))"

definition descriptor_record :: "issued_descriptor \<Rightarrow> bytes" where
  "descriptor_record d =
     be_bytes 4 (unat (id_output_index d)) @ be_bytes 4 (unat (id_reserve_output_index d)) @
     id_owner d @ [id_auth_kind d] @ id_auth_data d @ [if is_verifier d then VERIFIER_RECORD else TICK_RECORD]"

definition descriptor_data :: "issued_descriptor list \<Rightarrow> string + bytes" where
  "descriptor_data descriptors =
     (if MAX_ISSUED_DESCRIPTORS < length descriptors then Inl ''too many issued UTXO descriptors''
      else if descriptors = [] then Inl ''issued UTXO descriptors cannot be empty''
      else bind_res (shared_signer descriptors) (\<lambda>signer.
        Inr (DESCRIPTOR_MAGIC @ [DESCRIPTOR_VERSION] @ be_bytes 2 (length descriptors) @
             (case signer of None \<Rightarrow> replicate 32 0 | Some s \<Rightarrow> s) @ concat (map descriptor_record descriptors))))"

definition descriptor_script_pubkey :: "elements_env \<Rightarrow> issued_descriptor list \<Rightarrow> string + bytes" where
  "descriptor_script_pubkey env descriptors =
     bind_res (descriptor_data descriptors) (\<lambda>data. Inr (ee_op_return env data))"

definition read_record :: "bytes \<Rightarrow> bytes \<Rightarrow> string + issued_descriptor" where
  "read_record header_signer rec =
     (let auth_kind = rec ! 40 in
      if 2 < auth_kind then Inl ''invalid issued UTXO authentication kind''
      else
        bind_res
          (if length rec \<le> DESCRIPTOR_TICK_RECORD_LEN then Inr None
           else if rec ! DESCRIPTOR_TICK_RECORD_LEN = TICK_RECORD then Inr None
           else if rec ! DESCRIPTOR_TICK_RECORD_LEN = VERIFIER_RECORD then Inr (Some header_signer)
           else Inl ''invalid issued UTXO asset kind'')
          (\<lambda>signer. Inr
             \<lparr>id_output_index = of_nat (be_value (take 4 rec)),
              id_reserve_output_index = of_nat (be_value (take 4 (drop 4 rec))),
              id_owner = take 32 (drop 8 rec), id_auth_kind = auth_kind,
              id_auth_data = take 32 (drop 41 rec), id_signer = signer\<rparr>))"

definition descriptors_from_script :: "elements_env \<Rightarrow> bytes \<Rightarrow> string + issued_descriptor list option" where
  "descriptors_from_script env script =
     (case op_return_data env script of
        None \<Rightarrow> Inr None
      | Some data \<Rightarrow>
          if length data < 2 \<or> take 2 data \<noteq> DESCRIPTOR_MAGIC then Inr None
          else if length data < DESCRIPTOR_PREFIX_LEN then Inl ''invalid issued UTXO descriptor''
          else
            bind_res
              (if data ! 2 = DESCRIPTOR_VERSION_TICKS then Inr (DESCRIPTOR_PREFIX_LEN, DESCRIPTOR_TICK_RECORD_LEN)
               else if data ! 2 = DESCRIPTOR_VERSION then Inr (DESCRIPTOR_HEADER_LEN, DESCRIPTOR_RECORD_LEN)
               else Inl ''invalid issued UTXO descriptor'')
              (\<lambda>(header_len, record_len).
                 let count' = be_value (take 2 (drop 3 data)) in
                 if count' = 0 \<or> MAX_ISSUED_DESCRIPTORS < count' \<or>
                    length data \<noteq> header_len + count' * record_len
                 then Inl ''invalid issued UTXO descriptor count''
                 else
                   (let header_signer =
                          (if header_len = DESCRIPTOR_HEADER_LEN
                           then take 32 (drop DESCRIPTOR_PREFIX_LEN data) else replicate 32 0)
                    in bind_res (map_res (read_record header_signer) (chunks_exact record_len (drop header_len data)))
                         (\<lambda>descriptors.
                       bind_res (shared_signer descriptors) (\<lambda>signer.
                         if (case signer of None \<Rightarrow> replicate 32 0 | Some s \<Rightarrow> s) \<noteq> header_signer
                         then Inl ''issued UTXO descriptor names a signer no Verifier carries''
                         else Inr (Some descriptors))))))"

definition auth_method_name :: "issued_descriptor \<Rightarrow> string option" where
  "auth_method_name d =
     (if id_auth_kind d = 0 then Some ''asset-id-auth''
      else if id_auth_kind d = 1 then Some ''scriptPubKey-auth''
      else if id_auth_kind d = 2 then Some ''signature-auth''
      else None)"

definition voucher_arguments_of :: "bytes \<Rightarrow> u8 \<Rightarrow> bytes \<Rightarrow> string + voucher_arguments" where
  "voucher_arguments_of storm_eye_asset_id auth_kind auth_data =
     (let arguments = \<lparr>va_storm_eye_asset_id = storm_eye_asset_id, va_auth_method = ucast auth_kind,
            va_auth_asset_id = replicate 32 0, va_auth_script_hash = replicate 32 0,
            va_auth_pubkey = replicate 32 0\<rparr>
      in if auth_kind = 0 then Inr (arguments\<lparr>va_auth_asset_id := auth_data\<rparr>)
         else if auth_kind = 1 then Inr (arguments\<lparr>va_auth_script_hash := auth_data\<rparr>)
         else if auth_kind = 2 then Inr (arguments\<lparr>va_auth_pubkey := auth_data\<rparr>)
         else Inl ''unsupported issued UTXO authentication method'')"

text \<open>A voucher program is its arguments and, for a Verifier, the internal key it is built with.\<close>

definition voucher_program ::
  "elements_env \<Rightarrow> bytes \<Rightarrow> u8 \<Rightarrow> bytes \<Rightarrow> bytes option \<Rightarrow> string + voucher_arguments \<times> bytes option" where
  "voucher_program env storm_eye_asset_id auth_kind auth_data signer =
     bind_res (voucher_arguments_of storm_eye_asset_id auth_kind auth_data) (\<lambda>arguments.
       case signer of
         None \<Rightarrow> Inr (arguments, None)
       | Some s \<Rightarrow> if ee_valid_x_only env s then Inr (arguments, Some s)
                    else Inl ''invalid Oracle Verifier signer key'')"

definition descriptor_program ::
  "elements_env \<Rightarrow> bytes \<Rightarrow> issued_descriptor \<Rightarrow> string + voucher_arguments \<times> bytes option" where
  "descriptor_program env storm_eye_asset_id d =
     voucher_program env storm_eye_asset_id (id_auth_kind d) (id_auth_data d) (id_signer d)"

definition voucher_script :: "elements_env \<Rightarrow> voucher_arguments \<times> bytes option \<Rightarrow> simplicity_network \<Rightarrow> bytes" where
  "voucher_script env program network = ee_voucher_script env (fst program) (snd program) network"

definition matches_script ::
  "elements_env \<Rightarrow> bytes \<Rightarrow> simplicity_network \<Rightarrow> bytes \<Rightarrow> issued_descriptor \<Rightarrow> bool" where
  "matches_script env storm_eye_asset_id network script d =
     (case descriptor_program env storm_eye_asset_id d of
        Inl _ \<Rightarrow> False
      | Inr program \<Rightarrow> voucher_script env program network = script)"

subsection \<open>Reading back what was written\<close>

lemma chunks_exact_concat:
  "0 < n \<Longrightarrow> \<forall>x\<in>set xs. length x = n \<Longrightarrow> chunks_exact n (concat xs) = xs"
proof (induction xs)
  case Nil
  then show ?case by (simp add: chunks_exact.simps)
next
  case (Cons x xs)
  then show ?case by (subst chunks_exact.simps) simp
qed

lemma length_concat_same: "\<forall>x\<in>set xs. length x = n \<Longrightarrow> length (concat xs) = length xs * n"
  by (induction xs) auto

lemma be_bytes_2: "k < 65536 \<Longrightarrow> be_value (be_bytes 2 k) = k"
  by (rule be_value_be_bytes) simp

lemma be_bytes_4_word: "(of_nat (be_value (be_bytes 4 (unat w))) :: u32) = w"
  using be_value_be_bytes [of "unat w" 4] unsigned_less [of w, where 'a = nat] by simp

lemma member_script_read:
  "op_return_law env (MEMBER_MAGIC @ [MEMBER_VERSION] @ m) \<Longrightarrow> length m = 32 \<Longrightarrow>
   member_from_script env (member_script env m) = Some m"
  by (simp add: member_from_script_def member_script_def MEMBER_MAGIC_def MEMBER_DATA_LEN_def)

lemma members_in: "m \<in> set (remdups_adj (sort ms)) \<longleftrightarrow> m \<in> set ms"
  by simp

lemma successively_members: "successively (<) (remdups_adj (sort (ms :: bytes list)))"
  by (rule successively_if_sorted_wrt) (rule strict_sorted_remdups_adj, simp)

lemma members_script_Inr:
  assumes "members_script env ms version proposer = Inr script"
  obtains members where "members = remdups_adj (sort ms)" "members \<noteq> []" "length members < 65536"
    "script = ee_op_return env (INITIAL_MEMBERS_MAGIC @ [version] @ be_bytes 2 (length members) @
                concat members @ (case proposer of None \<Rightarrow> [] | Some p \<Rightarrow> p))"
  using assms by (auto simp: members_script_def Let_def split: if_splits)

lemma initial_members_read:
  assumes "initial_members_script env ms = Inr script" "\<And>d. op_return_law env d" "\<forall>m\<in>set ms. length m = 32"
  shows "initial_members_from_script env script = Inr (Some (remdups_adj (sort ms)))"
proof -
  obtain members where m: "members = remdups_adj (sort ms)" "members \<noteq> []" "length members < 65536"
    and s: "script = ee_op_return env (INITIAL_MEMBERS_MAGIC @ [INITIAL_MEMBERS_VERSION] @
               be_bytes 2 (length members) @ concat members)"
    using assms(1) unfolding initial_members_script_def by (elim members_script_Inr) simp
  have lens: "\<forall>x\<in>set members. length x = 32" using assms(3) m(1) by simp
  have c: "chunks_exact 32 (concat members) = members" using lens by (intro chunks_exact_concat) auto
  have l: "length (concat members) = length members * 32" by (rule length_concat_same [OF lens])
  have o: "successively (<) members" unfolding m(1) by (rule successively_members)
  have d: "op_return_data env script = Some (INITIAL_MEMBERS_MAGIC @ [INITIAL_MEMBERS_VERSION] @
               be_bytes 2 (length members) @ concat members)"
    unfolding s by (rule op_return_data_written) (rule assms(2))
  show ?thesis
    unfolding initial_members_from_script_def d
    using m(2,3) o
    by (simp add: Let_def INITIAL_MEMBERS_MAGIC_def INITIAL_MEMBERS_HEADER_LEN_def length_be_bytes be_bytes_2 c l
        m(1) [symmetric] del: length_concat)
qed

lemma migrated_members_read:
  assumes "migrated_members_script env ms proposer = Inr script" "\<And>d. op_return_law env d"
    "\<forall>m\<in>set ms. length m = 32" "length proposer = 32"
  shows "migrated_members_proposer_from_script env script = Some proposer"
proof -
  obtain members where m: "members = remdups_adj (sort ms)" "members \<noteq> []" "length members < 65536"
    and s: "script = ee_op_return env (INITIAL_MEMBERS_MAGIC @ [MIGRATED_MEMBERS_VERSION] @
               be_bytes 2 (length members) @ concat members @ proposer)"
    using assms(1) unfolding migrated_members_script_def by (elim members_script_Inr) simp
  have lens: "\<forall>x\<in>set members. length x = 32" using assms(3) m(1) by simp
  have c: "chunks_exact 32 (concat members) = members" using lens by (intro chunks_exact_concat) auto
  have l: "length (concat members) = length members * 32" by (rule length_concat_same [OF lens])
  have o: "successively (<) members" unfolding m(1) by (rule successively_members)
  have d: "op_return_data env script = Some (INITIAL_MEMBERS_MAGIC @ [MIGRATED_MEMBERS_VERSION] @
               be_bytes 2 (length members) @ concat members @ proposer)"
    unfolding s by (rule op_return_data_written) (rule assms(2))
  let ?pre = "79 # 77 # MIGRATED_MEMBERS_VERSION # be_bytes 2 (length members) @ concat members"
  have "drop (length ?pre) (?pre @ proposer) = proposer" by simp
  moreover have "length ?pre = 5 + length members * 32" using l by (simp del: length_concat)
  ultimately have tail: "drop (5 + length members * 32) (?pre @ proposer) = proposer" by metis
  show ?thesis
    unfolding migrated_members_proposer_from_script_def d
    using m(2,3) o assms(4) tail [simplified]
    by (simp add: Let_def INITIAL_MEMBERS_MAGIC_def INITIAL_MEMBERS_HEADER_LEN_def length_be_bytes be_bytes_2 c l
        del: length_concat)
qed

definition descriptor_ok :: "issued_descriptor \<Rightarrow> bool" where
  "descriptor_ok d \<longleftrightarrow> length (id_owner d) = 32 \<and> length (id_auth_data d) = 32 \<and> id_auth_kind d \<le> 2 \<and>
     (\<forall>s. id_signer d = Some s \<longrightarrow> length s = 32)"

lemma length_descriptor_record: "descriptor_ok d \<Longrightarrow> length (descriptor_record d) = 74"
  by (simp add: descriptor_record_def descriptor_ok_def)

lemma nth_append_at: "i = length xs \<Longrightarrow> (xs @ y # ys) ! i = y"
  by simp

lemma read_descriptor_record:
  assumes "descriptor_ok d" "\<And>s. id_signer d = Some s \<Longrightarrow> header = s"
  shows "read_record header (descriptor_record d) = Inr d"
proof -
  let ?r = "descriptor_record d"
  let ?a = "be_bytes 4 (unat (id_output_index d))" and ?b = "be_bytes 4 (unat (id_reserve_output_index d))"
  let ?t = "if is_verifier d then VERIFIER_RECORD else TICK_RECORD"
  have lens: "length (id_owner d) = 32" "length (id_auth_data d) = 32" "id_auth_kind d \<le> 2"
    using assms(1) by (simp_all add: descriptor_ok_def)
  have kind: "?r ! 40 = id_auth_kind d"
    using nth_append_at [of 40 "?a @ ?b @ id_owner d" "id_auth_kind d" "id_auth_data d @ [?t]"] lens
    by (simp add: descriptor_record_def)
  have tag: "?r ! 73 = ?t"
    using nth_append_at [of 73 "?a @ ?b @ id_owner d @ [id_auth_kind d] @ id_auth_data d" ?t "[]"] lens
    by (simp add: descriptor_record_def)
  have parts: "take 4 ?r = ?a" "take 4 (drop 4 ?r) = ?b" "take 32 (drop 8 ?r) = id_owner d"
    "take 32 (drop 41 ?r) = id_auth_data d"
    using lens by (simp_all add: descriptor_record_def)
  have signer: "(if is_verifier d then Some header else None) = id_signer d"
    using assms(2) by (cases "id_signer d") (auto simp: is_verifier_def)
  have word: "\<And>w :: u32. word_of_nat (be_value (be_bytes 4 (unat w))) = w" by (rule be_bytes_4_word)
  show ?thesis
    using kind tag parts lens(3) signer length_descriptor_record [OF assms(1)] word
    by (cases d)
      (auto simp: read_record_def Let_def DESCRIPTOR_TICK_RECORD_LEN_def VERIFIER_RECORD_def TICK_RECORD_def not_less
         bind_res_def split: if_splits)
qed

lemma descriptor_data_Inr:
  assumes "descriptor_data ds = Inr data"
  obtains signer where "length ds \<le> 100" "ds \<noteq> []" "shared_signer ds = Inr signer"
    "data = DESCRIPTOR_MAGIC @ [DESCRIPTOR_VERSION] @ be_bytes 2 (length ds) @
             (case signer of None \<Rightarrow> replicate 32 0 | Some s \<Rightarrow> s) @ concat (map descriptor_record ds)"
  using assms
  by (auto simp: descriptor_data_def bind_res_eq_Inr MAX_ISSUED_DESCRIPTORS_def not_less split: if_splits)

lemma shared_signer_agrees:
  assumes "shared_signer ds = Inr signer" "d \<in> set ds" "id_signer d = Some s"
  shows "signer = Some s"
proof (cases "List.map_filter id_signer ds")
  case Nil
  have "s \<in> set (List.map_filter id_signer ds)" using assms(2,3) by (force simp: List.map_filter_def)
  then show ?thesis using Nil by simp
next
  case (Cons t ts)
  have "s \<in> set (List.map_filter id_signer ds)" using assms(2,3) by (force simp: List.map_filter_def)
  then show ?thesis using Cons assms(1) by (auto simp: shared_signer_def split: if_splits)
qed

lemma shared_signer_member:
  assumes "shared_signer ds = Inr (Some s)"
  shows "\<exists>d\<in>set ds. id_signer d = Some s"
proof -
  have "s \<in> set (List.map_filter id_signer ds)"
    using assms by (auto simp: shared_signer_def split: list.splits if_splits)
  then show ?thesis by (auto simp: List.map_filter_def)
qed

lemma descriptors_read:
  assumes data: "descriptor_data ds = Inr data" and law: "op_return_law env data"
    and ok: "\<forall>d\<in>set ds. descriptor_ok d"
  shows "descriptors_from_script env (ee_op_return env data) = Inr (Some ds)"
    and "take 2 data = DESCRIPTOR_MAGIC"
proof -
  obtain signer where ds: "length ds \<le> 100" "ds \<noteq> []" and signer: "shared_signer ds = Inr signer"
    and d: "data = DESCRIPTOR_MAGIC @ [DESCRIPTOR_VERSION] @ be_bytes 2 (length ds) @
             (case signer of None \<Rightarrow> replicate 32 0 | Some s \<Rightarrow> s) @ concat (map descriptor_record ds)"
    using data by (rule descriptor_data_Inr)
  show "take 2 data = DESCRIPTOR_MAGIC" by (simp add: d DESCRIPTOR_MAGIC_def)
  let ?h = "case signer of None \<Rightarrow> replicate 32 0 | Some s \<Rightarrow> s" and ?body = "concat (map descriptor_record ds)"
  have lh: "length ?h = 32"
  proof (cases signer)
    case (Some s)
    then obtain e where "e \<in> set ds" "id_signer e = Some s"
      using shared_signer_member signer by blast
    then show ?thesis using ok Some by (auto simp: descriptor_ok_def)
  qed simp
  have lens: "\<forall>x\<in>set (map descriptor_record ds). length x = 74" using ok by (auto simp: length_descriptor_record)
  have lb: "length ?body = length ds * 74" using length_concat_same [OF lens] by simp
  have "chunks_exact 74 ?body = map descriptor_record ds" using lens by (intro chunks_exact_concat) auto
  moreover have "map_res (read_record ?h) (map descriptor_record es) = Inr es" if "set es \<subseteq> set ds" for es
    using that
  proof (induction es)
    case (Cons e es)
    have "read_record ?h (descriptor_record e) = Inr e"
      using Cons.prems ok shared_signer_agrees [OF signer, of e] by (intro read_descriptor_record) auto
    then show ?case using Cons by simp
  qed simp
  ultimately have read: "map_res (read_record ?h) (chunks_exact 74 ?body) = Inr ds" by simp
  have n: "be_value (be_bytes 2 (length ds)) = length ds" using ds(1) by (intro be_bytes_2) simp
  have len: "length data = 37 + length ds * 74" using lh lb by (simp add: d DESCRIPTOR_MAGIC_def del: length_concat)
  have version: "data ! 2 = DESCRIPTOR_VERSION" "take 2 (drop 3 data) = be_bytes 2 (length ds)"
    by (simp_all add: d DESCRIPTOR_MAGIC_def)
  have header: "take 32 (drop 5 data) = ?h" "drop 37 data = ?body"
    using lh by (simp_all add: d DESCRIPTOR_MAGIC_def)
  have different: "DESCRIPTOR_VERSION \<noteq> DESCRIPTOR_VERSION_TICKS"
    by (simp add: DESCRIPTOR_VERSION_def DESCRIPTOR_VERSION_TICKS_def)
  show "descriptors_from_script env (ee_op_return env data) = Inr (Some ds)"
    using ds read n len version header different \<open>take 2 data = DESCRIPTOR_MAGIC\<close> signer
    by (simp add: descriptors_from_script_def law Let_def DESCRIPTOR_PREFIX_LEN_def DESCRIPTOR_HEADER_LEN_def
        DESCRIPTOR_RECORD_LEN_def DESCRIPTOR_TICK_RECORD_LEN_def MAX_ISSUED_DESCRIPTORS_def)
qed

lemma foreign_magic:
  assumes "op_return_data env script = Some data" "take 2 data = magic"
  shows "magic \<noteq> MEMBER_MAGIC \<Longrightarrow> member_from_script env script = None"
    and "magic \<noteq> INITIAL_MEMBERS_MAGIC \<Longrightarrow> initial_members_from_script env script = Inr None"
    and "magic \<noteq> INITIAL_MEMBERS_MAGIC \<Longrightarrow> migrated_members_proposer_from_script env script = None"
    and "magic \<noteq> DESCRIPTOR_MAGIC \<Longrightarrow> descriptors_from_script env script = Inr None"
  using assms by (simp_all add: member_from_script_def initial_members_from_script_def
      migrated_members_proposer_from_script_def descriptors_from_script_def)

lemma magics_differ:
  "DESCRIPTOR_MAGIC \<noteq> MEMBER_MAGIC" "DESCRIPTOR_MAGIC \<noteq> INITIAL_MEMBERS_MAGIC" "MEMBER_MAGIC \<noteq> INITIAL_MEMBERS_MAGIC"
  by (simp_all add: DESCRIPTOR_MAGIC_def MEMBER_MAGIC_def INITIAL_MEMBERS_MAGIC_def)

text \<open>
  What the network writes into the data outputs of its transactions it reads back exactly. A list of
  up to a hundred descriptors, Ticks and Verifiers in any order, is read back as it was written, for every
  list the writer accepts; a member's marker gives the member back; and no reader takes the data of another
  kind, so a transaction with a descriptor has no member marker by it.
\<close>
lemma markers_read_back:
  assumes "descriptor_script_pubkey env ds = Inr script" "\<forall>d\<in>set ds. descriptor_ok d"
    and "length member = 32" "\<And>data. op_return_law env data"
  shows "descriptors_from_script env script = Inr (Some ds) \<and> member_from_script env script = None \<and>
         initial_members_from_script env script = Inr None \<and>
         migrated_members_proposer_from_script env script = None \<and>
         member_from_script env (member_script env member) = Some member \<and>
         descriptors_from_script env (member_script env member) = Inr None \<and>
         migrated_members_proposer_from_script env (member_script env member) = None"
proof -
  obtain data where data: "descriptor_data ds = Inr data" "script = ee_op_return env data"
    using assms(1) by (auto simp: descriptor_script_pubkey_def bind_res_eq_Inr)
  note read = descriptors_read [OF data(1) assms(4) assms(2)]
  have d: "op_return_data env script = Some data" unfolding data(2) by (rule op_return_data_written) (rule assms(4))
  have m: "op_return_data env (member_script env member) = Some (MEMBER_MAGIC @ [MEMBER_VERSION] @ member)"
    unfolding member_script_def by (rule op_return_data_written) (rule assms(4))
  have t: "take 2 (MEMBER_MAGIC @ [MEMBER_VERSION] @ member) = MEMBER_MAGIC" by (simp add: MEMBER_MAGIC_def)
  show ?thesis
    using read(1) foreign_magic [OF d read(2)] foreign_magic [OF m t] magics_differ
      member_script_read [OF assms(4) assms(3)] data(2) by auto
qed

definition toy_descriptor :: "u32 \<Rightarrow> bytes option \<Rightarrow> issued_descriptor" where
  "toy_descriptor i signer =
     \<lparr>id_output_index = i, id_reserve_output_index = 4, id_owner = replicate 32 3, id_auth_kind = 2,
      id_auth_data = replicate 32 5, id_signer = signer\<rparr>"

lemma markers_read_back_witness:
  "\<exists>script. descriptors_from_script toy_elements script =
      Inr (Some [toy_descriptor 2 None, toy_descriptor 3 (Some (replicate 32 7))]) \<and>
    member_from_script toy_elements script = None"
proof -
  let ?ds = "[toy_descriptor 2 None, toy_descriptor 3 (Some (replicate 32 7))]"
  have ok: "\<forall>d\<in>set ?ds. descriptor_ok d" by (simp add: toy_descriptor_def descriptor_ok_def)
  have "(replicate 32 7 :: bytes) \<noteq> replicate 32 0" by simp
  then have "\<exists>script. descriptor_script_pubkey toy_elements ?ds = Inr script"
    by (simp add: descriptor_script_pubkey_def descriptor_data_def MAX_ISSUED_DESCRIPTORS_def shared_signer_def
        toy_descriptor_def List.map_filter_def)
  then obtain script where "descriptor_script_pubkey toy_elements ?ds = Inr script" by blast
  then show ?thesis
    using markers_read_back [OF _ ok, of toy_elements script "replicate 32 9"] toy_elements_laws(1) by auto
qed

end
