(* ===== verification/Fee_Utxo.thy ===== *)
theory Fee_Utxo
  imports Elements_Rpc
begin

text \<open>
  The fees of user requests: what the external API asks of the fee outputs a request names
  (\<open>external_api/fee_utxo.rs\<close>), and how a round divides the fee outputs of its requests into the
  operational fee, the burn reserves and the fee of its transaction (\<open>allocate_account_reserves\<close> of
  \<open>high_storm/user_requests.rs\<close>). What the API accepts always suffices for the round.
\<close>

record protocol_config =
  pc_operational_fee :: u64
  pc_burn_reserve :: u64
  pc_issuance_fee :: u64
  pc_burn_fee :: u64
  pc_exchange_fee :: u64
  pc_tick_lifetime :: u64
  pc_finality :: u64

datatype fee_utxo_error =
  FeeRpc
| MissingStormEye
| FeeUnsupportedChain string
| MissingUtxo outpoint
| InsufficientConfirmations outpoint u64 u64
| WrongAsset outpoint
| WrongOwner outpoint
| ReservedForBurning outpoint
| InsufficientValue u64 u64
| PolicyOverflow
| InvalidValue outpoint
| InvalidPublicKey

definition minimum_fee_value :: "nat \<Rightarrow> protocol_config \<Rightarrow> fee_utxo_error + u64" where
  "minimum_fee_value request_count config =
     (if 2 ^ 64 \<le> request_count then Inl PolicyOverflow
      else ok_or PolicyOverflow
        (Option.bind (checked_add (pc_operational_fee config) (pc_burn_reserve config)) (\<lambda>per_request.
         Option.bind (checked_mul per_request (of_nat request_count)) (\<lambda>request_fees.
           checked_add request_fees (pc_issuance_fee config)))))"

definition check_fee_utxo ::
  "elements_rpc \<Rightarrow> bytes \<Rightarrow> bytes \<Rightarrow> outpoint \<Rightarrow> u64 \<Rightarrow> fee_utxo_error + u64" where
  "check_fee_utxo rpc policy_asset account_script outpoint paid =
     bind_res (map_err (\<lambda>_. FeeRpc) (rc_txout rpc outpoint True)) (\<lambda>answer.
     bind_res (ok_or (MissingUtxo outpoint) answer) (\<lambda>out.
       if ga_confirmations out < MIN_FEE_UTXO_CONFIRMATIONS
       then Inl (InsufficientConfirmations outpoint (ga_confirmations out) MIN_FEE_UTXO_CONFIRMATIONS)
       else if ga_asset out \<noteq> Some policy_asset then Inl (WrongAsset outpoint)
       else if ga_script out \<noteq> account_script then Inl (WrongOwner outpoint)
       else
         bind_res (ok_or (InvalidValue outpoint) (Option.bind (ga_value out) parse_coin_value)) (\<lambda>v.
           ok_or PolicyOverflow (checked_add paid v))))"

definition validate_with_rpc ::
  "elements_env \<Rightarrow> elements_rpc \<Rightarrow> simplicity_network \<Rightarrow> bytes \<Rightarrow> outpoint list \<Rightarrow> bytes \<Rightarrow> bytes \<Rightarrow> u64 \<Rightarrow>
   fee_utxo_error + unit" where
  "validate_with_rpc env rpc network policy_asset fee_utxos owner storm_eye_asset_id minimum_value =
     (if \<not> ee_valid_x_only env owner then Inl InvalidPublicKey
      else
        bind_res (fold_res (check_fee_utxo rpc policy_asset (ee_account_script env storm_eye_asset_id owner network))
                    fee_utxos 0) (\<lambda>paid.
          if paid < minimum_value then Inl (InsufficientValue paid minimum_value) else Inr ()))"

text \<open>\<open>network\<close> and \<open>policy_asset\<close> are what \<open>getblockchaininfo\<close> and \<open>getsidechaininfo\<close> answer.\<close>

definition validate_fee_utxos ::
  "elements_env \<Rightarrow> elements_rpc \<Rightarrow> simplicity_network \<Rightarrow> bytes \<Rightarrow> asset_db \<Rightarrow> utxo_table \<Rightarrow> protocol_config \<Rightarrow>
   outpoint list \<Rightarrow> bytes \<Rightarrow> nat \<Rightarrow> fee_utxo_error + unit" where
  "validate_fee_utxos env rpc network policy_asset assets monitored config fee_utxos owner request_count =
     (case find snd (zip fee_utxos (burning_reservations fee_utxos monitored)) of
        Some (outpoint, _) \<Rightarrow> Inl (ReservedForBurning outpoint)
      | None \<Rightarrow>
          bind_res (ok_or MissingStormEye (get_asset STORM_EYE_KIND assets)) (\<lambda>storm_eye.
          bind_res (minimum_fee_value request_count config) (\<lambda>minimum_value.
            validate_with_rpc env rpc network policy_asset fee_utxos owner (na_asset_id storm_eye) minimum_value)))"

subsection \<open>The division of a round's fees\<close>

text \<open>One account: its requests and the total of its fee outputs; the transaction fee still to be paid.\<close>

definition account_reserve ::
  "protocol_config \<Rightarrow> nat \<times> u64 \<Rightarrow> u64 \<Rightarrow> user_request_error + u64 \<times> u64" where
  "account_reserve config = (\<lambda>(request_count, input_total) remaining.
     bind_res (ok_or (RequestInvalid ''operational fee overflow'')
                 (checked_mul (pc_operational_fee config) (of_nat request_count))) (\<lambda>operational_fee.
     bind_res (ok_or (RequestInvalid ''burn reserve overflow'')
                 (checked_mul (pc_burn_reserve config) (of_nat request_count))) (\<lambda>minimum_reserve.
     bind_res (ok_or (RequestInvalid ''insufficient user fee funds'')
                 (Option.bind (checked_sub input_total operational_fee) (\<lambda>a. checked_sub a minimum_reserve)))
       (\<lambda>available.
         let transaction_fee = min available remaining
         in Inr (input_total - operational_fee - transaction_fee, remaining - transaction_fee)))))"

fun reserves_from ::
  "protocol_config \<Rightarrow> (nat \<times> u64) list \<Rightarrow> u64 \<Rightarrow> user_request_error + u64 list \<times> u64" where
  "reserves_from config [] remaining = Inr ([], remaining)"
| "reserves_from config (account # accounts) remaining =
     bind_res (account_reserve config account remaining) (\<lambda>(reserve, remaining').
     bind_res (reserves_from config accounts remaining') (\<lambda>(reserves, left).
       Inr (reserve # reserves, left)))"

definition allocate_account_reserves ::
  "(nat \<times> u64) list \<Rightarrow> protocol_config \<Rightarrow> user_request_error + u64 list" where
  "allocate_account_reserves accounts config =
     bind_res (reserves_from config accounts (pc_issuance_fee config)) (\<lambda>(reserves, left).
       if left \<noteq> 0 then Inl (RequestInvalid ''insufficient funds for the issuance transaction fee'')
       else Inr reserves)"

subsection \<open>What the API accepts suffices\<close>

definition unat_sum :: "u64 list \<Rightarrow> nat" where
  "unat_sum vs = sum_list (map unat vs)"

lemma minimum_fee_value_InrD:
  assumes "minimum_fee_value n config = Inr m"
  shows "n < 2 ^ 64 \<and>
   unat m = (unat (pc_operational_fee config) + unat (pc_burn_reserve config)) * n + unat (pc_issuance_fee config)"
proof -
  have n: "n < 2 ^ 64" using assms by (auto simp: minimum_fee_value_def split: if_splits)
  then have "unat (of_nat n :: u64) = n" by (simp add: unat_of_nat)
  then show ?thesis
    using assms n
    by (auto simp: minimum_fee_value_def ok_or_eq_Inr bind_eq_Some_conv checked_add_Some_iff checked_mul_Some_iff)
qed

lemma account_reserve_Inr:
  assumes "account_reserve config (n, t) remaining = Inr (r, remaining')" "n < 2 ^ 64"
  defines "kept \<equiv> (unat (pc_operational_fee config) + unat (pc_burn_reserve config)) * n"
  shows "kept \<le> unat t"
    and "unat t = unat r + unat (pc_operational_fee config) * n + (unat remaining - unat remaining')"
    and "unat remaining' = unat remaining - min (unat t - kept) (unat remaining)"
    and "unat (pc_burn_reserve config) * n \<le> unat r"
proof -
  have n: "unat (of_nat n :: u64) = n" using assms(2) by (simp add: unat_of_nat)
  obtain f b a :: u64 where f: "unat f = unat (pc_operational_fee config) * n"
    and b: "unat b = unat (pc_burn_reserve config) * n"
    and a: "unat f + unat b \<le> unat t" "unat a = unat t - unat f - unat b"
    and r: "r = t - f - min a remaining" "remaining' = remaining - min a remaining"
  proof -
    from assms(1) obtain f b s a where steps: "checked_mul (pc_operational_fee config) (of_nat n) = Some f"
      "checked_mul (pc_burn_reserve config) (of_nat n) = Some b" "checked_sub t f = Some s" "checked_sub s b = Some a"
      and r: "r = t - f - min a remaining" "remaining' = remaining - min a remaining"
      unfolding account_reserve_def prod.case bind_res_eq_Inr ok_or_eq_Inr bind_eq_Some_conv Let_def by auto
    show thesis
      by (rule that [of f b a])
        (use steps r n in \<open>auto simp: checked_mul_Some_iff checked_sub_Some_iff\<close>)
  qed
  have m: "unat (min a remaining) = min (unat a) (unat remaining)"
    by (simp add: min_def word_le_nat_alt)
  have kept: "kept = unat f + unat b" using f b by (simp add: kept_def add_mult_distrib)
  have tf: "unat (t - f) = unat t - unat f" using a(1) by (simp add: unat_sub word_le_nat_alt)
  have rem: "unat remaining' = unat remaining - min (unat a) (unat remaining)"
    unfolding r(2) using m by (subst unat_sub) (simp_all add: word_le_nat_alt)
  have res: "unat r = unat t - unat f - min (unat a) (unat remaining)"
    unfolding r(1) using m a tf by (subst unat_sub) (simp_all add: word_le_nat_alt)
  show "kept \<le> unat t" using a(1) kept by simp
  show "unat t = unat r + unat (pc_operational_fee config) * n + (unat remaining - unat remaining')"
    using f a rem res by linarith
  show "unat remaining' = unat remaining - min (unat t - kept) (unat remaining)"
    using rem a(2) kept by (simp add: diff_diff_left)
  show "unat (pc_burn_reserve config) * n \<le> unat r" using b a res by linarith
qed

lemma account_reserve_total:
  assumes "(unat (pc_operational_fee config) + unat (pc_burn_reserve config)) * n \<le> unat t" "n < 2 ^ 64"
  shows "\<exists>r remaining'. account_reserve config (n, t) remaining = Inr (r, remaining')"
proof -
  have n: "unat (of_nat n :: u64) = n" using assms(2) by (simp add: unat_of_nat)
  have t: "unat t < 2 ^ 64" using unsigned_less [of t, where 'a = nat] by simp
  have le: "unat (pc_operational_fee config) * n + unat (pc_burn_reserve config) * n \<le> unat t"
    using assms(1) by (simp add: add_mult_distrib)
  then have small: "unat (pc_operational_fee config) * n < 2 ^ 64" "unat (pc_burn_reserve config) * n < 2 ^ 64"
    using t by linarith+
  obtain f b where f: "checked_mul (pc_operational_fee config) (of_nat n) = Some f"
    "unat f = unat (pc_operational_fee config) * n"
    and b: "checked_mul (pc_burn_reserve config) (of_nat n) = Some b" "unat b = unat (pc_burn_reserve config) * n"
  proof -
    let ?f = "pc_operational_fee config * of_nat n" and ?b = "pc_burn_reserve config * of_nat n"
    have "checked_mul (pc_operational_fee config) (of_nat n) = Some ?f"
      "checked_mul (pc_burn_reserve config) (of_nat n) = Some ?b"
      using n small by (simp_all add: checked_mul_def)
    then show thesis
      using that [of ?f ?b] n by (simp add: checked_mul_Some_iff)
  qed
  have "f \<le> t" using le f(2) by (simp add: word_le_nat_alt)
  moreover have "b \<le> t - f" using le f(2) b(2) \<open>f \<le> t\<close> by (simp add: word_le_nat_alt unat_sub)
  ultimately show ?thesis
    using f(1) b(1) by (simp add: account_reserve_def checked_sub_def Let_def)
qed

lemma reserves_from_Inr:
  assumes "reserves_from config accounts remaining = Inr (parts, left')" "\<forall>(n, t)\<in>set accounts. n < 2 ^ 64"
  shows "sum_list (map (unat \<circ> snd) accounts) = unat_sum parts +
           unat (pc_operational_fee config) * sum_list (map fst accounts) + (unat remaining - unat left') \<and>
    unat left' \<le> unat remaining \<and>
    list_all2 (\<lambda>(n, t) r. unat (pc_burn_reserve config) * n \<le> unat r) accounts parts"
  using assms
proof (induction accounts arbitrary: remaining parts)
  case (Cons account accounts)
  obtain n t where account: "account = (n, t)" by (cases account)
  obtain r remaining' rs where step: "account_reserve config (n, t) remaining = Inr (r, remaining')"
    and rest: "reserves_from config accounts remaining' = Inr (rs, left')" "parts = r # rs"
    using Cons.prems(1) by (auto simp: bind_res_eq_Inr account)
  have n': "n < 2 ^ 64" "\<forall>(n, t)\<in>set accounts. n < 2 ^ 64" using Cons.prems(2) account by auto
  have IH: "sum_list (map (unat \<circ> snd) accounts) = unat_sum rs +
        unat (pc_operational_fee config) * sum_list (map fst accounts) + (unat remaining' - unat left')"
    "unat left' \<le> unat remaining'"
    "list_all2 (\<lambda>(n, t) r. unat (pc_burn_reserve config) * n \<le> unat r) accounts rs"
    using Cons.IH [OF rest(1) n'(2)] by blast+
  note one = account_reserve_Inr [OF step n'(1)]
  have "unat remaining' \<le> unat remaining" using one(3) by simp
  moreover have "unat_sum (r # rs) = unat r + unat_sum rs" by (simp add: unat_sum_def)
  ultimately show ?case
    using IH one(2,4) by (simp add: account rest(2) distrib_left comp_def)
qed (auto simp: unat_sum_def)

lemma reserves_from_total:
  assumes "\<forall>(n, t)\<in>set accounts. n < 2 ^ 64 \<and>
     (unat (pc_operational_fee config) + unat (pc_burn_reserve config)) * n + fee \<le> unat t" "unat remaining \<le> fee"
  shows "\<exists>parts left'. reserves_from config accounts remaining = Inr (parts, left') \<and>
     (accounts \<noteq> [] \<or> remaining = 0 \<longrightarrow> left' = 0)"
  using assms
proof (induction accounts arbitrary: remaining)
  case (Cons account accounts)
  obtain n t where account: "account = (n, t)" by (cases account)
  let ?kept = "(unat (pc_operational_fee config) + unat (pc_burn_reserve config)) * n"
  have n: "n < 2 ^ 64" "?kept + fee \<le> unat t" using Cons.prems(1) account by auto
  then obtain r remaining' where step: "account_reserve config (n, t) remaining = Inr (r, remaining')"
    using account_reserve_total [of config n t remaining] by auto
  have "unat remaining' = 0"
    using account_reserve_Inr(3) [OF step n(1)] n(2) Cons.prems(2) by linarith
  then have zero: "remaining' = 0" by (simp add: unat_eq_zero)
  obtain rs left' where "reserves_from config accounts remaining' = Inr (rs, left')" "left' = 0"
    using Cons.IH [of remaining'] Cons.prems zero by auto
  then show ?case using step account by auto
qed auto

text \<open>
  The fees a round pays come out of its requests' fee outputs, and what the API accepts suffices. If the
  fee outputs of each of a round's requests are worth at least the minimum the API asks for that number of
  issued outputs, the division succeeds; it pays the operational fee of every issued output and the whole
  transaction fee, not a satoshi is lost or created, and every account keeps at least the burn reserve of
  each of its issued outputs.
\<close>
lemma accepted_fees_suffice:
  assumes "accounts \<noteq> []"
    and "\<forall>(n, t)\<in>set accounts. \<exists>m. minimum_fee_value n config = Inr m \<and> m \<le> t"
  shows "\<exists>parts. allocate_account_reserves accounts config = Inr parts \<and>
    sum_list (map (unat \<circ> snd) accounts) =
      unat_sum parts + unat (pc_operational_fee config) * sum_list (map fst accounts) +
      unat (pc_issuance_fee config) \<and>
    list_all2 (\<lambda>(n, t) r. unat (pc_burn_reserve config) * n \<le> unat r) accounts parts"
proof -
  have kept: "\<forall>(n, t)\<in>set accounts. n < 2 ^ 64 \<and>
     (unat (pc_operational_fee config) + unat (pc_burn_reserve config)) * n + unat (pc_issuance_fee config) \<le> unat t"
    using assms(2) by (fastforce dest: minimum_fee_value_InrD simp: word_le_nat_alt)
  then obtain parts where run: "reserves_from config accounts (pc_issuance_fee config) = Inr (parts, 0)"
    using reserves_from_total [OF kept order_refl] assms(1) by auto
  have small: "\<forall>(n, t)\<in>set accounts. n < 2 ^ 64" using kept by auto
  show ?thesis
    using reserves_from_Inr [OF run small] run by (auto simp: allocate_account_reserves_def)
qed

definition toy_config :: protocol_config where
  "toy_config = \<lparr>pc_operational_fee = 100, pc_burn_reserve = 50, pc_issuance_fee = 1000, pc_burn_fee = 500,
     pc_exchange_fee = 500, pc_tick_lifetime = 60, pc_finality = 2\<rparr>"

lemma accepted_fees_suffice_witness:
  "\<exists>parts. allocate_account_reserves [(2, 1400), (1, 1150)] toy_config = Inr parts \<and>
     2550 = unat_sum parts + 300 + 1000"
proof -
  have "\<forall>(n, t)\<in>set [(2, 1400), (1, 1150)]. \<exists>m. minimum_fee_value n toy_config = Inr m \<and> m \<le> t"
    by (simp add: minimum_fee_value_def toy_config_def checked_add_def checked_mul_def)
  then show ?thesis
    using accepted_fees_suffice [of "[(2, 1400), (1, 1150)]" toy_config] by (auto simp: toy_config_def)
qed

end
