(* ===== verification/Droplet_Exchange.thy ===== *)
theory Droplet_Exchange
  imports Elements_Rpc Script_Markers Fee_Utxo Chain_Store
begin

text \<open>
  The exchange of a member's Droplets for the Treasury's coins (\<open>high_storm/droplets.rs\<close>): the
  transaction is prepared from the indexed Treasury outputs, validated by every signer against its own
  chain and ledger, finalised with the network's signature and broadcast. The database is the
  \<open>droplet_db\<close>; the ledger's halt is the flag of the chain store.
\<close>

datatype exchange_error =
  ExchangeDatabase db_error
| ExchangeMissingAsset string
| ExchangeInvalid string
| ExchangeTransaction
| ExchangeRpc
| ExchangeAsset asset_error
| ExchangeProgram string
| ExchangeHelper user_request_error
| ExchangeSigning signing_failure
| ExchangePset string
and signing_failure = NoAvailableBranch | SigningFailed | OtherSigningError

definition is_retryable :: "exchange_error \<Rightarrow> bool" where
  "is_retryable e = (e = ExchangeSigning NoAvailableBranch \<or> e = ExchangeSigning SigningFailed)"

record validated_exchange =
  ve_member :: bytes
  ve_amount :: u64

definition txout_secrets :: "tx_out \<Rightarrow> exchange_error + tx_out_secrets" where
  "txout_secrets out =
     bind_res (ok_or (ExchangeInvalid ''Treasury input asset must be explicit'') (explicit_value (to_asset out))) (\<lambda>asset.
     bind_res (ok_or (ExchangeInvalid ''Treasury input value must be explicit'') (explicit_value (to_value out))) (\<lambda>v.
       Inr \<lparr>os_asset = asset, os_asset_blinder = ZERO_BLINDER, os_value = v, os_value_blinder = ZERO_BLINDER\<rparr>))"

definition exchange_signing_hash ::
  "elements_env \<Rightarrow> pset \<Rightarrow> network_asset \<Rightarrow> simplicity_network \<Rightarrow> exchange_error + bytes" where
  "exchange_signing_hash env = signing_hash env ExchangeAsset ExchangeProgram"

definition previous_output :: "elements_rpc \<Rightarrow> outpoint \<Rightarrow> exchange_error + tx_out" where
  "previous_output rpc = (\<lambda>(txid, vout).
     bind_res (map_err (\<lambda>_. ExchangeRpc) (rc_transaction rpc txid)) (\<lambda>t.
       ok_or (ExchangeInvalid ''previous transaction output is missing'')
         (if unat vout < length (tx_output t) then Some (tx_output t ! unat vout) else None)))"

definition verify_exchange_amounts ::
  "elements_env \<Rightarrow> transaction \<Rightarrow> tx_out list \<Rightarrow> exchange_error + unit" where
  "verify_exchange_amounts env t spent_utxos =
     (let verifiable = t\<lparr>tx_output := filter (\<lambda>out. explicit_value (to_value out) \<noteq> Some 0 \<or>
            \<not> ee_unspendable env (to_script out)) (tx_output t)\<rparr>
      in require (ee_verify_amounts env verifiable spent_utxos)
           (ExchangeInvalid ''failed to verify exchange amounts''))"

subsection \<open>The layout of an exchange\<close>

fun sum_treasury_inputs ::
  "pset \<Rightarrow> bytes \<Rightarrow> bytes \<Rightarrow> nat list \<Rightarrow> u64 \<Rightarrow> exchange_error + u64" where
  "sum_treasury_inputs p treasury_script policy_asset [] acc = Inr acc"
| "sum_treasury_inputs p treasury_script policy_asset (index # indexes) acc =
     bind_res (map_err ExchangeHelper (witness_utxo p index)) (\<lambda>input.
       if to_script input \<noteq> treasury_script
       then Inl (ExchangeInvalid ''transaction contains a non-Treasury funding input'')
       else bind_res (txout_secrets input) (\<lambda>secrets.
         if os_asset secrets \<noteq> policy_asset then Inl (ExchangeInvalid ''Treasury input is not LBTC'')
         else bind_res (ok_or (ExchangeInvalid ''Treasury input overflow'') (checked_add acc (os_value secrets)))
           (\<lambda>acc'. sum_treasury_inputs p treasury_script policy_asset indexes acc')))"

record exchange_totals =
  et_markers :: nat
  et_returned :: u64
  et_outputs :: u64
  et_recipient :: u64

definition exchange_totals_empty :: exchange_totals where
  "exchange_totals_empty = \<lparr>et_markers = 0, et_returned = 0, et_outputs = 0, et_recipient = 0\<rparr>"

definition count_output ::
  "elements_env \<Rightarrow> bytes \<Rightarrow> bytes \<Rightarrow> bytes \<Rightarrow> pset_output \<Rightarrow> exchange_totals \<Rightarrow> exchange_error + exchange_totals" where
  "count_output env treasury_script policy_asset expected_member out t =
     (if \<not> is_fully_explicit_output out then Inl (ExchangeInvalid ''exchange LBTC output must be explicit'')
      else if po_asset out \<noteq> Some policy_asset then Inl (ExchangeInvalid ''exchange output is not LBTC'')
      else
        bind_res (ok_or (ExchangeInvalid ''exchange output amount is missing'') (po_amount out)) (\<lambda>amount.
        bind_res (ok_or (ExchangeInvalid ''exchange output overflow'') (checked_add (et_outputs t) amount)) (\<lambda>outputs.
          let t = t\<lparr>et_outputs := outputs\<rparr> in
          case member_from_script env (po_script out) of
            Some member \<Rightarrow>
              if member \<noteq> expected_member \<or> amount \<noteq> 0
              then Inl (ExchangeInvalid ''exchange member marker is invalid'')
              else Inr (t\<lparr>et_markers := et_markers t + 1\<rparr>)
          | None \<Rightarrow>
              if po_script out = treasury_script then
                bind_res (ok_or (ExchangeInvalid ''Treasury change overflow'') (checked_add (et_returned t) amount))
                  (\<lambda>returned. Inr (t\<lparr>et_returned := returned\<rparr>))
              else if po_script out \<noteq> [] then
                bind_res (ok_or (ExchangeInvalid ''recipient amount overflow'') (checked_add (et_recipient t) amount))
                  (\<lambda>recipient. Inr (t\<lparr>et_recipient := recipient\<rparr>))
              else Inr t)))"

definition validate_layout ::
  "elements_env \<Rightarrow> pset \<Rightarrow> bytes \<Rightarrow> bytes \<Rightarrow> network_asset \<Rightarrow> simplicity_network \<Rightarrow>
   exchange_error + validated_exchange" where
  "validate_layout env p request_signing_hash expected_leader storm_eye network =
     (if length (ps_inputs p) < 2 \<or> length (ps_outputs p) < 3
      then Inl (ExchangeInvalid ''transaction is incomplete'')
      else
        bind_res (map_err ExchangeHelper (witness_utxo p 0)) (\<lambda>eye_input.
        bind_res (map_err ExchangeHelper (require_explicit_utxo eye_input (na_asset_id storm_eye)
                    (na_contract_script storm_eye) ''Storm Eye'')) (\<lambda>_.
        bind_res (map_err ExchangeHelper (require_preserved_output env p 0 eye_input ''Storm Eye'')) (\<lambda>_.
        let policy_asset = ee_policy_asset env network;
            treasury_script = ee_treasury_script env (na_asset_id storm_eye) network in
        bind_res (sum_treasury_inputs p treasury_script policy_asset [1..<length (ps_inputs p)] 0) (\<lambda>treasury_inputs.
        bind_res (ok_or (ExchangeInvalid ''invalid leader public key'') (ee_x_only env expected_leader))
          (\<lambda>expected_member.
        bind_res (fold_res (count_output env treasury_script policy_asset expected_member)
                    (drop 1 (ps_outputs p)) exchange_totals_empty) (\<lambda>t.
          if et_markers t \<noteq> 1 \<or> et_recipient t = 0 \<or> et_outputs t \<noteq> treasury_inputs
          then Inl (ExchangeInvalid ''exchange outputs do not conserve Treasury value or identify one recipient'')
          else
            bind_res (ok_or (ExchangeInvalid ''exchange removes no Treasury value'')
                (Option.bind (checked_sub treasury_inputs (et_returned t))
                   (\<lambda>amount. if 0 < amount then Some amount else None))) (\<lambda>amount.
            bind_res (exchange_signing_hash env p storm_eye network) (\<lambda>hash.
              if hash \<noteq> request_signing_hash then Inl (ExchangeInvalid ''exchange signing hash mismatch'')
              else Inr \<lparr>ve_member = expected_member, ve_amount = amount\<rparr>)))))))))"

definition exchange_recipient_amount :: "elements_env \<Rightarrow> bytes \<Rightarrow> exchange_error + u64" where
  "exchange_recipient_amount env tx =
     bind_res (ok_or ExchangeTransaction (ee_decode_pset env tx)) (\<lambda>p.
     bind_res (map_err ExchangeHelper (witness_utxo p 1)) (\<lambda>treasury.
     bind_res (fold_res (\<lambda>out amount.
          if po_script out = [] \<or> po_script out = to_script treasury \<or>
             member_from_script env (po_script out) \<noteq> None then Inr amount
          else
            bind_res (ok_or (ExchangeInvalid ''exchange recipient amount is missing'') (po_amount out)) (\<lambda>a.
              ok_or (ExchangeInvalid ''recipient amount overflow'') (checked_add amount a)))
        (drop 1 (ps_outputs p)) 0) (\<lambda>recipient_amount.
       if recipient_amount = 0 then Inl (ExchangeInvalid ''exchange has no recipient amount'')
       else Inr recipient_amount)))"

subsection \<open>Validation against the chain and the ledger\<close>

fun check_live_inputs :: "elements_rpc \<Rightarrow> pset \<Rightarrow> nat \<Rightarrow> pset_input list \<Rightarrow> exchange_error + unit" where
  "check_live_inputs rpc p index [] = Inr ()"
| "check_live_inputs rpc p index (input # inputs) =
     bind_res (previous_output rpc (pi_previous_txid input, pi_previous_index input)) (\<lambda>live.
     bind_res (map_err ExchangeHelper (witness_utxo p index)) (\<lambda>claimed.
       if claimed \<noteq> live then Inl (ExchangeInvalid ''input does not match the live UTXO'')
       else check_live_inputs rpc p (index + 1) inputs))"

definition exchange_network :: "elements_rpc \<Rightarrow> exchange_error + simplicity_network" where
  "exchange_network rpc = map_err ExchangeInvalid (rc_network rpc)"

definition validate_exchange ::
  "elements_env \<Rightarrow> elements_rpc \<Rightarrow> node_db \<Rightarrow> bytes \<Rightarrow> bytes \<Rightarrow> bytes \<Rightarrow> exchange_error + validated_exchange" where
  "validate_exchange env rpc db tx hash expected_leader =
     (case ledger_halt db of
        Some _ \<Rightarrow> Inl (ExchangeInvalid ''Droplets ledger is halted'')
      | None \<Rightarrow>
          bind_res (ok_or (ExchangeMissingAsset STORM_EYE_KIND) (get_asset STORM_EYE_KIND (nd_assets db))) (\<lambda>storm_eye.
          bind_res (ok_or ExchangeTransaction (ee_decode_pset env tx)) (\<lambda>p.
          bind_res (check_live_inputs rpc p 0 (ps_inputs p)) (\<lambda>_.
          bind_res (exchange_network rpc) (\<lambda>network.
          bind_res (validate_layout env p hash expected_leader storm_eye network) (\<lambda>validated.
          bind_res (map_err ExchangeDatabase (balance (ve_member validated) (nd_droplets db))) (\<lambda>found.
          bind_res (ok_or (ExchangeInvalid ''network leader has no Droplets'') found) (\<lambda>held.
            if db_amount held < ve_amount validated
            then Inl (ExchangeInvalid ''Droplets exchange exceeds the network leader balance'')
            else Inr validated))))))))"

definition exchange_lock ::
  "validated_exchange \<Rightarrow> u64 \<Rightarrow> bytes \<Rightarrow> node_db \<Rightarrow> exchange_error + node_db" where
  "exchange_lock exchange height tx db =
     bind_res (map_err ExchangeDatabase
         (lock_exchange (ve_member exchange) (ve_amount exchange) height tx (nd_droplets db))) (\<lambda>(droplets, done').
       if \<not> done' then Inl (ExchangeInvalid ''Droplets balance is insufficient or already locked'')
       else Inr (db\<lparr>nd_droplets := droplets\<rparr>))"

definition exchange_unlock :: "bytes \<Rightarrow> u64 \<Rightarrow> node_db \<Rightarrow> exchange_error + node_db" where
  "exchange_unlock member height db =
     bind_res (map_err ExchangeDatabase (unlock_exchange member height (nd_droplets db))) (\<lambda>droplets.
       Inr (db\<lparr>nd_droplets := droplets\<rparr>))"

definition queue_validated_exchange ::
  "elements_env \<Rightarrow> elements_rpc \<Rightarrow> bytes \<Rightarrow> bytes \<Rightarrow> bytes \<Rightarrow> u64 \<Rightarrow> node_db \<Rightarrow>
   exchange_error + node_db \<times> exchange_request" where
  "queue_validated_exchange env rpc tx hash expected_member height db =
     bind_res (validate_exchange env rpc db tx hash expected_member) (\<lambda>exchange.
     bind_res (map_err ExchangeDatabase (balance (ve_member exchange) (nd_droplets db))) (\<lambda>found.
     bind_res (ok_or (ExchangeInvalid ''network member has no Droplets'') found) (\<lambda>held.
       if db_exchange_locked held then Inl (ExchangeInvalid ''Droplets exchange is already in progress'')
       else
         bind_res (map_err ExchangeDatabase (queue_exchange (ve_member exchange) tx hash height (nd_droplets db)))
           (\<lambda>droplets.
         bind_res (ok_or (ExchangeInvalid ''queued exchange disappeared'')
                     (exchange_request_of (ve_member exchange) droplets)) (\<lambda>request.
           Inr (db\<lparr>nd_droplets := droplets\<rparr>, request))))))"

subsection \<open>Preparing an exchange\<close>

definition network_address_params :: "simplicity_network \<Rightarrow> address_params" where
  "network_address_params network =
     (case network of Liquid \<Rightarrow> ParamsLiquid | LiquidTestnet \<Rightarrow> ParamsLiquidTestnet | _ \<Rightarrow> ParamsElements)"

text \<open>The Treasury outputs are taken in the order they were indexed until they cover what is required.\<close>

fun select_treasury ::
  "elements_rpc \<Rightarrow> bytes \<Rightarrow> bytes \<Rightarrow> u64 \<Rightarrow> treasury_utxo list \<Rightarrow> u64 \<Rightarrow>
   exchange_error + utxo list \<times> u64" where
  "select_treasury rpc policy_asset treasury_script required [] acc = Inr ([], acc)"
| "select_treasury rpc policy_asset treasury_script required (indexed # rest) acc =
     bind_res (map_err ExchangeHelper
         (get_optional_explicit_outpoint rpc (tu_txid indexed, tu_output_index indexed) True)) (\<lambda>found.
       case found of
         None \<Rightarrow> select_treasury rpc policy_asset treasury_script required rest acc
       | Some u \<Rightarrow>
           if utxo_asset u \<noteq> policy_asset \<or> utxo_amount u \<noteq> tu_amount indexed \<or>
              to_script (ut_txout u) \<noteq> treasury_script
           then Inl (ExchangeInvalid ''indexed Treasury UTXO does not match Elements'')
           else
             bind_res (ok_or (ExchangeInvalid ''Treasury input overflow'') (checked_add acc (utxo_amount u))) (\<lambda>acc'.
               if required \<le> acc' then Inr ([u], acc')
               else bind_res (select_treasury rpc policy_asset treasury_script required rest acc') (\<lambda>(us, covered).
                 Inr (u # us, covered))))"

definition output_from_utxo :: "utxo \<Rightarrow> bytes \<times> u64 \<times> bytes" where
  "output_from_utxo u = (to_script (ut_txout u), utxo_amount u, utxo_asset u)"

definition funding_input :: "utxo \<Rightarrow> outpoint \<times> tx_out \<times> (u64 \<times> bytes) option" where
  "funding_input u = (ut_outpoint u, ut_txout u, None)"

definition prepare_exchange_transaction ::
  "elements_env \<Rightarrow> elements_rpc \<Rightarrow> u64 \<Rightarrow> u64 \<Rightarrow> string \<Rightarrow> bytes \<Rightarrow> u64 \<Rightarrow> network_asset \<Rightarrow> treasury_utxo list \<Rightarrow>
   exchange_error + bytes \<times> bytes" where
  "prepare_exchange_transaction env rpc fee amount destination expected_member required storm_eye indexed =
     bind_res (exchange_network rpc) (\<lambda>network.
     bind_res (ok_or (ExchangeInvalid ''invalid destination address'') (ee_parse_address env destination)) (\<lambda>address.
     if ad_params address \<noteq> network_address_params network
     then Inl (ExchangeInvalid ''destination address belongs to a different network'')
     else if ad_blinded address then Inl (ExchangeInvalid ''destination must be an unconfidential address'')
     else
       let policy_asset = ee_policy_asset env network;
           treasury_script = ee_treasury_script env (na_asset_id storm_eye) network in
       bind_res (select_treasury rpc policy_asset treasury_script required indexed 0) (\<lambda>(selected, covered).
       if covered < required then Inl (ExchangeInvalid ''Treasury does not have enough available LBTC'')
       else
         bind_res (map_err ExchangeHelper (find_contract_utxo rpc (na_contract_script storm_eye)
             (Some (na_asset_id storm_eye)) AnyNetworkLeader)) (\<lambda>eye.
         bind_res (ok_or (ExchangeInvalid ''Storm Eye contract data is missing'') (na_contract_data storm_eye)) (\<lambda>encoded.
         bind_res (ok_or (ExchangeInvalid ''invalid Storm Eye contract data'') (ee_decode_contract env encoded)) (\<lambda>_.
         bind_res (map_err ExchangeAsset (storm_eye_program env storm_eye)) (\<lambda>_.
         bind_res (ok_or (ExchangeInvalid ''invalid local public key'') (ee_x_only env expected_member)) (\<lambda>member.
           let change = covered - required;
               p = ee_build_pset env (map funding_input (eye # selected))
                 ([output_from_utxo eye, (ad_script address, amount, policy_asset)] @
                  (if 0 < change then [(treasury_script, change, policy_asset)] else []) @
                  [(member_script env member, 0, policy_asset), ([], fee, policy_asset)])
           in bind_res (exchange_signing_hash env p storm_eye network) (\<lambda>hash.
                Inr (ee_encode_pset env p, hash))))))))))"

definition prepare_and_queue_exchange ::
  "elements_env \<Rightarrow> elements_rpc \<Rightarrow> u64 \<Rightarrow> u64 \<Rightarrow> string \<Rightarrow> bytes \<Rightarrow> u64 \<Rightarrow> node_db \<Rightarrow>
   exchange_error + node_db \<times> exchange_request" where
  "prepare_and_queue_exchange env rpc fee amount destination expected_member height db =
     (if amount = 0 then Inl (ExchangeInvalid ''exchange amount must be positive'')
      else
        bind_res (ok_or (ExchangeInvalid ''exchange amount overflow'') (checked_add amount fee)) (\<lambda>required.
        if ee_parse_address env destination = None then Inl (ExchangeInvalid ''invalid destination address'')
        else
          bind_res (ok_or (ExchangeMissingAsset STORM_EYE_KIND) (get_asset STORM_EYE_KIND (nd_assets db))) (\<lambda>storm_eye.
          bind_res (map_err ExchangeDatabase (treasury_utxos (nd_droplets db))) (\<lambda>indexed.
          bind_res (prepare_exchange_transaction env rpc fee amount destination expected_member required
                      storm_eye indexed) (\<lambda>(tx, hash).
            queue_validated_exchange env rpc tx hash expected_member height db)))))"

subsection \<open>Finalising an exchange\<close>

record signing_result =
  sr_signatures :: "bytes list"
  sr_branch :: bytes

definition pack_proof :: "merkle_proof \<Rightarrow> user_request_error + (bool \<times> bytes) option list" where
  "pack_proof proof =
     (if TREE_DEPTH < length (mp_siblings proof) then Inl (RequestInvalid ''Storm Tree proof is too deep'')
      else Inr (map (\<lambda>index. if index < length (mp_siblings proof) then Some (mp_siblings proof ! index) else None)
             [0..<TREE_DEPTH]))"

definition set_final_witness :: "pset \<Rightarrow> nat \<Rightarrow> bytes list \<Rightarrow> pset" where
  "set_final_witness p index w =
     p\<lparr>ps_inputs := (ps_inputs p)[index := (ps_inputs p ! index)\<lparr>pi_final_witness := Some w\<rparr>]\<rparr>"

fun finalize_treasuries ::
  "elements_env \<Rightarrow> bytes \<Rightarrow> simplicity_network \<Rightarrow> nat list \<Rightarrow> pset \<Rightarrow> exchange_error + pset" where
  "finalize_treasuries env asset network [] p = Inr p"
| "finalize_treasuries env asset network (index # indexes) p =
     bind_res (map_err ExchangeProgram (ee_finalize_treasury env asset p index network)) (\<lambda>w.
       finalize_treasuries env asset network indexes (set_final_witness p index w))"

definition final_exchange_transaction ::
  "elements_env \<Rightarrow> elements_rpc \<Rightarrow> exchange_rewards \<Rightarrow> signing_result \<Rightarrow> merkle_proof \<Rightarrow> node_db \<Rightarrow>
   exchange_error + transaction" where
  "final_exchange_transaction env rpc request signing proof db =
     bind_res (ok_or (ExchangeMissingAsset STORM_EYE_KIND) (get_asset STORM_EYE_KIND (nd_assets db))) (\<lambda>storm_eye.
     bind_res (exchange_network rpc) (\<lambda>network.
     bind_res (ok_or (ExchangeInvalid ''Storm Eye contract data is missing'') (na_contract_data storm_eye)) (\<lambda>encoded.
     bind_res (ok_or (ExchangeInvalid ''invalid Storm Eye contract data'') (ee_decode_contract env encoded)) (\<lambda>data.
     if \<not> verify_branch (ee_sha256 env) (sd_storm_tree_root data) (sr_branch signing) proof
     then Inl (ExchangeInvalid ''signing branch is not included in the Storm Eye root'')
     else
       bind_res (ok_or (ExchangeInvalid ''missing Storm Eye signature'')
           (case sr_signatures signing of [] \<Rightarrow> None | s # _ \<Rightarrow> Some s)) (\<lambda>signature.
       if \<not> ee_valid_x_only env (sr_branch signing) then Inl (ExchangeInvalid ''invalid Storm Eye signing branch'')
       else if \<not> ee_valid_signature env signature then Inl (ExchangeInvalid ''invalid Storm Eye signature'')
       else if \<not> ee_verify_schnorr env signature (ex_signing_hash request) (sr_branch signing)
       then Inl (ExchangeInvalid ''Storm Eye signature verification failed'')
       else
         bind_res (ok_or ExchangeTransaction (ee_decode_pset env (ex_tx request))) (\<lambda>p.
         bind_res (map_err ExchangeAsset (storm_eye_program env storm_eye)) (\<lambda>program.
         bind_res (map_err ExchangeHelper (pack_proof proof)) (\<lambda>packed.
         if ps_inputs p = [] then Inl (ExchangeInvalid ''transaction is incomplete'')
         else
           bind_res (map_err ExchangeProgram (ee_finalize_auth env program
               \<lparr>aw_root = sd_storm_tree_root data, aw_rescue_height = sd_rescue_height data,
                aw_signature = signature, aw_branch = sr_branch signing, aw_proof = packed,
                aw_kind = Inclusion 0\<rparr> p 0 network)) (\<lambda>w.
           bind_res (finalize_treasuries env (na_asset_id storm_eye) network [1..<length (ps_inputs p)]
                       (set_final_witness p 0 w)) (\<lambda>final.
           bind_res (exchange_signing_hash env final storm_eye network) (\<lambda>hash.
           if hash \<noteq> ex_signing_hash request then Inl (ExchangeInvalid ''final exchange signing hash changed'')
           else
             bind_res (map_err ExchangePset (ee_extract_tx env final)) (\<lambda>final_tx.
             bind_res (map_res (\<lambda>input. previous_output rpc (ti_previous input)) (tx_input final_tx)) (\<lambda>spent.
             bind_res (verify_exchange_amounts env final_tx spent) (\<lambda>_.
               Inr final_tx))))))))))))))"

text \<open>
  The lock is moved to the final transaction before it is broadcast, and stays there when the broadcast
  fails: the database is returned in every case.
\<close>

definition finalize_exchange ::
  "elements_env \<Rightarrow> elements_rpc \<Rightarrow> exchange_rewards \<Rightarrow> signing_result \<Rightarrow> merkle_proof \<Rightarrow> validated_exchange \<Rightarrow>
   node_db \<Rightarrow> node_db \<times> (exchange_error + bytes \<times> bytes)" where
  "finalize_exchange env rpc request signing proof exchange db =
     (case final_exchange_transaction env rpc request signing proof db of
        Inl e \<Rightarrow> (db, Inl e)
      | Inr final_tx \<Rightarrow>
          (let final_bytes = ee_encode_tx env final_tx;
               (droplets, moved) = update_locked_transaction (ve_member exchange) (ex_tx request) final_bytes
                                     (nd_droplets db);
               db' = db\<lparr>nd_droplets := droplets\<rparr>
           in if \<not> moved then (db', Inl (ExchangeInvalid ''Droplets exchange lock disappeared before broadcast''))
              else
                (db', bind_res (map_err (\<lambda>_. ExchangeRpc) (rc_send rpc final_bytes)) (\<lambda>txid.
                   if txid \<noteq> ee_txid env final_tx then Inl (ExchangeInvalid ''broadcast transaction id mismatch'')
                   else Inr (txid, final_bytes)))))"

definition observe_exchange_broadcast ::
  "elements_env \<Rightarrow> elements_rpc \<Rightarrow> exchange_rewards \<Rightarrow> bytes \<Rightarrow> node_db \<Rightarrow> exchange_error + node_db" where
  "observe_exchange_broadcast env rpc request expected_leader db =
     bind_res (validate_exchange env rpc db (ex_tx request) (ex_signing_hash request) expected_leader) (\<lambda>exchange.
     bind_res (ok_or (ExchangeInvalid ''final transaction is missing'') (ex_final_tx request)) (\<lambda>final_bytes.
     bind_res (ok_or ExchangeTransaction (ee_decode_pset env (ex_tx request))) (\<lambda>p.
     bind_res (map_err ExchangePset (ee_extract_tx env p)) (\<lambda>unsigned_tx.
     bind_res (ok_or ExchangeTransaction (ee_decode_tx env final_bytes)) (\<lambda>final_tx.
     if ee_txid env final_tx \<noteq> ee_txid env unsigned_tx
     then Inl (ExchangeInvalid ''final transaction does not match the exchange request'')
     else
       bind_res (map_err (\<lambda>_. ExchangeRpc) (rc_mempool rpc)) (\<lambda>mempool.
       bind_res (if ee_txid env final_tx \<in> set mempool then Inr ()
                 else bind_res (map_err (\<lambda>_. ExchangeRpc) (rc_send rpc final_bytes)) (\<lambda>txid.
                   require (txid = ee_txid env final_tx) (ExchangeInvalid ''completion transaction id mismatch'')))
         (\<lambda>_.
           (let (droplets, moved) = update_locked_transaction (ve_member exchange) (ex_tx request) final_bytes
                                      (nd_droplets db)
            in if \<not> moved then Inl (ExchangeInvalid ''matching Droplets exchange is not locked locally'')
               else Inr (db\<lparr>nd_droplets := droplets\<rparr>)))))))))"

end
