(* ===== verification/Chain_Index.thy ===== *)
theory Chain_Index
  imports Elements_Rpc Script_Markers Chain_Store
begin

text \<open>
  What the indexer reads in a block (\<open>high_storm/indexer/mod.rs\<close>): the Treasury's transactions, the
  outputs an issuance creates, the outpoints that are spent, the renewal of the Storm Eye and the
  marker with the initial members.
\<close>

datatype indexer_error =
  IndexerDatabase db_error
| IndexerDroplets droplet_error
| IndexerRpc
| IndexerMissingAsset string
| IndexerInvalid string
| IndexerUnderflow
| Reorganization u64
| SafetyHalt string

definition ISSUED_UTXO_RULE_SET :: string where "ISSUED_UTXO_RULE_SET = ''issued-utxo-burning-v1''"
definition DROPLETS_RULE_SET :: string where "DROPLETS_RULE_SET = ''droplets-v1''"

definition index_previous_output :: "elements_rpc \<Rightarrow> outpoint \<Rightarrow> indexer_error + tx_out" where
  "index_previous_output rpc = (\<lambda>(txid, vout).
     bind_res (map_err (\<lambda>_. IndexerRpc) (rc_transaction rpc txid)) (\<lambda>t.
       ok_or (IndexerInvalid ''previous transaction output is missing'')
         (if unat vout < length (tx_output t) then Some (tx_output t ! unat vout) else None)))"

subsection \<open>Treasury transactions\<close>

definition treasury_output_amount :: "tx_out \<Rightarrow> bytes \<Rightarrow> bytes \<Rightarrow> u64 option" where
  "treasury_output_amount out treasury_script policy_asset =
     (if to_script out \<noteq> treasury_script then None
      else (case (explicit_value (to_asset out), explicit_value (to_value out)) of
              (Some asset, Some v) \<Rightarrow> if asset = policy_asset then Some v else None
            | _ \<Rightarrow> None))"

fun treasury_outputs_from ::
  "bytes \<Rightarrow> bytes \<Rightarrow> nat \<Rightarrow> tx_out list \<Rightarrow> indexer_error + (u32 \<times> u64) list" where
  "treasury_outputs_from script asset index [] = Inr []"
| "treasury_outputs_from script asset index (out # outs) =
     (case treasury_output_amount out script asset of
        None \<Rightarrow> treasury_outputs_from script asset (index + 1) outs
      | Some amount \<Rightarrow>
          if 2 ^ 32 \<le> index then Inl (IndexerInvalid ''Treasury output index overflow'')
          else bind_res (treasury_outputs_from script asset (index + 1) outs) (\<lambda>rest.
                 Inr ((of_nat index, amount) # rest)))"

definition output_marker :: "elements_env \<Rightarrow> tx_out \<Rightarrow> bytes option" where
  "output_marker env out =
     (case member_from_script env (to_script out) of
        Some member \<Rightarrow> Some member
      | None \<Rightarrow> migrated_members_proposer_from_script env (to_script out))"

definition exchange_member_of :: "elements_env \<Rightarrow> transaction \<Rightarrow> bytes option" where
  "exchange_member_of env t =
     (case remdups_adj (sort (List.map_filter (output_marker env) (tx_output t))) of
        [member] \<Rightarrow> Some member
      | _ \<Rightarrow> None)"

definition deposit_member_of :: "elements_env \<Rightarrow> transaction \<Rightarrow> (u32 \<times> u64) list \<Rightarrow> bytes option" where
  "deposit_member_of env t outputs =
     find_map (\<lambda>(index, _).
       if unat index + 1 < length (tx_output t)
       then member_from_script env (to_script (tx_output t ! (unat index + 1))) else None) outputs"

definition treasury_transaction_of ::
  "elements_env \<Rightarrow> bytes \<Rightarrow> bytes \<Rightarrow> transaction \<Rightarrow> indexer_error + treasury_transaction" where
  "treasury_transaction_of env treasury_script policy_asset t =
     bind_res (treasury_outputs_from treasury_script policy_asset 0 (tx_output t)) (\<lambda>outputs.
       Inr \<lparr>tt_txid = ee_txid env t, tt_inputs = map ti_previous (tx_input t), tt_outputs = outputs,
            tt_deposit_member = deposit_member_of env t outputs, tt_exchange_member = exchange_member_of env t\<rparr>)"

definition treasury_transactions ::
  "elements_env \<Rightarrow> transaction list \<Rightarrow> bytes \<Rightarrow> bytes \<Rightarrow> indexer_error + treasury_transaction list" where
  "treasury_transactions env ts treasury_script policy_asset =
     map_res (treasury_transaction_of env treasury_script policy_asset) ts"

subsection \<open>Issued outputs\<close>

definition preserves_token ::
  "elements_env \<Rightarrow> elements_rpc \<Rightarrow> transaction \<Rightarrow> nat \<Rightarrow> network_asset \<Rightarrow> indexer_error + bool" where
  "preserves_token env rpc t index asset =
     bind_res (index_previous_output rpc (ti_previous (tx_input t ! index))) (\<lambda>token_input.
       case ee_unblind env token_input of
         None \<Rightarrow> Inr False
       | Some in_secrets \<Rightarrow>
           bind_res (ok_or (IndexerInvalid ''token id is missing'') (na_reissuance_token_id asset)) (\<lambda>token_id.
             if os_asset in_secrets \<noteq> token_id \<or> to_script token_input \<noteq> na_contract_script asset then Inr False
             else if length (tx_output t) \<le> index then Inr False
             else
               (case ee_unblind env (tx_output t ! index) of
                  None \<Rightarrow> Inr False
                | Some out_secrets \<Rightarrow>
                    Inr (os_asset out_secrets = os_asset in_secrets \<and> os_value out_secrets = os_value in_secrets \<and>
                         to_script (tx_output t ! index) = to_script token_input))))"

text \<open>The tokens of the inputs behind the first, up to the first input without an issuance.\<close>

fun reissued_assets ::
  "network_asset list \<Rightarrow> network_asset list \<Rightarrow> tx_in list \<Rightarrow> network_asset list option" where
  "reissued_assets issued_assets tokens [] = Some tokens"
| "reissued_assets issued_assets tokens (input # inputs) =
     (let issuance = ti_issuance input in
      if issuance_is_null issuance then Some tokens
      else if null_nonce (ai_blinding_nonce issuance) then None
      else
        (case find (\<lambda>asset. na_entropy asset = Some (ai_entropy issuance)) issued_assets of
           None \<Rightarrow> None
         | Some asset \<Rightarrow>
             if list_ex (\<lambda>token. na_kind token = na_kind asset) tokens then None
             else if \<not> is_null_field (ai_inflation_keys issuance) then None
             else reissued_assets issued_assets (tokens @ [asset]) inputs))"

fun tokens_preserved ::
  "elements_env \<Rightarrow> elements_rpc \<Rightarrow> transaction \<Rightarrow> nat \<Rightarrow> network_asset list \<Rightarrow> indexer_error + bool" where
  "tokens_preserved env rpc t index [] = Inr True"
| "tokens_preserved env rpc t index (asset # assets) =
     bind_res (preserves_token env rpc t index asset) (\<lambda>ok.
       if ok then tokens_preserved env rpc t (index + 1) assets else Inr False)"

definition issuance_tokens ::
  "elements_env \<Rightarrow> elements_rpc \<Rightarrow> transaction \<Rightarrow> network_asset \<Rightarrow> network_asset list \<Rightarrow>
   indexer_error + network_asset list option" where
  "issuance_tokens env rpc t storm_eye issued_assets =
     (if length (tx_input t) < 2 \<or> length (tx_output t) < 2 then Inr None
      else if list_ex ti_is_pegin (tx_input t) then Inr None
      else
        (case reissued_assets issued_assets [] (drop 1 (tx_input t)) of
           None \<Rightarrow> Inr None
         | Some [] \<Rightarrow> Inr None
         | Some tokens \<Rightarrow>
             bind_res (index_previous_output rpc (ti_previous (tx_input t ! 0))) (\<lambda>eye.
               if to_asset eye \<noteq> ExplicitField (na_asset_id storm_eye) \<or>
                  to_script eye \<noteq> na_contract_script storm_eye \<or> tx_output t ! 0 \<noteq> eye then Inr None
               else bind_res (tokens_preserved env rpc t 1 tokens) (\<lambda>ok.
                 Inr (if ok then Some tokens else None)))))"

fun single_descriptors ::
  "elements_env \<Rightarrow> bytes \<Rightarrow> issued_descriptor list option \<Rightarrow> tx_out list \<Rightarrow>
   indexer_error + issued_descriptor list option" where
  "single_descriptors env policy_asset found [] = Inr found"
| "single_descriptors env policy_asset found (out # outs) =
     bind_res (map_err IndexerInvalid (descriptors_from_script env (to_script out))) (\<lambda>read.
       case read of
         None \<Rightarrow> single_descriptors env policy_asset found outs
       | Some ds \<Rightarrow>
           if found \<noteq> None then Inl (IndexerInvalid ''issuance has multiple descriptor outputs'')
           else if to_asset out \<noteq> ExplicitField policy_asset \<or> to_value out \<noteq> ExplicitField 0
           then Inl (IndexerInvalid ''issued UTXO descriptor output must have zero policy-asset value'')
           else single_descriptors env policy_asset (Some ds) outs)"

definition descriptor_kind :: "issued_descriptor \<Rightarrow> string" where
  "descriptor_kind d = (if is_verifier d then ORACLE_VERIFIER_KIND else TICK_ASSET_KIND)"

fun position :: "('a \<Rightarrow> bool) \<Rightarrow> 'a list \<Rightarrow> nat option" where
  "position P [] = None"
| "position P (x # xs) = (if P x then Some 0 else map_option Suc (position P xs))"

definition token_of :: "network_asset list \<Rightarrow> issued_descriptor \<Rightarrow> nat option" where
  "token_of tokens d = position (\<lambda>asset. na_kind asset = descriptor_kind d) tokens"

definition outputs_described :: "transaction \<Rightarrow> network_asset list \<Rightarrow> issued_descriptor list \<Rightarrow> bool" where
  "outputs_described t tokens ds \<longleftrightarrow>
     (\<forall>p < length tokens.
        length (filter (\<lambda>d. token_of tokens d = Some p) ds) =
        length (filter (\<lambda>out. to_asset out = ExplicitField (na_asset_id (tokens ! p))) (tx_output t)))"

record issued_progress =
  ig_described :: "u32 set"
  ig_amounts :: "u64 list"
  ig_issued :: "monitored_utxo list"

definition index_descriptor ::
  "elements_env \<Rightarrow> transaction \<Rightarrow> u64 \<Rightarrow> network_asset \<Rightarrow> network_asset list \<Rightarrow> simplicity_network \<Rightarrow>
   issued_descriptor \<Rightarrow> issued_progress \<Rightarrow> indexer_error + issued_progress" where
  "index_descriptor env t height storm_eye tokens network d g =
     (if id_output_index d \<in> ig_described g
      then Inl (IndexerInvalid ''issued output has duplicate descriptors'')
      else
        bind_res (ok_or (IndexerInvalid ''issuance describes an asset it does not reissue'') (token_of tokens d)) (\<lambda>token.
        bind_res (ok_or (IndexerInvalid ''indexed issued output is missing'')
            (if unat (id_output_index d) < length (tx_output t)
             then Some (tx_output t ! unat (id_output_index d)) else None)) (\<lambda>out.
        bind_res (ok_or (IndexerInvalid ''indexed issued output is confidential'')
            (explicit_value (to_value out))) (\<lambda>amount.
        bind_res (ok_or (IndexerInvalid ''indexed issued amount overflow'')
            (checked_add (ig_amounts g ! token) amount)) (\<lambda>issued_amount.
        if to_asset out \<noteq> ExplicitField (na_asset_id (tokens ! token)) \<or> (is_verifier d \<and> amount \<noteq> 1) \<or>
           \<not> matches_script env (na_asset_id storm_eye) network (to_script out) d
        then Inl (IndexerInvalid ''indexed output does not match its descriptor'')
        else
          bind_res (ok_or (IndexerInvalid ''indexed burn reserve is missing'')
              (if unat (id_reserve_output_index d) < length (tx_output t)
               then Some (tx_output t ! unat (id_reserve_output_index d)) else None)) (\<lambda>reserve.
          if to_asset reserve \<noteq> ExplicitField (ee_policy_asset env network) \<or>
             (case explicit_value (to_value reserve) of None \<Rightarrow> True | Some v \<Rightarrow> v = 0) \<or>
             to_script reserve \<noteq> ee_account_script env (na_asset_id storm_eye) (id_owner d) network
          then Inl (IndexerInvalid ''indexed burn reserve does not match its descriptor'')
          else
            Inr \<lparr>ig_described = insert (id_output_index d) (ig_described g),
                 ig_amounts = (ig_amounts g)[token := issued_amount],
                 ig_issued = ig_issued g @
                   [\<lparr>mu_txid = ee_txid env t, mu_output_index = id_output_index d,
                     mu_asset_kind = na_kind (tokens ! token), mu_amount = amount, mu_script_pubkey = to_script out,
                     mu_auth_method = (case auth_method_name d of Some n \<Rightarrow> n | None \<Rightarrow> ''''),
                     mu_auth_data = id_auth_data d, mu_account_owner_pubkey = id_owner d,
                     mu_internal_key = id_signer d, mu_burning_fee_txid = ee_txid env t,
                     mu_burning_fee_output_index = id_reserve_output_index d, mu_block_height = height,
                     mu_status = UtxoActive, mu_status_block_height = height, mu_burn_txid = None\<rparr>]\<rparr>))))))"

fun reissuances_match :: "transaction \<Rightarrow> nat \<Rightarrow> u64 list \<Rightarrow> bool" where
  "reissuances_match t index [] = True"
| "reissuances_match t index (amount # amounts) =
     (ai_amount (ti_issuance (tx_input t ! index)) = ExplicitField amount \<and> reissuances_match t (index + 1) amounts)"

definition indexed_issued_outputs ::
  "elements_env \<Rightarrow> transaction \<Rightarrow> u64 \<Rightarrow> network_asset \<Rightarrow> network_asset list \<Rightarrow> simplicity_network \<Rightarrow>
   indexer_error + monitored_utxo list" where
  "indexed_issued_outputs env t height storm_eye tokens network =
     bind_res (single_descriptors env (ee_policy_asset env network) None (tx_output t)) (\<lambda>found.
     bind_res (ok_or (IndexerInvalid ''issuance descriptor output is missing'') found) (\<lambda>ds.
     if \<not> outputs_described t tokens ds then Inl (IndexerInvalid ''issuance descriptors do not match outputs'')
     else
       bind_res (fold_res (index_descriptor env t height storm_eye tokens network) ds
                   \<lparr>ig_described = {}, ig_amounts = replicate (length tokens) 0, ig_issued = []\<rparr>) (\<lambda>g.
         if \<not> reissuances_match t 1 (ig_amounts g)
         then Inl (IndexerInvalid ''reissuance amount does not match described outputs'')
         else Inr (ig_issued g))))"

fun issued_utxos ::
  "elements_env \<Rightarrow> elements_rpc \<Rightarrow> u64 \<Rightarrow> network_asset \<Rightarrow> network_asset list \<Rightarrow> simplicity_network \<Rightarrow>
   transaction list \<Rightarrow> indexer_error + monitored_utxo list" where
  "issued_utxos env rpc height storm_eye issued_assets network [] = Inr []"
| "issued_utxos env rpc height storm_eye issued_assets network (t # ts) =
     bind_res (issuance_tokens env rpc t storm_eye issued_assets) (\<lambda>found.
     bind_res (case found of
                 None \<Rightarrow> Inr []
               | Some tokens \<Rightarrow> indexed_issued_outputs env t height storm_eye tokens network) (\<lambda>issued.
     bind_res (issued_utxos env rpc height storm_eye issued_assets network ts) (\<lambda>rest.
       Inr (issued @ rest))))"

definition spent_monitored_outpoints :: "elements_env \<Rightarrow> transaction list \<Rightarrow> (bytes \<times> u32 \<times> bytes) list" where
  "spent_monitored_outpoints env ts =
     concat (map (\<lambda>t. map (\<lambda>input. (fst (ti_previous input), snd (ti_previous input), ee_txid env t)) (tx_input t)) ts)"

subsection \<open>The Storm Eye\<close>

fun storm_eye_supply :: "bytes \<Rightarrow> bytes \<Rightarrow> u64 \<Rightarrow> bool \<Rightarrow> tx_out list \<Rightarrow> indexer_error + (u64 \<times> bool) option" where
  "storm_eye_supply asset script amount found [] = Inr (Some (amount, found))"
| "storm_eye_supply asset script amount found (out # outs) =
     (if to_asset out \<noteq> ExplicitField asset then storm_eye_supply asset script amount found outs
      else if to_script out \<noteq> script then Inr None
      else
        (case explicit_value (to_value out) of
           None \<Rightarrow> Inr None
         | Some v \<Rightarrow>
             bind_res (ok_or (IndexerInvalid ''Storm Eye amount overflow'') (checked_add amount v)) (\<lambda>amount'.
               storm_eye_supply asset script amount' True outs)))"

definition matches_storm_eye_supply :: "tx_out list \<Rightarrow> network_asset \<Rightarrow> indexer_error + bool" where
  "matches_storm_eye_supply outs storm_eye =
     bind_res (storm_eye_supply (na_asset_id storm_eye) (na_contract_script storm_eye) 0 False outs) (\<lambda>r.
       Inr (case r of None \<Rightarrow> False | Some (amount, found) \<Rightarrow> found \<and> amount = na_supply storm_eye))"

fun find_renewal ::
  "elements_env \<Rightarrow> elements_rpc \<Rightarrow> network_asset \<Rightarrow> network_asset \<Rightarrow> bytes option \<Rightarrow> transaction list \<Rightarrow>
   indexer_error + bytes option" where
  "find_renewal env rpc current renewed matched [] = Inr matched"
| "find_renewal env rpc current renewed matched (t # ts) =
     bind_res (matches_storm_eye_supply (tx_output t) renewed) (\<lambda>creates.
     if \<not> creates then find_renewal env rpc current renewed matched ts
     else
       bind_res (map_res (\<lambda>input. index_previous_output rpc (ti_previous input))
                   (filter (\<lambda>input. \<not> ti_is_pegin input) (tx_input t))) (\<lambda>spent.
       bind_res (matches_storm_eye_supply spent current) (\<lambda>spends.
         if \<not> spends then find_renewal env rpc current renewed matched ts
         else if matched \<noteq> None
         then Inl (IndexerInvalid ''block contains multiple Storm Eye renewal transactions'')
         else find_renewal env rpc current renewed (Some (ee_txid env t)) ts)))"

definition indexed_storm_eye_renewal ::
  "elements_env \<Rightarrow> elements_rpc \<Rightarrow> transaction list \<Rightarrow> network_asset \<Rightarrow> simplicity_network \<Rightarrow>
   indexer_error + (bytes \<times> network_asset) option" where
  "indexed_storm_eye_renewal env rpc ts current network =
     bind_res (map_err (\<lambda>_. IndexerInvalid ''Storm Eye renewal'') (renewed_storm_eye env current network)) (\<lambda>renewed.
     bind_res (find_renewal env rpc current renewed None ts) (\<lambda>matched.
       Inr (map_option (\<lambda>txid. (txid, renewed)) matched)))"

text \<open>\<open>network_asset\<close> holds the issuance in display order, the reverse of the transaction's own.\<close>

fun initial_markers :: "elements_env \<Rightarrow> tx_out list \<Rightarrow> indexer_error + bytes list list" where
  "initial_markers env [] = Inr []"
| "initial_markers env (out # outs) =
     bind_res (map_err (\<lambda>_. IndexerInvalid ''initial members marker'')
                 (initial_members_from_script env (to_script out))) (\<lambda>found.
     bind_res (initial_markers env outs) (\<lambda>rest.
       Inr (case found of None \<Rightarrow> rest | Some members \<Rightarrow> members # rest)))"

definition verify_initial_members ::
  "elements_env \<Rightarrow> transaction list \<Rightarrow> network_asset \<Rightarrow> bytes list \<Rightarrow> indexer_error + unit" where
  "verify_initial_members env ts storm_eye expected_members =
     (case find (\<lambda>t. rev (ee_txid env t) = na_issuance_txid storm_eye) ts of
        None \<Rightarrow> Inr ()
      | Some t \<Rightarrow>
          bind_res (initial_markers env (tx_output t)) (\<lambda>markers.
            case markers of
              [members] \<Rightarrow>
                bind_res (map_err (\<lambda>_. IndexerInvalid ''initial members'')
                   (storm_tree_new (ee_sha256 env) (ee_valid_x_only env) (ee_aggregate_key env) members)) (\<lambda>tree.
                bind_res (map_err (\<lambda>_. IndexerInvalid ''Storm Eye contract data'')
                   (storm_eye_contract_data env storm_eye)) (\<lambda>data.
                  if sd_storm_tree_root data \<noteq> storm_root tree then Inr ()
                  else require (members = remdups_adj (sort expected_members))
                    (IndexerInvalid ''Storm Eye initial members do not match the configured network'')))
            | _ \<Rightarrow> Inl (IndexerInvalid ''Storm Eye issuance must contain one initial-members marker'')))"

subsection \<open>Locked exchanges\<close>

datatype exchange_recovery = KeepLock | Unlock | Rebroadcast bytes bytes

datatype exchange_chain_state = KnownExchange | ConflictedExchange | PendingExchange

definition locked_exchange :: "elements_env \<Rightarrow> bytes \<Rightarrow> (transaction \<times> bool) option" where
  "locked_exchange env bs =
     (case ee_decode_tx env bs of
        Some t \<Rightarrow> Some (t, True)
      | None \<Rightarrow>
          (case ee_decode_pset env bs of
             None \<Rightarrow> None
           | Some p \<Rightarrow> (case ee_extract_tx env p of Inl _ \<Rightarrow> None | Inr t \<Rightarrow> Some (t, False))))"

definition exchange_chain_state ::
  "elements_env \<Rightarrow> elements_rpc \<Rightarrow> transaction \<Rightarrow> bytes list \<Rightarrow> indexer_error + exchange_chain_state" where
  "exchange_chain_state env rpc t mempool =
     bind_res (map_res (\<lambda>input. map_err (\<lambda>_. IndexerRpc) (rc_txout rpc (ti_previous input) False)) (tx_input t)) (\<lambda>outs.
     let conflicted = list_ex (\<lambda>out. out = None) outs;
         rest = (if conflicted then ConflictedExchange else PendingExchange) in
     if ee_txid env t \<in> set mempool then Inr KnownExchange
     else
       (case rc_confirmations rpc (ee_txid env t) of
          Inr (confirmations, _) \<Rightarrow> Inr (if 0 < confirmations then KnownExchange else rest)
        | Inl code \<Rightarrow> if code = -5 then Inr rest else Inl IndexerRpc))"

definition exchange_recovery ::
  "elements_env \<Rightarrow> droplet_balance \<Rightarrow> u64 \<Rightarrow> bool \<Rightarrow> (transaction \<times> bool) option \<Rightarrow> exchange_chain_state \<Rightarrow>
   exchange_recovery" where
  "exchange_recovery env held height is_leader exchange chain =
     (case db_last_tx held of
        None \<Rightarrow> Unlock
      | Some last_tx \<Rightarrow>
          (case exchange of
             None \<Rightarrow> if db_block_height held < height then Unlock else KeepLock
           | Some (t, is_final) \<Rightarrow>
               (case chain of
                  KnownExchange \<Rightarrow> KeepLock
                | ConflictedExchange \<Rightarrow> Unlock
                | PendingExchange \<Rightarrow>
                    if is_final \<and> is_leader then Rebroadcast last_tx (ee_txid env t) else KeepLock)))"

text \<open>One locked balance: the new ledger and the transactions that are broadcast again.\<close>

definition recover_exchange ::
  "elements_env \<Rightarrow> elements_rpc \<Rightarrow> bytes list \<Rightarrow> u64 \<Rightarrow> bool \<Rightarrow> droplet_balance \<Rightarrow> node_db \<times> bytes list \<Rightarrow>
   indexer_error + node_db \<times> bytes list" where
  "recover_exchange env rpc mempool height is_leader held = (\<lambda>(db, sent).
     let exchange = Option.bind (db_last_tx held) (locked_exchange env) in
     case (case exchange of
             None \<Rightarrow> Inr PendingExchange
           | Some (t, _) \<Rightarrow> exchange_chain_state env rpc t mempool) of
       Inl _ \<Rightarrow> Inr (db, sent)
     | Inr chain \<Rightarrow>
         (case exchange_recovery env held height is_leader exchange chain of
            KeepLock \<Rightarrow> Inr (db, sent)
          | Unlock \<Rightarrow>
              bind_res (map_err IndexerDatabase (unlock_exchange (db_xonly_pubkey held) height (nd_droplets db)))
                (\<lambda>droplets. Inr (db\<lparr>nd_droplets := droplets\<rparr>, sent))
          | Rebroadcast bs txid \<Rightarrow> Inr (db, sent @ [bs])))"

definition recover_droplet_exchanges ::
  "elements_env \<Rightarrow> elements_rpc \<Rightarrow> u64 \<Rightarrow> bool \<Rightarrow> node_db \<Rightarrow> indexer_error + node_db \<times> bytes list" where
  "recover_droplet_exchanges env rpc height is_leader db =
     bind_res (map_err (\<lambda>_. IndexerRpc) (rc_mempool rpc)) (\<lambda>mempool.
     bind_res (map_err IndexerDatabase (locked (nd_droplets db))) (\<lambda>balances.
       fold_res (recover_exchange env rpc mempool height is_leader) balances (db, [])))"

end
