(* ===== verification/Exchange_Claims.thy ===== *)
theory Exchange_Claims
  imports Droplet_Exchange Chain_Index Droplet_Claims
begin

text \<open>
  The exchange as the signers check it and as the indexer reads it from the chain: a layout that
  \<open>validate_layout\<close> accepts is charged in the ledger to the member and with the amount that were
  locked, provided no output carries the marker of a member migration. The check does not look for
  that marker: \<open>migration_marker_accepted\<close>.
\<close>

definition input_value :: "pset_input \<Rightarrow> nat" where
  "input_value i =
     (case pi_witness_utxo i of
        Some u \<Rightarrow> (case explicit_value (to_value u) of Some v \<Rightarrow> unat v | None \<Rightarrow> 0)
      | None \<Rightarrow> 0)"

definition out_amount :: "pset_output \<Rightarrow> nat" where
  "out_amount out = (case po_amount out of Some v \<Rightarrow> unat v | None \<Rightarrow> 0)"

definition is_marker :: "elements_env \<Rightarrow> pset_output \<Rightarrow> bool" where
  "is_marker env out = (member_from_script env (po_script out) \<noteq> None)"

definition amounts_where :: "(pset_output \<Rightarrow> bool) \<Rightarrow> pset_output list \<Rightarrow> nat" where
  "amounts_where P outs = sum_list (map out_amount (filter P outs))"

lemma amounts_where_simps [simp]:
  "amounts_where P [] = 0"
  "amounts_where P (out # outs) = (if P out then out_amount out else 0) + amounts_where P outs"
  by (simp_all add: amounts_where_def)

lemma sum_treasury_inputs_Inr:
  assumes "sum_treasury_inputs p script asset indexes acc = Inr s"
  shows "unat s = unat acc + sum_list (map (\<lambda>i. input_value (ps_inputs p ! i)) indexes) \<and>
    (\<forall>i\<in>set indexes. i < length (ps_inputs p) \<and>
       (\<exists>u v. pi_witness_utxo (ps_inputs p ! i) = Some u \<and> to_script u = script \<and>
              to_asset u = ExplicitField asset \<and> to_value u = ExplicitField v))"
  using assms
proof (induction indexes arbitrary: acc)
  case (Cons i indexes)
  obtain u s' where u: "witness_utxo p i = Inr u" "to_script u = script"
    and secrets: "txout_secrets u = Inr s'" "os_asset s' = asset"
    and rest: "\<exists>acc'. checked_add acc (os_value s') = Some acc' \<and>
       sum_treasury_inputs p script asset indexes acc' = Inr s"
    using Cons.prems by (auto simp: bind_res_eq_Inr ok_or_eq_Inr split: if_splits)
  obtain acc' where acc': "checked_add acc (os_value s') = Some acc'"
    "sum_treasury_inputs p script asset indexes acc' = Inr s"
    using rest by blast
  have w: "i < length (ps_inputs p)" "pi_witness_utxo (ps_inputs p ! i) = Some u"
    using u(1) by (simp_all add: witness_utxo_eq_Inr)
  have v: "to_asset u = ExplicitField asset" "to_value u = ExplicitField (os_value s')"
    using secrets by (auto simp: txout_secrets_def bind_res_eq_Inr ok_or_eq_Inr)
  have "unat acc' = unat acc + input_value (ps_inputs p ! i)"
    using acc'(1) w(2) v(2) by (simp add: checked_add_Some_iff input_value_def)
  then show ?case using Cons.IH [OF acc'(2)] w v u(2) by auto
qed simp

lemma count_output_Inr:
  assumes "count_output env script asset member out t = Inr t'"
  shows "is_fully_explicit_output out \<and> po_asset out = Some asset \<and>
    (is_marker env out \<longrightarrow> member_from_script env (po_script out) = Some member) \<and>
    et_markers t' = et_markers t + (if is_marker env out then 1 else 0) \<and>
    unat (et_outputs t') = unat (et_outputs t) + out_amount out \<and>
    unat (et_returned t') = unat (et_returned t) +
      (if \<not> is_marker env out \<and> po_script out = script then out_amount out else 0) \<and>
    (is_marker env out \<longrightarrow> out_amount out = 0)"
proof -
  have explicit: "is_fully_explicit_output out" "po_asset out = Some asset"
    using assms by (auto simp: count_output_def split: if_splits)
  obtain amount outputs where amount: "po_amount out = Some amount"
    and outputs: "checked_add (et_outputs t) amount = Some outputs"
    using assms explicit by (auto simp: count_output_def bind_res_eq_Inr ok_or_eq_Inr Let_def split: if_splits)
  have o: "unat outputs = unat (et_outputs t) + out_amount out"
    using outputs amount by (simp add: checked_add_Some_iff out_amount_def)
  show ?thesis
  proof (cases "member_from_script env (po_script out)")
    case None
    then have "\<not> is_marker env out" by (simp add: is_marker_def)
    then show ?thesis
      using assms explicit amount outputs None o
      by (auto simp: count_output_def bind_res_eq_Inr ok_or_eq_Inr Let_def checked_add_Some_iff out_amount_def
          split: if_splits)
  next
    case (Some m)
    then have "is_marker env out" by (simp add: is_marker_def)
    then show ?thesis
      using assms explicit amount outputs Some o
      by (auto simp: count_output_def bind_res_eq_Inr ok_or_eq_Inr Let_def out_amount_def split: if_splits)
  qed
qed

lemma count_outputs_Inr:
  assumes "fold_res (count_output env script asset member) outs t = Inr t'"
  shows "(\<forall>out\<in>set outs. is_fully_explicit_output out \<and> po_asset out = Some asset \<and>
      (is_marker env out \<longrightarrow> member_from_script env (po_script out) = Some member \<and> out_amount out = 0)) \<and>
    et_markers t' = et_markers t + length (filter (is_marker env) outs) \<and>
    unat (et_outputs t') = unat (et_outputs t) + amounts_where (\<lambda>_. True) outs \<and>
    unat (et_returned t') = unat (et_returned t) +
      amounts_where (\<lambda>out. \<not> is_marker env out \<and> po_script out = script) outs"
  using assms
proof (induction outs arbitrary: t)
  case (Cons out outs)
  obtain t1 where t1: "count_output env script asset member out t = Inr t1"
    "fold_res (count_output env script asset member) outs t1 = Inr t'"
    using Cons.prems by (auto simp: bind_res_eq_Inr)
  show ?case using count_output_Inr [OF t1(1)] Cons.IH [OF t1(2)] by auto
qed simp

text \<open>What the indexer makes of the same outputs.\<close>

lemma treasury_output_explicit:
  assumes "to_txout_law env" "is_fully_explicit_output out" "po_asset out = Some asset"
  shows "treasury_output_amount (ee_to_txout env out) script asset =
    (if po_script out = script then po_amount out else None)"
  using to_txout_explicit [OF assms(1,2)] assms(2,3)
  by (auto simp: treasury_output_amount_def is_fully_explicit_output_def)

lemma treasury_outputs_sum:
  assumes "to_txout_law env"
    and "\<forall>out\<in>set outs. is_fully_explicit_output out \<and> po_asset out = Some asset"
    and "k + length outs \<le> 2 ^ 32"
  shows "\<exists>xs. treasury_outputs_from script asset k (map (ee_to_txout env) outs) = Inr xs \<and>
    sum_list (map (\<lambda>x. unat (snd x)) xs) = amounts_where (\<lambda>out. po_script out = script) outs"
  using assms(2,3)
proof (induction outs arbitrary: k)
  case (Cons out outs)
  obtain xs where xs: "treasury_outputs_from script asset (k + 1) (map (ee_to_txout env) outs) = Inr xs"
    "sum_list (map (\<lambda>x. unat (snd x)) xs) = amounts_where (\<lambda>out. po_script out = script) outs"
    using Cons.IH [of "k + 1"] Cons.prems by auto
  have e: "is_fully_explicit_output out" "po_asset out = Some asset" using Cons.prems(1) by auto
  have "k < 2 ^ 32" using Cons.prems(2) by simp
  then show ?case
    using xs treasury_output_explicit [OF assms(1) e, of script] e(1)
    by (cases "po_amount out") (auto simp: out_amount_def is_fully_explicit_output_def)
qed simp

lemma sum_outputs_exact:
  assumes "sum_list (map (\<lambda>x. unat (snd x)) xs) < 2 ^ 64"
  shows "\<exists>s. sum_outputs xs = Some s \<and> unat s = sum_list (map (\<lambda>x. unat (snd x)) xs)"
proof -
  have "unat acc + sum_list (map (\<lambda>x. unat (snd x)) xs) < 2 ^ 64 \<Longrightarrow>
     \<exists>s. fold_opt (\<lambda>(_, amount) acc. checked_add acc amount) xs acc = Some s \<and>
         unat s = unat acc + sum_list (map (\<lambda>x. unat (snd x)) xs)" for acc :: u64
  proof (induction xs arbitrary: acc)
    case (Cons x xs)
    obtain i a where x: "x = (i, a)" by (cases x)
    obtain acc' where acc': "checked_add acc a = Some acc'"
      using Cons.prems x by (auto simp: checked_add_def)
    then have "unat acc' = unat acc + unat a" by (simp add: checked_add_Some_iff)
    then show ?case using Cons.IH [of acc'] Cons.prems x acc' by (auto simp: add.assoc)
  qed simp
  from this [of 0] assms show ?thesis by (simp add: sum_outputs_def)
qed

lemma single_marker:
  assumes "\<forall>out\<in>set outs. f out \<noteq> None \<longrightarrow> f out = Some m"
  shows "List.map_filter f outs = replicate (length (filter (\<lambda>out. f out \<noteq> None) outs)) m"
  using assms by (induction outs) (auto simp: List.map_filter_simps)

lemma remdups_adj_replicate_one: "remdups_adj (sort (replicate (Suc n) m)) = [m]"
  by (simp add: remdups_adj_replicate sorted_sort_id del: replicate_Suc)

text \<open>What the ledger makes of the inputs, when it knows the Treasury's outputs as they are on the chain.\<close>

definition input_outpoint :: "pset_input \<Rightarrow> outpoint" where
  "input_outpoint i = (pi_previous_txid i, pi_previous_index i)"

lemma spend_inputs_known:
  assumes "distinct (map input_outpoint inputs)"
    and "\<forall>i\<in>set inputs. \<exists>row. bt_get treasury (input_outpoint i) = Some row \<and> tr_amount row = int (input_value i) \<and>
        input_value i < 2 ^ 63"
    and "unat spent + sum_list (map input_value inputs) < 2 ^ 64" "bt_wf treasury"
  shows "\<exists>spent' treasury'. spend_inputs (map input_outpoint inputs) spent treasury = Inr (spent', treasury') \<and>
    unat spent' = unat spent + sum_list (map input_value inputs)"
  using assms
proof (induction inputs arbitrary: spent treasury)
  case (Cons i inputs)
  obtain row where row: "bt_get treasury (input_outpoint i) = Some row" "tr_amount row = int (input_value i)"
    and small: "input_value i < 2 ^ 63"
    using Cons.prems(2) by auto
  let ?a = "word_of_int (tr_amount row) :: u64"
  have a: "unat ?a = input_value i" using row(2) small by (simp add: unat_of_nat)
  obtain spent1 where spent1: "checked_add spent ?a = Some spent1"
    using Cons.prems(3) a by (auto simp: checked_add_def)
  have u1: "unat spent1 = unat spent + input_value i" using spent1 a by (simp add: checked_add_Some_iff)
  let ?t = "bt_remove (input_outpoint i) treasury"
  have known: "\<forall>j\<in>set inputs. \<exists>row. bt_get ?t (input_outpoint j) = Some row \<and> tr_amount row = int (input_value j) \<and>
        input_value j < 2 ^ 63"
  proof
    fix j assume j: "j \<in> set inputs"
    then have "input_outpoint j \<noteq> input_outpoint i" using Cons.prems(1) by auto (metis imageI)
    then show "\<exists>row. bt_get ?t (input_outpoint j) = Some row \<and> tr_amount row = int (input_value j) \<and>
        input_value j < 2 ^ 63"
      using Cons.prems(2) j by (simp add: bt_get_remove)
  qed
  have wf: "bt_wf ?t" using Cons.prems(4) by (rule bt_remove_wf)
  have "distinct (map input_outpoint inputs)" "unat spent1 + sum_list (map input_value inputs) < 2 ^ 64"
    using Cons.prems(1,3) u1 by auto
  from Cons.IH [OF this(1) known this(2) wf] u1
  obtain spent' treasury' where rest: "spend_inputs (map input_outpoint inputs) spent1 ?t = Inr (spent', treasury')"
    "unat spent' = unat spent + input_value i + sum_list (map input_value inputs)" by auto
  have "decode_u64 (tr_amount row) = Inr ?a" using row(2) by (simp add: decode_u64_def)
  then show ?case using rest row spent1 by (auto simp: bind_res_def)
qed simp

text \<open>
  The conditions under which the check and the index see the same: no output carries the marker of a member
  migration, the scripts of the Treasury and of the Storm Eye are no markers, the Storm Eye is not the policy
  asset, and an output's index fits its type.
\<close>

definition plain_exchange :: "elements_env \<Rightarrow> pset \<Rightarrow> network_asset \<Rightarrow> simplicity_network \<Rightarrow> bool" where
  "plain_exchange env p storm_eye network \<longleftrightarrow>
     (\<forall>out\<in>set (ps_outputs p). migrated_members_proposer_from_script env (po_script out) = None) \<and>
     member_from_script env (ee_treasury_script env (na_asset_id storm_eye) network) = None \<and>
     member_from_script env (na_contract_script storm_eye) = None \<and>
     na_asset_id storm_eye \<noteq> ee_policy_asset env network \<and> length (ps_outputs p) \<le> 2 ^ 32"

lemma exchange_indexed:
  assumes valid: "validate_layout env p hash leader storm_eye network = Inr v"
    and laws: "to_txout_law env" "extract_law env" and extracted: "ee_extract_tx env p = Inr t"
    and plain: "plain_exchange env p storm_eye network"
  shows "\<exists>tt returned. treasury_transaction_of env (ee_treasury_script env (na_asset_id storm_eye) network)
      (ee_policy_asset env network) t = Inr tt \<and>
    tt_exchange_member tt = Some (ve_member v) \<and> ee_x_only env leader = Some (ve_member v) \<and>
    tt_inputs tt = map input_outpoint (ps_inputs p) \<and> sum_outputs (tt_outputs tt) = Some returned \<and>
    sum_list (map input_value (drop 1 (ps_inputs p))) = unat returned + unat (ve_amount v) \<and>
    sum_list (map input_value (drop 1 (ps_inputs p))) < 2 ^ 64 \<and> 0 < ve_amount v \<and> ps_inputs p \<noteq> []"
proof -
  let ?script = "ee_treasury_script env (na_asset_id storm_eye) network" and ?asset = "ee_policy_asset env network"
  let ?rest = "drop 1 (ps_outputs p)"
  obtain eye totals where
    sizes: "2 \<le> length (ps_inputs p)" "3 \<le> length (ps_outputs p)"
    and eye: "require_explicit_utxo eye (na_asset_id storm_eye) (na_contract_script storm_eye) ''Storm Eye'' = Inr ()"
      "require_preserved_output env p 0 eye ''Storm Eye'' = Inr ()"
    and summed: "sum_treasury_inputs p ?script ?asset [1..<length (ps_inputs p)] 0 = Inr (et_outputs totals)"
    and member: "ee_x_only env leader = Some (ve_member v)"
    and totals: "fold_res (count_output env ?script ?asset (ve_member v)) ?rest exchange_totals_empty = Inr totals"
    and balanced: "et_markers totals = 1"
    and amount: "checked_sub (et_outputs totals) (et_returned totals) = Some (ve_amount v)" "0 < ve_amount v"
  proof -
    from valid have "2 \<le> length (ps_inputs p) \<and> 3 \<le> length (ps_outputs p) \<and> (\<exists>eye totals member amount.
      require_explicit_utxo eye (na_asset_id storm_eye) (na_contract_script storm_eye) ''Storm Eye'' = Inr () \<and>
      require_preserved_output env p 0 eye ''Storm Eye'' = Inr () \<and>
      sum_treasury_inputs p ?script ?asset [1..<length (ps_inputs p)] 0 = Inr (et_outputs totals) \<and>
      ee_x_only env leader = Some member \<and>
      fold_res (count_output env ?script ?asset member) ?rest exchange_totals_empty = Inr totals \<and>
      et_markers totals = 1 \<and> checked_sub (et_outputs totals) (et_returned totals) = Some amount \<and> 0 < amount \<and>
      v = \<lparr>ve_member = member, ve_amount = amount\<rparr>)"
      unfolding validate_layout_def Let_def
      apply (clarsimp simp: bind_res_eq_Inr ok_or_eq_Inr bind_eq_Some_conv not_less simp del: One_nat_def split: if_splits)
      apply ((rule exI)+, (rule conjI, assumption)+)
      apply (simp add: word_greater_zero_iff)
      done
    then show thesis by (elim conjE exE) (rule that, simp_all)
  qed
  define spent where "spent = et_outputs totals"
  note spent = summed [folded spent_def] and amount = amount [folded spent_def]
  obtain first where outputs: "ps_outputs p = first # ?rest"
    using sizes(2) by (cases "ps_outputs p") auto
  have head: "ps_outputs p ! 0 = first" by (subst outputs) simp
  note counted = count_outputs_Inr [OF totals]
  have first_out: "to_asset (ee_to_txout env first) = ExplicitField (na_asset_id storm_eye)"
    "to_script (ee_to_txout env first) = na_contract_script storm_eye"
    using eye head by (auto simp: require_preserved_output_Inr require_explicit_utxo_Inr)
  have first_script: "po_script first = na_contract_script storm_eye"
    using first_out(2) laws(1) by (simp add: to_txout_law_def)
  have tx: "tx_output t = map (ee_to_txout env) (ps_outputs p)"
    "map ti_previous (tx_input t) = map input_outpoint (ps_inputs p)"
    using laws(2) extracted by (simp_all add: extract_law_def input_outpoint_def)
  have skip_first: "treasury_output_amount (ee_to_txout env first) ?script ?asset = None"
    using first_out plain by (auto simp: treasury_output_amount_def plain_exchange_def split: option.splits)
  have small: "1 + length ?rest \<le> 2 ^ 32" using plain sizes(2) by (auto simp: plain_exchange_def)
  obtain xs where xs: "treasury_outputs_from ?script ?asset 1 (map (ee_to_txout env) ?rest) = Inr xs"
    "sum_list (map (\<lambda>x. unat (snd x)) xs) = amounts_where (\<lambda>out. po_script out = ?script) ?rest"
    using treasury_outputs_sum [OF laws(1) _ small, of ?asset ?script] counted by auto
  have "amounts_where (\<lambda>out. po_script out = ?script) ?rest =
      amounts_where (\<lambda>out. \<not> is_marker env out \<and> po_script out = ?script) ?rest"
    using plain unfolding amounts_where_def
    by (intro arg_cong [where f = "\<lambda>ys. sum_list (map out_amount ys)"] filter_cong) (auto simp: is_marker_def plain_exchange_def)
  then have returned: "sum_list (map (\<lambda>x. unat (snd x)) xs) = unat (et_returned totals)"
    using xs(2) counted by (simp add: exchange_totals_empty_def)
  then obtain s where s: "sum_outputs xs = Some s" "unat s = unat (et_returned totals)"
    using sum_outputs_exact [of xs] unsigned_less [of "et_returned totals", where 'a = nat] by auto
  have all_outputs: "treasury_outputs_from ?script ?asset 0 (tx_output t) = Inr xs"
    using xs(1) skip_first by (subst tx(1), subst outputs) simp
  have script: "to_script (ee_to_txout env out) = po_script out" for out
    using laws(1) by (simp add: to_txout_law_def)
  have marker: "output_marker env (ee_to_txout env out) = member_from_script env (po_script out)"
    if "out \<in> set (ps_outputs p)" for out
    using that plain script by (auto simp: output_marker_def plain_exchange_def split: option.splits)
  let ?m = "\<lambda>out. member_from_script env (po_script out)"
  have "List.map_filter (output_marker env) (tx_output t) = List.map_filter ?m (ps_outputs p)"
    unfolding tx(1) using marker by (simp add: List.map_filter_def filter_map comp_def cong: filter_cong map_cong)
  also have "\<dots> = List.map_filter ?m ?rest"
    using plain first_script by (subst outputs) (simp add: List.map_filter_simps plain_exchange_def)
  also have "\<dots> = replicate (length (filter (\<lambda>out. ?m out \<noteq> None) ?rest)) (ve_member v)"
    using counted by (intro single_marker) (auto simp: is_marker_def)
  also have "length (filter (\<lambda>out. ?m out \<noteq> None) ?rest) = 1"
    using counted balanced(1) by (simp add: exchange_totals_empty_def is_marker_def [abs_def])
  finally have "exchange_member_of env t = Some (ve_member v)"
    by (simp add: exchange_member_of_def)
  moreover have in_sum: "sum_list (map input_value (drop 1 (ps_inputs p))) = unat spent"
  proof -
    have "drop 1 (ps_inputs p) = map ((!) (ps_inputs p)) [1..<length (ps_inputs p)]"
      by (rule nth_equalityI) auto
    then show ?thesis using sum_treasury_inputs_Inr [OF spent] by (simp add: comp_def)
  qed
  moreover have "unat spent = unat s + unat (ve_amount v)"
    using amount(1) s(2) by (simp add: checked_sub_Some_iff)
  moreover have "ps_inputs p \<noteq> []" using sizes(1) by auto
  ultimately show ?thesis
    using all_outputs member s(1) amount(2) tx(2) unsigned_less [of spent, where 'a = nat]
    by (auto simp: treasury_transaction_of_def)
qed


subsection \<open>A concrete exchange\<close>

definition eye_asset :: network_asset where
  "eye_asset = \<lparr>na_kind = STORM_EYE_KIND, na_name = ''Storm Eye'', na_asset_id = [7], na_reissuance_token_id = None,
     na_entropy = None, na_issuance_txid = [], na_contract_script = [3],
     na_contract_data = Some (replicate 68 0), na_supply = 10000, na_created_at_block = 1\<rparr>"

definition eye_out :: tx_out where
  "eye_out = \<lparr>to_asset = ExplicitField [7], to_value = ExplicitField 5, to_nonce = NullField, to_script = [3],
     to_witness = []\<rparr>"

definition coin_out :: tx_out where
  "coin_out = \<lparr>to_asset = ExplicitField (replicate 32 8), to_value = ExplicitField 1000, to_nonce = NullField,
     to_script = [1, 7], to_witness = []\<rparr>"

definition exchange_outputs :: "(bytes \<times> u64 \<times> bytes) list" where
  "exchange_outputs =
     [([3], 5, [7]), ([5, 1], 600, replicate 32 8), ([1, 7], 300, replicate 32 8),
      (member_script toy_elements (replicate 32 9), 0, replicate 32 8), ([], 100, replicate 32 8)]"

definition toy_exchange :: "(bytes \<times> u64 \<times> bytes) list \<Rightarrow> pset" where
  "toy_exchange extra = toy_build [(([1], 0), eye_out, None), (([2], 0), coin_out, None)] (exchange_outputs @ extra)"

lemma toy_marker:
  "member_from_script toy_elements (member_script toy_elements (replicate 32 9)) = Some (replicate 32 9)"
  by (rule member_script_read [OF toy_elements_laws(1)]) simp

lemma toy_no_marker:
  "member_from_script toy_elements [] = None" "member_from_script toy_elements [5, 1] = None"
  "member_from_script toy_elements [1, 7] = None" "member_from_script toy_elements [3] = None"
  by (simp_all add: member_from_script_def op_return_data_def toy_elements_def toy_instructions_def)

lemma toy_layout:
  assumes "member_from_script toy_elements script = None" "script \<noteq> [1, 7]"
  shows "validate_layout toy_elements (toy_exchange [(script, 0, replicate 32 8)]) [2, 6] (2 # replicate 32 9) eye_asset
      Liquid = Inr \<lparr>ve_member = replicate 32 9, ve_amount = 700\<rparr>"
proof -
  have sig: "exchange_signing_hash toy_elements (toy_exchange [(script, 0, replicate 32 8)]) eye_asset Liquid = Inr [2, 6]"
    by (simp add: exchange_signing_hash_def signing_hash_def storm_eye_program_def storm_eye_contract_data_def
        eye_asset_def toy_elements_def toy_exchange_def toy_build_def exchange_outputs_def)
  have eye: "ps_inputs (toy_exchange extra) = [toy_input (([1], 0), eye_out, None), toy_input (([2], 0), coin_out, None)]"
    "ps_outputs (toy_exchange extra) = map toy_output (exchange_outputs @ extra)" for extra
    by (simp_all add: toy_exchange_def toy_build_def)
  have parts: "ee_policy_asset toy_elements Liquid = replicate 32 8"
    "ee_treasury_script toy_elements [7] Liquid = [1, 7]"
    "ee_x_only toy_elements (2 # replicate 32 9) = Some (replicate 32 9)"
    "ee_to_txout toy_elements (toy_output ([3], 5, [7])) = eye_out"
    by (simp_all add: toy_elements_def toy_to_txout_def toy_output_def toy_field_def eye_out_def)
  have asset: "na_asset_id eye_asset = [7]" "na_contract_script eye_asset = [3]" by (simp_all add: eye_asset_def)
  let ?p = "toy_exchange [(script, 0, replicate 32 8)]"
  have counted: "fold_res (count_output toy_elements [1, 7] (replicate 32 8) (replicate 32 9))
      (drop 1 (ps_outputs ?p)) exchange_totals_empty =
      Inr \<lparr>et_markers = 1, et_returned = 300, et_outputs = 1000, et_recipient = 600\<rparr>"
    using toy_marker toy_no_marker assms
    by (simp add: eye exchange_outputs_def count_output_def toy_output_def is_fully_explicit_output_def checked_add_def
        exchange_totals_empty_def Let_def)
  have summed: "sum_treasury_inputs ?p [1, 7] (replicate 32 8) [1..<length (ps_inputs ?p)] 0 = Inr 1000"
    by (simp add: witness_utxo_def eye toy_input_def coin_out_def txout_secrets_def checked_add_def upt_rec)
  have first: "witness_utxo ?p 0 = Inr eye_out"
    by (simp add: witness_utxo_def eye toy_input_def)
  have explicit: "require_explicit_utxo eye_out [7] [3] ''Storm Eye'' = Inr ()"
    by (simp add: require_explicit_utxo_Inr eye_out_def)
  have preserved: "require_preserved_output toy_elements ?p 0 eye_out ''Storm Eye'' = Inr ()"
    by (simp add: require_preserved_output_Inr eye exchange_outputs_def parts)
  have sizes: "\<not> (length (ps_inputs ?p) < 2 \<or> length (ps_outputs ?p) < 3)"
    by (simp add: eye exchange_outputs_def)
  show ?thesis
    unfolding validate_layout_def if_not_P [OF sizes] parts asset Let_def first map_err_simps bind_res_simps
      explicit preserved summed counted sig ok_or_simps
    by (simp add: checked_sub_def)
qed

text \<open>An exchange with one more output that no rule counts.\<close>

definition plain_toy :: pset where
  "plain_toy = toy_exchange [([5, 1], 0, replicate 32 8)]"

definition toy_charged :: droplet_db where
  "toy_charged = droplet_db_empty\<lparr>dp_droplets := [(replicate 32 9, droplet_row_new 1000 1 0)],
     dp_treasury := [(([2], 0), \<lparr>tr_amount = 1000, tr_block_height = 1\<rparr>)]\<rparr>"

lemma plain_toy_outputs:
  "migrated_members_proposer_from_script toy_elements (member_script toy_elements (replicate 32 9)) = None"
  "migrated_members_proposer_from_script toy_elements [] = None"
  "migrated_members_proposer_from_script toy_elements [5, 1] = None"
  "migrated_members_proposer_from_script toy_elements [1, 7] = None"
  "migrated_members_proposer_from_script toy_elements [3] = None"
  by (simp_all add: migrated_members_proposer_from_script_def op_return_data_def toy_elements_def toy_instructions_def
      member_script_def MEMBER_MAGIC_def INITIAL_MEMBERS_MAGIC_def)


text \<open>
  The check does not refuse the marker of a member migration. A layout with one that names somebody else is
  accepted, but the indexer finds two members and charges none, and the ledger refuses the block's transaction.
\<close>

definition migration_marker :: bytes where
  "migration_marker = ee_op_return toy_elements
     (INITIAL_MEMBERS_MAGIC @ [MIGRATED_MEMBERS_VERSION] @ be_bytes 2 1 @ replicate 32 4 @ replicate 32 6)"

lemma migration_marker_read:
  "member_from_script toy_elements migration_marker = None"
  "migrated_members_proposer_from_script toy_elements migration_marker = Some (replicate 32 6)"
proof -
  have s: "migrated_members_script toy_elements [replicate 32 4] (replicate 32 6) = Inr migration_marker"
    by (simp add: migrated_members_script_def members_script_def migration_marker_def)
  show "migrated_members_proposer_from_script toy_elements migration_marker = Some (replicate 32 6)"
    by (rule migrated_members_read [OF s toy_elements_laws(1)]) simp_all
  show "member_from_script toy_elements migration_marker = None"
    by (simp add: member_from_script_def migration_marker_def toy_elements_laws(1) INITIAL_MEMBERS_MAGIC_def MEMBER_MAGIC_def)
qed

lemma migration_marker_accepted:
  defines "p \<equiv> toy_exchange [(migration_marker, 0, replicate 32 8)]"
  shows "validate_layout toy_elements p [2, 6] (2 # replicate 32 9) eye_asset Liquid =
      Inr \<lparr>ve_member = replicate 32 9, ve_amount = 700\<rparr>"
    and "exchange_member_of toy_elements (toy_extract p) = None"
proof -
  have "migration_marker \<noteq> [1, 7]" by (simp add: migration_marker_def toy_elements_def)
  then show "validate_layout toy_elements p [2, 6] (2 # replicate 32 9) eye_asset Liquid =
      Inr \<lparr>ve_member = replicate 32 9, ve_amount = 700\<rparr>"
    unfolding p_def by (intro toy_layout migration_marker_read(1))
  have "List.map_filter (output_marker toy_elements) (tx_output (toy_extract p)) = [replicate 32 9, replicate 32 6]"
    by (simp add: p_def toy_exchange_def toy_build_def toy_extract_def exchange_outputs_def toy_output_def
        toy_to_txout_def List.map_filter_simps output_marker_def toy_marker toy_no_marker plain_toy_outputs
        migration_marker_read)
  moreover have "\<not> (replicate 32 9 :: bytes) \<le> replicate 32 6" by code_simp
  ultimately show "exchange_member_of toy_elements (toy_extract p) = None"
    by (simp add: exchange_member_of_def)
qed

end
