(* ===== verification/Indexer.thy ===== *)
theory Indexer
  imports Chain_Index Fee_Utxo
begin

text \<open>
  The synchronisation with the chain (\<open>Indexer::sync\<close> of \<open>high_storm/indexer/mod.rs\<close>): blocks are applied
  one by one, each in a database transaction, from the cursors to the tip. A chain that is not the one
  in the journal, or a cursor that is off it, resets everything that is derived from the chain and
  replays it. Every iteration of the loop asks the Elements server anew, so the answers may come from
  different moments: \<open>view\<close> gives the server at the start, \<open>at\<close> in the iteration of a height, and \<open>final\<close>
  at the end.
\<close>

definition chain_hash :: "elements_rpc \<Rightarrow> u64 \<Rightarrow> indexer_error + bytes" where
  "chain_hash rpc height = map_err (\<lambda>_. IndexerRpc) (rc_block_hash rpc height)"

fun common_ancestor :: "elements_rpc \<Rightarrow> u64 \<Rightarrow> canonical_block list \<Rightarrow> indexer_error + u64 option" where
  "common_ancestor rpc tip [] = Inr None"
| "common_ancestor rpc tip (block # journal) =
     (if cb_height block \<le> tip then
        bind_res (chain_hash rpc (cb_height block)) (\<lambda>hash.
          if hash = cb_hash block then Inr (Some (cb_height block)) else common_ancestor rpc tip journal)
      else common_ancestor rpc tip journal)"

definition require_parent_hash :: "bytes option \<Rightarrow> bytes \<Rightarrow> u64 \<Rightarrow> indexer_error + unit" where
  "require_parent_hash expected actual height =
     (case expected of
        Some e \<Rightarrow> if e \<noteq> actual then Inl (Reorganization height) else Inr ()
      | None \<Rightarrow> Inr ())"

definition behind :: "u64 option \<Rightarrow> u64 \<Rightarrow> bool" where
  "behind at_cursor height = (case at_cursor of None \<Rightarrow> True | Some c \<Rightarrow> c < height)"

definition member_migration_requires_replay ::
  "network_asset \<Rightarrow> finalized_migration list \<Rightarrow> u64 option \<Rightarrow> u64 option \<Rightarrow> bool \<Rightarrow> bool" where
  "member_migration_requires_replay storm_eye migrations issued_cursor droplets_cursor droplets_halted =
     list_ex (\<lambda>m. fm_asset_kind m = na_kind storm_eye \<and> fm_next_script m = na_contract_script storm_eye \<and>
         fm_next_data m = na_contract_data storm_eye \<and>
         (behind issued_cursor (fm_block_height m) \<or>
          (\<not> droplets_halted \<and> behind droplets_cursor (fm_block_height m)))) migrations"

definition target_tip_is_canonical :: "u64 \<Rightarrow> u64 \<Rightarrow> bytes \<Rightarrow> bytes \<Rightarrow> bool" where
  "target_tip_is_canonical current_tip target_tip current_hash expected_hash \<longleftrightarrow>
     target_tip \<le> current_tip \<and> current_hash = expected_hash"

subsection \<open>One block\<close>

record sync_state =
  sy_db :: node_db
  sy_storm_eye :: network_asset
  sy_droplets_height :: "u64 option"
  sy_members :: "bytes list"
  sy_previous :: "bytes option"

text \<open>What is read from the block before the database is touched.\<close>

record block_content =
  bc_block :: canonical_block
  bc_renewed :: "network_asset option"
  bc_migration :: "finalized_migration option"
  bc_migrated :: "network_asset option"
  bc_issued :: "(monitored_utxo list \<times> (bytes \<times> u32 \<times> bytes) list) option"
  bc_treasury :: "treasury_transaction list option"

definition migrate_storm_eye :: "network_asset \<Rightarrow> finalized_migration \<Rightarrow> indexer_error + network_asset" where
  "migrate_storm_eye storm_eye m =
     (if fm_asset_kind m \<noteq> na_kind storm_eye \<or> fm_previous_script m \<noteq> na_contract_script storm_eye \<or>
         fm_previous_data m \<noteq> na_contract_data storm_eye
      then Inl (IndexerInvalid ''member migration does not match replayed Storm Eye state'')
      else Inr (storm_eye\<lparr>na_contract_script := fm_next_script m, na_contract_data := fm_next_data m\<rparr>))"

record indexer_setup =
  is_env :: elements_env
  is_network :: simplicity_network
  is_migrations :: "finalized_migration list"
  is_issued_assets :: "network_asset list"
  is_issued_height :: u64
  is_treasury_script :: bytes
  is_lifetime :: u64

definition read_block ::
  "indexer_setup \<Rightarrow> elements_rpc \<Rightarrow> u64 \<Rightarrow> sync_state \<Rightarrow> indexer_error + block_content" where
  "read_block setup rpc height st =
     (let env = is_env setup; network = is_network setup; storm_eye = sy_storm_eye st in
      bind_res (chain_hash rpc height) (\<lambda>hash.
      bind_res (map_err (\<lambda>_. IndexerRpc) (rc_block rpc hash)) (\<lambda>block.
      bind_res (require_parent_hash (sy_previous st) (bk_prev block) height) (\<lambda>_.
      bind_res (indexed_storm_eye_renewal env rpc (bk_transactions block) storm_eye network) (\<lambda>renewal.
      let migration = find (\<lambda>m. fm_block_height m = height) (is_migrations setup) in
      if renewal \<noteq> None \<and> migration \<noteq> None
      then Inl (IndexerInvalid ''Storm Eye renewal and member migration share one block'')
      else
        bind_res (case migration of
                    None \<Rightarrow> Inr None
                  | Some m \<Rightarrow> bind_res (migrate_storm_eye storm_eye m) (\<lambda>a. Inr (Some a))) (\<lambda>migrated.
        let block_storm_eye = (case renewal of None \<Rightarrow> storm_eye | Some (_, renewed) \<Rightarrow> renewed) in
        bind_res (if is_issued_height setup \<le> height
                  then bind_res (issued_utxos env rpc height block_storm_eye (is_issued_assets setup) network
                                   (bk_transactions block))
                         (\<lambda>issued. Inr (Some (issued, spent_monitored_outpoints env (bk_transactions block))))
                  else Inr None) (\<lambda>issued.
        bind_res (if (case sy_droplets_height st of None \<Rightarrow> False | Some start \<Rightarrow> start \<le> height)
                  then bind_res (verify_initial_members env (bk_transactions block) block_storm_eye (sy_members st))
                         (\<lambda>_. bind_res (treasury_transactions env (bk_transactions block) (is_treasury_script setup)
                                (ee_policy_asset env network)) (\<lambda>ts. Inr (Some ts)))
                  else Inr None) (\<lambda>treasury.
          Inr \<lparr>bc_block = \<lparr>cb_height = height, cb_hash = hash, cb_parent_hash = bk_prev block\<rparr>,
               bc_renewed = map_option snd renewal, bc_migration = migration, bc_migrated = migrated,
               bc_issued = issued, bc_treasury = treasury\<rparr>))))))))"

definition index_contract ::
  "network_asset \<Rightarrow> network_asset \<Rightarrow> string \<Rightarrow> node_db \<Rightarrow> indexer_error + node_db" where
  "index_contract storm_eye renewed reason db =
     (let (assets, done') = index_storm_eye_renewal storm_eye renewed (nd_assets db)
      in if done' then Inr (db\<lparr>nd_assets := assets\<rparr>) else Inl (IndexerInvalid reason))"

definition record_cursor_of :: "string \<Rightarrow> canonical_block \<Rightarrow> node_db \<Rightarrow> indexer_error + node_db" where
  "record_cursor_of rule_set block db =
     bind_res (map_err IndexerDatabase (record_cursor rule_set
        \<lparr>ib_height = cb_height block, ib_hash = cb_hash block\<rparr> (nd_cursors db))) (\<lambda>cursors.
       Inr (db\<lparr>nd_cursors := cursors\<rparr>))"

definition apply_issued ::
  "u64 \<Rightarrow> block_content \<Rightarrow> node_db \<Rightarrow> indexer_error + node_db" where
  "apply_issued lifetime c db =
     (case bc_issued c of
        None \<Rightarrow> Inr db
      | Some (issued, spent) \<Rightarrow>
          bind_res (map_err IndexerDatabase (apply_utxo_block
             \<lparr>ib_height = cb_height (bc_block c), ib_hash = cb_hash (bc_block c)\<rparr> issued spent lifetime (nd_utxos db)))
            (\<lambda>(utxos, _). record_cursor_of ISSUED_UTXO_RULE_SET (bc_block c) (db\<lparr>nd_utxos := utxos\<rparr>)))"

text \<open>
  The ledger's part runs in a savepoint: a block it refuses as invalid halts the ledger and leaves it as it
  was, and the rest of the block is indexed all the same. The second component is whether it goes on.
\<close>

definition apply_treasury ::
  "bytes list \<Rightarrow> block_content \<Rightarrow> node_db \<Rightarrow> indexer_error + node_db \<times> bool" where
  "apply_treasury members c db =
     (case bc_treasury c of
        None \<Rightarrow> Inr (db, True)
      | Some ts \<Rightarrow>
          (case apply_ledger_block \<lparr>ib_height = cb_height (bc_block c), ib_hash = cb_hash (bc_block c)\<rparr> ts members
                  (nd_droplets db) of
             Inr droplets \<Rightarrow>
               bind_res (record_cursor_of DROPLETS_RULE_SET (bc_block c) (db\<lparr>nd_droplets := droplets\<rparr>)) (\<lambda>db'.
                 Inr (db', True))
           | Inl (DropletInvalid reason) \<Rightarrow>
               bind_res (map_err IndexerDatabase (halt_ledger (cb_height (bc_block c)) reason db)) (\<lambda>db'.
                 Inr (db', False))
           | Inl e \<Rightarrow> Inl (IndexerDroplets e)))"

definition store_block ::
  "indexer_setup \<Rightarrow> sync_state \<Rightarrow> block_content \<Rightarrow> indexer_error + sync_state" where
  "store_block setup st c =
     bind_res (case bc_renewed c of
                 None \<Rightarrow> Inr (sy_db st)
               | Some renewed \<Rightarrow>
                   bind_res (index_contract (sy_storm_eye st) renewed
                       ''indexed Storm Eye renewal does not match active state'' (sy_db st)) (\<lambda>db.
                     map_err IndexerDatabase (record_asset_transition (bc_block c) (sy_storm_eye st) renewed db))) (\<lambda>db.
     bind_res (case bc_migrated c of
                 None \<Rightarrow> Inr db
               | Some migrated \<Rightarrow> index_contract (sy_storm_eye st) migrated
                   ''replayed member migration does not match active state'' db) (\<lambda>db.
     bind_res (apply_issued (is_lifetime setup) c db) (\<lambda>db.
     bind_res (apply_treasury (sy_members st) c db) (\<lambda>(db, live).
     bind_res (map_err IndexerDatabase (record_block (bc_block c) db)) (\<lambda>db.
       Inr \<lparr>sy_db = db,
            sy_storm_eye = (case bc_migrated c of Some migrated \<Rightarrow> migrated
              | None \<Rightarrow> (case bc_renewed c of Some renewed \<Rightarrow> renewed | None \<Rightarrow> sy_storm_eye st)),
            sy_droplets_height = (if live then sy_droplets_height st else None),
            sy_members = (case bc_migration c of Some m \<Rightarrow> fm_next_members m | None \<Rightarrow> sy_members st),
            sy_previous = Some (cb_hash (bc_block c))\<rparr>)))))"

definition index_block ::
  "indexer_setup \<Rightarrow> elements_rpc \<Rightarrow> u64 \<Rightarrow> sync_state \<Rightarrow> indexer_error + sync_state" where
  "index_block setup rpc height st = bind_res (read_block setup rpc height st) (store_block setup st)"

text \<open>The loop: a block that fails leaves what the blocks before it have stored.\<close>

fun index_blocks ::
  "indexer_setup \<Rightarrow> (u64 \<Rightarrow> elements_rpc) \<Rightarrow> u64 list \<Rightarrow> sync_state \<Rightarrow> sync_state \<times> indexer_error option" where
  "index_blocks setup at' [] st = (st, None)"
| "index_blocks setup at' (height # heights) st =
     (case index_block setup (at' height) height st of
        Inl e \<Rightarrow> (st, Some e)
      | Inr st' \<Rightarrow> index_blocks setup at' heights st')"

subsection \<open>The synchronisation\<close>

fun check_migrations ::
  "elements_rpc \<Rightarrow> u64 \<Rightarrow> finalized_migration list \<Rightarrow> indexer_error + string option" where
  "check_migrations rpc tip [] = Inr None"
| "check_migrations rpc tip (m # ms) =
     (if tip < fm_block_height m then Inl (Reorganization (fm_block_height m))
      else bind_res (chain_hash rpc (fm_block_height m)) (\<lambda>hash.
        if hash \<noteq> fm_block_hash m then Inr (Some ''finalized member migration is no longer canonical'')
        else check_migrations rpc tip ms))"

definition off_chain :: "elements_rpc \<Rightarrow> u64 \<Rightarrow> u64 \<Rightarrow> bytes \<Rightarrow> indexer_error + bool" where
  "off_chain rpc tip height hash =
     (if tip < height then Inr True
      else bind_res (chain_hash rpc height) (\<lambda>current. Inr (current \<noteq> hash)))"

fun cursors_off_chain :: "elements_rpc \<Rightarrow> u64 \<Rightarrow> indexed_block list \<Rightarrow> indexer_error + bool" where
  "cursors_off_chain rpc tip [] = Inr False"
| "cursors_off_chain rpc tip (c # cs) =
     bind_res (off_chain rpc tip (ib_height c) (ib_hash c)) (\<lambda>off.
       if off then Inr True else cursors_off_chain rpc tip cs)"

definition heights_between :: "u64 \<Rightarrow> u64 \<Rightarrow> u64 list" where
  "heights_between first tip = map of_nat [unat first..<Suc (unat tip)]"

definition members_before :: "bytes list \<Rightarrow> finalized_migration list \<Rightarrow> u64 \<Rightarrow> bytes list" where
  "members_before initial migrations height =
     fold (\<lambda>m _. fm_next_members m) (filter (\<lambda>m. fm_block_height m < height) migrations)
       (case migrations of [] \<Rightarrow> initial | m # _ \<Rightarrow> fm_previous_members m)"

type_synonym decoded_lock = "bytes \<times> u64 \<times> u64 \<times> bytes"

definition decode_lock :: "pending_chain_lock \<Rightarrow> db_error + decoded_lock" where
  "decode_lock l =
     bind_res (decode_u64 (pl_amount l)) (\<lambda>amount.
     bind_res (decode_u64 (pl_block_height l)) (\<lambda>height.
       Inr (pl_member l, amount, height, pl_transaction l)))"

fun restore_locks :: "decoded_lock list \<Rightarrow> node_db \<Rightarrow> node_db \<times> indexer_error option" where
  "restore_locks [] db = (db, None)"
| "restore_locks ((member, amount, height, transaction) # ls) db =
     (case lock_exchange member amount height transaction (nd_droplets db) of
        Inl e \<Rightarrow> (db, Some (IndexerDatabase e))
      | Inr (droplets, _) \<Rightarrow> restore_locks ls (db\<lparr>nd_droplets := droplets\<rparr>))"

record sync_start =
  sn_db :: node_db
  sn_storm_eye :: network_asset
  sn_issued_cursor :: "indexed_block option"
  sn_droplets_cursor :: "indexed_block option"
  sn_recovering :: bool
  sn_locks :: "decoded_lock list"

text \<open>What happens before the loop once the safety checks have passed: replay or go on.\<close>

definition needs_replay ::
  "elements_rpc \<Rightarrow> u64 \<Rightarrow> network_asset \<Rightarrow> finalized_migration list \<Rightarrow> node_db \<Rightarrow> indexer_error + bool" where
  "needs_replay rpc tip storm_eye migrations db =
     (let issued_cursor = cursor ISSUED_UTXO_RULE_SET (nd_cursors db);
          droplets_cursor = cursor DROPLETS_RULE_SET (nd_cursors db);
          journal = blocks_descending db in
      bind_res (case journal of [] \<Rightarrow> Inr False | b # _ \<Rightarrow> off_chain rpc tip (cb_height b) (cb_hash b))
        (\<lambda>journal_mismatch.
      bind_res (cursors_off_chain rpc tip (List.map_filter id [issued_cursor, droplets_cursor])) (\<lambda>cursor_mismatch.
        Inr (rs_recovering (nd_recovery db) \<or>
             (journal = [] \<and> (issued_cursor \<noteq> None \<or> droplets_cursor \<noteq> None)) \<or>
             journal_mismatch \<or> cursor_mismatch \<or>
             member_migration_requires_replay storm_eye migrations (map_option ib_height issued_cursor)
               (map_option ib_height droplets_cursor) (ledger_halt db \<noteq> None)))))"

definition start_replay ::
  "elements_rpc \<Rightarrow> u64 \<Rightarrow> node_db \<Rightarrow> node_db \<times> (indexer_error + sync_start)" where
  "start_replay rpc tip db =
     (case common_ancestor rpc tip (blocks_descending db) of
        Inl e \<Rightarrow> (db, Inl e)
      | Inr common \<Rightarrow>
          (case set_recovering (case common of None \<Rightarrow> 0 | Some h \<Rightarrow> sat_add h 1) db of
             Inl e \<Rightarrow> (db, Inl (IndexerDatabase e))
           | Inr db1 \<Rightarrow>
               (case reset_projections db1 of (db2, saved) \<Rightarrow>
                (case map_res decode_lock saved of
                   Inl e \<Rightarrow> (db1, Inl (IndexerDatabase e))
                 | Inr locks \<Rightarrow>
                (case get_asset STORM_EYE_KIND (nd_assets db2) of
                   None \<Rightarrow> (db2, Inl (IndexerMissingAsset STORM_EYE_KIND))
                 | Some eye \<Rightarrow>
                     (db2, Inr \<lparr>sn_db = db2, sn_storm_eye = eye, sn_issued_cursor = None,
                                sn_droplets_cursor = None, sn_recovering = True, sn_locks = locks\<rparr>))))))"

definition begin_sync ::
  "elements_rpc \<Rightarrow> u64 \<Rightarrow> network_asset \<Rightarrow> finalized_migration list \<Rightarrow> node_db \<Rightarrow> bool \<Rightarrow>
   node_db \<times> bool \<times> (indexer_error + sync_start)" where
  "begin_sync rpc tip storm_eye migrations db flag =
     (case needs_replay rpc tip storm_eye migrations db of
        Inl e \<Rightarrow> (db, flag, Inl e)
      | Inr True \<Rightarrow> (case start_replay rpc tip db of (db', start) \<Rightarrow> (db', True, start))
      | Inr False \<Rightarrow>
          (db, flag, Inr \<lparr>sn_db = db, sn_storm_eye = storm_eye,
             sn_issued_cursor = cursor ISSUED_UTXO_RULE_SET (nd_cursors db),
             sn_droplets_cursor = cursor DROPLETS_RULE_SET (nd_cursors db),
             sn_recovering = False, sn_locks = []\<rparr>))"

text \<open>
  The whole pass. The result is the database left behind, the in-memory flag \<open>recovering\<close>, and the number
  of blocks indexed or the error. Every early return keeps what was written before it.
\<close>

record indexer_config =
  ic_env :: elements_env
  ic_lifetime :: u64
  ic_initial_members :: "bytes list"

definition after_cursor :: "u64 \<Rightarrow> indexed_block option \<Rightarrow> u64" where
  "after_cursor created at_cursor = (case at_cursor of None \<Rightarrow> created | Some c \<Rightarrow> ib_height c + 1)"

definition finish_sync ::
  "elements_rpc \<Rightarrow> u64 \<Rightarrow> bytes \<Rightarrow> sync_start \<Rightarrow> node_db \<Rightarrow> node_db \<times> indexer_error option" where
  "finish_sync rpc tip target start db =
     (case map_err (\<lambda>_. IndexerRpc) (rc_block_count rpc) of
        Inl e \<Rightarrow> (db, Some e)
      | Inr current_tip \<Rightarrow>
          (case chain_hash rpc tip of
             Inl e \<Rightarrow> (db, Some e)
           | Inr current_hash \<Rightarrow>
               if \<not> target_tip_is_canonical current_tip tip current_hash target
               then (db, Some (Reorganization tip))
               else if sn_recovering start
               then (case restore_locks (sn_locks start) db of
                       (db', Some e) \<Rightarrow> (db', Some e)
                     | (db', None) \<Rightarrow> (finish_recovery db', None))
               else (db, None)))"

definition run_blocks ::
  "indexer_config \<Rightarrow> simplicity_network \<Rightarrow> (u64 \<Rightarrow> elements_rpc) \<Rightarrow> u64 \<Rightarrow> network_asset \<Rightarrow> network_asset \<Rightarrow>
   finalized_migration list \<Rightarrow> sync_start \<Rightarrow> u64 list \<times> (sync_state \<times> indexer_error option)" where
  "run_blocks cfg network at' tip tick verifier migrations start =
     (let issued_height = after_cursor (na_created_at_block tick) (sn_issued_cursor start);
          droplets_height = (if ledger_halt (sn_db start) \<noteq> None then None
            else Some (after_cursor (na_created_at_block (sn_storm_eye start)) (sn_droplets_cursor start)));
          first_height = (case droplets_height of None \<Rightarrow> issued_height | Some h \<Rightarrow> min h issued_height);
          setup = \<lparr>is_env = ic_env cfg, is_network = network, is_migrations = migrations,
                   is_issued_assets = [tick, verifier], is_issued_height = issued_height,
                   is_treasury_script = ee_treasury_script (ic_env cfg) (na_asset_id (sn_storm_eye start)) network,
                   is_lifetime = ic_lifetime cfg\<rparr>;
          heights = heights_between first_height tip
      in (heights, index_blocks setup at' heights
           \<lparr>sy_db = sn_db start, sy_storm_eye = sn_storm_eye start, sy_droplets_height = droplets_height,
            sy_members = members_before (ic_initial_members cfg) migrations first_height,
            sy_previous = (if sn_recovering start then None
                           else map_option cb_hash (chain_tip_of (sn_db start)))\<rparr>))"

definition sync_prelude ::
  "elements_rpc \<Rightarrow> asset_db \<Rightarrow>
   indexer_error + network_asset \<times> network_asset \<times> network_asset \<times> simplicity_network \<times> u64 \<times> bytes" where
  "sync_prelude rpc assets =
     bind_res (ok_or (IndexerMissingAsset STORM_EYE_KIND) (get_asset STORM_EYE_KIND assets)) (\<lambda>storm_eye.
     bind_res (ok_or (IndexerMissingAsset TICK_ASSET_KIND) (get_asset TICK_ASSET_KIND assets)) (\<lambda>tick.
     bind_res (ok_or (IndexerMissingAsset ORACLE_VERIFIER_KIND) (get_asset ORACLE_VERIFIER_KIND assets)) (\<lambda>verifier.
     bind_res (map_err IndexerInvalid (rc_network rpc)) (\<lambda>network.
     bind_res (map_err (\<lambda>_. IndexerRpc) (rc_block_count rpc)) (\<lambda>tip.
     bind_res (chain_hash rpc tip) (\<lambda>target.
       Inr (storm_eye, tick, verifier, network, tip, target)))))))"

definition sync_from ::
  "indexer_config \<Rightarrow> (u64 \<Rightarrow> elements_rpc) \<Rightarrow> elements_rpc \<Rightarrow>
   network_asset \<times> network_asset \<times> network_asset \<times> simplicity_network \<times> u64 \<times> bytes \<Rightarrow>
   finalized_migration list \<Rightarrow> sync_start \<Rightarrow> bool \<Rightarrow> node_db \<times> bool \<times> (indexer_error + nat)" where
  "sync_from cfg at' final known migrations start flag =
     (case known of (_, tick, verifier, network, tip, target) \<Rightarrow>
     (case run_blocks cfg network at' tip tick verifier migrations start of (heights, st, failed) \<Rightarrow>
     (case failed of
        Some e \<Rightarrow> (sy_db st, flag, Inl e)
      | None \<Rightarrow>
         (case finish_sync final tip target start (sy_db st) of
            (db', Some e) \<Rightarrow> (db', flag, Inl e)
          | (db', None) \<Rightarrow> (db', False, Inr (length heights))))))"

definition sync ::
  "indexer_config \<Rightarrow> elements_rpc \<Rightarrow> (u64 \<Rightarrow> elements_rpc) \<Rightarrow> elements_rpc \<Rightarrow> node_db \<Rightarrow> bool \<Rightarrow>
   node_db \<times> bool \<times> (indexer_error + nat)" where
  "sync cfg view at' final db flag =
     (case sync_prelude view (nd_assets db) of
        Inl e \<Rightarrow> (db, flag, Inl e)
      | Inr known \<Rightarrow>
         (case known of (storm_eye, _, _, _, tip, _) \<Rightarrow>
          if rs_safe_halted (nd_recovery db)
          then (db, True, Inl (SafetyHalt (case rs_halt_reason (nd_recovery db) of
                  None \<Rightarrow> ''persisted chain safety halt'' | Some reason \<Rightarrow> reason)))
          else
            (case map_err IndexerDatabase (finalized_member_migrations (ee_x_only (ic_env cfg)) db) of
               Inl e \<Rightarrow> (db, flag, Inl e)
             | Inr migrations \<Rightarrow>
                (case check_migrations view tip migrations of
                   Inl e \<Rightarrow> (db, flag \<or> (case e of Reorganization _ \<Rightarrow> True | _ \<Rightarrow> False), Inl e)
                 | Inr (Some reason) \<Rightarrow> (safe_halt reason db, True, Inl (SafetyHalt reason))
                 | Inr None \<Rightarrow>
                    (case begin_sync view tip storm_eye migrations db flag of
                       (db', flag', Inl e) \<Rightarrow> (db', flag', Inl e)
                     | (_, flag', Inr start) \<Rightarrow> sync_from cfg at' final known migrations start flag')))))"

end
