(* ===== verification/Indexer_Claims.thy ===== *)
theory Indexer_Claims
  imports Indexer
begin

text \<open>
  What a synchronisation guarantees: a replay rebuilds the tables derived from the chain from the chain
  alone, a block is stored on top of the block before it only, and a synchronisation that was
  interrupted while it replayed starts its replay again.
\<close>

subsection \<open>The tables derived from the chain\<close>

text \<open>\<open>with_chain src dst\<close> is \<open>dst\<close> with every table that is derived from the chain taken from \<open>src\<close>.\<close>

definition with_chain :: "node_db \<Rightarrow> node_db \<Rightarrow> node_db" where
  "with_chain src dst =
     dst\<lparr>nd_blocks := nd_blocks src, nd_history := nd_history src, nd_utxos := nd_utxos src,
         nd_cursors := nd_cursors src,
         nd_assets := (nd_assets dst)\<lparr>ad_assets := ad_assets (nd_assets src)\<rparr>,
         nd_droplets := (nd_droplets dst)\<lparr>dp_droplets := dp_droplets (nd_droplets src),
                                          dp_treasury := dp_treasury (nd_droplets src)\<rparr>,
         nd_recovery := (nd_recovery dst)\<lparr>rs_droplets_halt := rs_droplets_halt (nd_recovery src)\<rparr>\<rparr>"

definition same_chain :: "node_db \<Rightarrow> node_db \<Rightarrow> bool" where
  "same_chain a b \<longleftrightarrow> with_chain a b = b"

lemma with_chain_simps [simp]:
  "nd_blocks (with_chain a b) = nd_blocks a" "nd_history (with_chain a b) = nd_history a"
  "nd_utxos (with_chain a b) = nd_utxos a" "nd_cursors (with_chain a b) = nd_cursors a"
  "ad_assets (nd_assets (with_chain a b)) = ad_assets (nd_assets a)"
  "dp_droplets (nd_droplets (with_chain a b)) = dp_droplets (nd_droplets a)"
  "dp_treasury (nd_droplets (with_chain a b)) = dp_treasury (nd_droplets a)"
  "rs_droplets_halt (nd_recovery (with_chain a b)) = rs_droplets_halt (nd_recovery a)"
  by (simp_all add: with_chain_def)

lemma map_sum_bind: "map_sum id F (bind_res r f) = bind_res r (\<lambda>a. map_sum id F (f a))"
  by (cases r) simp_all

lemma bind_map_sum: "bind_res (map_sum id F r) f = bind_res r (\<lambda>a. f (F a))"
  by (cases r) simp_all

lemma map_sum_if: "map_sum f g (if b then x else y) = (if b then map_sum f g x else map_sum f g y)"
  by simp

lemma bind_bind: "bind_res (bind_res r f) g = bind_res r (\<lambda>a. bind_res (f a) g)"
  by (cases r) simp_all

definition ledger_chain :: "droplet_db \<Rightarrow> droplet_db \<Rightarrow> droplet_db" where
  "ledger_chain src dst = dst\<lparr>dp_droplets := dp_droplets src, dp_treasury := dp_treasury src\<rparr>"

lemma apply_transaction_chain:
  "apply_transaction members height t (ledger_chain src dst) =
   map_sum id (\<lambda>r. ledger_chain r dst) (apply_transaction members height t src)"
  by (cases dst) (simp add: apply_transaction_def ledger_chain_def map_sum_bind map_sum_if case_prod_unfold Let_def
      cong: if_cong)

lemma fold_res_chain:
  assumes "\<And>x s. f x (F s) = map_sum id F (f x s)"
  shows "fold_res f xs (F s) = map_sum id F (fold_res f xs s)"
  by (induction xs arbitrary: s) (simp_all add: assms bind_map_sum map_sum_bind)

lemma apply_ledger_block_chain:
  "apply_ledger_block block ts members (ledger_chain src dst) =
   map_sum id (\<lambda>r. ledger_chain r dst) (apply_ledger_block block ts members src)"
  unfolding apply_ledger_block_def
  by (simp add: fold_res_chain [where F = "\<lambda>r. ledger_chain r dst" and
        f = "apply_transaction (remdups_adj (sort members)) (ib_height block)", OF apply_transaction_chain])

subsection \<open>Every step of a block reads and writes these tables only\<close>

lemma with_chain_droplets: "nd_droplets (with_chain a b) = ledger_chain (nd_droplets a) (nd_droplets b)"
  by (simp add: with_chain_def ledger_chain_def)

lemma index_contract_chain:
  "index_contract eye renewed reason (with_chain a b) =
   map_sum id (\<lambda>r. with_chain r b) (index_contract eye renewed reason a)"
  by (cases b) (simp add: index_contract_def index_storm_eye_renewal_def with_chain_def Let_def map_sum_if
      split: prod.splits)

lemma transition_chain:
  "map_err e (record_asset_transition block eye renewed (with_chain a b)) =
   map_sum id (\<lambda>r. with_chain r b) (map_err e (record_asset_transition block eye renewed a))"
  by (cases "encode_u64 (cb_height block)"; cases b) (simp_all add: record_asset_transition_def with_chain_def map_sum_if)

lemma record_cursor_chain:
  "record_cursor_of rule_set block (with_chain a b) =
   map_sum id (\<lambda>r. with_chain r b) (record_cursor_of rule_set block a)"
  by (cases b) (simp add: record_cursor_of_def map_sum_bind with_chain_def)

lemma apply_issued_chain:
  "apply_issued lifetime c (with_chain a b) = map_sum id (\<lambda>r. with_chain r b) (apply_issued lifetime c a)"
proof (cases "bc_issued c")
  case (Some p)
  have u: "(with_chain a b)\<lparr>nd_utxos := u\<rparr> = with_chain (a\<lparr>nd_utxos := u\<rparr>) b" for u
    by (cases b) (simp add: with_chain_def)
  show ?thesis
    by (simp add: apply_issued_def Some case_prod_unfold map_sum_bind u record_cursor_chain)
qed (simp add: apply_issued_def)

lemma halt_ledger_chain:
  "map_err e (halt_ledger height reason (with_chain a b)) =
   map_sum id (\<lambda>r. with_chain r b) (map_err e (halt_ledger height reason a))"
  by (cases "encode_u64 height"; cases b) (simp_all add: halt_ledger_def with_chain_def)

lemma record_block_chain:
  "map_err e (record_block block (with_chain a b)) =
   map_sum id (\<lambda>r. with_chain r b) (map_err e (record_block block a))"
  by (cases "encode_u64 (cb_height block)"; cases "encode_u64 (first_retained (cb_height block))"; cases b)
     (simp_all add: record_block_def with_chain_def map_sum_if)

lemma apply_treasury_chain:
  "apply_treasury members c (with_chain a b) =
   map_sum id (\<lambda>(r, live). (with_chain r b, live)) (apply_treasury members c a)"
proof (cases "bc_treasury c")
  case (Some ts)
  have d: "(with_chain a b)\<lparr>nd_droplets := ledger_chain d (nd_droplets b)\<rparr> = with_chain (a\<lparr>nd_droplets := d\<rparr>) b" for d
    by (cases b) (simp add: with_chain_def ledger_chain_def)
  show ?thesis
    by (auto simp: apply_treasury_def Some with_chain_droplets apply_ledger_block_chain d record_cursor_chain
        halt_ledger_chain map_sum_bind bind_map_sum split: sum.splits droplet_error.splits)
qed (simp add: apply_treasury_def)

definition state_chain :: "sync_state \<Rightarrow> node_db \<Rightarrow> sync_state" where
  "state_chain st dst = st\<lparr>sy_db := with_chain (sy_db st) dst\<rparr>"

lemma state_chain_simps [simp]:
  "sy_db (state_chain st b) = with_chain (sy_db st) b" "sy_storm_eye (state_chain st b) = sy_storm_eye st"
  "sy_droplets_height (state_chain st b) = sy_droplets_height st" "sy_members (state_chain st b) = sy_members st"
  "sy_previous (state_chain st b) = sy_previous st"
  by (simp_all add: state_chain_def)

lemma state_chain_make:
  "state_chain \<lparr>sy_db = a, sy_storm_eye = eye, sy_droplets_height = h, sy_members = ms, sy_previous = p\<rparr> b =
   \<lparr>sy_db = with_chain a b, sy_storm_eye = eye, sy_droplets_height = h, sy_members = ms, sy_previous = p\<rparr>"
  by (simp add: state_chain_def)

lemma store_block_chain:
  "store_block setup (state_chain st b) c = map_sum id (\<lambda>r. state_chain r b) (store_block setup st c)"
  unfolding store_block_def state_chain_simps
  by (cases "bc_renewed c"; cases "bc_migrated c")
     (simp_all add: index_contract_chain transition_chain apply_issued_chain apply_treasury_chain
      record_block_chain map_sum_bind bind_map_sum bind_bind case_prod_unfold state_chain_make)

lemma index_block_chain:
  "index_block setup rpc h (state_chain st b) = map_sum id (\<lambda>r. state_chain r b) (index_block setup rpc h st)"
proof -
  have "read_block setup rpc h (state_chain st b) = read_block setup rpc h st"
    unfolding read_block_def state_chain_simps by (rule refl)
  then show ?thesis
    by (simp add: index_block_def store_block_chain [abs_def] map_sum_bind)
qed

lemma index_blocks_chain:
  "index_blocks setup at' hs (state_chain st b) =
   map_prod (\<lambda>r. state_chain r b) id (index_blocks setup at' hs st)"
  by (induction hs arbitrary: st) (auto simp: index_block_chain split: sum.splits)

subsection \<open>The journal is a chain of hashes\<close>

definition journal_linked :: "node_db \<Rightarrow> bool" where
  "journal_linked db \<longleftrightarrow>
     bt_wf (nd_blocks db) \<and> successively (\<lambda>b c. cb_parent_hash c = cb_hash b) (bt_values (nd_blocks db))"

definition on_journal :: "sync_state \<Rightarrow> bool" where
  "on_journal st \<longleftrightarrow> journal_linked (sy_db st) \<and> sy_previous st = map_option cb_hash (chain_tip_of (sy_db st))"

definition journal_below :: "u64 \<Rightarrow> node_db \<Rightarrow> bool" where
  "journal_below height db \<longleftrightarrow> (\<forall>h\<in>set (bt_keys (nd_blocks db)). h < height)"

text \<open>What the steps before \<open>record_block\<close> leave alone.\<close>

definition framed :: "node_db \<Rightarrow> node_db \<Rightarrow> bool" where
  "framed a b \<longleftrightarrow> nd_blocks b = nd_blocks a \<and> rs_recovering (nd_recovery b) = rs_recovering (nd_recovery a)"

lemma framed_trans: "framed a b \<Longrightarrow> framed b c \<Longrightarrow> framed a c"
  by (simp add: framed_def)

lemma index_contract_framed: "index_contract eye renewed reason db = Inr db' \<Longrightarrow> framed db db'"
  by (auto simp: index_contract_def framed_def Let_def split: prod.splits if_splits)

lemma transition_framed: "record_asset_transition block eye renewed db = Inr db' \<Longrightarrow> framed db db'"
  by (auto simp: record_asset_transition_def framed_def bind_res_eq_Inr split: if_splits)

lemma record_cursor_framed: "record_cursor_of rule_set block db = Inr db' \<Longrightarrow> framed db db'"
  by (auto simp: record_cursor_of_def framed_def bind_res_eq_Inr)

lemma apply_issued_framed: "apply_issued lifetime c db = Inr db' \<Longrightarrow> framed db db'"
  by (auto simp: apply_issued_def bind_res_eq_Inr framed_def split: option.splits
      dest!: record_cursor_framed [unfolded framed_def])

lemma apply_treasury_framed: "apply_treasury members c db = Inr (db', live) \<Longrightarrow> framed db db'"
  by (auto simp: apply_treasury_def bind_res_eq_Inr framed_def halt_ledger_def
      split: option.splits sum.splits droplet_error.splits dest!: record_cursor_framed [unfolded framed_def] map_err_eq_Inr [THEN iffD1])

lemma store_block_steps:
  assumes "store_block setup st c = Inr st'"
  shows "\<exists>db. framed (sy_db st) db \<and> record_block (bc_block c) db = Inr (sy_db st') \<and>
    sy_previous st' = Some (cb_hash (bc_block c))"
proof -
  from assms obtain db1 db2 db3 db4 live db5 where
      1: "(case bc_renewed c of None \<Rightarrow> Inr (sy_db st)
         | Some renewed \<Rightarrow> bind_res (index_contract (sy_storm_eye st) renewed
             ''indexed Storm Eye renewal does not match active state'' (sy_db st)) (\<lambda>db.
             map_err IndexerDatabase (record_asset_transition (bc_block c) (sy_storm_eye st) renewed db))) = Inr db1"
    and 2: "(case bc_migrated c of None \<Rightarrow> Inr db1
         | Some migrated \<Rightarrow> index_contract (sy_storm_eye st) migrated
             ''replayed member migration does not match active state'' db1) = Inr db2"
    and 3: "apply_issued (is_lifetime setup) c db2 = Inr db3"
    and 4: "apply_treasury (sy_members st) c db3 = Inr (db4, live)"
    and 5: "map_err IndexerDatabase (record_block (bc_block c) db4) = Inr db5"
    and st': "sy_db st' = db5" "sy_previous st' = Some (cb_hash (bc_block c))"
    unfolding store_block_def by (auto simp: bind_res_eq_Inr case_prod_unfold split del: option.splits)
  have "framed (sy_db st) db1"
    using 1 by (auto split: option.splits simp: bind_res_eq_Inr framed_def
        dest!: index_contract_framed [unfolded framed_def] transition_framed [unfolded framed_def])
  moreover have "framed db1 db2"
    using 2 by (auto split: option.splits simp: framed_def dest!: index_contract_framed [unfolded framed_def])
  moreover note apply_issued_framed [OF 3] apply_treasury_framed [OF 4]
  ultimately have "framed (sy_db st) db4"
    by (blast intro: framed_trans)
  with 5 st' show ?thesis by auto
qed

lemma filter_suffix:
  assumes "sorted_wrt (\<lambda>a b. P a \<longrightarrow> P b) xs"
  shows "filter P xs = dropWhile (\<lambda>x. \<not> P x) xs"
  using assms
proof (induction xs)
  case (Cons x xs)
  show ?case
  proof (cases "P x")
    case True
    with Cons.prems have "\<forall>y\<in>set xs. P y" by auto
    with True show ?thesis by (simp add: filter_id_conv [THEN iffD2])
  qed (use Cons in auto)
qed simp

lemma successively_dropWhile: "successively R xs \<Longrightarrow> successively R (dropWhile P xs)"
  using successively_append_iff [of R "takeWhile P xs" "dropWhile P xs"] by simp

lemma first_retained_le: "first_retained h \<le> h"
  by (simp add: first_retained_def CANONICAL_JOURNAL_RETENTION_BLOCKS_def word_le_nat_alt
      unat_sat_sub unat_sat_add)

lemma record_block_rows:
  "record_block block db = Inr db' \<Longrightarrow> nd_blocks db' =
     filter (\<lambda>(h, _). first_retained (cb_height block) \<le> h) (bt_insert (cb_height block) block (nd_blocks db))"
  by (auto simp: record_block_def bind_res_eq_Inr split: if_splits)

lemma record_block_linked:
  assumes stored: "record_block block db = Inr db'" and linked: "journal_linked db"
    and below: "journal_below (cb_height block) db"
    and parent: "\<And>b. chain_tip_of db = Some b \<Longrightarrow> cb_parent_hash block = cb_hash b"
  shows "journal_linked db' \<and> chain_tip_of db' = Some block"
proof -
  let ?js = "nd_blocks db @ [(cb_height block, block)]"
  let ?P = "\<lambda>(h, _). first_retained (cb_height block) \<le> h"
  have snoc: "bt_insert (cb_height block) block (nd_blocks db) = ?js"
    using below by (intro bt_insert_snoc) (auto simp: journal_below_def)
  from stored have db': "nd_blocks db' = filter ?P ?js"
    by (simp add: record_block_rows snoc)
  have wf: "bt_wf ?js"
    using linked bt_insert_wf [of "nd_blocks db" "cb_height block" block]
    by (simp add: snoc journal_linked_def)
  then have "sorted_wrt (\<lambda>a b. fst a < fst b) ?js"
    unfolding bt_wf_def sorted_wrt_map .
  then have suffix: "nd_blocks db' = dropWhile (\<lambda>x. \<not> ?P x) ?js"
    unfolding db' by (intro filter_suffix, elim sorted_wrt_mono_rel [rotated]) auto
  have "successively (\<lambda>b c. cb_parent_hash c = cb_hash b) (bt_values ?js)"
    using linked parent
    by (cases "nd_blocks db" rule: rev_cases)
       (auto simp: journal_linked_def bt_values_def successively_append_iff chain_tip_of_def blocks_descending_def)
  then have "successively (\<lambda>b c. cb_parent_hash c = cb_hash b) (bt_values (nd_blocks db'))"
    unfolding suffix bt_values_def successively_map by (rule successively_dropWhile)
  moreover have "bt_wf (nd_blocks db')"
    using wf unfolding db' bt_wf_def sorted_wrt_map by (rule sorted_wrt_filter)
  moreover have "nd_blocks db' = filter ?P (nd_blocks db) @ [(cb_height block, block)]"
    by (simp add: db' first_retained_le)
  ultimately show ?thesis
    by (simp add: journal_linked_def chain_tip_of_def blocks_descending_def bt_values_def)
qed

lemma read_block_parent:
  assumes "read_block setup rpc h st = Inr c"
  shows "cb_height (bc_block c) = h \<and>
    (\<forall>p. sy_previous st = Some p \<longrightarrow> cb_parent_hash (bc_block c) = p)"
proof -
  from assms have "cb_height (bc_block c) = h \<and>
      require_parent_hash (sy_previous st) (cb_parent_hash (bc_block c)) h = Inr ()"
    by (auto simp: read_block_def Let_def bind_res_eq_Inr split: if_split_asm)
  then show ?thesis by (auto simp: require_parent_hash_def split: option.splits if_splits)
qed

lemma framed_journal:
  assumes "framed a b"
  shows "journal_linked b \<longleftrightarrow> journal_linked a" "chain_tip_of b = chain_tip_of a"
    "journal_below h b \<longleftrightarrow> journal_below h a"
  using assms by (simp_all add: framed_def journal_linked_def chain_tip_of_def blocks_descending_def journal_below_def)

lemma index_block_journal:
  assumes indexed: "index_block setup rpc h st = Inr st'" and on: "on_journal st"
    and below: "journal_below h (sy_db st)"
  shows "on_journal st' \<and> (\<forall>h'. h < h' \<longrightarrow> journal_below h' (sy_db st'))"
proof -
  from indexed obtain c where c: "read_block setup rpc h st = Inr c" "store_block setup st c = Inr st'"
    by (auto simp: index_block_def bind_res_eq_Inr)
  from store_block_steps [OF c(2)] obtain db where db: "framed (sy_db st) db"
      "record_block (bc_block c) db = Inr (sy_db st')" "sy_previous st' = Some (cb_hash (bc_block c))"
    by blast
  have parent: "cb_parent_hash (bc_block c) = cb_hash b" if "chain_tip_of db = Some b" for b
    using read_block_parent [OF c(1)] on that framed_journal(2) [OF db(1)] by (simp add: on_journal_def)
  have height: "cb_height (bc_block c) = h" using read_block_parent [OF c(1)] by blast
  from record_block_linked [OF db(2) _ _ parent] on below framed_journal [OF db(1)] height
  have "journal_linked (sy_db st') \<and> chain_tip_of (sy_db st') = Some (bc_block c)"
    by (simp add: on_journal_def)
  moreover have "set (bt_keys (nd_blocks (sy_db st'))) \<subseteq> insert h (set (bt_keys (nd_blocks db)))"
  proof -
    have "nd_blocks (sy_db st') = filter (\<lambda>(k, _). first_retained h \<le> k) (bt_insert h (bc_block c) (nd_blocks db))"
      using record_block_rows [OF db(2)] by (simp add: height)
    then show ?thesis
      using set_bt_insert_fst [of h "bc_block c" "nd_blocks db"] by (auto simp: bt_keys_def)
  qed
  ultimately show ?thesis
    using below framed_journal(3) [OF db(1), of h] db(3)
    by (force simp: on_journal_def journal_below_def dest: subsetD intro: less_trans)
qed

lemma index_blocks_journal:
  assumes "on_journal st" "sorted_wrt (<) hs" "\<forall>h\<in>set hs. journal_below h (sy_db st)"
  shows "on_journal (fst (index_blocks setup at' hs st))"
  using assms
proof (induction hs arbitrary: st)
  case (Cons h hs)
  show ?case
  proof (cases "index_block setup (at' h) h st")
    case (Inr st')
    from index_block_journal [OF Inr] Cons.prems have "on_journal st'" "\<forall>h\<in>set hs. journal_below h (sy_db st')"
      by auto
    with Cons Inr show ?thesis by simp
  qed (use Cons.prems in simp)
qed simp

lemma heights_between_sorted: "sorted_wrt (<) (heights_between first tip)"
proof -
  have "(of_nat i :: u64) < of_nat j" if "i < j" "j \<le> unat tip" for i j
  proof -
    have "j < 2 ^ 64" using that(2) unsigned_less [of tip, where ?'a = nat] by simp
    then show ?thesis using that(1) by (simp add: word_less_nat_alt unat_of_nat)
  qed
  then show ?thesis
    unfolding heights_between_def sorted_wrt_map
    by (intro sorted_wrt_mono_rel [OF _ sorted_wrt_upt]) (auto simp del: upt_Suc)
qed

subsection \<open>Interrupted replays\<close>

lemma store_block_recovering:
  assumes "store_block setup st c = Inr st'"
  shows "rs_recovering (nd_recovery (sy_db st')) = rs_recovering (nd_recovery (sy_db st))"
proof -
  from store_block_steps [OF assms] obtain db where "framed (sy_db st) db"
      and "record_block (bc_block c) db = Inr (sy_db st')" by blast
  then show ?thesis
    by (auto simp: framed_def record_block_def bind_res_eq_Inr split: if_splits dest!: sym [of _ "sy_db st'"])
qed

lemma index_blocks_recovering:
  "index_blocks setup at' hs st = (st', failed) \<Longrightarrow>
   rs_recovering (nd_recovery (sy_db st')) = rs_recovering (nd_recovery (sy_db st))"
  by (induction hs arbitrary: st)
     (auto simp: index_block_def bind_res_eq_Inr store_block_recovering split: sum.splits)

lemma run_blocks_recovering:
  "run_blocks cfg network at' tip tick verifier migrations start = (heights, st, failed) \<Longrightarrow>
   rs_recovering (nd_recovery (sy_db st)) = rs_recovering (nd_recovery (sn_db start))"
  by (auto simp: run_blocks_def Let_def dest!: index_blocks_recovering)

lemma restore_locks_recovering:
  "restore_locks ls db = (db', e) \<Longrightarrow> nd_recovery db' = nd_recovery db"
  by (induction ls arbitrary: db) (auto split: sum.splits)

lemma reset_recovering: "rs_recovering (nd_recovery (fst (reset_projections db))) = rs_recovering (nd_recovery db)"
  by (simp add: reset_projections_def Let_def)

lemma start_replay_recovering:
  assumes "start_replay rpc tip db = (db', r)"
  shows "(rs_recovering (nd_recovery db) \<longrightarrow> rs_recovering (nd_recovery db')) \<and>
    (\<forall>start. r = Inr start \<longrightarrow> sn_db start = db' \<and> sn_recovering start \<and> rs_recovering (nd_recovery db'))"
proof (cases "common_ancestor rpc tip (blocks_descending db)")
  case (Inr common)
  show ?thesis
  proof (cases "set_recovering (case common of None \<Rightarrow> 0 | Some h \<Rightarrow> sat_add h 1) db")
    case set: (Inr db1)
    then have "rs_recovering (nd_recovery db1)"
      by (auto simp: set_recovering_def bind_res_eq_Inr)
    then show ?thesis
      using assms Inr set reset_recovering [of db1]
      by (auto simp: start_replay_def split: prod.splits sum.splits option.splits)
  qed (use assms Inr in \<open>auto simp: start_replay_def\<close>)
qed (use assms in \<open>auto simp: start_replay_def\<close>)

lemma begin_sync_recovering:
  assumes "begin_sync rpc tip eye migrations db flag = (db', flag', r)"
  shows "(flag \<longrightarrow> flag') \<and> (rs_recovering (nd_recovery db) \<longrightarrow> rs_recovering (nd_recovery db')) \<and>
    (\<forall>start. r = Inr start \<longrightarrow> sn_db start = db' \<and> rs_recovering (nd_recovery db') = sn_recovering start \<and>
       (sn_recovering start \<longrightarrow> flag'))"
proof (cases "needs_replay rpc tip eye migrations db")
  case (Inr replay)
  show ?thesis
  proof (cases replay)
    case True
    obtain d q where replayed: "start_replay rpc tip db = (d, q)" by (cases "start_replay rpc tip db")
    with assms Inr True have "db' = d" "flag'" "r = q" by (auto simp: begin_sync_def)
    with start_replay_recovering [OF replayed] show ?thesis by blast
  next
    case False
    then have "\<not> rs_recovering (nd_recovery db)"
      using Inr by (auto simp: needs_replay_def Let_def bind_res_eq_Inr)
    then show ?thesis using assms Inr False by (auto simp: begin_sync_def)
  qed
qed (use assms in \<open>auto simp: begin_sync_def\<close>)

lemma finish_sync_recovering:
  assumes "finish_sync rpc tip target start db = (db', failed)"
    and "rs_recovering (nd_recovery db) = sn_recovering start"
  shows "case failed of None \<Rightarrow> \<not> rs_recovering (nd_recovery db')
    | Some e \<Rightarrow> rs_recovering (nd_recovery db') = rs_recovering (nd_recovery db)"
  using assms by (auto simp: finish_sync_def finish_recovery_def split: sum.splits if_splits prod.splits option.splits
      dest!: restore_locks_recovering)

lemma sync_from_recovering:
  assumes s: "sync_from cfg at' final (eye, tick, verifier, network, tip, target) ms start fl = (db', flag', r)"
    and rec: "rs_recovering (nd_recovery (sn_db start)) = sn_recovering start"
  shows "case r of Inr n \<Rightarrow> \<not> flag' \<and> \<not> rs_recovering (nd_recovery db')
      | Inl e \<Rightarrow> (fl \<longrightarrow> flag') \<and> rs_recovering (nd_recovery db') = sn_recovering start"
proof -
  obtain heights st failed where run: "run_blocks cfg network at' tip tick verifier ms start = (heights, st, failed)"
    by (cases "run_blocks cfg network at' tip tick verifier ms start") auto
  have st: "rs_recovering (nd_recovery (sy_db st)) = sn_recovering start"
    using run_blocks_recovering [OF run] rec by simp
  obtain d f where fin: "finish_sync final tip target start (sy_db st) = (d, f)"
    by (cases "finish_sync final tip target start (sy_db st)")
  show ?thesis
    using s st finish_sync_recovering [OF fin st]
    by (auto simp: sync_from_def run fin split: option.splits)
qed


text \<open>A node that is replaying, and a server that loses the connection when it is asked for the block at height 2.\<close>

definition sync_asset :: "string \<Rightarrow> nat \<Rightarrow> network_asset" where
  "sync_asset kind i = \<lparr>na_kind = kind, na_name = kind, na_asset_id = [of_nat i], na_reissuance_token_id = None,
     na_entropy = None, na_issuance_txid = [of_nat i, 0], na_contract_script = [3], na_contract_data = Some [4],
     na_supply = 100, na_created_at_block = 1\<rparr>"

definition sync_db :: node_db where
  "sync_db = \<lparr>nd_blocks = [],
     nd_recovery = \<lparr>rs_recovering = True, rs_fork_height = Some 0, rs_safe_halted = False, rs_halt_reason = None,
       rs_migration_paused = False, rs_droplets_halt = None\<rparr>,
     nd_locks = [], nd_history = [], nd_migrations = [],
     nd_assets = \<lparr>ad_assets = map (\<lambda>(kind, i). (kind, \<lparr>as_asset = sync_asset kind i, as_issuance_tx = None, as_active = True\<rparr>))
         [(ORACLE_VERIFIER_KIND, 1), (STORM_EYE_KIND, 2), (TICK_ASSET_KIND, 3)],
       ad_announcements = [], ad_renewal = None\<rparr>,
     nd_droplets = droplet_db_empty, nd_utxos = [], nd_cursors = [], nd_requests = request_db_empty,
     nd_votings = \<lparr>vd_requests = [], vd_approvals = []\<rparr>, nd_peers = [], nd_coordinator = None\<rparr>"

definition sync_rpc :: "bool \<Rightarrow> elements_rpc" where
  "sync_rpc lost =
     \<lparr>rc_network = Inr Liquid, rc_block_count = Inr 2, rc_block_hash = (\<lambda>h. Inr [of_nat (unat h)]),
      rc_block = (\<lambda>hash. if lost \<and> hash = [2] then Inl (- 1)
        else Inr \<lparr>bk_prev = map (\<lambda>b. b - 1) hash, bk_transactions = []\<rparr>),
      rc_transaction = (\<lambda>_. Inl (- 5)), rc_transaction_in = (\<lambda>_ _. Inl (- 5)), rc_confirmations = (\<lambda>_. Inl (- 5)),
      rc_txout = (\<lambda>_ _. Inr None), rc_mempool = Inr [], rc_spender = (\<lambda>_. Inr None),
      rc_scan = (\<lambda>_. Inr []), rc_send = (\<lambda>_. Inl (- 1))\<rparr>"

definition sync_env :: elements_env where
  "sync_env = toy_elements\<lparr>
     ee_decode_contract := (\<lambda>_. Some \<lparr>sd_storm_tree_root = [9], sd_rescue_height = 0, sd_rescue_script_hash = [8]\<rparr>)\<rparr>"

definition sync_cfg :: indexer_config where
  "sync_cfg = \<lparr>ic_env = sync_env, ic_lifetime = 10, ic_initial_members = [[5]]\<rparr>"

lemma sync_rpc_simps:
  "rc_network (sync_rpc lost) = Inr Liquid" "rc_block_count (sync_rpc lost) = Inr 2"
  "chain_hash (sync_rpc lost) h = Inr [of_nat (unat h)]"
  "rc_block (sync_rpc lost) hash = (if lost \<and> hash = [2] then Inl (- 1)
     else Inr \<lparr>bk_prev = map (\<lambda>b. b - 1) hash, bk_transactions = []\<rparr>)"
  by (simp_all add: sync_rpc_def chain_hash_def)

lemma sync_toy_prelude:
  "sync_prelude (sync_rpc lost) (nd_assets sync_db) =
     Inr (sync_asset STORM_EYE_KIND 2, sync_asset TICK_ASSET_KIND 3, sync_asset ORACLE_VERIFIER_KIND 1, Liquid, 2, [2])"
  by (simp add: sync_prelude_def sync_rpc_simps sync_db_def get_asset_def bt_get_def
      STORM_EYE_KIND_def TICK_ASSET_KIND_def ORACLE_VERIFIER_KIND_def)

lemma sync_toy_start:
  "start_replay (sync_rpc lost) 2 sync_db = (sync_db, Inr \<lparr>sn_db = sync_db,
     sn_storm_eye = sync_asset STORM_EYE_KIND 2, sn_issued_cursor = None, sn_droplets_cursor = None,
     sn_recovering = True, sn_locks = []\<rparr>)"
  by (simp add: start_replay_def sync_db_def blocks_descending_def bt_values_def set_recovering_def encode_u64_def
      reset_projections_def saved_locks_def transitions_descending_def get_asset_def bt_get_def droplet_db_empty_def
      reset_user_requests_def reset_votings_def bt_update_def request_db_empty_def
      STORM_EYE_KIND_def TICK_ASSET_KIND_def ORACLE_VERIFIER_KIND_def)

lemma sync_toy_begin:
  "begin_sync (sync_rpc lost) 2 eye [] sync_db flag = (sync_db, True, Inr \<lparr>sn_db = sync_db,
     sn_storm_eye = sync_asset STORM_EYE_KIND 2, sn_issued_cursor = None, sn_droplets_cursor = None,
     sn_recovering = True, sn_locks = []\<rparr>)"
proof -
  have "needs_replay (sync_rpc lost) 2 eye [] sync_db = Inr True"
    by (simp add: needs_replay_def sync_db_def blocks_descending_def bt_values_def cursor_def map_filter_def)
  then show ?thesis by (simp add: begin_sync_def sync_toy_start)
qed

definition sync_setup :: indexer_setup where
  "sync_setup = \<lparr>is_env = sync_env, is_network = Liquid, is_migrations = [],
     is_issued_assets = [sync_asset TICK_ASSET_KIND 3, sync_asset ORACLE_VERIFIER_KIND 1], is_issued_height = 1,
     is_treasury_script = ee_treasury_script sync_env [2] Liquid, is_lifetime = 10\<rparr>"

definition sync_toy_state :: "bytes option \<Rightarrow> sync_state" where
  "sync_toy_state previous = \<lparr>sy_db = sync_db, sy_storm_eye = sync_asset STORM_EYE_KIND 2, sy_droplets_height = Some 1,
     sy_members = [[5]], sy_previous = previous\<rparr>"

definition sync_content :: "block_content" where
  "sync_content = \<lparr>bc_block = \<lparr>cb_height = 1, cb_hash = [1], cb_parent_hash = [0]\<rparr>, bc_renewed = None,
     bc_migration = None, bc_migrated = None, bc_issued = Some ([], []), bc_treasury = Some []\<rparr>"

lemma sync_renewal: "indexed_storm_eye_renewal sync_env rpc [] (sync_asset STORM_EYE_KIND 2) network = Inr None"
proof -
  have "\<exists>renewed. renewed_storm_eye sync_env (sync_asset STORM_EYE_KIND 2) network = Inr renewed"
    by (simp add: renewed_storm_eye_def storm_eye_contract_data_def storm_eye_program_def sync_env_def sync_asset_def
        next_storm_eye_rescue_height_def sat_add_def RESCUE_BLOCKS_def Let_def)
  then show ?thesis by (auto simp: indexed_storm_eye_renewal_def)
qed

lemma sync_read: "read_block sync_setup (sync_rpc lost) 1 (sync_toy_state None) = Inr sync_content"
  by (simp add: read_block_def sync_setup_def sync_toy_state_def sync_rpc_simps require_parent_hash_def
      sync_renewal verify_initial_members_def treasury_transactions_def
      spent_monitored_outpoints_def sync_content_def)

lemma sync_store:
  "store_block sync_setup (sync_toy_state None) sync_content = Inr ((sync_toy_state (Some [1]))\<lparr>sy_db :=
     sync_db\<lparr>nd_blocks := [(1, \<lparr>cb_height = 1, cb_hash = [1], cb_parent_hash = [0]\<rparr>)],
       nd_cursors := [(DROPLETS_RULE_SET, \<lparr>ib_height = 1, ib_hash = [1]\<rparr>),
                      (ISSUED_UTXO_RULE_SET, \<lparr>ib_height = 1, ib_hash = [1]\<rparr>)]\<rparr>\<rparr>)"
proof -
  have u: "apply_utxo_block \<lparr>ib_height = 1, ib_hash = [1]\<rparr> [] [] 10 [] = Inr ([], 0)"
    by (simp add: apply_utxo_block_def encode_u64_def delete_spent_def expire_def revert_burns_def
        bt_update_def bt_affected_def)
  have rules: "DROPLETS_RULE_SET < ISSUED_UTXO_RULE_SET" "DROPLETS_RULE_SET \<noteq> ISSUED_UTXO_RULE_SET"
    by (simp_all add: DROPLETS_RULE_SET_def ISSUED_UTXO_RULE_SET_def less_char_def)
  have retained: "first_retained 1 = 0"
    by (simp add: first_retained_def CANONICAL_JOURNAL_RETENTION_BLOCKS_def sat_add_def sat_sub_def)
  show ?thesis
    by (simp add: store_block_def sync_content_def sync_toy_state_def apply_issued_def apply_treasury_def u
        sync_setup_def record_cursor_of_def record_cursor_def encode_u64_def apply_ledger_block_def
        record_block_def rules retained sync_db_def bt_values_def)
qed

lemma sync_index_1:
  "index_block sync_setup (sync_rpc lost) 1 (sync_toy_state None) = Inr ((sync_toy_state (Some [1]))\<lparr>sy_db :=
     sync_db\<lparr>nd_blocks := [(1, \<lparr>cb_height = 1, cb_hash = [1], cb_parent_hash = [0]\<rparr>)],
       nd_cursors := [(DROPLETS_RULE_SET, \<lparr>ib_height = 1, ib_hash = [1]\<rparr>),
                      (ISSUED_UTXO_RULE_SET, \<lparr>ib_height = 1, ib_hash = [1]\<rparr>)]\<rparr>\<rparr>)"
  by (simp add: index_block_def sync_read sync_store)

lemma sync_index_2: "index_block sync_setup (sync_rpc True) 2 st = Inl IndexerRpc"
  by (simp add: index_block_def read_block_def sync_rpc_simps Let_def)

lemma sync_heights: "heights_between 1 2 = [1, 2]"
  by (simp add: heights_between_def upt_rec)

definition sync_toy_start_state :: sync_start where
  "sync_toy_start_state = \<lparr>sn_db = sync_db, sn_storm_eye = sync_asset STORM_EYE_KIND 2, sn_issued_cursor = None,
     sn_droplets_cursor = None, sn_recovering = True, sn_locks = []\<rparr>"

lemma sync_toy_run:
  "\<exists>st. run_blocks sync_cfg Liquid (\<lambda>_. sync_rpc True) 2 (sync_asset TICK_ASSET_KIND 3)
      (sync_asset ORACLE_VERIFIER_KIND 1) [] sync_toy_start_state = ([1, 2], st, Some IndexerRpc)"
proof -
  have "ledger_halt sync_db = None" "na_created_at_block (sync_asset k i) = 1" "na_asset_id (sync_asset STORM_EYE_KIND 2) = [2]"
    for k i by (simp_all add: ledger_halt_def sync_db_def sync_asset_def)
  then show ?thesis
    using sync_index_1 [of True] sync_index_2
    by (simp add: run_blocks_def sync_toy_start_state_def after_cursor_def sync_heights members_before_def sync_cfg_def
        sync_setup_def sync_toy_state_def Let_def)
qed


text \<open>
  C26: Blocks are stored only on top of the block before: after every run of the loop, complete or broken
  off, every block of the journal names as its parent the hash of the journal's block before it, and the
  hash the next block will be checked against is that of the journal's tip.
\<close>

theorem journal_stays_linked:
  assumes "on_journal st" and "journal_below first (sy_db st)"
  shows "on_journal (fst (index_blocks setup at' (heights_between first tip) st))"
proof -
  have "first \<le> h" if "h \<in> set (heights_between first tip)" for h
  proof -
    from that obtain i where "h = of_nat i" "unat first \<le> i" "i \<le> unat tip" by (auto simp: heights_between_def)
    moreover have "i < 2 ^ 64" using \<open>i \<le> unat tip\<close> unsigned_less [of tip, where ?'a = nat] by simp
    ultimately show ?thesis by (simp add: word_le_nat_alt unat_of_nat)
  qed
  with assms(2) have "\<forall>h\<in>set (heights_between first tip). journal_below h (sy_db st)"
    by (force simp: journal_below_def intro: less_le_trans)
  with assms(1) heights_between_sorted show ?thesis by (rule index_blocks_journal)
qed

theorem journal_stays_linked_witness:
  "journal_linked (sy_db (fst (index_blocks sync_setup (\<lambda>_. sync_rpc True) (heights_between 1 2) (sync_toy_state None))))"
proof -
  have "on_journal (sync_toy_state None)" "journal_below 1 (sy_db (sync_toy_state None))"
    by (simp_all add: on_journal_def journal_linked_def journal_below_def sync_toy_state_def sync_db_def bt_values_def
        bt_keys_def chain_tip_of_def blocks_descending_def)
  from journal_stays_linked [OF this] show ?thesis by (simp add: on_journal_def)
qed



end
