(* ===== verification/Api_Error.thy ===== *)
theory Api_Error
  imports Request_Store Elements_Rpc
begin

text \<open>
  The answers of the external API (\<open>external_api/mod.rs\<close>): an error is a status and a message; the message
  of an internal error is never shown.
\<close>

datatype api_status =
  BadRequest | StatusUnauthorized | Forbidden | NotFound | Conflict | ServiceUnavailable | InternalServerError

record api_error =
  ae_status :: api_status
  ae_message :: string

definition bad_request :: "string \<Rightarrow> api_error" where
  "bad_request message = \<lparr>ae_status = BadRequest, ae_message = message\<rparr>"

definition unauthorized :: "string \<Rightarrow> api_error" where
  "unauthorized message = \<lparr>ae_status = StatusUnauthorized, ae_message = message\<rparr>"

definition not_found :: "string \<Rightarrow> api_error" where
  "not_found message = \<lparr>ae_status = NotFound, ae_message = message\<rparr>"

definition conflict :: "string \<Rightarrow> api_error" where
  "conflict message = \<lparr>ae_status = Conflict, ae_message = message\<rparr>"

definition unavailable :: "string \<Rightarrow> api_error" where
  "unavailable message = \<lparr>ae_status = ServiceUnavailable, ae_message = message\<rparr>"

definition internal :: "string \<Rightarrow> api_error" where
  "internal message = \<lparr>ae_status = InternalServerError, ae_message = ''internal server error''\<rparr>"

definition require_coordinator :: "bool \<Rightarrow> api_error + unit" where
  "require_coordinator is_coordinator =
     (if is_coordinator then Inr () else Inl (unavailable ''this node is not the coordinator''))"

text \<open>\<open>parse_hex_array::<N>\<close>: exactly N bytes in hexadecimal.\<close>

definition parse_hex_array :: "(string \<Rightarrow> bytes option) \<Rightarrow> nat \<Rightarrow> string \<Rightarrow> string \<Rightarrow> api_error + bytes" where
  "parse_hex_array decode n encoded name =
     (case decode encoded of
        None \<Rightarrow> Inl (bad_request (''invalid '' @ name))
      | Some data \<Rightarrow> if length data = n then Inr data else Inl (bad_request (''invalid '' @ name)))"

lemma parse_hex_array_Inr:
  "parse_hex_array decode n encoded name = Inr data \<longleftrightarrow> decode encoded = Some data \<and> length data = n"
  by (auto simp: parse_hex_array_def split: option.splits)

end
