(* ===== verification/Operator_Auth.thy ===== *)
theory Operator_Auth
  imports Api_Error
begin

text \<open>
  The authentication of node operators (\<open>external_api/operators/auth.rs\<close> with \<open>db/node_operator.rs\<close>):
  challenges that are exchanged for bearer tokens, and writes that are signed one by one under a nonce.
  Signatures, hexadecimal and JSON are parameters; random strings are arguments of the operations that
  draw them. The three tables are hash maps in the code, searched for at most one entry, so their order
  does not matter.
\<close>

definition CHALLENGE_TTL :: u64 where "CHALLENGE_TTL = 300"
definition TOKEN_TTL :: u64 where "TOKEN_TTL = 3600"
definition WRITE_WINDOW :: u64 where "WRITE_WINDOW = 300"
definition HUMID_ECDSA_SCHEME :: string where "HUMID_ECDSA_SCHEME = ''bitcoin-signed-message-ecdsa-v1''"
definition LIQUID_MAINNET_CHAIN_ID :: string where
  "LIQUID_MAINNET_CHAIN_ID = ''bip122:1466275836220db2944ca059a3a10ef6''"
definition LIQUID_TESTNET_CHAIN_ID :: string where
  "LIQUID_TESTNET_CHAIN_ID = ''bip122:a771da8e52ee6ad581ed1e9a99825e5b''"

datatype signature_scheme = Bip322V1 | HumidEcdsaV1

instantiation signature_scheme :: linorder
begin

definition less_eq_signature_scheme :: "signature_scheme \<Rightarrow> signature_scheme \<Rightarrow> bool" where
  "less_eq_signature_scheme a b = (a = Bip322V1 \<or> b = HumidEcdsaV1)"

definition less_signature_scheme :: "signature_scheme \<Rightarrow> signature_scheme \<Rightarrow> bool" where
  "less_signature_scheme a b = (a = Bip322V1 \<and> b = HumidEcdsaV1)"

instance
proof
  fix x y z :: signature_scheme
  show "x < y \<longleftrightarrow> x \<le> y \<and> \<not> y \<le> x"
    by (cases x; cases y) (simp_all add: less_eq_signature_scheme_def less_signature_scheme_def)
  show "x \<le> x" by (cases x) (simp_all add: less_eq_signature_scheme_def)
  show "x \<le> y \<Longrightarrow> y \<le> z \<Longrightarrow> x \<le> z"
    by (cases x; cases y; cases z) (simp_all add: less_eq_signature_scheme_def)
  show "x \<le> y \<Longrightarrow> y \<le> x \<Longrightarrow> x = y" by (cases x; cases y) (simp_all add: less_eq_signature_scheme_def)
  show "x \<le> y \<or> y \<le> x" by (cases x; cases y) (simp_all add: less_eq_signature_scheme_def)
qed

end

datatype auth_error =
  InvalidOperatorKey
| OperatorUnauthorized
| InvalidChallenge
| InvalidToken
| InvalidOperatorSignature
| InvalidSignatureScheme
| InvalidTimestamp
| InvalidNonce
| ReplayedNonce
| AuthClock
| AuthRandom
| AuthStore

definition auth_api_status :: "auth_error \<Rightarrow> api_status" where
  "auth_api_status e =
     (case e of
        InvalidOperatorKey \<Rightarrow> BadRequest | InvalidSignatureScheme \<Rightarrow> BadRequest | InvalidChallenge \<Rightarrow> BadRequest
      | InvalidTimestamp \<Rightarrow> BadRequest | InvalidNonce \<Rightarrow> BadRequest
      | OperatorUnauthorized \<Rightarrow> Forbidden | ReplayedNonce \<Rightarrow> Conflict
      | InvalidToken \<Rightarrow> StatusUnauthorized | InvalidOperatorSignature \<Rightarrow> StatusUnauthorized
      | AuthClock \<Rightarrow> InternalServerError | AuthRandom \<Rightarrow> InternalServerError | AuthStore \<Rightarrow> InternalServerError)"

definition auth_error_message :: "auth_error \<Rightarrow> string" where
  "auth_error_message e =
     (case e of
        InvalidOperatorKey \<Rightarrow> ''invalid operator public key''
      | OperatorUnauthorized \<Rightarrow> ''operator is not authorized''
      | InvalidChallenge \<Rightarrow> ''authentication challenge is invalid or expired''
      | InvalidToken \<Rightarrow> ''authentication token is invalid or expired''
      | InvalidOperatorSignature \<Rightarrow> ''operator signature is invalid''
      | InvalidSignatureScheme \<Rightarrow> ''signature scheme is invalid or unsupported''
      | InvalidTimestamp \<Rightarrow> ''signed request timestamp is outside the accepted window''
      | InvalidNonce \<Rightarrow> ''signed request nonce is invalid''
      | ReplayedNonce \<Rightarrow> ''signed request nonce has already been used''
      | AuthClock \<Rightarrow> ''system clock is before the Unix epoch''
      | AuthRandom \<Rightarrow> ''secure random generation failed''
      | AuthStore \<Rightarrow> ''persisted node operator public key has an invalid length'')"

definition auth_api_error :: "auth_error \<Rightarrow> api_error" where
  "auth_api_error e =
     (if auth_api_status e = InternalServerError then internal (auth_error_message e)
      else \<lparr>ae_status = auth_api_status e, ae_message = auth_error_message e\<rparr>)"

definition scheme_from_request :: "string option \<Rightarrow> auth_error + signature_scheme" where
  "scheme_from_request requested =
     (case requested of
        None \<Rightarrow> Inr Bip322V1
      | Some s \<Rightarrow> if s = HUMID_ECDSA_SCHEME then Inr HumidEcdsaV1 else Inl InvalidSignatureScheme)"

definition scheme_as_str :: "signature_scheme \<Rightarrow> string" where
  "scheme_as_str s = (case s of Bip322V1 \<Rightarrow> ''bip322-v1'' | HumidEcdsaV1 \<Rightarrow> HUMID_ECDSA_SCHEME)"

datatype auth_network = AuthLiquidV1 | AuthLiquidTestnet | AuthElementsRegtest

definition auth_network_from_chain :: "string \<Rightarrow> auth_network option" where
  "auth_network_from_chain chain =
     (if chain = ''liquidv1'' then Some AuthLiquidV1
      else if chain = ''liquidtestnet'' then Some AuthLiquidTestnet
      else if chain = ''elementsregtest'' then Some AuthElementsRegtest
      else None)"

definition caip2_chain_id :: "auth_network \<Rightarrow> string option" where
  "caip2_chain_id network =
     (case network of
        AuthLiquidV1 \<Rightarrow> Some LIQUID_MAINNET_CHAIN_ID
      | AuthLiquidTestnet \<Rightarrow> Some LIQUID_TESTNET_CHAIN_ID
      | AuthElementsRegtest \<Rightarrow> None)"

datatype operator_public_key = XOnlyKey bytes | CompressedKey bytes

record auth_env =
  au_hex_decode :: "string \<Rightarrow> bytes option"
  au_hex_encode :: "bytes \<Rightarrow> string"
  au_valid_x_only :: "bytes \<Rightarrow> bool"
  au_compressed :: "bytes \<Rightarrow> bytes option"
  au_x_only_of :: "bytes \<Rightarrow> bytes option"
  au_bip322 :: "auth_network \<Rightarrow> bytes \<Rightarrow> string \<Rightarrow> string \<Rightarrow> bool"
  au_message_hash :: "string \<Rightarrow> bytes"
  au_recover :: "bytes \<Rightarrow> u8 \<Rightarrow> bytes \<Rightarrow> bytes option"
  au_sha256 :: "bytes \<Rightarrow> bytes"
  au_pretty_json :: "bytes \<Rightarrow> string"

subsection \<open>The store of operators\<close>

type_synonym operator_db = "bytes list"

definition operator_add :: "bytes \<Rightarrow> operator_db \<Rightarrow> operator_db \<times> bool" where
  "operator_add key db = (if key \<in> set db then (db, False) else (insort key db, True))"

definition operator_remove :: "bytes \<Rightarrow> operator_db \<Rightarrow> operator_db \<times> bool" where
  "operator_remove key db = (removeAll key db, key \<in> set db)"

definition operator_contains :: "bytes \<Rightarrow> operator_db \<Rightarrow> bool" where
  "operator_contains key db = (key \<in> set db)"

fun operator_contains_xonly :: "auth_env \<Rightarrow> bytes \<Rightarrow> operator_db \<Rightarrow> auth_error + bool" where
  "operator_contains_xonly env key [] = Inr False"
| "operator_contains_xonly env key (stored # db) =
     bind_res (ok_or AuthStore (au_x_only_of env stored)) (\<lambda>x.
       if x = key then Inr True else operator_contains_xonly env key db)"

subsection \<open>Keys and signatures\<close>

definition parse_operator_key ::
  "auth_env \<Rightarrow> string \<Rightarrow> signature_scheme \<Rightarrow> auth_error + string \<times> operator_public_key" where
  "parse_operator_key env encoded scheme =
     bind_res (ok_or InvalidOperatorKey (au_hex_decode env encoded)) (\<lambda>data.
       case scheme of
         Bip322V1 \<Rightarrow>
           if length data = 32 \<and> au_valid_x_only env data then Inr (au_hex_encode env data, XOnlyKey data)
           else Inl InvalidOperatorKey
       | HumidEcdsaV1 \<Rightarrow>
           bind_res (ok_or InvalidOperatorKey (au_compressed env data)) (\<lambda>key.
             Inr (au_hex_encode env key, CompressedKey key)))"

definition require_operator :: "auth_env \<Rightarrow> operator_db \<Rightarrow> operator_public_key \<Rightarrow> auth_error + unit" where
  "require_operator env operators key =
     bind_res (case key of
                 XOnlyKey k \<Rightarrow> operator_contains_xonly env k operators
               | CompressedKey k \<Rightarrow> Inr (operator_contains k operators)) (\<lambda>authorized.
       if authorized then Inr () else Inl OperatorUnauthorized)"

definition verify_operator_signature ::
  "auth_env \<Rightarrow> operator_public_key \<Rightarrow> auth_network \<Rightarrow> string \<Rightarrow> string \<Rightarrow> auth_error + unit" where
  "verify_operator_signature env key network message signature =
     (case key of
        XOnlyKey k \<Rightarrow>
          if \<not> au_valid_x_only env k then Inl InvalidOperatorKey
          else if au_bip322 env network k message signature then Inr () else Inl InvalidOperatorSignature
      | CompressedKey k \<Rightarrow>
          bind_res (ok_or InvalidOperatorSignature (au_hex_decode env signature)) (\<lambda>data.
            if length data \<noteq> 65 then Inl InvalidOperatorSignature
            else bind_res (ok_or InvalidOperatorSignature
                   (au_recover env (take 64 data) (data ! 64) (au_message_hash env message))) (\<lambda>recovered.
              if recovered = k then Inr () else Inl InvalidOperatorSignature)))"

subsection \<open>Messages\<close>

definition challenge_message :: "signature_scheme \<Rightarrow> string \<Rightarrow> string \<Rightarrow> string" where
  "challenge_message scheme key nonce =
     (case scheme of
        Bip322V1 \<Rightarrow> ''high-storm:operator-auth:v1'' @ ''\<newline>'' @ key @ ''\<newline>'' @ nonce
      | HumidEcdsaV1 \<Rightarrow> ''high-storm:operator-auth:v2'' @ ''\<newline>'' @ scheme_as_str scheme @ ''\<newline>'' @ key @
          ''\<newline>'' @ nonce)"

text \<open>\<open>{}\<close> of an unsigned number, and \<open>to_ascii_uppercase\<close>.\<close>

function decimal :: "nat \<Rightarrow> string" where
  "decimal n = (if n < 10 then [char_of (48 + n)] else decimal (n div 10) @ [char_of (48 + n mod 10)])"
  by auto
termination by (relation "measure id") auto

declare decimal.simps [simp del]

definition ascii_upper :: "char \<Rightarrow> char" where
  "ascii_upper c = (let n = of_char c :: nat in if 97 \<le> n \<and> n \<le> 122 then char_of (n - 32) else c)"

definition write_message ::
  "auth_env \<Rightarrow> signature_scheme \<Rightarrow> string \<Rightarrow> string \<Rightarrow> u64 \<Rightarrow> string \<Rightarrow> bytes \<Rightarrow> string" where
  "write_message env scheme http_method path timestamp nonce payload =
     ''high-storm:operator-write:v3'' @ ''\<newline>'' @ ''Signature scheme: '' @ scheme_as_str scheme @
     ''\<newline>'' @ ''Method: '' @ map ascii_upper http_method @ ''\<newline>'' @ ''Path: '' @ path @
     ''\<newline>'' @ ''Timestamp (Unix seconds): '' @ decimal (unat timestamp) @ ''\<newline>'' @ ''Nonce: '' @ nonce @
     ''\<newline>'' @ ''Payload SHA-256: '' @ au_hex_encode env (au_sha256 env payload) @
     ''\<newline>'' @ ''\<newline>'' @ ''Payload JSON:'' @ ''\<newline>'' @ au_pretty_json env payload"

subsection \<open>The state\<close>

record expiring_operator =
  eo_public_key :: string
  eo_scheme :: signature_scheme
  eo_expires_at :: u64

type_synonym nonce_key = "string \<times> signature_scheme \<times> string"

record auth_state =
  as_challenges :: "(string, expiring_operator) btree"
  as_tokens :: "(string, expiring_operator) btree"
  as_nonces :: "(nonce_key, u64) btree"

definition auth_state_new :: auth_state where
  "auth_state_new = \<lparr>as_challenges = [], as_tokens = [], as_nonces = []\<rparr>"

definition auth_cleanup :: "u64 \<Rightarrow> auth_state \<Rightarrow> auth_state" where
  "auth_cleanup now st =
     \<lparr>as_challenges = filter (\<lambda>(_, v). now < eo_expires_at v) (as_challenges st),
      as_tokens = filter (\<lambda>(_, v). now < eo_expires_at v) (as_tokens st),
      as_nonces = filter (\<lambda>(_, expires_at). now < expires_at) (as_nonces st)\<rparr>"

definition issue_challenge ::
  "auth_env \<Rightarrow> operator_db \<Rightarrow> string \<Rightarrow> signature_scheme \<Rightarrow> u64 \<Rightarrow> string option \<Rightarrow> auth_state \<Rightarrow>
   auth_state \<times> (auth_error + string \<times> u64)" where
  "issue_challenge env operators encoded scheme now random st =
     (case bind_res (parse_operator_key env encoded scheme) (\<lambda>(key, parsed).
             bind_res (require_operator env operators parsed) (\<lambda>_.
             bind_res (ok_or AuthRandom random) (\<lambda>nonce. Inr (key, challenge_message scheme key nonce)))) of
        Inl e \<Rightarrow> (st, Inl e)
      | Inr (key, message) \<Rightarrow>
          (let st = auth_cleanup now st in
           case find (\<lambda>(_, c). eo_public_key c = key \<and> eo_scheme c = scheme) (as_challenges st) of
             Some (held, c) \<Rightarrow> (st, Inr (held, eo_expires_at c))
           | None \<Rightarrow>
               (st\<lparr>as_challenges := bt_insert message
                    \<lparr>eo_public_key = key, eo_scheme = scheme, eo_expires_at = now + CHALLENGE_TTL\<rparr> (as_challenges st)\<rparr>,
                Inr (message, now + CHALLENGE_TTL))))"

text \<open>
  The exchange of a challenge for a token looks at the table twice, before and after the signature is
  verified, and other requests may come in between: the two critical sections are two operations.
\<close>

definition check_challenge ::
  "string \<Rightarrow> string \<Rightarrow> signature_scheme \<Rightarrow> u64 \<Rightarrow> auth_state \<Rightarrow> auth_state \<times> (auth_error + unit)" where
  "check_challenge key message scheme now st =
     (let st = auth_cleanup now st in
      case bt_get (as_challenges st) message of
        None \<Rightarrow> (st, Inl InvalidChallenge)
      | Some c \<Rightarrow>
          if eo_public_key c \<noteq> key \<or> eo_scheme c \<noteq> scheme then (st, Inl InvalidChallenge) else (st, Inr ()))"

definition redeem_challenge ::
  "string \<Rightarrow> string \<Rightarrow> signature_scheme \<Rightarrow> u64 \<Rightarrow> string option \<Rightarrow> auth_state \<Rightarrow>
   auth_state \<times> (auth_error + string \<times> u64)" where
  "redeem_challenge key message scheme now random st =
     (case bt_get (as_challenges st) message of
        None \<Rightarrow> (st, Inl InvalidChallenge)
      | Some c \<Rightarrow>
          (let st = st\<lparr>as_challenges := bt_remove message (as_challenges st)\<rparr> in
           if eo_public_key c \<noteq> key \<or> eo_scheme c \<noteq> scheme \<or> eo_expires_at c \<le> now
           then (st, Inl InvalidChallenge)
           else
             (case random of
                None \<Rightarrow> (st, Inl AuthRandom)
              | Some token \<Rightarrow>
                  (st\<lparr>as_tokens := bt_insert token
                       \<lparr>eo_public_key = key, eo_scheme = scheme, eo_expires_at = now + TOKEN_TTL\<rparr> (as_tokens st)\<rparr>,
                   Inr (token, now + TOKEN_TTL)))))"

definition exchange_token ::
  "auth_env \<Rightarrow> auth_network \<Rightarrow> operator_db \<Rightarrow> string \<Rightarrow> string \<Rightarrow> string \<Rightarrow> signature_scheme \<Rightarrow> u64 \<Rightarrow> string option \<Rightarrow>
   auth_state \<Rightarrow> auth_state \<times> (auth_error + string \<times> u64)" where
  "exchange_token env network operators encoded message signature scheme now random st =
     (case bind_res (parse_operator_key env encoded scheme) (\<lambda>(key, parsed).
             bind_res (require_operator env operators parsed) (\<lambda>_. Inr (key, parsed))) of
        Inl e \<Rightarrow> (st, Inl e)
      | Inr (key, parsed) \<Rightarrow>
          (case check_challenge key message scheme now st of
             (st, Inl e) \<Rightarrow> (st, Inl e)
           | (st, Inr _) \<Rightarrow>
               (case verify_operator_signature env parsed network message signature of
                  Inl e \<Rightarrow> (st, Inl e)
                | Inr _ \<Rightarrow> redeem_challenge key message scheme now random st)))"

definition authenticate_token ::
  "auth_env \<Rightarrow> operator_db \<Rightarrow> string \<Rightarrow> u64 \<Rightarrow> auth_state \<Rightarrow> auth_state \<times> (auth_error + string)" where
  "authenticate_token env operators token now st =
     (let st = auth_cleanup now st in
      case bt_get (as_tokens st) token of
        None \<Rightarrow> (st, Inl InvalidToken)
      | Some t \<Rightarrow>
          (st, bind_res (parse_operator_key env (eo_public_key t) (eo_scheme t)) (\<lambda>(_, parsed).
                 bind_res (require_operator env operators parsed) (\<lambda>_. Inr (eo_public_key t)))))"

text \<open>
  A write: the nonce of the operator is recorded until no request with this timestamp can pass the
  window any more. The insertion comes first and replaces the expiry of a nonce that was used already.
\<close>

definition record_nonce :: "nonce_key \<Rightarrow> u64 \<Rightarrow> u64 \<Rightarrow> auth_state \<Rightarrow> auth_state \<times> bool" where
  "record_nonce key timestamp now st =
     (let st = auth_cleanup now st in
      (st\<lparr>as_nonces := bt_insert key (sat_add (sat_add timestamp WRITE_WINDOW) 1) (as_nonces st)\<rparr>,
       bt_get (as_nonces st) key \<noteq> None))"

definition check_write ::
  "auth_env \<Rightarrow> auth_network \<Rightarrow> operator_db \<Rightarrow> string \<Rightarrow> u64 \<Rightarrow> string \<Rightarrow> string \<Rightarrow> signature_scheme \<Rightarrow> string \<Rightarrow> string \<Rightarrow>
   bytes \<Rightarrow> u64 \<Rightarrow> auth_error + string" where
  "check_write env network operators encoded timestamp nonce signature scheme http_method path payload now =
     (if unat WRITE_WINDOW < nat \<bar>int (unat timestamp) - int (unat now)\<bar> then Inl InvalidTimestamp
      else if nonce = [] \<or> 128 < length nonce then Inl InvalidNonce
      else
        bind_res (parse_operator_key env encoded scheme) (\<lambda>(key, parsed).
        bind_res (require_operator env operators parsed) (\<lambda>_.
        bind_res (verify_operator_signature env parsed network
            (write_message env scheme http_method path timestamp nonce payload) signature) (\<lambda>_. Inr key))))"

definition verify_write ::
  "auth_env \<Rightarrow> auth_network \<Rightarrow> operator_db \<Rightarrow> string \<Rightarrow> u64 \<Rightarrow> string \<Rightarrow> string \<Rightarrow> signature_scheme \<Rightarrow> string \<Rightarrow> string \<Rightarrow>
   bytes \<Rightarrow> u64 \<Rightarrow> auth_state \<Rightarrow> auth_state \<times> (auth_error + string)" where
  "verify_write env network operators encoded timestamp nonce signature scheme http_method path payload now st =
     (case check_write env network operators encoded timestamp nonce signature scheme http_method path payload now of
        Inl e \<Rightarrow> (st, Inl e)
      | Inr key \<Rightarrow>
          (case record_nonce (key, scheme, nonce) timestamp now st of
             (st, replayed) \<Rightarrow> (st, if replayed then Inl ReplayedNonce else Inr key)))"

definition authenticate_bearer ::
  "auth_env \<Rightarrow> operator_db \<Rightarrow> string option \<Rightarrow> u64 \<Rightarrow> auth_state \<Rightarrow> auth_state \<times> (api_error + unit)" where
  "authenticate_bearer env operators header now st =
     (case Option.bind header (\<lambda>h. if take 7 h = ''Bearer '' then Some (drop 7 h) else None) of
        None \<Rightarrow> (st, Inl (unauthorized ''missing bearer token''))
      | Some token \<Rightarrow>
          (case authenticate_token env operators token now st of
             (st, r) \<Rightarrow> (st, bind_res (map_err auth_api_error r)
                               (\<lambda>_. Inr ()))))"

subsection \<open>Steps\<close>

text \<open>
  The steps of the service at times that never go back. A label names the nonces a step records.
\<close>

inductive auth_step :: "u64 \<Rightarrow> (nonce_key \<times> u64) option \<Rightarrow> auth_state \<Rightarrow> auth_state \<Rightarrow> bool" where
  challenge: "issue_challenge env operators encoded scheme now random st = (st', r) \<Longrightarrow> auth_step now None st st'"
| check: "check_challenge key message scheme now st = (st', c) \<Longrightarrow> auth_step now None st st'"
| redeem: "redeem_challenge key message scheme now random st = (st', t) \<Longrightarrow> auth_step now None st st'"
| token: "authenticate_token env operators token now st = (st', k) \<Longrightarrow> auth_step now None st st'"
| refused: "check_write env network operators encoded timestamp nonce signature scheme http_method path payload now = Inl e \<Longrightarrow>
    auth_step now None st st"
| written: "check_write env network operators encoded timestamp nonce signature scheme http_method path payload now = Inr key \<Longrightarrow>
    record_nonce (key, scheme, nonce) timestamp now st = (st', replayed) \<Longrightarrow>
    auth_step now (Some ((key, scheme, nonce), timestamp)) st st'"

inductive auth_run :: "u64 \<Rightarrow> auth_state \<Rightarrow> (nonce_key \<times> u64) list \<Rightarrow> u64 \<Rightarrow> auth_state \<Rightarrow> bool" where
  stop: "auth_run now st [] now st"
| step: "auth_run now st used now1 st1 \<Longrightarrow> now1 \<le> now2 \<Longrightarrow> auth_step now2 label st1 st2 \<Longrightarrow>
    auth_run now st (used @ (case label of None \<Rightarrow> [] | Some l \<Rightarrow> [l])) now2 st2"

text \<open>What keeps a nonce from being accepted again: an entry that outlives the window of the request.\<close>

definition nonce_guarded :: "nonce_key \<Rightarrow> u64 \<Rightarrow> u64 \<Rightarrow> auth_state \<Rightarrow> bool" where
  "nonce_guarded key timestamp now st \<longleftrightarrow>
     unat timestamp + 300 < unat now \<or>
     (\<exists>e. bt_get (as_nonces st) key = Some e \<and> unat timestamp + 300 < unat e)"

lemma bt_get_cleanup_nonces:
  "bt_wf (as_nonces st) \<Longrightarrow> bt_get (as_nonces (auth_cleanup now st)) key =
     (case bt_get (as_nonces st) key of Some e \<Rightarrow> if now < e then Some e else None | None \<Rightarrow> None)"
  by (simp add: auth_cleanup_def bt_get_filter_value)

lemma cleanup_guarded:
  assumes "nonce_guarded key timestamp now1 st" "now1 \<le> now2" "bt_wf (as_nonces st)"
  shows "nonce_guarded key timestamp now2 (auth_cleanup now2 st)"
  using assms by (auto simp: nonce_guarded_def bt_get_cleanup_nonces word_le_nat_alt word_less_nat_alt)

lemma cleanup_wf: "bt_wf (as_nonces st) \<Longrightarrow> bt_wf (as_nonces (auth_cleanup now st))"
  by (simp add: auth_cleanup_def bt_wf_filter)

lemma auth_step_nonces:
  assumes "auth_step now label st st'" "bt_wf (as_nonces st)"
  shows "bt_wf (as_nonces st') \<and>
    (as_nonces st' = as_nonces st \<and> label = None \<or> as_nonces st' = as_nonces (auth_cleanup now st) \<and> label = None \<or>
     (\<exists>k t. label = Some (k, t) \<and>
        as_nonces st' = bt_insert k (sat_add (sat_add t WRITE_WINDOW) 1) (as_nonces (auth_cleanup now st))))"
  using assms
proof (induction rule: auth_step.induct)
  case challenge
  then show ?case
    by (auto simp: issue_challenge_def Let_def cleanup_wf split: sum.splits option.splits)
next
  case check
  then show ?case
    by (auto simp: check_challenge_def Let_def cleanup_wf split: option.splits if_splits)
next
  case redeem
  then show ?case by (auto simp: redeem_challenge_def Let_def split: option.splits if_splits)
next
  case token
  then show ?case by (auto simp: authenticate_token_def Let_def cleanup_wf split: option.splits)
next
  case refused
  then show ?case by simp
next
  case written
  then show ?case by (auto simp: record_nonce_def Let_def cleanup_wf bt_insert_wf)
qed

lemma guard_recorded:
  assumes "unat t + 301 < 2 ^ 64" "unat t \<le> unat (t' :: u64)"
  shows "unat t + 300 < unat (sat_add (sat_add t' WRITE_WINDOW) 1)"
  using assms by (simp add: unat_sat_add WRITE_WINDOW_def)

lemma auth_run_guarded:
  assumes "auth_run now st used now' st'" "bt_wf (as_nonces st)" "nonce_guarded key t now st"
    and "unat t + 301 < 2 ^ 64" "\<forall>t'. (key, t') \<in> set used \<longrightarrow> t \<le> t'"
  shows "bt_wf (as_nonces st') \<and> nonce_guarded key t now' st'"
  using assms
proof (induction rule: auth_run.induct)
  case (step now st used now1 st1 now2 label st2)
  then have wf: "bt_wf (as_nonces st1)" and guarded: "nonce_guarded key t now1 st1" by auto
  have clean: "nonce_guarded key t now2 (auth_cleanup now2 st1)"
    using guarded step.hyps(2) wf by (rule cleanup_guarded)
  have keep: "nonce_guarded key t now2 st1"
    using guarded step.hyps(2) by (auto simp: nonce_guarded_def word_le_nat_alt)
  have "nonce_guarded key t now2 st2"
    using auth_step_nonces [OF step.hyps(3) wf]
  proof (elim conjE disjE exE)
    fix k t' assume l: "label = Some (k, t')"
      and n: "as_nonces st2 = bt_insert k (sat_add (sat_add t' WRITE_WINDOW) 1) (as_nonces (auth_cleanup now2 st1))"
    show ?thesis
    proof (cases "k = key")
      case True
      then have "unat t \<le> unat t'" using step.prems(4) l by (simp add: word_le_nat_alt)
      from guard_recorded [OF step.prems(3) this] show ?thesis
        by (simp add: nonce_guarded_def n True bt_get_insert)
    qed (use clean in \<open>simp add: nonce_guarded_def n bt_get_insert\<close>)
  qed (use clean keep in \<open>simp_all add: nonce_guarded_def\<close>)
  then show ?case using auth_step_nonces [OF step.hyps(3) wf] by blast
qed simp

lemma guarded_refused:
  assumes "nonce_guarded (key, scheme, nonce) t now st" "now \<le> now'" "bt_wf (as_nonces st)" "unat t + 301 < 2 ^ 64"
  shows "snd (verify_write env network operators encoded t nonce signature scheme http_method path payload now' st) \<noteq> Inr key"
proof -
  have "unat t + 300 < unat now' \<or> (\<exists>e. bt_get (as_nonces (auth_cleanup now' st)) (key, scheme, nonce) = Some e)"
    using cleanup_guarded [OF assms(1-3)] by (auto simp: nonce_guarded_def)
  then show ?thesis
  proof
    assume "unat t + 300 < unat now'"
    then have "unat WRITE_WINDOW < nat \<bar>int (unat t) - int (unat now')\<bar>"
      unfolding WRITE_WINDOW_def by (simp del: of_nat_unat)
    then show ?thesis by (simp add: verify_write_def check_write_def del: of_nat_unat)
  qed (auto simp: verify_write_def record_nonce_def Let_def split: sum.splits)
qed

text \<open>
  C28: A signed write is accepted once. After the service has accepted a write of an operator under a
  nonce, no request with that nonce and timestamp is accepted for this operator again, whatever it says
  and whatever happens in between, as long as the clock does not go back and nothing the operator signed
  under the same nonce is older than the accepted request.
\<close>

theorem write_not_replayed:
  assumes accepted: "verify_write env network operators encoded t nonce signature scheme http_method path payload now st
      = (st1, Inr key)"
    and later: "auth_run now st1 used now2 st2" "now2 \<le> now3"
    and fresh: "\<forall>t'. ((key, scheme, nonce), t') \<in> set used \<longrightarrow> t \<le> t'"
    and state: "bt_wf (as_nonces st)" "unat t + 301 < 2 ^ 64"
  shows "snd (verify_write env' network' operators' encoded' t nonce signature' scheme http_method' path' payload' now3 st2)
    \<noteq> Inr key"
proof -
  have r: "record_nonce (key, scheme, nonce) t now st = (st1, False)"
    using accepted by (auto simp: verify_write_def split: sum.splits prod.splits if_splits)
  then have n: "as_nonces st1 = bt_insert (key, scheme, nonce) (sat_add (sat_add t WRITE_WINDOW) 1) (as_nonces (auth_cleanup now st))"
    by (auto simp: record_nonce_def Let_def)
  have "nonce_guarded (key, scheme, nonce) t now st1"
    using guard_recorded [OF state(2) order_refl] by (simp add: nonce_guarded_def n bt_get_insert)
  moreover have "bt_wf (as_nonces st1)" using state(1) by (simp add: n bt_insert_wf cleanup_wf)
  ultimately have "bt_wf (as_nonces st2) \<and> nonce_guarded (key, scheme, nonce) t now2 st2"
    using auth_run_guarded [OF later(1)] state(2) fresh by blast
  then show ?thesis using guarded_refused [OF _ later(2) _ state(2)] by blast
qed

subsection \<open>A witness, and a nonce that is used twice\<close>

definition toy_auth :: auth_env where
  "toy_auth = \<lparr>au_hex_decode = (\<lambda>s. if s = ''key'' then Some (replicate 32 1) else None),
     au_hex_encode = (\<lambda>b. if b = replicate 32 1 then ''key'' else []), au_valid_x_only = (\<lambda>_. True),
     au_compressed = (\<lambda>_. None), au_x_only_of = (\<lambda>b. Some (tl b)), au_bip322 = (\<lambda>_ _ _ s. s = ''ok''),
     au_message_hash = (\<lambda>_. []), au_recover = (\<lambda>_ _ _. None), au_sha256 = (\<lambda>b. b), au_pretty_json = (\<lambda>_. [])\<rparr>"

definition toy_nonces :: "u64 \<Rightarrow> auth_state" where
  "toy_nonces e = \<lparr>as_challenges = [], as_tokens = [], as_nonces = [((''key'', Bip322V1, ''N''), e)]\<rparr>"

lemma toy_check:
  "check_write toy_auth network [2 # replicate 32 1] ''key'' t ''N'' ''ok'' Bip322V1 http_method path payload now =
     (if unat WRITE_WINDOW < nat \<bar>int (unat t) - int (unat now)\<bar> then Inl InvalidTimestamp else Inr ''key'')"
  by (simp add: check_write_def toy_auth_def parse_operator_key_def require_operator_def verify_operator_signature_def
      del: of_nat_unat)

lemma toy_write:
  "\<lbrakk>\<not> unat WRITE_WINDOW < nat \<bar>int (unat t) - int (unat now)\<bar>\<rbrakk> \<Longrightarrow>
   verify_write toy_auth network [2 # replicate 32 1] ''key'' t ''N'' ''ok'' Bip322V1 http_method path payload now st =
     (let (st', replayed) = record_nonce (''key'', Bip322V1, ''N'') t now st
      in (st', if replayed then Inl ReplayedNonce else Inr ''key''))"
  by (simp add: verify_write_def toy_check split_def Let_def del: of_nat_unat)

theorem write_not_replayed_witness:
  "snd (verify_write toy_auth AuthLiquidV1 [2 # replicate 32 1] ''key'' 1000 ''N'' ''ok'' Bip322V1 ''POST'' ''/'' [] 1010
      (toy_nonces 1301)) \<noteq> Inr ''key''"
proof (rule write_not_replayed)
  show "verify_write toy_auth AuthLiquidV1 [2 # replicate 32 1] ''key'' 1000 ''N'' ''ok'' Bip322V1 ''POST'' ''/'' [] 1000
      auth_state_new = (toy_nonces 1301, Inr ''key'')"
    by (subst toy_write) (simp_all add: record_nonce_def auth_cleanup_def auth_state_new_def toy_nonces_def
        WRITE_WINDOW_def sat_add_def Let_def)
  show "auth_run 1000 (toy_nonces 1301) [] 1000 (toy_nonces 1301)" by (rule auth_run.stop)
qed (simp_all add: auth_state_new_def)

text \<open>
  Without the condition on older requests the protection fails: a write under a used nonce with an
  older timestamp is refused as a replay, but it shortens the life of the nonce, and once that is over
  the first write is accepted a second time.
\<close>

lemma reused_nonce_reopens_write:
  "\<exists>st1 st2 st3.
     verify_write toy_auth AuthLiquidV1 [2 # replicate 32 1] ''key'' 1000 ''N'' ''ok'' Bip322V1 ''POST'' ''/'' [] 1000
       auth_state_new = (st1, Inr ''key'') \<and>
     verify_write toy_auth AuthLiquidV1 [2 # replicate 32 1] ''key'' 700 ''N'' ''ok'' Bip322V1 ''POST'' ''/'' [] 1000
       st1 = (st2, Inl ReplayedNonce) \<and>
     verify_write toy_auth AuthLiquidV1 [2 # replicate 32 1] ''key'' 1000 ''N'' ''ok'' Bip322V1 ''POST'' ''/'' [] 1100
       st2 = (st3, Inr ''key'')"
proof (intro exI conjI)
  show "verify_write toy_auth AuthLiquidV1 [2 # replicate 32 1] ''key'' 1000 ''N'' ''ok'' Bip322V1 ''POST'' ''/'' [] 1000
      auth_state_new = (toy_nonces 1301, Inr ''key'')"
    by (subst toy_write) (simp_all add: record_nonce_def auth_cleanup_def auth_state_new_def toy_nonces_def
        WRITE_WINDOW_def sat_add_def Let_def)
  show "verify_write toy_auth AuthLiquidV1 [2 # replicate 32 1] ''key'' 700 ''N'' ''ok'' Bip322V1 ''POST'' ''/'' [] 1000
      (toy_nonces 1301) = (toy_nonces 1001, Inl ReplayedNonce)"
    by (subst toy_write) (simp_all add: record_nonce_def auth_cleanup_def toy_nonces_def bt_get_def
        WRITE_WINDOW_def sat_add_def Let_def)
  show "verify_write toy_auth AuthLiquidV1 [2 # replicate 32 1] ''key'' 1000 ''N'' ''ok'' Bip322V1 ''POST'' ''/'' [] 1100
      (toy_nonces 1001) = (toy_nonces 1301, Inr ''key'')"
    by (subst toy_write) (simp_all add: record_nonce_def auth_cleanup_def toy_nonces_def
        WRITE_WINDOW_def sat_add_def Let_def)
qed

text \<open>
  C29: A bearer token is issued only to an authorised operator for a challenge that was issued to
  that operator under that scheme and has not expired, against a valid signature of the challenge, and the
  challenge is used up: the same exchange fails afterwards.
\<close>

theorem token_needs_signed_challenge:
  assumes "exchange_token env network operators encoded message signature scheme now random st = (st', Inr (token, expires))"
  shows "\<exists>key parsed c. parse_operator_key env encoded scheme = Inr (key, parsed) \<and>
    require_operator env operators parsed = Inr () \<and>
    verify_operator_signature env parsed network message signature = Inr () \<and>
    bt_get (as_challenges (auth_cleanup now st)) message = Some c \<and> eo_public_key c = key \<and> eo_scheme c = scheme \<and>
    now < eo_expires_at c \<and>
    bt_get (as_tokens st') token = Some \<lparr>eo_public_key = key, eo_scheme = scheme, eo_expires_at = now + TOKEN_TTL\<rparr> \<and>
    (\<forall>now' random'. snd (exchange_token env network operators encoded message signature scheme now' random' st') =
       Inl InvalidChallenge)"
proof -
  from assms obtain key parsed c st1 where k: "parse_operator_key env encoded scheme = Inr (key, parsed)"
      "require_operator env operators parsed = Inr ()"
      "verify_operator_signature env parsed network message signature = Inr ()"
    and st1: "st1 = auth_cleanup now st" and c: "bt_get (as_challenges st1) message = Some c" "eo_public_key c = key"
      "eo_scheme c = scheme"
    and r: "redeem_challenge key message scheme now random st1 = (st', Inr (token, expires))"
    by (auto simp: exchange_token_def check_challenge_def Let_def bind_res_eq_Inr bind_res_eq_Inl
        split: sum.splits prod.splits option.splits if_splits)
  from r c obtain nonce where st': "now < eo_expires_at c" "random = Some token"
      "as_challenges st' = bt_remove message (as_challenges st1)"
      "as_tokens st' = bt_insert token \<lparr>eo_public_key = key, eo_scheme = scheme, eo_expires_at = now + TOKEN_TTL\<rparr> (as_tokens st1)"
    by (auto simp: redeem_challenge_def Let_def split: option.splits if_splits)
  have "bt_get (as_challenges (auth_cleanup now' st')) message = None" for now'
    using bt_get_remove [of message "as_challenges st1"]
    by (auto simp: auth_cleanup_def st'(3) bt_get_None_iff bt_keys_def bt_remove_def)
  then have "snd (exchange_token env network operators encoded message signature scheme now' random' st') = Inl InvalidChallenge"
    for now' random'
    by (simp add: exchange_token_def k check_challenge_def Let_def)
  with k c st1 st' show ?thesis by (auto simp: bt_get_insert)
qed

theorem token_needs_signed_challenge_witness:
  "\<exists>st'. exchange_token toy_auth AuthLiquidV1 [2 # replicate 32 1] ''key'' ''M'' ''ok'' Bip322V1 10 (Some ''T'')
       \<lparr>as_challenges = [(''M'', \<lparr>eo_public_key = ''key'', eo_scheme = Bip322V1, eo_expires_at = 20\<rparr>)],
        as_tokens = [], as_nonces = []\<rparr> = (st', Inr (''T'', 3610)) \<and>
     snd (exchange_token toy_auth AuthLiquidV1 [2 # replicate 32 1] ''key'' ''M'' ''ok'' Bip322V1 11 (Some ''U'') st') =
       Inl InvalidChallenge"
proof -
  let ?st = "\<lparr>as_challenges = [(''M'', \<lparr>eo_public_key = ''key'', eo_scheme = Bip322V1, eo_expires_at = 20\<rparr>)],
        as_tokens = [], as_nonces = []\<rparr>"
  let ?st' = "\<lparr>as_challenges = [], as_tokens = [(''T'', \<lparr>eo_public_key = ''key'', eo_scheme = Bip322V1,
      eo_expires_at = 3610\<rparr>)], as_nonces = []\<rparr>"
  have "exchange_token toy_auth AuthLiquidV1 [2 # replicate 32 1] ''key'' ''M'' ''ok'' Bip322V1 10 (Some ''T'') ?st =
      (?st', Inr (''T'', 3610))"
    by (simp add: exchange_token_def toy_auth_def parse_operator_key_def require_operator_def check_challenge_def
        verify_operator_signature_def redeem_challenge_def auth_cleanup_def bt_get_def bt_remove_def TOKEN_TTL_def)
  from this token_needs_signed_challenge [OF this] show ?thesis by blast
qed

end
