(* ===== verification/Users_Api.thy ===== *)
theory Users_Api
  imports Operator_Auth Script_Markers Fee_Utxo Prices_Node
begin

text \<open>
  The API of the users (\<open>external_api/users.rs\<close>): what the network is, and the requests users sign. The
  same checks run again on every signer of a round, on the encoded request. JSON, hexadecimal and the
  signature schemes are parameters; a Rust string is the list of its bytes.
\<close>

definition USER_REQUEST_TAG :: string where "USER_REQUEST_TAG = ''OracleNetworkV1/NetworkUserRequests''"
definition HUMID_USER_SIGNATURE_SCHEME :: string where
  "HUMID_USER_SIGNATURE_SCHEME = ''bitcoin-signed-message-ecdsa-v1''"
definition TICK_REQUEST_KIND :: string where "TICK_REQUEST_KIND = ''tick-utxo''"
definition PRICE_REQUEST_KIND :: string where "PRICE_REQUEST_KIND = ''signed-price-data''"
definition MAX_REQUESTS_PER_BATCH :: nat where "MAX_REQUESTS_PER_BATCH = 100"
definition MAX_FEE_UTXOS_PER_BATCH :: nat where "MAX_FEE_UTXOS_PER_BATCH = 100"
definition MAX_PAYLOAD_BYTES :: nat where "MAX_PAYLOAD_BYTES = 64 * 1024"

record user_request =
  uq_kind :: string
  uq_payload :: string

record user_request_header =
  uh_signature :: string
  uh_public_key :: string
  uh_fee_utxos :: "string list"
  uh_signature_scheme :: "string option"
  uh_signing_public_key :: "string option"

record network_user_requests =
  nu_header :: user_request_header
  nu_requests :: "user_request list"

record tick_utxo_request_details =
  td_auth_method :: utxo_auth_method
  td_price_feed_id :: "feed_id option"

record users_env =
  us_hex_decode :: "string \<Rightarrow> bytes option"
  us_hex_encode :: "bytes \<Rightarrow> string"
  us_valid_x_only :: "bytes \<Rightarrow> bool"
  us_valid_public_key :: "bytes \<Rightarrow> bool"
  us_x_only :: "bytes \<Rightarrow> bytes"
  us_from_json :: "bytes \<Rightarrow> string + network_user_requests"
  us_to_json :: "network_user_requests \<Rightarrow> bytes"
  us_details_json :: "string \<Rightarrow> string + tick_utxo_request_details"
  us_body_json :: "string \<Rightarrow> string option \<Rightarrow> string list \<Rightarrow> user_request list \<Rightarrow> string"
  us_message_hash :: "string \<Rightarrow> bytes"
  us_compact :: "bytes \<Rightarrow> u8 \<Rightarrow> bool"
  us_recover :: "bytes \<Rightarrow> u8 \<Rightarrow> bytes \<Rightarrow> bytes option"
  us_schnorr :: "bytes \<Rightarrow> bytes \<Rightarrow> bytes \<Rightarrow> bool"
  us_sha256 :: "bytes \<Rightarrow> bytes"
  us_show_fee_error :: "fee_utxo_error \<Rightarrow> string"

definition quoted :: "string \<Rightarrow> string" where
  "quoted s = [CHR 0x27] @ s @ [CHR 0x27]"

definition hex_array :: "users_env \<Rightarrow> nat \<Rightarrow> string \<Rightarrow> string \<Rightarrow> api_error + bytes" where
  "hex_array env n encoded name = parse_hex_array (us_hex_decode env) n encoded name"

definition parse_u32 :: "string \<Rightarrow> u32 option" where
  "parse_u32 s =
     (case parse_nat (if take 1 s = ''+'' then drop 1 s else s) of
        None \<Rightarrow> None
      | Some n \<Rightarrow> if n < 2 ^ 32 then Some (of_nat n) else None)"

subsection \<open>What a request says\<close>

definition parse_fee_utxo :: "users_env \<Rightarrow> string \<Rightarrow> api_error + outpoint" where
  "parse_fee_utxo env utxo =
     (let invalid = bad_request (''invalid fee UTXO '' @ quoted utxo)
      in bind_res (ok_or invalid (split_once (\<lambda>c. c = CHR '':'') utxo)) (\<lambda>(txid, output_index).
         bind_res (hex_array env 32 txid ''fee UTXO transaction id'') (\<lambda>txid.
         bind_res (ok_or invalid (parse_u32 output_index)) (\<lambda>output_index.
           Inr (txid, output_index)))))"

fun parse_fee_utxos_from :: "users_env \<Rightarrow> string list \<Rightarrow> outpoint list \<Rightarrow> api_error + outpoint list" where
  "parse_fee_utxos_from env [] parsed = Inr parsed"
| "parse_fee_utxos_from env (utxo # utxos) parsed =
     bind_res (parse_fee_utxo env utxo) (\<lambda>fee_utxo.
       if fee_utxo \<in> set parsed then Inl (bad_request (''duplicate fee UTXO '' @ quoted utxo))
       else parse_fee_utxos_from env utxos (parsed @ [fee_utxo]))"

definition parse_fee_utxos :: "users_env \<Rightarrow> string list \<Rightarrow> api_error + outpoint list" where
  "parse_fee_utxos env fee_utxos =
     (if fee_utxos = [] then Inl (bad_request ''at least one fee UTXO is required'')
      else if MAX_FEE_UTXOS_PER_BATCH < length fee_utxos
      then Inl (bad_request ''a batch cannot contain more than 100 fee UTXOs'')
      else parse_fee_utxos_from env fee_utxos [])"

definition validate_auth_method :: "users_env \<Rightarrow> utxo_auth_method \<Rightarrow> api_error + unit" where
  "validate_auth_method env m =
     (if am_kind m = ''asset-id-auth'' then
        bind_res (hex_array env 32 (am_auth_data m) ''authentication asset id'') (\<lambda>_. Inr ())
      else if am_kind m = ''scriptPubKey-auth'' then
        bind_res (ok_or (bad_request ''invalid authentication scriptPubKey'') (us_hex_decode env (am_auth_data m)))
          (\<lambda>script. if script = [] then Inl (bad_request ''authentication scriptPubKey cannot be empty'') else Inr ())
      else if am_kind m = ''signature-auth'' then
        bind_res (hex_array env 32 (am_auth_data m) ''authentication x-only public key'') (\<lambda>key.
          if us_valid_x_only env key then Inr ()
          else Inl (bad_request ''invalid authentication x-only public key''))
      else Inl (bad_request (''unknown UTXO authentication kind '' @ quoted (am_kind m))))"

text \<open>The feed is shown by its decimal id.\<close>

definition validate_user_request :: "users_env \<Rightarrow> user_request \<Rightarrow> api_error + feed_id option" where
  "validate_user_request env request =
     (let kind = uq_kind request in
      if kind \<noteq> TICK_REQUEST_KIND \<and> kind \<noteq> PRICE_REQUEST_KIND
      then Inl (bad_request (''unknown user request kind '' @ quoted kind))
      else if MAX_PAYLOAD_BYTES < length (uq_payload request)
      then Inl (bad_request ''request payload cannot exceed 65536 bytes'')
      else
        bind_res (map_err (\<lambda>e. bad_request (''invalid '' @ kind @ '' payload: '' @ e))
                    (us_details_json env (uq_payload request))) (\<lambda>details.
        bind_res (validate_auth_method env (td_auth_method details)) (\<lambda>_.
          case td_price_feed_id details of
            None \<Rightarrow>
              if kind = TICK_REQUEST_KIND then Inr None
              else Inl (bad_request ''a signed-price-data request must name a price feed'')
          | Some feed \<Rightarrow>
              if kind = TICK_REQUEST_KIND then Inl (bad_request ''a tick-utxo request cannot name a price feed'')
              else if registry_get default_registry feed = None
              then Inl (bad_request (''unknown price feed '' @ quoted (decimal (unat feed))))
              else Inr (Some feed))))"

subsection \<open>Signatures\<close>

definition humid_signing_message :: "users_env \<Rightarrow> network_user_requests \<Rightarrow> string" where
  "humid_signing_message env request =
     USER_REQUEST_TAG @ ''\<newline>'' @ HUMID_USER_SIGNATURE_SCHEME @ ''\<newline>'' @
     us_body_json env (uh_public_key (nu_header request)) (uh_signing_public_key (nu_header request))
       (uh_fee_utxos (nu_header request)) (nu_requests request)"

definition user_signing_hash :: "users_env \<Rightarrow> network_user_requests \<Rightarrow> bytes" where
  "user_signing_hash env request =
     tagged_hash (us_sha256 env) USER_REQUEST_TAG
       (map of_char (concat (map uq_payload (nu_requests request)) @ concat (uh_fee_utxos (nu_header request))))"

definition verify_humid_signature :: "users_env \<Rightarrow> network_user_requests \<Rightarrow> bytes \<Rightarrow> string \<Rightarrow> api_error + unit" where
  "verify_humid_signature env request public_key scheme =
     (if scheme \<noteq> HUMID_USER_SIGNATURE_SCHEME then Inl (bad_request ''unsupported user signature scheme'')
      else
        bind_res (ok_or (bad_request ''signing public key is required'')
                    (uh_signing_public_key (nu_header request))) (\<lambda>encoded_key.
        bind_res (hex_array env 33 encoded_key ''signing public key'') (\<lambda>signing_key.
          if \<not> us_valid_public_key env signing_key then Inl (bad_request ''invalid signing public key'')
          else if us_x_only env signing_key \<noteq> public_key
          then Inl (unauthorized ''signing key does not own the oracle account'')
          else
            bind_res (hex_array env 65 (uh_signature (nu_header request)) ''user signature'') (\<lambda>signature.
              if \<not> us_compact env (take 64 signature) (signature ! 64)
              then Inl (unauthorized ''invalid user signature'')
              else
                bind_res (ok_or (unauthorized ''user signature is invalid'')
                            (us_recover env (take 64 signature) (signature ! 64)
                              (us_message_hash env (humid_signing_message env request)))) (\<lambda>recovered.
                  if recovered = signing_key then Inr () else Inl (unauthorized ''user signature is invalid''))))))"

definition verify_user_signature :: "users_env \<Rightarrow> network_user_requests \<Rightarrow> api_error + unit" where
  "verify_user_signature env request =
     bind_res (hex_array env 32 (uh_public_key (nu_header request)) ''user public key'') (\<lambda>public_key.
       if \<not> us_valid_x_only env public_key then Inl (bad_request ''invalid user public key'')
       else
         case uh_signature_scheme (nu_header request) of
           Some scheme \<Rightarrow> verify_humid_signature env request public_key scheme
         | None \<Rightarrow>
             if uh_signing_public_key (nu_header request) \<noteq> None
             then Inl (bad_request ''signing public key requires a signature scheme'')
             else
               bind_res (hex_array env 64 (uh_signature (nu_header request)) ''user signature'') (\<lambda>signature.
                 if us_schnorr env signature (user_signing_hash env request) public_key then Inr ()
                 else Inl (unauthorized ''user signature is invalid'')))"

subsection \<open>Batches\<close>

fun instructed_feed ::
  "users_env \<Rightarrow> user_request list \<Rightarrow> feed_id option \<Rightarrow> api_error + feed_id option" where
  "instructed_feed env [] instructed = Inr instructed"
| "instructed_feed env (r # rs) instructed =
     bind_res (validate_user_request env r) (\<lambda>named.
       case named of
         None \<Rightarrow> instructed_feed env rs instructed
       | Some feed \<Rightarrow>
           if instructed \<noteq> None \<and> instructed \<noteq> Some feed
           then Inl (bad_request ''a batch cannot name more than one price feed'')
           else instructed_feed env rs (Some feed))"

definition validate_batch ::
  "users_env \<Rightarrow> network_user_requests \<Rightarrow> api_error + outpoint list \<times> feed_id option" where
  "validate_batch env request =
     (if nu_requests request = [] then Inl (bad_request ''at least one user request is required'')
      else if MAX_REQUESTS_PER_BATCH < length (nu_requests request)
      then Inl (bad_request ''a batch cannot contain more than 100 requests'')
      else
        bind_res (parse_fee_utxos env (uh_fee_utxos (nu_header request))) (\<lambda>fee_utxos.
        bind_res (instructed_feed env (nu_requests request) None) (\<lambda>instructed.
        bind_res (verify_user_signature env request) (\<lambda>_.
          Inr (fee_utxos, instructed)))))"

definition validate_encoded_request ::
  "users_env \<Rightarrow> bytes \<Rightarrow> string + network_user_requests \<times> outpoint list \<times> feed_id option" where
  "validate_encoded_request env encoded =
     bind_res (us_from_json env encoded) (\<lambda>request.
     bind_res (map_err ae_message (validate_batch env request)) (\<lambda>(fee_utxos, feed).
       Inr (request, fee_utxos, feed)))"

subsection \<open>The handlers\<close>

definition check_fee_utxos ::
  "users_env \<Rightarrow> bool \<Rightarrow> utxo_table \<Rightarrow> string list \<Rightarrow> api_error + string list \<times> string list" where
  "check_fee_utxos env is_coordinator monitored asked =
     bind_res (require_coordinator is_coordinator) (\<lambda>_.
     bind_res (parse_fee_utxos env asked) (\<lambda>fee_utxos.
       let answers = zip asked (burning_reservations fee_utxos monitored)
       in Inr (map fst (filter snd answers), map fst (filter (Not \<circ> snd) answers))))"

definition fee_api_error :: "users_env \<Rightarrow> fee_utxo_error \<Rightarrow> api_error" where
  "fee_api_error env e =
     (case e of
        MissingUtxo _ \<Rightarrow> bad_request (us_show_fee_error env e)
      | InsufficientConfirmations _ _ _ \<Rightarrow> bad_request (us_show_fee_error env e)
      | WrongAsset _ \<Rightarrow> bad_request (us_show_fee_error env e)
      | WrongOwner _ \<Rightarrow> bad_request (us_show_fee_error env e)
      | InsufficientValue _ _ \<Rightarrow> bad_request (us_show_fee_error env e)
      | InvalidValue _ \<Rightarrow> bad_request (us_show_fee_error env e)
      | fee_utxo_error.InvalidPublicKey \<Rightarrow> bad_request (us_show_fee_error env e)
      | ReservedForBurning _ \<Rightarrow> conflict (us_show_fee_error env e)
      | _ \<Rightarrow> unavailable (us_show_fee_error env e))"

text \<open>
  \<open>fees\<close> is the validator of the fee outputs (\<open>validate_fee_utxos\<close> with its node), asked with the outputs,
  the owner and the number of requests.
\<close>

definition create_request ::
  "users_env \<Rightarrow> bool \<Rightarrow> (outpoint list \<Rightarrow> bytes \<Rightarrow> nat \<Rightarrow> fee_utxo_error + unit) \<Rightarrow> u64 \<Rightarrow> network_user_requests \<Rightarrow>
   request_db \<Rightarrow> request_db \<times> (api_error + string)" where
  "create_request env is_coordinator fees block_height request db =
     (let encoded = us_to_json env request; request_hash = us_sha256 env encoded
      in case bind_res (require_coordinator is_coordinator) (\<lambda>_.
              bind_res (validate_batch env request) (\<lambda>(fee_utxos, _).
              bind_res (hex_array env 32 (uh_public_key (nu_header request)) ''user public key'') (\<lambda>owner.
              bind_res (map_err (fee_api_error env) (fees fee_utxos owner (length (nu_requests request)))) (\<lambda>_.
                map_err (\<lambda>_. internal []) (insert_pending request_hash encoded block_height fee_utxos db))))) of
           Inl e \<Rightarrow> (db, Inl e)
         | Inr (db', Inserted) \<Rightarrow> (db', Inr (us_hex_encode env request_hash))
         | Inr (db', RequestExists) \<Rightarrow> (db', Inl (conflict ''user request already exists''))
         | Inr (db', FeeUtxoReserved fee_utxo) \<Rightarrow>
             (db', Inl (conflict (''fee UTXO '' @ quoted (us_hex_encode env (fst fee_utxo) @ '':'' @
               decimal (unat (snd fee_utxo))) @ '' is reserved by another user request''))))"

text \<open>\<open>utf8\<close> reads a stored payload as a string.\<close>

definition get_request_status ::
  "users_env \<Rightarrow> (bytes \<Rightarrow> string option) \<Rightarrow> bool \<Rightarrow> string \<Rightarrow> request_db \<Rightarrow>
   api_error + request_status \<times> string option" where
  "get_request_status env utf8 is_coordinator hash db =
     bind_res (require_coordinator is_coordinator) (\<lambda>_.
     bind_res (hex_array env 32 hash ''user request hash'') (\<lambda>request_hash.
     bind_res (ok_or (not_found ''user request does not exist'') (get_user_request request_hash db)) (\<lambda>row.
       case ur_payload row of
         None \<Rightarrow> Inr (ur_status row, None)
       | Some payload \<Rightarrow>
           (case utf8 payload of None \<Rightarrow> Inl (internal []) | Some s \<Rightarrow> Inr (ur_status row, Some s)))))"

subsection \<open>The network and its accounts\<close>

record oracle_network =
  on_storm_eye_asset_id :: bytes
  on_storm_tree_root :: bytes
  on_tick_asset_id :: bytes
  on_oracle_verifier_asset_id :: bytes
  on_network :: auth_network

record oracle_account =
  oa_address_script :: bytes
  oa_storm_eye_asset_id :: bytes
  oa_tick_asset_id :: bytes
  oa_tick_script_pubkey :: bytes
  oa_oracle_verifier_asset_id :: bytes
  oa_network :: auth_network

definition active_asset :: "asset_db \<Rightarrow> string \<Rightarrow> string \<Rightarrow> api_error + network_asset" where
  "active_asset assets kind name =
     ok_or (unavailable (name @ '' asset is not active'')) (get_asset kind assets)"

definition network_metadata ::
  "elements_env \<Rightarrow> auth_network \<Rightarrow> asset_db \<Rightarrow> api_error + oracle_network" where
  "network_metadata el network assets =
     bind_res (active_asset assets STORM_EYE_KIND ''Storm Eye'') (\<lambda>storm_eye.
     bind_res (map_err (\<lambda>_. unavailable []) (storm_eye_contract_data el storm_eye)) (\<lambda>data.
     bind_res (active_asset assets TICK_ASSET_KIND ''Tick'') (\<lambda>tick.
     bind_res (active_asset assets ORACLE_VERIFIER_KIND ''Oracle Verifier'') (\<lambda>verifier.
       Inr \<lparr>on_storm_eye_asset_id = na_asset_id storm_eye, on_storm_tree_root = sd_storm_tree_root data,
            on_tick_asset_id = na_asset_id tick, on_oracle_verifier_asset_id = na_asset_id verifier,
            on_network = network\<rparr>))))"

definition simplicity_network_of :: "auth_network \<Rightarrow> simplicity_network" where
  "simplicity_network_of network =
     (case network of
        AuthLiquidV1 \<Rightarrow> Liquid
      | AuthLiquidTestnet \<Rightarrow> LiquidTestnet
      | AuthElementsRegtest \<Rightarrow> DefaultRegtest)"

definition get_account ::
  "users_env \<Rightarrow> elements_env \<Rightarrow> auth_network \<Rightarrow> asset_db \<Rightarrow> string \<Rightarrow> string option \<Rightarrow> api_error + oracle_account" where
  "get_account env el network assets public_key auth_script =
     bind_res (hex_array env 32 public_key ''user public key'') (\<lambda>owner.
       if \<not> us_valid_x_only env owner then Inl (bad_request ''invalid user public key'')
       else
         bind_res (network_metadata el network assets) (\<lambda>metadata.
         bind_res
           (case auth_script of
              None \<Rightarrow> Inr (2, owner)
            | Some script \<Rightarrow>
                bind_res (validate_auth_method env \<lparr>am_kind = ''scriptPubKey-auth'', am_auth_data = script\<rparr>) (\<lambda>_.
                bind_res (ok_or (bad_request []) (us_hex_decode env script)) (\<lambda>data. Inr (1, us_sha256 env data))))
           (\<lambda>(auth_kind, auth_data).
         bind_res (map_err bad_request (voucher_arguments_of (on_storm_eye_asset_id metadata) auth_kind auth_data)) (\<lambda>arguments.
           Inr \<lparr>oa_address_script =
                  ee_account_script el (on_storm_eye_asset_id metadata) owner (simplicity_network_of network),
                oa_storm_eye_asset_id = on_storm_eye_asset_id metadata,
                oa_tick_asset_id = on_tick_asset_id metadata,
                oa_tick_script_pubkey = voucher_script el (arguments, None) (simplicity_network_of network),
                oa_oracle_verifier_asset_id = on_oracle_verifier_asset_id metadata,
                oa_network = network\<rparr>))))"

subsection \<open>What is accepted\<close>

lemma parse_fee_utxos_from_Inr:
  "parse_fee_utxos_from env utxos parsed = Inr fees \<Longrightarrow> distinct parsed \<Longrightarrow>
   distinct fees \<and> length fees = length parsed + length utxos \<and>
   (\<exists>new. fees = parsed @ new \<and> list_all2 (\<lambda>u f. parse_fee_utxo env u = Inr f) utxos new)"
proof (induction env utxos parsed arbitrary: fees rule: parse_fee_utxos_from.induct)
  case (1 env parsed)
  then show ?case by simp
next
  case (2 env utxo utxos parsed)
  then obtain f where f: "parse_fee_utxo env utxo = Inr f" "f \<notin> set parsed"
    and rest: "parse_fee_utxos_from env utxos (parsed @ [f]) = Inr fees"
    by (auto simp: bind_res_eq_Inr split: if_splits)
  from 2(1) [OF f(2) rest] 2(3) f show ?case by auto
qed

lemma parse_fee_utxos_Inr:
  "parse_fee_utxos env utxos = Inr fees \<Longrightarrow>
   distinct fees \<and> fees \<noteq> [] \<and> length fees = length utxos \<and> length fees \<le> 100 \<and>
   list_all2 (\<lambda>u f. parse_fee_utxo env u = Inr f) utxos fees"
  using parse_fee_utxos_from_Inr [of env utxos "[]" fees]
  by (auto simp: parse_fee_utxos_def MAX_FEE_UTXOS_PER_BATCH_def split: if_splits)

text \<open>The kind of a request follows from its payload.\<close>

lemma validate_user_request_Inr:
  assumes "validate_user_request env r = Inr feed"
  shows "uq_kind r = (if feed = None then TICK_REQUEST_KIND else PRICE_REQUEST_KIND) \<and>
    (\<exists>d. us_details_json env (uq_payload r) = Inr d \<and> td_price_feed_id d = feed \<and>
       validate_auth_method env (td_auth_method d) = Inr ()) \<and>
    (\<forall>f. feed = Some f \<longrightarrow> registry_get default_registry f \<noteq> None)"
proof -
  have "map_err g x = Inr d \<longleftrightarrow> x = Inr d" for g :: "'x \<Rightarrow> 'y" and x :: "'x + 'z" and d by (cases x) auto
  with assms show ?thesis
    by (auto simp: validate_user_request_def Let_def bind_res_eq_Inr split: if_splits option.splits)
qed

lemma instructed_feed_Inr:
  "instructed_feed env rs instructed = Inr feed \<Longrightarrow>
   (\<forall>r\<in>set rs. \<exists>named. validate_user_request env r = Inr named \<and> (named = None \<or> named = feed)) \<and>
   (instructed \<noteq> None \<longrightarrow> feed = instructed) \<and>
   (feed = None \<or> feed = instructed \<or> (\<exists>r\<in>set rs. validate_user_request env r = Inr feed))"
proof (induction env rs instructed rule: instructed_feed.induct)
  case (1 env instructed)
  then show ?case by simp
next
  case (2 env r rs instructed)
  then obtain named where named: "validate_user_request env r = Inr named" by (auto simp: bind_res_eq_Inr)
  show ?case
  proof (cases named)
    case None
    with 2(3) named have "instructed_feed env rs instructed = Inr feed" by simp
    from 2(1) [OF this] named None show ?thesis by auto
  next
    case (Some f)
    with 2(3) named have "instructed = None \<or> instructed = Some f" "instructed_feed env rs (Some f) = Inr feed"
      by (auto split: if_splits)
    with 2(2) [of f] named Some show ?thesis by auto
  qed
qed

lemma batch_requests_known:
  assumes "validate_batch env request = Inr (fees, feed)" and "r \<in> set (nu_requests request)"
  shows "\<exists>named. validate_user_request env r = Inr named \<and> (named = None \<or> named = feed)"
proof -
  have "instructed_feed env (nu_requests request) None = Inr feed"
    using assms(1) by (auto simp: validate_batch_def bind_res_eq_Inr split: if_splits)
  from instructed_feed_Inr [OF this] assms(2) show ?thesis by blast
qed

lemma same_payload_same_request:
  assumes "validate_user_request env r = Inr named" "validate_user_request env r' = Inr named'"
    and "uq_payload r = uq_payload r'"
  shows "r = r'"
  using validate_user_request_Inr [OF assms(1)] validate_user_request_Inr [OF assms(2)] assms(3)
  by (auto intro: user_request.equality)

text \<open>
  The payloads a user signs fix the whole batch: two accepted batches with the same payloads ask for
  the same kinds at the same feed, so a batch cannot be replayed as requests of the other kind.
\<close>

lemma payloads_fix_the_batch:
  assumes "validate_batch env request = Inr (fees, feed)" "validate_batch env request' = Inr (fees', feed')"
    and "map uq_payload (nu_requests request) = map uq_payload (nu_requests request')"
  shows "nu_requests request = nu_requests request' \<and> feed = feed'"
proof -
  have "nu_requests request = nu_requests request'"
  proof (rule nth_equalityI)
    show len: "length (nu_requests request) = length (nu_requests request')"
      using assms(3) by (rule map_eq_imp_length_eq)
    fix i
    assume i: "i < length (nu_requests request)"
    then have "uq_payload (nu_requests request ! i) = uq_payload (nu_requests request' ! i)"
      using assms(3) len by (metis nth_map)
    then show "nu_requests request ! i = nu_requests request' ! i"
      using batch_requests_known [OF assms(1) nth_mem [OF i]] batch_requests_known [OF assms(2), of "nu_requests request' ! i"]
        i len same_payload_same_request by fastforce
  qed
  moreover from this have "feed = feed'"
    using assms(1,2) by (auto simp: validate_batch_def bind_res_eq_Inr split: if_splits)
  ultimately show ?thesis by simp
qed

definition toy_user_batch :: "string \<Rightarrow> network_user_requests" where
  "toy_user_batch utxo =
     \<lparr>nu_header = \<lparr>uh_signature = ''sig'', uh_public_key = ''key'', uh_fee_utxos = [utxo],
        uh_signature_scheme = None, uh_signing_public_key = None\<rparr>,
      nu_requests = [\<lparr>uq_kind = ''tick-utxo'', uq_payload = ''tick''\<rparr>,
        \<lparr>uq_kind = ''signed-price-data'', uq_payload = ''price''\<rparr>]\<rparr>"

definition toy_users :: users_env where
  "toy_users =
     \<lparr>us_hex_decode = (\<lambda>s. Some (replicate (if s = ''sig'' then 64 else 32) 9)), us_hex_encode = (\<lambda>_. ''hash''),
      us_valid_x_only = (\<lambda>_. True), us_valid_public_key = (\<lambda>_. True), us_x_only = (\<lambda>k. k),
      us_from_json = (\<lambda>_. Inr (toy_user_batch ''t:1'')), us_to_json = (\<lambda>_. [1]),
      us_details_json = (\<lambda>s. Inr \<lparr>td_auth_method = \<lparr>am_kind = ''asset-id-auth'', am_auth_data = ''a''\<rparr>,
         td_price_feed_id = (if s = ''tick'' then None else Some 0)\<rparr>),
      us_body_json = (\<lambda>_ _ _ _. []), us_message_hash = (\<lambda>_. []), us_compact = (\<lambda>_ _. True),
      us_recover = (\<lambda>_ _ _. None), us_schnorr = (\<lambda>_ _ _. True), us_sha256 = (\<lambda>_. [5]),
      us_show_fee_error = (\<lambda>_. [])\<rparr>"

lemma toy_feed_known: "registry_get default_registry 0 \<noteq> None"
  by (simp add: registry_get_None_iff default_registry_def SUPPORTED_FEEDS_def feed_definition_new_def)

lemma toy_validate_request:
  "validate_user_request toy_users \<lparr>uq_kind = ''tick-utxo'', uq_payload = ''tick''\<rparr> = Inr None"
  "validate_user_request toy_users \<lparr>uq_kind = ''signed-price-data'', uq_payload = ''price''\<rparr> = Inr (Some 0)"
  using toy_feed_known
  by (simp_all add: validate_user_request_def toy_users_def validate_auth_method_def hex_array_def parse_hex_array_def
      TICK_REQUEST_KIND_def PRICE_REQUEST_KIND_def MAX_PAYLOAD_BYTES_def)

lemma toy_fee_utxo:
  "parse_fee_utxo toy_users ''t:1'' = Inr (replicate 32 9, 1)" "parse_fee_utxo toy_users ''t:2'' = Inr (replicate 32 9, 2)"
  by (simp_all add: parse_fee_utxo_def toy_users_def hex_array_def parse_hex_array_def split_once_def parse_u32_def
      parse_nat_def digits_value_def digit_value_def)

lemma toy_batch_valid:
  "validate_batch toy_users (toy_user_batch ''t:1'') = Inr ([(replicate 32 9, 1)], Some 0)"
  "validate_batch toy_users (toy_user_batch ''t:2'') = Inr ([(replicate 32 9, 2)], Some 0)"
proof -
  have s: "verify_user_signature toy_users (toy_user_batch u) = Inr ()" for u
    by (simp add: verify_user_signature_def toy_users_def toy_user_batch_def hex_array_def parse_hex_array_def)
  have f: "instructed_feed toy_users (nu_requests (toy_user_batch u)) None = Inr (Some 0)" for u
    by (simp add: toy_user_batch_def toy_validate_request)
  have l: "length (nu_requests (toy_user_batch u)) = 2" "nu_requests (toy_user_batch u) \<noteq> []"
    "uh_fee_utxos (nu_header (toy_user_batch u)) = [u]" for u by (simp_all add: toy_user_batch_def)
  show "validate_batch toy_users (toy_user_batch ''t:1'') = Inr ([(replicate 32 9, 1)], Some 0)"
    "validate_batch toy_users (toy_user_batch ''t:2'') = Inr ([(replicate 32 9, 2)], Some 0)"
    by (simp_all add: validate_batch_def s f l MAX_REQUESTS_PER_BATCH_def MAX_FEE_UTXOS_PER_BATCH_def parse_fee_utxos_def
        toy_fee_utxo)
qed

lemma payloads_fix_the_batch_witness: "nu_requests (toy_user_batch ''t:1'') = nu_requests (toy_user_batch ''t:2'')"
proof -
  have "map uq_payload (nu_requests (toy_user_batch ''t:1'')) = map uq_payload (nu_requests (toy_user_batch ''t:2''))"
    by (simp add: toy_user_batch_def)
  from payloads_fix_the_batch [OF toy_batch_valid this] show ?thesis by simp
qed

lemma create_request_Inr:
  assumes "create_request env coordinator fees height request db = (db', Inr answer)"
  obtains fee_utxos feed owner where "coordinator" "validate_batch env request = Inr (fee_utxos, feed)"
    "fees fee_utxos owner (length (nu_requests request)) = Inr ()"
    "insert_pending (us_sha256 env (us_to_json env request)) (us_to_json env request) height fee_utxos db =
       Inr (db', Inserted)"
    "answer = us_hex_encode env (us_sha256 env (us_to_json env request))"
proof -
  have me: "map_err g x = Inr d \<longleftrightarrow> x = Inr d" for g :: "'x \<Rightarrow> 'y" and x :: "'x + 'z" and d by (cases x) auto
  from assms show ?thesis
    by (auto simp: create_request_def Let_def bind_res_eq_Inr me require_coordinator_def intro: that
        split: sum.splits insert_pending_result.splits if_splits)
qed

text \<open>
  C31: A request the API accepts is one every signer accepts: what is stored is the encoded batch, pending
  under its hash, and validating it again gives the same batch, fee outputs and feed. Its fee outputs were
  free, are pairwise different, and are now reserved for it, and no other reservation changes. The
  hypothesis on JSON is that decoding what was encoded gives it back.
\<close>

theorem created_request_validates:
  assumes "create_request env coordinator fees height request db = (db', Inr answer)"
    and "us_from_json env (us_to_json env request) = Inr request" and "bt_wf (rd_fee_utxos db)" "bt_wf (rd_requests db)"
  shows "\<exists>fee_utxos feed.
    validate_encoded_request env (us_to_json env request) = Inr (request, fee_utxos, feed) \<and>
    get_user_request (us_sha256 env (us_to_json env request)) db' =
      Some (request_row_new (us_to_json env request) height RequestPending None) \<and>
    get_user_request (us_sha256 env (us_to_json env request)) db = None \<and>
    distinct fee_utxos \<and> fee_utxos \<noteq> [] \<and>
    (\<forall>k\<in>set fee_utxos. bt_get (rd_fee_utxos db) k = None) \<and>
    (\<forall>k. bt_get (rd_fee_utxos db') k =
       (if k \<in> set fee_utxos then Some (us_sha256 env (us_to_json env request)) else bt_get (rd_fee_utxos db) k))"
proof -
  obtain fee_utxos feed owner where v: "validate_batch env request = Inr (fee_utxos, feed)"
    and i: "insert_pending (us_sha256 env (us_to_json env request)) (us_to_json env request) height fee_utxos db =
       Inr (db', Inserted)"
    using assms(1) by (rule create_request_Inr)
  have p: "parse_fee_utxos env (uh_fee_utxos (nu_header request)) = Inr fee_utxos"
    using v by (auto simp: validate_batch_def bind_res_eq_Inr split: if_splits)
  obtain reserved where r: "reserve_fee_utxos (us_sha256 env (us_to_json env request)) fee_utxos (rd_fee_utxos db) = Inr reserved"
    and db': "db' = \<lparr>rd_requests = bt_insert (us_sha256 env (us_to_json env request))
       (request_row_new (us_to_json env request) height RequestPending None) (rd_requests db), rd_fee_utxos = reserved\<rparr>"
    and free: "bt_get (rd_requests db) (us_sha256 env (us_to_json env request)) = None"
    using i by (auto simp: insert_pending_def bind_res_eq_Inr split: if_splits sum.splits)
  show ?thesis
    using v db' free reserve_fee_utxos_get [OF r assms(3)] parse_fee_utxos_Inr [OF p] assms(2,4)
    by (intro exI [of _ fee_utxos] exI [of _ feed]) (simp add: validate_encoded_request_def get_user_request_def bt_get_insert)
qed

theorem created_request_validates_witness:
  "\<exists>db'. create_request toy_users True (\<lambda>_ _ _. Inr ()) 7 (toy_user_batch ''t:1'') request_db_empty = (db', Inr ''hash'') \<and>
     bt_get (rd_fee_utxos db') (replicate 32 9, 1) = Some [5]"
proof -
  have fields: "us_sha256 toy_users = (\<lambda>_. [5])" "us_to_json toy_users = (\<lambda>_. [1])" "us_hex_encode toy_users = (\<lambda>_. ''hash'')"
    "us_from_json toy_users = (\<lambda>_. Inr (toy_user_batch ''t:1''))"
    by (simp_all add: toy_users_def)
  have key: "hex_array toy_users 32 (uh_public_key (nu_header (toy_user_batch u))) name = Inr (replicate 32 9)" for u name
    by (simp add: hex_array_def parse_hex_array_def toy_users_def toy_user_batch_def)
  have "\<exists>db'. create_request toy_users True (\<lambda>_ _ _. Inr ()) 7 (toy_user_batch ''t:1'') request_db_empty = (db', Inr ''hash'')"
    by (simp add: create_request_def require_coordinator_def toy_batch_valid key fields insert_pending_def encode_u64_def
        request_db_empty_def bt_get_def Let_def)
  then obtain db' where run: "create_request toy_users True (\<lambda>_ _ _. Inr ()) 7 (toy_user_batch ''t:1'') request_db_empty = (db', Inr ''hash'')"
    by blast
  have "us_from_json toy_users (us_to_json toy_users (toy_user_batch ''t:1'')) = Inr (toy_user_batch ''t:1'')"
    "bt_wf (rd_fee_utxos request_db_empty)" "bt_wf (rd_requests request_db_empty)"
    by (simp_all add: fields request_db_empty_def bt_wf_def)
  from created_request_validates [OF run this] obtain fee_utxos feed where
    v: "validate_encoded_request toy_users [1] = Inr (toy_user_batch ''t:1'', fee_utxos, feed)"
    and g: "\<And>k. bt_get (rd_fee_utxos db') k = (if k \<in> set fee_utxos then Some [5] else bt_get (rd_fee_utxos request_db_empty) k)"
    by (auto simp: fields)
  have "fee_utxos = [(replicate 32 9, 1)]" using v by (simp add: validate_encoded_request_def fields toy_batch_valid)
  with run g [of "(replicate 32 9, 1)"] show ?thesis by auto
qed

end
