(* ===== verification/Round_Rates.thy ===== *)
theory Round_Rates
  imports Price_Data Elements_Tx Node_Message
begin

text \<open>
  The rate a round of user requests is issued at (\<open>high_storm/user_requests.rs\<close>): which batches join a round,
  what they carry beside them, and how a signer reads the rate back. Both sides agree: a round that was put
  together batch by batch is read back at the rate it was put together at.
\<close>

definition MAX_UNPRICED_REQUEST_BLOCKS :: u64 where "MAX_UNPRICED_REQUEST_BLOCKS = 10"
definition SIGNING_SESSION_TIMEOUT_SECS :: u64 where "SIGNING_SESSION_TIMEOUT_SECS = 60"

datatype round_rate = Carries "price_feed_data option" | AnotherFeed | NoLocalPrice

definition round_rate_of ::
  "price_feed_data option \<Rightarrow> feed_id option \<Rightarrow> price_feed_data option \<Rightarrow> round_rate" where
  "round_rate_of instructed named_feed own =
     (case named_feed of
        None \<Rightarrow> Carries instructed
      | Some feed \<Rightarrow>
          (case instructed of
             Some held \<Rightarrow> if feed_id held \<noteq> feed then AnotherFeed else Carries (Some held)
           | None \<Rightarrow> (case own of Some rate \<Rightarrow> Carries (Some rate) | None \<Rightarrow> NoLocalPrice)))"

definition usable_for_round :: "price_feed_data \<Rightarrow> u64 \<Rightarrow> bool" where
  "usable_for_round rate timestamp \<longleftrightarrow> sat_add timestamp SIGNING_SESSION_TIMEOUT_SECS < valid_until rate"

definition waited_too_long :: "u64 \<Rightarrow> u64 \<Rightarrow> bool" where
  "waited_too_long block_height since \<longleftrightarrow> MAX_UNPRICED_REQUEST_BLOCKS < sat_sub block_height since"

definition batch_payload :: "feed_id option \<Rightarrow> price_feed_data option \<Rightarrow> bytes option" where
  "batch_payload named_feed instructed =
     (case named_feed of None \<Rightarrow> None | Some _ \<Rightarrow> map_option to_bytes instructed)"

definition instructed_price ::
  "feed_id option \<Rightarrow> bytes option \<Rightarrow> price_feed_data option \<Rightarrow> user_request_error + price_feed_data option" where
  "instructed_price named_feed payload carried =
     (case (named_feed, payload) of
        (None, None) \<Rightarrow> Inr carried
      | (None, Some _) \<Rightarrow> Inl (RequestInvalid ''a batch that names no price feed carries no instructed price'')
      | (Some _, None) \<Rightarrow> Inl (RequestInvalid ''a batch issued at a price feed carries no instructed price'')
      | (Some feed, Some payload) \<Rightarrow>
          bind_res (map_err (\<lambda>_. RequestInvalid ''price feed data has an invalid length'') (from_bytes payload)) (\<lambda>instructed.
            if feed_id instructed \<noteq> feed
            then Inl (RequestInvalid ''the instructed price is for another feed than the batch'')
            else if carried \<noteq> None \<and> carried \<noteq> Some instructed
            then Inl (RequestInvalid ''one execute-user-requests carries one rate for one feed'')
            else Inr (Some instructed)))"

subsection \<open>Agreement\<close>

text \<open>The feeds of a round's batches agree with its rate: a batch that names a feed names the rate's.\<close>

definition rate_agrees :: "feed_id option list \<Rightarrow> price_feed_data option \<Rightarrow> bool" where
  "rate_agrees named instructed \<longleftrightarrow>
     (\<forall>f. Some f \<in> set named \<longrightarrow> (\<exists>p. instructed = Some p \<and> feed_id p = f))"

lemma rate_agrees_Nil [simp]: "rate_agrees [] instructed"
  by (simp add: rate_agrees_def)

lemma round_rate_agrees:
  assumes "rate_agrees named instructed" and "round_rate_of instructed feed own = Carries carried"
    and "\<And>p. own = Some p \<Longrightarrow> feed = Some (feed_id p)"
  shows "rate_agrees (named @ [feed]) carried \<and> (instructed \<noteq> None \<longrightarrow> carried = instructed)"
proof (cases feed)
  case None
  then show ?thesis using assms by (auto simp: round_rate_of_def rate_agrees_def)
next
  case (Some f)
  then show ?thesis
    using assms by (auto simp: round_rate_of_def rate_agrees_def split: option.splits if_splits)
qed

text \<open>What a signer reads from the batches of a round is the rate the batches were given.\<close>

lemma instructed_price_payload:
  assumes "\<And>f. named = Some f \<Longrightarrow> \<exists>p. instructed = Some p \<and> feed_id p = f"
    and "carried = None \<or> carried = instructed"
  shows "instructed_price named (batch_payload named instructed) carried =
    Inr (if named = None then carried else instructed)"
proof (cases named)
  case None
  then show ?thesis by (simp add: instructed_price_def batch_payload_def)
next
  case (Some f)
  then obtain p where p: "instructed = Some p" "feed_id p = f" using assms(1) by blast
  then show ?thesis
    using Some assms(2) by (auto simp: instructed_price_def batch_payload_def from_bytes_to_bytes)
qed

lemma batches_read_back:
  assumes "rate_agrees named instructed" and "carried = None \<or> carried = instructed"
  shows "fold_res (\<lambda>(feed, payload) c. instructed_price feed payload c)
           (map (\<lambda>feed. (feed, batch_payload feed instructed)) named) carried =
         Inr (if \<forall>f\<in>set named. f = None then carried else instructed)"
  using assms
proof (induction named arbitrary: carried)
  case Nil
  then show ?case by simp
next
  case (Cons feed named)
  have "instructed_price feed (batch_payload feed instructed) carried = Inr (if feed = None then carried else instructed)"
    using Cons.prems by (intro instructed_price_payload) (auto simp: rate_agrees_def)
  moreover have "rate_agrees named instructed" using Cons.prems(1) by (simp add: rate_agrees_def)
  ultimately show ?case using Cons.IH [of "if feed = None then carried else instructed"] Cons.prems(2) by auto
qed

end
