(* ===== verification/Round_Scan.thy ===== *)
theory Round_Scan
  imports Users_Api Round_Rates
begin

text \<open>
  Which pending requests a round takes (the first half of \<open>prepare_round_candidate\<close> in
  \<open>high_storm/user_requests.rs\<close>): the queue is read in pages, a request that cannot be issued is skipped or
  failed, and the scan stops at the limits of the round. A view is what the node, its prices, its clock and
  its stores of assets and monitored outputs say during one attempt.
\<close>

definition PENDING_SCAN_PAGE :: u32 where "PENDING_SCAN_PAGE = 100"
definition MAX_PENDING_SCAN :: nat where "MAX_PENDING_SCAN = 1000"

record round_view =
  rv_rpc :: elements_rpc
  rv_timestamp :: u64
  rv_prices :: "feed_id \<Rightarrow> price_feed_data option"
  rv_monitored :: utxo_table
  rv_assets :: asset_db

record round_setup =
  ro_users :: users_env
  ro_elements :: elements_env
  ro_network :: simplicity_network
  ro_config :: protocol_config

record scanned_batch =
  sb_hash :: bytes
  sb_row :: user_request_row
  sb_request :: network_user_requests
  sb_fee_utxos :: "utxo list"
  sb_feed :: "feed_id option"

record scan_state =
  sc_db :: request_db
  sc_decoded :: "scanned_batch list"
  sc_issued :: nat
  sc_instructed :: "price_feed_data option"

definition decode_array :: "users_env \<Rightarrow> string \<Rightarrow> user_request_error + bytes" where
  "decode_array env encoded =
     bind_res (ok_or (RequestInvalid ''invalid authentication data'') (us_hex_decode env encoded)) (\<lambda>data.
       if length data = 32 then Inr data else Inl (RequestInvalid ''invalid authentication data''))"

definition outpoint_name :: "users_env \<Rightarrow> outpoint \<Rightarrow> string" where
  "outpoint_name env outpoint = us_hex_encode env (fst outpoint) @ '':'' @ decimal (unat (snd outpoint))"

definition reason_bytes :: "string \<Rightarrow> bytes" where
  "reason_bytes reason = map of_char reason"

subsection \<open>The fee outputs of a batch\<close>

text \<open>\<open>Inl\<close> inside the answer: why the batch is failed.\<close>

fun resolve_fee_utxos ::
  "round_setup \<Rightarrow> round_view \<Rightarrow> bytes \<Rightarrow> outpoint list \<Rightarrow> user_request_error + (string + utxo list)" where
  "resolve_fee_utxos setup view account_script [] = Inr (Inr [])"
| "resolve_fee_utxos setup view account_script (fee_utxo # fee_utxos) =
     (let name = ''fee UTXO '' @ quoted (outpoint_name (ro_users setup) fee_utxo) in
      if is_reserved_for_burning fee_utxo (rv_monitored view)
      then Inr (Inl (name @ '' is reserved for burning issued UTXOs''))
      else
        bind_res (get_confirmed_fee_outpoint (rv_rpc view) fee_utxo) (\<lambda>found.
          case found of
            None \<Rightarrow> Inr (Inl (name @ '' is unavailable or has fewer than 1 confirmations''))
          | Some utxo \<Rightarrow>
              if utxo_asset utxo \<noteq> ee_policy_asset (ro_elements setup) (ro_network setup) \<or>
                 to_script (ut_txout utxo) \<noteq> account_script
              then Inr (Inl (name @ '' no longer satisfies the request fee policy''))
              else
                bind_res (resolve_fee_utxos setup view account_script fee_utxos) (\<lambda>rest.
                  Inr (map_sum id ((#) utxo) rest))))"

subsection \<open>One request\<close>

definition fail_request :: "bytes \<Rightarrow> string \<Rightarrow> scan_state \<Rightarrow> scan_state" where
  "fail_request hash reason st = st\<lparr>sc_db := fst (mark_failed hash (reason_bytes reason) (sc_db st))\<rparr>"

text \<open>The local price a batch would be issued at.\<close>

definition own_rate :: "round_view \<Rightarrow> feed_id option \<Rightarrow> price_feed_data option \<Rightarrow> price_feed_data option" where
  "own_rate view named_feed instructed =
     (case (named_feed, instructed) of
        (Some feed, None) \<Rightarrow>
          (case rv_prices view feed of
             Some rate \<Rightarrow> if usable_for_round rate (rv_timestamp view) then Some rate else None
           | None \<Rightarrow> None)
      | _ \<Rightarrow> None)"

definition include_batch ::
  "u32 \<Rightarrow> scanned_batch \<Rightarrow> price_feed_data option \<Rightarrow> scan_state \<Rightarrow> scan_state \<times> bool" where
  "include_batch request_limit batch carried st =
     (if MAX_ISSUED_DESCRIPTORS < sc_issued st + length (nu_requests (sb_request batch)) then (st, True)
      else
        (let decoded = sc_decoded st @ [batch]
         in (st\<lparr>sc_issued := sc_issued st + length (nu_requests (sb_request batch)),
                sc_instructed := carried, sc_decoded := decoded\<rparr>,
             unat request_limit \<le> length decoded)))"

text \<open>The flag of the answer: the round is full.\<close>

definition scan_request ::
  "round_setup \<Rightarrow> round_view \<Rightarrow> network_asset \<Rightarrow> u64 \<Rightarrow> u32 \<Rightarrow> bytes \<times> user_request_row \<Rightarrow> scan_state \<Rightarrow>
   scan_state \<times> (user_request_error + bool)" where
  "scan_request setup view storm_eye block_height request_limit = (\<lambda>(hash, row) st.
     case map_err RequestInvalid (validate_encoded_request (ro_users setup) (ur_request row)) of
       Inl e \<Rightarrow> (st, Inl e)
     | Inr (request, fee_utxos, named_feed) \<Rightarrow>
         if named_feed \<noteq> None \<and> waited_too_long block_height (ur_block_height row) then
           (fail_request hash (''feed '' @ decimal (unat (the named_feed)) @ '' was not issued in '' @
              decimal (unat (sat_sub block_height (ur_block_height row))) @ '' blocks'') st, Inr False)
         else
           case round_rate_of (sc_instructed st) named_feed (own_rate view named_feed (sc_instructed st)) of
             AnotherFeed \<Rightarrow> (st, Inr False)
           | NoLocalPrice \<Rightarrow> (st, Inr False)
           | Carries carried \<Rightarrow>
               (case bind_res (decode_array (ro_users setup) (uh_public_key (nu_header request))) (\<lambda>owner.
                     resolve_fee_utxos setup view
                       (ee_account_script (ro_elements setup) (na_asset_id storm_eye) owner (ro_network setup)) fee_utxos) of
                  Inl e \<Rightarrow> (st, Inl e)
                | Inr (Inl reason) \<Rightarrow> (fail_request hash reason st, Inr False)
                | Inr (Inr resolved) \<Rightarrow>
                    (case include_batch request_limit
                            \<lparr>sb_hash = hash, sb_row = row, sb_request = request, sb_fee_utxos = resolved, sb_feed = named_feed\<rparr>
                            carried st of
                       (st', full) \<Rightarrow> (st', Inr full))))"

subsection \<open>The pages\<close>

fun scan_page ::
  "round_setup \<Rightarrow> round_view \<Rightarrow> network_asset \<Rightarrow> u64 \<Rightarrow> u32 \<Rightarrow> (bytes \<times> user_request_row) list \<Rightarrow> scan_state \<Rightarrow>
   scan_state \<times> (user_request_error + bool)" where
  "scan_page setup view storm_eye block_height request_limit [] st = (st, Inr False)"
| "scan_page setup view storm_eye block_height request_limit (r # rs) st =
     (case scan_request setup view storm_eye block_height request_limit r st of
        (st', Inl e) \<Rightarrow> (st', Inl e)
      | (st', Inr True) \<Rightarrow> (st', Inr True)
      | (st', Inr False) \<Rightarrow> scan_page setup view storm_eye block_height request_limit rs st')"

function scan_pages ::
  "round_setup \<Rightarrow> round_view \<Rightarrow> network_asset \<Rightarrow> u64 \<Rightarrow> u32 \<Rightarrow> (bytes \<times> user_request_row) list \<Rightarrow> nat \<Rightarrow> scan_state \<Rightarrow>
   scan_state \<times> (user_request_error + unit)" where
  "scan_pages setup view storm_eye block_height request_limit pending scanned st =
     (if pending = [] then (st, Inr ())
      else
        case scan_page setup view storm_eye block_height request_limit pending st of
          (st', Inl e) \<Rightarrow> (st', Inl e)
        | (st', Inr True) \<Rightarrow> (st', Inr ())
        | (st', Inr False) \<Rightarrow>
            if MAX_PENDING_SCAN \<le> scanned + length pending then (st', Inr ())
            else
              (case list_pending_after PENDING_SCAN_PAGE
                      (Some (ur_block_height (snd (List.last pending)), fst (List.last pending))) (sc_db st') of
                 Inl e \<Rightarrow> (st', Inl (RequestDatabase e))
               | Inr rest \<Rightarrow>
                   scan_pages setup view storm_eye block_height request_limit rest (scanned + length pending) st'))"
  by pat_completeness auto
termination
proof (relation "measure (\<lambda>(_, _, _, _, _, _, scanned, _). MAX_PENDING_SCAN - scanned)", goal_cases)
  case (2 _ _ _ _ _ pending)
  then show ?case by (auto intro!: diff_less_mono2)
qed simp

declare scan_pages.simps [simp del]

text \<open>The whole scan: what was decoded, and the database with the requests that were failed.\<close>

definition scan_pending ::
  "round_setup \<Rightarrow> round_view \<Rightarrow> network_asset \<Rightarrow> u64 \<Rightarrow> u32 \<Rightarrow> (bytes \<times> user_request_row) list \<Rightarrow> request_db \<Rightarrow>
   scan_state \<times> (user_request_error + unit)" where
  "scan_pending setup view storm_eye block_height request_limit pending db =
     scan_pages setup view storm_eye block_height request_limit pending 0
       \<lparr>sc_db = db, sc_decoded = [], sc_issued = 0, sc_instructed = None\<rparr>"

subsection \<open>What a scan keeps\<close>

text \<open>The prices of a view are for the feeds they are asked for.\<close>

definition well_priced :: "round_view \<Rightarrow> bool" where
  "well_priced view \<longleftrightarrow> (\<forall>feed rate. rv_prices view feed = Some rate \<longrightarrow> feed_id rate = feed)"

definition batch_ok :: "round_setup \<Rightarrow> scanned_batch \<Rightarrow> bool" where
  "batch_ok setup b \<longleftrightarrow>
     (\<exists>fee_utxos. validate_encoded_request (ro_users setup) (ur_request (sb_row b)) = Inr (sb_request b, fee_utxos, sb_feed b) \<and>
        map ut_outpoint (sb_fee_utxos b) = fee_utxos)"

definition scan_ok :: "round_setup \<Rightarrow> round_view \<Rightarrow> scan_state \<Rightarrow> bool" where
  "scan_ok setup view st \<longleftrightarrow>
     (\<forall>b\<in>set (sc_decoded st). batch_ok setup b) \<and>
     rate_agrees (map sb_feed (sc_decoded st)) (sc_instructed st) \<and>
     (\<forall>rate. sc_instructed st = Some rate \<longrightarrow>
        usable_for_round rate (rv_timestamp view) \<and> rv_prices view (feed_id rate) = Some rate \<and>
        (\<exists>b\<in>set (sc_decoded st). sb_feed b = Some (feed_id rate))) \<and>
     sc_issued st = sum_list (map (length \<circ> nu_requests \<circ> sb_request) (sc_decoded st)) \<and>
     sc_issued st \<le> MAX_ISSUED_DESCRIPTORS"

lemma get_confirmed_fee_outpoint_SomeD: "get_confirmed_fee_outpoint rpc f = Inr (Some u) \<Longrightarrow> ut_outpoint u = f"
  by (auto simp: get_confirmed_fee_outpoint_def explicit_outpoint_def bind_res_eq_Inr split: option.splits if_splits)

lemma resolve_fee_utxos_outpoints:
  "resolve_fee_utxos setup view script fee_utxos = Inr (Inr resolved) \<Longrightarrow> map ut_outpoint resolved = fee_utxos"
proof (induction fee_utxos arbitrary: resolved)
  case Nil
  then show ?case by simp
next
  case (Cons f fs)
  then obtain u rest where u: "get_confirmed_fee_outpoint (rv_rpc view) f = Inr (Some u)"
    and rest: "resolve_fee_utxos setup view script fs = Inr rest" "map_sum id ((#) u) rest = Inr resolved"
    by (auto simp: Let_def bind_res_eq_Inr split: if_splits option.splits)
  then obtain us where "rest = Inr us" "resolved = u # us" by (cases rest) auto
  then show ?case using Cons.IH [of us] rest(1) get_confirmed_fee_outpoint_SomeD [OF u] by simp
qed

lemma fail_request_scan: "scan_ok setup view (fail_request hash reason st) = scan_ok setup view st"
  "sc_decoded (fail_request hash reason st) = sc_decoded st"
  by (simp_all add: fail_request_def scan_ok_def)

lemma own_rate_SomeD:
  "own_rate view named instructed = Some p \<Longrightarrow> well_priced view \<Longrightarrow>
   named = Some (feed_id p) \<and> usable_for_round p (rv_timestamp view) \<and> rv_prices view (feed_id p) = Some p"
  by (auto simp: own_rate_def well_priced_def split: option.splits if_splits)

lemma include_batch_ok:
  assumes ok: "scan_ok setup view st" and priced: "well_priced view" and b: "batch_ok setup b"
    and rate: "round_rate_of (sc_instructed st) (sb_feed b) (own_rate view (sb_feed b) (sc_instructed st)) = Carries carried"
    and incl: "include_batch limit b carried st = (st', full)"
  shows "scan_ok setup view st' \<and> length (sc_decoded st') \<le> Suc (length (sc_decoded st)) \<and>
    (\<not> full \<longrightarrow> length (sc_decoded st') < unat limit)"
proof (cases "MAX_ISSUED_DESCRIPTORS < sc_issued st + length (nu_requests (sb_request b))")
  case True
  then show ?thesis using ok incl by (auto simp: include_batch_def)
next
  case False
  have "rate_agrees (map sb_feed (sc_decoded st) @ [sb_feed b]) carried \<and> (sc_instructed st \<noteq> None \<longrightarrow> carried = sc_instructed st)"
    using ok rate own_rate_SomeD [OF _ priced] by (intro round_rate_agrees) (auto simp: scan_ok_def)
  moreover have "usable_for_round p (rv_timestamp view) \<and> rv_prices view (feed_id p) = Some p \<and>
      (sb_feed b = Some (feed_id p) \<or> (\<exists>b\<in>set (sc_decoded st). sb_feed b = Some (feed_id p)))" if "carried = Some p" for p
    using rate that ok own_rate_SomeD [OF _ priced, of "sb_feed b" "sc_instructed st"]
    by (fastforce simp: round_rate_of_def scan_ok_def split: option.splits if_splits)
  ultimately show ?thesis
    using ok incl b False by (auto simp: include_batch_def scan_ok_def Let_def)
qed

lemma scan_request_ok:
  assumes "scan_ok setup view st" "well_priced view"
    and "scan_request setup view storm_eye height limit r st = (st', answer)"
  shows "scan_ok setup view st' \<and> length (sc_decoded st') \<le> Suc (length (sc_decoded st)) \<and>
    (answer \<noteq> Inr True \<longrightarrow> length (sc_decoded st) < unat limit \<longrightarrow> length (sc_decoded st') < unat limit)"
proof -
  obtain hash row where r: "r = (hash, row)" by (cases r)
  show ?thesis
  proof (cases "validate_encoded_request (ro_users setup) (ur_request row)")
    case (Inl e)
    then show ?thesis using assms by (auto simp: scan_request_def r)
  next
    case (Inr v)
    obtain request fee_utxos named where v: "v = (request, fee_utxos, named)" by (cases v)
    show ?thesis
    proof (cases "named \<noteq> None \<and> waited_too_long height (ur_block_height row)")
      case True
      then show ?thesis using assms Inr v by (auto simp: scan_request_def r fail_request_scan)
    next
      case fresh: False
      let ?rate = "round_rate_of (sc_instructed st) named (own_rate view named (sc_instructed st))"
      let ?fees = "bind_res (decode_array (ro_users setup) (uh_public_key (nu_header request))) (\<lambda>owner.
          resolve_fee_utxos setup view
            (ee_account_script (ro_elements setup) (na_asset_id storm_eye) owner (ro_network setup)) fee_utxos)"
      show ?thesis
      proof (cases "\<exists>carried resolved. ?rate = Carries carried \<and> ?fees = Inr (Inr resolved)")
        case True
        then obtain carried resolved where c: "?rate = Carries carried" "?fees = Inr (Inr resolved)" by blast
        let ?b = "\<lparr>sb_hash = hash, sb_row = row, sb_request = request, sb_fee_utxos = resolved, sb_feed = named\<rparr>"
        obtain st1 full where i: "include_batch limit ?b carried st = (st1, full)" by (cases "include_batch limit ?b carried st")
        have "st' = st1" "answer = Inr full"
          using assms(3) Inr v fresh c i by (simp_all add: scan_request_def r split: if_splits)
        moreover have "batch_ok setup ?b"
          using Inr v c(2) by (auto simp: batch_ok_def bind_res_eq_Inr dest: resolve_fee_utxos_outpoints)
        ultimately show ?thesis using include_batch_ok [OF assms(1,2) _ _ i] c(1) by auto
      next
        case False
        then show ?thesis
          using assms Inr v fresh
          by (auto simp: scan_request_def r fail_request_scan split: if_splits round_rate.splits sum.splits)
      qed
    qed
  qed
qed

lemma scan_page_ok:
  assumes "scan_ok setup view st" "well_priced view" "length (sc_decoded st) < unat limit"
    and "scan_page setup view storm_eye height limit rs st = (st', answer)"
  shows "scan_ok setup view st' \<and> length (sc_decoded st') \<le> unat limit \<and>
    (answer = Inr False \<longrightarrow> length (sc_decoded st') < unat limit)"
  using assms
proof (induction rs arbitrary: st)
  case Nil
  then show ?case by auto
next
  case (Cons r rs)
  obtain st1 a where s: "scan_request setup view storm_eye height limit r st = (st1, a)"
    by (cases "scan_request setup view storm_eye height limit r st")
  note S = scan_request_ok [OF Cons.prems(1,2) s]
  show ?case
  proof (cases "a = Inr False")
    case True
    then show ?thesis using Cons.IH [of st1] Cons.prems S s by simp
  next
    case False
    then have "st' = st1 \<and> answer = a" using Cons.prems(4) s by (auto split: sum.splits bool.splits)
    then show ?thesis using S Cons.prems(3) False by auto
  qed
qed

text \<open>A request is stored under its hash, and what the scan takes stays under it.\<close>

definition hashed :: "users_env \<Rightarrow> (bytes \<times> user_request_row) list \<Rightarrow> bool" where
  "hashed env rows \<longleftrightarrow> (\<forall>(hash, row)\<in>set rows. hash = us_sha256 env (ur_request row))"

definition decoded_hashed :: "users_env \<Rightarrow> scan_state \<Rightarrow> bool" where
  "decoded_hashed env st \<longleftrightarrow> (\<forall>b\<in>set (sc_decoded st). sb_hash b = us_sha256 env (ur_request (sb_row b)))"

lemma list_pending_hashed:
  "list_pending_after limit after db = Inr rows \<Longrightarrow> hashed env (rd_requests db) \<Longrightarrow> hashed env rows"
  by (auto simp: list_pending_after_def bind_res_eq_Inr Let_def pending_rows_def hashed_def split: option.splits
      dest!: in_set_takeD)

lemma bt_update_key_hashed:
  assumes "hashed env m" "\<And>row. ur_request (f row) = ur_request row"
  shows "hashed env (fst (bt_update_key k C f m))"
proof (cases "bt_get m k")
  case None
  then show ?thesis using assms(1) by (simp add: bt_update_key_def)
next
  case (Some v)
  then have "k = us_sha256 env (ur_request (f v))"
    using assms by (auto simp: hashed_def bt_get_def dest!: map_of_SomeD)
  then have "hashed env (bt_insert k (f v) m)"
    using assms(1) set_bt_insert [of k "f v" m] by (auto simp: hashed_def)
  then show ?thesis using Some assms(1) by (simp add: bt_update_key_def)
qed

lemma mark_failed_hashed:
  "hashed env (rd_requests db) \<Longrightarrow> hashed env (rd_requests (fst (mark_failed hash reason db)))"
  using bt_update_key_hashed [of env "rd_requests db"
      "\<lambda>row. row\<lparr>ur_status := RequestFailed, ur_payload := Some reason\<rparr>" hash "\<lambda>row. ur_status row = RequestPending"]
  by (auto simp: mark_failed_def update_request_def release_fees_def split: prod.splits)

lemma fail_request_hashed:
  "hashed env (rd_requests (sc_db st)) \<Longrightarrow> hashed env (rd_requests (sc_db (fail_request hash reason st)))"
  "decoded_hashed env (fail_request hash reason st) = decoded_hashed env st"
  by (simp_all add: fail_request_def decoded_hashed_def mark_failed_hashed)

lemma include_batch_hashed:
  "include_batch limit b carried st = (st', full) \<Longrightarrow> decoded_hashed env st \<Longrightarrow>
   sb_hash b = us_sha256 env (ur_request (sb_row b)) \<Longrightarrow> sc_db st' = sc_db st \<and> decoded_hashed env st'"
  by (auto simp: include_batch_def decoded_hashed_def Let_def split: if_splits)

lemma scan_request_hashed:
  assumes "scan_request setup view storm_eye height limit r st = (st', answer)"
    and "hashed (ro_users setup) [r]" "hashed (ro_users setup) (rd_requests (sc_db st))" "decoded_hashed (ro_users setup) st"
  shows "hashed (ro_users setup) (rd_requests (sc_db st')) \<and> decoded_hashed (ro_users setup) st'"
proof -
  have "fst r = us_sha256 (ro_users setup) (ur_request (snd r))" using assms(2) by (cases r) (simp add: hashed_def)
  then show ?thesis
    using assms(1,3,4)
    by (auto simp: scan_request_def fail_request_hashed split: prod.splits sum.splits round_rate.splits if_splits
        dest!: include_batch_hashed [where env = "ro_users setup"])
qed

lemma scan_page_hashed:
  "scan_page setup view storm_eye height limit rs st = (st', answer) \<Longrightarrow> hashed (ro_users setup) rs \<Longrightarrow>
   hashed (ro_users setup) (rd_requests (sc_db st)) \<and> decoded_hashed (ro_users setup) st \<Longrightarrow>
   hashed (ro_users setup) (rd_requests (sc_db st')) \<and> decoded_hashed (ro_users setup) st'"
proof (induction rs arbitrary: st)
  case (Cons r rs)
  obtain st1 a where s: "scan_request setup view storm_eye height limit r st = (st1, a)"
    by (cases "scan_request setup view storm_eye height limit r st")
  have "hashed (ro_users setup) [r]" "hashed (ro_users setup) rs" using Cons.prems(2) by (auto simp: hashed_def)
  then show ?case
    using Cons.IH [of st1] Cons.prems scan_request_hashed [OF s] s by (auto split: sum.splits bool.splits)
qed auto

text \<open>What every page keeps, the scan keeps.\<close>

lemma scan_pages_keeps:
  assumes "\<And>rs st st' a. P st \<Longrightarrow> R rs \<Longrightarrow> scan_page setup view storm_eye height limit rs st = (st', a) \<Longrightarrow> Q st' \<and> (a = Inr False \<longrightarrow> P st')"
    and "\<And>st. P st \<Longrightarrow> Q st"
    and "\<And>after st rs. P st \<Longrightarrow> list_pending_after PENDING_SCAN_PAGE after (sc_db st) = Inr rs \<Longrightarrow> R rs"
  shows "P st \<Longrightarrow> R pending \<Longrightarrow> scan_pages setup view storm_eye height limit pending scanned st = (st', answer) \<Longrightarrow> Q st'"
proof (induction "MAX_PENDING_SCAN - scanned" arbitrary: pending scanned st rule: less_induct)
  case less
  show ?case
  proof (cases "pending = []")
    case True
    then show ?thesis using less.prems assms(2) by (simp add: scan_pages.simps [of _ _ _ _ _ "[]"])
  next
    case False
    obtain st1 a where p: "scan_page setup view storm_eye height limit pending st = (st1, a)"
      by (cases "scan_page setup view storm_eye height limit pending st")
    note P = assms(1) [OF less.prems(1,2) p]
    show ?thesis
    proof (cases "a = Inr False \<and> \<not> MAX_PENDING_SCAN \<le> scanned + length pending \<and>
        (\<exists>rest. list_pending_after PENDING_SCAN_PAGE
            (Some (ur_block_height (snd (List.last pending)), fst (List.last pending))) (sc_db st1) = Inr rest)")
      case True
      then obtain rest where rest: "list_pending_after PENDING_SCAN_PAGE
            (Some (ur_block_height (snd (List.last pending)), fst (List.last pending))) (sc_db st1) = Inr rest" by blast
      have run: "scan_pages setup view storm_eye height limit rest (scanned + length pending) st1 = (st', answer)"
        using less.prems(3) False True rest p by (subst (asm) scan_pages.simps) (simp add: not_le)
      have "MAX_PENDING_SCAN - (scanned + length pending) < MAX_PENDING_SCAN - scanned"
        using True False by (auto intro!: diff_less_mono2)
      then show ?thesis using less.hyps [OF _ _ _ run] P True assms(3) [OF _ rest] by simp
    next
      case stop: False
      have "st' = st1"
        using less.prems(3) False stop p by (subst (asm) scan_pages.simps) (auto split: sum.splits bool.splits if_splits)
      then show ?thesis using P by simp
    qed
  qed
qed

lemma scan_pages_ok:
  assumes "scan_ok setup view st" "well_priced view" "length (sc_decoded st) < unat limit"
    and "hashed (ro_users setup) (rd_requests (sc_db st)) \<and> decoded_hashed (ro_users setup) st" "hashed (ro_users setup) pending"
    and "scan_pages setup view storm_eye height limit pending scanned st = (st', answer)"
  shows "scan_ok setup view st' \<and> length (sc_decoded st') \<le> unat limit \<and> decoded_hashed (ro_users setup) st'"
proof (rule scan_pages_keeps [where R = "hashed (ro_users setup)" and
      P = "\<lambda>st. scan_ok setup view st \<and> length (sc_decoded st) < unat limit \<and>
        hashed (ro_users setup) (rd_requests (sc_db st)) \<and> decoded_hashed (ro_users setup) st", OF _ _ _ _ _ assms(6)])
  fix rs st st' a
  assume "scan_ok setup view st \<and> length (sc_decoded st) < unat limit \<and>
      hashed (ro_users setup) (rd_requests (sc_db st)) \<and> decoded_hashed (ro_users setup) st"
    and "hashed (ro_users setup) rs" "scan_page setup view storm_eye height limit rs st = (st', a)"
  then show "(scan_ok setup view st' \<and> length (sc_decoded st') \<le> unat limit \<and> decoded_hashed (ro_users setup) st') \<and>
      (a = Inr False \<longrightarrow> scan_ok setup view st' \<and> length (sc_decoded st') < unat limit \<and>
        hashed (ro_users setup) (rd_requests (sc_db st')) \<and> decoded_hashed (ro_users setup) st')"
    using scan_page_ok [OF _ assms(2)] scan_page_hashed by blast
next
  fix after st rs
  assume "scan_ok setup view st \<and> length (sc_decoded st) < unat limit \<and>
      hashed (ro_users setup) (rd_requests (sc_db st)) \<and> decoded_hashed (ro_users setup) st"
    and "list_pending_after PENDING_SCAN_PAGE after (sc_db st) = Inr rs"
  then show "hashed (ro_users setup) rs" using list_pending_hashed by blast
qed (use assms(1,3,4,5) in auto)

lemma scan_pending_ok:
  assumes "well_priced view" "0 < unat limit" "scan_pending setup view storm_eye height limit pending db = (st', answer)"
    and "hashed (ro_users setup) (rd_requests db)" "hashed (ro_users setup) pending"
  shows "scan_ok setup view st' \<and> length (sc_decoded st') \<le> unat limit \<and> decoded_hashed (ro_users setup) st'"
  by (rule scan_pages_ok [OF _ assms(1) _ _ assms(5) assms(3) [unfolded scan_pending_def]])
    (simp_all add: scan_ok_def decoded_hashed_def assms(2,4))

text \<open>The number of batches does not depend on the prices.\<close>

lemma scan_request_count:
  "scan_request setup view storm_eye height limit r st = (st', answer) \<Longrightarrow>
   length (sc_decoded st') \<le> Suc (length (sc_decoded st)) \<and>
   (answer \<noteq> Inr True \<longrightarrow> length (sc_decoded st) < unat limit \<longrightarrow> length (sc_decoded st') < unat limit)"
  by (auto simp: scan_request_def include_batch_def Let_def fail_request_scan(2)
      split: prod.splits sum.splits round_rate.splits if_splits)

lemma scan_page_count:
  "length (sc_decoded st) < unat limit \<Longrightarrow> scan_page setup view storm_eye height limit rs st = (st', answer) \<Longrightarrow>
   length (sc_decoded st') \<le> unat limit \<and> (answer = Inr False \<longrightarrow> length (sc_decoded st') < unat limit)"
proof (induction rs arbitrary: st)
  case (Cons r rs)
  obtain st1 a where s: "scan_request setup view storm_eye height limit r st = (st1, a)"
    by (cases "scan_request setup view storm_eye height limit r st")
  show ?case
    using Cons.IH [of st1] Cons.prems scan_request_count [OF s] s by (auto split: sum.splits bool.splits)
qed auto

lemma scan_pages_count:
  assumes "length (sc_decoded st) < unat limit" "scan_pages setup view storm_eye height limit pending scanned st = (st', answer)"
  shows "length (sc_decoded st') \<le> unat limit"
proof (rule scan_pages_keeps [where R = "\<lambda>_. True" and P = "\<lambda>st. length (sc_decoded st) < unat limit", OF _ _ _ _ _ assms(2)])
  fix rs st st' a
  assume "length (sc_decoded st) < unat limit" "scan_page setup view storm_eye height limit rs st = (st', a)"
  then show "length (sc_decoded st') \<le> unat limit \<and> (a = Inr False \<longrightarrow> length (sc_decoded st') < unat limit)"
    by (rule scan_page_count)
qed (use assms(1) in simp_all)

end
