(* ===== verification/Round_Token.thy ===== *)
theory Round_Token
  imports Elements_Rpc
begin

text \<open>
  The reissuance tokens of a round (\<open>high_storm/user_requests.rs\<close>): a token lies in a confidential output of
  the Treasury, is found by scanning for its script and followed through the transactions of the mempool, and
  every signer checks that a round spends it and returns it unchanged. The zero-knowledge proofs and the
  encoding of the contract data are parameters; blinding keys are fixed inside them.
\<close>

record round_env =
  re_decode_token_data :: "bytes \<Rightarrow> (bytes \<times> u32) option"
  re_asset_proof_ok :: "bytes \<Rightarrow> bytes \<Rightarrow> bytes \<Rightarrow> bool"
  re_value_proof_ok :: "bytes \<Rightarrow> u64 \<Rightarrow> bytes \<Rightarrow> bytes \<Rightarrow> bool"
  re_blind_last :: "tx_out_secrets list \<Rightarrow> tx_out_secrets list \<Rightarrow> tx_out_secrets \<Rightarrow> bytes \<Rightarrow> tx_out option"
  re_fresh_secrets :: "tx_out_secrets \<Rightarrow> tx_out_secrets"
  re_blind :: "tx_out_secrets list \<Rightarrow> tx_out_secrets \<Rightarrow> bytes \<Rightarrow> tx_out option"
  re_from_txout :: "tx_out \<Rightarrow> pset_output"
  re_blinding_key :: bytes
  re_prove_asset :: "tx_out_secrets \<Rightarrow> bytes option"
  re_prove_value :: "tx_out_secrets \<Rightarrow> bytes \<Rightarrow> bytes \<Rightarrow> bytes option"

definition MAX_MEMPOOL_TOKEN_CHAIN_LENGTH :: nat where "MAX_MEMPOOL_TOKEN_CHAIN_LENGTH = 100"

definition token_txout :: "round_env \<Rightarrow> elements_env \<Rightarrow> network_asset \<Rightarrow> user_request_error + tx_out" where
  "token_txout renv env asset =
     bind_res (ok_or (RequestInvalid (na_name asset @ '' contract data is missing'')) (na_contract_data asset)) (\<lambda>encoded.
     bind_res (ok_or RequestEncoding (re_decode_token_data renv encoded)) (\<lambda>(issuance_tx, token_output_index).
     bind_res (ok_or (RequestInvalid (''invalid '' @ na_name asset @ '' issuance transaction'')) (ee_decode_tx env issuance_tx)) (\<lambda>t.
       if unat token_output_index < length (tx_output t) then Inr (tx_output t ! unat token_output_index)
       else Inl (RequestInvalid (''invalid '' @ na_name asset @ '' token output index'')))))"

definition get_raw_transaction :: "elements_rpc \<Rightarrow> bytes \<Rightarrow> u64 option \<Rightarrow> int + transaction" where
  "get_raw_transaction rpc txid block_height =
     (case block_height of
        None \<Rightarrow> rc_transaction rpc txid
      | Some height \<Rightarrow> bind_res (rc_block_hash rpc height) (\<lambda>block_hash. rc_transaction_in rpc txid block_hash))"

definition token_candidate ::
  "elements_env \<Rightarrow> outpoint \<Rightarrow> tx_out \<Rightarrow> tx_out_secrets \<Rightarrow> bytes \<Rightarrow> utxo option" where
  "token_candidate env outpoint candidate expected expected_script =
     Option.bind (ee_unblind env candidate) (\<lambda>secrets.
       if os_asset secrets \<noteq> os_asset expected \<or> os_value secrets \<noteq> os_value expected \<or>
          to_script candidate \<noteq> expected_script \<or> \<not> is_confidential (to_asset candidate) \<or>
          \<not> is_confidential (to_value candidate)
       then None
       else Some \<lparr>ut_outpoint = outpoint, ut_txout = candidate, ut_secrets = Some secrets\<rparr>)"

definition spends :: "transaction \<Rightarrow> outpoint \<Rightarrow> bool" where
  "spends t outpoint = list_ex (\<lambda>i. ti_previous i = outpoint) (tx_input t)"

text \<open>A node without the index of spenders answers -32601, a transaction that left the mempool -5.\<close>

fun scan_mempool :: "elements_rpc \<Rightarrow> outpoint \<Rightarrow> bytes list \<Rightarrow> user_request_error + bytes option" where
  "scan_mempool rpc outpoint [] = Inr None"
| "scan_mempool rpc outpoint (txid # txids) =
     (case get_raw_transaction rpc txid None of
        Inl e \<Rightarrow> if e = - 5 then scan_mempool rpc outpoint txids else Inl RequestRpc
      | Inr t \<Rightarrow> if spends t outpoint then Inr (Some txid) else scan_mempool rpc outpoint txids)"

definition find_mempool_spender :: "elements_rpc \<Rightarrow> outpoint \<Rightarrow> user_request_error + bytes option" where
  "find_mempool_spender rpc outpoint =
     (case rc_spender rpc outpoint of
        Inr spender \<Rightarrow> Inr spender
      | Inl e \<Rightarrow>
          if e \<noteq> - 32601 then Inl RequestRpc
          else bind_res (rpc_call (rc_mempool rpc)) (scan_mempool rpc outpoint))"

definition preserved_token ::
  "elements_env \<Rightarrow> bytes \<Rightarrow> transaction \<Rightarrow> tx_out_secrets \<Rightarrow> bytes \<Rightarrow> utxo option" where
  "preserved_token env txid t expected expected_script =
     find_map (\<lambda>(vout, candidate). token_candidate env (txid, of_nat vout) candidate expected expected_script)
       (zip [0..<length (tx_output t)] (tx_output t))"

text \<open>The loop of at most a hundred steps, counted down.\<close>

fun follow_token_chain ::
  "elements_env \<Rightarrow> elements_rpc \<Rightarrow> tx_out_secrets \<Rightarrow> bytes \<Rightarrow> nat \<Rightarrow> utxo \<Rightarrow> user_request_error + utxo" where
  "follow_token_chain env rpc expected expected_script 0 token =
     Inl (RequestInvalid ''unconfirmed token chain exceeds 100 transactions'')"
| "follow_token_chain env rpc expected expected_script (Suc steps) token =
     bind_res (find_mempool_spender rpc (ut_outpoint token)) (\<lambda>spender.
       case spender of
         None \<Rightarrow> Inr token
       | Some txid \<Rightarrow>
           bind_res (rpc_call (get_raw_transaction rpc txid None)) (\<lambda>t.
             if \<not> spends t (ut_outpoint token)
             then Inl (RequestInvalid ''reported token transaction does not spend the current token'')
             else
               bind_res (ok_or (RequestInvalid ''token spender does not preserve the confidential token'')
                           (preserved_token env txid t expected expected_script))
                 (follow_token_chain env rpc expected expected_script steps)))"

definition follow_mempool_token_chain ::
  "elements_env \<Rightarrow> elements_rpc \<Rightarrow> utxo \<Rightarrow> tx_out_secrets \<Rightarrow> bytes \<Rightarrow> user_request_error + utxo" where
  "follow_mempool_token_chain env rpc token expected expected_script =
     follow_token_chain env rpc expected expected_script MAX_MEMPOOL_TOKEN_CHAIN_LENGTH token"

fun first_token ::
  "elements_env \<Rightarrow> elements_rpc \<Rightarrow> string \<Rightarrow> tx_out_secrets \<Rightarrow> bytes \<Rightarrow> scanned_utxo list \<Rightarrow> user_request_error + utxo" where
  "first_token env rpc name expected script [] =
     Inl (RequestInvalid (''confidential '' @ name @ '' token UTXO is unavailable''))"
| "first_token env rpc name expected script (u # us) =
     bind_res (rpc_call (get_raw_transaction rpc (fst (su_outpoint u)) (su_height u))) (\<lambda>t.
       if length (tx_output t) \<le> unat (snd (su_outpoint u)) then first_token env rpc name expected script us
       else
         case token_candidate env (su_outpoint u) (tx_output t ! unat (snd (su_outpoint u))) expected script of
           None \<Rightarrow> first_token env rpc name expected script us
         | Some token \<Rightarrow> follow_mempool_token_chain env rpc token expected script)"

definition find_token_utxo ::
  "round_env \<Rightarrow> elements_env \<Rightarrow> elements_rpc \<Rightarrow> network_asset \<Rightarrow> user_request_error + utxo" where
  "find_token_utxo renv env rpc asset =
     bind_res (ok_or (RequestInvalid (na_name asset @ '' token id is missing'')) (na_reissuance_token_id asset)) (\<lambda>token_id.
     bind_res (token_txout renv env asset) (\<lambda>template.
     bind_res (ok_or (RequestInvalid (''failed to unblind '' @ na_name asset @ '' token'')) (ee_unblind env template)) (\<lambda>secrets.
       if os_asset secrets \<noteq> token_id \<or> to_script template \<noteq> na_contract_script asset \<or>
          \<not> is_confidential (to_asset template) \<or> \<not> is_confidential (to_value template)
       then Inl (RequestInvalid (''invalid confidential '' @ na_name asset @ '' token template''))
       else
         bind_res (rpc_call (rc_scan rpc (na_contract_script asset))) (\<lambda>unspents.
           first_token env rpc (na_name asset) secrets (na_contract_script asset) unspents))))"

subsection \<open>The signer's check\<close>

text \<open>The token at \<open>index\<close> is returned unchanged.\<close>

definition validate_token ::
  "round_env \<Rightarrow> elements_env \<Rightarrow> pset \<Rightarrow> nat \<Rightarrow> network_asset \<Rightarrow> user_request_error + unit" where
  "validate_token renv env p index asset =
     bind_res (witness_utxo p index) (\<lambda>token_input.
     bind_res (token_txout renv env asset) (\<lambda>expected_token.
     bind_res (ok_or (RequestInvalid (''failed to unblind '' @ na_name asset @ '' token template''))
                 (ee_unblind env expected_token)) (\<lambda>secrets.
     bind_res (ok_or (RequestInvalid (na_name asset @ '' token asset is explicit'')) (commitment (to_asset token_input))) (\<lambda>asset_comm.
     bind_res (ok_or (RequestInvalid (na_name asset @ '' token value is explicit'')) (commitment (to_value token_input))) (\<lambda>value_comm.
     let fields = ps_inputs p ! index in
     if pi_asset fields \<noteq> Some (os_asset secrets) \<or> pi_amount fields \<noteq> Some (os_value secrets) \<or>
        to_script token_input \<noteq> to_script expected_token \<or> \<not> is_confidential (to_asset token_input) \<or>
        \<not> is_confidential (to_value token_input) \<or>
        \<not> (case pi_blind_asset_proof fields of None \<Rightarrow> False
            | Some proof \<Rightarrow> re_asset_proof_ok renv proof (os_asset secrets) asset_comm) \<or>
        \<not> (case pi_blind_value_proof fields of None \<Rightarrow> False
            | Some proof \<Rightarrow> re_value_proof_ok renv proof (os_value secrets) asset_comm value_comm)
     then Inl (RequestInvalid (''invalid '' @ na_name asset @ '' reissuance token input''))
     else
       bind_res (if index < length (ps_outputs p) then Inr (ee_to_txout env (ps_outputs p ! index))
                 else Inl (RequestInvalid (''missing '' @ na_name asset @ '' token output''))) (\<lambda>token_output.
       bind_res (ok_or (RequestInvalid (''failed to unblind '' @ na_name asset @ '' token output''))
                   (ee_unblind env token_output)) (\<lambda>out_secrets.
         if os_asset out_secrets \<noteq> os_asset secrets \<or> os_value out_secrets \<noteq> os_value secrets \<or>
            to_script token_output \<noteq> to_script token_input \<or> \<not> is_confidential (to_asset token_output) \<or>
            \<not> is_confidential (to_value token_output)
         then Inl (RequestInvalid (na_name asset @ '' reissuance token is not preserved''))
         else Inr ())))))))"

subsection \<open>Lemmas\<close>

text \<open>A token carries the asset and the amount of the original one, under the same script.\<close>

definition same_token :: "utxo \<Rightarrow> tx_out_secrets \<Rightarrow> bytes \<Rightarrow> bool" where
  "same_token u expected script \<longleftrightarrow>
     to_script (ut_txout u) = script \<and> is_confidential (to_asset (ut_txout u)) \<and> is_confidential (to_value (ut_txout u)) \<and>
     (\<exists>s. ut_secrets u = Some s \<and> os_asset s = os_asset expected \<and> os_value s = os_value expected)"

lemma token_candidate_same: "token_candidate env outpoint out expected script = Some u \<Longrightarrow> same_token u expected script"
  by (auto simp: token_candidate_def same_token_def bind_eq_Some_conv split: if_splits)

lemma preserved_token_same: "preserved_token env txid t expected script = Some u \<Longrightarrow> same_token u expected script"
  by (auto simp: preserved_token_def dest!: find_map_SomeD token_candidate_same)

lemma follow_token_chain_same:
  "follow_token_chain env rpc expected script steps token = Inr u \<Longrightarrow> same_token token expected script \<Longrightarrow>
   same_token u expected script \<and> find_mempool_spender rpc (ut_outpoint u) = Inr None"
proof (induction steps arbitrary: token)
  case 0
  then show ?case by simp
next
  case (Suc steps)
  then obtain spender where s: "find_mempool_spender rpc (ut_outpoint token) = Inr spender"
    by (auto simp: bind_res_eq_Inr)
  show ?case
  proof (cases spender)
    case None
    then show ?thesis using Suc.prems s by simp
  next
    case (Some txid)
    then obtain t next' where "preserved_token env txid t expected script = Some next'"
      "follow_token_chain env rpc expected script steps next' = Inr u"
      using Suc.prems(1) s by (auto simp: bind_res_eq_Inr split: if_splits)
    then show ?thesis using Suc.IH preserved_token_same by blast
  qed
qed

lemma first_token_same:
  "first_token env rpc name expected script us = Inr u \<Longrightarrow>
   same_token u expected script \<and> find_mempool_spender rpc (ut_outpoint u) = Inr None"
proof (induction us)
  case Nil
  then show ?case by simp
next
  case (Cons x us)
  then show ?case
    by (auto simp: bind_res_eq_Inr follow_mempool_token_chain_def split: if_splits option.splits
        dest: follow_token_chain_same token_candidate_same)
qed

lemma find_token_utxo_same:
  assumes "find_token_utxo renv env rpc asset = Inr u"
  shows "\<exists>template secrets. token_txout renv env asset = Inr template \<and> ee_unblind env template = Some secrets \<and>
    same_token u secrets (na_contract_script asset) \<and> find_mempool_spender rpc (ut_outpoint u) = Inr None"
  using assms by (auto simp: find_token_utxo_def bind_res_eq_Inr split: if_splits dest: first_token_same)

end
