(* ===== verification/Round_Build.thy ===== *)
theory Round_Build
  imports Round_Scan Round_Token Droplet_Exchange
begin

text \<open>
  The transaction of a round (the second half of \<open>prepare_round_candidate\<close> in
  \<open>high_storm/user_requests.rs\<close>). Input 0 is the Storm Eye, then the tokens, then the fee outputs batch by
  batch; the outputs are the Storm Eye, the tokens, the issued vouchers, a reserve for every batch, the
  descriptor, the operational fee and the fee of the miners. The JSON of the results is a parameter of the
  operations that store it; here a payload is its content.
\<close>

datatype round_program = StormEyeProgram auth_program auth_witness | TreasuryProgram | AccountProgram bytes

record round_input =
  ri_outpoint :: outpoint
  ri_txout :: tx_out
  ri_issuance :: "(u64 \<times> bytes) option"
  ri_program :: round_program

record round_token =
  tk_asset :: network_asset
  tk_utxo :: utxo
  tk_secrets :: tx_out_secrets
  tk_amount :: u64

record signed_price =
  sg_price_data :: bytes
  sg_signature :: bytes
  sg_branch :: bytes
  sg_proof :: "(bool \<times> bytes) list"

datatype issued_payload = NoPayload | TickTimestamp u64 | SignedPrice signed_price

record request_result =
  qr_kind :: string
  qr_vout :: nat
  qr_auth_method :: utxo_auth_method
  qr_payload :: issued_payload

record round_transaction =
  rt_pset :: pset
  rt_descriptors :: "issued_descriptor list"
  rt_descriptor_output :: nat
  rt_storm_eye :: network_asset
  rt_network :: simplicity_network

record prepared_round =
  pd_request :: execute_user_requests
  pd_transaction :: round_transaction
  pd_inputs :: "round_input list"
  pd_spent :: "tx_out list"
  pd_results :: "(bytes \<times> request_result list) list"
  pd_max_weight :: nat
  pd_instructed :: "price_feed_data option"

definition PLACEHOLDER_SIGNER :: bytes where
  "PLACEHOLDER_SIGNER =
     [0x79, 0xbe, 0x66, 0x7e, 0xf9, 0xdc, 0xbb, 0xac, 0x55, 0xa0, 0x62, 0x95, 0xce, 0x87, 0x0b, 0x07,
      0x02, 0x9b, 0xfc, 0xdb, 0x2d, 0xce, 0x28, 0xd9, 0x59, 0xf2, 0x81, 0x5b, 0x16, 0xf8, 0x17, 0x98]"

definition STORM_EYE_AUTH_WITNESS_TEMPLATE :: "nat list" where
  "STORM_EYE_AUTH_WITNESS_TEMPLATE = [512, 2048, 32, 129]"

definition issues_verifier :: "string \<Rightarrow> bool" where
  "issues_verifier request_kind = (request_kind = PRICE_REQUEST_KIND)"

subsection \<open>Tokens\<close>

definition find_round_token ::
  "round_env \<Rightarrow> elements_env \<Rightarrow> elements_rpc \<Rightarrow> network_asset \<Rightarrow> u64 \<Rightarrow> user_request_error + round_token" where
  "find_round_token renv env rpc asset issuance_amount =
     bind_res (find_token_utxo renv env rpc asset) (\<lambda>utxo.
     bind_res (ok_or (RequestInvalid (na_name asset @ '' token secrets are missing'')) (ut_secrets utxo)) (\<lambda>secrets.
       Inr \<lparr>tk_asset = asset, tk_utxo = utxo, tk_secrets = secrets, tk_amount = issuance_amount\<rparr>))"

definition round_asset :: "asset_db \<Rightarrow> string \<Rightarrow> user_request_error + network_asset" where
  "round_asset assets kind = ok_or (RequestMissingAsset kind) (get_asset kind assets)"

definition verifier_count :: "scanned_batch list \<Rightarrow> nat" where
  "verifier_count decoded =
     length (filter (issues_verifier \<circ> uq_kind) (concat (map (nu_requests \<circ> sb_request) decoded)))"

text \<open>Each token reissues the sum of its asset's outputs; the Tick comes first.\<close>

definition tick_token ::
  "round_setup \<Rightarrow> round_env \<Rightarrow> round_view \<Rightarrow> nat \<Rightarrow> user_request_error + round_token option" where
  "tick_token setup renv view tick_count =
     (if tick_count = 0 then Inr None
      else
        bind_res (round_asset (rv_assets view) TICK_ASSET_KIND) (\<lambda>asset.
        bind_res (ok_or (RequestInvalid ''Tick issuance amount overflow'')
                    (checked_mul (rv_timestamp view) (of_nat tick_count))) (\<lambda>amount.
        bind_res (find_round_token renv (ro_elements setup) (rv_rpc view) asset amount) (\<lambda>t. Inr (Some t)))))"

definition verifier_token ::
  "round_setup \<Rightarrow> round_env \<Rightarrow> round_view \<Rightarrow> nat \<Rightarrow> user_request_error + round_token option" where
  "verifier_token setup renv view count' =
     (if count' = 0 then Inr None
      else
        bind_res (round_asset (rv_assets view) ORACLE_VERIFIER_KIND) (\<lambda>asset.
        bind_res (find_round_token renv (ro_elements setup) (rv_rpc view) asset (of_nat count')) (\<lambda>t. Inr (Some t))))"

definition option_list :: "'a option \<Rightarrow> 'a list" where
  "option_list x = (case x of None \<Rightarrow> [] | Some a \<Rightarrow> [a])"

definition token_input_secrets :: "round_token list \<Rightarrow> tx_out_secrets list" where
  "token_input_secrets tokens =
     concat (map (\<lambda>t. [tk_secrets t,
       \<lparr>os_asset = na_asset_id (tk_asset t), os_asset_blinder = ZERO_BLINDER, os_value = tk_amount t,
        os_value_blinder = ZERO_BLINDER\<rparr>]) tokens)"

subsection \<open>Inputs\<close>

definition storm_eye_input ::
  "elements_env \<Rightarrow> network_asset \<Rightarrow> utxo \<Rightarrow> user_request_error + round_input" where
  "storm_eye_input env storm_eye utxo =
     bind_res (map_err (\<lambda>_. RequestStormEye []) (storm_eye_program env storm_eye)) (\<lambda>program.
     bind_res (ok_or (RequestInvalid ''Storm Eye contract data is missing'') (na_contract_data storm_eye)) (\<lambda>encoded.
     bind_res (ok_or RequestEncoding (ee_decode_contract env encoded)) (\<lambda>data.
       Inr \<lparr>ri_outpoint = ut_outpoint utxo, ri_txout = ut_txout utxo, ri_issuance = None,
            ri_program = StormEyeProgram program
              \<lparr>aw_root = sd_storm_tree_root data, aw_rescue_height = sd_rescue_height data,
               aw_signature = replicate 64 0, aw_branch = sd_storm_tree_root data,
               aw_proof = replicate TREE_DEPTH None, aw_kind = Inclusion 0\<rparr>\<rparr>)))"

definition token_input :: "round_token \<Rightarrow> user_request_error + round_input" where
  "token_input t =
     bind_res (ok_or (RequestInvalid (na_name (tk_asset t) @ '' entropy is missing'')) (na_entropy (tk_asset t))) (\<lambda>entropy.
       Inr \<lparr>ri_outpoint = ut_outpoint (tk_utxo t), ri_txout = ut_txout (tk_utxo t),
            ri_issuance = Some (tk_amount t, entropy), ri_program = TreasuryProgram\<rparr>)"

definition fee_input :: "bytes \<Rightarrow> utxo \<Rightarrow> round_input" where
  "fee_input owner u =
     \<lparr>ri_outpoint = ut_outpoint u, ri_txout = ut_txout u, ri_issuance = None, ri_program = AccountProgram owner\<rparr>"

text \<open>The fee inputs of a batch: their total, and the secrets of the outputs they spend.\<close>

fun fee_inputs_from ::
  "utxo list \<Rightarrow> u64 \<Rightarrow> user_request_error + u64 \<times> tx_out_secrets list" where
  "fee_inputs_from [] input_total = Inr (input_total, [])"
| "fee_inputs_from (u # us) input_total =
     bind_res (ok_or (RequestInvalid ''fee input overflow'') (checked_add input_total (utxo_amount u))) (\<lambda>input_total'.
     bind_res (explicit_txout_secrets (ut_txout u)) (\<lambda>secrets.
     bind_res (fee_inputs_from us input_total') (\<lambda>(sum', rest). Inr (sum', secrets # rest))))"

definition batch_inputs ::
  "users_env \<Rightarrow> scanned_batch \<Rightarrow> user_request_error + round_input list \<times> u64 \<times> tx_out_secrets list" where
  "batch_inputs users b =
     bind_res (decode_array users (uh_public_key (nu_header (sb_request b)))) (\<lambda>owner.
     bind_res (fee_inputs_from (sb_fee_utxos b) 0) (\<lambda>(input_total, secrets).
       Inr (map (fee_input owner) (sb_fee_utxos b), input_total, secrets)))"

subsection \<open>Issued outputs\<close>

text \<open>
  \<open>expect\<close> on an asset the round does not reissue would panic; it stands here as an error, and the counts
  of \<open>tick_token\<close> and \<open>verifier_token\<close> exclude it.
\<close>

definition issue_request ::
  "round_setup \<Rightarrow> network_asset \<Rightarrow> u64 \<Rightarrow> bytes option \<Rightarrow> bytes option \<Rightarrow> bytes \<Rightarrow> u32 \<Rightarrow> nat \<Rightarrow> user_request \<Rightarrow>
   user_request_error + issued_descriptor \<times> (bytes \<times> u64 \<times> bytes) \<times> request_result" where
  "issue_request setup storm_eye timestamp tick_asset verifier_asset owner reserve_output_index vout user_request =
     bind_res (map_err RequestInvalid (us_details_json (ro_users setup) (uq_payload user_request))) (\<lambda>details.
     bind_res (if vout < 2 ^ 32 then Inr (of_nat vout) else Inl (RequestInvalid ''issued output index overflow'')) (\<lambda>output_index.
     let verifier = issues_verifier (uq_kind user_request) in
     bind_res (map_err RequestInvalid (from_request (ro_elements setup) output_index reserve_output_index owner
                 (td_auth_method details) (if verifier then Some PLACEHOLDER_SIGNER else None))) (\<lambda>descriptor.
     bind_res (if verifier then ok_or (RequestInvalid ''a round with Verifiers reissues them'') verifier_asset
               else ok_or (RequestInvalid ''a round with Ticks reissues them'') tick_asset) (\<lambda>asset.
     bind_res (map_err RequestInvalid (descriptor_program (ro_elements setup) (na_asset_id storm_eye) descriptor)) (\<lambda>program.
       Inr (descriptor,
            (voucher_script (ro_elements setup) program (ro_network setup), if verifier then 1 else timestamp, asset),
            \<lparr>qr_kind = uq_kind user_request, qr_vout = vout, qr_auth_method = td_auth_method details,
             qr_payload = if verifier then NoPayload else TickTimestamp timestamp\<rparr>))))))"

fun issue_requests ::
  "(nat \<Rightarrow> user_request \<Rightarrow> user_request_error + 'a) \<Rightarrow> nat \<Rightarrow> user_request list \<Rightarrow> user_request_error + 'a list" where
  "issue_requests issue vout [] = Inr []"
| "issue_requests issue vout (r # rs) =
     bind_res (issue vout r) (\<lambda>x.
     bind_res (issue_requests issue (Suc vout) rs) (\<lambda>xs. Inr (x # xs)))"

fun issue_batches ::
  "round_setup \<Rightarrow> network_asset \<Rightarrow> u64 \<Rightarrow> bytes option \<Rightarrow> bytes option \<Rightarrow> nat \<Rightarrow> nat \<Rightarrow> scanned_batch list \<Rightarrow>
   user_request_error + (bytes \<times> (issued_descriptor \<times> (bytes \<times> u64 \<times> bytes) \<times> request_result) list) list" where
  "issue_batches setup storm_eye timestamp tick_asset verifier_asset reserve_output vout [] = Inr []"
| "issue_batches setup storm_eye timestamp tick_asset verifier_asset reserve_output vout (b # bs) =
     bind_res (decode_array (ro_users setup) (uh_public_key (nu_header (sb_request b)))) (\<lambda>owner.
     bind_res (if reserve_output < 2 ^ 32 then Inr (of_nat reserve_output)
               else Inl (RequestInvalid ''reserve output index overflow'')) (\<lambda>reserve_output_index.
     bind_res (issue_requests (issue_request setup storm_eye timestamp tick_asset verifier_asset owner reserve_output_index)
                 vout (nu_requests (sb_request b))) (\<lambda>issued.
     bind_res (issue_batches setup storm_eye timestamp tick_asset verifier_asset (Suc reserve_output)
                 (vout + length issued) bs) (\<lambda>rest.
       Inr ((sb_hash b, issued) # rest)))))"

definition reserve_outputs ::
  "round_setup \<Rightarrow> network_asset \<Rightarrow> scanned_batch list \<Rightarrow> u64 list \<Rightarrow> user_request_error + (bytes \<times> u64 \<times> bytes) list" where
  "reserve_outputs setup storm_eye decoded parts =
     map_res (\<lambda>(b, reserve).
       bind_res (decode_array (ro_users setup) (uh_public_key (nu_header (sb_request b)))) (\<lambda>owner.
         Inr (ee_account_script (ro_elements setup) (na_asset_id storm_eye) owner (ro_network setup), reserve,
              ee_policy_asset (ro_elements setup) (ro_network setup)))) (zip decoded parts)"

subsection \<open>Blinding the tokens\<close>

text \<open>The outputs at the tokens' positions are blinded anew for the Treasury; the last one balances them.\<close>

definition blind_token_output ::
  "round_env \<Rightarrow> bool \<Rightarrow> round_token \<Rightarrow> tx_out_secrets list \<Rightarrow> tx_out_secrets list \<Rightarrow>
   user_request_error + tx_out \<times> tx_out_secrets list" where
  "blind_token_output renv is_last t spent_secrets output_secrets =
     (let script = to_script (ut_txout (tk_utxo t));
          failed = RequestInvalid (''failed to reblind '' @ na_name (tk_asset t) @ '' token'')
      in if is_last then
           bind_res (ok_or failed (re_blind_last renv spent_secrets output_secrets (tk_secrets t) script)) (\<lambda>out.
             Inr (out, output_secrets))
         else
           (let secrets = re_fresh_secrets renv (tk_secrets t) in
            bind_res (ok_or failed (re_blind renv spent_secrets secrets script)) (\<lambda>out.
              Inr (out, output_secrets @ [secrets]))))"

definition blind_token_input :: "round_env \<Rightarrow> round_token \<Rightarrow> pset_input \<Rightarrow> user_request_error + pset_input" where
  "blind_token_input renv t input =
     (let out = ut_txout (tk_utxo t); name = na_name (tk_asset t); secrets = tk_secrets t in
      bind_res (ok_or (RequestInvalid (name @ '' token asset is explicit'')) (commitment (to_asset out))) (\<lambda>asset_comm.
      bind_res (ok_or (RequestInvalid (name @ '' token value is explicit'')) (commitment (to_value out))) (\<lambda>value_comm.
      bind_res (ok_or (RequestInvalid (''failed to prove '' @ name @ '' token asset'')) (re_prove_asset renv secrets)) (\<lambda>asset_proof.
      bind_res (ok_or (RequestInvalid (''failed to prove '' @ name @ '' token value''))
                  (re_prove_value renv secrets value_comm asset_comm)) (\<lambda>value_proof.
        Inr (input\<lparr>pi_asset := Some (os_asset secrets), pi_amount := Some (os_value secrets),
                   pi_blind_asset_proof := Some asset_proof, pi_blind_value_proof := Some value_proof\<rparr>))))))"

fun reblind_from ::
  "round_env \<Rightarrow> tx_out_secrets list \<Rightarrow> nat \<Rightarrow> round_token list \<Rightarrow> tx_out_secrets list \<Rightarrow> pset \<Rightarrow>
   user_request_error + pset" where
  "reblind_from renv spent_secrets index [] output_secrets p = Inr p"
| "reblind_from renv spent_secrets index (t # ts) output_secrets p =
     bind_res (blind_token_output renv (ts = []) t spent_secrets output_secrets) (\<lambda>(out, output_secrets').
     let new_output = (re_from_txout renv out)\<lparr>po_blinding_key := Some (re_blinding_key renv),
                                               po_blinder_index := Some (of_nat index)\<rparr>
     in bind_res (blind_token_input renv t (ps_inputs p ! index)) (\<lambda>new_input.
          reblind_from renv spent_secrets (Suc index) ts output_secrets'
            (p\<lparr>ps_outputs := (ps_outputs p)[index := new_output], ps_inputs := (ps_inputs p)[index := new_input]\<rparr>)))"

definition reblind_tokens ::
  "round_env \<Rightarrow> elements_env \<Rightarrow> pset \<Rightarrow> round_token list \<Rightarrow> tx_out_secrets list \<Rightarrow> user_request_error + pset" where
  "reblind_tokens renv env p tokens spent_secrets =
     bind_res (map_res (\<lambda>index. explicit_txout_secrets (ee_to_txout env (ps_outputs p ! index)))
                 (filter (\<lambda>index. \<not> (1 \<le> index \<and> index \<le> length tokens)) [0..<length (ps_outputs p)]))
       (\<lambda>output_secrets. reblind_from renv spent_secrets 1 tokens output_secrets p)"

subsection \<open>The branch\<close>

definition issuance_signing_hash ::
  "elements_env \<Rightarrow> pset \<Rightarrow> network_asset \<Rightarrow> simplicity_network \<Rightarrow> user_request_error + bytes" where
  "issuance_signing_hash env = signing_hash env (\<lambda>_. RequestStormEye [])
     (\<lambda>e. RequestInvalid (''cannot derive Storm Eye sighash: '' @ e))"

definition committed_to :: "issued_descriptor list \<Rightarrow> bytes \<Rightarrow> issued_descriptor list" where
  "committed_to descriptors branch =
     map (\<lambda>d. if is_verifier d then d\<lparr>id_signer := Some branch\<rparr> else d) descriptors"

definition set_output_script :: "nat \<Rightarrow> bytes \<Rightarrow> pset \<Rightarrow> pset" where
  "set_output_script index script p =
     p\<lparr>ps_outputs := (ps_outputs p)[index := (ps_outputs p ! index)\<lparr>po_script := script\<rparr>]\<rparr>"

definition commit_verifier ::
  "elements_env \<Rightarrow> bytes \<Rightarrow> simplicity_network \<Rightarrow> issued_descriptor \<Rightarrow> pset \<Rightarrow> user_request_error + pset" where
  "commit_verifier env storm_eye_asset_id network d p =
     bind_res (map_err RequestInvalid (descriptor_program env storm_eye_asset_id d)) (\<lambda>program.
       Inr (set_output_script (unat (id_output_index d)) (voucher_script env program network) p))"

definition for_branch ::
  "elements_env \<Rightarrow> round_transaction \<Rightarrow> bytes \<Rightarrow> user_request_error + pset \<times> bytes" where
  "for_branch env t branch =
     bind_res
       (if list_ex is_verifier (rt_descriptors t) then
          (let descriptors = committed_to (rt_descriptors t) branch in
           bind_res (fold_res (commit_verifier env (na_asset_id (rt_storm_eye t)) (rt_network t))
                       (filter is_verifier descriptors) (rt_pset t)) (\<lambda>p.
           bind_res (map_err RequestInvalid (descriptor_script_pubkey env descriptors)) (\<lambda>script.
             Inr (set_output_script (rt_descriptor_output t) script p))))
        else Inr (rt_pset t))
       (\<lambda>p. bind_res (issuance_signing_hash env p (rt_storm_eye t) (rt_network t)) (\<lambda>hash. Inr (p, hash)))"

subsection \<open>The whole transaction\<close>

definition assemble_round ::
  "round_setup \<Rightarrow> network_asset \<Rightarrow> utxo \<Rightarrow> round_token list \<Rightarrow> (bytes \<times> u64 \<times> bytes) list \<Rightarrow>
   (bytes \<times> u64 \<times> bytes) list \<Rightarrow> bytes \<Rightarrow> nat \<Rightarrow> (bytes \<times> u64 \<times> bytes) list" where
  "assemble_round setup storm_eye storm_eye_utxo tokens issued_outputs account_outputs descriptor_script issued_count =
     (let policy_asset = ee_policy_asset (ro_elements setup) (ro_network setup) in
      output_from_utxo storm_eye_utxo # map (output_from_utxo \<circ> tk_utxo) tokens @ issued_outputs @ account_outputs @
      [(descriptor_script, 0, policy_asset),
       (ee_treasury_script (ro_elements setup) (na_asset_id storm_eye) (ro_network setup),
        pc_operational_fee (ro_config setup) * of_nat issued_count, policy_asset),
       ([], pc_issuance_fee (ro_config setup), policy_asset)])"

definition build_round ::
  "round_setup \<Rightarrow> round_env \<Rightarrow> round_view \<Rightarrow> network_asset \<Rightarrow> utxo \<Rightarrow> nat \<Rightarrow> scan_state \<Rightarrow>
   user_request_error + prepared_round" where
  "build_round setup renv view storm_eye storm_eye_utxo max_weight st =
     (let decoded = sc_decoded st; env = ro_elements setup; n_verifiers = verifier_count decoded in
      bind_res (tick_token setup renv view (sc_issued st - n_verifiers)) (\<lambda>tick.
      bind_res (verifier_token setup renv view n_verifiers) (\<lambda>verifier.
      let tokens = option_list tick @ option_list verifier in
      bind_res (storm_eye_input env storm_eye storm_eye_utxo) (\<lambda>eye_input.
      bind_res (map_res token_input tokens) (\<lambda>token_inputs.
      bind_res (explicit_txout_secrets (ut_txout storm_eye_utxo)) (\<lambda>eye_secrets.
      bind_res (map_res (batch_inputs (ro_users setup)) decoded) (\<lambda>batches.
      bind_res (issue_batches setup storm_eye (rv_timestamp view) (map_option (na_asset_id \<circ> tk_asset) tick)
                  (map_option (na_asset_id \<circ> tk_asset) verifier) (1 + length tokens + sc_issued st)
                  (1 + length tokens) decoded) (\<lambda>issued.
      bind_res (allocate_account_reserves
                  (map (\<lambda>(b, _, input_total, _). (length (nu_requests (sb_request b)), input_total)) (zip decoded batches))
                  (ro_config setup)) (\<lambda>parts.
      bind_res (reserve_outputs setup storm_eye decoded parts) (\<lambda>account_outputs.
      let descriptors = map fst (concat (map snd issued));
          issued_outputs = map (fst \<circ> snd) (concat (map snd issued)) in
      bind_res (map_err RequestInvalid (descriptor_script_pubkey env descriptors)) (\<lambda>descriptor_script.
      let inputs = eye_input # token_inputs @ concat (map fst batches);
          outputs = assemble_round setup storm_eye storm_eye_utxo tokens issued_outputs account_outputs
                      descriptor_script (sc_issued st);
          spent_secrets = eye_secrets # token_input_secrets tokens @ concat (map (snd \<circ> snd) batches);
          unblinded = ee_build_pset env (map (\<lambda>i. (ri_outpoint i, ri_txout i, ri_issuance i)) inputs) outputs in
      bind_res (reblind_tokens renv env unblinded tokens spent_secrets) (\<lambda>p.
      let t = \<lparr>rt_pset = p, rt_descriptors = descriptors,
               rt_descriptor_output = 1 + length tokens + length issued_outputs + length account_outputs,
               rt_storm_eye = storm_eye, rt_network = ro_network setup\<rparr> in
      bind_res (for_branch env t PLACEHOLDER_SIGNER) (\<lambda>(branch_pset, hash).
        Inr \<lparr>pd_request = \<lparr>eu_tx = ee_encode_pset env branch_pset, eu_signing_hash = hash, eu_branch = PLACEHOLDER_SIGNER,
               eu_external_requests = map (\<lambda>b. \<lparr>er_request_hash = sb_hash b,
                   er_network_user_requests = ur_request (sb_row b),
                   er_additional_payload = batch_payload (sb_feed b) (sc_instructed st)\<rparr>) decoded,
               eu_chain_tip = None\<rparr>,
             pd_transaction = t, pd_inputs = inputs, pd_spent = map ri_txout inputs,
             pd_results = map (\<lambda>(hash, xs). (hash, map (snd \<circ> snd) xs)) issued,
             pd_max_weight = max_weight, pd_instructed = sc_instructed st\<rparr>)))))))))))))"

subsection \<open>The weight\<close>

definition finalize_program ::
  "elements_env \<Rightarrow> bytes \<Rightarrow> pset \<Rightarrow> round_program \<Rightarrow> nat \<Rightarrow> simplicity_network \<Rightarrow> string + bytes list" where
  "finalize_program env storm_eye_asset_id p program index network =
     (case program of
        StormEyeProgram auth w \<Rightarrow> ee_finalize_auth env auth w p index network
      | TreasuryProgram \<Rightarrow> ee_finalize_treasury env storm_eye_asset_id p index network
      | AccountProgram owner \<Rightarrow> ee_finalize_account env storm_eye_asset_id owner p index network)"

fun finalize_inputs ::
  "elements_env \<Rightarrow> bytes \<Rightarrow> simplicity_network \<Rightarrow> (string \<Rightarrow> user_request_error) \<Rightarrow> (nat \<times> round_program) list \<Rightarrow> pset \<Rightarrow>
   user_request_error + pset" where
  "finalize_inputs env storm_eye_asset_id network err [] p = Inr p"
| "finalize_inputs env storm_eye_asset_id network err ((index, program) # rest) p =
     bind_res (map_err err (finalize_program env storm_eye_asset_id p program index network)) (\<lambda>w.
       finalize_inputs env storm_eye_asset_id network err rest (set_final_witness p index w))"

definition finalized_dummy_weight ::
  "elements_env \<Rightarrow> bytes \<Rightarrow> round_input list \<Rightarrow> pset \<Rightarrow> simplicity_network \<Rightarrow> user_request_error + nat" where
  "finalized_dummy_weight env storm_eye_asset_id inputs p network =
     (if ps_inputs p = [] then Inl (RequestInvalid ''cannot estimate a transaction without inputs'')
      else
        bind_res (finalize_inputs env storm_eye_asset_id network
                    (\<lambda>e. RequestInvalid (''failed to estimate covenant input weight: '' @ e))
                    (drop 1 (zip [0..<length inputs] (map ri_program inputs)))
                    (set_final_witness p 0 (map (\<lambda>n. replicate n 0) STORM_EYE_AUTH_WITNESS_TEMPLATE))) (\<lambda>p'.
        bind_res (map_err RequestPset (ee_extract_tx env p')) (\<lambda>t. Inr (ee_weight env t))))"

definition estimated_weight :: "elements_env \<Rightarrow> prepared_round \<Rightarrow> user_request_error + nat" where
  "estimated_weight env round' =
     finalized_dummy_weight env (na_asset_id (rt_storm_eye (pd_transaction round'))) (pd_inputs round')
       (rt_pset (pd_transaction round')) (rt_network (pd_transaction round'))"

end
