(* ===== verification/Round_Validation.thy ===== *)
theory Round_Validation
  imports Round_Build
begin

text \<open>
  What every signer checks of a round before it signs (\<open>validate_execute_request\<close>, \<open>validate_accounting_outputs\<close>,
  \<open>require_unreserved_anchored_fee_utxos\<close> and \<open>validate_execute\<close> in \<open>high_storm/user_requests.rs\<close>), and how the
  confirmations of issued rounds are followed (\<open>reconcile_confirmations\<close>).
\<close>

definition MAX_TICK_TIME_SKEW_SECS :: nat where "MAX_TICK_TIME_SKEW_SECS = 120"

record read_batch =
  ba_request :: network_user_requests
  ba_fee_utxos :: "outpoint list"
  ba_owner :: bytes

subsection \<open>The batches of the message\<close>

definition read_external ::
  "users_env \<Rightarrow> external_request \<Rightarrow> price_feed_data option \<Rightarrow> user_request_error + read_batch \<times> price_feed_data option" where
  "read_external env external instructed =
     (if us_sha256 env (er_network_user_requests external) \<noteq> er_request_hash external
      then Inl (RequestInvalid ''external request hash mismatch'')
      else
        bind_res (map_err RequestInvalid (validate_encoded_request env (er_network_user_requests external)))
          (\<lambda>(request, fee_utxos, named_feed).
        bind_res (instructed_price named_feed (er_additional_payload external) instructed) (\<lambda>instructed'.
        bind_res (ok_or (RequestInvalid ''invalid requester public key'')
                    (us_hex_decode env (uh_public_key (nu_header request)))) (\<lambda>owner.
          if length owner = 32 \<and> us_valid_x_only env owner
          then Inr (\<lparr>ba_request = request, ba_fee_utxos = fee_utxos, ba_owner = owner\<rparr>, instructed')
          else Inl (RequestInvalid ''invalid requester public key'')))))"

fun read_externals ::
  "users_env \<Rightarrow> external_request list \<Rightarrow> price_feed_data option \<Rightarrow>
   user_request_error + read_batch list \<times> price_feed_data option" where
  "read_externals env [] instructed = Inr ([], instructed)"
| "read_externals env (e # es) instructed =
     bind_res (read_external env e instructed) (\<lambda>(b, instructed').
     bind_res (read_externals env es instructed') (\<lambda>(bs, final). Inr (b # bs, final)))"

definition batch_requests :: "read_batch list \<Rightarrow> user_request list" where
  "batch_requests batches = concat (map (nu_requests \<circ> ba_request) batches)"

text \<open>The tokens a round reissues, the Tick first.\<close>

definition expected_tokens ::
  "network_asset option \<Rightarrow> network_asset option \<Rightarrow> nat \<Rightarrow> nat \<Rightarrow> user_request_error + network_asset list" where
  "expected_tokens tick_asset verifier_asset issued_count verifiers =
     bind_res (if verifiers < issued_count then map_sum id (\<lambda>a. [a]) (ok_or (RequestMissingAsset TICK_ASSET_KIND) tick_asset)
               else Inr []) (\<lambda>ticks.
     bind_res (if 0 < verifiers then map_sum id (\<lambda>a. [a]) (ok_or (RequestMissingAsset ORACLE_VERIFIER_KIND) verifier_asset)
               else Inr []) (\<lambda>rest. Inr (ticks @ rest)))"

fun validate_tokens ::
  "round_env \<Rightarrow> elements_env \<Rightarrow> pset \<Rightarrow> nat \<Rightarrow> network_asset list \<Rightarrow> user_request_error + unit" where
  "validate_tokens renv env p index [] = Inr ()"
| "validate_tokens renv env p index (asset # assets) =
     bind_res (validate_token renv env p index asset) (\<lambda>_. validate_tokens renv env p (Suc index) assets)"

subsection \<open>The fee inputs\<close>

fun check_fee_inputs ::
  "pset \<Rightarrow> bytes \<Rightarrow> outpoint list \<Rightarrow> nat \<Rightarrow> u64 \<Rightarrow> user_request_error + u64" where
  "check_fee_inputs p account_script [] index input_total = Inr input_total"
| "check_fee_inputs p account_script (fee_utxo # fee_utxos) index input_total =
     (if length (ps_inputs p) \<le> index then Inl (RequestInvalid ''a submitted fee UTXO is missing'')
      else
        (let input = ps_inputs p ! index in
         if pi_previous_txid input \<noteq> fst fee_utxo \<or> pi_previous_index input \<noteq> snd fee_utxo \<or>
            (case pi_witness_utxo input of None \<Rightarrow> True | Some u \<Rightarrow> to_script u \<noteq> account_script)
         then Inl (RequestInvalid ''fee UTXO input does not match the signed user request'')
         else
           bind_res (ok_or (RequestInvalid ''fee UTXO must be explicit'')
                       (Option.bind (pi_witness_utxo input) (\<lambda>u. explicit_value (to_value u)))) (\<lambda>amount.
           bind_res (ok_or (RequestInvalid ''fee input overflow'') (checked_add input_total amount)) (\<lambda>input_total'.
             check_fee_inputs p account_script fee_utxos (Suc index) input_total'))))"

text \<open>For every batch its account's script, the number of its requests and the total of its fee inputs.\<close>

fun check_accounts ::
  "elements_env \<Rightarrow> simplicity_network \<Rightarrow> bytes \<Rightarrow> pset \<Rightarrow> read_batch list \<Rightarrow> nat \<Rightarrow>
   user_request_error + (bytes \<times> nat \<times> u64) list" where
  "check_accounts env network storm_eye_asset_id p [] index = Inr []"
| "check_accounts env network storm_eye_asset_id p (b # bs) index =
     (let account_script = ee_account_script env storm_eye_asset_id (ba_owner b) network in
      bind_res (check_fee_inputs p account_script (ba_fee_utxos b) index 0) (\<lambda>input_total.
      bind_res (check_accounts env network storm_eye_asset_id p bs (index + length (ba_fee_utxos b))) (\<lambda>rest.
        Inr ((account_script, length (nu_requests (ba_request b)), input_total) # rest))))"

subsection \<open>The issued outputs\<close>

record issue_context =
  ic_storm_eye_asset_id :: bytes
  ic_tick_asset :: "network_asset option"
  ic_verifier_asset :: "network_asset option"
  ic_network :: simplicity_network
  ic_signer :: bytes
  ic_now :: u64

text \<open>One issued output: its descriptor and its amount. \<open>expect\<close> on a missing asset would panic.\<close>

definition check_issued ::
  "users_env \<Rightarrow> elements_env \<Rightarrow> issue_context \<Rightarrow> pset \<Rightarrow> bytes \<Rightarrow> u32 \<Rightarrow> nat \<Rightarrow> user_request \<Rightarrow>
   user_request_error + issued_descriptor \<times> u64" where
  "check_issued users env ctx p owner reserve_output_index output_index issued =
     bind_res (map_err RequestInvalid (us_details_json users (uq_payload issued))) (\<lambda>details.
     let verifier = issues_verifier (uq_kind issued) in
     bind_res (if output_index < 2 ^ 32 then Inr (of_nat output_index)
               else Inl (RequestInvalid ''issued output index overflow'')) (\<lambda>index.
     bind_res (map_err RequestInvalid (from_request env index reserve_output_index owner (td_auth_method details)
                 (if verifier then Some (ic_signer ctx) else None))) (\<lambda>descriptor.
     if length (ps_outputs p) \<le> output_index then Inl (RequestInvalid ''a requested issued output is missing'')
     else
       bind_res (ok_or (RequestInvalid ''issued output amount is confidential'') (po_amount (ps_outputs p ! output_index))) (\<lambda>amount.
       if verifier \<and> amount \<noteq> 1 then Inl (RequestInvalid ''an Oracle Verifier is issued with an amount of one'')
       else if \<not> verifier \<and> MAX_TICK_TIME_SKEW_SECS < unat (abs_diff amount (ic_now ctx))
       then Inl (RequestInvalid ''Tick timestamp is outside the accepted window'')
       else
         bind_res (ok_or (RequestInvalid ''the round reissues every asset it issues'')
                     (if verifier then ic_verifier_asset ctx else ic_tick_asset ctx)) (\<lambda>asset.
         bind_res (map_err RequestInvalid (descriptor_program env (ic_storm_eye_asset_id ctx) descriptor)) (\<lambda>program.
           if po_asset (ps_outputs p ! output_index) \<noteq> Some (na_asset_id asset) \<or>
              po_script (ps_outputs p ! output_index) \<noteq> voucher_script env program (ic_network ctx)
           then Inl (RequestInvalid (na_name asset @ '' output does not match the request''))
           else Inr (descriptor, amount)))))))"

text \<open>
  The requests of all batches, with what the tokens have issued so far: the first entry for the Tick and the
  last for the Verifier, which are the same entry when only one of them is reissued.
\<close>

fun check_requests ::
  "(nat \<Rightarrow> user_request \<Rightarrow> user_request_error + issued_descriptor \<times> u64) \<Rightarrow> nat \<Rightarrow> user_request list \<Rightarrow> u64 list \<Rightarrow>
   user_request_error + issued_descriptor list \<times> u64 list" where
  "check_requests check output_index [] amounts = Inr ([], amounts)"
| "check_requests check output_index (r # rs) amounts =
     bind_res (check output_index r) (\<lambda>(descriptor, amount).
     let token = (if issues_verifier (uq_kind r) then length amounts - 1 else 0) in
     bind_res (ok_or (RequestInvalid ''issuance amount overflow'') (checked_add (amounts ! token) amount)) (\<lambda>amount'.
     bind_res (check_requests check (Suc output_index) rs (amounts[token := amount'])) (\<lambda>(ds, amounts').
       Inr (descriptor # ds, amounts'))))"

fun check_batches ::
  "users_env \<Rightarrow> elements_env \<Rightarrow> issue_context \<Rightarrow> pset \<Rightarrow> read_batch list \<Rightarrow> nat \<Rightarrow> nat \<Rightarrow> u64 list \<Rightarrow>
   user_request_error + issued_descriptor list \<times> u64 list" where
  "check_batches users env ctx p [] reserve_output output_index amounts = Inr ([], amounts)"
| "check_batches users env ctx p (b # bs) reserve_output output_index amounts =
     bind_res (if reserve_output < 2 ^ 32 then Inr (of_nat reserve_output)
               else Inl (RequestInvalid ''reserve output index overflow'')) (\<lambda>reserve_output_index.
     bind_res (check_requests (check_issued users env ctx p (ba_owner b) reserve_output_index) output_index
                 (nu_requests (ba_request b)) amounts) (\<lambda>(ds, amounts').
     bind_res (check_batches users env ctx p bs (Suc reserve_output)
                 (output_index + length (nu_requests (ba_request b))) amounts') (\<lambda>(rest, final).
       Inr (ds @ rest, final))))"

definition reissuance_matches :: "pset_input \<Rightarrow> network_asset \<Rightarrow> u64 \<Rightarrow> bool" where
  "reissuance_matches input asset issued_amount \<longleftrightarrow>
     pi_issuance_amount input = Some issued_amount \<and> pi_issuance_entropy input = na_entropy asset \<and>
     pi_issuance_amount_comm input = None \<and> pi_issuance_rangeproof input = None \<and>
     pi_issuance_blind_value_proof input = None"

subsection \<open>The accounting outputs\<close>

fun check_reserves ::
  "pset \<Rightarrow> bytes \<Rightarrow> nat \<Rightarrow> (bytes \<times> u64) list \<Rightarrow> user_request_error + unit" where
  "check_reserves p policy_asset index [] = Inr ()"
| "check_reserves p policy_asset index ((script, reserve) # rest) =
     (if length (ps_outputs p) \<le> index then Inl (RequestInvalid ''user burn-fee reserve output is missing'')
      else
        (let out = ps_outputs p ! index in
         if po_script out \<noteq> script \<or> po_asset out \<noteq> Some policy_asset \<or> po_amount out \<noteq> Some reserve
         then Inl (RequestInvalid ''invalid user burn-fee reserve output'')
         else check_reserves p policy_asset (Suc index) rest))"

definition add_fee_input :: "bytes \<Rightarrow> pset_input \<Rightarrow> u64 \<Rightarrow> user_request_error + u64" where
  "add_fee_input policy_asset input acc =
     bind_res (ok_or (RequestInvalid ''fee UTXO is missing'') (pi_witness_utxo input)) (\<lambda>u.
       if explicit_value (to_asset u) \<noteq> Some policy_asset then Inl (RequestInvalid ''fee UTXO asset mismatch'')
       else
         bind_res (ok_or (RequestInvalid ''fee UTXO must be explicit'') (explicit_value (to_value u))) (\<lambda>amount.
           ok_or (RequestInvalid ''fee input overflow'') (checked_add acc amount)))"

definition add_policy_output :: "bytes \<Rightarrow> pset_output \<Rightarrow> u64 \<Rightarrow> user_request_error + u64" where
  "add_policy_output policy_asset out acc =
     (if po_asset out \<noteq> Some policy_asset then Inr acc
      else
        bind_res (ok_or (RequestInvalid ''policy asset output must be explicit'') (po_amount out)) (\<lambda>amount.
          ok_or (RequestInvalid ''fee output overflow'') (checked_add acc amount)))"

definition pays :: "bytes \<Rightarrow> bytes \<Rightarrow> u64 \<Rightarrow> pset_output \<Rightarrow> bool" where
  "pays script asset amount out \<longleftrightarrow>
     po_script out = script \<and> po_asset out = Some asset \<and> po_amount out = Some amount"

definition validate_accounting_outputs ::
  "elements_env \<Rightarrow> pset \<Rightarrow> (bytes \<times> nat \<times> u64) list \<Rightarrow> nat \<Rightarrow> nat \<Rightarrow> bytes \<Rightarrow> bytes \<Rightarrow> protocol_config \<Rightarrow>
   simplicity_network \<Rightarrow> user_request_error + unit" where
  "validate_accounting_outputs env p accounts token_count issued_count storm_eye_asset_id policy_asset config network =
     (if length (ps_outputs p) \<noteq> 1 + token_count + issued_count + length accounts + 1 + 2
      then Inl (RequestInvalid ''issuance transaction has unexpected outputs'')
      else if \<exists>(index, out) \<in> set (zip [0..<length (ps_outputs p)] (ps_outputs p)).
                \<not> (1 \<le> index \<and> index \<le> token_count) \<and> \<not> is_fully_explicit_output out
      then Inl (RequestInvalid ''issuance output must be explicit'')
      else
        bind_res (ok_or (RequestInvalid ''operational fee overflow'')
                    (checked_mul (pc_operational_fee config) (of_nat issued_count))) (\<lambda>expected_operational.
        if \<not> list_ex (pays (ee_treasury_script env storm_eye_asset_id network) policy_asset expected_operational) (ps_outputs p)
        then Inl (RequestInvalid ''Treasury operational fee output is missing'')
        else
          bind_res (allocate_account_reserves (map snd accounts) config) (\<lambda>parts.
          bind_res (check_reserves p policy_asset (1 + token_count + issued_count) (zip (map fst accounts) parts)) (\<lambda>_.
          if \<not> list_ex (pays [] policy_asset (pc_issuance_fee config)) (ps_outputs p)
          then Inl (RequestInvalid ''miner fee output is missing'')
          else
            bind_res (fold_res (add_fee_input policy_asset) (drop (1 + token_count) (ps_inputs p)) 0) (\<lambda>input_total.
            bind_res (fold_res (add_policy_output policy_asset) (ps_outputs p) 0) (\<lambda>output_total.
              if input_total \<noteq> output_total
              then Inl (RequestInvalid ''policy asset inputs and outputs do not balance'')
              else Inr ()))))))"

subsection \<open>The message\<close>

definition validate_execute_request ::
  "round_setup \<Rightarrow> round_env \<Rightarrow> execute_user_requests \<Rightarrow> network_asset \<Rightarrow> network_asset option \<Rightarrow> network_asset option \<Rightarrow>
   u64 \<Rightarrow> user_request_error + price_feed_data option" where
  "validate_execute_request setup renv request storm_eye tick_asset verifier_asset now =
     (let env = ro_elements setup; users = ro_users setup; network = ro_network setup in
      if eu_external_requests request = [] then Inl (RequestInvalid ''no external requests'')
      else
        bind_res (ok_or RequestTransaction (ee_decode_pset env (eu_tx request))) (\<lambda>p.
        if length (ps_inputs p) < 3 \<or> length (ps_outputs p) < 5
        then Inl (RequestInvalid ''issuance transaction is incomplete'')
        else
          bind_res (witness_utxo p 0) (\<lambda>eye_input.
          bind_res (require_explicit_utxo eye_input (na_asset_id storm_eye) (na_contract_script storm_eye) ''Storm Eye'') (\<lambda>_.
          bind_res (require_preserved_output env p 0 eye_input ''Storm Eye'') (\<lambda>_.
          bind_res (read_externals users (eu_external_requests request) None) (\<lambda>(batches, instructed).
          let issued_count = length (batch_requests batches);
              verifiers = length (filter (issues_verifier \<circ> uq_kind) (batch_requests batches)) in
          bind_res (expected_tokens tick_asset verifier_asset issued_count verifiers) (\<lambda>tokens.
          bind_res (validate_tokens renv env p 1 tokens) (\<lambda>_.
          bind_res (check_accounts env network (na_asset_id storm_eye) p batches (1 + length tokens)) (\<lambda>accounts.
          if length (ps_inputs p) \<noteq> 1 + length tokens + length (concat (map ba_fee_utxos batches))
          then Inl (RequestInvalid ''issuance transaction has unrequested inputs'')
          else
            bind_res (check_batches users env
                \<lparr>ic_storm_eye_asset_id = na_asset_id storm_eye, ic_tick_asset = tick_asset,
                 ic_verifier_asset = verifier_asset, ic_network = network, ic_signer = eu_branch request, ic_now = now\<rparr>
                p batches (1 + length tokens + issued_count) (1 + length tokens) (replicate (length tokens) 0))
              (\<lambda>(descriptors, amounts).
            if \<exists>(offset, asset, amount) \<in> set (zip [0..<length tokens] (zip tokens amounts)).
                 \<not> reissuance_matches (ps_inputs p ! (1 + offset)) asset amount
            then Inl (RequestInvalid ''reissuance metadata does not match the requested outputs'')
            else
              bind_res (map_err RequestInvalid (descriptor_script_pubkey env descriptors)) (\<lambda>script.
              let position = 1 + length tokens + issued_count + length accounts;
                  policy_asset = ee_policy_asset env network in
              if length (ps_outputs p) \<le> position then Inl (RequestInvalid ''issued UTXO descriptor is missing'')
              else if \<not> pays script policy_asset 0 (ps_outputs p ! position)
              then Inl (RequestInvalid ''invalid issued UTXO descriptor'')
              else
                bind_res (validate_accounting_outputs env p accounts (length tokens) issued_count (na_asset_id storm_eye)
                            policy_asset (ro_config setup) network) (\<lambda>_.
                bind_res (issuance_signing_hash env p storm_eye network) (\<lambda>hash.
                  if hash \<noteq> eu_signing_hash request then Inl (RequestInvalid ''signing hash mismatch'')
                  else Inr instructed)))))))))))))"

subsection \<open>The fee outputs at the anchor\<close>

text \<open>The height of the chain is read after the outputs: \<open>tip\<close>.\<close>

definition anchored :: "elements_rpc \<Rightarrow> u64 \<Rightarrow> u64 \<Rightarrow> outpoint \<Rightarrow> user_request_error + unit" where
  "anchored rpc tip anchor_height fee_utxo =
     bind_res (rpc_call (rc_txout rpc fee_utxo False)) (\<lambda>out.
       let confirmations = (case out of None \<Rightarrow> 0 | Some a \<Rightarrow> ga_confirmations a) in
       if confirmations < MIN_FEE_UTXO_CONFIRMATIONS \<or> anchor_height < sat_sub (tip + 1) confirmations
       then Inl (RequestInvalid ''fee UTXO is not confirmed at the round's anchored block'')
       else Inr ())"

text \<open>
  All outputs are asked for before the first is judged, so a failing answer for a later output wins over an
  unanchored earlier one.
\<close>

definition require_unreserved_anchored_fee_utxos ::
  "users_env \<Rightarrow> elements_rpc \<Rightarrow> utxo_table \<Rightarrow> chain_tip option \<Rightarrow> outpoint list \<Rightarrow> user_request_error + unit" where
  "require_unreserved_anchored_fee_utxos users rpc monitored anchor fee_utxos =
     bind_res (ok_or (RequestInvalid ''issuance round has no chain anchor'') anchor) (\<lambda>tip_anchor.
       case find snd (zip fee_utxos (burning_reservations fee_utxos monitored)) of
         Some (fee_utxo, _) \<Rightarrow>
           Inl (RequestInvalid (''fee UTXO '' @ quoted (outpoint_name users fee_utxo) @
             '' is reserved for burning issued UTXOs''))
       | None \<Rightarrow>
           bind_res (map_res (\<lambda>f. rpc_call (rc_txout rpc f False)) fee_utxos) (\<lambda>_.
           bind_res (rpc_call (rc_block_count rpc)) (\<lambda>tip.
           bind_res (map_res (anchored rpc tip (ct_height tip_anchor)) fee_utxos) (\<lambda>_. Inr ()))))"

text \<open>\<open>judge\<close> is the check of the rate against this node's own sources.\<close>

definition validate_execute ::
  "round_setup \<Rightarrow> round_env \<Rightarrow> elements_rpc \<Rightarrow> asset_db \<Rightarrow> utxo_table \<Rightarrow> (price_feed_data \<Rightarrow> 'e + unit) \<Rightarrow> u64 \<Rightarrow>
   execute_user_requests \<Rightarrow> user_request_error + price_feed_data option" where
  "validate_execute setup renv rpc assets monitored judge now request =
     bind_res (round_asset assets STORM_EYE_KIND) (\<lambda>storm_eye.
     bind_res (validate_execute_request setup renv request storm_eye (get_asset TICK_ASSET_KIND assets)
                 (get_asset ORACLE_VERIFIER_KIND assets) now) (\<lambda>instructed.
     bind_res (map_res (\<lambda>e. map_err RequestInvalid (validate_encoded_request (ro_users setup) (er_network_user_requests e)))
                 (eu_external_requests request)) (\<lambda>validated.
     bind_res (require_unreserved_anchored_fee_utxos (ro_users setup) rpc monitored (eu_chain_tip request)
                 (concat (map (fst \<circ> snd) validated))) (\<lambda>_.
       case instructed of
         None \<Rightarrow> Inr None
       | Some rate \<Rightarrow> bind_res (map_err (\<lambda>_. InstructedPriceRefused) (judge rate)) (\<lambda>_. Inr instructed)))))"

subsection \<open>Confirmations\<close>

text \<open>
  \<open>result_txid\<close> reads the transaction of a stored result. A request whose transaction the node does not know
  is broadcast again, and a refused broadcast ends the pass.
\<close>

definition reconcile_request ::
  "elements_rpc \<Rightarrow> (bytes \<Rightarrow> bytes option) \<Rightarrow> u64 \<Rightarrow> u64 \<Rightarrow> bytes \<times> user_request_row \<Rightarrow> request_db \<Rightarrow>
   request_db \<times> (user_request_error + nat)" where
  "reconcile_request rpc result_txid finality tip = (\<lambda>(hash, row) db.
     case ur_payload row of
       None \<Rightarrow> (db, Inr 0)
     | Some payload \<Rightarrow>
         (case result_txid payload of
            None \<Rightarrow> (db, Inl RequestEncoding)
          | Some txid \<Rightarrow>
              (case rc_confirmations rpc txid of
                 Inl _ \<Rightarrow>
                   (fst (mark_orphaned hash db),
                    (case ur_execution_tx row of
                       None \<Rightarrow> Inr 0
                     | Some t \<Rightarrow> bind_res (rpc_call (rc_send rpc t)) (\<lambda>_. Inr 0)))
               | Inr (confirmations, block_hash) \<Rightarrow>
                   if confirmations = 0 then (fst (mark_orphaned hash db), Inr 0)
                   else
                     (case block_hash of
                        None \<Rightarrow> (db, Inl (RequestInvalid ''confirmed issuance transaction has no block hash''))
                      | Some block_hash \<Rightarrow>
                          (case mark_included hash (sat_add (sat_sub tip confirmations) 1) block_hash db of
                             Inl e \<Rightarrow> (db, Inl (RequestDatabase e))
                           | Inr (db', _) \<Rightarrow>
                               if max finality 1 \<le> confirmations
                               then (case mark_executed hash db' of (db'', moved) \<Rightarrow> (db'', Inr (if moved then 1 else 0)))
                               else (db', Inr 0))))))"

fun reconcile_requests ::
  "(bytes \<times> user_request_row \<Rightarrow> request_db \<Rightarrow> request_db \<times> (user_request_error + nat)) \<Rightarrow>
   (bytes \<times> user_request_row) list \<Rightarrow> nat \<Rightarrow> request_db \<Rightarrow> request_db \<times> (user_request_error + nat)" where
  "reconcile_requests reconcile [] updated db = (db, Inr updated)"
| "reconcile_requests reconcile (r # rs) updated db =
     (case reconcile r db of
        (db', Inl e) \<Rightarrow> (db', Inl e)
      | (db', Inr n) \<Rightarrow> reconcile_requests reconcile rs (updated + n) db')"

definition reconcile_confirmations ::
  "elements_rpc \<Rightarrow> (bytes \<Rightarrow> bytes option) \<Rightarrow> protocol_config \<Rightarrow> request_db \<Rightarrow> request_db \<times> (user_request_error + nat)" where
  "reconcile_confirmations rpc result_txid config db =
     (case list_processing db of
        [] \<Rightarrow> (db, Inr 0)
      | processing \<Rightarrow>
          (case rpc_call (rc_block_count rpc) of
             Inl e \<Rightarrow> (db, Inl e)
           | Inr tip \<Rightarrow> reconcile_requests (reconcile_request rpc result_txid (pc_finality config) tip) processing 0 db))"

end
