(* ===== verification/Round_Toy.thy ===== *)
theory Round_Toy
  imports Round_Validation
begin

text \<open>
  A concrete round for the witnesses: one batch with one Tick, its token and its fee output, and the message
  a signer gets for it.
\<close>

definition toy_tick_batch :: network_user_requests where
  "toy_tick_batch =
     \<lparr>nu_header = \<lparr>uh_signature = ''sig'', uh_public_key = ''key'', uh_fee_utxos = [''t:1''],
        uh_signature_scheme = None, uh_signing_public_key = None\<rparr>,
      nu_requests = [\<lparr>uq_kind = ''tick-utxo'', uq_payload = ''tick''\<rparr>]\<rparr>"

definition toy_round_eye :: network_asset where
  "toy_round_eye = \<lparr>na_kind = STORM_EYE_KIND, na_name = ''Storm Eye'', na_asset_id = [7], na_reissuance_token_id = None,
     na_entropy = None, na_issuance_txid = [], na_contract_script = [3],
     na_contract_data = Some (replicate 68 0), na_supply = 10000, na_created_at_block = 1\<rparr>"

definition toy_round_eye_out :: tx_out where
  "toy_round_eye_out = \<lparr>to_asset = ExplicitField [7], to_value = ExplicitField 5, to_nonce = NullField, to_script = [3],
     to_witness = []\<rparr>"

definition toy_token :: tx_out where
  "toy_token = \<lparr>to_asset = ConfidentialField [1], to_value = ConfidentialField [2], to_nonce = NullField,
     to_script = [4], to_witness = []\<rparr>"

definition toy_token_secrets :: tx_out_secrets where
  "toy_token_secrets = \<lparr>os_asset = [9], os_asset_blinder = [], os_value = 1, os_value_blinder = []\<rparr>"

definition toy_account :: bytes where "toy_account = 2 # 7 # replicate 32 9"

definition toy_fee_out :: tx_out where
  "toy_fee_out = \<lparr>to_asset = ExplicitField (replicate 32 8), to_value = ExplicitField 1000, to_nonce = NullField,
     to_script = toy_account, to_witness = []\<rparr>"

definition toy_tick_asset :: network_asset where
  "toy_tick_asset = \<lparr>na_kind = TICK_ASSET_KIND, na_name = ''Tick'', na_asset_id = [10], na_reissuance_token_id = Some [9],
     na_entropy = Some [6], na_issuance_txid = [], na_contract_script = [4], na_contract_data = Some [],
     na_supply = 0, na_created_at_block = 1\<rparr>"

definition toy_descriptor :: issued_descriptor where
  "toy_descriptor = \<lparr>id_output_index = 2, id_reserve_output_index = 3, id_owner = replicate 32 9, id_auth_kind = 0,
     id_auth_data = replicate 32 9, id_signer = None\<rparr>"

definition toy_descriptor_data :: bytes where
  "toy_descriptor_data = DESCRIPTOR_MAGIC @ [DESCRIPTOR_VERSION] @ be_bytes 2 1 @ replicate 32 0 @ descriptor_record toy_descriptor"

definition toy_round_config :: protocol_config where
  "toy_round_config = \<lparr>pc_operational_fee = 300, pc_burn_reserve = 200, pc_issuance_fee = 100, pc_burn_fee = 50,
     pc_exchange_fee = 50, pc_tick_lifetime = 10, pc_finality = 2\<rparr>"

definition toy_round :: pset where
  "toy_round =
     \<lparr>ps_inputs = [toy_input (([1], 0), toy_round_eye_out, None),
        (toy_input (([2], 0), toy_token, Some (77, [6])))\<lparr>pi_asset := Some [9], pi_amount := Some 1,
          pi_blind_asset_proof := Some [], pi_blind_value_proof := Some []\<rparr>,
        toy_input ((replicate 32 9, 1), toy_fee_out, None)],
      ps_outputs = [toy_output ([3], 5, [7]),
        (toy_output ([4], 1, [9]))\<lparr>po_asset_comm := Some [1], po_amount_comm := Some [2]\<rparr>,
        toy_output (4 # replicate 32 0, 77, [10]), toy_output (toy_account, 600, replicate 32 8),
        toy_output (0x6A # toy_descriptor_data, 0, replicate 32 8), toy_output ([1, 7], 300, replicate 32 8),
        toy_output ([], 100, replicate 32 8)],
      ps_lock_time = 0\<rparr>"

definition toy_token_tx :: transaction where
  "toy_token_tx = \<lparr>tx_input = [], tx_output = [toy_token], tx_lock_time = 0\<rparr>"

definition toy_round_users :: users_env where
  "toy_round_users = toy_users\<lparr>us_from_json := (\<lambda>_. Inr toy_tick_batch)\<rparr>"

definition toy_round_elements :: elements_env where
  "toy_round_elements = toy_elements\<lparr>ee_unblind := (\<lambda>_. Some toy_token_secrets), ee_decode_tx := (\<lambda>_. Some toy_token_tx),
     ee_decode_pset := (\<lambda>_. Some toy_round), ee_hex_decode := (\<lambda>_. Some (replicate 32 9)),
     ee_sha256 := (\<lambda>_. replicate 32 0)\<rparr>"

definition toy_setup :: round_setup where
  "toy_setup = \<lparr>ro_users = toy_round_users, ro_elements = toy_round_elements, ro_network = Liquid, ro_config = toy_round_config\<rparr>"

definition toy_round_env :: round_env where
  "toy_round_env =
     \<lparr>re_decode_token_data = (\<lambda>_. Some ([], 0)), re_asset_proof_ok = (\<lambda>_ _ _. True), re_value_proof_ok = (\<lambda>_ _ _ _. True),
      re_blind_last = (\<lambda>_ _ _ _. Some toy_token), re_fresh_secrets = id, re_blind = (\<lambda>_ _ _. Some toy_token),
      re_from_txout = (\<lambda>out. (toy_output (to_script out, 1, [9]))\<lparr>po_asset_comm := Some [1], po_amount_comm := Some [2]\<rparr>),
      re_blinding_key = [], re_prove_asset = (\<lambda>_. Some []), re_prove_value = (\<lambda>_ _ _. Some [])\<rparr>"

definition toy_execute :: execute_user_requests where
  "toy_execute = \<lparr>eu_tx = [], eu_signing_hash = [3, 7], eu_branch = replicate 32 1,
     eu_external_requests = [\<lparr>er_request_hash = [5], er_network_user_requests = [1], er_additional_payload = None\<rparr>],
     eu_chain_tip = None\<rparr>"

definition toy_read_batch :: read_batch where
  "toy_read_batch = \<lparr>ba_request = toy_tick_batch, ba_fee_utxos = [(replicate 32 9, 1)], ba_owner = replicate 32 9\<rparr>"

subsection \<open>Its parts\<close>

lemma toy_setup_fields:
  "ro_users toy_setup = toy_round_users" "ro_elements toy_setup = toy_round_elements" "ro_network toy_setup = Liquid"
  "ro_config toy_setup = toy_round_config"
  by (simp_all add: toy_setup_def)

lemma toy_users_fields:
  "us_sha256 toy_round_users x = [5]" "us_hex_decode toy_round_users ''key'' = Some (replicate 32 9)"
  "us_valid_x_only toy_round_users k"
  "us_details_json toy_round_users ''tick'' = Inr \<lparr>td_auth_method = \<lparr>am_kind = ''asset-id-auth'', am_auth_data = ''a''\<rparr>,
         td_price_feed_id = None\<rparr>"
  by (simp_all add: toy_round_users_def toy_users_def)

lemma toy_elements_fields:
  "ee_decode_pset toy_round_elements b = Some toy_round" "ee_policy_asset toy_round_elements n = replicate 32 8"
  "ee_treasury_script toy_round_elements a n = 1 # a" "ee_account_script toy_round_elements a k n = 2 # a @ k"
  "ee_op_return toy_round_elements d = 0x6A # d" "ee_to_txout toy_round_elements = toy_to_txout"
  "ee_unblind toy_round_elements x = Some toy_token_secrets"
  by (simp_all add: toy_round_elements_def toy_elements_def)

lemma toy_encoded: "validate_encoded_request toy_round_users x = Inr (toy_tick_batch, [(replicate 32 9, 1)], None)"
proof -
  have s: "verify_user_signature toy_round_users toy_tick_batch = Inr ()"
    by (simp add: verify_user_signature_def toy_round_users_def toy_users_def toy_tick_batch_def hex_array_def parse_hex_array_def)
  have r: "validate_user_request toy_round_users \<lparr>uq_kind = ''tick-utxo'', uq_payload = ''tick''\<rparr> = Inr None"
    by (simp add: validate_user_request_def toy_round_users_def toy_users_def validate_auth_method_def hex_array_def
        parse_hex_array_def TICK_REQUEST_KIND_def PRICE_REQUEST_KIND_def MAX_PAYLOAD_BYTES_def)
  have f: "parse_fee_utxo toy_round_users ''t:1'' = Inr (replicate 32 9, 1)"
    by (simp add: parse_fee_utxo_def toy_round_users_def toy_users_def hex_array_def parse_hex_array_def split_once_def
        parse_u32_def parse_nat_def digits_value_def digit_value_def)
  have v: "validate_batch toy_round_users toy_tick_batch = Inr ([(replicate 32 9, 1)], None)"
    using s r f by (simp add: validate_batch_def toy_tick_batch_def MAX_REQUESTS_PER_BATCH_def MAX_FEE_UTXOS_PER_BATCH_def
        parse_fee_utxos_def)
  have j: "us_from_json toy_round_users x = Inr toy_tick_batch" by (simp add: toy_round_users_def)
  show ?thesis by (simp add: validate_encoded_request_def v j)
qed

lemma toy_read_externals:
  "read_externals toy_round_users (eu_external_requests toy_execute) None = Inr ([toy_read_batch], None)"
  by (simp add: toy_execute_def read_external_def toy_encoded toy_users_fields instructed_price_def toy_read_batch_def
      toy_tick_batch_def)

lemma toy_descriptor_script: "descriptor_script_pubkey toy_round_elements [toy_descriptor] = Inr (0x6A # toy_descriptor_data)"
  by (simp add: descriptor_script_pubkey_def descriptor_data_def MAX_ISSUED_DESCRIPTORS_def toy_descriptor_data_def
      shared_signer_def toy_descriptor_def List.map_filter_def toy_elements_fields)

lemma toy_token_valid: "validate_token toy_round_env toy_round_elements toy_round 1 toy_tick_asset = Inr ()"
proof -
  have t: "token_txout toy_round_env toy_round_elements toy_tick_asset = Inr toy_token"
    by (simp add: token_txout_def toy_tick_asset_def toy_round_env_def toy_round_elements_def toy_token_tx_def)
  have w: "witness_utxo toy_round 1 = Inr toy_token" by (simp add: witness_utxo_def toy_round_def toy_input_def)
  have o: "toy_to_txout (ps_outputs toy_round ! 1) = toy_token" "length (ps_outputs toy_round) = 7"
    by (simp_all add: toy_round_def toy_to_txout_def toy_output_def toy_field_def toy_token_def)
  have p: "ps_inputs toy_round ! 1 = (toy_input (([2], 0), toy_token, Some (77, [6])))\<lparr>pi_asset := Some [9], pi_amount := Some 1,
          pi_blind_asset_proof := Some [], pi_blind_value_proof := Some []\<rparr>"
    by (simp add: toy_round_def)
  show ?thesis
    unfolding validate_token_def t w o toy_elements_fields bind_res_simps ok_or_simps Let_def p
    by (simp add: toy_input_def toy_token_def toy_token_secrets_def toy_round_env_def is_confidential_def o)
qed

lemma toy_accounts:
  "check_accounts toy_round_elements Liquid [7] toy_round [toy_read_batch] 2 = Inr [(toy_account, 1, 1000)]"
  by (simp add: toy_read_batch_def toy_tick_batch_def toy_elements_fields toy_account_def toy_round_def toy_input_def
      toy_fee_out_def checked_add_def)

lemma toy_other_assets: "([7] :: bytes) \<noteq> replicate 32 8" "([10] :: bytes) \<noteq> replicate 32 8" "([9] :: bytes) \<noteq> replicate 32 8"
  by (auto dest: arg_cong [where f = length])

lemma toy_reserves: "allocate_account_reserves [(1, 1000)] toy_round_config = Inr [600]"
  by (simp add: allocate_account_reserves_def toy_round_config_def checked_mul_def checked_add_def checked_sub_def Let_def account_reserve_def)

lemma toy_accounting:
  "validate_accounting_outputs toy_round_elements toy_round [(toy_account, 1, 1000)] 1 1 [7] (replicate 32 8) toy_round_config Liquid = Inr ()"
proof -
  let ?policy = "replicate 32 8"
  have n: "length (ps_outputs toy_round) = 7" by (simp add: toy_round_def)
  have op: "checked_mul (pc_operational_fee toy_round_config) (of_nat 1) = Some 300" by (simp add: toy_round_config_def checked_mul_def)
  have explicit: "\<not> (\<exists>(index, out) \<in> set (zip [0..<length (ps_outputs toy_round)] (ps_outputs toy_round)).
      \<not> (1 \<le> index \<and> index \<le> 1) \<and> \<not> is_fully_explicit_output out)"
    by (simp add: toy_round_def upt_rec toy_output_def is_fully_explicit_output_def)
  have treasury: "list_ex (pays [1, 7] ?policy 300) (ps_outputs toy_round)"
    and miner: "list_ex (pays [] ?policy (pc_issuance_fee toy_round_config)) (ps_outputs toy_round)"
    by (simp_all add: toy_round_def toy_output_def pays_def toy_round_config_def)
  have reserve: "check_reserves toy_round ?policy (1 + 1 + 1) (zip (map fst [(toy_account, 1, 1000)]) [600]) = Inr ()"
    by (simp add: toy_round_def toy_output_def Let_def)
  have ins: "fold_res (add_fee_input ?policy) (drop (1 + 1) (ps_inputs toy_round)) 0 = Inr 1000"
    by (simp add: toy_round_def toy_input_def add_fee_input_def toy_fee_out_def checked_add_def)
  have outs: "fold_res (add_policy_output ?policy) (ps_outputs toy_round) 0 = Inr 1000"
    by (simp add: toy_round_def toy_output_def add_policy_output_def checked_add_def toy_other_assets)
  have parts: "allocate_account_reserves (map snd [(toy_account, 1, 1000)]) toy_round_config = Inr [600]"
    using toy_reserves by simp
  have size: "\<not> length (ps_outputs toy_round) \<noteq> 1 + 1 + 1 + length [(toy_account, 1, 1000)] + 1 + 2" using n by simp
  show ?thesis
    unfolding validate_accounting_outputs_def if_not_P [OF size] if_not_P [OF explicit] op toy_elements_fields parts
      reserve ins outs ok_or_simps bind_res_simps
    using treasury miner by simp
qed

lemma toy_issued:
  "check_batches toy_round_users toy_round_elements
      \<lparr>ic_storm_eye_asset_id = [7], ic_tick_asset = Some toy_tick_asset, ic_verifier_asset = None,
       ic_network = Liquid, ic_signer = replicate 32 1, ic_now = 60\<rparr> toy_round [toy_read_batch] 3 2 [0] =
     Inr ([toy_descriptor], [77])"
proof -
  have f: "from_request toy_round_elements 2 3 (replicate 32 9) \<lparr>am_kind = ''asset-id-auth'', am_auth_data = ''a''\<rparr> None =
      Inr toy_descriptor"
    by (simp add: from_request_def decode_32_def toy_round_elements_def toy_descriptor_def)
  have p: "\<exists>program. descriptor_program toy_round_elements [7] toy_descriptor = Inr program \<and>
      voucher_script toy_round_elements program Liquid = 4 # replicate 32 0"
    by (simp add: descriptor_program_def voucher_program_def voucher_arguments_of_def toy_descriptor_def Let_def
        voucher_script_def toy_round_elements_def toy_elements_def)
  then obtain program where p: "descriptor_program toy_round_elements [7] toy_descriptor = Inr program"
    "voucher_script toy_round_elements program Liquid = 4 # replicate 32 0" by blast
  have o: "length (ps_outputs toy_round) = 7" "ps_outputs toy_round ! 2 = toy_output (4 # replicate 32 0, 77, [10])"
    by (simp_all add: toy_round_def)
  have "issues_verifier ''tick-utxo'' = False" by (simp add: issues_verifier_def PRICE_REQUEST_KIND_def)
  then show ?thesis
    by (simp add: toy_read_batch_def toy_tick_batch_def check_issued_def toy_users_fields f p o Let_def toy_output_def
        MAX_TICK_TIME_SKEW_SECS_def abs_diff_def toy_tick_asset_def checked_add_def)
qed

lemma toy_accepted:
  "validate_execute_request toy_setup toy_round_env toy_execute toy_round_eye (Some toy_tick_asset) None 60 = Inr None"
proof -
  have sizes: "length (ps_outputs toy_round) = 7" "length (ps_inputs toy_round) = 3"
    by (simp_all add: toy_round_def)
  have not_small: "\<not> (length (ps_inputs toy_round) < 3 \<or> length (ps_outputs toy_round) < 5)" using sizes by simp
  have eye: "na_asset_id toy_round_eye = [7]" "na_contract_script toy_round_eye = [3]" by (simp_all add: toy_round_eye_def)
  have first: "witness_utxo toy_round 0 = Inr toy_round_eye_out" by (simp add: witness_utxo_def toy_round_def toy_input_def)
  have explicit: "require_explicit_utxo toy_round_eye_out [7] [3] ''Storm Eye'' = Inr ()"
    by (simp add: require_explicit_utxo_Inr toy_round_eye_out_def)
  have preserved: "require_preserved_output toy_round_elements toy_round 0 toy_round_eye_out ''Storm Eye'' = Inr ()"
    by (simp add: require_preserved_output_Inr toy_round_def toy_elements_fields toy_to_txout_def toy_output_def
        toy_field_def toy_round_eye_out_def)
  have requests: "batch_requests [toy_read_batch] = [\<lparr>uq_kind = ''tick-utxo'', uq_payload = ''tick''\<rparr>]"
    by (simp add: batch_requests_def toy_read_batch_def toy_tick_batch_def)
  have tokens: "expected_tokens (Some toy_tick_asset) None 1 0 = Inr [toy_tick_asset]" by (simp add: expected_tokens_def)
  have fees: "length (concat (map ba_fee_utxos [toy_read_batch])) = 1" by (simp add: toy_read_batch_def)
  have not_verifier: "\<not> issues_verifier ''tick-utxo''" by (simp add: issues_verifier_def PRICE_REQUEST_KIND_def)
  have reissued: "reissuance_matches (ps_inputs toy_round ! 1) toy_tick_asset 77"
    by (simp add: reissuance_matches_def toy_round_def toy_input_def toy_tick_asset_def)
  have marker: "pays (0x6A # toy_descriptor_data) (replicate 32 8) 0 (ps_outputs toy_round ! 4)"
    by (simp add: pays_def toy_round_def toy_output_def)
  have hash: "issuance_signing_hash toy_round_elements toy_round toy_round_eye Liquid = Inr [3, 7]"
    by (simp add: issuance_signing_hash_def signing_hash_def storm_eye_program_def storm_eye_contract_data_def toy_round_eye_def
        toy_round_elements_def toy_elements_def sizes)
  have message: "eu_external_requests toy_execute \<noteq> []" "eu_tx toy_execute = []" "eu_signing_hash toy_execute = [3, 7]"
    "eu_branch toy_execute = replicate 32 1" by (simp_all add: toy_execute_def)
  show ?thesis
    unfolding validate_execute_request_def Let_def toy_setup_fields if_not_P [OF message(1)] message(2-) toy_elements_fields
      ok_or_simps bind_res_simps if_not_P [OF not_small] first eye explicit preserved toy_read_externals prod.case requests fees
    using not_verifier tokens toy_token_valid toy_accounts toy_issued reissued toy_descriptor_script marker hash sizes toy_accounting
    by (simp add: numeral_2_eq_2 [symmetric])
qed



end
