(* ===== verification/Round_Payments.thy ===== *)
theory Round_Payments
  imports Round_Toy
begin

text \<open>
  What a signer accepts pays exactly what the batches brought. The checks of
  \<open>validate_execute_request\<close> together with the balance every transaction on the chain has leave no
  choice for a single output that holds the policy asset.
\<close>

subsection \<open>Sums\<close>

definition input_worth :: "bytes \<Rightarrow> pset_input \<Rightarrow> nat" where
  "input_worth asset i =
     (case pi_witness_utxo i of
        None \<Rightarrow> 0
      | Some u \<Rightarrow> if explicit_value (to_asset u) = Some asset
                 then (case explicit_value (to_value u) of None \<Rightarrow> 0 | Some v \<Rightarrow> unat v) else 0)"

definition claimed_worth :: "bytes \<Rightarrow> pset_output \<Rightarrow> nat" where
  "claimed_worth asset out =
     (if po_asset out = Some asset then (case po_amount out of None \<Rightarrow> 0 | Some v \<Rightarrow> unat v) else 0)"

definition output_worth :: "bytes \<Rightarrow> pset_output \<Rightarrow> nat" where
  "output_worth asset out = (if is_fully_explicit_output out then claimed_worth asset out else 0)"

text \<open>The chain's balance of an asset that no confidential input or output holds.\<close>

definition balanced :: "bytes \<Rightarrow> pset \<Rightarrow> bool" where
  "balanced asset p \<longleftrightarrow>
     sum_list (map (input_worth asset) (ps_inputs p)) = sum_list (map (output_worth asset) (ps_outputs p))"

lemma checked_add_unat: "checked_add a b = Some (c :: u64) \<Longrightarrow> unat c = unat a + unat b"
  by (simp add: checked_add_Some_iff)

lemma fee_inputs_sum:
  "fold_res (add_fee_input asset) inputs start = Inr final \<Longrightarrow>
   unat final = unat start + sum_list (map (input_worth asset) inputs)"
  by (induction inputs arbitrary: start)
    (auto simp: add_fee_input_def bind_res_eq_Inr input_worth_def split: if_splits dest!: checked_add_unat)

lemma policy_outputs_sum:
  "fold_res (add_policy_output asset) outs start = Inr final \<Longrightarrow>
   unat final = unat start + sum_list (map (claimed_worth asset) outs)"
  by (induction outs arbitrary: start)
    (auto simp: add_policy_output_def bind_res_eq_Inr claimed_worth_def split: if_splits dest!: checked_add_unat)

subsection \<open>The reserves\<close>

lemma check_reserves_Inr:
  "check_reserves p asset index rs = Inr u \<Longrightarrow> k < length rs \<Longrightarrow>
   index + k < length (ps_outputs p) \<and> pays (fst (rs ! k)) asset (snd (rs ! k)) (ps_outputs p ! (index + k))"
proof (induction p asset index rs arbitrary: k rule: check_reserves.induct)
  case (2 p asset index script reserve rest)
  show ?case
  proof (cases k)
    case 0
    then show ?thesis using 2 by (auto simp: pays_def Let_def split: if_splits)
  next
    case (Suc j)
    then show ?thesis using 2(1) [of _ j] 2(2,3) by (auto simp: Let_def split: if_splits)
  qed
qed simp

lemma allocate_length:
  assumes "allocate_account_reserves accounts config = Inr parts"
  shows "length parts = length accounts"
proof -
  have "reserves_from config accounts r = Inr (parts, l) \<Longrightarrow> length parts = length accounts" for r l
    by (induction accounts arbitrary: r parts l) (auto simp: bind_res_eq_Inr)
  with assms show ?thesis by (auto simp: allocate_account_reserves_def bind_res_eq_Inr split: if_splits)
qed

lemma allocate_sum:
  assumes "allocate_account_reserves accounts config = Inr parts" "\<forall>(n, t)\<in>set accounts. n < 2 ^ 64"
  shows "sum_list (map (unat \<circ> snd) accounts) = unat_sum parts +
      unat (pc_operational_fee config) * sum_list (map fst accounts) + unat (pc_issuance_fee config) \<and>
    list_all2 (\<lambda>(n, t) r. unat (pc_burn_reserve config) * n \<le> unat r) accounts parts"
proof -
  have "reserves_from config accounts (pc_issuance_fee config) = Inr (parts, 0)"
    using assms(1) by (auto simp: allocate_account_reserves_def bind_res_eq_Inr split: if_splits)
  from reserves_from_Inr [OF this assms(2)] show ?thesis by simp
qed

subsection \<open>The issued outputs\<close>

lemma check_requests_outputs:
  assumes "\<And>index r d a. check index r = Inr (d, a) \<Longrightarrow> good index"
  shows "check_requests check index rs amounts = Inr (ds, final) \<Longrightarrow> k < length rs \<Longrightarrow> good (index + k)"
proof (induction rs arbitrary: index amounts ds k)
  case (Cons r rs)
  then obtain d a amounts' ds' where c: "check index r = Inr (d, a)"
    and rest: "check_requests check (Suc index) rs amounts' = Inr (ds', final)"
    by (auto simp: bind_res_eq_Inr Let_def)
  show ?case
  proof (cases k)
    case 0
    then show ?thesis using assms [OF c] by simp
  next
    case (Suc j)
    then show ?thesis using Cons.IH [OF rest, of j] Cons.prems(2) by simp
  qed
qed simp

text \<open>An issued output holds the Tick or the Verifier asset.\<close>

definition holds_issued :: "issue_context \<Rightarrow> pset \<Rightarrow> nat \<Rightarrow> bool" where
  "holds_issued ctx p index \<longleftrightarrow> index < length (ps_outputs p) \<and>
     (\<exists>asset. (ic_tick_asset ctx = Some asset \<or> ic_verifier_asset ctx = Some asset) \<and>
        po_asset (ps_outputs p ! index) = Some (na_asset_id asset))"

lemma check_issued_holds:
  "check_issued users env ctx p owner reserve index r = Inr (d, a) \<Longrightarrow> holds_issued ctx p index"
  by (auto simp: check_issued_def holds_issued_def bind_res_eq_Inr Let_def split: if_splits)

lemma check_batches_holds:
  "check_batches users env ctx p bs reserve index amounts = Inr (ds, final) \<Longrightarrow>
   k < length (batch_requests bs) \<Longrightarrow> holds_issued ctx p (index + k)"
proof (induction bs arbitrary: reserve index amounts ds k)
  case Nil
  then show ?case by (simp add: batch_requests_def)
next
  case (Cons b bs)
  let ?n = "length (nu_requests (ba_request b))"
  obtain reserve_index ds1 amounts' ds2 where one: "check_requests (check_issued users env ctx p (ba_owner b) reserve_index) index
      (nu_requests (ba_request b)) amounts = Inr (ds1, amounts')"
    and rest: "check_batches users env ctx p bs (Suc reserve) (index + ?n) amounts' = Inr (ds2, final)"
    using Cons.prems(1) by (auto simp: bind_res_eq_Inr split: if_splits)
  show ?case
  proof (cases "k < ?n")
    case True
    then show ?thesis using check_requests_outputs [where good = "holds_issued ctx p", OF check_issued_holds one] by simp
  next
    case False
    then have "k - ?n < length (batch_requests bs)" using Cons.prems(2) by (simp add: batch_requests_def)
    from Cons.IH [OF rest this] False show ?thesis by simp
  qed
qed

subsection \<open>The accounts\<close>

lemma check_fee_inputs_ConsE:
  assumes "check_fee_inputs p script (f # fs) index start = Inr final"
  obtains u v t where "index < length (ps_inputs p)" "pi_witness_utxo (ps_inputs p ! index) = Some u"
    "to_script u = script" "explicit_value (to_value u) = Some v" "checked_add start v = Some t"
    "check_fee_inputs p script fs (Suc index) t = Inr final"
    "(pi_previous_txid (ps_inputs p ! index), pi_previous_index (ps_inputs p ! index)) = f"
  using assms
  by (auto simp: Let_def bind_res_eq_Inr bind_eq_Some_conv prod_eq_iff split: if_splits option.splits)

text \<open>The total of a batch is what its inputs hold, when they hold the policy asset.\<close>

definition explicit_inputs :: "bytes \<Rightarrow> pset_input list \<Rightarrow> bool" where
  "explicit_inputs asset inputs \<longleftrightarrow>
     (\<forall>i\<in>set inputs. \<exists>u. pi_witness_utxo i = Some u \<and> explicit_value (to_asset u) = Some asset)"

lemma check_fee_inputs_worth:
  "check_fee_inputs p script fs index start = Inr final \<Longrightarrow> explicit_inputs asset (drop index (ps_inputs p)) \<Longrightarrow>
   unat final = unat start + sum_list (map (input_worth asset) (take (length fs) (drop index (ps_inputs p))))"
proof (induction fs arbitrary: index start)
  case Nil
  then show ?case by simp
next
  case (Cons f fs)
  obtain u v t where i: "index < length (ps_inputs p)" and u: "pi_witness_utxo (ps_inputs p ! index) = Some u"
      "explicit_value (to_value u) = Some v" "checked_add start v = Some t"
    and rest: "check_fee_inputs p script fs (Suc index) t = Inr final"
    using Cons.prems(1) by (rule check_fee_inputs_ConsE)
  have d: "drop index (ps_inputs p) = ps_inputs p ! index # drop (Suc index) (ps_inputs p)"
    using i by (simp add: Cons_nth_drop_Suc)
  have e: "explicit_inputs asset (drop (Suc index) (ps_inputs p))" "input_worth asset (ps_inputs p ! index) = unat v"
    using Cons.prems(2) d u by (auto simp: explicit_inputs_def input_worth_def)
  show ?case using Cons.IH [OF rest e(1)] e(2) checked_add_unat [OF u(3)] d by simp
qed

lemma check_accounts_Inr:
  "check_accounts env network eye p bs index = Inr accounts \<Longrightarrow> explicit_inputs asset (drop index (ps_inputs p)) \<Longrightarrow>
   map (\<lambda>(script, n, _). (script, n)) accounts =
     map (\<lambda>b. (ee_account_script env eye (ba_owner b) network, length (nu_requests (ba_request b)))) bs \<and>
   sum_list (map (unat \<circ> snd \<circ> snd) accounts) =
     sum_list (map (input_worth asset) (take (length (concat (map ba_fee_utxos bs))) (drop index (ps_inputs p))))"
proof (induction bs arbitrary: index accounts)
  case Nil
  then show ?case by simp
next
  case (Cons b bs)
  let ?n = "length (ba_fee_utxos b)"
  obtain t rest where one: "check_fee_inputs p (ee_account_script env eye (ba_owner b) network) (ba_fee_utxos b) index 0 = Inr t"
    and rest: "check_accounts env network eye p bs (index + ?n) = Inr rest"
    and a: "accounts = (ee_account_script env eye (ba_owner b) network, length (nu_requests (ba_request b)), t) # rest"
    using Cons.prems(1) by (auto simp: Let_def bind_res_eq_Inr)
  have dd: "drop (index + ?n) (ps_inputs p) = drop ?n (drop index (ps_inputs p))" by (simp add: add.commute)
  have "set (drop (index + ?n) (ps_inputs p)) \<subseteq> set (drop index (ps_inputs p))"
    unfolding dd by (rule set_drop_subset)
  then have "explicit_inputs asset (drop (index + ?n) (ps_inputs p))"
    using Cons.prems(2) unfolding explicit_inputs_def by blast
  note IH = Cons.IH [OF rest this]
  let ?xs = "drop index (ps_inputs p)" and ?m = "length (concat (map ba_fee_utxos bs))"
  have "unat t = sum_list (map (input_worth asset) (take ?n ?xs))"
    using check_fee_inputs_worth [OF one Cons.prems(2)] by simp
  moreover have "take (?n + ?m) ?xs = take ?n ?xs @ take ?m (drop ?n ?xs)" by (rule take_add)
  moreover have "length (concat (map ba_fee_utxos (b # bs))) = ?n + ?m" by simp
  ultimately have "sum_list (map (input_worth asset) (take (length (concat (map ba_fee_utxos (b # bs)))) ?xs)) =
      unat t + sum_list (map (unat \<circ> snd \<circ> snd) rest)"
    using IH unfolding dd by (simp only: map_append sum_list_append)
  then show ?case using IH a by simp
qed

lemma add_fee_inputs_explicit:
  "fold_res (add_fee_input asset) inputs start = Inr final \<Longrightarrow> explicit_inputs asset inputs"
proof (induction inputs arbitrary: start)
  case Nil
  then show ?case by (simp add: explicit_inputs_def)
next
  case (Cons i inputs)
  then obtain t where i: "add_fee_input asset i start = Inr t" and rest: "fold_res (add_fee_input asset) inputs t = Inr final"
    by (auto simp: bind_res_eq_Inr)
  have "\<exists>u. pi_witness_utxo i = Some u \<and> explicit_value (to_asset u) = Some asset"
    using i by (auto simp: add_fee_input_def bind_res_eq_Inr split: if_splits)
  then show ?case using Cons.IH [OF rest] by (auto simp: explicit_inputs_def)
qed

subsection \<open>The tokens and the Storm Eye\<close>

lemma confidential_not_explicit:
  assumes "to_txout_law env" "is_confidential (to_asset (ee_to_txout env out))"
  shows "\<not> is_fully_explicit_output out"
  using assms by (auto simp: to_txout_law_def is_fully_explicit_output_def is_confidential_def)

lemma validate_token_worthless:
  assumes "to_txout_law env" "validate_token renv env p index asset = Inr u"
  shows "input_worth a (ps_inputs p ! index) = 0 \<and> output_worth a (ps_outputs p ! index) = 0"
proof -
  from assms(2) obtain utxo c where w: "witness_utxo p index = Inr utxo" "commitment (to_asset utxo) = Some c"
    and out: "is_confidential (to_asset (ee_to_txout env (ps_outputs p ! index)))"
    by (auto simp: validate_token_def bind_res_eq_Inr Let_def split: if_splits)
  have "explicit_value (to_asset utxo) = None" using w(2) by (cases "to_asset utxo") auto
  moreover have "pi_witness_utxo (ps_inputs p ! index) = Some utxo" using w(1) by (auto simp: witness_utxo_def split: if_splits)
  ultimately show ?thesis
    using confidential_not_explicit [OF assms(1) out] by (simp add: input_worth_def output_worth_def)
qed

lemma validate_tokens_worthless:
  assumes "to_txout_law env"
  shows "validate_tokens renv env p index assets = Inr u \<Longrightarrow> k < length assets \<Longrightarrow>
    input_worth a (ps_inputs p ! (index + k)) = 0 \<and> output_worth a (ps_outputs p ! (index + k)) = 0"
proof (induction assets arbitrary: index k)
  case (Cons asset assets)
  then show ?case
    using validate_token_worthless [OF assms, of renv p index asset] Cons.IH [of "Suc index" "k - 1"]
    by (cases k) (auto simp: bind_res_eq_Inr)
qed simp

lemma storm_eye_worthless:
  assumes "to_txout_law env" "a \<noteq> eye"
    and "witness_utxo p 0 = Inr utxo" "require_explicit_utxo utxo eye script name = Inr u"
    and "require_preserved_output env p 0 utxo name = Inr u'" "is_fully_explicit_output (ps_outputs p ! 0)"
  shows "input_worth a (ps_inputs p ! 0) = 0 \<and> claimed_worth a (ps_outputs p ! 0) = 0"
proof -
  have e: "explicit_value (to_asset utxo) = Some eye" using assms(4) by (auto simp: require_explicit_utxo_def split: if_splits)
  then have asset: "to_asset utxo = ExplicitField eye" by (cases "to_asset utxo") auto
  have "to_asset (ee_to_txout env (ps_outputs p ! 0)) = to_asset utxo"
    using assms(5) by (auto simp: require_preserved_output_def Let_def split: if_splits)
  then have "po_asset (ps_outputs p ! 0) = Some eye"
    using assms(1,6) asset by (auto simp: to_txout_law_def is_fully_explicit_output_def split: option.splits)
  moreover have "pi_witness_utxo (ps_inputs p ! 0) = Some utxo" using assms(3) by (auto simp: witness_utxo_def split: if_splits)
  ultimately show ?thesis using e assms(2) by (simp add: input_worth_def claimed_worth_def)
qed

subsection \<open>What is accepted\<close>

lemma expected_tokens_length: "expected_tokens tick verifier issued verifiers = Inr tokens \<Longrightarrow> length tokens \<le> 2"
  by (cases tick; cases verifier) (auto simp: expected_tokens_def bind_res_eq_Inr split: if_splits)

text \<open>The facts of an accepted message, with the batches it is read as.\<close>

definition accepted_facts ::
  "round_setup \<Rightarrow> pset \<Rightarrow> network_asset \<Rightarrow> network_asset option \<Rightarrow> network_asset option \<Rightarrow> read_batch list \<Rightarrow> nat \<Rightarrow>
   (bytes \<times> nat \<times> u64) list \<Rightarrow> bool" where
  "accepted_facts setup p storm_eye tick_asset verifier_asset batches token_count accounts \<longleftrightarrow>
     (let env = ro_elements setup; policy = ee_policy_asset env (ro_network setup);
          issued = length (batch_requests batches); first = 1 + token_count + issued in
      0 < issued \<and> issued \<le> 100 \<and> length accounts = length batches \<and>
      (\<exists>utxo u u'. witness_utxo p 0 = Inr utxo \<and>
         require_explicit_utxo utxo (na_asset_id storm_eye) (na_contract_script storm_eye) ''Storm Eye'' = Inr u \<and>
         require_preserved_output env p 0 utxo ''Storm Eye'' = Inr u') \<and>
      (\<forall>k<token_count. input_worth policy (ps_inputs p ! (1 + k)) = 0 \<and> output_worth policy (ps_outputs p ! (1 + k)) = 0) \<and>
      check_accounts env (ro_network setup) (na_asset_id storm_eye) p batches (1 + token_count) = Inr accounts \<and>
      length (ps_inputs p) = 1 + token_count + length (concat (map ba_fee_utxos batches)) \<and>
      (\<forall>k<issued. \<exists>asset. (tick_asset = Some asset \<or> verifier_asset = Some asset) \<and>
         po_asset (ps_outputs p ! (1 + token_count + k)) = Some (na_asset_id asset)) \<and>
      (\<exists>data. pays (ee_op_return env data) policy 0 (ps_outputs p ! (first + length batches))) \<and>
      validate_accounting_outputs env p accounts token_count issued (na_asset_id storm_eye) policy (ro_config setup)
        (ro_network setup) = Inr ())"

lemma check_requests_length: "check_requests check index rs amounts = Inr (ds, final) \<Longrightarrow> length ds = length rs"
  by (induction rs arbitrary: index amounts ds) (auto simp: bind_res_eq_Inr Let_def)

lemma check_batches_length:
  "check_batches users env ctx p bs reserve index amounts = Inr (ds, final) \<Longrightarrow> length ds = length (batch_requests bs)"
proof (induction bs arbitrary: reserve index amounts ds)
  case (Cons b bs)
  then show ?case
    by (auto simp: batch_requests_def bind_res_eq_Inr split: if_splits dest!: check_requests_length)
qed (simp add: batch_requests_def)

lemma check_accounts_length: "check_accounts env network eye p bs index = Inr accounts \<Longrightarrow> length accounts = length bs"
  by (induction bs arbitrary: index accounts) (auto simp: Let_def bind_res_eq_Inr)

lemma accepted_factsI:
  assumes "validate_execute_request setup renv request storm_eye tick_asset verifier_asset now = Inr instructed"
    and "ee_decode_pset (ro_elements setup) (eu_tx request) = Some p"
    and "read_externals (ro_users setup) (eu_external_requests request) None = Inr (batches, instructed)"
    and "to_txout_law (ro_elements setup)"
  shows "\<exists>token_count accounts. accepted_facts setup p storm_eye tick_asset verifier_asset batches token_count accounts \<and>
    token_count \<le> 2"
proof -
  let ?env = "ro_elements setup" and ?policy = "ee_policy_asset (ro_elements setup) (ro_network setup)"
  let ?issued = "length (batch_requests batches)"
  let ?ctx = "\<lparr>ic_storm_eye_asset_id = na_asset_id storm_eye, ic_tick_asset = tick_asset,
      ic_verifier_asset = verifier_asset, ic_network = ro_network setup, ic_signer = eu_branch request, ic_now = now\<rparr>"
  obtain utxo tokens accounts ds amounts script where
    eye: "witness_utxo p 0 = Inr utxo"
      "require_explicit_utxo utxo (na_asset_id storm_eye) (na_contract_script storm_eye) ''Storm Eye'' = Inr ()"
      "require_preserved_output ?env p 0 utxo ''Storm Eye'' = Inr ()"
    and tokens: "expected_tokens tick_asset verifier_asset ?issued
        (length (filter (issues_verifier \<circ> uq_kind) (batch_requests batches))) = Inr tokens"
      "validate_tokens renv ?env p 1 tokens = Inr ()"
    and accounts: "check_accounts ?env (ro_network setup) (na_asset_id storm_eye) p batches (1 + length tokens) = Inr accounts"
      "length (ps_inputs p) = 1 + length tokens + length (concat (map ba_fee_utxos batches))"
    and batches: "check_batches (ro_users setup) ?env ?ctx p batches (1 + length tokens + ?issued) (1 + length tokens)
        (replicate (length tokens) 0) = Inr (ds, amounts)"
    and script: "descriptor_script_pubkey ?env ds = Inr script"
      "pays script ?policy 0 (ps_outputs p ! (1 + length tokens + ?issued + length accounts))"
    and accounting: "validate_accounting_outputs ?env p accounts (length tokens) ?issued (na_asset_id storm_eye) ?policy
        (ro_config setup) (ro_network setup) = Inr ()"
    using assms(1) unfolding validate_execute_request_def Let_def
    by (auto simp: assms(2,3) bind_res_eq_Inr simp del: plus_nat.simps add_Suc add_Suc_right One_nat_def split: if_splits prod.splits)
  have "\<exists>data. script = ee_op_return ?env data"
    using script(1) by (auto simp: descriptor_script_pubkey_def bind_res_eq_Inr)
  moreover have "0 < ?issued \<and> ?issued \<le> 100"
    using script(1) check_batches_length [OF batches]
    by (auto simp: descriptor_script_pubkey_def descriptor_data_def bind_res_eq_Inr MAX_ISSUED_DESCRIPTORS_def split: if_splits)
  moreover have "\<exists>asset. (tick_asset = Some asset \<or> verifier_asset = Some asset) \<and>
      po_asset (ps_outputs p ! (1 + length tokens + k)) = Some (na_asset_id asset)" if "k < ?issued" for k
    using check_batches_holds [OF batches that] by (auto simp: holds_issued_def)
  ultimately have "accepted_facts setup p storm_eye tick_asset verifier_asset batches (length tokens) accounts"
    unfolding accepted_facts_def Let_def
    using eye validate_tokens_worthless [OF assms(4) tokens(2)] accounts script(2) accounting check_accounts_length [OF accounts(1)]
    by (intro conjI) auto
  then show ?thesis using expected_tokens_length [OF tokens(1)] by blast
qed

lemma sum_list_eq_pointwise:
  fixes f g :: "'a \<Rightarrow> nat"
  assumes "sum_list (map f xs) = sum_list (map g xs)" "\<forall>x\<in>set xs. f x \<le> g x"
  shows "\<forall>x\<in>set xs. f x = g x"
  using assms
proof (induction xs)
  case (Cons x xs)
  have "sum_list (map f xs) \<le> sum_list (map g xs)" using Cons.prems(2) by (intro sum_list_mono) auto
  moreover have "f x \<le> g x" "f x + sum_list (map f xs) = g x + sum_list (map g xs)" using Cons.prems by simp_all
  ultimately have "f x = g x" "sum_list (map f xs) = sum_list (map g xs)" by linarith+
  then show ?case using Cons.IH [OF \<open>sum_list (map f xs) = sum_list (map g xs)\<close>] Cons.prems(2) by auto
qed simp

lemma indexed_nth: "i < length xs \<Longrightarrow> (i, xs ! i) \<in> set (zip [0..<length xs] xs)"
  by (auto simp: set_zip intro!: exI [of _ i])

text \<open>Every claim of an accepted transaction to hold the policy asset is true.\<close>

lemma claims_hold:
  assumes "accepted_facts setup p storm_eye tick_asset verifier_asset batches token_count accounts"
    and "to_txout_law (ro_elements setup)" and policy: "policy = ee_policy_asset (ro_elements setup) (ro_network setup)"
    and "policy \<noteq> na_asset_id storm_eye" "balanced policy p"
  shows "(\<forall>out\<in>set (ps_outputs p). claimed_worth policy out = output_worth policy out) \<and>
    sum_list (map (input_worth policy) (ps_inputs p)) = sum_list (map (input_worth policy) (drop (1 + token_count) (ps_inputs p))) \<and>
    explicit_inputs policy (drop (1 + token_count) (ps_inputs p))"
proof -
  note facts = assms(1) [unfolded accepted_facts_def Let_def, folded policy]
  have acc: "validate_accounting_outputs (ro_elements setup) p accounts token_count (length (batch_requests batches))
      (na_asset_id storm_eye) policy (ro_config setup) (ro_network setup) = Inr ()" using facts by blast
  then obtain total_in total_out where sums: "fold_res (add_fee_input policy) (drop (1 + token_count) (ps_inputs p)) 0 = Inr total_in"
      "fold_res (add_policy_output policy) (ps_outputs p) 0 = Inr total_out" "total_in = total_out"
    and n: "length (ps_outputs p) = 1 + token_count + length (batch_requests batches) + length accounts + 1 + 2"
    and explicit: "\<forall>(index, out) \<in> set (zip [0..<length (ps_outputs p)] (ps_outputs p)).
        1 \<le> index \<and> index \<le> token_count \<or> is_fully_explicit_output out"
    by (auto simp: validate_accounting_outputs_def bind_res_eq_Inr simp del: plus_nat.simps add_Suc add_Suc_right split: if_splits)
  have eye: "input_worth policy (ps_inputs p ! 0) = 0"
  proof -
    have "0 < length (ps_outputs p)" using n by linarith
    from indexed_nth [OF this] have "is_fully_explicit_output (ps_outputs p ! 0)" using explicit by fastforce
    then show ?thesis
      using facts by (elim conjE exE) (drule (3) storm_eye_worthless [OF assms(2,4)], simp)
  qed
  have "input_worth policy i = 0" if "i \<in> set (take (1 + token_count) (ps_inputs p))" for i
  proof -
    from that obtain k where "k < 1 + token_count" "i = ps_inputs p ! k" by (auto simp: in_set_conv_nth)
    moreover have "\<forall>k<token_count. input_worth policy (ps_inputs p ! (1 + k)) = 0" using facts by (elim conjE) blast
    ultimately show ?thesis using eye by (cases k) auto
  qed
  then have "sum_list (map (input_worth policy) (take (1 + token_count) (ps_inputs p))) = 0" by (simp add: sum_list_eq_0_iff)
  moreover have "sum_list (map (input_worth policy) (ps_inputs p)) =
      sum_list (map (input_worth policy) (take (1 + token_count) (ps_inputs p))) +
      sum_list (map (input_worth policy) (drop (1 + token_count) (ps_inputs p)))"
    by (metis append_take_drop_id map_append sum_list_append)
  ultimately have inputs: "sum_list (map (input_worth policy) (ps_inputs p)) =
      sum_list (map (input_worth policy) (drop (1 + token_count) (ps_inputs p)))" by linarith
  have "sum_list (map (output_worth policy) (ps_outputs p)) = sum_list (map (claimed_worth policy) (ps_outputs p))"
    using fee_inputs_sum [OF sums(1)] policy_outputs_sum [OF sums(2)] sums(3) inputs assms(5) by (simp add: balanced_def)
  then have "\<forall>out\<in>set (ps_outputs p). output_worth policy out = claimed_worth policy out"
    by (rule sum_list_eq_pointwise) (simp add: output_worth_def)
  then show ?thesis using inputs add_fee_inputs_explicit [OF sums(1)] by simp
qed


text \<open>
  The scripts of the programs differ from each other: the Treasury's from every account's, and both from data
  outputs and from the empty script of a miner's fee.
\<close>

definition script_laws :: "elements_env \<Rightarrow> bytes \<Rightarrow> simplicity_network \<Rightarrow> bool" where
  "script_laws env eye network \<longleftrightarrow>
     (let treasury = ee_treasury_script env eye network in
      treasury \<noteq> [] \<and> (\<forall>owner. ee_account_script env eye owner network \<noteq> [] \<and> ee_account_script env eye owner network \<noteq> treasury) \<and>
      (\<forall>data. ee_op_return env data \<noteq> [] \<and> ee_op_return env data \<noteq> treasury))"

text \<open>An output that pays something to the Treasury or to the miners is one of the last two.\<close>

lemma payer_position:
  assumes facts: "accepted_facts setup p storm_eye tick_asset verifier_asset batches token_count accounts"
    and laws: "to_txout_law (ro_elements setup)" and policy: "policy = ee_policy_asset (ro_elements setup) (ro_network setup)"
    and assets: "policy \<noteq> na_asset_id storm_eye"
      "\<forall>asset. tick_asset = Some asset \<or> verifier_asset = Some asset \<longrightarrow> na_asset_id asset \<noteq> policy"
    and bal: "balanced policy p"
    and reserves: "\<forall>k<length batches. pays (ee_account_script (ro_elements setup) (na_asset_id storm_eye) (ba_owner (batches ! k)) (ro_network setup))
        policy (parts ! k) (ps_outputs p ! (1 + token_count + length (batch_requests batches) + k))"
    and n: "length (ps_outputs p) = 1 + token_count + length (batch_requests batches) + length batches + 3"
    and i: "i < length (ps_outputs p)" "pays script policy amount (ps_outputs p ! i)" "0 < unat amount"
    and script: "\<forall>owner. ee_account_script (ro_elements setup) (na_asset_id storm_eye) owner (ro_network setup) \<noteq> script"
      "\<forall>data. ee_op_return (ro_elements setup) data \<noteq> script"
  shows "i = 1 + token_count + length (batch_requests batches) + length batches + 1 \<or>
    i = 1 + token_count + length (batch_requests batches) + length batches + 2"
proof (rule ccontr)
  assume other: "\<not> ?thesis"
  let ?issued = "length (batch_requests batches)"
  let ?first = "1 + token_count + ?issued"
  note facts' = facts [unfolded accepted_facts_def Let_def, folded policy]
  have worth: "claimed_worth policy (ps_outputs p ! i) = unat amount" using i(2) by (simp add: pays_def claimed_worth_def)
  have claim: "claimed_worth policy (ps_outputs p ! i) = output_worth policy (ps_outputs p ! i)"
    using claims_hold [OF facts laws policy assets(1) bal] i(1) by simp
  consider (eye) "i = 0" | (token) "1 \<le> i" "i \<le> token_count" | (issued) "1 + token_count \<le> i" "i < ?first"
    | (reserve) "?first \<le> i" "i < ?first + length batches" | (descriptor) "i = ?first + length batches"
    using other i(1) n by linarith
  then show False
  proof cases
    case eye
    have "is_fully_explicit_output (ps_outputs p ! 0)"
      using claim worth i(3) eye by (auto simp: output_worth_def split: if_splits)
    then have "claimed_worth policy (ps_outputs p ! 0) = 0"
      using facts' by (elim conjE exE) (drule (3) storm_eye_worthless [OF laws assets(1)], simp)
    then show False using worth i(3) eye by simp
  next
    case token
    have "\<forall>k<token_count. output_worth policy (ps_outputs p ! (1 + k)) = 0" using facts' by (elim conjE) blast
    moreover obtain k where "i = 1 + k" "k < token_count" by (rule that [of "i - 1"]) (use token in auto)
    ultimately show False using claim worth i(3) by simp
  next
    case issued
    have "\<forall>k<?issued. \<exists>asset. (tick_asset = Some asset \<or> verifier_asset = Some asset) \<and>
         po_asset (ps_outputs p ! (1 + token_count + k)) = Some (na_asset_id asset)" using facts' by (elim conjE) assumption
    moreover obtain k where k: "i = 1 + token_count + k" "k < ?issued"
      by (rule that [of "i - (1 + token_count)"]) (use issued in auto)
    ultimately obtain asset where "tick_asset = Some asset \<or> verifier_asset = Some asset"
      "po_asset (ps_outputs p ! i) = Some (na_asset_id asset)" by blast
    then show False using i(2) assets(2) by (auto simp: pays_def)
  next
    case reserve
    obtain k where k: "i = ?first + k" "k < length batches" by (rule that [of "i - ?first"]) (use reserve in auto)
    show False using reserves [rule_format, OF k(2)] k(1) i(2) script(1) by (auto simp: pays_def)
  next
    case descriptor
    have "\<exists>data. pays (ee_op_return (ro_elements setup) data) policy 0 (ps_outputs p ! (?first + length batches))"
      using facts' by (elim conjE) assumption
    then show False using descriptor i(2) script(2) by (auto simp: pays_def)
  qed
qed

lemma accepted_amounts:
  assumes facts: "accepted_facts setup p storm_eye tick_asset verifier_asset batches token_count accounts"
    and laws: "to_txout_law (ro_elements setup)" and policy: "policy = ee_policy_asset (ro_elements setup) (ro_network setup)"
    and asset: "policy \<noteq> na_asset_id storm_eye" and bal: "balanced policy p"
  shows "\<exists>operational parts.
    unat operational = unat (pc_operational_fee (ro_config setup)) * length (batch_requests batches) \<and>
    length (ps_outputs p) = 1 + token_count + length (batch_requests batches) + length batches + 3 \<and>
    length parts = length batches \<and>
    (\<forall>k<length batches. unat (pc_burn_reserve (ro_config setup)) * length (nu_requests (ba_request (batches ! k))) \<le> unat (parts ! k) \<and>
       pays (ee_account_script (ro_elements setup) (na_asset_id storm_eye) (ba_owner (batches ! k)) (ro_network setup)) policy (parts ! k)
         (ps_outputs p ! (1 + token_count + length (batch_requests batches) + k))) \<and>
    list_ex (pays (ee_treasury_script (ro_elements setup) (na_asset_id storm_eye) (ro_network setup)) policy operational) (ps_outputs p) \<and>
    list_ex (pays [] policy (pc_issuance_fee (ro_config setup))) (ps_outputs p) \<and>
    sum_list (map (input_worth policy) (ps_inputs p)) =
      unat_sum parts + unat operational + unat (pc_issuance_fee (ro_config setup))"
proof -
  let ?issued = "length (batch_requests batches)"
  let ?script = "\<lambda>b. ee_account_script (ro_elements setup) (na_asset_id storm_eye) (ba_owner b) (ro_network setup)"
  note facts' = facts [unfolded accepted_facts_def Let_def, folded policy]
  have small: "?issued \<le> 100" and same_length: "length accounts = length batches"
    and accounts: "check_accounts (ro_elements setup) (ro_network setup) (na_asset_id storm_eye) p batches (1 + token_count) = Inr accounts"
    and inputs: "length (ps_inputs p) = 1 + token_count + length (concat (map ba_fee_utxos batches))"
    and acc: "validate_accounting_outputs (ro_elements setup) p accounts token_count ?issued
      (na_asset_id storm_eye) policy (ro_config setup) (ro_network setup) = Inr ()"
    by (insert facts') (elim conjE, assumption)+
  note holds = claims_hold [OF facts laws policy asset bal]
  from acc obtain operational parts where op: "checked_mul (pc_operational_fee (ro_config setup)) (of_nat ?issued) = Some operational"
      "list_ex (pays (ee_treasury_script (ro_elements setup) (na_asset_id storm_eye) (ro_network setup)) policy operational) (ps_outputs p)"
    and parts: "allocate_account_reserves (map snd accounts) (ro_config setup) = Inr parts"
      "check_reserves p policy (1 + token_count + ?issued) (zip (map fst accounts) parts) = Inr ()"
    and miner: "list_ex (pays [] policy (pc_issuance_fee (ro_config setup))) (ps_outputs p)"
    and n: "length (ps_outputs p) = 1 + token_count + ?issued + length accounts + 1 + 2"
    by (auto simp: validate_accounting_outputs_def bind_res_eq_Inr simp del: plus_nat.simps add_Suc add_Suc_right split: if_splits)
  from check_accounts_Inr [OF accounts] holds
  have names: "map (\<lambda>(script, n, _). (script, n)) accounts = map (\<lambda>b. (?script b, length (nu_requests (ba_request b)))) batches"
    and worth: "sum_list (map (unat \<circ> snd \<circ> snd) accounts) = sum_list (map (input_worth policy) (ps_inputs p))"
    using inputs by auto
  have name: "fst (accounts ! k) = ?script (batches ! k)" "fst (snd (accounts ! k)) = length (nu_requests (ba_request (batches ! k)))"
    if "k < length batches" for k
  proof -
    from names have "map (\<lambda>(script, n, _). (script, n)) accounts ! k =
        map (\<lambda>b. (?script b, length (nu_requests (ba_request b)))) batches ! k" by simp
    with that same_length show "fst (accounts ! k) = ?script (batches ! k)"
      "fst (snd (accounts ! k)) = length (nu_requests (ba_request (batches ! k)))"
      by (auto split: prod.splits)
  qed
  have counts: "map (fst \<circ> snd) accounts = map (\<lambda>b. length (nu_requests (ba_request b))) batches"
    by (rule nth_equalityI) (use name(2) same_length in auto)
  have total_count: "sum_list (map (fst \<circ> snd) accounts) = ?issued"
    unfolding counts by (simp add: batch_requests_def length_concat comp_def)
  have bounded: "\<forall>(n, t)\<in>set (map snd accounts). n < 2 ^ 64"
  proof -
    have "n \<le> ?issued" if "(s, n, t) \<in> set accounts" for s n t
      using member_le_sum_list [of n "map (fst \<circ> snd) accounts"] that unfolding total_count by force
    then show ?thesis using small by force
  qed
  note sums = allocate_sum [OF parts(1) bounded]
  have unop: "unat operational = unat (pc_operational_fee (ro_config setup)) * ?issued"
    using op(1) small by (simp add: checked_mul_Some_iff unat_of_nat)
  have len: "length parts = length batches" using allocate_length [OF parts(1)] same_length by simp
  have each: "unat (pc_burn_reserve (ro_config setup)) * length (nu_requests (ba_request (batches ! k))) \<le> unat (parts ! k) \<and>
      pays (?script (batches ! k)) policy (parts ! k) (ps_outputs p ! (1 + token_count + ?issued + k))"
    if k: "k < length batches" for k
  proof -
    have "k < length (zip (map fst accounts) parts)" using k len same_length by simp
    from check_reserves_Inr [OF parts(2) this]
    have "pays (?script (batches ! k)) policy (parts ! k) (ps_outputs p ! (1 + token_count + ?issued + k))"
      using k len same_length name(1) [OF k] by simp
    moreover have "(\<lambda>(n, t) r. unat (pc_burn_reserve (ro_config setup)) * n \<le> unat r) (map snd accounts ! k) (parts ! k)"
      using sums k same_length by (auto simp: list_all2_conv_all_nth)
    ultimately show ?thesis using k same_length name(2) [OF k] by (auto split: prod.splits)
  qed
  have "sum_list (map (input_worth policy) (ps_inputs p)) = unat_sum parts + unat operational + unat (pc_issuance_fee (ro_config setup))"
    using sums worth total_count unop by (simp add: comp_def)
  then show ?thesis using op(2) miner n same_length len each unop by (intro exI [of _ operational] exI [of _ parts]) auto
qed

lemma list_ex_nthE: "list_ex P xs \<Longrightarrow> \<exists>i<length xs. P (xs ! i)"
  by (auto simp: list_ex_iff in_set_conv_nth)

text \<open>
  C34: What a signer accepts pays exactly what it must. For every accepted message whose transaction the chain can
  accept, the outputs after the issued ones are the burn reserves of the batches, in their order and each to its own
  requester's account and at least the burn reserve for every request, then the descriptor, then the operational fee
  of the Treasury and the miners' fee; and the inputs of the policy asset are worth exactly these payments, so that
  no signer is paid for and nothing of a requester's input goes anywhere else.
\<close>

theorem accepted_round_pays_exactly:
  assumes accepted: "validate_execute_request setup renv request storm_eye tick_asset verifier_asset now = Inr instructed"
    and "ee_decode_pset (ro_elements setup) (eu_tx request) = Some p"
    and "read_externals (ro_users setup) (eu_external_requests request) None = Inr (batches, instructed)"
    and laws: "to_txout_law (ro_elements setup)" "script_laws (ro_elements setup) (na_asset_id storm_eye) (ro_network setup)"
    and policy: "policy = ee_policy_asset (ro_elements setup) (ro_network setup)" "policy \<noteq> na_asset_id storm_eye"
      "\<forall>asset. tick_asset = Some asset \<or> verifier_asset = Some asset \<longrightarrow> na_asset_id asset \<noteq> policy"
    and config: "0 < pc_operational_fee (ro_config setup)" "0 < pc_issuance_fee (ro_config setup)"
    and bal: "balanced policy p"
  shows "\<exists>first parts operational.
    length (ps_outputs p) = first + length batches + 3 \<and> length parts = length batches \<and>
    unat operational = unat (pc_operational_fee (ro_config setup)) * length (batch_requests batches) \<and>
    (\<forall>k<length batches.
       unat (pc_burn_reserve (ro_config setup)) * length (nu_requests (ba_request (batches ! k))) \<le> unat (parts ! k) \<and>
       pays (ee_account_script (ro_elements setup) (na_asset_id storm_eye) (ba_owner (batches ! k)) (ro_network setup)) policy
         (parts ! k) (ps_outputs p ! (first + k))) \<and>
    (\<exists>i j. {i, j} = {first + length batches + 1, first + length batches + 2} \<and>
       pays (ee_treasury_script (ro_elements setup) (na_asset_id storm_eye) (ro_network setup)) policy operational (ps_outputs p ! i) \<and>
       pays [] policy (pc_issuance_fee (ro_config setup)) (ps_outputs p ! j)) \<and>
    sum_list (map (input_worth policy) (ps_inputs p)) =
      unat_sum parts + unat operational + unat (pc_issuance_fee (ro_config setup))"
proof -
  let ?treasury = "ee_treasury_script (ro_elements setup) (na_asset_id storm_eye) (ro_network setup)"
  let ?outs = "ps_outputs p" and ?fee = "pc_issuance_fee (ro_config setup)"
  obtain token_count accounts where facts: "accepted_facts setup p storm_eye tick_asset verifier_asset batches token_count accounts"
    using accepted_factsI [OF assms(1-3) laws(1)] by blast
  obtain operational parts where
    op: "unat operational = unat (pc_operational_fee (ro_config setup)) * length (batch_requests batches)"
      "list_ex (pays ?treasury policy operational) ?outs"
    and n: "length ?outs = 1 + token_count + length (batch_requests batches) + length batches + 3"
      "length parts = length batches"
    and each: "\<forall>k<length batches.
       unat (pc_burn_reserve (ro_config setup)) * length (nu_requests (ba_request (batches ! k))) \<le> unat (parts ! k) \<and>
       pays (ee_account_script (ro_elements setup) (na_asset_id storm_eye) (ba_owner (batches ! k)) (ro_network setup)) policy
         (parts ! k) (?outs ! (1 + token_count + length (batch_requests batches) + k))"
    and fee: "list_ex (pays [] policy ?fee) ?outs"
    and total: "sum_list (map (input_worth policy) (ps_inputs p)) = unat_sum parts + unat operational + unat ?fee"
    using accepted_amounts [OF facts laws(1) policy(1,2) bal] by (elim exE conjE)
  have reserves: "\<forall>k<length batches. pays (ee_account_script (ro_elements setup) (na_asset_id storm_eye) (ba_owner (batches ! k))
      (ro_network setup)) policy (parts ! k) (?outs ! (1 + token_count + length (batch_requests batches) + k))"
    using each by blast
  note position = payer_position [OF facts laws(1) policy(1,2,3) bal reserves n(1)]
  have "0 < length (batch_requests batches)" using facts by (simp add: accepted_facts_def Let_def)
  then have "0 < unat operational" "0 < unat ?fee" using op(1) config by (simp_all add: word_less_nat_alt)
  obtain i j where i: "i < length ?outs" "pays ?treasury policy operational (?outs ! i)"
    and j: "j < length ?outs" "pays [] policy ?fee (?outs ! j)"
    using list_ex_nthE [OF op(2)] list_ex_nthE [OF fee] by blast
  have "i \<noteq> j" using i(2) j(2) laws(2) by (auto simp: pays_def script_laws_def Let_def)
  moreover have "i = 1 + token_count + length (batch_requests batches) + length batches + 1 \<or>
      i = 1 + token_count + length (batch_requests batches) + length batches + 2"
    by (rule position [OF i \<open>0 < unat operational\<close>]) (use laws(2) in \<open>simp_all add: script_laws_def Let_def\<close>)
  moreover have "j = 1 + token_count + length (batch_requests batches) + length batches + 1 \<or>
      j = 1 + token_count + length (batch_requests batches) + length batches + 2"
    by (rule position [OF j \<open>0 < unat ?fee\<close>]) (use laws(2) in \<open>simp_all add: script_laws_def Let_def\<close>)
  ultimately have "{i, j} = {1 + token_count + length (batch_requests batches) + length batches + 1,
      1 + token_count + length (batch_requests batches) + length batches + 2}"
    by (elim disjE) (simp_all add: insert_commute)
  then have pair: "\<exists>i j. {i, j} = {1 + token_count + length (batch_requests batches) + length batches + 1,
      1 + token_count + length (batch_requests batches) + length batches + 2} \<and>
      pays ?treasury policy operational (?outs ! i) \<and> pays [] policy ?fee (?outs ! j)"
    using i(2) j(2) by (intro exI [of _ i] exI [of _ j] conjI)
  show ?thesis
    by (rule exI [of _ "1 + token_count + length (batch_requests batches)"], rule exI [of _ parts], rule exI [of _ operational])
      (intro conjI n op(1) each pair total)
qed

theorem accepted_round_pays_exactly_witness:
  "validate_execute_request toy_setup toy_round_env toy_execute toy_round_eye (Some toy_tick_asset) None 60 = Inr None \<and>
   (\<exists>parts :: u64 list. length parts = 1 \<and> unat_sum parts = 600)"
proof -
  have laws: "to_txout_law toy_round_elements" using toy_elements_laws(2) by (simp add: to_txout_law_def toy_round_elements_def)
  have scripts: "script_laws toy_round_elements [7] Liquid" by (simp add: script_laws_def toy_elements_fields)
  have issued: "length (batch_requests [toy_read_batch]) = 1" by (simp add: batch_requests_def toy_read_batch_def toy_tick_batch_def)
  have bal: "balanced (replicate 32 8) toy_round"
    by (simp add: balanced_def toy_round_def toy_input_def toy_output_def input_worth_def output_worth_def claimed_worth_def
        toy_round_eye_out_def toy_token_def toy_fee_out_def is_fully_explicit_output_def toy_other_assets)
  have worth: "sum_list (map (input_worth (replicate 32 8)) (ps_inputs toy_round)) = 1000"
    by (simp add: toy_round_def toy_input_def input_worth_def toy_round_eye_out_def toy_token_def toy_fee_out_def toy_other_assets)
  have fees: "pc_operational_fee toy_round_config = 300" "pc_issuance_fee toy_round_config = 100" "na_asset_id toy_round_eye = [7]"
    "na_asset_id toy_tick_asset = [10]"
    by (simp_all add: toy_round_config_def toy_round_eye_def toy_tick_asset_def)
  have decoded: "ee_decode_pset (ro_elements toy_setup) (eu_tx toy_execute) = Some toy_round"
    and read: "read_externals (ro_users toy_setup) (eu_external_requests toy_execute) None = Inr ([toy_read_batch], None)"
    and laws': "to_txout_law (ro_elements toy_setup)" "script_laws (ro_elements toy_setup) (na_asset_id toy_round_eye) (ro_network toy_setup)"
    and policy: "replicate 32 8 = ee_policy_asset (ro_elements toy_setup) (ro_network toy_setup)" "replicate 32 8 \<noteq> na_asset_id toy_round_eye"
      "\<forall>asset. Some toy_tick_asset = Some asset \<or> None = Some asset \<longrightarrow> na_asset_id asset \<noteq> replicate 32 8"
    and config: "0 < pc_operational_fee (ro_config toy_setup)" "0 < pc_issuance_fee (ro_config toy_setup)"
    using laws scripts toy_other_assets by (simp_all add: toy_setup_fields toy_elements_fields toy_read_externals fees)
  from accepted_round_pays_exactly [OF toy_accepted decoded read laws' policy config bal]
  obtain parts :: "u64 list" and operational :: u64 where "length parts = length [toy_read_batch]"
    "unat operational = unat (pc_operational_fee (ro_config toy_setup)) * length (batch_requests [toy_read_batch])"
    "sum_list (map (input_worth (replicate 32 8)) (ps_inputs toy_round)) =
       unat_sum parts + unat operational + unat (pc_issuance_fee (ro_config toy_setup))"
    by (elim exE conjE) (rule that)
  then have "length parts = 1 \<and> unat_sum parts = 600" using worth fees issued by (simp add: toy_setup_fields)
  then show ?thesis using toy_accepted by blast
qed

end
