(* ===== verification/Round_Search.thy ===== *)
theory Round_Search
  imports Round_Build
begin

text \<open>
  How many requests a round takes (\<open>prepare_round\<close> in \<open>high_storm/user_requests.rs\<close>): a binary search for the
  largest round whose transaction is not too heavy. Every attempt scans and builds anew, and the node, the
  prices and the clock may have moved on: attempt k sees \<open>views k\<close>. The loop is a partial function, and the
  theorem is that it always returns.
\<close>

definition MAX_REQUESTS_PER_ROUND :: u32 where "MAX_REQUESTS_PER_ROUND = 100"

definition prepare_round_candidate ::
  "round_setup \<Rightarrow> round_env \<Rightarrow> round_view \<Rightarrow> u64 \<Rightarrow> usize \<Rightarrow> u32 \<Rightarrow> nat \<Rightarrow> request_db \<Rightarrow>
   request_db \<times> (user_request_error + prepared_round option)" where
  "prepare_round_candidate setup renv view block_height lane request_limit max_weight db =
     (case bind_res (map_err RequestDatabase (list_pending_after PENDING_SCAN_PAGE None db)) (\<lambda>pending.
           if pending = [] then Inr None
           else
             bind_res (round_asset (rv_assets view) STORM_EYE_KIND) (\<lambda>storm_eye.
             bind_res (find_contract_utxo (rv_rpc view) (na_contract_script storm_eye) (Some (na_asset_id storm_eye))
                         (UserRequests lane)) (\<lambda>utxo. Inr (Some (pending, storm_eye, utxo))))) of
        Inl e \<Rightarrow> (db, Inl e)
      | Inr None \<Rightarrow> (db, Inr None)
      | Inr (Some (pending, storm_eye, utxo)) \<Rightarrow>
          (case scan_pending setup view storm_eye block_height request_limit pending db of
             (st, Inl e) \<Rightarrow> (sc_db st, Inl e)
           | (st, Inr _) \<Rightarrow>
               (sc_db st,
                if sc_decoded st = [] then Inr None
                else bind_res (build_round setup renv view storm_eye utxo max_weight st) (\<lambda>r. Inr (Some r)))))"

record search_state =
  ss_lower :: u32
  ss_upper :: u32
  ss_limit :: u32
  ss_best :: "prepared_round option"
  ss_attempt :: nat
  ss_db :: request_db

text \<open>The limit of the next attempt; the difference wraps when the interval has become empty.\<close>

definition next_attempt :: "u32 \<Rightarrow> u32 \<Rightarrow> search_state \<Rightarrow> search_state" where
  "next_attempt lower upper s =
     s\<lparr>ss_lower := lower, ss_upper := upper, ss_limit := lower + (upper - lower) div 2,
       ss_attempt := Suc (ss_attempt s)\<rparr>"

datatype search_step = Stop "user_request_error + prepared_round option" | Continue

text \<open>One pass of the loop.\<close>

definition search_step ::
  "round_setup \<Rightarrow> round_env \<Rightarrow> (nat \<Rightarrow> round_view) \<Rightarrow> u64 \<Rightarrow> usize \<Rightarrow> nat \<Rightarrow> search_state \<Rightarrow> search_state \<times> search_step" where
  "search_step setup renv views block_height lane max_weight s =
     (case prepare_round_candidate setup renv (views (ss_attempt s)) block_height lane (ss_limit s) max_weight (ss_db s) of
        (db, Inl e) \<Rightarrow> (s\<lparr>ss_db := db\<rparr>, Stop (Inl e))
      | (db, Inr None) \<Rightarrow> (s\<lparr>ss_db := db\<rparr>, Stop (Inr (ss_best s)))
      | (db, Inr (Some candidate)) \<Rightarrow>
          (let s = s\<lparr>ss_db := db\<rparr>; request_count = of_nat (length (pd_results candidate)) :: u32 in
           case bind_res (if length (pd_results candidate) < 2 ^ 32 then Inr ()
                          else Inl (RequestInvalid ''request count overflow'')) (\<lambda>_.
                  estimated_weight (ro_elements setup) candidate) of
             Inl e \<Rightarrow> (s, Stop (Inl e))
           | Inr weight \<Rightarrow>
               if weight \<le> max_weight then
                 (let s = s\<lparr>ss_best := Some candidate\<rparr> in
                  if request_count < ss_limit s \<or> ss_limit s = MAX_REQUESTS_PER_ROUND
                  then (s, Stop (Inr (Some candidate)))
                  else (next_attempt (request_count + 1) (ss_upper s) s, Continue))
               else if request_count = 1 then
                 (let reason = ''request transaction weight '' @ decimal weight @ '' exceeds round limit '' @
                        decimal max_weight
                  in (s\<lparr>ss_db := fst (mark_failed (fst (pd_results candidate ! 0)) (reason_bytes reason) (ss_db s))\<rparr>,
                      Stop (Inl (RequestInvalid reason))))
               else (next_attempt (ss_lower s) (request_count - 1) s, Continue)))"

partial_function (option) search_rounds ::
  "(search_state \<Rightarrow> search_state \<times> search_step) \<Rightarrow> search_state \<Rightarrow>
   (request_db \<times> (user_request_error + prepared_round option)) option" where
  "search_rounds next_step s =
     (if ss_lower s \<le> ss_upper s then
        (case next_step s of
           (s', Stop answer) \<Rightarrow> Some (ss_db s', answer)
         | (s', Continue) \<Rightarrow> search_rounds next_step s')
      else Some (ss_db s, Inr (ss_best s)))"

definition prepare_round ::
  "round_setup \<Rightarrow> round_env \<Rightarrow> (nat \<Rightarrow> round_view) \<Rightarrow> u64 \<Rightarrow> usize \<Rightarrow> nat \<Rightarrow> request_db \<Rightarrow>
   (request_db \<times> (user_request_error + prepared_round option)) option" where
  "prepare_round setup renv views block_height lane max_weight db =
     search_rounds (search_step setup renv views block_height lane max_weight)
       \<lparr>ss_lower = 1, ss_upper = MAX_REQUESTS_PER_ROUND, ss_limit = MAX_REQUESTS_PER_ROUND, ss_best = None,
        ss_attempt = 0, ss_db = db\<rparr>"

subsection \<open>What a candidate is\<close>

lemma issue_requests_length: "issue_requests issue vout rs = Inr xs \<Longrightarrow> length xs = length rs"
  by (induction issue vout rs arbitrary: xs rule: issue_requests.induct) (auto simp: bind_res_eq_Inr)

lemma issue_batches_hashes:
  "issue_batches setup storm_eye timestamp tick verifier reserve vout bs = Inr issued \<Longrightarrow>
   map fst issued = map sb_hash bs \<and> map (length \<circ> snd) issued = map (length \<circ> nu_requests \<circ> sb_request) bs"
proof (induction bs arbitrary: issued reserve vout)
  case Nil
  then show ?case by simp
next
  case (Cons b bs)
  then obtain owner index xs rest where
    xs: "issue_requests (issue_request setup storm_eye timestamp tick verifier owner index) vout (nu_requests (sb_request b)) = Inr xs"
    and rest: "issue_batches setup storm_eye timestamp tick verifier (Suc reserve) (vout + length xs) bs = Inr rest"
    and "issued = (sb_hash b, xs) # rest"
    by (auto simp: bind_res_eq_Inr split: if_splits)
  then show ?case using Cons.IH [OF rest] issue_requests_length [OF xs] by simp
qed

text \<open>The part of a built round that does not depend on the chain.\<close>

lemma build_round_Inr:
  assumes "build_round setup renv view storm_eye utxo max_weight st = Inr r"
  shows "map fst (pd_results r) = map sb_hash (sc_decoded st) \<and> pd_instructed r = sc_instructed st \<and>
    eu_external_requests (pd_request r) = map (\<lambda>b. \<lparr>er_request_hash = sb_hash b,
      er_network_user_requests = ur_request (sb_row b),
      er_additional_payload = batch_payload (sb_feed b) (sc_instructed st)\<rparr>) (sc_decoded st)"
proof -
  obtain tick verifier reserve vout issued where
    i: "issue_batches setup storm_eye (rv_timestamp view) tick verifier reserve vout (sc_decoded st) = Inr issued"
    and res: "pd_results r = map (\<lambda>(hash, xs). (hash, map (snd \<circ> snd) xs)) issued"
    using assms unfolding build_round_def Let_def bind_res_eq_Inr by (auto split: prod.splits)
  moreover have r: "pd_instructed r = sc_instructed st"
    "eu_external_requests (pd_request r) = map (\<lambda>b. \<lparr>er_request_hash = sb_hash b,
      er_network_user_requests = ur_request (sb_row b),
      er_additional_payload = batch_payload (sb_feed b) (sc_instructed st)\<rparr>) (sc_decoded st)"
    using assms unfolding build_round_def Let_def bind_res_eq_Inr by (auto split: prod.splits)
  moreover have "map fst (pd_results r) = map fst issued" by (simp add: res split_def)
  ultimately show ?thesis using issue_batches_hashes [OF i] by simp
qed

lemma candidate_Some:
  assumes "prepare_round_candidate setup renv view height lane limit max_weight db = (db', Inr (Some r))"
    and "well_priced view" "0 < unat limit" "hashed (ro_users setup) (rd_requests db)"
  shows "\<exists>st. scan_ok setup view st \<and> decoded_hashed (ro_users setup) st \<and> sc_decoded st \<noteq> [] \<and> length (sc_decoded st) \<le> unat limit \<and>
    map fst (pd_results r) = map sb_hash (sc_decoded st) \<and> pd_instructed r = sc_instructed st \<and>
    eu_external_requests (pd_request r) = map (\<lambda>b. \<lparr>er_request_hash = sb_hash b,
      er_network_user_requests = ur_request (sb_row b),
      er_additional_payload = batch_payload (sb_feed b) (sc_instructed st)\<rparr>) (sc_decoded st)"
proof -
  from assms(1) obtain pending storm_eye utxo st where
    scan: "scan_pending setup view storm_eye height limit pending db = (st, Inr ())"
    and d: "sc_decoded st \<noteq> []" and b: "build_round setup renv view storm_eye utxo max_weight st = Inr r"
    and pending: "list_pending_after PENDING_SCAN_PAGE None db = Inr pending"
    by (auto simp: prepare_round_candidate_def bind_res_eq_Inr map_err_eq_Inr
        split: sum.splits option.splits prod.splits if_splits)
  from scan_pending_ok [OF assms(2,3) scan assms(4) list_pending_hashed [OF pending assms(4)]] build_round_Inr [OF b] d show ?thesis by blast
qed

text \<open>Whatever the prices say, a candidate has between one request and the limit.\<close>

lemma candidate_count:
  assumes "prepare_round_candidate setup renv view height lane limit max_weight db = (db', Inr (Some r))" "0 < unat limit"
  shows "0 < length (pd_results r) \<and> length (pd_results r) \<le> unat limit"
proof -
  from assms(1) obtain pending storm_eye utxo st where
    scan: "scan_pending setup view storm_eye height limit pending db = (st, Inr ())"
    and d: "sc_decoded st \<noteq> []" and b: "build_round setup renv view storm_eye utxo max_weight st = Inr r"
    by (auto simp: prepare_round_candidate_def bind_res_eq_Inr split: sum.splits option.splits prod.splits if_splits)
  have "length (sc_decoded st) \<le> unat limit"
    by (rule scan_pages_count [OF _ scan [unfolded scan_pending_def]]) (simp add: assms(2))
  then show ?thesis using d conjunct1 [OF build_round_Inr [OF b]] by (metis length_map length_greater_0_conv)
qed

subsection \<open>The search ends\<close>

definition interval :: "search_state \<Rightarrow> nat" where
  "interval s = Suc (unat (ss_upper s)) - unat (ss_lower s)"

text \<open>The limit lies in the interval, which lies within the rounds allowed, as long as the interval is not empty.\<close>

definition search_ok :: "search_state \<Rightarrow> bool" where
  "search_ok s \<longleftrightarrow> 1 \<le> ss_lower s \<and> ss_upper s \<le> MAX_REQUESTS_PER_ROUND \<and>
     (ss_lower s \<le> ss_upper s \<longrightarrow> ss_lower s \<le> ss_limit s \<and> ss_limit s \<le> ss_upper s)"

lemma next_limit:
  fixes lower upper :: u32
  assumes "lower \<le> upper" "upper \<le> 100"
  shows "lower \<le> lower + (upper - lower) div 2 \<and> lower + (upper - lower) div 2 \<le> upper"
proof -
  have u: "unat upper \<le> 100" "unat lower \<le> unat upper" using assms by (simp_all add: word_le_nat_alt)
  have d: "unat ((upper - lower) div 2) = (unat upper - unat lower) div 2"
    using assms(1) by (simp add: unat_div unat_sub word_le_nat_alt)
  have "unat (lower + (upper - lower) div 2) = unat lower + (unat upper - unat lower) div 2"
    using u by (subst unat_add_lem [THEN iffD1]) (auto simp: d)
  then show ?thesis using u by (simp add: word_le_nat_alt)
qed

lemma next_attempt_ok:
  assumes "1 \<le> lower" "upper \<le> MAX_REQUESTS_PER_ROUND"
  shows "search_ok (next_attempt lower upper s)"
  using assms next_limit [of lower upper] by (simp add: search_ok_def next_attempt_def MAX_REQUESTS_PER_ROUND_def)

lemma search_step_Continue:
  assumes "search_step setup renv views height lane max_weight s = (s', Continue)" "search_ok s" "ss_lower s \<le> ss_upper s"
  shows "search_ok s' \<and> interval s' < interval s"
proof -
  from assms(1) obtain db r weight where
    c: "prepare_round_candidate setup renv (views (ss_attempt s)) height lane (ss_limit s) max_weight (ss_db s) = (db, Inr (Some r))"
    and steps: "s' = next_attempt (of_nat (length (pd_results r)) + 1) (ss_upper s) (s\<lparr>ss_db := db, ss_best := Some r\<rparr>) \<and>
        \<not> of_nat (length (pd_results r)) < ss_limit s \<and> ss_limit s \<noteq> MAX_REQUESTS_PER_ROUND \<or>
      s' = next_attempt (ss_lower s) (of_nat (length (pd_results r)) - 1) (s\<lparr>ss_db := db\<rparr>) \<and>
        (of_nat (length (pd_results r)) :: u32) \<noteq> 1"
    by (auto simp: search_step_def Let_def split: prod.splits sum.splits option.splits if_splits)
  have ok: "1 \<le> unat (ss_lower s)" "unat (ss_lower s) \<le> unat (ss_limit s)" "unat (ss_limit s) \<le> unat (ss_upper s)"
    "unat (ss_upper s) \<le> 100"
    using assms(2,3) by (auto simp: search_ok_def word_le_nat_alt MAX_REQUESTS_PER_ROUND_def)
  define n where "n = length (pd_results r)"
  have n: "0 < n" "n \<le> unat (ss_limit s)" using candidate_count [OF c] ok by (auto simp: n_def)
  have w: "unat (of_nat n :: u32) = n" using n ok by (simp add: unat_of_nat)
  from steps show ?thesis
  proof (elim disjE conjE)
    assume s': "s' = next_attempt (of_nat (length (pd_results r)) + 1) (ss_upper s) (s\<lparr>ss_db := db, ss_best := Some r\<rparr>)"
      and "\<not> of_nat (length (pd_results r)) < ss_limit s" "ss_limit s \<noteq> MAX_REQUESTS_PER_ROUND"
    then have "unat (ss_limit s) = n" using n w by (simp add: word_less_nat_alt n_def)
    have p: "unat (of_nat n + 1 :: u32) = n + 1" using n ok w by (subst unat_add_lem [THEN iffD1]) auto
    have "search_ok s'"
      unfolding s' using assms(2) p by (intro next_attempt_ok) (auto simp: search_ok_def word_le_nat_alt n_def)
    moreover have "interval s' < interval s"
      using ok p \<open>unat (ss_limit s) = n\<close> by (simp add: interval_def s' next_attempt_def n_def)
    ultimately show ?thesis ..
  next
    assume s': "s' = next_attempt (ss_lower s) (of_nat (length (pd_results r)) - 1) (s\<lparr>ss_db := db\<rparr>)"
    have m: "unat (of_nat n - 1 :: u32) = n - 1" using n w by (subst unat_sub) (auto simp: word_le_nat_alt)
    have "search_ok s'"
      unfolding s' using assms(2) m n ok by (intro next_attempt_ok) (auto simp: search_ok_def word_le_nat_alt n_def MAX_REQUESTS_PER_ROUND_def)
    moreover have "interval s' < interval s"
      using ok m n by (simp add: interval_def s' next_attempt_def n_def)
    ultimately show ?thesis ..
  qed
qed

lemma search_rounds_returns:
  assumes "\<And>s s'. next_step s = (s', Continue) \<Longrightarrow> search_ok s \<Longrightarrow> ss_lower s \<le> ss_upper s \<Longrightarrow>
      search_ok s' \<and> interval s' < interval s"
  shows "search_ok s \<Longrightarrow> \<exists>answer. search_rounds next_step s = Some answer"
proof (induction "interval s" arbitrary: s rule: less_induct)
  case less
  show ?case
  proof (cases "ss_lower s \<le> ss_upper s")
    case False
    then show ?thesis by (simp add: search_rounds.simps)
  next
    case True
    obtain s' a where step: "next_step s = (s', a)" by (cases "next_step s")
    show ?thesis
    proof (cases a)
      case (Stop answer)
      then show ?thesis using True step by (simp add: search_rounds.simps)
    next
      case Continue
      then have "search_ok s' \<and> interval s' < interval s" using assms step less.prems True by blast
      then obtain answer where "search_rounds next_step s' = Some answer" using less.hyps by blast
      then show ?thesis using True step Continue by (subst search_rounds.simps) simp
    qed
  qed
qed

text \<open>
  C32: The search for a round always returns: whatever the node, the prices and the clock say from one attempt
  to the next, the interval of limits shrinks with every attempt, because an attempt takes at least one request
  and never more than its limit.
\<close>

theorem prepare_round_returns:
  "\<exists>db' answer. prepare_round setup renv views block_height lane max_weight db = Some (db', answer)"
proof -
  let ?s = "\<lparr>ss_lower = 1, ss_upper = MAX_REQUESTS_PER_ROUND, ss_limit = MAX_REQUESTS_PER_ROUND, ss_best = None,
      ss_attempt = 0, ss_db = db\<rparr>"
  have "search_ok ?s" by (simp add: search_ok_def MAX_REQUESTS_PER_ROUND_def)
  then show ?thesis
    using search_rounds_returns [of "search_step setup renv views block_height lane max_weight" ?s] search_step_Continue
    unfolding prepare_round_def by (metis prod.collapse)
qed

end
