(* ===== verification/Round_Run.thy ===== *)
theory Round_Run
  imports Round_Search Round_Toy
begin

text \<open>
  One run of the coordinator on a concrete node, for the witness of the theorem on prepared rounds: two Storm
  Eye outputs, one pending request, its fee output and the Tick's token.
\<close>

definition toy_answer :: "bytes \<Rightarrow> bytes \<Rightarrow> txout_answer" where
  "toy_answer asset script = \<lparr>ga_confirmations = 3, ga_asset = Some asset, ga_value = Some ''1'', ga_script = script\<rparr>"

definition toy_rpc :: elements_rpc where
  "toy_rpc =
     \<lparr>rc_network = Inr Liquid, rc_block_count = Inr 7, rc_block_hash = (\<lambda>_. Inr []), rc_block = (\<lambda>_. Inl 1),
      rc_transaction = (\<lambda>_. Inr toy_token_tx), rc_transaction_in = (\<lambda>_ _. Inr toy_token_tx),
      rc_confirmations = (\<lambda>_. Inr (3, None)),
      rc_txout = (\<lambda>outpoint _. Inr (Some (if fst outpoint = [1] then toy_answer [7] [3]
                                         else toy_answer (replicate 32 8) toy_account))),
      rc_mempool = Inr [], rc_spender = (\<lambda>_. Inr None),
      rc_scan = (\<lambda>script. Inr (if script = [3]
        then [\<lparr>su_outpoint = ([1], 0), su_asset = Some [7], su_height = Some 1\<rparr>,
              \<lparr>su_outpoint = ([1], 1), su_asset = Some [7], su_height = Some 1\<rparr>]
        else [\<lparr>su_outpoint = ([2], 0), su_asset = None, su_height = Some 1\<rparr>])),
      rc_send = (\<lambda>_. Inr [])\<rparr>"

definition toy_view :: round_view where
  "toy_view = \<lparr>rv_rpc = toy_rpc, rv_timestamp = 77, rv_prices = (\<lambda>_. None), rv_monitored = [],
     rv_assets = \<lparr>ad_assets = [(STORM_EYE_KIND, \<lparr>as_asset = toy_round_eye, as_issuance_tx = None, as_active = True\<rparr>),
         (TICK_ASSET_KIND, \<lparr>as_asset = toy_tick_asset, as_issuance_tx = None, as_active = True\<rparr>)],
       ad_announcements = [], ad_renewal = None\<rparr>\<rparr>"

definition toy_row :: user_request_row where "toy_row = request_row_new [1] 5 RequestPending None"

definition toy_round_db :: request_db where
  "toy_round_db = \<lparr>rd_requests = [([5], toy_row)], rd_fee_utxos = [((replicate 32 9, 1), [5])]\<rparr>"

definition toy_utxo :: "outpoint \<Rightarrow> bytes \<Rightarrow> bytes \<Rightarrow> utxo" where
  "toy_utxo outpoint asset script =
     \<lparr>ut_outpoint = outpoint, ut_txout = \<lparr>to_asset = ExplicitField asset, to_value = ExplicitField 100000000,
        to_nonce = NullField, to_script = script, to_witness = []\<rparr>, ut_secrets = None\<rparr>"

lemma toy_coin: "parse_coin_value ''1'' = Some 100000000"
  by (simp add: parse_coin_value_def parse_mantissa_def parse_u64_def parse_nat_def digits_value_def digit_value_def
      split_once_def checked_i32_def checked_pow_10_def checked_mul_def)

lemma toy_explicit: "explicit_outpoint outpoint (toy_answer asset script) = Inr (toy_utxo outpoint asset script)"
  by (simp add: explicit_outpoint_def toy_answer_def toy_coin toy_utxo_def)

lemma toy_eye_found: "find_contract_utxo toy_rpc [3] (Some [7]) (UserRequests 0) = Inr (toy_utxo ([1], 0) [7] [3])"
proof -
  have "get_optional_explicit_outpoint toy_rpc ([1], i) b = Inr (Some (toy_utxo ([1], i) [7] [3]))" for i b
    by (simp add: get_optional_explicit_outpoint_def toy_rpc_def toy_explicit rpc_call_def)
  moreover have "utxo_asset (toy_utxo outpoint asset script) = asset" for outpoint asset script
    by (simp add: utxo_asset_def toy_utxo_def)
  moreover have "rc_scan toy_rpc [3] = Inr [\<lparr>su_outpoint = ([1], 0), su_asset = Some [7], su_height = Some 1\<rparr>,
              \<lparr>su_outpoint = ([1], 1), su_asset = Some [7], su_height = Some 1\<rparr>]" by (simp add: toy_rpc_def)
  ultimately show ?thesis
    by (simp add: find_contract_utxo_def scan_contract_utxos_def rpc_call_def matches_scanned_asset_def
        matches_expected_asset_def select_contract_utxo_def storm_eye_pool_index_def Let_def)
      (simp add: toy_utxo_def)
qed

lemma toy_fees_resolved:
  "resolve_fee_utxos toy_setup toy_view toy_account [(replicate 32 9, 1)] =
     Inr (Inr [toy_utxo (replicate 32 9, 1) (replicate 32 8) toy_account])"
proof -
  have "([1] :: bytes) \<noteq> replicate 32 9" by (auto dest: arg_cong [where f = length])
  then have "get_confirmed_fee_outpoint toy_rpc (replicate 32 9, 1) =
      Inr (Some (toy_utxo (replicate 32 9, 1) (replicate 32 8) toy_account))"
    by (auto simp: get_confirmed_fee_outpoint_def toy_rpc_def toy_explicit rpc_call_def)
      (simp add: toy_answer_def MIN_FEE_UTXO_CONFIRMATIONS_def)
  moreover have "utxo_asset (toy_utxo o' a s) = a" "to_script (ut_txout (toy_utxo o' a s)) = s" for o' a s
    by (simp_all add: utxo_asset_def toy_utxo_def)
  moreover have "rv_rpc toy_view = toy_rpc" "rv_monitored toy_view = []" by (simp_all add: toy_view_def)
  ultimately show ?thesis
    by (simp add: toy_setup_fields toy_elements_fields is_reserved_for_burning_def bt_values_def Let_def)
qed

definition toy_scanned :: scanned_batch where
  "toy_scanned = \<lparr>sb_hash = [5], sb_row = toy_row, sb_request = toy_tick_batch,
     sb_fee_utxos = [toy_utxo (replicate 32 9, 1) (replicate 32 8) toy_account], sb_feed = None\<rparr>"

definition toy_scan :: scan_state where
  "toy_scan = \<lparr>sc_db = toy_round_db, sc_decoded = [toy_scanned], sc_issued = 1, sc_instructed = None\<rparr>"

lemma toy_pending: "list_pending_after n None toy_round_db = Inr (take (unat n) [([5], toy_row)])"
  "list_pending_after n (Some (ur_block_height toy_row, [5])) toy_round_db = Inr []"
  by (simp_all add: list_pending_after_def pending_rows_def toy_round_db_def toy_row_def request_row_new_def
      encode_u64_def Let_def)

lemma toy_scan_pending:
  "scan_pending toy_setup toy_view toy_round_eye 6 100 [([5], toy_row)] toy_round_db = (toy_scan, Inr ())"
proof -
  have key: "decode_array toy_round_users ''key'' = Inr (replicate 32 9)"
    by (simp add: decode_array_def toy_users_fields)
  have eye: "na_asset_id toy_round_eye = [7]" by (simp add: toy_round_eye_def)
  have "scan_request toy_setup toy_view toy_round_eye 6 100 ([5], toy_row)
      \<lparr>sc_db = toy_round_db, sc_decoded = [], sc_issued = 0, sc_instructed = None\<rparr> = (toy_scan, Inr False)"
    using toy_fees_resolved
    by (simp add: scan_request_def toy_setup_fields toy_encoded round_rate_of_def key eye toy_elements_fields toy_account_def
        include_batch_def Let_def toy_scan_def toy_scanned_def toy_tick_batch_def MAX_ISSUED_DESCRIPTORS_def
        del: resolve_fee_utxos.simps)
  then show ?thesis
    using toy_pending(2) by (simp add: scan_pending_def scan_pages.simps [of _ _ _ _ _ "[([5], toy_row)]"] MAX_PENDING_SCAN_def)
      (simp add: scan_pages.simps toy_scan_def)
qed

subsection \<open>The transaction\<close>

definition toy_token_utxo :: utxo where
  "toy_token_utxo = \<lparr>ut_outpoint = ([2], 0), ut_txout = toy_token, ut_secrets = Some toy_token_secrets\<rparr>"

definition toy_round_token :: round_token where
  "toy_round_token = \<lparr>tk_asset = toy_tick_asset, tk_utxo = toy_token_utxo, tk_secrets = toy_token_secrets, tk_amount = 77\<rparr>"

lemma toy_view_fields:
  "rv_rpc toy_view = toy_rpc" "rv_timestamp toy_view = 77"
  "round_asset (rv_assets toy_view) STORM_EYE_KIND = Inr toy_round_eye"
  "round_asset (rv_assets toy_view) TICK_ASSET_KIND = Inr toy_tick_asset"
  by (simp_all add: toy_view_def round_asset_def get_asset_def bt_get_def STORM_EYE_KIND_def TICK_ASSET_KIND_def)

lemma toy_find_token: "find_token_utxo toy_round_env toy_round_elements toy_rpc toy_tick_asset = Inr toy_token_utxo"
proof -
  have t: "token_txout toy_round_env toy_round_elements toy_tick_asset = Inr toy_token"
    by (simp add: token_txout_def toy_tick_asset_def toy_round_env_def toy_round_elements_def toy_token_tx_def)
  have rpc: "rc_scan toy_rpc [4] = Inr [\<lparr>su_outpoint = ([2], 0), su_asset = None, su_height = Some 1\<rparr>]"
    "get_raw_transaction toy_rpc [2] (Some 1) = Inr toy_token_tx" "find_mempool_spender toy_rpc o' = Inr None" for o'
    by (simp_all add: toy_rpc_def get_raw_transaction_def find_mempool_spender_def)
  have c: "token_candidate toy_round_elements ([2], 0) toy_token toy_token_secrets [4] = Some toy_token_utxo"
    by (simp add: token_candidate_def toy_elements_fields toy_token_secrets_def toy_token_def is_confidential_def
        toy_token_utxo_def)
  have f: "follow_token_chain toy_round_elements toy_rpc toy_token_secrets [4] 100 toy_token_utxo = Inr toy_token_utxo"
    using rpc(3) by (simp add: eval_nat_numeral(2) numeral_eq_Suc)
  have template: "is_confidential (to_asset toy_token)" "is_confidential (to_value toy_token)" "to_script toy_token = [4]"
    "os_asset toy_token_secrets = [9]" "na_reissuance_token_id toy_tick_asset = Some [9]" "na_contract_script toy_tick_asset = [4]"
    "tx_output toy_token_tx = [toy_token]"
    by (simp_all add: toy_token_def toy_token_secrets_def toy_tick_asset_def is_confidential_def toy_token_tx_def)
  show ?thesis
    by (simp add: find_token_utxo_def t toy_elements_fields rpc(1,2) rpc_call_def template c f follow_mempool_token_chain_def
        MAX_MEMPOOL_TOKEN_CHAIN_LENGTH_def)
qed

lemma map_res_defined: "\<forall>x\<in>set xs. \<exists>y. f x = Inr y \<Longrightarrow> \<exists>ys. map_res f xs = Inr ys"
  by (induction xs) auto

lemma toy_reblind:
  assumes "length (ps_inputs p) = 3" "ps_outputs p = map toy_output outs" "length outs = 7"
  shows "\<exists>p'. reblind_tokens toy_round_env toy_round_elements p [toy_round_token] spent = Inr p' \<and>
    length (ps_inputs p') = 3 \<and> length (ps_outputs p') = 7"
proof -
  have "\<exists>s. explicit_txout_secrets (toy_to_txout (ps_outputs p ! i)) = Inr s" if "i < 7" for i
    using that assms(2,3) by (simp add: explicit_txout_secrets_def toy_to_txout_def toy_output_def toy_field_def split: prod.splits)
  then have "\<exists>s. map_res (\<lambda>index. explicit_txout_secrets (toy_to_txout (ps_outputs p ! index)))
      (filter (\<lambda>index. \<not> (1 \<le> index \<and> index \<le> length [toy_round_token])) [0..<length (ps_outputs p)]) = Inr s"
    using assms(2,3) by (intro map_res_defined) auto
  then obtain s where s: "map_res (\<lambda>index. explicit_txout_secrets (toy_to_txout (ps_outputs p ! index)))
      (filter (\<lambda>index. \<not> (1 \<le> index \<and> index \<le> length [toy_round_token])) [0..<length (ps_outputs p)]) = Inr s" by blast
  have o: "\<exists>out. blind_token_output toy_round_env True toy_round_token spent s = Inr (out, s)"
    by (simp add: blind_token_output_def toy_round_env_def Let_def)
  have i: "\<exists>input'. blind_token_input toy_round_env toy_round_token input = Inr input'" for input
    by (simp add: blind_token_input_def toy_round_env_def Let_def toy_round_token_def toy_token_utxo_def toy_token_def)
  obtain out input' where "blind_token_output toy_round_env True toy_round_token spent s = Inr (out, s)"
    "blind_token_input toy_round_env toy_round_token (ps_inputs p ! 1) = Inr input'" using o i by blast
  then show ?thesis using assms s by (simp add: reblind_tokens_def toy_elements_fields Let_def)
qed

lemma toy_weight:
  assumes "length (ps_inputs p) = 3" "length (ps_outputs p) = 7"
  shows "finalized_dummy_weight toy_round_elements asset [i0, \<lparr>ri_outpoint = o1, ri_txout = t1, ri_issuance = s1,
      ri_program = TreasuryProgram\<rparr>, fee_input owner u] p Liquid = Inr 10"
proof -
  have "finalize_program toy_round_elements asset p' TreasuryProgram i Liquid = Inr []"
    "finalize_program toy_round_elements asset p' (AccountProgram owner) i Liquid = Inr []" for p' i
    by (simp_all add: finalize_program_def toy_round_elements_def toy_elements_def)
  moreover have "ee_extract_tx toy_round_elements p' = Inr (toy_extract p')" for p'
    by (simp add: toy_round_elements_def toy_elements_def)
  moreover have "ee_weight toy_round_elements t = length (tx_input t) + length (tx_output t)" for t
    by (simp add: toy_round_elements_def toy_elements_def)
  moreover have "ps_inputs p \<noteq> []" using assms by auto
  ultimately show ?thesis using assms
    by (simp add: finalized_dummy_weight_def fee_input_def upt_rec toy_extract_def set_final_witness_def) 
qed

lemma toy_branch:
  assumes "length (ps_inputs p) = 3" "length (ps_outputs p) = 7" "rt_descriptors t = [toy_descriptor]" "rt_pset t = p"
    "rt_storm_eye t = toy_round_eye" "rt_network t = Liquid"
  shows "for_branch toy_round_elements t branch = Inr (p, [3, 7])"
  using assms
  by (simp add: for_branch_def is_verifier_def toy_descriptor_def issuance_signing_hash_def signing_hash_def storm_eye_program_def
      storm_eye_contract_data_def toy_round_eye_def toy_round_elements_def toy_elements_def)

definition toy_facts :: "nat \<Rightarrow> prepared_round \<Rightarrow> bool" where
  "toy_facts n r \<longleftrightarrow>
     rt_descriptors (pd_transaction r) = [toy_descriptor] \<and> rt_storm_eye (pd_transaction r) = toy_round_eye \<and>
     rt_network (pd_transaction r) = Liquid \<and> length (ps_inputs (rt_pset (pd_transaction r))) = 3 \<and>
     length (ps_outputs (rt_pset (pd_transaction r))) = 7 \<and> pd_max_weight r = n \<and> pd_instructed r = None \<and>
     map fst (pd_results r) = [[5]] \<and>
     (\<exists>a w. map ri_program (pd_inputs r) = [StormEyeProgram a w, TreasuryProgram, AccountProgram (replicate 32 9)])"

lemma toy_built:
  "\<exists>r. build_round toy_setup toy_round_env toy_view toy_round_eye (toy_utxo ([1], 0) [7] [3]) n toy_scan = Inr r \<and>
     length (pd_results r) = 1 \<and> estimated_weight toy_round_elements r = Inr 10 \<and> toy_facts n r"
proof -
  let ?env = toy_round_elements and ?eye = "toy_utxo ([1], 0) [7] [3]"
  have one: "sc_decoded toy_scan = [toy_scanned]" "sc_issued toy_scan = 1" "sc_instructed toy_scan = None" "verifier_count [toy_scanned] = 0"
    by (simp_all add: toy_scan_def verifier_count_def toy_scanned_def toy_tick_batch_def issues_verifier_def PRICE_REQUEST_KIND_def)
  have tick: "tick_token toy_setup toy_round_env toy_view (1 - 0) = Inr (Some toy_round_token)"
    by (simp add: tick_token_def toy_view_fields checked_mul_def find_round_token_def toy_setup_fields toy_find_token)
      (simp add: toy_token_utxo_def toy_round_token_def)
  have verifier: "verifier_token toy_setup toy_round_env toy_view 0 = Inr None" by (simp add: verifier_token_def)
  obtain eye_input where eye: "storm_eye_input ?env toy_round_eye ?eye = Inr eye_input" "ri_outpoint eye_input = ([1], 0)"
      "ri_txout eye_input = ut_txout ?eye" "ri_issuance eye_input = None" "\<exists>a w. ri_program eye_input = StormEyeProgram a w"
    by (auto simp: storm_eye_input_def storm_eye_program_def storm_eye_contract_data_def toy_round_eye_def
        toy_round_elements_def toy_elements_def toy_utxo_def)
  let ?token_input = "\<lparr>ri_outpoint = ([2], 0), ri_txout = toy_token, ri_issuance = Some (77, [6]), ri_program = TreasuryProgram\<rparr>"
  have token: "map_res token_input [toy_round_token] = Inr [?token_input]"
    by (simp add: token_input_def toy_round_token_def toy_tick_asset_def toy_token_utxo_def)
  obtain eye_secrets where eye_secrets: "explicit_txout_secrets (ut_txout ?eye) = Inr eye_secrets"
    by (simp add: explicit_txout_secrets_def toy_utxo_def)
  let ?fee = "toy_utxo (replicate 32 9, 1) (replicate 32 8) toy_account"
  have key: "decode_array toy_round_users ''key'' = Inr (replicate 32 9)"
    by (simp add: decode_array_def toy_users_fields)
  obtain secrets where batch: "map_res (batch_inputs toy_round_users) [toy_scanned] =
      Inr [([fee_input (replicate 32 9) ?fee], 100000000, secrets)]"
    by (simp add: batch_inputs_def toy_scanned_def toy_tick_batch_def key)
      (simp add: toy_utxo_def utxo_amount_def checked_add_def explicit_txout_secrets_def)
  have issued: "\<exists>res. issue_batches toy_setup toy_round_eye 77 (Some [10]) None (1 + length [toy_round_token] + 1)
      (1 + length [toy_round_token]) [toy_scanned] = Inr [([5], [(toy_descriptor, (4 # replicate 32 0, 77, [10]), res)])]"
  proof -
    have f: "from_request ?env 2 3 (replicate 32 9) \<lparr>am_kind = ''asset-id-auth'', am_auth_data = ''a''\<rparr> None = Inr toy_descriptor"
      by (simp add: from_request_def decode_32_def toy_round_elements_def toy_descriptor_def)
    have "descriptor_program ?env [7] toy_descriptor = Inr (\<lparr>va_storm_eye_asset_id = [7], va_auth_method = 0,
        va_auth_asset_id = replicate 32 9, va_auth_script_hash = replicate 32 0, va_auth_pubkey = replicate 32 0\<rparr>, None)"
      by (simp add: descriptor_program_def voucher_program_def voucher_arguments_of_def toy_descriptor_def)
    moreover have "voucher_script ?env (\<lparr>va_storm_eye_asset_id = [7], va_auth_method = 0,
        va_auth_asset_id = replicate 32 9, va_auth_script_hash = replicate 32 0, va_auth_pubkey = replicate 32 0\<rparr>, None) Liquid = 4 # replicate 32 0"
      by (simp add: voucher_script_def toy_round_elements_def toy_elements_def)
    moreover have "na_asset_id toy_round_eye = [7]" by (simp add: toy_round_eye_def)
    moreover have "\<not> issues_verifier ''tick-utxo''" by (simp add: issues_verifier_def PRICE_REQUEST_KIND_def)
    ultimately show ?thesis
      by (simp add: toy_scanned_def toy_tick_batch_def toy_setup_fields key issue_request_def toy_users_fields Let_def f)
  qed
  have parts: "allocate_account_reserves [(1, 100000000)] toy_round_config = Inr [99999600]"
    by (simp add: allocate_account_reserves_def toy_round_config_def checked_mul_def checked_add_def checked_sub_def Let_def account_reserve_def)
  have accounts: "reserve_outputs toy_setup toy_round_eye [toy_scanned] [99999600] =
      Inr [(toy_account, 99999600, replicate 32 8)]"
    by (simp add: reserve_outputs_def toy_setup_fields toy_scanned_def toy_tick_batch_def key toy_elements_fields toy_round_eye_def
        toy_account_def)
  obtain res where issued: "issue_batches toy_setup toy_round_eye 77 (Some [10]) None (1 + length [toy_round_token] + 1)
      (1 + length [toy_round_token]) [toy_scanned] = Inr [([5], [(toy_descriptor, (4 # replicate 32 0, 77, [10]), res)])]"
    using issued by blast
  let ?inputs = "[eye_input, ?token_input, fee_input (replicate 32 9) ?fee]"
  let ?outputs = "assemble_round toy_setup toy_round_eye ?eye [toy_round_token] [(4 # replicate 32 0, 77, [10])]
      [(toy_account, 99999600, replicate 32 8)] (0x6A # toy_descriptor_data) 1"
  let ?p = "ee_build_pset ?env (map (\<lambda>i. (ri_outpoint i, ri_txout i, ri_issuance i)) ?inputs) ?outputs"
  have "length (ps_inputs ?p) = 3" "ps_outputs ?p = map toy_output ?outputs" "length ?outputs = 7"
    by (simp_all add: toy_round_elements_def toy_elements_def toy_build_def assemble_round_def Let_def)
  from toy_reblind [OF this] obtain p where
    p: "reblind_tokens toy_round_env ?env ?p [toy_round_token] (eye_secrets # token_input_secrets [toy_round_token] @ secrets) = Inr p"
      "length (ps_inputs p) = 3" "length (ps_outputs p) = 7" by blast
  have names: "option_list (Some toy_round_token) @ option_list None = [toy_round_token]" 
    "map_option (na_asset_id \<circ> tk_asset) (Some toy_round_token) = Some [10]" 
    "map_option (na_asset_id \<circ> tk_asset) (None :: round_token option) = None"
    by (simp_all add: option_list_def toy_round_token_def toy_tick_asset_def)
  have count: "length (nu_requests (sb_request toy_scanned)) = 1" by (simp add: toy_scanned_def toy_tick_batch_def)
  show ?thesis
    unfolding build_round_def Let_def one tick verifier bind_res_simps names toy_setup_fields toy_view_fields
      eye(1) token eye_secrets batch issued
    using parts accounts toy_descriptor_script p toy_branch toy_weight
    by (simp add: count estimated_weight_def toy_facts_def) (use eye(5) in \<open>simp add: fee_input_def\<close>)
qed

lemma toy_prepared:
  "\<exists>r. prepare_round toy_setup toy_round_env (\<lambda>_. toy_view) 6 0 100 toy_round_db = Some (toy_round_db, Inr (Some r)) \<and>
     toy_facts 100 r"
proof -
  obtain r where r: "build_round toy_setup toy_round_env toy_view toy_round_eye (toy_utxo ([1], 0) [7] [3]) 100 toy_scan = Inr r"
    "length (pd_results r) = 1" "estimated_weight toy_round_elements r = Inr 10" "toy_facts 100 r"
    using toy_built by blast
  have eye: "na_asset_id toy_round_eye = [7]" "na_contract_script toy_round_eye = [3]" by (simp_all add: toy_round_eye_def)
  have scan: "sc_decoded toy_scan \<noteq> []" "sc_db toy_scan = toy_round_db" by (simp_all add: toy_scan_def)
  have "prepare_round_candidate toy_setup toy_round_env toy_view 6 0 MAX_REQUESTS_PER_ROUND 100 toy_round_db =
      (toy_round_db, Inr (Some r))"
    using toy_eye_found toy_scan_pending scan r(1)
    by (simp add: prepare_round_candidate_def toy_pending PENDING_SCAN_PAGE_def toy_view_fields eye MAX_REQUESTS_PER_ROUND_def)
  then have "search_step toy_setup toy_round_env (\<lambda>_. toy_view) 6 0 100
      \<lparr>ss_lower = 1, ss_upper = MAX_REQUESTS_PER_ROUND, ss_limit = MAX_REQUESTS_PER_ROUND, ss_best = None, ss_attempt = 0,
       ss_db = toy_round_db\<rparr> =
      (\<lparr>ss_lower = 1, ss_upper = MAX_REQUESTS_PER_ROUND, ss_limit = MAX_REQUESTS_PER_ROUND, ss_best = Some r, ss_attempt = 0,
       ss_db = toy_round_db\<rparr>, Stop (Inr (Some r)))"
    using r(2,3) by (simp add: search_step_def Let_def toy_setup_fields)
  then have "prepare_round toy_setup toy_round_env (\<lambda>_. toy_view) 6 0 100 toy_round_db = Some (toy_round_db, Inr (Some r))"
    by (subst prepare_round_def, subst search_rounds.simps) (simp add: MAX_REQUESTS_PER_ROUND_def)
  then show ?thesis using r(4) by blast
qed

end
