(* ===== verification/Round_Claims.thy ===== *)
theory Round_Claims
  imports Round_Run
begin

text \<open>
  What requester and signers of a round agree on: the batches of a prepared round are read by every signer as
  they were put together, and what a signer accepts pays exactly what the batches brought.
\<close>

subsection \<open>A prepared round\<close>

lemma search_rounds_invariant:
  assumes "search_rounds next_step s = Some y" "I s"
    and stop: "\<And>s s' answer. I s \<Longrightarrow> next_step s = (s', Stop answer) \<Longrightarrow> ss_lower s \<le> ss_upper s \<Longrightarrow> J answer"
    and go: "\<And>s s'. I s \<Longrightarrow> next_step s = (s', Continue) \<Longrightarrow> ss_lower s \<le> ss_upper s \<Longrightarrow> I s'"
    and finish: "\<And>s. I s \<Longrightarrow> J (Inr (ss_best s))"
  shows "J (snd y)"
proof -
  have "ns = next_step \<longrightarrow> I s0 \<longrightarrow> J (snd y0)" if "search_rounds ns s0 = Some y0" for ns s0 y0
  proof (rule search_rounds.raw_induct [where P = "\<lambda>ns s y. ns = next_step \<longrightarrow> I s \<longrightarrow> J (snd y)", OF _ that])
    fix search ns s and y :: "request_db \<times> (user_request_error + prepared_round option)"
    assume IH: "\<And>ns s y. search ns s = Some y \<Longrightarrow> ns = next_step \<longrightarrow> I s \<longrightarrow> J (snd y)"
      and body: "(if ss_lower s \<le> ss_upper s
        then case ns s of (s', Stop answer) \<Rightarrow> Some (ss_db s', answer) | (s', Continue) \<Rightarrow> search ns s'
        else Some (ss_db s, Inr (ss_best s))) = Some y"
    obtain s' a where step: "ns s = (s', a)" by (cases "ns s")
    show "ns = next_step \<longrightarrow> I s \<longrightarrow> J (snd y)"
    proof (intro impI)
      assume here: "ns = next_step" "I s"
      show "J (snd y)"
      proof (cases "ss_lower s \<le> ss_upper s")
        case False
        then show ?thesis using body finish [OF here(2)] by auto
      next
        case True
        show ?thesis
        proof (cases a)
          case (Stop answer)
          then show ?thesis using body True step stop [of s s' answer] here by auto
        next
          case Continue
          then have "search ns s' = Some y" using body True step by simp
          then show ?thesis using IH go [of s s'] step Continue True here by blast
        qed
      qed
    qed
  qed
  then show ?thesis using assms(1,2) by blast
qed

lemma candidate_hashed:
  assumes "prepare_round_candidate setup renv view height lane limit max_weight db = (db', answer)"
    and "hashed (ro_users setup) (rd_requests db)"
  shows "hashed (ro_users setup) (rd_requests db')"
proof -
  have scan: "hashed (ro_users setup) (rd_requests (sc_db st'))"
    if "scan_pages setup view storm_eye height limit pending 0 st = (st', a)" "hashed (ro_users setup) pending"
      "sc_db st = db" "sc_decoded st = []" for storm_eye pending st st' a
  proof (rule scan_pages_keeps [where R = "hashed (ro_users setup)" and P = "\<lambda>st. hashed (ro_users setup) (rd_requests (sc_db st)) \<and>
        decoded_hashed (ro_users setup) st", OF _ _ _ _ that(2,1)])
    show "hashed (ro_users setup) (rd_requests (sc_db st)) \<and> decoded_hashed (ro_users setup) st"
      using that assms(2) by (simp add: decoded_hashed_def)
  qed (auto dest: scan_page_hashed list_pending_hashed)
  show ?thesis
    using assms
    by (auto simp: prepare_round_candidate_def scan_pending_def bind_res_eq_Inr
        split: sum.splits option.splits prod.splits if_splits dest!: scan list_pending_hashed)
qed

definition round_good :: "round_setup \<Rightarrow> (nat \<Rightarrow> round_view) \<Rightarrow> nat \<Rightarrow> prepared_round \<Rightarrow> bool" where
  "round_good setup views max_weight r \<longleftrightarrow>
     (\<exists>k st w. scan_ok setup (views k) st \<and> decoded_hashed (ro_users setup) st \<and> sc_decoded st \<noteq> [] \<and>
        length (sc_decoded st) \<le> unat MAX_REQUESTS_PER_ROUND \<and> pd_instructed r = sc_instructed st \<and>
        eu_external_requests (pd_request r) = map (\<lambda>b. \<lparr>er_request_hash = sb_hash b,
          er_network_user_requests = ur_request (sb_row b),
          er_additional_payload = batch_payload (sb_feed b) (sc_instructed st)\<rparr>) (sc_decoded st) \<and>
        estimated_weight (ro_elements setup) r = Inr w \<and> w \<le> max_weight)"

definition search_good :: "round_setup \<Rightarrow> (nat \<Rightarrow> round_view) \<Rightarrow> nat \<Rightarrow> search_state \<Rightarrow> bool" where
  "search_good setup views max_weight s \<longleftrightarrow>
     search_ok s \<and> hashed (ro_users setup) (rd_requests (ss_db s)) \<and>
     (case ss_best s of None \<Rightarrow> True | Some r \<Rightarrow> round_good setup views max_weight r)"

lemma search_step_good:
  assumes "search_good setup views max_weight s" "ss_lower s \<le> ss_upper s" "\<forall>k. well_priced (views k)"
    and step: "search_step setup renv views height lane max_weight s = (s', a)"
  shows "case a of Continue \<Rightarrow> search_good setup views max_weight s'
    | Stop answer \<Rightarrow> (case answer of Inr (Some r) \<Rightarrow> round_good setup views max_weight r | _ \<Rightarrow> True)"
proof -
  have ok: "search_ok s" "hashed (ro_users setup) (rd_requests (ss_db s))" using assms(1) by (simp_all add: search_good_def)
  have lim: "0 < unat (ss_limit s)" "unat (ss_limit s) \<le> unat MAX_REQUESTS_PER_ROUND"
    using ok(1) assms(2) by (auto simp: search_ok_def word_le_nat_alt)
  obtain db answer where c: "prepare_round_candidate setup renv (views (ss_attempt s)) height lane (ss_limit s) max_weight (ss_db s) = (db, answer)"
    by (cases "prepare_round_candidate setup renv (views (ss_attempt s)) height lane (ss_limit s) max_weight (ss_db s)")
  have db: "hashed (ro_users setup) (rd_requests db)" by (rule candidate_hashed [OF c ok(2)])
  have next_ok: "a = Continue \<Longrightarrow> search_ok s'" using search_step_Continue [OF _ ok(1) assms(2)] step by blast
  have good: "round_good setup views max_weight r" if "answer = Inr (Some r)" "estimated_weight (ro_elements setup) r = Inr w" "w \<le> max_weight" for r w
    using candidate_Some [OF c [unfolded that(1)] _ lim(1) ok(2)] assms(3) lim(2) that(2,3) unfolding round_good_def
    by (meson le_trans)
  show ?thesis
    using step c db good assms(1) next_ok
    by (auto simp: search_step_def search_good_def next_attempt_def Let_def split: sum.splits option.splits if_splits)
qed

subsection \<open>Reading it back\<close>

lemma batch_owner:
  assumes "validate_encoded_request env encoded = Inr (request, fee_utxos, feed)"
  shows "\<exists>owner. us_hex_decode env (uh_public_key (nu_header request)) = Some owner \<and> length owner = 32 \<and> us_valid_x_only env owner"
  using assms
  by (auto simp: validate_encoded_request_def validate_batch_def verify_user_signature_def bind_res_eq_Inr hex_array_def
      parse_hex_array_Inr split: if_splits)

lemma read_external_ok:
  assumes "batch_ok setup b" "sb_hash b = us_sha256 (ro_users setup) (ur_request (sb_row b))"
    and "\<And>f. sb_feed b = Some f \<Longrightarrow> \<exists>p. instructed = Some p \<and> feed_id p = f" "carried = None \<or> carried = instructed"
  shows "\<exists>ba. read_external (ro_users setup) \<lparr>er_request_hash = sb_hash b, er_network_user_requests = ur_request (sb_row b),
      er_additional_payload = batch_payload (sb_feed b) instructed\<rparr> carried =
    Inr (ba, if sb_feed b = None then carried else instructed) \<and> ba_request ba = sb_request b"
proof -
  obtain fee_utxos where v: "validate_encoded_request (ro_users setup) (ur_request (sb_row b)) = Inr (sb_request b, fee_utxos, sb_feed b)"
    using assms(1) by (auto simp: batch_ok_def)
  show ?thesis
    using batch_owner [OF v] instructed_price_payload [OF assms(3,4)]
    by (auto simp: read_external_def assms(2) v)
qed

lemma read_externals_ok:
  assumes "\<forall>b\<in>set bs. batch_ok setup b \<and> sb_hash b = us_sha256 (ro_users setup) (ur_request (sb_row b))"
    and "rate_agrees (map sb_feed bs) instructed" "carried = None \<or> carried = instructed"
  shows "\<exists>batches. read_externals (ro_users setup) (map (\<lambda>b. \<lparr>er_request_hash = sb_hash b,
        er_network_user_requests = ur_request (sb_row b),
        er_additional_payload = batch_payload (sb_feed b) instructed\<rparr>) bs) carried =
      Inr (batches, if \<forall>b\<in>set bs. sb_feed b = None then carried else instructed) \<and>
    map ba_request batches = map sb_request bs"
  using assms
proof (induction bs arbitrary: carried)
  case Nil
  then show ?case by simp
next
  case (Cons b bs)
  let ?carried = "if sb_feed b = None then carried else instructed"
  obtain ba where b: "read_external (ro_users setup) \<lparr>er_request_hash = sb_hash b, er_network_user_requests = ur_request (sb_row b),
      er_additional_payload = batch_payload (sb_feed b) instructed\<rparr> carried = Inr (ba, ?carried)" "ba_request ba = sb_request b"
    using read_external_ok [of "setup" b instructed carried] Cons.prems by (auto simp: rate_agrees_def)
  have agrees: "rate_agrees (map sb_feed bs) instructed" using Cons.prems(2) by (simp add: rate_agrees_def)
  have "?carried = None \<or> ?carried = instructed" using Cons.prems(3) by auto
  then obtain batches where bs: "read_externals (ro_users setup) (map (\<lambda>b. \<lparr>er_request_hash = sb_hash b,
        er_network_user_requests = ur_request (sb_row b),
        er_additional_payload = batch_payload (sb_feed b) instructed\<rparr>) bs) ?carried =
      Inr (batches, if \<forall>b\<in>set bs. sb_feed b = None then ?carried else instructed)"
    "map ba_request batches = map sb_request bs"
    using Cons.IH [OF _ agrees, of ?carried] Cons.prems(1) by (meson list.set_intros(2))
  then show ?case using b by auto
qed

text \<open>
  C33: Every signer reads a prepared round as it was put together: the hashes, signatures and fee outputs of its
  batches pass, and the one rate the batches carry is the rate of the round. That rate was the requester's own,
  for the feed the batches name, and outlasts a signing session; the round issues at most a hundred outputs and
  its estimated weight is within the limit. The requests must be stored under their hashes, and the prices be
  for the feeds they are asked for.
\<close>

theorem prepared_round_reads_back:
  assumes "prepare_round setup renv views block_height lane max_weight db = Some (db', Inr (Some r))"
    and "\<forall>k. well_priced (views k)" "hashed (ro_users setup) (rd_requests db)"
  shows "\<exists>batches k w. read_externals (ro_users setup) (eu_external_requests (pd_request r)) None = Inr (batches, pd_instructed r) \<and>
    batches \<noteq> [] \<and> length batches \<le> 100 \<and> length (batch_requests batches) \<le> 100 \<and>
    estimated_weight (ro_elements setup) r = Inr w \<and> w \<le> max_weight \<and>
    (\<forall>rate. pd_instructed r = Some rate \<longrightarrow>
       rv_prices (views k) (feed_id rate) = Some rate \<and> usable_for_round rate (rv_timestamp (views k)))"
proof -
  let ?s = "\<lparr>ss_lower = 1, ss_upper = MAX_REQUESTS_PER_ROUND, ss_limit = MAX_REQUESTS_PER_ROUND, ss_best = None,
      ss_attempt = 0, ss_db = db\<rparr>"
  have start: "search_good setup views max_weight ?s"
    using assms(3) by (simp add: search_good_def search_ok_def MAX_REQUESTS_PER_ROUND_def)
  have "case snd (db', Inr (Some r)) of Inr (Some r) \<Rightarrow> round_good setup views max_weight r | _ \<Rightarrow> True"
    using search_rounds_invariant [OF assms(1) [unfolded prepare_round_def], of "search_good setup views max_weight"
        "\<lambda>answer. case answer of Inr (Some r) \<Rightarrow> round_good setup views max_weight r | _ \<Rightarrow> True"]
      start search_step_good [OF _ _ assms(2)]
    by (fastforce simp: search_good_def split: option.splits)
  then obtain k st w where st: "scan_ok setup (views k) st" "decoded_hashed (ro_users setup) st" "sc_decoded st \<noteq> []"
      "length (sc_decoded st) \<le> unat MAX_REQUESTS_PER_ROUND" "pd_instructed r = sc_instructed st"
      "eu_external_requests (pd_request r) = map (\<lambda>b. \<lparr>er_request_hash = sb_hash b,
          er_network_user_requests = ur_request (sb_row b),
          er_additional_payload = batch_payload (sb_feed b) (sc_instructed st)\<rparr>) (sc_decoded st)"
      "estimated_weight (ro_elements setup) r = Inr w" "w \<le> max_weight"
    by (auto simp: round_good_def)
  obtain batches where b: "read_externals (ro_users setup) (eu_external_requests (pd_request r)) None =
      Inr (batches, if \<forall>b\<in>set (sc_decoded st). sb_feed b = None then None else sc_instructed st)"
    "map ba_request batches = map sb_request (sc_decoded st)"
    using read_externals_ok [of "sc_decoded st" "setup" "sc_instructed st" None] st
    by (auto simp: scan_ok_def decoded_hashed_def)
  have "(if \<forall>b\<in>set (sc_decoded st). sb_feed b = None then None else sc_instructed st) = sc_instructed st"
    using st(1) by (cases "sc_instructed st") (auto simp: scan_ok_def)
  moreover have "length batches = length (sc_decoded st)" using b(2) by (rule map_eq_imp_length_eq)
  moreover have "length (batch_requests batches) = sc_issued st"
  proof -
    have "map (nu_requests \<circ> ba_request) batches = map (nu_requests \<circ> sb_request) (sc_decoded st)"
      using b(2) by (metis map_map)
    then show ?thesis using st(1) by (simp add: batch_requests_def length_concat scan_ok_def comp_def)
  qed
  ultimately show ?thesis
    using b(1) st by (intro exI [of _ batches] exI [of _ k] exI [of _ w])
      (auto simp: scan_ok_def MAX_ISSUED_DESCRIPTORS_def MAX_REQUESTS_PER_ROUND_def)
qed

theorem prepared_round_reads_back_witness:
  "\<exists>r db' batches. prepare_round toy_setup toy_round_env (\<lambda>_. toy_view) 6 0 100 toy_round_db = Some (db', Inr (Some r)) \<and>
     read_externals toy_round_users (eu_external_requests (pd_request r)) None = Inr (batches, pd_instructed r) \<and> batches \<noteq> []"
proof -
  obtain r where r: "prepare_round toy_setup toy_round_env (\<lambda>_. toy_view) 6 0 100 toy_round_db = Some (toy_round_db, Inr (Some r))"
    using toy_prepared by blast
  have "\<forall>k :: nat. well_priced toy_view" by (simp add: well_priced_def toy_view_def)
  moreover have "hashed (ro_users toy_setup) (rd_requests toy_round_db)"
    by (simp add: hashed_def toy_round_db_def toy_setup_fields toy_users_fields)
  ultimately show ?thesis using prepared_round_reads_back [OF r] r unfolding toy_setup_fields by blast
qed

end
