(* ===== verification/Round_Finalize.thy ===== *)
theory Round_Finalize
  imports Round_Build
begin

text \<open>
  How a signed round reaches the chain (\<open>finalize_and_broadcast\<close> and \<open>signed_price_bloom\<close> in
  \<open>high_storm/user_requests.rs\<close>): the signatures are verified again, the inputs are finalized, the transaction
  is checked and broadcast, and its requests are marked. The JSON of the results is a parameter.
\<close>

text \<open>Everything a reader needs to check the signature over the rate; the hex forms are left out.\<close>

definition signed_price_bloom ::
  "elements_env \<Rightarrow> price_feed_data \<Rightarrow> signing_result \<Rightarrow> merkle_proof \<Rightarrow> user_request_error + signed_price" where
  "signed_price_bloom env rate signing proof =
     bind_res (ok_or (RequestInvalid ''missing price signature'')
                 (if 1 < length (sr_signatures signing) then Some (sr_signatures signing ! 1) else None)) (\<lambda>signature.
       if \<not> ee_valid_x_only env (sr_branch signing) then Inl (RequestInvalid ''invalid Storm Eye signing branch'')
       else if \<not> ee_valid_signature env signature then Inl (RequestInvalid ''invalid price signature'')
       else if \<not> ee_verify_schnorr env signature (tagged_hash (ee_sha256 env) PRICE_TAG (to_bytes rate)) (sr_branch signing)
       then Inl (RequestInvalid ''price signature failed independent BIP340 verification'')
       else Inr \<lparr>sg_price_data = to_bytes rate, sg_signature = signature, sg_branch = sr_branch signing,
                 sg_proof = mp_siblings proof\<rparr>)"

text \<open>The Storm Eye's input gets its witness; its program stays.\<close>

definition set_auth_witness :: "auth_witness \<Rightarrow> round_input list \<Rightarrow> round_program list" where
  "set_auth_witness w inputs =
     (case map ri_program inputs of
        StormEyeProgram program _ # rest \<Rightarrow> StormEyeProgram program w # rest
      | programs \<Rightarrow> programs)"

definition verify_round_amounts ::
  "elements_env \<Rightarrow> transaction \<Rightarrow> tx_out list \<Rightarrow> user_request_error + unit" where
  "verify_round_amounts env t spent_utxos =
     (let verifiable = t\<lparr>tx_output := filter (\<lambda>out. explicit_value (to_value out) \<noteq> Some 0 \<or>
            \<not> ee_unspendable env (to_script out)) (tx_output t)\<rparr>
      in require (ee_verify_amounts env verifiable spent_utxos)
           (RequestInvalid ''failed to verify issuance amounts and proofs''))"

text \<open>Everything up to the broadcast.\<close>

definition final_round_transaction ::
  "elements_env \<Rightarrow> prepared_round \<Rightarrow> signing_result \<Rightarrow> merkle_proof \<Rightarrow>
   user_request_error + transaction \<times> signed_price option" where
  "final_round_transaction env prepared signing proof =
     (let storm_eye = rt_storm_eye (pd_transaction prepared); network = rt_network (pd_transaction prepared);
          branch = sr_branch signing in
      bind_res (ok_or (RequestInvalid ''missing Storm Eye signature'')
                  (case sr_signatures signing of [] \<Rightarrow> None | s # _ \<Rightarrow> Some s)) (\<lambda>signature.
      if \<not> ee_valid_x_only env branch then Inl (RequestInvalid ''invalid Storm Eye signing branch'')
      else if \<not> ee_valid_signature env signature then Inl (RequestInvalid ''invalid Storm Eye signature'')
      else
        bind_res (for_branch env (pd_transaction prepared) branch) (\<lambda>(p, hash).
        if \<not> ee_verify_schnorr env signature hash branch
        then Inl (RequestInvalid ''Storm Eye signature failed independent BIP340 verification'')
        else
          bind_res (case pd_instructed prepared of
                      None \<Rightarrow> Inr None
                    | Some rate \<Rightarrow> bind_res (signed_price_bloom env rate signing proof) (\<lambda>s. Inr (Some s))) (\<lambda>signed_price.
          bind_res (ok_or (RequestInvalid ''Storm Eye contract data is missing'') (na_contract_data storm_eye)) (\<lambda>encoded.
          bind_res (ok_or RequestEncoding (ee_decode_contract env encoded)) (\<lambda>data.
          if \<not> verify_branch (ee_sha256 env) (sd_storm_tree_root data) branch proof
          then Inl (RequestInvalid ''signing branch is not included in the Storm Eye root'')
          else
            bind_res (pack_proof proof) (\<lambda>packed.
            let programs = set_auth_witness
                  \<lparr>aw_root = sd_storm_tree_root data, aw_rescue_height = sd_rescue_height data,
                   aw_signature = signature, aw_branch = branch, aw_proof = packed, aw_kind = Inclusion 0\<rparr>
                  (pd_inputs prepared) in
            bind_res (finalize_inputs env (na_asset_id storm_eye) network
                        (\<lambda>e. RequestInvalid (''failed to finalize covenant input: '' @ e))
                        (zip [0..<length programs] programs) p) (\<lambda>final.
            bind_res (issuance_signing_hash env final storm_eye network) (\<lambda>final_hash.
            if final_hash \<noteq> hash then Inl (RequestInvalid ''final issuance signing hash changed'')
            else
              bind_res (map_err RequestPset (ee_extract_tx env final)) (\<lambda>final_tx.
              if pd_max_weight prepared < ee_weight env final_tx
              then Inl (RequestInvalid ''final issuance transaction weight exceeds round limit'')
              else
                bind_res (verify_round_amounts env final_tx (pd_spent prepared)) (\<lambda>_.
                  Inr (final_tx, signed_price))))))))))))"

subsection \<open>Marking the requests\<close>

text \<open>
  A Verifier's result gets the signed rate. The code expects one there and would panic without it, after the
  broadcast; the panic stands as an error, and a theorem excludes it.
\<close>

definition fill_price :: "signed_price option \<Rightarrow> request_result \<Rightarrow> user_request_error + request_result" where
  "fill_price signed_price r =
     (if issues_verifier (qr_kind r) then
        bind_res (ok_or (RequestInvalid ''a round issuing Verifiers carries a signed rate'') signed_price) (\<lambda>s.
          Inr (r\<lparr>qr_payload := SignedPrice s\<rparr>))
      else Inr r)"

fun mark_results ::
  "(request_result list \<Rightarrow> bytes) \<Rightarrow> signed_price option \<Rightarrow> bytes \<Rightarrow> (bytes \<times> request_result list) list \<Rightarrow> nat \<Rightarrow>
   request_db \<Rightarrow> request_db \<times> (user_request_error + nat)" where
  "mark_results encode signed_price final_bytes [] updated db = (db, Inr updated)"
| "mark_results encode signed_price final_bytes ((hash, results) # rest) updated db =
     (case map_res (fill_price signed_price) results of
        Inl e \<Rightarrow> (db, Inl e)
      | Inr filled \<Rightarrow>
          (case mark_processing hash (encode filled) final_bytes db of
             (db', marked) \<Rightarrow>
               mark_results encode signed_price final_bytes rest (updated + (if marked then 1 else 0)) db'))"

definition finalize_and_broadcast ::
  "elements_env \<Rightarrow> elements_rpc \<Rightarrow> (bytes \<Rightarrow> request_result list \<Rightarrow> bytes) \<Rightarrow> prepared_round \<Rightarrow> signing_result \<Rightarrow>
   merkle_proof \<Rightarrow> request_db \<Rightarrow> request_db \<times> (user_request_error + nat)" where
  "finalize_and_broadcast env rpc encode prepared signing proof db =
     (case final_round_transaction env prepared signing proof of
        Inl e \<Rightarrow> (db, Inl e)
      | Inr (final_tx, signed_price) \<Rightarrow>
          (case rpc_call (rc_send rpc (ee_encode_tx env final_tx)) of
             Inl e \<Rightarrow> (db, Inl e)
           | Inr txid \<Rightarrow>
               if txid \<noteq> ee_txid env final_tx then (db, Inl (RequestInvalid ''broadcast transaction id mismatch''))
               else mark_results (encode (ee_txid env final_tx)) signed_price (ee_encode_tx env final_tx)
                      (pd_results prepared) 0 db))"

subsection \<open>How many Storm Eyes there are\<close>

definition storm_eye_utxo_count :: "elements_rpc \<Rightarrow> asset_db \<Rightarrow> user_request_error + nat" where
  "storm_eye_utxo_count rpc assets =
     bind_res (round_asset assets STORM_EYE_KIND) (\<lambda>storm_eye.
     bind_res (scan_contract_utxos rpc (na_contract_script storm_eye) (Some (na_asset_id storm_eye))) (\<lambda>candidates.
       Inr (length candidates)))"

end
