(* ===== verification/Round_Broadcast.thy ===== *)
theory Round_Broadcast
  imports Round_Claims Round_Finalize
begin

text \<open>
  What is known of a round that reaches the chain: everything a reader checks was checked before, and its
  requests are recorded with it.
\<close>

subsection \<open>A round with Verifiers carries a rate\<close>

text \<open>The kinds of the results are the kinds of the requests.\<close>

lemma issue_requests_kinds:
  "issue_requests (issue_request setup storm_eye timestamp tick verifier owner index) vout rs = Inr xs \<Longrightarrow>
   map (qr_kind \<circ> snd \<circ> snd) xs = map uq_kind rs"
proof (induction rs arbitrary: vout xs)
  case (Cons r rs)
  obtain x xs' where x: "issue_request setup storm_eye timestamp tick verifier owner index vout r = Inr x"
    and rest: "issue_requests (issue_request setup storm_eye timestamp tick verifier owner index) (Suc vout) rs = Inr xs'"
    and xs: "xs = x # xs'"
    using Cons.prems by (auto simp: bind_res_eq_Inr)
  have "qr_kind (snd (snd x)) = uq_kind r" using x by (auto simp: issue_request_def bind_res_eq_Inr Let_def)
  then show ?case using Cons.IH [OF rest] xs by simp
qed simp

lemma issue_batches_kinds:
  "issue_batches setup storm_eye timestamp tick verifier reserve vout bs = Inr issued \<Longrightarrow>
   map (map (qr_kind \<circ> snd \<circ> snd) \<circ> snd) issued = map (map uq_kind \<circ> nu_requests \<circ> sb_request) bs"
proof (induction bs arbitrary: issued reserve vout)
  case (Cons b bs)
  then obtain owner index xs rest where
    xs: "issue_requests (issue_request setup storm_eye timestamp tick verifier owner index) vout (nu_requests (sb_request b)) = Inr xs"
    and rest: "issue_batches setup storm_eye timestamp tick verifier (Suc reserve) (vout + length xs) bs = Inr rest"
    and "issued = (sb_hash b, xs) # rest"
    by (auto simp: bind_res_eq_Inr split: if_splits)
  then show ?case using Cons.IH [OF rest] issue_requests_kinds [OF xs] by (simp add: comp_def)
qed simp

lemma build_round_kinds:
  assumes "build_round setup renv view storm_eye utxo max_weight st = Inr r"
  shows "map (map qr_kind \<circ> snd) (pd_results r) = map (map uq_kind \<circ> nu_requests \<circ> sb_request) (sc_decoded st)"
proof -
  obtain tick verifier reserve vout issued where
    i: "issue_batches setup storm_eye (rv_timestamp view) tick verifier reserve vout (sc_decoded st) = Inr issued"
    and res: "pd_results r = map (\<lambda>(hash, xs). (hash, map (snd \<circ> snd) xs)) issued"
    using assms unfolding build_round_def Let_def bind_res_eq_Inr by (auto split: prod.splits)
  show ?thesis using issue_batches_kinds [OF i] by (simp add: res comp_def split_def)
qed

text \<open>A batch with a request for a signed price names its feed.\<close>

lemma batch_names_feed:
  assumes "validate_batch env request = Inr (fees, feed)" "u \<in> set (nu_requests request)" "issues_verifier (uq_kind u)"
  shows "feed \<noteq> None"
proof -
  obtain named where "validate_user_request env u = Inr named" "named = None \<or> named = feed"
    using batch_requests_known [OF assms(1,2)] by blast
  then show ?thesis using assms(3)
    by (auto simp: validate_user_request_def issues_verifier_def bind_res_eq_Inr Let_def TICK_REQUEST_KIND_def
        PRICE_REQUEST_KIND_def split: if_splits option.splits)
qed

definition priced :: "prepared_round \<Rightarrow> bool" where
  "priced r \<longleftrightarrow> (\<forall>(hash, results)\<in>set (pd_results r). \<forall>q\<in>set results. issues_verifier (qr_kind q) \<longrightarrow> pd_instructed r \<noteq> None)"

lemma candidate_priced:
  assumes "prepare_round_candidate setup renv view height lane limit max_weight db = (db', Inr (Some r))"
    and "well_priced view" "0 < unat limit" "hashed (ro_users setup) (rd_requests db)"
  shows "priced r"
proof -
  from assms(1) obtain pending storm_eye utxo st where
    scan: "scan_pending setup view storm_eye height limit pending db = (st, Inr ())"
    and b: "build_round setup renv view storm_eye utxo max_weight st = Inr r"
    and pending: "list_pending_after PENDING_SCAN_PAGE None db = Inr pending"
    by (auto simp: prepare_round_candidate_def bind_res_eq_Inr map_err_eq_Inr
        split: sum.splits option.splits prod.splits if_splits)
  have ok: "scan_ok setup view st"
    using scan_pending_ok [OF assms(2,3) scan assms(4) list_pending_hashed [OF pending assms(4)]] by blast
  show ?thesis
  proof (rule ccontr)
    assume "\<not> priced r"
    then obtain hash results q where q: "(hash, results) \<in> set (pd_results r)" "q \<in> set results" "issues_verifier (qr_kind q)"
      and none: "pd_instructed r = None" by (auto simp: priced_def)
    have "map qr_kind results \<in> set (map (map qr_kind \<circ> snd) (pd_results r))" using q(1) by force
    then obtain batch where batch: "batch \<in> set (sc_decoded st)" "map qr_kind results = map uq_kind (nu_requests (sb_request batch))"
      unfolding build_round_kinds [OF b] by auto
    have "qr_kind q \<in> set (map qr_kind results)" using q(2) by simp
    then obtain u where "u \<in> set (nu_requests (sb_request batch))" "issues_verifier (uq_kind u)"
      using batch(2) q(3) by auto
    moreover obtain fees where "validate_batch (ro_users setup) (sb_request batch) = Inr (fees, sb_feed batch)"
      using ok batch(1) by (auto simp: scan_ok_def batch_ok_def validate_encoded_request_def bind_res_eq_Inr map_err_eq_Inr)
    ultimately obtain f where "sb_feed batch = Some f" using batch_names_feed by blast
    then have "sc_instructed st \<noteq> None" using ok batch(1) by (force simp: scan_ok_def rate_agrees_def)
    then show False using none build_round_Inr [OF b] by simp
  qed
qed

lemma prepared_priced:
  assumes "prepare_round setup renv views height lane max_weight db = Some (db', Inr (Some r))"
    and "\<forall>k. well_priced (views k)" "hashed (ro_users setup) (rd_requests db)"
  shows "priced r"
proof -
  let ?good = "\<lambda>s. search_good setup views max_weight s \<and> (\<forall>r. ss_best s = Some r \<longrightarrow> priced r)"
  let ?ok = "\<lambda>answer :: user_request_error + prepared_round option. \<forall>r. answer = Inr (Some r) \<longrightarrow> priced r"
  have step: "case a of Continue \<Rightarrow> ?good s' | Stop answer \<Rightarrow> ?ok answer"
    if "?good s" "ss_lower s \<le> ss_upper s" "search_step setup renv views height lane max_weight s = (s', a)" for s s' a
  proof -
    have lim: "0 < unat (ss_limit s)" "hashed (ro_users setup) (rd_requests (ss_db s))"
      using that(1,2) by (auto simp: search_good_def search_ok_def word_le_nat_alt)
    obtain db1 answer where c: "prepare_round_candidate setup renv (views (ss_attempt s)) height lane (ss_limit s) max_weight (ss_db s) = (db1, answer)"
      by (cases "prepare_round_candidate setup renv (views (ss_attempt s)) height lane (ss_limit s) max_weight (ss_db s)")
    have "priced r" if "answer = Inr (Some r)" for r
      using candidate_priced [OF c [unfolded that] _ lim] assms(2) by blast
    moreover have "case a of Continue \<Rightarrow> search_good setup views max_weight s' | Stop answer \<Rightarrow> True"
      using search_step_good [OF _ that(2) assms(2) that(3)] that(1) by (auto split: search_step.splits)
    ultimately show ?thesis
      using that(3) c that(1)
      by (auto simp: search_step_def next_attempt_def Let_def split: sum.splits option.splits if_splits)
  qed
  let ?s = "\<lparr>ss_lower = 1, ss_upper = MAX_REQUESTS_PER_ROUND, ss_limit = MAX_REQUESTS_PER_ROUND, ss_best = None,
      ss_attempt = 0, ss_db = db\<rparr>"
  have start: "?good ?s"
    using assms(3) by (simp add: search_good_def search_ok_def MAX_REQUESTS_PER_ROUND_def)
  have "?ok (snd (db', Inr (Some r)))"
  proof (rule search_rounds_invariant [where I = ?good and J = ?ok, OF assms(1) [unfolded prepare_round_def] start])
    show "?ok answer" if "?good s" "search_step setup renv views height lane max_weight s = (s', Stop answer)"
      "ss_lower s \<le> ss_upper s" for s s' answer
      using step [OF that(1,3,2)] by simp
    show "?good s'" if "?good s" "search_step setup renv views height lane max_weight s = (s', Continue)"
      "ss_lower s \<le> ss_upper s" for s s'
      using step [OF that(1,3,2)] by simp
    show "?ok (Inr (ss_best s))" if "?good s" for s using that by simp
  qed
  then show ?thesis by simp
qed

subsection \<open>Recording it\<close>

text \<open>A request of the round that was pending is recorded with the transaction.\<close>

definition recorded :: "bytes \<Rightarrow> bytes \<Rightarrow> request_db \<Rightarrow> bool" where
  "recorded final_bytes hash db \<longleftrightarrow>
     (\<exists>row. get_user_request hash db = Some row \<and> ur_status row = RequestProcessing \<and> ur_execution_tx row = Some final_bytes)"

lemma mark_processing_recorded:
  assumes "mark_processing hash payload final_bytes db = (db', marked)" "bt_wf (rd_requests db)"
  shows "bt_wf (rd_requests db') \<and>
    (\<forall>row. get_user_request hash db = Some row \<longrightarrow> ur_status row = RequestPending \<longrightarrow> recorded final_bytes hash db') \<and>
    (\<forall>other. recorded final_bytes other db \<longrightarrow> recorded final_bytes other db') \<and>
    (\<forall>other. other \<noteq> hash \<longrightarrow> get_user_request other db' = get_user_request other db)"
  using assms bt_wf_update_key [OF assms(2)]
  by (auto simp: mark_processing_def update_request_def recorded_def get_user_request_def bt_update_key_def bt_get_insert
      bt_insert_wf split: option.splits if_splits)

lemma mark_results_recorded:
  assumes "\<forall>(hash, results)\<in>set rs. \<forall>q\<in>set results. issues_verifier (qr_kind q) \<longrightarrow> signed_price \<noteq> None"
  shows "bt_wf (rd_requests db) \<Longrightarrow> \<exists>db' n. mark_results encode signed_price final_bytes rs updated db = (db', Inr n) \<and>
    (\<forall>hash\<in>fst ` set rs. \<forall>row. get_user_request hash db = Some row \<longrightarrow> ur_status row = RequestPending \<longrightarrow>
       recorded final_bytes hash db') \<and>
    (\<forall>hash. recorded final_bytes hash db \<longrightarrow> recorded final_bytes hash db') \<and>
    (\<forall>other. other \<notin> fst ` set rs \<longrightarrow> get_user_request other db' = get_user_request other db)"
  using assms
proof (induction rs arbitrary: updated db)
  case (Cons r rs)
  obtain hash results where r: "r = (hash, results)" by (cases r)
  have "\<forall>q\<in>set results. \<exists>q'. fill_price signed_price q = Inr q'"
    using Cons.prems(2) by (auto simp: r fill_price_def)
  then obtain filled where filled: "map_res (fill_price signed_price) results = Inr filled" using map_res_defined by blast
  obtain db1 marked where m: "mark_processing hash (encode filled) final_bytes db = (db1, marked)"
    by (cases "mark_processing hash (encode filled) final_bytes db")
  note one = mark_processing_recorded [OF m Cons.prems(1)]
  obtain db' n where rest: "mark_results encode signed_price final_bytes rs (updated + (if marked then 1 else 0)) db1 = (db', Inr n)"
      "\<forall>h\<in>fst ` set rs. \<forall>row. get_user_request h db1 = Some row \<longrightarrow> ur_status row = RequestPending \<longrightarrow> recorded final_bytes h db'"
      "\<forall>h. recorded final_bytes h db1 \<longrightarrow> recorded final_bytes h db'"
      "\<forall>other. other \<notin> fst ` set rs \<longrightarrow> get_user_request other db' = get_user_request other db1"
    using Cons.IH [of db1 "updated + (if marked then 1 else 0)"] one Cons.prems(2) by (auto simp: r)
  have "mark_results encode signed_price final_bytes (r # rs) updated db = (db', Inr n)"
    using filled m rest(1) by (simp add: r)
  moreover have "recorded final_bytes h db'"
    if "h \<in> fst ` set (r # rs)" "get_user_request h db = Some row" "ur_status row = RequestPending" for h row
    using that one rest(2-) by (cases "h = hash") (auto simp: r)
  moreover have "recorded final_bytes h db'" if "recorded final_bytes h db" for h using that one rest(3) by blast
  moreover have "get_user_request other db' = get_user_request other db" if "other \<notin> fst ` set (r # rs)" for other
    using that one rest(4) by (simp add: r)
  ultimately show ?case by blast
qed auto

lemma final_round_transaction_Inr:
  assumes "final_round_transaction env prepared signing proof = Inr (final_tx, signed_price)"
  obtains signature rest p hash encoded data final where
    "sr_signatures signing = signature # rest"
    "for_branch env (pd_transaction prepared) (sr_branch signing) = Inr (p, hash)"
    "ee_verify_schnorr env signature hash (sr_branch signing)"
    "na_contract_data (rt_storm_eye (pd_transaction prepared)) = Some encoded" "ee_decode_contract env encoded = Some data"
    "verify_branch (ee_sha256 env) (sd_storm_tree_root data) (sr_branch signing) proof"
    "issuance_signing_hash env final (rt_storm_eye (pd_transaction prepared)) (rt_network (pd_transaction prepared)) = Inr hash"
    "ee_extract_tx env final = Inr final_tx" "ee_weight env final_tx \<le> pd_max_weight prepared"
    "verify_round_amounts env final_tx (pd_spent prepared) = Inr ()"
    "(pd_instructed prepared = None \<and> signed_price = None) \<or>
     (\<exists>rate s. pd_instructed prepared = Some rate \<and> signed_price_bloom env rate signing proof = Inr s \<and> signed_price = Some s)"
  using assms
  by (auto simp: final_round_transaction_def Let_def bind_res_eq_Inr map_err_eq_Inr split: if_splits list.splits option.splits)

lemma mark_results_others:
  "mark_results encode signed_price final_bytes rs updated db = (db', answer) \<Longrightarrow> bt_wf (rd_requests db) \<Longrightarrow>
   other \<notin> fst ` set rs \<Longrightarrow> get_user_request other db' = get_user_request other db"
proof (induction rs arbitrary: updated db)
  case (Cons r rs)
  obtain hash results where r: "r = (hash, results)" by (cases r)
  show ?case
  proof (cases "map_res (fill_price signed_price) results")
    case (Inl e)
    then show ?thesis using Cons.prems(1) by (simp add: r)
  next
    case (Inr filled)
    obtain db1 marked where m: "mark_processing hash (encode filled) final_bytes db = (db1, marked)"
      by (cases "mark_processing hash (encode filled) final_bytes db")
    note one = mark_processing_recorded [OF m Cons.prems(2)]
    show ?thesis
      using Cons.IH [of "updated + (if marked then 1 else 0)" db1] Cons.prems one Inr m by (auto simp: r)
  qed
qed simp

lemma signed_price_bloom_Inr:
  assumes "signed_price_bloom env rate signing proof = Inr s"
  shows "1 < length (sr_signatures signing) \<and>
    ee_verify_schnorr env (sr_signatures signing ! 1) (tagged_hash (ee_sha256 env) PRICE_TAG (to_bytes rate)) (sr_branch signing) \<and>
    sg_price_data s = to_bytes rate \<and> sg_signature s = sr_signatures signing ! 1"
  using assms by (auto simp: signed_price_bloom_def bind_res_eq_Inr split: if_splits)

text \<open>
  C35: A round that was broadcast was checked again by the coordinator itself: the first signature is over the
  transaction that commits its Verifiers to the branch that signed, this branch is in the tree of the Storm Eye on
  the chain, and finalizing the inputs did not change what was signed; the weight is within the limit and the
  amounts and proofs verify. When the round has a rate, the second signature is over this very rate under the same
  branch. No request outside the round changes.
\<close>

theorem broadcast_round_is_verified:
  assumes "finalize_and_broadcast env rpc encode prepared signing proof db = (db', Inr n)"
    and "bt_wf (rd_requests db)"
  shows "\<exists>p hash data final final_tx.
    for_branch env (pd_transaction prepared) (sr_branch signing) = Inr (p, hash) \<and>
    ee_verify_schnorr env (hd (sr_signatures signing)) hash (sr_branch signing) \<and>
    Option.bind (na_contract_data (rt_storm_eye (pd_transaction prepared))) (ee_decode_contract env) = Some data \<and>
    verify_branch (ee_sha256 env) (sd_storm_tree_root data) (sr_branch signing) proof \<and>
    issuance_signing_hash env final (rt_storm_eye (pd_transaction prepared)) (rt_network (pd_transaction prepared)) = Inr hash \<and>
    ee_extract_tx env final = Inr final_tx \<and> ee_weight env final_tx \<le> pd_max_weight prepared \<and>
    verify_round_amounts env final_tx (pd_spent prepared) = Inr () \<and>
    rc_send rpc (ee_encode_tx env final_tx) = Inr (ee_txid env final_tx) \<and>
    (\<forall>rate. pd_instructed prepared = Some rate \<longrightarrow> 1 < length (sr_signatures signing) \<and>
       ee_verify_schnorr env (sr_signatures signing ! 1) (tagged_hash (ee_sha256 env) PRICE_TAG (to_bytes rate)) (sr_branch signing)) \<and>
    (\<forall>other. other \<notin> fst ` set (pd_results prepared) \<longrightarrow> get_user_request other db' = get_user_request other db)"
proof -
  obtain final_tx signed_price where f: "final_round_transaction env prepared signing proof = Inr (final_tx, signed_price)"
    and send: "rc_send rpc (ee_encode_tx env final_tx) = Inr (ee_txid env final_tx)"
    and marked: "mark_results (encode (ee_txid env final_tx)) signed_price (ee_encode_tx env final_tx)
        (pd_results prepared) 0 db = (db', Inr n)"
    using assms(1) by (auto simp: finalize_and_broadcast_def rpc_call_def map_err_eq_Inr split: sum.splits if_splits)
  obtain signature rest p hash encoded data final where facts: "sr_signatures signing = signature # rest"
    "for_branch env (pd_transaction prepared) (sr_branch signing) = Inr (p, hash)"
    "ee_verify_schnorr env signature hash (sr_branch signing)"
    "na_contract_data (rt_storm_eye (pd_transaction prepared)) = Some encoded" "ee_decode_contract env encoded = Some data"
    "verify_branch (ee_sha256 env) (sd_storm_tree_root data) (sr_branch signing) proof"
    "issuance_signing_hash env final (rt_storm_eye (pd_transaction prepared)) (rt_network (pd_transaction prepared)) = Inr hash"
    "ee_extract_tx env final = Inr final_tx" "ee_weight env final_tx \<le> pd_max_weight prepared"
    "verify_round_amounts env final_tx (pd_spent prepared) = Inr ()"
    and rate: "(pd_instructed prepared = None \<and> signed_price = None) \<or>
     (\<exists>rate s. pd_instructed prepared = Some rate \<and> signed_price_bloom env rate signing proof = Inr s \<and> signed_price = Some s)"
    using f by (rule final_round_transaction_Inr)
  have rest': "\<forall>other. other \<notin> fst ` set (pd_results prepared) \<longrightarrow> get_user_request other db' = get_user_request other db"
    using mark_results_others [OF marked assms(2)] by blast
  have rates: "\<forall>rate. pd_instructed prepared = Some rate \<longrightarrow> 1 < length (sr_signatures signing) \<and>
       ee_verify_schnorr env (sr_signatures signing ! 1) (tagged_hash (ee_sha256 env) PRICE_TAG (to_bytes rate)) (sr_branch signing)"
    using rate signed_price_bloom_Inr by auto
  show ?thesis
    using facts send rest' rates
    by (intro exI [of _ p] exI [of _ hash] exI [of _ data] exI [of _ final] exI [of _ final_tx] conjI) simp_all
qed

text \<open>
  C36: A round that reaches the chain is recorded: for a round the coordinator prepared, once its checks pass and
  the node accepts the transaction, the operation does not fail any more, and every request of the round that was
  pending is now in processing with the transaction that was sent. The results of the Verifiers always find the
  signed rate they carry, which the code expects without checking.
\<close>

theorem broadcast_round_is_recorded:
  assumes "prepare_round setup renv views height lane max_weight db0 = Some (db1, Inr (Some r))"
    and "\<forall>k. well_priced (views k)" "hashed (ro_users setup) (rd_requests db0)"
    and "final_round_transaction env r signing proof = Inr (final_tx, signed_price)"
    and "rc_send rpc (ee_encode_tx env final_tx) = Inr (ee_txid env final_tx)" "bt_wf (rd_requests db)"
  shows "\<exists>db' n. finalize_and_broadcast env rpc encode r signing proof db = (db', Inr n) \<and>
    (\<forall>hash\<in>fst ` set (pd_results r). \<forall>row. get_user_request hash db = Some row \<longrightarrow> ur_status row = RequestPending \<longrightarrow>
       recorded (ee_encode_tx env final_tx) hash db')"
proof -
  have "priced r" by (rule prepared_priced [OF assms(1-3)])
  moreover have "pd_instructed r \<noteq> None \<longrightarrow> signed_price \<noteq> None"
    using assms(4) by (rule final_round_transaction_Inr) auto
  ultimately have "\<forall>(hash, results)\<in>set (pd_results r). \<forall>q\<in>set results. issues_verifier (qr_kind q) \<longrightarrow> signed_price \<noteq> None"
    by (auto simp: priced_def)
  from mark_results_recorded [OF this assms(6), of "encode (ee_txid env final_tx)" "ee_encode_tx env final_tx" 0]
  show ?thesis using assms(4,5) by (auto simp: finalize_and_broadcast_def rpc_call_def)
qed

definition toy_signing :: signing_result where
  "toy_signing = \<lparr>sr_signatures = [replicate 64 1], sr_branch = replicate 32 5\<rparr>"

definition toy_proof :: merkle_proof where
  "toy_proof = \<lparr>mp_leaf = replicate 32 5, mp_root = replicate 32 0, mp_siblings = []\<rparr>"

lemma toy_finalized:
  assumes "toy_facts 100 r"
  shows "\<exists>t. final_round_transaction toy_round_elements r toy_signing toy_proof = Inr (t, None)"
proof -
  have b: "for_branch toy_round_elements (pd_transaction r) (replicate 32 5) = Inr (rt_pset (pd_transaction r), [3, 7])"
    using assms by (intro toy_branch) (simp_all add: toy_facts_def)
  have crypto: "ee_valid_x_only toy_round_elements (replicate 32 5)" "ee_valid_signature toy_round_elements (replicate 64 1)"
    "ee_verify_schnorr toy_round_elements s m k" "ee_verify_amounts toy_round_elements t us" for s m k t us
    by (simp_all add: toy_round_elements_def toy_elements_def)
  have contract: "na_contract_data toy_round_eye = Some (replicate 68 0)"
    "\<exists>data. ee_decode_contract toy_round_elements (replicate 68 0) = Some data \<and> sd_storm_tree_root data = replicate 32 0"
    by (simp_all add: toy_round_eye_def toy_round_elements_def toy_elements_def)
  then obtain data where data: "ee_decode_contract toy_round_elements (replicate 68 0) = Some data" "sd_storm_tree_root data = replicate 32 0"
    by blast
  have proof_ok: "verify_branch (ee_sha256 toy_round_elements) (replicate 32 0) (replicate 32 5) toy_proof"
    by (simp add: verify_branch_def toy_proof_def verify_proof_def process_proof_def hash_leaf_def toy_round_elements_def)
  obtain packed where packed: "pack_proof toy_proof = Inr packed" by (simp add: pack_proof_def toy_proof_def)
  obtain a w where programs: "map ri_program (pd_inputs r) = [StormEyeProgram a w, TreasuryProgram, AccountProgram (replicate 32 9)]"
    using assms by (auto simp: toy_facts_def)
  have sizes: "length (ps_inputs (rt_pset (pd_transaction r))) = 3" "length (ps_outputs (rt_pset (pd_transaction r))) = 7"
    "rt_storm_eye (pd_transaction r) = toy_round_eye" "rt_network (pd_transaction r) = Liquid" "pd_max_weight r = 100" "pd_instructed r = None"
    using assms by (simp_all add: toy_facts_def)
  have final: "\<exists>p'. finalize_inputs toy_round_elements asset Liquid e (zip [0..<length [StormEyeProgram a w', TreasuryProgram, AccountProgram (replicate 32 9)]]
      [StormEyeProgram a w', TreasuryProgram, AccountProgram (replicate 32 9)]) p = Inr p' \<and> length (ps_inputs p') = length (ps_inputs p) \<and> length (ps_outputs p') = length (ps_outputs p)" for asset e p w'
    by (simp add: upt_rec finalize_program_def toy_round_elements_def toy_elements_def set_final_witness_def)
  have hash: "issuance_signing_hash toy_round_elements p toy_round_eye Liquid = Inr [of_nat (length (ps_inputs p)), of_nat (length (ps_outputs p))]" for p
    by (simp add: issuance_signing_hash_def signing_hash_def storm_eye_program_def storm_eye_contract_data_def toy_round_eye_def
        toy_round_elements_def toy_elements_def)
  have taken: "ee_extract_tx toy_round_elements p = Inr (toy_extract p)"
    "ee_weight toy_round_elements (toy_extract p) = length (ps_inputs p) + length (ps_outputs p)" for p
    by (simp_all add: toy_round_elements_def toy_elements_def toy_extract_def)
  let ?w = "\<lparr>aw_root = sd_storm_tree_root data, aw_rescue_height = sd_rescue_height data,
      aw_signature = replicate 64 1, aw_branch = replicate 32 5, aw_proof = packed, aw_kind = Inclusion 0\<rparr>"
  have set: "set_auth_witness ?w (pd_inputs r) = [StormEyeProgram a ?w, TreasuryProgram, AccountProgram (replicate 32 9)]"
    by (simp add: set_auth_witness_def programs)
  let ?programs = "[StormEyeProgram a ?w, TreasuryProgram, AccountProgram (replicate 32 9)]"
  obtain p where p: "finalize_inputs toy_round_elements [7] Liquid (\<lambda>e. RequestInvalid (''failed to finalize covenant input: '' @ e))
      (zip [0..<length ?programs] ?programs) (rt_pset (pd_transaction r)) = Inr p"
      "length (ps_inputs p) = 3" "length (ps_outputs p) = 7"
    using final [of "[7]" "\<lambda>e. RequestInvalid (''failed to finalize covenant input: '' @ e)" ?w "rt_pset (pd_transaction r)"] unfolding sizes by blast
  have eye: "na_asset_id toy_round_eye = [7]" by (simp add: toy_round_eye_def)
  have signing: "sr_branch toy_signing = replicate 32 5" "sr_signatures toy_signing = [replicate 64 1]"
    by (simp_all add: toy_signing_def)
  have checks: "\<not> \<not> ee_valid_x_only toy_round_elements (replicate 32 5)" "\<not> \<not> ee_valid_signature toy_round_elements (replicate 64 1)"
    "\<not> \<not> ee_verify_schnorr toy_round_elements (replicate 64 1) [3, 7] (replicate 32 5)"
    "\<not> \<not> verify_branch (ee_sha256 toy_round_elements) (sd_storm_tree_root data) (replicate 32 5) toy_proof"
    using crypto proof_ok data(2) by simp_all
  have amounts: "verify_round_amounts toy_round_elements t us = Inr ()" for t us
    using crypto by (simp add: verify_round_amounts_def require_def)
  show ?thesis
    unfolding final_round_transaction_def signing list.case ok_or_simps bind_res_simps b Let_def sizes contract(1) data(1) packed
      set eye if_not_P [OF checks(1)] if_not_P [OF checks(2)] prod.case if_not_P [OF checks(3)] option.case
      if_not_P [OF checks(4)] p(1) hash p(2,3) taken(1) map_err_simps amounts
    by (simp add: taken(2) p(2,3))
qed

definition toy_send_rpc :: "transaction \<Rightarrow> elements_rpc" where
  "toy_send_rpc t = toy_rpc\<lparr>rc_send := \<lambda>_. Inr (ee_txid toy_round_elements t)\<rparr>"

lemma toy_round_db_facts:
  "\<forall>k :: nat. well_priced toy_view" "hashed (ro_users toy_setup) (rd_requests toy_round_db)" "bt_wf (rd_requests toy_round_db)"
  by (simp_all add: well_priced_def toy_view_def hashed_def toy_round_db_def toy_setup_fields toy_users_fields bt_wf_def)

theorem broadcast_round_is_recorded_witness:
  "\<exists>r rpc db' n. finalize_and_broadcast toy_round_elements rpc (\<lambda>_ _. [1]) r toy_signing toy_proof toy_round_db = (db', Inr n) \<and>
     (\<exists>row. get_user_request [5] db' = Some row \<and> ur_status row = RequestProcessing)"
proof -
  obtain r where r: "prepare_round toy_setup toy_round_env (\<lambda>_. toy_view) 6 0 100 toy_round_db = Some (toy_round_db, Inr (Some r))"
    "toy_facts 100 r"
    using toy_prepared by blast
  obtain t where t: "final_round_transaction toy_round_elements r toy_signing toy_proof = Inr (t, None)"
    using toy_finalized [OF r(2)] by blast
  have send: "rc_send (toy_send_rpc t) (ee_encode_tx toy_round_elements t) = Inr (ee_txid toy_round_elements t)"
    by (simp add: toy_send_rpc_def)
  have pending: "get_user_request [5] toy_round_db = Some toy_row" "ur_status toy_row = RequestPending"
    by (simp_all add: toy_round_db_def get_user_request_def bt_get_def toy_row_def request_row_new_def)
  have names: "[5] \<in> fst ` set (pd_results r)"
  proof -
    have "[5] \<in> set (map fst (pd_results r))" using r(2) by (simp add: toy_facts_def)
    then show ?thesis by simp
  qed
  from broadcast_round_is_recorded [OF r(1) toy_round_db_facts(1,2) t send toy_round_db_facts(3), of "\<lambda>_ _. [1]"]
  obtain db' n where "finalize_and_broadcast toy_round_elements (toy_send_rpc t) (\<lambda>_ _. [1]) r toy_signing toy_proof toy_round_db = (db', Inr n)"
    "recorded (ee_encode_tx toy_round_elements t) [5] db'"
    using pending names by blast
  then show ?thesis unfolding recorded_def by blast
qed

theorem broadcast_round_is_verified_witness:
  "\<exists>r rpc db' n p. finalize_and_broadcast toy_round_elements rpc (\<lambda>_ _. [1]) r toy_signing toy_proof toy_round_db = (db', Inr n) \<and>
     for_branch toy_round_elements (pd_transaction r) (sr_branch toy_signing) = Inr (p, [3, 7])"
proof -
  obtain r where r: "prepare_round toy_setup toy_round_env (\<lambda>_. toy_view) 6 0 100 toy_round_db = Some (toy_round_db, Inr (Some r))"
    "toy_facts 100 r"
    using toy_prepared by blast
  obtain t where t: "final_round_transaction toy_round_elements r toy_signing toy_proof = Inr (t, None)"
    using toy_finalized [OF r(2)] by blast
  have "priced r" by (rule prepared_priced [OF r(1) toy_round_db_facts(1,2)])
  then have "\<forall>(hash, results)\<in>set (pd_results r). \<forall>q\<in>set results. issues_verifier (qr_kind q) \<longrightarrow> (None :: signed_price option) \<noteq> None"
    using r(2) by (auto simp: priced_def toy_facts_def)
  from mark_results_recorded [OF this toy_round_db_facts(3), of "\<lambda>_. [1]" "ee_encode_tx toy_round_elements t" 0]
  obtain db' n where run: "finalize_and_broadcast toy_round_elements (toy_send_rpc t) (\<lambda>_ _. [1]) r toy_signing toy_proof toy_round_db = (db', Inr n)"
    by (auto simp: finalize_and_broadcast_def t rpc_call_def toy_send_rpc_def)
  have "for_branch toy_round_elements (pd_transaction r) (sr_branch toy_signing) = Inr (rt_pset (pd_transaction r), [3, 7])"
    using r(2) by (intro toy_branch) (simp_all add: toy_facts_def)
  with broadcast_round_is_verified [OF run toy_round_db_facts(3)] run show ?thesis by auto
qed

end
