(* ===== verification/Burn_Plan.thy ===== *)
theory Burn_Plan
  imports Elements_Rpc Script_Markers Droplet_Exchange "HOL-Library.Option_ord"
begin

text \<open>
  Which expired outputs a burn takes and what it costs (\<open>high_storm/burning.rs\<close>): the items are grouped by the
  reserve that pays for them, the groups are taken oldest first, and the fee is shared between the reserves.
\<close>

definition MAX_TICKS_PER_BURN :: usize where "MAX_TICKS_PER_BURN = 100"
definition MAX_STANDARD_TX_WEIGHT :: nat where "MAX_STANDARD_TX_WEIGHT = 400000"
definition BURN_FEE_RATE_SAT_PER_KVB :: u64 where "BURN_FEE_RATE_SAT_PER_KVB = 100"
definition BURN_BASE_WEIGHT :: u64 where "BURN_BASE_WEIGHT = 3900"
definition BURN_ITEM_WEIGHT :: u64 where "BURN_ITEM_WEIGHT = 500"
definition BURN_RESERVE_WEIGHT :: u64 where "BURN_RESERVE_WEIGHT = 750"

datatype burning_error =
  ReserveShortfall
| BurnDatabase db_error
| BurnMissingAsset string
| BurnInvalid string
| BurnTransaction
| BurnAsset asset_error
| BurnRpc
| BurnProgram string
| BurnPset string
| BurnHelper user_request_error

record burn_assets =
  bs_tick :: "bytes option"
  bs_verifier :: "bytes option"

record burn_group =
  bg_reserve :: outpoint
  bg_owner :: bytes
  bg_ticks :: "monitored_utxo list"

definition reserve_of :: "monitored_utxo \<Rightarrow> outpoint" where
  "reserve_of u = (mu_burning_fee_txid u, mu_burning_fee_output_index u)"

subsection \<open>Groups\<close>

text \<open>Expired items whose reserve all name one owner, and per reserve the items that do not.\<close>

definition owners_by_reserve :: "monitored_utxo list \<Rightarrow> (outpoint, bytes set) btree" where
  "owners_by_reserve expired =
     fold (\<lambda>u m. bt_insert (reserve_of u)
       (insert (mu_account_owner_pubkey u) (case bt_get m (reserve_of u) of None \<Rightarrow> {} | Some s \<Rightarrow> s)) m) expired []"

definition conflicted :: "(outpoint, bytes set) btree \<Rightarrow> monitored_utxo \<Rightarrow> bool" where
  "conflicted owners u = (case bt_get owners (reserve_of u) of None \<Rightarrow> False | Some s \<Rightarrow> 1 < card s)"

definition split_conflicting_reserves ::
  "monitored_utxo list \<Rightarrow> monitored_utxo list \<times> (outpoint, monitored_utxo list) btree" where
  "split_conflicting_reserves expired =
     (let owners = owners_by_reserve expired in
      (filter (\<lambda>u. \<not> conflicted owners u) expired,
       fold (\<lambda>u m. bt_insert (reserve_of u) ((case bt_get m (reserve_of u) of None \<Rightarrow> [] | Some us \<Rightarrow> us) @ [u]) m)
         (filter (conflicted owners) expired) []))"

definition add_to_group ::
  "monitored_utxo \<Rightarrow> (outpoint, burn_group) btree \<Rightarrow> burning_error + (outpoint, burn_group) btree" where
  "add_to_group u m =
     (let group = (case bt_get m (reserve_of u) of
            None \<Rightarrow> \<lparr>bg_reserve = reserve_of u, bg_owner = mu_account_owner_pubkey u, bg_ticks = []\<rparr>
          | Some g \<Rightarrow> g)
      in if bg_owner group \<noteq> mu_account_owner_pubkey u
         then Inl (BurnInvalid ''one burn reserve has conflicting Account owners'')
         else Inr (bt_insert (reserve_of u) (group\<lparr>bg_ticks := bg_ticks group @ [u]\<rparr>) m))"

definition oldest :: "burn_group \<Rightarrow> u64 option" where
  "oldest g = (case map mu_block_height (bg_ticks g) of [] \<Rightarrow> None | h # hs \<Rightarrow> Some (fold min hs h))"

text \<open>The oldest groups first, as many as fit; a group that does not fit is passed over.\<close>

fun take_groups :: "usize \<Rightarrow> burn_group list \<Rightarrow> burn_group list \<Rightarrow> nat \<Rightarrow> burn_group list" where
  "take_groups max_groups [] selected tick_count = selected"
| "take_groups max_groups (g # gs) selected tick_count =
     (if length selected = unat max_groups then selected
      else if unat MAX_TICKS_PER_BURN < tick_count + length (bg_ticks g) then take_groups max_groups gs selected tick_count
      else take_groups max_groups gs (selected @ [g]) (tick_count + length (bg_ticks g)))"

definition select_groups :: "monitored_utxo list \<Rightarrow> usize \<Rightarrow> burning_error + burn_group list" where
  "select_groups expired max_groups =
     bind_res (fold_res add_to_group expired []) (\<lambda>grouped.
       Inr (take_groups max_groups (sort_key (\<lambda>g. (oldest g, bg_reserve g)) (bt_values grouped)) [] 0))"

subsection \<open>Assets\<close>

definition burn_asset_of :: "burn_assets \<Rightarrow> monitored_utxo \<Rightarrow> burning_error + bytes" where
  "burn_asset_of assets u =
     ok_or (BurnInvalid (''cannot burn an issued UTXO of kind '' @ mu_asset_kind u))
       (if mu_asset_kind u = TICK_ASSET_KIND then bs_tick assets
        else if mu_asset_kind u = ORACLE_VERIFIER_KIND then bs_verifier assets else None)"

definition burn_assets_of :: "asset_db \<Rightarrow> burn_assets" where
  "burn_assets_of assets =
     \<lparr>bs_tick = map_option na_asset_id (get_asset TICK_ASSET_KIND assets),
      bs_verifier = map_option na_asset_id (get_asset ORACLE_VERIFIER_KIND assets)\<rparr>"

text \<open>One burn output per asset, Ticks first.\<close>

definition add_burn ::
  "burn_assets \<Rightarrow> monitored_utxo \<Rightarrow> (bool, bytes \<times> u64) btree \<Rightarrow> burning_error + (bool, bytes \<times> u64) btree" where
  "add_burn assets u burns =
     bind_res (burn_asset_of assets u) (\<lambda>asset.
       let verifier = (mu_asset_kind u = ORACLE_VERIFIER_KIND);
           (asset', amount) = (case bt_get burns verifier of None \<Rightarrow> (asset, 0) | Some e \<Rightarrow> e)
       in bind_res (ok_or (BurnInvalid ''burn amount overflow'') (checked_add amount (mu_amount u))) (\<lambda>amount'.
            Inr (bt_insert verifier (asset', amount') burns)))"

definition burn_outputs :: "burn_assets \<Rightarrow> monitored_utxo list \<Rightarrow> burning_error + (bytes \<times> u64) list" where
  "burn_outputs assets us = bind_res (fold_res (add_burn assets) us []) (\<lambda>burns. Inr (bt_values burns))"

definition issued_program ::
  "elements_env \<Rightarrow> bytes \<Rightarrow> monitored_utxo \<Rightarrow> burning_error + voucher_arguments \<times> bytes option" where
  "issued_program env storm_eye_asset_id u =
     bind_res (ok_or (BurnInvalid ''unsupported issued UTXO authentication method'')
                 (if mu_auth_method u = ''asset-id-auth'' then Some 0
                  else if mu_auth_method u = ''scriptPubKey-auth'' then Some 1
                  else if mu_auth_method u = ''signature-auth'' then Some 2 else None)) (\<lambda>auth_kind.
     bind_res (if mu_asset_kind u = ORACLE_VERIFIER_KIND
               then bind_res (ok_or (BurnInvalid ''indexed Oracle Verifier has no internal key'') (mu_internal_key u)) (\<lambda>k. Inr (Some k))
               else Inr None) (\<lambda>signer.
     bind_res (if length (mu_auth_data u) = 32 then Inr (mu_auth_data u)
               else Inl (BurnInvalid ''invalid 32-byte covenant argument'')) (\<lambda>auth_data.
       map_err BurnInvalid (voucher_program env storm_eye_asset_id auth_kind auth_data signer))))"

text \<open>The program of an issued output, which must be the one under whose script it lies.\<close>

definition issued_network_input ::
  "elements_env \<Rightarrow> bytes \<Rightarrow> monitored_utxo \<Rightarrow> simplicity_network \<Rightarrow> burning_error + voucher_arguments \<times> bytes option" where
  "issued_network_input env storm_eye_asset_id u network =
     bind_res (issued_program env storm_eye_asset_id u) (\<lambda>program.
       if voucher_script env program network \<noteq> mu_script_pubkey u
       then Inl (BurnInvalid ''issued UTXO does not match the voucher covenant'')
       else Inr program)"

definition item_matches :: "burn_assets \<Rightarrow> monitored_utxo \<Rightarrow> utxo \<Rightarrow> burning_error + unit" where
  "item_matches assets tick tick_utxo =
     bind_res (burn_asset_of assets tick) (\<lambda>asset.
       require (utxo_asset tick_utxo = asset \<and> utxo_amount tick_utxo = mu_amount tick \<and>
                to_script (ut_txout tick_utxo) = mu_script_pubkey tick)
         (BurnInvalid ''indexed issued UTXO changed''))"

fun validate_group_items ::
  "elements_env \<Rightarrow> bytes \<Rightarrow> burn_assets \<Rightarrow> (monitored_utxo \<times> utxo) list \<Rightarrow> burning_error + unit" where
  "validate_group_items env storm_eye_asset_id assets [] = Inr ()"
| "validate_group_items env storm_eye_asset_id assets ((tick, tick_utxo) # rest) =
     bind_res (item_matches assets tick tick_utxo) (\<lambda>_.
     bind_res (issued_program env storm_eye_asset_id tick) (\<lambda>_.
       validate_group_items env storm_eye_asset_id assets rest))"

subsection \<open>Fees\<close>

definition div_ceil :: "u64 \<Rightarrow> u64 \<Rightarrow> u64" where
  "div_ceil a b = (if a mod b = 0 then a div b else a div b + 1)"

definition burn_fee :: "u64 \<Rightarrow> nat \<Rightarrow> nat \<Rightarrow> burning_error + u64" where
  "burn_fee minimum_sats items reserve_count =
     (if 2 ^ 64 \<le> items \<or> 2 ^ 64 \<le> reserve_count then Inl (BurnInvalid ''burn fee overflow'')
      else
        bind_res (ok_or (BurnInvalid ''burn fee overflow'')
          (Option.bind (checked_mul BURN_ITEM_WEIGHT (of_nat items)) (\<lambda>i.
           Option.bind (checked_mul BURN_RESERVE_WEIGHT (of_nat reserve_count)) (\<lambda>r.
           Option.bind (checked_add i r) (\<lambda>weight. checked_add weight BURN_BASE_WEIGHT))))) (\<lambda>weight.
        bind_res (ok_or (BurnInvalid ''burn fee overflow'') (checked_mul (div_ceil weight 4) BURN_FEE_RATE_SAT_PER_KVB)) (\<lambda>scaled.
          Inr (max minimum_sats (div_ceil scaled 1000)))))"

definition fee_share :: "u64 \<Rightarrow> nat \<Rightarrow> nat \<Rightarrow> burning_error + u64" where
  "fee_share fee groups index =
     (if 2 ^ 64 \<le> groups then Inl (BurnInvalid ''burn group count overflow'')
      else if groups = 0 then Inl (BurnInvalid ''burn transaction has no reserve groups'')
      else if 2 ^ 64 \<le> index then Inl (BurnInvalid ''burn group index overflow'')
      else Inr (fee div of_nat groups + (if of_nat index < fee mod of_nat groups then 1 else 0)))"

end
