(* ===== verification/Burn_Round.thy ===== *)
theory Burn_Round
  imports Burn_Plan
begin

text \<open>
  How the leader of a block burns expired outputs (\<open>high_storm/burning.rs\<close>): the groups that can be burned, the
  transaction, the search for the largest burn within the weight limit, and the broadcast. A group that can
  never be burned is taken out of the queue, also when the operation fails afterwards.
\<close>

datatype burn_program =
  BurnEye auth_program auth_witness
| BurnVoucher "voucher_arguments \<times> bytes option"
| BurnAccount bytes

record burn_input =
  bi_outpoint :: outpoint
  bi_txout :: tx_out
  bi_program :: burn_program

record burnable =
  bb_group :: burn_group
  bb_reserve :: utxo
  bb_ticks :: "utxo list"

record built_burn =
  bx_inputs :: "burn_input list"
  bx_outputs :: "(bytes \<times> u64 \<times> bytes) list"
  bx_selected :: "outpoint list"
  bx_branch :: bytes

record prepared_burn =
  pb_request :: burn_expired_utxos
  pb_inputs :: "burn_input list"
  pb_pset :: pset
  pb_selected :: "outpoint list"
  pb_network :: simplicity_network
  pb_storm_eye :: network_asset
  pb_group_count :: nat
  pb_max_weight :: nat

definition burn_call :: "int + 'a \<Rightarrow> burning_error + 'a" where
  "burn_call answer = map_err (\<lambda>_. BurnRpc) answer"

definition item_outpoint :: "monitored_utxo \<Rightarrow> outpoint" where
  "item_outpoint u = (mu_txid u, mu_output_index u)"

subsection \<open>The mempool\<close>

definition spent_outpoints :: "transaction \<Rightarrow> outpoint list" where
  "spent_outpoints t = map ti_previous (tx_input t)"

fun burn_spender_in :: "elements_rpc \<Rightarrow> outpoint \<Rightarrow> bytes list \<Rightarrow> burning_error + bytes option" where
  "burn_spender_in rpc outpoint [] = Inr None"
| "burn_spender_in rpc outpoint (txid # txids) =
     bind_res (burn_call (rc_transaction rpc txid)) (\<lambda>t.
       if outpoint \<in> set (spent_outpoints t) then Inr (Some txid) else burn_spender_in rpc outpoint txids)"

definition mempool_spender :: "elements_rpc \<Rightarrow> outpoint \<Rightarrow> burning_error + bytes option" where
  "mempool_spender rpc outpoint = bind_res (burn_call (rc_mempool rpc)) (burn_spender_in rpc outpoint)"

subsection \<open>What can be burned\<close>

definition quarantine_items ::
  "string \<Rightarrow> monitored_utxo list \<Rightarrow> u64 \<Rightarrow> utxo_table \<Rightarrow> utxo_table \<times> (burning_error + unit)" where
  "quarantine_items changed items block_height table =
     (case quarantine_unburnable (map item_outpoint items) block_height table of
        Inl e \<Rightarrow> (table, Inl (BurnDatabase e))
      | Inr (table', quarantined) \<Rightarrow> (table', require (quarantined = length items) (BurnInvalid changed)))"

definition quarantine_group :: "monitored_utxo list \<Rightarrow> u64 \<Rightarrow> utxo_table \<Rightarrow> utxo_table \<times> (burning_error + unit)" where
  "quarantine_group = quarantine_items ''expired item state changed while quarantining a burn group''"

fun quarantine_groups ::
  "monitored_utxo list list \<Rightarrow> u64 \<Rightarrow> utxo_table \<Rightarrow> utxo_table \<times> (burning_error + unit)" where
  "quarantine_groups [] block_height table = (table, Inr ())"
| "quarantine_groups (items # rest) block_height table =
     (case quarantine_group items block_height table of
        (table', Inl e) \<Rightarrow> (table', Inl e)
      | (table', Inr _) \<Rightarrow> quarantine_groups rest block_height table')"

text \<open>The items that are still unspent, with their outputs. An item spent in the mempool is marked.\<close>

fun available_items ::
  "elements_rpc \<Rightarrow> u64 \<Rightarrow> monitored_utxo list \<Rightarrow> utxo_table \<Rightarrow>
   utxo_table \<times> (burning_error + (monitored_utxo \<times> utxo) list)" where
  "available_items rpc block_height [] table = (table, Inr [])"
| "available_items rpc block_height (tick # ticks) table =
     (case map_err BurnHelper (get_optional_explicit_outpoint rpc (item_outpoint tick) True) of
        Inl e \<Rightarrow> (table, Inl e)
      | Inr (Some tick_utxo) \<Rightarrow>
          (case available_items rpc block_height ticks table of
             (table', answer) \<Rightarrow> (table', bind_res answer (\<lambda>rest. Inr ((tick, tick_utxo) # rest))))
      | Inr None \<Rightarrow>
          (case mempool_spender rpc (item_outpoint tick) of
             Inl e \<Rightarrow> (table, Inl e)
           | Inr None \<Rightarrow> available_items rpc block_height ticks table
           | Inr (Some txid) \<Rightarrow>
               (case mark_burning [item_outpoint tick] txid block_height table of
                  Inl e \<Rightarrow> (table, Inl (BurnDatabase e))
                | Inr (table', _) \<Rightarrow> available_items rpc block_height ticks table')))"

record burn_setup =
  bu_elements :: elements_env
  bu_storm_eye :: network_asset
  bu_assets :: burn_assets
  bu_network :: simplicity_network

text \<open>What becomes of one group: \<open>None\<close> when this round leaves it out.\<close>

definition examine_group ::
  "burn_setup \<Rightarrow> elements_rpc \<Rightarrow> u64 \<Rightarrow> burn_group \<Rightarrow> utxo_table \<Rightarrow> utxo_table \<times> (burning_error + burnable option)" where
  "examine_group setup rpc block_height g table =
     (let env = bu_elements setup; eye = na_asset_id (bu_storm_eye setup);
          dropped = (\<lambda>(table', answer). (table', bind_res answer (\<lambda>_. Inr None)))
      in case map_err BurnHelper (get_optional_explicit_outpoint rpc (bg_reserve g) True) of
           Inl e \<Rightarrow> (table, Inl e)
         | Inr None \<Rightarrow>
             (case mempool_spender rpc (bg_reserve g) of
                Inl e \<Rightarrow> (table, Inl e)
              | Inr (Some _) \<Rightarrow> (table, Inr None)
              | Inr None \<Rightarrow> dropped (quarantine_items
                   ''expired Tick state changed while quarantining a missing reserve'' (bg_ticks g) block_height table))
         | Inr (Some reserve) \<Rightarrow>
             if utxo_asset reserve \<noteq> ee_policy_asset env (bu_network setup) \<or>
                to_script (ut_txout reserve) \<noteq> ee_account_script env eye (bg_owner g) (bu_network setup)
             then dropped (quarantine_group (bg_ticks g) block_height table)
             else
               (case available_items rpc block_height (bg_ticks g) table of
                  (table', Inl e) \<Rightarrow> (table', Inl e)
                | (table', Inr []) \<Rightarrow> (table', Inr None)
                | (table', Inr items) \<Rightarrow>
                    (case validate_group_items env eye (bu_assets setup) items of
                       Inr _ \<Rightarrow> (table', Inr (Some \<lparr>bb_group = g\<lparr>bg_ticks := map fst items\<rparr>, bb_reserve = reserve,
                                                  bb_ticks = map snd items\<rparr>))
                     | Inl (BurnInvalid _) \<Rightarrow> dropped (quarantine_group (map fst items) block_height table')
                     | Inl e \<Rightarrow> (table', Inl e))))"

fun examine_groups ::
  "burn_setup \<Rightarrow> elements_rpc \<Rightarrow> u64 \<Rightarrow> burn_group list \<Rightarrow> utxo_table \<Rightarrow> utxo_table \<times> (burning_error + burnable list)" where
  "examine_groups setup rpc block_height [] table = (table, Inr [])"
| "examine_groups setup rpc block_height (g # gs) table =
     (case examine_group setup rpc block_height g table of
        (table', Inl e) \<Rightarrow> (table', Inl e)
      | (table', Inr found) \<Rightarrow>
          (case examine_groups setup rpc block_height gs table' of
             (table'', answer) \<Rightarrow>
               (table'', bind_res answer (\<lambda>rest. Inr (case found of None \<Rightarrow> rest | Some b \<Rightarrow> b # rest)))))"

subsection \<open>The transaction\<close>

fun item_inputs ::
  "burn_setup \<Rightarrow> (monitored_utxo \<times> utxo) list \<Rightarrow> burning_error + burn_input list" where
  "item_inputs setup [] = Inr []"
| "item_inputs setup ((tick, tick_utxo) # rest) =
     bind_res (item_matches (bu_assets setup) tick tick_utxo) (\<lambda>_.
     bind_res (issued_network_input (bu_elements setup) (na_asset_id (bu_storm_eye setup)) tick (bu_network setup)) (\<lambda>program.
     bind_res (item_inputs setup rest) (\<lambda>inputs.
       Inr (\<lparr>bi_outpoint = ut_outpoint tick_utxo, bi_txout = ut_txout tick_utxo, bi_program = BurnVoucher program\<rparr> # inputs))))"

definition reserve_input :: "burnable \<Rightarrow> burn_input" where
  "reserve_input b =
     \<lparr>bi_outpoint = ut_outpoint (bb_reserve b), bi_txout = ut_txout (bb_reserve b),
      bi_program = BurnAccount (bg_owner (bb_group b))\<rparr>"

text \<open>Each reserve pays its share and must keep something.\<close>

definition remaining_reserve :: "u64 \<Rightarrow> nat \<Rightarrow> nat \<Rightarrow> u64 \<Rightarrow> burning_error + u64" where
  "remaining_reserve fee groups index amount =
     bind_res (fee_share fee groups index) (\<lambda>share.
       ok_or ReserveShortfall (Option.bind (checked_sub amount share) (\<lambda>r. if 0 < r then Some r else None)))"

fun reserve_outputs_from ::
  "burn_setup \<Rightarrow> u64 \<Rightarrow> nat \<Rightarrow> nat \<Rightarrow> burnable list \<Rightarrow> burning_error + (bytes \<times> u64 \<times> bytes) list" where
  "reserve_outputs_from setup fee groups index [] = Inr []"
| "reserve_outputs_from setup fee groups index (b # bs) =
     bind_res (remaining_reserve fee groups index (utxo_amount (bb_reserve b))) (\<lambda>remaining.
     bind_res (reserve_outputs_from setup fee groups (Suc index) bs) (\<lambda>rest.
       Inr ((ee_account_script (bu_elements setup) (na_asset_id (bu_storm_eye setup)) (bg_owner (bb_group b)) (bu_network setup),
             remaining, ee_policy_asset (bu_elements setup) (bu_network setup)) # rest)))"

definition build_burn_transaction ::
  "burn_setup \<Rightarrow> utxo \<Rightarrow> burnable list \<Rightarrow> u64 \<Rightarrow> burning_error + built_burn" where
  "build_burn_transaction setup storm_eye_utxo bs minimum_fee =
     (let env = bu_elements setup; items = concat (map (\<lambda>b. zip (bg_ticks (bb_group b)) (bb_ticks b)) bs);
          policy_asset = ee_policy_asset env (bu_network setup) in
      bind_res (burn_fee minimum_fee (sum_list (map (length \<circ> bg_ticks \<circ> bb_group) bs)) (length bs)) (\<lambda>fee.
      bind_res (map_err BurnAsset (storm_eye_program env (bu_storm_eye setup))) (\<lambda>program.
      bind_res (ok_or (BurnInvalid ''Storm Eye contract data is missing'') (na_contract_data (bu_storm_eye setup))) (\<lambda>encoded.
      bind_res (ok_or (BurnInvalid ''invalid Storm Eye contract data'') (ee_decode_contract env encoded)) (\<lambda>data.
      bind_res (item_inputs setup items) (\<lambda>tick_inputs.
      bind_res (burn_outputs (bu_assets setup) (concat (map (bg_ticks \<circ> bb_group) bs))) (\<lambda>burns.
      bind_res (reserve_outputs_from setup fee (length bs) 0 bs) (\<lambda>account_outputs.
        Inr \<lparr>bx_inputs =
               \<lparr>bi_outpoint = ut_outpoint storm_eye_utxo, bi_txout = ut_txout storm_eye_utxo,
                bi_program = BurnEye program
                  \<lparr>aw_root = sd_storm_tree_root data, aw_rescue_height = sd_rescue_height data,
                   aw_signature = replicate 64 0, aw_branch = sd_storm_tree_root data,
                   aw_proof = replicate TREE_DEPTH None, aw_kind = Inclusion 0\<rparr>\<rparr> # tick_inputs @ map reserve_input bs,
             bx_outputs =
               output_from_utxo storm_eye_utxo # map (\<lambda>(asset, amount). (ee_op_return env [], amount, asset)) burns @
               account_outputs @ [([], fee, policy_asset)],
             bx_selected = map (item_outpoint \<circ> fst) items, bx_branch = sd_storm_tree_root data\<rparr>))))))))"

definition burn_signing_hash :: "elements_env \<Rightarrow> pset \<Rightarrow> network_asset \<Rightarrow> simplicity_network \<Rightarrow> burning_error + bytes" where
  "burn_signing_hash env = signing_hash env BurnAsset BurnProgram"

end
