(* ===== verification/Burn_Groups.thy ===== *)
theory Burn_Groups
  imports Burn_Round
begin

text \<open>
  The groups of a burn as a function of the expired items: what \<open>select_groups\<close> returns, that it cannot fail on
  the items the leader keeps, and that a signer who derives the groups again from the items of a burn finds the
  groups it was built from.
\<close>

definition one_owner :: "monitored_utxo list \<Rightarrow> bool" where
  "one_owner us \<longleftrightarrow> (\<forall>u\<in>set us. \<forall>v\<in>set us. reserve_of u = reserve_of v \<longrightarrow>
     mu_account_owner_pubkey u = mu_account_owner_pubkey v)"

definition group_for :: "monitored_utxo list \<Rightarrow> outpoint \<Rightarrow> burn_group" where
  "group_for us r = (let ticks = filter (\<lambda>u. reserve_of u = r) us in
     \<lparr>bg_reserve = r, bg_owner = mu_account_owner_pubkey (hd ticks), bg_ticks = ticks\<rparr>)"

definition group_key :: "burn_group \<Rightarrow> u64 option \<times> outpoint" where
  "group_key g = (oldest g, bg_reserve g)"

definition all_groups :: "monitored_utxo list \<Rightarrow> burn_group list" where
  "all_groups us = sort_key group_key (map (group_for us) (sorted_list_of_set (reserve_of ` set us)))"

lemma group_for_simps [simp]:
  "bg_reserve (group_for us r) = r" "bg_ticks (group_for us r) = filter (\<lambda>u. reserve_of u = r) us"
  by (simp_all add: group_for_def Let_def)

lemma group_for_owner:
  assumes "one_owner us" "u \<in> set us"
  shows "bg_owner (group_for us (reserve_of u)) = mu_account_owner_pubkey u"
proof -
  let ?ticks = "filter (\<lambda>v. reserve_of v = reserve_of u) us"
  have "?ticks \<noteq> []" using assms(2) by (auto simp: filter_empty_conv)
  then have "hd ?ticks \<in> set ?ticks" by (rule hd_in_set)
  then have "hd ?ticks \<in> set us \<and> reserve_of (hd ?ticks) = reserve_of u" by simp
  then have "mu_account_owner_pubkey (hd ?ticks) = mu_account_owner_pubkey u"
    using assms unfolding one_owner_def by blast
  then show ?thesis by (simp add: group_for_def Let_def)
qed

lemma group_for_snoc_other: "reserve_of u \<noteq> r \<Longrightarrow> group_for (us @ [u]) r = group_for us r"
  by (simp add: group_for_def)

lemma group_for_snoc_same:
  assumes "reserve_of u \<in> reserve_of ` set us"
  shows "group_for (us @ [u]) (reserve_of u) =
    (group_for us (reserve_of u))\<lparr>bg_ticks := bg_ticks (group_for us (reserve_of u)) @ [u]\<rparr>"
proof -
  have "filter (\<lambda>v. reserve_of v = reserve_of u) us \<noteq> []" using assms by (force simp: filter_empty_conv)
  then show ?thesis by (simp add: group_for_def Let_def)
qed

lemma group_for_new:
  assumes "reserve_of u \<notin> reserve_of ` set us"
  shows "group_for (us @ [u]) (reserve_of u) =
    \<lparr>bg_reserve = reserve_of u, bg_owner = mu_account_owner_pubkey u, bg_ticks = [u]\<rparr>"
proof -
  have "filter (\<lambda>v. reserve_of v = reserve_of u) us = []"
    using assms by (simp add: filter_empty_conv image_iff) (metis)
  then show ?thesis by (simp add: group_for_def)
qed

definition groups_of :: "monitored_utxo list \<Rightarrow> (outpoint, burn_group) btree \<Rightarrow> bool" where
  "groups_of us m \<longleftrightarrow> bt_wf m \<and>
     (\<forall>r. bt_get m r = (if r \<in> reserve_of ` set us then Some (group_for us r) else None))"

lemma groups_ofD:
  assumes "groups_of us m"
  shows "bt_wf m" and "bt_get m r = (if r \<in> reserve_of ` set us then Some (group_for us r) else None)"
  using assms unfolding groups_of_def by blast+

lemma groups_of_insert:
  assumes "groups_of us m"
  shows "groups_of (us @ [u]) (bt_insert (reserve_of u) (group_for (us @ [u]) (reserve_of u)) m)"
proof -
  have wf: "bt_wf m" and got: "\<And>r. bt_get m r = (if r \<in> reserve_of ` set us then Some (group_for us r) else None)"
    using groups_ofD [OF assms] by blast+
  have "bt_get (bt_insert (reserve_of u) (group_for (us @ [u]) (reserve_of u)) m) r =
      (if r \<in> reserve_of ` set (us @ [u]) then Some (group_for (us @ [u]) r) else None)" for r
    by (cases "r = reserve_of u") (simp_all add: bt_get_insert got group_for_snoc_other [of u r us])
  then show ?thesis using wf unfolding groups_of_def by (blast intro: bt_insert_wf)
qed

lemma add_to_group_step:
  assumes "groups_of us m" and "one_owner us"
  shows "if one_owner (us @ [u]) then \<exists>m'. add_to_group u m = Inr m' \<and> groups_of (us @ [u]) m'
     else \<exists>e. add_to_group u m = Inl e"
proof (cases "reserve_of u \<in> reserve_of ` set us")
  case False
  have other: "reserve_of v \<noteq> reserve_of u" if "v \<in> set us" for v using False that by (metis image_eqI)
  have "one_owner (us @ [u])"
    unfolding one_owner_def
  proof (intro ballI impI)
    fix v w assume vw: "v \<in> set (us @ [u])" "w \<in> set (us @ [u])" and same: "reserve_of v = reserve_of w"
    have "v \<in> set us \<and> w \<in> set us \<or> v = u \<and> w = u"
      using vw same other [of v] other [of w] by auto
    then show "mu_account_owner_pubkey v = mu_account_owner_pubkey w"
      using same assms(2) unfolding one_owner_def by blast
  qed
  moreover have "bt_get m (reserve_of u) = None" by (rule trans [OF groups_ofD(2) [OF assms(1)]]) (simp only: False if_False)
  then have "add_to_group u m = Inr (bt_insert (reserve_of u) (group_for (us @ [u]) (reserve_of u)) m)"
    by (simp add: add_to_group_def group_for_new [OF False])
  ultimately show ?thesis using groups_of_insert [OF assms(1), of u] by simp
next
  case True
  then obtain v where v: "v \<in> set us" "reserve_of v = reserve_of u" by auto
  have owner: "bg_owner (group_for us (reserve_of u)) = mu_account_owner_pubkey v"
    using group_for_owner [OF assms(2) v(1)] v(2) by simp
  have got: "bt_get m (reserve_of u) = Some (group_for us (reserve_of u))"
    by (rule trans [OF groups_ofD(2) [OF assms(1)]]) (simp only: True if_True)
  have same: "one_owner (us @ [u]) \<longleftrightarrow> mu_account_owner_pubkey v = mu_account_owner_pubkey u"
  proof
    show "one_owner (us @ [u]) \<Longrightarrow> mu_account_owner_pubkey v = mu_account_owner_pubkey u"
      using v unfolding one_owner_def by (elim ballE [of _ _ v] ballE [of _ _ u]) auto
    assume eq: "mu_account_owner_pubkey v = mu_account_owner_pubkey u"
    have at_u: "mu_account_owner_pubkey x = mu_account_owner_pubkey u"
      if "x \<in> set (us @ [u])" "reserve_of x = reserve_of u" for x
    proof (cases "x = u")
      case False
      then have "x \<in> set us" using that(1) by simp
      then have "mu_account_owner_pubkey x = mu_account_owner_pubkey v"
        using assms(2) v that(2) unfolding one_owner_def by (metis (no_types))
      then show ?thesis using eq by simp
    qed simp
    show "one_owner (us @ [u])"
      unfolding one_owner_def
    proof (intro ballI impI)
      fix x y assume xy: "x \<in> set (us @ [u])" "y \<in> set (us @ [u])" and same: "reserve_of x = reserve_of y"
      show "mu_account_owner_pubkey x = mu_account_owner_pubkey y"
      proof (cases "reserve_of x = reserve_of u")
        case True
        then show ?thesis using at_u [OF xy(1)] at_u [OF xy(2)] same by simp
      next
        case False
        then have "x \<in> set us" "y \<in> set us" using xy same by auto
        then show ?thesis using same assms(2) unfolding one_owner_def by blast
      qed
    qed
  qed
  have "add_to_group u m = (if mu_account_owner_pubkey v = mu_account_owner_pubkey u
      then Inr (bt_insert (reserve_of u) (group_for (us @ [u]) (reserve_of u)) m)
      else Inl (BurnInvalid ''one burn reserve has conflicting Account owners''))"
    using got owner by (simp add: add_to_group_def Let_def group_for_snoc_same [OF True])
  then show ?thesis using same groups_of_insert [OF assms(1), of u] by simp
qed

lemma one_owner_append: "one_owner (us @ vs) \<Longrightarrow> one_owner us"
  by (auto simp: one_owner_def)

lemma grouped:
  "if one_owner us then \<exists>m. fold_res add_to_group us [] = Inr m \<and> groups_of us m
   else \<exists>e. fold_res add_to_group us [] = Inl e"
proof (induction us rule: rev_induct)
  case Nil
  then show ?case by (simp add: one_owner_def groups_of_def)
next
  case (snoc u us)
  show ?case
  proof (cases "one_owner us")
    case True
    then obtain m where m: "fold_res add_to_group us [] = Inr m" "groups_of us m" using snoc by auto
    show ?thesis using add_to_group_step [OF m(2) True, of u] m(1)
      by (auto simp: fold_res_append split: if_splits)
  next
    case False
    then have "\<not> one_owner (us @ [u])" using one_owner_append by blast
    then show ?thesis using False snoc by (auto simp: fold_res_append)
  qed
qed

lemma groups_of_values:
  assumes "groups_of us m"
  shows "bt_values m = map (group_for us) (sorted_list_of_set (reserve_of ` set us))"
proof -
  have wf: "bt_wf m" and got: "\<And>r. bt_get m r = (if r \<in> reserve_of ` set us then Some (group_for us r) else None)"
    using groups_ofD [OF assms] by blast+
  have keys: "bt_keys m = sorted_list_of_set (reserve_of ` set us)"
  proof (rule strict_sorted_eqI)
    show "sorted_wrt (<) (bt_keys m)" using wf by (simp add: bt_wf_sorted_keys)
    have "r \<in> set (bt_keys m) \<longleftrightarrow> r \<in> reserve_of ` set us" for r
      using got [of r] bt_get_None_iff [of m r] by (cases "r \<in> reserve_of ` set us") simp_all
    then show "set (bt_keys m) = set (sorted_list_of_set (reserve_of ` set us))" by (intro set_eqI) simp
  qed simp
  have "snd e = group_for us (fst e)" if "e \<in> set m" for e
  proof -
    have "bt_get m (fst e) = Some (snd e)" using wf that by (simp add: bt_get_eq_Some_iff)
    then show ?thesis using got [of "fst e"] by (simp split: if_splits)
  qed
  then have "bt_values m = map (group_for us) (bt_keys m)" by (simp add: bt_values_def bt_keys_def)
  then show ?thesis using keys by simp
qed

lemma select_groups_eq:
  "select_groups us k = (if one_owner us then Inr (take_groups k (all_groups us) [] 0)
     else Inl (BurnInvalid ''one burn reserve has conflicting Account owners''))"
proof (cases "one_owner us")
  case True
  then obtain m where m: "fold_res add_to_group us [] = Inr m" "groups_of us m" using grouped [of us] by auto
  have "(\<lambda>g. (oldest g, bg_reserve g)) = group_key" by (simp add: fun_eq_iff group_key_def)
  then show ?thesis using True m groups_of_values [OF m(2)] by (simp add: select_groups_def all_groups_def)
next
  case False
  then obtain e where e: "fold_res add_to_group us [] = Inl e" using grouped [of us] by auto
  have "e = BurnInvalid ''one burn reserve has conflicting Account owners''"
    if "fold_res add_to_group vs m = Inl e" for vs m
    using that by (induction vs arbitrary: m) (auto simp: bind_res_eq_Inl add_to_group_def Let_def split: if_splits)
  then show ?thesis using False e by (simp add: select_groups_def)
qed

subsection \<open>The groups that are taken\<close>

definition groups_ok :: "burn_group list \<Rightarrow> bool" where
  "groups_ok gs \<longleftrightarrow>
     sorted_wrt (\<lambda>g h. group_key g \<le> group_key h) gs \<and> distinct (map bg_reserve gs) \<and>
     (\<forall>g\<in>set gs. bg_ticks g \<noteq> [] \<and>
        (\<forall>u\<in>set (bg_ticks g). reserve_of u = bg_reserve g \<and> mu_account_owner_pubkey u = bg_owner g)) \<and>
     sum_list (map (length \<circ> bg_ticks) gs) \<le> unat MAX_TICKS_PER_BURN"

lemma distinct_map_sorted_wrt: "distinct (map f xs) \<longleftrightarrow> sorted_wrt (\<lambda>x y. f x \<noteq> f y) xs"
  by (induction xs) auto

lemma take_groups_prefix:
  "\<exists>ys. take_groups k gs selected n = selected @ ys \<and> set ys \<subseteq> set gs \<and>
     (\<forall>P. sorted_wrt P gs \<longrightarrow> sorted_wrt P ys) \<and>
     (length selected \<le> unat k \<longrightarrow> length selected + length ys \<le> unat k) \<and>
     (n \<le> unat MAX_TICKS_PER_BURN \<longrightarrow> n + sum_list (map (length \<circ> bg_ticks) ys) \<le> unat MAX_TICKS_PER_BURN)"
proof (induction k gs selected n rule: take_groups.induct)
  case (1 k selected n)
  then show ?case by (intro exI [of _ "[]"]) simp
next
  case (2 k g gs selected n)
  show ?case
  proof (cases "length selected = unat k")
    case True
    then show ?thesis by (intro exI [of _ "[]"]) simp
  next
    case False
    note IH = 2 [OF False]
    show ?thesis
    proof (cases "unat MAX_TICKS_PER_BURN < n + length (bg_ticks g)")
      case True
      from IH(1) [OF True] obtain ys where
        "take_groups k gs selected n = selected @ ys" "set ys \<subseteq> set gs" "\<forall>P. sorted_wrt P gs \<longrightarrow> sorted_wrt P ys"
        "length selected \<le> unat k \<longrightarrow> length selected + length ys \<le> unat k"
        "n \<le> unat MAX_TICKS_PER_BURN \<longrightarrow> n + sum_list (map (length \<circ> bg_ticks) ys) \<le> unat MAX_TICKS_PER_BURN"
        by blast
      then show ?thesis using True False by (intro exI [of _ ys]) (auto simp: comp_def)
    next
      case fits: False
      from IH(2) [OF fits] obtain ys where
        "take_groups k gs (selected @ [g]) (n + length (bg_ticks g)) = (selected @ [g]) @ ys" "set ys \<subseteq> set gs"
        "\<forall>P. sorted_wrt P gs \<longrightarrow> sorted_wrt P ys"
        "length (selected @ [g]) \<le> unat k \<longrightarrow> length (selected @ [g]) + length ys \<le> unat k"
        "n + length (bg_ticks g) \<le> unat MAX_TICKS_PER_BURN \<longrightarrow>
           n + length (bg_ticks g) + sum_list (map (length \<circ> bg_ticks) ys) \<le> unat MAX_TICKS_PER_BURN"
        by blast
      then show ?thesis using fits False by (intro exI [of _ "g # ys"]) (auto simp: comp_def)
    qed
  qed
qed

lemma take_groups_all:
  assumes "\<forall>g\<in>set gs. bg_ticks g \<noteq> []" "n + sum_list (map (length \<circ> bg_ticks) gs) \<le> unat MAX_TICKS_PER_BURN"
    and "length selected \<le> n"
  shows "take_groups MAX_TICKS_PER_BURN gs selected n = selected @ gs"
  using assms
proof (induction gs arbitrary: selected n)
  case (Cons g gs)
  have "0 < length (bg_ticks g)" using Cons.prems(1) by simp
  then have "length selected \<noteq> unat MAX_TICKS_PER_BURN" "\<not> unat MAX_TICKS_PER_BURN < n + length (bg_ticks g)"
    using Cons.prems(2,3) by (auto simp del: length_greater_0_conv)
  moreover have "length (selected @ [g]) \<le> n + length (bg_ticks g)"
    using Cons.prems(3) \<open>0 < length (bg_ticks g)\<close> by (simp del: length_greater_0_conv)
  then have "take_groups MAX_TICKS_PER_BURN gs (selected @ [g]) (n + length (bg_ticks g)) = (selected @ [g]) @ gs"
    using Cons.prems(1,2) by (intro Cons.IH) simp_all
  ultimately show ?case by simp
qed simp

lemma all_groups_facts:
  "sorted_wrt (\<lambda>g h. group_key g \<le> group_key h) (all_groups us)" "distinct (map bg_reserve (all_groups us))"
  "set (all_groups us) = group_for us ` reserve_of ` set us"
proof -
  have "sorted (map group_key (all_groups us))" by (simp add: all_groups_def)
  then show "sorted_wrt (\<lambda>g h. group_key g \<le> group_key h) (all_groups us)" by (simp add: sorted_wrt_map)
  let ?rs = "sorted_list_of_set (reserve_of ` set us)"
  have "mset (map bg_reserve (all_groups us)) = mset (map bg_reserve (map (group_for us) ?rs))"
    unfolding all_groups_def by (simp only: mset_map mset_sort)
  also have "map bg_reserve (map (group_for us) ?rs) = ?rs" by (simp add: comp_def)
  finally show "distinct (map bg_reserve (all_groups us))"
    by (metis mset_eq_imp_distinct_iff distinct_sorted_list_of_set)
  show "set (all_groups us) = group_for us ` reserve_of ` set us" by (simp add: all_groups_def)
qed

lemma selected_groups_ok:
  assumes "select_groups us k = Inr gs"
  shows "groups_ok gs" and "length gs \<le> unat k" and "\<forall>g\<in>set gs. bg_ticks g = filter (\<lambda>u. reserve_of u = bg_reserve g) us"
proof -
  have owner: "one_owner us" and gs: "gs = take_groups k (all_groups us) [] 0"
    using assms by (auto simp: select_groups_eq split: if_splits)
  obtain ys where ys: "take_groups k (all_groups us) [] 0 = [] @ ys" "set ys \<subseteq> set (all_groups us)"
    "\<And>P. sorted_wrt P (all_groups us) \<longrightarrow> sorted_wrt P ys"
    "length ys \<le> unat k" "sum_list (map (length \<circ> bg_ticks) ys) \<le> unat MAX_TICKS_PER_BURN"
    using take_groups_prefix [of k "all_groups us" "[]" 0] by auto
  have eq: "gs = ys" using gs ys(1) by simp
  have member: "\<exists>u\<in>set us. g = group_for us (reserve_of u)" if "g \<in> set gs" for g
    using that ys(2) all_groups_facts(3) [of us] eq by blast
  have "distinct (map bg_reserve ys)"
    using ys(3) [of "\<lambda>g h. bg_reserve g \<noteq> bg_reserve h"] all_groups_facts(2) [of us]
    by (simp add: distinct_map_sorted_wrt)
  moreover have "bg_ticks g \<noteq> [] \<and>
      (\<forall>u\<in>set (bg_ticks g). reserve_of u = bg_reserve g \<and> mu_account_owner_pubkey u = bg_owner g)" if "g \<in> set gs" for g
  proof -
    obtain u where u: "u \<in> set us" "g = group_for us (reserve_of u)" using member [OF \<open>g \<in> set gs\<close>] by blast
    have "mu_account_owner_pubkey v = bg_owner g" if "v \<in> set us" "reserve_of v = reserve_of u" for v
      using group_for_owner [OF owner that(1)] that(2) u(2) by simp
    then show ?thesis using u by (auto simp: filter_empty_conv)
  qed
  ultimately show "groups_ok gs"
    unfolding groups_ok_def using ys(3) all_groups_facts(1) ys(5) eq by blast
  show "length gs \<le> unat k" using ys(4) eq by simp
  show "\<forall>g\<in>set gs. bg_ticks g = filter (\<lambda>u. reserve_of u = bg_reserve g) us"
    using member by force
qed

text \<open>A signer who groups the items of a burn again finds its groups, in their order.\<close>

lemma groups_ok_one_owner:
  assumes "groups_ok gs"
  shows "one_owner (concat (map bg_ticks gs))"
proof -
  have same: "g = h" if "g \<in> set gs" "h \<in> set gs" "bg_reserve g = bg_reserve h" for g h
    using assms that unfolding groups_ok_def by (blast dest: distinct_map [THEN iffD1] inj_onD)
  have ticks: "reserve_of u = bg_reserve g \<and> mu_account_owner_pubkey u = bg_owner g"
    if "g \<in> set gs" "u \<in> set (bg_ticks g)" for g u
    using assms that unfolding groups_ok_def by blast
  show ?thesis
    unfolding one_owner_def
  proof (intro ballI impI)
    fix u v assume "u \<in> set (concat (map bg_ticks gs))" "v \<in> set (concat (map bg_ticks gs))" "reserve_of u = reserve_of v"
    then obtain g h where "g \<in> set gs" "h \<in> set gs" "u \<in> set (bg_ticks g)" "v \<in> set (bg_ticks h)" by auto
    then show "mu_account_owner_pubkey u = mu_account_owner_pubkey v"
      using \<open>reserve_of u = reserve_of v\<close> ticks [of g u] ticks [of h v] same [of g h] by simp
  qed
qed

lemma filter_own_group:
  assumes "groups_ok gs" "g \<in> set gs"
  shows "filter (\<lambda>u. reserve_of u = bg_reserve g) (concat (map bg_ticks gs)) = bg_ticks g"
proof -
  have "distinct (map bg_reserve gs)" and "\<forall>h\<in>set gs. \<forall>u\<in>set (bg_ticks h). reserve_of u = bg_reserve h"
    using assms(1) unfolding groups_ok_def by blast+
  then show ?thesis using assms(2)
  proof (induction gs)
    case (Cons h gs)
    show ?case
    proof (cases "h = g")
      case True
      have "filter (\<lambda>u. reserve_of u = bg_reserve g) (concat (map bg_ticks gs)) = []"
        using Cons.prems(1,2) True by (auto simp: filter_empty_conv) (metis image_eqI)
      moreover have "filter (\<lambda>u. reserve_of u = bg_reserve g) (bg_ticks g) = bg_ticks g"
        using Cons.prems(2) True by (simp add: filter_id_conv)
      ultimately show ?thesis using True by simp
    next
      case False
      then have "g \<in> set gs" using Cons.prems(3) by simp
      then have "bg_reserve h \<noteq> bg_reserve g" using Cons.prems(1) by auto
      then have "filter (\<lambda>u. reserve_of u = bg_reserve g) (bg_ticks h) = []"
        using Cons.prems(2) by (simp add: filter_empty_conv)
      then show ?thesis using Cons.IH Cons.prems \<open>g \<in> set gs\<close> by simp
    qed
  qed simp
qed

lemma group_for_own:
  assumes "groups_ok gs" "g \<in> set gs"
  shows "group_for (concat (map bg_ticks gs)) (bg_reserve g) = g"
proof -
  have "bg_ticks g \<noteq> []" "\<forall>u\<in>set (bg_ticks g). mu_account_owner_pubkey u = bg_owner g"
    using assms unfolding groups_ok_def by blast+
  then have "mu_account_owner_pubkey (hd (bg_ticks g)) = bg_owner g" by simp
  then show ?thesis by (simp add: group_for_def filter_own_group [OF assms])
qed

lemma all_groups_own:
  assumes "groups_ok gs"
  shows "all_groups (concat (map bg_ticks gs)) = gs"
proof -
  let ?us = "concat (map bg_ticks gs)"
  have distinct: "distinct (map bg_reserve gs)" and sorted: "sorted_wrt (\<lambda>g h. group_key g \<le> group_key h) gs"
    and ne: "\<forall>g\<in>set gs. bg_ticks g \<noteq> [] \<and> (\<forall>u\<in>set (bg_ticks g). reserve_of u = bg_reserve g)"
    using assms unfolding groups_ok_def by blast+
  have reserves: "reserve_of ` set ?us = bg_reserve ` set gs"
  proof (intro set_eqI iffI)
    show "r \<in> bg_reserve ` set gs" if "r \<in> reserve_of ` set ?us" for r using that ne by force
    show "r \<in> reserve_of ` set ?us" if "r \<in> bg_reserve ` set gs" for r
    proof -
      from that obtain g where g: "g \<in> set gs" "r = bg_reserve g" by (elim imageE)
      then have "hd (bg_ticks g) \<in> set ?us" "reserve_of (hd (bg_ticks g)) = r" using ne by force+
      then show ?thesis by blast
    qed
  qed
  have "mset (all_groups ?us) = mset (map (group_for ?us) (sorted_list_of_set (bg_reserve ` set gs)))"
    by (simp only: all_groups_def mset_sort reserves)
  also have "\<dots> = image_mset (group_for ?us) (mset (map bg_reserve gs))"
    using distinct sorted_list_of_set_sort_remdups [of "map bg_reserve gs"] by (simp add: distinct_remdups_id)
  also have "\<dots> = mset (map (group_for ?us \<circ> bg_reserve) gs)" by (simp add: image_mset.compositionality)
  also have "map (group_for ?us \<circ> bg_reserve) gs = gs"
    using group_for_own [OF assms] by (intro map_idI) simp
  finally have mset: "mset gs = mset (all_groups ?us)" by simp
  have keys: "distinct (map group_key gs)"
    using distinct by (auto simp: distinct_map group_key_def inj_on_def)
  have "gs = sort_key group_key (all_groups ?us)"
  proof (rule properties_for_sort_key [symmetric])
    show "mset gs = mset (all_groups ?us)" by (rule mset)
    show "sorted (map group_key gs)" using sorted by (simp add: sorted_wrt_map)
    show "filter (\<lambda>x. group_key g = group_key x) gs = filter (\<lambda>x. group_key g = group_key x) (all_groups ?us)"
      if "g \<in> set gs" for g
    proof -
      have one: "filter (\<lambda>x. group_key g = group_key x) xs = [g]"
        if "g \<in> set xs" "distinct (map group_key xs)" for xs
        using that by (induction xs) (auto simp: filter_empty_conv dest!: sym [of "group_key g"] intro: rev_image_eqI)
      have "distinct (map group_key (all_groups ?us))"
        using mset keys by (metis mset_map mset_eq_imp_distinct_iff)
      moreover have "g \<in> set (all_groups ?us)" using mset that by (metis set_mset_mset)
      ultimately show ?thesis using one [OF that keys] one by simp
    qed
  qed
  also have "sort_key group_key (all_groups ?us) = all_groups ?us"
    using all_groups_facts(1) [of ?us] by (intro sort_key_id_if_sorted) (simp add: sorted_wrt_map)
  finally show ?thesis by simp
qed

lemma select_own_groups:
  assumes "groups_ok gs"
  shows "select_groups (concat (map bg_ticks gs)) MAX_TICKS_PER_BURN = Inr gs"
proof -
  have "take_groups MAX_TICKS_PER_BURN gs [] 0 = [] @ gs"
    using assms unfolding groups_ok_def by (intro take_groups_all) auto
  then show ?thesis
    by (simp add: select_groups_eq groups_ok_one_owner [OF assms] all_groups_own [OF assms])
qed

subsection \<open>Conflicting reserves\<close>

lemma owners_by_reserve_get:
  "case bt_get (owners_by_reserve us) r of
     None \<Rightarrow> r \<notin> reserve_of ` set us
   | Some s \<Rightarrow> s = mu_account_owner_pubkey ` {u \<in> set us. reserve_of u = r}"
proof (induction us rule: rev_induct)
  case (snoc u us)
  let ?S = "\<lambda>us. mu_account_owner_pubkey ` {u \<in> set us. reserve_of u = r}"
  have old: "(case bt_get (owners_by_reserve us) r of None \<Rightarrow> {} | Some s \<Rightarrow> s) = ?S us"
    using snoc by (auto split: option.splits)
  have step: "owners_by_reserve (us @ [u]) = bt_insert (reserve_of u) (insert (mu_account_owner_pubkey u)
      (case bt_get (owners_by_reserve us) (reserve_of u) of None \<Rightarrow> {} | Some s \<Rightarrow> s)) (owners_by_reserve us)"
    by (simp add: owners_by_reserve_def)
  show ?case
  proof (cases "reserve_of u = r")
    case True
    have "?S (us @ [u]) = insert (mu_account_owner_pubkey u) (?S us)" using True by auto
    then show ?thesis unfolding step using old True by (simp add: bt_get_insert)
  next
    case False
    then have "?S (us @ [u]) = ?S us" "r \<in> reserve_of ` set (us @ [u]) \<longleftrightarrow> r \<in> reserve_of ` set us" by auto
    moreover have "bt_get (owners_by_reserve (us @ [u])) r = bt_get (owners_by_reserve us) r"
      unfolding step using False by (simp add: bt_get_insert)
    ultimately show ?thesis using snoc by (simp only: split: option.splits)
  qed
qed (simp add: owners_by_reserve_def)

lemma kept_items_one_owner: "one_owner (fst (split_conflicting_reserves us))"
  unfolding one_owner_def
proof (intro ballI impI)
  fix u v assume uv: "u \<in> set (fst (split_conflicting_reserves us))" "v \<in> set (fst (split_conflicting_reserves us))"
    and same: "reserve_of u = reserve_of v"
  let ?s = "mu_account_owner_pubkey ` {w \<in> set us. reserve_of w = reserve_of u}"
  have mem: "u \<in> set us" "v \<in> set us" and calm: "\<not> conflicted (owners_by_reserve us) u"
    using uv by (auto simp: split_conflicting_reserves_def Let_def)
  have "bt_get (owners_by_reserve us) (reserve_of u) = Some ?s"
    using owners_by_reserve_get [of "reserve_of u" us] mem(1) by (simp split: option.splits)
  then have "card ?s \<le> 1" using calm by (simp add: conflicted_def)
  moreover have "finite ?s" by simp
  moreover have "mu_account_owner_pubkey u \<in> ?s" "mu_account_owner_pubkey v \<in> ?s" using mem same by auto
  ultimately show "mu_account_owner_pubkey u = mu_account_owner_pubkey v"
    using card_le_Suc0_iff_eq [of ?s] unfolding One_nat_def by blast
qed

end
