(* ===== verification/Burn_Search.thy ===== *)
theory Burn_Search
  imports Burn_Round Round_Build
begin

text \<open>
  The burn of a round (\<open>prepare_round\<close>, \<open>finalize_and_broadcast\<close> and the observation of burns in
  \<open>high_storm/burning.rs\<close>). As for issuance rounds the number of groups is found by a binary search, a partial
  function that always returns.
\<close>

definition finalize_burn_program ::
  "elements_env \<Rightarrow> bytes \<Rightarrow> pset \<Rightarrow> burn_program \<Rightarrow> nat \<Rightarrow> simplicity_network \<Rightarrow> string + bytes list" where
  "finalize_burn_program env storm_eye_asset_id p program index network =
     (case program of
        BurnEye auth w \<Rightarrow> ee_finalize_auth env auth w p index network
      | BurnVoucher v \<Rightarrow> ee_finalize_voucher env v p index network
      | BurnAccount owner \<Rightarrow> ee_finalize_account env storm_eye_asset_id owner p index network)"

fun finalize_burn_inputs ::
  "elements_env \<Rightarrow> bytes \<Rightarrow> simplicity_network \<Rightarrow> (string \<Rightarrow> burning_error) \<Rightarrow> (nat \<times> burn_program) list \<Rightarrow> pset \<Rightarrow>
   burning_error + pset" where
  "finalize_burn_inputs env storm_eye_asset_id network err [] p = Inr p"
| "finalize_burn_inputs env storm_eye_asset_id network err ((index, program) # rest) p =
     bind_res (map_err err (finalize_burn_program env storm_eye_asset_id p program index network)) (\<lambda>w.
       finalize_burn_inputs env storm_eye_asset_id network err rest (set_final_witness p index w))"

definition burn_weight :: "elements_env \<Rightarrow> prepared_burn \<Rightarrow> burning_error + nat" where
  "burn_weight env b =
     (let p = pb_pset b in
      if ps_inputs p = [] then Inl (BurnHelper (RequestInvalid ''cannot estimate a transaction without inputs''))
      else
        bind_res (finalize_burn_inputs env (na_asset_id (pb_storm_eye b)) (pb_network b)
                    (\<lambda>e. BurnHelper (RequestInvalid (''failed to estimate covenant input weight: '' @ e)))
                    (drop 1 (zip [0..<length (pb_inputs b)] (map bi_program (pb_inputs b))))
                    (set_final_witness p 0 (map (\<lambda>n. replicate n 0) STORM_EYE_AUTH_WITNESS_TEMPLATE))) (\<lambda>p'.
        bind_res (map_err (\<lambda>e. BurnHelper (RequestPset e)) (ee_extract_tx env p')) (\<lambda>t. Inr (ee_weight env t))))"

subsection \<open>One candidate\<close>

definition burn_asset :: "asset_db \<Rightarrow> string \<Rightarrow> burning_error + network_asset" where
  "burn_asset assets kind = ok_or (BurnMissingAsset kind) (get_asset kind assets)"

definition burn_candidate ::
  "elements_env \<Rightarrow> asset_db \<Rightarrow> simplicity_network \<Rightarrow> protocol_config \<Rightarrow> elements_rpc \<Rightarrow> u64 \<Rightarrow> usize \<Rightarrow> usize \<Rightarrow> nat \<Rightarrow>
   utxo_table \<Rightarrow> utxo_table \<times> (burning_error + prepared_burn option)" where
  "burn_candidate env assets network config rpc block_height lane group_limit max_weight table =
     (let (expired, conflicting) = split_conflicting_reserves (list_expired (- 1) table) in
      case quarantine_groups (bt_values conflicting) block_height table of
        (table1, Inl e) \<Rightarrow> (table1, Inl e)
      | (table1, Inr _) \<Rightarrow>
          (case select_groups expired group_limit of
             Inl e \<Rightarrow> (table1, Inl e)
           | Inr [] \<Rightarrow> (table1, Inr None)
           | Inr groups \<Rightarrow>
               (case burn_asset assets STORM_EYE_KIND of
                  Inl e \<Rightarrow> (table1, Inl e)
                | Inr storm_eye \<Rightarrow>
                    (let setup = \<lparr>bu_elements = env, bu_storm_eye = storm_eye, bu_assets = burn_assets_of assets,
                                   bu_network = network\<rparr> in
                     case examine_groups setup rpc block_height groups table1 of
                       (table2, Inl e) \<Rightarrow> (table2, Inl e)
                     | (table2, Inr []) \<Rightarrow> (table2, Inr None)
                     | (table2, Inr bs) \<Rightarrow>
                         (table2,
                          bind_res (map_err BurnHelper (find_contract_utxo rpc (na_contract_script storm_eye)
                                      (Some (na_asset_id storm_eye)) (NetworkLeader lane))) (\<lambda>storm_eye_utxo.
                          bind_res (build_burn_transaction setup storm_eye_utxo bs (pc_burn_fee config)) (\<lambda>built.
                          let p = ee_build_pset env (map (\<lambda>i. (bi_outpoint i, bi_txout i, None)) (bx_inputs built)) (bx_outputs built) in
                          bind_res (burn_signing_hash env p storm_eye network) (\<lambda>hash.
                            Inr (Some \<lparr>pb_request = \<lparr>be_tx = ee_encode_pset env p, be_signing_hash = hash, be_branch = bx_branch built,
                                          be_block_height = block_height, be_chain_tip = None\<rparr>,
                                       pb_inputs = bx_inputs built, pb_pset = p, pb_selected = bx_selected built,
                                       pb_network = network, pb_storm_eye = storm_eye, pb_group_count = length bs,
                                       pb_max_weight = max_weight\<rparr>)))))))))"

subsection \<open>The search\<close>

record burn_search =
  bf_lower :: usize
  bf_upper :: usize
  bf_limit :: usize
  bf_best :: "prepared_burn option"
  bf_attempt :: nat
  bf_table :: utxo_table

datatype burn_step = BurnStop "burning_error + prepared_burn option" | BurnContinue

text \<open>The difference wraps when the interval has become empty, right before the loop ends.\<close>

definition burn_next :: "usize \<Rightarrow> usize \<Rightarrow> burn_search \<Rightarrow> burn_search" where
  "burn_next lower upper s =
     s\<lparr>bf_lower := lower, bf_upper := upper, bf_limit := lower + (upper - lower) div 2,
       bf_attempt := Suc (bf_attempt s)\<rparr>"

definition burn_search_step ::
  "elements_env \<Rightarrow> (usize \<Rightarrow> nat \<Rightarrow> utxo_table \<Rightarrow> utxo_table \<times> (burning_error + prepared_burn option)) \<Rightarrow> nat \<Rightarrow>
   burn_search \<Rightarrow> burn_search \<times> burn_step" where
  "burn_search_step env candidate_of max_weight s =
     (case candidate_of (bf_limit s) (bf_attempt s) (bf_table s) of
        (table, Inl e) \<Rightarrow>
          (let s = s\<lparr>bf_table := table\<rparr> in
           if e = ReserveShortfall \<and> 1 < bf_limit s then (burn_next (bf_lower s) (bf_limit s - 1) s, BurnContinue)
           else (s, BurnStop (Inl e)))
      | (table, Inr None) \<Rightarrow> (s\<lparr>bf_table := table\<rparr>, BurnStop (Inr (bf_best s)))
      | (table, Inr (Some candidate)) \<Rightarrow>
          (let s = s\<lparr>bf_table := table\<rparr>; group_count = of_nat (pb_group_count candidate) :: usize in
           case burn_weight env candidate of
             Inl e \<Rightarrow> (s, BurnStop (Inl e))
           | Inr weight \<Rightarrow>
               if weight \<le> max_weight then
                 (let s = s\<lparr>bf_best := Some candidate\<rparr> in
                  if group_count < bf_limit s \<or> bf_limit s = MAX_TICKS_PER_BURN then (s, BurnStop (Inr (Some candidate)))
                  else (burn_next (group_count + 1) (bf_upper s) s, BurnContinue))
               else if group_count = 1 then
                 (s, BurnStop (if MAX_STANDARD_TX_WEIGHT < weight
                               then Inl (BurnInvalid (''one burn group transaction weight '' @ decimal weight @
                                      '' exceeds the standard limit''))
                               else Inr (Some (candidate\<lparr>pb_max_weight := MAX_STANDARD_TX_WEIGHT\<rparr>))))
               else (burn_next (bf_lower s) (group_count - 1) s, BurnContinue)))"

partial_function (option) burn_rounds ::
  "(burn_search \<Rightarrow> burn_search \<times> burn_step) \<Rightarrow> burn_search \<Rightarrow>
   (utxo_table \<times> (burning_error + prepared_burn option)) option" where
  "burn_rounds next_step s =
     (if bf_lower s \<le> bf_upper s then
        (case next_step s of
           (s', BurnStop answer) \<Rightarrow> Some (bf_table s', answer)
         | (s', BurnContinue) \<Rightarrow> burn_rounds next_step s')
      else Some (bf_table s, Inr (bf_best s)))"

text \<open>Attempt k asks \<open>rpcs k\<close>.\<close>

definition prepare_burn ::
  "elements_env \<Rightarrow> asset_db \<Rightarrow> simplicity_network \<Rightarrow> protocol_config \<Rightarrow> (nat \<Rightarrow> elements_rpc) \<Rightarrow> u64 \<Rightarrow> usize \<Rightarrow> nat \<Rightarrow>
   utxo_table \<Rightarrow> (utxo_table \<times> (burning_error + prepared_burn option)) option" where
  "prepare_burn env assets network config rpcs block_height lane max_weight table =
     burn_rounds (burn_search_step env
         (\<lambda>limit k. burn_candidate env assets network config (rpcs k) block_height lane limit max_weight) max_weight)
       \<lparr>bf_lower = 1, bf_upper = MAX_TICKS_PER_BURN, bf_limit = MAX_TICKS_PER_BURN, bf_best = None, bf_attempt = 0,
        bf_table = table\<rparr>"

subsection \<open>The broadcast\<close>

record burned_utxos =
  bn_txid :: bytes
  bn_utxos :: "outpoint list"
  bn_block_height :: u64

definition burn_programs :: "auth_witness \<Rightarrow> burn_input list \<Rightarrow> burn_program list" where
  "burn_programs w inputs =
     (case map bi_program inputs of
        BurnEye program _ # rest \<Rightarrow> BurnEye program w # rest
      | programs \<Rightarrow> programs)"

definition final_burn_transaction ::
  "elements_env \<Rightarrow> prepared_burn \<Rightarrow> signing_result \<Rightarrow> merkle_proof \<Rightarrow> burning_error + transaction" where
  "final_burn_transaction env prepared signing proof =
     (let storm_eye = pb_storm_eye prepared; branch = sr_branch signing; hash = be_signing_hash (pb_request prepared) in
      bind_res (ok_or (BurnInvalid ''missing Storm Eye signature'')
                  (case sr_signatures signing of [] \<Rightarrow> None | s # _ \<Rightarrow> Some s)) (\<lambda>signature.
      if \<not> ee_valid_x_only env branch then Inl (BurnInvalid ''invalid Storm Eye signing branch'')
      else if \<not> ee_valid_signature env signature then Inl (BurnInvalid ''invalid Storm Eye signature'')
      else if \<not> ee_verify_schnorr env signature hash branch
      then Inl (BurnInvalid ''Storm Eye signature verification failed'')
      else
        bind_res (ok_or (BurnInvalid ''Storm Eye contract data is missing'') (na_contract_data storm_eye)) (\<lambda>encoded.
        bind_res (ok_or (BurnInvalid ''invalid Storm Eye contract data'') (ee_decode_contract env encoded)) (\<lambda>data.
        if \<not> verify_branch (ee_sha256 env) (sd_storm_tree_root data) branch proof
        then Inl (BurnInvalid ''signing branch is not included in the Storm Eye root'')
        else
          bind_res (map_err BurnHelper (pack_proof proof)) (\<lambda>packed.
          let programs = burn_programs
                \<lparr>aw_root = sd_storm_tree_root data, aw_rescue_height = sd_rescue_height data,
                 aw_signature = signature, aw_branch = branch, aw_proof = packed, aw_kind = Inclusion 0\<rparr>
                (pb_inputs prepared) in
          bind_res (finalize_burn_inputs env (na_asset_id storm_eye) (pb_network prepared)
                      (\<lambda>e. BurnInvalid (''failed to finalize burn covenant input: '' @ e))
                      (zip [0..<length programs] programs) (pb_pset prepared)) (\<lambda>final.
          bind_res (burn_signing_hash env final storm_eye (pb_network prepared)) (\<lambda>final_hash.
          if final_hash \<noteq> hash then Inl (BurnInvalid ''final burn signing hash changed'')
          else
            bind_res (map_err BurnPset (ee_extract_tx env final)) (\<lambda>final_tx.
            if pb_max_weight prepared < ee_weight env final_tx
            then Inl (BurnInvalid ''final burn transaction weight exceeds round limit'')
            else if \<not> ee_verify_amounts env final_tx (map bi_txout (pb_inputs prepared))
            then Inl (BurnInvalid ''failed to verify burn amounts'')
            else Inr final_tx))))))))"

definition finalize_burn ::
  "elements_env \<Rightarrow> elements_rpc \<Rightarrow> prepared_burn \<Rightarrow> signing_result \<Rightarrow> merkle_proof \<Rightarrow> u64 \<Rightarrow> utxo_table \<Rightarrow>
   utxo_table \<times> (burning_error + burned_utxos)" where
  "finalize_burn env rpc prepared signing proof block_height table =
     (case bind_res (final_burn_transaction env prepared signing proof) (\<lambda>final_tx.
             bind_res (burn_call (rc_send rpc (ee_encode_tx env final_tx))) (\<lambda>txid.
               if txid \<noteq> ee_txid env final_tx then Inl (BurnInvalid ''broadcast transaction id mismatch'')
               else Inr txid)) of
        Inl e \<Rightarrow> (table, Inl e)
      | Inr txid \<Rightarrow>
          (case mark_burning (pb_selected prepared) txid block_height table of
             Inl e \<Rightarrow> (table, Inl (BurnDatabase e))
           | Inr (table', marked) \<Rightarrow>
               (table',
                if marked \<noteq> length (pb_selected prepared)
                then Inl (BurnInvalid ''expired Tick state changed while signing'')
                else Inr \<lparr>bn_txid = txid, bn_utxos = pb_selected prepared, bn_block_height = block_height\<rparr>)))"

subsection \<open>Burns of the others\<close>

text \<open>A notification names at most a hundred different outputs, all spent by a transaction of the mempool.\<close>

definition observe_burn_broadcast ::
  "elements_rpc \<Rightarrow> burned_utxos \<Rightarrow> utxo_table \<Rightarrow> utxo_table \<times> (burning_error + nat)" where
  "observe_burn_broadcast rpc notification table =
     (let notified = remdups_adj (sort (bn_utxos notification)) in
      case (if bn_utxos notification = [] \<or> unat MAX_TICKS_PER_BURN < length (bn_utxos notification)
            then Inl (BurnInvalid ''burn notification has an invalid Tick count'')
            else if length notified \<noteq> length (bn_utxos notification)
            then Inl (BurnInvalid ''burn notification contains duplicate Tick outpoints'')
            else
              bind_res (burn_call (rc_mempool rpc)) (\<lambda>mempool.
                if bn_txid notification \<notin> set mempool
                then Inl (BurnInvalid ''notified burn transaction is not in the local mempool'')
                else
                  bind_res (burn_call (rc_transaction rpc (bn_txid notification))) (\<lambda>t.
                    require (set notified \<subseteq> set (spent_outpoints t))
                      (BurnInvalid ''burn notification contains an outpoint not spent by its transaction'')))) of
        Inl e \<Rightarrow> (table, Inl e)
      | Inr _ \<Rightarrow>
          (case mark_burning notified (bn_txid notification) (bn_block_height notification) table of
             Inl e \<Rightarrow> (table, Inl (BurnDatabase e))
           | Inr (table', updated) \<Rightarrow>
               (table',
                if updated \<noteq> length notified
                then Inl (BurnInvalid ''notified Tick state does not match the local burn queue'')
                else Inr (length notified))))"

text \<open>A burn whose transaction neither waits nor is known any more is given back to the queue.\<close>

fun release_each ::
  "elements_rpc \<Rightarrow> bytes list \<Rightarrow> u64 \<Rightarrow> bytes list \<Rightarrow> nat \<Rightarrow> utxo_table \<Rightarrow> utxo_table \<times> (burning_error + nat)" where
  "release_each rpc mempool block_height [] released table = (table, Inr released)"
| "release_each rpc mempool block_height (txid # txids) released table =
     (if txid \<in> set mempool then release_each rpc mempool block_height txids released table
      else
        case rc_transaction rpc txid of
          Inr _ \<Rightarrow> release_each rpc mempool block_height txids released table
        | Inl e \<Rightarrow>
            if e \<noteq> - 5 then (table, Inl BurnRpc)
            else
              (case release_burning txid block_height table of
                 Inl e \<Rightarrow> (table, Inl (BurnDatabase e))
               | Inr (table', n) \<Rightarrow> release_each rpc mempool block_height txids (released + n) table'))"

definition release_vanished_burns ::
  "elements_rpc \<Rightarrow> u64 \<Rightarrow> utxo_table \<Rightarrow> utxo_table \<times> (burning_error + nat)" where
  "release_vanished_burns rpc block_height table =
     (case burning_txids table of
        [] \<Rightarrow> (table, Inr 0)
      | txids \<Rightarrow>
          (case burn_call (rc_mempool rpc) of
             Inl e \<Rightarrow> (table, Inl e)
           | Inr mempool \<Rightarrow> release_each rpc mempool block_height txids 0 table))"

fun reconcile_each ::
  "elements_rpc \<Rightarrow> outpoint list \<Rightarrow> u64 \<Rightarrow> bytes list \<Rightarrow> nat \<Rightarrow> utxo_table \<Rightarrow> utxo_table \<times> (burning_error + nat)" where
  "reconcile_each rpc expired block_height [] updated table = (table, Inr updated)"
| "reconcile_each rpc expired block_height (txid # txids) updated table =
     (case burn_call (rc_transaction rpc txid) of
        Inl e \<Rightarrow> (table, Inl e)
      | Inr t \<Rightarrow>
          (case filter (\<lambda>o'. o' \<in> set expired) (remdups_adj (sort (spent_outpoints t))) of
             [] \<Rightarrow> reconcile_each rpc expired block_height txids updated table
           | selected \<Rightarrow>
               (case mark_burning selected txid block_height table of
                  Inl e \<Rightarrow> (table, Inl (BurnDatabase e))
                | Inr (table', marked) \<Rightarrow>
                    if marked \<noteq> length selected
                    then (table', Inl (BurnInvalid ''expired Tick state changed during mempool reconciliation''))
                    else reconcile_each rpc expired block_height txids (updated + length selected) table')))"

definition reconcile_mempool :: "elements_rpc \<Rightarrow> u64 \<Rightarrow> utxo_table \<Rightarrow> utxo_table \<times> (burning_error + nat)" where
  "reconcile_mempool rpc block_height table =
     (case list_expired (- 1) table of
        [] \<Rightarrow> (table, Inr 0)
      | expired \<Rightarrow>
          (case burn_call (rc_mempool rpc) of
             Inl e \<Rightarrow> (table, Inl e)
           | Inr mempool \<Rightarrow> reconcile_each rpc (map item_outpoint expired) block_height mempool 0 table))"

end
