(* ===== verification/Burn_Layout.thy ===== *)
theory Burn_Layout
  imports Burn_Round
begin

text \<open>
  What a signer checks of a burn before it signs (\<open>validate_layout\<close> and \<open>validate_request\<close> in
  \<open>high_storm/burning.rs\<close>).
\<close>

text \<open>The inputs after the Storm Eye, as long as they are expired items.\<close>

fun leading_items :: "(outpoint, monitored_utxo) btree \<Rightarrow> pset_input list \<Rightarrow> monitored_utxo list" where
  "leading_items expired [] = []"
| "leading_items expired (i # is) =
     (case bt_get expired (pi_previous_txid i, pi_previous_index i) of
        None \<Rightarrow> []
      | Some tick \<Rightarrow> tick # leading_items expired is)"

fun check_items ::
  "burn_setup \<Rightarrow> pset \<Rightarrow> nat \<Rightarrow> monitored_utxo list \<Rightarrow> burning_error + unit" where
  "check_items setup p index [] = Inr ()"
| "check_items setup p index (tick # ticks) =
     bind_res (map_err BurnHelper (witness_utxo p index)) (\<lambda>input.
     bind_res (burn_asset_of (bu_assets setup) tick) (\<lambda>asset.
     bind_res (map_err BurnHelper (require_explicit_utxo input asset (mu_script_pubkey tick) ''issued UTXO'')) (\<lambda>_.
     bind_res (issued_network_input (bu_elements setup) (na_asset_id (bu_storm_eye setup)) tick (bu_network setup)) (\<lambda>_.
       if explicit_value (to_value input) \<noteq> Some (mu_amount tick)
       then Inl (BurnInvalid ''issued UTXO input does not match indexed state'')
       else check_items setup p (Suc index) ticks))))"

fun check_burns :: "elements_env \<Rightarrow> pset \<Rightarrow> nat \<Rightarrow> (bytes \<times> u64) list \<Rightarrow> burning_error + unit" where
  "check_burns env p index [] = Inr ()"
| "check_burns env p index ((asset, amount) # burns) =
     (if length (ps_outputs p) \<le> index then Inl (BurnInvalid ''burn output is missing'')
      else
        (let out = ps_outputs p ! index in
         if po_asset out \<noteq> Some asset \<or> po_amount out \<noteq> Some amount \<or> po_script out \<noteq> ee_op_return env []
         then Inl (BurnInvalid ''issued UTXOs are not aggregated into one empty OP_RETURN per asset'')
         else check_burns env p (Suc index) burns))"

fun check_burn_reserves ::
  "burn_setup \<Rightarrow> pset \<Rightarrow> u64 \<Rightarrow> nat \<Rightarrow> nat \<Rightarrow> nat \<Rightarrow> nat \<Rightarrow> burn_group list \<Rightarrow> burning_error + unit" where
  "check_burn_reserves setup p fee groups first_input first_output offset [] = Inr ()"
| "check_burn_reserves setup p fee groups first_input first_output offset (g # gs) =
     (let env = bu_elements setup; network = bu_network setup; input = ps_inputs p ! (first_input + offset);
          policy_asset = ee_policy_asset env network;
          account_script = ee_account_script env (na_asset_id (bu_storm_eye setup)) (bg_owner g) network;
          out = ps_outputs p ! (first_output + offset) in
      if (pi_previous_txid input, pi_previous_index input) \<noteq> bg_reserve g
      then Inl (BurnInvalid ''burn reserve input does not match indexed state'')
      else
        bind_res (map_err BurnHelper (witness_utxo p (first_input + offset))) (\<lambda>reserve.
        bind_res (map_err BurnHelper (require_explicit_utxo reserve policy_asset account_script ''Account reserve'')) (\<lambda>_.
        bind_res (fee_share fee groups offset) (\<lambda>share.
        bind_res (ok_or (BurnInvalid ''burn reserve cannot cover its fee share'')
                    (Option.bind (explicit_value (to_value reserve)) (\<lambda>amount.
                       Option.bind (checked_sub amount share) (\<lambda>r. if 0 < r then Some r else None)))) (\<lambda>remaining.
          if po_asset out \<noteq> Some policy_asset \<or> po_amount out \<noteq> Some remaining \<or> po_script out \<noteq> account_script
          then Inl (BurnInvalid ''remaining burn reserve is not returned to its Account'')
          else check_burn_reserves setup p fee groups first_input first_output (Suc offset) gs)))))"

definition validate_burn_layout ::
  "burn_setup \<Rightarrow> pset \<Rightarrow> burn_expired_utxos \<Rightarrow> monitored_utxo list \<Rightarrow> u64 \<Rightarrow> burning_error + unit" where
  "validate_burn_layout setup p request expired minimum_fee =
     (let env = bu_elements setup; storm_eye = bu_storm_eye setup; network = bu_network setup in
      if length (ps_inputs p) < 3 \<or> length (ps_outputs p) < 4 then Inl (BurnInvalid ''burn transaction is incomplete'')
      else
        bind_res (map_err BurnHelper (witness_utxo p 0)) (\<lambda>eye_input.
        bind_res (map_err BurnHelper (require_explicit_utxo eye_input (na_asset_id storm_eye)
                    (na_contract_script storm_eye) ''Storm Eye'')) (\<lambda>_.
        bind_res (map_err BurnHelper (require_preserved_output env p 0 eye_input ''Storm Eye'')) (\<lambda>_.
        let ticks = leading_items (bt_of_list (map (\<lambda>u. (item_outpoint u, u)) expired)) (drop 1 (ps_inputs p)) in
        if ticks = [] \<or> unat MAX_TICKS_PER_BURN < length ticks
        then Inl (BurnInvalid ''burn transaction has an invalid Tick count'')
        else
          bind_res (check_items setup p 1 ticks) (\<lambda>_.
          bind_res (burn_outputs (bu_assets setup) ticks) (\<lambda>burns.
          bind_res (check_burns env p 1 burns) (\<lambda>_.
          bind_res (select_groups ticks MAX_TICKS_PER_BURN) (\<lambda>groups.
          let item_count = sum_list (map (length \<circ> bg_ticks) groups) in
          bind_res (burn_fee minimum_fee item_count (length groups)) (\<lambda>fee.
          if length (ps_inputs p) \<noteq> 1 + item_count + length groups \<or>
             length (ps_outputs p) \<noteq> 2 + length burns + length groups
          then Inl (BurnInvalid ''burn transaction has unexpected inputs or outputs'')
          else
            bind_res (check_burn_reserves setup p fee (length groups) (1 + item_count) (1 + length burns) 0 groups) (\<lambda>_.
            let miner_fee = last (ps_outputs p) in
            if po_asset miner_fee \<noteq> Some (ee_policy_asset env network) \<or> po_amount miner_fee \<noteq> Some fee \<or>
               po_script miner_fee \<noteq> []
            then Inl (BurnInvalid ''invalid burn miner fee output'')
            else
              bind_res (burn_signing_hash env p storm_eye network) (\<lambda>hash.
                require (hash = be_signing_hash request) (BurnInvalid ''burn signing hash mismatch''))))))))))))"

text \<open>Every input is compared with the live output first.\<close>

fun check_burn_inputs :: "elements_rpc \<Rightarrow> pset_input list \<Rightarrow> burning_error + unit" where
  "check_burn_inputs rpc [] = Inr ()"
| "check_burn_inputs rpc (i # is) =
     bind_res (map_err BurnHelper (get_explicit_outpoint rpc (pi_previous_txid i, pi_previous_index i))) (\<lambda>actual.
     bind_res (ok_or (BurnHelper (RequestInvalid ''input has no witness UTXO'')) (pi_witness_utxo i)) (\<lambda>w.
       if w \<noteq> ut_txout actual then Inl (BurnInvalid ''burn input does not match the live UTXO'')
       else check_burn_inputs rpc is))"

definition validate_burn_request ::
  "elements_env \<Rightarrow> asset_db \<Rightarrow> simplicity_network \<Rightarrow> protocol_config \<Rightarrow> elements_rpc \<Rightarrow> utxo_table \<Rightarrow>
   burn_expired_utxos \<Rightarrow> burning_error + unit" where
  "validate_burn_request env assets network config rpc table request =
     bind_res (ok_or (BurnMissingAsset STORM_EYE_KIND) (get_asset STORM_EYE_KIND assets)) (\<lambda>storm_eye.
     bind_res (ok_or BurnTransaction (ee_decode_pset env (be_tx request))) (\<lambda>p.
     bind_res (check_burn_inputs rpc (ps_inputs p)) (\<lambda>_.
       validate_burn_layout
         \<lparr>bu_elements = env, bu_storm_eye = storm_eye, bu_assets = burn_assets_of assets, bu_network = network\<rparr>
         p request (list_expired (- 1) table) (pc_burn_fee config))))"

end
