(* ===== verification/Burn_Claims.thy ===== *)
theory Burn_Claims
  imports Burn_Groups Burn_Search Burn_Layout Utxo_Claims
begin

text \<open>
  The burn of a leader and the signers: what the leader prepares is accepted by every signer who sees the same
  chain and the same monitored outputs, and what a signer accepts burns exactly its items and takes no more of a
  reserve than its share of the fee.
\<close>

subsection \<open>What the leader takes\<close>

definition found_at :: "elements_rpc \<Rightarrow> outpoint \<Rightarrow> utxo \<Rightarrow> bool" where
  "found_at rpc outpoint u \<longleftrightarrow> get_optional_explicit_outpoint rpc outpoint True = Inr (Some u)"

definition burnable_ok :: "burn_setup \<Rightarrow> elements_rpc \<Rightarrow> burnable \<Rightarrow> bool" where
  "burnable_ok setup rpc b \<longleftrightarrow>
     list_all2 (\<lambda>u x. found_at rpc (item_outpoint u) x) (bg_ticks (bb_group b)) (bb_ticks b) \<and>
     found_at rpc (bg_reserve (bb_group b)) (bb_reserve b) \<and>
     utxo_asset (bb_reserve b) = ee_policy_asset (bu_elements setup) (bu_network setup) \<and>
     to_script (ut_txout (bb_reserve b)) = ee_account_script (bu_elements setup) (na_asset_id (bu_storm_eye setup))
       (bg_owner (bb_group b)) (bu_network setup)"

definition unspent_items :: "elements_rpc \<Rightarrow> monitored_utxo list \<Rightarrow> bool" where
  "unspent_items rpc us \<longleftrightarrow> (\<forall>u\<in>set us. get_optional_explicit_outpoint rpc (item_outpoint u) True \<noteq> Inr None)"

lemma found_at_explicit:
  assumes "found_at rpc outpoint u"
  shows "ut_outpoint u = outpoint" "to_asset (ut_txout u) = ExplicitField (utxo_asset u)"
    "to_value (ut_txout u) = ExplicitField (utxo_amount u)"
    "get_explicit_outpoint rpc outpoint = Inr u"
  using assms
  by (auto simp: found_at_def get_optional_explicit_outpoint_def bind_res_eq_Inr explicit_outpoint_def utxo_asset_def
      utxo_amount_def get_explicit_outpoint_def split: option.splits)

lemma available_items_all:
  assumes "available_items rpc h ticks table = (table', Inr items)" "unspent_items rpc ticks"
  shows "map fst items = ticks \<and> (\<forall>(u, x)\<in>set items. found_at rpc (item_outpoint u) x)"
  using assms
proof (induction ticks arbitrary: table items)
  case (Cons u ticks)
  have later: "unspent_items rpc ticks" and now: "get_optional_explicit_outpoint rpc (item_outpoint u) True \<noteq> Inr None"
    using Cons.prems(2) by (auto simp: unspent_items_def)
  obtain x where x: "get_optional_explicit_outpoint rpc (item_outpoint u) True = Inr (Some x)"
    using Cons.prems(1) now
    by (cases "get_optional_explicit_outpoint rpc (item_outpoint u) True") (auto simp: map_err_def split: option.splits)
  obtain rest where "available_items rpc h ticks table = (table', Inr rest)" "items = (u, x) # rest"
    using Cons.prems(1) x by (auto simp: map_err_def bind_res_eq_Inr split: prod.splits)
  then show ?case using Cons.IH [OF _ later] x by (auto simp: found_at_def)
qed simp

lemma quarantine_drops:
  "(case answer of (t', a) \<Rightarrow> (t', bind_res a (\<lambda>_. Inr None))) \<noteq> (table', Inr (Some b))"
  by (auto simp: bind_res_eq_Inr split: prod.splits)

lemma examine_group_found:
  assumes "examine_group setup rpc h g table = (table', Inr (Some b))" "unspent_items rpc (bg_ticks g)"
  shows "bb_group b = g \<and> burnable_ok setup rpc b"
proof -
  let ?env = "bu_elements setup" and ?eye = "na_asset_id (bu_storm_eye setup)"
  obtain reserve where reserve: "found_at rpc (bg_reserve g) reserve"
    using assms(1) by (auto simp: examine_group_def Let_def map_err_def found_at_def quarantine_drops
      split: sum.splits option.splits)
  have found: "map_err BurnHelper (get_optional_explicit_outpoint rpc (bg_reserve g) True) = Inr (Some reserve)"
    using reserve by (simp add: found_at_def map_err_def)
  have ok: "utxo_asset reserve = ee_policy_asset ?env (bu_network setup)"
    "to_script (ut_txout reserve) = ee_account_script ?env ?eye (bg_owner g) (bu_network setup)"
    using assms(1) unfolding examine_group_def Let_def found by (auto simp: quarantine_drops split: if_splits)
  obtain table1 answer where items: "available_items rpc h (bg_ticks g) table = (table1, answer)" by fastforce
  obtain i rest where answer: "answer = Inr (i # rest)"
    using assms(1) ok items unfolding examine_group_def Let_def found
    by (cases answer) (auto split: list.splits)
  have b: "b = \<lparr>bb_group = g\<lparr>bg_ticks := map fst (i # rest)\<rparr>, bb_reserve = reserve, bb_ticks = map snd (i # rest)\<rparr>"
    using assms(1) ok items answer unfolding examine_group_def Let_def found
    by (auto simp: quarantine_drops split: sum.splits burning_error.splits)
  from available_items_all [OF items [unfolded answer] assms(2)]
  have all: "map fst (i # rest) = bg_ticks g" "\<forall>(u, x)\<in>set (i # rest). found_at rpc (item_outpoint u) x" by auto
  have "list_all2 (\<lambda>u x. found_at rpc (item_outpoint u) x) (bg_ticks g) (map snd (i # rest))"
    using all(2) unfolding all(1) [symmetric] by (simp only: list.rel_map) (rule list.rel_refl_strong, auto)
  moreover have "bb_group b = g" using b all(1) by simp
  ultimately show ?thesis using reserve ok b all(1) by (simp add: burnable_ok_def)
qed

lemma examine_groups_found:
  assumes "examine_groups setup rpc h gs table = (table', Inr bs)" "\<forall>g\<in>set gs. unspent_items rpc (bg_ticks g)"
  shows "(\<forall>b\<in>set bs. burnable_ok setup rpc b) \<and> set (map bb_group bs) \<subseteq> set gs \<and>
    (\<forall>P. sorted_wrt P gs \<longrightarrow> sorted_wrt P (map bb_group bs)) \<and>
    sum_list (map (length \<circ> bg_ticks) (map bb_group bs)) \<le> sum_list (map (length \<circ> bg_ticks) gs)"
  using assms
proof (induction gs arbitrary: table bs)
  case (Cons g gs)
  obtain table1 found where first: "examine_group setup rpc h g table = (table1, Inr found)"
    using Cons.prems(1) by (auto split: prod.splits sum.splits)
  obtain rest where rest: "examine_groups setup rpc h gs table1 = (table', Inr rest)"
    "bs = (case found of None \<Rightarrow> rest | Some b \<Rightarrow> b # rest)"
    using Cons.prems(1) first by (auto simp: bind_res_eq_Inr split: prod.splits)
  note IH = Cons.IH [OF rest(1)]
  have later: "\<forall>g\<in>set gs. unspent_items rpc (bg_ticks g)" and now: "unspent_items rpc (bg_ticks g)"
    using Cons.prems(2) by auto
  show ?case
  proof (cases found)
    case None
    then show ?thesis using IH later rest(2) by auto
  next
    case (Some b)
    then have "bb_group b = g" "burnable_ok setup rpc b" using examine_group_found first now by blast+
    then show ?thesis using IH later rest(2) Some by auto
  qed
qed simp

lemma groups_ok_kept:
  assumes "groups_ok gs" "set hs \<subseteq> set gs" "\<And>P. sorted_wrt P gs \<Longrightarrow> sorted_wrt P hs"
    and "sum_list (map (length \<circ> bg_ticks) hs) \<le> sum_list (map (length \<circ> bg_ticks) gs)"
  shows "groups_ok hs"
  using assms unfolding groups_ok_def distinct_map_sorted_wrt by (meson le_trans subset_iff)

subsection \<open>What a signer checks\<close>

definition item_input_ok :: "burn_setup \<Rightarrow> pset \<Rightarrow> nat \<Rightarrow> monitored_utxo \<Rightarrow> bool" where
  "item_input_ok setup p i tick \<longleftrightarrow>
     (\<exists>input asset program. witness_utxo p i = Inr input \<and> burn_asset_of (bu_assets setup) tick = Inr asset \<and>
        to_asset input = ExplicitField asset \<and> to_script input = mu_script_pubkey tick \<and>
        to_value input = ExplicitField (mu_amount tick) \<and>
        issued_network_input (bu_elements setup) (na_asset_id (bu_storm_eye setup)) tick (bu_network setup) = Inr program)"

definition burn_output_ok :: "elements_env \<Rightarrow> pset \<Rightarrow> nat \<Rightarrow> bytes \<times> u64 \<Rightarrow> bool" where
  "burn_output_ok env p i burn \<longleftrightarrow>
     i < length (ps_outputs p) \<and> po_asset (ps_outputs p ! i) = Some (fst burn) \<and>
     po_amount (ps_outputs p ! i) = Some (snd burn) \<and> po_script (ps_outputs p ! i) = ee_op_return env []"

definition account_of :: "burn_setup \<Rightarrow> burn_group \<Rightarrow> bytes" where
  "account_of setup g = ee_account_script (bu_elements setup) (na_asset_id (bu_storm_eye setup)) (bg_owner g) (bu_network setup)"

definition policy_of :: "burn_setup \<Rightarrow> bytes" where
  "policy_of setup = ee_policy_asset (bu_elements setup) (bu_network setup)"

definition reserve_ok :: "burn_setup \<Rightarrow> pset \<Rightarrow> u64 \<Rightarrow> nat \<Rightarrow> nat \<Rightarrow> nat \<Rightarrow> nat \<Rightarrow> burn_group \<Rightarrow> bool" where
  "reserve_ok setup p fee groups i j k g \<longleftrightarrow>
     (pi_previous_txid (ps_inputs p ! i), pi_previous_index (ps_inputs p ! i)) = bg_reserve g \<and>
     (\<exists>reserve amount share. witness_utxo p i = Inr reserve \<and> to_asset reserve = ExplicitField (policy_of setup) \<and>
        to_script reserve = account_of setup g \<and> to_value reserve = ExplicitField amount \<and>
        fee_share fee groups k = Inr share \<and> share < amount \<and>
        po_asset (ps_outputs p ! j) = Some (policy_of setup) \<and> po_amount (ps_outputs p ! j) = Some (amount - share) \<and>
        po_script (ps_outputs p ! j) = account_of setup g)"

lemma map_err_Inr [simp]: "map_err f r = Inr x \<longleftrightarrow> r = Inr x"
  by (cases r) (simp_all add: map_err_def)

lemma check_item_Inr:
  "check_items setup p index (tick # ticks) = Inr u \<longleftrightarrow>
     item_input_ok setup p index tick \<and> check_items setup p (Suc index) ticks = Inr u"
  by (auto simp: bind_res_eq_Inr item_input_ok_def require_explicit_utxo_Inr split: if_splits)

lemma check_items_Inr:
  "check_items setup p index ticks = Inr u \<longleftrightarrow> (\<forall>k<length ticks. item_input_ok setup p (index + k) (ticks ! k))"
proof (induction ticks arbitrary: index)
  case (Cons tick ticks)
  show ?case unfolding check_item_Inr Cons.IH by (simp add: All_less_Suc2)
qed simp

lemma check_burns_Inr:
  "check_burns env p index burns = Inr u \<longleftrightarrow> (\<forall>k<length burns. burn_output_ok env p (index + k) (burns ! k))"
proof (induction burns arbitrary: index)
  case (Cons burn burns)
  have "check_burns env p index (burn # burns) = Inr u \<longleftrightarrow>
      burn_output_ok env p index burn \<and> check_burns env p (Suc index) burns = Inr u"
    by (cases burn) (auto simp: burn_output_ok_def Let_def not_le split: if_splits)
  then show ?case unfolding Cons.IH by (simp add: All_less_Suc2)
qed simp

lemma remaining_amount:
  "Option.bind (checked_sub amount share) (\<lambda>r. if 0 < r then Some r else None) = Some r \<longleftrightarrow>
   share < amount \<and> r = amount - (share :: u64)"
  by (auto simp: checked_sub_def bind_eq_Some_conv word_greater_zero_iff split: if_splits)

lemma remaining_of_field:
  "Option.bind (explicit_value c) (\<lambda>amount. Option.bind (checked_sub amount share) (\<lambda>r. if 0 < r then Some r else None)) = Some r \<longleftrightarrow>
   (\<exists>amount. c = ExplicitField amount \<and> share < amount \<and> r = amount - (share :: u64))"
  by (cases c) (auto simp: remaining_amount)

lemma check_reserve_Inr:
  "check_burn_reserves setup p fee groups i j k (g # gs) = Inr u \<longleftrightarrow>
     reserve_ok setup p fee groups (i + k) (j + k) k g \<and> check_burn_reserves setup p fee groups i j (Suc k) gs = Inr u"
  unfolding check_burn_reserves.simps Let_def policy_of_def [symmetric] account_of_def [symmetric] reserve_ok_def
  by (auto simp: bind_res_eq_Inr require_explicit_utxo_Inr remaining_of_field split: if_splits)

lemma check_burn_reserves_Inr:
  "check_burn_reserves setup p fee groups i j k gs = Inr u \<longleftrightarrow>
     (\<forall>n<length gs. reserve_ok setup p fee groups (i + (k + n)) (j + (k + n)) (k + n) (gs ! n))"
proof (induction gs arbitrary: k)
  case (Cons g gs)
  show ?case unfolding check_reserve_Inr Cons.IH by (simp add: All_less_Suc2)
qed simp

definition layout_ok ::
  "burn_setup \<Rightarrow> pset \<Rightarrow> burn_expired_utxos \<Rightarrow> monitored_utxo list \<Rightarrow> u64 \<Rightarrow> monitored_utxo list \<Rightarrow> burn_group list \<Rightarrow>
   (bytes \<times> u64) list \<Rightarrow> u64 \<Rightarrow> bool" where
  "layout_ok setup p request expired minimum_fee ticks groups burns fee \<longleftrightarrow>
     3 \<le> length (ps_inputs p) \<and> 4 \<le> length (ps_outputs p) \<and>
     (\<exists>eye. witness_utxo p 0 = Inr eye \<and>
        require_explicit_utxo eye (na_asset_id (bu_storm_eye setup)) (na_contract_script (bu_storm_eye setup)) ''Storm Eye'' = Inr () \<and>
        require_preserved_output (bu_elements setup) p 0 eye ''Storm Eye'' = Inr ()) \<and>
     leading_items (bt_of_list (map (\<lambda>u. (item_outpoint u, u)) expired)) (drop 1 (ps_inputs p)) = ticks \<and>
     ticks \<noteq> [] \<and> length ticks \<le> unat MAX_TICKS_PER_BURN \<and>
     (\<forall>k<length ticks. item_input_ok setup p (1 + k) (ticks ! k)) \<and>
     burn_outputs (bu_assets setup) ticks = Inr burns \<and>
     (\<forall>k<length burns. burn_output_ok (bu_elements setup) p (1 + k) (burns ! k)) \<and>
     select_groups ticks MAX_TICKS_PER_BURN = Inr groups \<and>
     burn_fee minimum_fee (sum_list (map (length \<circ> bg_ticks) groups)) (length groups) = Inr fee \<and>
     length (ps_inputs p) = 1 + sum_list (map (length \<circ> bg_ticks) groups) + length groups \<and>
     length (ps_outputs p) = 2 + length burns + length groups \<and>
     (\<forall>k<length groups. reserve_ok setup p fee (length groups) (1 + sum_list (map (length \<circ> bg_ticks) groups) + k)
        (1 + length burns + k) k (groups ! k)) \<and>
     po_asset (last (ps_outputs p)) = Some (policy_of setup) \<and> po_amount (last (ps_outputs p)) = Some fee \<and>
     po_script (last (ps_outputs p)) = [] \<and>
     burn_signing_hash (bu_elements setup) p (bu_storm_eye setup) (bu_network setup) = Inr (be_signing_hash request)"

lemma validate_burn_layout_Inr:
  "validate_burn_layout setup p request expired minimum_fee = Inr u \<longleftrightarrow>
     (\<exists>ticks groups burns fee. layout_ok setup p request expired minimum_fee ticks groups burns fee)"
  unfolding validate_burn_layout_def layout_ok_def Let_def policy_of_def [symmetric]
  by (auto simp: bind_res_eq_Inr check_items_Inr check_burns_Inr check_burn_reserves_Inr not_less
      simp del: One_nat_def plus_nat.simps add_Suc add_Suc_right split: if_splits)

subsection \<open>Shares and sums\<close>

definition fee_part :: "nat \<Rightarrow> nat \<Rightarrow> nat \<Rightarrow> nat" where
  "fee_part fee groups k = fee div groups + (if k < fee mod groups then 1 else 0)"

lemma fee_parts_sum:
  assumes "0 < groups"
  shows "(\<Sum>k<groups. fee_part fee groups k) = fee"
proof -
  have "(\<Sum>k<groups. if k < fee mod groups then 1 else 0 :: nat) = card ({..<groups} \<inter> {k. k < fee mod groups})"
    by (simp add: sum.If_cases)
  also have "{..<groups} \<inter> {k. k < fee mod groups} = {..<fee mod groups}"
    using mod_less_divisor [OF assms, of fee] by auto
  finally have "(\<Sum>k<groups. fee_part fee groups k) = groups * (fee div groups) + fee mod groups"
    by (simp add: fee_part_def sum.distrib)
  then show ?thesis by simp
qed

lemma fee_share_part:
  assumes "fee_share fee groups k = Inr share" "k < groups"
  shows "unat share = fee_part (unat fee) groups k"
proof -
  have small: "groups < 2 ^ 64" "k < 2 ^ 64" using assms by (auto simp: fee_share_def split: if_splits)
  have words: "unat (of_nat groups :: u64) = groups" "unat (of_nat k :: u64) = k" using small by (simp_all add: unat_of_nat)
  have share: "share = fee div of_nat groups + (if of_nat k < fee mod of_nat groups then 1 else 0)"
    using assms small by (auto simp: fee_share_def split: if_splits)
  have "fee_part (unat fee) groups k \<le> unat fee"
    using fee_parts_sum [of groups "unat fee"] assms(2)
      member_le_sum [of k "{..<groups}" "fee_part (unat fee) groups"] by simp
  then have "fee_part (unat fee) groups k < 2 ^ 64" using unsigned_less [of fee, where 'a = nat] by simp
  then show ?thesis
    using words by (auto simp: share fee_part_def word_less_nat_alt unat_mod unat_div unat_word_ariths)
qed

lemma burn_fee_least: "burn_fee minimum items reserve_count = Inr fee \<Longrightarrow> minimum \<le> fee"
  by (auto simp: burn_fee_def bind_res_eq_Inr split: if_splits)

definition is_verifier :: "monitored_utxo \<Rightarrow> bool" where
  "is_verifier u \<longleftrightarrow> mu_asset_kind u = ORACLE_VERIFIER_KIND"

definition burned_of :: "monitored_utxo list \<Rightarrow> bool \<Rightarrow> nat" where
  "burned_of us v = sum_list (map (\<lambda>u. unat (mu_amount u)) (filter (\<lambda>u. is_verifier u = v) us))"

definition kinds_of :: "monitored_utxo list \<Rightarrow> bool list" where
  "kinds_of us = filter (\<lambda>v. v \<in> is_verifier ` set us) [False, True]"

definition kind_asset :: "burn_assets \<Rightarrow> bool \<Rightarrow> bytes option" where
  "kind_asset assets v = (if v then bs_verifier assets else bs_tick assets)"

definition burns_sum :: "burn_assets \<Rightarrow> monitored_utxo list \<Rightarrow> (bool, bytes \<times> u64) btree \<Rightarrow> bool" where
  "burns_sum assets us m \<longleftrightarrow> bt_wf m \<and> (\<forall>v. case bt_get m v of
       None \<Rightarrow> v \<notin> is_verifier ` set us
     | Some (asset, amount) \<Rightarrow> v \<in> is_verifier ` set us \<and> kind_asset assets v = Some asset \<and> unat amount = burned_of us v)"

lemma burned_of_snoc: "burned_of (us @ [u]) v = burned_of us v + (if is_verifier u = v then unat (mu_amount u) else 0)"
  by (simp add: burned_of_def)

lemma burned_of_none: "v \<notin> is_verifier ` set us \<Longrightarrow> burned_of us v = 0"
  by (force simp: burned_of_def filter_empty_conv)

lemma add_burn_sum:
  assumes "add_burn assets u m = Inr m'" "burns_sum assets us m"
  shows "burns_sum assets (us @ [u]) m'"
proof -
  have at: "case bt_get m v of
       None \<Rightarrow> v \<notin> is_verifier ` set us
     | Some (asset, amount) \<Rightarrow> v \<in> is_verifier ` set us \<and> kind_asset assets v = Some asset \<and> unat amount = burned_of us v" for v
    using assms(2) unfolding burns_sum_def by blast
  obtain asset where asset: "burn_asset_of assets u = Inr asset"
    using assms(1) by (auto simp: add_burn_def bind_res_eq_Inr)
  obtain asset' amount where entry: "(case bt_get m (is_verifier u) of None \<Rightarrow> (asset, 0) | Some e \<Rightarrow> e) = (asset', amount)"
    by fastforce
  obtain amount' where sum: "checked_add amount (mu_amount u) = Some amount'"
    and m': "m' = bt_insert (is_verifier u) (asset', amount') m"
    using assms(1) asset entry unfolding add_burn_def is_verifier_def [symmetric] by (auto simp: bind_res_eq_Inr Let_def)
  have kind: "kind_asset assets (is_verifier u) = Some asset"
    using asset by (auto simp: burn_asset_of_def kind_asset_def is_verifier_def TICK_ASSET_KIND_def ORACLE_VERIFIER_KIND_def
        split: if_splits)
  have "kind_asset assets (is_verifier u) = Some asset' \<and> unat amount = burned_of us (is_verifier u)"
    using at [of "is_verifier u"] entry kind burned_of_none [of "is_verifier u" us] by (auto split: option.splits)
  moreover have "unat amount' = unat amount + unat (mu_amount u)" using sum by (simp add: checked_add_Some_iff)
  ultimately have "case bt_get m' v of
       None \<Rightarrow> v \<notin> is_verifier ` set (us @ [u])
     | Some (asset, amount) \<Rightarrow> v \<in> is_verifier ` set (us @ [u]) \<and> kind_asset assets v = Some asset \<and>
         unat amount = burned_of (us @ [u]) v" for v
    using at [of v] m' by (cases "v = is_verifier u") (auto simp: bt_get_insert burned_of_snoc split: option.splits)
  moreover have "bt_wf m'" using assms(2) m' by (simp add: burns_sum_def bt_insert_wf)
  ultimately show ?thesis unfolding burns_sum_def by blast
qed

lemma burn_outputs_sums:
  assumes "burn_outputs assets us = Inr burns"
  shows "list_all2 (\<lambda>v (asset, amount). kind_asset assets v = Some asset \<and> unat amount = burned_of us v) (kinds_of us) burns"
proof -
  obtain m where m: "fold_res (add_burn assets) us [] = Inr m" "burns = bt_values m"
    using assms by (auto simp: burn_outputs_def bind_res_eq_Inr)
  have "burns_sum assets us m"
    using m(1)
  proof (induction us arbitrary: m rule: rev_induct)
    case Nil
    then show ?case by (simp add: burns_sum_def)
  next
    case (snoc u us)
    then obtain m1 where "fold_res (add_burn assets) us [] = Inr m1" "add_burn assets u m1 = Inr m"
      by (auto simp: fold_res_append bind_res_eq_Inr)
    then show ?case using snoc.IH add_burn_sum by blast
  qed
  then have wf: "bt_wf m" and at: "\<And>v. case bt_get m v of
       None \<Rightarrow> v \<notin> is_verifier ` set us
     | Some (asset, amount) \<Rightarrow> v \<in> is_verifier ` set us \<and> kind_asset assets v = Some asset \<and> unat amount = burned_of us v"
    unfolding burns_sum_def by blast+
  have keys: "bt_keys m = kinds_of us"
  proof (rule strict_sorted_eqI)
    show "sorted_wrt (<) (bt_keys m)" using wf by (simp add: bt_wf_sorted_keys)
    show "sorted_wrt (<) (kinds_of us)" by (simp add: kinds_of_def)
    have "v \<in> set (bt_keys m) \<longleftrightarrow> v \<in> is_verifier ` set us" for v
      using at [of v] bt_get_None_iff [of m v] by (cases "bt_get m v") (simp_all split: prod.splits)
    moreover have both: "set [False, True] = UNIV" by auto
    have "set (kinds_of us) = is_verifier ` set us" unfolding kinds_of_def set_filter both by simp
    ultimately show "set (bt_keys m) = set (kinds_of us)" by (intro set_eqI) simp
  qed
  have "list_all2 (\<lambda>v (asset, amount). kind_asset assets v = Some asset \<and> unat amount = burned_of us v) (map fst m) (map snd m)"
    unfolding list.rel_map
  proof (rule list.rel_refl_strong)
    fix e assume "e \<in> set m"
    then have "bt_get m (fst e) = Some (snd e)" using wf by (simp add: bt_get_eq_Some_iff)
    then show "case snd e of (asset, amount) \<Rightarrow> kind_asset assets (fst e) = Some asset \<and> unat amount = burned_of us (fst e)"
      using at [of "fst e"] by (simp split: prod.splits)
  qed
  then show ?thesis using keys m(2) by (simp add: bt_keys_def bt_values_def)
qed

subsection \<open>What an accepted burn does\<close>

definition input_at :: "pset_input \<Rightarrow> outpoint" where
  "input_at i = (pi_previous_txid i, pi_previous_index i)"

definition input_amount :: "pset \<Rightarrow> nat \<Rightarrow> nat" where
  "input_amount p i =
     (case witness_utxo p i of
        Inl _ \<Rightarrow> 0
      | Inr u \<Rightarrow> (case explicit_value (to_value u) of None \<Rightarrow> 0 | Some v \<Rightarrow> unat v))"

definition output_amount :: "pset \<Rightarrow> nat \<Rightarrow> nat" where
  "output_amount p j = (case po_amount (ps_outputs p ! j) of None \<Rightarrow> 0 | Some v \<Rightarrow> unat v)"

definition output_pays :: "pset \<Rightarrow> nat \<Rightarrow> bytes option \<Rightarrow> bytes \<Rightarrow> nat \<Rightarrow> bool" where
  "output_pays p j asset script amount \<longleftrightarrow> j < length (ps_outputs p) \<and> asset \<noteq> None \<and>
     po_asset (ps_outputs p ! j) = asset \<and> po_script (ps_outputs p ! j) = script \<and> output_amount p j = amount"

lemma leading_items_prefix:
  "list_all2 (\<lambda>i t. bt_get m (input_at i) = Some t) (take (length (leading_items m is)) is) (leading_items m is)"
  by (induction m "is" rule: leading_items.induct) (auto simp: input_at_def split: option.splits)

lemma expired_item:
  assumes "bt_get (bt_of_list (map (\<lambda>u. (item_outpoint u, u)) expired)) k = Some t"
  shows "item_outpoint t = k \<and> t \<in> set expired"
  using map_of_SomeD [OF assms [unfolded bt_get_of_list]] by auto

lemma sum_list_one:
  "distinct rs \<Longrightarrow> sum_list (map (\<lambda>x. if r = x then a else {#}) rs) = (if r \<in> set rs then a else {#})"
  by (induction rs) auto

lemma mset_of_groups:
  assumes "distinct rs" "reserve_of ` set us \<subseteq> set rs"
  shows "mset (concat (map (\<lambda>r. filter (\<lambda>u. reserve_of u = r) us) rs)) = mset us"
  using assms(2)
proof (induction us)
  case (Cons u us)
  have one: "sum_list (map (\<lambda>r. if reserve_of u = r then {#u#} else {#}) rs) = {#u#}" if "reserve_of u \<in> set rs"
    using that sum_list_one [OF assms(1), of "reserve_of u" "{#u#}"] by simp
  have "mset (concat (map (\<lambda>r. filter (\<lambda>v. reserve_of v = r) (u # us)) rs)) =
      sum_list (map (\<lambda>r. (if reserve_of u = r then {#u#} else {#}) + mset (filter (\<lambda>v. reserve_of v = r) us)) rs)"
    unfolding mset_concat map_map by (intro arg_cong [where f = sum_list] map_cong) auto
  also have "\<dots> = {#u#} + mset (concat (map (\<lambda>r. filter (\<lambda>v. reserve_of v = r) us) rs))"
    using Cons.prems one by (simp add: sum_list_addf mset_concat comp_def)
  finally show ?case using Cons by simp
qed (simp add: mset_concat comp_def)

lemma all_groups_partition: "mset (concat (map bg_ticks (all_groups us))) = mset us"
proof -
  let ?rs = "sorted_list_of_set (reserve_of ` set us)"
  have "mset (concat (map bg_ticks (all_groups us))) = sum_mset (image_mset (mset \<circ> bg_ticks) (mset (all_groups us)))"
    by (simp add: mset_concat sum_mset_sum_list flip: mset_map)
  also have "mset (all_groups us) = mset (map (group_for us) ?rs)" by (simp only: all_groups_def mset_sort)
  also have "sum_mset (image_mset (mset \<circ> bg_ticks) \<dots>) = mset (concat (map (\<lambda>r. filter (\<lambda>u. reserve_of u = r) us) ?rs))"
    by (simp add: mset_concat sum_mset_sum_list comp_def flip: mset_map)
  also have "\<dots> = mset us" by (rule mset_of_groups) simp_all
  finally show ?thesis .
qed

lemma selected_all:
  assumes "select_groups us MAX_TICKS_PER_BURN = Inr gs" "length us \<le> unat MAX_TICKS_PER_BURN"
  shows "mset (concat (map bg_ticks gs)) = mset us" "sum_list (map (length \<circ> bg_ticks) gs) = length us" "groups_ok gs"
proof -
  have total: "sum_list (map (length \<circ> bg_ticks) (all_groups us)) = length us"
    using arg_cong [OF all_groups_partition [of us], of size] by (simp add: length_concat comp_def)
  have "\<forall>g\<in>set (all_groups us). bg_ticks g \<noteq> []"
    unfolding all_groups_facts(3) by (auto simp: filter_empty_conv)
  then have "take_groups MAX_TICKS_PER_BURN (all_groups us) [] 0 = [] @ all_groups us"
    using total assms(2) by (intro take_groups_all) simp_all
  then have gs: "gs = all_groups us" using assms(1) by (simp add: select_groups_eq split: if_splits)
  show "mset (concat (map bg_ticks gs)) = mset us" using gs all_groups_partition by simp
  show "sum_list (map (length \<circ> bg_ticks) gs) = length us" using gs total by simp
  show "groups_ok gs" by (rule selected_groups_ok(1) [OF assms(1)])
qed

lemma reserve_ok_amounts:
  assumes "reserve_ok setup p fee groups i j k g" "k < groups"
  shows "input_at (ps_inputs p ! i) = bg_reserve g \<and> i < length (ps_inputs p) \<and>
    po_asset (ps_outputs p ! j) = Some (policy_of setup) \<and> po_script (ps_outputs p ! j) = account_of setup g \<and>
    input_amount p i = output_amount p j + fee_part (unat fee) groups k \<and> 0 < output_amount p j"
proof -
  from assms(1) obtain reserve amount share where
    at: "input_at (ps_inputs p ! i) = bg_reserve g" "witness_utxo p i = Inr reserve" "to_value reserve = ExplicitField amount"
    and share: "fee_share fee groups k = Inr share" "share < amount"
    and out: "po_asset (ps_outputs p ! j) = Some (policy_of setup)" "po_amount (ps_outputs p ! j) = Some (amount - share)"
      "po_script (ps_outputs p ! j) = account_of setup g"
    unfolding reserve_ok_def input_at_def by blast
  have "unat share = fee_part (unat fee) groups k" by (rule fee_share_part [OF share(1) assms(2)])
  moreover have "input_amount p i = unat amount" "i < length (ps_inputs p)"
    using at(2,3) by (simp add: input_amount_def, simp add: witness_utxo_eq_Inr)
  moreover have "unat (amount - share) = unat amount - unat share" "unat share < unat amount"
    using share(2) by (simp_all add: unat_sub word_less_nat_alt word_le_nat_alt)
  ultimately show ?thesis
    using at(1) out by (simp add: output_amount_def)
qed

end
