(* ===== verification/Burn_Accept.thy ===== *)
theory Burn_Accept
  imports Burn_Claims
begin

text \<open>
  The burn the leader prepares is the burn the signers expect: from the groups it takes to the layout they check.
\<close>

subsection \<open>The Storm Eye on the chain\<close>

text \<open>
  What the code relies on of its Elements server: the answer about an output does not depend on whether the mempool is
  looked at, unless the mempool spends it, and a scan for a script finds outputs under that script.
\<close>

definition chain_view_law :: "elements_rpc \<Rightarrow> bool" where
  "chain_view_law rpc \<longleftrightarrow>
     (\<forall>o' a b. rc_txout rpc o' False = Inr (Some a) \<and> rc_txout rpc o' True = Inr (Some b) \<longrightarrow>
        ga_asset a = ga_asset b \<and> ga_value a = ga_value b \<and> ga_script a = ga_script b) \<and>
     (\<forall>script us u a. rc_scan rpc script = Inr us \<and> u \<in> set us \<and> rc_txout rpc (su_outpoint u) False = Inr (Some a) \<longrightarrow>
        ga_script a = script)"

lemma rpc_call_Inr [simp]: "rpc_call r = Inr x \<longleftrightarrow> r = Inr x"
  by (simp add: rpc_call_def)

lemma explicit_outpoint_fields:
  assumes "explicit_outpoint o' a = Inr u"
  shows "ut_outpoint u = o'" "to_asset (ut_txout u) = ExplicitField (utxo_asset u)"
    "to_value (ut_txout u) = ExplicitField (utxo_amount u)" "to_script (ut_txout u) = ga_script a"
  using assms by (auto simp: explicit_outpoint_def bind_res_eq_Inr utxo_asset_def utxo_amount_def)

lemma optional_found:
  "get_optional_explicit_outpoint rpc o' m = Inr (Some u) \<longleftrightarrow>
     (\<exists>a. rc_txout rpc o' m = Inr (Some a) \<and> explicit_outpoint o' a = Inr u)"
  by (auto simp: get_optional_explicit_outpoint_def bind_res_eq_Inr split: option.splits)

lemma scan_candidates_found:
  assumes "scan_candidates rpc expected us = Inr c" "(u, spent) \<in> set c"
  shows "\<exists>s\<in>set us. get_optional_explicit_outpoint rpc (su_outpoint s) False = Inr (Some u) \<and>
    matches_expected_asset (utxo_asset u) expected \<and>
    (\<not> spent \<longrightarrow> (\<exists>x. get_optional_explicit_outpoint rpc (su_outpoint s) True = Inr (Some x)))"
  using assms
proof (induction us arbitrary: c)
  case (Cons s us)
  show ?case
  proof (cases "scan_candidates rpc expected us = Inr c")
    case True
    then show ?thesis using Cons.IH Cons.prems(2) by auto
  next
    case False
    then obtain u' unspent rest where
      "get_optional_explicit_outpoint rpc (su_outpoint s) False = Inr (Some u')"
      "matches_expected_asset (utxo_asset u') expected"
      "get_optional_explicit_outpoint rpc (su_outpoint s) True = Inr unspent"
      "scan_candidates rpc expected us = Inr rest" "c = (u', unspent = None) # rest"
      using Cons.prems(1) by (auto simp: bind_res_eq_Inr split: if_splits option.splits)
    then show ?thesis using Cons.IH [of rest] Cons.prems(2) by auto
  qed
qed simp

lemma found_contract_utxo:
  assumes "find_contract_utxo rpc script (Some asset) pool = Inr u" "chain_view_law rpc"
  shows "\<exists>x. get_explicit_outpoint rpc (ut_outpoint u) = Inr x \<and> ut_txout x = ut_txout u" "utxo_asset u = asset"
    "to_asset (ut_txout u) = ExplicitField asset" "to_value (ut_txout u) = ExplicitField (utxo_amount u)"
    "to_script (ut_txout u) = script"
proof -
  obtain c where c: "scan_contract_utxos rpc script (Some asset) = Inr c" "select_contract_utxo c pool = Inr u"
    using assms(1) by (auto simp: find_contract_utxo_def bind_res_eq_Inr)
  obtain us c' where us: "rc_scan rpc script = Inr us" "scan_candidates rpc (Some asset) us = Inr c'"
    "c = sort_key (\<lambda>(u, _). ut_outpoint u) c'"
    using c(1) by (auto simp: scan_contract_utxos_def bind_res_eq_Inr)
  have "(u, False) \<in> set c" using select_contract_utxo_Inr [OF c(2)] by (metis nth_mem)
  then have "(u, False) \<in> set c'" using us(3) by simp
  from scan_candidates_found [OF us(2) this] obtain s x where s: "s \<in> set us"
    "get_optional_explicit_outpoint rpc (su_outpoint s) False = Inr (Some u)"
    "matches_expected_asset (utxo_asset u) (Some asset)"
    "get_optional_explicit_outpoint rpc (su_outpoint s) True = Inr (Some x)" by blast
  obtain a b where a: "rc_txout rpc (su_outpoint s) False = Inr (Some a)" "explicit_outpoint (su_outpoint s) a = Inr u"
    and b: "rc_txout rpc (su_outpoint s) True = Inr (Some b)" "explicit_outpoint (su_outpoint s) b = Inr x"
    using s(2,4) unfolding optional_found by blast
  note fields = explicit_outpoint_fields [OF a(2)]
  have same: "ga_asset a = ga_asset b" "ga_value a = ga_value b" "ga_script a = ga_script b"
    using assms(2) a(1) b(1) unfolding chain_view_law_def by blast+
  have "explicit_outpoint (su_outpoint s) b = explicit_outpoint (su_outpoint s) a"
    unfolding explicit_outpoint_def same ..
  then have "x = u" using a(2) b(2) by simp
  then show "\<exists>x. get_explicit_outpoint rpc (ut_outpoint u) = Inr x \<and> ut_txout x = ut_txout u"
    using s(4) fields(1) by (simp add: get_explicit_outpoint_def)
  show asset: "utxo_asset u = asset" using s(3) by (simp add: matches_expected_asset_def)
  show "to_asset (ut_txout u) = ExplicitField asset" using fields(2) asset by simp
  show "to_value (ut_txout u) = ExplicitField (utxo_amount u)" by (rule fields(3))
  show "to_script (ut_txout u) = script"
    using fields(4) assms(2) us(1) s(1) a(1) unfolding chain_view_law_def by metis
qed

subsection \<open>The parts of the transaction\<close>

lemma item_inputs_parts:
  assumes "item_inputs setup items = Inr inputs"
  shows "list_all2 (\<lambda>(u, x) i. bi_outpoint i = ut_outpoint x \<and> bi_txout i = ut_txout x \<and>
      item_matches (bu_assets setup) u x = Inr () \<and>
      (\<exists>program. issued_network_input (bu_elements setup) (na_asset_id (bu_storm_eye setup)) u (bu_network setup) = Inr program))
    items inputs"
  using assms by (induction items arbitrary: inputs) (auto simp: bind_res_eq_Inr)

lemma reserve_outputs_parts:
  assumes "reserve_outputs_from setup fee groups index bs = Inr outs"
  shows "length outs = length bs \<and> (\<forall>k<length bs. \<exists>remaining.
      remaining_reserve fee groups (index + k) (utxo_amount (bb_reserve (bs ! k))) = Inr remaining \<and>
      outs ! k = (account_of setup (bb_group (bs ! k)), remaining, policy_of setup))"
  using assms
proof (induction bs arbitrary: index outs)
  case (Cons b bs)
  obtain remaining rest where *: "remaining_reserve fee groups index (utxo_amount (bb_reserve b)) = Inr remaining"
    "reserve_outputs_from setup fee groups (Suc index) bs = Inr rest"
    "outs = (account_of setup (bb_group b), remaining, policy_of setup) # rest"
    using Cons.prems by (auto simp: bind_res_eq_Inr account_of_def policy_of_def)
  show ?case using Cons.IH [OF *(2)] *(1,3) by (simp add: All_less_Suc2)
qed simp

lemma leading_items_exact:
  assumes "list_all2 (\<lambda>i t. bt_get m (input_at i) = Some t) xs ts" "\<forall>y\<in>set ys. bt_get m (input_at y) = None"
  shows "leading_items m (xs @ ys) = ts"
  using assms(1)
proof (induction rule: list_all2_induct)
  case Nil
  show ?case using assms(2) by (cases ys) (auto simp: input_at_def)
qed (simp add: input_at_def)

lemma known_item:
  assumes "distinct (map item_outpoint expired)" "u \<in> set expired"
  shows "bt_get (bt_of_list (map (\<lambda>u. (item_outpoint u, u)) expired)) (item_outpoint u) = Some u"
  unfolding bt_get_of_list using assms by (intro map_of_is_SomeI) (simp_all add: comp_def flip: rev_map)

lemma unknown_item:
  assumes "k \<notin> item_outpoint ` set expired"
  shows "bt_get (bt_of_list (map (\<lambda>u. (item_outpoint u, u)) expired)) k = None"
  unfolding bt_get_of_list using assms by (force simp: map_of_eq_None_iff)

lemma expired_outpoints_distinct:
  assumes "utxos_ok table"
  shows "distinct (map item_outpoint (list_expired limit table))"
proof -
  let ?rows = "sort_key (\<lambda>(k, u). (mu_block_height u, k)) (filter (\<lambda>(_, u). mu_status u = UtxoExpired) table)"
  have "item_outpoint (snd e) = fst e" if "e \<in> set table" for e
  proof -
    have "bt_get table (fst e) = Some (snd e)" using assms that by (simp add: utxos_ok_def bt_get_eq_Some_iff)
    then show ?thesis using utxos_okD [OF assms] by (simp add: utxo_wf_def utxo_key_def item_outpoint_def)
  qed
  then have keys: "map item_outpoint (map snd ?rows) = map fst ?rows" by simp
  have "distinct (map fst ?rows)"
  proof -
    have "distinct (map fst table)" using assms by (simp add: utxos_ok_def bt_wf_distinct)
    then have "distinct (map fst (filter (\<lambda>(_, u). mu_status u = UtxoExpired) table))" by (rule distinct_map_filter)
    moreover have "mset (map fst ?rows) = mset (map fst (filter (\<lambda>(_, u). mu_status u = UtxoExpired) table))" by simp
    ultimately show ?thesis by (metis mset_eq_imp_distinct_iff)
  qed
  then show ?thesis unfolding list_expired_def take_map [symmetric] keys by (rule distinct_take)
qed

subsection \<open>The layout\<close>

definition burn_pset :: "elements_env \<Rightarrow> built_burn \<Rightarrow> pset" where
  "burn_pset env built = ee_build_pset env (map (\<lambda>i. (bi_outpoint i, bi_txout i, None)) (bx_inputs built)) (bx_outputs built)"

lemma burn_pset_inputs:
  assumes "build_law env"
  shows "length (ps_inputs (burn_pset env built)) = length (bx_inputs built)"
    and "k < length (bx_inputs built) \<Longrightarrow>
      input_at (ps_inputs (burn_pset env built) ! k) = bi_outpoint (bx_inputs built ! k) \<and>
      witness_utxo (burn_pset env built) k = Inr (bi_txout (bx_inputs built ! k))"
proof -
  have rel: "list_all2 (\<lambda>i (outpoint, out, _). (pi_previous_txid i, pi_previous_index i) = outpoint \<and>
        pi_witness_utxo i = Some out) (ps_inputs (burn_pset env built))
      (map (\<lambda>i. (bi_outpoint i, bi_txout i, None :: (u64 \<times> bytes) option)) (bx_inputs built))"
    using assms unfolding build_law_def burn_pset_def by blast
  show len: "length (ps_inputs (burn_pset env built)) = length (bx_inputs built)"
    using list_all2_lengthD [OF rel] by simp
  show "input_at (ps_inputs (burn_pset env built) ! k) = bi_outpoint (bx_inputs built ! k) \<and>
      witness_utxo (burn_pset env built) k = Inr (bi_txout (bx_inputs built ! k))" if "k < length (bx_inputs built)"
    using list_all2_nthD2 [OF rel, of k] that len by (simp add: input_at_def witness_utxo_eq_Inr)
qed

lemma burn_pset_outputs:
  assumes "build_law env"
  shows "length (ps_outputs (burn_pset env built)) = length (bx_outputs built)"
    and "k < length (bx_outputs built) \<Longrightarrow> bx_outputs built ! k = (script, amount, asset) \<Longrightarrow>
      po_script (ps_outputs (burn_pset env built) ! k) = script \<and>
      po_amount (ps_outputs (burn_pset env built) ! k) = Some amount \<and>
      po_asset (ps_outputs (burn_pset env built) ! k) = Some asset \<and>
      po_amount_comm (ps_outputs (burn_pset env built) ! k) = None \<and>
      po_asset_comm (ps_outputs (burn_pset env built) ! k) = None"
  using assms unfolding build_law_def burn_pset_def by auto

lemma zip_items:
  assumes "\<forall>b\<in>set bs. burnable_ok setup rpc b"
  shows "map fst (concat (map (\<lambda>b. zip (bg_ticks (bb_group b)) (bb_ticks b)) bs)) = concat (map (bg_ticks \<circ> bb_group) bs)"
    "(u, x) \<in> set (concat (map (\<lambda>b. zip (bg_ticks (bb_group b)) (bb_ticks b)) bs)) \<Longrightarrow> found_at rpc (item_outpoint u) x"
proof -
  have "list_all2 (\<lambda>u x. found_at rpc (item_outpoint u) x) (bg_ticks (bb_group b)) (bb_ticks b)" if "b \<in> set bs" for b
    using assms that by (simp add: burnable_ok_def)
  then show "map fst (concat (map (\<lambda>b. zip (bg_ticks (bb_group b)) (bb_ticks b)) bs)) = concat (map (bg_ticks \<circ> bb_group) bs)"
    and "(u, x) \<in> set (concat (map (\<lambda>b. zip (bg_ticks (bb_group b)) (bb_ticks b)) bs)) \<Longrightarrow> found_at rpc (item_outpoint u) x"
    by (auto simp: map_concat list_all2_iff intro!: arg_cong [where f = concat])
qed

text \<open>What \<open>build_burn_transaction\<close> puts together.\<close>

definition built_from ::
  "burn_setup \<Rightarrow> utxo \<Rightarrow> burnable list \<Rightarrow> u64 \<Rightarrow> built_burn \<Rightarrow> burn_input \<Rightarrow> burn_input list \<Rightarrow> (bytes \<times> u64) list \<Rightarrow>
   (bytes \<times> u64 \<times> bytes) list \<Rightarrow> u64 \<Rightarrow> bool" where
  "built_from setup eye bs minimum_fee built first inputs burns returns fee \<longleftrightarrow>
     burn_fee minimum_fee (sum_list (map (length \<circ> bg_ticks) (map bb_group bs))) (length bs) = Inr fee \<and>
     item_inputs setup (concat (map (\<lambda>b. zip (bg_ticks (bb_group b)) (bb_ticks b)) bs)) = Inr inputs \<and>
     burn_outputs (bu_assets setup) (concat (map bg_ticks (map bb_group bs))) = Inr burns \<and>
     reserve_outputs_from setup fee (length bs) 0 bs = Inr returns \<and>
     bi_outpoint first = ut_outpoint eye \<and> bi_txout first = ut_txout eye \<and>
     bx_inputs built = first # inputs @ map reserve_input bs \<and>
     bx_outputs built = output_from_utxo eye # map (\<lambda>(asset, amount). (ee_op_return (bu_elements setup) [], amount, asset)) burns @
       returns @ [([], fee, policy_of setup)]"

lemma build_burn_transaction_parts:
  assumes "build_burn_transaction setup eye bs minimum_fee = Inr built"
  shows "\<exists>first inputs burns returns fee. built_from setup eye bs minimum_fee built first inputs burns returns fee"
proof -
  obtain fee program encoded data inputs burns returns where
    "burn_fee minimum_fee (sum_list (map (length \<circ> bg_ticks \<circ> bb_group) bs)) (length bs) = Inr fee"
    "storm_eye_program (bu_elements setup) (bu_storm_eye setup) = Inr program"
    "ee_decode_contract (bu_elements setup) encoded = Some data"
    "item_inputs setup (concat (map (\<lambda>b. zip (bg_ticks (bb_group b)) (bb_ticks b)) bs)) = Inr inputs"
    "burn_outputs (bu_assets setup) (concat (map (bg_ticks \<circ> bb_group) bs)) = Inr burns"
    "reserve_outputs_from setup fee (length bs) 0 bs = Inr returns"
    "built = \<lparr>bx_inputs =
               \<lparr>bi_outpoint = ut_outpoint eye, bi_txout = ut_txout eye,
                bi_program = BurnEye program
                  \<lparr>aw_root = sd_storm_tree_root data, aw_rescue_height = sd_rescue_height data,
                   aw_signature = replicate 64 0, aw_branch = sd_storm_tree_root data,
                   aw_proof = replicate TREE_DEPTH None, aw_kind = Inclusion 0\<rparr>\<rparr> # inputs @ map reserve_input bs,
             bx_outputs =
               output_from_utxo eye # map (\<lambda>(asset, amount). (ee_op_return (bu_elements setup) [], amount, asset)) burns @
               returns @ [([], fee, ee_policy_asset (bu_elements setup) (bu_network setup))],
             bx_selected = map (item_outpoint \<circ> fst) (concat (map (\<lambda>b. zip (bg_ticks (bb_group b)) (bb_ticks b)) bs)),
             bx_branch = sd_storm_tree_root data\<rparr>"
    using assms unfolding build_burn_transaction_def Let_def bind_res_eq_Inr map_err_Inr ok_or_eq_Inr
    by (elim exE conjE) (drule sym, rule that, (assumption | simp)+)
  then have "built_from setup eye bs minimum_fee built (hd (bx_inputs built)) inputs burns returns fee"
    unfolding built_from_def policy_of_def map_map by (simp add: comp_assoc)
  then show ?thesis by blast
qed

lemma built_items_ok:
  assumes built: "built_from setup eye bs minimum_fee built first inputs burns returns fee"
    and law: "build_law (bu_elements setup)" and ok: "\<forall>b\<in>set bs. burnable_ok setup rpc b"
  defines "ticks \<equiv> concat (map bg_ticks (map bb_group bs))"
  shows "length inputs = length ticks"
    and "k < length ticks \<Longrightarrow> input_at (ps_inputs (burn_pset (bu_elements setup) built) ! (1 + k)) = item_outpoint (ticks ! k) \<and>
      item_input_ok setup (burn_pset (bu_elements setup) built) (1 + k) (ticks ! k)"
    and "k < length ticks \<Longrightarrow> \<exists>x. found_at rpc (item_outpoint (ticks ! k)) x \<and>
      witness_utxo (burn_pset (bu_elements setup) built) (1 + k) = Inr (ut_txout x)"
proof -
  let ?items = "concat (map (\<lambda>b. zip (bg_ticks (bb_group b)) (bb_ticks b)) bs)" and ?p = "burn_pset (bu_elements setup) built"
  have ins: "bx_inputs built = first # inputs @ map reserve_input bs" and made: "item_inputs setup ?items = Inr inputs"
    using built unfolding built_from_def by - (elim conjE, assumption)+
  have ticks: "ticks = map fst ?items" unfolding ticks_def zip_items(1) [OF ok] map_map ..
  note parts = item_inputs_parts [OF made]
  show len: "length inputs = length ticks" using list_all2_lengthD [OF parts] ticks by simp
  have item: "input_at (ps_inputs ?p ! (1 + k)) = item_outpoint (ticks ! k) \<and> item_input_ok setup ?p (1 + k) (ticks ! k) \<and>
      (\<exists>x. found_at rpc (item_outpoint (ticks ! k)) x \<and> witness_utxo ?p (1 + k) = Inr (ut_txout x))" if k: "k < length ticks" for k
  proof -
    obtain u x where ux: "?items ! k = (u, x)" by (cases "?items ! k")
    have u: "ticks ! k = u" using ux k ticks by simp
    have kl: "k < length ?items" using k ticks by simp
    then have found: "found_at rpc (item_outpoint u) x" using zip_items(2) [OF ok] ux by (metis nth_mem)
    obtain program where i: "bi_outpoint (inputs ! k) = ut_outpoint x" "bi_txout (inputs ! k) = ut_txout x"
      "item_matches (bu_assets setup) u x = Inr ()"
      "issued_network_input (bu_elements setup) (na_asset_id (bu_storm_eye setup)) u (bu_network setup) = Inr program"
      using list_all2_nthD [OF parts kl] ux by auto
    have at: "bx_inputs built ! (1 + k) = inputs ! k" "1 + k < length (bx_inputs built)"
      using k len unfolding ins by (simp_all add: nth_append)
    have p: "input_at (ps_inputs ?p ! (1 + k)) = ut_outpoint x" "witness_utxo ?p (1 + k) = Inr (ut_txout x)"
      using burn_pset_inputs(2) [OF law at(2)] at(1) i(1,2) by simp_all
    obtain asset where asset: "burn_asset_of (bu_assets setup) u = Inr asset" "utxo_asset x = asset"
      "utxo_amount x = mu_amount u" "to_script (ut_txout x) = mu_script_pubkey u"
      using i(3) by (auto simp: item_matches_def bind_res_eq_Inr)
    have "item_input_ok setup ?p (1 + k) u"
      unfolding item_input_ok_def using p(2) asset i(4) found_at_explicit [OF found] by auto
    then show ?thesis using p found_at_explicit(1) [OF found] found u by auto
  qed
  show "k < length ticks \<Longrightarrow> input_at (ps_inputs ?p ! (1 + k)) = item_outpoint (ticks ! k) \<and> item_input_ok setup ?p (1 + k) (ticks ! k)"
    using item by blast
  show "k < length ticks \<Longrightarrow> \<exists>x. found_at rpc (item_outpoint (ticks ! k)) x \<and> witness_utxo ?p (1 + k) = Inr (ut_txout x)"
    using item by blast
qed

lemma built_reserves_ok:
  assumes built: "built_from setup eye bs minimum_fee built first inputs burns returns fee"
    and law: "build_law (bu_elements setup)" and ok: "\<forall>b\<in>set bs. burnable_ok setup rpc b"
    and k: "k < length bs" and n: "n = length inputs" and m: "m = length burns"
  shows "reserve_ok setup (burn_pset (bu_elements setup) built) fee (length bs) (1 + n + k) (1 + m + k) k (bb_group (bs ! k)) \<and>
    witness_utxo (burn_pset (bu_elements setup) built) (1 + n + k) = Inr (ut_txout (bb_reserve (bs ! k)))"
proof -
  let ?p = "burn_pset (bu_elements setup) built" and ?b = "bs ! k"
  have ins: "bx_inputs built = first # inputs @ map reserve_input bs"
    and outs: "bx_outputs built = output_from_utxo eye #
       map (\<lambda>(asset, amount). (ee_op_return (bu_elements setup) [], amount, asset)) burns @ returns @ [([], fee, policy_of setup)]"
    and returned: "reserve_outputs_from setup fee (length bs) 0 bs = Inr returns"
    using built unfolding built_from_def by - (elim conjE, assumption)+
  have b: "burnable_ok setup rpc ?b" using ok k by simp
  have found: "found_at rpc (bg_reserve (bb_group ?b)) (bb_reserve ?b)" and asset: "utxo_asset (bb_reserve ?b) = policy_of setup"
    and script: "to_script (ut_txout (bb_reserve ?b)) = account_of setup (bb_group ?b)"
    using b by (simp_all add: burnable_ok_def policy_of_def account_of_def)
  note R = reserve_outputs_parts [OF returned]
  obtain remaining where rem: "remaining_reserve fee (length bs) k (utxo_amount (bb_reserve ?b)) = Inr remaining"
    "returns ! k = (account_of setup (bb_group ?b), remaining, policy_of setup)" using R k by auto
  obtain share where share: "fee_share fee (length bs) k = Inr share" "share < utxo_amount (bb_reserve ?b)"
    "remaining = utxo_amount (bb_reserve ?b) - share"
    using rem(1) by (auto simp: remaining_reserve_def bind_res_eq_Inr remaining_amount)
  have "bx_inputs built ! (1 + n + k) = reserve_input ?b" "1 + n + k < length (bx_inputs built)"
    using k unfolding ins n by (simp_all add: nth_append)
  then have p: "input_at (ps_inputs ?p ! (1 + n + k)) = bg_reserve (bb_group ?b)"
    "witness_utxo ?p (1 + n + k) = Inr (ut_txout (bb_reserve ?b))"
    using burn_pset_inputs(2) [OF law, of "1 + n + k" built] found_at_explicit(1) [OF found] by (simp_all add: reserve_input_def)
  have "bx_outputs built ! (1 + m + k) = returns ! k" "1 + m + k < length (bx_outputs built)"
    using k R unfolding outs m by (simp_all add: nth_append)
  then have o: "po_script (ps_outputs ?p ! (1 + m + k)) = account_of setup (bb_group ?b)"
    "po_amount (ps_outputs ?p ! (1 + m + k)) = Some remaining" "po_asset (ps_outputs ?p ! (1 + m + k)) = Some (policy_of setup)"
    using burn_pset_outputs(2) [OF law, of "1 + m + k" built] rem(2) by auto
  show ?thesis
    unfolding reserve_ok_def using p o share asset script found_at_explicit(2,3) [OF found] unfolding input_at_def by auto
qed

definition eye_ok :: "burn_setup \<Rightarrow> utxo \<Rightarrow> bool" where
  "eye_ok setup eye \<longleftrightarrow>
     to_asset (ut_txout eye) = ExplicitField (na_asset_id (bu_storm_eye setup)) \<and>
     utxo_asset eye = na_asset_id (bu_storm_eye setup) \<and> to_value (ut_txout eye) = ExplicitField (utxo_amount eye) \<and>
     to_script (ut_txout eye) = na_contract_script (bu_storm_eye setup)"

lemma built_eye_ok:
  assumes built: "built_from setup eye bs minimum_fee built first inputs burns returns fee"
    and laws: "build_law (bu_elements setup)" "to_txout_law (bu_elements setup)" and eye: "eye_ok setup eye"
  defines "p \<equiv> burn_pset (bu_elements setup) built"
  shows "witness_utxo p 0 = Inr (ut_txout eye) \<and> input_at (ps_inputs p ! 0) = ut_outpoint eye \<and>
    require_explicit_utxo (ut_txout eye) (na_asset_id (bu_storm_eye setup)) (na_contract_script (bu_storm_eye setup)) ''Storm Eye'' = Inr () \<and>
    require_preserved_output (bu_elements setup) p 0 (ut_txout eye) ''Storm Eye'' = Inr ()"
proof -
  have ins: "bx_inputs built ! 0 = first" "0 < length (bx_inputs built)" "bi_outpoint first = ut_outpoint eye" "bi_txout first = ut_txout eye"
    and outs: "bx_outputs built ! 0 = (to_script (ut_txout eye), utxo_amount eye, utxo_asset eye)" "0 < length (bx_outputs built)"
    using built by (simp_all add: built_from_def output_from_utxo_def)
  have "0 < length (ps_outputs p)" using burn_pset_outputs(1) [OF laws(1)] outs(2) p_def by simp
  then show ?thesis
    using burn_pset_inputs(2) [OF laws(1) ins(2)] burn_pset_outputs(2) [OF laws(1) outs(2,1)] ins eye laws(2)
    unfolding p_def eye_ok_def to_txout_law_def by (simp add: require_explicit_utxo_Inr require_preserved_output_Inr)
qed

lemma built_burn_layout:
  assumes built: "built_from setup eye bs minimum_fee built first inputs burns returns fee"
    and laws: "build_law (bu_elements setup)" "to_txout_law (bu_elements setup)" and eye: "eye_ok setup eye"
    and bs: "bs \<noteq> []" "\<forall>b\<in>set bs. burnable_ok setup rpc b" "groups_ok (map bb_group bs)"
    and known: "set (concat (map bg_ticks (map bb_group bs))) \<subseteq> set expired" "distinct (map item_outpoint expired)"
    and apart: "\<forall>b\<in>set bs. bg_reserve (bb_group b) \<notin> item_outpoint ` set expired"
    and hash: "burn_signing_hash (bu_elements setup) (burn_pset (bu_elements setup) built) (bu_storm_eye setup) (bu_network setup) =
      Inr (be_signing_hash request)"
  shows "layout_ok setup (burn_pset (bu_elements setup) built) request expired minimum_fee
    (concat (map bg_ticks (map bb_group bs))) (map bb_group bs) burns fee"
proof -
  let ?p = "burn_pset (bu_elements setup) built" and ?ticks = "concat (map bg_ticks (map bb_group bs))" and ?G = "length bs"
  let ?m = "bt_of_list (map (\<lambda>u. (item_outpoint u, u)) expired)"
  have ins: "bx_inputs built = first # inputs @ map reserve_input bs"
    and outs: "bx_outputs built = output_from_utxo eye #
       map (\<lambda>(asset, amount). (ee_op_return (bu_elements setup) [], amount, asset)) burns @ returns @ [([], fee, policy_of setup)]"
    and returned: "reserve_outputs_from setup fee ?G 0 bs = Inr returns"
    and fee: "burn_fee minimum_fee (sum_list (map (length \<circ> bg_ticks) (map bb_group bs))) ?G = Inr fee"
    and burns: "burn_outputs (bu_assets setup) ?ticks = Inr burns"
    using built unfolding built_from_def by - (elim conjE, assumption)+
  note items = built_items_ok [OF built laws(1) bs(2)]
  note eye_in = built_eye_ok [OF built laws eye]
  have R: "length returns = ?G" using reserve_outputs_parts [OF returned] by blast
  have total: "sum_list (map (length \<circ> bg_ticks) (map bb_group bs)) = length ?ticks" by (simp add: length_concat comp_def)
  have N: "length inputs = length ?ticks" by (rule items(1))
  have lens: "length (ps_inputs ?p) = 1 + length ?ticks + ?G" "length (ps_outputs ?p) = 2 + length burns + ?G"
    using burn_pset_inputs(1) [OF laws(1), of built] burn_pset_outputs(1) [OF laws(1), of built] N R
    by (simp_all only: ins outs) simp_all
  have few: "length ?ticks \<le> unat MAX_TICKS_PER_BURN" using bs(3) total unfolding groups_ok_def by simp
  have some: "?ticks \<noteq> []" "0 < ?G"
    using bs(1,3) unfolding groups_ok_def by (auto simp: neq_Nil_conv)
  have "burns \<noteq> []"
  proof -
    have "kinds_of ?ticks \<noteq> []"
      using some(1) unfolding kinds_of_def by (cases ?ticks) (auto simp: filter_empty_conv)
    then show ?thesis using list_all2_lengthD [OF burn_outputs_sums [OF burns]] by auto
  qed
  have lead: "leading_items ?m (drop 1 (ps_inputs ?p)) = ?ticks"
  proof -
    let ?rest = "drop 1 (ps_inputs ?p)"
    have "list_all2 (\<lambda>i t. bt_get ?m (input_at i) = Some t) (take (length ?ticks) ?rest) ?ticks"
    proof (rule list_all2_all_nthI)
      show "length (take (length ?ticks) ?rest) = length ?ticks" using lens(1) by simp
      fix k assume "k < length (take (length ?ticks) ?rest)"
      then have k: "k < length ?ticks" by simp
      then have "?ticks ! k \<in> set expired" using known(1) nth_mem by blast
      moreover have "take (length ?ticks) ?rest ! k = ps_inputs ?p ! (1 + k)" using k lens(1) by simp
      ultimately show "bt_get ?m (input_at (take (length ?ticks) ?rest ! k)) = Some (?ticks ! k)"
        using items(2) [OF k] known_item [OF known(2)] by simp
    qed
    moreover have "bt_get ?m (input_at y) = None" if y: "y \<in> set (drop (length ?ticks) ?rest)" for y
    proof -
      obtain k where j: "k < length (drop (length ?ticks) ?rest)" "drop (length ?ticks) ?rest ! k = y"
        using y unfolding in_set_conv_nth by blast
      have k: "k < ?G" "y = ps_inputs ?p ! (1 + length ?ticks + k)"
        using j lens(1) by (simp_all del: length_concat)
      have "input_at y = bg_reserve (bb_group (bs ! k))"
        using built_reserves_ok [OF built laws(1) bs(2) k(1) N [symmetric] refl] k unfolding reserve_ok_def input_at_def by simp
      moreover have "bg_reserve (bb_group (bs ! k)) \<notin> item_outpoint ` set expired" using apart k(1) nth_mem by blast
      ultimately show ?thesis using unknown_item by simp
    qed
    ultimately have "leading_items ?m (take (length ?ticks) ?rest @ drop (length ?ticks) ?rest) = ?ticks"
      by (intro leading_items_exact) auto
    then show ?thesis unfolding append_take_drop_id .
  qed
  have burn: "burn_output_ok (bu_elements setup) ?p (1 + k) (burns ! k)" if "k < length burns" for k
  proof -
    obtain asset amount where pair: "burns ! k = (asset, amount)" by (cases "burns ! k")
    have "bx_outputs built ! (1 + k) = (ee_op_return (bu_elements setup) [], amount, asset)" "1 + k < length (bx_outputs built)"
      unfolding outs using that pair by (simp_all add: nth_append)
    from burn_pset_outputs(2) [OF laws(1) this(2,1)] this(2) show ?thesis
      using burn_pset_outputs(1) [OF laws(1), of built] pair by (simp add: burn_output_ok_def)
  qed
  have "last (ps_outputs ?p) = ps_outputs ?p ! (1 + length burns + ?G)"
    using lens(2) by (subst last_conv_nth) auto
  moreover have "bx_outputs built ! (1 + length burns + ?G) = ([], fee, policy_of setup)"
    "1 + length burns + ?G < length (bx_outputs built)"
    unfolding outs using R by (simp_all add: nth_append)
  ultimately have miner: "po_asset (last (ps_outputs ?p)) = Some (policy_of setup) \<and> po_amount (last (ps_outputs ?p)) = Some fee \<and>
      po_script (last (ps_outputs ?p)) = []"
    using burn_pset_outputs(2) [OF laws(1)] by metis
  have reserves: "reserve_ok setup ?p fee ?G (1 + length ?ticks + k) (1 + length burns + k) k (map bb_group bs ! k)" if "k < ?G" for k
    using built_reserves_ok [OF built laws(1) bs(2) that N [symmetric] refl] that by simp
  have "0 < length ?ticks" "0 < length burns"
    unfolding length_greater_0_conv using some(1) \<open>burns \<noteq> []\<close> .
  then have sizes: "3 \<le> length (ps_inputs ?p)" "4 \<le> length (ps_outputs ?p)"
    unfolding lens using some(2) by linarith+
  have eye': "\<exists>eye. witness_utxo ?p 0 = Inr eye \<and>
      require_explicit_utxo eye (na_asset_id (bu_storm_eye setup)) (na_contract_script (bu_storm_eye setup)) ''Storm Eye'' = Inr () \<and>
      require_preserved_output (bu_elements setup) ?p 0 eye ''Storm Eye'' = Inr ()"
    using eye_in by blast
  have all: "\<forall>k<length ?ticks. item_input_ok setup ?p (1 + k) (?ticks ! k)"
    "\<forall>k<length burns. burn_output_ok (bu_elements setup) ?p (1 + k) (burns ! k)"
    "\<forall>k<?G. reserve_ok setup ?p fee ?G (1 + length ?ticks + k) (1 + length burns + k) k (map bb_group bs ! k)"
    using items(2) burn reserves by blast+
  note select = select_own_groups [OF bs(3)] and fee' = fee [unfolded total]
  show ?thesis
    unfolding layout_ok_def total length_map
    by (intro conjI; (rule sizes eye' lead some(1) few all burns select fee' lens hash conjunct1 [OF miner]
        conjunct1 [OF conjunct2 [OF miner]] conjunct2 [OF conjunct2 [OF miner]]))
qed

lemma built_input_live:
  assumes built: "built_from setup eye bs minimum_fee built first inputs burns returns fee"
    and laws: "build_law (bu_elements setup)" "to_txout_law (bu_elements setup)" and eye: "eye_ok setup eye"
    and ok: "\<forall>b\<in>set bs. burnable_ok setup rpc b"
    and live: "\<exists>x. get_explicit_outpoint rpc (ut_outpoint eye) = Inr x \<and> ut_txout x = ut_txout eye"
    and j: "j < length (ps_inputs (burn_pset (bu_elements setup) built))"
  shows "\<exists>x. get_explicit_outpoint rpc (input_at (ps_inputs (burn_pset (bu_elements setup) built) ! j)) = Inr x \<and>
    witness_utxo (burn_pset (bu_elements setup) built) j = Inr (ut_txout x)"
proof -
  let ?p = "burn_pset (bu_elements setup) built"
  define ticks where "ticks = concat (map bg_ticks (map bb_group bs))"
  note items = built_items_ok [OF built laws(1) ok, folded ticks_def]
  have "length (bx_inputs built) = 1 + length inputs + length bs" using built by (simp add: built_from_def)
  then have len: "j < 1 + length ticks + length bs" using j burn_pset_inputs(1) [OF laws(1), of built] items(1) by simp
  consider "j = 0" | k where "j = 1 + k" "k < length ticks" | k where "j = 1 + length ticks + k" "k < length bs"
  proof (cases "j = 0")
    case nonzero: False
    show ?thesis
    proof (cases "j < 1 + length ticks")
      case True
      then show ?thesis using nonzero by (intro that(2) [of "j - 1"]) auto
    next
      case False
      then show ?thesis using len by (intro that(3) [of "j - (1 + length ticks)"]) auto
    qed
  qed (rule that(1))
  then show ?thesis
  proof cases
    case 1
    then show ?thesis using built_eye_ok [OF built laws eye] live by auto
  next
    case (2 k)
    then show ?thesis using items(2,3) [OF 2(2)] found_at_explicit(4) by fastforce
  next
    case (3 k)
    have "found_at rpc (bg_reserve (bb_group (bs ! k))) (bb_reserve (bs ! k))" using ok 3(2) by (simp add: burnable_ok_def)
    then have "get_explicit_outpoint rpc (bg_reserve (bb_group (bs ! k))) = Inr (bb_reserve (bs ! k))" by (rule found_at_explicit(4))
    then show ?thesis
      using built_reserves_ok [OF built laws(1) ok 3(2) items(1) [symmetric] refl] 3(1) unfolding reserve_ok_def input_at_def by auto
  qed
qed

subsection \<open>From the leader to a signer\<close>

lemma check_burn_inputs_Inr:
  "check_burn_inputs rpc is = Inr u \<longleftrightarrow>
     (\<forall>i\<in>set is. \<exists>x. get_explicit_outpoint rpc (input_at i) = Inr x \<and> pi_witness_utxo i = Some (ut_txout x))"
  by (induction "is") (auto simp: bind_res_eq_Inr input_at_def)

lemma burn_candidate_parts:
  assumes "burn_candidate env assets network config rpc h lane limit max_weight table = (table', Inr (Some pb))"
  shows "\<exists>storm_eye gs bs table1 eye built.
    get_asset STORM_EYE_KIND assets = Some storm_eye \<and>
    select_groups (fst (split_conflicting_reserves (list_expired (- 1) table))) limit = Inr gs \<and>
    examine_groups \<lparr>bu_elements = env, bu_storm_eye = storm_eye, bu_assets = burn_assets_of assets, bu_network = network\<rparr>
      rpc h gs table1 = (table', Inr bs) \<and> bs \<noteq> [] \<and>
    find_contract_utxo rpc (na_contract_script storm_eye) (Some (na_asset_id storm_eye)) (NetworkLeader lane) = Inr eye \<and>
    build_burn_transaction \<lparr>bu_elements = env, bu_storm_eye = storm_eye, bu_assets = burn_assets_of assets, bu_network = network\<rparr>
      eye bs (pc_burn_fee config) = Inr built \<and>
    burn_signing_hash env (burn_pset env built) storm_eye network = Inr (be_signing_hash (pb_request pb)) \<and>
    pb_pset pb = burn_pset env built \<and> pb_group_count pb = length bs"
proof -
  obtain expired conflicting where split: "split_conflicting_reserves (list_expired (- 1) table) = (expired, conflicting)"
    by fastforce
  obtain table1 q where q: "quarantine_groups (bt_values conflicting) h table = (table1, q)" by fastforce
  note run = assms [unfolded burn_candidate_def Let_def split prod.case q]
  obtain g gs where gs: "select_groups expired limit = Inr (g # gs)"
    using run by (auto split: sum.splits list.splits)
  obtain storm_eye where eye: "get_asset STORM_EYE_KIND assets = Some storm_eye"
    using run gs by (auto simp: burn_asset_def split: sum.splits list.splits)
  define se where "se = \<lparr>bu_elements = env, bu_storm_eye = storm_eye, bu_assets = burn_assets_of assets, bu_network = network\<rparr>"
  have asset: "burn_asset assets STORM_EYE_KIND = Inr storm_eye" using eye by (simp add: burn_asset_def)
  obtain table2 answer where e: "examine_groups se rpc h (g # gs) table1 = (table2, answer)" by fastforce
  obtain b bs where answer: "answer = Inr (b # bs)"
    using run gs asset e by (auto simp flip: se_def simp del: examine_groups.simps split: sum.splits list.splits)
  have run': "(table2, bind_res (map_err BurnHelper (find_contract_utxo rpc (na_contract_script storm_eye)
                                      (Some (na_asset_id storm_eye)) (NetworkLeader lane))) (\<lambda>storm_eye_utxo.
                          bind_res (build_burn_transaction se storm_eye_utxo (b # bs) (pc_burn_fee config)) (\<lambda>built.
                          bind_res (burn_signing_hash env (burn_pset env built) storm_eye network) (\<lambda>hash.
                            Inr (Some \<lparr>pb_request = \<lparr>be_tx = ee_encode_pset env (burn_pset env built), be_signing_hash = hash, be_branch = bx_branch built,
                                          be_block_height = h, be_chain_tip = None\<rparr>,
                                       pb_inputs = bx_inputs built, pb_pset = burn_pset env built, pb_selected = bx_selected built,
                                       pb_network = network, pb_storm_eye = storm_eye, pb_group_count = length (b # bs),
                                       pb_max_weight = max_weight\<rparr>))))) = (table', Inr (Some pb))"
    using run gs asset e answer
    by (auto simp flip: se_def burn_pset_def simp del: examine_groups.simps split: sum.splits)
  then have t: "table2 = table'" by simp
  from run' obtain u built where u: "find_contract_utxo rpc (na_contract_script storm_eye) (Some (na_asset_id storm_eye)) (NetworkLeader lane) = Inr u"
    "build_burn_transaction se u (b # bs) (pc_burn_fee config) = Inr built"
    and pb: "burn_signing_hash env (burn_pset env built) storm_eye network = Inr (be_signing_hash (pb_request pb))"
    "pb_pset pb = burn_pset env built" "pb_group_count pb = length (b # bs)"
    unfolding prod.inject bind_res_eq_Inr map_err_Inr by fastforce
  have "select_groups (fst (split_conflicting_reserves (list_expired (- 1) table))) limit = Inr (g # gs)"
    unfolding split fst_conv by (rule gs)
  then show ?thesis
    using eye e [unfolded answer t] u pb unfolding se_def
    by (intro exI [of _ storm_eye] exI [of _ "g # gs"] exI [of _ "b # bs"] exI [of _ table1] exI [of _ u] exI [of _ built])
      (intro conjI; assumption | simp only: list.distinct not_False_eq_True)
qed

end
