(* ===== verification/Burn_Toy.thy ===== *)
theory Burn_Toy
  imports Burn_Accept Round_Run
begin

text \<open>
  A concrete burn for the witnesses: one expired Tick with its reserve, the transaction the leader prepares for it,
  and the check of a signer.
\<close>

definition toy_item :: monitored_utxo where
  "toy_item = \<lparr>mu_txid = [2], mu_output_index = 0, mu_asset_kind = TICK_ASSET_KIND, mu_amount = 100000000,
     mu_script_pubkey = 4 # replicate 32 0, mu_auth_method = ''asset-id-auth'', mu_auth_data = replicate 32 9,
     mu_account_owner_pubkey = replicate 32 9, mu_internal_key = None, mu_burning_fee_txid = [3],
     mu_burning_fee_output_index = 1, mu_block_height = 5, mu_status = UtxoExpired, mu_status_block_height = 8,
     mu_burn_txid = None\<rparr>"

definition toy_items :: utxo_table where "toy_items = [(([2], 0), toy_item)]"

definition toy_burn_rpc :: elements_rpc where
  "toy_burn_rpc = toy_rpc\<lparr>
     rc_txout := (\<lambda>outpoint _. Inr (Some (if fst outpoint = [1] then toy_answer [7] [3]
        else if fst outpoint = [2] then toy_answer [10] (4 # replicate 32 0)
        else toy_answer (replicate 32 8) toy_account))),
     rc_scan := (\<lambda>script. Inr (if script = [3] then [\<lparr>su_outpoint = ([1], 0), su_asset = Some [7], su_height = Some 1\<rparr>] else []))\<rparr>"

definition toy_burn_pset :: pset where
  "toy_burn_pset = toy_build
     [(([1], 0), ut_txout (toy_utxo ([1], 0) [7] [3]), None),
      (([2], 0), ut_txout (toy_utxo ([2], 0) [10] (4 # replicate 32 0)), None),
      (([3], 1), ut_txout (toy_utxo ([3], 1) (replicate 32 8) toy_account), None)]
     [([3], 100000000, [7]), ([0x6A], 100000000, [10]), (toy_account, 99999871, replicate 32 8), ([], 129, replicate 32 8)]"

definition toy_burn_elements :: elements_env where
  "toy_burn_elements = toy_round_elements\<lparr>ee_decode_pset := (\<lambda>_. Some toy_burn_pset)\<rparr>"

definition toy_burn_setup :: burn_setup where
  "toy_burn_setup = \<lparr>bu_elements = toy_burn_elements, bu_storm_eye = toy_round_eye,
     bu_assets = \<lparr>bs_tick = Some [10], bs_verifier = None\<rparr>, bu_network = Liquid\<rparr>"

definition toy_burn_group :: burn_group where
  "toy_burn_group = \<lparr>bg_reserve = ([3], 1), bg_owner = replicate 32 9, bg_ticks = [toy_item]\<rparr>"

definition toy_burnable :: burnable where
  "toy_burnable = \<lparr>bb_group = toy_burn_group, bb_reserve = toy_utxo ([3], 1) (replicate 32 8) toy_account,
     bb_ticks = [toy_utxo ([2], 0) [10] (4 # replicate 32 0)]\<rparr>"

lemma toy_found:
  "get_optional_explicit_outpoint toy_burn_rpc ([1], i) b = Inr (Some (toy_utxo ([1], i) [7] [3]))"
  "get_optional_explicit_outpoint toy_burn_rpc ([2], i) b = Inr (Some (toy_utxo ([2], i) [10] (4 # replicate 32 0)))"
  "get_optional_explicit_outpoint toy_burn_rpc ([3], i) b = Inr (Some (toy_utxo ([3], i) (replicate 32 8) toy_account))"
  by (simp_all add: get_optional_explicit_outpoint_def toy_burn_rpc_def toy_explicit rpc_call_def)

lemma toy_utxo_fields:
  "utxo_asset (toy_utxo o' asset script) = asset" "utxo_amount (toy_utxo o' asset script) = 100000000"
  "to_script (ut_txout (toy_utxo o' asset script)) = script" "ut_outpoint (toy_utxo o' asset script) = o'"
  by (simp_all add: utxo_asset_def utxo_amount_def toy_utxo_def)

lemma toy_eye_taken: "find_contract_utxo toy_burn_rpc [3] (Some [7]) (NetworkLeader 0) = Inr (toy_utxo ([1], 0) [7] [3])"
proof -
  have "rc_scan toy_burn_rpc [3] = Inr [\<lparr>su_outpoint = ([1], 0), su_asset = Some [7], su_height = Some 1\<rparr>]"
    by (simp add: toy_burn_rpc_def)
  then show ?thesis
    by (simp add: find_contract_utxo_def scan_contract_utxos_def rpc_call_def matches_scanned_asset_def toy_found
        matches_expected_asset_def select_contract_utxo_def storm_eye_pool_index_def Let_def toy_utxo_fields)
qed

lemma toy_expired: "list_expired (- 1) toy_items = [toy_item]"
  by (simp add: list_expired_def toy_items_def toy_item_def unsigned_minus_1_eq_mask mask_eq_exp_minus_1)

lemma toy_split: "split_conflicting_reserves [toy_item] = ([toy_item], [])"
  by (simp add: split_conflicting_reserves_def owners_by_reserve_def conflicted_def bt_get_def)

lemma toy_reserve_of: "reserve_of toy_item = ([3], 1)" "item_outpoint toy_item = ([2], 0)"
  by (simp_all add: reserve_of_def item_outpoint_def toy_item_def)

lemma toy_select: "select_groups [toy_item] MAX_TICKS_PER_BURN = Inr [toy_burn_group]"
  by (simp add: select_groups_def add_to_group_def toy_reserve_of bt_values_def MAX_TICKS_PER_BURN_def toy_burn_group_def)
    (simp add: toy_item_def)

lemma toy_elements':
  "ee_policy_asset toy_burn_elements n = replicate 32 8" "ee_account_script toy_burn_elements a k n = 2 # a @ k"
  "ee_op_return toy_burn_elements d = 0x6A # d"
  by (simp_all add: toy_burn_elements_def toy_elements_fields)

lemma toy_program:
  "\<exists>program. issued_program toy_burn_elements [7] toy_item = Inr program \<and>
     issued_network_input toy_burn_elements [7] toy_item Liquid = Inr program"
  by (simp add: issued_program_def issued_network_input_def toy_item_def voucher_program_def voucher_arguments_of_def
      TICK_ASSET_KIND_def ORACLE_VERIFIER_KIND_def voucher_script_def toy_burn_elements_def toy_round_elements_def toy_elements_def)

lemma toy_matches: "item_matches \<lparr>bs_tick = Some [10], bs_verifier = None\<rparr> toy_item (toy_utxo ([2], 0) [10] (4 # replicate 32 0)) = Inr ()"
  by (simp add: item_matches_def burn_asset_of_def toy_utxo_fields toy_item_def)

lemma toy_examined: "examine_groups toy_burn_setup toy_burn_rpc h [toy_burn_group] table = (table, Inr [toy_burnable])"
proof -
  obtain program where "issued_program toy_burn_elements [7] toy_item = Inr program" using toy_program by blast
  moreover have "na_asset_id toy_round_eye = [7]" by (simp add: toy_round_eye_def)
  ultimately show ?thesis
    by (simp add: examine_group_def toy_burn_group_def toy_found Let_def toy_burn_setup_def toy_elements' toy_utxo_fields
        toy_account_def toy_reserve_of toy_matches map_err_def toy_burnable_def)
qed

lemma toy_fee: "burn_fee 50 1 1 = Inr 129"
  by (simp add: burn_fee_def checked_mul_def checked_add_def BURN_ITEM_WEIGHT_def BURN_RESERVE_WEIGHT_def BURN_BASE_WEIGHT_def
      BURN_FEE_RATE_SAT_PER_KVB_def div_ceil_def)

lemma toy_built_burn:
  "\<exists>built. build_burn_transaction toy_burn_setup (toy_utxo ([1], 0) [7] [3]) [toy_burnable] 50 = Inr built \<and>
     burn_pset toy_burn_elements built = toy_burn_pset"
proof -
  obtain program where p: "issued_network_input toy_burn_elements [7] toy_item Liquid = Inr program" using toy_program by blast
  have eye: "na_asset_id toy_round_eye = [7]" "na_contract_data toy_round_eye = Some (replicate 68 0)" by (simp_all add: toy_round_eye_def)
  obtain data where data: "ee_decode_contract toy_burn_elements (replicate 68 0) = Some data"
    by (simp add: toy_burn_elements_def toy_round_elements_def toy_elements_def)
  obtain ap where ap: "storm_eye_program toy_burn_elements toy_round_eye = Inr ap"
    using data eye by (simp add: storm_eye_program_def storm_eye_contract_data_def)
  have burns: "burn_outputs \<lparr>bs_tick = Some [10], bs_verifier = None\<rparr> [toy_item] = Inr [([10], 100000000)]"
    by (simp add: burn_outputs_def add_burn_def burn_asset_of_def toy_item_def bt_values_def checked_add_def Let_def)
  have share: "remaining_reserve 129 1 0 100000000 = Inr 99999871"
    by (simp add: remaining_reserve_def fee_share_def checked_sub_def)
  have fields: "bu_elements toy_burn_setup = toy_burn_elements" "bu_storm_eye toy_burn_setup = toy_round_eye"
    "bu_assets toy_burn_setup = \<lparr>bs_tick = Some [10], bs_verifier = None\<rparr>" "bu_network toy_burn_setup = Liquid"
    "bb_group toy_burnable = toy_burn_group" "bb_ticks toy_burnable = [toy_utxo ([2], 0) [10] (4 # replicate 32 0)]"
    "bb_reserve toy_burnable = toy_utxo ([3], 1) (replicate 32 8) toy_account"
    "bg_ticks toy_burn_group = [toy_item]" "bg_owner toy_burn_group = replicate 32 9"
    by (simp_all add: toy_burn_setup_def toy_burnable_def toy_burn_group_def)
  have build: "ee_build_pset toy_burn_elements = toy_build"
    by (simp add: toy_burn_elements_def toy_round_elements_def toy_elements_def)
  show ?thesis
    using toy_fee burns share p ap data
    by (simp add: build_burn_transaction_def fields eye Let_def toy_matches reserve_input_def burn_pset_def build toy_elements'
        toy_utxo_fields output_from_utxo_def toy_burn_pset_def toy_account_def)
qed

lemma toy_burn_assets:
  "get_asset STORM_EYE_KIND (rv_assets toy_view) = Some toy_round_eye"
  "burn_assets_of (rv_assets toy_view) = \<lparr>bs_tick = Some [10], bs_verifier = None\<rparr>"
  by (simp_all add: burn_assets_of_def toy_view_def get_asset_def bt_get_def STORM_EYE_KIND_def TICK_ASSET_KIND_def
      ORACLE_VERIFIER_KIND_def toy_tick_asset_def)

lemma toy_burn_hash: "burn_signing_hash toy_burn_elements toy_burn_pset toy_round_eye Liquid = Inr [3, 4]"
  by (simp add: burn_signing_hash_def signing_hash_def storm_eye_program_def storm_eye_contract_data_def toy_round_eye_def
      toy_burn_elements_def toy_round_elements_def toy_elements_def toy_burn_pset_def toy_build_def)

lemma toy_candidate:
  "\<exists>pb. burn_candidate toy_burn_elements (rv_assets toy_view) Liquid toy_round_config toy_burn_rpc h 0 MAX_TICKS_PER_BURN w toy_items =
     (toy_items, Inr (Some pb)) \<and> pb_pset pb = toy_burn_pset \<and> pb_group_count pb = 1"
proof -
  obtain built where built: "build_burn_transaction toy_burn_setup (toy_utxo ([1], 0) [7] [3]) [toy_burnable] 50 = Inr built"
    "burn_pset toy_burn_elements built = toy_burn_pset" using toy_built_burn by blast
  have eye: "na_asset_id toy_round_eye = [7]" "na_contract_script toy_round_eye = [3]" "pc_burn_fee toy_round_config = 50"
    by (simp_all add: toy_round_eye_def toy_round_config_def)
  have asset: "burn_asset (rv_assets toy_view) STORM_EYE_KIND = Inr toy_round_eye" by (simp add: burn_asset_def toy_burn_assets)
  have se: "\<lparr>bu_elements = toy_burn_elements, bu_storm_eye = toy_round_eye, bu_assets = \<lparr>bs_tick = Some [10], bs_verifier = None\<rparr>,
      bu_network = Liquid\<rparr> = toy_burn_setup" by (simp add: toy_burn_setup_def)
  show ?thesis
    unfolding burn_candidate_def toy_expired toy_split Let_def prod.case bt_values_def
    using built
    by (simp add: toy_select asset toy_burn_assets(2) se toy_examined eye toy_eye_taken toy_burn_hash flip: burn_pset_def
        del: examine_groups.simps)
qed

text \<open>The laws of the chain and of the encoding hold here.\<close>

lemma toy_burn_laws:
  "build_law toy_burn_elements" "to_txout_law toy_burn_elements" "chain_view_law toy_burn_rpc"
proof -
  show "build_law toy_burn_elements" "to_txout_law toy_burn_elements"
    using toy_elements_laws by (simp_all add: build_law_def to_txout_law_def toy_burn_elements_def toy_round_elements_def)
  show "chain_view_law toy_burn_rpc"
    by (auto simp: chain_view_law_def toy_burn_rpc_def toy_answer_def split: if_splits)
qed

lemma toy_items_ok: "utxos_ok toy_items" "unspent_items toy_burn_rpc [toy_item]"
  by (simp_all add: utxos_ok_def toy_items_def bt_wf_def bt_all_def utxo_wf_def utxo_key_def toy_item_def unspent_items_def
      item_outpoint_def toy_found)

end
