(* ===== verification/Burn_Queue.thy ===== *)
theory Burn_Queue
  imports Burn_Accept
begin

text \<open>
  What burns do to the table of monitored outputs: every operation is a run of the table's own steps that belong to no
  block (\<open>utxo_step\<close> in \<open>Utxo_Claims\<close>), on every path, errors included. What the steps keep, the operations keep.
\<close>

definition queue_steps :: "u64 \<Rightarrow> utxo_table \<Rightarrow> utxo_table \<Rightarrow> bool" where
  "queue_steps L = (utxo_step L None)\<^sup>*\<^sup>*"

lemma queue_refl [simp, intro]: "queue_steps L t t"
  by (simp add: queue_steps_def)

lemma queue_trans [trans]: "queue_steps L t u \<Longrightarrow> queue_steps L u v \<Longrightarrow> queue_steps L t v"
  unfolding queue_steps_def by (rule rtranclp_trans)

lemma queue_one:
  "mark_burning ks txid h t = Inr (t', n) \<Longrightarrow> queue_steps L t t'"
  "release_burning txid h t = Inr (t', n) \<Longrightarrow> queue_steps L t t'"
  "quarantine_unburnable ks h t = Inr (t', n) \<Longrightarrow> queue_steps L t t'"
  unfolding queue_steps_def by (blast intro: r_into_rtranclp utxo_step.intros)+

lemma queue_run: "queue_steps L t t' \<Longrightarrow> utxo_run L hs t \<Longrightarrow> utxo_run L hs t'"
  unfolding queue_steps_def by (induction rule: rtranclp_induct) (auto intro: utxo_run.other)

lemma quarantine_items_steps: "quarantine_items c items h t = (t', a) \<Longrightarrow> queue_steps L t t'"
  by (auto simp: quarantine_items_def split: sum.splits prod.splits intro: queue_one)

lemma quarantine_groups_steps: "quarantine_groups groups h t = (t', a) \<Longrightarrow> queue_steps L t t'"
proof (induction groups arbitrary: t)
  case (Cons items groups)
  then show ?case
    by (auto simp: quarantine_group_def split: prod.splits sum.splits intro: quarantine_items_steps queue_trans)
qed simp

lemma available_items_steps: "available_items rpc h items t = (t', a) \<Longrightarrow> queue_steps L t t'"
proof (induction items arbitrary: t a)
  case (Cons u items)
  then show ?case
    by (auto split: prod.splits sum.splits option.splits intro: queue_one(1) queue_trans)
qed simp

lemma dropped_steps:
  "(case quarantine_items c items h t of (t1, x) \<Rightarrow> (t1, bind_res x f)) = (t', a) \<Longrightarrow> queue_steps L t t'"
  by (auto split: prod.splits intro: quarantine_items_steps)

lemma examine_group_steps: "examine_group se rpc h g t = (t', a) \<Longrightarrow> queue_steps L t t'"
  unfolding examine_group_def Let_def quarantine_group_def
  by (auto split: prod.splits sum.splits option.splits if_splits list.splits burning_error.splits
      intro: dropped_steps available_items_steps queue_trans quarantine_items_steps)

lemma examine_groups_steps: "examine_groups se rpc h gs t = (t', a) \<Longrightarrow> queue_steps L t t'"
proof (induction gs arbitrary: t a)
  case (Cons g gs)
  then show ?case
    by (auto split: prod.splits sum.splits intro: examine_group_steps queue_trans)
qed simp

lemma burn_candidate_steps:
  assumes "burn_candidate env assets network config rpc h lane limit w t = (t', a)"
  shows "queue_steps L t t'"
proof -
  obtain expired conflicting where split: "split_conflicting_reserves (list_expired (- 1) t) = (expired, conflicting)"
    by fastforce
  obtain t1 q where q: "quarantine_groups (bt_values conflicting) h t = (t1, q)" by fastforce
  have first: "queue_steps L t t1" by (rule quarantine_groups_steps [OF q])
  have "queue_steps L t1 t'"
    using assms unfolding burn_candidate_def Let_def split prod.case q
    by (auto split: prod.splits sum.splits list.splits simp del: examine_groups.simps intro: examine_groups_steps)
  with first show ?thesis by (rule queue_trans)
qed

lemma finalize_burn_steps: "queue_steps L t (fst (finalize_burn env rpc prepared signing proof h t))"
  by (auto simp: finalize_burn_def split: sum.splits prod.splits intro: queue_one)

lemma observe_burn_steps: "queue_steps L t (fst (observe_burn_broadcast rpc notification t))"
  by (auto simp: observe_burn_broadcast_def Let_def split: sum.splits prod.splits intro: queue_one)

lemma release_each_steps: "queue_steps L t (fst (release_each rpc mempool h txids n t))"
proof (induction rpc mempool h txids n t rule: release_each.induct)
  case (2 rpc mempool h txid txids n t)
  then show ?case by (auto split: sum.splits prod.splits intro: queue_one(2) queue_trans)
qed simp

lemma reconcile_each_steps: "queue_steps L t (fst (reconcile_each rpc expired h txids n t))"
proof (induction rpc expired h txids n t rule: reconcile_each.induct)
  case (2 rpc expired h txid txids n t)
  then show ?case by (auto split: sum.splits prod.splits list.splits intro: queue_one(1) queue_trans)
qed simp

end
