(* ===== verification/Burn_Properties.thy ===== *)
theory Burn_Properties
  imports Burn_Toy Burn_Queue
begin

text \<open>
  The properties of burns: the search ends, what the leader prepares is accepted, what is accepted is exact. An item
  that is left out of a group may change the order of the groups that the signers derive: \<open>left_out_item_reorders\<close>.
\<close>

subsection \<open>The search ends\<close>

definition burn_interval :: "burn_search \<Rightarrow> bool" where
  "burn_interval s \<longleftrightarrow> bf_upper s \<le> MAX_TICKS_PER_BURN \<and>
     (bf_lower s \<le> bf_upper s \<longrightarrow> bf_lower s \<le> bf_limit s \<and> bf_limit s \<le> bf_upper s \<and> 0 < bf_lower s)"

definition burn_width :: "burn_search \<Rightarrow> nat" where
  "burn_width s = Suc (unat (bf_upper s)) - unat (bf_lower s)"

lemma midpoint:
  fixes l u :: "'a::len word"
  assumes "l \<le> u"
  shows "l \<le> l + (u - l) div 2 \<and> l + (u - l) div 2 \<le> u"
proof -
  have diff: "unat (u - l) = unat u - unat l" using assms by (simp add: unat_sub)
  have "unat ((u - l) div 2) \<le> unat (u - l)" 
    by (metis div_le_dividend unat_div)
  then have "unat l + unat ((u - l) div 2) \<le> unat u" using diff assms by (simp add: word_le_nat_alt)
  moreover have "unat u < 2 ^ LENGTH('a)" by simp
  ultimately have "unat (l + (u - l) div 2) = unat l + unat ((u - l) div 2)" by (subst unat_add_lem [symmetric]) linarith
  then show ?thesis using \<open>unat l + unat ((u - l) div 2) \<le> unat u\<close> by (simp add: word_le_nat_alt)
qed

lemma burn_next_interval:
  assumes "u \<le> MAX_TICKS_PER_BURN" "0 < l" "Suc (unat u) - unat l < n"
  shows "burn_interval (burn_next l u s) \<and> burn_width (burn_next l u s) < n"
  using assms midpoint [of l u] by (simp add: burn_interval_def burn_width_def burn_next_def)

lemma burn_step_continues:
  assumes "burn_search_step env candidate_of max_weight s = (s', BurnContinue)"
    and s: "burn_interval s" "bf_lower s \<le> bf_upper s"
    and groups: "\<And>limit k t t' c. candidate_of limit k t = (t', Inr (Some c)) \<Longrightarrow>
      0 < pb_group_count c \<and> pb_group_count c \<le> unat limit"
  shows "burn_interval s' \<and> burn_width s' < burn_width s"
proof -
  have limit: "unat (bf_lower s) \<le> unat (bf_limit s)" "unat (bf_limit s) \<le> unat (bf_upper s)" "0 < unat (bf_lower s)"
    "unat (bf_upper s) \<le> 100"
    using s by (simp_all add: burn_interval_def word_le_nat_alt word_less_nat_alt MAX_TICKS_PER_BURN_def)
  obtain t answer where c: "candidate_of (bf_limit s) (bf_attempt s) (bf_table s) = (t, answer)" by fastforce
  show ?thesis
  proof (cases answer)
    case (Inl e)
    then have next_s: "s' = burn_next (bf_lower s) (bf_limit s - 1) (s\<lparr>bf_table := t\<rparr>)" and many: "1 < bf_limit s"
      using assms(1) c by (auto simp: burn_search_step_def Let_def split: if_splits)
    have "unat (bf_limit s - 1) = unat (bf_limit s) - 1" using many by (simp add: unat_sub word_le_nat_alt word_less_nat_alt)
    then show ?thesis
      unfolding next_s using limit s by (intro burn_next_interval)
        (simp_all add: word_le_nat_alt word_less_nat_alt MAX_TICKS_PER_BURN_def burn_width_def)
  next
    case (Inr found)
    then obtain candidate where found: "found = Some candidate"
      using assms(1) c by (cases found) (auto simp: burn_search_step_def)
    have count: "0 < pb_group_count candidate" "pb_group_count candidate \<le> unat (bf_limit s)"
      using groups [OF c [unfolded Inr found]] by simp_all
    obtain weight where weight: "burn_weight env candidate = Inr weight"
      using assms(1) c Inr found by (cases "burn_weight env candidate") (auto simp: burn_search_step_def Let_def)
    let ?n = "of_nat (pb_group_count candidate) :: usize"
    have n: "unat ?n = pb_group_count candidate" using count limit by (simp add: unat_of_nat)
    show ?thesis
    proof (cases "weight \<le> max_weight")
      case True
      then have next_s: "s' = burn_next (?n + 1) (bf_upper s) (s\<lparr>bf_table := t, bf_best := Some candidate\<rparr>)"
        and full: "\<not> ?n < bf_limit s"
        using assms(1) c Inr found weight by (auto simp: burn_search_step_def Let_def split: if_splits)
      have "unat ?n = unat (bf_limit s)" using full n count by (simp add: word_less_nat_alt)
      moreover have "unat (?n + 1) = unat ?n + 1" using n count limit by (simp add: unat_word_ariths)
      ultimately show ?thesis
        unfolding next_s using limit s by (intro burn_next_interval)
          (simp_all add: word_less_nat_alt burn_interval_def burn_width_def)
    next
      case False
      then have next_s: "s' = burn_next (bf_lower s) (?n - 1) (s\<lparr>bf_table := t\<rparr>)" and many: "?n \<noteq> 1"
        using assms(1) c Inr found weight by (auto simp: burn_search_step_def Let_def split: if_splits)
      have "unat ?n \<noteq> 0" using n count by simp
      then have "unat (?n - 1) = unat ?n - 1" by (simp add: unat_sub word_le_nat_alt)
      then show ?thesis
        unfolding next_s using limit s n count \<open>unat ?n \<noteq> 0\<close> by (intro burn_next_interval)
          (simp_all add: word_le_nat_alt word_less_nat_alt MAX_TICKS_PER_BURN_def burn_width_def)
    qed
  qed
qed

lemma burn_rounds_run:
  assumes "\<And>s s'. next_step s = (s', BurnContinue) \<Longrightarrow> burn_interval s \<Longrightarrow> bf_lower s \<le> bf_upper s \<Longrightarrow>
      burn_interval s' \<and> burn_width s' < burn_width s"
    and steps: "\<And>s s' r. next_step s = (s', r) \<Longrightarrow> queue_steps L (bf_table s) (bf_table s')"
  shows "burn_interval s \<Longrightarrow> \<exists>t answer. burn_rounds next_step s = Some (t, answer) \<and> queue_steps L (bf_table s) t"
proof (induction "burn_width s" arbitrary: s rule: less_induct)
  case less
  show ?case
  proof (cases "bf_lower s \<le> bf_upper s")
    case True
    obtain s' r where step: "next_step s = (s', r)" by fastforce
    show ?thesis
    proof (cases r)
      case BurnContinue
      then have "burn_interval s' \<and> burn_width s' < burn_width s" using assms(1) less.prems True step by blast
      then obtain t answer where "burn_rounds next_step s' = Some (t, answer)" "queue_steps L (bf_table s') t"
        using less.hyps by blast
      then show ?thesis
        using True step BurnContinue queue_trans [OF steps [OF step]] by (subst burn_rounds.simps) simp
    qed (use True step steps [OF step] in \<open>subst burn_rounds.simps, simp\<close>)
  qed (subst burn_rounds.simps, simp)
qed

lemma burn_search_step_table:
  assumes "burn_search_step env candidate_of max_weight s = (s', r)"
    and "\<And>limit k t t' a. candidate_of limit k t = (t', a) \<Longrightarrow> queue_steps L t t'"
  shows "queue_steps L (bf_table s) (bf_table s')"
proof -
  obtain t a where c: "candidate_of (bf_limit s) (bf_attempt s) (bf_table s) = (t, a)" by fastforce
  have "bf_table s' = t"
    using assms(1) c by (auto simp: burn_search_step_def burn_next_def Let_def split: sum.splits option.splits if_splits)
  then show ?thesis using assms(2) [OF c] by simp
qed

lemma examine_groups_length:
  "examine_groups se rpc h gs table = (table', Inr bs) \<Longrightarrow> length bs \<le> length gs"
proof (induction gs arbitrary: table bs)
  case (Cons g gs)
  then show ?case by (fastforce simp: bind_res_eq_Inr split: prod.splits sum.splits option.splits)
qed simp

lemma prepare_burn_run:
  "\<exists>t answer. prepare_burn env assets network config rpcs h lane max_weight table = Some (t, answer) \<and> queue_steps L table t"
proof -
  let ?c = "\<lambda>limit k. burn_candidate env assets network config (rpcs k) h lane limit max_weight"
  let ?s = "\<lparr>bf_lower = 1, bf_upper = MAX_TICKS_PER_BURN, bf_limit = MAX_TICKS_PER_BURN, bf_best = None,
        bf_attempt = 0, bf_table = table\<rparr>"
  have groups: "0 < pb_group_count c \<and> pb_group_count c \<le> unat limit" if "?c limit k t = (t', Inr (Some c))" for limit k t t' c
    using burn_candidate_parts [OF that] selected_groups_ok(2) examine_groups_length by (metis le_trans length_greater_0_conv)
  have "\<exists>t answer. burn_rounds (burn_search_step env ?c max_weight) ?s = Some (t, answer) \<and> queue_steps L (bf_table ?s) t"
  proof (rule burn_rounds_run)
    show "burn_interval ?s" by (simp add: burn_interval_def MAX_TICKS_PER_BURN_def)
    show "queue_steps L (bf_table s) (bf_table s')" if "burn_search_step env ?c max_weight s = (s', r)" for s s' r
      by (rule burn_search_step_table [OF that]) (rule burn_candidate_steps)
  qed (rule burn_step_continues, assumption, assumption, assumption, rule groups)
  then show ?thesis by (simp add: prepare_burn_def)
qed

text \<open>
  C37: the leader's search for the largest burn always ends, with a burn, with none, or with an error, whatever the
  server answers at each attempt: every attempt takes at most as many groups as it was allowed, so the interval
  between the bounds shrinks, also when a reserve cannot pay its share or the transaction is too heavy.
\<close>
theorem prepare_burn_returns:
  "\<exists>answer. prepare_burn env assets network config rpcs h lane max_weight table = Some answer"
  using prepare_burn_run by blast

subsection \<open>The queue of expired items\<close>


subsection \<open>What is prepared is accepted\<close>

text \<open>
  C38: a burn the leader prepares is accepted by every signer who sees the chain and the monitored outputs as the
  leader did, as long as no expired item has been spent meanwhile: the signer finds the inputs live, derives the same
  groups in the same order from the items alone, and agrees with every amount and with the hash that is signed.
\<close>
theorem prepared_burn_accepted:
  assumes prepared: "burn_candidate env assets network config rpc h lane limit max_weight table = (table', Inr (Some pb))"
    and laws: "build_law env" "to_txout_law env" "chain_view_law rpc"
    and codec: "ee_decode_pset env (be_tx (pb_request pb)) = Some (pb_pset pb)"
    and state: "utxos_ok table" "unspent_items rpc (list_expired (- 1) table)"
    and apart: "\<forall>u\<in>set (list_expired (- 1) table). reserve_of u \<notin> item_outpoint ` set (list_expired (- 1) table)"
  shows "validate_burn_request env assets network config rpc table (pb_request pb) = Inr ()"
proof -
  let ?expired = "list_expired (- 1) table"
  obtain storm_eye gs bs table1 eye built where
    storm_eye: "get_asset STORM_EYE_KIND assets = Some storm_eye"
    and select: "select_groups (fst (split_conflicting_reserves ?expired)) limit = Inr gs"
    and examine: "examine_groups \<lparr>bu_elements = env, bu_storm_eye = storm_eye, bu_assets = burn_assets_of assets, bu_network = network\<rparr>
      rpc h gs table1 = (table', Inr bs)" and bs: "bs \<noteq> []"
    and eye: "find_contract_utxo rpc (na_contract_script storm_eye) (Some (na_asset_id storm_eye)) (NetworkLeader lane) = Inr eye"
    and built: "build_burn_transaction \<lparr>bu_elements = env, bu_storm_eye = storm_eye, bu_assets = burn_assets_of assets, bu_network = network\<rparr>
      eye bs (pc_burn_fee config) = Inr built"
    and hash: "burn_signing_hash env (burn_pset env built) storm_eye network = Inr (be_signing_hash (pb_request pb))"
    and p: "pb_pset pb = burn_pset env built"
    using burn_candidate_parts [OF prepared] by blast
  define se where "se = \<lparr>bu_elements = env, bu_storm_eye = storm_eye, bu_assets = burn_assets_of assets, bu_network = network\<rparr>"
  have fields: "bu_elements se = env" "bu_storm_eye se = storm_eye" "bu_network se = network" by (simp_all add: se_def)
  note examine = examine [folded se_def] and built = built [folded se_def]
  let ?kept = "fst (split_conflicting_reserves ?expired)"
  have kept: "set ?kept \<subseteq> set ?expired" by (auto simp: split_conflicting_reserves_def Let_def)
  note sel = selected_groups_ok [OF select]
  have member: "set (bg_ticks g) \<subseteq> set ?expired" if "g \<in> set gs" for g
    using sel(3) that kept by (metis (no_types, lifting) filter_is_subset subset_trans)
  then have quiet: "\<forall>g\<in>set gs. unspent_items rpc (bg_ticks g)" using state(2) unfolding unspent_items_def by blast
  note found = examine_groups_found [OF examine quiet]
  have ok: "\<forall>b\<in>set bs. burnable_ok se rpc b" and sub: "set (map bb_group bs) \<subseteq> set gs" using found by blast+
  have groups: "groups_ok (map bb_group bs)"
    using found by (intro groups_ok_kept [OF sel(1)]) blast+
  have known: "set (concat (map bg_ticks (map bb_group bs))) \<subseteq> set ?expired"
    using member sub by (simp only: set_concat set_map UN_subset_iff ball_simps) blast
  have reserves: "\<forall>b\<in>set bs. bg_reserve (bb_group b) \<notin> item_outpoint ` set ?expired"
  proof
    fix b assume "b \<in> set bs"
    then have g: "bb_group b \<in> set (map bb_group bs)" by simp
    then obtain u where u: "u \<in> set (bg_ticks (bb_group b))" "reserve_of u = bg_reserve (bb_group b)"
      using groups unfolding groups_ok_def by (metis list.set_sel(1))
    then have "u \<in> set ?expired" using member sub g by blast
    then show "bg_reserve (bb_group b) \<notin> item_outpoint ` set ?expired" using apart u(2) by metis
  qed
  note eye_facts = found_contract_utxo [OF eye laws(3)]
  have eye_ok: "eye_ok se eye" unfolding eye_ok_def fields using eye_facts by blast
  obtain first inputs burns returns fee where parts: "built_from se eye bs (pc_burn_fee config) built first inputs burns returns fee"
    using build_burn_transaction_parts [OF built] by blast
  have b1: "build_law (bu_elements se)" "to_txout_law (bu_elements se)" using laws by (simp_all add: fields)
  have "layout_ok se (burn_pset env built) (pb_request pb) ?expired (pc_burn_fee config)
      (concat (map bg_ticks (map bb_group bs))) (map bb_group bs) burns fee"
    using built_burn_layout [OF parts b1 eye_ok bs ok groups known expired_outpoints_distinct [OF state(1)] reserves] hash
    unfolding fields by blast
  then have layout: "validate_burn_layout se (burn_pset env built) (pb_request pb) ?expired (pc_burn_fee config) = Inr ()"
    unfolding validate_burn_layout_Inr by blast
  have live: "check_burn_inputs rpc (ps_inputs (burn_pset env built)) = Inr ()"
    unfolding check_burn_inputs_Inr
  proof
    fix i assume "i \<in> set (ps_inputs (burn_pset env built))"
    then obtain j where j: "j < length (ps_inputs (burn_pset env built))" "i = ps_inputs (burn_pset env built) ! j"
      by (auto simp: in_set_conv_nth)
    show "\<exists>x. get_explicit_outpoint rpc (input_at i) = Inr x \<and> pi_witness_utxo i = Some (ut_txout x)"
      using built_input_live [OF parts b1 eye_ok ok eye_facts(1), of j] j unfolding fields by (auto simp: witness_utxo_eq_Inr)
  qed
  show ?thesis
    unfolding validate_burn_request_def using storm_eye codec p live layout by (simp add: se_def)
qed

theorem prepared_burn_accepted_witness:
  "\<exists>pb. burn_candidate toy_burn_elements (rv_assets toy_view) Liquid toy_round_config toy_burn_rpc 9 0 MAX_TICKS_PER_BURN 100 toy_items =
     (toy_items, Inr (Some pb)) \<and>
     validate_burn_request toy_burn_elements (rv_assets toy_view) Liquid toy_round_config toy_burn_rpc toy_items (pb_request pb) = Inr ()"
proof -
  obtain pb where pb: "burn_candidate toy_burn_elements (rv_assets toy_view) Liquid toy_round_config toy_burn_rpc 9 0
      MAX_TICKS_PER_BURN 100 toy_items = (toy_items, Inr (Some pb))" "pb_pset pb = toy_burn_pset"
    using toy_candidate by blast
  have codec: "ee_decode_pset toy_burn_elements (be_tx (pb_request pb)) = Some (pb_pset pb)"
    using pb(2) by (simp add: toy_burn_elements_def)
  have apart: "\<forall>u\<in>set (list_expired (- 1) toy_items). reserve_of u \<notin> item_outpoint ` set (list_expired (- 1) toy_items)"
    by (simp add: toy_expired toy_reserve_of)
  show ?thesis
    using prepared_burn_accepted [OF pb(1) toy_burn_laws codec toy_items_ok(1) _ apart] toy_items_ok(2) pb(1)
    by (simp add: toy_expired)
qed

subsection \<open>What is accepted is exact\<close>


definition toy_burn_request :: burn_expired_utxos where
  "toy_burn_request = \<lparr>be_tx = [], be_signing_hash = [3, 4], be_branch = [], be_block_height = 9, be_chain_tip = None\<rparr>"

lemma toy_burn_layout: "validate_burn_layout toy_burn_setup toy_burn_pset toy_burn_request [toy_item] 50 = Inr ()"
proof -
  obtain built where built: "build_burn_transaction toy_burn_setup (toy_utxo ([1], 0) [7] [3]) [toy_burnable] 50 = Inr built"
    "burn_pset toy_burn_elements built = toy_burn_pset" using toy_built_burn by blast
  obtain first inputs burns returns fee where
    parts: "built_from toy_burn_setup (toy_utxo ([1], 0) [7] [3]) [toy_burnable] 50 built first inputs burns returns fee"
    using build_burn_transaction_parts [OF built(1)] by blast
  have fields: "bu_elements toy_burn_setup = toy_burn_elements" "bu_storm_eye toy_burn_setup = toy_round_eye"
    "bu_network toy_burn_setup = Liquid" "map bb_group [toy_burnable] = [toy_burn_group]"
    by (simp_all add: toy_burn_setup_def toy_burnable_def)
  have examined: "examine_groups toy_burn_setup toy_burn_rpc 9 [toy_burn_group] [] = ([], Inr [toy_burnable])" by (rule toy_examined)
  have item: "bg_ticks toy_burn_group = [toy_item]" by (simp add: toy_burn_group_def)
  have ok: "\<forall>b\<in>set [toy_burnable]. burnable_ok toy_burn_setup toy_burn_rpc b"
    using examine_groups_found [OF examined] toy_items_ok(2) item by simp
  have eye: "eye_ok toy_burn_setup (toy_utxo ([1], 0) [7] [3])"
    by (simp add: eye_ok_def fields toy_utxo_def utxo_asset_def utxo_amount_def toy_round_eye_def)
  have "layout_ok toy_burn_setup (burn_pset (bu_elements toy_burn_setup) built) toy_burn_request [toy_item] 50
      (concat (map bg_ticks (map bb_group [toy_burnable]))) (map bb_group [toy_burnable]) burns fee"
  proof (rule built_burn_layout [OF parts _ _ eye _ ok])
    show "groups_ok (map bb_group [toy_burnable])" unfolding fields by (rule selected_groups_ok(1) [OF toy_select])
    show "set (concat (map bg_ticks (map bb_group [toy_burnable]))) \<subseteq> set [toy_item]" unfolding fields by (simp add: item)
    show "\<forall>b\<in>set [toy_burnable]. bg_reserve (bb_group b) \<notin> item_outpoint ` set [toy_item]"
      by (simp add: toy_reserve_of toy_burnable_def toy_burn_group_def)
    show "burn_signing_hash (bu_elements toy_burn_setup) (burn_pset (bu_elements toy_burn_setup) built) (bu_storm_eye toy_burn_setup)
        (bu_network toy_burn_setup) = Inr (be_signing_hash toy_burn_request)"
      unfolding fields built(2) using toy_burn_hash by (simp add: toy_burn_request_def)
  qed (use toy_burn_laws in \<open>simp_all add: fields\<close>)
  then show ?thesis unfolding validate_burn_layout_Inr fields(1) built(2) by blast
qed


subsection \<open>An item that is left out\<close>

text \<open>
  The leader orders the groups before it leaves out the items that were spent meanwhile, the signers afterwards. If
  the oldest item of a group is left out, the group may change its place, and the reserves of the leader's
  transaction are not in the order the signers expect.
\<close>

definition late_item :: "u64 \<Rightarrow> bytes \<Rightarrow> monitored_utxo" where
  "late_item height reserve = toy_item\<lparr>mu_block_height := height, mu_burning_fee_txid := reserve\<rparr>"

lemma left_out_item_reorders:
  "\<exists>a b a'. select_groups [late_item 1 [3], late_item 9 [3], late_item 5 [4]] MAX_TICKS_PER_BURN = Inr [a, b] \<and>
     a' = a\<lparr>bg_ticks := [late_item 9 [3]]\<rparr> \<and>
     select_groups (concat (map bg_ticks [a', b])) MAX_TICKS_PER_BURN = Inr [b, a'] \<and> bg_reserve a' \<noteq> bg_reserve b"
  by (simp add: select_groups_def add_to_group_def reserve_of_def bt_values_def bt_get_def MAX_TICKS_PER_BURN_def
      late_item_def toy_item_def oldest_def)

end
