(* ===== verification/Spec2Isabelle.thy ===== *)
theory Spec2Isabelle
  imports Prices_Node Signing_Claims Voting_Claims Storm_Claims Droplet_Claims Utxo_Claims Network_Store
    Exchange_Claims Indexer_Claims Operator_Auth Round_Payments Round_Broadcast Burn_Properties
begin

text \<open>
  Verification of the price oracle: a network of nodes ("High Storm") that prices feeds from public sources,
  signs them together over the Storm transport, and issues Ticks and Oracle Verifiers on an Elements chain to
  the users who ask for them. The sources are \<open>src/price-feed\<close>, \<open>src/storm-tree\<close>, \<open>src/storm\<close> and
  \<open>src/high-storm\<close>; paths below are relative to these crates.

  How the parts interact. A node polls its sources and keeps a state for every feed (price-feed); from them it
  attests prices to its peers and judges the rates it is asked to sign (\<open>high_storm/prices.rs\<close>). Users submit
  batches of requests over the external API (\<open>external_api/users.rs\<close>), which are stored with the outputs that
  pay for them (\<open>db/user_request.rs\<close>). The coordinator of a block, chosen by \<open>high_storm/leader.rs\<close>, puts the
  pending batches together into one transaction (\<open>high_storm/user_requests.rs\<close>), every signer checks it, a
  quorum signs it (\<open>high_storm/signing.rs\<close>) under the key of a branch of the storm tree, and the coordinator
  broadcasts it. The indexer (\<open>high_storm/indexer\<close>) reads the chain block by block into the tables of issued
  outputs and of the Droplets ledger, and replays after a reorganisation. Members vote on changes
  (\<open>high_storm/voting.rs\<close>, \<open>db/voting.rs\<close>), and exchange the Droplets they earn (\<open>high_storm/droplets.rs\<close>).
  Messages between nodes travel over Storm, which authenticates peers, refuses replays and stages changes of the
  members (\<open>storm/src\<close>).

  The theories.

  \<^item> Prelude, Ordered_Map, Db_Tables: machine integers at their width, \<open>BTreeMap\<close> as a sorted association list,
    tables and the failures of SQL statements.
  \<^item> price-feed: Price_Data, Price_Registry, Price_Source, Price_Reduce (the median), Price_Cross (cross pairs in
    128-bit arithmetic), Feed_State, Feed_States and Price_Instruction; high_storm: Attestation_Store and
    Prices_Node.
  \<^item> storm-tree: Merkle_Tree (the complete tree in an array) and Storm_Tree (its branches, one for every subset of
    signers of threshold size).
  \<^item> storm: Storm_Message (frames and signatures), Storm_State, Storm_Network, Storm_Handlers (the code), then
    Storm_Steps (the node as a transition system) and Storm_Claims.
  \<^item> Signing, Signing_Sessions, Signing_Claims: distributed signing; Leader: the rotation of the coordinators;
    Node_Message: the messages of the network.
  \<^item> Voting_Store, Voting, Voting_Execution, Voting_Claims: votings, their stored form and what it promises.
  \<^item> Elements_Tx, Elements_Rpc, Script_Markers: transactions, the answers of the Elements server, and the data
    outputs the network writes and reads.
  \<^item> Droplet_Store, Utxo_Store, Asset_Store, Request_Store, Chain_Store, Network_Store: the remaining tables;
    Droplet_Claims and Utxo_Claims prove their invariants.
  \<^item> Chain_Index, Indexer, Indexer_Claims: the synchronisation with the chain; Droplet_Exchange and
    Exchange_Claims: an exchange, as its signers check it and as the indexer charges it.
  \<^item> Fee_Utxo, Users_Api, Api_Error, Operator_Auth: the external API.
  \<^item> Round_Rates, Round_Scan, Round_Token, Round_Build, Round_Search (the coordinator's side of an issuance
    round), Round_Validation (the signer's side), Round_Finalize (the broadcast), and Round_Claims,
    Round_Payments, Round_Broadcast with their properties; Round_Toy and Round_Run hold the concrete round of the
    witnesses.
  \<^item> \<open>Burn_Plan\<close>, \<open>Burn_Round\<close>, \<open>Burn_Search\<close>, \<open>Burn_Layout\<close>: the burn of expired outputs
    (\<open>high_storm/burning.rs\<close>): which groups of items are burned and what it costs, what is left out or put aside, the
    transaction, the search for the largest burn, the check of the signers, and the broadcast. \<open>Burn_Groups\<close> says what
    the choice of groups is as a function of the items, \<open>Burn_Claims\<close> what an accepted layout consists of,
    \<open>Burn_Accept\<close> that the transaction the leader builds has that layout, \<open>Burn_Queue\<close> what burns do to the table of
    monitored outputs. \<open>Burn_Properties\<close> states the properties: the search ends, what is prepared is accepted, what is
    accepted is exact, and every operation is a run of the table's own steps. \<open>Burn_Toy\<close> is the concrete burn of the
    witnesses.

  Conventions. A struct is a record, an enum a datatype, an error a value of a sum type; \<open>bind_res\<close> is the
  question mark of the code. A definition has the name of the function it models; a long function is split
  into definitions at its loops, and the loops are recursive functions. Loops over lists are structural; a page of
  requests is read by a function with a measure, and the search for the size of a round is a partial function
  whose termination is a theorem. The only fuel is the bound the code itself has, the hundred steps along a chain of
  unconfirmed tokens. Operations under one lock are one step, and the transition systems of Storm and of
  distributed signing take these steps in any order, so that every interleaving of the tasks is a sequence of
  steps. An operation of several statements that is not one transaction returns the database in every case, also
  when it fails.

  What the lemmas show: each component preserves its invariant (feed states serve sound values; signing sessions use
  every nonce once; stored votings are approved, executed and confirmed in order; the ledger is backed by the
  Treasury; monitored outputs go through their states in one direction; the journal of blocks is linked;
  connections belong to authenticated peers); the optimised routines agree with their references (the Merkle tree with
  the tree of its leaves, the replay with indexing from the fork); what one side writes the other reads (frames,
  price data, markers, the batches of a round); and the checks of a signer fix what is signed (an exchange is
  charged exactly, a round pays exactly, a broadcast round is verified and recorded). The interfaces (keyed maps,
  price reducers, feed availability, membership proofs, stores of the newest attestation, ledgers of approvals) are
  locales, interpreted on the model of the code.

  Parameters. SHA-256, Schnorr, ECDSA and MuSig2, the encodings (postcard, JSON, hex, the transaction library), the
  compiled programs of the contracts with their scripts and witnesses, zero-knowledge proofs, and the answers
  of the Elements server are arguments of the definitions; what is relied on of them is a named hypothesis
  (for instance \<open>op_return_law\<close>, \<open>to_txout_law\<close>), and the witnesses instantiate them with concrete functions.

  Not modelled. Sockets, the Noise handshake, timers, tasks and the channels between them; failing sends to a
  peer, metrics and log lines; failing connections to the database (only the errors of statements are values);
  the race of signing under several branches at once; some numbers inside error messages and the hexadecimal forms
  of results. Where the code would panic (an \<open>expect\<close>, an underflow), the model has an error of its own
  (\<open>StormPanic\<close>, \<open>DecoderPanic\<close> or a message), and theorems exclude it where the code relies on that.
  Whole files left out: \<open>main.rs\<close>, \<open>cli.rs\<close>, \<open>config.rs\<close>, \<open>ipc.rs\<close> (start-up and configuration),
  \<open>high_storm/mod.rs\<close> and \<open>handler.rs\<close> (the wiring of the tasks), \<open>assets.rs\<close> and \<open>issuance.rs\<close> beyond the program of
  the Storm Eye, \<open>renewal.rs\<close> and \<open>voting_execution.rs\<close> beyond what the tables keep of them, the pollers
  of the concrete exchanges, and the Simplicity contracts.
\<close>

end
